(* ===== verification/JsPrelude.thy ===== *)
theory JsPrelude
  imports Complex_Main "HOL-Library.AList"
begin

text \<open>
  Shared vocabulary of the development: the JavaScript containers the code uses and the
  interfaces several components rely on.

  \<^item> A JavaScript \<open>Map\<close> iterates in insertion order and \<open>set\<close> on a present key keeps its
    position. It is an association list with distinct keys; \<open>js_get\<close>, \<open>js_set\<close>,
    \<open>js_del\<close>, \<open>js_has\<close> are \<open>get\<close>, \<open>set\<close>, \<open>delete\<close>, \<open>has\<close>.
  \<^item> A JavaScript \<open>Set\<close> of strings is a distinct list in insertion order.
  \<^item> A function that can throw returns \<open>'e + 'r\<close>, \<open>Inl\<close> for the thrown error. A method that
    changes its object and can throw returns the pair of that result and the object after
    it, so changes made before a throw are kept.
  \<^item> \<open>keyed_store\<close> is the interface of a key/value store, \<open>bounded_log\<close> that of an array
    that drops its oldest element when it grows past a cap. Components interpret them on
    their own operations.
\<close>

named_theorems js_simps \<open>rewriting the JavaScript containers\<close>

section \<open>Map\<close>

type_synonym ('k, 'v) jsmap = "('k \<times> 'v) list"

abbreviation js_get :: "('k, 'v) jsmap \<Rightarrow> 'k \<Rightarrow> 'v option" where
  "js_get m k \<equiv> map_of m k"

abbreviation js_set :: "'k \<Rightarrow> 'v \<Rightarrow> ('k, 'v) jsmap \<Rightarrow> ('k, 'v) jsmap" where
  "js_set k v m \<equiv> AList.update k v m"

abbreviation js_del :: "'k \<Rightarrow> ('k, 'v) jsmap \<Rightarrow> ('k, 'v) jsmap" where
  "js_del k m \<equiv> AList.delete k m"

definition js_has :: "('k, 'v) jsmap \<Rightarrow> 'k \<Rightarrow> bool" where
  "js_has m k \<longleftrightarrow> js_get m k \<noteq> None"

definition js_wf :: "('k, 'v) jsmap \<Rightarrow> bool" where
  "js_wf m \<longleftrightarrow> distinct (map fst m)"

definition js_keys :: "('k, 'v) jsmap \<Rightarrow> 'k list" where
  "js_keys m = map fst m"

text \<open>\<open>m.get(k) || d\<close> and \<open>m.get(k) ?? d\<close> when no stored value is falsy.\<close>

definition get_or :: "'v \<Rightarrow> 'v option \<Rightarrow> 'v" where
  "get_or d x = (case x of None \<Rightarrow> d | Some v \<Rightarrow> v)"

lemma get_or_simps [simp]: "get_or d None = d" "get_or d (Some v) = v"
  by (simp_all add: get_or_def)

lemma js_get_set [js_simps]: "js_get (js_set k v m) k' = (if k' = k then Some v else js_get m k')"
  by (simp add: update_conv')

lemma js_get_del [js_simps]: "js_get (js_del k m) k' = (if k' = k then None else js_get m k')"
  by (simp add: delete_conv')

lemma js_wf_Nil [simp]: "js_wf []"
  by (simp add: js_wf_def)

lemma js_wf_set [simp, intro]: "js_wf m \<Longrightarrow> js_wf (js_set k v m)"
  unfolding js_wf_def by (rule distinct_update)

lemma js_wf_del [simp, intro]: "js_wf m \<Longrightarrow> js_wf (js_del k m)"
  unfolding js_wf_def by (rule distinct_delete)

lemma js_wf_filter: "js_wf m \<Longrightarrow> js_wf (filter P m)"
  by (induction m) (auto simp: js_wf_def)

lemma js_get_in: "js_get m k = Some v \<Longrightarrow> (k, v) \<in> set m"
  by (rule map_of_SomeD)

lemma js_in_get: "js_wf m \<Longrightarrow> (k, v) \<in> set m \<Longrightarrow> js_get m k = Some v"
  by (simp add: js_wf_def)

lemma js_has_iff: "js_has m k \<longleftrightarrow> k \<in> fst ` set m"
  by (simp add: js_has_def map_of_eq_None_iff)

lemma js_get_keyD: "js_get m k = Some v \<Longrightarrow> k \<in> fst ` set m"
  by (simp add: js_has_iff [symmetric] js_has_def)

lemma js_get_filter:
  "js_wf m \<Longrightarrow> js_get (filter P m) k =
     (case js_get m k of None \<Rightarrow> None | Some v \<Rightarrow> if P (k, v) then Some v else None)"
proof (induction m)
  case Nil
  then show ?case by simp
next
  case (Cons p m)
  obtain a b where p: "p = (a, b)" by (cases p)
  have nd: "a \<notin> fst ` set m" using Cons.prems by (simp add: js_wf_def p)
  then have "map_of (filter P m) a = None"
    by (auto simp: map_of_eq_None_iff)
  with Cons p show ?case by (auto simp: js_wf_def)
qed

lemma js_get_map_values:
  "js_get (map (\<lambda>(k, v). (k, f k v)) m) k = map_option (f k) (js_get m k)"
  by (induction m) auto

lemma js_wf_map_values: "js_wf m \<Longrightarrow> js_wf (map (\<lambda>(k, v). (k, f k v)) m)"
  by (simp add: js_wf_def comp_def case_prod_unfold)

lemma length_js_set:
  "length (js_set k v m) = (if js_has m k then length m else Suc (length m))"
  by (induction m) (auto simp: js_has_def)

lemma length_js_del:
  "js_wf m \<Longrightarrow> length (js_del k m) = (if js_has m k then length m - 1 else length m)"
proof (induction m)
  case Nil
  then show ?case by (simp add: js_has_def)
next
  case (Cons p m)
  obtain a b where p: "p = (a, b)" by (cases p)
  have wf: "js_wf m" and nd: "a \<notin> fst ` set m" using Cons.prems by (simp_all add: js_wf_def p)
  show ?case
  proof (cases "a = k")
    case True
    with nd have "js_del k m = m" by (simp add: delete_idem)
    with True p show ?thesis by (simp add: js_has_def)
  next
    case False
    then have "js_has (p # m) k = js_has m k" by (simp add: js_has_def p)
    moreover have "js_has m k \<Longrightarrow> 0 < length m" by (cases m) (auto simp: js_has_def)
    ultimately show ?thesis using False Cons.IH [OF wf] p by auto
  qed
qed

lemma length_js_del_le: "length (js_del k m) \<le> length m"
  by (induction m) auto

lemma js_set_keys: "fst ` set (js_set k v m) = insert k (fst ` set m)"
  by (simp add: dom_update)

lemma js_set_values: "(k', v') \<in> set (js_set k v m) \<Longrightarrow> (k', v') = (k, v) \<or> (k', v') \<in> set m"
  by (induction m) (auto split: if_splits)

lemma js_del_values: "p \<in> set (js_del k m) \<longleftrightarrow> p \<in> set m \<and> fst p \<noteq> k"
  by (induction m) auto

text \<open>A property of every stored value; the operations keep it.\<close>

definition js_all :: "('v \<Rightarrow> bool) \<Rightarrow> ('k, 'v) jsmap \<Rightarrow> bool" where
  "js_all P m \<longleftrightarrow> list_all (\<lambda>(k, v). P v) m"

lemma js_all_Nil [simp]: "js_all P []"
  by (simp add: js_all_def)

lemma js_all_Cons [simp]: "js_all P ((k, v) # m) \<longleftrightarrow> P v \<and> js_all P m"
  by (simp add: js_all_def)

lemma js_all_set: "js_all P m \<Longrightarrow> P v \<Longrightarrow> js_all P (js_set k v m)"
  by (induction m) auto

lemma js_all_del: "js_all P m \<Longrightarrow> js_all P (js_del k m)"
  by (induction m) auto

lemma js_all_filter: "js_all P m \<Longrightarrow> js_all P (filter Q m)"
  by (induction m) auto

lemma js_all_get: "js_all P m \<Longrightarrow> js_get m k = Some v \<Longrightarrow> P v"
  by (induction m) (auto split: if_splits)

lemma js_all_get_or: "js_all P m \<Longrightarrow> P d \<Longrightarrow> P (get_or d (js_get m k))"
  by (cases "js_get m k") (auto dest: js_all_get)

section \<open>Set\<close>

definition js_add :: "'a \<Rightarrow> 'a list \<Rightarrow> 'a list" where
  "js_add x s = (if x \<in> set s then s else s @ [x])"

definition js_remove :: "'a \<Rightarrow> 'a list \<Rightarrow> 'a list" where
  "js_remove x s = filter (\<lambda>y. y \<noteq> x) s"

lemma set_js_add [simp]: "set (js_add x s) = insert x (set s)"
  by (auto simp: js_add_def)

lemma set_js_remove [simp]: "set (js_remove x s) = set s - {x}"
  by (auto simp: js_remove_def)

lemma distinct_js_add [simp]: "distinct s \<Longrightarrow> distinct (js_add x s)"
  by (simp add: js_add_def)

lemma distinct_js_remove [simp]: "distinct s \<Longrightarrow> distinct (js_remove x s)"
  by (simp add: js_remove_def)

lemma js_add_nonempty [simp]: "js_add x s \<noteq> []"
  by (auto simp: js_add_def)

section \<open>Methods that throw\<close>

type_synonym ('s, 'e, 'r) js_method = "'s \<Rightarrow> ('e + 'r) \<times> 's"

text \<open>Run \<open>m\<close>, then \<open>f\<close> on its result; a throw of \<open>m\<close> skips \<open>f\<close> and keeps the state.\<close>

definition js_then :: "('s, 'e, 'a) js_method \<Rightarrow> ('a \<Rightarrow> ('s, 'e, 'b) js_method) \<Rightarrow> ('s, 'e, 'b) js_method" where
  "js_then m f s = (case m s of (Inl e, s') \<Rightarrow> (Inl e, s') | (Inr r, s') \<Rightarrow> f r s')"

definition js_return :: "'a \<Rightarrow> ('s, 'e, 'a) js_method" where
  "js_return r s = (Inr r, s)"

definition js_throw :: "'e \<Rightarrow> ('s, 'e, 'a) js_method" where
  "js_throw e s = (Inl e, s)"

text \<open>A synchronous library call that throws or returns, and leaves the state alone.\<close>

definition js_pure :: "'e + 'a \<Rightarrow> ('s, 'e, 'a) js_method" where
  "js_pure r s = (r, s)"

text \<open>\<open>try { m } catch { log }\<close>: the caller sees no error, the effects up to the throw stay.\<close>

definition js_swallow :: "('s, 'e, unit) js_method \<Rightarrow> ('s, 'e, unit) js_method" where
  "js_swallow m s = (Inr (), snd (m s))"

lemma js_throw_simps [simp]: "js_throw e s = (Inl e, s)"
  by (simp add: js_throw_def)

lemma js_pure_simps [simp]: "js_pure r s = (r, s)"
  by (simp add: js_pure_def)

lemma js_then_Inl: "m s = (Inl e, s') \<Longrightarrow> js_then m f s = (Inl e, s')"
  by (simp add: js_then_def)

lemma js_then_Inr: "m s = (Inr r, s') \<Longrightarrow> js_then m f s = f r s'"
  by (simp add: js_then_def)

lemma js_then_InrD:
  "fst (js_then m f s) = Inr r \<Longrightarrow> \<exists>a s'. m s = (Inr a, s') \<and> fst (f a s') = Inr r"
  unfolding js_then_def by (auto split: prod.splits sum.splits)

lemma js_then_InrE:
  assumes "js_then m f s = (Inr r, s')"
  obtains a s1 where "m s = (Inr a, s1)" and "f a s1 = (Inr r, s')"
  using assms unfolding js_then_def by (auto split: prod.splits sum.splits)

text \<open>An invariant every call keeps survives a sequence of calls, throws included.\<close>

lemma js_then_inv:
  "(\<And>s. I s \<Longrightarrow> I (snd (m s))) \<Longrightarrow> (\<And>r s. I s \<Longrightarrow> I (snd (f r s))) \<Longrightarrow> I s \<Longrightarrow> I (snd (js_then m f s))"
  unfolding js_then_def by (metis (no_types, lifting) old.prod.exhaust snd_conv split_conv sum.case_eq_if)

lemma js_then_frame:
  "(\<And>s. F (snd (m s)) = F s) \<Longrightarrow> (\<And>r s. F (snd (f r s)) = F s) \<Longrightarrow> F (snd (js_then m f s)) = F s"
  unfolding js_then_def by (metis (no_types, lifting) old.prod.exhaust snd_conv split_conv sum.case_eq_if)

lemma js_return_simps [simp]: "js_return r s = (Inr r, s)"
  by (simp add: js_return_def)

section \<open>Fresh ids\<close>

text \<open>An id no given one equals: one character longer than the longest. Used by the in-memory tables of witnesses.\<close>

definition fresh_text :: "string list \<Rightarrow> string" where
  "fresh_text ids = replicate (Suc (fold max (map length ids) 0)) CHR ''r''"

lemma fold_max_above: "(b::nat) \<le> fold max xs b \<and> (\<forall>x \<in> set xs. x \<le> fold max xs b)"
proof (induction xs arbitrary: b)
  case (Cons a xs)
  have "max a b \<le> fold max xs (max a b)" using Cons by blast
  moreover have "\<forall>x \<in> set xs. x \<le> fold max xs (max a b)" using Cons by blast
  ultimately show ?case by auto
qed simp

lemma fresh_text_fresh: "fresh_text ids \<notin> set ids"
proof
  assume "fresh_text ids \<in> set ids"
  then have "length (fresh_text ids) \<le> fold max (map length ids) 0"
    using fold_max_above [of 0 "map length ids"] by auto
  then show False by (simp add: fresh_text_def)
qed

section \<open>Specifications of methods\<close>

text \<open>
  \<open>js_spec P m Q E\<close>: started in a state with \<open>P\<close>, the method either returns some \<open>r\<close> in a state
  with \<open>Q r\<close> or throws in a state with \<open>E\<close>. The rules follow the constructors of methods.
\<close>

fun js_outcome :: "('s \<Rightarrow> bool) \<Rightarrow> ('r \<Rightarrow> 's \<Rightarrow> bool) \<Rightarrow> ('e + 'r) \<times> 's \<Rightarrow> bool" where
  "js_outcome E Q (Inl e, s) = E s"
| "js_outcome E Q (Inr r, s) = Q r s"

definition js_spec ::
  "('s \<Rightarrow> bool) \<Rightarrow> ('s, 'e, 'r) js_method \<Rightarrow> ('r \<Rightarrow> 's \<Rightarrow> bool) \<Rightarrow> ('s \<Rightarrow> bool) \<Rightarrow> bool" where
  "js_spec P m Q E \<longleftrightarrow> (\<forall>s. P s \<longrightarrow> js_outcome E Q (m s))"

lemma js_specI: "(\<And>s x s'. P s \<Longrightarrow> m s = (x, s') \<Longrightarrow> js_outcome E Q (x, s')) \<Longrightarrow> js_spec P m Q E"
  unfolding js_spec_def by (metis prod.collapse)

lemma js_specD: "js_spec P m Q E \<Longrightarrow> P s \<Longrightarrow> m s = (x, s') \<Longrightarrow> js_outcome E Q (x, s')"
  unfolding js_spec_def by metis

lemma outcome_mono:
  "js_outcome E Q x \<Longrightarrow> (\<And>r s. Q r s \<Longrightarrow> Q' r s) \<Longrightarrow> (\<And>s. E s \<Longrightarrow> E' s) \<Longrightarrow> js_outcome E' Q' x"
  by (cases "(E, Q, x)" rule: js_outcome.cases) simp_all

lemma js_spec_then:
  assumes "js_spec P m R E" and "\<And>r. js_spec (R r) (f r) Q E"
  shows "js_spec P (js_then m f) Q E"
proof (rule js_specI)
  fix s x s' assume P: "P s" and run: "js_then m f s = (x, s')"
  obtain y s1 where m: "m s = (y, s1)" by (rule prod.exhaust)
  show "js_outcome E Q (x, s')"
  proof (cases y)
    case (Inl e)
    then show ?thesis using js_specD [OF assms(1) P m] run m by (auto simp: js_then_def)
  next
    case (Inr r)
    then have "f r s1 = (x, s')" using run m by (simp add: js_then_def)
    with js_specD [OF assms(1) P m] Inr show ?thesis using js_specD [OF assms(2)] by simp
  qed
qed

lemma js_spec_swallow: "js_spec P m (\<lambda>_. Q) Q \<Longrightarrow> js_spec P (js_swallow m) (\<lambda>_. Q) E"
  unfolding js_spec_def js_swallow_def
  by (metis js_outcome.simps old.sum.exhaust prod.collapse)

lemma js_spec_return: "(\<And>s. P s \<Longrightarrow> Q r s) \<Longrightarrow> js_spec P (js_return r) Q E"
  by (simp add: js_spec_def)

lemma js_spec_throw: "(\<And>s. P s \<Longrightarrow> E s) \<Longrightarrow> js_spec P (js_throw e) Q E"
  by (simp add: js_spec_def)

lemma js_spec_pure:
  "(\<And>s r. P s \<Longrightarrow> x = Inr r \<Longrightarrow> Q r s) \<Longrightarrow> (\<And>s. P s \<Longrightarrow> E s) \<Longrightarrow> js_spec P (js_pure x) Q E"
  by (cases x) (simp_all add: js_spec_def)

lemma js_spec_pre: "js_spec P m Q E \<Longrightarrow> (\<And>s. P' s \<Longrightarrow> P s) \<Longrightarrow> js_spec P' m Q E"
  by (simp add: js_spec_def)

lemma js_spec_post:
  "js_spec P m Q E \<Longrightarrow> (\<And>r s. Q r s \<Longrightarrow> Q' r s) \<Longrightarrow> (\<And>s. E s \<Longrightarrow> E' s) \<Longrightarrow> js_spec P m Q' E'"
  unfolding js_spec_def using outcome_mono by blast

lemma js_spec_if:
  "js_spec (\<lambda>s. P s \<and> b) m Q E \<Longrightarrow> js_spec (\<lambda>s. P s \<and> \<not> b) n Q E \<Longrightarrow> js_spec P (if b then m else n) Q E"
  by (simp add: js_spec_def)

lemma js_spec_fact: "(b \<Longrightarrow> js_spec P m Q E) \<Longrightarrow> js_spec (\<lambda>s. P s \<and> b) m Q E"
  by (simp add: js_spec_def)

section \<open>Laws of a database client\<close>

text \<open>
  \<open>view\<close> reads the tables of interest out of the outside state. A query leaves them alone and answers
  from them; a change that throws leaves them alone, and one that returns has the given effect.
\<close>

definition db_reads :: "('s \<Rightarrow> 'v) \<Rightarrow> ('s, 'e, 'r) js_method \<Rightarrow> ('v \<Rightarrow> 'r \<Rightarrow> bool) \<Rightarrow> bool" where
  "db_reads view m answer \<longleftrightarrow>
     (\<forall>s x s'. m s = (x, s') \<longrightarrow> view s' = view s \<and> (case x of Inl e \<Rightarrow> True | Inr r \<Rightarrow> answer (view s) r))"

definition db_writes :: "('s \<Rightarrow> 'v) \<Rightarrow> ('s, 'e, 'r) js_method \<Rightarrow> ('v \<Rightarrow> 'r \<Rightarrow> 'v \<Rightarrow> bool) \<Rightarrow> bool" where
  "db_writes view m effect \<longleftrightarrow>
     (\<forall>s x s'. m s = (x, s') \<longrightarrow> (case x of Inl e \<Rightarrow> view s' = view s | Inr r \<Rightarrow> effect (view s) r (view s')))"

lemma db_reads_spec:
  assumes "db_reads view m answer"
  shows "js_spec (\<lambda>s. P (view s)) m (\<lambda>r s. P (view s) \<and> answer (view s) r) (\<lambda>s. P (view s))"
proof (rule js_specI)
  fix s x s' assume "P (view s)" and "m s = (x, s')"
  then show "js_outcome (\<lambda>s. P (view s)) (\<lambda>r s. P (view s) \<and> answer (view s) r) (x, s')"
    using assms [unfolded db_reads_def, rule_format, of s x s'] by (cases x) simp_all
qed

lemma db_reads_then:
  assumes "db_reads view m answer" and "\<And>r. js_spec (\<lambda>s. P (view s) \<and> answer (view s) r) (f r) Q E" and "\<And>s. P (view s) \<Longrightarrow> E s"
  shows "js_spec (\<lambda>s. P (view s)) (js_then m f) Q E"
  by (rule js_spec_then [OF js_spec_post [OF db_reads_spec [OF assms(1)]] assms(2)]) (simp_all add: assms(3))

lemma db_writes_spec:
  assumes "db_writes view m effect" and "\<And>v r v'. P v \<Longrightarrow> effect v r v' \<Longrightarrow> Q r v'" and "\<And>v. P v \<Longrightarrow> E v"
  shows "js_spec (\<lambda>s. P (view s)) m (\<lambda>r s. Q r (view s)) (\<lambda>s. E (view s))"
proof (rule js_specI)
  fix s x s' assume "P (view s)" and "m s = (x, s')"
  then show "js_outcome (\<lambda>s. E (view s)) (\<lambda>r s. Q r (view s)) (x, s')"
    using assms(1) [unfolded db_writes_def, rule_format, of s x s'] assms(2,3) by (cases x) auto
qed

text \<open>A method that keeps a property of the tables, whether it returns or throws; the rules follow its syntax.\<close>

definition db_keeps :: "('s \<Rightarrow> 'v) \<Rightarrow> ('v \<Rightarrow> bool) \<Rightarrow> ('s, 'e, 'r) js_method \<Rightarrow> bool" where
  "db_keeps view P m \<longleftrightarrow> (\<forall>s. P (view s) \<longrightarrow> P (view (snd (m s))))"

named_theorems keeps_rules \<open>rules for \<open>db_keeps\<close>\<close>

lemma db_keepsD: "db_keeps view P m \<Longrightarrow> P (view s) \<Longrightarrow> P (view (snd (m s)))"
  by (simp add: db_keeps_def)

lemma db_keeps_spec: "db_keeps view P m \<longleftrightarrow> js_spec (\<lambda>s. P (view s)) m (\<lambda>_ s. P (view s)) (\<lambda>s. P (view s))"
proof -
  have "js_outcome (\<lambda>s. P (view s)) (\<lambda>_ s. P (view s)) x = P (view (snd x))" for x :: "('c + 'd) \<times> 'a"
    by (cases x; cases "fst x") auto
  then show ?thesis by (simp add: db_keeps_def js_spec_def)
qed

lemma db_keeps_then [keeps_rules]: "db_keeps view P m \<Longrightarrow> (\<And>r. db_keeps view P (f r)) \<Longrightarrow> db_keeps view P (js_then m f)"
  unfolding db_keeps_spec by (rule js_spec_then)

lemma db_keeps_return [keeps_rules]: "db_keeps view P (js_return r)"
  by (simp add: db_keeps_def)

lemma db_keeps_throw [keeps_rules]: "db_keeps view P (js_throw e)"
  by (simp add: db_keeps_def)

lemma db_keeps_pure [keeps_rules]: "db_keeps view P (js_pure x)"
  by (simp add: db_keeps_def)

lemma db_keeps_swallow [keeps_rules]: "db_keeps view P m \<Longrightarrow> db_keeps view P (js_swallow m)"
  by (simp add: db_keeps_def js_swallow_def)

lemma db_keeps_if [keeps_rules]:
  "(b \<Longrightarrow> db_keeps view P m) \<Longrightarrow> (\<not> b \<Longrightarrow> db_keeps view P n) \<Longrightarrow> db_keeps view P (if b then m else n)"
  by simp

lemma db_keeps_option [keeps_rules]:
  "(x = None \<Longrightarrow> db_keeps view P m) \<Longrightarrow> (\<And>y. x = Some y \<Longrightarrow> db_keeps view P (f y)) \<Longrightarrow>
   db_keeps view P (case x of None \<Rightarrow> m | Some y \<Rightarrow> f y)"
  by (cases x) simp_all

lemma db_keeps_reads: "db_reads view m answer \<Longrightarrow> db_keeps view P m"
  unfolding db_keeps_def db_reads_def by (metis prod.collapse)

lemma db_keeps_writes:
  assumes "db_writes view m effect" and "\<And>v r v'. P v \<Longrightarrow> effect v r v' \<Longrightarrow> P v'"
  shows "db_keeps view P m"
  unfolding db_keeps_spec by (rule db_writes_spec [OF assms(1)]) (use assms(2) in blast)+

text \<open>A call whose argument is read off the state, as a timestamp is.\<close>

lemma db_writes_now: "(\<And>a. db_writes view (m a) (effect a)) \<Longrightarrow> db_writes view (\<lambda>s. m (g s) s) (\<lambda>v r v'. \<exists>a. effect a v r v')"
  unfolding db_writes_def by (fastforce split: sum.splits)

lemma db_keeps_now: "(\<And>a. db_keeps view P (m a)) \<Longrightarrow> db_keeps view P (\<lambda>s. m (g s) s)"
  by (simp add: db_keeps_def)

section \<open>Numbers as text\<close>

text \<open>The decimal digits of a non-negative integer, as a template string prints it.\<close>

fun show_nat :: "nat \<Rightarrow> string" where
  "show_nat n = (if n < 10 then [char_of (48 + n)] else show_nat (n div 10) @ [char_of (48 + n mod 10)])"

declare show_nat.simps [simp del]

definition show_int :: "int \<Rightarrow> string" where
  "show_int i = (if i < 0 then CHR ''-'' # show_nat (nat (- i)) else show_nat (nat i))"

lemma show_nat_nonempty [simp]: "show_nat n \<noteq> []"
  by (subst show_nat.simps) simp

definition is_digit :: "char \<Rightarrow> bool" where
  "is_digit c \<longleftrightarrow> 48 \<le> (of_char c :: nat) \<and> (of_char c :: nat) \<le> 57"

lemma show_nat_digits: "list_all is_digit (show_nat n)"
proof (induction n rule: show_nat.induct)
  case (1 n)
  have d: "is_digit (char_of (48 + m))" if "m < 10" for m :: nat
    using that by (simp add: is_digit_def)
  show ?case
  proof (cases "n < 10")
    case True
    then show ?thesis by (subst show_nat.simps) (simp add: d)
  next
    case False
    with 1 show ?thesis by (subst show_nat.simps) (simp add: d)
  qed
qed

section \<open>Finding\<close>

lemma find_SomeD: "Some x = find P xs \<Longrightarrow> x \<in> set xs \<and> P x"
  by (induction xs) (auto split: if_splits)

lemma find_key:
  assumes "distinct (map f rows)" and "x \<in> set rows"
  shows "find (\<lambda>y. f y = f x) rows = Some x"
  using assms
proof (induction rows)
  case (Cons y rows)
  show ?case
  proof (cases "x = y")
    case False
    then have "x \<in> set rows" "f y \<noteq> f x" using Cons.prems by auto
    then show ?thesis using Cons by simp
  qed simp
qed simp

section \<open>Strings\<close>

text \<open>\<open>s.split(c)\<close> for a one-character separator, \<open>s.startsWith(p)\<close>, \<open>s.includes(p)\<close>,
  \<open>xs[i]\<close> with \<open>undefined\<close> as \<open>None\<close>, and a string that \<open>||\<close> sees as absent when empty.\<close>

fun js_split :: "char \<Rightarrow> string \<Rightarrow> string list" where
  "js_split c [] = [[]]"
| "js_split c (x # xs) =
     (if x = c then [] # js_split c xs
      else case js_split c xs of [] \<Rightarrow> [[x]] | w # ws \<Rightarrow> (x # w) # ws)"

definition js_starts :: "string \<Rightarrow> string \<Rightarrow> bool" where
  "js_starts p s \<longleftrightarrow> take (length p) s = p"

fun js_includes :: "string \<Rightarrow> string \<Rightarrow> bool" where
  "js_includes p [] \<longleftrightarrow> p = []"
| "js_includes p (c # s) \<longleftrightarrow> js_starts p (c # s) \<or> js_includes p s"

text \<open>\<open>s.trim()\<close>: the white space among 8-bit characters.\<close>

definition js_space :: "char \<Rightarrow> bool" where
  "js_space c = (let n = (of_char c :: nat) in 9 \<le> n \<and> n \<le> 13 \<or> n = 32 \<or> n = 160)"

definition js_trim :: "string \<Rightarrow> string" where
  "js_trim s = rev (dropWhile js_space (rev (dropWhile js_space s)))"

definition js_at :: "'a list \<Rightarrow> nat \<Rightarrow> 'a option" where
  "js_at xs i = (if i < length xs then Some (xs ! i) else None)"

definition truthy :: "string option \<Rightarrow> string option" where
  "truthy x = (case x of Some s \<Rightarrow> if s = [] then None else Some s | None \<Rightarrow> None)"

lemma truthy_simps [simp]:
  "truthy None = None" "truthy (Some s) = (if s = [] then None else Some s)"
  by (simp_all add: truthy_def)

lemma js_split_nonempty [simp]: "js_split c s \<noteq> []"
  by (induction s) (simp_all split: list.split)

section \<open>Arrays and numbers\<close>

text \<open>\<open>Math.ceil(a / b)\<close> on integers, \<open>b\<close> positive.\<close>

definition ceil_div :: "int \<Rightarrow> int \<Rightarrow> int" where
  "ceil_div a b = - ((- a) div b)"

lemma ceil_div_bounds:
  assumes "0 < b"
  shows "a \<le> ceil_div a b * b" and "ceil_div a b * b < a + b"
proof -
  have e: "(- a) div b * b + (- a) mod b = - a" by (rule div_mult_mod_eq)
  have m: "0 \<le> (- a) mod b" "(- a) mod b < b" using assms by simp_all
  have c: "ceil_div a b * b = - ((- a) div b * b)" by (simp add: ceil_div_def)
  show "a \<le> ceil_div a b * b" "ceil_div a b * b < a + b"
    unfolding c using e m by linarith+
qed

text \<open>\<open>xs.slice(a, b)\<close> for \<open>0 \<le> a\<close>, both ends clipped to the array.\<close>

definition js_slice :: "int \<Rightarrow> int \<Rightarrow> 'a list \<Rightarrow> 'a list" where
  "js_slice a b xs = take (nat b - nat a) (drop (nat a) xs)"

lemma set_js_slice: "set (js_slice a b xs) \<subseteq> set xs"
  unfolding js_slice_def by (meson order_trans set_drop_subset set_take_subset)

section \<open>The key/value store interface\<close>

text \<open>
  What a client relies on in a store: it reads back what it wrote last under a key, and a
  write under one key leaves the others alone. The in-process \<open>Map\<close>s give it, and the
  clients of Redis name it as the law they rely on.
\<close>

locale keyed_store =
  fixes get :: "'s \<Rightarrow> 'k \<Rightarrow> 'v option"
    and put :: "'k \<Rightarrow> 'v \<Rightarrow> 's \<Rightarrow> 's"
  assumes get_put_same: "get (put k v s) k = Some v"
    and get_put_other: "k' \<noteq> k \<Longrightarrow> get (put k v s) k' = get s k'"
begin

lemma get_put: "get (put k v s) k' = (if k' = k then Some v else get s k')"
  by (simp add: get_put_same get_put_other)

lemma get_put_put: "get (put k w (put k v s)) k' = get (put k w s) k'"
  by (simp add: get_put)

lemma get_put_commute:
  "k \<noteq> l \<Longrightarrow> get (put k v (put l w s)) k' = get (put l w (put k v s)) k'"
  by (simp add: get_put)

end

locale keyed_store_del = keyed_store +
  fixes del :: "'k \<Rightarrow> 's \<Rightarrow> 's"
  assumes get_del_same: "get (del k s) k = None"
    and get_del_other: "k' \<noteq> k \<Longrightarrow> get (del k s) k' = get s k'"
begin

lemma get_del: "get (del k s) k' = (if k' = k then None else get s k')"
  by (simp add: get_del_same get_del_other)

lemma get_del_put: "get (del k (put k v s)) k' = get (del k s) k'"
  by (simp add: get_del get_put)

end

interpretation jsm: keyed_store_del js_get js_set js_del
  by unfold_locales (simp_all add: js_get_set js_get_del)

section \<open>The bounded log interface\<close>

text \<open>
  \<open>log.push(x); if (log.length > cap) log.shift()\<close>: the array never holds more than
  \<open>cap\<close> elements and is always the tail of everything pushed.
\<close>

locale bounded_log =
  fixes push :: "'a \<Rightarrow> 'a list \<Rightarrow> 'a list" and cap :: nat
  assumes push_law: "push x h = (if cap < length (h @ [x]) then tl (h @ [x]) else h @ [x])"
begin

lemma push_le_cap: "length h \<le> cap \<Longrightarrow> length (push x h) \<le> cap"
  by (simp add: push_law)

lemma push_suffix:
  "push x (drop (length h - cap) h) = drop (length (h @ [x]) - cap) (h @ [x])"
proof (cases "length h < cap")
  case True
  then show ?thesis by (simp add: push_law)
next
  case False
  then have le: "length h - cap \<le> length h" and c: "cap = length (drop (length h - cap) h)"
    by simp_all
  have "push x (drop (length h - cap) h) = tl (drop (length h - cap) h @ [x])"
    using c by (simp add: push_law)
  also have "\<dots> = tl (drop (length h - cap) (h @ [x]))" by simp
  also have "\<dots> = drop (Suc (length h - cap)) (h @ [x])"
    by (simp only: drop_Suc drop_tl)
  also have "Suc (length h - cap) = length (h @ [x]) - cap" using False by simp
  finally show ?thesis .
qed

lemma pushes_suffix_gen:
  "fold push xs (drop (length h - cap) h) = drop (length (h @ xs) - cap) (h @ xs)"
proof (induction xs arbitrary: h)
  case Nil
  then show ?case by simp
next
  case (Cons x xs)
  show ?case using Cons.IH [of "h @ [x]"] push_suffix [of x h] by simp
qed

lemma pushes_suffix: "fold push xs [] = drop (length xs - cap) xs"
  using pushes_suffix_gen [of xs "[]"] by simp

lemma pushes_le_cap: "length (fold push xs []) \<le> cap"
  by (simp add: pushes_suffix)

end

end
