(* ===== verification/ResponseCache.thy ===== *)
theory ResponseCache
  imports JsPrelude
begin

text \<open>
  The client-side response cache, \<open>CacheService\<close> of \<open>frontend/src/services/cache.ts\<close>: a
  \<open>Map\<close> of entries with time-to-live, tags, stale-while-revalidate, a size cap with
  eviction, metrics and a per-key rate limit.

  The record \<open>cache_service\<close> holds the object's fields; \<open>cs_tracked\<close> is the sequence of
  \<open>analytics.trackEvent\<close> calls it makes. Times are \<open>Date.now()\<close> milliseconds; one call
  reads one instant, the parameter \<open>now\<close>. Data is a type variable, and \<open>json_len\<close>, the
  length of \<open>JSON.stringify(data)\<close>, is a parameter of \<open>cache_set\<close>.
\<close>

section \<open>State\<close>

record 'a cache_entry =
  ce_data :: 'a
  ce_timestamp :: int
  ce_ttl :: int
  ce_etag :: "string option"
  ce_version :: "string option"

record cache_config =
  cfg_defaultTTL :: int
  cfg_maxSize :: nat
  cfg_staleWhileRevalidate :: bool
  cfg_enableMetrics :: bool

record cache_metrics =
  m_hits :: nat
  m_misses :: nat
  m_invalidations :: nat
  m_evictions :: nat
  m_size :: nat

datatype metric_kind = Hit | Miss | Invalidation | Eviction

record 'a cache_service =
  cs_cache :: "(string, 'a cache_entry) jsmap"
  cs_tags :: "(string, string list) jsmap"
  cs_config :: cache_config
  cs_metrics :: cache_metrics
  cs_revalidationQueue :: "string list"
  cs_rateLimiter :: "(string, int list) jsmap"
  cs_tracked :: "(metric_kind \<times> nat) list"

datatype cache_error =
  EmptyKey
| KeyTooLong
| RateLimitExceeded string
| EntryTooLarge nat

definition default_config :: cache_config where
  "default_config =
     \<lparr>cfg_defaultTTL = 5 * 60 * 1000, cfg_maxSize = 100,
      cfg_staleWhileRevalidate = True, cfg_enableMetrics = True\<rparr>"

definition zero_metrics :: "nat \<Rightarrow> cache_metrics" where
  "zero_metrics n =
     \<lparr>m_hits = 0, m_misses = 0, m_invalidations = 0, m_evictions = 0, m_size = n\<rparr>"

definition new_cache :: "cache_config \<Rightarrow> 'a cache_service" where
  "new_cache config =
     \<lparr>cs_cache = [], cs_tags = [], cs_config = config, cs_metrics = zero_metrics 0,
      cs_revalidationQueue = [], cs_rateLimiter = [], cs_tracked = []\<rparr>"

section \<open>Guards\<close>

text \<open>The rate limiter: at most 100 requests per key in any minute.\<close>

definition recent_requests :: "int \<Rightarrow> int list \<Rightarrow> int list" where
  "recent_requests now requests = filter (\<lambda>time. now - time < 60000) requests"

definition check_rate_limit ::
  "int \<Rightarrow> string \<Rightarrow> 'a cache_service \<Rightarrow> (cache_error + unit) \<times> 'a cache_service" where
  "check_rate_limit now key st =
     (let requests = get_or [] (js_get (cs_rateLimiter st) key);
          recentRequests = recent_requests now requests
      in if 100 \<le> length recentRequests then (Inl (RateLimitExceeded key), st)
         else (Inr (), st\<lparr>cs_rateLimiter := js_set key (recentRequests @ [now]) (cs_rateLimiter st)\<rparr>))"

definition cleanup_rate_limiter :: "int \<Rightarrow> 'a cache_service \<Rightarrow> 'a cache_service" where
  "cleanup_rate_limiter now st =
     st\<lparr>cs_rateLimiter :=
       fold (\<lambda>(key, requests) m.
               let recentRequests = recent_requests now requests
               in if recentRequests = [] then js_del key m else js_set key recentRequests m)
         (cs_rateLimiter st) (cs_rateLimiter st)\<rparr>"

definition safe_key_char :: "char \<Rightarrow> bool" where
  "safe_key_char c =
     (let n = (of_char c :: nat)
      in 97 \<le> n \<and> n \<le> 122 \<or> 65 \<le> n \<and> n \<le> 90 \<or> 48 \<le> n \<and> n \<le> 57 \<or>
         c \<in> {CHR '':'', CHR ''_'', CHR ''-'', CHR ''.'', CHR ''/''})"

definition validate_key :: "string \<Rightarrow> cache_error + string" where
  "validate_key key =
     (if key = [] then Inl EmptyKey
      else let sanitized = map (\<lambda>c. if safe_key_char c then c else CHR ''_'') key
           in if 256 < length sanitized then Inl KeyTooLong else Inr sanitized)"

definition max_data_size :: nat where
  "max_data_size = 1024 * 1024"

definition validate_data_size :: "('a \<Rightarrow> nat) \<Rightarrow> 'a \<Rightarrow> cache_error + unit" where
  "validate_data_size json_len data =
     (if max_data_size < json_len data then Inl (EntryTooLarge (json_len data)) else Inr ())"

section \<open>Metrics, tags, eviction\<close>

fun bump_metric :: "metric_kind \<Rightarrow> nat \<Rightarrow> cache_metrics \<Rightarrow> cache_metrics" where
  "bump_metric Hit v m = m\<lparr>m_hits := m_hits m + v\<rparr>"
| "bump_metric Miss v m = m\<lparr>m_misses := m_misses m + v\<rparr>"
| "bump_metric Invalidation v m = m\<lparr>m_invalidations := m_invalidations m + v\<rparr>"
| "bump_metric Eviction v m = m\<lparr>m_evictions := m_evictions m + v\<rparr>"

definition record_metric :: "metric_kind \<Rightarrow> nat \<Rightarrow> 'a cache_service \<Rightarrow> 'a cache_service" where
  "record_metric kind v st =
     (if \<not> cfg_enableMetrics (cs_config st) then st
      else st\<lparr>cs_metrics := bump_metric kind v (cs_metrics st),
              cs_tracked := cs_tracked st @ [(kind, v)]\<rparr>)"

definition sync_size :: "'a cache_service \<Rightarrow> 'a cache_service" where
  "sync_size st = st\<lparr>cs_metrics := (cs_metrics st)\<lparr>m_size := length (cs_cache st)\<rparr>\<rparr>"

definition remove_from_tags :: "string \<Rightarrow> 'a cache_service \<Rightarrow> 'a cache_service" where
  "remove_from_tags key st =
     st\<lparr>cs_tags :=
       filter (\<lambda>(tag, keys). keys \<noteq> []) (map (\<lambda>(tag, keys). (tag, js_remove key keys)) (cs_tags st))\<rparr>"

text \<open>\<open>oldestKey\<close> and \<open>oldestTime\<close>; \<open>None\<close> is the start, \<open>null\<close> and \<open>Infinity\<close>.\<close>

fun find_oldest :: "(string, 'a cache_entry) jsmap \<Rightarrow> (string \<times> int) option \<Rightarrow> (string \<times> int) option" where
  "find_oldest [] acc = acc"
| "find_oldest ((key, entry) # m) acc =
     (case acc of
        None \<Rightarrow> find_oldest m (Some (key, ce_timestamp entry))
      | Some (oldestKey, oldestTime) \<Rightarrow>
          if ce_timestamp entry < oldestTime then find_oldest m (Some (key, ce_timestamp entry))
          else find_oldest m acc)"

definition evict_lru :: "'a cache_service \<Rightarrow> 'a cache_service" where
  "evict_lru st =
     (case find_oldest (cs_cache st) None of
        None \<Rightarrow> st
      | Some (oldestKey, _) \<Rightarrow>
          if oldestKey = [] then st
          else record_metric Eviction 1
                 (remove_from_tags oldestKey (st\<lparr>cs_cache := js_del oldestKey (cs_cache st)\<rparr>)))"

section \<open>Reading and writing\<close>

definition is_expired :: "int \<Rightarrow> 'a cache_entry \<Rightarrow> bool" where
  "is_expired now entry \<longleftrightarrow> ce_ttl entry < now - ce_timestamp entry"

definition read_entry ::
  "int \<Rightarrow> string \<Rightarrow> 'a cache_service \<Rightarrow> (cache_error + 'a option) \<times> 'a cache_service" where
  "read_entry now key st =
     (case js_get (cs_cache st) key of
        None \<Rightarrow> (Inr None, record_metric Miss 1 st)
      | Some entry \<Rightarrow>
          if \<not> is_expired now entry then (Inr (Some (ce_data entry)), record_metric Hit 1 st)
          else if cfg_staleWhileRevalidate (cs_config st) \<and>
                  now - ce_timestamp entry < ce_ttl entry * 2
          then (let st' = record_metric Hit 1 st
                in (Inr (Some (ce_data entry)),
                    st'\<lparr>cs_revalidationQueue := js_add key (cs_revalidationQueue st')\<rparr>))
          else (Inr None, record_metric Miss 1 (st\<lparr>cs_cache := js_del key (cs_cache st)\<rparr>)))"

definition cache_get ::
  "int \<Rightarrow> string \<Rightarrow> 'a cache_service \<Rightarrow> (cache_error + 'a option) \<times> 'a cache_service" where
  "cache_get now key st =
     (case validate_key key of
        Inl e \<Rightarrow> (Inl e, st)
      | Inr sanitizedKey \<Rightarrow>
          js_then (check_rate_limit now sanitizedKey) (\<lambda>_. read_entry now sanitizedKey) st)"

record set_options =
  so_ttl :: "int option"
  so_tags :: "string list option"
  so_etag :: "string option"
  so_version :: "string option"

definition no_options :: set_options where
  "no_options = \<lparr>so_ttl = None, so_tags = None, so_etag = None, so_version = None\<rparr>"

text \<open>\<open>options.ttl || this.config.defaultTTL\<close>: a missing or zero \<open>ttl\<close> takes the default.\<close>

definition effective_ttl :: "cache_config \<Rightarrow> set_options \<Rightarrow> int" where
  "effective_ttl config options =
     (case so_ttl options of
        None \<Rightarrow> cfg_defaultTTL config
      | Some t \<Rightarrow> if t = 0 then cfg_defaultTTL config else t)"

definition add_tag :: "string \<Rightarrow> string \<Rightarrow> (string, string list) jsmap \<Rightarrow> (string, string list) jsmap" where
  "add_tag key tag tags = js_set tag (js_add key (get_or [] (js_get tags tag))) tags"

definition store_entry ::
  "int \<Rightarrow> string \<Rightarrow> 'a \<Rightarrow> set_options \<Rightarrow> 'a cache_service \<Rightarrow> 'a cache_service" where
  "store_entry now key data options st =
     (let st1 = (if cfg_maxSize (cs_config st) \<le> length (cs_cache st) \<and> \<not> js_has (cs_cache st) key
                 then evict_lru st else st);
          entry = \<lparr>ce_data = data, ce_timestamp = now, ce_ttl = effective_ttl (cs_config st1) options,
                   ce_etag = so_etag options, ce_version = so_version options\<rparr>;
          st2 = st1\<lparr>cs_cache := js_set key entry (cs_cache st1)\<rparr>;
          st3 = (case so_tags options of
                   None \<Rightarrow> st2
                 | Some tags \<Rightarrow> st2\<lparr>cs_tags := fold (add_tag key) tags (cs_tags st2)\<rparr>)
      in sync_size st3)"

definition cache_set ::
  "('a \<Rightarrow> nat) \<Rightarrow> int \<Rightarrow> string \<Rightarrow> 'a \<Rightarrow> set_options \<Rightarrow> 'a cache_service \<Rightarrow>
   (cache_error + unit) \<times> 'a cache_service" where
  "cache_set json_len now key data options st =
     (case validate_key key of
        Inl e \<Rightarrow> (Inl e, st)
      | Inr sanitizedKey \<Rightarrow>
          js_then (check_rate_limit now sanitizedKey)
            (\<lambda>_ st1. case validate_data_size json_len data of
                       Inl e \<Rightarrow> (Inl e, st1)
                     | Inr _ \<Rightarrow> (Inr (), store_entry now sanitizedKey data options st1)) st)"

definition cache_has :: "int \<Rightarrow> string \<Rightarrow> 'a cache_service \<Rightarrow> (cache_error + bool) \<times> 'a cache_service" where
  "cache_has now key = js_then (cache_get now key) (\<lambda>r. js_return (r \<noteq> None))"

section \<open>Invalidation\<close>

definition cache_invalidate :: "string \<Rightarrow> 'a cache_service \<Rightarrow> (cache_error + bool) \<times> 'a cache_service" where
  "cache_invalidate key st =
     (case validate_key key of
        Inl e \<Rightarrow> (Inl e, st)
      | Inr sanitizedKey \<Rightarrow>
          let deleted = js_has (cs_cache st) sanitizedKey;
              st1 = st\<lparr>cs_cache := js_del sanitizedKey (cs_cache st)\<rparr>;
              st2 = (if deleted then remove_from_tags sanitizedKey (record_metric Invalidation 1 st1) else st1)
          in (Inr deleted, sync_size st2))"

text \<open>The loop of \<open>invalidateByTag\<close>: the count so far and the cache.\<close>

fun drop_tagged :: "string list \<Rightarrow> nat \<Rightarrow> 'a cache_service \<Rightarrow> nat \<times> 'a cache_service" where
  "drop_tagged [] count st = (count, st)"
| "drop_tagged (key # keys) count st =
     (if js_has (cs_cache st) key
      then drop_tagged keys (Suc count)
             (record_metric Invalidation 1 (st\<lparr>cs_cache := js_del key (cs_cache st)\<rparr>))
      else drop_tagged keys count st)"

definition invalidate_by_tag :: "string \<Rightarrow> 'a cache_service \<Rightarrow> nat \<times> 'a cache_service" where
  "invalidate_by_tag tag st =
     (case js_get (cs_tags st) tag of
        None \<Rightarrow> (0, st)
      | Some keys \<Rightarrow>
          let (count, st1) = drop_tagged keys 0 st
          in (count, sync_size (st1\<lparr>cs_tags := js_del tag (cs_tags st1)\<rparr>)))"

text \<open>
  \<open>invalidateByPattern\<close> and \<open>invalidateByVersion\<close> run the same body over the entries that
  match; \<open>doomed\<close> is the test.
\<close>

fun drop_matching ::
  "(string \<Rightarrow> 'a cache_entry \<Rightarrow> bool) \<Rightarrow> (string, 'a cache_entry) jsmap \<Rightarrow> nat \<Rightarrow> 'a cache_service \<Rightarrow>
   nat \<times> 'a cache_service" where
  "drop_matching doomed [] count st = (count, st)"
| "drop_matching doomed ((key, entry) # m) count st =
     (if doomed key entry
      then drop_matching doomed m (Suc count)
             (record_metric Invalidation 1
               (remove_from_tags key (st\<lparr>cs_cache := js_del key (cs_cache st)\<rparr>)))
      else drop_matching doomed m count st)"

definition invalidate_by_pattern :: "(string \<Rightarrow> bool) \<Rightarrow> 'a cache_service \<Rightarrow> nat \<times> 'a cache_service" where
  "invalidate_by_pattern pattern st =
     (let (count, st1) = drop_matching (\<lambda>key _. pattern key) (cs_cache st) 0 st
      in (count, sync_size st1))"

text \<open>\<open>entry.version \<and>\<and> entry.version !== currentVersion\<close>: an empty version string is falsy.\<close>

definition version_mismatch :: "string \<Rightarrow> 'a cache_entry \<Rightarrow> bool" where
  "version_mismatch currentVersion entry =
     (case ce_version entry of None \<Rightarrow> False | Some v \<Rightarrow> v \<noteq> [] \<and> v \<noteq> currentVersion)"

definition invalidate_by_version :: "string \<Rightarrow> 'a cache_service \<Rightarrow> nat \<times> 'a cache_service" where
  "invalidate_by_version currentVersion st =
     (let (count, st1) = drop_matching (\<lambda>_ entry. version_mismatch currentVersion entry) (cs_cache st) 0 st
      in (count, sync_size st1))"

definition cache_bust :: "string \<Rightarrow> 'a cache_service \<Rightarrow> (cache_error + unit) \<times> 'a cache_service" where
  "cache_bust key = js_then (cache_invalidate key) (\<lambda>_. js_return ())"

fun bust_from :: "nat \<Rightarrow> string list \<Rightarrow> 'a cache_service \<Rightarrow> (cache_error + nat) \<times> 'a cache_service" where
  "bust_from count [] = js_return count"
| "bust_from count (key # keys) =
     js_then (cache_invalidate key) (\<lambda>deleted. bust_from (if deleted then Suc count else count) keys)"

definition bust_multiple :: "string list \<Rightarrow> 'a cache_service \<Rightarrow> (cache_error + nat) \<times> 'a cache_service" where
  "bust_multiple keys = bust_from 0 keys"

fun set_batch ::
  "('a \<Rightarrow> nat) \<Rightarrow> int \<Rightarrow> (string \<times> 'a \<times> set_options option) list \<Rightarrow> 'a cache_service \<Rightarrow>
   (cache_error + unit) \<times> 'a cache_service" where
  "set_batch json_len now [] = js_return ()"
| "set_batch json_len now ((key, data, options) # entries) =
     js_then (cache_set json_len now key data (get_or no_options options))
       (\<lambda>_. set_batch json_len now entries)"

fun get_batch_from ::
  "int \<Rightarrow> (string, 'a option) jsmap \<Rightarrow> string list \<Rightarrow> 'a cache_service \<Rightarrow>
   (cache_error + (string, 'a option) jsmap) \<times> 'a cache_service" where
  "get_batch_from now results [] = js_return results"
| "get_batch_from now results (key # keys) =
     js_then (cache_get now key) (\<lambda>r. get_batch_from now (js_set key r results) keys)"

definition get_batch ::
  "int \<Rightarrow> string list \<Rightarrow> 'a cache_service \<Rightarrow>
   (cache_error + (string, 'a option) jsmap) \<times> 'a cache_service" where
  "get_batch now keys = get_batch_from now [] keys"

definition cache_clear :: "'a cache_service \<Rightarrow> 'a cache_service" where
  "cache_clear st =
     (let n = length (cs_cache st);
          st1 = st\<lparr>cs_cache := [], cs_tags := [], cs_revalidationQueue := [],
                   cs_metrics := (cs_metrics st)\<lparr>m_size := 0\<rparr>\<rparr>
      in record_metric Invalidation n st1)"

section \<open>Reports\<close>

definition get_revalidation_queue :: "'a cache_service \<Rightarrow> string list" where
  "get_revalidation_queue st = cs_revalidationQueue st"

definition clear_revalidation_queue :: "'a cache_service \<Rightarrow> 'a cache_service" where
  "clear_revalidation_queue st = st\<lparr>cs_revalidationQueue := []\<rparr>"

definition get_metrics :: "'a cache_service \<Rightarrow> cache_metrics" where
  "get_metrics st = cs_metrics st"

definition get_hit_rate :: "'a cache_service \<Rightarrow> rat" where
  "get_hit_rate st =
     (let total = m_hits (cs_metrics st) + m_misses (cs_metrics st)
      in if total = 0 then 0 else of_nat (m_hits (cs_metrics st)) / of_nat total)"

definition reset_metrics :: "'a cache_service \<Rightarrow> 'a cache_service" where
  "reset_metrics st = st\<lparr>cs_metrics := zero_metrics (length (cs_cache st))\<rparr>"

record exported_entry =
  ex_key :: string
  ex_timestamp :: int
  ex_ttl :: int
  ex_age :: int
  ex_etag :: "string option"
  ex_version :: "string option"

definition export_state ::
  "int \<Rightarrow> 'a cache_service \<Rightarrow>
   exported_entry list \<times> (string, string list) jsmap \<times> cache_metrics \<times> rat" where
  "export_state now st =
     (map (\<lambda>(key, entry).
             \<lparr>ex_key = key, ex_timestamp = ce_timestamp entry, ex_ttl = ce_ttl entry,
              ex_age = now - ce_timestamp entry, ex_etag = ce_etag entry, ex_version = ce_version entry\<rparr>)
        (cs_cache st),
      cs_tags st, get_metrics st, get_hit_rate st)"

section \<open>Cache keys and tags\<close>

definition key_group :: "string \<Rightarrow> string" where
  "key_group groupId = ''group:'' @ groupId"

definition key_groups :: "string option \<Rightarrow> string" where
  "key_groups userId =
     (case userId of
        None \<Rightarrow> ''groups:all''
      | Some u \<Rightarrow> if u = [] then ''groups:all'' else ''groups:user:'' @ u)"

definition key_group_status :: "string \<Rightarrow> string" where
  "key_group_status groupId = ''group:'' @ groupId @ '':status''"

definition key_group_members :: "string \<Rightarrow> string" where
  "key_group_members groupId = ''group:'' @ groupId @ '':members''"

definition key_transactions :: "string \<Rightarrow> string option \<Rightarrow> nat option \<Rightarrow> string" where
  "key_transactions groupId cursor limit =
     ''group:'' @ groupId @ '':transactions:'' @
     (case cursor of None \<Rightarrow> ''start'' | Some c \<Rightarrow> if c = [] then ''start'' else c) @ '':'' @
     (case limit of None \<Rightarrow> ''10'' | Some n \<Rightarrow> if n = 0 then ''10'' else show_nat n)"

section \<open>Frames\<close>

lemma record_metric_frame [simp]:
  "cs_cache (record_metric kind v st) = cs_cache st"
  "cs_tags (record_metric kind v st) = cs_tags st"
  "cs_config (record_metric kind v st) = cs_config st"
  "cs_rateLimiter (record_metric kind v st) = cs_rateLimiter st"
  "cs_revalidationQueue (record_metric kind v st) = cs_revalidationQueue st"
  by (simp_all add: record_metric_def)

lemma remove_from_tags_frame [simp]:
  "cs_cache (remove_from_tags key st) = cs_cache st"
  "cs_config (remove_from_tags key st) = cs_config st"
  "cs_rateLimiter (remove_from_tags key st) = cs_rateLimiter st"
  by (simp_all add: remove_from_tags_def)

lemma sync_size_frame [simp]:
  "cs_cache (sync_size st) = cs_cache st"
  "cs_tags (sync_size st) = cs_tags st"
  "cs_config (sync_size st) = cs_config st"
  "cs_rateLimiter (sync_size st) = cs_rateLimiter st"
  by (simp_all add: sync_size_def)

lemma evict_lru_frame [simp]:
  "cs_config (evict_lru st) = cs_config st"
  "cs_rateLimiter (evict_lru st) = cs_rateLimiter st"
  by (simp_all add: evict_lru_def split: option.splits prod.splits)

section \<open>Eviction takes an entry written longest ago\<close>

lemma find_oldest_Some:
  "find_oldest m (Some (k, t)) = Some (k', t') \<Longrightarrow>
     t' \<le> t \<and> (\<forall>p\<in>set m. t' \<le> ce_timestamp (snd p)) \<and>
     ((k', t') = (k, t) \<or> (\<exists>e. (k', e) \<in> set m \<and> t' = ce_timestamp e))"
proof (induction m arbitrary: k t)
  case Nil
  then show ?case by simp
next
  case (Cons p m)
  obtain key entry where p: "p = (key, entry)" by (cases p)
  show ?case
  proof (cases "ce_timestamp entry < t")
    case True
    with Cons.prems p have "find_oldest m (Some (key, ce_timestamp entry)) = Some (k', t')" by simp
    from Cons.IH [OF this] True p show ?thesis by auto
  next
    case False
    with Cons.prems p have "find_oldest m (Some (k, t)) = Some (k', t')" by simp
    from Cons.IH [OF this] False p show ?thesis by auto
  qed
qed

lemma find_oldest_total: "find_oldest m (Some (k, t)) \<noteq> None"
  by (induction m arbitrary: k t) auto

lemma find_oldest_minimal:
  assumes "find_oldest m None = Some (k, t)"
  shows "\<exists>e. (k, e) \<in> set m \<and> t = ce_timestamp e \<and> (\<forall>p\<in>set m. ce_timestamp e \<le> ce_timestamp (snd p))"
proof (cases m)
  case Nil
  with assms show ?thesis by simp
next
  case (Cons p m')
  obtain key entry where p: "p = (key, entry)" by (cases p)
  from assms Cons p have "find_oldest m' (Some (key, ce_timestamp entry)) = Some (k, t)" by simp
  from find_oldest_Some [OF this] Cons p show ?thesis by auto
qed

lemma find_oldest_None: "find_oldest m None = None \<longleftrightarrow> m = []"
proof (cases m)
  case (Cons p m')
  obtain key entry where "p = (key, entry)" by (cases p)
  with Cons show ?thesis using find_oldest_total [of m' key "ce_timestamp entry"] by simp
qed simp

lemma evict_lru_cache:
  assumes "js_wf (cs_cache st)" and "\<forall>k\<in>fst ` set (cs_cache st). k \<noteq> []" and "cs_cache st \<noteq> []"
  obtains k e where "js_get (cs_cache st) k = Some e"
    and "\<forall>p\<in>set (cs_cache st). ce_timestamp e \<le> ce_timestamp (snd p)"
    and "cs_cache (evict_lru st) = js_del k (cs_cache st)"
proof -
  from assms(3) obtain k t where o: "find_oldest (cs_cache st) None = Some (k, t)"
    using find_oldest_None [of "cs_cache st"] by auto
  from find_oldest_minimal [OF o] obtain e where e: "(k, e) \<in> set (cs_cache st)"
    and min: "\<forall>p\<in>set (cs_cache st). ce_timestamp e \<le> ce_timestamp (snd p)" by blast
  from e assms(2) have "k \<noteq> []" by force
  with o have "cs_cache (evict_lru st) = js_del k (cs_cache st)" by (simp add: evict_lru_def)
  with js_in_get [OF assms(1) e] min show ?thesis by (rule that)
qed

section \<open>The object invariant\<close>

definition tags_ok :: "(string, string list) jsmap \<Rightarrow> bool" where
  "tags_ok tags \<longleftrightarrow> js_wf tags \<and> js_all (\<lambda>keys. keys \<noteq> [] \<and> distinct keys) tags"

definition limiter_ok :: "(string, int list) jsmap \<Rightarrow> bool" where
  "limiter_ok rl \<longleftrightarrow> js_wf rl \<and> js_all (\<lambda>requests. length requests \<le> 100) rl"

definition entries_ok :: "nat \<Rightarrow> (string, 'a cache_entry) jsmap \<Rightarrow> bool" where
  "entries_ok maxSize m \<longleftrightarrow>
     js_wf m \<and> (\<forall>k\<in>fst ` set m. k \<noteq> []) \<and> length m \<le> max 1 maxSize"

definition cache_ok :: "'a cache_service \<Rightarrow> bool" where
  "cache_ok st \<longleftrightarrow>
     entries_ok (cfg_maxSize (cs_config st)) (cs_cache st) \<and> tags_ok (cs_tags st) \<and> limiter_ok (cs_rateLimiter st)"

lemma entries_ok_del: "entries_ok n m \<Longrightarrow> entries_ok n (js_del k m)"
proof -
  assume "entries_ok n m"
  then have wf: "js_wf m" and ne: "\<forall>k\<in>fst ` set m. k \<noteq> []" and len: "length m \<le> max 1 n"
    by (simp_all add: entries_ok_def)
  have keys: "fst ` set (js_del k m) \<subseteq> fst ` set m" by (auto simp: js_del_values)
  show ?thesis
    unfolding entries_ok_def
  proof (intro conjI)
    show "js_wf (js_del k m)" using wf by (rule js_wf_del)
    show "\<forall>k\<in>fst ` set (js_del k m). k \<noteq> []" using ne keys by fast
    show "length (js_del k m) \<le> max 1 n" using length_js_del_le len by (rule order_trans)
  qed
qed

lemma tags_ok_remove:
  assumes "tags_ok tags"
  shows "tags_ok (filter (\<lambda>(tag, keys). keys \<noteq> []) (map (\<lambda>(tag, keys). (tag, js_remove key keys)) tags))"
proof -
  have "js_all (\<lambda>keys. keys \<noteq> [] \<and> distinct keys) tags \<Longrightarrow>
    js_all (\<lambda>keys. keys \<noteq> [] \<and> distinct keys)
      (filter (\<lambda>(tag, keys). keys \<noteq> []) (map (\<lambda>(tag, keys). (tag, js_remove key keys)) tags))"
    by (induction tags) auto
  with assms show ?thesis by (simp add: tags_ok_def js_wf_filter js_wf_map_values)
qed

lemma tags_ok_del: "tags_ok tags \<Longrightarrow> tags_ok (js_del tag tags)"
  by (simp add: tags_ok_def js_all_del)

lemma tags_ok_add: "tags_ok tags \<Longrightarrow> tags_ok (add_tag key tag tags)"
  unfolding tags_ok_def add_tag_def
  by (cases "js_get tags tag") (auto intro!: js_all_set dest: js_all_get)

lemma tags_ok_fold_add: "tags_ok tags \<Longrightarrow> tags_ok (fold (add_tag key) ts tags)"
  by (induction ts arbitrary: tags) (auto intro: tags_ok_add)

lemma limiter_ok_set:
  "limiter_ok rl \<Longrightarrow> length requests \<le> 100 \<Longrightarrow> limiter_ok (js_set key requests rl)"
  by (simp add: limiter_ok_def js_all_set)

lemma limiter_ok_del: "limiter_ok rl \<Longrightarrow> limiter_ok (js_del key rl)"
  by (simp add: limiter_ok_def js_all_del)

lemma cache_ok_frame:
  "cache_ok (record_metric kind v st) = cache_ok st"
  "cache_ok (sync_size st) = cache_ok st"
  "cache_ok (st\<lparr>cs_revalidationQueue := q\<rparr>) = cache_ok st"
  "cache_ok (st\<lparr>cs_metrics := mm\<rparr>) = cache_ok st"
  by (simp_all add: cache_ok_def)

lemma cache_ok_remove_from_tags: "cache_ok st \<Longrightarrow> cache_ok (remove_from_tags key st)"
  by (simp add: cache_ok_def remove_from_tags_def tags_ok_remove)

lemma cache_ok_del: "cache_ok st \<Longrightarrow> cache_ok (st\<lparr>cs_cache := js_del key (cs_cache st)\<rparr>)"
  by (simp add: cache_ok_def entries_ok_del)

lemma cache_ok_evict: "cache_ok st \<Longrightarrow> cache_ok (evict_lru st)"
  by (auto simp: evict_lru_def cache_ok_frame cache_ok_remove_from_tags cache_ok_del
      split: option.splits prod.splits)

lemma cache_ok_rate_limit: "cache_ok st \<Longrightarrow> cache_ok (snd (check_rate_limit now key st))"
  by (simp add: check_rate_limit_def Let_def cache_ok_def limiter_ok_set)

lemma limiter_ok_cleanup:
  "limiter_ok m \<Longrightarrow> js_all (\<lambda>requests. length requests \<le> 100) l \<Longrightarrow>
   limiter_ok (fold (\<lambda>(key, requests) m.
     let recentRequests = recent_requests now requests
     in if recentRequests = [] then js_del key m else js_set key recentRequests m) l m)"
proof (induction l arbitrary: m)
  case (Cons p l)
  obtain key requests where p: "p = (key, requests)" by (cases p)
  have "length (recent_requests now requests) \<le> length requests"
    by (simp add: recent_requests_def)
  with Cons.prems p have "length (recent_requests now requests) \<le> 100" by simp
  with Cons p show ?case by (simp add: Let_def limiter_ok_set limiter_ok_del)
qed simp

lemma cache_ok_cleanup: "cache_ok st \<Longrightarrow> cache_ok (cleanup_rate_limiter now st)"
  using limiter_ok_cleanup [of "cs_rateLimiter st" "cs_rateLimiter st" now]
  by (simp add: cache_ok_def cleanup_rate_limiter_def limiter_ok_def)

lemma cache_ok_read: "cache_ok st \<Longrightarrow> cache_ok (snd (read_entry now key st))"
  by (auto simp: read_entry_def Let_def cache_ok_frame cache_ok_del split: option.splits)

lemma cache_ok_get: "cache_ok st \<Longrightarrow> cache_ok (snd (cache_get now key st))"
  by (auto simp: cache_get_def cache_ok_rate_limit cache_ok_read
      intro!: js_then_inv [of cache_ok] split: sum.splits)

lemma validate_key_nonempty: "validate_key key = Inr k \<Longrightarrow> k \<noteq> []"
  by (auto simp: validate_key_def Let_def split: if_splits)

text \<open>The eviction makes room: after it the cache is below its cap, or was empty.\<close>

lemma evict_lru_room:
  assumes "entries_ok n (cs_cache st)"
  shows "length (cs_cache (evict_lru st)) \<le> max 1 n - 1"
proof (cases "cs_cache st = []")
  case True
  then show ?thesis by (simp add: evict_lru_def)
next
  case False
  from assms have wf: "js_wf (cs_cache st)" and ne: "\<forall>k\<in>fst ` set (cs_cache st). k \<noteq> []"
    and le: "length (cs_cache st) \<le> max 1 n" by (simp_all add: entries_ok_def)
  from evict_lru_cache [OF wf ne False] obtain k e
    where "js_get (cs_cache st) k = Some e" and "cs_cache (evict_lru st) = js_del k (cs_cache st)"
    by metis
  with length_js_del [OF wf, of k] le show ?thesis by (simp add: js_has_def)
qed

lemma entries_ok_set:
  assumes ok: "entries_ok n m" and k: "k \<noteq> []" and room: "js_has m k \<or> length m < max 1 n"
  shows "entries_ok n (js_set k entry m)"
  using assms unfolding entries_ok_def
  by (auto simp: length_js_set js_set_keys)

lemma cache_ok_store:
  assumes ok: "cache_ok st" and k: "key \<noteq> []"
  shows "cache_ok (store_entry now key data options st)"
proof -
  let ?n = "cfg_maxSize (cs_config st)"
  let ?full = "?n \<le> length (cs_cache st) \<and> \<not> js_has (cs_cache st) key"
  define st1 where "st1 = (if ?full then evict_lru st else st)"
  have ok1: "cache_ok st1" using ok by (simp add: st1_def cache_ok_evict)
  have cfg: "cs_config st1 = cs_config st" by (simp add: st1_def)
  have e: "entries_ok ?n (cs_cache st)" using ok by (simp add: cache_ok_def)
  have "js_has (cs_cache st1) key \<or> length (cs_cache st1) < max 1 ?n"
    using evict_lru_room [OF e] by (auto simp: st1_def)
  with ok1 k cfg have "entries_ok ?n (js_set key entry (cs_cache st1))" for entry
    by (intro entries_ok_set) (simp_all add: cache_ok_def)
  then show ?thesis using ok1 cfg
    unfolding store_entry_def Let_def st1_def [symmetric]
    by (simp add: cache_ok_def tags_ok_fold_add split: option.splits)
qed

lemma cache_ok_set: "cache_ok st \<Longrightarrow> cache_ok (snd (cache_set json_len now key data options st))"
  unfolding cache_set_def
  by (auto simp: cache_ok_rate_limit dest: validate_key_nonempty
      intro!: js_then_inv [of cache_ok] cache_ok_store split: sum.splits)

lemma cache_ok_has: "cache_ok st \<Longrightarrow> cache_ok (snd (cache_has now key st))"
  unfolding cache_has_def by (rule js_then_inv [of cache_ok]) (simp_all add: cache_ok_get)

lemma cache_ok_invalidate: "cache_ok st \<Longrightarrow> cache_ok (snd (cache_invalidate key st))"
  by (auto simp: cache_invalidate_def Let_def cache_ok_frame cache_ok_remove_from_tags cache_ok_del
      split: sum.splits)

lemma cache_ok_drop_tagged: "cache_ok st \<Longrightarrow> cache_ok (snd (drop_tagged keys count st))"
  by (induction keys count st rule: drop_tagged.induct) (auto simp: cache_ok_frame cache_ok_del)

lemma cache_ok_by_tag: "cache_ok st \<Longrightarrow> cache_ok (snd (invalidate_by_tag tag st))"
proof (cases "js_get (cs_tags st) tag")
  case (Some keys)
  assume "cache_ok st"
  obtain count st1 where d: "drop_tagged keys 0 st = (count, st1)" by fastforce
  with cache_ok_drop_tagged [OF \<open>cache_ok st\<close>, of keys 0] have "cache_ok st1" by simp
  with Some d show ?thesis
    by (simp add: invalidate_by_tag_def cache_ok_frame) (simp add: cache_ok_def tags_ok_del)
qed (simp add: invalidate_by_tag_def)

lemma cache_ok_drop_matching: "cache_ok st \<Longrightarrow> cache_ok (snd (drop_matching doomed m count st))"
  by (induction doomed m count st rule: drop_matching.induct)
    (auto simp: cache_ok_frame cache_ok_remove_from_tags cache_ok_del)

lemma cache_ok_by_pattern: "cache_ok st \<Longrightarrow> cache_ok (snd (invalidate_by_pattern pattern st))"
  using cache_ok_drop_matching [of st "\<lambda>key _. pattern key" "cs_cache st" 0]
  by (simp add: invalidate_by_pattern_def Let_def cache_ok_frame case_prod_unfold)

lemma cache_ok_by_version: "cache_ok st \<Longrightarrow> cache_ok (snd (invalidate_by_version v st))"
  using cache_ok_drop_matching [of st "\<lambda>_ entry. version_mismatch v entry" "cs_cache st" 0]
  by (simp add: invalidate_by_version_def Let_def cache_ok_frame case_prod_unfold)

lemma cache_ok_clear: "cache_ok st \<Longrightarrow> cache_ok (cache_clear st)"
  by (simp add: cache_clear_def Let_def cache_ok_frame) (simp add: cache_ok_def entries_ok_def tags_ok_def)

lemma cache_ok_new: "cache_ok (new_cache config)"
  by (simp add: cache_ok_def new_cache_def entries_ok_def tags_ok_def limiter_ok_def)

section \<open>Sequences of calls\<close>

datatype 'a cache_call =
  CGet string
| CHas string
| CSet string 'a set_options
| CInvalidate string
| CByTag string
| CByPattern "string \<Rightarrow> bool"
| CByVersion string
| CClear
| CCleanup
| CClearQueue
| CResetMetrics

fun perform_call :: "('a \<Rightarrow> nat) \<Rightarrow> int \<times> 'a cache_call \<Rightarrow> 'a cache_service \<Rightarrow> 'a cache_service" where
  "perform_call json_len (now, CGet key) st = snd (cache_get now key st)"
| "perform_call json_len (now, CHas key) st = snd (cache_has now key st)"
| "perform_call json_len (now, CSet key data options) st = snd (cache_set json_len now key data options st)"
| "perform_call json_len (now, CInvalidate key) st = snd (cache_invalidate key st)"
| "perform_call json_len (now, CByTag tag) st = snd (invalidate_by_tag tag st)"
| "perform_call json_len (now, CByPattern pattern) st = snd (invalidate_by_pattern pattern st)"
| "perform_call json_len (now, CByVersion v) st = snd (invalidate_by_version v st)"
| "perform_call json_len (now, CClear) st = cache_clear st"
| "perform_call json_len (now, CCleanup) st = cleanup_rate_limiter now st"
| "perform_call json_len (now, CClearQueue) st = clear_revalidation_queue st"
| "perform_call json_len (now, CResetMetrics) st = reset_metrics st"

definition run_cache :: "('a \<Rightarrow> nat) \<Rightarrow> (int \<times> 'a cache_call) list \<Rightarrow> 'a cache_service \<Rightarrow> 'a cache_service" where
  "run_cache json_len calls st = fold (perform_call json_len) calls st"

lemma cache_ok_call: "cache_ok st \<Longrightarrow> cache_ok (perform_call json_len c st)"
  by (induction json_len c st rule: perform_call.induct)
    (simp_all add: cache_ok_get cache_ok_has cache_ok_set cache_ok_invalidate cache_ok_by_tag
      cache_ok_by_pattern cache_ok_by_version cache_ok_clear cache_ok_cleanup
      clear_revalidation_queue_def reset_metrics_def cache_ok_frame)

lemma cache_ok_run: "cache_ok st \<Longrightarrow> cache_ok (run_cache json_len calls st)"
  unfolding run_cache_def by (induction calls arbitrary: st) (simp_all add: cache_ok_call)


lemma config_check [simp]: "cs_config (snd (check_rate_limit now key st)) = cs_config st"
  by (simp add: check_rate_limit_def Let_def)

lemma config_read [simp]: "cs_config (snd (read_entry now key st)) = cs_config st"
  by (simp add: read_entry_def Let_def split: option.split)

lemma config_get [simp]: "cs_config (snd (cache_get now key st)) = cs_config st"
  by (simp add: cache_get_def js_then_frame [where F = cs_config] split: sum.split)

lemma config_has [simp]: "cs_config (snd (cache_has now key st)) = cs_config st"
  by (simp add: cache_has_def js_then_frame [where F = cs_config])

lemma config_store [simp]: "cs_config (store_entry now key data options st) = cs_config st"
  by (simp add: store_entry_def Let_def split: option.split)

lemma config_set [simp]: "cs_config (snd (cache_set json_len now key data options st)) = cs_config st"
  by (simp add: cache_set_def js_then_def check_rate_limit_def Let_def split: sum.split)

lemma config_drop_tagged [simp]: "cs_config (snd (drop_tagged keys count st)) = cs_config st"
  by (induction keys count st rule: drop_tagged.induct) simp_all

lemma config_drop_matching [simp]: "cs_config (snd (drop_matching doomed m count st)) = cs_config st"
  by (induction doomed m count st rule: drop_matching.induct) simp_all

lemma config_call: "cs_config (perform_call json_len c st) = cs_config st"
  by (induction json_len c st rule: perform_call.induct)
    (simp_all add: cache_invalidate_def invalidate_by_tag_def invalidate_by_pattern_def
    invalidate_by_version_def cache_clear_def cleanup_rate_limiter_def
    clear_revalidation_queue_def reset_metrics_def Let_def case_prod_unfold
    split: sum.split option.split)

lemma config_run: "cs_config (run_cache json_len calls st) = cs_config st"
  unfolding run_cache_def by (induction calls arbitrary: st) (simp_all add: config_call)

section \<open>What the operations do\<close>

lemma read_entry_hit:
  "fst (read_entry now key st) = Inr (Some d) \<Longrightarrow>
     cs_cache (snd (read_entry now key st)) = cs_cache st \<and>
     (\<exists>e. js_get (cs_cache st) key = Some e \<and> ce_data e = d \<and>
        (\<not> is_expired now e \<or>
         cfg_staleWhileRevalidate (cs_config st) \<and> now - ce_timestamp e < ce_ttl e * 2))"
  by (auto simp: read_entry_def Let_def split: option.splits if_splits)

lemma check_rate_limit_frame:
  "cs_cache (snd (check_rate_limit now key st)) = cs_cache st"
  "cs_tags (snd (check_rate_limit now key st)) = cs_tags st"
  by (simp_all add: check_rate_limit_def Let_def)

lemma cache_get_hit:
  assumes "fst (cache_get now key st) = Inr (Some d)"
  shows "cs_cache (snd (cache_get now key st)) = cs_cache st \<and>
    (\<exists>k e. validate_key key = Inr k \<and> js_get (cs_cache st) k = Some e \<and> ce_data e = d \<and>
       (\<not> is_expired now e \<or>
        cfg_staleWhileRevalidate (cs_config st) \<and> now - ce_timestamp e < ce_ttl e * 2))"
proof -
  obtain k where k: "validate_key key = Inr k"
    using assms by (auto simp: cache_get_def split: sum.splits)
  obtain r st1 where c: "check_rate_limit now k st = (r, st1)" by fastforce
  from c have st1: "cs_cache st1 = cs_cache st" "cs_config st1 = cs_config st"
    using check_rate_limit_frame(1) [of now k st] config_check [of now k st] by simp_all
  from assms k c have eq: "cache_get now key st = read_entry now k st1"
    by (auto simp: cache_get_def js_then_def split: sum.splits)
  with assms have "fst (read_entry now k st1) = Inr (Some d)" by simp
  from read_entry_hit [OF this] k st1 show ?thesis unfolding eq by auto
qed

lemma store_entry_get:
  "js_get (cs_cache (store_entry now key data options st)) key =
     Some \<lparr>ce_data = data, ce_timestamp = now, ce_ttl = effective_ttl (cs_config st) options,
           ce_etag = so_etag options, ce_version = so_version options\<rparr>"
  by (simp add: store_entry_def Let_def js_simps split: option.split)

lemma drop_tagged_effect:
  "distinct keys \<Longrightarrow>
     fst (drop_tagged keys count st) = count + length (filter (js_has (cs_cache st)) keys) \<and>
     js_get (cs_cache (snd (drop_tagged keys count st))) k =
       (if k \<in> set keys then None else js_get (cs_cache st) k) \<and>
     cs_tags (snd (drop_tagged keys count st)) = cs_tags st"
proof (induction keys count st rule: drop_tagged.induct)
  case (2 key keys count st)
  have same: "filter (js_has (js_del key (cs_cache st))) keys = filter (js_has (cs_cache st)) keys"
    using "2.prems" by (intro filter_cong) (auto simp: js_has_def js_simps)
  show ?case
  proof (cases "js_has (cs_cache st) key")
    case True
    with "2.IH"(1) "2.prems" show ?thesis by (simp add: same) (simp add: js_simps)
  next
    case False
    then have "js_get (cs_cache st) key = None" by (simp add: js_has_def)
    with False "2.IH"(2) "2.prems" show ?thesis by auto
  qed
qed simp

lemma drop_matching_effect:
  "js_wf m \<Longrightarrow>
     fst (drop_matching doomed m count st) = count + length (filter (\<lambda>(key, e). doomed key e) m) \<and>
     js_get (cs_cache (snd (drop_matching doomed m count st))) k =
       (case js_get m k of
          None \<Rightarrow> js_get (cs_cache st) k
        | Some e \<Rightarrow> if doomed k e then None else js_get (cs_cache st) k)"
proof (induction doomed m count st rule: drop_matching.induct)
  case (2 doomed key entry m count st)
  have "js_wf m" and "js_get m key = None"
    using "2.prems" by (simp_all add: js_wf_def map_of_eq_None_iff)
  with 2 show ?case by (auto simp: js_simps split: option.splits)
qed simp

section \<open>The rate limit over time\<close>

text \<open>The times at which consecutive requests for one key are accepted.\<close>

fun accepted_times :: "string \<Rightarrow> int list \<Rightarrow> 'a cache_service \<Rightarrow> int list" where
  "accepted_times key [] st = []"
| "accepted_times key (now # ts) st =
     (case check_rate_limit now key st of
        (Inl _, st') \<Rightarrow> accepted_times key ts st'
      | (Inr _, st') \<Rightarrow> now # accepted_times key ts st')"

definition in_minute :: "int \<Rightarrow> int list \<Rightarrow> nat" where
  "in_minute w ts = length (filter (\<lambda>t. w \<le> t \<and> t < w + 60000) ts)"

lemma in_minute_append [simp]: "in_minute w (xs @ ys) = in_minute w xs + in_minute w ys"
  by (simp add: in_minute_def)

lemma in_minute_le_recent:
  assumes "w \<le> t" and "t < w + 60000"
  shows "in_minute w ts \<le> length (recent_requests t ts)"
proof -
  have "filter (\<lambda>x. w \<le> x \<and> x < w + 60000) ts =
        filter (\<lambda>x. x < w + 60000 \<and> w \<le> x) (recent_requests t ts)"
    using assms by (auto simp: recent_requests_def intro: filter_cong)
  then show ?thesis by (simp add: in_minute_def)
qed

lemma accepted_times_bound:
  assumes "sorted ts" and "list_all (\<lambda>t. t0 \<le> t) ts"
    and "\<And>t. t0 \<le> t \<Longrightarrow>
      recent_requests t (get_or [] (js_get (cs_rateLimiter st) key)) = recent_requests t past"
    and "\<And>w. in_minute w past \<le> 100"
  shows "in_minute w (past @ accepted_times key ts st) \<le> 100"
  using assms
proof (induction ts arbitrary: t0 past st)
  case Nil
  then show ?case by simp
next
  case (Cons now ts)
  let ?L = "get_or [] (js_get (cs_rateLimiter st) key)"
  from Cons.prems have now: "t0 \<le> now" and sts: "sorted ts" and ge: "list_all (\<lambda>t. now \<le> t) ts"
    by (auto simp: list_all_iff)
  have rec: "recent_requests now ?L = recent_requests now past" using Cons.prems(3) now by blast
  show ?case
  proof (cases "100 \<le> length (recent_requests now ?L)")
    case True
    then have "accepted_times key (now # ts) st = accepted_times key ts st"
      by (simp add: check_rate_limit_def)
    moreover have "in_minute w (past @ accepted_times key ts st) \<le> 100"
      using Cons.IH [OF sts ge] Cons.prems(3,4) now by auto
    ultimately show ?thesis by simp
  next
    case False
    let ?st' = "st\<lparr>cs_rateLimiter := js_set key (recent_requests now ?L @ [now]) (cs_rateLimiter st)\<rparr>"
    have acc: "accepted_times key (now # ts) st = now # accepted_times key ts ?st'"
      using False by (simp add: check_rate_limit_def)
    have "recent_requests t (recent_requests now past @ [now]) = recent_requests t (past @ [now])"
      if "now \<le> t" for t
      using that by (auto simp: recent_requests_def intro: filter_cong)
    then have same: "\<And>t. now \<le> t \<Longrightarrow>
        recent_requests t (get_or [] (js_get (cs_rateLimiter ?st') key)) = recent_requests t (past @ [now])"
      by (simp add: js_simps rec)
    have "in_minute v (past @ [now]) \<le> 100" for v
    proof (cases "v \<le> now \<and> now < v + 60000")
      case True
      then have "in_minute v past < 100"
        using in_minute_le_recent [of v now past] False rec by simp
      then show ?thesis using True by (simp add: in_minute_def)
    next
      case False
      then show ?thesis using Cons.prems(4) [of v] by (auto simp: in_minute_def)
    qed
    from Cons.IH [OF sts ge same this] acc show ?thesis by simp
  qed
qed

section \<open>Properties\<close>

text \<open>
  C1. Whatever sequence of calls is made on a fresh cache, with any throws among them, it
  holds at most \<open>maxSize\<close> entries (one when \<open>maxSize\<close> is 0) under distinct keys, every tag
  it keeps has keys, and no key has more than 100 requests on record.
\<close>

theorem cache_runs_bounded:
  "length (cs_cache (run_cache json_len calls (new_cache config))) \<le> max 1 (cfg_maxSize config) \<and>
   distinct (map fst (cs_cache (run_cache json_len calls (new_cache config)))) \<and>
   tags_ok (cs_tags (run_cache json_len calls (new_cache config))) \<and>
   limiter_ok (cs_rateLimiter (run_cache json_len calls (new_cache config)))"
proof -
  have "cache_ok (run_cache json_len calls (new_cache config))"
    by (rule cache_ok_run) (rule cache_ok_new)
  moreover have "cs_config (run_cache json_len calls (new_cache config)) = config"
    by (simp add: config_run) (simp add: new_cache_def)
  ultimately show ?thesis by (simp add: cache_ok_def entries_ok_def js_wf_def)
qed

text \<open>
  Reading back what was stored: after a successful \<open>set\<close>, a \<open>get\<close> of the same key
  that is not over the rate limit and comes within the entry's time-to-live returns the data.
\<close>

theorem cache_get_after_set:
  assumes set: "cache_set json_len t0 key d options st = (Inr (), st1)"
    and key: "validate_key key = Inr k"
    and fresh: "t1 - t0 \<le> effective_ttl (cs_config st) options"
    and rate: "length (recent_requests t1 (get_or [] (js_get (cs_rateLimiter st1) k))) < 100"
  shows "fst (cache_get t1 key st1) = Inr (Some d)"
proof -
  obtain r st0 where c: "check_rate_limit t0 k st = (r, st0)" by fastforce
  from c have cfg: "cs_config st0 = cs_config st" using config_check [of t0 k st] by simp
  from set key c have "st1 = store_entry t0 k d options st0"
    by (auto simp: cache_set_def js_then_def split: sum.splits)
  then have e: "js_get (cs_cache st1) k =
      Some \<lparr>ce_data = d, ce_timestamp = t0, ce_ttl = effective_ttl (cs_config st) options,
            ce_etag = so_etag options, ce_version = so_version options\<rparr>"
    by (simp add: store_entry_get cfg)
  obtain st2 where c2: "check_rate_limit t1 k st1 = (Inr (), st2)" and "cs_cache st2 = cs_cache st1"
    using rate by (simp add: check_rate_limit_def)
  with e fresh key show ?thesis
    by (simp add: cache_get_def js_then_def read_entry_def is_expired_def)
qed

theorem cache_get_after_set_witness:
  "\<exists>st1. cache_set length 0 ''group:7'' ''data'' no_options (new_cache default_config) = (Inr (), st1) \<and>
     fst (cache_get 300000 ''group:7'' st1) = Inr (Some ''data'')"
proof -
  let ?st = "new_cache default_config :: string cache_service"
  let ?st1 = "snd (cache_set length 0 ''group:7'' ''data'' no_options ?st)"
  have k: "validate_key ''group:7'' = Inr ''group:7''"
    by (simp add: validate_key_def safe_key_char_def)
  have s: "cache_set length 0 ''group:7'' ''data'' no_options ?st = (Inr (), ?st1)"
    by (simp add: cache_set_def k js_then_def check_rate_limit_def recent_requests_def new_cache_def
        validate_data_size_def max_data_size_def)
  have f: "300000 - 0 \<le> effective_ttl (cs_config ?st) no_options"
    by (simp add: effective_ttl_def no_options_def new_cache_def default_config_def)
  have r: "length (recent_requests 300000 (get_or [] (js_get (cs_rateLimiter ?st1) ''group:7''))) < 100"
    by (simp add: cache_set_def k js_then_def check_rate_limit_def recent_requests_def new_cache_def
        validate_data_size_def max_data_size_def store_entry_def Let_def no_options_def default_config_def)
  from s cache_get_after_set [OF s k f r] show ?thesis by blast
qed

text \<open>
  What a \<open>get\<close> serves: data comes from the entry under the sanitized key, and that entry
  is within its time-to-live or, with stale-while-revalidate on, within twice of it. Older
  data is never served, and a \<open>get\<close> that serves leaves the entries as they are.
\<close>

theorem cache_get_never_overstale:
  assumes "fst (cache_get now key st) = Inr (Some d)"
  shows "\<exists>k e. validate_key key = Inr k \<and> js_get (cs_cache st) k = Some e \<and> ce_data e = d \<and>
           (now - ce_timestamp e \<le> ce_ttl e \<or>
            cfg_staleWhileRevalidate (cs_config st) \<and> now - ce_timestamp e < 2 * ce_ttl e) \<and>
           cs_cache (snd (cache_get now key st)) = cs_cache st"
  using cache_get_hit [OF assms] by (auto simp: is_expired_def)

definition sample_cache :: "string cache_service" where
  "sample_cache = snd (cache_set length 0 ''a'' ''x'' no_options (new_cache default_config))"

lemma validate_key_a: "validate_key ''a'' = Inr ''a''"
  by (simp add: validate_key_def safe_key_char_def)

lemma sample_cache_eq:
  "sample_cache =
     (new_cache default_config)\<lparr>
       cs_cache := [(''a'', \<lparr>ce_data = ''x'', ce_timestamp = 0, ce_ttl = 300000,
                            ce_etag = None, ce_version = None\<rparr>)],
       cs_rateLimiter := [(''a'', [0])],
       cs_metrics := zero_metrics 1\<rparr>"
  by (simp add: sample_cache_def cache_set_def validate_key_a js_then_def check_rate_limit_def
      recent_requests_def new_cache_def validate_data_size_def max_data_size_def store_entry_def
      no_options_def default_config_def effective_ttl_def sync_size_def zero_metrics_def)

lemma sample_cache_stale_hit: "fst (cache_get 400000 ''a'' sample_cache) = Inr (Some ''x'')"
  by (simp add: sample_cache_eq cache_get_def validate_key_a js_then_def check_rate_limit_def
      recent_requests_def read_entry_def is_expired_def new_cache_def default_config_def)

theorem cache_get_never_overstale_witness:
  "\<exists>k e. validate_key ''a'' = Inr k \<and> js_get (cs_cache sample_cache) k = Some e \<and> ce_data e = ''x'' \<and>
     (400000 - ce_timestamp e \<le> ce_ttl e \<or>
      cfg_staleWhileRevalidate (cs_config sample_cache) \<and> 400000 - ce_timestamp e < 2 * ce_ttl e) \<and>
     cs_cache (snd (cache_get 400000 ''a'' sample_cache)) = cs_cache sample_cache"
  by (rule cache_get_never_overstale [OF sample_cache_stale_hit])

text \<open>
  The rate limit: on a clock that does not run backwards, the requests for a key that
  pass the guard number at most 100 in every interval of one minute, wherever it starts.
\<close>

theorem rate_limit_per_minute:
  assumes "sorted ts"
  shows "in_minute w (accepted_times key ts (new_cache config)) \<le> 100"
proof (cases ts)
  case Nil
  then show ?thesis by (simp add: in_minute_def)
next
  case (Cons t ts')
  with assms have "list_all (\<lambda>x. t \<le> x) ts" by (auto simp: list_all_iff)
  from accepted_times_bound [OF assms this, of "new_cache config" key "[]" w]
  show ?thesis by (simp add: new_cache_def in_minute_def)
qed

theorem rate_limit_per_minute_witness:
  "in_minute 0 (accepted_times ''k'' [0, 10, 60000] (new_cache default_config :: string cache_service)) \<le> 100"
  using rate_limit_per_minute [of "[0, 10, 60000]" 0 "''k''" "default_config"] by simp

text \<open>
  What eviction removes: an entry whose write is oldest. Reading an entry does not count
  as use, because a \<open>get\<close> that serves an entry leaves its timestamp alone: the entry evicted
  right after the read is the one that would have been evicted before it.
\<close>

theorem eviction_by_write_age:
  assumes ok: "cache_ok st" and hit: "fst (cache_get now key st) = Inr (Some d)"
  shows "\<exists>k e. js_get (cs_cache st) k = Some e \<and>
           list_all (\<lambda>(k', e'). ce_timestamp e \<le> ce_timestamp e') (cs_cache st) \<and>
           cs_cache (evict_lru st) = js_del k (cs_cache st) \<and>
           cs_cache (evict_lru (snd (cache_get now key st))) = js_del k (cs_cache st)"
proof -
  let ?st' = "snd (cache_get now key st)"
  from cache_get_hit [OF hit] have same: "cs_cache ?st' = cs_cache st" and ne: "cs_cache st \<noteq> []"
    by auto
  from ok have wf: "js_wf (cs_cache st)" and keys: "\<forall>k\<in>fst ` set (cs_cache st). k \<noteq> []"
    by (simp_all add: cache_ok_def entries_ok_def)
  from evict_lru_cache [OF wf keys ne] obtain k e where e: "js_get (cs_cache st) k = Some e"
    and min: "\<forall>p\<in>set (cs_cache st). ce_timestamp e \<le> ce_timestamp (snd p)"
    and ev: "cs_cache (evict_lru st) = js_del k (cs_cache st)" by metis
  have "cs_cache (evict_lru ?st') = cs_cache (evict_lru st)"
    using same by (simp add: evict_lru_def split: option.split prod.split)
  then show ?thesis using e min ev
    by (intro exI [of _ k] exI [of _ e]) (auto simp: list_all_iff)
qed

theorem eviction_by_write_age_witness:
  "\<exists>k e. js_get (cs_cache sample_cache) k = Some e \<and>
     list_all (\<lambda>(k', e'). ce_timestamp e \<le> ce_timestamp e') (cs_cache sample_cache) \<and>
     cs_cache (evict_lru sample_cache) = js_del k (cs_cache sample_cache) \<and>
     cs_cache (evict_lru (snd (cache_get 400000 ''a'' sample_cache))) = js_del k (cs_cache sample_cache)"
proof -
  have "cache_ok sample_cache"
    unfolding sample_cache_def by (rule cache_ok_set) (rule cache_ok_new)
  then show ?thesis by (rule eviction_by_write_age [OF _ sample_cache_stale_hit])
qed

text \<open>
  Invalidation by tag removes exactly the entries stored under the tag's keys, forgets the
  tag, reports how many entries it removed, and leaves every other entry and the size metric
  right.
\<close>

theorem invalidate_by_tag_exact:
  assumes "js_get (cs_tags st) tag = Some keys" and "distinct keys"
  shows "fst (invalidate_by_tag tag st) = length (filter (js_has (cs_cache st)) keys) \<and>
    js_get (cs_cache (snd (invalidate_by_tag tag st))) k =
      (if k \<in> set keys then None else js_get (cs_cache st) k) \<and>
    cs_tags (snd (invalidate_by_tag tag st)) = js_del tag (cs_tags st) \<and>
    m_size (cs_metrics (snd (invalidate_by_tag tag st))) =
      length (cs_cache (snd (invalidate_by_tag tag st)))"
  using assms(1) drop_tagged_effect [OF assms(2), of 0 st k]
  by (simp add: invalidate_by_tag_def case_prod_unfold sync_size_def Let_def)

theorem invalidate_by_tag_exact_witness:
  "fst (invalidate_by_tag ''t'' (sample_cache\<lparr>cs_tags := [(''t'', [''a'', ''b''])]\<rparr>)) = 1"
  using invalidate_by_tag_exact [of "sample_cache\<lparr>cs_tags := [(''t'', [''a'', ''b''])]\<rparr>" "''t''" "[''a'', ''b'']" "''a''"]
  by (simp add: sample_cache_eq js_has_def)

text \<open>
  Invalidation by version drops the entries that carry another non-empty version and
  nothing else, and counts them.
\<close>

theorem invalidate_by_version_exact:
  assumes "js_wf (cs_cache st)"
  shows "fst (invalidate_by_version v st) =
      length (filter (\<lambda>(key, e). version_mismatch v e) (cs_cache st)) \<and>
    js_get (cs_cache (snd (invalidate_by_version v st))) k =
      (case js_get (cs_cache st) k of
         None \<Rightarrow> None
       | Some e \<Rightarrow> if version_mismatch v e then None else Some e)"
  using drop_matching_effect [OF assms, of "\<lambda>_ entry. version_mismatch v entry" 0 st k]
  by (simp add: invalidate_by_version_def case_prod_unfold Let_def split: option.splits)

theorem invalidate_by_version_exact_witness:
  "fst (invalidate_by_version ''v2''
     (sample_cache\<lparr>cs_cache := [(''a'', \<lparr>ce_data = ''x'', ce_timestamp = 0, ce_ttl = 300000,
        ce_etag = None, ce_version = Some ''v1''\<rparr>)]\<rparr>)) = 1"
  using invalidate_by_version_exact [of "sample_cache\<lparr>cs_cache := [(''a'', \<lparr>ce_data = ''x'',
      ce_timestamp = 0, ce_ttl = 300000, ce_etag = None, ce_version = Some ''v1''\<rparr>)]\<rparr>" "''v2''" "''a''"]
  by (simp add: version_mismatch_def js_wf_def)

end
