(* ===== verification/Resilience.thy ===== *)
theory Resilience
  imports JsPrelude
begin

text \<open>
  The circuit breaker contract. Two components carry a breaker of their own, the API gateway
  (\<open>backend/src/gateway/router.ts\<close>, one per service) and the Soroban client
  (\<open>frontend/src/services/soroban.ts\<close>). Both count failures, open at a threshold, refuse
  calls while open, let a probe through once a timeout has passed since the last failure and
  forget the failures on a success. \<open>circuit_breaker\<close> states that contract; the two
  components interpret it on their own operations.
\<close>

text \<open>The \<open>state\<close> field of both breakers: \<open>'closed' | 'open' | 'half-open'\<close>.\<close>

datatype circuit_mode = Closed | Open | HalfOpen

section \<open>The contract\<close>

locale circuit_breaker =
  fixes is_open :: "int \<Rightarrow> 'b \<Rightarrow> bool \<times> 'b"
    and on_success :: "'b \<Rightarrow> 'b"
    and on_failure :: "int \<Rightarrow> 'b \<Rightarrow> 'b"
    and tripped :: "'b \<Rightarrow> bool"
    and failures :: "'b \<Rightarrow> nat"
    and last_failure :: "'b \<Rightarrow> int"
    and threshold :: nat
    and timeout :: int
  assumes open_iff: "fst (is_open now b) \<longleftrightarrow> tripped b \<and> now - last_failure b \<le> timeout"
    and open_stays: "fst (is_open now b) \<Longrightarrow> tripped (snd (is_open now b))"
    and let_through: "\<not> fst (is_open now b) \<Longrightarrow> \<not> tripped (snd (is_open now b))"
    and open_failures: "failures (snd (is_open now b)) = failures b"
    and open_last: "last_failure (snd (is_open now b)) = last_failure b"
    and failure_counts: "failures (on_failure now b) = Suc (failures b)"
    and failure_time: "last_failure (on_failure now b) = now"
    and failure_trips: "tripped (on_failure now b) \<longleftrightarrow> tripped b \<or> threshold \<le> Suc (failures b)"
    and success_resets: "failures (on_success b) = 0"
    and success_closes: "\<not> tripped b \<Longrightarrow> \<not> tripped (on_success b)"
begin

lemma failures_fold: "failures (fold on_failure ts b) = failures b + length ts"
  by (induction ts arbitrary: b) (simp_all add: failure_counts)

lemma last_fold: "ts \<noteq> [] \<Longrightarrow> last_failure (fold on_failure ts b) = last ts"
  by (induction ts arbitrary: b) (auto simp: failure_time)

lemma tripped_fold:
  "ts \<noteq> [] \<Longrightarrow> tripped (fold on_failure ts b) \<longleftrightarrow> tripped b \<or> threshold \<le> failures b + length ts"
proof (induction ts arbitrary: b)
  case Nil
  then show ?case by simp
next
  case (Cons t ts)
  show ?case
  proof (cases "ts = []")
    case True
    then show ?thesis by (simp add: failure_trips)
  next
    case False
    then show ?thesis using Cons.IH [of "on_failure t b"]
      by (simp add: failure_trips failure_counts) auto
  qed
qed

lemma fail_fast:
  assumes "ts \<noteq> []" and "threshold \<le> length ts" and "now - last ts \<le> timeout"
  shows "fst (is_open now (fold on_failure ts b))"
proof -
  have "tripped (fold on_failure ts b)" using assms(2) by (simp add: tripped_fold [OF assms(1)])
  then show ?thesis using assms(3) by (simp add: open_iff last_fold [OF assms(1)])
qed

lemma few_failures_stay_closed:
  assumes "\<not> tripped b" and "failures b = 0" and "length ts < threshold"
  shows "\<not> fst (is_open now (fold on_failure ts b))"
proof (cases "ts = []")
  case True
  then show ?thesis using assms(1) by (simp add: open_iff)
next
  case False
  then have "\<not> tripped (fold on_failure ts b)" using assms by (simp add: tripped_fold)
  then show ?thesis by (simp add: open_iff)
qed

text \<open>After the timeout one probe is let through; its result decides.\<close>

lemma probe_succeeds:
  assumes "timeout < now - last_failure b"
  shows "\<not> fst (is_open now b) \<and> \<not> fst (is_open t (on_success (snd (is_open now b)))) \<and>
         failures (on_success (snd (is_open now b))) = 0"
proof -
  have a: "\<not> fst (is_open now b)" using assms by (simp add: open_iff)
  then have "\<not> tripped (on_success (snd (is_open now b)))"
    using let_through success_closes by blast
  then show ?thesis using a by (simp add: open_iff success_resets)
qed

lemma probe_fails:
  assumes "timeout < now - last_failure b" and "threshold \<le> Suc (failures b)" and "t - now \<le> timeout"
  shows "\<not> fst (is_open now b) \<and> fst (is_open t (on_failure now (snd (is_open now b))))"
  using assms by (simp add: open_iff failure_trips failure_time open_failures)

end

end
