(* ===== verification/Gateway.thy ===== *)
theory Gateway
  imports Resilience
begin

text \<open>
  The API gateway: \<open>APIGateway\<close> of \<open>backend/src/gateway/router.ts\<close> with its configuration
  (\<open>gateway/config.ts\<close>) and the stand-alone middleware of \<open>gateway/middleware/index.ts\<close>.

  A middleware is a function of the request that either calls \<open>next()\<close> (\<open>Next\<close>) or answers
  (\<open>Reject status message\<close>). The gateway's maps are the fields of \<open>gateway\<close>; the timers that
  \<open>setTimeout\<close> has pending are \<open>gw_timers\<close>, pairs of the instant they are due and the key
  whose count they take down. \<open>gw_step\<close> interleaves requests and timers.
\<close>

section \<open>Configuration and requests\<close>

record request =
  rq_ip :: "string option"
  rq_path :: string
  rq_method :: string
  rq_authorization :: "string option"
  rq_is_json :: bool

datatype log_level = LDebug | LInfo | LWarn | LError

record gateway_config =
  rl_windowMs :: int
  rl_maxRequests :: nat
  rl_keyGenerator :: "(request \<Rightarrow> string) option"
  au_enabled :: bool
  au_strategies :: "string list"
  ro_timeout :: int
  ro_retries :: nat
  cb_enabled :: bool
  cb_threshold :: nat
  cb_timeout :: int
  lo_enabled :: bool
  lo_level :: log_level

definition default_gateway_config :: gateway_config where
  "default_gateway_config =
     \<lparr>rl_windowMs = 60000, rl_maxRequests = 100, rl_keyGenerator = None,
      au_enabled = True, au_strategies = [''jwt'', ''api-key''],
      ro_timeout = 30000, ro_retries = 2,
      cb_enabled = True, cb_threshold = 50, cb_timeout = 60000,
      lo_enabled = True, lo_level = LInfo\<rparr>"

record breaker =
  br_failures :: nat
  br_lastFailureTime :: int
  br_state :: circuit_mode

record gateway =
  gw_breakers :: "(string, breaker) jsmap"
  gw_counts :: "(string, nat) jsmap"
  gw_timers :: "(int \<times> string) list"

definition new_gateway :: gateway where
  "new_gateway = \<lparr>gw_breakers = [], gw_counts = [], gw_timers = []\<rparr>"

datatype verdict = Next | Reject nat string

section \<open>Rate limiting\<close>

definition rate_key :: "gateway_config \<Rightarrow> request \<Rightarrow> string" where
  "rate_key config req =
     (case truthy (map_option (\<lambda>g. g req) (rl_keyGenerator config)) of
        Some k \<Rightarrow> k
      | None \<Rightarrow> (case truthy (rq_ip req) of Some ip \<Rightarrow> ip | None \<Rightarrow> ''unknown''))"

definition rate_limit :: "gateway_config \<Rightarrow> int \<Rightarrow> request \<Rightarrow> gateway \<Rightarrow> verdict \<times> gateway" where
  "rate_limit config now req g =
     (let key = rate_key config req;
          count = get_or 0 (js_get (gw_counts g) key)
      in if rl_maxRequests config \<le> count then (Reject 429 ''Too many requests'', g)
         else (Next, g\<lparr>gw_counts := js_set key (count + 1) (gw_counts g),
                       gw_timers := gw_timers g @ [(now + rl_windowMs config, key)]\<rparr>))"

text \<open>The timer's callback; \<open>Math.max(0, current - 1)\<close> is subtraction on \<open>nat\<close>.\<close>

definition window_elapsed :: "string \<Rightarrow> gateway \<Rightarrow> gateway" where
  "window_elapsed key g =
     g\<lparr>gw_counts := js_set key (get_or 0 (js_get (gw_counts g) key) - 1) (gw_counts g)\<rparr>"

section \<open>Authentication\<close>

definition bearer_token :: "request \<Rightarrow> string option" where
  "bearer_token req =
     truthy (case rq_authorization req of None \<Rightarrow> None | Some h \<Rightarrow> js_at (js_split CHR '' '' h) 1)"

definition authenticate :: "gateway_config \<Rightarrow> request \<Rightarrow> verdict" where
  "authenticate config req =
     (if \<not> au_enabled config then Next
      else case bearer_token req of None \<Rightarrow> Reject 401 ''Unauthorized'' | Some token \<Rightarrow> Next)"

section \<open>Circuit breakers\<close>

definition fresh_breaker :: breaker where
  "fresh_breaker = \<lparr>br_failures = 0, br_lastFailureTime = 0, br_state = Closed\<rparr>"

definition get_circuit_breaker :: "string \<Rightarrow> gateway \<Rightarrow> breaker \<times> gateway" where
  "get_circuit_breaker service g =
     (case js_get (gw_breakers g) service of
        Some b \<Rightarrow> (b, g)
      | None \<Rightarrow> (fresh_breaker, g\<lparr>gw_breakers := js_set service fresh_breaker (gw_breakers g)\<rparr>))"

definition is_circuit_open :: "gateway_config \<Rightarrow> string \<Rightarrow> int \<Rightarrow> gateway \<Rightarrow> bool \<times> gateway" where
  "is_circuit_open config service now g =
     (case get_circuit_breaker service g of (breaker, g1) \<Rightarrow>
        (case br_state breaker of
           Closed \<Rightarrow> (False, g1)
         | Open \<Rightarrow>
             if cb_timeout config < now - br_lastFailureTime breaker
             then (False, g1\<lparr>gw_breakers := js_set service (breaker\<lparr>br_state := HalfOpen\<rparr>) (gw_breakers g1)\<rparr>)
             else (True, g1)
         | HalfOpen \<Rightarrow> (False, g1)))"

definition record_service_call ::
  "gateway_config \<Rightarrow> string \<Rightarrow> bool \<Rightarrow> int \<Rightarrow> gateway \<Rightarrow> gateway" where
  "record_service_call config service success now g =
     (case get_circuit_breaker service g of (breaker, g1) \<Rightarrow>
        let breaker1 =
          (if success
           then breaker\<lparr>br_failures := 0,
                        br_state := (if br_state breaker = HalfOpen then Closed else br_state breaker)\<rparr>
           else let failures = br_failures breaker + 1
                in breaker\<lparr>br_failures := failures, br_lastFailureTime := now,
                           br_state := (if cb_threshold config \<le> failures then Open else br_state breaker)\<rparr>)
        in g1\<lparr>gw_breakers := js_set service breaker1 (gw_breakers g1)\<rparr>)"

section \<open>Routing and logging\<close>

text \<open>
  The two middleware replace \<open>res.send\<close> by a function that is called as a method of \<open>res\<close>.
  \<open>send_fun\<close> is the function \<open>res.send\<close> then is, with the captured variables.
\<close>

datatype send_fun =
  OriginalSend
| RoutingSend string send_fun
| LoggingSend int send_fun

text \<open>The service a path names: \<open>path.split('/')[1]\<close>. Express paths start with a slash, so
  the element exists.\<close>

definition route_service :: "string \<Rightarrow> string" where
  "route_service path = get_or [] (js_at (js_split CHR ''/'' path) 1)"

definition routing ::
  "gateway_config \<Rightarrow> int \<Rightarrow> request \<Rightarrow> send_fun \<Rightarrow> gateway \<Rightarrow> verdict \<times> send_fun \<times> gateway" where
  "routing config now req send g =
     (let service = route_service (rq_path req)
      in case is_circuit_open config service now g of
           (True, g1) \<Rightarrow> (Reject 503 ''Service unavailable'', send, g1)
         | (False, g1) \<Rightarrow> (Next, RoutingSend service send, g1))"

definition logging :: "gateway_config \<Rightarrow> int \<Rightarrow> send_fun \<Rightarrow> verdict \<times> send_fun" where
  "logging config now send =
     (if \<not> lo_enabled config then (Next, send) else (Next, LoggingSend now send))"

text \<open>
  Calling \<open>res.send(data)\<close>. Inside \<open>function (data) ...\<close> the name \<open>this\<close> is the object the
  function is called on, the response, which has neither a method \<open>recordServiceCall\<close> nor a
  property \<open>config\<close>: the first statement that uses it throws a \<open>TypeError\<close>, before the
  original \<open>send\<close> is reached.
\<close>

datatype send_error = NotAFunction string | PropertyOfUndefined string

fun call_send :: "send_fun \<Rightarrow> send_error + unit" where
  "call_send OriginalSend = Inr ()"
| "call_send (RoutingSend service originalSend) = Inl (NotAFunction ''recordServiceCall'')"
| "call_send (LoggingSend start originalSend) = Inl (PropertyOfUndefined ''logging'')"

section \<open>Health\<close>

record gateway_health =
  gh_status :: string
  gh_circuitBreakers :: "(string, circuit_mode) jsmap"
  gh_rateLimitingActive :: bool

definition get_health :: "gateway_config \<Rightarrow> gateway \<Rightarrow> gateway_health" where
  "get_health config g =
     \<lparr>gh_status = ''healthy'',
      gh_circuitBreakers = map (\<lambda>(service, breaker). (service, br_state breaker)) (gw_breakers g),
      gh_rateLimitingActive = 0 < rl_maxRequests config\<rparr>"

section \<open>Stand-alone middleware\<close>

text \<open>The second component tells whether \<open>req.user\<close> was set to \<open>{ authenticated: true }\<close>.\<close>

definition authentication_middleware :: "request \<Rightarrow> verdict \<times> bool" where
  "authentication_middleware req =
     (case bearer_token req of
        None \<Rightarrow> (Reject 401 ''Missing authentication token'', False)
      | Some token \<Rightarrow> (Next, True))"

definition request_validation :: "request \<Rightarrow> verdict" where
  "request_validation req =
     (if rq_method req \<noteq> ''GET'' \<and> \<not> rq_is_json req
      then Reject 400 ''Content-Type must be application/json'' else Next)"

text \<open>The body \<open>res.json\<close> sends after \<open>responseTransformMiddleware\<close> replaced it.\<close>

record 'a envelope =
  en_success :: bool
  en_data :: 'a
  en_timestamp :: int

definition transform_response :: "nat \<Rightarrow> int \<Rightarrow> 'a \<Rightarrow> 'a envelope" where
  "transform_response statusCode now data =
     \<lparr>en_success = statusCode < 400, en_data = data, en_timestamp = now\<rparr>"

definition handle_error :: "string option \<Rightarrow> int \<Rightarrow> nat \<times> bool \<times> string \<times> int" where
  "handle_error message now = (500, False, get_or ''Internal server error'' (truthy message), now)"

section \<open>Time passes: requests and timers\<close>

datatype gw_label = Request request verdict int | TimerFired string int

text \<open>
  One step of the event loop at instant \<open>now\<close>: a request goes through the rate limiter, or a
  pending timer that is due runs its callback. \<open>setTimeout\<close> never runs a callback early.
\<close>

inductive gw_step :: "gateway_config \<Rightarrow> gateway \<Rightarrow> gw_label \<Rightarrow> gateway \<Rightarrow> bool" for config where
  request: "rate_limit config now req g = (v, g') \<Longrightarrow> gw_step config g (Request req v now) g'"
| timer: "gw_timers g = before @ (due, key) # after \<Longrightarrow> due \<le> now \<Longrightarrow>
    gw_step config g (TimerFired key now) (window_elapsed key (g\<lparr>gw_timers := before @ after\<rparr>))"

inductive_cases gw_step_requestE: "gw_step config g (Request req v now) g'"
inductive_cases gw_step_timerE: "gw_step config g (TimerFired key now) g'"

fun label_time :: "gw_label \<Rightarrow> int" where
  "label_time (Request req v now) = now"
| "label_time (TimerFired key now) = now"

text \<open>A run from a fresh gateway, its labels newest first, on a clock that does not run backwards.\<close>

inductive gw_run :: "gateway_config \<Rightarrow> gw_label list \<Rightarrow> gateway \<Rightarrow> bool" for config where
  start: "gw_run config [] new_gateway"
| step: "gw_run config ls g \<Longrightarrow> gw_step config g l g' \<Longrightarrow>
    list_all (\<lambda>l'. label_time l' \<le> label_time l) ls \<Longrightarrow> gw_run config (l # ls) g'"

fun let_in :: "gateway_config \<Rightarrow> string \<Rightarrow> gw_label list \<Rightarrow> int list" where
  "let_in config key [] = []"
| "let_in config key (Request req v now # ls) =
     (if v = Next \<and> rate_key config req = key then now # let_in config key ls else let_in config key ls)"
| "let_in config key (TimerFired k now # ls) = let_in config key ls"

section \<open>The breaker contract holds for every service\<close>

definition breaker_of :: "string \<Rightarrow> gateway \<Rightarrow> breaker" where
  "breaker_of service g = get_or fresh_breaker (js_get (gw_breakers g) service)"

lemma get_circuit_breaker_fst: "fst (get_circuit_breaker service g) = breaker_of service g"
  by (simp add: get_circuit_breaker_def breaker_of_def split: option.split)

lemma breaker_of_get: "breaker_of s (snd (get_circuit_breaker service g)) = breaker_of s g"
  by (simp add: get_circuit_breaker_def breaker_of_def js_simps split: option.split)

lemma is_circuit_open_fst:
  "fst (is_circuit_open config service now g) \<longleftrightarrow>
     br_state (breaker_of service g) = Open \<and>
     now - br_lastFailureTime (breaker_of service g) \<le> cb_timeout config"
  by (cases "get_circuit_breaker service g")
     (use get_circuit_breaker_fst [of service g] in
       \<open>simp add: is_circuit_open_def not_less [symmetric] split: circuit_mode.split\<close>)

lemma is_circuit_open_snd:
  "breaker_of s (snd (is_circuit_open config service now g)) =
     (if s = service \<and> br_state (breaker_of service g) = Open \<and>
         cb_timeout config < now - br_lastFailureTime (breaker_of service g)
      then (breaker_of service g)\<lparr>br_state := HalfOpen\<rparr> else breaker_of s g)"
  using get_circuit_breaker_fst [of service g] breaker_of_get [of s service g]
  by (cases "get_circuit_breaker service g")
     (simp add: is_circuit_open_def breaker_of_def js_simps split: circuit_mode.split)

lemma record_service_call_breaker:
  "breaker_of s (record_service_call config service success now g) =
     (if s \<noteq> service then breaker_of s g
      else let breaker = breaker_of service g in
        if success
        then breaker\<lparr>br_failures := 0,
               br_state := (if br_state breaker = HalfOpen then Closed else br_state breaker)\<rparr>
        else breaker\<lparr>br_failures := br_failures breaker + 1, br_lastFailureTime := now,
               br_state := (if cb_threshold config \<le> br_failures breaker + 1 then Open else br_state breaker)\<rparr>)"
  using get_circuit_breaker_fst [of service g] breaker_of_get [of s service g]
  by (cases "get_circuit_breaker service g")
     (simp add: record_service_call_def breaker_of_def js_simps Let_def)

interpretation gwb: circuit_breaker
  "is_circuit_open config service"
  "record_service_call config service True now0"
  "record_service_call config service False"
  "\<lambda>g. br_state (breaker_of service g) = Open"
  "\<lambda>g. br_failures (breaker_of service g)"
  "\<lambda>g. br_lastFailureTime (breaker_of service g)"
  "cb_threshold config" "cb_timeout config"
  by unfold_locales
     (auto simp: is_circuit_open_fst is_circuit_open_snd record_service_call_breaker Let_def)

section \<open>The rate limiter's invariant\<close>

definition pending :: "string \<Rightarrow> gateway \<Rightarrow> int list" where
  "pending key g = map fst (filter (\<lambda>(due, k). k = key) (gw_timers g))"

definition counts_ok :: "gateway_config \<Rightarrow> gateway \<Rightarrow> bool" where
  "counts_ok config g \<longleftrightarrow>
     (\<forall>key. get_or 0 (js_get (gw_counts g) key) = length (pending key g) \<and>
            length (pending key g) \<le> rl_maxRequests config)"

lemma pending_fresh [simp]: "pending key new_gateway = []"
  by (simp add: pending_def new_gateway_def)

lemma counts_ok_new: "counts_ok config new_gateway"
  by (simp add: counts_ok_def) (simp add: new_gateway_def)

lemma pending_rate_limit:
  "pending key (snd (rate_limit config now req g)) =
     (if rate_key config req = key \<and> fst (rate_limit config now req g) = Next
      then pending key g @ [now + rl_windowMs config] else pending key g)"
  by (simp add: rate_limit_def pending_def Let_def)

lemma counts_ok_rate_limit: "counts_ok config g \<Longrightarrow> counts_ok config (snd (rate_limit config now req g))"
  unfolding counts_ok_def by (auto simp: pending_rate_limit) (auto simp: rate_limit_def Let_def js_simps split: if_splits)

lemma pending_window_elapsed:
  assumes "gw_timers g = before @ (due, k) # after"
  shows "pending key g =
           map fst (filter (\<lambda>(d, k). k = key) before) @ (if k = key then [due] else []) @
           map fst (filter (\<lambda>(d, k). k = key) after) \<and>
         pending key (window_elapsed k (g\<lparr>gw_timers := before @ after\<rparr>)) =
           map fst (filter (\<lambda>(d, k). k = key) before) @ map fst (filter (\<lambda>(d, k). k = key) after)"
  using assms by (simp add: pending_def window_elapsed_def)

lemma counts_ok_window_elapsed:
  assumes "counts_ok config g" and t: "gw_timers g = before @ (due, k) # after"
  shows "counts_ok config (window_elapsed k (g\<lparr>gw_timers := before @ after\<rparr>))"
  unfolding counts_ok_def
proof
  fix key
  let ?g = "window_elapsed k (g\<lparr>gw_timers := before @ after\<rparr>)"
  have c: "get_or 0 (js_get (gw_counts g) key) = length (pending key g)"
    "length (pending key g) \<le> rl_maxRequests config"
    using assms(1) by (simp_all add: counts_ok_def)
  have "get_or 0 (js_get (gw_counts ?g) key) =
      get_or 0 (js_get (gw_counts g) key) - (if k = key then 1 else 0)"
    by (simp add: window_elapsed_def js_simps)
  then show "get_or 0 (js_get (gw_counts ?g) key) = length (pending key ?g) \<and>
      length (pending key ?g) \<le> rl_maxRequests config"
    using c pending_window_elapsed [OF t, of key] by auto
qed

lemma counts_ok_step: "gw_step config g l g' \<Longrightarrow> counts_ok config g \<Longrightarrow> counts_ok config g'"
  by (induction rule: gw_step.induct) (metis counts_ok_rate_limit snd_conv, rule counts_ok_window_elapsed)

lemma counts_ok_run: "gw_run config ls g \<Longrightarrow> counts_ok config g"
  by (induction rule: gw_run.induct) (simp_all add: counts_ok_new counts_ok_step)

text \<open>A request let in less than a window ago still has its timer pending.\<close>

definition alive :: "int \<Rightarrow> int list \<Rightarrow> nat" where
  "alive t ts = length (filter (\<lambda>x. t < x) ts)"

lemma let_in_request:
  assumes "gw_step config g (Request req v now) g'"
  shows "pending key g' = pending key g @ map (\<lambda>t. t + rl_windowMs config) (let_in config key [Request req v now])"
  using assms pending_rate_limit [of key config now req g] by (auto elim!: gw_step_requestE)

lemma let_in_alive:
  assumes "gw_run config ls g" and "list_all (\<lambda>l. label_time l \<le> now) ls"
  shows "alive now (map (\<lambda>t. t + rl_windowMs config) (let_in config key ls)) \<le> alive now (pending key g)"
  using assms
proof (induction arbitrary: now rule: gw_run.induct)
  case start
  then show ?case by (simp add: alive_def)
next
  case (step ls g l g')
  have IH: "alive now (map (\<lambda>t. t + rl_windowMs config) (let_in config key ls)) \<le> alive now (pending key g)"
    using step.IH step.prems by simp
  show ?case
  proof (cases l)
    case (Request req v t)
    then show ?thesis using IH let_in_request [of config g req v t g' key] step.hyps
      by (auto simp: alive_def)
  next
    case (TimerFired k t)
    with step.hyps obtain before due after where tm: "gw_timers g = before @ (due, k) # after"
      and due: "due \<le> t" and g': "g' = window_elapsed k (g\<lparr>gw_timers := before @ after\<rparr>)"
      by (auto elim: gw_step_timerE)
    have "t \<le> now" using step.prems TimerFired by simp
    then have "alive now (pending key g') = alive now (pending key g)"
      using pending_window_elapsed [OF tm, of key] due g' by (auto simp: alive_def)
    then show ?thesis using IH TimerFired by simp
  qed
qed

lemma length_alive: "alive t ts \<le> length ts"
  by (simp add: alive_def)

section \<open>Properties\<close>

text \<open>
  C6. The gateway's rate limit: in every run of requests and timers, at most \<open>maxRequests\<close>
  requests of one key were let in during the last \<open>windowMs\<close> milliseconds.
\<close>

theorem gateway_rate_limited:
  assumes "gw_run config ls g" and "list_all (\<lambda>l. label_time l \<le> now) ls"
  shows "length (filter (\<lambda>t. now - rl_windowMs config < t) (let_in config key ls)) \<le> rl_maxRequests config"
proof -
  have "length (filter (\<lambda>t. now - rl_windowMs config < t) (let_in config key ls)) =
      alive now (map (\<lambda>t. t + rl_windowMs config) (let_in config key ls))"
    by (simp add: alive_def filter_map comp_def algebra_simps)
  also have "\<dots> \<le> alive now (pending key g)" by (rule let_in_alive [OF assms])
  also have "\<dots> \<le> rl_maxRequests config"
    using counts_ok_run [OF assms(1)] length_alive le_trans unfolding counts_ok_def by blast
  finally show ?thesis .
qed

definition sample_request :: request where
  "sample_request = \<lparr>rq_ip = Some ''10.0.0.1'', rq_path = ''/api/groups'', rq_method = ''GET'',
     rq_authorization = None, rq_is_json = False\<rparr>"

lemma sample_run:
  "gw_run default_gateway_config
     [Request sample_request (fst (rate_limit default_gateway_config 5 sample_request new_gateway)) 5]
     (snd (rate_limit default_gateway_config 5 sample_request new_gateway))"
  by (rule gw_run.step [OF gw_run.start gw_step.request]) simp_all

theorem gateway_rate_limited_witness:
  "length (filter (\<lambda>t. 9 - rl_windowMs default_gateway_config < t)
     (let_in default_gateway_config ''10.0.0.1''
       [Request sample_request (fst (rate_limit default_gateway_config 5 sample_request new_gateway)) 5]))
   \<le> rl_maxRequests default_gateway_config"
  by (rule gateway_rate_limited [OF sample_run]) simp

text \<open>
  The breaker of a service opens after \<open>threshold\<close> recorded failures in a row and then
  refuses calls until the timeout since the last of them has passed, when it lets a probe
  through; the other services' breakers never change.
\<close>

theorem gateway_breaker_trips:
  assumes "ts \<noteq> []" and "cb_threshold config \<le> length ts"
  shows "(fst (is_circuit_open config service now
            (fold (record_service_call config service False) ts g)) \<longleftrightarrow> now - last ts \<le> cb_timeout config) \<and>
         (other \<noteq> service \<longrightarrow>
            breaker_of other (fold (record_service_call config service False) ts g) = breaker_of other g)"
proof -
  let ?g = "fold (record_service_call config service False) ts g"
  have "br_state (breaker_of service ?g) = Open" "br_lastFailureTime (breaker_of service ?g) = last ts"
    using assms gwb.tripped_fold gwb.last_fold by simp_all
  moreover have "other \<noteq> service \<Longrightarrow> breaker_of other ?g = breaker_of other g"
    by (induction ts arbitrary: g) (simp_all add: record_service_call_breaker)
  ultimately show ?thesis by (simp add: is_circuit_open_fst)
qed

theorem gateway_breaker_trips_witness:
  "fst (is_circuit_open default_gateway_config ''api'' 60049
     (fold (record_service_call default_gateway_config ''api'' False) [0..49] new_gateway))"
proof -
  have l: "last [0..49::int] = 49" "length [0..49::int] = 50" "[0..49::int] \<noteq> []"
    by (simp_all add: upto_rec2 [of 0 49])
  show ?thesis
    using gateway_breaker_trips [of "[0..49]" default_gateway_config "''api''" 60049 new_gateway "''x''"] l
    by (simp add: default_gateway_config_def)
qed

text \<open>
  What the routing middleware does to a response: a request it refuses keeps its \<open>send\<close>;
  for a request it lets through, the \<open>send\<close> it installs throws, whatever \<open>send\<close> was before,
  so the request is never answered through it and the call's result is never recorded.
\<close>

theorem routed_request_cannot_be_answered:
  "fst (routing config now req send g) =
     (if fst (is_circuit_open config (route_service (rq_path req)) now g)
      then Reject 503 ''Service unavailable'' else Next) \<and>
   call_send (fst (snd (routing config now req send g))) =
     (if fst (is_circuit_open config (route_service (rq_path req)) now g)
      then call_send send else Inl (NotAFunction ''recordServiceCall''))"
  by (cases "is_circuit_open config (route_service (rq_path req)) now g")
     (auto simp: routing_def split: bool.splits)

end
