(* ===== verification/SorobanClient.thy ===== *)
theory SorobanClient
  imports Resilience ResponseCache
begin

text \<open>
  The browser's contract client, \<open>frontend/src/services/soroban.ts\<close>: the circuit breaker, the
  retry wrapper with exponential backoff, the classification of errors, the cached fetch, and
  the operations that write to the contract (\<open>createGroup\<close>, \<open>joinGroup\<close>, \<open>contribute\<close>, the
  insurance claims, \<open>setGroupMetadata\<close>), each with its wallet checks, its transaction pipeline
  and its cache invalidation.

  The wallet extension, the Stellar SDK and the RPC server are not part of the repository: they
  are the fields of \<open>env\<close>, functions on an abstract state of the outside world that also
  carries the clock. Each may throw, and nothing is assumed about them. The client's own
  state is \<open>client\<close>: the module's breaker, the shared cache, the outside world and the events
  it reports to analytics and to the notification area. One call is modelled without other
  calls interleaved at its \<open>await\<close>s.
\<close>

section \<open>Errors\<close>

record js_error =
  er_name :: string
  er_message :: "string option"
  er_code :: "string option"
  er_status :: "int option"

definition new_error :: "string \<Rightarrow> js_error" where
  "new_error message = \<lparr>er_name = ''Error'', er_message = Some message, er_code = None, er_status = None\<rparr>"

definition coded_error :: "string \<Rightarrow> string \<Rightarrow> js_error" where
  "coded_error message code = (new_error message)\<lparr>er_code := Some code\<rparr>"

definition message_includes :: "string \<Rightarrow> js_error \<Rightarrow> bool" where
  "message_includes part e = (case er_message e of None \<Rightarrow> False | Some m \<Rightarrow> js_includes part m)"

definition is_retryable_error :: "js_error \<Rightarrow> bool" where
  "is_retryable_error e =
     (if er_name e = ''NetworkError'' \<or> message_includes ''network'' e then True
      else if er_name e = ''TimeoutError'' \<or> message_includes ''timeout'' e then True
      else if er_status e = Some 429 \<or> er_code e = Some ''RATE_LIMIT_EXCEEDED'' then True
      else if (case er_status e of None \<Rightarrow> False | Some s \<Rightarrow> 500 \<le> s \<and> s < 600) then True
      else if er_code e = Some ''TRANSACTION_PENDING'' \<or> er_code e = Some ''TRY_AGAIN_LATER'' then True
      else False)"

datatype severity = SevLow | SevMedium | SevHigh | SevCritical

definition classify_error :: "js_error \<Rightarrow> string \<times> severity" where
  "classify_error e =
     (if er_code e = Some ''INSUFFICIENT_BALANCE''
      then (''Insufficient balance to complete transaction'', SevMedium)
      else if er_code e = Some ''INVALID_PARAMETERS'' then (''Invalid parameters provided'', SevMedium)
      else if er_code e = Some ''UNAUTHORIZED'' then (''Wallet authorization required'', SevMedium)
      else if er_name e = ''NetworkError'' \<or> message_includes ''network'' e
      then (''Network connection error. Please check your connection.'', SevHigh)
      else if er_code e = Some ''CONTRACT_ERROR'' then (''Smart contract execution failed'', SevHigh)
      else (''An unexpected error occurred'', SevCritical))"

section \<open>The circuit breaker\<close>

record rpc_breaker =
  rb_failures :: nat
  rb_lastFailureTime :: int
  rb_state :: circuit_mode

definition circuit_breaker_threshold :: nat where
  "circuit_breaker_threshold = 5"

definition circuit_breaker_timeout :: int where
  "circuit_breaker_timeout = 60000"

definition new_rpc_breaker :: rpc_breaker where
  "new_rpc_breaker = \<lparr>rb_failures = 0, rb_lastFailureTime = 0, rb_state = Closed\<rparr>"

definition rpc_is_open :: "int \<Rightarrow> rpc_breaker \<Rightarrow> bool \<times> rpc_breaker" where
  "rpc_is_open now b =
     (if rb_state b = Open
      then if circuit_breaker_timeout < now - rb_lastFailureTime b
           then (False, b\<lparr>rb_state := HalfOpen\<rparr>) else (True, b)
      else (False, b))"

definition rpc_record_success :: "rpc_breaker \<Rightarrow> rpc_breaker" where
  "rpc_record_success b = b\<lparr>rb_failures := 0, rb_state := Closed\<rparr>"

definition rpc_record_failure :: "int \<Rightarrow> rpc_breaker \<Rightarrow> rpc_breaker" where
  "rpc_record_failure now b =
     (let b1 = b\<lparr>rb_failures := rb_failures b + 1, rb_lastFailureTime := now\<rparr>
      in if circuit_breaker_threshold \<le> rb_failures b1 then b1\<lparr>rb_state := Open\<rparr> else b1)"

definition rpc_reset :: "rpc_breaker \<Rightarrow> rpc_breaker" where
  "rpc_reset b = b\<lparr>rb_failures := 0, rb_state := Closed\<rparr>"

interpretation rpcb: circuit_breaker rpc_is_open rpc_record_success rpc_record_failure
  "\<lambda>b. rb_state b = Open" rb_failures rb_lastFailureTime
  circuit_breaker_threshold circuit_breaker_timeout
  by unfold_locales
     (auto simp: rpc_is_open_def rpc_record_success_def rpc_record_failure_def Let_def split: if_splits)

section \<open>The outside world and the client's state\<close>

datatype tx_status = TxSuccess | TxFailed | TxNotFound

text \<open>
  Contract arguments as the SDK's \<open>ScVal\<close>s; \<open>ScU64 s\<close> is \<open>scvU64(new Uint64(parseInt(s)))\<close>.
\<close>

datatype scval =
  ScString string
| ScU32 int
| ScU64 string
| ScAddress string
| ScI128 rat
| ScBool bool

text \<open>
  \<open>ev_sign\<close> is \<open>signTransaction\<close> with the \<open>fromXDR\<close> that follows it; \<open>ev_send\<close> returns the
  hash and, when there is one, the error result; \<open>ev_simulate\<close> returns \<open>None\<close> when the
  simulation is not a success; \<open>ev_result\<close> is its return value read as a boolean. \<open>ev_show\<close>
  is \<open>Number.prototype.toString\<close>.
\<close>

record ('w, 'acc, 'tx, 'sim) env =
  ev_test :: bool
  ev_contract_id :: string
  ev_show :: "rat \<Rightarrow> string"
  ev_now :: "'w \<Rightarrow> int"
  ev_sleep :: "int \<Rightarrow> 'w \<Rightarrow> 'w"
  ev_isConnected :: "('w, js_error, bool) js_method"
  ev_isAllowed :: "('w, js_error, bool) js_method"
  ev_setAllowed :: "('w, js_error, unit) js_method"
  ev_requestAccess :: "('w, js_error, string option \<times> string option) js_method"
  ev_getAccount :: "string \<Rightarrow> ('w, js_error, 'acc) js_method"
  ev_address :: "string \<Rightarrow> js_error + string"
  ev_build :: "'acc \<Rightarrow> string \<Rightarrow> scval list \<Rightarrow> js_error + 'tx"
  ev_simulate :: "'tx \<Rightarrow> ('w, js_error, 'sim option) js_method"
  ev_result :: "'sim \<Rightarrow> js_error + bool"
  ev_assemble :: "'tx \<Rightarrow> 'sim \<Rightarrow> js_error + 'tx"
  ev_sign :: "'tx \<Rightarrow> ('w, js_error, 'tx) js_method"
  ev_send :: "'tx \<Rightarrow> ('w, js_error, string \<times> string option) js_method"
  ev_getTransaction :: "string \<Rightarrow> ('w, js_error, tx_status) js_method"

datatype ui_event =
  AttemptFailed string nat nat severity
| OperationFailed string severity
| NotifyError string
| NotifySuccess string
| UserAction string string
| CacheEvent string

record ('w, 'a) client =
  cl_breaker :: rpc_breaker
  cl_cache :: "'a cache_service"
  cl_world :: 'w
  cl_events :: "ui_event list"

definition emit :: "ui_event \<Rightarrow> ('w, 'a) client \<Rightarrow> ('w, 'a) client" where
  "emit ev c = c\<lparr>cl_events := cl_events c @ [ev]\<rparr>"

definition drop_tag :: "string \<Rightarrow> ('w, 'a) client \<Rightarrow> ('w, 'a) client" where
  "drop_tag tag c = c\<lparr>cl_cache := snd (invalidate_by_tag tag (cl_cache c))\<rparr>"

text \<open>A call that only touches the outside world, made by the client.\<close>

definition outside :: "('w, js_error, 'r) js_method \<Rightarrow> (('w, 'a) client, js_error, 'r) js_method" where
  "outside m c = (case m (cl_world c) of (r, w) \<Rightarrow> (r, c\<lparr>cl_world := w\<rparr>))"

section \<open>Retries\<close>

record retry_options =
  ro_maxRetries :: nat
  ro_initialDelay :: int
  ro_backoffMultiplier :: int
  ro_shouldRetry :: "js_error \<Rightarrow> bool"

definition default_retry :: retry_options where
  "default_retry =
     \<lparr>ro_maxRetries = 3, ro_initialDelay = 1000, ro_backoffMultiplier = 2,
      ro_shouldRetry = is_retryable_error\<rparr>"

text \<open>
  The loop of \<open>withRetry\<close>. \<open>left\<close> is \<open>maxRetries - attempt\<close>; a failure that is not retried
  records one failure in the breaker and rethrows.
\<close>

fun retry_loop ::
  "('w, 'acc, 'tx, 'sim) env \<Rightarrow> (('w, 'a) client, js_error, 'r) js_method \<Rightarrow> string \<Rightarrow> retry_options \<Rightarrow>
   nat \<Rightarrow> int \<Rightarrow> (('w, 'a) client, js_error, 'r) js_method" where
  "retry_loop env operation name opts left delay c =
     (case operation c of
        (Inr result, c1) \<Rightarrow> (Inr result, c1\<lparr>cl_breaker := rpc_record_success (cl_breaker c1)\<rparr>)
      | (Inl e, c1) \<Rightarrow>
          let c2 = emit (AttemptFailed name (ro_maxRetries opts - left + 1) (ro_maxRetries opts + 1)
                           (if left = 0 then SevHigh else SevMedium)) c1
          in case left of
               Suc left' \<Rightarrow>
                 if ro_shouldRetry opts e
                 then retry_loop env operation name opts left' (delay * ro_backoffMultiplier opts)
                        (c2\<lparr>cl_world := ev_sleep env delay (cl_world c2)\<rparr>)
                 else (Inl e, c2\<lparr>cl_breaker := rpc_record_failure (ev_now env (cl_world c2)) (cl_breaker c2)\<rparr>)
             | 0 \<Rightarrow> (Inl e, c2\<lparr>cl_breaker := rpc_record_failure (ev_now env (cl_world c2)) (cl_breaker c2)\<rparr>))"

declare retry_loop.simps [simp del]

definition circuit_open_error :: "string \<Rightarrow> js_error" where
  "circuit_open_error name =
     new_error (''Circuit breaker is open for '' @ name @ ''. Service temporarily unavailable.'')"

definition with_retry ::
  "('w, 'acc, 'tx, 'sim) env \<Rightarrow> (('w, 'a) client, js_error, 'r) js_method \<Rightarrow> string \<Rightarrow> retry_options \<Rightarrow>
   (('w, 'a) client, js_error, 'r) js_method" where
  "with_retry env operation name opts c =
     (case rpc_is_open (ev_now env (cl_world c)) (cl_breaker c) of
        (True, b) \<Rightarrow> (Inl (circuit_open_error name), c\<lparr>cl_breaker := b\<rparr>)
      | (False, b) \<Rightarrow> retry_loop env operation name opts (ro_maxRetries opts) (ro_initialDelay opts)
                       (c\<lparr>cl_breaker := b\<rparr>))"

section \<open>The transaction pipeline\<close>

text \<open>Verify the wallet and obtain the user's public key.\<close>

definition wallet_address :: "('w, 'acc, 'tx, 'sim) env \<Rightarrow> ('w, js_error, string) js_method" where
  "wallet_address env =
     js_then (ev_isConnected env) (\<lambda>connected.
       if \<not> connected then js_throw (new_error ''Freighter wallet is not installed.'')
       else js_then (ev_isAllowed env) (\<lambda>allowed.
         js_then (if allowed then js_return () else ev_setAllowed env) (\<lambda>_.
           js_then (ev_requestAccess env) (\<lambda>(accessError, address).
             case (truthy accessError, truthy address) of
               (None, Some publicKey) \<Rightarrow> js_return publicKey
             | (err, _) \<Rightarrow> js_throw (coded_error (get_or ''User public key not available.'' err) ''UNAUTHORIZED'')))))"

text \<open>Poll until the ledger reports success, at most 10 more times, 2 seconds apart.\<close>

fun poll ::
  "('w, 'acc, 'tx, 'sim) env \<Rightarrow> string \<Rightarrow> nat \<Rightarrow> tx_status \<Rightarrow> ('w, js_error, tx_status) js_method" where
  "poll env hash 0 status w = (Inr status, w)"
| "poll env hash (Suc n) status w =
     (if status = TxSuccess then (Inr status, w)
      else js_then (ev_getTransaction env hash) (poll env hash n) (ev_sleep env 2000 w))"

definition await_success :: "('w, 'acc, 'tx, 'sim) env \<Rightarrow> string \<Rightarrow> ('w, js_error, unit) js_method" where
  "await_success env hash =
     js_then (ev_getTransaction env hash) (\<lambda>first.
       js_then (poll env hash 10 first) (\<lambda>status.
         if status = TxSuccess then js_return ()
         else js_throw (new_error ''Transaction did not complete successfully in time.'')))"

definition submit ::
  "('w, 'acc, 'tx, 'sim) env \<Rightarrow> string \<Rightarrow> (string \<Rightarrow> js_error + scval list) \<Rightarrow> ('w, js_error, string) js_method" where
  "submit env fn mk_args =
     js_then (wallet_address env) (\<lambda>publicKey.
       js_then (ev_getAccount env publicKey) (\<lambda>sourceAccount.
         js_then (js_pure (mk_args publicKey)) (\<lambda>callArgs.
           js_then (js_pure (ev_build env sourceAccount fn callArgs)) (\<lambda>transaction.
             js_then (ev_simulate env transaction) (\<lambda>simulated.
               case simulated of
                 None \<Rightarrow> js_throw (coded_error ''Transaction simulation failed'' ''CONTRACT_ERROR'')
               | Some simulation \<Rightarrow>
                   js_then (js_pure (ev_assemble env transaction simulation)) (\<lambda>assembled.
                     js_then (ev_sign env assembled) (\<lambda>signed.
                       js_then (ev_send env signed) (\<lambda>(hash, errorResult).
                         case errorResult of
                           Some xdr \<Rightarrow> js_throw (new_error (''Transaction submitted with error: '' @ xdr))
                         | None \<Rightarrow> js_then (await_success env hash) (\<lambda>_. js_return hash)))))))))"

text \<open>Without a contract (or under test) the operations sleep and succeed with a made-up id.\<close>

definition mocked :: "('w, 'acc, 'tx, 'sim) env \<Rightarrow> bool" where
  "mocked env \<longleftrightarrow> ev_test env \<or> ev_contract_id env = []"

definition mock_id :: "('w, 'acc, 'tx, 'sim) env \<Rightarrow> string \<Rightarrow> ('w, js_error, string) js_method" where
  "mock_id env prefix w =
     (let w1 = ev_sleep env 2000 w in (Inr (prefix @ show_nat (nat (ev_now env w1))), w1))"

definition mock_done :: "('w, 'acc, 'tx, 'sim) env \<Rightarrow> ('w, js_error, unit) js_method" where
  "mock_done env w = (Inr (), ev_sleep env 2000 w)"

text \<open>Two addresses parsed in order, as the argument lists build them.\<close>

definition parse_two :: "('w, 'acc, 'tx, 'sim) env \<Rightarrow> string \<Rightarrow> string \<Rightarrow> js_error + string \<times> string" where
  "parse_two env a b =
     (case ev_address env a of
        Inl e \<Rightarrow> Inl e
      | Inr a' \<Rightarrow> (case ev_address env b of Inl e \<Rightarrow> Inl e | Inr b' \<Rightarrow> Inr (a', b')))"

section \<open>The write operations\<close>

text \<open>
  Every write has the same shape: the retried operation, then the follow-up (report the
  action, notify, invalidate the cache), all inside one \<open>try\<close>. Whatever throws in there is
  classified, tracked, shown and rethrown.
\<close>

definition write_op ::
  "string \<Rightarrow> (('w, 'a) client, js_error, 'r) js_method \<Rightarrow> (('w, 'a) client, js_error, 'r) js_method" where
  "write_op name body c =
     (case body c of
        (Inr r, c1) \<Rightarrow> (Inr r, c1)
      | (Inl e, c1) \<Rightarrow>
          let (message, severity) = classify_error e
          in (Inl e, emit (NotifyError message) (emit (OperationFailed name severity) c1)))"

definition doing :: "(('w, 'a) client \<Rightarrow> ('w, 'a) client) \<Rightarrow> 'r \<Rightarrow> (('w, 'a) client, js_error, 'r) js_method" where
  "doing f r c = (Inr r, f c)"

text \<open>
  The object \<open>trackUserAction\<close> of \<open>services/analytics.ts\<close> has the methods \<open>groupCreated\<close>,
  \<open>groupJoined\<close> and \<open>contributionMade\<close>; it has none of \<open>insuranceClaimFiled\<close>,
  \<open>insuranceClaimProcessed\<close> and \<open>groupMetadataUpdated\<close>, so calling those throws.
\<close>

definition tracked_actions :: "string list" where
  "tracked_actions = [''groupCreated'', ''groupJoined'', ''contributionMade'', ''payoutReceived'',
     ''walletConnected'', ''walletDisconnected'', ''pageViewed'', ''searchPerformed'', ''filterApplied'']"

definition track_user_action :: "string \<Rightarrow> string \<Rightarrow> (('w, 'a) client, js_error, unit) js_method" where
  "track_user_action action label =
     (if action \<in> set tracked_actions then doing (emit (UserAction action label)) ()
      else js_throw ((new_error (''trackUserAction.'' @ action @ '' is not a function''))
                       \<lparr>er_name := ''TypeError''\<rparr>))"

definition tag_groups :: string where
  "tag_groups = ''groups''"

definition tag_group :: "string \<Rightarrow> string" where
  "tag_group groupId = ''group:'' @ groupId"

definition tag_user :: "string \<Rightarrow> string" where
  "tag_user userId = ''user:'' @ userId"

definition tag_transactions :: string where
  "tag_transactions = ''transactions''"

text \<open>\<open>CacheTags.insurance\<close> is not defined, so the tag is \<open>undefined\<close>; no other tag has this name.\<close>

definition tag_insurance :: string where
  "tag_insurance = ''undefined''"

record create_group_params =
  cg_groupName :: string
  cg_cycleLength :: int
  cg_contributionAmount :: int
  cg_maxMembers :: int

definition create_group ::
  "('w, 'acc, 'tx, 'sim) env \<Rightarrow> create_group_params \<Rightarrow> (('w, 'a) client, js_error, string) js_method" where
  "create_group env params =
     write_op ''createGroup''
       (js_then
         (with_retry env
          (outside (if mocked env then mock_id env ''mock_group_''
                    else submit env ''create_group'' (\<lambda>_. Inr
                           [ScString (cg_groupName params), ScU32 (cg_cycleLength params),
                            ScU32 (cg_contributionAmount params), ScU32 (cg_maxMembers params)])))
          ''createGroup''
          (default_retry\<lparr>ro_shouldRetry := \<lambda>e.
             if er_code e = Some ''INVALID_PARAMETERS'' \<or> er_code e = Some ''UNAUTHORIZED''
             then False else is_retryable_error e\<rparr>))
         (\<lambda>groupId. js_then (track_user_action ''groupCreated'' groupId)
           (\<lambda>_. doing (\<lambda>c. drop_tag tag_groups
              (emit (NotifySuccess ''Group created successfully!'') c)) groupId)))"

definition join_group ::
  "('w, 'acc, 'tx, 'sim) env \<Rightarrow> string \<Rightarrow> (('w, 'a) client, js_error, unit) js_method" where
  "join_group env groupId =
     write_op ''joinGroup''
       (js_then
         (with_retry env
          (outside (if mocked env then mock_done env
                    else js_then
                           (submit env ''join_group'' (\<lambda>publicKey.
                              case ev_address env publicKey of
                                Inl e \<Rightarrow> Inl e
                              | Inr a \<Rightarrow> Inr [ScString groupId, ScAddress a]))
                           (\<lambda>_. js_return ())))
          ''joinGroup'' default_retry)
         (\<lambda>_. js_then (track_user_action ''groupJoined'' groupId)
           (\<lambda>_. doing (\<lambda>c. drop_tag tag_groups (drop_tag (tag_group groupId)
              (emit (NotifySuccess ''Successfully joined group!'') c))) ())))"

definition contribute ::
  "('w, 'acc, 'tx, 'sim) env \<Rightarrow> string \<Rightarrow> rat \<Rightarrow> (('w, 'a) client, js_error, unit) js_method" where
  "contribute env groupId amount =
     write_op ''contribute''
       (js_then
         (with_retry env
          (outside (if amount \<le> 0
                    then js_throw (coded_error ''Amount must be greater than zero'' ''INVALID_PARAMETERS'')
                    else mock_done env))
          ''contribute''
          (default_retry\<lparr>ro_shouldRetry := \<lambda>e.
             if er_code e = Some ''INSUFFICIENT_BALANCE'' then False else is_retryable_error e\<rparr>))
         (\<lambda>_. js_then (track_user_action ''contributionMade'' groupId)
           (\<lambda>_. doing (\<lambda>c. drop_tag tag_transactions (drop_tag (tag_group groupId)
              (emit (NotifySuccess (''Contribution of '' @ ev_show env amount @ '' XLM successful!'')) c))) ())))"

definition file_insurance_claim ::
  "('w, 'acc, 'tx, 'sim) env \<Rightarrow> string \<Rightarrow> int \<Rightarrow> string \<Rightarrow> string \<Rightarrow> rat \<Rightarrow>
   (('w, 'a) client, js_error, string) js_method" where
  "file_insurance_claim env groupId cycle claimant defaulter amount =
     write_op ''fileInsuranceClaim''
       (js_then
         (with_retry env
          (outside (if mocked env then mock_id env ''mock_claim_''
                    else submit env ''file_insurance_claim'' (\<lambda>_.
                           case parse_two env claimant defaulter of
                             Inl e \<Rightarrow> Inl e
                           | Inr (c, d) \<Rightarrow>
                               Inr [ScU64 groupId, ScU32 cycle, ScAddress c, ScAddress d, ScI128 amount])))
          ''fileInsuranceClaim'' default_retry)
         (\<lambda>claimId. js_then (track_user_action ''insuranceClaimFiled'' claimId)
           (\<lambda>_. doing (\<lambda>c. drop_tag tag_insurance
              (emit (NotifySuccess ''Insurance claim filed successfully!'') c)) claimId)))"

definition process_insurance_claim ::
  "('w, 'acc, 'tx, 'sim) env \<Rightarrow> string \<Rightarrow> bool \<Rightarrow> (('w, 'a) client, js_error, unit) js_method" where
  "process_insurance_claim env claimId approved =
     write_op ''processInsuranceClaim''
       (js_then
         (with_retry env
          (outside (if mocked env then mock_done env
                    else js_then (submit env ''process_insurance_claim''
                                    (\<lambda>_. Inr [ScU64 claimId, ScBool approved]))
                           (\<lambda>_. js_return ())))
          ''processInsuranceClaim'' default_retry)
         (\<lambda>_. js_then (track_user_action ''insuranceClaimProcessed'' claimId)
           (\<lambda>_. doing (\<lambda>c. drop_tag tag_insurance
              (emit (NotifySuccess (''Claim '' @ (if approved then ''approved'' else ''rejected'') @ '' successfully!'')) c)) ())))"

text \<open>A view call: no signature, the simulation's return value is the result.\<close>

definition verify_insurance_claim ::
  "('w, 'acc, 'tx, 'sim) env \<Rightarrow> (('w, js_error, bool) js_method) \<Rightarrow> string \<Rightarrow>
   (('w, 'a) client, js_error, bool) js_method" where
  "verify_insurance_claim env mock_verification claimId =
     write_op ''verifyInsuranceClaim''
       (with_retry env
          (outside (if mocked env then (\<lambda>w. mock_verification (ev_sleep env 1000 w))
                    else js_then (wallet_address env) (\<lambda>address.
                      js_then (ev_getAccount env address) (\<lambda>sourceAccount.
                        js_then (js_pure (ev_build env sourceAccount ''verify_insurance_claim'' [ScU64 claimId]))
                          (\<lambda>verifyTx.
                            js_then (ev_simulate env verifyTx) (\<lambda>verifySim.
                              case verifySim of
                                None \<Rightarrow> js_throw (new_error ''Failed to verify insurance claim'')
                              | Some simulation \<Rightarrow> js_pure (ev_result env simulation)))))))
          ''verifyInsuranceClaim'' default_retry)"

definition set_group_metadata ::
  "('w, 'acc, 'tx, 'sim) env \<Rightarrow> string \<Rightarrow> string \<Rightarrow> string \<Rightarrow> string \<Rightarrow>
   (('w, 'a) client, js_error, unit) js_method" where
  "set_group_metadata env groupId name description rules =
     write_op ''setGroupMetadata''
       (js_then
         (with_retry env
          (outside
             (if 100 < length name
              then js_throw (coded_error ''Group name exceeds maximum length of 100 characters'' ''INVALID_PARAMETERS'')
              else if 500 < length description
              then js_throw (coded_error ''Group description exceeds maximum length of 500 characters'' ''INVALID_PARAMETERS'')
              else if 1000 < length rules
              then js_throw (coded_error ''Group rules exceed maximum length of 1000 characters'' ''INVALID_PARAMETERS'')
              else if mocked env then mock_done env
              else js_then (submit env ''set_group_metadata''
                              (\<lambda>_. Inr [ScU64 groupId, ScString name, ScString description, ScString rules]))
                     (\<lambda>_. js_return ())))
          ''setGroupMetadata'' default_retry)
         (\<lambda>_. js_then (track_user_action ''groupMetadataUpdated'' groupId)
           (\<lambda>_. doing (\<lambda>c. drop_tag (tag_group groupId)
              (emit (NotifySuccess ''Group metadata updated successfully!'') c)) ())))"

section \<open>Cache operations\<close>

definition invalidate_group_cache :: "string \<Rightarrow> ('w, 'a) client \<Rightarrow> ('w, 'a) client" where
  "invalidate_group_cache groupId c = emit (CacheEvent ''group'') (drop_tag (tag_group groupId) c)"

definition invalidate_user_cache :: "string \<Rightarrow> ('w, 'a) client \<Rightarrow> ('w, 'a) client" where
  "invalidate_user_cache userId c = emit (CacheEvent ''user'') (drop_tag (tag_user userId) c)"

definition clear_cache :: "('w, 'a) client \<Rightarrow> ('w, 'a) client" where
  "clear_cache c = emit (CacheEvent ''full_clear'') (c\<lparr>cl_cache := cache_clear (cl_cache c)\<rparr>)"

text \<open>A call of the shared cache; its guards throw plain errors.\<close>

fun cache_js_error :: "cache_error \<Rightarrow> js_error" where
  "cache_js_error EmptyKey = new_error ''Cache key must be a non-empty string''"
| "cache_js_error KeyTooLong = new_error ''Cache key too long (max 256 characters)''"
| "cache_js_error (RateLimitExceeded key) = new_error (''Rate limit exceeded for cache key: '' @ key)"
| "cache_js_error (EntryTooLarge n) =
     new_error (''Cache entry too large: '' @ show_nat n @ '' bytes (max 1048576)'')"

definition on_cache ::
  "('w, 'acc, 'tx, 'sim) env \<Rightarrow> (int \<Rightarrow> ('a cache_service, cache_error, 'r) js_method) \<Rightarrow>
   (('w, 'a) client, js_error, 'r) js_method" where
  "on_cache env m c =
     (case m (ev_now env (cl_world c)) (cl_cache c) of
        (Inl e, s) \<Rightarrow> (Inl (cache_js_error e), c\<lparr>cl_cache := s\<rparr>)
      | (Inr r, s) \<Rightarrow> (Inr r, c\<lparr>cl_cache := s\<rparr>))"

record fetch_options =
  fo_ttl :: "int option"
  fo_tags :: "string list option"
  fo_forceRefresh :: bool
  fo_version :: "string option"

definition cached_fetch ::
  "('a \<Rightarrow> nat) \<Rightarrow> ('w, 'acc, 'tx, 'sim) env \<Rightarrow> string \<Rightarrow> (('w, 'a) client, js_error, 'a) js_method \<Rightarrow>
   fetch_options \<Rightarrow> (('w, 'a) client, js_error, 'a) js_method" where
  "cached_fetch json_len env cacheKey fetcher options =
     js_then (if fo_forceRefresh options then js_return None else on_cache env (\<lambda>now. cache_get now cacheKey))
       (\<lambda>cached.
          case cached of
            Some d \<Rightarrow> js_return d
          | None \<Rightarrow>
              js_then fetcher (\<lambda>d.
                js_then (on_cache env (\<lambda>now. cache_set json_len now cacheKey d
                           \<lparr>so_ttl = fo_ttl options, so_tags = fo_tags options, so_etag = None,
                            so_version = fo_version options\<rparr>))
                  (\<lambda>_. js_return d)))"

section \<open>Frames\<close>

lemma emit_frame [simp]:
  "cl_cache (emit ev c) = cl_cache c" "cl_world (emit ev c) = cl_world c"
  "cl_breaker (emit ev c) = cl_breaker c" "cl_events (emit ev c) = cl_events c @ [ev]"
  by (simp_all add: emit_def)

lemma drop_tag_frame [simp]:
  "cl_world (drop_tag tag c) = cl_world c" "cl_events (drop_tag tag c) = cl_events c"
  "cl_cache (drop_tag tag c) = snd (invalidate_by_tag tag (cl_cache c))"
  by (simp_all add: drop_tag_def)

lemma outside_frame [simp]:
  "cl_cache (snd (outside m c)) = cl_cache c"
  "cl_breaker (snd (outside m c)) = cl_breaker c"
  "fst (outside m c) = fst (m (cl_world c))"
  "cl_world (snd (outside m c)) = snd (m (cl_world c))"
  by (simp_all add: outside_def split: prod.split)

text \<open>The loop, unfolded by the result of the operation.\<close>

lemma retry_loop_Inr:
  "operation c = (Inr result, c1) \<Longrightarrow>
     retry_loop env operation name opts left delay c =
       (Inr result, c1\<lparr>cl_breaker := rpc_record_success (cl_breaker c1)\<rparr>)"
  by (simp add: retry_loop.simps)

lemma retry_loop_Inl:
  "operation c = (Inl e, c1) \<Longrightarrow>
     retry_loop env operation name opts left delay c =
       (let c2 = emit (AttemptFailed name (ro_maxRetries opts - left + 1) (ro_maxRetries opts + 1)
                         (if left = 0 then SevHigh else SevMedium)) c1
        in if 0 < left \<and> ro_shouldRetry opts e
           then retry_loop env operation name opts (left - 1) (delay * ro_backoffMultiplier opts)
                  (c2\<lparr>cl_world := ev_sleep env delay (cl_world c2)\<rparr>)
           else (Inl e, c2\<lparr>cl_breaker := rpc_record_failure (ev_now env (cl_world c2)) (cl_breaker c2)\<rparr>))"
  by (cases left) (simp_all add: retry_loop.simps Let_def)

lemma retry_loop_cache:
  assumes "\<And>c. cl_cache (snd (operation c)) = cl_cache c"
  shows "cl_cache (snd (retry_loop env operation name opts left delay c)) = cl_cache c"
proof (induction left arbitrary: delay c)
  case 0
  obtain r c1 where o: "operation c = (r, c1)" by fastforce
  with assms [of c] show ?case
    by (cases r) (simp_all add: retry_loop_Inr retry_loop_Inl Let_def)
next
  case (Suc left)
  obtain r c1 where o: "operation c = (r, c1)" by fastforce
  with assms [of c] Suc.IH show ?case
    by (cases r) (simp_all add: retry_loop_Inr retry_loop_Inl Let_def)
qed

lemma with_retry_cache [simp]:
  "cl_cache (snd (with_retry env (outside m) name opts c)) = cl_cache c"
  by (simp add: with_retry_def retry_loop_cache split: prod.split bool.split)

lemma track_known:
  "action \<in> set tracked_actions \<Longrightarrow>
     js_then (track_user_action action label) f c = f () (emit (UserAction action label) c)"
  by (simp add: js_then_def track_user_action_def doing_def)

lemma track_unknown:
  "action \<notin> set tracked_actions \<Longrightarrow>
     js_then (track_user_action action label) f c =
       (Inl ((new_error (''trackUserAction.'' @ action @ '' is not a function''))\<lparr>er_name := ''TypeError''\<rparr>), c)"
  by (simp add: js_then_def track_user_action_def)

text \<open>What a write does around its retried part \<open>m\<close>, which leaves the cache alone.\<close>

lemma write_op_tracked:
  assumes frame: "\<And>c. cl_cache (snd (m c)) = cl_cache c" and known: "action \<in> set tracked_actions"
    and notice: "\<And>c. last (cl_events (F c)) = NotifySuccess msg"
    and effect: "\<And>c. cl_cache (F c) = G (cl_cache c)"
  shows "case write_op name (js_then m (\<lambda>r. js_then (track_user_action action (label r)) (\<lambda>_. doing F (res r)))) c of
     (Inr r, c') \<Rightarrow> cl_cache c' = G (cl_cache c) \<and> last (cl_events c') = NotifySuccess msg
   | (Inl e, c') \<Rightarrow> cl_cache c' = cl_cache c \<and> last (cl_events c') = NotifyError (fst (classify_error e))"
proof -
  obtain r c1 where r: "m c = (r, c1)" by fastforce
  then have cc: "cl_cache c1 = cl_cache c" using frame [of c] by simp
  show ?thesis
    using r cc by (cases r)
      (simp_all add: write_op_def js_then_Inl js_then_Inr track_known [OF known] doing_def notice effect
        case_prod_unfold Let_def)
qed

lemma write_op_untracked:
  assumes frame: "\<And>c. cl_cache (snd (m c)) = cl_cache c" and unknown: "action \<notin> set tracked_actions"
  shows "\<exists>e. fst (write_op name (js_then m (\<lambda>r. js_then (track_user_action action (label r)) (F r))) c) = Inl e \<and>
     last (cl_events (snd (write_op name (js_then m (\<lambda>r. js_then (track_user_action action (label r)) (F r))) c))) =
       NotifyError (fst (classify_error e)) \<and>
     cl_cache (snd (write_op name (js_then m (\<lambda>r. js_then (track_user_action action (label r)) (F r))) c)) = cl_cache c"
proof -
  obtain r c1 where r: "m c = (r, c1)" by fastforce
  then have cc: "cl_cache c1 = cl_cache c" using frame [of c] by simp
  show ?thesis
    using r cc by (cases r)
      (simp_all add: write_op_def js_then_Inl js_then_Inr track_unknown [OF unknown] case_prod_unfold Let_def)
qed

section \<open>The retry wrapper\<close>

lemma retry_loop_count:
  fixes f :: "'w \<Rightarrow> nat"
  assumes op: "\<And>c. f (cl_world (snd (operation c))) \<le> Suc (f (cl_world c))"
    and sleep: "\<And>d w. f (ev_sleep env d w) = f w"
  shows "f (cl_world (snd (retry_loop env operation name opts left delay c))) \<le> f (cl_world c) + Suc left"
proof (induction left arbitrary: delay c)
  case 0
  obtain r c1 where o: "operation c = (r, c1)" by fastforce
  with op [of c] show ?case
    by (cases r) (simp_all add: retry_loop_Inr retry_loop_Inl Let_def)
next
  case (Suc left)
  obtain r c1 where o: "operation c = (r, c1)" by fastforce
  show ?case
  proof (cases r)
    case (Inr a)
    with o op [of c] show ?thesis by (simp add: retry_loop_Inr)
  next
    case (Inl e)
    let ?c2 = "emit (AttemptFailed name (ro_maxRetries opts - Suc left + 1) (ro_maxRetries opts + 1) SevMedium) c1"
    have w: "f (cl_world c1) \<le> Suc (f (cl_world c))" using op [of c] o by simp
    show ?thesis
    proof (cases "ro_shouldRetry opts e")
      case True
      have "f (cl_world (snd (retry_loop env operation name opts left (delay * ro_backoffMultiplier opts)
               (?c2\<lparr>cl_world := ev_sleep env delay (cl_world ?c2)\<rparr>)))) \<le> f (cl_world c1) + Suc left"
        using Suc.IH [of "delay * ro_backoffMultiplier opts" "?c2\<lparr>cl_world := ev_sleep env delay (cl_world ?c2)\<rparr>"]
        by (simp add: sleep)
      with o Inl True w show ?thesis by (simp add: retry_loop_Inl Let_def)
    next
      case False
      with o Inl w show ?thesis by (simp add: retry_loop_Inl Let_def)
    qed
  qed
qed

text \<open>An operation that keeps failing with retryable errors, on a clock only sleeping moves.\<close>

lemma retry_loop_exhausts:
  assumes fails: "\<And>c. \<exists>e. fst (operation c) = Inl e \<and> ro_shouldRetry opts e"
    and clock: "\<And>c. ev_now env (cl_world (snd (operation c))) = ev_now env (cl_world c)"
    and breaker: "\<And>c. cl_breaker (snd (operation c)) = cl_breaker c"
    and sleep: "\<And>d w. ev_now env (ev_sleep env d w) = ev_now env w + d"
    and two: "ro_backoffMultiplier opts = 2"
  shows "(\<exists>e. fst (retry_loop env operation name opts left delay c) = Inl e) \<and>
    ev_now env (cl_world (snd (retry_loop env operation name opts left delay c))) =
      ev_now env (cl_world c) + delay * (2 ^ left - 1) \<and>
    cl_breaker (snd (retry_loop env operation name opts left delay c)) =
      rpc_record_failure (ev_now env (cl_world c) + delay * (2 ^ left - 1)) (cl_breaker c)"
proof (induction left arbitrary: delay c)
  case 0
  obtain e c1 where o: "operation c = (Inl e, c1)" using fails [of c] by (metis prod.collapse)
  with clock [of c] breaker [of c] show ?case by (simp add: retry_loop_Inl Let_def)
next
  case (Suc left)
  obtain e c1 where o: "operation c = (Inl e, c1)" and r: "ro_shouldRetry opts e"
    using fails [of c] by (metis prod.collapse)
  let ?c2 = "emit (AttemptFailed name (ro_maxRetries opts - Suc left + 1) (ro_maxRetries opts + 1) SevMedium) c1"
  let ?c3 = "?c2\<lparr>cl_world := ev_sleep env delay (cl_world ?c2)\<rparr>"
  have step: "retry_loop env operation name opts (Suc left) delay c =
      retry_loop env operation name opts left (delay * 2) ?c3"
    using o r by (simp add: retry_loop_Inl Let_def two)
  have t: "ev_now env (cl_world ?c3) = ev_now env (cl_world c) + delay" "cl_breaker ?c3 = cl_breaker c"
    using o clock [of c] breaker [of c] by (simp_all add: sleep)
  have sum: "ev_now env (cl_world c) + delay + delay * 2 * (2 ^ left - 1) =
      ev_now env (cl_world c) + delay * (2 ^ Suc left - 1)"
    by (simp add: algebra_simps)
  from Suc.IH [of "delay * 2" ?c3] show ?case unfolding step t sum .
qed

section \<open>The pipeline\<close>

lemma poll_success:
  "fst (poll env hash n status w) = Inr TxSuccess \<Longrightarrow>
     status = TxSuccess \<or> (\<exists>w'. fst (ev_getTransaction env hash w') = Inr TxSuccess)"
proof (induction n arbitrary: status w)
  case 0
  then show ?case by simp
next
  case (Suc n)
  show ?case
  proof (cases "status = TxSuccess")
    case False
    then have "fst (js_then (ev_getTransaction env hash) (poll env hash n) (ev_sleep env 2000 w)) = Inr TxSuccess"
      using Suc.prems by simp
    from js_then_InrD [OF this] obtain s w1 where g: "ev_getTransaction env hash (ev_sleep env 2000 w) = (Inr s, w1)"
      and p: "fst (poll env hash n s w1) = Inr TxSuccess" by blast
    from Suc.IH [OF p] show ?thesis
    proof
      assume "s = TxSuccess"
      then have "fst (ev_getTransaction env hash (ev_sleep env 2000 w)) = Inr TxSuccess" using g by simp
      then show ?thesis by blast
    qed blast
  qed simp
qed

lemma await_success_confirmed:
  assumes "fst (await_success env hash w) = Inr ()"
  shows "\<exists>w'. fst (ev_getTransaction env hash w') = Inr TxSuccess"
proof -
  from js_then_InrD [OF assms [unfolded await_success_def]] obtain s w1
    where g: "ev_getTransaction env hash w = (Inr s, w1)"
      and "fst (js_then (poll env hash 10 s)
        (\<lambda>status. if status = TxSuccess then js_return ()
           else js_throw (new_error ''Transaction did not complete successfully in time.'')) w1) = Inr ()" by blast
  from js_then_InrD [OF this(2)] obtain s' w2 where p: "poll env hash 10 s w1 = (Inr s', w2)"
    and "fst ((if s' = TxSuccess then js_return ()
           else js_throw (new_error ''Transaction did not complete successfully in time.'')) w2) = Inr ()" by blast
  then have "s' = TxSuccess" by (simp split: if_splits)
  with p have "fst (poll env hash 10 s w1) = Inr TxSuccess" by simp
  from poll_success [OF this] g show ?thesis by (metis fst_conv)
qed

section \<open>Properties\<close>

text \<open>A world for the witnesses: the clock and the number of calls made; every call succeeds.\<close>

definition up_env :: "(int \<times> nat, string, string, string) env" where
  "up_env =
     \<lparr>ev_test = False, ev_contract_id = ''C'', ev_show = (\<lambda>_. ''1''), ev_now = fst,
      ev_sleep = (\<lambda>d (t, n). (t + d, n)),
      ev_isConnected = js_return True, ev_isAllowed = js_return True, ev_setAllowed = js_return (),
      ev_requestAccess = js_return (None, Some ''G1''),
      ev_getAccount = (\<lambda>k. js_return k), ev_address = (\<lambda>a. Inr a),
      ev_build = (\<lambda>acc fn args. Inr fn), ev_simulate = (\<lambda>tx. js_return (Some tx)),
      ev_result = (\<lambda>_. Inr True), ev_assemble = (\<lambda>tx sim. Inr tx),
      ev_sign = (\<lambda>tx. js_return tx), ev_send = (\<lambda>tx (t, n). (Inr (''hash'', None), (t, n + 1))),
      ev_getTransaction = (\<lambda>h. js_return TxSuccess)\<rparr>"

definition sample_client :: "(int \<times> nat, string) client" where
  "sample_client = \<lparr>cl_breaker = new_rpc_breaker, cl_cache = new_cache default_config,
     cl_world = (0, 0), cl_events = []\<rparr>"

text \<open>
  C13. A submitted transaction is reported as done only when the ledger confirmed it: whenever
  the pipeline returns a hash, some query for that hash was answered with success.
\<close>

theorem submit_confirmed:
  assumes "fst (submit env fn mk_args w) = Inr hash"
  shows "\<exists>w'. fst (ev_getTransaction env hash w') = Inr TxSuccess"
proof -
  let ?tail = "\<lambda>(hash, errorResult).
     case errorResult of
       Some xdr \<Rightarrow> js_throw (new_error (''Transaction submitted with error: '' @ xdr))
     | None \<Rightarrow> js_then (await_success env hash) (\<lambda>_. js_return hash)"
  have "\<exists>p w1. fst (?tail p w1) = Inr hash"
    using assms unfolding submit_def
    by (fastforce dest!: js_then_InrD split: option.splits)
  then obtain h r w1 where t: "fst (?tail (h, r) w1) = Inr hash" by fastforce
  then have "r = None" by (cases r) simp_all
  with t have "fst (js_then (await_success env h) (\<lambda>_. js_return h) w1) = Inr hash" by simp
  from js_then_InrD [OF this] obtain u w2 where a: "await_success env h w1 = (Inr u, w2)" and "h = hash"
    by auto
  then have "fst (await_success env hash w1) = Inr ()" by simp
  then show ?thesis by (rule await_success_confirmed)
qed

lemma submit_up: "fst (submit up_env ''create_group'' (\<lambda>_. Inr []) (0, 0)) = Inr ''hash''"
  by (simp add: submit_def js_then_def wallet_address_def await_success_def up_env_def numeral_nat)

theorem submit_confirmed_witness:
  "\<exists>w'. fst (ev_getTransaction up_env ''hash'' w') = Inr TxSuccess"
  by (rule submit_confirmed [OF submit_up])

text \<open>
  C21. However often the operation fails, \<open>withRetry\<close> runs it at most \<open>maxRetries + 1\<close> times:
  any counter of the outside world that one run advances by at most one, and that sleeping
  leaves alone, advances by at most that much. With the breaker open it runs nothing at all.
\<close>

theorem with_retry_attempts:
  fixes f :: "'w \<Rightarrow> nat"
  assumes "\<And>c. f (cl_world (snd (operation c))) \<le> Suc (f (cl_world c))"
    and "\<And>d w. f (ev_sleep env d w) = f w"
  shows "f (cl_world (snd (with_retry env operation name opts c))) \<le>
      f (cl_world c) +
      (if fst (rpc_is_open (ev_now env (cl_world c)) (cl_breaker c)) then 0 else Suc (ro_maxRetries opts))"
proof (cases "rpc_is_open (ev_now env (cl_world c)) (cl_breaker c)")
  case (Pair blocked b)
  show ?thesis
  proof (cases blocked)
    case True
    with Pair show ?thesis by (simp add: with_retry_def)
  next
    case False
    with Pair retry_loop_count [OF assms, of name opts "ro_maxRetries opts" "ro_initialDelay opts" "c\<lparr>cl_breaker := b\<rparr>"]
    show ?thesis by (simp add: with_retry_def)
  qed
qed

definition count_and_fail :: "((int \<times> nat, string) client, js_error, unit) js_method" where
  "count_and_fail = outside (\<lambda>(t, n). (Inl (new_error ''network''), (t, n + 1)))"

theorem with_retry_attempts_witness:
  "snd (cl_world (snd (with_retry up_env count_and_fail ''op'' default_retry sample_client))) \<le> 4"
proof -
  have a: "snd (cl_world (snd (count_and_fail c))) \<le> Suc (snd (cl_world c))" for c
    by (simp add: count_and_fail_def case_prod_unfold)
  have b: "snd (ev_sleep up_env d w) = snd w" for d w
    by (simp add: up_env_def case_prod_unfold)
  show ?thesis
    using with_retry_attempts [of snd count_and_fail up_env "''op''" default_retry sample_client, OF a b]
    by (simp add: sample_client_def rpc_is_open_def new_rpc_breaker_def default_retry_def)
qed

text \<open>
  The backoff of \<open>withRetry\<close> with its default options against a service that stays down:
  it sleeps 1, 2 and 4 seconds, 7 seconds in all, then throws, having recorded a single
  failure in the breaker.
\<close>

theorem with_retry_backoff:
  assumes "\<And>c. \<exists>e. fst (operation c) = Inl e \<and> is_retryable_error e"
    and "\<And>c. ev_now env (cl_world (snd (operation c))) = ev_now env (cl_world c)"
    and "\<And>c. cl_breaker (snd (operation c)) = cl_breaker c"
    and "\<And>d w. ev_now env (ev_sleep env d w) = ev_now env w + d"
    and "rb_state (cl_breaker c) = Closed"
  shows "(\<exists>e. fst (with_retry env operation name default_retry c) = Inl e) \<and>
    ev_now env (cl_world (snd (with_retry env operation name default_retry c))) =
      ev_now env (cl_world c) + 7000 \<and>
    cl_breaker (snd (with_retry env operation name default_retry c)) =
      rpc_record_failure (ev_now env (cl_world c) + 7000) (cl_breaker c)"
proof -
  have "with_retry env operation name default_retry c = retry_loop env operation name default_retry 3 1000 c"
    using assms(5) by (simp add: with_retry_def rpc_is_open_def default_retry_def)
  moreover have "1000 * ((2::int) ^ 3 - 1) = 7000" by simp
  ultimately show ?thesis
    using retry_loop_exhausts [of operation default_retry env name 3 1000 c] assms(1-4)
    by (simp add: default_retry_def)
qed

definition just_fail :: "((int \<times> nat, string) client, js_error, unit) js_method" where
  "just_fail = js_throw (new_error ''network'')"

theorem with_retry_backoff_witness:
  "ev_now up_env (cl_world (snd (with_retry up_env just_fail ''op'' default_retry sample_client))) = 7000"
proof -
  have a: "\<exists>e. fst (just_fail c) = Inl e \<and> is_retryable_error e" for c
    by (simp add: just_fail_def is_retryable_error_def new_error_def message_includes_def js_starts_def)
  have b: "ev_now up_env (cl_world (snd (just_fail c))) = ev_now up_env (cl_world c)"
    "cl_breaker (snd (just_fail c)) = cl_breaker c" for c
    by (simp_all add: just_fail_def)
  have d: "ev_now up_env (ev_sleep up_env d w) = ev_now up_env w + d" for d w
    by (simp add: up_env_def case_prod_unfold)
  have "rb_state (cl_breaker sample_client) = Closed"
    by (simp add: sample_client_def new_rpc_breaker_def)
  then show ?thesis
    using with_retry_backoff [of just_fail up_env sample_client "''op''", OF a b d]
    by (simp add: sample_client_def up_env_def)
qed

text \<open>
  The effect of \<open>createGroup\<close> on what the user sees: when it succeeds, exactly the cached
  entries tagged \<open>groups\<close> are dropped and the last event is the success notice; when it fails,
  the cache is untouched and the last event is the notice for the error that is thrown.
\<close>

theorem create_group_effects:
  "case create_group env params c of
     (Inr groupId, c') \<Rightarrow>
       cl_cache c' = snd (invalidate_by_tag ''groups'' (cl_cache c)) \<and>
       last (cl_events c') = NotifySuccess ''Group created successfully!''
   | (Inl e, c') \<Rightarrow>
       cl_cache c' = cl_cache c \<and> last (cl_events c') = NotifyError (fst (classify_error e))"
  unfolding create_group_def
  by (rule write_op_tracked) (simp_all add: tracked_actions_def tag_groups_def)

text \<open>
  Filing an insurance claim is always reported as a failure, even when the transaction was
  confirmed: the follow-up calls a tracking method that does not exist, so the call throws
  before the notification of success and before the cache is invalidated.
\<close>

theorem filed_claim_reported_failed:
  "\<exists>e. fst (file_insurance_claim env groupId cycle claimant defaulter amount c) = Inl e \<and>
     last (cl_events (snd (file_insurance_claim env groupId cycle claimant defaulter amount c))) =
       NotifyError (fst (classify_error e)) \<and>
     cl_cache (snd (file_insurance_claim env groupId cycle claimant defaulter amount c)) = cl_cache c"
  unfolding file_insurance_claim_def
  by (rule write_op_untracked) (simp_all add: tracked_actions_def)

text \<open>
  The cached fetch: what it returns without an error is either the data of a cache entry
  that is not overstale, with the outside world untouched, or what the fetcher returned; and
  with an entry that is fresh the fetcher is never run.
\<close>

theorem cached_fetch_source:
  assumes "fst (cached_fetch json_len env key fetcher opts c) = Inr d"
  shows "(\<not> fo_forceRefresh opts \<and> fst (cache_get (ev_now env (cl_world c)) key (cl_cache c)) = Inr (Some d) \<and>
           cl_world (snd (cached_fetch json_len env key fetcher opts c)) = cl_world c) \<or>
         (\<exists>c'. fst (fetcher c') = Inr d \<and> cl_world c' = cl_world c)"
proof -
  let ?now = "ev_now env (cl_world c)"
  let ?look = "(if fo_forceRefresh opts then js_return None else on_cache env (\<lambda>now. cache_get now key))"
  obtain cached c1 where l: "?look c = (Inr cached, c1)"
    using js_then_InrD [OF assms [unfolded cached_fetch_def]] by blast
  have w: "cl_world c1 = cl_world c"
    using l by (auto simp: on_cache_def split: if_splits prod.splits sum.splits)
  show ?thesis
  proof (cases cached)
    case (Some d')
    with l assms have "d' = d" by (simp add: cached_fetch_def js_then_def)
    have "\<not> fo_forceRefresh opts" using l Some by (auto split: if_splits)
    then have "fst (cache_get ?now key (cl_cache c)) = Inr (Some d)"
      using l Some \<open>d' = d\<close> by (auto simp: on_cache_def split: prod.splits sum.splits)
    then show ?thesis using l Some w \<open>\<not> fo_forceRefresh opts\<close> by (simp add: cached_fetch_def js_then_def)
  next
    case None
    with l assms have "fst (js_then fetcher (\<lambda>d.
        js_then (on_cache env (\<lambda>now. cache_set json_len now key d
           \<lparr>so_ttl = fo_ttl opts, so_tags = fo_tags opts, so_etag = None, so_version = fo_version opts\<rparr>))
          (\<lambda>_. js_return d)) c1) = Inr d"
      by (simp add: cached_fetch_def js_then_def [of "if _ then _ else _"])
    from js_then_InrD [OF this] obtain d' c2 where f: "fetcher c1 = (Inr d', c2)"
      and g: "fst (js_then (on_cache env (\<lambda>now. cache_set json_len now key d'
           \<lparr>so_ttl = fo_ttl opts, so_tags = fo_tags opts, so_etag = None, so_version = fo_version opts\<rparr>))
          (\<lambda>_. js_return d') c2) = Inr d" by blast
    from js_then_InrD [OF g] have "d' = d" by auto
    with f w show ?thesis by (metis fst_conv)
  qed
qed

definition refresh_options :: fetch_options where
  "refresh_options = \<lparr>fo_ttl = None, fo_tags = None, fo_forceRefresh = True, fo_version = None\<rparr>"

lemma fetch_a: "fst (cached_fetch length up_env ''a'' (js_return ''x'') refresh_options sample_client) = Inr ''x''"
proof -
  let ?o = "\<lparr>so_ttl = None, so_tags = None, so_etag = None, so_version = None\<rparr>"
  have "fst (cache_set length 0 ''a'' ''x'' ?o (new_cache default_config)) = Inr ()"
    by (simp add: cache_set_def validate_key_a js_then_def check_rate_limit_def recent_requests_def
        validate_data_size_def max_data_size_def Let_def new_cache_def)
  then obtain s where "cache_set length 0 ''a'' ''x'' ?o (new_cache default_config) = (Inr (), s)"
    by (metis prod.collapse)
  then have "on_cache up_env (\<lambda>now. cache_set length now ''a'' ''x'' ?o) sample_client =
      (Inr (), sample_client\<lparr>cl_cache := s\<rparr>)"
    by (simp add: on_cache_def up_env_def sample_client_def)
  then show ?thesis by (simp add: cached_fetch_def refresh_options_def js_then_def)
qed

theorem cached_fetch_source_witness:
  "\<exists>c'. fst ((js_return ''x'' :: ((int \<times> nat, string) client, js_error, string) js_method) c') = Inr ''x''
     \<and> cl_world c' = cl_world sample_client"
  using cached_fetch_source [OF fetch_a] by (simp add: refresh_options_def)

end
