(* ===== verification/Protection.thy ===== *)
theory Protection
  imports JsPrelude
begin

text \<open>
  Request protection of the backend: the attack detector and the IP block list of
  \<open>backend/src/middleware/ddosProtection.ts\<close> and the progressive throttle of
  \<open>backend/src/middleware/requestThrottle.ts\<close>. The limits come from environment variables
  and are the fields of \<open>ddos_limits\<close> and \<open>throttle_limits\<close>; the module-level \<open>Map\<close>s are
  passed through explicitly. The clean-up timers are operations of their own, events that
  may occur anywhere in a run.
\<close>

section \<open>The client's address\<close>

record client_request =
  cr_forwarded :: "string option"
  cr_realIp :: "string option"
  cr_remote :: "string option"

definition forwarded_ip :: "client_request \<Rightarrow> string option" where
  "forwarded_ip req =
     truthy (case cr_forwarded req of
               None \<Rightarrow> None
             | Some h \<Rightarrow> map_option js_trim (js_at (js_split CHR '','' h) 0))"

definition get_client_ip :: "client_request \<Rightarrow> string" where
  "get_client_ip req =
     (case forwarded_ip req of
        Some ip \<Rightarrow> ip
      | None \<Rightarrow> (case truthy (cr_realIp req) of
          Some ip \<Rightarrow> ip
        | None \<Rightarrow> (case truthy (cr_remote req) of Some ip \<Rightarrow> ip | None \<Rightarrow> ''unknown'')))"

section \<open>Attack detection\<close>

record ddos_limits =
  dl_blockDuration :: int
  dl_threshold :: int
  dl_window :: int

definition default_ddos_limits :: ddos_limits where
  "default_ddos_limits = \<lparr>dl_blockDuration = 3600000, dl_threshold = 200, dl_window = 60000\<rparr>"

record attack_pattern =
  ap_count :: int
  ap_firstSeen :: int
  ap_lastSeen :: int
  ap_blocked :: bool
  ap_blockedAt :: "int option"

type_synonym ip_store = "(string, attack_pattern) jsmap"

datatype ddos_outcome = Pass | BlockedFor int

definition fresh_pattern :: "int \<Rightarrow> attack_pattern" where
  "fresh_pattern now =
     \<lparr>ap_count = 1, ap_firstSeen = now, ap_lastSeen = now, ap_blocked = False, ap_blockedAt = None\<rparr>"

definition restart_window :: "int \<Rightarrow> attack_pattern \<Rightarrow> attack_pattern" where
  "restart_window now p = p\<lparr>ap_count := 1, ap_firstSeen := now, ap_lastSeen := now\<rparr>"

text \<open>The body of \<open>ddosProtection\<close> for an address that is already tracked.\<close>

definition judge_pattern :: "ddos_limits \<Rightarrow> int \<Rightarrow> attack_pattern \<Rightarrow> ddos_outcome \<times> attack_pattern" where
  "judge_pattern limits now p =
     (if ap_blocked p
      then let elapsed = now - get_or 0 (ap_blockedAt p)
           in if elapsed < dl_blockDuration limits
              then (BlockedFor (ceil_div (dl_blockDuration limits - elapsed) 1000), p)
              else (Pass, restart_window now (p\<lparr>ap_blocked := False\<rparr>))
      else if dl_window limits < now - ap_firstSeen p then (Pass, restart_window now p)
      else let p1 = p\<lparr>ap_count := ap_count p + 1, ap_lastSeen := now\<rparr>
           in if dl_threshold limits < ap_count p1
              then (BlockedFor (ceil_div (dl_blockDuration limits) 1000),
                    p1\<lparr>ap_blocked := True, ap_blockedAt := Some now\<rparr>)
              else (Pass, p1))"

definition ddos_protection ::
  "ddos_limits \<Rightarrow> int \<Rightarrow> client_request \<Rightarrow> ip_store \<Rightarrow> ddos_outcome \<times> ip_store" where
  "ddos_protection limits now req store =
     (let ip = get_client_ip req
      in case js_get store ip of
           None \<Rightarrow> (Pass, js_set ip (fresh_pattern now) store)
         | Some p \<Rightarrow> (case judge_pattern limits now p of (outcome, p') \<Rightarrow> (outcome, js_set ip p' store)))"

text \<open>The clean-up timer; a \<open>blockedAt\<close> of 0 is falsy.\<close>

definition is_expired_block :: "ddos_limits \<Rightarrow> int \<Rightarrow> attack_pattern \<Rightarrow> bool" where
  "is_expired_block limits now p \<longleftrightarrow>
     ap_blocked p \<and> (case ap_blockedAt p of None \<Rightarrow> False
                      | Some b \<Rightarrow> b \<noteq> 0 \<and> dl_blockDuration limits < now - b)"

definition is_stale_entry :: "ddos_limits \<Rightarrow> int \<Rightarrow> attack_pattern \<Rightarrow> bool" where
  "is_stale_entry limits now p \<longleftrightarrow> \<not> ap_blocked p \<and> dl_window limits * 2 < now - ap_lastSeen p"

definition ddos_cleanup :: "ddos_limits \<Rightarrow> int \<Rightarrow> ip_store \<Rightarrow> ip_store" where
  "ddos_cleanup limits now store =
     filter (\<lambda>(ip, p). \<not> (is_expired_block limits now p \<or> is_stale_entry limits now p)) store"

record ddos_stats =
  ds_totalTracked :: nat
  ds_blocked :: nat
  ds_suspicious :: nat

definition count_pattern :: "ddos_limits \<Rightarrow> int \<Rightarrow> attack_pattern \<Rightarrow> nat \<times> nat \<Rightarrow> nat \<times> nat" where
  "count_pattern limits now p acc =
     (case acc of (blocked, suspicious) \<Rightarrow>
        if ap_blocked p \<and> now - get_or 0 (ap_blockedAt p) < dl_blockDuration limits
        then (blocked + 1, suspicious)
        else if dl_threshold limits < 2 * ap_count p then (blocked, suspicious + 1)
        else (blocked, suspicious))"

definition get_ddos_stats :: "ddos_limits \<Rightarrow> int \<Rightarrow> ip_store \<Rightarrow> ddos_stats" where
  "get_ddos_stats limits now store =
     (case fold (\<lambda>(ip, p). count_pattern limits now p) store (0, 0) of (blocked, suspicious) \<Rightarrow>
        \<lparr>ds_totalTracked = length store, ds_blocked = blocked, ds_suspicious = suspicious\<rparr>)"

section \<open>The block list\<close>

definition parse_blocked_ips :: "string \<Rightarrow> string list" where
  "parse_blocked_ips envvar =
     fold js_add (filter (\<lambda>ip. ip \<noteq> []) (map js_trim (js_split CHR '','' envvar))) []"

text \<open>\<open>True\<close> when the request goes on, \<open>False\<close> for the answer 403.\<close>

definition ip_blocklist :: "string list \<Rightarrow> client_request \<Rightarrow> bool" where
  "ip_blocklist blockedIPs req \<longleftrightarrow> get_client_ip req \<notin> set blockedIPs"

section \<open>Throttling\<close>

record throttle_limits =
  tl_window :: int
  tl_maxRps :: int
  tl_delay :: int

definition default_throttle_limits :: throttle_limits where
  "default_throttle_limits = \<lparr>tl_window = 1000, tl_maxRps = 10, tl_delay = 500\<rparr>"

record throttle_entry =
  te_queue :: "int list"
  te_delayUntil :: int

type_synonym throttle_store = "(string, throttle_entry) jsmap"

definition throttle_ip :: "client_request \<Rightarrow> string" where
  "throttle_ip req =
     (case forwarded_ip req of
        Some ip \<Rightarrow> ip
      | None \<Rightarrow> (case truthy (cr_remote req) of Some ip \<Rightarrow> ip | None \<Rightarrow> ''unknown''))"

text \<open>The delay after which \<open>next()\<close> is called; 0 stands for at once.\<close>

definition request_throttle ::
  "throttle_limits \<Rightarrow> int \<Rightarrow> client_request \<Rightarrow> throttle_store \<Rightarrow> int \<times> throttle_store" where
  "request_throttle limits now req store =
     (let ip = throttle_ip req
      in case js_get store ip of
           None \<Rightarrow> (0, js_set ip \<lparr>te_queue = [now], te_delayUntil = 0\<rparr> store)
         | Some entry \<Rightarrow>
             let queue = filter (\<lambda>t. now - t < tl_window limits) (te_queue entry) @ [now];
                 excess = int (length queue) - tl_maxRps limits
             in if excess \<le> 0
                then (0, js_set ip \<lparr>te_queue = queue, te_delayUntil = 0\<rparr> store)
                else let delay = excess * tl_delay limits
                     in (delay, js_set ip \<lparr>te_queue = queue, te_delayUntil = now + delay\<rparr> store))"

text \<open>The clean-up timer; the last element of an empty queue is \<open>undefined\<close>, hence 0.\<close>

definition last_or_zero :: "int list \<Rightarrow> int" where
  "last_or_zero q = (if q = [] then 0 else last q)"

definition throttle_cleanup :: "throttle_limits \<Rightarrow> int \<Rightarrow> throttle_store \<Rightarrow> throttle_store" where
  "throttle_cleanup limits now store =
     filter (\<lambda>(ip, entry). \<not> tl_window limits * 10 < now - last_or_zero (te_queue entry)) store"

section \<open>Runs of the detector\<close>

datatype traffic_event = Arrival client_request int | Sweep int

fun event_time :: "traffic_event \<Rightarrow> int" where
  "event_time (Arrival req now) = now"
| "event_time (Sweep now) = now"

text \<open>The instants at which a request from \<open>ip\<close> was passed on.\<close>

fun passed :: "ddos_limits \<Rightarrow> string \<Rightarrow> traffic_event list \<Rightarrow> ip_store \<Rightarrow> int list" where
  "passed limits ip [] store = []"
| "passed limits ip (Sweep now # evs) store = passed limits ip evs (ddos_cleanup limits now store)"
| "passed limits ip (Arrival req now # evs) store =
     (case ddos_protection limits now req store of (outcome, store') \<Rightarrow>
        if get_client_ip req = ip \<and> outcome = Pass then now # passed limits ip evs store'
        else passed limits ip evs store')"

text \<open>Only the pattern under \<open>ip\<close> matters for what is passed from \<open>ip\<close>.\<close>

lemma cleanup_get:
  "js_wf store \<Longrightarrow> js_get (ddos_cleanup limits now store) ip =
     (case js_get store ip of
        None \<Rightarrow> None
      | Some p \<Rightarrow> if is_expired_block limits now p \<or> is_stale_entry limits now p then None else Some p)"
  by (simp add: ddos_cleanup_def js_get_filter split: option.split)

lemma cleanup_wf: "js_wf store \<Longrightarrow> js_wf (ddos_cleanup limits now store)"
  by (simp add: ddos_cleanup_def js_wf_filter)

lemma protection_wf: "js_wf store \<Longrightarrow> js_wf (snd (ddos_protection limits now req store))"
  by (simp add: ddos_protection_def Let_def split: option.split prod.split)

lemma protection_other:
  "get_client_ip req \<noteq> ip \<Longrightarrow> js_get (snd (ddos_protection limits now req store)) ip = js_get store ip"
  by (simp add: ddos_protection_def Let_def js_simps split: option.split prod.split)

lemma protection_same:
  "get_client_ip req = ip \<Longrightarrow>
     js_get (snd (ddos_protection limits now req store)) ip =
       Some (case js_get store ip of None \<Rightarrow> fresh_pattern now | Some p \<Rightarrow> snd (judge_pattern limits now p)) \<and>
     fst (ddos_protection limits now req store) =
       (case js_get store ip of None \<Rightarrow> Pass | Some p \<Rightarrow> fst (judge_pattern limits now p))"
  by (simp add: ddos_protection_def Let_def js_simps case_prod_unfold split: option.split)

text \<open>What is known of a pattern at time \<open>t\<close>.\<close>

definition pattern_ok :: "ddos_limits \<Rightarrow> int \<Rightarrow> attack_pattern \<Rightarrow> bool" where
  "pattern_ok limits t p \<longleftrightarrow>
     1 \<le> ap_count p \<and> ap_firstSeen p \<le> ap_lastSeen p \<and> ap_lastSeen p \<le> t \<and>
     (if ap_blocked p
      then \<exists>b. ap_blockedAt p = Some b \<and> ap_firstSeen p \<le> b \<and> b \<le> t
      else ap_count p \<le> dl_threshold limits)"

lemma pattern_ok_mono: "pattern_ok limits t p \<Longrightarrow> t \<le> t' \<Longrightarrow> pattern_ok limits t' p"
  unfolding pattern_ok_def by (auto split: if_splits)

lemma pattern_ok_fresh: "1 \<le> dl_threshold limits \<Longrightarrow> pattern_ok limits now (fresh_pattern now)"
  by (simp add: pattern_ok_def fresh_pattern_def)

lemma pattern_ok_judge:
  assumes "pattern_ok limits t p" and "t \<le> now" and "1 \<le> dl_threshold limits"
  shows "pattern_ok limits now (snd (judge_pattern limits now p))"
  using assms unfolding pattern_ok_def judge_pattern_def restart_window_def
  by (auto simp: Let_def split: if_splits)

text \<open>
  How many of the requests from time \<open>t\<close> on can still be passed within the span from \<open>w\<close> as
  long as the attack window, given the pattern.
\<close>

definition budget :: "ddos_limits \<Rightarrow> int \<Rightarrow> int \<Rightarrow> attack_pattern option \<Rightarrow> int" where
  "budget limits w t po =
     (case po of
        None \<Rightarrow> if w \<le> t then dl_threshold limits else 2 * dl_threshold limits - 1
      | Some p \<Rightarrow>
          if ap_blocked p
          then if w \<le> get_or 0 (ap_blockedAt p) then 0
               else if w \<le> t then dl_threshold limits else 2 * dl_threshold limits - 1
          else if w \<le> ap_firstSeen p then dl_threshold limits - ap_count p
          else if w \<le> t then 2 * dl_threshold limits - ap_count p
          else 2 * dl_threshold limits - 1)"

definition store_ok :: "ddos_limits \<Rightarrow> int \<Rightarrow> string \<Rightarrow> ip_store \<Rightarrow> bool" where
  "store_ok limits t ip store \<longleftrightarrow>
     js_wf store \<and> (case js_get store ip of None \<Rightarrow> True | Some p \<Rightarrow> pattern_ok limits t p)"

lemma budget_nonneg:
  assumes "1 \<le> dl_threshold limits" and "case po of None \<Rightarrow> True | Some p \<Rightarrow> pattern_ok limits t p"
  shows "0 \<le> budget limits w t' po"
  using assms by (auto simp: budget_def pattern_ok_def split: option.splits if_splits)

lemma budget_later:
  assumes "1 \<le> dl_threshold limits" and "case po of None \<Rightarrow> True | Some p \<Rightarrow> pattern_ok limits t p" and "t \<le> t'"
  shows "budget limits w t' po \<le> budget limits w t po"
  using assms by (auto simp: budget_def pattern_ok_def split: option.splits if_splits)

text \<open>The calls of a list of instants that fall into the time from \<open>w\<close> to \<open>w + d\<close>.\<close>

definition in_span :: "int \<Rightarrow> int \<Rightarrow> int list \<Rightarrow> nat" where
  "in_span w d ts = length (filter (\<lambda>t. w \<le> t \<and> t \<le> w + d) ts)"

lemma in_span_simps [simp]:
  "in_span w d [] = 0"
  "in_span w d (t # ts) = (if w \<le> t \<and> t \<le> w + d then Suc (in_span w d ts) else in_span w d ts)"
  by (simp_all add: in_span_def)

lemma in_span_none: "list_all (\<lambda>t. w + d < t) ts \<Longrightarrow> in_span w d ts = 0"
  by (induction ts) auto

text \<open>One request of the address spends its budget.\<close>

definition one_in_span :: "int \<Rightarrow> int \<Rightarrow> int \<Rightarrow> int" where
  "one_in_span w d t = (if w \<le> t \<and> t \<le> w + d then 1 else 0)"

lemma budget_judge:
  assumes limits: "1 \<le> dl_threshold limits" "0 \<le> dl_window limits" "dl_window limits < dl_blockDuration limits"
    and ok: "pattern_ok limits t p" and t: "t \<le> now" and span: "now \<le> w + dl_window limits"
  shows "(if fst (judge_pattern limits now p) = Pass then one_in_span w (dl_window limits) now else 0) +
      budget limits w now (Some (snd (judge_pattern limits now p))) \<le> budget limits w t (Some p)"
proof (cases "ap_blocked p")
  case True
  with ok obtain b where b: "ap_blockedAt p = Some b" "b \<le> t" by (auto simp: pattern_ok_def)
  show ?thesis
  proof (cases "now - b < dl_blockDuration limits")
    case True
    with \<open>ap_blocked p\<close> b limits t show ?thesis
      by (auto simp: judge_pattern_def Let_def budget_def)
  next
    case False
    with \<open>ap_blocked p\<close> b limits t span show ?thesis
      by (auto simp: judge_pattern_def Let_def restart_window_def budget_def one_in_span_def)
  qed
next
  case False
  with ok have c: "1 \<le> ap_count p" "ap_count p \<le> dl_threshold limits" "ap_firstSeen p \<le> t"
    by (auto simp: pattern_ok_def)
  show ?thesis
  proof (cases "dl_window limits < now - ap_firstSeen p")
    case True
    with False c limits t span show ?thesis
      by (auto simp: judge_pattern_def restart_window_def budget_def one_in_span_def)
  next
    case inside: False
    show ?thesis
    proof (cases "dl_threshold limits < ap_count p + 1")
      case True
      with False inside c limits t span show ?thesis
        by (auto simp: judge_pattern_def Let_def budget_def one_in_span_def)
    next
      case below: False
      with False inside c limits t span show ?thesis
        by (auto simp: judge_pattern_def Let_def budget_def one_in_span_def)
    qed
  qed
qed

lemma budget_new:
  assumes "1 \<le> dl_threshold limits" "0 \<le> dl_window limits" and "t \<le> now"
  shows "one_in_span w (dl_window limits) now + budget limits w now (Some (fresh_pattern now)) \<le> budget limits w t None"
  using assms by (auto simp: budget_def fresh_pattern_def one_in_span_def)

lemma budget_cleanup:
  assumes limits: "1 \<le> dl_threshold limits" "0 \<le> dl_window limits" "dl_window limits < dl_blockDuration limits"
    and ok: "pattern_ok limits t p" and t: "t \<le> now" and span: "now \<le> w + dl_window limits"
    and dead: "is_expired_block limits now p \<or> is_stale_entry limits now p"
  shows "budget limits w now None \<le> budget limits w t (Some p)"
proof (cases "ap_blocked p")
  case True
  with dead obtain b where b: "ap_blockedAt p = Some b" "dl_blockDuration limits < now - b"
    by (auto simp: is_expired_block_def is_stale_entry_def split: option.splits)
  with True limits t span show ?thesis by (auto simp: budget_def)
next
  case False
  with dead ok have "dl_window limits * 2 < now - ap_lastSeen p" "ap_firstSeen p \<le> ap_lastSeen p"
    "ap_count p \<le> dl_threshold limits" "1 \<le> ap_count p"
    by (auto simp: is_expired_block_def is_stale_entry_def pattern_ok_def)
  with False limits t span show ?thesis by (auto simp: budget_def)
qed

lemma passed_subset: "set (passed limits ip evs store) \<subseteq> event_time ` set evs"
proof (induction limits ip evs store rule: passed.induct)
  case (3 limits ip req now evs store)
  obtain outcome st where "ddos_protection limits now req store = (outcome, st)" by fastforce
  with 3 show ?case by auto
qed auto

lemma passed_budget:
  assumes lims: "1 \<le> dl_threshold limits" "0 \<le> dl_window limits" "dl_window limits < dl_blockDuration limits"
  shows "sorted (map event_time evs) \<Longrightarrow> list_all (\<lambda>e. t \<le> event_time e) evs \<Longrightarrow> store_ok limits t ip store \<Longrightarrow>
    int (in_span w (dl_window limits) (passed limits ip evs store)) \<le> budget limits w t (js_get store ip)"
proof (induction evs arbitrary: t store)
  case Nil
  then have "case js_get store ip of None \<Rightarrow> True | Some p \<Rightarrow> pattern_ok limits t p"
    by (simp add: store_ok_def)
  from budget_nonneg [OF lims(1) this] show ?case by simp
next
  case (Cons e evs)
  let ?now = "event_time e"
  have t: "t \<le> ?now" and s: "sorted (map event_time evs)" and later: "list_all (\<lambda>e. ?now \<le> event_time e) evs"
    using Cons.prems by (auto simp: list_all_iff)
  have wf: "js_wf store" and ok: "case js_get store ip of None \<Rightarrow> True | Some p \<Rightarrow> pattern_ok limits t p"
    using Cons.prems(3) by (simp_all add: store_ok_def)
  have ok': "js_get store ip = Some p \<Longrightarrow> pattern_ok limits ?now p" for p
    using ok t pattern_ok_mono by simp
  show ?case
  proof (cases "?now \<le> w + dl_window limits")
    case False
    have "\<forall>x\<in>set (passed limits ip (e # evs) store). ?now \<le> x"
      using passed_subset [of limits ip "e # evs" store] later by (fastforce simp: list_all_iff)
    then have "list_all (\<lambda>x. w + dl_window limits < x) (passed limits ip (e # evs) store)"
      using False by (auto simp: list_all_iff)
    then show ?thesis using budget_nonneg [OF lims(1) ok, of w t] by (simp add: in_span_none)
  next
    case span: True
    show ?thesis
    proof (cases e)
      case (Sweep now)
      let ?st = "ddos_cleanup limits now store"
      have g: "js_get ?st ip = (case js_get store ip of None \<Rightarrow> None
          | Some p \<Rightarrow> if is_expired_block limits now p \<or> is_stale_entry limits now p then None else Some p)"
        using wf by (rule cleanup_get)
      have "store_ok limits now ip ?st"
        using ok' Sweep by (auto simp: store_ok_def cleanup_wf [OF wf] g split: option.split)
      then have IH: "int (in_span w (dl_window limits) (passed limits ip evs ?st)) \<le> budget limits w now (js_get ?st ip)"
        using Cons.IH [OF s] later Sweep by simp
      have "budget limits w now (js_get ?st ip) \<le> budget limits w t (js_get store ip)"
      proof (cases "js_get store ip")
        case None
        then show ?thesis using g budget_later [OF lims(1), where po = None and t = t and t' = now and w = w] t Sweep by simp
      next
        case (Some p)
        then show ?thesis
          using g ok t Sweep span budget_cleanup [OF lims, of t p now w] budget_later [OF lims(1), where po = "Some p" and t = t and t' = now and w = w]
          by auto
      qed
      with IH Sweep show ?thesis by simp
    next
      case (Arrival req now)
      obtain outcome st where st: "ddos_protection limits now req store = (outcome, st)" by fastforce
      show ?thesis
      proof (cases "get_client_ip req = ip")
        case False
        have g: "js_get st ip = js_get store ip" using protection_other [OF False] st by (metis snd_conv)
        have "store_ok limits now ip st"
          using ok' Arrival g protection_wf [OF wf, of limits now req] st
          by (auto simp: store_ok_def split: option.split)
        then have "int (in_span w (dl_window limits) (passed limits ip evs st)) \<le> budget limits w now (js_get store ip)"
          using Cons.IH [OF s, of now st] later Arrival g by simp
        also have "\<dots> \<le> budget limits w t (js_get store ip)"
          using budget_later [OF lims(1) ok] t Arrival by simp
        finally show ?thesis using Arrival st False by simp
      next
        case True
        note same = protection_same [OF True, of limits now store, unfolded st, simplified]
        have "store_ok limits now ip st"
          using same ok t Arrival protection_wf [OF wf, of limits now req] st
            pattern_ok_fresh [OF lims(1)] pattern_ok_judge [OF _ _ lims(1)]
          by (auto simp: store_ok_def split: option.splits)
        then have IH: "int (in_span w (dl_window limits) (passed limits ip evs st)) \<le> budget limits w now (js_get st ip)"
          using Cons.IH [OF s, of now st] later Arrival by simp
        have step: "(if outcome = Pass then one_in_span w (dl_window limits) now else 0) +
            budget limits w now (js_get st ip) \<le> budget limits w t (js_get store ip)"
        proof (cases "js_get store ip")
          case None
          then show ?thesis using same budget_new [OF lims(1,2), of t now w] t Arrival by simp
        next
          case (Some p)
          then show ?thesis using same ok budget_judge [OF lims, of t p now w] t Arrival span by simp
        qed
        have "in_span w (dl_window limits) (passed limits ip (e # evs) store) =
            (if outcome = Pass then nat (one_in_span w (dl_window limits) now) else 0) +
            in_span w (dl_window limits) (passed limits ip evs st)"
          using Arrival st True by (simp add: one_in_span_def)
        then show ?thesis using IH step by (auto simp: one_in_span_def split: if_splits)
      qed
    qed
  qed
qed

section \<open>Runs of the throttle\<close>

fun throttle_after :: "throttle_limits \<Rightarrow> traffic_event list \<Rightarrow> throttle_store \<Rightarrow> throttle_store" where
  "throttle_after limits [] store = store"
| "throttle_after limits (Sweep now # evs) store = throttle_after limits evs (throttle_cleanup limits now store)"
| "throttle_after limits (Arrival req now # evs) store =
     throttle_after limits evs (snd (request_throttle limits now req store))"

fun arrivals :: "string \<Rightarrow> traffic_event list \<Rightarrow> int list" where
  "arrivals ip [] = []"
| "arrivals ip (Sweep now # evs) = arrivals ip evs"
| "arrivals ip (Arrival req now # evs) =
     (if throttle_ip req = ip then now # arrivals ip evs else arrivals ip evs)"

definition recent :: "int \<Rightarrow> int \<Rightarrow> int list \<Rightarrow> int list" where
  "recent d now ts = filter (\<lambda>t. now - t < d) ts"

lemma recent_append: "recent d now (xs @ ys) = recent d now xs @ recent d now ys"
  by (simp add: recent_def)

lemma recent_recent: "now \<le> now' \<Longrightarrow> recent d now' (recent d now ts) = recent d now' ts"
  unfolding recent_def by (induction ts) auto

text \<open>The queue holds the recent arrivals, and no entry means there are none.\<close>

definition queue_ok :: "throttle_limits \<Rightarrow> string \<Rightarrow> int \<Rightarrow> int list \<Rightarrow> throttle_store \<Rightarrow> bool" where
  "queue_ok limits ip t past store \<longleftrightarrow>
     js_wf store \<and> sorted past \<and> list_all (\<lambda>x. x \<le> t) past \<and>
     (case js_get store ip of
        None \<Rightarrow> \<forall>now\<ge>t. recent (tl_window limits) now past = []
      | Some e \<Rightarrow> te_queue e \<noteq> [] \<and> past \<noteq> [] \<and> last (te_queue e) = last past \<and>
          (\<forall>now\<ge>t. recent (tl_window limits) now (te_queue e) = recent (tl_window limits) now past))"

lemma queue_ok_start: "queue_ok limits ip t [] []"
  by (simp add: queue_ok_def recent_def)

lemma queue_ok_sweep:
  assumes ok: "queue_ok limits ip t past store" and t: "t \<le> now" and w: "0 \<le> tl_window limits"
  shows "queue_ok limits ip now past (throttle_cleanup limits now store)"
proof -
  have wf: "js_wf store" using ok by (simp add: queue_ok_def)
  have g: "js_get (throttle_cleanup limits now store) ip =
      (case js_get store ip of None \<Rightarrow> None
       | Some e \<Rightarrow> if tl_window limits * 10 < now - last_or_zero (te_queue e) then None else Some e)"
    using wf by (simp add: throttle_cleanup_def js_get_filter split: option.split)
  have wf': "js_wf (throttle_cleanup limits now store)"
    using wf by (simp add: throttle_cleanup_def js_wf_filter)
  have le: "list_all (\<lambda>x. x \<le> now) past" "sorted past" using ok t by (auto simp: queue_ok_def list_all_iff)
  show ?thesis
  proof (cases "js_get store ip")
    case None
    then show ?thesis using ok g t wf' le by (simp add: queue_ok_def)
  next
    case (Some e)
    then have q: "te_queue e \<noteq> []" "past \<noteq> []" "last (te_queue e) = last past" using ok by (simp_all add: queue_ok_def)
    show ?thesis
    proof (cases "tl_window limits * 10 < now - last (te_queue e)")
      case True
      have "x \<in> set past \<Longrightarrow> x \<le> last past" for x
        using le(2) q(2) by (metis append_butlast_last_id sorted_append list.set_intros(1) in_set_conv_decomp
            Un_iff order_refl set_append empty_iff set_ConsD list.set(1))
      then have "recent (tl_window limits) n past = []" if "now \<le> n" for n
        using True q(3) w that by (auto simp: recent_def filter_empty_conv) (smt (verit))
      with Some True g wf' le q show ?thesis by (simp add: queue_ok_def last_or_zero_def)
    next
      case False
      with Some g wf' le q ok t show ?thesis by (simp add: queue_ok_def last_or_zero_def)
    qed
  qed
qed

lemma request_throttle_get:
  "js_get (snd (request_throttle limits now req store)) k =
     (if k \<noteq> throttle_ip req then js_get store k
      else Some \<lparr>te_queue = (case js_get store k of None \<Rightarrow> [now]
                             | Some e \<Rightarrow> recent (tl_window limits) now (te_queue e) @ [now]),
                te_delayUntil = te_delayUntil (the (js_get (snd (request_throttle limits now req store)) k))\<rparr>)"
  by (simp add: request_throttle_def recent_def Let_def js_simps split: option.split)

lemma queue_ok_request:
  assumes ok: "queue_ok limits ip t past store" and t: "t \<le> now"
  shows "queue_ok limits ip now (past @ (if throttle_ip req = ip then [now] else []))
           (snd (request_throttle limits now req store))"
proof -
  let ?st = "snd (request_throttle limits now req store)"
  have wf: "js_wf ?st" using ok
    by (simp add: queue_ok_def request_throttle_def Let_def split: option.split)
  have le: "list_all (\<lambda>x. x \<le> now) past" "sorted past" using ok t by (auto simp: queue_ok_def list_all_iff)
  show ?thesis
  proof (cases "throttle_ip req = ip")
    case False
    then have "js_get ?st ip = js_get store ip" using request_throttle_get [of limits now req store ip] by simp
    then show ?thesis using False ok t wf le by (auto simp: queue_ok_def split: option.splits)
  next
    case True
    then obtain d where g: "js_get ?st ip = Some \<lparr>te_queue = (case js_get store ip of None \<Rightarrow> [now]
          | Some e \<Rightarrow> recent (tl_window limits) now (te_queue e) @ [now]), te_delayUntil = d\<rparr>"
      using request_throttle_get [of limits now req store ip] by metis
    have s: "sorted (past @ [now])" using le by (auto simp: sorted_append list_all_iff)
    show ?thesis
    proof (cases "js_get store ip")
      case None
      then have "\<forall>n\<ge>now. recent (tl_window limits) n past = []" using ok t by (simp add: queue_ok_def)
      then show ?thesis using True g None wf le s by (simp add: queue_ok_def recent_append)
    next
      case (Some e)
      then have "\<forall>n\<ge>now. recent (tl_window limits) n (te_queue e) = recent (tl_window limits) n past"
        using ok t by (simp add: queue_ok_def)
      then show ?thesis using True g Some wf le s
        by (simp add: queue_ok_def recent_append recent_recent)
    qed
  qed
qed

lemma queue_ok_after:
  assumes "0 \<le> tl_window limits"
  shows "queue_ok limits ip t past store \<Longrightarrow> sorted (map event_time evs) \<Longrightarrow>
    list_all (\<lambda>e. t \<le> event_time e) evs \<Longrightarrow> list_all (\<lambda>e. event_time e \<le> now) evs \<Longrightarrow> t \<le> now \<Longrightarrow>
    \<exists>t'\<le>now. queue_ok limits ip t' (past @ arrivals ip evs) (throttle_after limits evs store)"
proof (induction evs arbitrary: t past store)
  case Nil
  then show ?case by auto
next
  case (Cons e evs)
  have later: "list_all (\<lambda>u. event_time e \<le> event_time u) evs" "sorted (map event_time evs)"
    using Cons.prems(2) by (auto simp: list_all_iff)
  show ?case
  proof (cases e)
    case (Sweep n)
    then show ?thesis
      using Cons.IH [OF queue_ok_sweep [OF Cons.prems(1) _ assms, of n]] Cons.prems later by simp
  next
    case (Arrival req n)
    then show ?thesis
      using Cons.IH [OF queue_ok_request [OF Cons.prems(1), of n req]] Cons.prems later
      by (cases "throttle_ip req = ip") simp_all
  qed
qed

section \<open>Properties\<close>

text \<open>
  C34. The attack detector's bound: with a threshold of at least one and a block that outlasts
  the window, whatever requests and clean-ups happen, fewer than twice the threshold of the
  requests of one address are passed on in any span as long as the attack window.
\<close>

theorem ddos_window_load:
  assumes "1 \<le> dl_threshold limits" and "0 \<le> dl_window limits" and "dl_window limits < dl_blockDuration limits"
    and "sorted (map event_time evs)"
  shows "int (in_span w (dl_window limits) (passed limits ip evs [])) \<le> 2 * dl_threshold limits - 1"
proof (cases evs)
  case Nil
  then show ?thesis using assms(1) by simp
next
  case (Cons e es)
  have "list_all (\<lambda>u. event_time e \<le> event_time u) evs" using assms(4) Cons by (auto simp: list_all_iff)
  moreover have "store_ok limits (event_time e) ip []" by (simp add: store_ok_def)
  ultimately have "int (in_span w (dl_window limits) (passed limits ip evs [])) \<le>
      budget limits w (event_time e) None"
    using passed_budget [OF assms(1-3), of evs "event_time e" ip "[]" w] assms(4) by simp
  also have "\<dots> \<le> 2 * dl_threshold limits - 1" using assms(1) by (simp add: budget_def)
  finally show ?thesis .
qed

definition sample_client_request :: client_request where
  "sample_client_request = \<lparr>cr_forwarded = Some ''1.2.3.4, 10.0.0.1'', cr_realIp = None, cr_remote = None\<rparr>"

theorem ddos_window_load_witness:
  "int (in_span 0 60000 (passed default_ddos_limits ''1.2.3.4''
     [Arrival sample_client_request 0, Sweep 10, Arrival sample_client_request 20] [])) \<le> 399"
  using ddos_window_load [of default_ddos_limits
      "[Arrival sample_client_request 0, Sweep 10, Arrival sample_client_request 20]" 0 "''1.2.3.4''"]
  by (simp add: default_ddos_limits_def)

text \<open>
  A block holds: once a request of an address has been refused as an attack, no request of
  that address passes before the block duration is over, and refused requests do not extend it.
\<close>

theorem ddos_block_holds:
  assumes "js_get store (get_client_ip req) = Some p" and "ap_blocked p" and "ap_blockedAt p = Some b"
    and "now < b + dl_blockDuration limits"
  shows "\<exists>s. ddos_protection limits now req store = (BlockedFor s, store) \<and>
    b + dl_blockDuration limits \<le> now + s * 1000 \<and> now + s * 1000 < b + dl_blockDuration limits + 1000"
proof -
  have "js_set (get_client_ip req) p store = store"
    using assms(1) by (induction store) (auto split: if_splits)
  then have "ddos_protection limits now req store =
      (BlockedFor (ceil_div (dl_blockDuration limits - (now - b)) 1000), store)"
    using assms by (simp add: ddos_protection_def judge_pattern_def Let_def)
  moreover note ceil_div_bounds [of 1000 "dl_blockDuration limits - (now - b)"]
  ultimately show ?thesis by (intro exI conjI) (assumption, simp_all)
qed

definition sample_blocked :: attack_pattern where
  "sample_blocked = \<lparr>ap_count = 201, ap_firstSeen = 0, ap_lastSeen = 500, ap_blocked = True, ap_blockedAt = Some 500\<rparr>"

theorem ddos_block_holds_witness:
  "\<exists>s. ddos_protection default_ddos_limits 600 sample_client_request
         [(get_client_ip sample_client_request, sample_blocked)] =
       (BlockedFor s, [(get_client_ip sample_client_request, sample_blocked)]) \<and>
     500 + dl_blockDuration default_ddos_limits \<le> 600 + s * 1000 \<and>
     600 + s * 1000 < 500 + dl_blockDuration default_ddos_limits + 1000"
  by (rule ddos_block_holds [where p = sample_blocked])
    (simp_all add: sample_blocked_def default_ddos_limits_def)

text \<open>
  C37. The throttle is exact: after any run of requests and clean-ups, the next request of an
  address is delayed by the per-request delay times the number of its requests within the
  window, itself included, that exceed the allowed rate.
\<close>

theorem throttle_delay_exact:
  assumes "0 \<le> tl_window limits" and "1 \<le> tl_maxRps limits"
    and "sorted (map event_time evs)" and "list_all (\<lambda>e. event_time e \<le> now) evs"
  shows "fst (request_throttle limits now req (throttle_after limits evs [])) =
    max 0 (int (length (recent (tl_window limits) now (arrivals (throttle_ip req) evs))) + 1 - tl_maxRps limits)
      * tl_delay limits"
proof -
  define t where "t = (case evs of [] \<Rightarrow> now | e # _ \<Rightarrow> event_time e)"
  have "list_all (\<lambda>e. t \<le> event_time e) evs" "t \<le> now"
    using assms(3,4) by (auto simp: t_def list_all_iff split: list.splits)
  with queue_ok_after [OF assms(1) queue_ok_start [of limits "throttle_ip req" t] assms(3) _ assms(4)]
  obtain t' where "t' \<le> now"
    and ok: "queue_ok limits (throttle_ip req) t' (arrivals (throttle_ip req) evs) (throttle_after limits evs [])"
    by auto
  then show ?thesis using assms(2)
    by (auto simp: queue_ok_def request_throttle_def recent_def [symmetric] Let_def max_def split: option.splits)
qed

theorem throttle_delay_exact_witness:
  "fst (request_throttle (default_throttle_limits\<lparr>tl_maxRps := 1\<rparr>) 20 sample_client_request
     (throttle_after (default_throttle_limits\<lparr>tl_maxRps := 1\<rparr>)
       [Arrival sample_client_request 0, Sweep 10] [])) = 500"
  using throttle_delay_exact [of "default_throttle_limits\<lparr>tl_maxRps := 1\<rparr>"
      "[Arrival sample_client_request 0, Sweep 10]" 20 sample_client_request]
  by (simp add: default_throttle_limits_def recent_def)

end
