(* ===== verification/Alerting.thy ===== *)
theory Alerting
  imports JsPrelude
begin

text \<open>
  Alerting and health monitoring of the backend: \<open>AlertingService\<close> of
  \<open>backend/src/monitoring/alerting.ts\<close> with cooldowns, active alerts and a capped history,
  \<open>HealthMonitor\<close> of \<open>monitoring/healthMonitor.ts\<close>, the status of
  \<open>services/healthCheck.ts\<close>, and the simpler alert log of \<open>services/alerting.service.ts\<close>.

  The history and the map of active alerts hold references to the same record objects:
  \<open>resolve\<close> mutates the record and the history sees it. Records therefore live in
  \<open>al_heap\<close>, and history and active alerts hold their addresses. Webhook dispatch, Prometheus
  gauges and log lines are left out.
\<close>

section \<open>Alerts\<close>

datatype alert_severity = Info | Warning | Critical

fun severity_name :: "alert_severity \<Rightarrow> string" where
  "severity_name Info = ''info''"
| "severity_name Warning = ''warning''"
| "severity_name Critical = ''critical''"

record alert =
  at_severity :: alert_severity
  at_service :: string
  at_message :: string
  at_details :: "string option"

record alert_record = alert +
  ar_id :: string
  ar_firedAt :: int
  ar_resolvedAt :: "int option"
  ar_active :: bool

record alerting =
  al_cooldowns :: "(string, int) jsmap"
  al_history :: "nat list"
  al_active :: "(string, nat) jsmap"
  al_heap :: "(nat, alert_record) jsmap"
  al_counter :: nat

definition default_cooldown :: int where
  "default_cooldown = 5 * 60 * 1000"

definition max_history :: nat where
  "max_history = 500"

definition new_alerting :: alerting where
  "new_alerting = \<lparr>al_cooldowns = [], al_history = [], al_active = [], al_heap = [], al_counter = 0\<rparr>"

definition alert_key :: "string \<Rightarrow> alert_severity \<Rightarrow> string" where
  "alert_key service severity = service @ '':'' @ severity_name severity"

definition next_alert_id :: "int \<Rightarrow> nat \<Rightarrow> string" where
  "next_alert_id now n = ''alert-'' @ show_nat (nat now) @ ''-'' @ show_nat n"

definition push_history :: "nat \<Rightarrow> nat list \<Rightarrow> nat list" where
  "push_history r history =
     (let history' = history @ [r] in if max_history < length history' then tl history' else history')"

definition suppressed :: "int \<Rightarrow> int \<Rightarrow> string \<Rightarrow> alerting \<Rightarrow> bool" where
  "suppressed cooldownMs now key s =
     (case js_get (al_cooldowns s) key of None \<Rightarrow> False | Some lastFired \<Rightarrow> now - lastFired < cooldownMs)"

definition fire :: "int \<Rightarrow> int \<Rightarrow> alert \<Rightarrow> alerting \<Rightarrow> alerting" where
  "fire cooldownMs now a s =
     (let key = alert_key (at_service a) (at_severity a)
      in if suppressed cooldownMs now key s then s
         else let n = al_counter s + 1;
                  rec = \<lparr>at_severity = at_severity a, at_service = at_service a, at_message = at_message a,
                         at_details = at_details a, ar_id = next_alert_id now n, ar_firedAt = now,
                         ar_resolvedAt = None, ar_active = True\<rparr>
              in s\<lparr>al_cooldowns := js_set key now (al_cooldowns s),
                   al_active := js_set key n (al_active s),
                   al_history := push_history n (al_history s),
                   al_heap := js_set n rec (al_heap s),
                   al_counter := n\<rparr>)"

definition resolve :: "int \<Rightarrow> string \<Rightarrow> alert_severity \<Rightarrow> alerting \<Rightarrow> alerting" where
  "resolve now service severity s =
     (let key = alert_key service severity
      in case js_get (al_active s) key of
           None \<Rightarrow> s
         | Some n \<Rightarrow>
             s\<lparr>al_heap := (case js_get (al_heap s) n of
                 None \<Rightarrow> al_heap s
               | Some rec \<Rightarrow> js_set n (rec\<lparr>ar_active := False, ar_resolvedAt := Some now\<rparr>) (al_heap s)),
               al_active := js_del key (al_active s),
               al_cooldowns := js_del key (al_cooldowns s)\<rparr>)"

record history_filter =
  hf_severity :: "alert_severity option"
  hf_service :: "string option"
  hf_activeOnly :: bool

definition deref :: "alerting \<Rightarrow> nat list \<Rightarrow> alert_record list" where
  "deref s rs = List.map_filter (js_get (al_heap s)) rs"

definition get_history :: "history_filter option \<Rightarrow> alerting \<Rightarrow> alert_record list" where
  "get_history flt s =
     (let results = deref s (al_history s)
      in case flt of
           None \<Rightarrow> results
         | Some f \<Rightarrow>
             let r1 = (case hf_severity f of None \<Rightarrow> results
                       | Some v \<Rightarrow> filter (\<lambda>a. at_severity a = v) results);
                 r2 = (case truthy (hf_service f) of None \<Rightarrow> r1
                       | Some v \<Rightarrow> filter (\<lambda>a. at_service a = v) r1)
             in if hf_activeOnly f then filter ar_active r2 else r2)"

definition get_active_alerts :: "alerting \<Rightarrow> alert_record list" where
  "get_active_alerts s = deref s (map snd (al_active s))"

definition reset_cooldowns :: "alerting \<Rightarrow> alerting" where
  "reset_cooldowns s = s\<lparr>al_cooldowns := []\<rparr>"

interpretation alert_history: bounded_log push_history max_history
  by unfold_locales (simp add: push_history_def Let_def)

section \<open>The alert log of \<open>services/alerting.service.ts\<close>\<close>

datatype log_severity = LogInfo | LogWarning | LogError | LogCritical

record log_alert =
  la_title :: string
  la_message :: string
  la_severity :: log_severity
  la_timestamp :: int

text \<open>What \<open>sendAlert\<close> reports to the logger and to Sentry besides keeping the alert.\<close>

datatype alert_report = Logged log_severity string | Captured string string | CriticalLogged log_alert

definition max_alerts :: nat where
  "max_alerts = 500"

definition keep_alert :: "log_alert \<Rightarrow> log_alert list \<Rightarrow> log_alert list" where
  "keep_alert a alerts =
     (let alerts' = alerts @ [a] in if max_alerts < length alerts' then tl alerts' else alerts')"

fun alert_reports :: "log_severity \<Rightarrow> log_alert \<Rightarrow> alert_report list" where
  "alert_reports LogInfo a = [Logged LogInfo (la_message a)]"
| "alert_reports LogWarning a = [Logged LogWarning (la_message a), Captured (la_title a) ''warning'']"
| "alert_reports LogError a = [Logged LogError (la_message a), Captured (la_title a) ''error'']"
| "alert_reports LogCritical a =
     [Logged LogError (''CRITICAL: '' @ la_message a), Captured (la_title a) ''fatal'', CriticalLogged a]"

definition send_alert :: "log_alert \<Rightarrow> log_alert list \<Rightarrow> alert_report list \<times> log_alert list" where
  "send_alert a alerts = (alert_reports (la_severity a) a, keep_alert a alerts)"

text \<open>\<open>alerts.slice(-limit)\<close>; \<open>slice(-0)\<close> is the whole array.\<close>

definition get_recent_alerts :: "nat \<Rightarrow> log_alert list \<Rightarrow> log_alert list" where
  "get_recent_alerts limit alerts = (if limit = 0 then alerts else drop (length alerts - limit) alerts)"

definition get_alerts_by_severity :: "log_severity \<Rightarrow> log_alert list \<Rightarrow> log_alert list" where
  "get_alerts_by_severity v alerts = filter (\<lambda>a. la_severity a = v) alerts"

definition clear_alerts :: "log_alert list \<Rightarrow> log_alert list" where
  "clear_alerts alerts = []"

definition high_error_rate ::
  "int \<Rightarrow> nat \<Rightarrow> nat \<Rightarrow> log_alert list \<Rightarrow> alert_report list \<times> log_alert list" where
  "high_error_rate now errorCount threshold alerts =
     (if threshold < errorCount
      then send_alert \<lparr>la_title = ''High Error Rate Detected'',
             la_message = ''Error count ('' @ show_nat errorCount @ '') exceeded threshold ('' @ show_nat threshold @ '')'',
             la_severity = LogError, la_timestamp = now\<rparr> alerts
      else ([], alerts))"

definition slow_response_time ::
  "int \<Rightarrow> nat \<Rightarrow> nat \<Rightarrow> log_alert list \<Rightarrow> alert_report list \<times> log_alert list" where
  "slow_response_time now avg threshold alerts =
     (if threshold < avg
      then send_alert \<lparr>la_title = ''Slow Response Time'',
             la_message = ''Average response time ('' @ show_nat avg @ ''ms) exceeded threshold ('' @
               show_nat threshold @ ''ms)'',
             la_severity = LogWarning, la_timestamp = now\<rparr> alerts
      else ([], alerts))"

definition database_connection_issue ::
  "int \<Rightarrow> string \<Rightarrow> log_alert list \<Rightarrow> alert_report list \<times> log_alert list" where
  "database_connection_issue now message =
     send_alert \<lparr>la_title = ''Database Connection Issue'', la_message = message,
       la_severity = LogCritical, la_timestamp = now\<rparr>"

definition api_rate_limit_exceeded ::
  "int \<Rightarrow> string \<Rightarrow> string \<Rightarrow> log_alert list \<Rightarrow> alert_report list \<times> log_alert list" where
  "api_rate_limit_exceeded now userId endpoint =
     send_alert \<lparr>la_title = ''API Rate Limit Exceeded'',
       la_message = ''User '' @ userId @ '' exceeded rate limit on '' @ endpoint,
       la_severity = LogWarning, la_timestamp = now\<rparr>"

interpretation alert_log: bounded_log keep_alert max_alerts
  by unfold_locales (simp add: keep_alert_def Let_def)

section \<open>Health\<close>

record check_result =
  ck_up :: bool
  ck_responseTime :: "nat option"
  ck_error :: "string option"

datatype health_state = Healthy | Degraded | Unhealthy

record health_report =
  hr_status :: health_state
  hr_timestamp :: int
  hr_checks :: "(string \<times> check_result) list"

text \<open>A dependency's check: the ping's error if it throws, its duration otherwise.\<close>

definition check_dependency :: "string option \<Rightarrow> nat \<Rightarrow> check_result" where
  "check_dependency failure elapsed =
     (case failure of
        None \<Rightarrow> \<lparr>ck_up = True, ck_responseTime = Some elapsed, ck_error = None\<rparr>
      | Some e \<Rightarrow> \<lparr>ck_up = False, ck_responseTime = None, ck_error = Some e\<rparr>)"

definition get_health_status :: "int \<Rightarrow> check_result \<Rightarrow> check_result \<Rightarrow> check_result \<Rightarrow> health_report" where
  "get_health_status now database redis stellar =
     (let allUp = list_all ck_up [database, redis, stellar];
          anyDown = list_ex (\<lambda>c. \<not> ck_up c) [database, redis, stellar]
      in \<lparr>hr_status = (if allUp then Healthy else if anyDown then Unhealthy else Degraded),
          hr_timestamp = now,
          hr_checks = [(''database'', database), (''redis'', redis), (''stellar'', stellar),
            (''email'', \<lparr>ck_up = True, ck_responseTime = None, ck_error = None\<rparr>)]\<rparr>)"

definition slow_thresholds :: "(string, nat) jsmap" where
  "slow_thresholds = [(''database'', 500), (''redis'', 100), (''stellar'', 2000), (''email'', 3000)]"

definition slow_threshold :: "string \<Rightarrow> nat" where
  "slow_threshold service = get_or 1000 (js_get slow_thresholds service)"

record service_check =
  sc_name :: string
  sc_result :: check_result
  sc_failures :: nat

record monitor_snapshot =
  ms_timestamp :: int
  ms_overall :: health_state
  ms_services :: "service_check list"

record monitor =
  mo_failures :: "(string, nat) jsmap"
  mo_alerting :: alerting
  mo_lastSnapshot :: "monitor_snapshot option"
  mo_running :: bool

definition down_alert :: "string \<Rightarrow> nat \<Rightarrow> string option \<Rightarrow> alert" where
  "down_alert name failures err =
     \<lparr>at_severity = Critical, at_service = name,
      at_message = ''Dependency \"'' @ name @ ''\" is DOWN ('' @ show_nat failures @ '' consecutive failure'' @
        (if failures \<noteq> 1 then ''s'' else '''') @ '')'',
      at_details = err\<rparr>"

definition slow_alert :: "string \<Rightarrow> nat \<Rightarrow> nat \<Rightarrow> alert" where
  "slow_alert name responseTime threshold =
     \<lparr>at_severity = Warning, at_service = name,
      at_message = ''Dependency \"'' @ name @ ''\" is slow: '' @ show_nat responseTime @ ''ms (threshold: '' @
        show_nat threshold @ ''ms)'',
      at_details = None\<rparr>"

text \<open>The callback for one check; it runs up to its first \<open>await\<close> after all its changes.\<close>

definition run_check ::
  "int \<Rightarrow> int \<Rightarrow> string \<times> check_result \<Rightarrow> monitor \<Rightarrow> service_check \<times> monitor" where
  "run_check cooldownMs now chk m =
     (case chk of (name, result) \<Rightarrow>
        let prev = get_or 0 (js_get (mo_failures m) name);
            failures = (if ck_up result then 0 else prev + 1);
            m1 = m\<lparr>mo_failures := js_set name failures (mo_failures m)\<rparr>;
            al = (if \<not> ck_up result
                  then fire cooldownMs now (down_alert name failures (ck_error result)) (mo_alerting m1)
                  else let al1 = resolve now name Critical (mo_alerting m1);
                           threshold = slow_threshold name
                       in case ck_responseTime result of
                            None \<Rightarrow> al1
                          | Some t \<Rightarrow> if threshold < t then fire cooldownMs now (slow_alert name t threshold) al1
                                    else al1)
        in (\<lparr>sc_name = name, sc_result = result, sc_failures = failures\<rparr>, m1\<lparr>mo_alerting := al\<rparr>))"

fun run_each ::
  "int \<Rightarrow> int \<Rightarrow> (string \<times> check_result) list \<Rightarrow> monitor \<Rightarrow> service_check list \<times> monitor" where
  "run_each cooldownMs now [] m = ([], m)"
| "run_each cooldownMs now (c # cs) m =
     (case run_check cooldownMs now c m of (sc, m1) \<Rightarrow>
        (case run_each cooldownMs now cs m1 of (scs, m2) \<Rightarrow> (sc # scs, m2)))"

definition run_checks :: "int \<Rightarrow> int \<Rightarrow> health_report \<Rightarrow> monitor \<Rightarrow> monitor_snapshot \<times> monitor" where
  "run_checks cooldownMs now health m =
     (case run_each cooldownMs now (hr_checks health) m of (services, m1) \<Rightarrow>
        let snapshot = \<lparr>ms_timestamp = hr_timestamp health, ms_overall = hr_status health, ms_services = services\<rparr>
        in (snapshot, m1\<lparr>mo_lastSnapshot := Some snapshot\<rparr>))"

text \<open>\<open>start\<close> polls at once and then keeps a timer; \<open>stop\<close> clears it.\<close>

definition monitor_start :: "int \<Rightarrow> int \<Rightarrow> health_report \<Rightarrow> monitor \<Rightarrow> monitor" where
  "monitor_start cooldownMs now health m =
     (if mo_running m then m else (snd (run_checks cooldownMs now health m))\<lparr>mo_running := True\<rparr>)"

definition monitor_stop :: "monitor \<Rightarrow> monitor" where
  "monitor_stop m = (if mo_running m then m\<lparr>mo_running := False\<rparr> else m)"

definition get_last_snapshot :: "monitor \<Rightarrow> monitor_snapshot option" where
  "get_last_snapshot m = mo_lastSnapshot m"

definition get_status :: "monitor \<Rightarrow> health_state option" where
  "get_status m = map_option ms_overall (mo_lastSnapshot m)"

section \<open>Keys\<close>

lemma severity_name_plain: "CHR '':'' \<notin> set (severity_name v)"
  by (cases v) simp_all

lemma severity_name_inj: "severity_name v = severity_name v' \<longleftrightarrow> v = v'"
  by (cases v; cases v') simp_all

lemma takeWhile_rev_key:
  "takeWhile (\<lambda>c. c \<noteq> CHR '':'') (rev (alert_key s v)) = rev (severity_name v)"
proof -
  have "takeWhile (\<lambda>c. c \<noteq> CHR '':'') (rev (severity_name v) @ CHR '':'' # rev s) =
      rev (severity_name v) @ takeWhile (\<lambda>c. c \<noteq> CHR '':'') (CHR '':'' # rev s)"
    by (rule takeWhile_append2) (use severity_name_plain [of v] in auto)
  then show ?thesis by (simp add: alert_key_def)
qed

lemma alert_key_inj: "alert_key s v = alert_key s' v' \<longleftrightarrow> s = s' \<and> v = v'"
proof
  assume e: "alert_key s v = alert_key s' v'"
  then have "rev (severity_name v) = rev (severity_name v')"
    using takeWhile_rev_key [of s v] takeWhile_rev_key [of s' v'] by simp
  then have "v = v'" by (simp add: severity_name_inj)
  with e show "s = s' \<and> v = v'" by (simp add: alert_key_def)
qed simp

section \<open>Active alerts and cooldowns\<close>

text \<open>
  Without \<open>resetCooldowns\<close>, a key with a cooldown has an active alert; addresses are below the
  counter, and an active alert's record is active and carries the key's service and severity.
\<close>

definition alerting_ok :: "alerting \<Rightarrow> bool" where
  "alerting_ok s \<longleftrightarrow>
     (\<forall>k. js_get (al_cooldowns s) k \<noteq> None \<longrightarrow> js_get (al_active s) k \<noteq> None) \<and>
     (\<forall>n. js_get (al_heap s) n \<noteq> None \<longrightarrow> n \<le> al_counter s) \<and>
     (\<forall>k n. js_get (al_active s) k = Some n \<longrightarrow>
        (\<exists>r. js_get (al_heap s) n = Some r \<and> ar_active r \<and> alert_key (at_service r) (at_severity r) = k))"

lemma alerting_ok_new: "alerting_ok new_alerting"
  by (simp add: alerting_ok_def new_alerting_def)

lemma alerting_ok_fire:
  assumes "alerting_ok s"
  shows "alerting_ok (fire c now a s)"
proof (cases "suppressed c now (alert_key (at_service a) (at_severity a)) s")
  case True
  then show ?thesis using assms by (simp add: fire_def)
next
  case False
  have fresh: "js_get (al_active s) k = Some n \<Longrightarrow> n \<noteq> al_counter s + 1" for k n
    using assms unfolding alerting_ok_def by fastforce
  from False assms show ?thesis
    unfolding alerting_ok_def
    by (auto simp: fire_def Let_def js_simps dest: fresh)
qed

lemma alerting_ok_resolve:
  assumes "alerting_ok s"
  shows "alerting_ok (resolve now service v s)"
proof (cases "js_get (al_active s) (alert_key service v)")
  case None
  then show ?thesis using assms by (simp add: resolve_def)
next
  case (Some n)
  then obtain r where r: "js_get (al_heap s) n = Some r" "alert_key (at_service r) (at_severity r) = alert_key service v"
    using assms unfolding alerting_ok_def by blast
  have other: "m \<noteq> n" if "k \<noteq> alert_key service v" "js_get (al_active s) k = Some m" for k m
    using that r assms unfolding alerting_ok_def by (metis option.inject)
  from Some r assms show ?thesis
    unfolding alerting_ok_def
    by (auto simp: resolve_def Let_def js_simps dest: other)
qed

lemma fire_active:
  "js_get (al_active (fire c now a s)) k =
     (if k = alert_key (at_service a) (at_severity a) \<and> \<not> suppressed c now k s
      then Some (al_counter s + 1) else js_get (al_active s) k)"
  by (auto simp: fire_def Let_def js_simps)

lemma resolve_active:
  "js_get (al_active (resolve now service v s)) k =
     (if k = alert_key service v then None else js_get (al_active s) k)"
  by (simp add: resolve_def Let_def js_simps split: option.split)

lemma fire_heap:
  "n \<noteq> al_counter s + 1 \<Longrightarrow> js_get (al_heap (fire c now a s)) n = js_get (al_heap s) n"
  by (simp add: fire_def Let_def js_simps)

lemma resolve_heap:
  "js_get (al_active s) (alert_key service v) \<noteq> Some n \<Longrightarrow>
     js_get (al_heap (resolve now service v s)) n = js_get (al_heap s) n"
  by (auto simp: resolve_def Let_def js_simps split: option.split)

lemma fire_active_key:
  "alerting_ok s \<Longrightarrow> js_get (al_active (fire c now a s)) (alert_key (at_service a) (at_severity a)) \<noteq> None"
  by (auto simp: fire_active suppressed_def alerting_ok_def split: option.splits)

section \<open>Runs of the alerting service\<close>

datatype alert_call = FireAt alert int | ResolveAt string alert_severity int

text \<open>The instants at which an alert under \<open>key\<close> was recorded.\<close>

fun fired :: "int \<Rightarrow> string \<Rightarrow> alert_call list \<Rightarrow> alerting \<Rightarrow> int list" where
  "fired c key [] s = []"
| "fired c key (FireAt a now # calls) s =
     (if alert_key (at_service a) (at_severity a) = key \<and> \<not> suppressed c now key s
      then now # fired c key calls (fire c now a s) else fired c key calls (fire c now a s))"
| "fired c key (ResolveAt service v now # calls) s = fired c key calls (resolve now service v s)"

fun resolves_key :: "string \<Rightarrow> alert_call \<Rightarrow> bool" where
  "resolves_key key (FireAt a now) = False"
| "resolves_key key (ResolveAt service v now) \<longleftrightarrow> alert_key service v = key"

lemma fire_cooldown:
  "js_get (al_cooldowns (fire c now a s)) key =
     (if key = alert_key (at_service a) (at_severity a) \<and> \<not> suppressed c now key s
      then Some now else js_get (al_cooldowns s) key)"
  by (auto simp: fire_def Let_def js_simps)

lemma resolve_cooldown:
  "alert_key service v \<noteq> key \<Longrightarrow>
     js_get (al_cooldowns (resolve now service v s)) key = js_get (al_cooldowns s) key"
  by (simp add: resolve_def Let_def js_simps split: option.split)

lemma fired_spaced:
  assumes "0 \<le> c"
  shows "list_all (\<lambda>call. \<not> resolves_key key call) calls \<Longrightarrow>
    sorted_wrt (\<lambda>x y. x + c \<le> y) (fired c key calls s) \<and>
    (\<forall>t. js_get (al_cooldowns s) key = Some t \<longrightarrow> (\<forall>x\<in>set (fired c key calls s). t + c \<le> x))"
proof (induction calls arbitrary: s)
  case Nil
  then show ?case by simp
next
  case (Cons call calls)
  show ?case
  proof (cases call)
    case (FireAt a now)
    show ?thesis
    proof (cases "alert_key (at_service a) (at_severity a) = key \<and> \<not> suppressed c now key s")
      case True
      then have f: "fired c key (call # calls) s = now # fired c key calls (fire c now a s)"
        using FireAt by simp
      have g: "js_get (al_cooldowns (fire c now a s)) key = Some now" using True by (simp add: fire_cooldown)
      from Cons.IH [of "fire c now a s"] Cons.prems g
      have s1: "sorted_wrt (\<lambda>x y. x + c \<le> y) (fired c key calls (fire c now a s))"
        and s2: "\<forall>x\<in>set (fired c key calls (fire c now a s)). now + c \<le> x" by simp_all
      have "t + c \<le> now" if "js_get (al_cooldowns s) key = Some t" for t
        using True that by (simp add: suppressed_def)
      then show ?thesis unfolding f using s1 s2 assms by fastforce
    next
      case False
      have g: "js_get (al_cooldowns (fire c now a s)) key = js_get (al_cooldowns s) key"
        using False by (auto simp: fire_cooldown)
      have f: "fired c key (call # calls) s = fired c key calls (fire c now a s)" using False FireAt by simp
      show ?thesis unfolding f using Cons.IH [of "fire c now a s"] Cons.prems g by simp
    qed
  next
    case (ResolveAt service v now)
    then show ?thesis
      using Cons.IH [of "resolve now service v s"] Cons.prems by (simp add: resolve_cooldown)
  qed
qed

section \<open>The monitor\<close>

lemma run_check_alerting:
  assumes "alerting_ok (mo_alerting m)"
  shows "alerting_ok (mo_alerting (snd (run_check c now (name, result) m))) \<and>
    (js_get (al_active (mo_alerting (snd (run_check c now (name, result) m)))) (alert_key name Critical) \<noteq> None
       \<longleftrightarrow> \<not> ck_up result) \<and>
    (other \<noteq> name \<longrightarrow>
       js_get (al_active (mo_alerting (snd (run_check c now (name, result) m)))) (alert_key other Critical) =
       js_get (al_active (mo_alerting m)) (alert_key other Critical))"
proof (cases "ck_up result")
  case False
  let ?a = "down_alert name (Suc (get_or 0 (js_get (mo_failures m) name))) (ck_error result)"
  have k: "alert_key (at_service ?a) (at_severity ?a) = alert_key name Critical" by (simp add: down_alert_def)
  have e: "mo_alerting (snd (run_check c now (name, result) m)) = fire c now ?a (mo_alerting m)"
    using False by (simp add: run_check_def Let_def)
  show ?thesis unfolding e
    using alerting_ok_fire [OF assms, of c now ?a] fire_active_key [OF assms, of c now ?a, unfolded k] False
    by (simp add: fire_active k alert_key_inj)
next
  case True
  let ?r = "resolve now name Critical (mo_alerting m)"
  have r: "alerting_ok ?r" by (rule alerting_ok_resolve [OF assms])
  have "mo_alerting (snd (run_check c now (name, result) m)) = ?r \<or>
      (\<exists>t. mo_alerting (snd (run_check c now (name, result) m)) =
         fire c now (slow_alert name t (slow_threshold name)) ?r)"
    using True by (cases "ck_responseTime result") (auto simp: run_check_def Let_def)
  then show ?thesis
  proof (elim disjE exE)
    assume e: "mo_alerting (snd (run_check c now (name, result) m)) = ?r"
    show ?thesis unfolding e using r True by (simp add: resolve_active alert_key_inj)
  next
    fix t
    assume e: "mo_alerting (snd (run_check c now (name, result) m)) =
      fire c now (slow_alert name t (slow_threshold name)) ?r"
    show ?thesis unfolding e
      using alerting_ok_fire [OF r] True
      by (simp add: fire_active resolve_active alert_key_inj slow_alert_def)
  qed
qed

lemma run_check_failures:
  "js_get (mo_failures (snd (run_check c now (name, result) m))) k =
     (if k = name then Some (if ck_up result then 0 else Suc (get_or 0 (js_get (mo_failures m) name)))
      else js_get (mo_failures m) k)"
  by (simp add: run_check_def Let_def js_simps)

lemma run_each_Cons:
  "snd (run_each c now (chk # chks) m) = snd (run_each c now chks (snd (run_check c now chk m)))"
  by (simp add: case_prod_unfold)

lemma run_each_alerting:
  "alerting_ok (mo_alerting m) \<Longrightarrow>
    alerting_ok (mo_alerting (snd (run_each c now chks m))) \<and>
    (other \<notin> fst ` set chks \<longrightarrow>
       js_get (al_active (mo_alerting (snd (run_each c now chks m)))) (alert_key other Critical) =
       js_get (al_active (mo_alerting m)) (alert_key other Critical))"
proof (induction chks arbitrary: m)
  case Nil
  then show ?case by simp
next
  case (Cons chk chks)
  obtain name result where chk: "chk = (name, result)" by (cases chk)
  show ?case
    using Cons.IH [of "snd (run_check c now chk m)"] run_check_alerting [OF Cons.prems, of c now name result other]
    unfolding run_each_Cons chk by auto
qed

lemma run_each_matches:
  "alerting_ok (mo_alerting m) \<Longrightarrow> distinct (map fst chks) \<Longrightarrow>
    list_all (\<lambda>(name, result).
      js_get (al_active (mo_alerting (snd (run_each c now chks m)))) (alert_key name Critical) \<noteq> None
        \<longleftrightarrow> \<not> ck_up result) chks"
proof (induction chks arbitrary: m)
  case Nil
  then show ?case by simp
next
  case (Cons chk chks)
  obtain name result where chk: "chk = (name, result)" by (cases chk)
  let ?m = "snd (run_check c now chk m)"
  have ok: "alerting_ok (mo_alerting ?m)"
    and act: "js_get (al_active (mo_alerting ?m)) (alert_key name Critical) \<noteq> None \<longleftrightarrow> \<not> ck_up result"
    using run_check_alerting [OF Cons.prems(1), of c now name result name] by (simp_all add: chk)
  have "js_get (al_active (mo_alerting (snd (run_each c now chks ?m)))) (alert_key name Critical) =
      js_get (al_active (mo_alerting ?m)) (alert_key name Critical)"
    using run_each_alerting [OF ok, of c now chks name] Cons.prems(2) by (simp add: chk)
  with act Cons.IH [OF ok] Cons.prems(2) show ?case
    unfolding run_each_Cons by (simp add: chk)
qed

lemma run_each_failures:
  "distinct (map fst chks) \<Longrightarrow>
    js_get (mo_failures (snd (run_each c now chks m))) k =
      (case map_of chks k of
         None \<Rightarrow> js_get (mo_failures m) k
       | Some r \<Rightarrow> Some (if ck_up r then 0 else Suc (get_or 0 (js_get (mo_failures m) k))))"
proof (induction chks arbitrary: m)
  case Nil
  then show ?case by simp
next
  case (Cons chk chks)
  obtain name result where chk: "chk = (name, result)" by (cases chk)
  have n: "map_of chks name = None" using Cons.prems by (simp add: chk map_of_eq_None_iff)
  show ?case
    unfolding run_each_Cons chk using Cons n
    by (auto simp: run_check_failures chk split: option.split)
qed

text \<open>The number of failures at the end of a sequence of results.\<close>

fun trailing_downs :: "check_result list \<Rightarrow> nat" where
  "trailing_downs [] = 0"
| "trailing_downs (r # rs) = (if list_all (\<lambda>x. \<not> ck_up x) (r # rs) then Suc (length rs) else trailing_downs rs)"

lemma trailing_downs_snoc:
  "trailing_downs (rs @ [r]) = (if ck_up r then 0 else Suc (trailing_downs rs))"
  by (induction rs) auto

lemma trailing_all_down: "list_all (\<lambda>x. \<not> ck_up x) rs \<Longrightarrow> trailing_downs rs = length rs"
  by (cases rs) simp_all

fun run_reports :: "int \<Rightarrow> (int \<times> health_report) list \<Rightarrow> monitor \<Rightarrow> monitor" where
  "run_reports c [] m = m"
| "run_reports c ((now, h) # hs) m = run_reports c hs (snd (run_checks c now h m))"

lemma run_reports_append: "run_reports c (xs @ ys) m = run_reports c ys (run_reports c xs m)"
  by (induction c xs m rule: run_reports.induct) simp_all

lemma run_checks_failures:
  "mo_failures (snd (run_checks c now h m)) = mo_failures (snd (run_each c now (hr_checks h) m))"
  "mo_alerting (snd (run_checks c now h m)) = mo_alerting (snd (run_each c now (hr_checks h) m))"
  by (simp_all add: run_checks_def case_prod_unfold Let_def)

definition new_monitor :: monitor where
  "new_monitor = \<lparr>mo_failures = [], mo_alerting = new_alerting, mo_lastSnapshot = None, mo_running = False\<rparr>"

section \<open>Properties\<close>

text \<open>
  Cooldown: whatever is fired and whatever other alerts are resolved, the alerts recorded
  under one service and severity are at least the cooldown apart as long as that one is not
  resolved.
\<close>

theorem alerts_respect_cooldown:
  assumes "0 \<le> c" and "list_all (\<lambda>call. \<not> resolves_key key call) calls"
  shows "sorted_wrt (\<lambda>x y. x + c \<le> y) (fired c key calls s)"
  using fired_spaced [OF assms] by blast

definition sample_alert :: alert where
  "sample_alert = \<lparr>at_severity = Critical, at_service = ''db'', at_message = ''down'', at_details = None\<rparr>"

theorem alerts_respect_cooldown_witness:
  "sorted_wrt (\<lambda>x y. x + 300000 \<le> y)
     (fired 300000 ''db:critical''
       [FireAt sample_alert 0, FireAt sample_alert 5, ResolveAt ''redis'' Critical 6, FireAt sample_alert 300000]
       new_alerting)"
  by (rule alerts_respect_cooldown) (simp_all add: alert_key_def)

text \<open>
  The monitor and the alerts agree: after a round of checks, a critical alert is active for
  exactly the checked services that are down, whatever was active before and whatever the
  cooldowns suppressed.
\<close>

theorem monitor_alerts_match_health:
  assumes "alerting_ok (mo_alerting m)" and "distinct (map fst (hr_checks health))"
  shows "list_all (\<lambda>(name, result).
      js_get (al_active (mo_alerting (snd (run_checks c now health m)))) (alert_key name Critical) \<noteq> None
        \<longleftrightarrow> \<not> ck_up result) (hr_checks health)"
  using run_each_matches [OF assms, of c now] by (simp add: run_checks_failures)

definition db_down :: health_report where
  "db_down = get_health_status 0 (check_dependency (Some ''refused'') 3) (check_dependency None 2)
     (check_dependency None 3000)"

lemma db_down_names: "distinct (map fst (hr_checks db_down))"
  by (simp add: db_down_def get_health_status_def)

theorem monitor_alerts_match_health_witness:
  "list_all (\<lambda>(name, result).
      js_get (al_active (mo_alerting (snd (run_checks 300000 0 db_down new_monitor)))) (alert_key name Critical) \<noteq> None
        \<longleftrightarrow> \<not> ck_up result) (hr_checks db_down)"
  by (rule monitor_alerts_match_health [OF _ db_down_names]) (simp add: new_monitor_def alerting_ok_new)

text \<open>
  Consecutive failures: over any sequence of reports that all cover a service, the monitor's
  count for it is the number of failed checks since its last successful one.
\<close>

theorem consecutive_failures_counted:
  assumes "hs \<noteq> []"
    and "list_all (\<lambda>(now, h). distinct (map fst (hr_checks h)) \<and> map_of (hr_checks h) name \<noteq> None) hs"
  shows "js_get (mo_failures (run_reports c hs new_monitor)) name =
    Some (trailing_downs (map (\<lambda>(now, h). the (map_of (hr_checks h) name)) hs))"
  using assms
proof (induction hs rule: rev_induct)
  case Nil
  then show ?case by simp
next
  case (snoc x hs)
  obtain now h where x: "x = (now, h)" by (cases x)
  from snoc.prems(2) obtain r where r: "map_of (hr_checks h) name = Some r" and d: "distinct (map fst (hr_checks h))"
    by (auto simp: x)
  have prev: "get_or 0 (js_get (mo_failures (run_reports c hs new_monitor)) name) =
      trailing_downs (map (\<lambda>(now, h). the (map_of (hr_checks h) name)) hs)"
    using snoc by (cases "hs = []") (simp_all add: new_monitor_def)
  show ?case
    by (simp add: x run_reports_append run_checks_failures run_each_failures [OF d] r prev trailing_downs_snoc)
qed

theorem consecutive_failures_counted_witness:
  "js_get (mo_failures (run_reports 300000 [(0, db_down), (30000, db_down)] new_monitor)) ''database'' = Some 2"
proof -
  have m: "map_of (hr_checks db_down) ''database'' = Some (check_dependency (Some ''refused'') 3)"
    by (simp add: db_down_def get_health_status_def)
  show ?thesis
    using consecutive_failures_counted [of "[(0, db_down), (30000, db_down)]" "''database''" 300000]
    by (simp add: db_down_names m check_dependency_def)
qed

text \<open>
  The overall status is never \<open>degraded\<close>: it is healthy when the three probed dependencies
  are up and unhealthy otherwise.
\<close>

theorem health_never_degraded:
  "hr_status (get_health_status now database redis stellar) =
     (if ck_up database \<and> ck_up redis \<and> ck_up stellar then Healthy else Unhealthy)"
  by (simp add: get_health_status_def)

text \<open>
  An alert that a later one supersedes is never closed: when a service's alert fires again
  after the cooldown and is then resolved, no alert is active under the key, yet the first
  record still says it is active.
\<close>

theorem superseded_alert_stays_active:
  assumes "alerting_ok s" and "js_get (al_active s) key = Some n"
    and "key = alert_key (at_service a) (at_severity a)" and "\<not> suppressed c t1 key s"
  shows "js_get (al_active (resolve t2 (at_service a) (at_severity a) (fire c t1 a s))) key = None \<and>
    (\<exists>r. js_get (al_heap (resolve t2 (at_service a) (at_severity a) (fire c t1 a s))) n = Some r \<and> ar_active r)"
proof -
  obtain r where r: "js_get (al_heap s) n = Some r" "ar_active r"
    using assms(1,2) unfolding alerting_ok_def by blast
  then have "n \<noteq> al_counter s + 1" using assms(1) unfolding alerting_ok_def by fastforce
  moreover have "js_get (al_active (fire c t1 a s)) key = Some (al_counter s + 1)"
    using assms(3,4) by (simp add: fire_active)
  ultimately have "js_get (al_heap (resolve t2 (at_service a) (at_severity a) (fire c t1 a s))) n = Some r"
    using r assms(3) by (simp add: resolve_heap fire_heap)
  with r assms(3) show ?thesis by (simp add: resolve_active)
qed

theorem superseded_alert_stays_active_witness:
  "\<exists>r. js_get (al_heap (resolve 400000 ''db'' Critical
        (fire 300000 300000 sample_alert (fire 300000 0 sample_alert new_alerting)))) 1 = Some r \<and> ar_active r"
proof -
  let ?s = "fire 300000 0 sample_alert new_alerting"
  have at: "at_service sample_alert = ''db''" "at_severity sample_alert = Critical"
    by (simp_all add: sample_alert_def)
  have k: "''db:critical'' = alert_key (at_service sample_alert) (at_severity sample_alert)"
    by (simp add: at alert_key_def)
  have ok: "alerting_ok ?s" by (rule alerting_ok_fire [OF alerting_ok_new])
  have act: "js_get (al_active ?s) ''db:critical'' = Some 1"
    by (simp add: fire_active at alert_key_def suppressed_def new_alerting_def)
  have ns: "\<not> suppressed 300000 300000 ''db:critical'' ?s"
    by (simp add: suppressed_def fire_cooldown at alert_key_def new_alerting_def)
  show ?thesis
    using superseded_alert_stays_active [OF ok act k ns, of 400000] unfolding at by (rule conjunct2)
qed

text \<open>
  The alert log keeps the latest 500 alerts, in order, however many were sent.
\<close>

theorem alert_log_keeps_latest:
  "fold (\<lambda>a alerts. snd (send_alert a alerts)) sent [] = drop (length sent - 500) sent"
  using alert_log.pushes_suffix [of sent] by (simp add: send_alert_def max_alerts_def)

end
