(* ===== verification/MultiSig.thy ===== *)
theory MultiSig
  imports JsPrelude
begin

text \<open>
  Multi-signature proposals, \<open>MultiSigService\<close> of \<open>backend/src/services/multiSigService.ts\<close>: an
  in-memory \<open>Map\<close> of proposals that collect signatures until a threshold. The object's state
  is the map; a proposal's id, made of the time and a random string, is a parameter of
  \<open>create_proposal\<close>. \<open>ms_step\<close> is one call of the service and \<open>ms_reachable\<close> the states any
  sequence of calls can lead to.
\<close>

section \<open>State\<close>

record signer =
  sn_address :: string
  sn_signed :: bool
  sn_timestamp :: "int option"

datatype proposal_status = Pending | InProgress | Complete | Expired

record proposal =
  pr_id :: string
  pr_groupId :: string
  pr_threshold :: int
  pr_signers :: "signer list"
  pr_expiresAt :: int
  pr_status :: proposal_status
  pr_createdAt :: int

type_synonym proposals = "(string, proposal) jsmap"

record multisig_config =
  mc_groupId :: string
  mc_threshold :: int
  mc_signers :: "string list"

datatype multisig_error =
  ThresholdTooHigh
| ThresholdTooLow
| ProposalNotFound
| ProposalExpired
| SignerNotAuthorized
| AlreadySigned
| NotReady
| CannotSubmit

section \<open>Operations\<close>

definition create_multisig_config :: "string \<Rightarrow> int \<Rightarrow> string list \<Rightarrow> multisig_error + multisig_config" where
  "create_multisig_config groupId threshold signers =
     (if int (length signers) < threshold then Inl ThresholdTooHigh
      else if threshold < 1 then Inl ThresholdTooLow
      else Inr \<lparr>mc_groupId = groupId, mc_threshold = threshold, mc_signers = signers\<rparr>)"

definition get_multisig_config :: "string \<Rightarrow> multisig_config option" where
  "get_multisig_config groupId = None"

definition create_proposal ::
  "int \<Rightarrow> string \<Rightarrow> string \<Rightarrow> string list \<Rightarrow> int \<Rightarrow> int \<Rightarrow> proposals \<Rightarrow> proposal \<times> proposals" where
  "create_proposal now pid groupId signers threshold expiryMinutes ps =
     (let p = \<lparr>pr_id = pid, pr_groupId = groupId, pr_threshold = threshold,
               pr_signers = map (\<lambda>addr. \<lparr>sn_address = addr, sn_signed = False, sn_timestamp = None\<rparr>) signers,
               pr_expiresAt = now + expiryMinutes * 60 * 1000, pr_status = Pending, pr_createdAt = now\<rparr>
      in (p, js_set pid p ps))"

text \<open>The signer that \<open>find\<close> returns, the first with the address, marked as signed.\<close>

fun mark_signed :: "int \<Rightarrow> string \<Rightarrow> signer list \<Rightarrow> signer list" where
  "mark_signed now addr [] = []"
| "mark_signed now addr (s # ss) =
     (if sn_address s = addr then s\<lparr>sn_signed := True, sn_timestamp := Some now\<rparr> # ss
      else s # mark_signed now addr ss)"

definition signed_count :: "signer list \<Rightarrow> int" where
  "signed_count ss = int (length (filter sn_signed ss))"

definition sign_proposal ::
  "int \<Rightarrow> string \<Rightarrow> string \<Rightarrow> (proposals, multisig_error, proposal) js_method" where
  "sign_proposal now pid addr ps =
     (case js_get ps pid of
        None \<Rightarrow> (Inl ProposalNotFound, ps)
      | Some p \<Rightarrow>
          if pr_expiresAt p < now then (Inl ProposalExpired, js_set pid (p\<lparr>pr_status := Expired\<rparr>) ps)
          else case find (\<lambda>s. sn_address s = addr) (pr_signers p) of
                 None \<Rightarrow> (Inl SignerNotAuthorized, ps)
               | Some s \<Rightarrow>
                   if sn_signed s then (Inl AlreadySigned, ps)
                   else let ss = mark_signed now addr (pr_signers p);
                            p' = p\<lparr>pr_signers := ss,
                                   pr_status := (if pr_threshold p \<le> signed_count ss then Complete else InProgress)\<rparr>
                        in (Inr p', js_set pid p' ps))"

definition get_proposal :: "string \<Rightarrow> proposals \<Rightarrow> proposal option" where
  "get_proposal pid ps = js_get ps pid"

definition execute_proposal :: "string \<Rightarrow> proposals \<Rightarrow> multisig_error + bool" where
  "execute_proposal pid ps =
     (case js_get ps pid of
        None \<Rightarrow> Inl ProposalNotFound
      | Some p \<Rightarrow> if pr_status p \<noteq> Complete then Inl NotReady else Inr True)"

definition get_group_proposals :: "string \<Rightarrow> proposals \<Rightarrow> proposal list" where
  "get_group_proposals groupId ps = filter (\<lambda>p. pr_groupId p = groupId) (map snd ps)"

definition verify_signature :: "string \<Rightarrow> string \<Rightarrow> proposals \<Rightarrow> bool" where
  "verify_signature pid addr ps =
     (case js_get ps pid of
        None \<Rightarrow> False
      | Some p \<Rightarrow> list_ex (\<lambda>s. sn_address s = addr \<and> sn_signed s) (pr_signers p))"

definition submit_transaction :: "int \<Rightarrow> string \<Rightarrow> string \<Rightarrow> proposals \<Rightarrow> multisig_error + string" where
  "submit_transaction now pid xdr ps =
     (case js_get ps pid of
        None \<Rightarrow> Inl CannotSubmit
      | Some p \<Rightarrow> if pr_status p \<noteq> Complete then Inl CannotSubmit else Inr (''tx_'' @ show_nat (nat now)))"

definition overdue :: "int \<Rightarrow> proposal \<Rightarrow> bool" where
  "overdue now p \<longleftrightarrow> pr_expiresAt p < now \<and> pr_status p \<noteq> Expired"

definition expire_old_proposals :: "int \<Rightarrow> proposals \<Rightarrow> nat \<times> proposals" where
  "expire_old_proposals now ps =
     (length (filter (\<lambda>(pid, p). overdue now p) ps),
      map (\<lambda>(pid, p). (pid, if overdue now p then p\<lparr>pr_status := Expired\<rparr> else p)) ps)"

section \<open>Calls\<close>

inductive ms_step :: "proposals \<Rightarrow> proposals \<Rightarrow> bool" where
  create: "ms_step ps (snd (create_proposal now pid groupId signers threshold expiryMinutes ps))"
| sign: "ms_step ps (snd (sign_proposal now pid addr ps))"
| expire: "ms_step ps (snd (expire_old_proposals now ps))"

inductive_cases ms_stepE: "ms_step ps ps'"

inductive ms_reachable :: "proposals \<Rightarrow> bool" where
  empty: "ms_reachable []"
| call: "ms_reachable ps \<Longrightarrow> ms_step ps ps' \<Longrightarrow> ms_reachable ps'"

section \<open>The invariant\<close>

text \<open>
  Only the first entry of an address can be signed, so the signed entries have distinct
  addresses; a complete proposal has as many of them as its threshold.
\<close>

definition signed_addresses :: "proposal \<Rightarrow> string set" where
  "signed_addresses p = sn_address ` set (filter sn_signed (pr_signers p))"

fun firsts_only :: "signer list \<Rightarrow> bool" where
  "firsts_only [] \<longleftrightarrow> True"
| "firsts_only (s # ss) \<longleftrightarrow> list_all (\<lambda>x. sn_address x = sn_address s \<longrightarrow> \<not> sn_signed x) ss \<and> firsts_only ss"

definition proposal_ok :: "proposal \<Rightarrow> bool" where
  "proposal_ok p \<longleftrightarrow>
     firsts_only (pr_signers p) \<and>
     (pr_status p = Complete \<longrightarrow> pr_threshold p \<le> signed_count (pr_signers p))"

lemma firsts_distinct: "firsts_only ss \<Longrightarrow> distinct (map sn_address (filter sn_signed ss))"
  by (induction ss) (auto simp: list_all_iff)

lemma signed_count_card: "firsts_only ss \<Longrightarrow> signed_count ss = int (card (sn_address ` set (filter sn_signed ss)))"
  using firsts_distinct [of ss] distinct_card [of "map sn_address (filter sn_signed ss)"]
  by (simp add: signed_count_def)

lemma mark_signed_other:
  "list_all (\<lambda>x. sn_address x = b \<longrightarrow> \<not> sn_signed x) ss \<Longrightarrow> b \<noteq> addr \<Longrightarrow>
     list_all (\<lambda>x. sn_address x = b \<longrightarrow> \<not> sn_signed x) (mark_signed now addr ss)"
  by (induction ss) auto

lemma firsts_mark: "firsts_only ss \<Longrightarrow> firsts_only (mark_signed now addr ss)"
  by (induction ss) (auto simp: mark_signed_other)

lemma mark_signed_addresses: "map sn_address (mark_signed now addr ss) = map sn_address ss"
  by (induction ss) auto

lemma firsts_fresh: "firsts_only (map (\<lambda>addr. \<lparr>sn_address = addr, sn_signed = False, sn_timestamp = None\<rparr>) signers)"
  by (induction signers) (auto simp: list_all_iff)

lemma sign_ok: "js_all proposal_ok ps \<Longrightarrow> js_all proposal_ok (snd (sign_proposal now pid addr ps))"
  by (auto simp: sign_proposal_def Let_def proposal_ok_def firsts_mark intro!: js_all_set
      dest: js_all_get split: option.split)

lemma create_ok:
  "js_all proposal_ok ps \<Longrightarrow>
     js_all proposal_ok (snd (create_proposal now pid groupId signers threshold expiryMinutes ps))"
  by (simp add: create_proposal_def Let_def js_all_set proposal_ok_def firsts_fresh)

lemma expire_ok: "js_all proposal_ok ps \<Longrightarrow> js_all proposal_ok (snd (expire_old_proposals now ps))"
  by (induction ps) (auto simp: expire_old_proposals_def proposal_ok_def)

lemma reachable_ok: "ms_reachable ps \<Longrightarrow> js_all proposal_ok ps"
proof (induction rule: ms_reachable.induct)
  case (call ps ps')
  then show ?case by (auto elim!: ms_stepE intro: create_ok sign_ok expire_ok)
qed simp

section \<open>Properties\<close>

text \<open>
  C2. Execution needs the threshold: in every state the service can reach, a proposal that
  executes, or whose transaction is submitted, carries the signatures of at least
  \<open>threshold\<close> different addresses, all of them among its signers.
\<close>

theorem multisig_threshold_enforced:
  assumes "ms_reachable ps" and "js_get ps pid = Some p"
    and "execute_proposal pid ps = Inr True \<or> submit_transaction now pid xdr ps = Inr tx"
  shows "pr_threshold p \<le> int (card (signed_addresses p)) \<and>
    signed_addresses p \<subseteq> sn_address ` set (pr_signers p)"
proof -
  have "pr_status p = Complete"
    using assms(2,3) by (auto simp: execute_proposal_def submit_transaction_def split: if_splits)
  moreover have "proposal_ok p" using reachable_ok [OF assms(1)] assms(2) by (rule js_all_get)
  ultimately have "pr_threshold p \<le> signed_count (pr_signers p)" and "firsts_only (pr_signers p)"
    by (simp_all add: proposal_ok_def)
  then show ?thesis by (auto simp: signed_count_card signed_addresses_def)
qed

definition sample_proposals :: proposals where
  "sample_proposals = snd (sign_proposal 5 ''p'' ''A'' (snd (create_proposal 0 ''p'' ''g'' [''A'', ''B''] 1 60 [])))"

lemma sample_reachable: "ms_reachable sample_proposals"
  unfolding sample_proposals_def
  by (rule ms_reachable.call [OF ms_reachable.call [OF ms_reachable.empty ms_step.create] ms_step.sign])

definition sample_proposal :: proposal where
  "sample_proposal = \<lparr>pr_id = ''p'', pr_groupId = ''g'', pr_threshold = 1,
     pr_signers = [\<lparr>sn_address = ''A'', sn_signed = True, sn_timestamp = Some 5\<rparr>,
                   \<lparr>sn_address = ''B'', sn_signed = False, sn_timestamp = None\<rparr>],
     pr_expiresAt = 3600000, pr_status = Complete, pr_createdAt = 0\<rparr>"

lemma sample_proposals_eq: "sample_proposals = [(''p'', sample_proposal)]"
  by (simp add: sample_proposals_def create_proposal_def sign_proposal_def signed_count_def sample_proposal_def Let_def)

theorem multisig_threshold_enforced_witness:
  "pr_threshold sample_proposal \<le> int (card (signed_addresses sample_proposal)) \<and>
   signed_addresses sample_proposal \<subseteq> sn_address ` set (pr_signers sample_proposal)"
  by (rule multisig_threshold_enforced [OF sample_reachable, where pid = "''p''"])
    (simp_all add: sample_proposals_eq execute_proposal_def sample_proposal_def)

definition sign_all :: "(int \<times> string) list \<Rightarrow> string \<Rightarrow> proposals \<Rightarrow> proposals" where
  "sign_all sigs pid ps = fold (\<lambda>(now, addr) ps. snd (sign_proposal now pid addr ps)) sigs ps"

lemma sign_keeps_terms:
  assumes "js_get ps pid = Some p" and "proposal_ok p"
  shows "\<exists>p'. js_get (snd (sign_proposal now pid addr ps)) pid = Some p' \<and> proposal_ok p' \<and>
    pr_threshold p' = pr_threshold p \<and> map sn_address (pr_signers p') = map sn_address (pr_signers p)"
  using assms
  by (auto simp: sign_proposal_def Let_def js_simps proposal_ok_def firsts_mark mark_signed_addresses split: option.split)

lemma sign_all_keeps_terms:
  "js_get ps pid = Some p \<Longrightarrow> proposal_ok p \<Longrightarrow>
    \<exists>p'. js_get (sign_all sigs pid ps) pid = Some p' \<and> proposal_ok p' \<and>
      pr_threshold p' = pr_threshold p \<and> map sn_address (pr_signers p') = map sn_address (pr_signers p)"
proof (induction sigs arbitrary: ps p)
  case Nil
  then show ?case by (simp add: sign_all_def)
next
  case (Cons sig sigs)
  obtain now addr where sig: "sig = (now, addr)" by (cases sig)
  from sign_keeps_terms [OF Cons.prems, of now addr] obtain q
    where q: "js_get (snd (sign_proposal now pid addr ps)) pid = Some q" "proposal_ok q"
      "pr_threshold q = pr_threshold p" "map sn_address (pr_signers q) = map sn_address (pr_signers p)" by blast
  from Cons.IH [OF q(1,2)] q(3,4) show ?case by (simp add: sign_all_def sig)
qed

text \<open>
  Repeated signer addresses can never be used: only the first entry of an address can be
  signed, so from a fresh proposal whose threshold exceeds the number of different signers no
  sequence of signatures makes it complete, although the configuration check, which compares
  the threshold with the length of the list, accepts it.
\<close>

theorem duplicate_signers_never_complete:
  assumes "int (card (set signers)) < threshold"
  shows "\<exists>p. js_get (sign_all sigs pid (snd (create_proposal now pid groupId signers threshold expiryMinutes ps))) pid = Some p
    \<and> pr_status p \<noteq> Complete"
proof -
  let ?ps = "snd (create_proposal now pid groupId signers threshold expiryMinutes ps)"
  obtain p0 where p0: "js_get ?ps pid = Some p0" "proposal_ok p0" "pr_threshold p0 = threshold"
    "map sn_address (pr_signers p0) = signers"
    by (simp add: create_proposal_def Let_def js_simps proposal_ok_def firsts_fresh comp_def)
  from sign_all_keeps_terms [OF p0(1,2), of sigs] p0(3,4) obtain p where p: "js_get (sign_all sigs pid ?ps) pid = Some p"
    and ok: "proposal_ok p" and t: "pr_threshold p = threshold" and a: "map sn_address (pr_signers p) = signers"
    by auto
  have "sn_address ` set (filter sn_signed (pr_signers p)) \<subseteq> set signers" using a by auto
  then have "card (sn_address ` set (filter sn_signed (pr_signers p))) \<le> card (set signers)"
    by (rule card_mono [rotated]) simp
  then have "signed_count (pr_signers p) < threshold"
    using ok assms by (simp add: proposal_ok_def signed_count_card)
  then have "pr_status p \<noteq> Complete" using ok t by (auto simp: proposal_ok_def)
  with p show ?thesis by blast
qed

theorem duplicate_signers_never_complete_witness:
  "create_multisig_config ''g'' 2 [''A'', ''A''] = Inr \<lparr>mc_groupId = ''g'', mc_threshold = 2, mc_signers = [''A'', ''A'']\<rparr> \<and>
   (\<exists>p. js_get (sign_all [(1, ''A''), (2, ''A'')] ''p''
           (snd (create_proposal 0 ''p'' ''g'' [''A'', ''A''] 2 60 []))) ''p'' = Some p \<and> pr_status p \<noteq> Complete)"
  by (rule conjI, simp add: create_multisig_config_def, rule duplicate_signers_never_complete) simp

text \<open>
  Expiry: \<open>expireOldProposals\<close> marks exactly the proposals past their deadline that were not
  yet expired, reports their number, changes nothing else, and a signature after the deadline
  is refused.
\<close>

theorem expire_old_exact:
  assumes "js_wf ps"
  shows "js_get (snd (expire_old_proposals now ps)) pid =
      map_option (\<lambda>p. if overdue now p then p\<lparr>pr_status := Expired\<rparr> else p) (js_get ps pid) \<and>
    fst (expire_old_proposals now ps) = length (filter (\<lambda>(pid, p). overdue now p) ps) \<and>
    list_all (\<lambda>(pid, p). now \<le> pr_expiresAt p \<or>
        fst (sign_proposal now pid addr ps) = Inl ProposalExpired) ps"
proof -
  have "now \<le> pr_expiresAt p \<or> fst (sign_proposal now q addr ps) = Inl ProposalExpired" if "(q, p) \<in> set ps" for q p
    using js_in_get [OF assms that] by (simp add: sign_proposal_def)
  then show ?thesis
    by (auto simp: expire_old_proposals_def js_get_map_values list_all_iff)
qed

theorem expire_old_exact_witness:
  "js_get (snd (expire_old_proposals 3600001 sample_proposals)) ''p'' =
     Some (sample_proposal\<lparr>pr_status := Expired\<rparr>)"
  using expire_old_exact [of sample_proposals 3600001 "''p''" "''A''"]
  by (simp add: sample_proposals_eq js_wf_def overdue_def sample_proposal_def)

end
