(* ===== verification/Saga.thy ===== *)
theory Saga
  imports JsPrelude
begin

text \<open>
  Sagas: \<open>SagaOrchestrator\<close> of \<open>backend/src/utils/sagaOrchestrator.ts\<close>, which runs the steps of
  a long transaction and, when one fails, the compensations of the completed ones in reverse,
  with the two sagas built on it, \<open>sagas/payoutSaga.ts\<close> and
  \<open>sagas/groupCreationSaga.ts\<close>.

  A step is a pair of methods on the outside world \<open>'w\<close>. For the two concrete sagas that world
  is the database, whose client is not part of the repository: its calls are the fields of
  \<open>payout_db\<close> and \<open>group_db\<close>. One saga is run without others interleaved.
\<close>

section \<open>State\<close>

record ('w, 'e) saga_step =
  st_name :: string
  st_action :: "('w, 'e, unit) js_method"
  st_compensation :: "('w, 'e, unit) js_method"

datatype saga_status = SagaPending | SagaInProgress | SagaCompleted | SagaFailed | SagaCompensating

datatype step_status = StepPending | StepCompleted | StepFailed

record saga_state =
  sg_id :: string
  sg_name :: string
  sg_status :: saga_status
  sg_steps :: "(string \<times> step_status) list"
  sg_createdAt :: int
  sg_updatedAt :: int

type_synonym sagas = "(string, saga_state) jsmap"

section \<open>Execution\<close>

definition mark_step :: "nat \<Rightarrow> step_status \<Rightarrow> saga_state \<Rightarrow> saga_state" where
  "mark_step i v sg = sg\<lparr>sg_steps := (sg_steps sg)[i := (fst (sg_steps sg ! i), v)]\<rparr>"

text \<open>
  The loop over the steps from index \<open>i\<close>: the error of the failed step if there is one, the
  completed steps in order, the saga's record and the world.
\<close>

fun run_actions ::
  "('w, 'e) saga_step list \<Rightarrow> nat \<Rightarrow> ('w, 'e) saga_step list \<Rightarrow> saga_state \<Rightarrow> 'w \<Rightarrow>
   'e option \<times> ('w, 'e) saga_step list \<times> saga_state \<times> 'w" where
  "run_actions [] i completed sg w = (None, completed, sg, w)"
| "run_actions (step # steps) i completed sg w =
     (case st_action step w of
        (Inr _, w1) \<Rightarrow>
          run_actions steps (i + 1) (completed @ [step]) (mark_step i StepCompleted (mark_step i StepPending sg)) w1
      | (Inl e, w1) \<Rightarrow> (Some e, completed, mark_step i StepFailed (mark_step i StepPending sg), w1))"

text \<open>The compensations, last completed step first; their own errors are only logged.\<close>

fun compensate :: "('w, 'e) saga_step list \<Rightarrow> 'w \<Rightarrow> string list \<times> 'w" where
  "compensate [] w = ([], w)"
| "compensate (step # steps) w =
     (case st_compensation step w of
        (Inr _, w1) \<Rightarrow> compensate steps w1
      | (Inl e, w1) \<Rightarrow> (case compensate steps w1 of (logged, w2) \<Rightarrow> (st_name step # logged, w2)))"

definition initial_saga :: "int \<Rightarrow> string \<Rightarrow> string \<Rightarrow> ('w, 'e) saga_step list \<Rightarrow> saga_state" where
  "initial_saga now sagaId sagaName steps =
     \<lparr>sg_id = sagaId, sg_name = sagaName, sg_status = SagaInProgress,
      sg_steps = map (\<lambda>s. (st_name s, StepPending)) steps, sg_createdAt = now, sg_updatedAt = now\<rparr>"

text \<open>\<open>clock\<close> reads \<open>new Date()\<close> off the world, before and after the run.\<close>

definition execute_saga ::
  "('w \<Rightarrow> int) \<Rightarrow> string \<Rightarrow> string \<Rightarrow> ('w, 'e) saga_step list \<Rightarrow> sagas \<Rightarrow> 'w \<Rightarrow>
   ('e + unit) \<times> sagas \<times> 'w" where
  "execute_saga clock sagaId sagaName steps sagas w =
     (case run_actions steps 0 [] (initial_saga (clock w) sagaId sagaName steps) w of
        (None, completed, sg, w1) \<Rightarrow>
          (Inr (), js_set sagaId (sg\<lparr>sg_status := SagaCompleted, sg_updatedAt := clock w1\<rparr>) sagas, w1)
      | (Some e, completed, sg, w1) \<Rightarrow>
          (case compensate (rev completed) w1 of (logged, w2) \<Rightarrow>
             (Inl e, js_set sagaId (sg\<lparr>sg_status := SagaFailed, sg_updatedAt := clock w2\<rparr>) sagas, w2)))"

definition get_saga_state :: "string \<Rightarrow> sagas \<Rightarrow> saga_state option" where
  "get_saga_state sagaId sagas = js_get sagas sagaId"

definition cleanup_completed_sagas :: "int \<Rightarrow> int \<Rightarrow> sagas \<Rightarrow> sagas" where
  "cleanup_completed_sagas now maxAge sagas =
     filter (\<lambda>(i, state).
       \<not> ((sg_status state = SagaCompleted \<or> sg_status state = SagaFailed) \<and> maxAge < now - sg_updatedAt state)) sagas"

section \<open>The payout saga\<close>

record payout_payload =
  pp_groupId :: string
  pp_recipientId :: string
  pp_amount :: rat
  pp_blockchainTxId :: "string option"

record transaction_data =
  td_groupId :: string
  td_type :: string
  td_amount :: rat
  td_recipientId :: string
  td_status :: string
  td_blockchainTxId :: "string option"

text \<open>
  \<open>group.findUnique\<close> (the balance of the group, when the row has that column), \<open>group.update\<close> with an increment, and
  \<open>transaction.create\<close>. The schema of the repository has neither the column nor the table: there the balance is
  undefined, and the other two calls throw.
\<close>

record ('d, 'e) payout_db =
  pd_find_balance :: "string \<Rightarrow> ('d, 'e, rat option option) js_method"
  pd_increment :: "string \<Rightarrow> rat \<Rightarrow> ('d, 'e, unit) js_method"
  pd_create_transaction :: "transaction_data \<Rightarrow> ('d, 'e, unit) js_method"

datatype 'e payout_error = GroupNotFound | InsufficientBalance | Database 'e

definition db_call :: "('d, 'e, 'r) js_method \<Rightarrow> ('d, 'e payout_error, 'r) js_method" where
  "db_call m d = (case m d of (Inl e, d1) \<Rightarrow> (Inl (Database e), d1) | (Inr r, d1) \<Rightarrow> (Inr r, d1))"

text \<open>\<open>undefined < amount\<close> is false.\<close>

definition validate_payout :: "('d, 'e) payout_db \<Rightarrow> payout_payload \<Rightarrow> ('d, 'e payout_error, unit) js_method" where
  "validate_payout db p =
     js_then (db_call (pd_find_balance db (pp_groupId p))) (\<lambda>group.
       case group of
         None \<Rightarrow> js_throw GroupNotFound
       | Some None \<Rightarrow> js_return ()
       | Some (Some balance) \<Rightarrow> if balance < pp_amount p then js_throw InsufficientBalance else js_return ())"

definition payout_steps :: "('d, 'e) payout_db \<Rightarrow> payout_payload \<Rightarrow> ('d, 'e payout_error) saga_step list" where
  "payout_steps db p =
     [\<lparr>st_name = ''validate-payout'', st_action = validate_payout db p, st_compensation = js_return ()\<rparr>,
      \<lparr>st_name = ''deduct-balance'',
       st_action = db_call (pd_increment db (pp_groupId p) (- pp_amount p)),
       st_compensation = db_call (pd_increment db (pp_groupId p) (pp_amount p))\<rparr>,
      \<lparr>st_name = ''process-blockchain-transfer'', st_action = js_return (), st_compensation = js_return ()\<rparr>,
      \<lparr>st_name = ''record-payout'',
       st_action = db_call (pd_create_transaction db
         \<lparr>td_groupId = pp_groupId p, td_type = ''payout'', td_amount = pp_amount p,
          td_recipientId = pp_recipientId p, td_status = ''completed'',
          td_blockchainTxId = pp_blockchainTxId p\<rparr>),
       st_compensation = js_return ()\<rparr>]"

definition execute_payout_saga ::
  "('d \<Rightarrow> int) \<Rightarrow> ('d, 'e) payout_db \<Rightarrow> string \<Rightarrow> payout_payload \<Rightarrow> sagas \<Rightarrow> 'd \<Rightarrow>
   ('e payout_error + string) \<times> sagas \<times> 'd" where
  "execute_payout_saga clock db sagaId p sagas d =
     (case execute_saga clock sagaId ''payout'' (payout_steps db p) sagas d of
        (Inl e, r) \<Rightarrow> (Inl e, r) | (Inr _, r) \<Rightarrow> (Inr sagaId, r))"

section \<open>The group creation saga\<close>

record creation_payload =
  gc_name :: string
  gc_description :: string
  gc_creatorId :: string
  gc_members :: "string list"
  gc_contributionAmount :: rat

record group_data =
  gd_name :: string
  gd_description :: string
  gd_creatorId :: string
  gd_status :: string

record member_data =
  md_groupId :: string
  md_userId :: string
  md_role :: string
  md_joinedAt :: int

record ('d, 'e) group_db =
  gb_create_group :: "group_data \<Rightarrow> ('d, 'e, string) js_method"
  gb_create_members :: "member_data list \<Rightarrow> ('d, 'e, unit) js_method"

text \<open>The group's id is returned by the action and dropped; the members get the empty id.\<close>

definition creation_steps ::
  "('d \<Rightarrow> int) \<Rightarrow> ('d, 'e) group_db \<Rightarrow> creation_payload \<Rightarrow> ('d, 'e) saga_step list" where
  "creation_steps clock db p =
     [\<lparr>st_name = ''create-group'',
       st_action = js_then (gb_create_group db
         \<lparr>gd_name = gc_name p, gd_description = gc_description p, gd_creatorId = gc_creatorId p,
          gd_status = ''active''\<rparr>) (\<lambda>groupId. js_return ()),
       st_compensation = js_return ()\<rparr>,
      \<lparr>st_name = ''add-members'',
       st_action = (\<lambda>d. gb_create_members db
         (map (\<lambda>memberId. \<lparr>md_groupId = [], md_userId = memberId, md_role = ''member'', md_joinedAt = clock d\<rparr>)
           (gc_members p)) d),
       st_compensation = js_return ()\<rparr>,
      \<lparr>st_name = ''initialize-contributions'', st_action = js_return (), st_compensation = js_return ()\<rparr>]"

definition execute_group_creation_saga ::
  "('d \<Rightarrow> int) \<Rightarrow> ('d, 'e) group_db \<Rightarrow> string \<Rightarrow> creation_payload \<Rightarrow> sagas \<Rightarrow> 'd \<Rightarrow>
   ('e + string) \<times> sagas \<times> 'd" where
  "execute_group_creation_saga clock db sagaId p sagas d =
     (case execute_saga clock sagaId ''group-creation'' (creation_steps clock db p) sagas d of
        (Inl e, r) \<Rightarrow> (Inl e, r) | (Inr _, r) \<Rightarrow> (Inr sagaId, r))"

section \<open>What a run does\<close>

text \<open>The world after the actions of the steps, and after their compensations in this order.\<close>

definition after_actions :: "('w, 'e) saga_step list \<Rightarrow> 'w \<Rightarrow> 'w" where
  "after_actions steps w = fold (\<lambda>s w. snd (st_action s w)) steps w"

definition after_compensations :: "('w, 'e) saga_step list \<Rightarrow> 'w \<Rightarrow> 'w" where
  "after_compensations steps w = fold (\<lambda>s w. snd (st_compensation s w)) steps w"

fun all_succeed :: "('w, 'e) saga_step list \<Rightarrow> 'w \<Rightarrow> bool" where
  "all_succeed [] w \<longleftrightarrow> True"
| "all_succeed (s # ss) w \<longleftrightarrow> fst (st_action s w) = Inr () \<and> all_succeed ss (snd (st_action s w))"

lemma compensate_world: "snd (compensate steps w) = after_compensations steps w"
proof (induction steps arbitrary: w)
  case (Cons s ss)
  show ?case using Cons.IH [of "snd (st_compensation s w)"]
    by (cases "st_compensation s w"; cases "fst (st_compensation s w)")
      (simp_all add: after_compensations_def case_prod_unfold)
qed (simp add: after_compensations_def)

lemma mark_step_frame [simp]:
  "sg_id (mark_step i v sg) = sg_id sg" "sg_name (mark_step i v sg) = sg_name sg"
  "sg_status (mark_step i v sg) = sg_status sg" "sg_createdAt (mark_step i v sg) = sg_createdAt sg"
  by (simp_all add: mark_step_def)

lemma mark_step_nth:
  "sg_steps sg = before @ (name, u) # after \<Longrightarrow> i = length before \<Longrightarrow>
     sg_steps (mark_step i v sg) = before @ (name, v) # after"
  by (simp add: mark_step_def nth_append list_update_append)

lemma run_actions_spec:
  assumes "sg_steps sg = before @ map (\<lambda>s. (st_name s, StepPending)) steps" and "i = length before"
  shows "case run_actions steps i completed sg w of (err, completed', sg', w') \<Rightarrow>
     (case err of
        None \<Rightarrow> all_succeed steps w \<and> completed' = completed @ steps \<and> w' = after_actions steps w \<and>
          sg_steps sg' = before @ map (\<lambda>s. (st_name s, StepCompleted)) steps
      | Some e \<Rightarrow> \<exists>oks s rest. steps = oks @ s # rest \<and> all_succeed oks w \<and>
          fst (st_action s (after_actions oks w)) = Inl e \<and> completed' = completed @ oks \<and>
          w' = snd (st_action s (after_actions oks w)) \<and>
          sg_steps sg' = before @ map (\<lambda>s. (st_name s, StepCompleted)) oks @ (st_name s, StepFailed) #
            map (\<lambda>s. (st_name s, StepPending)) rest)"
  using assms
proof (induction steps arbitrary: i completed sg w before)
  case Nil
  then show ?case by (simp add: after_actions_def)
next
  case (Cons step steps)
  obtain r w1 where a: "st_action step w = (r, w1)" by fastforce
  have pend: "sg_steps (mark_step i StepPending sg) = before @ (st_name step, StepPending) # map (\<lambda>s. (st_name s, StepPending)) steps"
    using Cons.prems by (intro mark_step_nth) simp_all
  show ?case
  proof (cases r)
    case (Inl e)
    have "sg_steps (mark_step i StepFailed (mark_step i StepPending sg)) =
        before @ (st_name step, StepFailed) # map (\<lambda>s. (st_name s, StepPending)) steps"
      using pend Cons.prems(2) by (rule mark_step_nth)
    then show ?thesis using a Inl
      by (simp add: after_actions_def)
  next
    case (Inr u)
    let ?sg = "mark_step i StepCompleted (mark_step i StepPending sg)"
    have "sg_steps ?sg = before @ (st_name step, StepCompleted) # map (\<lambda>s. (st_name s, StepPending)) steps"
      using pend Cons.prems(2) by (rule mark_step_nth)
    then have s: "sg_steps ?sg = (before @ [(st_name step, StepCompleted)]) @ map (\<lambda>s. (st_name s, StepPending)) steps"
      by simp
    obtain err completed' sg' w' where ra: "run_actions steps (i + 1) (completed @ [step]) ?sg w1 = (err, completed', sg', w')"
      by (metis prod.exhaust)
    have run: "run_actions (step # steps) i completed sg w = (err, completed', sg', w')"
      using a Inr ra by simp
    note IH = Cons.IH [OF s, where i = "i + 1" and completed = "completed @ [step]" and w = w1, unfolded ra]
    show ?thesis
    proof (cases err)
      case None
      then show ?thesis using IH Cons.prems(2) a Inr unfolding run by (simp add: after_actions_def)
    next
      case (Some e)
      then obtain oks s rest where d: "steps = oks @ s # rest" "all_succeed oks w1"
        "fst (st_action s (after_actions oks w1)) = Inl e" "completed' = completed @ step # oks"
        "w' = snd (st_action s (after_actions oks w1))"
        "sg_steps sg' = before @ (st_name step, StepCompleted) # map (\<lambda>s. (st_name s, StepCompleted)) oks @
          (st_name s, StepFailed) # map (\<lambda>s. (st_name s, StepPending)) rest"
        using IH Cons.prems(2) by auto
      have "after_actions (step # oks) w = after_actions oks w1" using a by (simp add: after_actions_def)
      then have "step # steps = (step # oks) @ s # rest \<and> all_succeed (step # oks) w \<and>
          fst (st_action s (after_actions (step # oks) w)) = Inl e \<and> completed' = completed @ (step # oks) \<and>
          w' = snd (st_action s (after_actions (step # oks) w)) \<and>
          sg_steps sg' = before @ map (\<lambda>s. (st_name s, StepCompleted)) (step # oks) @ (st_name s, StepFailed) #
            map (\<lambda>s. (st_name s, StepPending)) rest"
        using d a Inr by simp
      then show ?thesis unfolding run Some prod.case option.case by blast
    qed
  qed
qed

lemma execute_saga_spec:
  "case execute_saga clock sagaId name steps sagas w of
     (Inr _, sagas', w') \<Rightarrow>
       all_succeed steps w \<and> w' = after_actions steps w \<and>
       (\<exists>sg. js_get sagas' sagaId = Some sg \<and> sg_status sg = SagaCompleted \<and>
          sg_steps sg = map (\<lambda>s. (st_name s, StepCompleted)) steps)
   | (Inl e, sagas', w') \<Rightarrow>
       \<exists>oks s rest. steps = oks @ s # rest \<and> all_succeed oks w \<and>
         fst (st_action s (after_actions oks w)) = Inl e \<and>
         w' = after_compensations (rev oks) (snd (st_action s (after_actions oks w))) \<and>
         (\<exists>sg. js_get sagas' sagaId = Some sg \<and> sg_status sg = SagaFailed \<and>
            sg_steps sg = map (\<lambda>s. (st_name s, StepCompleted)) oks @ (st_name s, StepFailed) #
              map (\<lambda>s. (st_name s, StepPending)) rest)"
proof -
  let ?sg = "initial_saga (clock w) sagaId name steps"
  obtain err completed sg w1 where ra: "run_actions steps 0 [] ?sg w = (err, completed, sg, w1)"
    by (metis prod.exhaust)
  have "sg_steps ?sg = [] @ map (\<lambda>s. (st_name s, StepPending)) steps" by (simp add: initial_saga_def)
  note spec = run_actions_spec [OF this, where i = 0 and completed = "[]" and w = w, unfolded ra, simplified]
  show ?thesis
  proof (cases err)
    case None
    then show ?thesis using spec ra by (simp add: execute_saga_def js_simps)
  next
    case (Some e)
    with spec obtain oks s rest where d: "steps = oks @ s # rest" "all_succeed oks w"
      "fst (st_action s (after_actions oks w)) = Inl e" "completed = oks"
      "w1 = snd (st_action s (after_actions oks w))"
      "sg_steps sg = map (\<lambda>s. (st_name s, StepCompleted)) oks @ (st_name s, StepFailed) #
         map (\<lambda>s. (st_name s, StepPending)) rest" by auto
    obtain logged w2 where c: "compensate (rev oks) w1 = (logged, w2)" by fastforce
    have w2: "w2 = after_compensations (rev oks) w1" using compensate_world [of "rev oks" w1] c by simp
    have x: "execute_saga clock sagaId name steps sagas w =
        (Inl e, js_set sagaId (sg\<lparr>sg_status := SagaFailed, sg_updatedAt := clock w2\<rparr>) sagas, w2)"
      using ra Some c d(4) by (simp add: execute_saga_def)
    show ?thesis unfolding x prod.case sum.case
      using d w2 by (intro exI [of _ oks] exI [of _ s] exI [of _ rest]) (simp add: js_simps)
  qed
qed

lemma all_succeed_append:
  "all_succeed (xs @ ys) w \<longleftrightarrow> all_succeed xs w \<and> all_succeed ys (after_actions xs w)"
  by (induction xs arbitrary: w) (auto simp: after_actions_def)

lemma after_actions_snoc: "after_actions (xs @ [s]) w = snd (st_action s (after_actions xs w))"
  by (simp add: after_actions_def)

text \<open>Compensations that undo their actions, up to an equivalence of worlds.\<close>

definition undoes :: "('w \<Rightarrow> 'w \<Rightarrow> bool) \<Rightarrow> ('w, 'e) saga_step \<Rightarrow> bool" where
  "undoes R s \<longleftrightarrow>
     (\<forall>w. fst (st_action s w) = Inr () \<longrightarrow> R (snd (st_compensation s (snd (st_action s w)))) w) \<and>
     (\<forall>w e. fst (st_action s w) = Inl e \<longrightarrow> R (snd (st_action s w)) w) \<and>
     (\<forall>w w'. R w w' \<longrightarrow> R (snd (st_compensation s w)) (snd (st_compensation s w')))"

lemma compensations_restore:
  assumes "\<And>x y z. R x y \<Longrightarrow> R y z \<Longrightarrow> R x z"
  shows "list_all (undoes R) oks \<Longrightarrow> all_succeed oks w \<Longrightarrow> R x (after_actions oks w) \<Longrightarrow>
    R (after_compensations (rev oks) x) w"
proof (induction oks arbitrary: x rule: rev_induct)
  case Nil
  then show ?case by (simp add: after_compensations_def after_actions_def)
next
  case (snoc s oks)
  let ?v = "after_actions oks w"
  have u: "undoes R s" and ok: "fst (st_action s ?v) = Inr ()" and oks: "all_succeed oks w"
    using snoc.prems by (simp_all add: all_succeed_append)
  have "R (snd (st_compensation s x)) (snd (st_compensation s (snd (st_action s ?v))))"
    using u snoc.prems(3) unfolding undoes_def after_actions_snoc by blast
  moreover have "R (snd (st_compensation s (snd (st_action s ?v)))) ?v"
    using u ok unfolding undoes_def by blast
  ultimately have "R (snd (st_compensation s x)) ?v" by (rule assms)
  with snoc.IH [OF _ oks, of "snd (st_compensation s x)"] snoc.prems(1) show ?case
    by (simp add: after_compensations_def)
qed

section \<open>Properties\<close>

text \<open>
  C3. All or compensated: a saga that succeeds has run every action in order and is recorded
  with every step completed; a saga that throws \<open>e\<close> has run the actions up to the first one
  that failed, which threw \<open>e\<close>, then the compensations of exactly the steps before it, last
  one first, and is recorded as failed with each step's status.
\<close>

theorem saga_all_or_compensated:
  "case execute_saga clock sagaId name steps sagas w of
     (Inr _, sagas', w') \<Rightarrow>
       all_succeed steps w \<and> w' = after_actions steps w \<and>
       (\<exists>sg. js_get sagas' sagaId = Some sg \<and> sg_status sg = SagaCompleted \<and>
          sg_steps sg = map (\<lambda>s. (st_name s, StepCompleted)) steps)
   | (Inl e, sagas', w') \<Rightarrow>
       \<exists>oks s rest. steps = oks @ s # rest \<and> all_succeed oks w \<and>
         fst (st_action s (after_actions oks w)) = Inl e \<and>
         w' = after_compensations (rev oks) (snd (st_action s (after_actions oks w))) \<and>
         (\<exists>sg. js_get sagas' sagaId = Some sg \<and> sg_status sg = SagaFailed \<and>
            sg_steps sg = map (\<lambda>s. (st_name s, StepCompleted)) oks @ (st_name s, StepFailed) #
              map (\<lambda>s. (st_name s, StepPending)) rest)"
  by (rule execute_saga_spec)

text \<open>
  A failed saga leaves no trace when its compensations undo their actions: the world after
  it is equivalent to the world before it.
\<close>

theorem failed_saga_restores:
  assumes "list_all (undoes R) steps" and "\<And>x y z. R x y \<Longrightarrow> R y z \<Longrightarrow> R x z"
    and "execute_saga clock sagaId name steps sagas w = (Inl e, sagas', w')"
  shows "R w' w"
proof -
  from execute_saga_spec [where clock = clock and sagaId = sagaId and name = name and steps = steps
      and sagas = sagas and w = w, unfolded assms(3)] obtain oks s rest
    where d: "steps = oks @ s # rest" "all_succeed oks w" "fst (st_action s (after_actions oks w)) = Inl e"
      "w' = after_compensations (rev oks) (snd (st_action s (after_actions oks w)))" by auto
  have "undoes R s" "list_all (undoes R) oks" using assms(1) d(1) by simp_all
  then have "R (snd (st_action s (after_actions oks w))) (after_actions oks w)"
    using d(3) unfolding undoes_def by blast
  from compensations_restore [where R = R, OF _ \<open>list_all (undoes R) oks\<close> d(2) this] assms(2)
  show ?thesis unfolding d(4) by blast
qed

definition add_step :: "int \<Rightarrow> (int, string) saga_step" where
  "add_step n = \<lparr>st_name = ''add'', st_action = (\<lambda>w. (Inr (), w + n)), st_compensation = (\<lambda>w. (Inr (), w - n))\<rparr>"

definition fail_step :: "(int, string) saga_step" where
  "fail_step = \<lparr>st_name = ''fail'', st_action = js_throw ''no'', st_compensation = js_return ()\<rparr>"

theorem failed_saga_restores_witness:
  "snd (snd (execute_saga (\<lambda>w. 0) ''id'' ''demo'' [add_step 3, add_step 4, fail_step] [] 10)) = 10"
proof -
  have u: "list_all (undoes (=)) [add_step 3, add_step 4, fail_step]"
    by (simp add: undoes_def add_step_def fail_step_def)
  have "fst (execute_saga (\<lambda>w. 0) ''id'' ''demo'' [add_step 3, add_step 4, fail_step] [] 10) = Inl ''no''"
    by (simp add: execute_saga_def add_step_def fail_step_def)
  then obtain sagas' w' where y: "execute_saga (\<lambda>w. 0) ''id'' ''demo'' [add_step 3, add_step 4, fail_step] [] 10 =
      (Inl ''no'', sagas', w')" by (metis prod.collapse)
  have "w' = 10" by (rule failed_saga_restores [OF u _ y]) simp
  then show ?thesis using y by simp
qed

text \<open>
  What the saga relies on. \<open>bal\<close> is the balance of each group: \<open>None\<close> without a row, \<open>Some None\<close> for a row without that
  column. A read answers it; an increment that returns has added to it, one that throws has changed nothing, and without
  the column it throws; neither reading nor creating a transaction changes a balance.
\<close>

definition balance_laws :: "('d, 'e) payout_db \<Rightarrow> ('d \<Rightarrow> string \<Rightarrow> rat option option) \<Rightarrow> bool" where
  "balance_laws db bal \<longleftrightarrow>
     (\<forall>g d. bal (snd (pd_find_balance db g d)) = bal d \<and>
        (case fst (pd_find_balance db g d) of Inl e \<Rightarrow> True | Inr b \<Rightarrow> b = bal d g)) \<and>
     (\<forall>g a d. case fst (pd_increment db g a d) of
        Inl e \<Rightarrow> bal (snd (pd_increment db g a d)) = bal d
      | Inr _ \<Rightarrow> (\<exists>b. bal d g = Some (Some b) \<and> bal (snd (pd_increment db g a d)) = (bal d)(g := Some (Some (b + a))))) \<and>
     (\<forall>t d. bal (snd (pd_create_transaction db t d)) = bal d)"

lemma balance_increment:
  assumes "balance_laws db bal" and "pd_increment db g a d = (r, d')"
  shows "case r of Inl e \<Rightarrow> bal d' = bal d | Inr _ \<Rightarrow> (\<exists>b. bal d g = Some (Some b) \<and> bal d' = (bal d)(g := Some (Some (b + a))))"
proof -
  have "case fst (pd_increment db g a d) of
        Inl e \<Rightarrow> bal (snd (pd_increment db g a d)) = bal d
      | Inr _ \<Rightarrow> (\<exists>b. bal d g = Some (Some b) \<and> bal (snd (pd_increment db g a d)) = (bal d)(g := Some (Some (b + a))))"
    using assms(1) unfolding balance_laws_def by blast
  then show ?thesis unfolding assms(2) fst_conv snd_conv .
qed

lemma balance_create:
  assumes "balance_laws db bal" and "pd_create_transaction db t d = (r, d')"
  shows "bal d' = bal d"
proof -
  have "bal (snd (pd_create_transaction db t d)) = bal d"
    using assms(1) unfolding balance_laws_def by blast
  then show ?thesis using assms(2) by simp
qed

lemma validate_payout_bal:
  assumes "balance_laws db bal" and "validate_payout db p d = (v, d1)"
  shows "bal d1 = bal d"
    and "v = Inr () \<Longrightarrow> \<forall>b. bal d (pp_groupId p) = Some (Some b) \<longrightarrow> pp_amount p \<le> b"
proof -
  obtain r d2 where f: "pd_find_balance db (pp_groupId p) d = (r, d2)" by fastforce
  have "bal (snd (pd_find_balance db (pp_groupId p) d)) = bal d \<and>
      (case fst (pd_find_balance db (pp_groupId p) d) of Inl e \<Rightarrow> True | Inr b \<Rightarrow> b = bal d (pp_groupId p))"
    using assms(1) unfolding balance_laws_def by blast
  then have l: "bal d2 = bal d" "case r of Inl e \<Rightarrow> True | Inr b \<Rightarrow> b = bal d (pp_groupId p)"
    using f by simp_all
  show "bal d1 = bal d"
    using f l assms(2)
    by (cases r) (auto simp: validate_payout_def js_then_def db_call_def split: option.splits if_splits)
  show "\<forall>b. bal d (pp_groupId p) = Some (Some b) \<longrightarrow> pp_amount p \<le> b" if "v = Inr ()"
    using that f l assms(2)
    by (cases r) (auto simp: validate_payout_def js_then_def db_call_def split: option.splits if_splits)
qed

lemma payout_saga_balance_law:
  assumes "balance_laws db bal"
  shows "case execute_payout_saga clock db sagaId p sagas d of
     (Inr _, sagas', d') \<Rightarrow>
       \<exists>b. bal d (pp_groupId p) = Some (Some b) \<and> pp_amount p \<le> b \<and>
         bal d' = (bal d)(pp_groupId p := Some (Some (b - pp_amount p)))
   | (Inl e, sagas', d') \<Rightarrow>
       bal d' = bal d \<or>
       (\<exists>b d1 d2 d3 e1 e2.
          bal d (pp_groupId p) = Some (Some b) \<and> bal d' = (bal d)(pp_groupId p := Some (Some (b - pp_amount p))) \<and>
          validate_payout db p d = (Inr (), d1) \<and> pd_increment db (pp_groupId p) (- pp_amount p) d1 = (Inr (), d2) \<and>
          pd_create_transaction db \<lparr>td_groupId = pp_groupId p, td_type = ''payout'', td_amount = pp_amount p,
            td_recipientId = pp_recipientId p, td_status = ''completed'', td_blockchainTxId = pp_blockchainTxId p\<rparr> d2 = (Inl e1, d3) \<and>
          pd_increment db (pp_groupId p) (pp_amount p) d3 = (Inl e2, d') \<and> e = Database e1)"
proof -
  let ?g = "pp_groupId p" and ?a = "pp_amount p"
  let ?t = "\<lparr>td_groupId = pp_groupId p, td_type = ''payout'', td_amount = pp_amount p,
     td_recipientId = pp_recipientId p, td_status = ''completed'', td_blockchainTxId = pp_blockchainTxId p\<rparr>"
  note saga = execute_payout_saga_def execute_saga_def payout_steps_def db_call_def
  obtain v d1 where v: "validate_payout db p d = (v, d1)" by fastforce
  have b1: "bal d1 = bal d" by (rule validate_payout_bal(1) [OF assms v])
  obtain r d2 where dd: "pd_increment db ?g (- ?a) d1 = (r, d2)" by fastforce
  obtain q d3 where c: "pd_create_transaction db ?t d2 = (q, d3)" by fastforce
  have b3: "bal d3 = bal d2" by (rule balance_create [OF assms c])
  obtain y d4 where i: "pd_increment db ?g ?a d3 = (y, d4)" by fastforce
  show ?thesis
  proof (cases v)
    case (Inl e)
    then show ?thesis using v b1 by (simp add: saga)
  next
    case v': (Inr u)
    show ?thesis
    proof (cases r)
      case (Inl e)
      then show ?thesis using v v' dd b1 balance_increment [OF assms dd] by (simp add: saga)
    next
      case r: (Inr u2)
      obtain b where b: "bal d ?g = Some (Some b)" "bal d2 = (bal d)(?g := Some (Some (b - ?a)))"
        using balance_increment [OF assms dd] r b1 by auto
      have le: "?a \<le> b" using validate_payout_bal(2) [OF assms v] v' b(1) by simp
      show ?thesis
      proof (cases q)
        case (Inr u3)
        then show ?thesis using v v' dd r c b b3 le by (simp add: saga)
      next
        case q: (Inl e)
        from v v' dd r c q have run: "validate_payout db p d = (Inr (), d1)" "pd_increment db ?g (- ?a) d1 = (Inr (), d2)"
          "pd_create_transaction db ?t d2 = (Inl e, d3)" by simp_all
        have out: "\<exists>s. execute_payout_saga clock db sagaId p sagas d = (Inl (Database e), s, d4)"
          using v v' dd r c q i by (cases y) (simp_all add: saga)
        show ?thesis
        proof (cases y)
          case (Inl e')
          then have "bal d4 = (bal d)(?g := Some (Some (b - ?a)))" "pd_increment db ?g ?a d3 = (Inl e', d4)"
            using balance_increment [OF assms i] i b3 b by simp_all
          then show ?thesis using out b(1) run by auto
        next
          case (Inr u4)
          then have "bal d4 = bal d"
            using balance_increment [OF assms i] b3 b by (auto simp: fun_eq_iff)
          then show ?thesis using out by auto
        qed
      qed
    qed
  qed
qed

text \<open>
  C12. The payout saga moves exactly the amount, or nothing: a payout that succeeds found at least the amount in the
  group's balance and lowered that balance by it, so none succeeds on the schema as it is, where no group has a
  balance; a payout that fails leaves every balance as it was, unless the last thing that happened in this run was that the compensating
  increment itself failed: then the amount is missing, and the error of that call is only logged.
\<close>

theorem payout_saga_balance:
  assumes "balance_laws db bal"
  shows "case execute_payout_saga clock db sagaId p sagas d of
     (Inr _, sagas', d') \<Rightarrow>
       \<exists>b. bal d (pp_groupId p) = Some (Some b) \<and> pp_amount p \<le> b \<and>
         bal d' = (bal d)(pp_groupId p := Some (Some (b - pp_amount p)))
   | (Inl e, sagas', d') \<Rightarrow>
       bal d' = bal d \<or>
       (\<exists>b d1 d2 d3 e1 e2.
          bal d (pp_groupId p) = Some (Some b) \<and> bal d' = (bal d)(pp_groupId p := Some (Some (b - pp_amount p))) \<and>
          validate_payout db p d = (Inr (), d1) \<and> pd_increment db (pp_groupId p) (- pp_amount p) d1 = (Inr (), d2) \<and>
          pd_create_transaction db \<lparr>td_groupId = pp_groupId p, td_type = ''payout'', td_amount = pp_amount p,
            td_recipientId = pp_recipientId p, td_status = ''completed'', td_blockchainTxId = pp_blockchainTxId p\<rparr> d2 = (Inl e1, d3) \<and>
          pd_increment db (pp_groupId p) (pp_amount p) d3 = (Inl e2, d') \<and> e = Database e1)"
  using payout_saga_balance_law [OF assms] .

text \<open>On the schema as it is the saga always throws, and no balance exists to be changed.\<close>

theorem payout_saga_never_completes:
  assumes "balance_laws db bal" and "\<And>b. bal d (pp_groupId p) \<noteq> Some (Some b)"
  shows "\<exists>e. fst (execute_payout_saga clock db sagaId p sagas d) = Inl e"
proof -
  obtain r sg d' where x: "execute_payout_saga clock db sagaId p sagas d = (r, sg, d')" by (metis prod.exhaust)
  have "\<exists>b. bal d (pp_groupId p) = Some (Some b)" if "r = Inr i" for i
    using payout_saga_balance_law [OF assms(1), where clock = clock and sagaId = sagaId and p = p and sagas = sagas and d = d] that unfolding x by auto
  then show ?thesis using assms(2) x by (cases r) auto
qed

text \<open>A database in memory, of balances; creating a transaction succeeds or fails. The one of the schema has none.\<close>

definition memory_db :: "bool \<Rightarrow> bool \<Rightarrow> (string \<Rightarrow> rat option option, string) payout_db" where
  "memory_db records restores =
     \<lparr>pd_find_balance = (\<lambda>g d. (Inr (d g), d)),
      pd_increment = (\<lambda>g a d. case d g of
           Some (Some b) \<Rightarrow> if 0 < a \<and> \<not> restores then (Inl ''timeout'', d) else (Inr (), d(g := Some (Some (b + a))))
          | _ \<Rightarrow> (Inl ''Unknown argument balance'', d)),
      pd_create_transaction = (\<lambda>t d. (if records then Inr () else Inl ''unique constraint'', d))\<rparr>"

lemma memory_db_laws: "balance_laws (memory_db records restores) (\<lambda>d. d)"
  by (auto simp: balance_laws_def memory_db_def split: option.split)

definition sample_payout :: payout_payload where
  "sample_payout = \<lparr>pp_groupId = ''g'', pp_recipientId = ''r'', pp_amount = 30, pp_blockchainTxId = None\<rparr>"

definition sample_saga :: "bool \<Rightarrow> bool \<Rightarrow> (string payout_error + string) \<times> sagas \<times> (string \<Rightarrow> rat option option)" where
  "sample_saga records restores =
     execute_payout_saga (\<lambda>_. 0) (memory_db records restores) ''s'' sample_payout [] (\<lambda>g. Some (Some 100))"

lemmas sample_saga_defs = sample_saga_def execute_payout_saga_def execute_saga_def payout_steps_def
  validate_payout_def memory_db_def sample_payout_def db_call_def js_then_def

text \<open>The three outcomes: the payout, the payout undone, and the payout whose undoing failed.\<close>

theorem payout_saga_balance_witness:
  "(\<exists>s d'. sample_saga True True = (Inr ''s'', s, d') \<and> d' ''g'' = Some (Some 70))
   \<and> (\<exists>e s d'. sample_saga False True = (Inl e, s, d') \<and> d' ''g'' = Some (Some 100))
   \<and> (\<exists>e s d'. sample_saga False False = (Inl e, s, d') \<and> d' ''g'' = Some (Some 70))"
proof -
  have "snd (snd (sample_saga True True)) ''g'' = Some (Some 70)" and r: "fst (sample_saga True True) = Inr ''s''"
    using payout_saga_balance [OF memory_db_laws, where clock = "\<lambda>_. 0" and sagaId = "''s''" and p = sample_payout
        and sagas = "[]" and d = "\<lambda>g. Some (Some 100)" and records1 = True and restores1 = True]
    by (simp_all add: sample_saga_defs)
  then show ?thesis
    by (intro conjI; cases "sample_saga True True") (auto simp: sample_saga_defs)
qed

theorem payout_saga_never_completes_witness:
  "\<exists>e. fst (execute_payout_saga (\<lambda>_. 0) (memory_db True True) ''s'' sample_payout [] (\<lambda>g. Some None)) = Inl e"
  by (rule payout_saga_never_completes [OF memory_db_laws]) simp

text \<open>
  The group creation saga does not clean up: its compensations do nothing, so when adding
  the members fails the group that was created stays, and the members are added under the
  empty group id rather than the new group's.
\<close>

theorem group_creation_leaves_group:
  assumes "gb_create_group db \<lparr>gd_name = gc_name p, gd_description = gc_description p,
      gd_creatorId = gc_creatorId p, gd_status = ''active''\<rparr> d = (Inr groupId, d1)"
  shows "snd (snd (execute_group_creation_saga clock db sagaId p sagas d)) =
    snd (gb_create_members db (map (\<lambda>m. \<lparr>md_groupId = [], md_userId = m, md_role = ''member'',
      md_joinedAt = clock d1\<rparr>) (gc_members p)) d1)"
proof -
  let ?ms = "map (\<lambda>m. \<lparr>md_groupId = [], md_userId = m, md_role = ''member'', md_joinedAt = clock d1\<rparr>) (gc_members p)"
  obtain r d2 where m: "gb_create_members db ?ms d1 = (r, d2)" by fastforce
  show ?thesis
    using assms m
    by (cases r) (simp_all add: execute_group_creation_saga_def execute_saga_def creation_steps_def js_then_def)
qed

definition memory_groups :: "(string list, string) group_db" where
  "memory_groups =
     \<lparr>gb_create_group = (\<lambda>g d. (Inr ''id1'', gd_name g # d)),
      gb_create_members = (\<lambda>ms d. (Inl ''foreign key'', d))\<rparr>"

definition sample_creation :: creation_payload where
  "sample_creation = \<lparr>gc_name = ''Ajo'', gc_description = [], gc_creatorId = ''u'', gc_members = [''v''],
     gc_contributionAmount = 5\<rparr>"

theorem group_creation_leaves_group_witness:
  "snd (snd (execute_group_creation_saga (\<lambda>_. 0) memory_groups ''s'' sample_creation [] [])) = [''Ajo'']"
  using group_creation_leaves_group [where db = memory_groups and p = sample_creation and d = "[]"
      and groupId = "''id1''" and ?d1.0 = "[''Ajo'']" and clock = "\<lambda>_. 0" and sagaId = "''s''" and sagas = "[]"]
  by (simp add: memory_groups_def sample_creation_def)

end
