(* ===== verification/Voting.thy ===== *)
theory Voting
  imports JsPrelude
begin

text \<open>
  The two services that decide by a vote of a group's members: \<open>disputeService\<close>
  (\<open>backend/src/services/disputeService.ts\<close>) and \<open>refundService\<close>
  (\<open>backend/src/services/refundService.ts\<close>).

  Both keep JSON documents in Redis under a prefix and an index set per group. Redis is a
  parameter, the record \<open>redis\<close>, and \<open>redis_laws\<close> says what the services rely on: a document
  reads back as it was written, and writes under other keys and set insertions leave it alone.
  Reading back what was written as JSON is the identity on the documents modelled. The members of
  the group are read from the database by each call that needs them: \<open>members\<close> is what that call reads, and calls of a run may read
  different members. Notifications are left out.
\<close>

section \<open>Votes\<close>

datatype vote = Yes | No

definition count_votes :: "vote \<Rightarrow> (string, vote) jsmap \<Rightarrow> nat" where
  "count_votes v votes = length (filter (\<lambda>x. x = v) (map snd votes))"

text \<open>\<open>Math.ceil(totalMembers / 2)\<close>\<close>

definition majority :: "nat \<Rightarrow> nat" where
  "majority totalMembers = nat (ceil_div (int totalMembers) 2)"

lemma majority_le: "majority n \<le> k \<longleftrightarrow> n \<le> 2 * k"
  using ceil_div_bounds [of 2 "int n"] by (simp add: majority_def) linarith

lemma count_votes_members:
  assumes "js_wf votes"
  shows "count_votes v votes = card {m. js_get votes m = Some v}"
proof -
  have "{m. js_get votes m = Some v} = fst ` set (filter (\<lambda>p. snd p = v) votes)"
    using assms by (force simp: js_wf_def dest: map_of_SomeD)
  moreover have "distinct (map fst (filter (\<lambda>p. snd p = v) votes))"
    using js_wf_filter [OF assms] by (simp add: js_wf_def)
  ultimately have "card {m. js_get votes m = Some v} = length (filter (\<lambda>p. snd p = v) votes)"
    using distinct_card [of "map fst (filter (\<lambda>p. snd p = v) votes)"] by simp
  then show ?thesis by (simp add: count_votes_def filter_map comp_def)
qed

section \<open>The store\<close>

record ('s, 'd) redis =
  rd_get :: "'s \<Rightarrow> string \<Rightarrow> 'd option"
  rd_set :: "string \<Rightarrow> 'd \<Rightarrow> 's \<Rightarrow> 's"
  rd_sadd :: "string \<Rightarrow> string \<Rightarrow> 's \<Rightarrow> 's"
  rd_smembers :: "'s \<Rightarrow> string \<Rightarrow> string list"

definition redis_laws :: "('s, 'd) redis \<Rightarrow> bool" where
  "redis_laws R \<longleftrightarrow> keyed_store (rd_get R) (rd_set R) \<and> (\<forall>k x s. rd_get R (rd_sadd R k x s) = rd_get R s)"

lemma redis_get_set: "redis_laws R \<Longrightarrow> rd_get R (rd_set R k d s) k' = (if k' = k then Some d else rd_get R s k')"
  by (auto simp: redis_laws_def keyed_store.get_put)

lemma redis_get_sadd: "redis_laws R \<Longrightarrow> rd_get R (rd_sadd R k x s) = rd_get R s"
  by (simp add: redis_laws_def)

text \<open>A store in memory: the documents and the sets.\<close>

definition memory_redis :: "((string \<Rightarrow> 'd option) \<times> (string \<Rightarrow> string list), 'd) redis" where
  "memory_redis =
     \<lparr>rd_get = (\<lambda>s k. fst s k), rd_set = (\<lambda>k d s. ((fst s)(k \<mapsto> d), snd s)),
      rd_sadd = (\<lambda>k x s. (fst s, (snd s)(k := js_add x (snd s k)))), rd_smembers = (\<lambda>s k. snd s k)\<rparr>"

lemma memory_redis_laws: "redis_laws memory_redis"
  unfolding redis_laws_def by (rule conjI, unfold_locales) (simp_all add: memory_redis_def)

section \<open>Disputes\<close>

datatype dispute_type = NonPayment | Fraud | RuleViolation

datatype dispute_status = DOpen | DVoting | DResolved | DEscalated

record evidence_item =
  ei_id :: string
  ei_type :: string
  ei_content :: string
  ei_uploadedAt :: int

record dispute =
  di_id :: string
  di_groupId :: string
  di_filedBy :: string
  di_type :: dispute_type
  di_summary :: "string option"
  di_evidence :: "evidence_item list"
  di_status :: dispute_status
  di_votes :: "(string, vote) jsmap"
  di_createdAt :: int
  di_votingDeadline :: "int option"
  di_decision :: "vote option"
  di_resolvedBy :: "string option"
  di_adminDecision :: "string option"

datatype dispute_error =
  OnlyMembersFile
| DisputeNotFound
| VotingNotOpen
| VotingEnded
| OnlyMembersVote

definition dispute_key :: "string \<Rightarrow> string" where
  "dispute_key ident = ''dispute:'' @ ident"

definition default_voting_window :: int where
  "default_voting_window = 60 * 60 * 24 * 2"

text \<open>\<open>uuid 0\<close> is the dispute's id, \<open>uuid (i + 1)\<close> that of the \<open>i\<close>-th piece of evidence.\<close>

definition file_dispute ::
  "('s, dispute) redis \<Rightarrow> int \<Rightarrow> int \<Rightarrow> string list \<Rightarrow> (nat \<Rightarrow> string) \<Rightarrow> string \<Rightarrow> string \<Rightarrow>
   dispute_type \<Rightarrow> string option \<Rightarrow> (string \<times> string) list \<Rightarrow> 's \<Rightarrow> (dispute_error + dispute) \<times> 's" where
  "file_dispute R window now members uuid groupId filedBy kind summary evidence s =
     (if filedBy \<notin> set members then (Inl OnlyMembersFile, s)
      else let ident = uuid 0;
               d = \<lparr>di_id = ident, di_groupId = groupId, di_filedBy = filedBy, di_type = kind,
                    di_summary = summary,
                    di_evidence = map (\<lambda>(i, t, c). \<lparr>ei_id = uuid (i + 1), ei_type = t, ei_content = c, ei_uploadedAt = now\<rparr>)
                      (enumerate 0 evidence),
                    di_status = DVoting, di_votes = [], di_createdAt = now,
                    di_votingDeadline = Some (now + window * 1000), di_decision = None,
                    di_resolvedBy = None, di_adminDecision = None\<rparr>
           in (Inr d, rd_sadd R (''group_disputes:'' @ groupId) ident (rd_set R (dispute_key ident) d s)))"

definition get_dispute :: "('s, dispute) redis \<Rightarrow> string \<Rightarrow> 's \<Rightarrow> dispute option" where
  "get_dispute R ident s = rd_get R s (dispute_key ident)"

definition list_group_disputes :: "('s, dispute) redis \<Rightarrow> string \<Rightarrow> 's \<Rightarrow> dispute list" where
  "list_group_disputes R groupId s =
     List.map_filter (\<lambda>ident. rd_get R s (dispute_key ident)) (rd_smembers R s (''group_disputes:'' @ groupId))"

definition deadline_passed :: "int \<Rightarrow> dispute \<Rightarrow> bool" where
  "deadline_passed now d \<longleftrightarrow> get_or 0 (di_votingDeadline d) < now"

text \<open>What \<open>tryAutoResolve\<close> makes of a dispute that is being voted on.\<close>

definition decide_dispute :: "int \<Rightarrow> nat \<Rightarrow> dispute \<Rightarrow> dispute" where
  "decide_dispute now totalMembers d =
     (let yes = count_votes Yes (di_votes d); no = count_votes No (di_votes d)
      in if majority totalMembers \<le> yes
         then d\<lparr>di_status := DResolved, di_decision := Some Yes, di_resolvedBy := Some ''community''\<rparr>
         else if majority totalMembers \<le> no
         then d\<lparr>di_status := DResolved, di_decision := Some No, di_resolvedBy := Some ''community''\<rparr>
         else if deadline_passed now d then d\<lparr>di_status := DEscalated\<rparr>
         else d)"

definition try_auto_resolve ::
  "('s, dispute) redis \<Rightarrow> int \<Rightarrow> string list \<Rightarrow> string \<Rightarrow> 's \<Rightarrow> dispute option \<times> 's" where
  "try_auto_resolve R now members ident s =
     (case get_dispute R ident s of
        None \<Rightarrow> (None, s)
      | Some d \<Rightarrow>
          if di_status d \<noteq> DVoting then (Some d, s)
          else let d' = decide_dispute now (length members) d
               in (Some d', if di_status d' = DVoting then s else rd_set R (dispute_key ident) d' s))"

definition vote_on_dispute ::
  "('s, dispute) redis \<Rightarrow> int \<Rightarrow> string list \<Rightarrow> string \<Rightarrow> string \<Rightarrow> vote \<Rightarrow> ('s, dispute_error, dispute) js_method" where
  "vote_on_dispute R now members ident voter v s =
     (case get_dispute R ident s of
        None \<Rightarrow> (Inl DisputeNotFound, s)
      | Some d \<Rightarrow>
          if di_status d \<noteq> DVoting then (Inl VotingNotOpen, s)
          else if deadline_passed now d then (Inl VotingEnded, s)
          else if voter \<notin> set members then (Inl OnlyMembersVote, s)
          else let d' = d\<lparr>di_votes := js_set voter v (di_votes d)\<rparr>
               in (Inr d', snd (try_auto_resolve R now members ident (rd_set R (dispute_key ident) d' s))))"

definition escalate_to_admin :: "('s, dispute) redis \<Rightarrow> string \<Rightarrow> ('s, dispute_error, dispute) js_method" where
  "escalate_to_admin R ident s =
     (case get_dispute R ident s of
        None \<Rightarrow> (Inl DisputeNotFound, s)
      | Some d \<Rightarrow> let d' = d\<lparr>di_status := DEscalated\<rparr> in (Inr d', rd_set R (dispute_key ident) d' s))"

definition admin_resolve ::
  "('s, dispute) redis \<Rightarrow> string \<Rightarrow> string \<Rightarrow> string \<Rightarrow> ('s, dispute_error, dispute) js_method" where
  "admin_resolve R ident adminId decision s =
     (case get_dispute R ident s of
        None \<Rightarrow> (Inl DisputeNotFound, s)
      | Some d \<Rightarrow>
          let d' = d\<lparr>di_status := DResolved, di_resolvedBy := Some adminId, di_adminDecision := Some decision\<rparr>
          in (Inr d', rd_set R (dispute_key ident) d' s))"

section \<open>Refunds\<close>

datatype refund_status = RPending | RVoting | RApproved | RRejected | RExecuted

record refund =
  re_id :: string
  re_groupId :: string
  re_requestedBy :: string
  re_reason :: string
  re_amount :: "string option"
  re_status :: refund_status
  re_votes :: "(string, vote) jsmap"
  re_votingDeadline :: int
  re_createdAt :: int
  re_executedAt :: "int option"
  re_txHash :: "string option"

datatype refund_error =
  OnlyMembersRequest
| RefundNotFound
| RefundVotingNotOpen
| RefundDeadlinePassed
| OnlyMembersVoteRefund
| RefundNotApproved

definition refund_key :: "string \<Rightarrow> string" where
  "refund_key ident = ''refund:'' @ ident"

definition save_refund :: "('s, refund) redis \<Rightarrow> refund \<Rightarrow> 's \<Rightarrow> 's" where
  "save_refund R r s = rd_set R (refund_key (re_id r)) r s"

definition request_refund ::
  "('s, refund) redis \<Rightarrow> int \<Rightarrow> int \<Rightarrow> string list \<Rightarrow> string \<Rightarrow> string \<Rightarrow> string \<Rightarrow> string \<Rightarrow> string option \<Rightarrow>
   ('s, refund_error, refund) js_method" where
  "request_refund R window now members uuid groupId requestedBy reason amount s =
     (if requestedBy \<notin> set members then (Inl OnlyMembersRequest, s)
      else let r = \<lparr>re_id = uuid, re_groupId = groupId, re_requestedBy = requestedBy, re_reason = reason,
                    re_amount = amount, re_status = RVoting, re_votes = [], re_votingDeadline = now + window,
                    re_createdAt = now, re_executedAt = None, re_txHash = None\<rparr>
           in (Inr r, rd_sadd R (''group_refunds:'' @ groupId) uuid (rd_set R (refund_key uuid) r s)))"

definition get_refund :: "('s, refund) redis \<Rightarrow> string \<Rightarrow> 's \<Rightarrow> refund option" where
  "get_refund R ident s = rd_get R s (refund_key ident)"

definition list_by_group :: "('s, refund) redis \<Rightarrow> string \<Rightarrow> 's \<Rightarrow> refund list" where
  "list_by_group R groupId s =
     (let ids = rd_smembers R s (''group_refunds:'' @ groupId)
      in if ids = [] then [] else List.map_filter (\<lambda>ident. rd_get R s (refund_key ident)) ids)"

definition decide_refund :: "nat \<Rightarrow> refund \<Rightarrow> refund" where
  "decide_refund totalMembers r =
     (let yes = count_votes Yes (re_votes r); no = count_votes No (re_votes r)
      in if majority totalMembers \<le> yes then r\<lparr>re_status := RApproved\<rparr>
         else if majority totalMembers \<le> no then r\<lparr>re_status := RRejected\<rparr>
         else r)"

definition resolve_refund :: "('s, refund) redis \<Rightarrow> nat \<Rightarrow> refund \<Rightarrow> 's \<Rightarrow> 's" where
  "resolve_refund R totalMembers r s =
     (if re_status (decide_refund totalMembers r) \<noteq> re_status r
      then save_refund R (decide_refund totalMembers r) s else s)"

definition vote_refund ::
  "('s, refund) redis \<Rightarrow> int \<Rightarrow> string list \<Rightarrow> string \<Rightarrow> string \<Rightarrow> vote \<Rightarrow> ('s, refund_error, refund option) js_method" where
  "vote_refund R now members ident voter v s =
     (case get_refund R ident s of
        None \<Rightarrow> (Inl RefundNotFound, s)
      | Some r \<Rightarrow>
          if re_status r \<noteq> RVoting then (Inl RefundVotingNotOpen, s)
          else if re_votingDeadline r < now then (Inl RefundDeadlinePassed, s)
          else if voter \<notin> set members then (Inl OnlyMembersVoteRefund, s)
          else let r' = r\<lparr>re_votes := js_set voter v (re_votes r)\<rparr>;
                   s1 = resolve_refund R (length members) r' (save_refund R r' s)
               in (Inr (get_refund R ident s1), s1))"

definition execute_refund ::
  "('s, refund) redis \<Rightarrow> int \<Rightarrow> string \<Rightarrow> string \<Rightarrow> ('s, refund_error, refund) js_method" where
  "execute_refund R now ident txHash s =
     (case get_refund R ident s of
        None \<Rightarrow> (Inl RefundNotFound, s)
      | Some r \<Rightarrow>
          if re_status r \<noteq> RApproved then (Inl RefundNotApproved, s)
          else let r' = r\<lparr>re_status := RExecuted, re_executedAt := Some now, re_txHash := Some txHash\<rparr>
               in (Inr r', save_refund R r' s))"

section \<open>The tally both services share\<close>

text \<open>
  What a member can expect of a vote: the ballots are kept, and the outcome depends on how many
  of them say yes and no compared with half of the members.
\<close>

locale majority_vote =
  fixes decide :: "nat \<Rightarrow> 'p \<Rightarrow> 'p"
    and ballots :: "'p \<Rightarrow> (string, vote) jsmap"
    and voting :: "'p \<Rightarrow> bool"
    and accepted :: "'p \<Rightarrow> bool"
    and rejected :: "'p \<Rightarrow> bool"
  assumes ballots_kept: "ballots (decide n p) = ballots p"
    and accepted_iff: "voting p \<Longrightarrow> accepted (decide n p) \<longleftrightarrow> n \<le> 2 * count_votes Yes (ballots p)"
    and rejected_iff: "voting p \<Longrightarrow> rejected (decide n p) \<longleftrightarrow>
      2 * count_votes Yes (ballots p) < n \<and> n \<le> 2 * count_votes No (ballots p)"
begin

lemma accepted_half:
  assumes "voting p" and "accepted (decide n p)" and "js_wf (ballots p)"
  shows "n \<le> 2 * card {m. js_get (ballots (decide n p)) m = Some Yes}"
  using assms accepted_iff [of p n] by (simp add: ballots_kept count_votes_members)

text \<open>A tie of the whole group is a yes.\<close>

lemma tie_is_accepted:
  assumes "voting p" and "count_votes Yes (ballots p) = k" and "count_votes No (ballots p) = k" and "n = 2 * k"
  shows "accepted (decide n p) \<and> \<not> rejected (decide n p)"
  using assms by (simp add: accepted_iff rejected_iff)

lemma never_both: "voting p \<Longrightarrow> \<not> (accepted (decide n p) \<and> rejected (decide n p))"
  by (simp add: accepted_iff rejected_iff)

end

interpretation disp: majority_vote "decide_dispute now" di_votes "\<lambda>d. di_status d = DVoting \<and> di_decision d = None"
  "\<lambda>d. di_decision d = Some Yes" "\<lambda>d. di_decision d = Some No"
  by unfold_locales (auto simp: decide_dispute_def Let_def majority_le)

interpretation refd: majority_vote decide_refund re_votes "\<lambda>r. re_status r = RVoting"
  "\<lambda>r. re_status r = RApproved" "\<lambda>r. re_status r = RRejected"
  by unfold_locales (auto simp: decide_refund_def Let_def majority_le)

section \<open>Runs\<close>

text \<open>A vote comes with the members that \<open>getGroupMembers\<close> answers to it; an execution reads none.\<close>

datatype refund_call = RVote int "string list" string vote | RExecute int string

fun refund_step :: "('s, refund) redis \<Rightarrow> string \<Rightarrow> refund_call \<Rightarrow> 's \<Rightarrow> 's" where
  "refund_step R ident (RVote now members voter v) s = snd (vote_refund R now members ident voter v s)"
| "refund_step R ident (RExecute now txHash) s = snd (execute_refund R now ident txHash s)"

text \<open>A ballot that was cast by a member, and a vote in time at which half of the members of that moment were covered.\<close>

definition refund_cast :: "refund_call list \<Rightarrow> string \<Rightarrow> vote \<Rightarrow> bool" where
  "refund_cast calls m v \<longleftrightarrow> (\<exists>now members. RVote now members m v \<in> set calls \<and> m \<in> set members)"

definition refund_decided :: "refund_call list \<Rightarrow> refund \<Rightarrow> bool" where
  "refund_decided calls r \<longleftrightarrow> (\<exists>now members m v. RVote now members m v \<in> set calls \<and> m \<in> set members \<and> now \<le> re_votingDeadline r \<and>
     length members \<le> 2 * count_votes Yes (re_votes r))"

definition refund_ok :: "refund_call list \<Rightarrow> string \<Rightarrow> refund \<Rightarrow> bool" where
  "refund_ok calls ident r \<longleftrightarrow> re_id r = ident \<and> js_wf (re_votes r) \<and> (\<forall>m v. js_get (re_votes r) m = Some v \<longrightarrow> refund_cast calls m v) \<and>
     (re_status r = RApproved \<or> re_status r = RExecuted \<longrightarrow> refund_decided calls r)"

lemma refund_step_ok:
  assumes R: "redis_laws R" and g: "get_refund R ident s = Some r" and ok: "refund_ok calls ident r" and c: "c \<in> set calls"
  shows "\<exists>r'. get_refund R ident (refund_step R ident c s) = Some r' \<and> refund_ok calls ident r'"
proof (cases c)
  case (RExecute now txHash)
  show ?thesis
    using ok g RExecute
    by (auto simp: execute_refund_def Let_def save_refund_def get_refund_def redis_get_set [OF R] refund_ok_def refund_decided_def)
next
  case (RVote now members voter v)
  show ?thesis
  proof (cases "re_status r \<noteq> RVoting \<or> re_votingDeadline r < now \<or> voter \<notin> set members")
    case True
    then show ?thesis using g ok RVote by (auto simp: vote_refund_def)
  next
    case False
    let ?r = "r\<lparr>re_votes := js_set voter v (re_votes r)\<rparr>"
    have id: "re_id (decide_refund n ?r) = ident" "re_id ?r = ident" for n
      using ok by (simp_all add: refund_ok_def decide_refund_def Let_def)
    have step: "refund_step R ident c s = resolve_refund R (length members) ?r (save_refund R ?r s)"
      using False g RVote by (simp add: vote_refund_def Let_def)
    have stored: "get_refund R ident (refund_step R ident c s) = Some (decide_refund (length members) ?r)"
      unfolding step
      by (simp add: resolve_refund_def get_refund_def save_refund_def redis_get_set [OF R] id)
        (auto simp: decide_refund_def Let_def)
    have vote: "RVote now members voter v \<in> set calls" "voter \<in> set members" "now \<le> re_votingDeadline r" using c RVote False by auto
    then have "refund_cast calls voter v" by (auto simp: refund_cast_def)
    then have cast: "\<forall>m v'. js_get (re_votes ?r) m = Some v' \<longrightarrow> refund_cast calls m v'"
      using ok by (auto simp: refund_ok_def js_simps)
    have "refund_decided calls (decide_refund (length members) ?r)" if "re_status (decide_refund (length members) ?r) = RApproved"
    proof -
      have "length members \<le> 2 * count_votes Yes (re_votes ?r)" using that False refd.accepted_iff [of ?r "length members"] by simp
      moreover have "re_votes (decide_refund (length members) ?r) = re_votes ?r" "re_votingDeadline (decide_refund (length members) ?r) = re_votingDeadline r"
        by (simp_all add: decide_refund_def Let_def)
      ultimately show ?thesis using vote unfolding refund_decided_def by metis
    qed
    moreover have "re_status (decide_refund (length members) ?r) \<noteq> RExecuted" using False by (auto simp: decide_refund_def Let_def)
    moreover have "re_votes (decide_refund (length members) ?r) = js_set voter v (re_votes r)" by (simp add: decide_refund_def Let_def)
    ultimately have "refund_ok calls ident (decide_refund (length members) ?r)"
      using cast id ok by (simp add: refund_ok_def)
    with stored show ?thesis by blast
  qed
qed

lemma refund_run_ok:
  assumes R: "redis_laws R"
  shows "get_refund R ident s = Some r \<Longrightarrow> refund_ok calls ident r \<Longrightarrow> set cs \<subseteq> set calls \<Longrightarrow>
    \<exists>r'. get_refund R ident (fold (refund_step R ident) cs s) = Some r' \<and> refund_ok calls ident r'"
proof (induction cs arbitrary: s r)
  case (Cons c cs)
  from refund_step_ok [OF R Cons.prems(1,2), of c] Cons.prems(3) obtain r1
    where "get_refund R ident (refund_step R ident c s) = Some r1" "refund_ok calls ident r1" by auto
  from Cons.IH [OF this] Cons.prems(3) show ?case by simp
qed simp

datatype dispute_call = DVote int "string list" string vote | DAuto int "string list" | DEscalate | DAdmin string string

fun dispute_step :: "('s, dispute) redis \<Rightarrow> string \<Rightarrow> dispute_call \<Rightarrow> 's \<Rightarrow> 's" where
  "dispute_step R ident (DVote now members voter v) s = snd (vote_on_dispute R now members ident voter v s)"
| "dispute_step R ident (DAuto now members) s = snd (try_auto_resolve R now members ident s)"
| "dispute_step R ident DEscalate s = snd (escalate_to_admin R ident s)"
| "dispute_step R ident (DAdmin adminId decision) s = snd (admin_resolve R ident adminId decision s)"

text \<open>Votes and automatic resolutions read the members anew.\<close>

definition dispute_cast :: "dispute_call list \<Rightarrow> string \<Rightarrow> vote \<Rightarrow> bool" where
  "dispute_cast calls m v \<longleftrightarrow> (\<exists>now members. DVote now members m v \<in> set calls \<and> m \<in> set members)"

definition dispute_read :: "dispute_call list \<Rightarrow> string list \<Rightarrow> bool" where
  "dispute_read calls members \<longleftrightarrow> (\<exists>now m v. DVote now members m v \<in> set calls) \<or> (\<exists>now. DAuto now members \<in> set calls)"

definition dispute_ok :: "dispute_call list \<Rightarrow> dispute \<Rightarrow> bool" where
  "dispute_ok calls d \<longleftrightarrow>
     js_wf (di_votes d) \<and> (\<forall>m v. js_get (di_votes d) m = Some v \<longrightarrow> dispute_cast calls m v) \<and>
     (di_decision d \<noteq> None \<longrightarrow> di_status d \<noteq> DVoting) \<and>
     (\<forall>v. di_decision d = Some v \<longrightarrow> (\<exists>members. dispute_read calls members \<and> length members \<le> 2 * count_votes v (di_votes d)))"

lemma decide_dispute_ok:
  assumes "dispute_ok calls d" and "di_status d = DVoting" and "dispute_read calls members"
  shows "dispute_ok calls (decide_dispute now (length members) d)"
  using assms by (auto simp: dispute_ok_def decide_dispute_def Let_def majority_le)

lemma decide_dispute_same: "di_status (decide_dispute now n d) = DVoting \<Longrightarrow> decide_dispute now n d = d"
  by (auto simp: decide_dispute_def Let_def split: if_splits)

lemma try_auto_resolve_get:
  assumes R: "redis_laws R" and g: "get_dispute R ident s = Some d"
  shows "get_dispute R ident (snd (try_auto_resolve R now members ident s)) =
    Some (if di_status d = DVoting then decide_dispute now (length members) d else d)"
  using g decide_dispute_same [of now "length members" d]
  by (auto simp: try_auto_resolve_def Let_def get_dispute_def redis_get_set [OF R])

lemma vote_on_dispute_get:
  assumes R: "redis_laws R" and g: "get_dispute R ident s = Some d"
    and v: "fst (vote_on_dispute R now members ident voter v s) = Inr d'"
  shows "d' = d\<lparr>di_votes := js_set voter v (di_votes d)\<rparr> \<and> di_status d = DVoting \<and> voter \<in> set members \<and>
    \<not> deadline_passed now d \<and>
    get_dispute R ident (snd (vote_on_dispute R now members ident voter v s)) =
      Some (decide_dispute now (length members) d')"
proof -
  let ?d = "d\<lparr>di_votes := js_set voter v (di_votes d)\<rparr>"
  have c: "di_status d = DVoting" "\<not> deadline_passed now d" "voter \<in> set members" and d': "d' = ?d"
    using v g by (auto simp: vote_on_dispute_def Let_def split: if_splits)
  have "get_dispute R ident (rd_set R (dispute_key ident) ?d s) = Some ?d"
    by (simp add: get_dispute_def redis_get_set [OF R])
  from try_auto_resolve_get [OF R this, of now members] c g show ?thesis
    by (simp add: vote_on_dispute_def Let_def d')
qed

lemma dispute_step_ok:
  assumes R: "redis_laws R" and g: "get_dispute R ident s = Some d" and ok: "dispute_ok calls d" and c: "c \<in> set calls"
  shows "\<exists>d'. get_dispute R ident (dispute_step R ident c s) = Some d' \<and> dispute_ok calls d'"
proof (cases c)
  case (DVote now members voter v)
  obtain r s1 where v: "vote_on_dispute R now members ident voter v s = (r, s1)" by fastforce
  show ?thesis
  proof (cases r)
    case (Inl e)
    then have "s1 = s" using v g by (auto simp: vote_on_dispute_def Let_def split: if_splits)
    then show ?thesis using v g ok DVote by simp
  next
    case (Inr d')
    have f: "fst (vote_on_dispute R now members ident voter v s) = Inr d'" using v Inr by simp
    from vote_on_dispute_get [OF R g f] have d': "d' = d\<lparr>di_votes := js_set voter v (di_votes d)\<rparr>"
      "di_status d = DVoting" "voter \<in> set members"
      "get_dispute R ident s1 = Some (decide_dispute now (length members) d')" using v by simp_all
    have "dispute_cast calls voter v" "dispute_read calls members" using c DVote d'(3) by (auto simp: dispute_cast_def dispute_read_def)
    moreover have "dispute_ok calls d'"
      using ok d'(2) \<open>dispute_cast calls voter v\<close> by (auto simp: d'(1) dispute_ok_def js_simps)
    ultimately have "dispute_ok calls (decide_dispute now (length members) d')"
      using d'(1,2) by (intro decide_dispute_ok) simp_all
    then show ?thesis using DVote v d'(4) by simp
  qed
next
  case (DAuto now members)
  then have "dispute_read calls members" using c by (auto simp: dispute_read_def)
  then show ?thesis using try_auto_resolve_get [OF R g] ok decide_dispute_ok DAuto by auto
next
  case DEscalate
  then show ?thesis using g ok
    by (simp add: escalate_to_admin_def Let_def get_dispute_def redis_get_set [OF R] dispute_ok_def)
next
  case (DAdmin adminId decision)
  then show ?thesis using g ok
    by (simp add: admin_resolve_def Let_def get_dispute_def redis_get_set [OF R] dispute_ok_def)
qed

lemma dispute_run_ok:
  assumes R: "redis_laws R"
  shows "get_dispute R ident s = Some d \<Longrightarrow> dispute_ok calls d \<Longrightarrow> set cs \<subseteq> set calls \<Longrightarrow>
    \<exists>d'. get_dispute R ident (fold (dispute_step R ident) cs s) = Some d' \<and> dispute_ok calls d'"
proof (induction cs arbitrary: s d)
  case (Cons c cs)
  from dispute_step_ok [OF R Cons.prems(1,2), of c] Cons.prems(3) obtain d1
    where "get_dispute R ident (dispute_step R ident c s) = Some d1" "dispute_ok calls d1" by auto
  from Cons.IH [OF this] Cons.prems(3) show ?case by simp
qed simp

section \<open>Properties\<close>

text \<open>
  C9. A refund is approved or executed only after a vote that decided it: from the request on, whatever votes and executions
  are attempted, and however the group's members change between them, there was a vote of a member before the deadline at which the refund's yes
  votes were at least half as many as the members of that moment; and each of these yes votes is the ballot of a different person, who
  was a member when casting it.
\<close>

theorem refund_needs_half:
  assumes "redis_laws R"
    and "request_refund R window t0 members0 ident groupId requestedBy reason amount s = (Inr r0, s0)"
    and "get_refund R ident (fold (refund_step R ident) calls s0) = Some r"
    and "re_status r = RApproved \<or> re_status r = RExecuted"
  shows "(\<exists>now members m v. RVote now members m v \<in> set calls \<and> m \<in> set members \<and> now \<le> re_votingDeadline r \<and>
        length members \<le> 2 * card {m. js_get (re_votes r) m = Some Yes}) \<and>
    {m. js_get (re_votes r) m = Some Yes} \<subseteq> {m. \<exists>now members. RVote now members m Yes \<in> set calls \<and> m \<in> set members}"
proof -
  have "get_refund R ident s0 = Some r0 \<and> refund_ok calls ident r0"
    using assms(2)
    by (auto simp: request_refund_def Let_def get_refund_def redis_get_sadd [OF assms(1)]
        redis_get_set [OF assms(1)] refund_ok_def split: if_splits)
  from refund_run_ok [OF assms(1) conjunct1 [OF this] conjunct2 [OF this], of calls] assms(3)
  have ok: "refund_ok calls ident r" by simp
  then have "refund_decided calls r" "js_wf (re_votes r)" "\<forall>m v. js_get (re_votes r) m = Some v \<longrightarrow> refund_cast calls m v"
    using assms(4) by (simp_all add: refund_ok_def)
  then show ?thesis by (auto simp: refund_decided_def refund_cast_def count_votes_members)
qed

definition refund_demo :: "((string \<Rightarrow> refund option) \<times> (string \<Rightarrow> string list))" where
  "refund_demo = snd (request_refund memory_redis 100 0 [''a'', ''b''] ''r'' ''g'' ''a'' ''why'' None
     ((\<lambda>_. None), (\<lambda>_. [])))"

definition refund_demo_final :: refund where
  "refund_demo_final = \<lparr>re_id = ''r'', re_groupId = ''g'', re_requestedBy = ''a'', re_reason = ''why'',
     re_amount = None, re_status = RExecuted, re_votes = [(''b'', Yes)], re_votingDeadline = 100,
     re_createdAt = 0, re_executedAt = Some 6, re_txHash = Some ''tx''\<rparr>"

theorem refund_needs_half_witness:
  "2 \<le> 2 * card {m. js_get (re_votes refund_demo_final) m = Some Yes}"
proof -
  have m1: "majority (Suc (Suc 0)) = 1" by (simp add: majority_def ceil_div_def)
  have q: "fst (request_refund memory_redis 100 0 [''a'', ''b''] ''r'' ''g'' ''a'' ''why'' None
      ((\<lambda>_. None), (\<lambda>_. []))) = Inr (refund_demo_final\<lparr>re_status := RVoting, re_votes := [],
        re_executedAt := None, re_txHash := None\<rparr>)"
    by (simp add: request_refund_def refund_demo_final_def Let_def)
  then have q': "request_refund memory_redis 100 0 [''a'', ''b''] ''r'' ''g'' ''a'' ''why'' None
      ((\<lambda>_. None), (\<lambda>_. [])) = (Inr (refund_demo_final\<lparr>re_status := RVoting, re_votes := [],
        re_executedAt := None, re_txHash := None\<rparr>), refund_demo)"
    by (simp add: refund_demo_def prod_eq_iff)
  have f: "get_refund memory_redis ''r'' (fold (refund_step memory_redis ''r'')
      [RVote 5 [''a'', ''b''] ''b'' Yes, RExecute 6 ''tx''] refund_demo) = Some refund_demo_final"
    by (simp add: refund_demo_def request_refund_def memory_redis_def get_refund_def vote_refund_def
        resolve_refund_def decide_refund_def save_refund_def execute_refund_def Let_def
        refund_demo_final_def count_votes_def m1 refund_key_def)
  show ?thesis
    using refund_needs_half [OF memory_redis_laws q' f] by (auto simp: refund_demo_final_def)
qed

text \<open>
  What a vote on a dispute stores: an accepted vote replaces the voter's earlier one, was
  cast by a member before the deadline while voting was open, and the stored dispute is the
  decision on the new ballots; the object returned to the caller still says voting is open.
\<close>

theorem dispute_vote_effect:
  assumes "redis_laws R" and "get_dispute R ident s = Some d"
    and "fst (vote_on_dispute R now members ident voter v s) = Inr d'"
  shows "di_votes d' = js_set voter v (di_votes d) \<and> di_status d' = DVoting \<and> voter \<in> set members \<and>
    \<not> deadline_passed now d \<and>
    get_dispute R ident (snd (vote_on_dispute R now members ident voter v s)) =
      Some (decide_dispute now (length members) d')"
  using vote_on_dispute_get [OF assms] by simp

definition demo_dispute :: dispute where
  "demo_dispute = \<lparr>di_id = ''d'', di_groupId = ''g'', di_filedBy = ''a'', di_type = Fraud, di_summary = None,
     di_evidence = [], di_status = DVoting, di_votes = [(''a'', No)], di_createdAt = 0,
     di_votingDeadline = Some 100, di_decision = None, di_resolvedBy = None, di_adminDecision = None\<rparr>"

definition demo_store :: "(string \<Rightarrow> dispute option) \<times> (string \<Rightarrow> string list)" where
  "demo_store = ([dispute_key ''d'' \<mapsto> demo_dispute], (\<lambda>_. []))"

lemma demo_get: "get_dispute memory_redis ''d'' demo_store = Some demo_dispute"
  by (simp add: get_dispute_def memory_redis_def demo_store_def)

lemma demo_vote:
  "fst (vote_on_dispute memory_redis 50 [''a'', ''b''] ''d'' ''b'' Yes demo_store) =
     Inr (demo_dispute\<lparr>di_votes := [(''a'', No), (''b'', Yes)]\<rparr>)"
  by (simp add: vote_on_dispute_def demo_get Let_def) (simp add: demo_dispute_def deadline_passed_def)

theorem dispute_vote_effect_witness:
  "get_dispute memory_redis ''d'' (snd (vote_on_dispute memory_redis 50 [''a'', ''b''] ''d'' ''b'' Yes demo_store)) =
     Some (decide_dispute 50 2 (demo_dispute\<lparr>di_votes := [(''a'', No), (''b'', Yes)]\<rparr>))"
  using dispute_vote_effect [OF memory_redis_laws demo_get demo_vote] by (simp add: numeral_2_eq_2)

text \<open>
  A community decision on a dispute needs half of the members: whatever votes, automatic resolutions, escalations and admin
  resolutions follow the filing, a dispute whose decision is yes (or no) has that vote at least half as often as there were members when
  one of the calls read them, and each of these votes was cast by a member.
\<close>

theorem dispute_decision_needs_half:
  assumes "redis_laws R"
    and "file_dispute R window t0 members0 uuid groupId filedBy kind summary evidence s = (Inr d0, s0)"
    and "get_dispute R (uuid 0) (fold (dispute_step R (uuid 0)) calls s0) = Some d"
    and "di_decision d = Some v"
  shows "(\<exists>members. dispute_read calls members \<and> length members \<le> 2 * card {m. js_get (di_votes d) m = Some v}) \<and>
    {m. js_get (di_votes d) m = Some v} \<subseteq> {m. dispute_cast calls m v}"
proof -
  have "get_dispute R (uuid 0) s0 = Some d0 \<and> dispute_ok calls d0"
    using assms(2)
    by (auto simp: file_dispute_def Let_def get_dispute_def redis_get_sadd [OF assms(1)]
        redis_get_set [OF assms(1)] dispute_ok_def split: if_splits)
  from dispute_run_ok [OF assms(1) conjunct1 [OF this] conjunct2 [OF this], of calls] assms(3)
  have "dispute_ok calls d" by simp
  then have "\<exists>members. dispute_read calls members \<and> length members \<le> 2 * count_votes v (di_votes d)" "js_wf (di_votes d)"
    "\<forall>m v. js_get (di_votes d) m = Some v \<longrightarrow> dispute_cast calls m v"
    using assms(4) by (simp_all add: dispute_ok_def)
  then show ?thesis by (auto simp: count_votes_members)
qed

theorem dispute_decision_needs_half_witness:
  "\<exists>d. get_dispute memory_redis ''0'' (fold (dispute_step memory_redis ''0'') [DVote 1 [''a''] ''a'' Yes]
        (snd (file_dispute memory_redis 100 0 [''a''] (\<lambda>_. ''0'') ''g'' ''a'' Fraud None [] ((\<lambda>_. None), (\<lambda>_. []))))) = Some d \<and>
     1 \<le> 2 * card {m. js_get (di_votes d) m = Some Yes}"
proof -
  let ?f = "file_dispute memory_redis 100 0 [''a''] (\<lambda>_. ''0'') ''g'' ''a'' Fraud None [] ((\<lambda>_. None), (\<lambda>_. []))"
  let ?s = "fold (dispute_step memory_redis ''0'') [DVote 1 [''a''] ''a'' Yes] (snd ?f)"
  have m1: "majority (Suc 0) = 1" by (simp add: majority_def ceil_div_def)
  obtain d0 where f: "?f = (Inr d0, snd ?f)"
    by (simp add: file_dispute_def Let_def)
  obtain d where d: "get_dispute memory_redis ''0'' ?s = Some d" "di_decision d = Some Yes"
    by (simp add: file_dispute_def Let_def memory_redis_def get_dispute_def dispute_key_def vote_on_dispute_def
        deadline_passed_def try_auto_resolve_def decide_dispute_def count_votes_def m1)
  have "\<exists>members. dispute_read [DVote 1 [''a''] ''a'' Yes] members \<and> length members \<le> 2 * card {m. js_get (di_votes d) m = Some Yes}"
    using dispute_decision_needs_half [where uuid = "\<lambda>_. ''0''", OF memory_redis_laws f d] by simp
  then show ?thesis using d(1) by (auto simp: dispute_read_def)
qed

text \<open>
  The documented majority of more than half is not what is required: when the members split
  evenly the dispute is resolved as yes, and the refund is approved.
\<close>

theorem even_split_is_yes:
  assumes "di_status d = DVoting" and "di_decision d = None" and "re_status r = RVoting"
    and "count_votes Yes (di_votes d) = k" and "count_votes No (di_votes d) = k"
    and "count_votes Yes (re_votes r) = k" and "count_votes No (re_votes r) = k"
  shows "di_decision (decide_dispute now (2 * k) d) = Some Yes \<and>
    re_status (decide_refund (2 * k) r) = RApproved"
  using disp.tie_is_accepted [of d k "2 * k" now] refd.tie_is_accepted [of r k "2 * k"] assms by simp

theorem even_split_is_yes_witness:
  "di_decision (decide_dispute 50 2 (demo_dispute\<lparr>di_votes := [(''a'', No), (''b'', Yes)]\<rparr>)) = Some Yes"
  using even_split_is_yes [of "demo_dispute\<lparr>di_votes := [(''a'', No), (''b'', Yes)]\<rparr>"
      "refund_demo_final\<lparr>re_status := RVoting, re_votes := [(''a'', No), (''b'', Yes)]\<rparr>" 1 50]
  by (simp add: demo_dispute_def refund_demo_final_def count_votes_def)

text \<open>
  Ballots of members who have left still count: of three members one votes yes and leaves, one of the other two votes no, and the
  refund is approved by a yes of nobody who is a member.
\<close>

theorem departed_ballot_decides:
  "\<exists>r. get_refund memory_redis ''r'' (fold (refund_step memory_redis ''r'') [RVote 5 [''a'', ''b'', ''c''] ''a'' Yes, RVote 6 [''b'', ''c''] ''b'' No]
      (snd (request_refund memory_redis 100 0 [''a'', ''b'', ''c''] ''r'' ''g'' ''c'' ''why'' None ((\<lambda>_. None), (\<lambda>_. []))))) = Some r
    \<and> re_status r = RApproved \<and> re_votes r = [(''a'', Yes), (''b'', No)]"
proof -
  have m: "majority (Suc (Suc 0)) = 1" "majority (Suc (Suc (Suc 0))) = 2" by (simp_all add: majority_def ceil_div_def)
  show ?thesis
    by (simp add: request_refund_def memory_redis_def get_refund_def vote_refund_def resolve_refund_def decide_refund_def save_refund_def
        Let_def count_votes_def m refund_key_def)
qed

end
