(* ===== verification/Shards.thy ===== *)
theory Shards
  imports JsPrelude "HOL-Library.Word"
begin

text \<open>
  Database sharding, \<open>backend/src/utils/shardRouter.ts\<close>: the string hash, kept at 32 bits as the
  bitwise operators of the code do, the ranges \<open>createShardRouter\<close> cuts the hash space into,
  and the lookup of the shard of a key. Range bounds are rationals, since \<open>1000000 / shardCount\<close>
  need not be whole; for a divisor of 1000000 they are exact in the code's arithmetic too.
  Connection pools are values of a type variable; queries on them are left out.
\<close>

section \<open>The hash\<close>

definition hash_step :: "32 word \<Rightarrow> char \<Rightarrow> 32 word" where
  "hash_step hash c = push_bit 5 hash - hash + word_of_nat (of_char c)"

definition hash_key :: "string \<Rightarrow> int" where
  "hash_key key = \<bar>sint (foldl hash_step 0 key)\<bar> mod 1000000"

section \<open>Shards\<close>

record shard_range =
  kr_min :: rat
  kr_max :: rat

record shard_config =
  sh_id :: nat
  sh_connectionString :: string
  sh_keyRange :: shard_range

record 'p shard_router =
  sr_shards :: "(nat, 'p) jsmap"
  sr_configs :: "shard_config list"

datatype shard_error = NoShardFound string | PoolNotFound nat

definition new_router :: "(shard_config \<Rightarrow> 'p) \<Rightarrow> shard_config list \<Rightarrow> 'p shard_router" where
  "new_router open_pool configs =
     \<lparr>sr_shards = fold (\<lambda>c m. js_set (sh_id c) (open_pool c) m) configs [], sr_configs = configs\<rparr>"

definition in_range :: "int \<Rightarrow> shard_config \<Rightarrow> bool" where
  "in_range hash s \<longleftrightarrow> kr_min (sh_keyRange s) \<le> of_int hash \<and> of_int hash \<le> kr_max (sh_keyRange s)"

definition shard_of_hash :: "int \<Rightarrow> shard_config list \<Rightarrow> nat option" where
  "shard_of_hash hash configs = map_option sh_id (find (in_range hash) configs)"

definition get_shard_id :: "'p shard_router \<Rightarrow> string \<Rightarrow> shard_error + nat" where
  "get_shard_id r key =
     (case shard_of_hash (hash_key key) (sr_configs r) of
        None \<Rightarrow> Inl (NoShardFound key) | Some i \<Rightarrow> Inr i)"

definition get_shard_pool :: "'p shard_router \<Rightarrow> string \<Rightarrow> shard_error + 'p" where
  "get_shard_pool r key =
     (case get_shard_id r key of
        Inl e \<Rightarrow> Inl e
      | Inr i \<Rightarrow> (case js_get (sr_shards r) i of None \<Rightarrow> Inl (PoolNotFound i) | Some p \<Rightarrow> Inr p))"

text \<open>\<open>env i\<close> is \<open>SHARD_i_DATABASE_URL\<close> when set, else \<open>DATABASE_URL\<close>.\<close>

definition shard_config_at :: "(nat \<Rightarrow> string) \<Rightarrow> nat \<Rightarrow> nat \<Rightarrow> shard_config" where
  "shard_config_at env shardCount i =
     (let rangePerShard = 1000000 / of_nat shardCount
      in \<lparr>sh_id = i, sh_connectionString = env i,
          sh_keyRange = \<lparr>kr_min = of_nat i * rangePerShard, kr_max = of_nat (i + 1) * rangePerShard - 1\<rparr>\<rparr>)"

definition shard_configs :: "(nat \<Rightarrow> string) \<Rightarrow> nat \<Rightarrow> shard_config list" where
  "shard_configs env shardCount = map (shard_config_at env shardCount) [0..<shardCount]"

definition create_shard_router :: "(shard_config \<Rightarrow> 'p) \<Rightarrow> (nat \<Rightarrow> string) \<Rightarrow> nat \<Rightarrow> 'p shard_router" where
  "create_shard_router open_pool env shardCount = new_router open_pool (shard_configs env shardCount)"

section \<open>Lookup\<close>

lemma hash_key_bounds: "0 \<le> hash_key key \<and> hash_key key < 1000000"
  by (simp add: hash_key_def)

lemma find_upt:
  assumes "j < n" and "P j" and "\<And>i. i < n \<Longrightarrow> P i \<Longrightarrow> i = j"
  shows "find P [0..<n] = Some j"
proof -
  have "\<not> P ([0..<n] ! i)" if "i < j" for i
    using that assms(1,3) by (metis nth_upt add_0 less_trans less_irrefl)
  then show ?thesis using assms(1,2) by (auto simp: find_Some_iff intro!: exI [of _ j])
qed

lemma div_bounds:
  assumes "0 < (w :: int)"
  shows "h div w * w \<le> h" and "h < h div w * w + w"
proof -
  have "h div w * w + h mod w = h" by (rule div_mult_mod_eq)
  moreover have "0 \<le> h mod w" "h mod w < w" using assms by simp_all
  ultimately show "h div w * w \<le> h" "h < h div w * w + w" by linarith+
qed

lemma div_less_of:
  assumes "0 < (w :: int)" and "h < n * w"
  shows "h div w < n"
proof (rule ccontr)
  assume "\<not> h div w < n"
  then have "n * w \<le> h div w * w" using assms(1) by (simp add: mult_right_mono)
  with div_bounds(1) [OF assms(1), of h] assms(2) show False by linarith
qed

lemma div_unique_of:
  assumes "0 < (w :: int)" and "i * w \<le> h" and "h < i * w + w"
  shows "h div w = i"
  by (rule int_div_pos_eq [where r = "h - w * i"]) (use assms in \<open>simp_all add: mult.commute\<close>)

lemma find_map_config: "find (in_range h) (map f is) = map_option f (find (\<lambda>i. in_range h (f i)) is)"
  by (induction "is") auto

lemma in_range_exact:
  assumes "0 < n" and "n * w = 1000000"
  shows "in_range h (shard_config_at env n i) \<longleftrightarrow> int i * int w \<le> h \<and> h < int (i + 1) * int w"
proof -
  have q: "(1000000 :: rat) / of_nat n = of_nat w"
    using assms by (simp add: field_simps) (metis of_nat_mult of_nat_numeral mult.commute)
  have "in_range h (shard_config_at env n i) \<longleftrightarrow>
      (of_int (int i * int w) :: rat) \<le> of_int h \<and> (of_int h :: rat) \<le> of_int (int (i + 1) * int w - 1)"
    by (simp add: in_range_def shard_config_at_def Let_def q)
  also have "\<dots> \<longleftrightarrow> int i * int w \<le> h \<and> h \<le> int (i + 1) * int w - 1"
    by (simp only: of_int_le_iff)
  finally show ?thesis by simp
qed

lemma shard_of_hash_exact:
  assumes n: "0 < n" and w: "n * w = 1000000" and h: "0 \<le> h" "h < 1000000"
  shows "shard_of_hash h (shard_configs env n) = Some (nat (h div int w))"
proof -
  have w0: "0 < w" using w by (cases w) auto
  let ?j = "nat (h div int w)"
  have nn: "0 \<le> h div int w" using h(1) w0 by (simp add: pos_imp_zdiv_nonneg_iff)
  have j: "int ?j = h div int w" using nn by (rule nat_0_le)
  have wpos: "0 < int w" using w0 by simp
  have "int n * int w = 1000000" using w by (metis of_nat_mult of_nat_numeral)
  then have "h div int w < int n" using h(2) by (intro div_less_of [OF wpos]) simp
  then have lt: "?j < n" using j by linarith
  have "find (\<lambda>i. in_range h (shard_config_at env n i)) [0..<n] = Some ?j"
  proof (rule find_upt [OF lt])
    have "h div int w * int w \<le> h" "h < h div int w * int w + int w"
      using div_bounds [OF wpos] by blast+
    then show "in_range h (shard_config_at env n ?j)"
      using in_range_exact [OF n w, of h env ?j] j by (simp add: algebra_simps)
  next
    fix i assume "in_range h (shard_config_at env n i)"
    then have "int i * int w \<le> h" "h < int i * int w + int w"
      using in_range_exact [OF n w] by (simp_all add: algebra_simps)
    then have "h div int w = int i" by (rule div_unique_of [OF wpos])
    then show "i = ?j" by simp
  qed
  then show ?thesis
    by (simp add: shard_of_hash_def shard_configs_def find_map_config shard_config_at_def Let_def option.map_comp comp_def)
qed

lemma router_pools:
  "js_get (sr_shards (create_shard_router open_pool env n)) i =
     (if i < n then Some (open_pool (shard_config_at env n i)) else None)"
proof -
  have "js_get (fold (\<lambda>c m. js_set (sh_id c) (open_pool c) m) (map (shard_config_at env n) [0..<k]) []) i =
      (if i < k then Some (open_pool (shard_config_at env n i)) else None)" for k
    by (induction k) (auto simp: js_simps shard_config_at_def Let_def less_Suc_eq)
  then show ?thesis by (simp add: create_shard_router_def new_router_def shard_configs_def)
qed

lemma router_configs:
  "sr_configs (create_shard_router open_pool env n) = shard_configs env n"
  by (simp add: create_shard_router_def new_router_def)

section \<open>Properties\<close>

text \<open>
  Routing is total and exact when the shard count divides the hash space: every key's hash
  is in range, and the key goes to the pool of shard \<open>hash div (1000000 div shardCount)\<close>.
\<close>

theorem shard_routing_total:
  assumes "0 < n" and "n dvd 1000000"
  shows "0 \<le> hash_key key \<and> hash_key key < 1000000 \<and>
    get_shard_pool (create_shard_router open_pool env n) key =
      Inr (open_pool (shard_config_at env n (nat (hash_key key div (1000000 div int n)))))"
proof -
  let ?w = "1000000 div n" and ?h = "hash_key key"
  have w: "n * ?w = 1000000" using assms(2) by simp
  have iw: "int ?w = 1000000 div int n" by (simp add: zdiv_int)
  have s: "shard_of_hash ?h (shard_configs env n) = Some (nat (?h div int ?w))"
    using shard_of_hash_exact [OF assms(1) w] hash_key_bounds by simp
  have w0: "0 < ?w" using w by (cases ?w) auto
  have "?h < int n * int ?w" using hash_key_bounds [of key] w by (metis of_nat_mult of_nat_numeral)
  then have "?h div int ?w < int n" using w0 by (intro div_less_of) simp_all
  moreover have "0 \<le> ?h div int ?w" using hash_key_bounds [of key] w0 by (simp add: pos_imp_zdiv_nonneg_iff)
  ultimately have "nat (?h div int ?w) < n" by linarith
  then show ?thesis
    using s hash_key_bounds [of key]
    by (simp add: get_shard_pool_def get_shard_id_def router_pools router_configs iw)
qed

theorem shard_routing_total_witness:
  "\<exists>p. get_shard_pool (create_shard_router sh_id (\<lambda>_. ''postgres://'') 4) ''group:7'' = Inr p"
  using shard_routing_total [of 4 "''group:7''" sh_id "\<lambda>_. ''postgres://''"] by auto

text \<open>
  Otherwise the ranges have holes: for a shard count that does not divide the hash space,
  the hash \<open>1000000 div shardCount\<close> belongs to no shard, and every key with that hash is
  refused with \<open>No shard found\<close>.
\<close>

theorem shard_ranges_have_holes:
  assumes "0 < n" and "\<not> n dvd 1000000"
  shows "shard_of_hash (1000000 div int n) (shard_configs env n) = None"
proof -
  let ?q = "(1000000 :: rat) / of_nat n" and ?h = "1000000 div int n"
  have n0: "(0 :: rat) < of_nat n" using assms(1) by simp
  have m: "int n * ?h + 1000000 mod int n = 1000000" by simp
  have m0: "0 < 1000000 mod int n"
  proof -
    have "1000000 mod int n \<noteq> 0" using assms(2) by (metis dvd_eq_mod_eq_0 int_dvd_int_iff of_nat_numeral)
    moreover have "0 \<le> 1000000 mod int n" using assms(1) by simp
    ultimately show ?thesis by simp
  qed
  have m1: "1000000 mod int n < int n" using assms(1) by simp
  have "of_int (int n * ?h) < (1000000 :: rat)" using m m0 by (metis of_int_less_iff of_int_numeral less_add_same_cancel1)
  then have lo: "of_int ?h < ?q" using n0 by (simp add: less_divide_eq mult.commute)
  have "(1000000 :: rat) < of_int (int n * ?h + int n)" using m m1 by (metis of_int_less_iff of_int_numeral add_less_cancel_left)
  then have hi: "?q < of_int ?h + 1" using n0 by (simp add: divide_less_eq algebra_simps)
  have "\<not> in_range ?h (shard_config_at env n i)" for i
  proof (cases i)
    case 0
    then show ?thesis using hi by (simp add: in_range_def shard_config_at_def Let_def)
  next
    case (Suc k)
    have "?q \<le> of_nat i * ?q" using Suc n0 by (simp add: mult_le_cancel_right1 field_simps)
    then have "of_int ?h < of_nat i * ?q" using lo by linarith
    then show ?thesis by (simp add: in_range_def shard_config_at_def Let_def)
  qed
  then show ?thesis
    by (simp add: shard_of_hash_def shard_configs_def find_map_config find_None_iff)
qed

theorem shard_ranges_have_holes_witness:
  "shard_of_hash 333333 (shard_configs (\<lambda>_. ''postgres://'') 3) = None"
  using shard_ranges_have_holes [of 3 "\<lambda>_. ''postgres://''"] by simp

end
