(* ===== verification/Webhooks.thy ===== *)
theory Webhooks
  imports JsPrelude
begin

text \<open>
  Outgoing webhooks, \<open>backend/src/services/webhookService.ts\<close>, with the signature check of
  \<open>backend/src/middleware/webhook.ts\<close>: the registry of endpoints, the delivery queue as a
  step relation over its interleavings, one delivery with its retries, signing and checking.

  The outside world is a type variable \<open>'w\<close> reached through a record of operations: the HTTP
  request, the clock, sleeping, the delivery log table. HMAC-SHA256 and the JSON text of a
  payload are functions of that record. Random ids are arguments, payload data a type variable.
\<close>

section \<open>Data\<close>

datatype webhook_event_type =
    GroupCreated | GroupUpdated | GroupCompleted | MemberJoined | MemberLeft
  | ContributionMade | ContributionFailed | PayoutCompleted | PayoutExecuted | PayoutFailed
  | CycleStarted | CycleEnded

definition event_types :: "webhook_event_type list" where
  "event_types = [GroupCreated, GroupUpdated, GroupCompleted, MemberJoined, MemberLeft,
     ContributionMade, ContributionFailed, PayoutCompleted, PayoutExecuted, PayoutFailed,
     CycleStarted, CycleEnded]"

fun event_name :: "webhook_event_type \<Rightarrow> string" where
  "event_name GroupCreated = ''group.created''"
| "event_name GroupUpdated = ''group.updated''"
| "event_name GroupCompleted = ''group.completed''"
| "event_name MemberJoined = ''member.joined''"
| "event_name MemberLeft = ''member.left''"
| "event_name ContributionMade = ''contribution.made''"
| "event_name ContributionFailed = ''contribution.failed''"
| "event_name PayoutCompleted = ''payout.completed''"
| "event_name PayoutExecuted = ''payout.executed''"
| "event_name PayoutFailed = ''payout.failed''"
| "event_name CycleStarted = ''cycle.started''"
| "event_name CycleEnded = ''cycle.ended''"

record 'd webhook_payload =
  wp_id :: string
  wp_event :: webhook_event_type
  wp_timestamp :: string
  wp_data :: 'd

record retry_config =
  rc_maxRetries :: int
  rc_retryDelay :: int

record endpoint =
  ep_id :: string
  ep_url :: string
  ep_secret :: string
  ep_events :: "webhook_event_type list"
  ep_enabled :: bool
  ep_retryConfig :: "retry_config option"
  ep_headers :: "(string, string) jsmap option"

text \<open>\<open>Partial<WebhookEndpoint>\<close>: the fields an update gives.\<close>

record endpoint_update =
  eu_id :: "string option"
  eu_url :: "string option"
  eu_secret :: "string option"
  eu_events :: "webhook_event_type list option"
  eu_enabled :: "bool option"
  eu_retryConfig :: "retry_config option"
  eu_headers :: "(string, string) jsmap option"

record delivery_result =
  dr_success :: bool
  dr_statusCode :: "int option"
  dr_error :: "string option"
  dr_timestamp :: string
  dr_attempts :: int

record delivery_log =
  dg_subscriptionId :: string
  dg_eventType :: webhook_event_type
  dg_eventId :: string
  dg_payload :: string
  dg_statusCode :: "int option"
  dg_success :: bool
  dg_attempts :: int
  dg_error :: "string option"
  dg_duration :: int

text \<open>
  The service object; \<open>wh_current\<close> is the payload whose deliveries the running
  \<open>processQueue\<close> awaits, with the endpoints it goes to.
\<close>

record 'd webhook_service =
  wh_endpoints :: "(string, endpoint) jsmap"
  wh_deliveryQueue :: "'d webhook_payload list"
  wh_isProcessing :: bool
  wh_current :: "('d webhook_payload \<times> endpoint list) option"

definition new_webhook_service :: "'d webhook_service" where
  "new_webhook_service = \<lparr>wh_endpoints = [], wh_deliveryQueue = [], wh_isProcessing = False, wh_current = None\<rparr>"

section \<open>Endpoints\<close>

definition default_retry_config :: retry_config where
  "default_retry_config = \<lparr>rc_maxRetries = 3, rc_retryDelay = 1000\<rparr>"

definition register_endpoint :: "string \<Rightarrow> endpoint \<Rightarrow> 'd webhook_service \<Rightarrow> string \<times> 'd webhook_service" where
  "register_endpoint uuid endpoint st =
     (let webhookEndpoint = endpoint\<lparr>ep_id := uuid,
            ep_retryConfig := Some (get_or default_retry_config (ep_retryConfig endpoint))\<rparr>
      in (uuid, st\<lparr>wh_endpoints := js_set uuid webhookEndpoint (wh_endpoints st)\<rparr>))"

definition unregister_endpoint :: "string \<Rightarrow> 'd webhook_service \<Rightarrow> bool \<times> 'd webhook_service" where
  "unregister_endpoint ident st =
     (js_has (wh_endpoints st) ident, st\<lparr>wh_endpoints := js_del ident (wh_endpoints st)\<rparr>)"

definition merge_endpoint :: "endpoint \<Rightarrow> endpoint_update \<Rightarrow> endpoint" where
  "merge_endpoint e u =
     \<lparr>ep_id = get_or (ep_id e) (eu_id u), ep_url = get_or (ep_url e) (eu_url u),
      ep_secret = get_or (ep_secret e) (eu_secret u), ep_events = get_or (ep_events e) (eu_events u),
      ep_enabled = get_or (ep_enabled e) (eu_enabled u),
      ep_retryConfig = (case eu_retryConfig u of None \<Rightarrow> ep_retryConfig e | Some c \<Rightarrow> Some c),
      ep_headers = (case eu_headers u of None \<Rightarrow> ep_headers e | Some h \<Rightarrow> Some h)\<rparr>"

definition update_endpoint :: "string \<Rightarrow> endpoint_update \<Rightarrow> 'd webhook_service \<Rightarrow> bool \<times> 'd webhook_service" where
  "update_endpoint ident updates st =
     (case js_get (wh_endpoints st) ident of
        None \<Rightarrow> (False, st)
      | Some e \<Rightarrow> (True, st\<lparr>wh_endpoints := js_set ident (merge_endpoint e updates) (wh_endpoints st)\<rparr>))"

definition get_endpoints :: "'d webhook_service \<Rightarrow> endpoint list" where
  "get_endpoints st = map snd (wh_endpoints st)"

definition get_endpoint :: "string \<Rightarrow> 'd webhook_service \<Rightarrow> endpoint option" where
  "get_endpoint ident st = js_get (wh_endpoints st) ident"

definition get_webhook_stats :: "'d webhook_service \<Rightarrow> nat \<times> nat \<times> nat" where
  "get_webhook_stats st =
     (length (wh_endpoints st), length (filter ep_enabled (map snd (wh_endpoints st))),
      length (wh_deliveryQueue st))"

text \<open>
  Start-up: the enabled subscriptions of the database, then the endpoints of the environment.
  \<open>parse_events\<close>, \<open>parse_retry\<close> and \<open>parse_headers\<close> are \<open>JSON.parse\<close> on the stored columns; its
  throw ends the loading and keeps the endpoints loaded before.
\<close>

record subscription =
  su_id :: string
  su_url :: string
  su_secret :: string
  su_events :: string
  su_enabled :: bool
  su_retryConfig :: "string option"
  su_headers :: "string option"

definition endpoint_of_record ::
  "(string \<Rightarrow> string + webhook_event_type list) \<Rightarrow> (string \<Rightarrow> string + retry_config) \<Rightarrow>
   (string \<Rightarrow> string + (string, string) jsmap) \<Rightarrow> subscription \<Rightarrow> string + endpoint" where
  "endpoint_of_record parse_events parse_retry parse_headers r =
     (case parse_events (su_events r) of
        Inl e \<Rightarrow> Inl e
      | Inr events \<Rightarrow>
          (case (case truthy (su_retryConfig r) of None \<Rightarrow> Inr default_retry_config | Some t \<Rightarrow> parse_retry t) of
             Inl e \<Rightarrow> Inl e
           | Inr retry \<Rightarrow>
               (case (case truthy (su_headers r) of None \<Rightarrow> Inr None
                      | Some t \<Rightarrow> map_sum (\<lambda>x. x) Some (parse_headers t)) of
                  Inl e \<Rightarrow> Inl e
                | Inr headers \<Rightarrow>
                    Inr \<lparr>ep_id = su_id r, ep_url = su_url r, ep_secret = su_secret r, ep_events = events,
                         ep_enabled = su_enabled r, ep_retryConfig = Some retry, ep_headers = headers\<rparr>)))"

fun load_records ::
  "(subscription \<Rightarrow> string + endpoint) \<Rightarrow> subscription list \<Rightarrow> ('d webhook_service, string, unit) js_method" where
  "load_records parse [] st = (Inr (), st)"
| "load_records parse (r # rs) st =
     (case parse r of
        Inl e \<Rightarrow> (Inl e, st)
      | Inr ep \<Rightarrow> load_records parse rs (st\<lparr>wh_endpoints := js_set (su_id r) ep (wh_endpoints st)\<rparr>))"

definition env_list :: "string option \<Rightarrow> string list" where
  "env_list v = (case v of None \<Rightarrow> [] | Some s \<Rightarrow> js_split (CHR '','') s)"

fun load_env :: "nat \<Rightarrow> (nat \<Rightarrow> string) \<Rightarrow> (nat \<Rightarrow> string) \<Rightarrow> string list \<Rightarrow> string list \<Rightarrow> 'd webhook_service \<Rightarrow> 'd webhook_service" where
  "load_env i uuid random [] secrets st = st"
| "load_env i uuid random (u # urls) secrets st =
     load_env (i + 1) uuid random urls secrets
       (if js_trim u = [] then st
        else snd (register_endpoint (uuid i)
          \<lparr>ep_id = [], ep_url = js_trim u,
           ep_secret = get_or (random i) (truthy (map_option js_trim (js_at secrets i))),
           ep_events = event_types, ep_enabled = True, ep_retryConfig = None, ep_headers = None\<rparr> st))"

definition load_endpoints ::
  "(subscription \<Rightarrow> string + endpoint) \<Rightarrow> subscription list \<Rightarrow> string option \<Rightarrow> string option \<Rightarrow>
   (nat \<Rightarrow> string) \<Rightarrow> (nat \<Rightarrow> string) \<Rightarrow> ('d webhook_service, string, unit) js_method" where
  "load_endpoints parse table urls secrets uuid random =
     js_then (load_records parse (filter su_enabled table))
       (\<lambda>_ st. (Inr (), load_env 0 uuid random (env_list urls) (env_list secrets) st))"

section \<open>The delivery queue\<close>

definition subscribed_endpoints :: "'d webhook_payload \<Rightarrow> 'd webhook_service \<Rightarrow> endpoint list" where
  "subscribed_endpoints payload st =
     filter (\<lambda>e. ep_enabled e \<and> wp_event payload \<in> set (ep_events e)) (map snd (wh_endpoints st))"

text \<open>
  One turn of the loop of \<open>processQueue\<close>, up to the point where it awaits \<open>deliverPayload\<close>:
  the next payload with the endpoints subscribed at that moment, or the end of the loop.
\<close>

definition next_turn :: "'d webhook_service \<Rightarrow> 'd webhook_service" where
  "next_turn st =
     (case wh_deliveryQueue st of
        [] \<Rightarrow> st\<lparr>wh_isProcessing := False, wh_current := None\<rparr>
      | payload # rest \<Rightarrow>
          st\<lparr>wh_deliveryQueue := rest, wh_current := Some (payload, subscribed_endpoints payload st)\<rparr>)"

definition process_queue :: "'d webhook_service \<Rightarrow> 'd webhook_service" where
  "process_queue st =
     (if wh_isProcessing st \<or> wh_deliveryQueue st = [] then st
      else next_turn (st\<lparr>wh_isProcessing := True\<rparr>))"

definition trigger_event :: "'d webhook_payload \<Rightarrow> 'd webhook_service \<Rightarrow> 'd webhook_service" where
  "trigger_event payload st =
     (let st1 = st\<lparr>wh_deliveryQueue := wh_deliveryQueue st @ [payload]\<rparr>
      in if wh_isProcessing st1 then st1 else process_queue st1)"

text \<open>
  The interleavings: events are triggered and endpoints change at any time, and the awaited
  deliveries settle when they do. \<open>wh_run st triggered started\<close>: the service can be in state
  \<open>st\<close> after \<open>triggered\<close>, having started the deliveries \<open>started\<close>, each with its endpoints.
\<close>

definition begun :: "'d webhook_service \<Rightarrow> ('d webhook_payload \<times> endpoint list) list" where
  "begun st = (case wh_current st of None \<Rightarrow> [] | Some c \<Rightarrow> [c])"

inductive wh_run :: "'d webhook_service \<Rightarrow> 'd webhook_payload list \<Rightarrow> ('d webhook_payload \<times> endpoint list) list \<Rightarrow> bool" where
  wh_start: "wh_run (new_webhook_service\<lparr>wh_endpoints := eps\<rparr>) [] []"
| wh_trigger: "wh_run st ts ds \<Longrightarrow>
    wh_run (trigger_event p st) (ts @ [p]) (if wh_isProcessing st then ds else ds @ begun (trigger_event p st))"
| wh_settle: "wh_run st ts ds \<Longrightarrow> wh_current st \<noteq> None \<Longrightarrow> wh_run (next_turn st) ts (ds @ begun (next_turn st))"
| wh_register: "wh_run st ts ds \<Longrightarrow> wh_run (snd (register_endpoint i e st)) ts ds"
| wh_unregister: "wh_run st ts ds \<Longrightarrow> wh_run (snd (unregister_endpoint i st)) ts ds"
| wh_update: "wh_run st ts ds \<Longrightarrow> wh_run (snd (update_endpoint i u st)) ts ds"

section \<open>One delivery\<close>

text \<open>A throw of \<open>fetch\<close> is an \<open>Error\<close> with its message or some other value; \<open>ok\<close> is a 2xx status.\<close>

datatype thrown = ThrownError string | ThrownOther

record http_response =
  hr_status :: int
  hr_statusText :: string

record ('w, 'd) web =
  wb_now :: "'w \<Rightarrow> int"
  wb_iso :: "int \<Rightarrow> string"
  wb_fetch :: "string \<Rightarrow> (string, string) jsmap \<Rightarrow> string \<Rightarrow> ('w, thrown, http_response) js_method"
  wb_sleep :: "int \<Rightarrow> 'w \<Rightarrow> 'w"
  wb_log :: "delivery_log \<Rightarrow> 'w \<Rightarrow> 'w"
  wb_json :: "'d webhook_payload \<Rightarrow> string"
  wb_hmac :: "string \<Rightarrow> string \<Rightarrow> string"

definition response_ok :: "http_response \<Rightarrow> bool" where
  "response_ok r \<longleftrightarrow> 200 \<le> hr_status r \<and> hr_status r \<le> 299"

definition error_message :: "thrown \<Rightarrow> string" where
  "error_message e = (case e of ThrownError m \<Rightarrow> m | ThrownOther \<Rightarrow> ''Unknown error'')"

definition generate_signature :: "('w, 'd) web \<Rightarrow> 'd webhook_payload \<Rightarrow> string \<Rightarrow> string" where
  "generate_signature W payload secret = wb_hmac W secret (wb_json W payload)"

definition verify_hook_signature :: "('w, 'd) web \<Rightarrow> 'd webhook_payload \<Rightarrow> string \<Rightarrow> string \<Rightarrow> bool" where
  "verify_hook_signature W payload signature secret =
     (let expectedSignature = generate_signature W payload secret
      in length signature = length expectedSignature \<and> signature = expectedSignature)"

text \<open>\<open>{...base, ...endpoint.headers}\<close>: a header of the endpoint replaces one of the same name.\<close>

definition delivery_headers :: "('w, 'd) web \<Rightarrow> endpoint \<Rightarrow> 'd webhook_payload \<Rightarrow> (string, string) jsmap" where
  "delivery_headers W endpoint payload =
     fold (\<lambda>(k, v) h. js_set k v h) (get_or [] (ep_headers endpoint))
       [(''Content-Type'', ''application/json''),
        (''X-Webhook-Signature'', generate_signature W payload (ep_secret endpoint)),
        (''X-Webhook-Event'', event_name (wp_event payload)),
        (''X-Webhook-Id'', wp_id payload),
        (''X-Webhook-Timestamp'', wp_timestamp payload),
        (''User-Agent'', ''Soroban-Ajo-Webhook/1.0'')]"

text \<open>The request of one attempt, and what the code makes of the answer.\<close>

definition post :: "('w, 'd) web \<Rightarrow> endpoint \<Rightarrow> 'd webhook_payload \<Rightarrow> ('w, string, int) js_method" where
  "post W endpoint payload w =
     (case wb_fetch W (ep_url endpoint) (delivery_headers W endpoint payload) (wb_json W payload) w of
        (Inl e, w') \<Rightarrow> (Inl (error_message e), w')
      | (Inr response, w') \<Rightarrow>
          if response_ok response then (Inr (hr_status response), w')
          else (Inl (''HTTP '' @ show_int (hr_status response) @ '': '' @ hr_statusText response), w'))"

definition max_retries :: "endpoint \<Rightarrow> int" where
  "max_retries endpoint = (case ep_retryConfig endpoint of None \<Rightarrow> 3 | Some c \<Rightarrow> rc_maxRetries c)"

definition retry_delay :: "endpoint \<Rightarrow> int" where
  "retry_delay endpoint = (case ep_retryConfig endpoint of None \<Rightarrow> 1000 | Some c \<Rightarrow> rc_retryDelay c)"

definition log_delivery ::
  "('w, 'd) web \<Rightarrow> string \<Rightarrow> 'd webhook_payload \<Rightarrow> bool \<Rightarrow> int option \<Rightarrow> string option \<Rightarrow> int \<Rightarrow> int \<Rightarrow> 'w \<Rightarrow> 'w" where
  "log_delivery W subscriptionId payload success statusCode error attempts duration =
     wb_log W \<lparr>dg_subscriptionId = subscriptionId, dg_eventType = wp_event payload, dg_eventId = wp_id payload,
        dg_payload = wb_json W payload, dg_statusCode = statusCode, dg_success = success,
        dg_attempts = attempts, dg_error = error, dg_duration = duration\<rparr>"

function deliver_to_endpoint ::
  "('w, 'd) web \<Rightarrow> endpoint \<Rightarrow> 'd webhook_payload \<Rightarrow> int \<Rightarrow> 'w \<Rightarrow> delivery_result \<times> 'w" where
  "deliver_to_endpoint W endpoint payload attempt w =
     (case post W endpoint payload w of
        (Inr status, w1) \<Rightarrow>
          let w2 = log_delivery W (ep_id endpoint) payload True (Some status) None attempt (wb_now W w1 - wb_now W w) w1
          in (\<lparr>dr_success = True, dr_statusCode = Some status, dr_error = None,
               dr_timestamp = wb_iso W (wb_now W w2), dr_attempts = attempt\<rparr>, w2)
      | (Inl message, w1) \<Rightarrow>
          if attempt < max_retries endpoint
          then deliver_to_endpoint W endpoint payload (attempt + 1) (wb_sleep W (retry_delay endpoint * attempt) w1)
          else
            let w2 = log_delivery W (ep_id endpoint) payload False None (Some message) attempt (wb_now W w1 - wb_now W w) w1
            in (\<lparr>dr_success = False, dr_statusCode = None, dr_error = Some message,
                 dr_timestamp = wb_iso W (wb_now W w2), dr_attempts = attempt\<rparr>, w2))"
  by pat_completeness auto
termination
  by (relation "measure (\<lambda>(W, endpoint, payload, attempt, w). nat (max_retries endpoint - attempt))") auto

declare deliver_to_endpoint.simps [simp del]

section \<open>Incoming requests\<close>

text \<open>
  \<open>verifyWebhookSignature\<close>: the endpoint is looked up by the \<open>x-webhook-id\<close> header. The result is
  the \<open>AppError\<close> handed to \<open>next\<close>, or \<open>Inr\<close> for \<open>next()\<close>; all three errors are 401 UNAUTHORIZED.
\<close>

datatype webhook_error = MissingSignatureOrId | InvalidEndpoint | InvalidSignature

definition verify_webhook_signature ::
  "('w, 'd) web \<Rightarrow> 'd webhook_service \<Rightarrow> (string, string) jsmap \<Rightarrow> 'd webhook_payload \<Rightarrow> webhook_error + unit" where
  "verify_webhook_signature W st headers payload =
     (case (truthy (js_get headers ''X-Webhook-Signature''), truthy (js_get headers ''X-Webhook-Id'')) of
        (Some signature, Some webhookId) \<Rightarrow>
          (case get_endpoint webhookId st of
             None \<Rightarrow> Inl InvalidEndpoint
           | Some endpoint \<Rightarrow>
               if verify_hook_signature W payload signature (ep_secret endpoint) then Inr ()
               else Inl InvalidSignature)
      | _ \<Rightarrow> Inl MissingSignatureOrId)"

section \<open>The queue delivers in order\<close>

definition queue_inv :: "'d webhook_service \<Rightarrow> bool" where
  "queue_inv st \<longleftrightarrow> (wh_isProcessing st \<longleftrightarrow> wh_current st \<noteq> None) \<and>
     (\<not> wh_isProcessing st \<longrightarrow> wh_deliveryQueue st = [])"

lemmas queue_defs = queue_inv_def begun_def next_turn_def process_queue_def trigger_event_def Let_def

lemma trigger_idle:
  "queue_inv st \<Longrightarrow> \<not> wh_isProcessing st \<Longrightarrow>
     begun (trigger_event p st) = [(p, subscribed_endpoints p st)] \<and> wh_deliveryQueue (trigger_event p st) = []"
  by (simp add: queue_defs subscribed_endpoints_def)

lemma queue_inv_trigger: "queue_inv st \<Longrightarrow> queue_inv (trigger_event p st)"
  by (auto simp: queue_defs)

lemma queue_inv_next: "wh_isProcessing st \<Longrightarrow> queue_inv (next_turn st)"
  by (auto simp: queue_defs split: list.splits)

lemma endpoints_keep_queue [simp]:
  "wh_deliveryQueue (snd (register_endpoint i e st)) = wh_deliveryQueue st"
  "wh_deliveryQueue (snd (unregister_endpoint i st)) = wh_deliveryQueue st"
  "wh_deliveryQueue (snd (update_endpoint i u st)) = wh_deliveryQueue st"
  "queue_inv (snd (register_endpoint i e st)) = queue_inv st"
  "queue_inv (snd (unregister_endpoint i st)) = queue_inv st"
  "queue_inv (snd (update_endpoint i u st)) = queue_inv st"
  by (simp_all add: register_endpoint_def unregister_endpoint_def update_endpoint_def queue_inv_def
      Let_def split: option.splits)

lemma run_queue:
  "wh_run st ts ds \<Longrightarrow> queue_inv st \<and> map fst ds @ wh_deliveryQueue st = ts"
proof (induction rule: wh_run.induct)
  case (wh_start eps)
  then show ?case by (simp add: queue_inv_def new_webhook_service_def)
next
  case (wh_trigger st ts ds p)
  show ?case
  proof (cases "wh_isProcessing st")
    case True
    then show ?thesis using wh_trigger.IH by (auto simp: queue_defs)
  next
    case False
    then show ?thesis using wh_trigger.IH trigger_idle [of st p] queue_inv_trigger [of st p]
      by (auto simp: queue_inv_def)
  qed
next
  case (wh_settle st ts ds)
  then have "wh_isProcessing st" by (simp add: queue_inv_def)
  then have "queue_inv (next_turn st)" by (rule queue_inv_next)
  then show ?case using wh_settle by (auto simp: next_turn_def begun_def split: list.splits)
qed simp_all

definition well_addressed :: "('d webhook_payload \<times> endpoint list) list \<Rightarrow> bool" where
  "well_addressed ds \<longleftrightarrow>
     list_all (\<lambda>(p, eps). list_all (\<lambda>e. ep_enabled e \<and> wp_event p \<in> set (ep_events e)) eps) ds"

lemma begun_addressed:
  "well_addressed (begun (next_turn st))"
  "\<not> wh_isProcessing st \<Longrightarrow> well_addressed (begun (trigger_event p st))"
  by (auto simp: well_addressed_def begun_def next_turn_def trigger_event_def process_queue_def
      subscribed_endpoints_def list_all_iff Let_def split: list.splits)

lemma run_addressed: "wh_run st ts ds \<Longrightarrow> well_addressed ds"
proof (induction rule: wh_run.induct)
  case (wh_trigger st ts ds p)
  then show ?case using begun_addressed(2) [of st p] by (simp add: well_addressed_def)
next
  case (wh_settle st ts ds)
  then show ?case using begun_addressed(1) [of st] by (simp add: well_addressed_def)
qed (simp_all add: well_addressed_def)

lemma run_drains:
  "wh_run st ts ds \<Longrightarrow> wh_isProcessing st \<Longrightarrow>
     (\<exists>ds'. wh_run ((next_turn ^^ Suc (length (wh_deliveryQueue st))) st) ts ds') \<and>
     \<not> wh_isProcessing ((next_turn ^^ Suc (length (wh_deliveryQueue st))) st)"
proof (induction "length (wh_deliveryQueue st)" arbitrary: st ds)
  case 0
  have "wh_current st \<noteq> None" using run_queue [OF 0(2)] 0(3) by (simp add: queue_inv_def)
  from wh_settle [OF 0(2) this] 0(1) show ?case by (auto simp: next_turn_def)
next
  case (Suc n)
  have "wh_current st \<noteq> None" using run_queue [OF Suc(3)] Suc(4) by (simp add: queue_inv_def)
  note step = wh_settle [OF Suc(3) this]
  have "n = length (wh_deliveryQueue (next_turn st))" "wh_isProcessing (next_turn st)"
    using Suc(2,4) by (auto simp: next_turn_def split: list.splits)
  with Suc(1) [OF this(1) step this(2)] Suc(2)
  show ?case by (metis comp_apply funpow_Suc_right)
qed

section \<open>What a delivery does\<close>

text \<open>The world before attempt \<open>n + 1\<close>: after \<open>n\<close> posts, each followed by its longer pause.\<close>

fun before_attempt :: "('w, 'd) web \<Rightarrow> endpoint \<Rightarrow> 'd webhook_payload \<Rightarrow> nat \<Rightarrow> 'w \<Rightarrow> 'w" where
  "before_attempt W endpoint payload 0 w = w"
| "before_attempt W endpoint payload (Suc n) w =
     wb_sleep W (retry_delay endpoint * int (Suc n)) (snd (post W endpoint payload (before_attempt W endpoint payload n w)))"

definition attempt :: "('w, 'd) web \<Rightarrow> endpoint \<Rightarrow> 'd webhook_payload \<Rightarrow> nat \<Rightarrow> 'w \<Rightarrow> string + int" where
  "attempt W endpoint payload n w = fst (post W endpoint payload (before_attempt W endpoint payload n w))"

lemma deliver_spec:
  assumes "\<forall>j < n. \<exists>m. attempt W endpoint payload j w = Inl m"
    and "int n < max 1 (max_retries endpoint)"
  shows "\<exists>k \<ge> n. int k < max 1 (max_retries endpoint) \<and>
    (\<forall>j < k. \<exists>m. attempt W endpoint payload j w = Inl m) \<and>
    dr_attempts (fst (deliver_to_endpoint W endpoint payload (int n + 1) (before_attempt W endpoint payload n w))) = int k + 1 \<and>
    (case attempt W endpoint payload k w of
       Inr status \<Rightarrow>
         dr_success (fst (deliver_to_endpoint W endpoint payload (int n + 1) (before_attempt W endpoint payload n w))) \<and>
         dr_statusCode (fst (deliver_to_endpoint W endpoint payload (int n + 1) (before_attempt W endpoint payload n w))) = Some status
     | Inl m \<Rightarrow> int k + 1 = max 1 (max_retries endpoint) \<and>
         \<not> dr_success (fst (deliver_to_endpoint W endpoint payload (int n + 1) (before_attempt W endpoint payload n w))) \<and>
         dr_error (fst (deliver_to_endpoint W endpoint payload (int n + 1) (before_attempt W endpoint payload n w))) = Some m)"
  using assms
proof (induction "nat (max 1 (max_retries endpoint) - int n)" arbitrary: n rule: less_induct)
  case less
  let ?b = "before_attempt W endpoint payload"
  obtain r w1 where p: "post W endpoint payload (?b n w) = (r, w1)" by fastforce
  then have r: "attempt W endpoint payload n w = r" by (simp add: attempt_def)
  show ?case
  proof (cases r)
    case (Inr status)
    then show ?thesis using less.prems r p
      by (intro exI [of _ n]) (simp add: deliver_to_endpoint.simps [of W endpoint payload "int n + 1"] Let_def)
  next
    case (Inl m)
    show ?thesis
    proof (cases "int n + 1 < max_retries endpoint")
      case False
      then show ?thesis using less.prems r p Inl
        by (intro exI [of _ n])
          (simp add: deliver_to_endpoint.simps [of W endpoint payload "int n + 1"] Let_def max_def split: if_splits)
    next
      case True
      have "\<forall>j < Suc n. \<exists>m. attempt W endpoint payload j w = Inl m"
        using less.prems(1) r Inl by (auto simp: less_Suc_eq)
      moreover have "int (Suc n) < max 1 (max_retries endpoint)" using True by simp
      moreover have "nat (max 1 (max_retries endpoint) - int (Suc n)) < nat (max 1 (max_retries endpoint) - int n)"
        using less.prems(2) by simp
      moreover have "deliver_to_endpoint W endpoint payload (int n + 1) (?b n w) =
          deliver_to_endpoint W endpoint payload (int (Suc n) + 1) (?b (Suc n) w)"
        using True p Inl by (subst deliver_to_endpoint.simps) (simp add: algebra_simps)
      ultimately show ?thesis using less.hyps [of "Suc n"]
        by (metis Suc_leD)
    qed
  qed
qed

section \<open>Properties\<close>

text \<open>
  C27. Deliveries start in the order the events were triggered, whatever triggers, settlements and
  changes of endpoints interleave: what has been triggered is exactly what has been started
  followed by what waits, nothing waits once the loop is idle, and every delivery goes only to
  endpoints that were enabled and subscribed.
\<close>

theorem webhook_deliveries_in_order:
  assumes "wh_run st triggered started"
  shows "map fst started @ wh_deliveryQueue st = triggered \<and>
    (\<not> wh_isProcessing st \<longrightarrow> map fst started = triggered) \<and> well_addressed started"
  using run_queue [OF assms] run_addressed [OF assms] by (auto simp: queue_inv_def)

definition ping :: "string \<Rightarrow> string webhook_payload" where
  "ping i = \<lparr>wp_id = i, wp_event = GroupCreated, wp_timestamp = ''t'', wp_data = ''d''\<rparr>"

definition busy_service :: "string webhook_service" where
  "busy_service = trigger_event (ping ''2'') (trigger_event (ping ''1'') new_webhook_service)"

lemma busy_service_eq:
  "busy_service = \<lparr>wh_endpoints = [], wh_deliveryQueue = [ping ''2''], wh_isProcessing = True,
     wh_current = Some (ping ''1'', [])\<rparr>"
  by (simp add: busy_service_def new_webhook_service_def trigger_event_def process_queue_def next_turn_def
      subscribed_endpoints_def Let_def)

lemma busy_service_run: "wh_run busy_service [ping ''1'', ping ''2''] [(ping ''1'', [])]"
proof -
  have a: "wh_run (new_webhook_service :: string webhook_service) [] []"
    using wh_start [of "[]"] by (simp add: new_webhook_service_def)
  have b: "begun (trigger_event (ping ''1'') new_webhook_service) = [(ping ''1'', [])]"
    "wh_isProcessing (trigger_event (ping ''1'') new_webhook_service)" "\<not> wh_isProcessing (new_webhook_service :: string webhook_service)"
    by (simp_all add: new_webhook_service_def trigger_event_def process_queue_def next_turn_def
        subscribed_endpoints_def begun_def Let_def)
  from wh_trigger [OF wh_trigger [OF a, of "ping ''1''"], of "ping ''2''"] b
  show ?thesis by (simp add: busy_service_def)
qed

theorem webhook_deliveries_in_order_witness:
  "map fst [(ping ''1'', [] :: endpoint list)] @ wh_deliveryQueue busy_service = [ping ''1'', ping ''2'']"
  using webhook_deliveries_in_order [OF busy_service_run] by blast

text \<open>
  The queue drains: from any state in which the loop runs, when as many deliveries settle as
  are waiting plus the current one, and nothing else happens, every event triggered has been
  started and the loop is idle.
\<close>

theorem webhook_queue_drains:
  assumes "wh_run st triggered started" and "wh_isProcessing st"
  shows "\<exists>started'. wh_run ((next_turn ^^ Suc (length (wh_deliveryQueue st))) st) triggered started' \<and>
    map fst started' = triggered \<and>
    \<not> wh_isProcessing ((next_turn ^^ Suc (length (wh_deliveryQueue st))) st)"
proof -
  let ?st' = "(next_turn ^^ Suc (length (wh_deliveryQueue st))) st"
  obtain ds' where d: "wh_run ?st' triggered ds'" "\<not> wh_isProcessing ?st'"
    using run_drains [OF assms] by blast
  then have "map fst ds' = triggered" using run_queue [OF d(1)] by (auto simp: queue_inv_def)
  with d show ?thesis by blast
qed

theorem webhook_queue_drains_witness:
  "\<not> wh_isProcessing (next_turn (next_turn busy_service))"
  using webhook_queue_drains [OF busy_service_run] by (auto simp: busy_service_eq)

text \<open>
  One delivery: it posts up to \<open>maxRetries\<close> times, at least once, pausing 1, 2, \<dots> times the
  retry delay in between, stops at the first post that is answered with a 2xx status, and
  reports that status, or the last error when none is, with the number of posts.
\<close>

theorem webhook_delivery_attempts:
  "\<exists>k. int k < max 1 (max_retries endpoint) \<and>
    (\<forall>j < k. \<exists>m. attempt W endpoint payload j w = Inl m) \<and>
    dr_attempts (fst (deliver_to_endpoint W endpoint payload 1 w)) = int k + 1 \<and>
    (case attempt W endpoint payload k w of
       Inr status \<Rightarrow>
         dr_success (fst (deliver_to_endpoint W endpoint payload 1 w)) \<and>
         dr_statusCode (fst (deliver_to_endpoint W endpoint payload 1 w)) = Some status
     | Inl m \<Rightarrow> int k + 1 = max 1 (max_retries endpoint) \<and>
         \<not> dr_success (fst (deliver_to_endpoint W endpoint payload 1 w)) \<and>
         dr_error (fst (deliver_to_endpoint W endpoint payload 1 w)) = Some m)"
proof -
  have e: "deliver_to_endpoint W endpoint payload (int 0 + 1) (before_attempt W endpoint payload 0 w) =
      deliver_to_endpoint W endpoint payload 1 w" by simp
  show ?thesis using deliver_spec [of 0 W endpoint payload w, unfolded e] by auto
qed

lemma delivery_headers_other:
  "js_get (get_or [] (ep_headers endpoint)) name = None \<Longrightarrow>
    js_get (delivery_headers W endpoint payload) name =
      js_get [(''Content-Type'', ''application/json''),
        (''X-Webhook-Signature'', generate_signature W payload (ep_secret endpoint)),
        (''X-Webhook-Event'', event_name (wp_event payload)),
        (''X-Webhook-Id'', wp_id payload),
        (''X-Webhook-Timestamp'', wp_timestamp payload),
        (''User-Agent'', ''Soroban-Ajo-Webhook/1.0'')] name"
proof -
  have "js_get hs name = None \<Longrightarrow> js_get (fold (\<lambda>(k, v) h. js_set k v h) hs m) name = js_get m name" for hs m
    by (induction hs arbitrary: m) (auto simp: js_simps split: if_splits)
  then show "js_get (get_or [] (ep_headers endpoint)) name = None \<Longrightarrow> ?thesis"
    by (simp only: delivery_headers_def)
qed

text \<open>
  A receiver running the same service cannot check what it is sent: the id header of a
  delivery is the payload's, but the check takes it for the endpoint's, so a correctly signed
  delivery is refused as coming from an invalid endpoint unless an endpoint happens to have
  the payload's id. With the endpoint's id in the header it would be accepted.
\<close>

theorem webhook_own_delivery_rejected:
  assumes "wp_id payload \<noteq> []" and "generate_signature W payload (ep_secret endpoint) \<noteq> []"
    and "get_endpoint (wp_id payload) st = None"
    and "js_get (get_or [] (ep_headers endpoint)) ''X-Webhook-Id'' = None"
    and "js_get (get_or [] (ep_headers endpoint)) ''X-Webhook-Signature'' = None"
  shows "verify_webhook_signature W st (delivery_headers W endpoint payload) payload = Inl InvalidEndpoint \<and>
    (ident \<noteq> [] \<longrightarrow> get_endpoint ident st = Some endpoint \<longrightarrow>
      verify_webhook_signature W st (js_set ''X-Webhook-Id'' ident (delivery_headers W endpoint payload)) payload = Inr ())"
proof -
  have "js_get (delivery_headers W endpoint payload) ''X-Webhook-Signature'' =
      Some (generate_signature W payload (ep_secret endpoint))"
    "js_get (delivery_headers W endpoint payload) ''X-Webhook-Id'' = Some (wp_id payload)"
    using assms by (simp_all add: delivery_headers_other)
  then show ?thesis using assms
    by (simp add: verify_webhook_signature_def verify_hook_signature_def js_simps Let_def)
qed

definition demo_web :: "(nat, string) web" where
  "demo_web = \<lparr>wb_now = int, wb_iso = (\<lambda>t. ''iso''), wb_fetch = (\<lambda>u h b w. (Inr \<lparr>hr_status = 200, hr_statusText = ''OK''\<rparr>, w + 1)),
     wb_sleep = (\<lambda>d w. w), wb_log = (\<lambda>l w. w), wb_json = (\<lambda>p. wp_data p), wb_hmac = (\<lambda>s t. s @ t)\<rparr>"

definition demo_endpoint :: endpoint where
  "demo_endpoint = \<lparr>ep_id = ''e1'', ep_url = ''https://x'', ep_secret = ''k'', ep_events = [GroupCreated],
     ep_enabled = True, ep_retryConfig = None, ep_headers = None\<rparr>"

theorem webhook_own_delivery_rejected_witness:
  "verify_webhook_signature demo_web (snd (register_endpoint ''e1'' demo_endpoint new_webhook_service))
     (delivery_headers demo_web demo_endpoint (ping ''p1'')) (ping ''p1'') = Inl InvalidEndpoint"
proof -
  have "get_endpoint (wp_id (ping ''p1'')) (snd (register_endpoint ''e1'' demo_endpoint new_webhook_service)) = None"
    by (simp add: get_endpoint_def register_endpoint_def new_webhook_service_def ping_def Let_def)
  then show ?thesis
    by (intro webhook_own_delivery_rejected [THEN conjunct1])
      (simp_all add: ping_def demo_web_def demo_endpoint_def generate_signature_def)
qed

definition down_web :: "(nat, string) web" where
  "down_web = demo_web\<lparr>wb_fetch := (\<lambda>u h b w. (Inl (ThrownError ''down''), w + 1))\<rparr>"

theorem webhook_delivery_attempts_witness:
  "dr_attempts (fst (deliver_to_endpoint down_web demo_endpoint (ping ''p1'') 1 0)) = 3"
proof -
  have m: "max_retries demo_endpoint = 3" by (simp add: max_retries_def demo_endpoint_def)
  have a: "\<exists>e. attempt down_web demo_endpoint (ping ''p1'') k w = Inl e" for k w
    by (simp add: attempt_def post_def down_web_def)
  show ?thesis
    using webhook_delivery_attempts [of demo_endpoint down_web "ping ''p1''" 0] a
    by (auto simp: m split: sum.splits)
qed

end
