(* ===== verification/Tables.thy ===== *)
theory Tables
  imports JsPrelude "HOL-Library.Multiset"
begin

text \<open>
  Tables and pages: the offset and cursor pagination of \<open>backend/src/utils/pagination.ts\<close> with
  the middleware that parses the query, and the two table hooks of the browser,
  \<open>frontend/src/hooks/useTableState.ts\<close> and \<open>useTable.ts\<close>. A hook's state is a record and each
  callback a function on it, with the values computed in the render it closes over computed
  from the same state. Page sizes are integers; what is shown of them assumes them positive.
\<close>

section \<open>Slices\<close>

text \<open>\<open>xs.slice(a, b)\<close> for all integers: negative positions count from the end.\<close>

definition slice_pos :: "'a list \<Rightarrow> int \<Rightarrow> nat" where
  "slice_pos xs i = nat (if i < 0 then max 0 (int (length xs) + i) else min i (int (length xs)))"

definition slice :: "int \<Rightarrow> int \<Rightarrow> 'a list \<Rightarrow> 'a list" where
  "slice a b xs = take (slice_pos xs b - slice_pos xs a) (drop (slice_pos xs a) xs)"

lemma slice_page:
  assumes "0 \<le> a" and "a \<le> b"
  shows "slice a b xs = take (nat (b - a)) (drop (nat a) xs)"
proof -
  have p: "slice_pos xs a = min (nat a) (length xs)" "slice_pos xs b = min (nat b) (length xs)"
    using assms by (auto simp: slice_pos_def min_def)
  have d: "nat (b - a) = nat b - nat a" using assms by (simp add: nat_diff_distrib)
  show ?thesis
  proof (cases "nat a \<le> length xs")
    case True
    then show ?thesis by (simp add: slice_def p d min_def)
  next
    case False
    then show ?thesis by (simp add: slice_def p min_def)
  qed
qed

text \<open>Pages \<open>1, \<dots>, n\<close> of size \<open>k\<close>, one after another, are the first \<open>n * k\<close> elements.\<close>

definition page :: "nat \<Rightarrow> 'a list \<Rightarrow> nat \<Rightarrow> 'a list" where
  "page k xs i = take k (drop (i * k) xs)"

lemma concat_pages: "concat (map (page k xs) [0..<n]) = take (n * k) xs"
proof (induction n)
  case (Suc n)
  have "take (n * k + k) xs = take (n * k) xs @ take k (drop (n * k) xs)" by (rule take_add)
  with Suc show ?case by (simp add: page_def add.commute)
qed simp

lemma page_full: "(i + 1) * k \<le> length xs \<Longrightarrow> length (page k xs i) = k"
  by (simp add: page_def)

section \<open>Query parameters\<close>

text \<open>\<open>parseInt(s, 10)\<close>: blanks, a sign, then the longest run of digits; \<open>None\<close> is \<open>NaN\<close>.\<close>

definition digits_value :: "string \<Rightarrow> int" where
  "digits_value ds = foldl (\<lambda>n c. 10 * n + (of_char c - 48)) 0 ds"

definition parse_digits :: "string \<Rightarrow> int option" where
  "parse_digits s = (case takeWhile is_digit s of [] \<Rightarrow> None | ds \<Rightarrow> Some (digits_value ds))"

definition parse_int :: "string \<Rightarrow> int option" where
  "parse_int s =
     (case dropWhile js_space s of
        [] \<Rightarrow> None
      | c # cs \<Rightarrow>
          if c = CHR ''-'' then map_option uminus (parse_digits cs)
          else if c = CHR ''+'' then parse_digits cs
          else parse_digits (c # cs))"

text \<open>\<open>parseInt(\<dots>) || d\<close>: \<open>NaN\<close> and zero are falsy.\<close>

definition int_or :: "int \<Rightarrow> int option \<Rightarrow> int" where
  "int_or d x = (case x of None \<Rightarrow> d | Some i \<Rightarrow> if i = 0 then d else i)"

text \<open>The fields of \<open>req.query\<close> the code reads, as the text \<open>String\<close> makes of them.\<close>

record page_query =
  pq_page :: "string option"
  pq_limit :: "string option"
  pq_cursor :: "string option"
  pq_direction :: "string option"
  pq_strategy :: "string option"

definition default_limit :: int where "default_limit = 20"

definition max_limit :: int where "max_limit = 100"

record offset_params =
  op_page :: int
  op_limit :: int

datatype cursor_direction = CursorForward | CursorBackward

record cursor_params =
  cp_cursor :: "string option"
  cp_limit :: int
  cp_direction :: cursor_direction

definition parse_limit :: "page_query \<Rightarrow> int" where
  "parse_limit q =
     min max_limit (max 1 (int_or default_limit (case pq_limit q of None \<Rightarrow> Some default_limit | Some s \<Rightarrow> parse_int s)))"

definition parse_offset_params :: "page_query \<Rightarrow> offset_params" where
  "parse_offset_params q =
     \<lparr>op_page = max 1 (int_or 1 (case pq_page q of None \<Rightarrow> Some 1 | Some s \<Rightarrow> parse_int s)), op_limit = parse_limit q\<rparr>"

definition parse_cursor_params :: "page_query \<Rightarrow> cursor_params" where
  "parse_cursor_params q =
     \<lparr>cp_cursor = truthy (pq_cursor q), cp_limit = parse_limit q,
      cp_direction = (if pq_direction q = Some ''backward'' then CursorBackward else CursorForward)\<rparr>"

section \<open>Offset pages\<close>

record offset_meta =
  om_page :: int
  om_limit :: int
  om_total :: int
  om_totalPages :: int
  om_hasNextPage :: bool
  om_hasPrevPage :: bool

definition build_offset_meta :: "offset_params \<Rightarrow> int \<Rightarrow> offset_meta" where
  "build_offset_meta params n =
     (let totalPages = ceil_div n (op_limit params)
      in \<lparr>om_page = op_page params, om_limit = op_limit params, om_total = n, om_totalPages = totalPages,
          om_hasNextPage = op_page params < totalPages, om_hasPrevPage = 1 < op_page params\<rparr>)"

definition apply_offset_pagination :: "'a list \<Rightarrow> offset_params \<Rightarrow> 'a list \<times> offset_meta" where
  "apply_offset_pagination items params =
     (let offset = (op_page params - 1) * op_limit params
      in (slice offset (offset + op_limit params) items, build_offset_meta params (int (length items))))"

definition offset_to_skip_take :: "offset_params \<Rightarrow> int \<times> int" where
  "offset_to_skip_take params = ((op_page params - 1) * op_limit params, op_limit params)"

section \<open>Cursor pages\<close>

record cursor_meta =
  cm_limit :: int
  cm_nextCursor :: "string option"
  cm_prevCursor :: "string option"
  cm_hasNextPage :: bool
  cm_hasPrevPage :: bool

text \<open>\<open>items\<close> is what was fetched, up to \<open>limit + 1\<close> rows; \<open>ident\<close> reads a row's id.\<close>

definition build_cursor_meta :: "('a \<Rightarrow> string) \<Rightarrow> 'a list \<Rightarrow> cursor_params \<Rightarrow> 'a list \<times> cursor_meta" where
  "build_cursor_meta ident items params =
     (let hasNextPage = cp_limit params < int (length items);
          data = (if hasNextPage then slice 0 (cp_limit params) items else items)
      in (data,
          \<lparr>cm_limit = cp_limit params,
           cm_nextCursor = (if hasNextPage then map_option ident (if data = [] then None else Some (last data)) else None),
           cm_prevCursor = cp_cursor params, cm_hasNextPage = hasNextPage,
           cm_hasPrevPage = truthy (cp_cursor params) \<noteq> None\<rparr>))"

text \<open>
  A client that follows the cursors: the rows after the cursor are fetched, one more than the
  limit, until a page has no next cursor. \<open>fuel\<close> bounds the number of requests.
\<close>

fun after_cursor :: "('a \<Rightarrow> string) \<Rightarrow> 'a list \<Rightarrow> string option \<Rightarrow> 'a list" where
  "after_cursor ident rows None = rows"
| "after_cursor ident [] (Some c) = []"
| "after_cursor ident (r # rows) (Some c) = (if ident r = c then rows else after_cursor ident rows (Some c))"

fun follow_cursors :: "nat \<Rightarrow> ('a \<Rightarrow> string) \<Rightarrow> 'a list \<Rightarrow> nat \<Rightarrow> string option \<Rightarrow> 'a list option" where
  "follow_cursors 0 ident rows limit cursor = None"
| "follow_cursors (Suc fuel) ident rows limit cursor =
     (case build_cursor_meta ident (take (limit + 1) (after_cursor ident rows cursor))
             \<lparr>cp_cursor = cursor, cp_limit = int limit, cp_direction = CursorForward\<rparr> of
        (data, meta) \<Rightarrow>
          (case cm_nextCursor meta of
             None \<Rightarrow> Some data
           | Some c \<Rightarrow> map_option ((@) data) (follow_cursors fuel ident rows limit (Some c))))"

text \<open>The middleware: \<open>Inl\<close> for the offset strategy, \<open>Inr\<close> for the cursor strategy.\<close>

definition paginate_middleware :: "page_query \<Rightarrow> offset_params + cursor_params" where
  "paginate_middleware q =
     (if pq_strategy q = Some ''cursor'' then Inr (parse_cursor_params q) else Inl (parse_offset_params q))"

section \<open>useTableState\<close>

datatype 'x filter_value = FilterUndefined | FilterNull | FilterText string | FilterOther 'x

datatype sort_direction = Asc | Desc

datatype density = Comfortable | Compact | Spacious

record 'x table_state =
  ts_currentPage :: int
  ts_pageSize :: int
  ts_filters :: "(string, 'x filter_value) jsmap"
  ts_selected :: "string list"
  ts_density :: density
  ts_sortColumn :: "string option"
  ts_sortDirection :: "sort_direction option"

definition new_table_state :: "int \<Rightarrow> density \<Rightarrow> 'x table_state" where
  "new_table_state initialPageSize initialDensity =
     \<lparr>ts_currentPage = 1, ts_pageSize = initialPageSize, ts_filters = [], ts_selected = [],
      ts_density = initialDensity, ts_sortColumn = None, ts_sortDirection = None\<rparr>"

text \<open>The hook's other inputs: the data and the optional filter function.\<close>

definition filtered_data ::
  "('r \<Rightarrow> (string, 'x filter_value) jsmap \<Rightarrow> bool) option \<Rightarrow> 'r list \<Rightarrow> 'x table_state \<Rightarrow> 'r list" where
  "filtered_data filterFn data s =
     (case filterFn of None \<Rightarrow> data | Some f \<Rightarrow> filter (\<lambda>row. f row (ts_filters s)) data)"

definition total_pages ::
  "('r \<Rightarrow> (string, 'x filter_value) jsmap \<Rightarrow> bool) option \<Rightarrow> 'r list \<Rightarrow> 'x table_state \<Rightarrow> int" where
  "total_pages filterFn data s = ceil_div (int (length (filtered_data filterFn data s))) (ts_pageSize s)"

definition paginated_data ::
  "('r \<Rightarrow> (string, 'x filter_value) jsmap \<Rightarrow> bool) option \<Rightarrow> 'r list \<Rightarrow> 'x table_state \<Rightarrow> 'r list" where
  "paginated_data filterFn data s =
     (let startIndex = (ts_currentPage s - 1) * ts_pageSize s
      in slice startIndex (startIndex + ts_pageSize s) (filtered_data filterFn data s))"

definition go_to_first_page :: "'x table_state \<Rightarrow> 'x table_state" where
  "go_to_first_page s = s\<lparr>ts_currentPage := 1\<rparr>"

definition go_to_last_page ::
  "('r \<Rightarrow> (string, 'x filter_value) jsmap \<Rightarrow> bool) option \<Rightarrow> 'r list \<Rightarrow> 'x table_state \<Rightarrow> 'x table_state" where
  "go_to_last_page filterFn data s = s\<lparr>ts_currentPage := total_pages filterFn data s\<rparr>"

definition go_to_next_page ::
  "('r \<Rightarrow> (string, 'x filter_value) jsmap \<Rightarrow> bool) option \<Rightarrow> 'r list \<Rightarrow> 'x table_state \<Rightarrow> 'x table_state" where
  "go_to_next_page filterFn data s =
     s\<lparr>ts_currentPage := min (ts_currentPage s + 1) (total_pages filterFn data s)\<rparr>"

definition go_to_previous_page :: "'x table_state \<Rightarrow> 'x table_state" where
  "go_to_previous_page s = s\<lparr>ts_currentPage := max (ts_currentPage s - 1) 1\<rparr>"

definition update_filter :: "string \<Rightarrow> 'x filter_value \<Rightarrow> 'x table_state \<Rightarrow> 'x table_state" where
  "update_filter key v s = s\<lparr>ts_filters := js_set key v (ts_filters s), ts_currentPage := 1\<rparr>"

definition clear_table_filters :: "'x table_state \<Rightarrow> 'x table_state" where
  "clear_table_filters s = s\<lparr>ts_filters := [], ts_currentPage := 1\<rparr>"

definition change_page_size :: "int \<Rightarrow> 'x table_state \<Rightarrow> 'x table_state" where
  "change_page_size n s = s\<lparr>ts_pageSize := n, ts_currentPage := 1\<rparr>"

definition select_row :: "string \<Rightarrow> 'x table_state \<Rightarrow> 'x table_state" where
  "select_row i s = s\<lparr>ts_selected := js_add i (ts_selected s)\<rparr>"

definition deselect_row :: "string \<Rightarrow> 'x table_state \<Rightarrow> 'x table_state" where
  "deselect_row i s = s\<lparr>ts_selected := js_remove i (ts_selected s)\<rparr>"

text \<open>Adding or deleting one id, the toggle both hooks share.\<close>

definition toggle_id :: "string \<Rightarrow> string list \<Rightarrow> string list" where
  "toggle_id i ids = (if i \<in> set ids then js_remove i ids else js_add i ids)"

definition toggle_row :: "string \<Rightarrow> 'x table_state \<Rightarrow> 'x table_state" where
  "toggle_row i s = s\<lparr>ts_selected := toggle_id i (ts_selected s)\<rparr>"

definition select_all ::
  "('r \<Rightarrow> (string, 'x filter_value) jsmap \<Rightarrow> bool) option \<Rightarrow> ('r \<Rightarrow> string) \<Rightarrow> 'r list \<Rightarrow> 'x table_state \<Rightarrow> 'x table_state" where
  "select_all filterFn ident data s =
     s\<lparr>ts_selected := fold js_add (map ident (filtered_data filterFn data s)) []\<rparr>"

definition deselect_all :: "'x table_state \<Rightarrow> 'x table_state" where
  "deselect_all s = s\<lparr>ts_selected := []\<rparr>"

definition is_row_selected :: "string \<Rightarrow> 'x table_state \<Rightarrow> bool" where
  "is_row_selected i s \<longleftrightarrow> i \<in> set (ts_selected s)"

definition set_sorting :: "string option \<Rightarrow> sort_direction option \<Rightarrow> 'x table_state \<Rightarrow> 'x table_state" where
  "set_sorting column direction s = s\<lparr>ts_sortColumn := column, ts_sortDirection := direction\<rparr>"

definition has_filters :: "'x table_state \<Rightarrow> bool" where
  "has_filters s =
     list_ex (\<lambda>(key, v). case v of FilterUndefined \<Rightarrow> False | FilterNull \<Rightarrow> False
        | FilterText t \<Rightarrow> t \<noteq> [] \<and> t \<noteq> ''all'' | FilterOther x \<Rightarrow> True) (ts_filters s)"

section \<open>useTable\<close>

text \<open>
  A cell is a number, some other value by its text, or missing; \<open>num\<close> prints a number.
  \<open>collate\<close> is \<open>localeCompare\<close>, and \<open>lower\<close> is \<open>toLowerCase\<close>, both of the host.
\<close>

datatype table_cell = NumCell rat | TextCell string | NoCell

record table =
  tb_sort :: "string option \<times> sort_direction option"
  tb_filters :: "(string, string) jsmap"
  tb_page :: int
  tb_pageSize :: int
  tb_selectedIds :: "string list"

definition new_table :: "int \<Rightarrow> string option \<times> sort_direction option \<Rightarrow> table" where
  "new_table initialPageSize initialSort =
     \<lparr>tb_sort = initialSort, tb_filters = [], tb_page = 1, tb_pageSize = initialPageSize, tb_selectedIds = []\<rparr>"

definition cell_text :: "(rat \<Rightarrow> string) \<Rightarrow> table_cell \<Rightarrow> string" where
  "cell_text num c = (case c of NumCell n \<Rightarrow> num n | TextCell t \<Rightarrow> t | NoCell \<Rightarrow> [])"

definition active_filters :: "table \<Rightarrow> (string, string) jsmap" where
  "active_filters t = filter (\<lambda>(key, v). js_trim v \<noteq> []) (tb_filters t)"

definition row_matches ::
  "(rat \<Rightarrow> string) \<Rightarrow> (string \<Rightarrow> string) \<Rightarrow> ('r \<Rightarrow> string \<Rightarrow> table_cell) \<Rightarrow> table \<Rightarrow> 'r \<Rightarrow> bool" where
  "row_matches num lower cell t row =
     list_all (\<lambda>(key, v). js_includes (lower v) (lower (cell_text num (cell row key)))) (active_filters t)"

definition filtered_rows ::
  "(rat \<Rightarrow> string) \<Rightarrow> (string \<Rightarrow> string) \<Rightarrow> ('r \<Rightarrow> string \<Rightarrow> table_cell) \<Rightarrow> 'r list \<Rightarrow> table \<Rightarrow> 'r list" where
  "filtered_rows num lower cell data t =
     (if active_filters t = [] then data else filter (row_matches num lower cell t) data)"

text \<open>The comparator, as a number whose sign counts.\<close>

definition compare_rows ::
  "(rat \<Rightarrow> string) \<Rightarrow> (string \<Rightarrow> string \<Rightarrow> rat) \<Rightarrow> ('r \<Rightarrow> string \<Rightarrow> table_cell) \<Rightarrow> string \<Rightarrow> sort_direction \<Rightarrow> 'r \<Rightarrow> 'r \<Rightarrow> rat" where
  "compare_rows num collate cell key direction a b =
     (case (cell a key, cell b key) of
        (NumCell av, NumCell bv) \<Rightarrow> (if direction = Asc then av - bv else bv - av)
      | (av, bv) \<Rightarrow>
          let cmp = collate (cell_text num av) (cell_text num bv)
          in if direction = Asc then cmp else - cmp)"

text \<open>
  \<open>Array.prototype.sort\<close> is stable; for a comparator that is a total preorder its result is
  determined, and inserting each element behind the ones it does not precede computes it.
\<close>

fun insert_cmp :: "('r \<Rightarrow> 'r \<Rightarrow> rat) \<Rightarrow> 'r \<Rightarrow> 'r list \<Rightarrow> 'r list" where
  "insert_cmp cmp x [] = [x]"
| "insert_cmp cmp x (y # ys) = (if cmp x y \<le> 0 then x # y # ys else y # insert_cmp cmp x ys)"

definition js_sort :: "('r \<Rightarrow> 'r \<Rightarrow> rat) \<Rightarrow> 'r list \<Rightarrow> 'r list" where
  "js_sort cmp xs = foldr (insert_cmp cmp) xs []"

definition sorted_rows ::
  "(rat \<Rightarrow> string) \<Rightarrow> (string \<Rightarrow> string) \<Rightarrow> (string \<Rightarrow> string \<Rightarrow> rat) \<Rightarrow> ('r \<Rightarrow> string \<Rightarrow> table_cell) \<Rightarrow> 'r list \<Rightarrow> table \<Rightarrow> 'r list" where
  "sorted_rows num lower collate cell data t =
     (case tb_sort t of
        (Some key, Some direction) \<Rightarrow>
          if key = [] then filtered_rows num lower cell data t
          else js_sort (compare_rows num collate cell key direction) (filtered_rows num lower cell data t)
      | _ \<Rightarrow> filtered_rows num lower cell data t)"

definition table_rows ::
  "(rat \<Rightarrow> string) \<Rightarrow> (string \<Rightarrow> string) \<Rightarrow> (string \<Rightarrow> string \<Rightarrow> rat) \<Rightarrow> ('r \<Rightarrow> string \<Rightarrow> table_cell) \<Rightarrow> 'r list \<Rightarrow> table \<Rightarrow> 'r list" where
  "table_rows num lower collate cell data t =
     (let start = (tb_page t - 1) * tb_pageSize t
      in slice start (start + tb_pageSize t) (sorted_rows num lower collate cell data t))"

definition table_pages ::
  "(rat \<Rightarrow> string) \<Rightarrow> (string \<Rightarrow> string) \<Rightarrow> (string \<Rightarrow> string \<Rightarrow> rat) \<Rightarrow> ('r \<Rightarrow> string \<Rightarrow> table_cell) \<Rightarrow> 'r list \<Rightarrow> table \<Rightarrow> int" where
  "table_pages num lower collate cell data t =
     max 1 (ceil_div (int (length (sorted_rows num lower collate cell data t))) (tb_pageSize t))"

definition set_sort :: "string \<Rightarrow> table \<Rightarrow> table" where
  "set_sort column t =
     t\<lparr>tb_sort := (if fst (tb_sort t) \<noteq> Some column then (Some column, Some Asc)
                    else if snd (tb_sort t) = Some Asc then (Some column, Some Desc)
                    else (None, None)),
       tb_page := 1\<rparr>"

definition set_filter :: "string \<Rightarrow> string \<Rightarrow> table \<Rightarrow> table" where
  "set_filter columnId v t = t\<lparr>tb_filters := js_set columnId v (tb_filters t), tb_page := 1\<rparr>"

definition clear_filters :: "table \<Rightarrow> table" where
  "clear_filters t = t\<lparr>tb_filters := [], tb_page := 1\<rparr>"

definition set_page :: "int \<Rightarrow> table \<Rightarrow> table" where
  "set_page p t = t\<lparr>tb_page := p\<rparr>"

definition set_page_size :: "int \<Rightarrow> table \<Rightarrow> table" where
  "set_page_size n t = t\<lparr>tb_page := 1, tb_pageSize := n\<rparr>"

text \<open>Selection, over the ids of the rows shown.\<close>

definition is_all_selected :: "string list \<Rightarrow> table \<Rightarrow> bool" where
  "is_all_selected pageIds t \<longleftrightarrow> pageIds \<noteq> [] \<and> list_all (\<lambda>i. i \<in> set (tb_selectedIds t)) pageIds"

definition is_indeterminate :: "string list \<Rightarrow> table \<Rightarrow> bool" where
  "is_indeterminate pageIds t \<longleftrightarrow>
     \<not> is_all_selected pageIds t \<and> list_ex (\<lambda>i. i \<in> set (tb_selectedIds t)) pageIds"

definition toggle_table_row :: "string \<Rightarrow> table \<Rightarrow> table" where
  "toggle_table_row i t = t\<lparr>tb_selectedIds := toggle_id i (tb_selectedIds t)\<rparr>"

definition toggle_all :: "string list \<Rightarrow> table \<Rightarrow> table" where
  "toggle_all pageIds t =
     t\<lparr>tb_selectedIds := (if is_all_selected pageIds t then fold js_remove pageIds (tb_selectedIds t)
                           else fold js_add pageIds (tb_selectedIds t))\<rparr>"

definition clear_selection :: "table \<Rightarrow> table" where
  "clear_selection t = t\<lparr>tb_selectedIds := []\<rparr>"

section \<open>Offset pages cover the list\<close>

lemma offset_page:
  assumes "1 \<le> p" and "1 \<le> l"
  shows "fst (apply_offset_pagination items \<lparr>op_page = p, op_limit = l\<rparr>) = page (nat l) items (nat (p - 1))"
proof -
  have "0 \<le> (p - 1) * l" using assms by simp
  moreover have "nat ((p - 1) * l) = nat (p - 1) * nat l" using assms by (simp add: nat_mult_distrib)
  ultimately show ?thesis using assms by (simp add: apply_offset_pagination_def Let_def slice_page page_def)
qed

lemma page_nonempty: "0 < k \<Longrightarrow> page k xs i \<noteq> [] \<longleftrightarrow> i * k < length xs"
  by (auto simp: page_def)

lemma less_ceil_div:
  assumes "0 < b"
  shows "i < ceil_div a b \<longleftrightarrow> i * b < a"
proof
  assume "i < ceil_div a b"
  then have "i * b \<le> (ceil_div a b - 1) * b" using assms by (intro mult_right_mono) simp_all
  then show "i * b < a" using ceil_div_bounds(2) [OF assms, of a] by (simp add: algebra_simps)
next
  assume "i * b < a"
  then have "i * b < ceil_div a b * b" using ceil_div_bounds(1) [OF assms, of a] by linarith
  then show "i < ceil_div a b" using assms by (simp add: mult_less_cancel_right)
qed

section \<open>Numbers in the query\<close>

lemma digits_value_show: "digits_value (show_nat n) = int n"
proof (induction n rule: show_nat.induct)
  case (1 n)
  have c: "(of_char (char_of (48 + m)) :: int) = 48 + int m" if "m < 10" for m :: nat
  proof -
    have "(of_char (char_of (48 + m)) :: nat) = 48 + m" using that by simp
    then show ?thesis by (metis of_nat_of_char of_nat_add of_nat_numeral)
  qed
  show ?case
  proof (cases "n < 10")
    case True
    then show ?thesis by (subst show_nat.simps) (simp add: digits_value_def c)
  next
    case False
    have "digits_value (show_nat n) = 10 * digits_value (show_nat (n div 10)) + int (n mod 10)"
      using False by (subst show_nat.simps) (simp add: digits_value_def c)
    also have "\<dots> = 10 * int (n div 10) + int (n mod 10)" using 1 False by simp
    also have "\<dots> = int n" by (metis of_nat_add of_nat_mult of_nat_numeral mult_div_mod_eq)
    finally show ?thesis .
  qed
qed

lemma parse_show_nat: "parse_int (show_nat n) = Some (int n)"
proof -
  obtain c cs where s: "show_nat n = c # cs" by (cases "show_nat n") auto
  have "is_digit c" using show_nat_digits [of n] s by simp
  then have "\<not> js_space c" "c \<noteq> CHR ''-''" "c \<noteq> CHR ''+''"
    by (auto simp: is_digit_def js_space_def Let_def)
  moreover have "takeWhile is_digit (show_nat n) = show_nat n"
    using show_nat_digits [of n] by (simp add: takeWhile_eq_all_conv list_all_iff)
  ultimately show ?thesis
    using digits_value_show [of n] by (simp add: parse_int_def s parse_digits_def)
qed

section \<open>Cursors\<close>

lemma after_cursor_append:
  "distinct (map ident (xs @ r # ys)) \<Longrightarrow> after_cursor ident (xs @ r # ys) (Some (ident r)) = ys"
  by (induction xs) auto

lemma follow_cursors_from:
  assumes "distinct (map ident (done_rows @ rows))" and "0 < limit" and "length rows < fuel"
    and "after_cursor ident (done_rows @ rows) cursor = rows"
  shows "follow_cursors fuel ident (done_rows @ rows) limit cursor = Some rows"
  using assms
proof (induction fuel arbitrary: done_rows rows cursor)
  case 0
  then show ?case by simp
next
  case (Suc fuel)
  show ?case
  proof (cases "length rows \<le> limit")
    case True
    then show ?thesis using Suc.prems(4) by (simp add: build_cursor_meta_def)
  next
    case False
    define data rest where "data = take limit rows" and "rest = drop limit rows"
    have rows: "rows = data @ rest" by (simp add: data_def rest_def)
    have len: "length data = limit" using False by (simp add: data_def)
    then have dn: "data \<noteq> []" using Suc.prems(2) by auto
    have s: "slice 0 (int limit) (take (Suc limit) rows) = data"
      by (simp add: slice_page data_def min_def)
    have split: "done_rows @ rows = (done_rows @ butlast data) @ last data # rest" using dn rows by simp
    have "after_cursor ident (done_rows @ rows) (Some (ident (last data))) = rest"
      unfolding split by (rule after_cursor_append) (use Suc.prems(1) split in metis)
    moreover have "done_rows @ rows = (done_rows @ data) @ rest" by (simp add: rows)
    moreover have "length rest < fuel" using Suc.prems(2,3) rows len by simp
    ultimately have "follow_cursors fuel ident (done_rows @ rows) limit (Some (ident (last data))) = Some rest"
      using Suc.IH [of "done_rows @ data" rest] Suc.prems(1,2) by simp
    then show ?thesis using False Suc.prems(4) s dn rows by (simp add: build_cursor_meta_def Let_def)
  qed
qed

section \<open>Sorting\<close>

lemma mset_insert_cmp: "mset (insert_cmp cmp x ys) = add_mset x (mset ys)"
  by (induction ys) auto

lemma mset_js_sort: "mset (js_sort cmp xs) = mset xs"
  by (induction xs) (simp_all add: js_sort_def mset_insert_cmp)

lemma set_insert_cmp: "set (insert_cmp cmp x ys) = insert x (set ys)"
  by (metis mset_insert_cmp set_mset_add_mset_insert set_mset_mset)

lemma sorted_insert_cmp:
  assumes "\<And>a b. cmp a b \<le> 0 \<or> cmp b a \<le> 0" and "\<And>a b c. cmp a b \<le> 0 \<Longrightarrow> cmp b c \<le> 0 \<Longrightarrow> cmp a c \<le> 0"
  shows "sorted_wrt (\<lambda>a b. cmp a b \<le> 0) ys \<Longrightarrow> sorted_wrt (\<lambda>a b. cmp a b \<le> 0) (insert_cmp cmp x ys)"
proof (induction ys)
  case (Cons y ys)
  show ?case
  proof (cases "cmp x y \<le> 0")
    case True
    then show ?thesis using Cons.prems assms(2) by auto
  next
    case False
    then have "cmp y x \<le> 0" using assms(1) by blast
    then show ?thesis using False Cons by (auto simp: set_insert_cmp)
  qed
qed simp

lemma sorted_js_sort:
  assumes "\<And>a b. cmp a b \<le> 0 \<or> cmp b a \<le> 0" and "\<And>a b c. cmp a b \<le> 0 \<Longrightarrow> cmp b c \<le> 0 \<Longrightarrow> cmp a c \<le> 0"
  shows "sorted_wrt (\<lambda>a b. cmp a b \<le> 0) (js_sort cmp xs)"
  by (induction xs) (simp_all add: js_sort_def sorted_insert_cmp [OF assms])

section \<open>Properties\<close>

text \<open>
  The offset pages of a list, one after another, are the list, and \<open>hasNextPage\<close> says of a
  page exactly whether the next one has rows.
\<close>

theorem offset_pages_partition:
  assumes "1 \<le> l" and "1 \<le> p"
  shows "concat (map (\<lambda>i. fst (apply_offset_pagination items \<lparr>op_page = int i + 1, op_limit = l\<rparr>))
      [0..<nat (om_totalPages (build_offset_meta \<lparr>op_page = p, op_limit = l\<rparr> (int (length items))))]) = items \<and>
    (om_hasNextPage (snd (apply_offset_pagination items \<lparr>op_page = p, op_limit = l\<rparr>)) \<longleftrightarrow>
      fst (apply_offset_pagination items \<lparr>op_page = p + 1, op_limit = l\<rparr>) \<noteq> [])"
proof -
  let ?n = "nat (ceil_div (int (length items)) l)"
  have "int (length items) \<le> ceil_div (int (length items)) l * l" using assms by (intro ceil_div_bounds) simp
  moreover have "0 \<le> ceil_div (int (length items)) l"
    using less_ceil_div [of l "-1" "int (length items)"] assms by simp
  ultimately have "int (length items) \<le> int (?n * nat l)" using assms(1) by simp
  then have le: "length items \<le> ?n * nat l" by (simp only: of_nat_le_iff)
  have "fst (apply_offset_pagination items \<lparr>op_page = int i + 1, op_limit = l\<rparr>) = page (nat l) items i" for i
    using assms by (simp add: offset_page)
  then have pages: "concat (map (\<lambda>i. fst (apply_offset_pagination items \<lparr>op_page = int i + 1, op_limit = l\<rparr>)) [0..<?n]) = items"
    using le by (simp add: concat_pages)
  have "p < ceil_div (int (length items)) l \<longleftrightarrow> p * l < int (length items)"
    using assms by (simp add: less_ceil_div)
  also have "\<dots> \<longleftrightarrow> nat p * nat l < length items"
    using assms by (simp add: nat_mult_distrib [symmetric] nat_less_iff)
  also have "\<dots> \<longleftrightarrow> fst (apply_offset_pagination items \<lparr>op_page = p + 1, op_limit = l\<rparr>) \<noteq> []"
    using assms by (simp add: offset_page page_nonempty)
  finally show ?thesis using pages
    by (simp add: apply_offset_pagination_def build_offset_meta_def Let_def)
qed

theorem offset_pages_partition_witness:
  "concat (map (\<lambda>i. fst (apply_offset_pagination [10, 20, 30 :: nat] \<lparr>op_page = int i + 1, op_limit = 2\<rparr>)) [0..<2]) = [10, 20, 30]"
  using offset_pages_partition [of 2 1 "[10, 20, 30 :: nat]"] by (simp add: build_offset_meta_def ceil_div_def)

text \<open>
  The query middleware: whatever the query says, the page is at least 1 and the limit between
  1 and 100, and a page and limit printed in decimal are read back when they are in range.
\<close>

theorem page_query_parsed:
  "(case paginate_middleware q of
      Inl p \<Rightarrow> 1 \<le> op_page p \<and> 1 \<le> op_limit p \<and> op_limit p \<le> 100
    | Inr c \<Rightarrow> 1 \<le> cp_limit c \<and> cp_limit c \<le> 100 \<and> cp_cursor c \<noteq> Some []) \<and>
   parse_offset_params (q\<lparr>pq_page := Some (show_nat (Suc n)), pq_limit := Some (show_nat (Suc (m mod 100)))\<rparr>) =
     \<lparr>op_page = int (Suc n), op_limit = int (Suc (m mod 100))\<rparr>"
proof -
  have "int (m mod 100) < 100" by simp
  then show ?thesis
    by (auto simp: paginate_middleware_def parse_offset_params_def parse_cursor_params_def parse_limit_def
        max_limit_def default_limit_def truthy_def parse_show_nat int_or_def split: option.splits)
qed

text \<open>
  Following the cursors returns every row once and in order, with at most one request more
  than there are rows, when ids are unique and the limit is positive.
\<close>

theorem cursors_return_all:
  assumes "distinct (map ident rows)" and "0 < limit" and "length rows < fuel"
  shows "follow_cursors fuel ident rows limit None = Some rows"
  using follow_cursors_from [of ident "[]" rows limit fuel None] assms by simp

theorem cursors_return_all_witness:
  "follow_cursors 4 (\<lambda>s. s) [''a'', ''b'', ''c''] 2 None = Some [''a'', ''b'', ''c'']"
  using cursors_return_all [of "\<lambda>s. s" "[''a'', ''b'', ''c'']" 2 4] by simp

text \<open>
  The table shows its filtered rows sorted: for a comparator that is a total preorder, the
  pages of \<open>useTable\<close> one after another are in the order of the comparator and are, with
  multiplicities, the rows that match every active filter.
\<close>

theorem table_pages_sorted:
  assumes cmp: "cmp = compare_rows num collate cell key direction"
    and "tb_sort t = (Some key, Some direction)" and "key \<noteq> []" and "1 \<le> tb_pageSize t"
    and "\<And>a b. cmp a b \<le> 0 \<or> cmp b a \<le> 0"
    and "\<And>a b c. cmp a b \<le> 0 \<Longrightarrow> cmp b c \<le> 0 \<Longrightarrow> cmp a c \<le> 0"
  shows "\<exists>shown. concat (map (\<lambda>i. table_rows num lower collate cell data (set_page (int i + 1) t))
        [0..<nat (table_pages num lower collate cell data t)]) = shown \<and>
      sorted_wrt (\<lambda>a b. cmp a b \<le> 0) shown \<and>
      mset shown = mset (filter (row_matches num lower cell t) data)"
proof -
  let ?s = "sorted_rows num lower collate cell data t" and ?k = "tb_pageSize t"
  let ?n = "nat (table_pages num lower collate cell data t)"
  have same: "sorted_rows num lower collate cell data (set_page i t) = ?s" for i
  proof -
    have "row_matches num lower cell (set_page i t) = row_matches num lower cell t"
      by (rule ext) (simp add: row_matches_def active_filters_def set_page_def)
    then have f: "filtered_rows num lower cell data (set_page i t) = filtered_rows num lower cell data t"
      by (simp add: filtered_rows_def active_filters_def set_page_def)
    have s: "tb_sort (set_page i t) = tb_sort t" by (simp add: set_page_def)
    show ?thesis unfolding sorted_rows_def f s ..
  qed
  have "table_rows num lower collate cell data (set_page (int i + 1) t) = page (nat ?k) ?s i" for i
    using assms(4) same
    by (simp add: table_rows_def Let_def slice_page page_def set_page_def nat_mult_distrib)
  moreover have "length ?s \<le> ?n * nat ?k"
  proof -
    have "int (length ?s) \<le> ceil_div (int (length ?s)) ?k * ?k" using assms(4) by (intro ceil_div_bounds) simp
    also have "\<dots> \<le> table_pages num lower collate cell data t * ?k"
      using assms(4) by (intro mult_right_mono) (simp_all add: table_pages_def)
    also have "\<dots> = int (?n * nat ?k)" using assms(4) by (simp add: table_pages_def)
    finally show ?thesis by (simp only: of_nat_le_iff)
  qed
  ultimately have "concat (map (\<lambda>i. table_rows num lower collate cell data (set_page (int i + 1) t)) [0..<?n]) = ?s"
    by (simp add: concat_pages)
  moreover have f: "filtered_rows num lower cell data t = filter (row_matches num lower cell t) data"
    by (simp add: filtered_rows_def row_matches_def)
  have "?s = js_sort cmp (filter (row_matches num lower cell t) data)"
    using assms(2,3) f by (simp add: sorted_rows_def cmp)
  moreover have "sorted_wrt (\<lambda>a b. cmp a b \<le> 0) (js_sort cmp xs)" for xs
    by (rule sorted_js_sort) (use assms(5,6) in blast)+
  ultimately show ?thesis by (simp add: mset_js_sort)
qed

definition demo_table :: table where
  "demo_table = set_sort ''amount'' (new_table 2 (None, None))"

theorem table_pages_sorted_witness:
  "\<exists>shown. concat (map (\<lambda>i. table_rows (\<lambda>n. ''n'') (\<lambda>s. s) (\<lambda>a b. 0) (\<lambda>r k. NumCell r) [3, 1, 2]
        (set_page (int i + 1) demo_table)) [0..<2]) = shown \<and> mset shown = mset [1, 2, 3]"
proof -
  have d: "tb_sort demo_table = (Some ''amount'', Some Asc)" "tb_pageSize demo_table = 2" "tb_filters demo_table = []"
    by (simp_all add: demo_table_def set_sort_def new_table_def)
  have p: "nat (table_pages (\<lambda>n. ''n'') (\<lambda>s. s) (\<lambda>a b. 0) (\<lambda>r k. NumCell r) [3, 1, 2] demo_table) = 2"
    by (simp add: table_pages_def sorted_rows_def filtered_rows_def active_filters_def d js_sort_def
        compare_rows_def ceil_div_def)
  show ?thesis
    using table_pages_sorted [where num = "\<lambda>n. ''n''" and lower = "\<lambda>s. s" and collate = "\<lambda>a b. 0"
        and cell = "\<lambda>r k. NumCell r" and data = "[3, 1, 2]" and t = demo_table and key = "''amount''" and direction = Asc, OF refl]
    by (simp add: d p compare_rows_def row_matches_def active_filters_def add_mset_commute linear)
qed

text \<open>
  A table paged while it is empty stays blank: going to the next or the last page without
  rows leaves page 0, and page 0 shows nothing whatever data arrives later.
\<close>

theorem empty_table_turns_blank:
  assumes "filtered_data filterFn data s = []" and "1 \<le> ts_currentPage s" and "1 \<le> ts_pageSize s"
  shows "ts_currentPage (go_to_next_page filterFn data s) = 0 \<and>
    paginated_data filterFn later (go_to_next_page filterFn data s) = [] \<and>
    paginated_data filterFn later (go_to_last_page filterFn data s) = []"
proof -
  have "ceil_div 0 n = 0" for n by (simp add: ceil_div_def)
  then have "go_to_next_page filterFn data s = s\<lparr>ts_currentPage := 0\<rparr>"
    "go_to_last_page filterFn data s = s\<lparr>ts_currentPage := 0\<rparr>"
    using assms by (simp_all add: go_to_next_page_def go_to_last_page_def total_pages_def)
  moreover have "slice (- k) 0 xs = []" for k and xs :: "'a list"
    by (simp add: slice_def slice_pos_def)
  ultimately show ?thesis by (simp add: paginated_data_def Let_def)
qed

theorem empty_table_turns_blank_witness:
  "paginated_data None [1, 2, 3 :: nat] (go_to_next_page None ([] :: nat list) (new_table_state 10 Comfortable :: nat table_state)) = []"
  using empty_table_turns_blank [of None "[] :: nat list" "new_table_state 10 Comfortable :: nat table_state" "[1, 2, 3]"]
  by (simp add: filtered_data_def new_table_state_def)

end
