(* ===== verification/Offline.thy ===== *)
theory Offline
  imports JsPrelude "HOL-Library.Multiset" "HOL-Library.List_Lexorder" "HOL-Library.Char_ord"
begin

text \<open>
  Working without a connection: the phone's store and queue (\<open>mobile/src/store/offlineStore.ts\<close>,
  \<open>services/syncService.ts\<close>, \<open>services/offlineApi.ts\<close>) and the browser's
  (\<open>frontend/src/utils/offlineStorage.ts\<close>, \<open>syncManager.ts\<close>). Both merge groups by the same
  rule, which refines "the newest row of each id wins".

  Secure storage, the database and the API are operations on an abstract outside world \<open>'w\<close> that
  may fail; a group's fields other than its id and creation time are a type variable.
  Strings are compared by code unit, which is the order of \<open>List_Lexorder\<close> on \<open>Char_ord\<close>.
\<close>

section \<open>Merging groups\<close>

record 'g group_row =
  gr_id :: string
  gr_createdAt :: string
  gr_fields :: 'g

definition by_id :: "'g group_row list \<Rightarrow> (string, 'g group_row) jsmap" where
  "by_id rows = fold (\<lambda>g m. js_set (gr_id g) g m) rows []"

definition merge_one :: "'g group_row \<Rightarrow> (string, 'g group_row) jsmap \<Rightarrow> (string, 'g group_row) jsmap" where
  "merge_one g m =
     (case js_get m (gr_id g) of
        None \<Rightarrow> js_set (gr_id g) g m
      | Some existing \<Rightarrow> if gr_createdAt existing \<le> gr_createdAt g then js_set (gr_id g) g m else m)"

definition merge_rows :: "'g group_row list \<Rightarrow> 'g group_row list \<Rightarrow> 'g group_row list" where
  "merge_rows cached incoming = map snd (fold merge_one incoming (by_id cached))"

section \<open>The phone\<close>

datatype 'p sync_payload =
    CreateGroupOp 'p
  | JoinGroupOp string string
  | ContributeOp string rat string

record 'p sync_operation =
  sy_id :: string
  sy_payload :: "'p sync_payload"
  sy_timestamp :: string

record ('g, 'p) offline_state =
  of_cachedGroups :: "'g group_row list"
  of_syncQueue :: "'p sync_operation list"
  of_lastSyncedAt :: "string option"
  of_isSyncing :: bool

definition new_offline_state :: "('g, 'p) offline_state" where
  "new_offline_state = \<lparr>of_cachedGroups = [], of_syncQueue = [], of_lastSyncedAt = None, of_isSyncing = False\<rparr>"

text \<open>Secure storage (reads parse the stored text, \<open>None\<close> when it is missing), the API, the clock and ids.\<close>

record ('w, 'g, 'p) device =
  dv_read_groups :: "('w, string, 'g group_row list option) js_method"
  dv_read_queue :: "('w, string, 'p sync_operation list option) js_method"
  dv_write_groups :: "'g group_row list \<Rightarrow> ('w, string, unit) js_method"
  dv_write_queue :: "'p sync_operation list \<Rightarrow> ('w, string, unit) js_method"
  dv_delete_queue :: "('w, string, unit) js_method"
  dv_createGroup :: "'p \<Rightarrow> ('w, string, 'g group_row) js_method"
  dv_joinGroup :: "string \<Rightarrow> string \<Rightarrow> ('w, string, unit) js_method"
  dv_contribute :: "string \<Rightarrow> rat \<Rightarrow> string \<Rightarrow> ('w, string, unit) js_method"
  dv_fetchGroups :: "nat \<Rightarrow> nat \<Rightarrow> ('w, string, 'g group_row list) js_method"
  dv_fetchGroup :: "string \<Rightarrow> ('w, string, 'g group_row) js_method"
  dv_newId :: "'w \<Rightarrow> string"
  dv_nowIso :: "'w \<Rightarrow> string"

type_synonym ('w, 'g, 'p) phone = "('g, 'p) offline_state \<times> 'w"

definition on_world :: "('w, string, 'r) js_method \<Rightarrow> (('w, 'g, 'p) phone, string, 'r) js_method" where
  "on_world m ph = (case m (snd ph) of (r, w) \<Rightarrow> (r, (fst ph, w)))"

definition set_state :: "(('g, 'p) offline_state \<Rightarrow> ('g, 'p) offline_state) \<Rightarrow> (('w, 'g, 'p) phone, string, unit) js_method" where
  "set_state f ph = (Inr (), (f (fst ph), snd ph))"

definition or_else :: "('s, 'e, 'r) js_method \<Rightarrow> ('s, 'e, 'r) js_method \<Rightarrow> ('s, 'e, 'r) js_method" where
  "or_else m h s = (case m s of (Inl e, s') \<Rightarrow> h s' | (Inr r, s') \<Rightarrow> (Inr r, s'))"

definition read_or :: "('w, string, 'v option) js_method \<Rightarrow> 'v \<Rightarrow> ('w, string, 'v) js_method" where
  "read_or m fallback = or_else (js_then m (\<lambda>v. js_return (get_or fallback v))) (js_return fallback)"

definition load_cache :: "('w, 'g, 'p) device \<Rightarrow> (('w, 'g, 'p) phone, string, unit) js_method" where
  "load_cache D =
     js_then (on_world (read_or (dv_read_groups D) [])) (\<lambda>groups.
       js_then (on_world (read_or (dv_read_queue D) [])) (\<lambda>queue.
         set_state (\<lambda>s. s\<lparr>of_cachedGroups := groups, of_syncQueue := queue\<rparr>)))"

definition cache_groups :: "('w, 'g, 'p) device \<Rightarrow> 'g group_row list \<Rightarrow> (('w, 'g, 'p) phone, string, unit) js_method" where
  "cache_groups D groups =
     js_then (on_world (dv_write_groups D groups)) (\<lambda>_. set_state (\<lambda>s. s\<lparr>of_cachedGroups := groups\<rparr>))"

definition merge_groups :: "('w, 'g, 'p) device \<Rightarrow> 'g group_row list \<Rightarrow> (('w, 'g, 'p) phone, string, unit) js_method" where
  "merge_groups D incoming ph = cache_groups D (merge_rows (of_cachedGroups (fst ph)) incoming) ph"

definition put_queue :: "('w, 'g, 'p) device \<Rightarrow> 'p sync_operation list \<Rightarrow> (('w, 'g, 'p) phone, string, unit) js_method" where
  "put_queue D queue =
     js_then (on_world (dv_write_queue D queue)) (\<lambda>_. set_state (\<lambda>s. s\<lparr>of_syncQueue := queue\<rparr>))"

definition enqueue :: "('w, 'g, 'p) device \<Rightarrow> 'p sync_payload \<Rightarrow> (('w, 'g, 'p) phone, string, unit) js_method" where
  "enqueue D op ph =
     put_queue D (of_syncQueue (fst ph) @
       [\<lparr>sy_id = dv_newId D (snd ph), sy_payload = op, sy_timestamp = dv_nowIso D (snd ph)\<rparr>]) ph"

definition dequeue :: "('w, 'g, 'p) device \<Rightarrow> string \<Rightarrow> (('w, 'g, 'p) phone, string, unit) js_method" where
  "dequeue D i ph = put_queue D (filter (\<lambda>op. sy_id op \<noteq> i) (of_syncQueue (fst ph))) ph"

definition clear_queue :: "('w, 'g, 'p) device \<Rightarrow> (('w, 'g, 'p) phone, string, unit) js_method" where
  "clear_queue D = js_then (on_world (dv_delete_queue D)) (\<lambda>_. set_state (\<lambda>s. s\<lparr>of_syncQueue := []\<rparr>))"

section \<open>Draining the queue\<close>

definition execute_operation :: "('w, 'g, 'p) device \<Rightarrow> 'p sync_operation \<Rightarrow> ('w, string, unit) js_method" where
  "execute_operation D op =
     (case sy_payload op of
        CreateGroupOp p \<Rightarrow> js_then (dv_createGroup D p) (\<lambda>_. js_return ())
      | JoinGroupOp g k \<Rightarrow> dv_joinGroup D g k
      | ContributeOp g a x \<Rightarrow> dv_contribute D g a x)"

text \<open>One operation: executed and taken off the queue, or left there.\<close>

definition sync_one :: "('w, 'g, 'p) device \<Rightarrow> 'p sync_operation \<Rightarrow> (('w, 'g, 'p) phone, string, unit) js_method" where
  "sync_one D op = js_then (on_world (execute_operation D op)) (\<lambda>_. dequeue D (sy_id op))"

fun sync_all :: "('w, 'g, 'p) device \<Rightarrow> 'p sync_operation list \<Rightarrow> ('w, 'g, 'p) phone \<Rightarrow> nat \<times> nat \<times> ('w, 'g, 'p) phone" where
  "sync_all D [] ph = (0, 0, ph)"
| "sync_all D (op # ops) ph =
     (case sync_one D op ph of
        (Inr _, ph1) \<Rightarrow> (case sync_all D ops ph1 of (synced, failed, ph2) \<Rightarrow> (Suc synced, failed, ph2))
      | (Inl _, ph1) \<Rightarrow> (case sync_all D ops ph1 of (synced, failed, ph2) \<Rightarrow> (synced, Suc failed, ph2)))"

definition refresh_groups :: "('w, 'g, 'p) device \<Rightarrow> (('w, 'g, 'p) phone, string, unit) js_method" where
  "refresh_groups D =
     or_else (js_then (on_world (dv_fetchGroups D 1 100)) (\<lambda>rows.
               js_then (merge_groups D rows)
                 (\<lambda>_ ph. set_state (\<lambda>s. s\<lparr>of_lastSyncedAt := Some (dv_nowIso D (snd ph))\<rparr>) ph)))
       (js_return ())"

definition sync_offline_queue :: "('w, 'g, 'p) device \<Rightarrow> ('w, 'g, 'p) phone \<Rightarrow> (nat \<times> nat) \<times> ('w, 'g, 'p) phone" where
  "sync_offline_queue D ph =
     (if of_isSyncing (fst ph) \<or> of_syncQueue (fst ph) = [] then ((0, 0), ph)
      else case sync_all D (of_syncQueue (fst ph)) ((fst ph)\<lparr>of_isSyncing := True\<rparr>, snd ph) of
             (synced, failed, ph1) \<Rightarrow>
               (case snd (refresh_groups D ph1) of
                  (s, w) \<Rightarrow> ((synced, failed), (s\<lparr>of_isSyncing := False\<rparr>, w))))"

section \<open>The offline-aware API\<close>

definition get_groups :: "('w, 'g, 'p) device \<Rightarrow> bool \<Rightarrow> (('w, 'g, 'p) phone, string, 'g group_row list) js_method" where
  "get_groups D isOffline =
     (let cached = (\<lambda>ph. (Inr (of_cachedGroups (fst ph)), ph))
      in if isOffline then cached
         else or_else (js_then (on_world (dv_fetchGroups D 1 100)) (\<lambda>rows.
                        js_then (merge_groups D rows) (\<lambda>_. js_return rows))) cached)"

definition get_group :: "('w, 'g, 'p) device \<Rightarrow> string \<Rightarrow> bool \<Rightarrow> (('w, 'g, 'p) phone, string, 'g group_row option) js_method" where
  "get_group D i isOffline =
     (let cached = (\<lambda>ph. (Inr (find (\<lambda>g. gr_id g = i) (of_cachedGroups (fst ph))), ph))
      in if isOffline then cached
         else or_else (js_then (on_world (dv_fetchGroup D i)) (\<lambda>row.
                        js_then (merge_groups D [row]) (\<lambda>_. js_return (Some row)))) cached)"

definition create_group_offline_aware ::
  "('w, 'g, 'p) device \<Rightarrow> 'p \<Rightarrow> bool \<Rightarrow> (('w, 'g, 'p) phone, string, 'g group_row option) js_method" where
  "create_group_offline_aware D payload isOffline =
     (if isOffline then js_then (enqueue D (CreateGroupOp payload)) (\<lambda>_. js_return None)
      else on_world (js_then (dv_createGroup D payload) (\<lambda>g. js_return (Some g))))"

definition join_group_offline_aware ::
  "('w, 'g, 'p) device \<Rightarrow> string \<Rightarrow> string \<Rightarrow> bool \<Rightarrow> (('w, 'g, 'p) phone, string, unit) js_method" where
  "join_group_offline_aware D groupId publicKey isOffline =
     (if isOffline then enqueue D (JoinGroupOp groupId publicKey) else on_world (dv_joinGroup D groupId publicKey))"

definition contribute_offline_aware ::
  "('w, 'g, 'p) device \<Rightarrow> string \<Rightarrow> rat \<Rightarrow> string \<Rightarrow> bool \<Rightarrow> (('w, 'g, 'p) phone, string, unit) js_method" where
  "contribute_offline_aware D groupId amount signedXdr isOffline =
     (if isOffline then enqueue D (ContributeOp groupId amount signedXdr)
      else on_world (dv_contribute D groupId amount signedXdr))"

section \<open>Overlapping queue updates\<close>

text \<open>
  \<open>enqueue\<close> and \<open>dequeue\<close> read the queue, await the write of the new one, then install it. Calls
  that overlap at the await are steps here: \<open>qr_pending\<close> holds the queues being written, each
  computed when its call began.
\<close>

record 'p queue_race =
  qr_queue :: "'p sync_operation list"
  qr_pending :: "'p sync_operation list list"

inductive race_step :: "'p queue_race \<Rightarrow> 'p queue_race \<Rightarrow> bool" where
  race_enqueue: "race_step r (r\<lparr>qr_pending := qr_pending r @ [qr_queue r @ [op]]\<rparr>)"
| race_dequeue: "race_step r (r\<lparr>qr_pending := qr_pending r @ [filter (\<lambda>op. sy_id op \<noteq> i) (qr_queue r)]\<rparr>)"
| race_written: "qr_pending r = before @ q # after \<Longrightarrow>
    race_step r (r\<lparr>qr_queue := q, qr_pending := before @ after\<rparr>)"

section \<open>The browser\<close>

record 'p pending_action =
  ac_id :: string
  ac_type :: string
  ac_payload :: 'p
  ac_timestamp :: int

record ('g, 'p) offline_db =
  db_actions :: "(string, 'p pending_action) jsmap"
  db_groups :: "('g group_row list \<times> int) option"

datatype 'p request_body =
    NoBody
  | PayloadBody 'p
  | JoinBody string
  | ContributeBody string string
  | ActionBody "'p pending_action"

text \<open>
  \<open>br_allows\<close>: whether a database request succeeds; \<open>br_request\<close>: \<open>backendApiClient.request\<close> with path, method and
  body; \<open>br_groups\<close>: the groups it answers with, \<open>None\<close> when that is not an array; the other
  fields read a payload's properties.
\<close>

record ('w, 'g, 'p) browser =
  br_allows :: "('w, string, unit) js_method"
  br_now :: "'w \<Rightarrow> int"
  br_request :: "string \<Rightarrow> string \<Rightarrow> 'p request_body \<Rightarrow> ('w, string, unit) js_method"
  br_groups :: "('w, string, 'g group_row list option) js_method"
  br_groupId :: "'p \<Rightarrow> string"
  br_publicKey :: "'p \<Rightarrow> string"
  br_amount :: "'p \<Rightarrow> string"
  br_signedXdr :: "'p \<Rightarrow> string"

type_synonym ('w, 'g, 'p) web_app = "('g, 'p) offline_db \<times> 'w"

definition on_net :: "('w, string, 'r) js_method \<Rightarrow> (('w, 'g, 'p) web_app, string, 'r) js_method" where
  "on_net m a = (case m (snd a) of (r, w) \<Rightarrow> (r, (fst a, w)))"

definition add_action :: "('w, 'g, 'p) browser \<Rightarrow> 'p pending_action \<Rightarrow> (('w, 'g, 'p) web_app, string, unit) js_method" where
  "add_action B action =
     js_then (on_net (br_allows B)) (\<lambda>_ (db, w).
       if js_has (db_actions db) (ac_id action) then (Inl ''ConstraintError'', (db, w))
       else (Inr (), (db\<lparr>db_actions := js_set (ac_id action) action (db_actions db)\<rparr>, w)))"

definition get_all_actions :: "('w, 'g, 'p) browser \<Rightarrow> (('w, 'g, 'p) web_app, string, 'p pending_action list) js_method" where
  "get_all_actions B =
     js_then (on_net (br_allows B)) (\<lambda>_ (db, w). (Inr (sort_key ac_id (map snd (db_actions db))), (db, w)))"

definition remove_action :: "('w, 'g, 'p) browser \<Rightarrow> string \<Rightarrow> (('w, 'g, 'p) web_app, string, unit) js_method" where
  "remove_action B i =
     js_then (on_net (br_allows B)) (\<lambda>_ (db, w). (Inr (), (db\<lparr>db_actions := js_del i (db_actions db)\<rparr>, w)))"

definition clear_all_actions :: "('w, 'g, 'p) browser \<Rightarrow> (('w, 'g, 'p) web_app, string, unit) js_method" where
  "clear_all_actions B =
     js_then (on_net (br_allows B)) (\<lambda>_ (db, w). (Inr (), (db\<lparr>db_actions := []\<rparr>, w)))"

definition get_cached_groups :: "('w, 'g, 'p) browser \<Rightarrow> (('w, 'g, 'p) web_app, string, 'g group_row list) js_method" where
  "get_cached_groups B =
     js_then (on_net (br_allows B)) (\<lambda>_ (db, w). (Inr (case db_groups db of None \<Rightarrow> [] | Some (rows, t) \<Rightarrow> rows), (db, w)))"

definition set_cached_groups :: "('w, 'g, 'p) browser \<Rightarrow> 'g group_row list \<Rightarrow> (('w, 'g, 'p) web_app, string, unit) js_method" where
  "set_cached_groups B rows a =
     js_then (on_net (br_allows B)) (\<lambda>_ (db, w). (Inr (), (db\<lparr>db_groups := Some (rows, br_now B (snd a))\<rparr>, w))) a"

definition merge_cached_groups :: "('w, 'g, 'p) browser \<Rightarrow> 'g group_row list \<Rightarrow> (('w, 'g, 'p) web_app, string, 'g group_row list) js_method" where
  "merge_cached_groups B incoming =
     js_then (get_cached_groups B) (\<lambda>existing.
       let merged = merge_rows existing incoming
       in js_then (set_cached_groups B merged) (\<lambda>_. js_return merged))"

definition queue_action :: "('w, 'g, 'p) browser \<Rightarrow> 'p pending_action \<Rightarrow> (('w, 'g, 'p) web_app, string, unit) js_method" where
  "queue_action B action = or_else (add_action B action) (js_return ())"

definition sync_action :: "('w, 'g, 'p) browser \<Rightarrow> 'p pending_action \<Rightarrow> ('w, string, unit) js_method" where
  "sync_action B action =
     (let p = ac_payload action
      in if ac_type action = ''createGroup'' then br_request B ''/api/v1/groups'' ''POST'' (PayloadBody p)
         else if ac_type action = ''joinGroup''
         then br_request B (''/api/v1/groups/'' @ br_groupId B p @ ''/join'') ''POST'' (JoinBody (br_publicKey B p))
         else if ac_type action = ''contribute''
         then br_request B (''/api/v1/groups/'' @ br_groupId B p @ ''/contribute'') ''POST''
                (ContributeBody (br_amount B p) (br_signedXdr B p))
         else br_request B ''/api/v1/actions'' ''POST'' (ActionBody action))"

definition sync_one_action :: "('w, 'g, 'p) browser \<Rightarrow> 'p pending_action \<Rightarrow> (('w, 'g, 'p) web_app, string, unit) js_method" where
  "sync_one_action B action = js_then (on_net (sync_action B action)) (\<lambda>_. remove_action B (ac_id action))"

definition refresh_cached_groups :: "('w, 'g, 'p) browser \<Rightarrow> (('w, 'g, 'p) web_app, string, unit) js_method" where
  "refresh_cached_groups B =
     or_else (js_then (on_net (br_groups B)) (\<lambda>groups.
               case groups of None \<Rightarrow> js_return ()
               | Some rows \<Rightarrow> js_then (merge_cached_groups B rows) (\<lambda>_. js_return ())))
       (js_return ())"

definition sync_pending_actions :: "('w, 'g, 'p) browser \<Rightarrow> (('w, 'g, 'p) web_app, string, unit) js_method" where
  "sync_pending_actions B =
     js_then (get_all_actions B) (\<lambda>actions a.
       refresh_cached_groups B (fold (\<lambda>action a. snd (sync_one_action B action a)) actions a))"

definition get_pending_action_count :: "('w, 'g, 'p) browser \<Rightarrow> (('w, 'g, 'p) web_app, string, nat) js_method" where
  "get_pending_action_count B =
     or_else (js_then (get_all_actions B) (\<lambda>actions. js_return (length actions))) (js_return 0)"

section \<open>Merging keeps the newest row\<close>

text \<open>The rows as a map from ids, the abstraction both stores share.\<close>

definition row_of :: "'g group_row list \<Rightarrow> string \<Rightarrow> 'g group_row option" where
  "row_of rows i = find (\<lambda>g. gr_id g = i) rows"

definition keyed :: "(string, 'g group_row) jsmap \<Rightarrow> bool" where
  "keyed m \<longleftrightarrow> js_wf m \<and> list_all (\<lambda>(k, g). k = gr_id g) m"

lemma keyed_get_id: "keyed m \<Longrightarrow> js_get m k = Some g \<Longrightarrow> gr_id g = k"
  by (auto simp: keyed_def list_all_iff dest!: js_get_in)

lemma keyed_set: "keyed m \<Longrightarrow> keyed (js_set (gr_id g) g m)"
  by (auto simp: keyed_def list_all_iff dest: js_set_values)

lemma keyed_merge_one: "keyed m \<Longrightarrow> keyed (merge_one g m)"
  by (simp add: merge_one_def keyed_set split: option.splits)

lemma keyed_by_id: "keyed (by_id rows)"
proof -
  have "keyed m \<Longrightarrow> keyed (fold (\<lambda>g m. js_set (gr_id g) g m) rows m)" for m :: "(string, 'a group_row) jsmap"
    by (induction rows arbitrary: m) (simp_all add: keyed_set)
  then show ?thesis by (simp add: by_id_def keyed_def)
qed

lemma keyed_merge: "keyed m \<Longrightarrow> keyed (fold merge_one incoming m)"
  by (induction incoming arbitrary: m) (simp_all add: keyed_merge_one)

lemma row_of_keyed: "keyed m \<Longrightarrow> row_of (map snd m) i = js_get m i"
proof (induction m)
  case (Cons p m)
  obtain k g where p: "p = (k, g)" by (cases p)
  have "keyed m" "k = gr_id g" using Cons.prems by (auto simp: keyed_def js_wf_def p)
  with Cons.IH show ?case by (simp add: row_of_def p)
qed (simp add: row_of_def)

lemma row_of_Cons: "row_of (g # rows) i = (if gr_id g = i then Some g else row_of rows i)"
  by (simp add: row_of_def)

lemma by_id_get: "distinct (map gr_id rows) \<Longrightarrow> js_get (by_id rows) i = row_of rows i"
proof -
  have "distinct (map gr_id rows) \<Longrightarrow> js_get (fold (\<lambda>g m. js_set (gr_id g) g m) rows m) i =
      (case row_of rows i of None \<Rightarrow> js_get m i | Some g \<Rightarrow> Some g)" for m :: "(string, 'a group_row) jsmap"
  proof (induction rows arbitrary: m)
    case (Cons g rows)
    have "row_of rows (gr_id g) = None" using Cons.prems by (force simp: row_of_def find_None_iff image_iff)
    with Cons show ?case by (auto simp: row_of_Cons js_simps split: option.splits)
  qed (simp add: row_of_def)
  then show "distinct (map gr_id rows) \<Longrightarrow> ?thesis" by (simp add: by_id_def split: option.splits)
qed

lemma row_of_member: "distinct (map gr_id rows) \<Longrightarrow> g \<in> set rows \<Longrightarrow> row_of rows (gr_id g) = Some g"
  by (induction rows) (force simp: row_of_Cons)+

lemma cached_of:
  "distinct (map gr_id rows) \<Longrightarrow> filter (\<lambda>g. gr_id g = i) rows = (case row_of rows i of None \<Rightarrow> [] | Some e \<Rightarrow> [e])"
proof (induction rows)
  case (Cons g rows)
  show ?case
  proof (cases "gr_id g = i")
    case True
    then have "i \<notin> gr_id ` set rows" using Cons.prems by simp
    then have "filter (\<lambda>g. gr_id g = i) rows = []" unfolding filter_empty_conv by blast
    then show ?thesis using True by (simp add: row_of_Cons)
  qed (use Cons in \<open>simp add: row_of_Cons\<close>)
qed (simp add: row_of_def)

text \<open>The abstract operation: a later row replaces the one it is not older than.\<close>

definition newer :: "'g group_row option \<Rightarrow> 'g group_row \<Rightarrow> 'g group_row option" where
  "newer old g = (case old of None \<Rightarrow> Some g | Some e \<Rightarrow> if gr_createdAt e \<le> gr_createdAt g then Some g else old)"

lemma merge_one_get: "js_get (merge_one g m) i = (if i = gr_id g then newer (js_get m i) g else js_get m i)"
  by (auto simp: merge_one_def newer_def js_simps split: option.splits)

lemma merge_get:
  "js_get (fold merge_one incoming m) i = foldl newer (js_get m i) (filter (\<lambda>g. gr_id g = i) incoming)"
  by (induction incoming arbitrary: m) (simp_all add: merge_one_get)

lemma merge_rows_refines:
  assumes "distinct (map gr_id cached)"
  shows "row_of (merge_rows cached incoming) i = foldl newer (row_of cached i) (filter (\<lambda>g. gr_id g = i) incoming)"
  by (simp add: merge_rows_def row_of_keyed keyed_merge keyed_by_id merge_get by_id_get [OF assms])

lemma foldl_newer_None: "foldl newer old gs = None \<longleftrightarrow> old = None \<and> gs = []"
  by (induction gs arbitrary: old) (auto simp: newer_def split: option.splits)

text \<open>What it keeps of a sequence of rows is the last of the latest ones.\<close>

definition latest_of :: "'g group_row \<Rightarrow> 'g group_row list \<Rightarrow> bool" where
  "latest_of r rows \<longleftrightarrow> (\<exists>before after. rows = before @ r # after
     \<and> (\<forall>g \<in> set before. gr_createdAt g \<le> gr_createdAt r) \<and> (\<forall>g \<in> set after. gr_createdAt g < gr_createdAt r))"

lemma latest_of_one: "latest_of r [r]"
  by (auto simp: latest_of_def intro!: exI [of _ "[]"])

lemma latest_of_snoc:
  "latest_of r rows \<Longrightarrow> gr_createdAt g < gr_createdAt r \<Longrightarrow> latest_of r (rows @ [g])"
  "latest_of r rows \<Longrightarrow> gr_createdAt r \<le> gr_createdAt g \<Longrightarrow> latest_of g (rows @ [g])"
proof -
  assume l: "latest_of r rows"
  then obtain before after where s: "rows = before @ r # after" "\<forall>g \<in> set before. gr_createdAt g \<le> gr_createdAt r"
    "\<forall>g \<in> set after. gr_createdAt g < gr_createdAt r" by (auto simp: latest_of_def)
  show "latest_of r (rows @ [g])" if "gr_createdAt g < gr_createdAt r"
    unfolding latest_of_def using s that by (intro exI [of _ before] exI [of _ "after @ [g]"]) auto
  show "latest_of g (rows @ [g])" if "gr_createdAt r \<le> gr_createdAt g"
    unfolding latest_of_def using s that by (intro exI [of _ rows] exI [of _ "[]"]) (auto intro: order_trans less_imp_le)
qed

lemma foldl_newer_latest:
  "foldl newer old gs = Some r \<Longrightarrow> latest_of r ((case old of None \<Rightarrow> [] | Some e \<Rightarrow> [e]) @ gs)"
proof (induction gs arbitrary: r rule: rev_induct)
  case Nil
  then show ?case by (simp add: latest_of_one)
next
  case (snoc g gs)
  show ?case
  proof (cases "foldl newer old gs")
    case None
    then have "old = None \<and> gs = []" by (metis foldl_newer_None)
    then show ?thesis using snoc.prems by (simp add: newer_def latest_of_one)
  next
    case (Some e)
    then have "newer (Some e) g = Some r" using snoc.prems by simp
    then show ?thesis using latest_of_snoc [OF snoc.IH [OF Some], of g]
      by (auto simp: newer_def not_le split: if_splits)
  qed
qed

text \<open>The ids of the merged rows: each once, where it first occurs.\<close>

lemma remdups_again: "y \<in> set zs \<Longrightarrow> remdups (ws @ y # zs) = remdups (ws @ zs)"
  by (induction ws) auto

lemma keys_of_fold:
  assumes "\<And>g m. map fst (f g m) = map fst m @ (if gr_id g \<in> set (map fst m) then [] else [gr_id g])"
  shows "distinct (map fst m) \<Longrightarrow> map fst (fold f gs m) = rev (remdups (rev (map fst m @ map gr_id gs)))"
proof (induction gs arbitrary: m)
  case Nil
  then show ?case by (simp add: distinct_remdups_id)
next
  case (Cons g gs)
  have "distinct (map fst (f g m))" using Cons.prems assms by auto
  note ih = Cons.IH [OF this, unfolded assms]
  show ?case
  proof (cases "gr_id g \<in> set (map fst m)")
    case True
    then have "remdups (rev (map gr_id gs) @ gr_id g # rev (map fst m)) = remdups (rev (map gr_id gs) @ rev (map fst m))"
      by (intro remdups_again) simp
    then show ?thesis using ih True by simp
  qed (use ih in simp)
qed

lemma set_adds_key: "map fst (js_set k v m) = map fst m @ (if k \<in> set (map fst m) then [] else [k])"
  by (simp add: update_keys)

lemma merge_one_keys: "map fst (merge_one g m) = map fst m @ (if gr_id g \<in> set (map fst m) then [] else [gr_id g])"
proof (cases "js_get m (gr_id g)")
  case (Some e)
  then have "gr_id g \<in> set (map fst m)" by (force dest: js_get_in)
  then show ?thesis using Some by (auto simp: merge_one_def set_adds_key)
qed (simp add: merge_one_def set_adds_key)

lemma merged_ids: "map gr_id (merge_rows cached incoming) = rev (remdups (rev (map gr_id (cached @ incoming))))"
proof -
  have "map fst (by_id cached) = rev (remdups (rev (map gr_id cached)))"
    using keys_of_fold [of "\<lambda>g m. js_set (gr_id g) g m" "[]" cached] by (simp add: by_id_def set_adds_key)
  then have "map fst (fold merge_one incoming (by_id cached)) =
      rev (remdups (rev (rev (remdups (rev (map gr_id cached))) @ map gr_id incoming)))"
    using keys_of_fold [OF merge_one_keys, of "by_id cached" incoming] by simp
  moreover have "remdups (ys @ remdups xs) = remdups (ys @ xs)" for xs ys :: "string list" by (induction ys) auto
  moreover have "map gr_id (map snd m) = map fst m" if "keyed m" for m :: "(string, 'a group_row) jsmap"
    using that by (auto simp: keyed_def list_all_iff)
  ultimately show ?thesis by (simp add: merge_rows_def keyed_merge keyed_by_id del: map_map)
qed

section \<open>Draining a queue\<close>

text \<open>
  What both sync loops rely on: an attempt that succeeds takes the operations with its id off
  the queue, one that fails leaves the queue alone.
\<close>

fun drain :: "('op \<Rightarrow> 's \<Rightarrow> bool \<times> 's) \<Rightarrow> 'op list \<Rightarrow> 's \<Rightarrow> bool list \<times> 's" where
  "drain attempt [] s = ([], s)"
| "drain attempt (op # ops) s =
     (case attempt op s of (ok, s1) \<Rightarrow> (case drain attempt ops s1 of (oks, s2) \<Rightarrow> (ok # oks, s2)))"

lemma length_drain: "length (fst (drain attempt ops s)) = length ops"
  by (induction ops arbitrary: s) (simp_all add: case_prod_unfold)

definition succeeded :: "('op \<Rightarrow> string) \<Rightarrow> 'op list \<Rightarrow> bool list \<Rightarrow> string set" where
  "succeeded ident ops oks = ident ` fst ` set (filter snd (zip ops oks))"

lemma succeeded_simps [simp]:
  "succeeded ident [] oks = {}"
  "succeeded ident (op # ops) (ok # oks) = (if ok then insert (ident op) (succeeded ident ops oks) else succeeded ident ops oks)"
  by (simp_all add: succeeded_def)

locale offline_queue =
  fixes queue :: "'s \<Rightarrow> 'op list" and ident :: "'op \<Rightarrow> string" and attempt :: "'op \<Rightarrow> 's \<Rightarrow> bool \<times> 's"
    and ok :: "'s \<Rightarrow> bool"
  assumes success_law: "ok s \<Longrightarrow> attempt op s = (True, s') \<Longrightarrow>
      queue s' = filter (\<lambda>x. ident x \<noteq> ident op) (queue s) \<and> ok s'"
    and failure_law: "ok s \<Longrightarrow> attempt op s = (False, s') \<Longrightarrow> queue s' = queue s \<and> ok s'"
begin

lemma queue_after_drain:
  "ok s \<Longrightarrow> queue (snd (drain attempt ops s)) =
     filter (\<lambda>x. ident x \<notin> succeeded ident ops (fst (drain attempt ops s))) (queue s)"
proof (induction ops arbitrary: s)
  case (Cons op ops)
  obtain b s1 where a: "attempt op s = (b, s1)" by (cases "attempt op s")
  have "queue s1 = (if b then filter (\<lambda>x. ident x \<noteq> ident op) (queue s) else queue s) \<and> ok s1"
    using success_law [OF Cons.prems, of op s1] failure_law [OF Cons.prems, of op s1] a by (cases b) simp_all
  with Cons.IH [of s1] show ?case by (simp add: a case_prod_unfold conj_commute)
qed simp

lemma zip_failed:
  "distinct (map ident ops) \<Longrightarrow> length oks = length ops \<Longrightarrow>
     filter (\<lambda>x. ident x \<notin> succeeded ident ops oks) ops = map fst (filter (\<lambda>(op, ok). \<not> ok) (zip ops oks))"
proof (induction ops arbitrary: oks)
  case (Cons op ops)
  obtain ok oks' where oks: "oks = ok # oks'" using Cons.prems(2) by (cases oks) auto
  have d: "ident op \<notin> ident ` set ops" using Cons.prems(1) by simp
  have "succeeded ident ops oks' \<subseteq> ident ` set ops"
    by (auto simp: succeeded_def dest: set_zip_leftD)
  then have "ident op \<notin> succeeded ident ops oks'" using d by blast
  moreover have "filter (\<lambda>x. ident x \<noteq> ident op \<and> ident x \<notin> succeeded ident ops oks') ops =
      filter (\<lambda>x. ident x \<notin> succeeded ident ops oks') ops"
    using d by (intro filter_cong refl) (metis imageI)
  ultimately show ?case using Cons by (simp add: oks)
qed simp

text \<open>Draining the queue itself leaves exactly what failed, in order.\<close>

theorem drain_keeps_failures:
  assumes "ok s" and "queue s = ops" and "distinct (map ident ops)"
  shows "queue (snd (drain attempt ops s)) =
    map fst (filter (\<lambda>(op, ok). \<not> ok) (zip ops (fst (drain attempt ops s))))"
  using queue_after_drain [OF assms(1), of ops] zip_failed [OF assms(3) length_drain] assms(2) by simp

end

definition tried :: "('s, 'e, unit) js_method \<Rightarrow> 's \<Rightarrow> bool \<times> 's" where
  "tried m s = (case m s of (Inl e, s') \<Rightarrow> (False, s') | (Inr _, s') \<Rightarrow> (True, s'))"

lemma on_world_state: "fst (snd (on_world m ph)) = fst ph"
  by (simp add: on_world_def case_prod_unfold)

lemma put_queue_cases:
  "put_queue D q ph = (r, ph') \<Longrightarrow>
     (case r of Inl e \<Rightarrow> of_syncQueue (fst ph') = of_syncQueue (fst ph) | Inr _ \<Rightarrow> of_syncQueue (fst ph') = q)"
  by (auto simp: put_queue_def js_then_def on_world_def set_state_def split: prod.splits sum.splits)

lemma sync_one_cases:
  "sync_one D op ph = (r, ph') \<Longrightarrow>
     of_syncQueue (fst ph') =
       (case r of Inl e \<Rightarrow> of_syncQueue (fst ph)
        | Inr _ \<Rightarrow> filter (\<lambda>x. sy_id x \<noteq> sy_id op) (of_syncQueue (fst ph)))"
proof -
  assume s: "sync_one D op ph = (r, ph')"
  obtain r1 ph1 where o: "on_world (execute_operation D op) ph = (r1, ph1)" by (rule prod.exhaust)
  then have p: "fst ph1 = fst ph" using on_world_state by (metis snd_conv)
  show ?thesis
  proof (cases r1)
    case (Inl e)
    then show ?thesis using s o p by (simp add: sync_one_def js_then_Inl [where m = "on_world (execute_operation D op)"]) auto
  next
    case (Inr u)
    then have "put_queue D (filter (\<lambda>op'. sy_id op' \<noteq> sy_id op) (of_syncQueue (fst ph))) ph1 = (r, ph')"
      using s o p by (simp add: sync_one_def js_then_Inr [where m = "on_world (execute_operation D op)"] dequeue_def)
    from put_queue_cases [OF this] show ?thesis using p by (simp split: sum.splits)
  qed
qed

lemma on_net_db: "fst (snd (on_net m a)) = fst a"
  by (simp add: on_net_def case_prod_unfold)

lemma remove_action_cases:
  "remove_action B i a = (r, a') \<Longrightarrow>
     db_actions (fst a') = (case r of Inl e \<Rightarrow> db_actions (fst a) | Inr _ \<Rightarrow> js_del i (db_actions (fst a)))"
  by (auto simp: remove_action_def js_then_def on_net_def split: prod.splits sum.splits)

lemma sync_one_action_cases:
  "sync_one_action B action a = (r, a') \<Longrightarrow>
     db_actions (fst a') =
       (case r of Inl e \<Rightarrow> db_actions (fst a) | Inr _ \<Rightarrow> js_del (ac_id action) (db_actions (fst a)))"
proof -
  assume s: "sync_one_action B action a = (r, a')"
  obtain r1 a1 where o: "on_net (sync_action B action) a = (r1, a1)" by (rule prod.exhaust)
  then have p: "fst a1 = fst a" using on_net_db by (metis snd_conv)
  show ?thesis
  proof (cases r1)
    case (Inl e)
    then show ?thesis using s o p by (simp add: sync_one_action_def js_then_Inl [where m = "on_net (sync_action B action)"]) auto
  next
    case (Inr u)
    then have "remove_action B (ac_id action) a1 = (r, a')"
      using s o p by (simp add: sync_one_action_def js_then_Inr [where m = "on_net (sync_action B action)"])
    from remove_action_cases [OF this] show ?thesis unfolding p .
  qed
qed

interpretation phq: offline_queue "\<lambda>ph. of_syncQueue (fst ph)" sy_id "\<lambda>op. tried (sync_one D op)" "\<lambda>_. True" for D
  by unfold_locales (auto simp: tried_def dest!: sync_one_cases split: prod.splits sum.splits)

text \<open>The actions of the database, each stored under its own id.\<close>

definition actions_keyed :: "('g, 'p) offline_db \<Rightarrow> bool" where
  "actions_keyed db \<longleftrightarrow> list_all (\<lambda>(k, a). k = ac_id a) (db_actions db)"

lemma keyed_del: "list_all (\<lambda>(k, a). k = ac_id a) m \<Longrightarrow>
    map snd (js_del i m) = filter (\<lambda>x. ac_id x \<noteq> i) (map snd m) \<and> list_all (\<lambda>(k, a). k = ac_id a) (js_del i m)"
  by (induction m) auto

interpretation webq: offline_queue "\<lambda>a. map snd (db_actions (fst a))" ac_id "\<lambda>action. tried (sync_one_action B action)"
  "\<lambda>a. actions_keyed (fst a)" for B
  by unfold_locales
    (auto simp: tried_def actions_keyed_def keyed_del dest!: sync_one_action_cases split: prod.splits sum.splits)

lemma sync_all_drain:
  "sync_all D ops ph = (let (oks, ph') = drain (\<lambda>op. tried (sync_one D op)) ops ph
     in (length (filter (\<lambda>b. b) oks), length (filter Not oks), ph'))"
  by (induction ops arbitrary: ph) (auto simp: tried_def Let_def split: prod.splits sum.splits)

lemma fold_drain:
  "fold (\<lambda>action a. snd (sync_one_action B action a)) actions a = snd (drain (\<lambda>action. tried (sync_one_action B action)) actions a)"
  by (induction actions arbitrary: a) (auto simp: tried_def split: prod.splits sum.splits)

lemma merge_groups_queue: "of_syncQueue (fst (snd (merge_groups D rows ph))) = of_syncQueue (fst ph)"
  unfolding merge_groups_def cache_groups_def
  by (auto simp: js_then_def on_world_def set_state_def split: prod.splits sum.splits)

lemma refresh_groups_queue: "of_syncQueue (fst (snd (refresh_groups D ph))) = of_syncQueue (fst ph)"
proof -
  have "of_syncQueue (fst (snd (js_then (on_world (dv_fetchGroups D 1 100)) (\<lambda>rows.
      js_then (merge_groups D rows) (\<lambda>_ ph. set_state (\<lambda>s. s\<lparr>of_lastSyncedAt := Some (dv_nowIso D (snd ph))\<rparr>) ph)) ph))) =
      of_syncQueue (fst ph)"
    by (rule js_then_frame [where F = "\<lambda>ph. of_syncQueue (fst ph)"], simp add: on_world_state,
        rule js_then_frame [where F = "\<lambda>ph. of_syncQueue (fst ph)"])
      (simp_all add: merge_groups_queue set_state_def)
  then show ?thesis by (auto simp: refresh_groups_def or_else_def split: prod.splits sum.splits)
qed

lemma refresh_cached_actions: "db_actions (fst (snd (refresh_cached_groups B a))) = db_actions (fst a)"
  by (auto simp: refresh_cached_groups_def or_else_def js_then_def on_net_def merge_cached_groups_def
      get_cached_groups_def set_cached_groups_def Let_def split: prod.splits sum.splits option.splits)

section \<open>Properties\<close>

text \<open>
  C31. The merge refines "the newest row of each id wins": the merged rows have exactly the ids of the two lists, each
  once and in the order of their first occurrence; the row kept for an id is, of the cached row and the incoming ones with
  it in order, the last of those with the latest creation time. So a row that comes in with the creation time of the cached one replaces it.
\<close>

theorem merge_keeps_newest:
  assumes "distinct (map gr_id cached)"
  shows "map gr_id (merge_rows cached incoming) = rev (remdups (rev (map gr_id (cached @ incoming))))
    \<and> (\<forall>r \<in> set (merge_rows cached incoming). \<exists>before after.
         filter (\<lambda>g. gr_id g = gr_id r) (cached @ incoming) = before @ r # after
         \<and> (\<forall>g \<in> set before. gr_createdAt g \<le> gr_createdAt r) \<and> (\<forall>g \<in> set after. gr_createdAt g < gr_createdAt r))"
proof (intro conjI ballI)
  fix r
  assume r: "r \<in> set (merge_rows cached incoming)"
  let ?i = "gr_id r"
  have "distinct (map gr_id (merge_rows cached incoming))" by (simp add: merged_ids)
  then have "row_of (merge_rows cached incoming) ?i = Some r" by (rule row_of_member [OF _ r])
  then have "foldl newer (row_of cached ?i) (filter (\<lambda>g. gr_id g = ?i) incoming) = Some r"
    by (simp add: merge_rows_refines [OF assms])
  then have "latest_of r (filter (\<lambda>g. gr_id g = ?i) (cached @ incoming))"
    using foldl_newer_latest cached_of [OF assms] by fastforce
  then show "\<exists>before after. filter (\<lambda>g. gr_id g = ?i) (cached @ incoming) = before @ r # after
      \<and> (\<forall>g \<in> set before. gr_createdAt g \<le> gr_createdAt r) \<and> (\<forall>g \<in> set after. gr_createdAt g < gr_createdAt r)"
    by (simp add: latest_of_def)
qed (rule merged_ids)

definition old_row :: "int group_row" where
  "old_row = \<lparr>gr_id = ''g'', gr_createdAt = ''2026-01-01'', gr_fields = 1\<rparr>"

text \<open>An update of the cached row, with the creation time it has always had, is taken over.\<close>

theorem merge_keeps_newest_witness:
  "merge_rows [old_row] [old_row\<lparr>gr_fields := 2\<rparr>] = [old_row\<lparr>gr_fields := 2\<rparr>]"
proof -
  let ?new = "old_row\<lparr>gr_fields := 2\<rparr>"
  have m: "map gr_id (merge_rows [old_row] [?new]) = [''g'']"
    using merge_keeps_newest [of "[old_row]" "[?new]"] by (simp add: old_row_def)
  then obtain r where r: "merge_rows [old_row] [?new] = [r]" "gr_id r = ''g''" by (auto simp: map_eq_Cons_conv)
  obtain before after where s: "filter (\<lambda>g. gr_id g = ''g'') [old_row, ?new] = before @ r # after"
    "\<forall>g \<in> set after. gr_createdAt g < gr_createdAt r"
    using merge_keeps_newest [of "[old_row]" "[?new]"] r by auto
  then have "[old_row, ?new] = before @ r # after" by (simp add: old_row_def)
  then show ?thesis using s(2) r(1)
    by (cases before) (auto simp: Cons_eq_append_conv old_row_def)
qed

text \<open>
  The phone's sync loses nothing and repeats nothing by itself: it attempts every queued
  operation once and in order, afterwards the queue holds exactly the operations whose attempt
  failed, in their order, the counts it reports are the numbers of both kinds, and the syncing
  flag is off again.
\<close>

theorem phone_sync_keeps_failures:
  assumes "\<not> of_isSyncing (fst ph)" and "distinct (map sy_id (of_syncQueue (fst ph)))"
  shows "\<exists>oks. length oks = length (of_syncQueue (fst ph)) \<and>
    of_syncQueue (fst (snd (sync_offline_queue D ph))) =
      map fst (filter (\<lambda>(op, ok). \<not> ok) (zip (of_syncQueue (fst ph)) oks)) \<and>
    fst (sync_offline_queue D ph) = (length (filter (\<lambda>b. b) oks), length (filter Not oks)) \<and>
    \<not> of_isSyncing (fst (snd (sync_offline_queue D ph)))"
proof (cases "of_syncQueue (fst ph) = []")
  case True
  then show ?thesis using assms(1) by (simp add: sync_offline_queue_def)
next
  case False
  let ?q = "of_syncQueue (fst ph)" and ?ph = "((fst ph)\<lparr>of_isSyncing := True\<rparr>, snd ph)"
  obtain oks ph1 where dr: "drain (\<lambda>op. tried (sync_one D op)) ?q ?ph = (oks, ph1)" by (rule prod.exhaust)
  obtain r s w where rf: "refresh_groups D ph1 = (r, (s, w))" by (metis prod.exhaust)
  have q: "of_syncQueue (fst ph1) = map fst (filter (\<lambda>(op, ok). \<not> ok) (zip ?q oks))"
    using phq.drain_keeps_failures [of ?ph ?q D] assms(2) dr by simp
  have "of_syncQueue s = of_syncQueue (fst ph1)" using refresh_groups_queue [of D ph1] rf by simp
  moreover have "sync_offline_queue D ph =
      ((length (filter (\<lambda>b. b) oks), length (filter Not oks)), (s\<lparr>of_isSyncing := False\<rparr>, w))"
    using False assms(1) by (simp add: sync_offline_queue_def sync_all_drain dr rf)
  moreover have "length oks = length ?q" using length_drain [of "\<lambda>op. tried (sync_one D op)" ?q ?ph] dr by simp
  ultimately show ?thesis using q by auto
qed

definition demo_device :: "(nat, int, string) device" where
  "demo_device = \<lparr>dv_read_groups = js_return None, dv_read_queue = js_return None,
     dv_write_groups = (\<lambda>g. js_return ()), dv_write_queue = (\<lambda>q. js_return ()), dv_delete_queue = js_return (),
     dv_createGroup = (\<lambda>p. js_return old_row), dv_joinGroup = (\<lambda>g k. js_throw ''offline''),
     dv_contribute = (\<lambda>g a x. js_return ()), dv_fetchGroups = (\<lambda>p l. js_throw ''offline''),
     dv_fetchGroup = (\<lambda>i. js_throw ''offline''), dv_newId = (\<lambda>w. ''id''), dv_nowIso = (\<lambda>w. ''t'')\<rparr>"

definition demo_ops :: "string sync_operation list" where
  "demo_ops = [\<lparr>sy_id = ''1'', sy_payload = CreateGroupOp ''Ajo'', sy_timestamp = ''t''\<rparr>,
     \<lparr>sy_id = ''2'', sy_payload = JoinGroupOp ''g'' ''k'', sy_timestamp = ''t''\<rparr>]"

theorem phone_sync_keeps_failures_witness:
  "\<exists>oks. length oks = 2 \<and>
     of_syncQueue (fst (snd (sync_offline_queue demo_device (new_offline_state\<lparr>of_syncQueue := demo_ops\<rparr>, 0)))) =
       map fst (filter (\<lambda>(op, ok). \<not> ok) (zip demo_ops oks))"
  using phone_sync_keeps_failures [of "(new_offline_state\<lparr>of_syncQueue := demo_ops\<rparr>, 0)" demo_device]
  by (auto simp: new_offline_state_def demo_ops_def numeral_2_eq_2)

text \<open>
  The browser's sync attempts the stored actions in the order of their ids and keeps exactly
  those whose attempt failed, when each is stored under its own id.
\<close>

theorem browser_sync_keeps_failures:
  assumes "actions_keyed (fst a)" and "distinct (map ac_id (map snd (db_actions (fst a))))"
    and "get_all_actions B a = (Inr actions, a1)"
  shows "\<exists>oks. length oks = length actions \<and>
    sort_key ac_id (map snd (db_actions (fst (snd (sync_pending_actions B a))))) =
      map fst (filter (\<lambda>(action, ok). \<not> ok) (zip actions oks))"
proof -
  let ?att = "\<lambda>action. tried (sync_one_action B action)" and ?q = "map snd (db_actions (fst a))"
  have g: "actions = sort_key ac_id ?q" "fst a1 = fst a"
    using assms(3) by (auto simp: get_all_actions_def js_then_def on_net_def split: prod.splits sum.splits)
  obtain oks a2 where dr: "drain ?att actions a1 = (oks, a2)" by (rule prod.exhaust)
  have len: "length oks = length actions" using length_drain [of ?att actions a1] dr by simp
  have "mset (map ac_id actions) = mset (map ac_id ?q)" by (simp add: g del: map_map)
  then have d: "distinct (map ac_id actions)" using assms(2) mset_eq_imp_distinct_iff by blast
  have "map snd (db_actions (fst a2)) = filter (\<lambda>x. ac_id x \<notin> succeeded ac_id actions oks) ?q"
    using webq.queue_after_drain [of a1 B actions] assms(1) g(2) dr by simp
  then have "sort_key ac_id (map snd (db_actions (fst a2))) =
      filter (\<lambda>x. ac_id x \<notin> succeeded ac_id actions oks) actions"
    by (simp add: g(1) filter_sort)
  also have "\<dots> = map fst (filter (\<lambda>(action, ok). \<not> ok) (zip actions oks))"
    by (rule webq.zip_failed [OF d len])
  finally have "sort_key ac_id (map snd (db_actions (fst a2))) = \<dots>" .
  moreover have "sync_pending_actions B a = refresh_cached_groups B a2"
    using dr by (simp add: sync_pending_actions_def js_then_def assms(3) fold_drain)
  ultimately show ?thesis using len by (auto simp: refresh_cached_actions)
qed

definition demo_browser :: "(nat, int, string) browser" where
  "demo_browser = \<lparr>br_allows = js_return (), br_now = (\<lambda>w. 0),
     br_request = (\<lambda>p m b. if p = ''/api/v1/groups'' then js_return () else js_throw ''503''),
     br_groups = js_throw ''503'', br_groupId = (\<lambda>p. ''g''), br_publicKey = (\<lambda>p. ''k''),
     br_amount = (\<lambda>p. ''1''), br_signedXdr = (\<lambda>p. ''x'')\<rparr>"

definition demo_db :: "(int, string) offline_db" where
  "demo_db = \<lparr>db_actions = [(''b'', \<lparr>ac_id = ''b'', ac_type = ''createGroup'', ac_payload = ''p'', ac_timestamp = 2\<rparr>),
      (''a'', \<lparr>ac_id = ''a'', ac_type = ''joinGroup'', ac_payload = ''p'', ac_timestamp = 1\<rparr>)], db_groups = None\<rparr>"

theorem browser_sync_keeps_failures_witness:
  "\<exists>oks. length oks = 2 \<and>
     sort_key ac_id (map snd (db_actions (fst (snd (sync_pending_actions demo_browser (demo_db, 0)))))) =
       map fst (filter (\<lambda>(action, ok). \<not> ok) (zip (sort_key ac_id (map snd (db_actions demo_db))) oks))"
proof -
  have "get_all_actions demo_browser (demo_db, 0) = (Inr (sort_key ac_id (map snd (db_actions demo_db))), (demo_db, 0))"
    by (simp add: get_all_actions_def js_then_def on_net_def demo_browser_def)
  from browser_sync_keeps_failures [OF _ _ this] show ?thesis
    by (simp add: actions_keyed_def demo_db_def numeral_2_eq_2)
qed

text \<open>
  Overlapping updates lose or repeat operations: when the user enqueues \<open>b\<close> while the sync
  dequeues a finished \<open>a\<close> and both calls are at their await, the queue ends without \<open>b\<close> if the
  enqueue's write returns first, and with \<open>a\<close> again if the dequeue's does.
\<close>

theorem overlapping_updates_lose_operations:
  "\<exists>r. race_step \<lparr>qr_queue = [a], qr_pending = []\<rparr> r \<and> qr_pending r = [[a, b]] \<and>
     race_step\<^sup>*\<^sup>* r \<lparr>qr_queue = [], qr_pending = []\<rparr> \<and>
     race_step\<^sup>*\<^sup>* r \<lparr>qr_queue = [a, b], qr_pending = []\<rparr>"
proof -
  let ?s = "\<lparr>qr_queue = [a], qr_pending = []\<rparr>" and ?r = "\<lparr>qr_queue = [a], qr_pending = [[a, b]]\<rparr>"
  let ?both = "\<lparr>qr_queue = [a], qr_pending = [[a, b], []]\<rparr>"
  have 1: "race_step ?s ?r" using race_enqueue [of ?s b] by simp
  have 2: "race_step ?r ?both" using race_dequeue [of ?r "sy_id a"] by simp
  have 3: "race_step ?both \<lparr>qr_queue = [a, b], qr_pending = [[]]\<rparr>" using race_written [of ?both "[]"] by simp
  have 4: "race_step \<lparr>qr_queue = [a, b], qr_pending = [[]]\<rparr> \<lparr>qr_queue = [], qr_pending = []\<rparr>"
    using race_written [of "\<lparr>qr_queue = [a, b], qr_pending = [[]]\<rparr>" "[]"] by simp
  have 5: "race_step ?both \<lparr>qr_queue = [], qr_pending = [[a, b]]\<rparr>" using race_written [of ?both "[[a, b]]"] by simp
  have 6: "race_step \<lparr>qr_queue = [], qr_pending = [[a, b]]\<rparr> \<lparr>qr_queue = [a, b], qr_pending = []\<rparr>"
    using race_written [of "\<lparr>qr_queue = [], qr_pending = [[a, b]]\<rparr>" "[]"] by simp
  have lost: "race_step\<^sup>*\<^sup>* ?r \<lparr>qr_queue = [], qr_pending = []\<rparr>"
    using 2 3 4 by (meson converse_rtranclp_into_rtranclp rtranclp.rtrancl_refl)
  have again: "race_step\<^sup>*\<^sup>* ?r \<lparr>qr_queue = [a, b], qr_pending = []\<rparr>"
    using 2 5 6 by (meson converse_rtranclp_into_rtranclp rtranclp.rtrancl_refl)
  show ?thesis using 1 lost again by (intro conjI exI [of _ ?r]) simp_all
qed

end
