(* ===== verification/Rewards.thy ===== *)
theory Rewards
  imports JsPrelude
begin

text \<open>
  Rewards and the fraud check in front of them: \<open>backend/src/services/RewardEngine.ts\<close> and
  \<open>FraudDetector.ts\<close>. The database client is a record of operations on an abstract state \<open>'s\<close>,
  a \<open>where\<close> clause a predicate and a \<open>data\<close> clause an update function, as the code gives them;
  \<open>store_laws\<close> states what the client documents of them over the table's rows. Ids are the
  database's; \<open>Number\<close> and \<open>BigInt\<close> on text are functions of the record.
\<close>

section \<open>Data\<close>

datatype reward_type = FeeDiscount | BonusToken | PremiumFeature | NftBadge | UnknownReward string

datatype reward_status = RewardPending | RewardActive | RewardRedeemed | RewardExpired

datatype amount = AmountNumber rat | AmountText string

record 'm reward_definition =
  rf_type :: reward_type
  rf_amount :: "amount option"
  rf_featureId :: "string option"
  rf_nftMetadata :: "'m option"
  rf_expirationDays :: "rat option"

text \<open>Of an achievement only the rewards it grants are kept.\<close>

record 'm reward_config =
  rg_version :: int
  rg_referrer :: "'m reward_definition list"
  rg_referee :: "'m reward_definition list"
  rg_achievements :: "(string, 'm reward_definition list) jsmap"

text \<open>A row of the reward table; \<open>rw_id\<close> and \<open>rw_earnedAt\<close> are filled in by the database.\<close>

record 'm reward =
  rw_id :: string
  rw_earnedAt :: int
  rw_userId :: string
  rw_type :: reward_type
  rw_status :: reward_status
  rw_source :: string
  rw_sourceId :: "string option"
  rw_discountPercent :: "rat option"
  rw_tokenAmount :: "int option"
  rw_featureId :: "string option"
  rw_nftMetadata :: "'m option"
  rw_expiresAt :: "rat option"
  rw_redeemedAt :: "int option"

datatype flag_status = FlagPending | FlagReviewed | FlagConfirmed | FlagDismissed

datatype fraud_severity = LowSeverity | MediumSeverity | HighSeverity

record fraud_flag =
  ff_id :: string
  ff_userId :: "string option"
  ff_referralId :: string
  ff_flagType :: string
  ff_severity :: fraud_severity
  ff_status :: flag_status
  ff_reviewedAt :: "int option"
  ff_reviewedBy :: "string option"

datatype reward_error =
    DbError string
  | NoActiveConfiguration
  | AchievementNotFound string
  | UnknownRewardType string
  | InvalidBigInt
  | RewardNotFound
  | CannotRedeem reward_status
  | RewardHasExpired

section \<open>The database client\<close>

record ('s, 'm) reward_store =
  st_now :: "'s \<Rightarrow> int"
  st_create :: "'m reward \<Rightarrow> ('s, reward_error, 'm reward) js_method"
  st_find_unique :: "string \<Rightarrow> ('s, reward_error, 'm reward option) js_method"
  st_find_many :: "('m reward \<Rightarrow> bool) \<Rightarrow> ('s, reward_error, 'm reward list) js_method"
  st_update :: "string \<Rightarrow> ('m reward \<Rightarrow> 'm reward) \<Rightarrow> ('s, reward_error, unit) js_method"
  st_update_many :: "('m reward \<Rightarrow> bool) \<Rightarrow> ('m reward \<Rightarrow> 'm reward) \<Rightarrow> ('s, reward_error, nat) js_method"
  st_flags :: "(fraud_flag \<Rightarrow> bool) \<Rightarrow> ('s, reward_error, fraud_flag list) js_method"
  st_create_flag :: "fraud_flag \<Rightarrow> ('s, reward_error, fraud_flag) js_method"
  st_update_flag :: "string \<Rightarrow> (fraud_flag \<Rightarrow> fraud_flag) \<Rightarrow> ('s, reward_error, unit) js_method"
  st_mark_referral :: "string \<Rightarrow> string \<Rightarrow> ('s, reward_error, unit) js_method"
  st_save_config :: "'m reward_config \<Rightarrow> ('s, reward_error, unit) js_method"
  st_retire_configs :: "int \<Rightarrow> ('s, reward_error, unit) js_method"
  st_active_config :: "('s, reward_error, 'm reward_config option) js_method"
  st_number :: "string \<Rightarrow> rat option"
  st_bigint :: "string \<Rightarrow> int option"

text \<open>The engine: its cached configuration, with the database.\<close>

type_synonym ('s, 'm) engine = "'m reward_config option \<times> 's"

definition on_db :: "('s, reward_error, 'r) js_method \<Rightarrow> (('s, 'm) engine, reward_error, 'r) js_method" where
  "on_db m en = (case m (snd en) of (r, s) \<Rightarrow> (r, (fst en, s)))"

section \<open>The fraud check\<close>

definition should_block_reward :: "('s, 'm) reward_store \<Rightarrow> string \<Rightarrow> ('s, reward_error, bool) js_method" where
  "should_block_reward S userId =
     js_then (st_flags S (\<lambda>f. ff_userId f = Some userId \<and> ff_status f \<in> {FlagPending, FlagConfirmed}))
       (\<lambda>flags. js_return (flags \<noteq> []))"

definition determine_severity :: "string \<Rightarrow> fraud_severity" where
  "determine_severity flagType =
     (if flagType \<in> {''SELF_REFERRAL'', ''BULK_CREATION''} then HighSeverity
      else if flagType \<in> {''IP_MATCH'', ''DEVICE_MATCH''} then MediumSeverity
      else LowSeverity)"

text \<open>The row \<open>flagReferral\<close> writes names the referral and no user.\<close>

definition flag_referral :: "('s, 'm) reward_store \<Rightarrow> string \<Rightarrow> string \<Rightarrow> ('s, reward_error, fraud_flag) js_method" where
  "flag_referral S referralId flagType =
     js_then (st_create_flag S
         \<lparr>ff_id = [], ff_userId = None, ff_referralId = referralId, ff_flagType = flagType,
          ff_severity = determine_severity flagType, ff_status = FlagPending,
          ff_reviewedAt = None, ff_reviewedBy = None\<rparr>)
       (\<lambda>flag. js_then (st_mark_referral S referralId ''FLAGGED'') (\<lambda>_. js_return flag))"

definition review_flag :: "('s, 'm) reward_store \<Rightarrow> string \<Rightarrow> flag_status \<Rightarrow> string \<Rightarrow> ('s, reward_error, unit) js_method" where
  "review_flag S flagId status reviewerId s =
     st_update_flag S flagId
       (\<lambda>f. f\<lparr>ff_status := status, ff_reviewedAt := Some (st_now S s), ff_reviewedBy := Some reviewerId\<rparr>) s"

section \<open>Configuration\<close>

definition load_configuration :: "('s, 'm) reward_store \<Rightarrow> 'm reward_config \<Rightarrow> (('s, 'm) engine, reward_error, unit) js_method" where
  "load_configuration S config en =
     js_then (on_db (st_save_config S config)) (\<lambda>_. on_db (st_retire_configs S (rg_version config))) (Some config, snd en)"

definition get_configuration :: "('s, 'm) reward_store \<Rightarrow> (('s, 'm) engine, reward_error, 'm reward_config) js_method" where
  "get_configuration S en =
     (case fst en of
        Some config \<Rightarrow> (Inr config, en)
      | None \<Rightarrow>
          js_then (on_db (st_active_config S)) (\<lambda>active en'.
            case active of None \<Rightarrow> (Inl NoActiveConfiguration, en')
            | Some config \<Rightarrow> (Inr config, (Some config, snd en'))) en)"

section \<open>Granting\<close>

definition new_reward :: "string \<Rightarrow> reward_type \<Rightarrow> reward_status \<Rightarrow> string \<Rightarrow> string \<Rightarrow> 'm reward" where
  "new_reward userId kind status source sourceId =
     \<lparr>rw_id = [], rw_earnedAt = 0, rw_userId = userId, rw_type = kind, rw_status = status, rw_source = source,
      rw_sourceId = Some sourceId, rw_discountPercent = None, rw_tokenAmount = None, rw_featureId = None,
      rw_nftMetadata = None, rw_expiresAt = None, rw_redeemedAt = None\<rparr>"

definition grant_fee_discount ::
  "('s, 'm) reward_store \<Rightarrow> string \<Rightarrow> rat option \<Rightarrow> rat option \<Rightarrow> string \<Rightarrow> string \<Rightarrow> ('s, reward_error, 'm reward) js_method" where
  "grant_fee_discount S userId percent expiresAt source sourceId =
     st_create S ((new_reward userId FeeDiscount RewardActive source sourceId)
       \<lparr>rw_discountPercent := percent, rw_expiresAt := expiresAt\<rparr>)"

text \<open>Bonus tokens and badges are created pending and then activated; the row returned is the pending one.\<close>

definition create_then_activate :: "('s, 'm) reward_store \<Rightarrow> 'm reward \<Rightarrow> ('s, reward_error, 'm reward) js_method" where
  "create_then_activate S data =
     js_then (st_create S data) (\<lambda>reward.
       js_then (st_update S (rw_id reward) (\<lambda>r. r\<lparr>rw_status := RewardActive\<rparr>)) (\<lambda>_. js_return reward))"

definition grant_bonus_tokens ::
  "('s, 'm) reward_store \<Rightarrow> string \<Rightarrow> int \<Rightarrow> string \<Rightarrow> string \<Rightarrow> ('s, reward_error, 'm reward) js_method" where
  "grant_bonus_tokens S userId n source sourceId =
     create_then_activate S ((new_reward userId BonusToken RewardPending source sourceId)\<lparr>rw_tokenAmount := Some n\<rparr>)"

definition grant_premium_feature ::
  "('s, 'm) reward_store \<Rightarrow> string \<Rightarrow> string option \<Rightarrow> rat option \<Rightarrow> string \<Rightarrow> string \<Rightarrow> ('s, reward_error, 'm reward) js_method" where
  "grant_premium_feature S userId featureId expiresAt source sourceId =
     st_create S ((new_reward userId PremiumFeature RewardActive source sourceId)
       \<lparr>rw_featureId := featureId, rw_expiresAt := expiresAt\<rparr>)"

definition mint_nft_badge ::
  "('s, 'm) reward_store \<Rightarrow> string \<Rightarrow> 'm option \<Rightarrow> string \<Rightarrow> string \<Rightarrow> ('s, reward_error, 'm reward) js_method" where
  "mint_nft_badge S userId metadata source sourceId =
     create_then_activate S ((new_reward userId NftBadge RewardPending source sourceId)\<lparr>rw_nftMetadata := metadata\<rparr>)"

definition to_number :: "('s, 'm) reward_store \<Rightarrow> amount option \<Rightarrow> rat option" where
  "to_number S a = (case a of None \<Rightarrow> None | Some (AmountNumber n) \<Rightarrow> Some n | Some (AmountText t) \<Rightarrow> st_number S t)"

definition to_bigint :: "('s, 'm) reward_store \<Rightarrow> amount option \<Rightarrow> int option" where
  "to_bigint S a =
     (case a of None \<Rightarrow> None
      | Some (AmountNumber n) \<Rightarrow> if of_int \<lfloor>n\<rfloor> = n then Some \<lfloor>n\<rfloor> else None
      | Some (AmountText t) \<Rightarrow> st_bigint S t)"

text \<open>\<open>new Date(t)\<close> drops the fraction of a millisecond; times beyond the range of \<open>Date\<close> are not modelled.\<close>

definition time_clip :: "rat \<Rightarrow> int" where
  "time_clip t = (if t < 0 then \<lceil>t\<rceil> else \<lfloor>t\<rfloor>)"

definition expiry :: "int \<Rightarrow> rat option \<Rightarrow> rat option" where
  "expiry now days =
     (case days of None \<Rightarrow> None | Some d \<Rightarrow> if d = 0 then None else Some (of_int (time_clip (of_int now + d * 24 * 60 * 60 * 1000))))"

definition grant_reward ::
  "('s, 'm) reward_store \<Rightarrow> string \<Rightarrow> 'm reward_definition \<Rightarrow> string \<Rightarrow> string \<Rightarrow> ('s, reward_error, 'm reward) js_method" where
  "grant_reward S userId rewardDef source sourceId s =
     (let expiresAt = expiry (st_now S s) (rf_expirationDays rewardDef)
      in case rf_type rewardDef of
           FeeDiscount \<Rightarrow> grant_fee_discount S userId (to_number S (rf_amount rewardDef)) expiresAt source sourceId s
         | BonusToken \<Rightarrow>
             (case to_bigint S (rf_amount rewardDef) of
                None \<Rightarrow> (Inl InvalidBigInt, s)
              | Some n \<Rightarrow> grant_bonus_tokens S userId n source sourceId s)
         | PremiumFeature \<Rightarrow> grant_premium_feature S userId (rf_featureId rewardDef) expiresAt source sourceId s
         | NftBadge \<Rightarrow> mint_nft_badge S userId (rf_nftMetadata rewardDef) source sourceId s
         | UnknownReward t \<Rightarrow> (Inl (UnknownRewardType t), s))"

fun grant_all ::
  "('s, 'm) reward_store \<Rightarrow> string \<Rightarrow> 'm reward_definition list \<Rightarrow> string \<Rightarrow> string \<Rightarrow> ('s, reward_error, unit) js_method" where
  "grant_all S userId [] source sourceId = js_return ()"
| "grant_all S userId (d # ds) source sourceId =
     js_then (grant_reward S userId d source sourceId) (\<lambda>_. grant_all S userId ds source sourceId)"

definition distribute_referral_reward ::
  "('s, 'm) reward_store \<Rightarrow> string \<Rightarrow> string \<Rightarrow> (('s, 'm) engine, reward_error, unit) js_method" where
  "distribute_referral_reward S referrerId refereeId =
     js_then (on_db (should_block_reward S refereeId)) (\<lambda>blocked.
       if blocked then js_return ()
       else js_then (on_db (should_block_reward S referrerId)) (\<lambda>blocked.
         if blocked then js_return ()
         else js_then (get_configuration S) (\<lambda>config.
           js_then (on_db (grant_all S referrerId (rg_referrer config) ''REFERRAL'' refereeId)) (\<lambda>_.
             on_db (grant_all S refereeId (rg_referee config) ''REFERRAL'' referrerId)))))"

definition distribute_achievement_reward ::
  "('s, 'm) reward_store \<Rightarrow> string \<Rightarrow> string \<Rightarrow> (('s, 'm) engine, reward_error, unit) js_method" where
  "distribute_achievement_reward S userId achievementId =
     js_then (on_db (should_block_reward S userId)) (\<lambda>blocked.
       if blocked then js_return ()
       else js_then (get_configuration S) (\<lambda>config.
         case js_get (rg_achievements config) achievementId of
           None \<Rightarrow> js_throw (AchievementNotFound achievementId)
         | Some rewards \<Rightarrow> on_db (grant_all S userId rewards ''ACHIEVEMENT'' achievementId)))"

section \<open>Using rewards\<close>

definition still_valid :: "int \<Rightarrow> 'm reward \<Rightarrow> bool" where
  "still_valid now r = (case rw_expiresAt r of None \<Rightarrow> True | Some t \<Rightarrow> of_int now < t)"

definition get_active_rewards ::
  "('s, 'm) reward_store \<Rightarrow> string \<Rightarrow> reward_type option \<Rightarrow> ('s, reward_error, 'm reward list) js_method" where
  "get_active_rewards S userId kind s =
     st_find_many S (\<lambda>r. rw_userId r = userId \<and> rw_status r = RewardActive \<and>
       (case kind of None \<Rightarrow> True | Some k \<Rightarrow> rw_type r = k) \<and> still_valid (st_now S s) r) s"

definition redeem_reward :: "('s, 'm) reward_store \<Rightarrow> string \<Rightarrow> ('s, reward_error, unit) js_method" where
  "redeem_reward S rewardId =
     js_then (st_find_unique S rewardId) (\<lambda>found s.
       case found of
         None \<Rightarrow> (Inl RewardNotFound, s)
       | Some reward \<Rightarrow>
           if rw_status reward \<noteq> RewardActive then (Inl (CannotRedeem (rw_status reward)), s)
           else if (case rw_expiresAt reward of None \<Rightarrow> False | Some t \<Rightarrow> t < of_int (st_now S s))
           then (Inl RewardHasExpired, s)
           else st_update S rewardId
                  (\<lambda>r. r\<lparr>rw_status := RewardRedeemed, rw_redeemedAt := Some (st_now S s)\<rparr>) s)"

definition past_expiry :: "int \<Rightarrow> 'm reward \<Rightarrow> bool" where
  "past_expiry now r \<longleftrightarrow>
     rw_status r = RewardActive \<and> (case rw_expiresAt r of None \<Rightarrow> False | Some t \<Rightarrow> t < of_int now)"

definition expire_rewards :: "('s, 'm) reward_store \<Rightarrow> ('s, reward_error, nat) js_method" where
  "expire_rewards S s =
     st_update_many S (past_expiry (st_now S s)) (\<lambda>r. r\<lparr>rw_status := RewardExpired\<rparr>) s"

definition discount_of :: "'m reward \<Rightarrow> rat" where
  "discount_of r = get_or 0 (rw_discountPercent r)"

definition get_applicable_discount :: "('s, 'm) reward_store \<Rightarrow> string \<Rightarrow> ('s, reward_error, rat) js_method" where
  "get_applicable_discount S userId =
     js_then (get_active_rewards S userId (Some FeeDiscount)) (\<lambda>discounts.
       case discounts of
         [] \<Rightarrow> js_return 0
       | d # ds \<Rightarrow> js_return (fold max (map discount_of ds) (discount_of d)))"

definition calculate_discounted_fee :: "rat \<Rightarrow> rat \<Rightarrow> rat" where
  "calculate_discounted_fee originalFee discountPercent = originalFee * (1 - discountPercent / 100)"

definition has_premium_feature_access :: "('s, 'm) reward_store \<Rightarrow> string \<Rightarrow> string \<Rightarrow> ('s, reward_error, bool) js_method" where
  "has_premium_feature_access S userId featureId s =
     js_then (st_find_many S (\<lambda>r. rw_userId r = userId \<and> rw_type r = PremiumFeature \<and>
         rw_featureId r = Some featureId \<and> rw_status r = RewardActive \<and> still_valid (st_now S s) r))
       (\<lambda>features. js_return (features \<noteq> [])) s"

section \<open>What the database promises\<close>

definition create_law :: "('s, 'm) reward_store \<Rightarrow> ('s \<Rightarrow> 'm reward list) \<Rightarrow> bool" where
  "create_law S rows \<longleftrightarrow> (\<forall>d s.
     case st_create S d s of
       (Inl e, s') \<Rightarrow> rows s' = rows s
     | (Inr r, s') \<Rightarrow> rows s' = rows s @ [r] \<and> rw_id r \<notin> rw_id ` set (rows s) \<and>
         r = d\<lparr>rw_id := rw_id r, rw_earnedAt := rw_earnedAt r\<rparr>)"

definition find_law :: "('s, 'm) reward_store \<Rightarrow> ('s \<Rightarrow> 'm reward list) \<Rightarrow> bool" where
  "find_law S rows \<longleftrightarrow> (\<forall>i s.
     case st_find_unique S i s of
       (Inl e, s') \<Rightarrow> rows s' = rows s
     | (Inr x, s') \<Rightarrow> rows s' = rows s \<and> x = find (\<lambda>r. rw_id r = i) (rows s))"

definition find_many_law :: "('s, 'm) reward_store \<Rightarrow> ('s \<Rightarrow> 'm reward list) \<Rightarrow> bool" where
  "find_many_law S rows \<longleftrightarrow> (\<forall>P s.
     case st_find_many S P s of
       (Inl e, s') \<Rightarrow> rows s' = rows s
     | (Inr xs, s') \<Rightarrow> rows s' = rows s \<and> set xs = set (filter P (rows s)))"

definition update_law :: "('s, 'm) reward_store \<Rightarrow> ('s \<Rightarrow> 'm reward list) \<Rightarrow> bool" where
  "update_law S rows \<longleftrightarrow> (\<forall>i f s.
     case st_update S i f s of
       (Inl e, s') \<Rightarrow> rows s' = rows s
     | (Inr u, s') \<Rightarrow> rows s' = map (\<lambda>r. if rw_id r = i then f r else r) (rows s))"

definition update_many_law :: "('s, 'm) reward_store \<Rightarrow> ('s \<Rightarrow> 'm reward list) \<Rightarrow> bool" where
  "update_many_law S rows \<longleftrightarrow> (\<forall>P f s.
     case st_update_many S P f s of
       (Inl e, s') \<Rightarrow> rows s' = rows s
     | (Inr n, s') \<Rightarrow> rows s' = map (\<lambda>r. if P r then f r else r) (rows s) \<and> n = length (filter P (rows s)))"

definition store_laws :: "('s, 'm) reward_store \<Rightarrow> ('s \<Rightarrow> 'm reward list) \<Rightarrow> bool" where
  "store_laws S rows \<longleftrightarrow> create_law S rows \<and> find_law S rows \<and> find_many_law S rows \<and>
     update_law S rows \<and> update_many_law S rows"

lemma store_laws_create:
  assumes "store_laws S rows" and "st_create S d s = (x, s')"
  shows "case x of Inl e \<Rightarrow> rows s' = rows s
    | Inr r \<Rightarrow> rows s' = rows s @ [r] \<and> rw_id r \<notin> rw_id ` set (rows s) \<and>
        r = d\<lparr>rw_id := rw_id r, rw_earnedAt := rw_earnedAt r\<rparr>"
  using spec [OF spec [OF assms(1) [unfolded store_laws_def create_law_def, THEN conjunct1], of d], of s] assms(2)
  by (simp split: sum.splits)

lemma store_laws_update:
  assumes "store_laws S rows" and "st_update S i f s = (x, s')"
  shows "rows s' = (case x of Inl e \<Rightarrow> rows s | Inr u \<Rightarrow> map (\<lambda>r. if rw_id r = i then f r else r) (rows s))"
proof -
  have "update_law S rows" using assms(1) by (simp add: store_laws_def)
  from this [unfolded update_law_def, rule_format, of s i f] show ?thesis
    using assms(2) by (simp split: sum.splits)
qed

lemma store_laws_find:
  assumes "store_laws S rows" and "st_find_unique S i s = (x, s')"
  shows "rows s' = rows s \<and> (\<forall>y. x = Inr y \<longrightarrow> y = find (\<lambda>r. rw_id r = i) (rows s))"
proof -
  have "find_law S rows" using assms(1) by (simp add: store_laws_def)
  from this [unfolded find_law_def, rule_format, of s i] show ?thesis
    using assms(2) by (simp split: sum.splits)
qed

lemma store_laws_find_many:
  assumes "store_laws S rows" and "st_find_many S P s = (x, s')"
  shows "rows s' = rows s \<and> (\<forall>xs. x = Inr xs \<longrightarrow> set xs = set (filter P (rows s)))"
proof -
  have "find_many_law S rows" using assms(1) by (simp add: store_laws_def)
  from this [unfolded find_many_law_def, rule_format, of s P] show ?thesis
    using assms(2) by (simp split: sum.splits)
qed

lemma store_laws_update_many:
  assumes "store_laws S rows" and "st_update_many S P f s = (x, s')"
  shows "case x of Inl e \<Rightarrow> rows s' = rows s
    | Inr n \<Rightarrow> rows s' = map (\<lambda>r. if P r then f r else r) (rows s) \<and> n = length (filter P (rows s))"
proof -
  have "update_many_law S rows" using assms(1) by (simp add: store_laws_def)
  from this [unfolded update_many_law_def, rule_format, of s P f] show ?thesis
    using assms(2) by (simp split: sum.splits)
qed

section \<open>A redeemed reward stays redeemed\<close>

definition redeemed :: "string \<Rightarrow> 'm reward list \<Rightarrow> bool" where
  "redeemed i rs \<longleftrightarrow> distinct (map rw_id rs) \<and> (\<exists>r \<in> set rs. rw_id r = i \<and> rw_status r = RewardRedeemed)"

lemma redeemed_append: "redeemed i rs \<Longrightarrow> rw_id r \<notin> rw_id ` set rs \<Longrightarrow> redeemed i (rs @ [r])"
  by (auto simp: redeemed_def)

lemma redeemed_map:
  assumes "redeemed i rs" and "\<And>r. rw_id (f r) = rw_id r"
    and "\<And>r. rw_id r = i \<Longrightarrow> rw_status r = RewardRedeemed \<Longrightarrow> rw_status (f r) = RewardRedeemed"
  shows "redeemed i (map f rs)"
proof -
  have "map rw_id (map f rs) = map rw_id rs" using assms(2) by simp
  then have "distinct (map rw_id (map f rs))" using assms(1) by (simp only: redeemed_def)
  moreover obtain r where "r \<in> set rs" "rw_id r = i" "rw_status r = RewardRedeemed"
    using assms(1) by (auto simp: redeemed_def)
  ultimately show ?thesis using assms(2,3) unfolding redeemed_def by auto
qed

lemma redeemed_id: "redeemed i rs \<Longrightarrow> i \<in> rw_id ` set rs"
  by (auto simp: redeemed_def)

lemma redeemed_find:
  assumes "redeemed i rs" and "find (\<lambda>r. rw_id r = i) rs = Some r"
  shows "rw_status r = RewardRedeemed"
proof -
  obtain j where j: "j < length rs" "rw_id (rs ! j) = i" "r = rs ! j"
    using assms(2) [unfolded find_Some_iff] by (elim exE conjE)
  then have r: "r \<in> set rs" "rw_id r = i" by simp_all
  obtain q where q: "q \<in> set rs" "rw_id q = i" "rw_status q = RewardRedeemed"
    using assms(1) unfolding redeemed_def by blast
  have "inj_on rw_id (set rs)" using assms(1) by (simp add: redeemed_def distinct_map)
  then have "r = q" using r q by (simp add: inj_on_def)
  then show ?thesis using q by simp
qed

lemma keep_create_activate:
  assumes "store_laws S rows" and "redeemed i (rows s)"
  shows "redeemed i (rows (snd (create_then_activate S d s)))"
proof -
  obtain x s1 where c: "st_create S d s = (x, s1)" by (rule prod.exhaust)
  note law = store_laws_create [OF assms(1) c]
  show ?thesis
  proof (cases x)
    case (Inl e)
    then show ?thesis using law assms(2) c by (simp add: create_then_activate_def js_then_def)
  next
    case (Inr r)
    then have k: "redeemed i (rows s1)" "rw_id r \<noteq> i"
      using law assms(2) redeemed_append [of i "rows s" r] redeemed_id by auto
    obtain y s2 where u: "st_update S (rw_id r) (\<lambda>r. r\<lparr>rw_status := RewardActive\<rparr>) s1 = (y, s2)" by (rule prod.exhaust)
    have "redeemed i (map (\<lambda>q. if rw_id q = rw_id r then q\<lparr>rw_status := RewardActive\<rparr> else q) (rows s1))"
      by (rule redeemed_map [OF k(1)]) (use k(2) in auto)
    then have "redeemed i (rows s2)" using store_laws_update [OF assms(1) u] k(1) by (simp split: sum.splits)
    then show ?thesis using c u Inr
      by (cases y) (simp_all add: create_then_activate_def js_then_def)
  qed
qed

lemma keep_create:
  assumes "store_laws S rows" and "redeemed i (rows s)"
  shows "redeemed i (rows (snd (st_create S d s)))"
proof -
  obtain x s1 where c: "st_create S d s = (x, s1)" by (rule prod.exhaust)
  then show ?thesis using store_laws_create [OF assms(1) c] assms(2) redeemed_append [of i "rows s"]
    by (auto split: sum.splits)
qed

lemma keep_grant:
  "store_laws S rows \<Longrightarrow> redeemed i (rows s) \<Longrightarrow> redeemed i (rows (snd (grant_reward S u d src sid s)))"
  by (simp add: grant_reward_def grant_fee_discount_def grant_bonus_tokens_def grant_premium_feature_def
      mint_nft_badge_def keep_create keep_create_activate Let_def split: reward_type.split option.split)

lemma keep_redeem:
  assumes "store_laws S rows" and "redeemed i (rows s)"
  shows "redeemed i (rows (snd (redeem_reward S j s)))"
proof -
  obtain x s1 where f: "st_find_unique S j s = (x, s1)" by (rule prod.exhaust)
  have k: "redeemed i (rows s1)" using store_laws_find [OF assms(1) f] assms(2) by simp
  let ?up = "\<lambda>r. r\<lparr>rw_status := RewardRedeemed, rw_redeemedAt := Some (st_now S s1)\<rparr>"
  obtain y s2 where u: "st_update S j ?up s1 = (y, s2)" by (rule prod.exhaust)
  have "redeemed i (map (\<lambda>q. if rw_id q = j then ?up q else q) (rows s1))"
    by (rule redeemed_map [OF k]) auto
  then have "redeemed i (rows s2)" using store_laws_update [OF assms(1) u] k by (simp split: sum.splits)
  then show ?thesis using f u k by (auto simp: redeem_reward_def js_then_def split: sum.splits option.splits)
qed

lemma keep_expire:
  assumes "store_laws S rows" and "redeemed i (rows s)"
  shows "redeemed i (rows (snd (expire_rewards S s)))"
proof -
  obtain x s1 where u: "expire_rewards S s = (x, s1)" by (rule prod.exhaust)
  have "redeemed i (map (\<lambda>r. if past_expiry (st_now S s) r then r\<lparr>rw_status := RewardExpired\<rparr> else r) (rows s))"
    by (rule redeemed_map [OF assms(2)]) (auto simp: past_expiry_def)
  then have "redeemed i (rows s1)"
    using store_laws_update_many [OF assms(1) u [unfolded expire_rewards_def]] assms(2) by (auto split: sum.splits)
  then show ?thesis using u by simp
qed

text \<open>What the running service does to the table, one call after another.\<close>

datatype 'm engine_call =
    GrantCall string "'m reward_definition" string string
  | RedeemCall string
  | ExpireCall

fun reward_call :: "('s, 'm) reward_store \<Rightarrow> 'm engine_call \<Rightarrow> 's \<Rightarrow> 's" where
  "reward_call S (GrantCall userId d source sourceId) s = snd (grant_reward S userId d source sourceId s)"
| "reward_call S (RedeemCall i) s = snd (redeem_reward S i s)"
| "reward_call S ExpireCall s = snd (expire_rewards S s)"

fun reward_calls :: "('s, 'm) reward_store \<Rightarrow> 'm engine_call list \<Rightarrow> 's \<Rightarrow> 's" where
  "reward_calls S [] s = s"
| "reward_calls S (c # cs) s = reward_calls S cs (reward_call S c s)"

lemma keep_calls:
  "store_laws S rows \<Longrightarrow> redeemed i (rows s) \<Longrightarrow> redeemed i (rows (reward_calls S cs s))"
proof (induction cs arbitrary: s)
  case (Cons c cs)
  have "redeemed i (rows (reward_call S c s))"
    by (cases c) (simp_all add: Cons.prems keep_grant keep_redeem keep_expire)
  then show ?case using Cons by simp
qed simp

lemma redeem_success:
  assumes "store_laws S rows" and "distinct (map rw_id (rows s))" and "redeem_reward S i s = (Inr u, s1)"
  shows "redeemed i (rows s1)"
proof -
  obtain x s' where f: "st_find_unique S i s = (x, s')" by (rule prod.exhaust)
  note law = store_laws_find [OF assms(1) f]
  let ?up = "\<lambda>r. r\<lparr>rw_status := RewardRedeemed, rw_redeemedAt := Some (st_now S s')\<rparr>"
  obtain r where x: "x = Inr (Some r)" and u: "st_update S i ?up s' = (Inr u, s1)"
    using assms(3) f by (auto simp: redeem_reward_def js_then_def split: sum.splits option.splits if_splits)
  have "find (\<lambda>r. rw_id r = i) (rows s) = Some r" using law x by simp
  then obtain j where j: "j < length (rows s)" "rw_id (rows s ! j) = i" "r = rows s ! j"
    unfolding find_Some_iff by (elim exE conjE)
  then have mem: "r \<in> set (rows s)" "rw_id r = i" by simp_all
  have rows1: "rows s1 = map (\<lambda>q. if rw_id q = i then ?up q else q) (rows s)"
    using store_laws_update [OF assms(1) u] law by simp
  have "map rw_id (rows s1) = map rw_id (rows s)" unfolding rows1 by simp
  moreover have "?up r \<in> set (rows s1)" unfolding rows1 using mem by force
  ultimately show ?thesis using assms(2) mem unfolding redeemed_def
    by (intro conjI bexI [where x = "?up r"]) simp_all
qed

text \<open>C28. A reward can be redeemed once: after a redemption that returned, whatever grants, redemptions and
  expiry runs follow, redeeming it again is rejected and changes no row.\<close>

theorem redeemed_once:
  assumes "store_laws S rows" and "distinct (map rw_id (rows s))" and "redeem_reward S i s = (Inr u, s1)"
    and "redeem_reward S i (reward_calls S cs s1) = (x, s2)"
  shows "(\<exists>e. x = Inl e) \<and> rows s2 = rows (reward_calls S cs s1)"
proof -
  let ?s = "reward_calls S cs s1"
  have red: "redeemed i (rows ?s)" by (rule keep_calls [OF assms(1) redeem_success [OF assms(1-3)]])
  obtain y s' where f: "st_find_unique S i ?s = (y, s')" by (rule prod.exhaust)
  note law = store_laws_find [OF assms(1) f]
  have "rw_status r = RewardRedeemed" if "y = Inr (Some r)" for r
    using that law by (auto intro: redeemed_find [OF red])
  then show ?thesis using assms(4) f law
    by (auto simp: redeem_reward_def js_then_def split: sum.splits option.splits if_splits)
qed

text \<open>An in-memory table: rows, flags and the clock.\<close>

record 'm memory_db =
  mb_rows :: "'m reward list"
  mb_flags :: "fraud_flag list"
  mb_clock :: int

definition memory_create :: "'m reward \<Rightarrow> 'm memory_db \<Rightarrow> (reward_error + 'm reward) \<times> 'm memory_db" where
  "memory_create d m =
     (let r = d\<lparr>rw_id := fresh_text (map rw_id (mb_rows m)), rw_earnedAt := mb_clock m\<rparr>
      in (Inr r, m\<lparr>mb_rows := mb_rows m @ [r]\<rparr>))"

definition memory_store :: "('m memory_db, 'm) reward_store" where
  "memory_store = \<lparr>
     st_now = mb_clock,
     st_create = memory_create,
     st_find_unique = (\<lambda>i m. (Inr (find (\<lambda>r. rw_id r = i) (mb_rows m)), m)),
     st_find_many = (\<lambda>P m. (Inr (filter P (mb_rows m)), m)),
     st_update = (\<lambda>i f m. (Inr (), m\<lparr>mb_rows := map (\<lambda>r. if rw_id r = i then f r else r) (mb_rows m)\<rparr>)),
     st_update_many = (\<lambda>P f m. (Inr (length (filter P (mb_rows m))),
       m\<lparr>mb_rows := map (\<lambda>r. if P r then f r else r) (mb_rows m)\<rparr>)),
     st_flags = (\<lambda>P m. (Inr (filter P (mb_flags m)), m)),
     st_create_flag = (\<lambda>f m. (Inr f, m\<lparr>mb_flags := mb_flags m @ [f]\<rparr>)),
     st_update_flag = (\<lambda>i g m. (Inr (), m\<lparr>mb_flags := map (\<lambda>f. if ff_id f = i then g f else f) (mb_flags m)\<rparr>)),
     st_mark_referral = (\<lambda>i t m. (Inr (), m)),
     st_save_config = (\<lambda>c m. (Inr (), m)),
     st_retire_configs = (\<lambda>v m. (Inr (), m)),
     st_active_config = (\<lambda>m. (Inr None, m)),
     st_number = (\<lambda>t. None),
     st_bigint = (\<lambda>t. None)\<rparr>"

lemma fresh_reward: "fresh_text (map rw_id rs) \<notin> rw_id ` set rs"
  using fresh_text_fresh [of "map rw_id rs"] by simp

lemma memory_store_laws: "store_laws memory_store mb_rows"
  unfolding store_laws_def create_law_def find_law_def find_many_law_def update_law_def update_many_law_def
  by (simp add: memory_store_def memory_create_def fresh_reward Let_def)

definition sample_discount :: "string \<Rightarrow> rat \<Rightarrow> rat option \<Rightarrow> unit reward" where
  "sample_discount i percent expires =
     (new_reward ''ann'' FeeDiscount RewardActive ''MANUAL'' ''launch'')
       \<lparr>rw_id := i, rw_discountPercent := Some percent, rw_expiresAt := expires\<rparr>"

definition sample_db :: "unit memory_db" where
  "sample_db = \<lparr>mb_rows = [sample_discount ''a'' 10 None, sample_discount ''b'' 25 (Some 50)],
                mb_flags = [], mb_clock = 40\<rparr>"

theorem redeemed_once_witness:
  "\<exists>e. fst (redeem_reward memory_store ''b''
     (reward_calls memory_store [ExpireCall, RedeemCall ''a''] (snd (redeem_reward memory_store ''b'' sample_db)))) = Inl e"
proof -
  have ok: "redeem_reward memory_store ''b'' sample_db = (Inr (), snd (redeem_reward memory_store ''b'' sample_db))"
    by (simp add: redeem_reward_def js_then_def memory_store_def sample_db_def sample_discount_def new_reward_def)
  have ids: "distinct (map rw_id (mb_rows sample_db))" by (simp add: sample_db_def sample_discount_def)
  show ?thesis
    using redeemed_once [OF memory_store_laws ids ok prod.collapse [symmetric]] by blast
qed

section \<open>Discounts\<close>

lemma fold_max_is_Max: "fold max xs (x::rat) = Max (set (x # xs))"
  by (simp add: Max.set_eq_fold [symmetric] del: Max.set_eq_fold set_simps)

definition usable_discounts :: "int \<Rightarrow> string \<Rightarrow> 'm reward list \<Rightarrow> rat set" where
  "usable_discounts now userId rs = discount_of ` {r \<in> set rs. rw_userId r = userId \<and> rw_type r = FeeDiscount \<and>
     rw_status r = RewardActive \<and> still_valid now r}"

lemma applicable_discount_value:
  assumes "store_laws S rows" and "get_applicable_discount S userId s = (Inr d, s')"
  shows "d = (let D = usable_discounts (st_now S s) userId (rows s) in if D = {} then 0 else Max D) \<and> rows s' = rows s"
proof -
  obtain x s1 where g: "get_active_rewards S userId (Some FeeDiscount) s = (x, s1)" by (rule prod.exhaust)
  then obtain ds where x: "x = Inr ds" and d: "d = (case ds of [] \<Rightarrow> 0 | e # es \<Rightarrow> fold max (map discount_of es) (discount_of e))"
    and s': "s' = s1"
    using assms(2) by (auto simp: get_applicable_discount_def js_then_def js_return_def split: sum.splits list.splits)
  have law: "rows s1 = rows s"
    "set ds = {r \<in> set (rows s). rw_userId r = userId \<and> rw_type r = FeeDiscount \<and> rw_status r = RewardActive \<and>
       still_valid (st_now S s) r}"
    using store_laws_find_many [OF assms(1) g [unfolded get_active_rewards_def]] x by auto
  have D: "usable_discounts (st_now S s) userId (rows s) = discount_of ` set ds"
    by (simp add: usable_discounts_def law(2))
  show ?thesis
    using law(1) s' by (cases ds) (simp_all add: D d fold_max_is_Max Let_def)
qed

lemma discounted_fee_bounds:
  assumes "0 \<le> fee" and "0 \<le> p" and "p \<le> 100"
  shows "0 \<le> calculate_discounted_fee fee p \<and> calculate_discounted_fee fee p \<le> fee"
proof -
  have "0 \<le> 1 - p / 100" "1 - p / 100 \<le> 1" using assms by simp_all
  then show ?thesis using assms(1) unfolding calculate_discounted_fee_def
    by (simp add: mult_left_le)
qed

lemma discounted_fee_antimono: "0 \<le> fee \<Longrightarrow> p \<le> q \<Longrightarrow> calculate_discounted_fee fee q \<le> calculate_discounted_fee fee p"
  unfolding calculate_discounted_fee_def by (intro mult_left_mono) (simp_all add: divide_right_mono)

text \<open>A user pays the least fee any of the active, unexpired fee discounts gives: the discount answered is one
  of them (0 when there is none), no other lowers the fee further, and with percentages between 0 and
  100 the fee stays between nothing and the full fee.\<close>

theorem discount_is_best:
  assumes "store_laws S rows" and "get_applicable_discount S userId s = (Inr d, s')"
    and "D = usable_discounts (st_now S s) userId (rows s)" and "0 \<le> fee" and "\<And>p. p \<in> D \<Longrightarrow> 0 \<le> p \<and> p \<le> 100"
  shows "d \<in> (if D = {} then {0} else D)
    \<and> (\<forall>p \<in> D. calculate_discounted_fee fee d \<le> calculate_discounted_fee fee p)
    \<and> 0 \<le> calculate_discounted_fee fee d \<and> calculate_discounted_fee fee d \<le> fee"
proof -
  have d: "d = (if D = {} then 0 else Max D)"
    using applicable_discount_value [OF assms(1,2)] assms(3) by (simp add: Let_def)
  have fin: "finite D" by (simp add: assms(3) usable_discounts_def)
  have mem: "d \<in> (if D = {} then {0} else D)" using d fin Max_in by simp
  then have range: "0 \<le> d" "d \<le> 100" using assms(5) by (auto split: if_splits)
  have "\<forall>p \<in> D. p \<le> d" using d fin by auto
  then show ?thesis using mem discounted_fee_bounds [OF assms(4) range] discounted_fee_antimono [OF assms(4)] by blast
qed

lemma Collect_filter: "{r \<in> set rs. P r} = set (filter P rs)"
  by auto

lemma sample_discounts: "usable_discounts 40 ''ann'' (mb_rows sample_db) = {10, 25}"
  unfolding usable_discounts_def Collect_filter
  by (simp add: sample_db_def sample_discount_def new_reward_def still_valid_def discount_of_def)

theorem discount_is_best_witness:
  "calculate_discounted_fee 200 25 \<le> calculate_discounted_fee 200 10 \<and> fst (get_applicable_discount memory_store ''ann'' sample_db) = Inr 25"
proof -
  have got: "get_applicable_discount memory_store ''ann'' sample_db = (Inr 25, sample_db)"
    by (simp add: get_applicable_discount_def get_active_rewards_def js_then_def js_return_def memory_store_def
        sample_db_def sample_discount_def new_reward_def still_valid_def discount_of_def)
  have clock: "st_now memory_store sample_db = 40" by (simp add: memory_store_def sample_db_def)
  have D: "{10, 25} = usable_discounts (st_now memory_store sample_db) ''ann'' (mb_rows sample_db)"
    using sample_discounts clock by simp
  have range: "\<And>p. p \<in> {10, 25 :: rat} \<Longrightarrow> 0 \<le> p \<and> p \<le> 100" by auto
  have "\<forall>p \<in> {10, 25}. calculate_discounted_fee 200 25 \<le> calculate_discounted_fee 200 p"
    using discount_is_best [OF memory_store_laws got D _ range, of 200] by simp
  then show ?thesis using got by simp
qed

section \<open>Flags\<close>

text \<open>What the client promises of the flag table: a query answers the matching rows, an inserted row is the
  given one with an id, and marking a referral touches another table.\<close>

definition flag_laws :: "('s, 'm) reward_store \<Rightarrow> ('s \<Rightarrow> fraud_flag list) \<Rightarrow> bool" where
  "flag_laws S flags \<longleftrightarrow>
     (\<forall>P s. case st_flags S P s of (x, s') \<Rightarrow> flags s' = flags s \<and>
        (case x of Inl e \<Rightarrow> True | Inr fs \<Rightarrow> set fs = set (filter P (flags s)))) \<and>
     (\<forall>d s. case st_create_flag S d s of (x, s') \<Rightarrow>
        (case x of Inl e \<Rightarrow> flags s' = flags s | Inr f \<Rightarrow> flags s' = flags s @ [f] \<and> f = d\<lparr>ff_id := ff_id f\<rparr>)) \<and>
     (\<forall>i t s. case st_mark_referral S i t s of (x, s') \<Rightarrow> flags s' = flags s)"

definition blocked_user :: "string \<Rightarrow> fraud_flag list \<Rightarrow> bool" where
  "blocked_user userId fs \<longleftrightarrow>
     (\<exists>f \<in> set fs. ff_userId f = Some userId \<and> ff_status f \<in> {FlagPending, FlagConfirmed})"

lemma should_block_reward_value:
  assumes "flag_laws S flags" and "should_block_reward S userId s = (Inr b, s')"
  shows "b \<longleftrightarrow> blocked_user userId (flags s)"
proof -
  let ?P = "\<lambda>f. ff_userId f = Some userId \<and> ff_status f \<in> {FlagPending, FlagConfirmed}"
  obtain x s1 where q: "st_flags S ?P s = (x, s1)" by (rule prod.exhaust)
  then obtain fs where x: "x = Inr fs" "b \<longleftrightarrow> fs \<noteq> []"
    using assms(2) by (auto simp: should_block_reward_def js_then_def js_return_def split: sum.splits)
  have "set fs = set (filter ?P (flags s))"
    using assms(1) [unfolded flag_laws_def, THEN conjunct1, THEN spec [of _ ?P], THEN spec [of _ s]] q x(1) by simp
  moreover have "fs \<noteq> [] \<longleftrightarrow> set fs \<noteq> {}" by simp
  ultimately show ?thesis unfolding x(2) blocked_user_def by auto
qed

lemma flag_referral_rows:
  assumes "flag_laws S flags" and "flag_referral S referralId flagType s = (Inr f, s')"
  shows "flags s' = flags s @ [f] \<and> ff_userId f = None \<and> ff_referralId f = referralId \<and> ff_status f = FlagPending"
proof -
  let ?d = "\<lparr>ff_id = [], ff_userId = None, ff_referralId = referralId, ff_flagType = flagType,
             ff_severity = determine_severity flagType, ff_status = FlagPending,
             ff_reviewedAt = None, ff_reviewedBy = None\<rparr>"
  obtain x s1 where c: "st_create_flag S ?d s = (x, s1)" by (rule prod.exhaust)
  obtain y s2 where m: "st_mark_referral S referralId ''FLAGGED'' s1 = (y, s2)" by (rule prod.exhaust)
  have x: "x = Inr f" "s' = s2"
    using assms(2) c m by (auto simp: flag_referral_def js_then_def js_return_def split: sum.splits)
  have "flags s1 = flags s @ [f] \<and> f = ?d\<lparr>ff_id := ff_id f\<rparr>"
    using assms(1) [unfolded flag_laws_def, THEN conjunct2, THEN conjunct1, THEN spec [of _ ?d], THEN spec [of _ s]] c x(1) by simp
  moreover have "flags s2 = flags s1"
    using assms(1) [unfolded flag_laws_def, THEN conjunct2, THEN conjunct2, THEN spec [of _ referralId],
        THEN spec [of _ "''FLAGGED''"], THEN spec [of _ s1]] m by simp
  moreover have "ff_userId f = None" "ff_referralId f = referralId" "ff_status f = FlagPending"
    using calculation(1) by (metis fraud_flag.select_convs fraud_flag.update_convs(1))+
  ultimately show ?thesis using x(2) by simp
qed

text \<open>Flagging a referral blocks nobody's rewards: the flag it files names no user, so the check that guards
  every distribution answers for every user what it answered before the flag, though the flag is
  pending and of high severity.\<close>

theorem flagged_referral_blocks_nobody:
  assumes "flag_laws S flags" and "flag_referral S referralId flagType s = (Inr f, s1)"
    and "should_block_reward S userId s1 = (Inr b, s2)"
  shows "ff_status f = FlagPending \<and> f \<in> set (flags s1) \<and> (b \<longleftrightarrow> blocked_user userId (flags s))"
  using flag_referral_rows [OF assms(1,2)] should_block_reward_value [OF assms(1,3)]
  by (auto simp: blocked_user_def)

lemma memory_flag_laws: "flag_laws memory_store mb_flags"
  by (simp add: flag_laws_def memory_store_def)

theorem flagged_referral_blocks_nobody_witness:
  "fst (should_block_reward memory_store ''ann'' (snd (flag_referral memory_store ''ref1'' ''BULK_CREATION'' sample_db))) = Inr False"
proof -
  obtain f s1 where f: "flag_referral memory_store ''ref1'' ''BULK_CREATION'' sample_db = (Inr f, s1)"
    by (simp add: flag_referral_def js_then_def js_return_def memory_store_def)
  obtain b s2 where b: "should_block_reward memory_store ''ann'' s1 = (Inr b, s2)"
    by (simp add: should_block_reward_def js_then_def js_return_def memory_store_def)
  have "b \<longleftrightarrow> blocked_user ''ann'' (mb_flags sample_db)"
    using flagged_referral_blocks_nobody [OF memory_flag_laws f b] by blast
  then have "b = False" by (simp add: blocked_user_def sample_db_def)
  then show ?thesis by (simp only: f b snd_conv fst_conv)
qed

section \<open>Expiry\<close>

text \<open>An expiry run marks exactly the active rewards whose expiry lies before the clock, answers their number,
  and leaves every other row as it was; afterwards no active reward is past its expiry.\<close>

theorem expire_rewards_exact:
  assumes "store_laws S rows" and "expire_rewards S s = (Inr n, s')"
  shows "rows s' = map (\<lambda>r. if past_expiry (st_now S s) r then r\<lparr>rw_status := RewardExpired\<rparr> else r) (rows s)
    \<and> n = length (filter (past_expiry (st_now S s)) (rows s))
    \<and> filter (past_expiry (st_now S s)) (rows s') = []"
proof -
  have run: "rows s' = map (\<lambda>r. if past_expiry (st_now S s) r then r\<lparr>rw_status := RewardExpired\<rparr> else r) (rows s)
      \<and> n = length (filter (past_expiry (st_now S s)) (rows s))"
    using store_laws_update_many [OF assms(1) assms(2) [unfolded expire_rewards_def]] by simp
  have "\<not> past_expiry (st_now S s) r" if "r \<in> set (rows s')" for r
    using that run by (auto simp: past_expiry_def split: if_splits)
  then show ?thesis using run by (simp add: filter_empty_conv del: set_map)
qed

theorem expire_rewards_exact_witness:
  "fst (expire_rewards memory_store (sample_db\<lparr>mb_clock := 60\<rparr>)) = Inr 1
   \<and> filter (past_expiry 60) (mb_rows (snd (expire_rewards memory_store (sample_db\<lparr>mb_clock := 60\<rparr>)))) = []"
proof -
  have run: "expire_rewards memory_store (sample_db\<lparr>mb_clock := 60\<rparr>) =
      (Inr 1, snd (expire_rewards memory_store (sample_db\<lparr>mb_clock := 60\<rparr>)))"
    by (simp add: expire_rewards_def memory_store_def sample_db_def sample_discount_def new_reward_def past_expiry_def)
  have clock: "st_now memory_store (sample_db\<lparr>mb_clock := 60\<rparr>) = 60" by (simp add: memory_store_def)
  show ?thesis
    using expire_rewards_exact [OF memory_store_laws run, unfolded clock] run by (metis fst_conv)
qed

end
