(* ===== verification/ContractReads.thy ===== *)
theory ContractReads
  imports SorobanClient Tables
begin

text \<open>
  The reads of the contract client, \<open>frontend/src/services/soroban.ts\<close>: group status, members,
  a user's groups, transactions, insurance claims and pools, group metadata, each a view call
  retried under \<open>withRetry\<close> behind the cached fetch; the penalty functions; and the account
  helpers over Horizon.

  What a view call returns, \<open>scValToNative\<close>, is a value of \<open>native\<close>; \<open>Number\<close>, \<open>String\<close> and the
  truth value of one are as in JavaScript, with \<open>NaN\<close> as \<open>None\<close> and numbers as exact rationals.
  The members' histories, which the code reads concurrently, are read one member after another.
\<close>

section \<open>Native values\<close>

type_synonym js_num = "rat option"

datatype native =
    NUndefined
  | NNumber js_num
  | NBigInt int
  | NText string
  | NBool bool
  | NList "native list"
  | NObject "(string \<times> native) list"

record 'sim reader =
  rd_native :: "'sim \<Rightarrow> js_error + native"
  rd_number :: "string \<Rightarrow> js_num"
  rd_show :: "rat \<Rightarrow> string"
  rd_iso :: "int \<Rightarrow> string"

definition type_error :: "string \<Rightarrow> js_error" where
  "type_error message = (new_error message)\<lparr>er_name := ''TypeError''\<rparr>"

definition reference_error :: "string \<Rightarrow> js_error" where
  "reference_error name = (new_error (name @ '' is not defined''))\<lparr>er_name := ''ReferenceError''\<rparr>"

text \<open>Reading a property: of \<open>undefined\<close> it throws, of a value without it it is \<open>undefined\<close>.\<close>

fun property :: "string \<Rightarrow> native \<Rightarrow> native" where
  "property name (NObject fs) = get_or NUndefined (map_of fs name)"
| "property name _ = NUndefined"

definition defined_value :: "native \<Rightarrow> js_error + native" where
  "defined_value v =
     (if v = NUndefined then Inl (type_error ''Cannot read properties of undefined'') else Inr v)"

fun native_truthy :: "native \<Rightarrow> bool" where
  "native_truthy NUndefined = False"
| "native_truthy (NNumber n) = (n \<noteq> None \<and> n \<noteq> Some 0)"
| "native_truthy (NBigInt i) = (i \<noteq> 0)"
| "native_truthy (NText t) = (t \<noteq> [])"
| "native_truthy (NBool b) = b"
| "native_truthy (NList _) = True"
| "native_truthy (NObject _) = True"

fun join_comma :: "string list \<Rightarrow> string" where
  "join_comma [] = []"
| "join_comma [s] = s"
| "join_comma (s # t # ts) = s @ '','' @ join_comma (t # ts)"

text \<open>\<open>String(v)\<close>; an element that is \<open>undefined\<close> prints as nothing inside a list.\<close>

fun text_of :: "(rat \<Rightarrow> string) \<Rightarrow> native \<Rightarrow> string" where
  "text_of sh NUndefined = ''undefined''"
| "text_of sh (NNumber None) = ''NaN''"
| "text_of sh (NNumber (Some q)) = sh q"
| "text_of sh (NBigInt i) = show_int i"
| "text_of sh (NText t) = t"
| "text_of sh (NBool b) = (if b then ''true'' else ''false'')"
| "text_of sh (NList vs) = join_comma (map (\<lambda>v. if v = NUndefined then [] else text_of sh v) vs)"
| "text_of sh (NObject _) = ''[object Object]''"

fun number_of :: "'sim reader \<Rightarrow> native \<Rightarrow> js_num" where
  "number_of R NUndefined = None"
| "number_of R (NNumber n) = n"
| "number_of R (NBigInt i) = Some (of_int i)"
| "number_of R (NText t) = rd_number R t"
| "number_of R (NBool b) = Some (if b then 1 else 0)"
| "number_of R (NList vs) = rd_number R (text_of (rd_show R) (NList vs))"
| "number_of R (NObject _) = None"

text \<open>Arithmetic with \<open>NaN\<close>.\<close>

definition num2 :: "(rat \<Rightarrow> rat \<Rightarrow> rat) \<Rightarrow> js_num \<Rightarrow> js_num \<Rightarrow> js_num" where
  "num2 f a b = (case (a, b) of (Some x, Some y) \<Rightarrow> Some (f x y) | _ \<Rightarrow> None)"

definition from_stroops :: "js_num \<Rightarrow> js_num" where
  "from_stroops n = map_option (\<lambda>x. x / 10000000) n"

text \<open>\<open>new Date(t).toISOString()\<close> throws outside the range of \<open>Date\<close> and on \<open>NaN\<close>.\<close>

definition iso_time :: "'sim reader \<Rightarrow> js_num \<Rightarrow> js_error + string" where
  "iso_time R t =
     (case t of
        None \<Rightarrow> Inl ((new_error ''Invalid time value'')\<lparr>er_name := ''RangeError''\<rparr>)
      | Some x \<Rightarrow>
          if \<bar>x\<bar> \<le> 8640000000000000 then Inr (rd_iso R (if x < 0 then \<lceil>x\<rceil> else \<lfloor>x\<rfloor>))
          else Inl ((new_error ''Invalid time value'')\<lparr>er_name := ''RangeError''\<rparr>))"

section \<open>What the reads return\<close>

record status_view =
  sv_groupId :: string
  sv_currentCycle :: js_num
  sv_nextRecipient :: string
  sv_pendingContributions :: js_num
  sv_totalCollected :: js_num
  sv_daysUntilPayout :: js_num

record member_view =
  mv_address :: native
  mv_groupId :: string
  mv_joinedDate :: string
  mv_contributions :: nat
  mv_totalContributed :: js_num
  mv_cyclesCompleted :: nat
  mv_status :: string

record group_view =
  gv_id :: string
  gv_name :: string
  gv_description :: "string option"
  gv_creator :: string
  gv_cycleLength :: js_num
  gv_contributionAmount :: js_num
  gv_maxMembers :: js_num
  gv_currentMembers :: js_num
  gv_totalContributions :: js_num
  gv_status :: native
  gv_createdAt :: string
  gv_nextPayoutDate :: string
  gv_frequency :: "string option"

record transaction_view =
  tv_id :: string
  tv_groupId :: string
  tv_type :: string
  tv_amount :: int
  tv_date :: string
  tv_member :: string
  tv_status :: string
  tv_hash :: string

record claim_view =
  cv_id :: string
  cv_groupId :: string
  cv_cycle :: native
  cv_claimant :: string
  cv_defaulter :: string
  cv_amount :: js_num
  cv_status :: string
  cv_createdAt :: js_num

record pool_view =
  pv_balance :: js_num
  pv_totalPayouts :: js_num
  pv_pendingClaimsCount :: js_num

record metadata_view =
  dv_name :: native
  dv_description :: native
  dv_rules :: native
  dv_updatedAt :: js_num

record penalty_record =
  pr_member :: string
  pr_groupId :: string
  pr_lateCount :: rat
  pr_onTimeCount :: rat
  pr_totalPenalties :: rat
  pr_reliabilityScore :: rat

record penalty_stats =
  ps_totalPenalties :: rat
  ps_averageReliabilityScore :: rat
  ps_totalLateContributions :: rat
  ps_totalOnTimeContributions :: rat
  ps_membersWithPenalties :: nat
  ps_totalMembers :: nat

record penalty_item =
  pi_id :: string
  pi_groupId :: string
  pi_member :: string
  pi_cycle :: nat
  pi_penaltyAmount :: rat
  pi_isLate :: bool
  pi_timestamp :: string
  pi_reason :: string

text \<open>The cache is shared by all reads and its \<open>get\<close> casts: an entry is any of the answers.\<close>

datatype api_value =
    StatusValue status_view
  | MembersValue "member_view list"
  | GroupsValue "group_view list"
  | TransactionsValue "transaction_view list" "string option"
  | ClaimValue claim_view
  | PoolValue pool_view
  | MetadataValue metadata_view
  | PenaltyRecordValue penalty_record
  | PenaltyStatsValue penalty_stats
  | PenaltyHistoryValue "penalty_item list"
  | PenaltyRecordsValue "penalty_record list"

section \<open>View calls\<close>

text \<open>Build a transaction for the call, simulate it, and read the value it returns.\<close>

definition view_call ::
  "('w, 'acc, 'tx, 'sim) env \<Rightarrow> 'sim reader \<Rightarrow> 'acc \<Rightarrow> string \<Rightarrow> scval list \<Rightarrow> string \<Rightarrow>
   ('w, js_error, native) js_method" where
  "view_call env R sourceAccount fn callArgs failure =
     js_then (js_pure (ev_build env sourceAccount fn callArgs)) (\<lambda>transaction.
       js_then (ev_simulate env transaction) (\<lambda>simulated.
         case simulated of
           None \<Rightarrow> js_throw (new_error failure)
         | Some simulation \<Rightarrow> js_pure (rd_native R simulation)))"

definition with_account ::
  "('w, 'acc, 'tx, 'sim) env \<Rightarrow> ('acc \<Rightarrow> ('w, js_error, 'r) js_method) \<Rightarrow> ('w, js_error, 'r) js_method" where
  "with_account env k = js_then (wallet_address env) (\<lambda>address. js_then (ev_getAccount env address) k)"

text \<open>Under test, or without a contract, a read waits and answers made-up data.\<close>

definition mock_read :: "('w, 'acc, 'tx, 'sim) env \<Rightarrow> int \<Rightarrow> ('w, js_error, 'r) js_method \<Rightarrow> ('w, js_error, 'r) js_method" where
  "mock_read env delay m w = m (ev_sleep env delay w)"

section \<open>Group status\<close>

definition days_until :: "js_num \<Rightarrow> js_num \<Rightarrow> js_num" where
  "days_until currentTime cycleEndTime =
     map_option (\<lambda>secondsUntilPayout. of_int \<lceil>max 0 secondsUntilPayout / 86400\<rceil>) (num2 (-) cycleEndTime currentTime)"

definition status_view_of :: "'sim reader \<Rightarrow> string \<Rightarrow> native \<Rightarrow> native \<Rightarrow> status_view" where
  "status_view_of R groupId rawStatus groupData =
     (let contributionAmount = from_stroops (number_of R (property ''contribution_amount'' groupData));
          contributionsReceived = number_of R (property ''contributions_received'' rawStatus)
      in \<lparr>sv_groupId = groupId,
          sv_currentCycle = number_of R (property ''current_cycle'' rawStatus),
          sv_nextRecipient =
            (if native_truthy (property ''has_next_recipient'' rawStatus)
             then text_of (rd_show R) (property ''next_recipient'' rawStatus) else ''N/A''),
          sv_pendingContributions = num2 (-) (number_of R (property ''total_members'' rawStatus)) contributionsReceived,
          sv_totalCollected = num2 (*) contributionAmount contributionsReceived,
          sv_daysUntilPayout =
            days_until (number_of R (property ''current_time'' rawStatus)) (number_of R (property ''cycle_end_time'' rawStatus))\<rparr>)"

definition mock_status :: "string \<Rightarrow> status_view" where
  "mock_status groupId =
     \<lparr>sv_groupId = groupId, sv_currentCycle = Some 2,
      sv_nextRecipient = ''GDEF456GHIJKLMNOPQRSTUVWXYZ789012ABCDEFGHIJKLMNOPQR'',
      sv_pendingContributions = Some 1, sv_totalCollected = Some 150, sv_daysUntilPayout = Some 5\<rparr>"

definition fetch_group_status ::
  "('w, 'acc, 'tx, 'sim) env \<Rightarrow> 'sim reader \<Rightarrow> string \<Rightarrow> ('w, js_error, status_view) js_method" where
  "fetch_group_status env R groupId =
     (if mocked env then mock_read env 300 (js_return (mock_status groupId))
      else with_account env (\<lambda>sourceAccount.
        js_then (view_call env R sourceAccount ''get_group_status'' [ScU64 groupId]
                   ''Failed to fetch group status from contract'') (\<lambda>rawStatus.
          js_then (view_call env R sourceAccount ''get_group'' [ScU64 groupId]
                     ''Failed to fetch group details from contract'') (\<lambda>groupData.
            js_then (js_pure (defined_value rawStatus)) (\<lambda>rawStatus.
              js_then (js_pure (defined_value groupData)) (\<lambda>groupData.
                js_return (status_view_of R groupId rawStatus groupData)))))))"

section \<open>Group members\<close>

text \<open>The cycles \<open>1 \<le> cycle < currentCycle\<close>.\<close>

definition past_cycles :: "js_num \<Rightarrow> nat list" where
  "past_cycles currentCycle = (case currentCycle of None \<Rightarrow> [] | Some c \<Rightarrow> [1 ..< nat \<lceil>c\<rceil>])"

text \<open>\<open>contributions.find(([addr]) => addr === address)\<close>, and whether the pair found says paid;
  \<open>None\<close> when the value is no list of pairs and the destructuring throws.\<close>

fun pair_of :: "native \<Rightarrow> (native \<times> native) option" where
  "pair_of (NList (a # b # _)) = Some (a, b)"
| "pair_of (NList [a]) = Some (a, NUndefined)"
| "pair_of (NList []) = Some (NUndefined, NUndefined)"
| "pair_of (NText (a # b # _)) = Some (NText [a], NText [b])"
| "pair_of (NText [a]) = Some (NText [a], NUndefined)"
| "pair_of (NText []) = Some (NUndefined, NUndefined)"
| "pair_of _ = None"

fun find_paid :: "native \<Rightarrow> native list \<Rightarrow> bool option" where
  "find_paid address [] = Some False"
| "find_paid address (v # vs) =
     (case pair_of v of
        None \<Rightarrow> None
      | Some (addr, paid) \<Rightarrow> if addr = address then Some (native_truthy paid) else find_paid address vs)"

definition paid_in :: "native \<Rightarrow> native \<Rightarrow> bool option" where
  "paid_in address contributions = (case contributions of NList vs \<Rightarrow> find_paid address vs | _ \<Rightarrow> None)"

text \<open>One cycle of one member; whatever throws inside is skipped.\<close>

definition contribution_check ::
  "('w, 'acc, 'tx, 'sim) env \<Rightarrow> 'sim reader \<Rightarrow> 'acc \<Rightarrow> string \<Rightarrow> native \<Rightarrow> nat \<Rightarrow> 'w \<Rightarrow> bool \<times> 'w" where
  "contribution_check env R sourceAccount groupId address cycle w =
     (case js_then (js_pure (ev_build env sourceAccount ''get_contribution_status'' [ScU64 groupId, ScU32 (int cycle)]))
             (ev_simulate env) w of
        (Inr (Some simulation), w') \<Rightarrow>
          (case rd_native R simulation of
             Inr contributions \<Rightarrow> (paid_in address contributions = Some True, w')
           | Inl _ \<Rightarrow> (False, w'))
      | (_, w') \<Rightarrow> (False, w'))"

fun count_contributions ::
  "('w, 'acc, 'tx, 'sim) env \<Rightarrow> 'sim reader \<Rightarrow> 'acc \<Rightarrow> string \<Rightarrow> native \<Rightarrow> nat list \<Rightarrow> nat \<Rightarrow> 'w \<Rightarrow> nat \<times> 'w" where
  "count_contributions env R sourceAccount groupId address [] n w = (n, w)"
| "count_contributions env R sourceAccount groupId address (cycle # cycles) n w =
     (case contribution_check env R sourceAccount groupId address cycle w of
        (paid, w') \<Rightarrow> count_contributions env R sourceAccount groupId address cycles (if paid then n + 1 else n) w')"

definition member_view_of ::
  "('w, 'acc, 'tx, 'sim) env \<Rightarrow> 'sim reader \<Rightarrow> 'acc \<Rightarrow> string \<Rightarrow> native \<Rightarrow> nat \<Rightarrow> native \<Rightarrow>
   ('w, js_error, member_view) js_method" where
  "member_view_of env R sourceAccount groupId groupData index address w =
     (case count_contributions env R sourceAccount groupId address
             (past_cycles (number_of R (property ''current_cycle'' groupData))) 0 w of
        (paid, w') \<Rightarrow>
          (case iso_time R (num2 (*) (num2 (+) (number_of R (property ''created_at'' groupData))
                                               (Some (of_nat index * 86400))) (Some 1000)) of
             Inl e \<Rightarrow> (Inl e, w')
           | Inr estimatedJoinDate \<Rightarrow>
               (Inr \<lparr>mv_address = address, mv_groupId = groupId, mv_joinedDate = estimatedJoinDate,
                     mv_contributions = paid,
                     mv_totalContributed = from_stroops (num2 (*) (Some (of_nat paid))
                       (number_of R (property ''contribution_amount'' groupData))),
                     mv_cyclesCompleted = paid,
                     mv_status = (if native_truthy (property ''is_complete'' groupData) then ''completed'' else ''active'')\<rparr>,
                w')))"

fun member_views ::
  "('w, 'acc, 'tx, 'sim) env \<Rightarrow> 'sim reader \<Rightarrow> 'acc \<Rightarrow> string \<Rightarrow> native \<Rightarrow> nat \<Rightarrow> native list \<Rightarrow>
   ('w, js_error, member_view list) js_method" where
  "member_views env R sourceAccount groupId groupData index [] = js_return []"
| "member_views env R sourceAccount groupId groupData index (address # addresses) =
     js_then (member_view_of env R sourceAccount groupId groupData index address) (\<lambda>v.
       js_then (member_views env R sourceAccount groupId groupData (index + 1) addresses) (\<lambda>vs. js_return (v # vs)))"

definition mock_member :: "'sim reader \<Rightarrow> string \<Rightarrow> int \<Rightarrow> string \<times> int \<times> nat \<times> rat \<Rightarrow> member_view" where
  "mock_member R groupId now = (\<lambda>(address, daysAgo, contributions, totalContributed).
     \<lparr>mv_address = NText address, mv_groupId = groupId,
      mv_joinedDate = rd_iso R (now - daysAgo * 24 * 60 * 60 * 1000),
      mv_contributions = contributions, mv_totalContributed = Some totalContributed,
      mv_cyclesCompleted = contributions, mv_status = ''active''\<rparr>)"

definition mock_members :: "('w, 'acc, 'tx, 'sim) env \<Rightarrow> 'sim reader \<Rightarrow> string \<Rightarrow> ('w, js_error, member_view list) js_method" where
  "mock_members env R groupId w =
     (Inr (map (mock_member R groupId (ev_now env w))
        [(''GABC123DEFGHIJKLMNOPQRSTUVWXYZ456789ABCDEFGHIJKLMNOP'', 60, 3, 150),
         (''GDEF456GHIJKLMNOPQRSTUVWXYZ789012ABCDEFGHIJKLMNOPQR'', 55, 3, 150),
         (''GHIJ789KLMNOPQRSTUVWXYZ012345ABCDEFGHIJKLMNOPQRSTUV'', 50, 2, 100)]), w)"

definition native_list :: "native \<Rightarrow> js_error + native list" where
  "native_list v = (case v of NList vs \<Rightarrow> Inr vs | _ \<Rightarrow> Inl (type_error ''map is not a function''))"

definition fetch_group_members ::
  "('w, 'acc, 'tx, 'sim) env \<Rightarrow> 'sim reader \<Rightarrow> string \<Rightarrow> ('w, js_error, member_view list) js_method" where
  "fetch_group_members env R groupId =
     (if mocked env then mock_read env 300 (mock_members env R groupId)
      else with_account env (\<lambda>sourceAccount.
        js_then (view_call env R sourceAccount ''get_group'' [ScU64 groupId] ''Failed to fetch group data'') (\<lambda>groupData.
          js_then (js_pure (defined_value groupData)) (\<lambda>groupData.
            js_then (view_call env R sourceAccount ''list_members'' [ScU64 groupId] ''Failed to fetch members'') (\<lambda>members.
              js_then (js_pure (native_list members)) (\<lambda>memberAddresses.
                member_views env R sourceAccount groupId groupData 0 memberAddresses))))))"

section \<open>A user's groups\<close>

definition group_view_of :: "'sim reader \<Rightarrow> native \<Rightarrow> js_error + group_view" where
  "group_view_of R g =
     (case defined_value g of
        Inl e \<Rightarrow> Inl e
      | Inr _ \<Rightarrow>
          (case iso_time R (num2 (*) (number_of R (property ''created_at'' g)) (Some 1000)) of
             Inl e \<Rightarrow> Inl e
           | Inr createdAt \<Rightarrow>
               (case iso_time R (num2 (*) (number_of R (property ''next_payout_date'' g)) (Some 1000)) of
                  Inl e \<Rightarrow> Inl e
                | Inr nextPayoutDate \<Rightarrow>
                    Inr \<lparr>gv_id = text_of (rd_show R) (property ''id'' g),
                         gv_name = text_of (rd_show R) (property ''name'' g),
                         gv_description =
                           (if native_truthy (property ''description'' g)
                            then Some (text_of (rd_show R) (property ''description'' g)) else None),
                         gv_creator = text_of (rd_show R) (property ''creator'' g),
                         gv_cycleLength = number_of R (property ''cycle_length'' g),
                         gv_contributionAmount = from_stroops (number_of R (property ''contribution_amount'' g)),
                         gv_maxMembers = number_of R (property ''max_members'' g),
                         gv_currentMembers = number_of R (property ''current_members'' g),
                         gv_totalContributions = from_stroops (number_of R (property ''total_contributions'' g)),
                         gv_status = property ''status'' g,
                         gv_createdAt = createdAt, gv_nextPayoutDate = nextPayoutDate,
                         gv_frequency = None\<rparr>)))"

text \<open>\<open>xs.map(f)\<close> where \<open>f\<close> may throw.\<close>

fun map_throwing :: "('a \<Rightarrow> 'e + 'b) \<Rightarrow> 'a list \<Rightarrow> 'e + 'b list" where
  "map_throwing f [] = Inr []"
| "map_throwing f (x # xs) =
     (case f x of
        Inl e \<Rightarrow> Inl e
      | Inr y \<Rightarrow> (case map_throwing f xs of Inl e \<Rightarrow> Inl e | Inr ys \<Rightarrow> Inr (y # ys)))"

definition days_ms :: "int \<Rightarrow> int" where
  "days_ms n = n * 24 * 60 * 60 * 1000"

definition mock_groups :: "('w, 'acc, 'tx, 'sim) env \<Rightarrow> 'sim reader \<Rightarrow> string \<Rightarrow> ('w, js_error, group_view list) js_method" where
  "mock_groups env R userId w =
     (let now = ev_now env w
      in (Inr
        [\<lparr>gv_id = ''group-1'', gv_name = ''Family Savings Circle'',
          gv_description = Some ''Monthly family savings group'', gv_creator = userId,
          gv_cycleLength = Some 30, gv_contributionAmount = Some 50, gv_maxMembers = Some 8,
          gv_currentMembers = Some 5, gv_totalContributions = Some 1250, gv_status = NText ''active'',
          gv_createdAt = rd_iso R (now - days_ms 60), gv_nextPayoutDate = rd_iso R (now + days_ms 5),
          gv_frequency = Some ''monthly''\<rparr>,
         \<lparr>gv_id = ''group-2'', gv_name = ''Work Colleagues Pool'',
          gv_description = Some ''Bi-weekly savings with colleagues'', gv_creator = ''GOTHER_ADDRESS_HERE'',
          gv_cycleLength = Some 14, gv_contributionAmount = Some 25, gv_maxMembers = Some 10,
          gv_currentMembers = Some 8, gv_totalContributions = Some 800, gv_status = NText ''active'',
          gv_createdAt = rd_iso R (now - days_ms 30), gv_nextPayoutDate = rd_iso R (now + days_ms 12),
          gv_frequency = Some ''weekly''\<rparr>,
         \<lparr>gv_id = ''group-3'', gv_name = ''Community Fund'',
          gv_description = Some ''Completed savings round'', gv_creator = userId,
          gv_cycleLength = Some 30, gv_contributionAmount = Some 100, gv_maxMembers = Some 5,
          gv_currentMembers = Some 5, gv_totalContributions = Some 2500, gv_status = NText ''completed'',
          gv_createdAt = rd_iso R (now - days_ms 120), gv_nextPayoutDate = rd_iso R (now - days_ms 10),
          gv_frequency = Some ''monthly''\<rparr>], w))"

definition fetch_user_groups ::
  "('w, 'acc, 'tx, 'sim) env \<Rightarrow> 'sim reader \<Rightarrow> string \<Rightarrow> ('w, js_error, group_view list) js_method" where
  "fetch_user_groups env R userId =
     (if mocked env then mock_read env 500 (mock_groups env R userId)
      else with_account env (\<lambda>sourceAccount.
        js_then (view_call env R sourceAccount ''get_user_groups'' [ScString userId] ''get_user_groups simulation failed'') (\<lambda>rawGroups.
          js_then (js_pure (native_list rawGroups)) (\<lambda>groups. js_pure (map_throwing (group_view_of R) groups)))))"

section \<open>Transactions\<close>

definition transactions_page :: "string \<Rightarrow> string option \<Rightarrow> transaction_view list \<times> string option" where
  "transactions_page groupId cursor =
     (let suffix = get_or ''start'' (truthy cursor)
      in ([\<lparr>tv_id = ''tx-1-'' @ suffix, tv_groupId = groupId, tv_type = ''contribution'', tv_amount = 500,
            tv_date = ''2026-02-10T12:00:00Z'', tv_member = ''GAAAA...AAAA'', tv_status = ''completed'', tv_hash = ''0x123...''\<rparr>,
           \<lparr>tv_id = ''tx-2-'' @ suffix, tv_groupId = groupId, tv_type = ''contribution'', tv_amount = 500,
            tv_date = ''2026-02-11T12:00:00Z'', tv_member = ''GBBBB...BBBB'', tv_status = ''completed'', tv_hash = ''0x456...''\<rparr>,
           \<lparr>tv_id = ''tx-3-'' @ suffix, tv_groupId = groupId, tv_type = ''payout'', tv_amount = 4000,
            tv_date = ''2026-02-12T12:00:00Z'', tv_member = ''GCCCC...CCCC'', tv_status = ''completed'', tv_hash = ''0x789...''\<rparr>],
          if truthy cursor = None then Some ''cursor-2'' else None))"

section \<open>Insurance and metadata\<close>

text \<open>\<open>v.toString()\<close>; of \<open>undefined\<close> it throws.\<close>

definition to_text :: "'sim reader \<Rightarrow> native \<Rightarrow> js_error + string" where
  "to_text R v = (case defined_value v of Inl e \<Rightarrow> Inl e | Inr _ \<Rightarrow> Inr (text_of (rd_show R) v))"

definition claim_status :: "native \<Rightarrow> string" where
  "claim_status v =
     (if v = NNumber (Some 0) then ''PENDING''
      else if v = NNumber (Some 1) then ''APPROVED''
      else if v = NNumber (Some 2) then ''REJECTED''
      else ''PAID'')"

definition claim_view_of :: "'sim reader \<Rightarrow> native \<Rightarrow> js_error + claim_view" where
  "claim_view_of R rawClaim =
     (case defined_value rawClaim of
        Inl e \<Rightarrow> Inl e
      | Inr _ \<Rightarrow>
          (case to_text R (property ''id'' rawClaim) of
             Inl e \<Rightarrow> Inl e
           | Inr claimId \<Rightarrow>
               (case to_text R (property ''group_id'' rawClaim) of
                  Inl e \<Rightarrow> Inl e
                | Inr groupId \<Rightarrow>
                    Inr \<lparr>cv_id = claimId, cv_groupId = groupId, cv_cycle = property ''cycle'' rawClaim,
                         cv_claimant = text_of (rd_show R) (property ''claimant'' rawClaim),
                         cv_defaulter = text_of (rd_show R) (property ''defaulter'' rawClaim),
                         cv_amount = number_of R (property ''amount'' rawClaim),
                         cv_status = claim_status (property ''status'' rawClaim),
                         cv_createdAt = num2 (*) (number_of R (property ''created_at'' rawClaim)) (Some 1000)\<rparr>)))"

definition mock_claim :: "('w, 'acc, 'tx, 'sim) env \<Rightarrow> string \<Rightarrow> ('w, js_error, claim_view) js_method" where
  "mock_claim env claimId w =
     (Inr \<lparr>cv_id = claimId, cv_groupId = ''1'', cv_cycle = NNumber (Some 2), cv_claimant = ''GABC123...'',
           cv_defaulter = ''GDEF456...'', cv_amount = Some 100000000, cv_status = ''PENDING'',
           cv_createdAt = Some (of_int (ev_now env w - 3600000))\<rparr>, w)"

definition fetch_insurance_claim ::
  "('w, 'acc, 'tx, 'sim) env \<Rightarrow> 'sim reader \<Rightarrow> string \<Rightarrow> ('w, js_error, claim_view) js_method" where
  "fetch_insurance_claim env R claimId =
     (if mocked env then mock_read env 300 (mock_claim env claimId)
      else with_account env (\<lambda>sourceAccount.
        js_then (view_call env R sourceAccount ''get_insurance_claim'' [ScU64 claimId]
                   ''Failed to fetch insurance claim from contract'')
          (\<lambda>rawClaim. js_pure (claim_view_of R rawClaim))))"

definition fetch_insurance_pool ::
  "('w, 'acc, 'tx, 'sim) env \<Rightarrow> 'sim reader \<Rightarrow> string \<Rightarrow> ('w, js_error, pool_view) js_method" where
  "fetch_insurance_pool env R tokenAddress =
     (if mocked env
      then mock_read env 300 (js_return \<lparr>pv_balance = Some 5000000000, pv_totalPayouts = Some 1000000000, pv_pendingClaimsCount = Some 2\<rparr>)
      else with_account env (\<lambda>sourceAccount.
        js_then (js_pure (ev_address env tokenAddress)) (\<lambda>token.
          js_then (view_call env R sourceAccount ''get_insurance_pool'' [ScAddress token]
                     ''Failed to fetch insurance pool from contract'') (\<lambda>rawPool.
            js_then (js_pure (defined_value rawPool)) (\<lambda>rawPool.
              js_return \<lparr>pv_balance = number_of R (property ''balance'' rawPool),
                         pv_totalPayouts = number_of R (property ''total_payouts'' rawPool),
                         pv_pendingClaimsCount = number_of R (property ''pending_claims_count'' rawPool)\<rparr>)))))"

definition mock_metadata :: "('w, 'acc, 'tx, 'sim) env \<Rightarrow> ('w, js_error, metadata_view) js_method" where
  "mock_metadata env w =
     (Inr \<lparr>dv_name = NText ''Test Group'', dv_description = NText ''This is a test group for development purposes.'',
           dv_rules = NText (''1. Be respectful'' @ [char_of (10 :: nat)] @ ''2. Contribute on time'' @ [char_of (10 :: nat)] @
                      ''3. Follow the group guidelines''),
           dv_updatedAt = Some (of_int (ev_now env w - 86400000))\<rparr>, w)"

definition fetch_group_metadata ::
  "('w, 'acc, 'tx, 'sim) env \<Rightarrow> 'sim reader \<Rightarrow> string \<Rightarrow> ('w, js_error, metadata_view) js_method" where
  "fetch_group_metadata env R groupId =
     (if mocked env then mock_read env 300 (mock_metadata env)
      else with_account env (\<lambda>sourceAccount.
        js_then (view_call env R sourceAccount ''get_group_metadata'' [ScU64 groupId]
                   ''Failed to fetch group metadata from contract'') (\<lambda>rawMetadata.
          js_then (js_pure (defined_value rawMetadata)) (\<lambda>rawMetadata.
            js_return \<lparr>dv_name = property ''name'' rawMetadata, dv_description = property ''description'' rawMetadata,
                       dv_rules = property ''rules'' rawMetadata,
                       dv_updatedAt = num2 (*) (number_of R (property ''updated_at'' rawMetadata)) (Some 1000)\<rparr>))))"

section \<open>The read operations\<close>

text \<open>
  Every read: what throws is classified, tracked and rethrown (a write would also notify). The
  keys of the first four come from \<open>CacheKeys\<close>, which the file never imports.
\<close>

definition read_op :: "string \<Rightarrow> (('w, 'a) client, js_error, 'r) js_method \<Rightarrow> (('w, 'a) client, js_error, 'r) js_method" where
  "read_op name body c =
     (case body c of
        (Inr r, c1) \<Rightarrow> (Inr r, c1)
      | (Inl e, c1) \<Rightarrow> (Inl e, emit (OperationFailed name (snd (classify_error e))) c1))"

definition free_variable :: "string \<Rightarrow> ('s, js_error, 'r) js_method" where
  "free_variable name = js_throw (reference_error name)"

definition retried ::
  "('w, 'acc, 'tx, 'sim) env \<Rightarrow> string \<Rightarrow> ('r \<Rightarrow> api_value) \<Rightarrow> ('w, js_error, 'r) js_method \<Rightarrow>
   (('w, api_value) client, js_error, api_value) js_method" where
  "retried env name wrap fetch =
     with_retry env (outside (js_then fetch (\<lambda>v. js_return (wrap v)))) name default_retry"

definition cache_options :: "int \<Rightarrow> string list \<Rightarrow> bool \<Rightarrow> fetch_options" where
  "cache_options ttl tags useCache =
     \<lparr>fo_ttl = Some ttl, fo_tags = Some tags, fo_forceRefresh = \<not> useCache, fo_version = None\<rparr>"

definition get_group_status ::
  "(api_value \<Rightarrow> nat) \<Rightarrow> ('w, 'acc, 'tx, 'sim) env \<Rightarrow> 'sim reader \<Rightarrow> string \<Rightarrow> bool \<Rightarrow>
   (('w, api_value) client, js_error, api_value) js_method" where
  "get_group_status json_len env R groupId useCache =
     read_op ''getGroupStatus'' (js_then (free_variable ''CacheKeys'') (\<lambda>groupStatus.
       cached_fetch json_len env (groupStatus groupId)
         (retried env ''getGroupStatus'' StatusValue (fetch_group_status env R groupId))
         (cache_options 30000 [tag_groups, tag_group groupId] useCache)))"

definition get_group_members ::
  "(api_value \<Rightarrow> nat) \<Rightarrow> ('w, 'acc, 'tx, 'sim) env \<Rightarrow> 'sim reader \<Rightarrow> string \<Rightarrow> bool \<Rightarrow>
   (('w, api_value) client, js_error, api_value) js_method" where
  "get_group_members json_len env R groupId useCache =
     read_op ''getGroupMembers'' (js_then (free_variable ''CacheKeys'') (\<lambda>groupMembers.
       cached_fetch json_len env (groupMembers groupId)
         (retried env ''getGroupMembers'' MembersValue (fetch_group_members env R groupId))
         (cache_options 60000 [tag_groups, tag_group groupId] useCache)))"

definition get_user_groups ::
  "(api_value \<Rightarrow> nat) \<Rightarrow> ('w, 'acc, 'tx, 'sim) env \<Rightarrow> 'sim reader \<Rightarrow> string \<Rightarrow> bool \<Rightarrow>
   (('w, api_value) client, js_error, api_value) js_method" where
  "get_user_groups json_len env R userId useCache =
     read_op ''getUserGroups'' (js_then (free_variable ''CacheKeys'') (\<lambda>userGroups.
       cached_fetch json_len env (userGroups userId)
         (retried env ''getUserGroups'' GroupsValue (fetch_user_groups env R userId))
         (cache_options 45000 [tag_groups, tag_user userId] useCache)))"

definition get_transactions ::
  "(api_value \<Rightarrow> nat) \<Rightarrow> ('w, 'acc, 'tx, 'sim) env \<Rightarrow> string \<Rightarrow> string option \<Rightarrow> nat \<Rightarrow>
   (('w, api_value) client, js_error, api_value) js_method" where
  "get_transactions json_len env groupId cursor max_rows =
     read_op ''getTransactions'' (js_then (free_variable ''CacheKeys'') (\<lambda>transactions.
       cached_fetch json_len env (transactions groupId cursor max_rows)
         (retried env ''getTransactions'' (case_prod TransactionsValue) (js_return (transactions_page groupId cursor)))
         (cache_options 120000 [tag_transactions, tag_group groupId] True)))"

definition get_insurance_claim ::
  "(api_value \<Rightarrow> nat) \<Rightarrow> ('w, 'acc, 'tx, 'sim) env \<Rightarrow> 'sim reader \<Rightarrow> string \<Rightarrow>
   (('w, api_value) client, js_error, api_value) js_method" where
  "get_insurance_claim json_len env R claimId =
     read_op ''getInsuranceClaim''
       (cached_fetch json_len env (''insurance_claim:'' @ claimId)
         (retried env ''getInsuranceClaim'' ClaimValue (fetch_insurance_claim env R claimId))
         (cache_options 30000 [tag_insurance] True))"

definition get_insurance_pool ::
  "(api_value \<Rightarrow> nat) \<Rightarrow> ('w, 'acc, 'tx, 'sim) env \<Rightarrow> 'sim reader \<Rightarrow> string \<Rightarrow>
   (('w, api_value) client, js_error, api_value) js_method" where
  "get_insurance_pool json_len env R tokenAddress =
     read_op ''getInsurancePool''
       (cached_fetch json_len env (''insurance_pool:'' @ tokenAddress)
         (retried env ''getInsurancePool'' PoolValue (fetch_insurance_pool env R tokenAddress))
         (cache_options 30000 [tag_insurance] True))"

definition get_group_metadata ::
  "(api_value \<Rightarrow> nat) \<Rightarrow> ('w, 'acc, 'tx, 'sim) env \<Rightarrow> 'sim reader \<Rightarrow> string \<Rightarrow>
   (('w, api_value) client, js_error, api_value) js_method" where
  "get_group_metadata json_len env R groupId =
     read_op ''getGroupMetadata''
       (cached_fetch json_len env (''group_metadata:'' @ groupId)
         (retried env ''getGroupMetadata'' MetadataValue (fetch_group_metadata env R groupId))
         (cache_options 30000 [tag_group groupId] True))"

section \<open>Penalties\<close>

text \<open>\<open>if (useCache)\<close> look the key up, else compute a value to store, if any, and the answer; the \<open>ttl\<close> passed is a number, so no option is read.\<close>

definition penalty_lookup ::
  "(api_value \<Rightarrow> nat) \<Rightarrow> ('w, 'acc, 'tx, 'sim) env \<Rightarrow> string \<Rightarrow> bool \<Rightarrow>
   (('w, api_value) client, js_error, api_value option \<times> api_value) js_method \<Rightarrow>
   (('w, api_value) client, js_error, api_value) js_method" where
  "penalty_lookup json_len env cacheKey useCache compute =
     js_then (if useCache then on_cache env (\<lambda>now. cache_get now cacheKey) else js_return None) (\<lambda>cached.
       case cached of
         Some v \<Rightarrow> js_return v
       | None \<Rightarrow>
           js_then compute (\<lambda>(stored, answer).
             js_then (case stored of
                        Some v \<Rightarrow> if useCache then on_cache env (\<lambda>now. cache_set json_len now cacheKey v no_options)
                                  else js_return ()
                      | None \<Rightarrow> js_return ())
               (\<lambda>_. js_return answer)))"

text \<open>\<open>contractId\<close> is declared nowhere; the call that follows would be \<open>contract_call\<close>.\<close>

definition get_member_penalty_record ::
  "(api_value \<Rightarrow> nat) \<Rightarrow> ('w, 'acc, 'tx, 'sim) env \<Rightarrow> (string \<Rightarrow> string \<Rightarrow> string \<Rightarrow> ('w, js_error, unit) js_method) \<Rightarrow>
   string \<Rightarrow> string \<Rightarrow> bool \<Rightarrow> (('w, api_value) client, js_error, api_value) js_method" where
  "get_member_penalty_record json_len env contract_call groupId member useCache =
     penalty_lookup json_len env (''member_penalty_record_'' @ groupId @ ''_'' @ member) useCache
       (js_then (free_variable ''contractId'') (\<lambda>contractId.
         js_then (outside (contract_call contractId member groupId)) (\<lambda>_.
           let v = PenaltyRecordValue \<lparr>pr_member = member, pr_groupId = groupId, pr_lateCount = 0, pr_onTimeCount = 0,
                     pr_totalPenalties = 0, pr_reliabilityScore = 100\<rparr>
           in js_return (Some v, v))))"

definition empty_stats :: penalty_stats where
  "empty_stats = \<lparr>ps_totalPenalties = 0, ps_averageReliabilityScore = 100, ps_totalLateContributions = 0,
     ps_totalOnTimeContributions = 0, ps_membersWithPenalties = 0, ps_totalMembers = 0\<rparr>"

definition stats_of :: "penalty_record list \<Rightarrow> penalty_stats" where
  "stats_of records =
     \<lparr>ps_totalPenalties = sum_list (map pr_totalPenalties records),
      ps_averageReliabilityScore = sum_list (map pr_reliabilityScore records) / of_nat (length records),
      ps_totalLateContributions = sum_list (map pr_lateCount records),
      ps_totalOnTimeContributions = sum_list (map pr_onTimeCount records),
      ps_membersWithPenalties = length (filter (\<lambda>r. 0 < pr_totalPenalties r) records),
      ps_totalMembers = length records\<rparr>"

text \<open>The records of several members (or groups), one after another; an answer of another kind is not summed.\<close>

fun penalty_records ::
  "(string \<times> string \<Rightarrow> (('w, api_value) client, js_error, api_value) js_method) \<Rightarrow> (string \<times> string) list \<Rightarrow>
   (('w, api_value) client, js_error, penalty_record list) js_method" where
  "penalty_records get [] = js_return []"
| "penalty_records get (p # ps) =
     js_then (get p) (\<lambda>v. js_then (penalty_records get ps) (\<lambda>rs.
       js_return (case v of PenaltyRecordValue r \<Rightarrow> r # rs | _ \<Rightarrow> rs)))"

text \<open>\<open>getGroupMembers\<close> and \<open>getUserGroups\<close> are methods of the service object, no variables of the module.\<close>

definition get_group_penalty_stats ::
  "(api_value \<Rightarrow> nat) \<Rightarrow> ('w, 'acc, 'tx, 'sim) env \<Rightarrow> (string \<Rightarrow> string \<Rightarrow> string \<Rightarrow> ('w, js_error, unit) js_method) \<Rightarrow>
   string \<Rightarrow> bool \<Rightarrow> (('w, api_value) client, js_error, api_value) js_method" where
  "get_group_penalty_stats json_len env contract_call groupId useCache =
     penalty_lookup json_len env (''group_penalty_stats_'' @ groupId) useCache
       (js_then (free_variable ''getGroupMembers'') (\<lambda>members.
          if members = [] then js_return (Some (PenaltyStatsValue empty_stats), PenaltyStatsValue empty_stats)
          else js_then (penalty_records (\<lambda>(g, m). get_member_penalty_record json_len env contract_call g m useCache)
                          (map (\<lambda>address. (groupId, address)) members))
                 (\<lambda>records. let v = PenaltyStatsValue (stats_of records) in js_return (Some v, v))))"

definition get_user_penalty_records ::
  "(api_value \<Rightarrow> nat) \<Rightarrow> ('w, 'acc, 'tx, 'sim) env \<Rightarrow> (string \<Rightarrow> string \<Rightarrow> string \<Rightarrow> ('w, js_error, unit) js_method) \<Rightarrow>
   string \<Rightarrow> bool \<Rightarrow> (('w, api_value) client, js_error, api_value) js_method" where
  "get_user_penalty_records json_len env contract_call userId useCache =
     penalty_lookup json_len env (''user_penalty_records_'' @ userId) useCache
       (js_then (free_variable ''getUserGroups'') (\<lambda>groups.
          if groups = [] then js_return (None, PenaltyRecordsValue [])
          else js_then (penalty_records (\<lambda>(g, m). get_member_penalty_record json_len env contract_call g m useCache)
                          (map (\<lambda>g. (g, userId)) groups))
            (\<lambda>records. let v = PenaltyRecordsValue records in js_return (Some v, v))))"

definition penalty_history ::
  "('w, 'acc, 'tx, 'sim) env \<Rightarrow> 'sim reader \<Rightarrow> string \<Rightarrow> string option \<Rightarrow> (('w, api_value) client, js_error, penalty_item list) js_method" where
  "penalty_history env R groupId member c =
     (let now = ev_now env (cl_world c); m = get_or ''GBX4Q7...'' (truthy member)
      in (Inr
        [\<lparr>pi_id = ''1'', pi_groupId = groupId, pi_member = m, pi_cycle = 1, pi_penaltyAmount = 10, pi_isLate = True,
          pi_timestamp = rd_iso R (now - days_ms 7), pi_reason = ''Late contribution''\<rparr>,
         \<lparr>pi_id = ''2'', pi_groupId = groupId, pi_member = m, pi_cycle = 2, pi_penaltyAmount = 0, pi_isLate = False,
          pi_timestamp = rd_iso R (now - days_ms 14), pi_reason = ''On-time contribution''\<rparr>], c))"

definition get_penalty_history ::
  "(api_value \<Rightarrow> nat) \<Rightarrow> ('w, 'acc, 'tx, 'sim) env \<Rightarrow> 'sim reader \<Rightarrow> string \<Rightarrow> string option \<Rightarrow> nat \<Rightarrow> bool \<Rightarrow>
   (('w, api_value) client, js_error, api_value) js_method" where
  "get_penalty_history json_len env R groupId member max_rows useCache =
     penalty_lookup json_len env
       (''penalty_history_'' @ groupId @ ''_'' @ get_or ''all'' (truthy member) @ ''_'' @ show_nat max_rows) useCache
       (js_then (penalty_history env R groupId member) (\<lambda>mockHistory.
         js_return (Some (PenaltyHistoryValue mockHistory), PenaltyHistoryValue (take max_rows mockHistory))))"

text \<open>
  The two invalidations hand strings to \<open>invalidateByPattern\<close>, which calls \<open>pattern.test\<close> on
  every key: a \<open>TypeError\<close> as soon as there is one; without entries nothing happens but the
  update of the size.
\<close>

fun test_strings :: "string list \<Rightarrow> (('w, 'a) client, js_error, unit) js_method" where
  "test_strings [] c = (Inr (), c)"
| "test_strings (pattern # patterns) c =
     (if cs_cache (cl_cache c) \<noteq> [] then (Inl (type_error ''pattern.test is not a function''), c)
      else test_strings patterns (c\<lparr>cl_cache := snd (invalidate_by_pattern (\<lambda>_. False) (cl_cache c))\<rparr>))"

definition invalidate_group_penalty_cache :: "string \<Rightarrow> (('w, 'a) client, js_error, unit) js_method" where
  "invalidate_group_penalty_cache groupId =
     test_strings [''member_penalty_record_'' @ groupId @ ''_'', ''group_penalty_stats_'' @ groupId,
       ''penalty_history_'' @ groupId @ ''_'']"

definition invalidate_all_penalty_cache :: "(('w, 'a) client, js_error, unit) js_method" where
  "invalidate_all_penalty_cache =
     test_strings [''member_penalty_record_'', ''group_penalty_stats_'', ''penalty_history_'', ''user_penalty_records_'']"

section \<open>Accounts\<close>

text \<open>
  The helpers over Horizon and the RPC server; both clients are parameters. The module reads
  \<open>StellarSdk\<close>, which it does not import, while it is loaded; the helpers are modelled as they
  would run with it.
\<close>

record balance_line =
  bl_assetType :: string
  bl_balance :: string

record account_balance_info =
  ab_nativeBalance :: string
  ab_minReserve :: rat
  ab_subentryCount :: int

definition get_account_balance_info ::
  "(string \<Rightarrow> ('w, js_error, balance_line list \<times> int) js_method) \<Rightarrow> string \<Rightarrow> ('w, js_error, account_balance_info) js_method" where
  "get_account_balance_info loadAccount publicKey =
     js_then (loadAccount publicKey) (\<lambda>(balances, subentryCount).
       js_return \<lparr>ab_nativeBalance = (case find (\<lambda>b. bl_assetType b = ''native'') balances of
                    None \<Rightarrow> ''0'' | Some b \<Rightarrow> bl_balance b),
                  ab_minReserve = of_int (2 + subentryCount) * (1 / 2), ab_subentryCount = subentryCount\<rparr>)"

definition get_locked_balance :: "string \<Rightarrow> rat" where
  "get_locked_balance publicKey = 0"

datatype sim_response = SimError string | SimSuccess string | SimOther

record transaction_simulation =
  ts_success :: bool
  ts_feeStroops :: js_num
  ts_feeXLM :: js_num
  ts_expectedOutcome :: string
  ts_error :: "string option"

definition failed_simulation :: "string \<Rightarrow> transaction_simulation" where
  "failed_simulation message = \<lparr>ts_success = False, ts_feeStroops = Some 0, ts_feeXLM = Some 0,
     ts_expectedOutcome = [], ts_error = Some message\<rparr>"

definition simulate_soroban_transaction ::
  "(string \<Rightarrow> js_error + 'tx) \<Rightarrow> ('tx \<Rightarrow> ('w, js_error, sim_response) js_method) \<Rightarrow> string \<Rightarrow> string \<Rightarrow> 'w \<Rightarrow>
   transaction_simulation \<times> 'w" where
  "simulate_soroban_transaction fromXDR simulate builtTxXdr expectedOutcome w =
     (case js_then (js_pure (fromXDR builtTxXdr)) simulate w of
        (Inl e, w') \<Rightarrow> (failed_simulation (get_or [] (er_message e)), w')
      | (Inr (SimError message), w') \<Rightarrow> (failed_simulation message, w')
      | (Inr (SimSuccess minResourceFee), w') \<Rightarrow>
          (let feeStroops = map_option of_int (parse_int minResourceFee)
           in \<lparr>ts_success = True, ts_feeStroops = feeStroops, ts_feeXLM = from_stroops feeStroops,
               ts_expectedOutcome = expectedOutcome, ts_error = None\<rparr>, w')
      | (Inr SimOther, w') \<Rightarrow> (failed_simulation ''Unexpected simulation response'', w'))"

record horizon_op =
  ho_id :: string
  ho_type :: string
  ho_amount :: "string option"
  ho_to :: "string option"
  ho_createdAt :: string

datatype recent_type = RecentContribution | RecentWithdrawal | RecentPayout | RecentFee | RecentOther

record recent_tx =
  rt_id :: string
  rt_type :: recent_type
  rt_amount :: string
  rt_timestamp :: string
  rt_status :: string

text \<open>\<open>rt_timestamp\<close> is the text the \<open>Date\<close> is made from.\<close>

definition recent_tx_of :: "string \<Rightarrow> horizon_op \<Rightarrow> recent_tx" where
  "recent_tx_of publicKey op =
     \<lparr>rt_id = ho_id op,
      rt_type =
        (if ho_type op = ''payment'' then if ho_to op = Some publicKey then RecentPayout else RecentContribution
         else if ho_type op = ''create_account'' then RecentContribution else RecentOther),
      rt_amount = (if ho_type op = ''payment'' \<or> ho_type op = ''create_account'' then get_or ''0'' (ho_amount op) else ''0''),
      rt_timestamp = ho_createdAt op, rt_status = ''success''\<rparr>"

definition get_recent_tx_history ::
  "(string \<Rightarrow> nat \<Rightarrow> ('w, js_error, horizon_op list) js_method) \<Rightarrow> string \<Rightarrow> nat \<Rightarrow> 'w \<Rightarrow> recent_tx list \<times> 'w" where
  "get_recent_tx_history operations publicKey max_rows w =
     (case operations publicKey max_rows w of
        (Inr ops, w') \<Rightarrow> (map (recent_tx_of publicKey) ops, w')
      | (Inl _, w') \<Rightarrow> ([], w'))"

definition fund_with_friendbot ::
  "bool \<Rightarrow> (string \<Rightarrow> string) \<Rightarrow> (string \<Rightarrow> ('w, js_error, bool) js_method) \<Rightarrow> string \<Rightarrow> 'w \<Rightarrow> bool \<times> 'w" where
  "fund_with_friendbot isTestnet encodeURIComponent fetch publicKey w =
     (if \<not> isTestnet then (False, w)
      else case fetch (''https://friendbot.stellar.org?addr='' @ encodeURIComponent publicKey) w of
             (Inr ok, w') \<Rightarrow> (ok, w')
           | (Inl _, w') \<Rightarrow> (False, w'))"

definition get_add_funds_url :: "bool \<Rightarrow> (string \<Rightarrow> string) \<Rightarrow> string \<Rightarrow> string" where
  "get_add_funds_url isTestnet encodeURIComponent publicKey =
     (if isTestnet then ''https://friendbot.stellar.org?addr='' @ encodeURIComponent publicKey
      else ''https://stellarx.com/markets/XLM'')"

section \<open>Reads without a key fail\<close>

text \<open>
  The four reads whose key comes from \<open>CacheKeys\<close> never answer: each throws a reference error
  before it looks at the cache or the network, leaves both and the breaker as they were, and
  reports a critical failure.
\<close>

theorem keyless_reads_fail:
  "get_group_status json_len env R groupId useCache c =
     (Inl (reference_error ''CacheKeys''), emit (OperationFailed ''getGroupStatus'' SevCritical) c) \<and>
   get_group_members json_len env R groupId useCache c =
     (Inl (reference_error ''CacheKeys''), emit (OperationFailed ''getGroupMembers'' SevCritical) c) \<and>
   get_user_groups json_len env R userId useCache c =
     (Inl (reference_error ''CacheKeys''), emit (OperationFailed ''getUserGroups'' SevCritical) c) \<and>
   get_transactions json_len env groupId cursor max_rows c =
     (Inl (reference_error ''CacheKeys''), emit (OperationFailed ''getTransactions'' SevCritical) c)"
proof -
  have "classify_error (reference_error ''CacheKeys'') = (''An unexpected error occurred'', SevCritical)"
    by (simp add: classify_error_def reference_error_def new_error_def message_includes_def js_starts_def)
  then show ?thesis
    by (simp add: get_group_status_def get_group_members_def get_user_groups_def get_transactions_def
        read_op_def free_variable_def js_then_def)
qed

section \<open>Figures of a group\<close>

definition answered :: "('w, 'acc, 'tx, 'sim) env \<Rightarrow> 'sim reader \<Rightarrow> string \<Rightarrow> scval list \<Rightarrow> native \<Rightarrow> bool" where
  "answered env R fn callArgs v \<longleftrightarrow> (\<exists>acc tx simulation w.
     ev_build env acc fn callArgs = Inr tx \<and> fst (ev_simulate env tx w) = Inr (Some simulation) \<and> rd_native R simulation = Inr v)"

lemma view_call_answered:
  assumes "view_call env R acc fn callArgs failure w = (Inr v, w')"
  shows "answered env R fn callArgs v"
proof -
  obtain tx simulation where "ev_build env acc fn callArgs = Inr tx"
      "ev_simulate env tx w = (Inr (Some simulation), w')" "rd_native R simulation = Inr v"
    using assms by (auto simp: view_call_def js_then_def split: sum.splits prod.splits option.splits)
  then show ?thesis unfolding answered_def by (metis fst_conv)
qed

lemma days_until_bounds:
  "days_until (Some now) (Some finish) = Some d \<Longrightarrow>
     0 \<le> d \<and> 86400 * (d - 1) < max 0 (finish - now) \<and> max 0 (finish - now) \<le> 86400 * d"
proof -
  assume d: "days_until (Some now) (Some finish) = Some d"
  define s where "s = max 0 (finish - now)"
  have d: "d = of_int \<lceil>s / 86400\<rceil>" using d by (simp add: days_until_def num2_def s_def)
  define t where "t = s / 86400"
  have "d - 1 < t" "t \<le> d" unfolding d t_def using ceiling_correct [of "s / 86400"] by simp_all
  moreover have "s = 86400 * t" by (simp add: t_def)
  moreover have "0 \<le> t" by (simp add: t_def s_def)
  ultimately show ?thesis unfolding s_def [symmetric] by simp
qed

text \<open>
  The status shown for a group on a deployed contract is computed from what the contract answered
  to \<open>get_group_status\<close> and \<open>get_group\<close>: pending and received contributions add up to the members,
  the amount collected is the contribution in XLM times those received, and the days left are
  those of the cycle's end, rounded up and never negative.
\<close>

theorem group_status_figures:
  assumes "fst (fetch_group_status env R groupId w) = Inr v" and "\<not> mocked env"
  shows "\<exists>rawStatus groupData.
      answered env R ''get_group_status'' [ScU64 groupId] rawStatus \<and> answered env R ''get_group'' [ScU64 groupId] groupData \<and>
      (\<forall>m k. number_of R (property ''total_members'' rawStatus) = Some m \<longrightarrow>
        number_of R (property ''contributions_received'' rawStatus) = Some k \<longrightarrow>
        (\<exists>p. sv_pendingContributions v = Some p \<and> p + k = m) \<and>
        (\<forall>a. number_of R (property ''contribution_amount'' groupData) = Some a \<longrightarrow>
          sv_totalCollected v = Some (a / 10000000 * k))) \<and>
      (\<forall>now finish d. number_of R (property ''current_time'' rawStatus) = Some now \<longrightarrow>
        number_of R (property ''cycle_end_time'' rawStatus) = Some finish \<longrightarrow> sv_daysUntilPayout v = Some d \<longrightarrow>
        0 \<le> d \<and> 86400 * (d - 1) < max 0 (finish - now) \<and> max 0 (finish - now) \<le> 86400 * d)"
proof -
  obtain acc w1 rawStatus w2 groupData w3 where
    s: "view_call env R acc ''get_group_status'' [ScU64 groupId] ''Failed to fetch group status from contract'' w1 = (Inr rawStatus, w2)" and
    g: "view_call env R acc ''get_group'' [ScU64 groupId] ''Failed to fetch group details from contract'' w2 = (Inr groupData, w3)" and
    v: "v = status_view_of R groupId rawStatus groupData"
    using assms by (auto simp: fetch_group_status_def with_account_def js_then_def js_return_def defined_value_def
        split: sum.splits prod.splits if_splits)
  show ?thesis
    by (intro exI [of _ rawStatus] exI [of _ groupData] conjI view_call_answered [OF s] view_call_answered [OF g])
       (auto simp: v status_view_of_def Let_def num2_def from_stroops_def dest: days_until_bounds)
qed

text \<open>A reader for the witnesses: the simulation of a call is the call's name.\<close>

definition sample_status :: native where
  "sample_status = NObject [(''total_members'', NNumber (Some 5)), (''contributions_received'', NNumber (Some 3)),
     (''current_time'', NBigInt 100), (''cycle_end_time'', NBigInt 172900)]"

definition sample_group :: native where
  "sample_group = NObject [(''contribution_amount'', NBigInt 500000000), (''current_cycle'', NNumber (Some 4)),
     (''created_at'', NBigInt 0)]"

definition sample_reader :: "string reader" where
  "sample_reader = \<lparr>
     rd_native = (\<lambda>fn. Inr (if fn = ''get_group_status'' then sample_status
       else if fn = ''get_contribution_status'' then NList [NList [NText ''G1'', NBool True]] else sample_group)),
     rd_number = (\<lambda>_. None), rd_show = (\<lambda>_. ''1''), rd_iso = (\<lambda>_. ''1970-01-01'')\<rparr>"

theorem group_status_figures_witness:
  "sv_pendingContributions (status_view_of sample_reader ''7'' sample_status sample_group) = Some 2 \<and>
   (\<exists>r g. answered up_env sample_reader ''get_group_status'' [ScU64 ''7''] r \<and>
          answered up_env sample_reader ''get_group'' [ScU64 ''7''] g)"
proof -
  have run: "fst (fetch_group_status up_env sample_reader ''7'' (0, 0)) =
      Inr (status_view_of sample_reader ''7'' sample_status sample_group)"
    by (simp add: fetch_group_status_def with_account_def js_then_def js_return_def defined_value_def mocked_def
        wallet_address_def view_call_def up_env_def sample_reader_def sample_status_def sample_group_def)
  have "\<not> mocked up_env" by (simp add: mocked_def up_env_def)
  from group_status_figures [OF run this] show ?thesis
    by (auto simp: status_view_of_def Let_def num2_def sample_status_def)
qed

section \<open>Contributions of a member\<close>

lemma count_contributions_filter:
  assumes "\<And>cycle w. fst (contribution_check env R acc groupId address cycle w) = paid cycle"
  shows "fst (count_contributions env R acc groupId address cycles n w) = n + length (filter paid cycles)"
proof (induction cycles arbitrary: n w)
  case (Cons cycle cycles)
  obtain p w' where c: "contribution_check env R acc groupId address cycle w = (p, w')" by (rule prod.exhaust)
  then have "p = paid cycle" using assms [of cycle w] by simp
  then show ?case using Cons c by simp
qed simp

lemma past_cycles_set: "set (past_cycles (Some c)) = {k. 1 \<le> k \<and> of_nat k < c}"
  by (auto simp: past_cycles_def less_ceiling_iff nat_less_iff zless_nat_eq_int_zless)

text \<open>
  A member's contributions are the cycles before the current one whose status call named the
  member as paid, a cycle whose call fails or answers garbage counting as unpaid; so there are
  never more of them than completed cycles, and the total is that number times the contribution.
\<close>

theorem member_contributions_counted:
  assumes "\<And>cycle w. fst (contribution_check env R acc groupId address cycle w) = paid cycle"
    and "number_of R (property ''current_cycle'' groupData) = Some c"
    and "number_of R (property ''contribution_amount'' groupData) = Some a"
    and "fst (member_view_of env R acc groupId groupData index address w) = Inr v"
  shows "mv_contributions v = card {k. 1 \<le> k \<and> of_nat k < c \<and> paid k} \<and> mv_cyclesCompleted v = mv_contributions v
    \<and> mv_totalContributed v = Some (of_nat (mv_contributions v) * a / 10000000)"
proof -
  obtain n w' where n: "count_contributions env R acc groupId address (past_cycles (Some c)) 0 w = (n, w')"
    by (rule prod.exhaust)
  have "n = length (filter paid (past_cycles (Some c)))"
    using count_contributions_filter [OF assms(1), of "past_cycles (Some c)" 0 w] n by simp
  also have "\<dots> = card (set (filter paid (past_cycles (Some c))))"
    by (rule distinct_card [symmetric]) (simp add: past_cycles_def)
  also have "set (filter paid (past_cycles (Some c))) = {k. 1 \<le> k \<and> of_nat k < c \<and> paid k}"
    unfolding set_filter past_cycles_set by auto
  finally have n': "n = card {k. 1 \<le> k \<and> of_nat k < c \<and> paid k}" .
  show ?thesis
    using assms(4) n n' by (auto simp: member_view_of_def assms(2,3) num2_def from_stroops_def split: sum.splits)
qed

lemma sample_check: "fst (contribution_check up_env sample_reader acc ''7'' (NText ''G1'') cycle w) = True"
  by (simp add: contribution_check_def js_then_def up_env_def sample_reader_def paid_in_def js_return_def)

lemma property_created: "number_of sample_reader (property ''created_at'' sample_group) = Some 0"
  by (simp add: sample_group_def)

theorem member_contributions_counted_witness:
  "\<exists>v. fst (member_view_of up_env sample_reader ''G1'' ''7'' sample_group 0 (NText ''G1'') (0, 0)) = Inr v
     \<and> mv_contributions v = 3"
proof -
  have g: "number_of sample_reader (property ''current_cycle'' sample_group) = Some 4"
      "number_of sample_reader (property ''contribution_amount'' sample_group) = Some 500000000"
    by (simp_all add: sample_group_def)
  obtain v where v: "fst (member_view_of up_env sample_reader ''G1'' ''7'' sample_group 0 (NText ''G1'') (0, 0)) = Inr v"
    by (cases "count_contributions up_env sample_reader ''G1'' ''7'' (NText ''G1'') (past_cycles (Some 4)) 0 (0, 0)")
       (simp add: member_view_of_def g iso_time_def num2_def property_created)
  have "{k. 1 \<le> k \<and> of_nat k < (4 :: rat)} = {1, 2, 3}" by (auto simp: less_Suc_eq numeral_eq_Suc)
  then have "mv_contributions v = 3"
    using member_contributions_counted [OF sample_check g v] by simp
  then show ?thesis using v by blast
qed

section \<open>The penalty history\<close>

text \<open>
  The penalty history forgets its own limit: asked for one row it answers one and caches both,
  under a key that names the limit of one; the same question again is answered with two rows.
\<close>

theorem penalty_history_limit_forgotten:
  "\<exists>c1 x y. get_penalty_history (\<lambda>_. 10) up_env sample_reader ''7'' None 1 True
        \<lparr>cl_breaker = new_rpc_breaker, cl_cache = new_cache default_config, cl_world = (0, 0), cl_events = []\<rparr>
      = (Inr (PenaltyHistoryValue [x]), c1)
    \<and> fst (get_penalty_history (\<lambda>_. 10) up_env sample_reader ''7'' None 1 True c1) = Inr (PenaltyHistoryValue [x, y])"
proof -
  have k: "validate_key ''penalty_history_7_all_1'' = Inr ''penalty_history_7_all_1''"
    by (simp add: validate_key_def safe_key_char_def)
  have n: "show_nat (Suc 0) = ''1''" by (subst show_nat.simps) code_simp
  show ?thesis
    by (simp add: get_penalty_history_def penalty_lookup_def penalty_history_def js_then_def on_cache_def n k
        cache_get_def cache_set_def check_rate_limit_def recent_requests_def read_entry_def new_cache_def
        validate_data_size_def max_data_size_def store_entry_def Let_def no_options_def default_config_def
        is_expired_def effective_ttl_def up_env_def sample_reader_def)
qed

end
