(* ===== verification/Schedule.thy ===== *)
theory Schedule
  imports JsPrelude
begin

text \<open>
  Contribution schedules, \<open>backend/src/services/scheduleService.ts\<close>: the due dates of a group, the
  payment window of each cycle, and the job that moves windows into grace, marks them missed and
  advances the cycle.

  Dates are milliseconds. The database client is a record of operations on an abstract state;
  \<open>schedule_laws\<close> states what it documents over the tables of schedules and windows. The local
  calendar's \<open>setMonth(getMonth() + 1)\<close> is the field \<open>sd_addMonth\<close>. A loop that never returns is the
  error \<open>NeverReturns\<close>. Calls run one at a time.
\<close>

section \<open>Data\<close>

datatype window_status = WindowOpen | WindowGrace | WindowMissed | WindowClosed

record schedule =
  sc_id :: string
  sc_groupId :: string
  sc_frequency :: string
  sc_intervalDays :: "int option"
  sc_gracePeriodHours :: int
  sc_paymentWindowHours :: int
  sc_startDate :: int
  sc_nextDueDate :: int
  sc_isActive :: bool

record payment_window =
  pw_id :: string
  pw_scheduleId :: string
  pw_cycleNumber :: nat
  pw_opensAt :: int
  pw_dueAt :: int
  pw_closesAt :: "int option"
  pw_status :: window_status

datatype schedule_error =
    ScheduleNotFound string
  | GroupNotFound string
  | ScheduleExists string
  | IntervalRequired
  | UnknownFrequency string
  | NeverReturns
  | ScheduleDbError string

record 's schedule_db =
  sd_now :: "'s \<Rightarrow> int"
  sd_addMonth :: "int \<Rightarrow> int"
  sd_groupExists :: "string \<Rightarrow> ('s, schedule_error, bool) js_method"
  sd_findSchedule :: "string \<Rightarrow> ('s, schedule_error, schedule option) js_method"
  sd_createSchedule :: "schedule \<Rightarrow> ('s, schedule_error, schedule) js_method"
  sd_updateSchedule :: "string \<Rightarrow> (schedule \<Rightarrow> schedule) \<Rightarrow> ('s, schedule_error, schedule) js_method"
  sd_lastWindow :: "string \<Rightarrow> ('s, schedule_error, payment_window option) js_method"
  sd_recentWindows :: "string \<Rightarrow> nat \<Rightarrow> ('s, schedule_error, payment_window list) js_method"
  sd_createWindow :: "payment_window \<Rightarrow> ('s, schedule_error, payment_window) js_method"
  sd_setStatus :: "(payment_window \<Rightarrow> bool) \<Rightarrow> window_status \<Rightarrow> ('s, schedule_error, unit) js_method"
  sd_liveWindows :: "('s, schedule_error, (payment_window \<times> schedule) list) js_method"
  sd_findSchedules :: "(schedule \<Rightarrow> bool) \<Rightarrow> ('s, schedule_error, schedule list) js_method"

definition live :: "payment_window \<Rightarrow> bool" where
  "live w \<longleftrightarrow> pw_status w \<in> {WindowOpen, WindowGrace}"

section \<open>Dates\<close>

definition add_hours :: "int \<Rightarrow> int \<Rightarrow> int" where
  "add_hours date hours = date + hours * 3600000"

definition add_days :: "int \<Rightarrow> int \<Rightarrow> int" where
  "add_days date days = date + days * 86400000"

definition advance_date :: "(int \<Rightarrow> int) \<Rightarrow> int \<Rightarrow> string \<Rightarrow> int option \<Rightarrow> schedule_error + int" where
  "advance_date addMonth from_date frequency customIntervalDays =
     (if frequency = ''WEEKLY'' then Inr (add_days from_date 7)
      else if frequency = ''BI_WEEKLY'' then Inr (add_days from_date 14)
      else if frequency = ''MONTHLY'' then Inr (addMonth from_date)
      else if frequency = ''CUSTOM'' then
        (case customIntervalDays of
           None \<Rightarrow> Inl IntervalRequired
         | Some n \<Rightarrow> if n < 1 then Inl IntervalRequired else Inr (add_days from_date n))
      else Inl (UnknownFrequency frequency))"

text \<open>\<open>while (candidate <= now) candidate = advanceDate(\<dots>)\<close>.\<close>

partial_function (option) compute_next_due_date ::
  "(int \<Rightarrow> int) \<Rightarrow> int \<Rightarrow> string \<Rightarrow> int option \<Rightarrow> int \<Rightarrow> (schedule_error + int) option" where
  "compute_next_due_date addMonth candidate frequency customIntervalDays now =
     (if candidate \<le> now
      then case advance_date addMonth candidate frequency customIntervalDays of
             Inl e \<Rightarrow> Some (Inl e)
           | Inr next_date \<Rightarrow> compute_next_due_date addMonth next_date frequency customIntervalDays now
      else Some (Inr candidate))"

declare compute_next_due_date.simps [code]

definition next_due :: "'s schedule_db \<Rightarrow> int \<Rightarrow> string \<Rightarrow> int option \<Rightarrow> ('s, schedule_error, int) js_method" where
  "next_due S startDate frequency intervalDays s =
     ((case compute_next_due_date (sd_addMonth S) startDate frequency intervalDays (sd_now S s) of
         None \<Rightarrow> Inl NeverReturns | Some r \<Rightarrow> r), s)"

section \<open>Payment windows\<close>

definition open_next_window :: "'s schedule_db \<Rightarrow> schedule \<Rightarrow> ('s, schedule_error, payment_window) js_method" where
  "open_next_window S sched =
     js_then (sd_lastWindow S (sc_id sched)) (\<lambda>lastWindow s.
       sd_createWindow S
         \<lparr>pw_id = [], pw_scheduleId = sc_id sched,
          pw_cycleNumber = (case lastWindow of None \<Rightarrow> 0 | Some w \<Rightarrow> pw_cycleNumber w) + 1,
          pw_opensAt = sd_now S s, pw_dueAt = sc_nextDueDate sched,
          pw_closesAt = (if sc_paymentWindowHours sched > 0
                         then Some (add_hours (sc_nextDueDate sched) (sc_paymentWindowHours sched)) else None),
          pw_status = WindowOpen\<rparr> s)"

text \<open>\<open>advanceCycle\<close>: past its guards it closes the live windows, moves the due date and opens the next window.\<close>

definition next_cycle :: "'s schedule_db \<Rightarrow> string \<Rightarrow> schedule \<Rightarrow> ('s, schedule_error, schedule) js_method" where
  "next_cycle S groupId sched =
     js_then (sd_setStatus S (\<lambda>w. pw_scheduleId w = sc_id sched \<and> live w) WindowClosed) (\<lambda>_.
       js_then (js_pure (advance_date (sd_addMonth S) (sc_nextDueDate sched) (sc_frequency sched) (sc_intervalDays sched)))
         (\<lambda>newNextDueDate.
           js_then (sd_updateSchedule S groupId (\<lambda>c. c\<lparr>sc_nextDueDate := newNextDueDate\<rparr>)) (\<lambda>updated.
             js_then (open_next_window S updated) (\<lambda>_. js_return updated))))"

definition advance_cycle :: "'s schedule_db \<Rightarrow> string \<Rightarrow> ('s, schedule_error, schedule) js_method" where
  "advance_cycle S groupId =
     js_then (sd_findSchedule S groupId) (\<lambda>found.
       case found of
         None \<Rightarrow> js_throw (ScheduleNotFound groupId)
       | Some sched \<Rightarrow> if \<not> sc_isActive sched then js_return sched else next_cycle S groupId sched)"

section \<open>Schedules\<close>

record schedule_input =
  si_frequency :: string
  si_intervalDays :: "int option"
  si_gracePeriodHours :: int
  si_paymentWindowHours :: int
  si_startDate :: int

record schedule_changes =
  sx_frequency :: "string option"
  sx_intervalDays :: "int option"
  sx_gracePeriodHours :: "int option"
  sx_paymentWindowHours :: "int option"
  sx_startDate :: "int option"
  sx_isActive :: "bool option"

definition get_schedule :: "'s schedule_db \<Rightarrow> string \<Rightarrow> ('s, schedule_error, schedule \<times> payment_window list) js_method" where
  "get_schedule S groupId =
     js_then (sd_findSchedule S groupId) (\<lambda>found.
       case found of
         None \<Rightarrow> js_throw (ScheduleNotFound groupId)
       | Some sched \<Rightarrow> js_then (sd_recentWindows S (sc_id sched) 10) (\<lambda>windows. js_return (sched, windows)))"

definition create_schedule :: "'s schedule_db \<Rightarrow> string \<Rightarrow> schedule_input \<Rightarrow> ('s, schedule_error, schedule) js_method" where
  "create_schedule S groupId input =
     js_then (sd_groupExists S groupId) (\<lambda>group_known.
       if \<not> group_known then js_throw (GroupNotFound groupId)
       else js_then (sd_findSchedule S groupId) (\<lambda>existing.
         if existing \<noteq> None then js_throw (ScheduleExists groupId)
         else js_then (next_due S (si_startDate input) (si_frequency input) (si_intervalDays input)) (\<lambda>nextDueDate.
           js_then (sd_createSchedule S
               \<lparr>sc_id = [], sc_groupId = groupId, sc_frequency = si_frequency input, sc_intervalDays = si_intervalDays input,
                sc_gracePeriodHours = si_gracePeriodHours input, sc_paymentWindowHours = si_paymentWindowHours input,
                sc_startDate = si_startDate input, sc_nextDueDate = nextDueDate, sc_isActive = True\<rparr>) (\<lambda>sched.
             js_then (open_next_window S sched) (\<lambda>_. js_return sched)))))"

definition update_schedule :: "'s schedule_db \<Rightarrow> string \<Rightarrow> schedule_changes \<Rightarrow> ('s, schedule_error, schedule) js_method" where
  "update_schedule S groupId input =
     js_then (sd_findSchedule S groupId) (\<lambda>found.
       case found of
         None \<Rightarrow> js_throw (ScheduleNotFound groupId)
       | Some existing \<Rightarrow>
           let frequency = get_or (sc_frequency existing) (sx_frequency input);
               intervalDays = (case sx_intervalDays input of None \<Rightarrow> sc_intervalDays existing | Some n \<Rightarrow> Some n);
               startDate = get_or (sc_startDate existing) (sx_startDate input);
               scheduleChanged = sx_frequency input \<noteq> None \<or> sx_intervalDays input \<noteq> None \<or> sx_startDate input \<noteq> None
           in js_then (if scheduleChanged then next_due S startDate frequency intervalDays
                       else js_return (sc_nextDueDate existing)) (\<lambda>nextDueDate.
                sd_updateSchedule S groupId (\<lambda>c. c\<lparr>
                  sc_frequency := frequency, sc_intervalDays := intervalDays,
                  sc_gracePeriodHours := get_or (sc_gracePeriodHours existing) (sx_gracePeriodHours input),
                  sc_paymentWindowHours := get_or (sc_paymentWindowHours existing) (sx_paymentWindowHours input),
                  sc_startDate := startDate, sc_nextDueDate := nextDueDate,
                  sc_isActive := get_or (sc_isActive c) (sx_isActive input)\<rparr>)))"

section \<open>Grace periods\<close>

text \<open>One window of the snapshot, at the time \<open>now\<close> the run started; counts entered and missed.\<close>

definition enforce_window ::
  "'s schedule_db \<Rightarrow> int \<Rightarrow> payment_window \<Rightarrow> schedule \<Rightarrow> nat \<times> nat \<Rightarrow> ('s, schedule_error, nat \<times> nat) js_method" where
  "enforce_window S now win sched = (\<lambda>(graced, missed).
     (let graceCutoff = add_hours (pw_dueAt win) (sc_gracePeriodHours sched)
      in if \<not> sc_isActive sched then js_return (graced, missed)
         else if pw_status win = WindowOpen \<and> pw_dueAt win < now \<and> now < graceCutoff
         then js_then (sd_setStatus S (\<lambda>w. pw_id w = pw_id win) WindowGrace) (\<lambda>_. js_return (graced + 1, missed))
         else if graceCutoff \<le> now \<or> (case pw_closesAt win of None \<Rightarrow> False | Some hardClose \<Rightarrow> hardClose \<le> now)
         then js_then (sd_setStatus S (\<lambda>w. pw_id w = pw_id win) WindowMissed) (\<lambda>_.
                js_then (advance_cycle S (sc_groupId sched)) (\<lambda>_. js_return (graced, missed + 1)))
         else js_return (graced, missed)))"

fun enforce_windows ::
  "'s schedule_db \<Rightarrow> int \<Rightarrow> (payment_window \<times> schedule) list \<Rightarrow> nat \<times> nat \<Rightarrow> ('s, schedule_error, nat \<times> nat) js_method" where
  "enforce_windows S now [] counts = js_return counts"
| "enforce_windows S now ((win, sched) # rest) counts =
     js_then (enforce_window S now win sched counts) (enforce_windows S now rest)"

definition enforce_grace_periods :: "'s schedule_db \<Rightarrow> ('s, schedule_error, nat \<times> nat) js_method" where
  "enforce_grace_periods S s =
     js_then (sd_liveWindows S) (\<lambda>openWindows. enforce_windows S (sd_now S s) openWindows (0, 0)) s"

definition get_upcoming_due :: "'s schedule_db \<Rightarrow> int \<Rightarrow> ('s, schedule_error, schedule list) js_method" where
  "get_upcoming_due S withinHours s =
     sd_findSchedules S (\<lambda>c. sc_isActive c \<and> sd_now S s \<le> sc_nextDueDate c \<and>
       sc_nextDueDate c \<le> add_hours (sd_now S s) withinHours) s"

section \<open>Due dates\<close>

text \<open>The dates a schedule visits: \<open>advanceDate\<close> applied again and again.\<close>

definition step_date :: "(int \<Rightarrow> int) \<Rightarrow> string \<Rightarrow> int option \<Rightarrow> int \<Rightarrow> int" where
  "step_date addMonth frequency days t =
     (case advance_date addMonth t frequency days of Inl _ \<Rightarrow> t | Inr u \<Rightarrow> u)"

definition valid_frequency :: "string \<Rightarrow> int option \<Rightarrow> bool" where
  "valid_frequency frequency days \<longleftrightarrow>
     frequency \<in> {''WEEKLY'', ''BI_WEEKLY'', ''MONTHLY''} \<or>
     frequency = ''CUSTOM'' \<and> (case days of None \<Rightarrow> False | Some n \<Rightarrow> 1 \<le> n)"

lemma advance_valid:
  "valid_frequency frequency days \<Longrightarrow>
     advance_date addMonth t frequency days = Inr (step_date addMonth frequency days t)"
  by (auto simp: valid_frequency_def advance_date_def step_date_def split: option.splits)

lemma step_date_increases:
  assumes "valid_frequency frequency days" and "\<And>t. t < addMonth t"
  shows "t < step_date addMonth frequency days t"
  using assms by (auto simp: valid_frequency_def advance_date_def step_date_def add_days_def split: option.splits)

lemma compute_next_due_date_visits:
  assumes "valid_frequency frequency days" and "\<And>t. t < addMonth t"
  shows "\<exists>k. compute_next_due_date addMonth start frequency days now =
      Some (Inr ((step_date addMonth frequency days ^^ k) start)) \<and>
    now < (step_date addMonth frequency days ^^ k) start \<and>
    (\<forall>j < k. (step_date addMonth frequency days ^^ j) start \<le> now)"
proof (induction "nat (now + 1 - start)" arbitrary: start rule: less_induct)
  case less
  let ?f = "step_date addMonth frequency days"
  show ?case
  proof (cases "start \<le> now")
    case False
    then show ?thesis
      by (intro exI [of _ 0]) (simp add: compute_next_due_date.simps [of addMonth start])
  next
    case True
    have "nat (now + 1 - ?f start) < nat (now + 1 - start)"
      using step_date_increases [OF assms, of start] True by simp
    from less [OF this] obtain k where k:
      "compute_next_due_date addMonth (?f start) frequency days now = Some (Inr ((?f ^^ k) (?f start)))"
      "now < (?f ^^ k) (?f start)" "\<forall>j < k. (?f ^^ j) (?f start) \<le> now" by blast
    have "compute_next_due_date addMonth start frequency days now = Some (Inr ((?f ^^ Suc k) start))"
      using True k(1) by (simp add: compute_next_due_date.simps [of addMonth start] advance_valid [OF assms(1)] funpow_swap1)
    moreover have "now < (?f ^^ Suc k) start" using k(2) by (simp add: funpow_swap1)
    moreover have "\<forall>j < Suc k. (?f ^^ j) start \<le> now"
    proof (intro allI impI)
      fix j assume "j < Suc k"
      then show "(?f ^^ j) start \<le> now"
        using True k(3) by (cases j) (simp_all add: funpow_swap1)
    qed
    ultimately show ?thesis by blast
  qed
qed

text \<open>
  The next due date exists: for a known frequency (custom with an interval of a day or more) and a
  calendar whose months move forward, the search ends, whatever the start, and answers the first
  date of the schedule, counted from the start, that lies strictly after the clock.
\<close>

theorem next_due_date_first:
  assumes "valid_frequency frequency days" and "\<And>t. t < addMonth t"
  shows "\<exists>k. compute_next_due_date addMonth start frequency days now =
      Some (Inr ((step_date addMonth frequency days ^^ k) start)) \<and>
    now < (step_date addMonth frequency days ^^ k) start \<and>
    (\<forall>j < k. (step_date addMonth frequency days ^^ j) start \<le> now)"
  by (rule compute_next_due_date_visits [OF assms])

theorem next_due_date_first_witness:
  "\<exists>k. compute_next_due_date (\<lambda>t. t + 2678400000) 0 ''WEEKLY'' None 1000000000 =
      Some (Inr ((step_date (\<lambda>t. t + 2678400000) ''WEEKLY'' None ^^ k) 0)) \<and>
    1000000000 < (step_date (\<lambda>t. t + 2678400000) ''WEEKLY'' None ^^ k) 0"
  using next_due_date_first [of "''WEEKLY''" None "\<lambda>t. t + 2678400000" 0 1000000000]
  by (auto simp: valid_frequency_def)

section \<open>What the database promises\<close>

text \<open>
  Over the tables of schedules \<open>ss\<close> and windows \<open>ws\<close>, rows in the order of their insertion: a call
  that throws changes nothing; a query changes nothing and answers from the rows; an insertion
  appends the given row with a new id; an update changes the rows it selects.
\<close>

definition query_law ::
  "('s \<Rightarrow> schedule list) \<Rightarrow> ('s \<Rightarrow> payment_window list) \<Rightarrow> ('s, schedule_error, 'r) js_method \<Rightarrow>
   (schedule list \<Rightarrow> payment_window list \<Rightarrow> 'r \<Rightarrow> bool) \<Rightarrow> bool" where
  "query_law ss ws m answer \<longleftrightarrow> (\<forall>s x s'. m s = (x, s') \<longrightarrow>
     ss s' = ss s \<and> ws s' = ws s \<and> (case x of Inl e \<Rightarrow> True | Inr r \<Rightarrow> answer (ss s) (ws s) r))"

definition change_law ::
  "('s \<Rightarrow> schedule list) \<Rightarrow> ('s \<Rightarrow> payment_window list) \<Rightarrow> ('s, schedule_error, 'r) js_method \<Rightarrow>
   (schedule list \<Rightarrow> payment_window list \<Rightarrow> 'r \<Rightarrow> schedule list \<Rightarrow> payment_window list \<Rightarrow> bool) \<Rightarrow> bool" where
  "change_law ss ws m effect \<longleftrightarrow> (\<forall>s x s'. m s = (x, s') \<longrightarrow>
     (case x of Inl e \<Rightarrow> ss s' = ss s \<and> ws s' = ws s | Inr r \<Rightarrow> effect (ss s) (ws s) r (ss s') (ws s')))"

definition of_schedule :: "string \<Rightarrow> payment_window list \<Rightarrow> payment_window list" where
  "of_schedule sid rows = filter (\<lambda>w. pw_scheduleId w = sid) rows"

definition is_last_window :: "string \<Rightarrow> payment_window list \<Rightarrow> payment_window option \<Rightarrow> bool" where
  "is_last_window sid rows r \<longleftrightarrow>
     (case r of None \<Rightarrow> of_schedule sid rows = []
      | Some w \<Rightarrow> w \<in> set (of_schedule sid rows) \<and>
          (\<forall>v \<in> set (of_schedule sid rows). pw_cycleNumber v \<le> pw_cycleNumber w))"

definition live_pairs :: "schedule list \<Rightarrow> payment_window list \<Rightarrow> (payment_window \<times> schedule) list \<Rightarrow> bool" where
  "live_pairs srows wrows r \<longleftrightarrow> distinct (map fst r) \<and> set (map fst r) = {w \<in> set wrows. live w} \<and>
     (\<forall>(w, c) \<in> set r. c \<in> set srows \<and> sc_id c = pw_scheduleId w)"

definition schedule_laws ::
  "'s schedule_db \<Rightarrow> ('s \<Rightarrow> schedule list) \<Rightarrow> ('s \<Rightarrow> payment_window list) \<Rightarrow> bool" where
  "schedule_laws S ss ws \<longleftrightarrow>
     (\<forall>g. query_law ss ws (sd_groupExists S g) (\<lambda>_ _ _. True)) \<and>
     (\<forall>g. query_law ss ws (sd_findSchedule S g) (\<lambda>srows _ r. r = find (\<lambda>c. sc_groupId c = g) srows)) \<and>
     (\<forall>sid. query_law ss ws (sd_lastWindow S sid) (\<lambda>_ wrows r. is_last_window sid wrows r)) \<and>
     query_law ss ws (sd_liveWindows S) live_pairs \<and>
     (\<forall>d. change_law ss ws (sd_createSchedule S d) (\<lambda>srows wrows r srows' wrows'.
        srows' = srows @ [r] \<and> wrows' = wrows \<and> r = d\<lparr>sc_id := sc_id r\<rparr> \<and> sc_id r \<notin> sc_id ` set srows \<and>
        sc_groupId r \<notin> sc_groupId ` set srows \<and> of_schedule (sc_id r) wrows = [])) \<and>
     (\<forall>g f. change_law ss ws (sd_updateSchedule S g f) (\<lambda>srows wrows r srows' wrows'.
        srows' = map (\<lambda>c. if sc_groupId c = g then f c else c) srows \<and> wrows' = wrows \<and>
        (\<exists>c \<in> set srows. sc_groupId c = g \<and> r = f c))) \<and>
     (\<forall>d. change_law ss ws (sd_createWindow S d) (\<lambda>srows wrows r srows' wrows'.
        srows' = srows \<and> wrows' = wrows @ [r] \<and> r = d\<lparr>pw_id := pw_id r\<rparr> \<and> pw_id r \<notin> pw_id ` set wrows)) \<and>
     (\<forall>P st. change_law ss ws (sd_setStatus S P st) (\<lambda>srows wrows r srows' wrows'.
        srows' = srows \<and> wrows' = map (\<lambda>w. if P w then w\<lparr>pw_status := st\<rparr> else w) wrows))"

section \<open>One live window per schedule\<close>

definition windows_ok :: "payment_window list \<Rightarrow> bool" where
  "windows_ok rows \<longleftrightarrow> distinct (map pw_id rows) \<and>
     (\<forall>sid. map pw_cycleNumber (of_schedule sid rows) = [1 ..< length (of_schedule sid rows) + 1] \<and>
       (\<forall>w \<in> set (butlast (of_schedule sid rows)). \<not> live w))"

definition set_status :: "(payment_window \<Rightarrow> bool) \<Rightarrow> window_status \<Rightarrow> payment_window list \<Rightarrow> payment_window list" where
  "set_status P st rows = map (\<lambda>w. if P w then w\<lparr>pw_status := st\<rparr> else w) rows"

lemma of_schedule_set_status: "of_schedule sid (set_status P st rows) = set_status P st (of_schedule sid rows)"
  by (induction rows) (auto simp: of_schedule_def set_status_def)

lemma set_status_same:
  "map pw_id (set_status P st rows) = map pw_id rows"
  "map pw_cycleNumber (set_status P st rows) = map pw_cycleNumber rows"
  "length (set_status P st rows) = length rows"
  by (simp_all add: set_status_def)

lemma butlast_set_status: "butlast (set_status P st rows) = set_status P st (butlast rows)"
  by (simp add: set_status_def map_butlast)

lemma windows_ok_set_status:
  assumes "windows_ok rows" and "st \<in> {WindowMissed, WindowClosed} \<or> (\<forall>w \<in> set rows. P w \<longrightarrow> live w)"
  shows "windows_ok (set_status P st rows)"
proof -
  have "\<not> live v" if w: "v \<in> set (butlast (of_schedule sid (set_status P st rows)))" for sid v
  proof -
    obtain w where "w \<in> set (butlast (of_schedule sid rows))" and v: "v = (if P w then w\<lparr>pw_status := st\<rparr> else w)"
      using w [unfolded of_schedule_set_status butlast_set_status] by (auto simp: set_status_def)
    then have "\<not> live w" and "w \<in> set rows"
      using assms(1) in_set_butlastD [of w] unfolding windows_ok_def of_schedule_def by force+
    then show ?thesis using assms(2) by (auto simp: v live_def)
  qed
  then show ?thesis
    using assms(1) by (simp add: windows_ok_def of_schedule_set_status set_status_same)
qed

lemma of_schedule_append: "of_schedule sid (rows @ [r]) = of_schedule sid rows @ (if pw_scheduleId r = sid then [r] else [])"
  by (simp add: of_schedule_def)

lemma windows_ok_append:
  assumes "windows_ok rows" and "pw_id r \<notin> pw_id ` set rows"
    and "pw_cycleNumber r = length (of_schedule (pw_scheduleId r) rows) + 1"
    and "\<forall>w \<in> set (of_schedule (pw_scheduleId r) rows). \<not> live w"
  shows "windows_ok (rows @ [r])"
  using assms by (simp add: windows_ok_def of_schedule_append butlast_append)

lemma windows_ok_last:
  assumes "windows_ok rows" and "is_last_window sid rows x"
  shows "(case x of None \<Rightarrow> 0 | Some w \<Rightarrow> pw_cycleNumber w) = length (of_schedule sid rows)"
proof (cases x)
  case None
  then show ?thesis using assms(2) by (simp add: is_last_window_def)
next
  case (Some w)
  let ?W = "of_schedule sid rows"
  have w: "w \<in> set ?W" "\<forall>v \<in> set ?W. pw_cycleNumber v \<le> pw_cycleNumber w"
    using assms(2) Some by (simp_all add: is_last_window_def)
  have "pw_cycleNumber ` set ?W = set [1 ..< length ?W + 1]"
    using assms(1) unfolding windows_ok_def by (metis set_map)
  also have "\<dots> = {1 .. length ?W}" by (simp only: set_upt) auto
  finally have nums: "pw_cycleNumber ` set ?W = {1 .. length ?W}" .
  have "0 < length ?W" using w(1) by (cases ?W) simp_all
  then have "length ?W \<in> pw_cycleNumber ` set ?W" unfolding nums by (simp add: Suc_le_eq)
  then have "length ?W \<le> pw_cycleNumber w" using w(2) by auto
  moreover have "pw_cycleNumber w \<le> length ?W" using nums w(1) by auto
  ultimately show ?thesis using Some by simp
qed

lemma windows_ok_live_unique:
  assumes "windows_ok rows" and "v \<in> set rows" "w \<in> set rows" "live v" "live w" and "pw_scheduleId v = pw_scheduleId w"
  shows "v = w"
proof -
  let ?W = "of_schedule (pw_scheduleId v) rows"
  have "v \<in> set ?W" "w \<in> set ?W" using assms by (auto simp: of_schedule_def)
  moreover have "\<forall>u \<in> set (butlast ?W). \<not> live u" using assms(1) by (simp add: windows_ok_def)
  moreover have "set ?W = insert (last ?W) (set (butlast ?W))" if "?W \<noteq> []"
    using append_butlast_last_id [OF that] by (metis set_append empty_set list.simps(15) sup_bot.right_neutral Un_insert_right)
  ultimately show ?thesis using assms(4,5) by (cases "?W = []") auto
qed

section \<open>What the operations keep\<close>

definition schedule_keys :: "schedule list \<Rightarrow> (string \<times> string) list" where
  "schedule_keys srows = map (\<lambda>c. (sc_id c, sc_groupId c)) srows"

definition unique_keys :: "(string \<times> string) list \<Rightarrow> bool" where
  "unique_keys ks \<longleftrightarrow> distinct (map fst ks) \<and> distinct (map snd ks)"

text \<open>The invariant, with the rows \<open>K\<close> that a call leaves alone and the keys of the schedules.\<close>

definition kept ::
  "('s \<Rightarrow> schedule list) \<Rightarrow> ('s \<Rightarrow> payment_window list) \<Rightarrow> payment_window set \<Rightarrow> (string \<times> string) list \<Rightarrow> 's \<Rightarrow> bool" where
  "kept ss ws K ks s \<longleftrightarrow> windows_ok (ws s) \<and> schedule_keys (ss s) = ks \<and> unique_keys ks \<and> K \<subseteq> set (ws s)"

lemma query_spec:
  assumes "query_law ss ws m answer"
  shows "js_spec (\<lambda>s. kept ss ws K ks s \<and> F (ss s) (ws s)) m
       (\<lambda>r s. kept ss ws K ks s \<and> F (ss s) (ws s) \<and> answer (ss s) (ws s) r) (kept ss ws K ks)"
proof (rule js_specI)
  fix s x s'
  assume P: "kept ss ws K ks s \<and> F (ss s) (ws s)" and run: "m s = (x, s')"
  note law = assms [unfolded query_law_def, rule_format, OF run]
  show "js_outcome (kept ss ws K ks) (\<lambda>r s. kept ss ws K ks s \<and> F (ss s) (ws s) \<and> answer (ss s) (ws s) r) (x, s')"
    using P law by (cases x) (simp_all add: kept_def)
qed

lemma change_spec:
  assumes "change_law ss ws m effect"
    and "\<And>srows wrows r srows' wrows'. effect srows wrows r srows' wrows' \<Longrightarrow> P srows wrows \<Longrightarrow> Q r srows' wrows'"
    and "\<And>s. P (ss s) (ws s) \<Longrightarrow> E s" and "\<And>s s'. ss s' = ss s \<Longrightarrow> ws s' = ws s \<Longrightarrow> E s \<Longrightarrow> E s'"
  shows "js_spec (\<lambda>s. P (ss s) (ws s)) m (\<lambda>r s. Q r (ss s) (ws s)) E"
proof (rule js_specI)
  fix s x s' assume P: "P (ss s) (ws s)" and run: "m s = (x, s')"
  show "js_outcome E (\<lambda>r s. Q r (ss s) (ws s)) (x, s')"
  proof (cases x)
    case (Inl e)
    then have "ss s' = ss s" "ws s' = ws s" using assms(1) run unfolding change_law_def by force+
    then show ?thesis using Inl assms(3) [OF P] assms(4) by simp
  next
    case (Inr r)
    then have "effect (ss s) (ws s) r (ss s') (ws s')" using assms(1) run unfolding change_law_def by force
    then show ?thesis using Inr assms(2) P by simp
  qed
qed

lemma schedule_lawsD:
  assumes "schedule_laws S ss ws"
  shows "query_law ss ws (sd_groupExists S g) (\<lambda>_ _ _. True)"
    and "query_law ss ws (sd_findSchedule S g) (\<lambda>srows _ r. r = find (\<lambda>c. sc_groupId c = g) srows)"
    and "query_law ss ws (sd_lastWindow S sid) (\<lambda>_ wrows r. is_last_window sid wrows r)"
    and "query_law ss ws (sd_liveWindows S) live_pairs"
    and "change_law ss ws (sd_createSchedule S d) (\<lambda>srows wrows r srows' wrows'.
        srows' = srows @ [r] \<and> wrows' = wrows \<and> r = d\<lparr>sc_id := sc_id r\<rparr> \<and> sc_id r \<notin> sc_id ` set srows \<and>
        sc_groupId r \<notin> sc_groupId ` set srows \<and> of_schedule (sc_id r) wrows = [])"
    and "change_law ss ws (sd_updateSchedule S g f) (\<lambda>srows wrows r srows' wrows'.
        srows' = map (\<lambda>c. if sc_groupId c = g then f c else c) srows \<and> wrows' = wrows \<and>
        (\<exists>c \<in> set srows. sc_groupId c = g \<and> r = f c))"
    and "change_law ss ws (sd_createWindow S w) (\<lambda>srows wrows r srows' wrows'.
        srows' = srows \<and> wrows' = wrows @ [r] \<and> r = w\<lparr>pw_id := pw_id r\<rparr> \<and> pw_id r \<notin> pw_id ` set wrows)"
    and "change_law ss ws (sd_setStatus S P st) (\<lambda>srows wrows r srows' wrows'.
        srows' = srows \<and> wrows' = set_status P st wrows)"
  using assms unfolding schedule_laws_def set_status_def by blast+

lemma kept_cong: "ss s' = ss s \<Longrightarrow> ws s' = ws s \<Longrightarrow> kept ss ws K ks s \<Longrightarrow> kept ss ws K ks s'"
  by (simp add: kept_def)

definition none_live :: "string \<Rightarrow> payment_window list \<Rightarrow> bool" where
  "none_live sid rows \<longleftrightarrow> (\<forall>w \<in> set (of_schedule sid rows). \<not> live w)"

text \<open>The table part of \<open>kept\<close>, as a relation on the two tables.\<close>

definition kept_rows :: "payment_window set \<Rightarrow> (string \<times> string) list \<Rightarrow> schedule list \<Rightarrow> payment_window list \<Rightarrow> bool" where
  "kept_rows K ks srows wrows \<longleftrightarrow> windows_ok wrows \<and> schedule_keys srows = ks \<and> unique_keys ks \<and> K \<subseteq> set wrows"

lemma kept_rows: "kept ss ws K ks s \<longleftrightarrow> kept_rows K ks (ss s) (ws s)"
  by (simp add: kept_def kept_rows_def)

text \<open>Opening a window for a schedule that has no live one.\<close>

lemma open_next_window_spec:
  assumes "schedule_laws S ss ws"
  shows "js_spec (\<lambda>s. kept ss ws K ks s \<and> none_live (sc_id c) (ws s)) (open_next_window S c)
    (\<lambda>_. kept ss ws K ks) (kept ss ws K ks)"
  unfolding open_next_window_def
proof (rule js_spec_then [OF query_spec [OF schedule_lawsD(3) [OF assms], where F = "\<lambda>_. none_live (sc_id c)"]],
       rule js_specI)
  fix last_window :: "payment_window option" and s x s'
  let ?d = "\<lambda>s. \<lparr>pw_id = [], pw_scheduleId = sc_id c,
          pw_cycleNumber = (case last_window of None \<Rightarrow> 0 | Some w \<Rightarrow> pw_cycleNumber w) + 1,
          pw_opensAt = sd_now S s, pw_dueAt = sc_nextDueDate c,
          pw_closesAt = (if sc_paymentWindowHours c > 0
                         then Some (add_hours (sc_nextDueDate c) (sc_paymentWindowHours c)) else None),
          pw_status = WindowOpen\<rparr>"
  assume pre: "kept ss ws K ks s \<and> none_live (sc_id c) (ws s) \<and> is_last_window (sc_id c) (ws s) last_window"
    and run: "sd_createWindow S (?d s) s = (x, s')"
  note law = schedule_lawsD(7) [OF assms, unfolded change_law_def, rule_format, OF run]
  show "js_outcome (kept ss ws K ks) (\<lambda>_. kept ss ws K ks) (x, s')"
  proof (cases x)
    case (Inl e)
    then show ?thesis using law pre by (simp add: kept_def)
  next
    case (Inr r)
    then have r: "ss s' = ss s" "ws s' = ws s @ [r]" "r = (?d s)\<lparr>pw_id := pw_id r\<rparr>" "pw_id r \<notin> pw_id ` set (ws s)"
      using law by simp_all
    then have "pw_scheduleId r = sc_id c"
      "pw_cycleNumber r = (case last_window of None \<Rightarrow> 0 | Some w \<Rightarrow> pw_cycleNumber w) + 1"
      by (metis payment_window.select_convs(2,3) payment_window.update_convs(1))+
    then have "windows_ok (ws s @ [r])"
      using windows_ok_append [of "ws s" r] windows_ok_last [of "ws s" "sc_id c" last_window] pre r(4)
      by (simp add: kept_def none_live_def)
    then show ?thesis using Inr r pre by (auto simp: kept_def)
  qed
qed

lemma set_status_spec:
  assumes "schedule_laws S ss ws"
    and "\<And>srows wrows. kept_rows K ks srows wrows \<Longrightarrow> F srows wrows \<Longrightarrow>
      kept_rows K' ks srows (set_status P st wrows) \<and> G srows (set_status P st wrows)"
    and "K' \<subseteq> K"
  shows "js_spec (\<lambda>s. kept ss ws K ks s \<and> F (ss s) (ws s)) (sd_setStatus S P st)
    (\<lambda>_ s. kept ss ws K' ks s \<and> G (ss s) (ws s)) (kept ss ws K' ks)"
  unfolding kept_rows
proof (rule change_spec [OF schedule_lawsD(8) [OF assms(1)], where P = "\<lambda>srows wrows. kept_rows K ks srows wrows \<and> F srows wrows"
      and Q = "\<lambda>_ srows wrows. kept_rows K' ks srows wrows \<and> G srows wrows"])
  show "\<And>s. kept_rows K ks (ss s) (ws s) \<and> F (ss s) (ws s) \<Longrightarrow> kept_rows K' ks (ss s) (ws s)"
    using assms(3) unfolding kept_rows_def by auto
qed (use assms(2) in auto)

lemma none_live_closed:
  "none_live sid (set_status (\<lambda>w. pw_scheduleId w = sid \<and> live w) WindowClosed rows)"
proof -
  have "\<not> live v" if "v \<in> set (set_status (\<lambda>w. pw_scheduleId w = sid \<and> live w) WindowClosed (of_schedule sid rows))" for v
  proof -
    obtain w where "w \<in> set (of_schedule sid rows)"
        "v = (if pw_scheduleId w = sid \<and> live w then w\<lparr>pw_status := WindowClosed\<rparr> else w)"
      using \<open>v \<in> _\<close> unfolding set_status_def by auto
    then show ?thesis by (cases "live w") (simp_all add: of_schedule_def live_def)
  qed
  then show ?thesis unfolding none_live_def of_schedule_set_status by blast
qed

lemma map_if_keys:
  assumes "\<And>c. sc_id (f c) = sc_id c \<and> sc_groupId (f c) = sc_groupId c"
  shows "schedule_keys (map (\<lambda>c. if sc_groupId c = g then f c else c) srows) = schedule_keys srows"
  by (simp add: schedule_keys_def assms comp_def if_distrib [of sc_id] if_distrib [of sc_groupId])

lemma group_key_unique:
  assumes "unique_keys ks" and "(i, g) \<in> set ks" and "(j, g) \<in> set ks"
  shows "i = j"
  using assms eq_key_imp_eq_value [of "map prod.swap ks" g i j] by (auto simp: unique_keys_def comp_def)

lemma keys_of: "c \<in> set srows \<Longrightarrow> (sc_id c, sc_groupId c) \<in> set (schedule_keys srows)"
  by (auto simp: schedule_keys_def)

lemma find_group: "find (\<lambda>c. sc_groupId c = g) srows = Some c \<Longrightarrow> c \<in> set srows \<and> sc_groupId c = g"
  by (auto simp: find_Some_iff)

lemma update_schedule_spec:
  assumes "schedule_laws S ss ws" and "\<And>c. sc_id (f c) = sc_id c \<and> sc_groupId (f c) = sc_groupId c"
    and "(sid, g) \<in> set ks"
  shows "js_spec (\<lambda>s. kept ss ws K ks s \<and> none_live sid (ws s)) (sd_updateSchedule S g f)
    (\<lambda>r s. kept ss ws K ks s \<and> none_live sid (ws s) \<and> sc_id r = sid) (kept ss ws K ks)"
  unfolding kept_rows
proof (rule change_spec [OF schedule_lawsD(6) [OF assms(1)],
      where P = "\<lambda>srows wrows. kept_rows K ks srows wrows \<and> none_live sid wrows"
        and Q = "\<lambda>r srows wrows. kept_rows K ks srows wrows \<and> none_live sid wrows \<and> sc_id r = sid"])
  fix srows wrows r srows' wrows'
  assume e: "srows' = map (\<lambda>c. if sc_groupId c = g then f c else c) srows \<and> wrows' = wrows \<and>
        (\<exists>c \<in> set srows. sc_groupId c = g \<and> r = f c)"
    and P: "kept_rows K ks srows wrows \<and> none_live sid wrows"
  then obtain c where c: "c \<in> set srows" "sc_groupId c = g" "r = f c" by blast
  have "(sc_id c, g) \<in> set ks" using keys_of [OF c(1)] c(2) P by (simp add: kept_rows_def)
  then have "sc_id c = sid" using group_key_unique P assms(3) by (auto simp: kept_rows_def)
  then show "kept_rows K ks srows' wrows' \<and> none_live sid wrows' \<and> sc_id r = sid"
    using e P c(3) assms(2) by (simp add: kept_rows_def map_if_keys)
qed auto

text \<open>Advancing a cycle: the rows of other schedules stay as they are.\<close>

lemma close_windows_rows:
  assumes "kept_rows K ks srows wrows" and "\<And>w. w \<in> K \<Longrightarrow> pw_scheduleId w \<noteq> sid"
  shows "kept_rows K ks srows (set_status (\<lambda>w. pw_scheduleId w = sid \<and> live w) WindowClosed wrows) \<and>
    none_live sid (set_status (\<lambda>w. pw_scheduleId w = sid \<and> live w) WindowClosed wrows)"
proof -
  have "w \<in> set (set_status (\<lambda>w. pw_scheduleId w = sid \<and> live w) WindowClosed wrows)" if "w \<in> K" for w
    using that assms(2) [OF that] assms(1) by (force simp: kept_rows_def set_status_def)
  then show ?thesis
    using assms(1) windows_ok_set_status [of wrows WindowClosed] none_live_closed by (auto simp: kept_rows_def)
qed

lemma next_cycle_spec:
  assumes "schedule_laws S ss ws" and "\<And>w. w \<in> K \<Longrightarrow> pw_scheduleId w \<noteq> sc_id c" and "(sc_id c, g) \<in> set ks"
  shows "js_spec (kept ss ws K ks) (next_cycle S g c) (\<lambda>_. kept ss ws K ks) (kept ss ws K ks)"
  unfolding next_cycle_def
proof (rule js_spec_then [OF js_spec_pre [OF set_status_spec [OF assms(1), where F = "\<lambda>_ _. True"
        and G = "\<lambda>_. none_live (sc_id c)" and K' = K and K = K]]])
  let ?I = "\<lambda>s. kept ss ws K ks s \<and> none_live (sc_id c) (ws s)"
  show "js_spec ?I
      (js_then (js_pure (advance_date (sd_addMonth S) (sc_nextDueDate c) (sc_frequency c) (sc_intervalDays c)))
        (\<lambda>newNextDueDate. js_then (sd_updateSchedule S g (\<lambda>c. c\<lparr>sc_nextDueDate := newNextDueDate\<rparr>)) (\<lambda>updated.
           js_then (open_next_window S updated) (\<lambda>_. js_return updated))))
      (\<lambda>_. kept ss ws K ks) (kept ss ws K ks)"
  proof (rule js_spec_then [where R = "\<lambda>_. ?I"])
    fix newNextDueDate
    show "js_spec ?I (js_then (sd_updateSchedule S g (\<lambda>c. c\<lparr>sc_nextDueDate := newNextDueDate\<rparr>)) (\<lambda>updated.
           js_then (open_next_window S updated) (\<lambda>_. js_return updated))) (\<lambda>_. kept ss ws K ks) (kept ss ws K ks)"
      by (rule js_spec_then [OF update_schedule_spec [OF assms(1) _ assms(3)]
            js_spec_then [OF js_spec_pre [OF open_next_window_spec [OF assms(1)]] js_spec_return]]) auto
  qed (rule js_spec_pure, auto)
qed (use close_windows_rows [OF _ assms(2)] in auto)

lemma advance_cycle_spec:
  assumes "schedule_laws S ss ws" and "\<And>sid w. (sid, g) \<in> set ks \<Longrightarrow> w \<in> K \<Longrightarrow> pw_scheduleId w \<noteq> sid"
  shows "js_spec (kept ss ws K ks) (advance_cycle S g) (\<lambda>_. kept ss ws K ks) (kept ss ws K ks)"
  unfolding advance_cycle_def
proof (rule js_spec_then [OF js_spec_pre [OF query_spec [OF schedule_lawsD(2) [OF assms(1)], where F = "\<lambda>_ _. True"]]])
  fix found
  show "js_spec (\<lambda>s. kept ss ws K ks s \<and> True \<and> found = find (\<lambda>c. sc_groupId c = g) (ss s))
     (case found of None \<Rightarrow> js_throw (ScheduleNotFound g)
      | Some sched \<Rightarrow> if \<not> sc_isActive sched then js_return sched else next_cycle S g sched)
     (\<lambda>_. kept ss ws K ks) (kept ss ws K ks)"
  proof (cases found)
    case None
    then show ?thesis by (simp add: js_spec_def)
  next
    case (Some c)
    have "js_spec (\<lambda>s. kept ss ws K ks s \<and> (sc_id c, g) \<in> set ks)
        (if \<not> sc_isActive c then js_return c else next_cycle S g c) (\<lambda>_. kept ss ws K ks) (kept ss ws K ks)"
      using next_cycle_spec [OF assms(1), of K c g ks] assms(2)
      by (intro js_spec_fact) (simp add: js_spec_return)
    then show ?thesis unfolding Some option.case
    proof (rule js_spec_pre)
      fix s assume s: "kept ss ws K ks s \<and> True \<and> Some c = find (\<lambda>c. sc_groupId c = g) (ss s)"
      then have "c \<in> set (ss s)" "sc_groupId c = g" using find_group [of g "ss s" c] by simp_all
      then show "kept ss ws K ks s \<and> (sc_id c, g) \<in> set ks" using s keys_of [of c "ss s"] by (simp add: kept_def)
    qed
  qed
qed auto

lemma mark_window_rows:
  assumes "kept_rows (insert win K) ks srows wrows" and "\<And>w. w \<in> K \<Longrightarrow> pw_scheduleId w \<noteq> pw_scheduleId win"
    and "st = WindowMissed \<or> live win"
  shows "kept_rows K ks srows (set_status (\<lambda>w. pw_id w = pw_id win) st wrows)"
proof -
  have ids: "inj_on pw_id (set wrows)" and win: "win \<in> set wrows"
    using assms(1) by (auto simp: kept_rows_def windows_ok_def distinct_map)
  have only: "w = win" if "w \<in> set wrows" "pw_id w = pw_id win" for w
    using inj_onD [OF ids that(2) that(1) win] .
  have "w \<in> set (set_status (\<lambda>w. pw_id w = pw_id win) st wrows)" if "w \<in> K" for w
  proof -
    have w: "w \<in> set wrows" using that assms(1) by (auto simp: kept_rows_def)
    then have "pw_id w \<noteq> pw_id win" using only [OF w] assms(2) [OF that] by auto
    then show ?thesis using w by (force simp: set_status_def)
  qed
  moreover have "windows_ok (set_status (\<lambda>w. pw_id w = pw_id win) st wrows)"
    using assms(1,3) only by (intro windows_ok_set_status) (auto simp: kept_rows_def)
  ultimately show ?thesis using assms(1) by (auto simp: kept_rows_def)
qed

lemma enforce_window_spec:
  assumes "schedule_laws S ss ws" and "\<And>w. w \<in> K \<Longrightarrow> pw_scheduleId w \<noteq> pw_scheduleId win" and "live win"
    and "sc_id c = pw_scheduleId win" and "(sc_id c, sc_groupId c) \<in> set ks"
  shows "js_spec (kept ss ws (insert win K) ks) (enforce_window S now win c counts)
    (\<lambda>_. kept ss ws K ks) (kept ss ws K ks)"
proof -
  obtain graced missed where counts: "counts = (graced, missed)" by (rule prod.exhaust)
  have weaken: "\<And>s. kept ss ws (insert win K) ks s \<Longrightarrow> kept ss ws K ks s" by (simp add: kept_def)
  have mark: "js_spec (kept ss ws (insert win K) ks) (sd_setStatus S (\<lambda>w. pw_id w = pw_id win) st)
      (\<lambda>_ s. kept ss ws K ks s) (kept ss ws K ks)" for st
    by (rule js_spec_post [OF js_spec_pre [OF set_status_spec [OF assms(1), where F = "\<lambda>_ _. True"
            and G = "\<lambda>_ _. True" and K' = K and K = "insert win K"]]])
       (use mark_window_rows [OF _ assms(2)] assms(3) in auto)
  have advance: "js_spec (kept ss ws K ks) (advance_cycle S (sc_groupId c)) (\<lambda>_. kept ss ws K ks) (kept ss ws K ks)"
  proof (cases "unique_keys ks")
    case True
    then show ?thesis
      using group_key_unique [OF True _ assms(5)] assms(2,4) by (intro advance_cycle_spec [OF assms(1)]) metis
  next
    case False
    then show ?thesis by (simp add: js_spec_def kept_def)
  qed
  show ?thesis
    unfolding enforce_window_def counts prod.case Let_def
    by (intro js_spec_if)
       (auto intro!: js_spec_return js_spec_then [OF js_spec_pre [OF mark]] js_spec_then [OF advance] weaken)
qed

lemma enforce_windows_spec:
  assumes "schedule_laws S ss ws" and "distinct (map (pw_scheduleId \<circ> fst) pairs)"
    and "\<And>w c. (w, c) \<in> set pairs \<Longrightarrow> live w \<and> sc_id c = pw_scheduleId w \<and> (sc_id c, sc_groupId c) \<in> set ks"
  shows "js_spec (kept ss ws (set (map fst pairs)) ks) (enforce_windows S now pairs counts)
    (\<lambda>_. kept ss ws {} ks) (kept ss ws {} ks)"
  using assms(2,3)
proof (induction pairs arbitrary: counts)
  case Nil
  then show ?case by (simp add: js_spec_def)
next
  case (Cons p pairs)
  obtain w c where p: "p = (w, c)" by (rule prod.exhaust)
  have other: "pw_scheduleId v \<noteq> pw_scheduleId w" if "v \<in> set (map fst pairs)" for v
    using that Cons.prems(1) p by force
  have head: "live w" "sc_id c = pw_scheduleId w" "(sc_id c, sc_groupId c) \<in> set ks"
    using Cons.prems(2) [of w c] p by auto
  have "js_spec (kept ss ws (insert w (set (map fst pairs))) ks) (enforce_window S now w c counts)
      (\<lambda>_. kept ss ws (set (map fst pairs)) ks) (kept ss ws {} ks)"
    by (rule js_spec_post [OF enforce_window_spec [OF assms(1) other head]]) (auto simp: kept_def)
  moreover have "\<And>counts. js_spec (kept ss ws (set (map fst pairs)) ks) (enforce_windows S now pairs counts)
      (\<lambda>_. kept ss ws {} ks) (kept ss ws {} ks)"
    by (rule Cons.IH) (use Cons.prems in auto)
  ultimately show ?case using js_spec_then by (fastforce simp: p)
qed

lemma enforce_grace_periods_spec:
  assumes "schedule_laws S ss ws"
  shows "js_spec (kept ss ws {} ks) (enforce_grace_periods S) (\<lambda>_. kept ss ws {} ks) (kept ss ws {} ks)"
proof (rule js_specI)
  fix s x s' assume I: "kept ss ws {} ks s" and run: "enforce_grace_periods S s = (x, s')"
  let ?now = "sd_now S s"
  have "js_spec (kept ss ws {} ks) (js_then (sd_liveWindows S) (\<lambda>pairs. enforce_windows S ?now pairs (0, 0)))
      (\<lambda>_. kept ss ws {} ks) (kept ss ws {} ks)"
  proof (rule js_spec_then [OF js_spec_pre [OF query_spec [OF schedule_lawsD(4) [OF assms], where F = "\<lambda>_ _. True"]]])
    fix pairs :: "(payment_window \<times> schedule) list"
    show "js_spec (\<lambda>s. kept ss ws {} ks s \<and> True \<and> live_pairs (ss s) (ws s) pairs)
        (enforce_windows S ?now pairs (0, 0)) (\<lambda>_. kept ss ws {} ks) (kept ss ws {} ks)"
    proof (rule js_specI)
      fix s x s'
      assume P: "kept ss ws {} ks s \<and> True \<and> live_pairs (ss s) (ws s) pairs"
        and run: "enforce_windows S ?now pairs (0, 0) s = (x, s')"
      have rows: "distinct (map fst pairs)" "set (map fst pairs) = {w \<in> set (ws s). live w}"
        "\<And>w c. (w, c) \<in> set pairs \<Longrightarrow> c \<in> set (ss s) \<and> sc_id c = pw_scheduleId w"
        using P by (auto simp: live_pairs_def)
      have "inj_on pw_scheduleId (set (map fst pairs))"
        using windows_ok_live_unique P unfolding rows(2) inj_on_def by (auto simp: kept_def)
      then have "distinct (map pw_scheduleId (map fst pairs))" using rows(1) by (simp only: distinct_map)
      then have d: "distinct (map (pw_scheduleId \<circ> fst) pairs)" by simp
      have all: "live w \<and> sc_id c = pw_scheduleId w \<and> (sc_id c, sc_groupId c) \<in> set ks" if "(w, c) \<in> set pairs" for w c
      proof -
        have "w \<in> set (map fst pairs)" using that by force
        then show ?thesis using rows(2) rows(3) [OF that] keys_of [of c "ss s"] P by (auto simp: kept_def)
      qed
      have "kept ss ws (set (map fst pairs)) ks s" using P rows(2) by (auto simp: kept_def)
      from js_specD [OF enforce_windows_spec [OF assms d all] this run]
      show "js_outcome (kept ss ws {} ks) (\<lambda>_. kept ss ws {} ks) (x, s')" .
    qed
  qed auto
  from js_specD [OF this I run [unfolded enforce_grace_periods_def]]
  show "js_outcome (kept ss ws {} ks) (\<lambda>_. kept ss ws {} ks) (x, s')" .
qed

text \<open>With the keys left open: what creating and updating a schedule keep as well.\<close>

definition tables_ok :: "('s \<Rightarrow> schedule list) \<Rightarrow> ('s \<Rightarrow> payment_window list) \<Rightarrow> 's \<Rightarrow> bool" where
  "tables_ok ss ws s \<longleftrightarrow> kept ss ws {} (schedule_keys (ss s)) s"

lemma tables_ok_of: "kept ss ws {} ks s \<Longrightarrow> tables_ok ss ws s"
  by (simp add: tables_ok_def kept_def)

lemma tables_ok_rows: "tables_ok ss ws s \<longleftrightarrow> kept_rows {} (schedule_keys (ss s)) (ss s) (ws s)"
  by (simp add: tables_ok_def kept_rows)

lemma keeps_tables:
  assumes "\<And>ks. js_spec (\<lambda>s. kept ss ws {} ks s \<and> F s) m (\<lambda>_. kept ss ws {} ks) (kept ss ws {} ks)"
  shows "js_spec (\<lambda>s. tables_ok ss ws s \<and> F s) m (\<lambda>_. tables_ok ss ws) (tables_ok ss ws)"
proof (rule js_specI)
  fix s x s' assume P: "tables_ok ss ws s \<and> F s" and m: "m s = (x, s')"
  then have I: "kept ss ws {} (schedule_keys (ss s)) s \<and> F s" by (simp add: tables_ok_def)
  from js_specD [OF assms I m] show "js_outcome (tables_ok ss ws) (\<lambda>_. tables_ok ss ws) (x, s')"
    using tables_ok_of by (cases x) auto
qed

lemma query_keeps:
  assumes "query_law ss ws m answer"
  shows "js_spec (tables_ok ss ws) m (\<lambda>_. tables_ok ss ws) (tables_ok ss ws)"
  by (rule js_spec_pre [OF keeps_tables [where F = "\<lambda>_. True"]])
     (rule js_spec_post [OF query_spec [OF assms, where F = "\<lambda>_ _. True"]], auto)

lemma next_due_keeps: "js_spec (tables_ok ss ws) (next_due S startDate frequency days) (\<lambda>_. tables_ok ss ws) (tables_ok ss ws)"
  unfolding js_spec_def
proof (intro allI impI)
  fix s assume "tables_ok ss ws s"
  then show "js_outcome (tables_ok ss ws) (\<lambda>_. tables_ok ss ws) (next_due S startDate frequency days s)"
    by (cases "fst (next_due S startDate frequency days s)")
       (simp_all add: next_due_def split: option.splits)
qed

lemma create_schedule_keeps:
  assumes "schedule_laws S ss ws"
  shows "js_spec (tables_ok ss ws) (create_schedule S g input) (\<lambda>_. tables_ok ss ws) (tables_ok ss ws)"
proof -
  have row: "js_spec (tables_ok ss ws) (sd_createSchedule S d)
      (\<lambda>r s. tables_ok ss ws s \<and> none_live (sc_id r) (ws s)) (tables_ok ss ws)" for d
    unfolding tables_ok_rows
    by (rule change_spec [OF schedule_lawsD(5) [OF assms],
          where P = "\<lambda>srows wrows. kept_rows {} (schedule_keys srows) srows wrows"
            and Q = "\<lambda>r srows wrows. kept_rows {} (schedule_keys srows) srows wrows \<and> none_live (sc_id r) wrows"])
       (auto simp: kept_rows_def schedule_keys_def unique_keys_def none_live_def comp_def)
  have window: "js_spec (\<lambda>s. tables_ok ss ws s \<and> none_live (sc_id c) (ws s)) (open_next_window S c)
      (\<lambda>_. tables_ok ss ws) (tables_ok ss ws)" for c
    by (rule keeps_tables [OF open_next_window_spec [OF assms]])
  note then_query = js_spec_then [OF query_keeps [OF schedule_lawsD(1) [OF assms]]]
    js_spec_then [OF query_keeps [OF schedule_lawsD(2) [OF assms]]] js_spec_then [OF next_due_keeps]
  show ?thesis
    unfolding create_schedule_def
    by (rule then_query(1), rule js_spec_if, rule js_spec_throw, simp, rule js_spec_pre [OF then_query(2)], rule js_spec_if,
        rule js_spec_throw, simp, rule js_spec_pre [OF then_query(3)], rule js_spec_then [OF row],
        rule js_spec_then [OF window], rule js_spec_return, simp_all)
qed

lemma update_schedule_keeps:
  assumes "schedule_laws S ss ws"
  shows "js_spec (tables_ok ss ws) (update_schedule S g input) (\<lambda>_. tables_ok ss ws) (tables_ok ss ws)"
proof -
  have row: "js_spec (tables_ok ss ws) (sd_updateSchedule S g f) (\<lambda>_. tables_ok ss ws) (tables_ok ss ws)"
    if "\<And>c. sc_id (f c) = sc_id c \<and> sc_groupId (f c) = sc_groupId c" for f
    unfolding tables_ok_rows
    by (rule change_spec [OF schedule_lawsD(6) [OF assms],
          where P = "\<lambda>srows wrows. kept_rows {} (schedule_keys srows) srows wrows"
            and Q = "\<lambda>r srows wrows. kept_rows {} (schedule_keys srows) srows wrows"])
       (auto simp: kept_rows_def map_if_keys [OF that])
  have due: "js_spec (tables_ok ss ws) (if b then next_due S a f n else js_return d) (\<lambda>_. tables_ok ss ws) (tables_ok ss ws)"
    for b a f n d
    using next_due_keeps by (auto intro: js_spec_return)
  show ?thesis
    unfolding update_schedule_def
  proof (rule js_spec_then [OF query_keeps [OF schedule_lawsD(2) [OF assms]]])
    fix found
    show "js_spec (tables_ok ss ws) (case found of None \<Rightarrow> js_throw (ScheduleNotFound g)
       | Some existing \<Rightarrow>
           let frequency = get_or (sc_frequency existing) (sx_frequency input);
               intervalDays = (case sx_intervalDays input of None \<Rightarrow> sc_intervalDays existing | Some n \<Rightarrow> Some n);
               startDate = get_or (sc_startDate existing) (sx_startDate input);
               scheduleChanged = sx_frequency input \<noteq> None \<or> sx_intervalDays input \<noteq> None \<or> sx_startDate input \<noteq> None
           in js_then (if scheduleChanged then next_due S startDate frequency intervalDays
                       else js_return (sc_nextDueDate existing)) (\<lambda>nextDueDate.
                sd_updateSchedule S g (\<lambda>c. c\<lparr>
                  sc_frequency := frequency, sc_intervalDays := intervalDays,
                  sc_gracePeriodHours := get_or (sc_gracePeriodHours existing) (sx_gracePeriodHours input),
                  sc_paymentWindowHours := get_or (sc_paymentWindowHours existing) (sx_paymentWindowHours input),
                  sc_startDate := startDate, sc_nextDueDate := nextDueDate,
                  sc_isActive := get_or (sc_isActive c) (sx_isActive input)\<rparr>)))
       (\<lambda>_. tables_ok ss ws) (tables_ok ss ws)"
    proof (cases found)
      case None
      then show ?thesis by (simp add: js_spec_def)
    next
      case (Some existing)
      show ?thesis unfolding Some option.case Let_def
        by (rule js_spec_then [OF due row]) simp
    qed
  qed
qed

section \<open>Runs\<close>

datatype schedule_request =
    CreateSchedule string schedule_input
  | UpdateSchedule string schedule_changes
  | AdvanceCycle string
  | EnforceGrace

fun schedule_call :: "'s schedule_db \<Rightarrow> schedule_request \<Rightarrow> 's \<Rightarrow> 's" where
  "schedule_call S (CreateSchedule g input) s = snd (create_schedule S g input s)"
| "schedule_call S (UpdateSchedule g input) s = snd (update_schedule S g input s)"
| "schedule_call S (AdvanceCycle g) s = snd (advance_cycle S g s)"
| "schedule_call S EnforceGrace s = snd (enforce_grace_periods S s)"

lemma spec_keeps: "js_spec (tables_ok ss ws) m (\<lambda>_. tables_ok ss ws) (tables_ok ss ws) \<Longrightarrow>
    tables_ok ss ws s \<Longrightarrow> tables_ok ss ws (snd (m s))"
proof -
  assume spec: "js_spec (tables_ok ss ws) m (\<lambda>_. tables_ok ss ws) (tables_ok ss ws)" and s: "tables_ok ss ws s"
  obtain x s' where m: "m s = (x, s')" by (rule prod.exhaust)
  from js_specD [OF spec s m] show "tables_ok ss ws (snd (m s))" using m by (cases x) simp_all
qed

lemma schedule_call_keeps:
  assumes "schedule_laws S ss ws" and "tables_ok ss ws s"
  shows "tables_ok ss ws (schedule_call S c s)"
proof -
  have any: "js_spec (tables_ok ss ws) m (\<lambda>_. tables_ok ss ws) (tables_ok ss ws)"
    if "\<And>ks. js_spec (kept ss ws {} ks) m (\<lambda>_. kept ss ws {} ks) (kept ss ws {} ks)" for m :: "('a, schedule_error, 'r) js_method"
    using keeps_tables [of ss ws "\<lambda>_. True" m] that by simp
  have advance: "js_spec (kept ss ws {} ks) (advance_cycle S g) (\<lambda>_. kept ss ws {} ks) (kept ss ws {} ks)" for g ks
    by (rule advance_cycle_spec [OF assms(1)]) simp
  show ?thesis
    by (cases c)
       (simp_all add: assms(2) spec_keeps [OF create_schedule_keeps [OF assms(1)]]
         spec_keeps [OF update_schedule_keeps [OF assms(1)]] spec_keeps [OF any [OF advance]]
         spec_keeps [OF any [OF enforce_grace_periods_spec [OF assms(1)]]])
qed

text \<open>
  C11. Whatever sequence of creations, updates, advances and grace runs, each of which may fail at any of
  its database calls: every schedule's windows are numbered 1, 2, 3, in the order they were opened,
  at most the last of them is open or in grace, and no window id occurs twice.
\<close>

theorem one_live_window:
  assumes "schedule_laws S ss ws" and "tables_ok ss ws s" and "rows = ws (fold (schedule_call S) calls s)"
  shows "map pw_cycleNumber (of_schedule sid rows) = [1 ..< length (of_schedule sid rows) + 1]
    \<and> length (filter live (of_schedule sid rows)) \<le> 1 \<and> distinct (map pw_id rows)"
proof -
  have "tables_ok ss ws (fold (schedule_call S) calls s)"
    using assms(2) by (induction calls arbitrary: s) (simp_all add: schedule_call_keeps [OF assms(1)])
  then have ok: "windows_ok rows" by (simp add: tables_ok_def kept_def assms(3))
  let ?W = "of_schedule sid rows"
  have "length (filter live ?W) \<le> 1"
  proof (cases "?W = []")
    case False
    have "filter live (butlast ?W) = []" using ok by (simp add: windows_ok_def filter_empty_conv)
    then have "filter live ?W = filter live [last ?W]"
      by (metis append_butlast_last_id [OF False] append_self_conv2 filter_append)
    then show ?thesis by simp
  qed simp
  then show ?thesis using ok by (simp add: windows_ok_def)
qed

text \<open>The two tables in memory, with a clock.\<close>

record memory_tables =
  mt_schedules :: "schedule list"
  mt_windows :: "payment_window list"
  mt_clock :: int

definition memory_create_schedule :: "schedule \<Rightarrow> (memory_tables, schedule_error, schedule) js_method" where
  "memory_create_schedule d m =
     (if sc_groupId d \<in> sc_groupId ` set (mt_schedules m) then (Inl (ScheduleDbError ''unique''), m)
      else let r = d\<lparr>sc_id := fresh_text (map sc_id (mt_schedules m) @ map pw_scheduleId (mt_windows m))\<rparr>
           in (Inr r, m\<lparr>mt_schedules := mt_schedules m @ [r]\<rparr>))"

definition memory_update_schedule :: "string \<Rightarrow> (schedule \<Rightarrow> schedule) \<Rightarrow> (memory_tables, schedule_error, schedule) js_method" where
  "memory_update_schedule g f m =
     (case find (\<lambda>c. sc_groupId c = g) (mt_schedules m) of
        None \<Rightarrow> (Inl (ScheduleDbError ''missing''), m)
      | Some c \<Rightarrow> (Inr (f c), m\<lparr>mt_schedules := map (\<lambda>c. if sc_groupId c = g then f c else c) (mt_schedules m)\<rparr>))"

definition memory_last_window :: "string \<Rightarrow> memory_tables \<Rightarrow> payment_window option" where
  "memory_last_window sid m =
     (case of_schedule sid (mt_windows m) of
        [] \<Rightarrow> None
      | w # ws \<Rightarrow> Some (fold (\<lambda>v u. if pw_cycleNumber u \<le> pw_cycleNumber v then v else u) ws w))"

definition memory_live_windows :: "memory_tables \<Rightarrow> (payment_window \<times> schedule) list option" where
  "memory_live_windows m =
     (let ws = remdups (filter live (mt_windows m))
      in if list_all (\<lambda>w. find (\<lambda>c. sc_id c = pw_scheduleId w) (mt_schedules m) \<noteq> None) ws
         then Some (map (\<lambda>w. (w, the (find (\<lambda>c. sc_id c = pw_scheduleId w) (mt_schedules m)))) ws) else None)"

definition memory_schedule_db :: "memory_tables schedule_db" where
  "memory_schedule_db = \<lparr>
     sd_now = mt_clock,
     sd_addMonth = (\<lambda>t. t + 2592000000),
     sd_groupExists = (\<lambda>g m. (Inr True, m)),
     sd_findSchedule = (\<lambda>g m. (Inr (find (\<lambda>c. sc_groupId c = g) (mt_schedules m)), m)),
     sd_createSchedule = memory_create_schedule,
     sd_updateSchedule = memory_update_schedule,
     sd_lastWindow = (\<lambda>sid m. (Inr (memory_last_window sid m), m)),
     sd_recentWindows = (\<lambda>sid n m. (Inr (take n (rev (of_schedule sid (mt_windows m)))), m)),
     sd_createWindow = (\<lambda>w m. let r = w\<lparr>pw_id := fresh_text (map pw_id (mt_windows m))\<rparr>
       in (Inr r, m\<lparr>mt_windows := mt_windows m @ [r]\<rparr>)),
     sd_setStatus = (\<lambda>P st m. (Inr (), m\<lparr>mt_windows := set_status P st (mt_windows m)\<rparr>)),
     sd_liveWindows = (\<lambda>m. (case memory_live_windows m of None \<Rightarrow> Inl (ScheduleDbError ''join'') | Some r \<Rightarrow> Inr r, m)),
     sd_findSchedules = (\<lambda>P m. (Inr (filter P (mt_schedules m)), m))\<rparr>"

lemma fold_later_window:
  "fold (\<lambda>v u. if pw_cycleNumber u \<le> pw_cycleNumber v then v else u) ws w \<in> set (w # ws) \<and>
   (\<forall>v \<in> set (w # ws). pw_cycleNumber v \<le>
      pw_cycleNumber (fold (\<lambda>v u. if pw_cycleNumber u \<le> pw_cycleNumber v then v else u) ws w))"
proof (induction ws arbitrary: w)
  case (Cons a ws)
  show ?case using Cons [of a] Cons [of w] by (auto intro: order_trans)
qed simp

lemma memory_last_window_last: "is_last_window sid (mt_windows m) (memory_last_window sid m)"
  using fold_later_window by (auto simp: is_last_window_def memory_last_window_def split: list.split)

lemma memory_live_windows_pairs:
  assumes "memory_live_windows m = Some r"
  shows "live_pairs (mt_schedules m) (mt_windows m) r"
proof -
  let ?f = "\<lambda>w. find (\<lambda>c. sc_id c = pw_scheduleId w) (mt_schedules m)"
  let ?ws = "remdups (filter live (mt_windows m))"
  have all: "\<forall>w \<in> set ?ws. ?f w \<noteq> None" and r: "r = map (\<lambda>w. (w, the (?f w))) ?ws"
    using assms by (auto simp: memory_live_windows_def Let_def list_all_iff split: if_splits)
  have "map fst r = ?ws" unfolding r by (simp add: comp_def)
  moreover have "c \<in> set (mt_schedules m) \<and> sc_id c = pw_scheduleId w" if p: "(w, c) \<in> set r" for w c
  proof -
    have "w \<in> set ?ws" "c = the (?f w)" using p unfolding r by auto
    then have "?f w = Some c" using all by auto
    then show ?thesis by (auto simp: find_Some_iff)
  qed
  ultimately show ?thesis by (auto simp: live_pairs_def)
qed

lemma memory_update_effect:
  assumes "memory_update_schedule g f m = (x, m')"
  shows "case x of Inl e \<Rightarrow> mt_schedules m' = mt_schedules m \<and> mt_windows m' = mt_windows m
    | Inr r \<Rightarrow> mt_schedules m' = map (\<lambda>c. if sc_groupId c = g then f c else c) (mt_schedules m) \<and>
        mt_windows m' = mt_windows m \<and> (\<exists>c \<in> set (mt_schedules m). sc_groupId c = g \<and> r = f c)"
proof (cases "find (\<lambda>c. sc_groupId c = g) (mt_schedules m)")
  case None
  then show ?thesis using assms by (auto simp: memory_update_schedule_def)
next
  case (Some c)
  then have "c \<in> set (mt_schedules m) \<and> sc_groupId c = g" by (rule find_group)
  moreover have "x = Inr (f c)" "m' = m\<lparr>mt_schedules := map (\<lambda>c. if sc_groupId c = g then f c else c) (mt_schedules m)\<rparr>"
    using assms unfolding memory_update_schedule_def Some by simp_all
  ultimately show ?thesis by simp blast
qed

lemma memory_schedule_laws: "schedule_laws memory_schedule_db mt_schedules mt_windows"
  unfolding schedule_laws_def
proof (intro conjI allI)
  show "query_law mt_schedules mt_windows (sd_liveWindows memory_schedule_db) live_pairs"
    using memory_live_windows_pairs
    by (auto simp: query_law_def memory_schedule_db_def split: option.splits)
  show "change_law mt_schedules mt_windows (sd_createSchedule memory_schedule_db d) (\<lambda>srows wrows r srows' wrows'.
        srows' = srows @ [r] \<and> wrows' = wrows \<and> r = d\<lparr>sc_id := sc_id r\<rparr> \<and> sc_id r \<notin> sc_id ` set srows \<and>
        sc_groupId r \<notin> sc_groupId ` set srows \<and> of_schedule (sc_id r) wrows = [])" for d
  proof -
    have fresh: "fresh_text (map sc_id srows @ map pw_scheduleId wrows) \<notin> sc_id ` set srows"
      "fresh_text (map sc_id srows @ map pw_scheduleId wrows) \<notin> pw_scheduleId ` set wrows"
      for srows :: "schedule list" and wrows :: "payment_window list"
      using fresh_text_fresh [of "map sc_id srows @ map pw_scheduleId wrows"] by auto
    have "pw_scheduleId w \<noteq> fresh_text (map sc_id srows @ map pw_scheduleId wrows)" if "w \<in> set wrows"
      for srows :: "schedule list" and wrows and w :: payment_window
      using fresh(2) [where srows = srows and wrows = wrows] that by (metis imageI)
    note fresh = fresh(1) this
    show ?thesis using fresh
      by (auto simp: change_law_def memory_schedule_db_def memory_create_schedule_def of_schedule_def filter_empty_conv Let_def
          split: if_splits)
  qed
  show "change_law mt_schedules mt_windows (sd_updateSchedule memory_schedule_db g f) (\<lambda>srows wrows r srows' wrows'.
        srows' = map (\<lambda>c. if sc_groupId c = g then f c else c) srows \<and> wrows' = wrows \<and>
        (\<exists>c \<in> set srows. sc_groupId c = g \<and> r = f c))" for g f
    using memory_update_effect by (simp add: change_law_def memory_schedule_db_def)
  show "change_law mt_schedules mt_windows (sd_createWindow memory_schedule_db d) (\<lambda>srows wrows r srows' wrows'.
        srows' = srows \<and> wrows' = wrows @ [r] \<and> r = d\<lparr>pw_id := pw_id r\<rparr> \<and> pw_id r \<notin> pw_id ` set wrows)" for d
  proof -
    have "fresh_text (map pw_id wrows) \<notin> pw_id ` set wrows" for wrows :: "payment_window list"
      using fresh_text_fresh [of "map pw_id wrows"] by simp
    then show ?thesis by (auto simp: change_law_def memory_schedule_db_def Let_def)
  qed
qed (auto simp: query_law_def change_law_def memory_schedule_db_def memory_last_window_last set_status_def)

definition sample_input :: schedule_input where
  "sample_input = \<lparr>si_frequency = ''WEEKLY'', si_intervalDays = None, si_gracePeriodHours = 24,
     si_paymentWindowHours = 72, si_startDate = 0\<rparr>"

definition empty_tables :: memory_tables where
  "empty_tables = \<lparr>mt_schedules = [], mt_windows = [], mt_clock = 0\<rparr>"

theorem one_live_window_witness:
  "length (filter live (of_schedule ''r''
     (mt_windows (fold (schedule_call memory_schedule_db)
        [CreateSchedule ''g1'' sample_input, AdvanceCycle ''g1'', EnforceGrace] empty_tables)))) \<le> 1"
proof -
  have "tables_ok mt_schedules mt_windows empty_tables"
    by (simp add: tables_ok_def kept_def empty_tables_def windows_ok_def of_schedule_def schedule_keys_def unique_keys_def)
  from one_live_window [OF memory_schedule_laws this refl] show ?thesis by blast
qed

end
