(* ===== verification/Payouts.thy ===== *)
theory Payouts
  imports JsPrelude
begin

text \<open>
  Payout scheduling, \<open>backend/src/services/payoutSchedulerService.ts\<close>: the scan of active groups, the
  choice of the recipient by the group's rotation algorithm, the queued payout jobs
  (\<open>queues/payoutQueue.ts\<close>) and the worker that carries one out (\<open>jobs/payoutJob.ts\<close>).

  The database, the job queue, the random source and the blockchain are fields of a record of
  operations on an abstract state; amounts are exact integers.
\<close>

section \<open>Data\<close>

datatype rotation = Sequential | RandomRotation | ContributionBased | VotingBased | UnknownRotation string

record payout_config =
  pc_groupId :: string
  pc_algorithm :: rotation
  pc_delayMs :: int
  pc_enabled :: bool

record payout_member =
  pm_userId :: string
  pm_walletAddress :: "string option"

text \<open>A group with its members; \<open>None\<close> is a column that is absent or null.\<close>

record payout_group =
  pg_id :: string
  pg_members :: "payout_member list"
  pg_cycleDeadline :: "int option"
  pg_nextPayoutAt :: "int option"
  pg_payoutIndex :: "int option"
  pg_currentRound :: "int option"
  pg_contributionAmount :: int

text \<open>The data of a job; its \<open>transactionHash\<close> is set nowhere.\<close>

record payout_job =
  pj_groupId :: string
  pj_recipientId :: string
  pj_recipientAddress :: string
  pj_amount :: int
  pj_currency :: string
  pj_cycleNumber :: int
  pj_priority :: "int option"

record job_options =
  jo_delay :: "int option"
  jo_priority :: "int option"
  jo_attempts :: "int option"

datatype payout_error = PayoutDbError string

datatype payout_outcome = PayoutScheduled | PayoutSkipped | PayoutFailed

record process_result =
  rs_scheduled :: nat
  rs_skipped :: nat
  rs_failed :: nat
  rs_details :: "(string \<times> payout_outcome \<times> string option) list"

text \<open>
  \<open>px_receivedIds\<close> are the recipients of the completed payouts of a group, \<open>px_anyPayout\<close> whether it
  has a completed or pending one, \<open>px_byContributions\<close> the given users by falling number of
  contributions, \<open>px_byVotes\<close> the users by falling number of payout votes of a round. \<open>px_add\<close> is
  \<open>queue.add\<close> with the id and the options that were set.
\<close>

record 's payout_env =
  px_now :: "'s \<Rightarrow> int"
  px_random :: "'s \<Rightarrow> rat \<times> 's"
  px_newJobId :: "'s \<Rightarrow> string \<times> 's"
  px_activeGroups :: "('s, payout_error, payout_group list) js_method"
  px_anyPayout :: "string \<Rightarrow> ('s, payout_error, bool) js_method"
  px_receivedIds :: "string \<Rightarrow> ('s, payout_error, string list) js_method"
  px_byContributions :: "string \<Rightarrow> string list \<Rightarrow> ('s, payout_error, string list) js_method"
  px_byVotes :: "string \<Rightarrow> int option \<Rightarrow> ('s, payout_error, string list) js_method"
  px_configRow :: "string \<Rightarrow> ('s, payout_error, payout_config option) js_method"
  px_saveConfig :: "payout_config \<Rightarrow> ('s, payout_error, unit) js_method"
  px_advanceIndex :: "string \<Rightarrow> ('s, payout_error, unit) js_method"
  px_logSkip :: "string \<Rightarrow> string \<Rightarrow> ('s, payout_error, unit) js_method"
  px_add :: "string \<Rightarrow> payout_job \<Rightarrow> job_options \<Rightarrow> ('s, payout_error, unit) js_method"
  px_describe :: "payout_error \<Rightarrow> string"

section \<open>The queue\<close>

text \<open>A delay of zero is falsy and not set.\<close>

definition job_opts :: "job_options \<Rightarrow> job_options" where
  "job_opts options = options\<lparr>jo_delay := (case jo_delay options of None \<Rightarrow> None | Some d \<Rightarrow> if d = 0 then None else Some d)\<rparr>"

definition add_payout_job :: "'s payout_env \<Rightarrow> payout_job \<Rightarrow> job_options \<Rightarrow> ('s, payout_error, string) js_method" where
  "add_payout_job X job options s =
     (case px_newJobId X s of
        (jobId, s1) \<Rightarrow> js_then (px_add X jobId job (job_opts options)) (\<lambda>_. js_return jobId) s1)"

text \<open>
  A batch starts all its additions in order, and \<open>Promise.all\<close> answers with a rejection when one of
  them is rejected; the others have been started all the same.
\<close>

fun start_adds :: "'s payout_env \<Rightarrow> (payout_job \<times> job_options) list \<Rightarrow> 's \<Rightarrow> (payout_error + string) list \<times> 's" where
  "start_adds X [] s = ([], s)"
| "start_adds X ((job, options) # payouts) s =
     (case add_payout_job X job options s of
        (answer, s') \<Rightarrow> (case start_adds X payouts s' of (answers, s'') \<Rightarrow> (answer # answers, s'')))"

fun all_settled :: "('e + 'a) list \<Rightarrow> 'e + 'a list" where
  "all_settled [] = Inr []"
| "all_settled (Inl e # answers) = Inl e"
| "all_settled (Inr x # answers) = (case all_settled answers of Inl e \<Rightarrow> Inl e | Inr xs \<Rightarrow> Inr (x # xs))"

definition add_batch_payout_jobs ::
  "'s payout_env \<Rightarrow> (payout_job \<times> job_options) list \<Rightarrow> ('s, payout_error, string list) js_method" where
  "add_batch_payout_jobs X payouts s = (case start_adds X payouts s of (answers, s') \<Rightarrow> (all_settled answers, s'))"

section \<open>Configuration\<close>

text \<open>The module's \<open>configStore\<close> is kept beside the outside state.\<close>

type_synonym 's scheduler = "(string, payout_config) jsmap \<times> 's"

definition default_payout_config :: "string \<Rightarrow> payout_config" where
  "default_payout_config groupId = \<lparr>pc_groupId = groupId, pc_algorithm = Sequential, pc_delayMs = 0, pc_enabled = True\<rparr>"

definition get_config :: "'s payout_env \<Rightarrow> (string, payout_config) jsmap \<Rightarrow> string \<Rightarrow> 's \<Rightarrow> payout_config \<times> 's" where
  "get_config X configStore groupId s =
     (case js_get configStore groupId of
        Some config \<Rightarrow> (config, s)
      | None \<Rightarrow>
          (case px_configRow X groupId s of
             (Inr (Some row), s') \<Rightarrow> (row\<lparr>pc_groupId := groupId\<rparr>, s')
           | (_, s') \<Rightarrow> (default_payout_config groupId, s')))"

definition upsert_schedule_config :: "'s payout_env \<Rightarrow> payout_config \<Rightarrow> 's scheduler \<Rightarrow> payout_config \<times> 's scheduler" where
  "upsert_schedule_config X config = (\<lambda>(configStore, s).
     case px_saveConfig X config s of
       (Inr _, s') \<Rightarrow> (config, (configStore, s'))
     | (Inl _, s') \<Rightarrow> (config, (js_set (pc_groupId config) config configStore, s')))"

section \<open>Rotation\<close>

text \<open>\<open>members[payoutIndex % members.length]\<close>: \<open>undefined\<close> (\<open>None\<close>) without an index, and for a negative remainder.\<close>

definition select_sequential :: "payout_member list \<Rightarrow> int option \<Rightarrow> payout_member option" where
  "select_sequential members payoutIndex =
     (case payoutIndex of
        None \<Rightarrow> None
      | Some i \<Rightarrow> if members = [] \<or> i < 0 \<and> i mod int (length members) \<noteq> 0 then None
                  else js_at members (nat (i mod int (length members))))"

definition eligible_members :: "payout_member list \<Rightarrow> string list \<Rightarrow> payout_member list" where
  "eligible_members members received = filter (\<lambda>m. pm_userId m \<notin> set received) members"

definition select_random :: "'s payout_env \<Rightarrow> payout_member list \<Rightarrow> string list \<Rightarrow> 's \<Rightarrow> payout_member option \<times> 's" where
  "select_random X members received s =
     (let eligible = eligible_members members received
      in if eligible = [] then (None, s)
         else case px_random X s of (r, s') \<Rightarrow> (js_at eligible (nat \<lfloor>r * of_nat (length eligible)\<rfloor>), s'))"

definition select_by_contribution ::
  "'s payout_env \<Rightarrow> string \<Rightarrow> payout_member list \<Rightarrow> ('s, payout_error, payout_member option) js_method" where
  "select_by_contribution X groupId members =
     js_then (px_receivedIds X groupId) (\<lambda>received.
       let eligible = eligible_members members received
       in if eligible = [] then js_return None
          else js_then (px_byContributions X groupId (map pm_userId eligible)) (\<lambda>counts.
            js_return (case find (\<lambda>m. counts \<noteq> [] \<and> pm_userId m = hd counts) eligible of
                         Some m \<Rightarrow> Some m | None \<Rightarrow> Some (hd eligible))))"

text \<open>
  \<open>group.payoutIndex ?? received.size\<close>: \<open>received\<close> is an array and has no \<open>size\<close>, so without a
  payout index the index is \<open>undefined\<close>.
\<close>

definition choose_member ::
  "'s payout_env \<Rightarrow> payout_group \<Rightarrow> rotation \<Rightarrow> string list \<Rightarrow> ('s, payout_error, payout_member option) js_method" where
  "choose_member X grp algorithm received =
     (case algorithm of
        Sequential \<Rightarrow> js_return (select_sequential (pg_members grp) (pg_payoutIndex grp))
      | RandomRotation \<Rightarrow> (\<lambda>s. case select_random X (pg_members grp) received s of (m, s') \<Rightarrow> (Inr m, s'))
      | ContributionBased \<Rightarrow> select_by_contribution X (pg_id grp) (pg_members grp)
      | VotingBased \<Rightarrow>
          (\<lambda>s. case px_byVotes X (pg_id grp) (pg_currentRound grp) s of
             (v, s') \<Rightarrow>
               let votes = (case v of Inl _ \<Rightarrow> [] | Inr ids \<Rightarrow> ids)
               in (Inr (case find (\<lambda>m. votes \<noteq> [] \<and> pm_userId m = hd votes \<and> pm_userId m \<notin> set received) (pg_members grp) of
                          Some m \<Rightarrow> Some m
                        | None \<Rightarrow> select_sequential (pg_members grp) (pg_payoutIndex grp)), s'))
      | UnknownRotation _ \<Rightarrow> js_return None)"

definition determine_recipient ::
  "'s payout_env \<Rightarrow> payout_group \<Rightarrow> rotation \<Rightarrow> ('s, payout_error, (string \<times> string) option) js_method" where
  "determine_recipient X grp algorithm =
     (if pg_members grp = [] then js_return None
      else js_then (px_receivedIds X (pg_id grp)) (\<lambda>received.
        js_then (choose_member X grp algorithm received) (\<lambda>member.
          js_return (map_option (\<lambda>m. (pm_userId m, get_or (pm_userId m) (pm_walletAddress m))) member))))"

section \<open>The scan\<close>

definition cycle_end :: "payout_group \<Rightarrow> int option" where
  "cycle_end grp = (case pg_cycleDeadline grp of Some t \<Rightarrow> Some t | None \<Rightarrow> pg_nextPayoutAt grp)"

definition note_skip :: "string \<Rightarrow> string \<Rightarrow> process_result \<Rightarrow> process_result" where
  "note_skip groupId reason result =
     result\<lparr>rs_skipped := rs_skipped result + 1, rs_details := rs_details result @ [(groupId, PayoutSkipped, Some reason)]\<rparr>"

definition note_scheduled :: "string \<Rightarrow> process_result \<Rightarrow> process_result" where
  "note_scheduled groupId result =
     result\<lparr>rs_scheduled := rs_scheduled result + 1, rs_details := rs_details result @ [(groupId, PayoutScheduled, None)]\<rparr>"

definition note_failed :: "string \<Rightarrow> string \<Rightarrow> process_result \<Rightarrow> process_result" where
  "note_failed groupId reason result =
     result\<lparr>rs_failed := rs_failed result + 1, rs_details := rs_details result @ [(groupId, PayoutFailed, Some reason)]\<rparr>"

text \<open>The \<open>try\<close> of one group: choose the recipient and queue the job.\<close>

definition payout_job_for :: "payout_group \<Rightarrow> string \<times> string \<Rightarrow> payout_job" where
  "payout_job_for grp recipient =
     \<lparr>pj_groupId = pg_id grp, pj_recipientId = fst recipient, pj_recipientAddress = snd recipient,
      pj_amount = pg_contributionAmount grp * int (length (pg_members grp)), pj_currency = ''XLM'',
      pj_cycleNumber = get_or 1 (pg_currentRound grp), pj_priority = None\<rparr>"

definition schedule_group ::
  "'s payout_env \<Rightarrow> payout_group \<Rightarrow> payout_config \<Rightarrow> process_result \<Rightarrow> 's \<Rightarrow> process_result \<times> 's" where
  "schedule_group X grp config result s =
     (case js_then (determine_recipient X grp (pc_algorithm config)) (\<lambda>recipient.
             case recipient of
               None \<Rightarrow> js_return (note_skip (pg_id grp) ''no eligible recipient'' result)
             | Some r \<Rightarrow>
                 js_then (add_payout_job X (payout_job_for grp r)
                            \<lparr>jo_delay = Some (pc_delayMs config), jo_priority = Some 1, jo_attempts = None\<rparr>)
                   (\<lambda>_. js_return (note_scheduled (pg_id grp) result))) s of
        (Inr result', s') \<Rightarrow> (result', s')
      | (Inl e, s') \<Rightarrow> (note_failed (pg_id grp) (px_describe X e) result, s'))"

definition process_group ::
  "'s payout_env \<Rightarrow> (string, payout_config) jsmap \<Rightarrow> int \<Rightarrow> payout_group \<Rightarrow> process_result \<Rightarrow>
   ('s, payout_error, process_result) js_method" where
  "process_group X configStore now grp result =
     (if (case cycle_end grp of None \<Rightarrow> True | Some t \<Rightarrow> now < t)
      then js_return (note_skip (pg_id grp) ''cycle not ended'' result)
      else js_then (px_anyPayout X (pg_id grp)) (\<lambda>alreadyPaid.
        if alreadyPaid then js_return (note_skip (pg_id grp) ''payout already exists'' result)
        else (\<lambda>s. case get_config X configStore (pg_id grp) s of
          (config, s') \<Rightarrow>
            if \<not> pc_enabled config then (Inr (note_skip (pg_id grp) ''scheduling disabled'' result), s')
            else (case schedule_group X grp config result s' of (result', s'') \<Rightarrow> (Inr result', s'')))))"

fun process_groups ::
  "'s payout_env \<Rightarrow> (string, payout_config) jsmap \<Rightarrow> int \<Rightarrow> payout_group list \<Rightarrow> process_result \<Rightarrow>
   ('s, payout_error, process_result) js_method" where
  "process_groups X configStore now [] result = js_return result"
| "process_groups X configStore now (grp # groups) result =
     js_then (process_group X configStore now grp result) (process_groups X configStore now groups)"

definition no_results :: process_result where
  "no_results = \<lparr>rs_scheduled = 0, rs_skipped = 0, rs_failed = 0, rs_details = []\<rparr>"

definition process_due_payouts ::
  "'s payout_env \<Rightarrow> (string, payout_config) jsmap \<Rightarrow> ('s, payout_error, process_result) js_method" where
  "process_due_payouts X configStore s =
     js_then (px_activeGroups X) (\<lambda>groups. process_groups X configStore (px_now X s) groups no_results) s"

section \<open>Emergency controls\<close>

definition force_payout_now ::
  "'s payout_env \<Rightarrow> string \<Rightarrow> string \<Rightarrow> string \<Rightarrow> int \<Rightarrow> int \<Rightarrow> ('s, payout_error, string) js_method" where
  "force_payout_now X groupId recipientAddress recipientId amount cycleNumber =
     add_payout_job X
       \<lparr>pj_groupId = groupId, pj_recipientId = recipientId, pj_recipientAddress = recipientAddress,
        pj_amount = amount, pj_currency = ''XLM'', pj_cycleNumber = cycleNumber, pj_priority = Some 10\<rparr>
       \<lparr>jo_delay = None, jo_priority = Some 10, jo_attempts = None\<rparr>"

definition skip_current_payout :: "'s payout_env \<Rightarrow> string \<Rightarrow> string \<Rightarrow> ('s, payout_error, unit) js_method" where
  "skip_current_payout X groupId reason =
     js_then (px_advanceIndex X groupId) (\<lambda>_ s. (Inr (), snd (px_logSkip X groupId reason s)))"

section \<open>The worker\<close>

record chain_answer =
  ca_success :: bool
  ca_transactionHash :: "string option"
  ca_error :: "string option"

datatype worker_error = MissingFields | InvalidAmount int | InvalidStellarAddress string | ChainRefused string | ChainThrew string

definition process_payout_job ::
  "(string \<Rightarrow> int \<Rightarrow> string \<Rightarrow> ('s, worker_error, chain_answer) js_method) \<Rightarrow> payout_job \<Rightarrow>
   ('s, worker_error, string option) js_method" where
  "process_payout_job processPayout job =
     (if pj_groupId job = [] \<or> pj_recipientId job = [] \<or> pj_recipientAddress job = [] \<or> pj_amount job = 0
      then js_throw MissingFields
      else if pj_amount job \<le> 0 then js_throw (InvalidAmount (pj_amount job))
      else if \<not> js_starts ''G'' (pj_recipientAddress job) \<or> length (pj_recipientAddress job) \<noteq> 56
      then js_throw (InvalidStellarAddress (pj_recipientAddress job))
      else js_then (processPayout (pj_recipientAddress job) (pj_amount job) (pj_currency job)) (\<lambda>answer.
        if ca_success answer then js_return (ca_transactionHash answer)
        else js_throw (ChainRefused (get_or ''Payout processing failed'' (truthy (ca_error answer))))))"

section \<open>The scan accounts for every group\<close>

definition outcomes :: "payout_outcome \<Rightarrow> process_result \<Rightarrow> nat" where
  "outcomes oc result = length (filter (\<lambda>(g, o', r). o' = oc) (rs_details result))"

definition counts_agree :: "process_result \<Rightarrow> bool" where
  "counts_agree result \<longleftrightarrow> rs_scheduled result = outcomes PayoutScheduled result \<and>
     rs_skipped result = outcomes PayoutSkipped result \<and> rs_failed result = outcomes PayoutFailed result"

lemma note_simps [simp]:
  "rs_details (note_skip i reason result) = rs_details result @ [(i, PayoutSkipped, Some reason)]"
  "rs_details (note_scheduled i result) = rs_details result @ [(i, PayoutScheduled, None)]"
  "rs_details (note_failed i reason result) = rs_details result @ [(i, PayoutFailed, Some reason)]"
  "counts_agree (note_skip i reason result) = counts_agree result"
  "counts_agree (note_scheduled i result) = counts_agree result"
  "counts_agree (note_failed i reason result) = counts_agree result"
  by (simp_all add: note_skip_def note_scheduled_def note_failed_def counts_agree_def outcomes_def)

text \<open>
  What one group contributes: exactly one detail, and a job exactly when it is scheduled. \<open>jobs\<close> reads
  the queue out of the outside state; \<open>payout_laws\<close> says which operations may change it.
\<close>

definition keeps_jobs :: "('s \<Rightarrow> payout_job list) \<Rightarrow> ('s, 'e, 'r) js_method \<Rightarrow> bool" where
  "keeps_jobs jobs m \<longleftrightarrow> (\<forall>s. jobs (snd (m s)) = jobs s)"

definition payout_laws :: "'s payout_env \<Rightarrow> ('s \<Rightarrow> payout_job list) \<Rightarrow> bool" where
  "payout_laws X jobs \<longleftrightarrow>
     (\<forall>s. jobs (snd (px_random X s)) = jobs s) \<and> (\<forall>s. jobs (snd (px_newJobId X s)) = jobs s) \<and>
     keeps_jobs jobs (px_activeGroups X) \<and> (\<forall>g. keeps_jobs jobs (px_anyPayout X g)) \<and>
     (\<forall>g. keeps_jobs jobs (px_receivedIds X g)) \<and> (\<forall>g us. keeps_jobs jobs (px_byContributions X g us)) \<and>
     (\<forall>g r. keeps_jobs jobs (px_byVotes X g r)) \<and> (\<forall>g. keeps_jobs jobs (px_configRow X g)) \<and>
     (\<forall>i job opts s. jobs (snd (px_add X i job opts s)) =
        (case fst (px_add X i job opts s) of Inl e \<Rightarrow> jobs s | Inr u \<Rightarrow> jobs s @ [job]))"

lemma keeps_then:
  "keeps_jobs jobs m \<Longrightarrow> (\<And>r. keeps_jobs jobs (f r)) \<Longrightarrow> keeps_jobs jobs (js_then m f)"
  unfolding keeps_jobs_def js_then_def by (auto split: prod.split sum.split) (metis snd_conv)+

lemma keeps_return: "keeps_jobs jobs (js_return r)" "keeps_jobs jobs (\<lambda>s. (x, s))"
  by (simp_all add: keeps_jobs_def)

lemma choose_keeps:
  assumes "payout_laws X jobs"
  shows "keeps_jobs jobs (choose_member X g algorithm received)"
proof (cases algorithm)
  case RandomRotation
  then show ?thesis using assms
    by (auto simp: choose_member_def keeps_jobs_def select_random_def payout_laws_def Let_def split: prod.split)
       (metis snd_conv)+
next
  case ContributionBased
  then show ?thesis using assms
    by (auto simp: choose_member_def select_by_contribution_def payout_laws_def Let_def intro!: keeps_then keeps_return)
next
  case VotingBased
  then show ?thesis using assms
    by (auto simp: choose_member_def keeps_jobs_def payout_laws_def Let_def split: prod.split) (metis snd_conv)+
qed (simp_all add: choose_member_def keeps_return)

lemma determine_keeps: "payout_laws X jobs \<Longrightarrow> keeps_jobs jobs (determine_recipient X g algorithm)"
  by (auto simp: determine_recipient_def payout_laws_def intro!: keeps_then keeps_return choose_keeps)

lemma config_keeps: "payout_laws X jobs \<Longrightarrow> jobs (snd (get_config X store g s)) = jobs s"
  by (auto simp: get_config_def payout_laws_def keeps_jobs_def split: option.split prod.split sum.split) (metis snd_conv)+

lemma js_at_member: "js_at xs i = Some x \<Longrightarrow> x \<in> set xs"
  by (auto simp: js_at_def split: if_splits)

lemma find_member: "find P xs = Some x \<Longrightarrow> x \<in> set xs"
  by (auto simp: find_Some_iff)

lemma select_sequential_member: "select_sequential members i = Some m \<Longrightarrow> m \<in> set members"
  by (auto simp: select_sequential_def js_at_member split: option.splits if_splits)

lemma chosen_member:
  assumes "choose_member X g algorithm received s = (Inr (Some m), s')"
  shows "m \<in> set (pg_members g)"
proof -
  have eligible: "set (eligible_members members ids) \<subseteq> set members" for members ids
    by (auto simp: eligible_members_def)
  show ?thesis
  proof (cases algorithm)
    case RandomRotation
    then show ?thesis using assms eligible js_at_member
      by (fastforce simp: choose_member_def select_random_def Let_def split: prod.splits if_splits)
  next
    case ContributionBased
    then obtain r ids s1 where "eligible_members (pg_members g) r \<noteq> []"
        "(case find (\<lambda>m. ids \<noteq> [] \<and> pm_userId m = hd ids) (eligible_members (pg_members g) r) of
           Some m \<Rightarrow> Some m | None \<Rightarrow> Some (hd (eligible_members (pg_members g) r))) = Some m"
      using assms by (auto simp: choose_member_def select_by_contribution_def js_then_def Let_def js_return_def
          split: prod.splits sum.splits if_splits)
    then have "m \<in> set (eligible_members (pg_members g) r)"
      using find_member by (fastforce split: option.splits)
    then show ?thesis using eligible by blast
  next
    case VotingBased
    then show ?thesis using assms find_member select_sequential_member
      by (fastforce simp: choose_member_def Let_def split: prod.splits option.splits)
  qed (use assms select_sequential_member in \<open>auto simp: choose_member_def js_return_def\<close>)
qed

definition due_at :: "int \<Rightarrow> payout_group \<Rightarrow> bool" where
  "due_at now g \<longleftrightarrow> (\<exists>t. cycle_end g = Some t \<and> t \<le> now)"

definition job_of :: "payout_group \<Rightarrow> payout_job \<Rightarrow> bool" where
  "job_of g job \<longleftrightarrow> (\<exists>m \<in> set (pg_members g).
     job = payout_job_for g (pm_userId m, get_or (pm_userId m) (pm_walletAddress m)))"

lemma determined_job:
  assumes "determine_recipient X g algorithm s = (Inr (Some r), s')"
  shows "job_of g (payout_job_for g r)"
proof -
  obtain received m s1 where c: "choose_member X g algorithm received s1 = (Inr (Some m), s')"
      and r: "r = (pm_userId m, get_or (pm_userId m) (pm_walletAddress m))"
    using assms by (auto simp: determine_recipient_def js_then_def js_return_def split: prod.splits sum.splits if_splits)
  show ?thesis using chosen_member [OF c] r unfolding job_of_def by blast
qed

text \<open>One group adds one detail, and a job of its own exactly when that detail says scheduled.\<close>

definition one_step :: "('s \<Rightarrow> payout_job list) \<Rightarrow> int \<Rightarrow> payout_group \<Rightarrow> process_result \<Rightarrow> process_result \<Rightarrow> 's \<Rightarrow> 's \<Rightarrow> bool" where
  "one_step jobs now g result result' s s' \<longleftrightarrow> (\<exists>oc reason.
     rs_details result' = rs_details result @ [(pg_id g, oc, reason)] \<and> counts_agree result' = counts_agree result \<and>
     (if oc = PayoutScheduled then due_at now g \<and> (\<exists>job. job_of g job \<and> jobs s' = jobs s @ [job]) else jobs s' = jobs s))"

lemma schedule_group_step:
  assumes "payout_laws X jobs" and "due_at now g" and "schedule_group X g config result s = (result', s')"
  shows "one_step jobs now g result result' s s'"
proof -
  obtain x s1 where d: "determine_recipient X g (pc_algorithm config) s = (x, s1)" by (rule prod.exhaust)
  have k: "jobs s1 = jobs s" using determine_keeps [OF assms(1)] d unfolding keeps_jobs_def by (metis snd_conv)
  show ?thesis
  proof (cases x)
    case (Inl e)
    then show ?thesis using assms(3) d k by (auto simp: schedule_group_def js_then_def one_step_def)
  next
    case (Inr recipient)
    show ?thesis
    proof (cases recipient)
      case None
      then show ?thesis using assms(3) d k Inr by (auto simp: schedule_group_def js_then_def js_return_def one_step_def)
    next
      case (Some r)
      let ?job = "payout_job_for g r" and ?opts = "\<lparr>jo_delay = Some (pc_delayMs config), jo_priority = Some 1, jo_attempts = None\<rparr>"
      obtain jobId s2 where i: "px_newJobId X s1 = (jobId, s2)" by (rule prod.exhaust)
      obtain y s3 where a: "px_add X jobId ?job (job_opts ?opts) s2 = (y, s3)" by (rule prod.exhaust)
      have "jobs s2 = jobs s1" using assms(1) i unfolding payout_laws_def by (metis snd_conv)
      moreover have "jobs s3 = (case y of Inl e \<Rightarrow> jobs s2 | Inr u \<Rightarrow> jobs s2 @ [?job])"
        using assms(1) a unfolding payout_laws_def by (metis fst_conv snd_conv)
      moreover have "job_of g ?job" by (rule determined_job [OF d [unfolded Inr Some]])
      ultimately show ?thesis
        using assms(2,3) d k Inr Some i a
        by (cases y) (auto simp: schedule_group_def js_then_def js_return_def add_payout_job_def one_step_def)
    qed
  qed
qed

lemma process_group_step:
  assumes "payout_laws X jobs" and "process_group X store now g result s = (Inr result', s')"
  shows "one_step jobs now g result result' s s'"
proof (cases "case cycle_end g of None \<Rightarrow> True | Some t \<Rightarrow> now < t")
  case True
  then show ?thesis using assms(2) by (auto simp: process_group_def js_return_def one_step_def)
next
  case False
  then have due: "due_at now g" by (auto simp: due_at_def split: option.splits)
  obtain x s1 where p: "px_anyPayout X (pg_id g) s = (x, s1)" by (rule prod.exhaust)
  obtain config s2 where c: "get_config X store (pg_id g) s1 = (config, s2)" by (rule prod.exhaust)
  have "jobs s1 = jobs s" using assms(1) p unfolding payout_laws_def keeps_jobs_def by (metis snd_conv)
  moreover have "jobs s2 = jobs s1" using config_keeps [OF assms(1)] c by (metis snd_conv)
  ultimately have k: "jobs s1 = jobs s" "jobs s2 = jobs s" by simp_all
  obtain r3 s3 where sg: "schedule_group X g config result s2 = (r3, s3)" by (rule prod.exhaust)
  have step: "one_step jobs now g result r3 s2 s3" by (rule schedule_group_step [OF assms(1) due sg])
  show ?thesis
    using assms(2) False p c sg step k
    by (auto simp: process_group_def js_then_def js_return_def one_step_def split: sum.splits if_splits)
qed

text \<open>A run over groups, folded from its steps.\<close>

lemma process_groups_run:
  assumes "payout_laws X jobs" and "process_groups X store now gs result s = (Inr result', s')"
  shows "\<exists>details new. rs_details result' = rs_details result @ details \<and> map fst details = map pg_id gs
    \<and> counts_agree result' = counts_agree result \<and> jobs s' = jobs s @ new
    \<and> length new = length (filter (\<lambda>(i, oc, r). oc = PayoutScheduled) details)
    \<and> (\<forall>job \<in> set new. \<exists>g \<in> set gs. due_at now g \<and> job_of g job)"
  using assms(2)
proof (induction gs arbitrary: result s)
  case Nil
  then show ?case by (simp add: js_return_def)
next
  case (Cons g gs)
  obtain r1 s1 where p: "process_group X store now g result s = (Inr r1, s1)"
      and rest: "process_groups X store now gs r1 s1 = (Inr result', s')"
    using Cons.prems by (auto simp: js_then_def split: prod.splits sum.splits)
  obtain oc reason where head: "rs_details r1 = rs_details result @ [(pg_id g, oc, reason)]" "counts_agree r1 = counts_agree result"
      "if oc = PayoutScheduled then due_at now g \<and> (\<exists>job. job_of g job \<and> jobs s1 = jobs s @ [job]) else jobs s1 = jobs s"
    using process_group_step [OF assms(1) p] unfolding one_step_def by blast
  obtain details new where tail: "rs_details result' = rs_details r1 @ details" "map fst details = map pg_id gs"
      "counts_agree result' = counts_agree r1" "jobs s' = jobs s1 @ new"
      "length new = length (filter (\<lambda>(i, oc, r). oc = PayoutScheduled) details)"
      "\<forall>job \<in> set new. \<exists>g \<in> set gs. due_at now g \<and> job_of g job"
    using Cons.IH [OF rest] by blast
  obtain first where f: "jobs s1 = jobs s @ first" "length first = (if oc = PayoutScheduled then 1 else 0)"
      "\<forall>job \<in> set first. due_at now g \<and> job_of g job"
    using head(3) by (auto split: if_splits)
  show ?case
    by (intro exI [of _ "(pg_id g, oc, reason) # details"] exI [of _ "first @ new"])
       (use head tail f in \<open>auto\<close>)
qed

text \<open>
  C16. A scan that returns accounts for every active group: one detail per group in their order, with
  the counters to match; the jobs it queued are as many as it says it scheduled, each for a group
  whose cycle has ended, to one of its members, of the contribution times the number of members.
\<close>

theorem payout_scan_accounts:
  assumes "payout_laws X jobs" and "px_activeGroups X s = (Inr gs, s0)"
    and "process_due_payouts X store s = (Inr result, s')"
  shows "map fst (rs_details result) = map pg_id gs \<and> counts_agree result
    \<and> (\<exists>new. jobs s' = jobs s @ new \<and> length new = rs_scheduled result
        \<and> (\<forall>job \<in> set new. \<exists>g \<in> set gs. due_at (px_now X s) g \<and> job_of g job
              \<and> pj_amount job = pg_contributionAmount g * int (length (pg_members g))))"
proof -
  have run: "process_groups X store (px_now X s) gs no_results s0 = (Inr result, s')"
    using assms(2,3) by (simp add: process_due_payouts_def js_then_def)
  have k: "jobs s0 = jobs s" using assms(1,2) unfolding payout_laws_def keeps_jobs_def by (metis snd_conv)
  obtain details new where r: "rs_details result = rs_details no_results @ details" "map fst details = map pg_id gs"
      "counts_agree result = counts_agree no_results" "jobs s' = jobs s0 @ new"
      "length new = length (filter (\<lambda>(i, oc, r). oc = PayoutScheduled) details)"
      "\<forall>job \<in> set new. \<exists>g \<in> set gs. due_at (px_now X s) g \<and> job_of g job"
    using process_groups_run [OF assms(1) run] by blast
  have agree: "counts_agree result" using r(3) by (simp add: counts_agree_def no_results_def outcomes_def)
  then have "length new = rs_scheduled result" using r(1,5) by (simp add: counts_agree_def outcomes_def no_results_def)
  moreover have "pj_amount job = pg_contributionAmount g * int (length (pg_members g))" if "job_of g job" for g job
    using that by (auto simp: job_of_def payout_job_for_def)
  ultimately show ?thesis using r k agree by (simp add: no_results_def) blast
qed


section \<open>A memory environment\<close>

text \<open>The queue is the state, groups and payments are fixed, and no configuration table exists.\<close>

definition memory_payout_env :: "payout_group list \<Rightarrow> string list \<Rightarrow> payout_job list payout_env" where
  "memory_payout_env groups paid = \<lparr>
     px_now = (\<lambda>s. 1000),
     px_random = (\<lambda>s. (0, s)),
     px_newJobId = (\<lambda>s. (''payout-'' @ show_int (int (length s)), s)),
     px_activeGroups = js_return groups,
     px_anyPayout = (\<lambda>g. js_return (g \<in> set paid)),
     px_receivedIds = (\<lambda>g. js_return []),
     px_byContributions = (\<lambda>g users. js_return users),
     px_byVotes = (\<lambda>g r. js_return []),
     px_configRow = (\<lambda>g. js_throw (PayoutDbError ''no such table'')),
     px_saveConfig = (\<lambda>config. js_throw (PayoutDbError ''no such table'')),
     px_advanceIndex = (\<lambda>g. js_return ()),
     px_logSkip = (\<lambda>g r. js_return ()),
     px_add = (\<lambda>i job opts s. (Inr (), s @ [job])),
     px_describe = (\<lambda>e. case e of PayoutDbError t \<Rightarrow> t)\<rparr>"

definition sample_group :: "string \<Rightarrow> int option \<Rightarrow> payout_group" where
  "sample_group i index =
     \<lparr>pg_id = i,
      pg_members = [\<lparr>pm_userId = ''ann'', pm_walletAddress = None\<rparr>, \<lparr>pm_userId = ''bob'', pm_walletAddress = Some ''GB''\<rparr>],
      pg_cycleDeadline = Some 900, pg_nextPayoutAt = None, pg_payoutIndex = index,
      pg_currentRound = Some 2, pg_contributionAmount = 50\<rparr>"

lemma memory_payout_laws: "payout_laws (memory_payout_env groups paid) (\<lambda>s. s)"
  by (simp add: payout_laws_def keeps_jobs_def memory_payout_env_def js_return_def js_throw_def)

lemmas payout_run_defs =
  process_due_payouts_def process_group_def get_config_def schedule_group_def determine_recipient_def choose_member_def
  select_sequential_def add_payout_job_def payout_job_for_def job_opts_def memory_payout_env_def sample_group_def
  default_payout_config_def cycle_end_def js_then_def js_return_def js_throw_def js_at_def

lemma payout_sample_run:
  "process_due_payouts (memory_payout_env [sample_group ''g1'' (Some 3), sample_group ''g2'' None] []) [] [] =
     (Inr (note_skip ''g2'' ''no eligible recipient'' (note_scheduled ''g1'' no_results)),
      [payout_job_for (sample_group ''g1'' (Some 3)) (''bob'', ''GB'')])"
  by (simp add: payout_run_defs)

theorem payout_scan_accounts_witness:
  "\<exists>new. [payout_job_for (sample_group ''g1'' (Some 3)) (''bob'', ''GB'')] = [] @ new \<and> length new = 1"
proof -
  let ?gs = "[sample_group ''g1'' (Some 3), sample_group ''g2'' None]"
  have "px_activeGroups (memory_payout_env ?gs []) [] = (Inr ?gs, [])"
    by (simp add: memory_payout_env_def js_return_def)
  from payout_scan_accounts [OF memory_payout_laws this payout_sample_run]
  show ?thesis by (auto simp: note_skip_def note_scheduled_def no_results_def)
qed

section \<open>Who is never paid\<close>

text \<open>A group no scan can schedule, for the given configuration store and time.\<close>

definition quiet_group :: "'s payout_env \<Rightarrow> (string, payout_config) jsmap \<Rightarrow> int \<Rightarrow> payout_group \<Rightarrow> bool" where
  "quiet_group X store now g \<longleftrightarrow> (\<forall>result s result' s'. process_group X store now g result s = (Inr result', s') \<longrightarrow>
     (\<exists>oc reason. oc \<noteq> PayoutScheduled \<and> rs_details result' = rs_details result @ [(pg_id g, oc, reason)]))"

lemma process_groups_loud:
  assumes "payout_laws X jobs" and "process_groups X store now gs result s = (Inr result', s')"
  shows "\<exists>new. jobs s' = jobs s @ new \<and> (\<forall>job \<in> set new. \<exists>g \<in> set gs. \<not> quiet_group X store now g \<and> job_of g job)"
  using assms(2)
proof (induction gs arbitrary: result s)
  case Nil
  then show ?case by (simp add: js_return_def)
next
  case (Cons g gs)
  obtain r1 s1 where p: "process_group X store now g result s = (Inr r1, s1)"
      and rest: "process_groups X store now gs r1 s1 = (Inr result', s')"
    using Cons.prems by (auto simp: js_then_def split: prod.splits sum.splits)
  obtain new where new: "jobs s' = jobs s1 @ new" "\<forall>job \<in> set new. \<exists>g \<in> set gs. \<not> quiet_group X store now g \<and> job_of g job"
    using Cons.IH [OF rest] by blast
  obtain oc reason where head: "rs_details r1 = rs_details result @ [(pg_id g, oc, reason)]"
      "if oc = PayoutScheduled then due_at now g \<and> (\<exists>job. job_of g job \<and> jobs s1 = jobs s @ [job]) else jobs s1 = jobs s"
    using process_group_step [OF assms(1) p] unfolding one_step_def by blast
  show ?case
  proof (cases "oc = PayoutScheduled")
    case True
    then obtain job where job: "job_of g job" "jobs s1 = jobs s @ [job]" using head(2) by auto
    have "\<not> quiet_group X store now g" using p head(1) True unfolding quiet_group_def by fastforce
    then show ?thesis using new job by (intro exI [of _ "job # new"]) auto
  next
    case False
    then show ?thesis using new head(2) by auto
  qed
qed

lemma process_due_loud:
  assumes "payout_laws X jobs" and "px_activeGroups X s = (Inr gs, s0)"
    and "process_due_payouts X store s = (Inr result, s')"
  shows "\<exists>new. jobs s' = jobs s @ new
    \<and> (\<forall>job \<in> set new. \<exists>g \<in> set gs. \<not> quiet_group X store (px_now X s) g \<and> job_of g job)"
proof -
  have "process_groups X store (px_now X s) gs no_results s0 = (Inr result, s')"
    using assms(2,3) by (simp add: process_due_payouts_def js_then_def)
  moreover have "jobs s0 = jobs s" using assms(1,2) unfolding payout_laws_def keeps_jobs_def by (metis snd_conv)
  ultimately show ?thesis using process_groups_loud [OF assms(1)] by metis
qed

lemma no_index_no_recipient:
  "pg_payoutIndex g = None \<Longrightarrow> determine_recipient X g Sequential s \<noteq> (Inr (Some r), s')"
  by (auto simp: determine_recipient_def choose_member_def select_sequential_def js_then_def js_return_def
      split: prod.splits sum.splits)

lemma no_index_quiet:
  assumes "pg_payoutIndex g = None" and "\<And>s. pc_algorithm (fst (get_config X store (pg_id g) s)) = Sequential"
  shows "quiet_group X store now g"
  unfolding quiet_group_def
proof (intro allI impI)
  fix result s result' s' assume p: "process_group X store now g result s = (Inr result', s')"
  obtain x s1 where paid: "px_anyPayout X (pg_id g) s = (x, s1)" by (rule prod.exhaust)
  obtain config s2 where c: "get_config X store (pg_id g) s1 = (config, s2)" by (rule prod.exhaust)
  have seq: "pc_algorithm config = Sequential" using assms(2) [of s1] c by simp
  obtain y s3 where d: "determine_recipient X g Sequential s2 = (y, s3)" by (rule prod.exhaust)
  have "y \<noteq> Inr (Some r)" for r using no_index_no_recipient [OF assms(1)] d by metis
  then have "\<exists>oc reason. oc \<noteq> PayoutScheduled
      \<and> rs_details (fst (schedule_group X g config result s2)) = rs_details result @ [(pg_id g, oc, reason)]"
    using seq d by (cases y) (auto simp: schedule_group_def js_then_def js_return_def split: option.split)
  then show "\<exists>oc reason. oc \<noteq> PayoutScheduled \<and> rs_details result' = rs_details result @ [(pg_id g, oc, reason)]"
    using p paid c
    by (auto simp: process_group_def js_then_def js_return_def split: sum.splits if_splits prod.splits)
qed

lemma paid_quiet:
  assumes "\<And>s. fst (px_anyPayout X (pg_id g) s) = Inr True"
  shows "quiet_group X store now g"
  unfolding quiet_group_def
proof (intro allI impI)
  fix result s result' s' assume p: "process_group X store now g result s = (Inr result', s')"
  obtain s1 where "px_anyPayout X (pg_id g) s = (Inr True, s1)" using assms [of s] by (metis prod.collapse)
  then show "\<exists>oc reason. oc \<noteq> PayoutScheduled \<and> rs_details result' = rs_details result @ [(pg_id g, oc, reason)]"
    using p by (auto simp: process_group_def js_then_def js_return_def split: if_splits)
qed

text \<open>
  A payout index is not a column of the group, and a stored configuration has no table: without them
  a scan queues nothing, however long the cycles have ended. (The fallback \<open>received.size\<close> is read
  off an array.)
\<close>

theorem sequential_never_pays:
  assumes "payout_laws X jobs" and "px_activeGroups X s = (Inr gs, s0)"
    and "\<forall>g \<in> set gs. pg_payoutIndex g = None"
    and "\<forall>i s row. fst (px_configRow X i s) \<noteq> Inr (Some row)"
    and "process_due_payouts X [] s = (Inr result, s')"
  shows "jobs s' = jobs s"
proof -
  have "pc_algorithm (fst (get_config X [] i s)) = Sequential" for i s
    using assms(4) [rule_format, of i s]
    by (auto simp: get_config_def default_payout_config_def split: prod.split sum.split option.split) (metis fst_conv)
  then have "\<forall>g \<in> set gs. quiet_group X [] (px_now X s) g" using assms(3) no_index_quiet by metis
  then show ?thesis using process_due_loud [OF assms(1,2,5)] by fastforce
qed

theorem sequential_never_pays_witness:
  "snd (process_due_payouts (memory_payout_env [sample_group ''g1'' None, sample_group ''g2'' None] []) [] []) = []"
proof -
  let ?gs = "[sample_group ''g1'' None, sample_group ''g2'' None]"
  let ?X = "memory_payout_env ?gs []"
  obtain result s' where r: "process_due_payouts ?X [] [] = (Inr result, s')"
    by (simp add: payout_run_defs)
  have "px_activeGroups ?X [] = (Inr ?gs, [])" "\<forall>g \<in> set ?gs. pg_payoutIndex g = None"
       "\<forall>i s row. fst (px_configRow ?X i s) \<noteq> Inr (Some row)"
    by (simp_all add: memory_payout_env_def js_return_def js_throw_def sample_group_def)
  from sequential_never_pays [OF memory_payout_laws this r] r show ?thesis by simp
qed

text \<open>The check for an earlier payout asks for no cycle: a group that has been paid once is not paid again.\<close>

theorem paid_once_never_again:
  assumes "payout_laws X jobs" and "px_activeGroups X s = (Inr gs, s0)"
    and "\<forall>s. fst (px_anyPayout X i s) = Inr True"
    and "process_due_payouts X store s = (Inr result, s')"
  shows "\<exists>new. jobs s' = jobs s @ new \<and> (\<forall>job \<in> set new. pj_groupId job \<noteq> i)"
proof -
  have "quiet_group X store (px_now X s) g" if "pg_id g = i" for g using that assms(3) paid_quiet by metis
  then have "\<not> quiet_group X store (px_now X s) g \<Longrightarrow> pg_id g \<noteq> i" for g by blast
  moreover have "job_of g job \<Longrightarrow> pj_groupId job = pg_id g" for g job by (auto simp: job_of_def payout_job_for_def)
  ultimately show ?thesis using process_due_loud [OF assms(1,2,4)] by metis
qed

theorem paid_once_never_again_witness:
  "\<exists>new. snd (process_due_payouts (memory_payout_env [sample_group ''g1'' (Some 0), sample_group ''g2'' (Some 1)] [''g1'']) [] []) = [] @ new
     \<and> (\<forall>job \<in> set new. pj_groupId job \<noteq> ''g1'')"
proof -
  let ?gs = "[sample_group ''g1'' (Some 0), sample_group ''g2'' (Some 1)]"
  let ?X = "memory_payout_env ?gs [''g1'']"
  obtain result s' where r: "process_due_payouts ?X [] [] = (Inr result, s')"
    by (simp add: payout_run_defs)
  have "px_activeGroups ?X [] = (Inr ?gs, [])" "\<forall>s. fst (px_anyPayout ?X ''g1'' s) = Inr True"
    by (simp_all add: memory_payout_env_def js_return_def)
  from paid_once_never_again [OF memory_payout_laws this r] r show ?thesis by simp
qed

section \<open>The rotation reaches everyone\<close>

text \<open>
  As many consecutive payout indices as there are members select every member once, in their order
  from where the index stands.
\<close>

theorem sequential_rotation_fair:
  "map (\<lambda>k. select_sequential members (Some (int i + int k))) [0..<length members] = map Some (rotate i members)"
proof (rule nth_equalityI)
  fix k assume "k < length (map (\<lambda>k. select_sequential members (Some (int i + int k))) [0..<length members])"
  then have k: "k < length members" by simp
  have "nat ((int i + int k) mod int (length members)) = (i + k) mod length members"
    by (metis nat_int of_nat_add zmod_int)
  moreover have "(i + k) mod length members < length members" using k by (metis mod_less_divisor gr_implies_not0 neq0_conv)
  ultimately show "map (\<lambda>k. select_sequential members (Some (int i + int k))) [0..<length members] ! k = map Some (rotate i members) ! k"
    using k by (auto simp: select_sequential_def js_at_def nth_rotate add.commute)
qed simp

end
