(* ===== verification/Gamification.thy ===== *)
theory Gamification
  imports JsPrelude
begin

text \<open>
  Points, levels, streaks, achievements and challenges, \<open>backend/src/services/gamificationService.ts\<close>.

  The database client is a record of operations on an abstract state, \<open>game_laws\<close> states what it
  documents over the tables of profiles, unlocked achievements and challenge progress. The local
  calendar and \<open>JSON.parse\<close> of a requirement column are fields too. Calls run one at a time; points are
  exact integers.
\<close>

section \<open>Data\<close>

datatype user_level = Bronze | Silver | Gold | Platinum

datatype achievement_category = ContributionCategory | SocialCategory | MilestoneCategory | SpecialCategory

datatype activity_type = ContributionActivity | AchievementActivity | ChallengeActivity | LevelUpActivity | GroupCompleteActivity

record game_profile =
  gp_points :: int
  gp_level :: user_level
  gp_contributionStreak :: int
  gp_loginStreak :: int
  gp_lastContribution :: "int option"
  gp_lastLogin :: "int option"
  gp_totalInvites :: int
  gp_groupsCompleted :: int

text \<open>A parsed requirement; an absent property is \<open>undefined\<close>, and a comparison with it is false.\<close>

record requirement =
  rq_type :: "string option"
  rq_count :: "int option"
  rq_days :: "int option"
  rq_actionType :: "string option"
  rq_target :: "int option"

record achievement =
  ac_id :: string
  ac_name :: string
  ac_category :: achievement_category
  ac_points :: int
  ac_requirement :: string

record challenge =
  ch_id :: string
  ch_name :: string
  ch_requirement :: string
  ch_points :: int
  ch_startDate :: int
  ch_endDate :: int
  ch_isActive :: bool

record user_challenge =
  uc_progress :: int
  uc_completed :: bool
  uc_completedAt :: "int option"

record activity =
  av_userId :: string
  av_type :: activity_type
  av_title :: string
  av_description :: string

datatype game_error = GameDbError string | ParseError

record 's game_db =
  gd_now :: "'s \<Rightarrow> int"
  gd_date :: "int \<Rightarrow> int \<times> int \<times> int"
  gd_parse :: "string \<Rightarrow> game_error + requirement"
  gd_upsertProfile :: "string \<Rightarrow> (game_profile \<Rightarrow> game_profile) \<Rightarrow> game_profile \<Rightarrow> ('s, game_error, game_profile) js_method"
  gd_updateProfile :: "string \<Rightarrow> (game_profile \<Rightarrow> game_profile) \<Rightarrow> ('s, game_error, game_profile) js_method"
  gd_findProfile :: "string \<Rightarrow> ('s, game_error, game_profile option) js_method"
  gd_countContributions :: "string \<Rightarrow> ('s, game_error, int) js_method"
  gd_achievements :: "('s, game_error, achievement list) js_method"
  gd_findAchievement :: "string \<Rightarrow> ('s, game_error, achievement option) js_method"
  gd_unlocked :: "string \<Rightarrow> string \<Rightarrow> ('s, game_error, bool) js_method"
  gd_unlock :: "string \<Rightarrow> string \<Rightarrow> ('s, game_error, unit) js_method"
  gd_findChallenges :: "(challenge \<Rightarrow> bool) \<Rightarrow> ('s, game_error, challenge list) js_method"
  gd_findChallenge :: "string \<Rightarrow> ('s, game_error, challenge option) js_method"
  gd_upsertProgress :: "string \<Rightarrow> string \<Rightarrow> (user_challenge \<Rightarrow> user_challenge) \<Rightarrow> user_challenge \<Rightarrow>
    ('s, game_error, user_challenge) js_method"
  gd_updateProgress :: "string \<Rightarrow> string \<Rightarrow> (user_challenge \<Rightarrow> user_challenge) \<Rightarrow> ('s, game_error, user_challenge) js_method"
  gd_createActivity :: "activity \<Rightarrow> ('s, game_error, unit) js_method"
  gd_createFollow :: "string \<Rightarrow> string \<Rightarrow> ('s, game_error, unit) js_method"
  gd_deleteFollows :: "string \<Rightarrow> string \<Rightarrow> ('s, game_error, unit) js_method"

section \<open>Points and levels\<close>

definition contribution_points :: int where "contribution_points = 50"
definition invite_points :: int where "invite_points = 100"
definition group_points :: int where "group_points = 500"
definition login_points :: int where "login_points = 10"
definition streak_points :: int where "streak_points = 25"

lemmas point_defs = contribution_points_def invite_points_def group_points_def login_points_def streak_points_def

definition calculate_level :: "int \<Rightarrow> user_level" where
  "calculate_level points =
     (if points \<ge> 15000 then Platinum else if points \<ge> 5000 then Gold else if points \<ge> 1000 then Silver else Bronze)"

definition new_profile :: "int \<Rightarrow> game_profile" where
  "new_profile points = \<lparr>gp_points = points, gp_level = Bronze, gp_contributionStreak = 0, gp_loginStreak = 0,
     gp_lastContribution = None, gp_lastLogin = None, gp_totalInvites = 0, gp_groupsCompleted = 0\<rparr>"

definition initialize_user_gamification :: "'s game_db \<Rightarrow> string \<Rightarrow> ('s, game_error, game_profile) js_method" where
  "initialize_user_gamification G u = gd_upsertProfile G u (\<lambda>p. p) (new_profile 0)"

definition create_activity ::
  "'s game_db \<Rightarrow> string \<Rightarrow> activity_type \<Rightarrow> string \<Rightarrow> string \<Rightarrow> ('s, game_error, unit) js_method" where
  "create_activity G u kind title description =
     js_swallow (gd_createActivity G \<lparr>av_userId = u, av_type = kind, av_title = title, av_description = description\<rparr>)"

definition level_name :: "user_level \<Rightarrow> string" where
  "level_name l = (case l of Bronze \<Rightarrow> ''BRONZE'' | Silver \<Rightarrow> ''SILVER'' | Gold \<Rightarrow> ''GOLD'' | Platinum \<Rightarrow> ''PLATINUM'')"

definition level_up :: "'s game_db \<Rightarrow> string \<Rightarrow> user_level \<Rightarrow> ('s, game_error, unit) js_method" where
  "level_up G u newLevel =
     js_then (gd_updateProfile G u (\<lambda>p. p\<lparr>gp_level := newLevel\<rparr>)) (\<lambda>_.
       create_activity G u LevelUpActivity ''Level Up!''
         (''Congratulations! You\\'ve reached '' @ level_name newLevel @ '' level''))"

definition award_points :: "'s game_db \<Rightarrow> string \<Rightarrow> int \<Rightarrow> string \<Rightarrow> ('s, game_error, game_profile) js_method" where
  "award_points G u points reason =
     js_then (gd_upsertProfile G u (\<lambda>p. p\<lparr>gp_points := gp_points p + points\<rparr>) (new_profile points)) (\<lambda>gamification.
       js_then (if calculate_level (gp_points gamification) \<noteq> gp_level gamification
                then level_up G u (calculate_level (gp_points gamification)) else js_return ()) (\<lambda>_.
         js_then (create_activity G u ContributionActivity ''Points Earned''
                    (''Earned '' @ show_int points @ '' points for '' @ reason)) (\<lambda>_.
           js_return gamification)))"

section \<open>Achievements\<close>

definition pay_achievement :: "'s game_db \<Rightarrow> string \<Rightarrow> string \<Rightarrow> achievement \<Rightarrow> ('s, game_error, unit) js_method" where
  "pay_achievement G u achievementId a =
     js_then (gd_unlock G u achievementId) (\<lambda>_.
       js_then (award_points G u (ac_points a) (''unlocking '' @ ac_name a)) (\<lambda>_.
         create_activity G u AchievementActivity ''Achievement Unlocked!'' (''Unlocked: '' @ ac_name a)))"

definition award_achievement :: "'s game_db \<Rightarrow> string \<Rightarrow> string \<Rightarrow> ('s, game_error, unit) js_method" where
  "award_achievement G u achievementId = js_swallow
     (js_then (gd_unlocked G u achievementId) (\<lambda>existing.
        if existing then js_return ()
        else js_then (gd_findAchievement G achievementId) (\<lambda>found.
          case found of
            None \<Rightarrow> js_return ()
          | Some a \<Rightarrow> pay_achievement G u achievementId a)))"

definition reaches :: "int \<Rightarrow> int option \<Rightarrow> bool" where
  "reaches n bound = (case bound of None \<Rightarrow> False | Some b \<Rightarrow> n \<ge> b)"

definition should_award :: "game_profile \<Rightarrow> int \<Rightarrow> achievement_category \<Rightarrow> requirement \<Rightarrow> bool" where
  "should_award gamification contributions category req =
     (case category of
        ContributionCategory \<Rightarrow>
          rq_type req = Some ''first'' \<and> contributions \<ge> 1 \<or>
          rq_type req = Some ''count'' \<and> reaches contributions (rq_count req) \<or>
          rq_type req = Some ''streak'' \<and> reaches (gp_contributionStreak gamification) (rq_days req)
      | SocialCategory \<Rightarrow> rq_type req = Some ''invites'' \<and> reaches (gp_totalInvites gamification) (rq_count req)
      | MilestoneCategory \<Rightarrow> rq_type req = Some ''groups'' \<and> reaches (gp_groupsCompleted gamification) (rq_count req)
      | SpecialCategory \<Rightarrow> False)"

fun award_all :: "'s game_db \<Rightarrow> string \<Rightarrow> game_profile \<Rightarrow> int \<Rightarrow> achievement list \<Rightarrow> ('s, game_error, unit) js_method" where
  "award_all G u gamification contributions [] = js_return ()"
| "award_all G u gamification contributions (a # achievements) =
     js_then (js_pure (gd_parse G (ac_requirement a))) (\<lambda>req.
       js_then (if should_award gamification contributions (ac_category a) req
                then award_achievement G u (ac_id a) else js_return ()) (\<lambda>_.
         award_all G u gamification contributions achievements))"

definition check_achievements :: "'s game_db \<Rightarrow> string \<Rightarrow> ('s, game_error, unit) js_method" where
  "check_achievements G u = js_swallow
     (js_then (gd_findProfile G u) (\<lambda>found.
        case found of
          None \<Rightarrow> js_return ()
        | Some gamification \<Rightarrow>
            js_then (gd_countContributions G u) (\<lambda>contributions.
              js_then (gd_achievements G) (award_all G u gamification contributions))))"

section \<open>Challenges\<close>

definition pay_challenge :: "'s game_db \<Rightarrow> string \<Rightarrow> string \<Rightarrow> challenge \<Rightarrow> ('s, game_error, unit) js_method" where
  "pay_challenge G u challengeId c =
     js_then (\<lambda>s. gd_updateProgress G u challengeId
                (\<lambda>x. x\<lparr>uc_completed := True, uc_completedAt := Some (gd_now G s)\<rparr>) s) (\<lambda>_.
       js_then (award_points G u (ch_points c) (''completing '' @ ch_name c)) (\<lambda>_.
         create_activity G u ChallengeActivity ''Challenge Completed!'' (''Completed: '' @ ch_name c)))"

definition complete_challenge :: "'s game_db \<Rightarrow> string \<Rightarrow> string \<Rightarrow> ('s, game_error, unit) js_method" where
  "complete_challenge G u challengeId = js_swallow
     (js_then (gd_findChallenge G challengeId) (\<lambda>found.
        case found of
          None \<Rightarrow> js_return ()
        | Some c \<Rightarrow> pay_challenge G u challengeId c))"

definition progress_one :: "'s game_db \<Rightarrow> string \<Rightarrow> challenge \<Rightarrow> requirement \<Rightarrow> ('s, game_error, unit) js_method" where
  "progress_one G u c req =
     js_then (gd_upsertProgress G u (ch_id c) (\<lambda>x. x\<lparr>uc_progress := uc_progress x + 1\<rparr>)
                \<lparr>uc_progress = 1, uc_completed = False, uc_completedAt = None\<rparr>) (\<lambda>userChallenge.
       if reaches (uc_progress userChallenge) (rq_target req) \<and> \<not> uc_completed userChallenge
       then complete_challenge G u (ch_id c) else js_return ())"

fun progress_all :: "'s game_db \<Rightarrow> string \<Rightarrow> string \<Rightarrow> challenge list \<Rightarrow> ('s, game_error, unit) js_method" where
  "progress_all G u actionType [] = js_return ()"
| "progress_all G u actionType (c # challenges) =
     js_then (js_pure (gd_parse G (ch_requirement c))) (\<lambda>req.
       js_then (if rq_actionType req = Some actionType then progress_one G u c req else js_return ()) (\<lambda>_.
         progress_all G u actionType challenges))"

definition update_challenge_progress :: "'s game_db \<Rightarrow> string \<Rightarrow> string \<Rightarrow> ('s, game_error, unit) js_method" where
  "update_challenge_progress G u actionType = js_swallow
     (\<lambda>s. js_then (gd_findChallenges G (\<lambda>c. ch_isActive c \<and> ch_startDate c \<le> gd_now G s \<and> gd_now G s \<le> ch_endDate c))
       (progress_all G u actionType) s)"

section \<open>Events\<close>

definition days_between :: "int \<Rightarrow> int \<Rightarrow> int" where
  "days_between earlier now = (now - earlier) div 86400000"

text \<open>The streak after a contribution at \<open>now\<close>, and whether it earns the bonus.\<close>

definition contribution_streak :: "int option \<Rightarrow> int \<Rightarrow> int \<Rightarrow> int \<times> bool" where
  "contribution_streak lastContribution streak now =
     (case lastContribution of
        None \<Rightarrow> (1, False)
      | Some t \<Rightarrow>
          let daysDiff = days_between t now
          in if daysDiff = 1 then (streak + 1, True) else if daysDiff > 1 then (1, False) else (streak, False))"

text \<open>\<open>handleContribution\<close> after its points: the streak, then the achievements and challenges.\<close>

definition record_streak :: "'s game_db \<Rightarrow> string \<Rightarrow> int \<Rightarrow> int \<Rightarrow> bool \<Rightarrow> ('s, game_error, int \<times> int) js_method" where
  "record_streak G u now newStreak bonus =
     js_then (if bonus then js_then (award_points G u streak_points ''contribution streak'') (\<lambda>_. js_return ())
              else js_return ()) (\<lambda>_.
       js_then (gd_updateProfile G u (\<lambda>p. p\<lparr>gp_contributionStreak := newStreak, gp_lastContribution := Some now\<rparr>)) (\<lambda>_.
         js_then (check_achievements G u) (\<lambda>_.
           js_then (update_challenge_progress G u ''CONTRIBUTION'') (\<lambda>_.
             js_return (contribution_points, newStreak)))))"

definition handle_contribution :: "'s game_db \<Rightarrow> string \<Rightarrow> ('s, game_error, int \<times> int) js_method" where
  "handle_contribution G u =
     js_then (initialize_user_gamification G u) (\<lambda>gamification.
       js_then (award_points G u contribution_points ''making a contribution'') (\<lambda>_ s.
         let now = gd_now G s;
             streak = contribution_streak (gp_lastContribution gamification) (gp_contributionStreak gamification) now
         in record_streak G u now (fst streak) (snd streak) s))"

definition handle_group_completion :: "'s game_db \<Rightarrow> string \<Rightarrow> ('s, game_error, unit) js_method" where
  "handle_group_completion G u =
     js_then (award_points G u group_points ''completing a group'') (\<lambda>_.
       js_then (gd_updateProfile G u (\<lambda>p. p\<lparr>gp_groupsCompleted := gp_groupsCompleted p + 1\<rparr>)) (\<lambda>_.
         js_then (create_activity G u GroupCompleteActivity ''Group Completed'' ''Successfully completed a savings group'') (\<lambda>_.
           js_then (check_achievements G u) (\<lambda>_. update_challenge_progress G u ''GROUP_COMPLETE''))))"

definition handle_invite :: "'s game_db \<Rightarrow> string \<Rightarrow> ('s, game_error, unit) js_method" where
  "handle_invite G u =
     js_then (award_points G u invite_points ''inviting a friend'') (\<lambda>_.
       js_then (gd_updateProfile G u (\<lambda>p. p\<lparr>gp_totalInvites := gp_totalInvites p + 1\<rparr>)) (\<lambda>_.
         js_then (check_achievements G u) (\<lambda>_. update_challenge_progress G u ''INVITE'')))"

definition is_different_day :: "(int \<Rightarrow> int \<times> int \<times> int) \<Rightarrow> int \<Rightarrow> int \<Rightarrow> bool" where
  "is_different_day date d1 d2 = (date d1 \<noteq> date d2)"

definition login_streak :: "int option \<Rightarrow> int \<Rightarrow> int \<Rightarrow> int" where
  "login_streak lastLogin streak now =
     (case lastLogin of None \<Rightarrow> 1 | Some t \<Rightarrow> if days_between t now = 1 then streak + 1 else 1)"

definition handle_login :: "'s game_db \<Rightarrow> string \<Rightarrow> ('s, game_error, unit) js_method" where
  "handle_login G u =
     js_then (initialize_user_gamification G u) (\<lambda>gamification s.
       let now = gd_now G s
       in if (case gp_lastLogin gamification of None \<Rightarrow> True | Some t \<Rightarrow> is_different_day (gd_date G) t now)
          then js_then (award_points G u login_points ''daily login'') (\<lambda>_.
                 js_then (gd_updateProfile G u (\<lambda>p. p\<lparr>gp_loginStreak := login_streak (gp_lastLogin gamification) (gp_loginStreak gamification) now,
                     gp_lastLogin := Some now\<rparr>)) (\<lambda>_.
                   update_challenge_progress G u ''LOGIN'')) s
          else (Inr (), s))"

definition follow_user :: "'s game_db \<Rightarrow> string \<Rightarrow> string \<Rightarrow> ('s, game_error, unit) js_method" where
  "follow_user G followerId followingId =
     js_then (gd_createFollow G followerId followingId) (\<lambda>_. update_challenge_progress G followerId ''FOLLOW'')"

definition unfollow_user :: "'s game_db \<Rightarrow> string \<Rightarrow> string \<Rightarrow> ('s, game_error, unit) js_method" where
  "unfollow_user G followerId followingId = gd_deleteFollows G followerId followingId"


section \<open>Levels are ordered\<close>

definition level_rank :: "user_level \<Rightarrow> nat" where
  "level_rank l = (case l of Bronze \<Rightarrow> 0 | Silver \<Rightarrow> 1 | Gold \<Rightarrow> 2 | Platinum \<Rightarrow> 3)"

lemma level_rank_inj: "level_rank l = level_rank k \<Longrightarrow> l = k"
  by (cases l; cases k) (simp_all add: level_rank_def)

instantiation user_level :: linorder
begin

definition less_eq_user_level :: "user_level \<Rightarrow> user_level \<Rightarrow> bool" where
  "less_eq_user_level l k \<longleftrightarrow> level_rank l \<le> level_rank k"

definition less_user_level :: "user_level \<Rightarrow> user_level \<Rightarrow> bool" where
  "less_user_level l k \<longleftrightarrow> level_rank l < level_rank k"

instance
  by standard (auto simp: less_eq_user_level_def less_user_level_def intro: level_rank_inj)

end

lemma calculate_level_mono: "a \<le> b \<Longrightarrow> calculate_level a \<le> calculate_level b"
  by (simp add: calculate_level_def less_eq_user_level_def level_rank_def)

lemma bronze_least [simp]: "Bronze \<le> l"
  by (simp add: less_eq_user_level_def level_rank_def)

section \<open>The database\<close>

record game_tables =
  tb_profiles :: "string \<rightharpoonup> game_profile"
  tb_unlocked :: "(string \<times> string) set"
  tb_progress :: "(string \<times> string) \<rightharpoonup> user_challenge"

text \<open>The catalogues of achievements and challenges do not change.\<close>

definition game_laws :: "'s game_db \<Rightarrow> ('s \<Rightarrow> game_tables) \<Rightarrow> achievement list \<Rightarrow> challenge list \<Rightarrow> bool" where
  "game_laws G view cat chs \<longleftrightarrow>
     (\<forall>u f d. db_writes view (gd_upsertProfile G u f d) (\<lambda>v r v'.
        r = (case tb_profiles v u of None \<Rightarrow> d | Some p \<Rightarrow> f p) \<and> v' = v\<lparr>tb_profiles := (tb_profiles v)(u \<mapsto> r)\<rparr>)) \<and>
     (\<forall>u f. db_writes view (gd_updateProfile G u f) (\<lambda>v r v'.
        \<exists>p. tb_profiles v u = Some p \<and> r = f p \<and> v' = v\<lparr>tb_profiles := (tb_profiles v)(u \<mapsto> r)\<rparr>)) \<and>
     (\<forall>u. db_reads view (gd_findProfile G u) (\<lambda>v r. r = tb_profiles v u)) \<and>
     (\<forall>u. db_reads view (gd_countContributions G u) (\<lambda>_ _. True)) \<and>
     db_reads view (gd_achievements G) (\<lambda>_ r. set r \<subseteq> set cat) \<and>
     (\<forall>a. db_reads view (gd_findAchievement G a) (\<lambda>_ r. r = find (\<lambda>x. ac_id x = a) cat)) \<and>
     (\<forall>u a. db_reads view (gd_unlocked G u a) (\<lambda>v r. r \<longleftrightarrow> (u, a) \<in> tb_unlocked v)) \<and>
     (\<forall>u a. db_writes view (gd_unlock G u a) (\<lambda>v r v'.
        (u, a) \<notin> tb_unlocked v \<and> v' = v\<lparr>tb_unlocked := insert (u, a) (tb_unlocked v)\<rparr>)) \<and>
     (\<forall>P. db_reads view (gd_findChallenges G P) (\<lambda>_ r. set r \<subseteq> set chs)) \<and>
     (\<forall>c. db_reads view (gd_findChallenge G c) (\<lambda>_ r. r = find (\<lambda>x. ch_id x = c) chs)) \<and>
     (\<forall>u c f d. db_writes view (gd_upsertProgress G u c f d) (\<lambda>v r v'.
        r = (case tb_progress v (u, c) of None \<Rightarrow> d | Some p \<Rightarrow> f p) \<and> v' = v\<lparr>tb_progress := (tb_progress v)((u, c) \<mapsto> r)\<rparr>)) \<and>
     (\<forall>u c f. db_writes view (gd_updateProgress G u c f) (\<lambda>v r v'.
        \<exists>p. tb_progress v (u, c) = Some p \<and> r = f p \<and> v' = v\<lparr>tb_progress := (tb_progress v)((u, c) \<mapsto> r)\<rparr>)) \<and>
     (\<forall>a. db_reads view (gd_createActivity G a) (\<lambda>_ _. True)) \<and>
     (\<forall>u w. db_reads view (gd_createFollow G u w) (\<lambda>_ _. True)) \<and>
     (\<forall>u w. db_reads view (gd_deleteFollows G u w) (\<lambda>_ _. True))"

lemma game_lawsD:
  assumes "game_laws G view cat chs"
  shows "db_writes view (gd_upsertProfile G u f d) (\<lambda>v r v'.
        r = (case tb_profiles v u of None \<Rightarrow> d | Some p \<Rightarrow> f p) \<and> v' = v\<lparr>tb_profiles := (tb_profiles v)(u \<mapsto> r)\<rparr>)"
    and "db_writes view (gd_updateProfile G u f) (\<lambda>v r v'.
        \<exists>p. tb_profiles v u = Some p \<and> r = f p \<and> v' = v\<lparr>tb_profiles := (tb_profiles v)(u \<mapsto> r)\<rparr>)"
    and "db_reads view (gd_findProfile G u) (\<lambda>v r. r = tb_profiles v u)"
    and "db_reads view (gd_countContributions G u) (\<lambda>_ _. True)"
    and "db_reads view (gd_achievements G) (\<lambda>_ r. set r \<subseteq> set cat)"
    and "db_reads view (gd_findAchievement G a) (\<lambda>_ r. r = find (\<lambda>x. ac_id x = a) cat)"
    and "db_reads view (gd_unlocked G u a) (\<lambda>v r. r \<longleftrightarrow> (u, a) \<in> tb_unlocked v)"
    and "db_writes view (gd_unlock G u a) (\<lambda>v r v'.
        (u, a) \<notin> tb_unlocked v \<and> v' = v\<lparr>tb_unlocked := insert (u, a) (tb_unlocked v)\<rparr>)"
    and "db_reads view (gd_findChallenges G P) (\<lambda>_ r. set r \<subseteq> set chs)"
    and "db_reads view (gd_findChallenge G c) (\<lambda>_ r. r = find (\<lambda>x. ch_id x = c) chs)"
    and "db_writes view (gd_upsertProgress G u c g e) (\<lambda>v r v'.
        r = (case tb_progress v (u, c) of None \<Rightarrow> e | Some p \<Rightarrow> g p) \<and> v' = v\<lparr>tb_progress := (tb_progress v)((u, c) \<mapsto> r)\<rparr>)"
    and "db_writes view (gd_updateProgress G u c g) (\<lambda>v r v'.
        \<exists>p. tb_progress v (u, c) = Some p \<and> r = g p \<and> v' = v\<lparr>tb_progress := (tb_progress v)((u, c) \<mapsto> r)\<rparr>)"
    and "db_reads view (gd_createActivity G av) (\<lambda>_ _. True)"
    and "db_reads view (gd_createFollow G u w) (\<lambda>_ _. True)"
    and "db_reads view (gd_deleteFollows G u w) (\<lambda>_ _. True)"
  using assms unfolding game_laws_def by simp_all

section \<open>An award and the level\<close>

lemma create_activity_spec:
  assumes "game_laws G view cat chs"
  shows "js_spec (\<lambda>s. P (view s)) (create_activity G u kind title description) (\<lambda>_ s. P (view s)) E"
  unfolding create_activity_def
  by (rule js_spec_swallow, rule js_spec_post [OF db_reads_spec [OF game_lawsD(13) [OF assms]]]) simp_all

definition with_award :: "int \<Rightarrow> game_profile option \<Rightarrow> game_profile" where
  "with_award points p = (case p of None \<Rightarrow> new_profile points | Some q \<Rightarrow> q\<lparr>gp_points := gp_points q + points\<rparr>)"

text \<open>
  The three tables an award can leave behind: the old ones when it could not be written, those with
  the points but the old level when the level could not be written, and those with both.
\<close>

definition awarded :: "string \<Rightarrow> int \<Rightarrow> game_tables \<Rightarrow> game_tables" where
  "awarded u points v = v\<lparr>tb_profiles := (tb_profiles v)(u \<mapsto> with_award points (tb_profiles v u))\<rparr>"

definition leveled :: "string \<Rightarrow> int \<Rightarrow> game_tables \<Rightarrow> game_tables" where
  "leveled u points v = (let p = with_award points (tb_profiles v u)
     in v\<lparr>tb_profiles := (tb_profiles v)(u \<mapsto> p\<lparr>gp_level := calculate_level (gp_points p)\<rparr>)\<rparr>)"

lemma award_points_spec:
  assumes "game_laws G view cat chs"
  shows "js_spec (\<lambda>s. view s = v) (award_points G u points reason)
    (\<lambda>_ s. view s = leveled u points v) (\<lambda>s. view s \<in> {v, awarded u points v, leveled u points v})"
    (is "js_spec _ _ _ ?E")
  unfolding award_points_def
proof (rule js_spec_then [OF db_writes_spec [OF game_lawsD(1) [OF assms], where P = "\<lambda>w. w = v"
          and Q = "\<lambda>r w. r = with_award points (tb_profiles v u) \<and> w = awarded u points v"
          and E = "\<lambda>w. w \<in> {v, awarded u points v, leveled u points v}"]])
  fix r
  have same: "calculate_level (gp_points r) = gp_level r \<Longrightarrow> r = with_award points (tb_profiles v u) \<Longrightarrow>
      awarded u points v = leveled u points v"
    by (simp add: awarded_def leveled_def Let_def)
  have lift: "js_spec (\<lambda>s. r = with_award points (tb_profiles v u) \<and> view s = awarded u points v)
      (level_up G u (calculate_level (gp_points r))) (\<lambda>_ s. view s = leveled u points v) ?E"
    unfolding level_up_def
    by (rule js_spec_then [OF db_writes_spec [OF game_lawsD(2) [OF assms],
            where P = "\<lambda>w. r = with_award points (tb_profiles v u) \<and> w = awarded u points v"
              and Q = "\<lambda>_ w. w = leveled u points v"]])
       (auto simp: awarded_def leveled_def Let_def intro: create_activity_spec [OF assms, where P = "\<lambda>w. w = _"])
  have level: "js_spec (\<lambda>s. r = with_award points (tb_profiles v u) \<and> view s = awarded u points v)
      (if calculate_level (gp_points r) \<noteq> gp_level r then level_up G u (calculate_level (gp_points r)) else js_return ())
      (\<lambda>_ s. view s = leveled u points v) ?E"
  proof (rule js_spec_if)
    show "js_spec (\<lambda>s. (r = with_award points (tb_profiles v u) \<and> view s = awarded u points v)
          \<and> calculate_level (gp_points r) \<noteq> gp_level r)
        (level_up G u (calculate_level (gp_points r))) (\<lambda>_ s. view s = leveled u points v) ?E"
      by (rule js_spec_pre [OF lift]) simp
    show "js_spec (\<lambda>s. (r = with_award points (tb_profiles v u) \<and> view s = awarded u points v)
          \<and> \<not> calculate_level (gp_points r) \<noteq> gp_level r)
        (js_return ()) (\<lambda>_ s. view s = leveled u points v) ?E"
      by (rule js_spec_return) (use same in metis)
  qed
  show "js_spec (\<lambda>s. r = with_award points (tb_profiles v u) \<and> view s = awarded u points v)
      (js_then (if calculate_level (gp_points r) \<noteq> gp_level r
                then level_up G u (calculate_level (gp_points r)) else js_return ()) (\<lambda>_.
         js_then (create_activity G u ContributionActivity ''Points Earned''
                    (''Earned '' @ show_int points @ '' points for '' @ reason)) (\<lambda>_. js_return r)))
      (\<lambda>_ s. view s = leveled u points v) ?E"
    by (rule js_spec_then [OF level], rule js_spec_then [OF create_activity_spec [OF assms]], rule js_spec_return)
qed (auto simp: with_award_def awarded_def split: option.split)

text \<open>An award that returns leaves the user's profile with the points added and the level they make.\<close>

theorem award_points_effect:
  assumes "game_laws G view cat chs" and "award_points G u points reason s = (Inr r, s')"
    and "tb_profiles (view s) u = Some p"
  shows "view s' = (view s)\<lparr>tb_profiles := (tb_profiles (view s))(u \<mapsto>
      p\<lparr>gp_points := gp_points p + points, gp_level := calculate_level (gp_points p + points)\<rparr>)\<rparr>"
  using js_specD [OF award_points_spec [OF assms(1), of "view s"] refl assms(2)] assms(3)
  by (simp add: leveled_def with_award_def Let_def)


section \<open>No level ahead of its points\<close>

definition levels_ok :: "game_tables \<Rightarrow> bool" where
  "levels_ok v \<longleftrightarrow> (\<forall>u p. tb_profiles v u = Some p \<longrightarrow> gp_level p \<le> calculate_level (gp_points p))"

text \<open>What one user has been paid for unlocked achievements and completed challenges.\<close>

definition completed :: "game_tables \<Rightarrow> string \<Rightarrow> string \<Rightarrow> bool" where
  "completed v u c \<longleftrightarrow> (case tb_progress v (u, c) of None \<Rightarrow> False | Some x \<Rightarrow> uc_completed x)"

definition prizes :: "achievement list \<Rightarrow> challenge list \<Rightarrow> game_tables \<Rightarrow> string \<Rightarrow> int" where
  "prizes cat chs v u =
     (\<Sum>a \<leftarrow> cat. if (u, ac_id a) \<in> tb_unlocked v then ac_points a else 0) +
     (\<Sum>c \<leftarrow> chs. if completed v u (ch_id c) then ch_points c else 0)"

definition points_of :: "game_tables \<Rightarrow> string \<Rightarrow> int" where
  "points_of v u = (case tb_profiles v u of None \<Rightarrow> 0 | Some p \<Rightarrow> gp_points p)"

definition balance :: "achievement list \<Rightarrow> challenge list \<Rightarrow> string \<Rightarrow> game_tables \<Rightarrow> int" where
  "balance cat chs u v = points_of v u - prizes cat chs v u"

definition no_fines :: "achievement list \<Rightarrow> challenge list \<Rightarrow> bool" where
  "no_fines cat chs \<longleftrightarrow> (\<forall>a \<in> set cat. 0 \<le> ac_points a) \<and> (\<forall>c \<in> set chs. 0 \<le> ch_points c)"

text \<open>The invariant, and the balance of one user bounded by \<open>n\<close>.\<close>

definition sound :: "achievement list \<Rightarrow> challenge list \<Rightarrow> string \<Rightarrow> int \<Rightarrow> game_tables \<Rightarrow> bool" where
  "sound cat chs u n v \<longleftrightarrow> levels_ok v \<and> balance cat chs u v \<le> n"

text \<open>A method that raises the balance by at most \<open>k\<close>, whether it returns or throws.\<close>

definition raises ::
  "('s \<Rightarrow> game_tables) \<Rightarrow> (int \<Rightarrow> game_tables \<Rightarrow> bool) \<Rightarrow> int \<Rightarrow> ('s, game_error, 'r) js_method \<Rightarrow> bool" where
  "raises view I k m \<longleftrightarrow> (\<forall>n s. I n (view s) \<longrightarrow> I (n + k) (view (snd (m s))))"

lemma raisesI: "(\<And>n s. I n (view s) \<Longrightarrow> I (n + k) (view (snd (m s)))) \<Longrightarrow> raises view I k m"
  by (simp add: raises_def)

lemma raisesD: "raises view I k m \<Longrightarrow> I n (view s) \<Longrightarrow> I (n + k) (view (snd (m s)))"
  by (simp add: raises_def)

lemma raises_spec: "raises view I k m \<Longrightarrow> js_spec (\<lambda>s. I n (view s)) m (\<lambda>_ s. I (n + k) (view s)) (\<lambda>s. I (n + k) (view s))"
proof (rule js_specI)
  fix s x s' assume "raises view I k m" and "I n (view s)" and "m s = (x, s')"
  then have "I (n + k) (view s')" using raisesD [of view I k m n s] by simp
  then show "js_outcome (\<lambda>s. I (n + k) (view s)) (\<lambda>_ s. I (n + k) (view s)) (x, s')" by (cases x) simp_all
qed

lemma spec_raises:
  assumes "\<And>n. js_spec (\<lambda>s. I n (view s)) m (\<lambda>_ s. I (n + k) (view s)) (\<lambda>s. I (n + k) (view s))"
  shows "raises view I k m"
proof (rule raisesI)
  fix n s assume i: "I n (view s)"
  obtain x s' where m: "m s = (x, s')" by (rule prod.exhaust)
  from js_specD [OF assms i m] show "I (n + k) (view (snd (m s)))" using m by (cases x) simp_all
qed

lemmas spec_raises_0 = spec_raises [where k = 0, unfolded add_0_right]
  and raises_spec_0 = raises_spec [where k = 0, unfolded add_0_right]

text \<open>The calculus of bounds, for any family of invariants that only grows weaker.\<close>

locale growing =
  fixes I :: "int \<Rightarrow> game_tables \<Rightarrow> bool"
  assumes weaker: "n \<le> m \<Longrightarrow> I n v \<Longrightarrow> I m v"
begin

lemma more: "0 \<le> k \<Longrightarrow> I n v \<Longrightarrow> I (n + k) v"
  by (rule weaker [of n]) simp_all

lemma raises_then:
  assumes "raises view I k m" and "\<And>r. raises view I l (f r)" and "0 \<le> l"
  shows "raises view I (k + l) (js_then m f)"
proof (rule raisesI)
  fix n s assume i: "I n (view s)"
  obtain x s1 where m: "m s = (x, s1)" by (rule prod.exhaust)
  have "I (n + k) (view s1)" using raisesD [of view I k m n s] assms(1) i m by simp
  then have "I (n + k + l) (view s1)" "I (n + k + l) (view (snd (f r s1)))" for r
    using more [OF assms(3)] raisesD [of view I l "f r" "n + k" s1] assms(2) by simp_all
  then show "I (n + (k + l)) (view (snd (js_then m f s)))"
    using m by (cases x) (simp_all add: js_then_def add.assoc)
qed

lemma raises_then_free:
  "raises view I k m \<Longrightarrow> (\<And>r. raises view I 0 (f r)) \<Longrightarrow> raises view I k (js_then m f)"
  using raises_then [of view k m 0 f] by simp

lemma raises_after_free:
  "raises view I 0 m \<Longrightarrow> (\<And>r. raises view I k (f r)) \<Longrightarrow> 0 \<le> k \<Longrightarrow> raises view I k (js_then m f)"
  using raises_then [of view 0 m k f] by simp

lemma raises_more:
  assumes "raises view I k m" and "k \<le> l"
  shows "raises view I l m"
proof (rule raisesI)
  fix n s assume "I n (view s)"
  then have "I (n + k) (view (snd (m s)))" by (rule raisesD [OF assms(1)])
  then show "I (n + l) (view (snd (m s)))" by (rule weaker [rotated]) (simp add: assms(2))
qed

lemma raises_return: "0 \<le> k \<Longrightarrow> raises view I k (js_return r)"
  by (rule raisesI) (simp add: more)

lemma raises_pure: "0 \<le> k \<Longrightarrow> raises view I k (js_pure x)"
  by (rule raisesI) (simp add: more)

lemma raises_swallow: "raises view I k m \<Longrightarrow> raises view I k (js_swallow m)"
  by (simp add: raises_def js_swallow_def)

lemma raises_reads:
  assumes "db_reads view m answer" and "0 \<le> k"
  shows "raises view I k m"
proof (rule raisesI)
  fix n s assume "I n (view s)"
  moreover have "view (snd (m s)) = view s" using assms(1) unfolding db_reads_def by (metis prod.collapse)
  ultimately show "I (n + k) (view (snd (m s)))" using more [OF assms(2)] by simp
qed

lemma raises_state: "(\<And>s. raises view I k (m s)) \<Longrightarrow> raises view I k (\<lambda>s. m s s)"
  by (simp add: raises_def)

lemma raises_writes:
  assumes "db_writes view m effect" and "\<And>v r v' n. effect v r v' \<Longrightarrow> I n v \<Longrightarrow> I (n + k) v'" and "0 \<le> k"
  shows "raises view I k m"
  by (rule spec_raises, rule db_writes_spec [OF assms(1)]) (simp_all add: assms(2) more [OF assms(3)])

lemma raises_fold:
  assumes "\<And>c s n. I n (view s) \<Longrightarrow> I (n + cost c) (view (run c s))" and "I n (view s)"
  shows "I (n + (\<Sum>c \<leftarrow> calls. cost c)) (view (fold run calls s))"
  using assms(2)
proof (induction calls arbitrary: s n)
  case (Cons c calls)
  then show ?case using assms(1) [OF Cons.prems] by (fastforce simp: add.assoc)
qed simp

end

lemma sound_weaker: "n \<le> m \<Longrightarrow> sound cat chs u n v \<Longrightarrow> sound cat chs u m v"
  by (simp add: sound_def)

interpretation ledger: growing "sound cat chs u"
  by unfold_locales (rule sound_weaker)


section \<open>What each operation can raise\<close>

lemma with_award_points: "gp_points (with_award points (tb_profiles v w)) = points_of v w + points"
  by (simp add: with_award_def points_of_def new_profile_def split: option.split)

lemma balance_profiles:
  "balance cat chs u (v\<lparr>tb_profiles := (tb_profiles v)(w \<mapsto> p)\<rparr>) =
     balance cat chs u v + (if w = u then gp_points p - points_of v u else 0)"
  by (simp add: balance_def prizes_def points_of_def completed_def)

lemma levels_profiles:
  "levels_ok v \<Longrightarrow> gp_level p \<le> calculate_level (gp_points p) \<Longrightarrow> levels_ok (v\<lparr>tb_profiles := (tb_profiles v)(w \<mapsto> p)\<rparr>)"
  by (simp add: levels_ok_def)

lemma with_award_level:
  assumes "levels_ok v" and "0 \<le> points"
  shows "gp_level (with_award points (tb_profiles v w)) \<le> calculate_level (gp_points (with_award points (tb_profiles v w)))"
proof (cases "tb_profiles v w")
  case None
  then show ?thesis by (simp add: with_award_def new_profile_def)
next
  case (Some p)
  then have "gp_level p \<le> calculate_level (gp_points p)" using assms(1) by (simp add: levels_ok_def)
  also have "\<dots> \<le> calculate_level (gp_points p + points)" using assms(2) by (simp add: calculate_level_mono)
  finally show ?thesis using Some by (simp add: with_award_def)
qed

lemma raises_award:
  assumes "game_laws G view cat chs" and "0 \<le> points"
  shows "raises view (sound cat chs u) (if w = u then points else 0) (award_points G w points reason)"
proof (rule raisesI)
  fix n s assume i: "sound cat chs u n (view s)"
  obtain x s' where m: "award_points G w points reason s = (x, s')" by (rule prod.exhaust)
  have "view s' \<in> {view s, awarded w points (view s), leveled w points (view s)}"
    using js_specD [OF award_points_spec [OF assms(1), of "view s"] refl m] by (cases x) simp_all
  moreover have "sound cat chs u (n + (if w = u then points else 0)) v'"
    if "v' \<in> {view s, awarded w points (view s), leveled w points (view s)}" for v'
    using that i assms(2) with_award_level [of "view s" points w]
    by (auto simp: sound_def awarded_def leveled_def Let_def balance_profiles with_award_points intro!: levels_profiles)
  ultimately show "sound cat chs u (n + (if w = u then points else 0)) (view (snd (award_points G w points reason s)))"
    using m by simp
qed

lemma raises_update:
  assumes "game_laws G view cat chs" and "\<And>p. gp_points (f p) = gp_points p" and "\<And>p. gp_level (f p) = gp_level p"
  shows "raises view (sound cat chs u) 0 (gd_updateProfile G w f)"
  by (rule ledger.raises_writes [OF game_lawsD(2) [OF assms(1)]])
     (auto simp: sound_def balance_profiles points_of_def assms(2,3) levels_ok_def split: if_splits)

lemma raises_initialize:
  assumes "game_laws G view cat chs"
  shows "raises view (sound cat chs u) 0 (initialize_user_gamification G w)"
  unfolding initialize_user_gamification_def
  by (rule ledger.raises_writes [OF game_lawsD(1) [OF assms]])
     (auto simp: sound_def balance_profiles points_of_def new_profile_def levels_ok_def split: option.splits)

lemma raises_activity:
  assumes "game_laws G view cat chs"
  shows "raises view (sound cat chs u) 0 (create_activity G w kind title description)"
  unfolding create_activity_def
  by (rule ledger.raises_swallow, rule ledger.raises_reads [OF game_lawsD(13) [OF assms]]) simp

text \<open>Unlocking pays into the prizes what the award then adds to the points.\<close>

lemma sum_list_grows:
  assumes "\<And>a. a \<in> set xs \<Longrightarrow> f a \<le> (g a :: int)" and "b \<in> set xs" and "f b + d \<le> g b"
  shows "(\<Sum>a \<leftarrow> xs. f a) + d \<le> (\<Sum>a \<leftarrow> xs. g a)"
  using assms
proof (induction xs)
  case (Cons x xs)
  show ?case
  proof (cases "b = x")
    case True
    moreover have "(\<Sum>a \<leftarrow> xs. f a) \<le> (\<Sum>a \<leftarrow> xs. g a)" using Cons.prems(1) by (intro sum_list_mono) simp
    ultimately show ?thesis using Cons.prems(3) by simp
  next
    case False
    then show ?thesis using Cons by fastforce
  qed
qed simp

lemma unlock_balance:
  assumes "no_fines cat chs" and "find (\<lambda>x. ac_id x = i) cat = Some a" and "(w, i) \<notin> tb_unlocked v"
  shows "balance cat chs u (v\<lparr>tb_unlocked := insert (w, i) (tb_unlocked v)\<rparr>) \<le> balance cat chs u v - (if w = u then ac_points a else 0)"
proof -
  have a: "a \<in> set cat" "ac_id a = i" using assms(2) by (auto simp: find_Some_iff)
  have "(\<Sum>x \<leftarrow> cat. if (u, ac_id x) \<in> tb_unlocked v then ac_points x else 0) + (if w = u then ac_points a else 0)
      \<le> (\<Sum>x \<leftarrow> cat. if (u, ac_id x) \<in> insert (w, i) (tb_unlocked v) then ac_points x else 0)"
    by (rule sum_list_grows [OF _ a(1)]) (use assms(1,3) a in \<open>auto simp: no_fines_def\<close>)
  then show ?thesis by (simp add: balance_def prizes_def points_of_def completed_def)
qed

lemma pay_achievement_spec:
  assumes "game_laws G view cat chs" and "no_fines cat chs" and "find (\<lambda>x. ac_id x = i) cat = Some a"
  shows "js_spec (\<lambda>s. sound cat chs u n (view s) \<and> (w, i) \<notin> tb_unlocked (view s)) (pay_achievement G w i a)
    (\<lambda>_ s. sound cat chs u n (view s)) (\<lambda>s. sound cat chs u n (view s))"
proof -
  let ?k = "if w = u then ac_points a else 0"
  have "raises view (sound cat chs u) ?k
      (js_then (award_points G w (ac_points a) (''unlocking '' @ ac_name a)) (\<lambda>_.
         create_activity G w AchievementActivity ''Achievement Unlocked!'' (''Unlocked: '' @ ac_name a)))"
    using assms(2,3)
    by (intro ledger.raises_then_free raises_award [OF assms(1)] raises_activity [OF assms(1)])
       (auto simp: no_fines_def find_Some_iff)
  then have body: "js_spec (\<lambda>s. sound cat chs u (n - ?k) (view s))
      (js_then (award_points G w (ac_points a) (''unlocking '' @ ac_name a)) (\<lambda>_.
         create_activity G w AchievementActivity ''Achievement Unlocked!'' (''Unlocked: '' @ ac_name a)))
      (\<lambda>_ s. sound cat chs u n (view s)) (\<lambda>s. sound cat chs u n (view s))"
    using raises_spec [of view "sound cat chs u" ?k _ "n - ?k"] by (simp only: diff_add_cancel)
  have unlock: "sound cat chs u (n - ?k) (v\<lparr>tb_unlocked := insert (w, i) (tb_unlocked v)\<rparr>)"
    if "sound cat chs u n v" "(w, i) \<notin> tb_unlocked v" for v
    using unlock_balance [OF assms(2,3) that(2), of u] that(1) by (auto simp: sound_def levels_ok_def)
  show ?thesis
    unfolding pay_achievement_def
    by (rule js_spec_then [OF db_writes_spec [OF game_lawsD(8) [OF assms(1)],
            where P = "\<lambda>v. sound cat chs u n v \<and> (w, i) \<notin> tb_unlocked v"
              and Q = "\<lambda>_ v. sound cat chs u (n - ?k) v" and E = "sound cat chs u n"] body])
       (simp_all add: unlock)
qed

lemma raises_award_achievement:
  assumes "game_laws G view cat chs" and "no_fines cat chs"
  shows "raises view (sound cat chs u) 0 (award_achievement G w i)"
  unfolding award_achievement_def
proof (rule ledger.raises_swallow, rule spec_raises_0,
       rule js_spec_then [OF db_reads_spec [OF game_lawsD(7) [OF assms(1)]]], rule js_spec_if)
  fix n existing
  let ?free = "\<lambda>v. sound cat chs u n v \<and> (w, i) \<notin> tb_unlocked v"
  have "js_spec (\<lambda>s. ?free (view s) \<and> found = find (\<lambda>x. ac_id x = i) cat)
      (case found of None \<Rightarrow> js_return () | Some a \<Rightarrow> pay_achievement G w i a)
      (\<lambda>_ s. sound cat chs u n (view s)) (\<lambda>s. sound cat chs u n (view s))" for found
  proof (rule js_spec_fact)
    assume f: "found = find (\<lambda>x. ac_id x = i) cat"
    show "js_spec (\<lambda>s. ?free (view s)) (case found of None \<Rightarrow> js_return () | Some a \<Rightarrow> pay_achievement G w i a)
        (\<lambda>_ s. sound cat chs u n (view s)) (\<lambda>s. sound cat chs u n (view s))"
      by (cases found) (use f [symmetric] pay_achievement_spec [OF assms] in \<open>auto intro: js_spec_return\<close>)
  qed
  then have "js_spec (\<lambda>s. ?free (view s)) (js_then (gd_findAchievement G i)
        (\<lambda>found. case found of None \<Rightarrow> js_return () | Some a \<Rightarrow> pay_achievement G w i a))
      (\<lambda>_ s. sound cat chs u n (view s)) (\<lambda>s. sound cat chs u n (view s))"
    by (intro db_reads_then [OF game_lawsD(6) [OF assms(1)], where P = ?free]) simp_all
  then show "js_spec (\<lambda>s. (sound cat chs u n (view s) \<and> (existing \<longleftrightarrow> (w, i) \<in> tb_unlocked (view s))) \<and> \<not> existing)
      (js_then (gd_findAchievement G i) (\<lambda>found. case found of None \<Rightarrow> js_return () | Some a \<Rightarrow> pay_achievement G w i a))
      (\<lambda>_ s. sound cat chs u n (view s)) (\<lambda>s. sound cat chs u n (view s))"
    by (rule js_spec_pre) blast
qed (rule js_spec_return, simp)


lemma raises_award_all:
  assumes "game_laws G view cat chs" and "no_fines cat chs"
  shows "raises view (sound cat chs u) 0 (award_all G w p k achievements)"
proof (induction achievements)
  case (Cons a achievements)
  show ?case unfolding award_all.simps
    by (intro ledger.raises_then_free) (simp_all add: ledger.raises_pure raises_award_achievement [OF assms] ledger.raises_return Cons.IH)
next
  case Nil
  show ?case unfolding award_all.simps by (rule ledger.raises_return) simp
qed

lemma raises_check:
  assumes "game_laws G view cat chs" and "no_fines cat chs"
  shows "raises view (sound cat chs u) 0 (check_achievements G w)"
proof -
  have "raises view (sound cat chs u) 0 (case found of None \<Rightarrow> js_return () | Some gamification \<Rightarrow>
      js_then (gd_countContributions G w) (\<lambda>contributions.
        js_then (gd_achievements G) (award_all G w gamification contributions)))" for found
    by (cases found)
       (auto intro!: ledger.raises_return ledger.raises_then_free ledger.raises_reads [OF game_lawsD(4) [OF assms(1)]]
          ledger.raises_reads [OF game_lawsD(5) [OF assms(1)]] raises_award_all [OF assms])
  then show ?thesis
    unfolding check_achievements_def
    by (intro ledger.raises_swallow ledger.raises_then_free ledger.raises_reads [OF game_lawsD(3) [OF assms(1)]]) simp_all
qed

text \<open>Progress that keeps the completion flag leaves the prizes; completing raises them by the challenge's points.\<close>

lemma progress_balance:
  assumes "completed v w c = uc_completed x"
  shows "balance cat chs u (v\<lparr>tb_progress := (tb_progress v)((w, c) \<mapsto> x)\<rparr>) = balance cat chs u v"
proof -
  have "completed (v\<lparr>tb_progress := (tb_progress v)((w, c) \<mapsto> x)\<rparr>) u d = completed v u d" for d
    using assms by (auto simp: completed_def)
  then show ?thesis by (simp add: balance_def prizes_def points_of_def)
qed

lemma complete_balance:
  assumes "no_fines cat chs" and "find (\<lambda>x. ch_id x = i) chs = Some c" and "\<not> completed v w i" and "uc_completed x"
  shows "balance cat chs u (v\<lparr>tb_progress := (tb_progress v)((w, i) \<mapsto> x)\<rparr>) \<le> balance cat chs u v - (if w = u then ch_points c else 0)"
proof -
  let ?v = "v\<lparr>tb_progress := (tb_progress v)((w, i) \<mapsto> x)\<rparr>"
  have c: "c \<in> set chs" "ch_id c = i" using assms(2) by (auto simp: find_Some_iff)
  have d: "completed ?v u k \<longleftrightarrow> completed v u k \<or> u = w \<and> k = i" for k using assms(3,4) by (auto simp: completed_def)
  have "(\<Sum>x \<leftarrow> chs. if completed v u (ch_id x) then ch_points x else 0) + (if w = u then ch_points c else 0)
      \<le> (\<Sum>x \<leftarrow> chs. if completed v u (ch_id x) \<or> u = w \<and> ch_id x = i then ch_points x else 0)"
    by (rule sum_list_grows [OF _ c(1)]) (use assms(1,3) c in \<open>auto simp: no_fines_def\<close>)
  then show ?thesis by (simp add: balance_def prizes_def points_of_def d)
qed

lemma pay_challenge_spec:
  assumes "game_laws G view cat chs" and "no_fines cat chs" and "find (\<lambda>x. ch_id x = i) chs = Some c"
  shows "js_spec (\<lambda>s. sound cat chs u n (view s) \<and> \<not> completed (view s) w i) (pay_challenge G w i c)
    (\<lambda>_ s. sound cat chs u n (view s)) (\<lambda>s. sound cat chs u n (view s))"
proof -
  let ?k = "if w = u then ch_points c else 0"
  let ?free = "\<lambda>v. sound cat chs u n v \<and> \<not> completed v w i"
  have "raises view (sound cat chs u) ?k
      (js_then (award_points G w (ch_points c) (''completing '' @ ch_name c)) (\<lambda>_.
         create_activity G w ChallengeActivity ''Challenge Completed!'' (''Completed: '' @ ch_name c)))"
    using assms(2,3)
    by (intro ledger.raises_then_free raises_award [OF assms(1)] raises_activity [OF assms(1)])
       (auto simp: no_fines_def find_Some_iff)
  then have body: "js_spec (\<lambda>s. sound cat chs u (n - ?k) (view s))
      (js_then (award_points G w (ch_points c) (''completing '' @ ch_name c)) (\<lambda>_.
         create_activity G w ChallengeActivity ''Challenge Completed!'' (''Completed: '' @ ch_name c)))
      (\<lambda>_ s. sound cat chs u n (view s)) (\<lambda>s. sound cat chs u n (view s))"
    using raises_spec [of view "sound cat chs u" ?k _ "n - ?k"] by (simp only: diff_add_cancel)
  have flag: "sound cat chs u (n - ?k) (v\<lparr>tb_progress := (tb_progress v)((w, i) \<mapsto> x)\<rparr>)" if "?free v" "uc_completed x" for v x
    using complete_balance [OF assms(2,3) _ that(2), of v w u] that(1) by (auto simp: sound_def levels_ok_def)
  have "js_spec (\<lambda>s. ?free (view s)) (\<lambda>s. gd_updateProgress G w i (f s) s)
      (\<lambda>_ s. sound cat chs u (n - ?k) (view s)) (\<lambda>s. sound cat chs u n (view s))"
    if "\<And>s x. uc_completed (f s x)" for f
  proof -
    have "js_spec (\<lambda>s. ?free (view s)) (gd_updateProgress G w i g)
        (\<lambda>_ s. sound cat chs u (n - ?k) (view s)) (\<lambda>s. sound cat chs u n (view s))" if "\<And>x. uc_completed (g x)" for g
      by (rule db_writes_spec [OF game_lawsD(12) [OF assms(1)], where P = ?free]) (use that flag in auto)
    then show ?thesis using that unfolding js_spec_def by blast
  qed
  then show ?thesis unfolding pay_challenge_def by (intro js_spec_then [OF _ body]) simp
qed

lemma complete_challenge_spec:
  assumes "game_laws G view cat chs" and "no_fines cat chs"
  shows "js_spec (\<lambda>s. sound cat chs u n (view s) \<and> \<not> completed (view s) w i) (complete_challenge G w i)
    (\<lambda>_ s. sound cat chs u n (view s)) (\<lambda>s. sound cat chs u n (view s))"
  unfolding complete_challenge_def
proof (rule js_spec_swallow, rule db_reads_then [OF game_lawsD(10) [OF assms(1)],
          where P = "\<lambda>v. sound cat chs u n v \<and> \<not> completed v w i"])
  fix found
  show "js_spec (\<lambda>s. (sound cat chs u n (view s) \<and> \<not> completed (view s) w i) \<and> found = find (\<lambda>x. ch_id x = i) chs)
      (case found of None \<Rightarrow> js_return () | Some c \<Rightarrow> pay_challenge G w i c)
      (\<lambda>_ s. sound cat chs u n (view s)) (\<lambda>s. sound cat chs u n (view s))"
  proof (rule js_spec_fact)
    assume f: "found = find (\<lambda>x. ch_id x = i) chs"
    show "js_spec (\<lambda>s. sound cat chs u n (view s) \<and> \<not> completed (view s) w i)
        (case found of None \<Rightarrow> js_return () | Some c \<Rightarrow> pay_challenge G w i c)
        (\<lambda>_ s. sound cat chs u n (view s)) (\<lambda>s. sound cat chs u n (view s))"
      by (cases found) (use f [symmetric] pay_challenge_spec [OF assms] in \<open>auto intro: js_spec_return\<close>)
  qed
qed auto


lemma raises_progress_one:
  assumes "game_laws G view cat chs" and "no_fines cat chs"
  shows "raises view (sound cat chs u) 0 (progress_one G w c req)"
  unfolding progress_one_def
proof (rule spec_raises_0, rule js_spec_then)
  fix n
  let ?Q = "\<lambda>r v. sound cat chs u n v \<and> (completed v w (ch_id c) \<longleftrightarrow> uc_completed r)"
  show "js_spec (\<lambda>s. sound cat chs u n (view s))
      (gd_upsertProgress G w (ch_id c) (\<lambda>x. x\<lparr>uc_progress := uc_progress x + 1\<rparr>)
        \<lparr>uc_progress = 1, uc_completed = False, uc_completedAt = None\<rparr>)
      (\<lambda>r s. ?Q r (view s)) (\<lambda>s. sound cat chs u n (view s))"
  proof (rule db_writes_spec [OF game_lawsD(11) [OF assms(1)]])
    fix v r v'
    assume v: "sound cat chs u n v"
      and e: "r = (case tb_progress v (w, ch_id c) of None \<Rightarrow> \<lparr>uc_progress = 1, uc_completed = False, uc_completedAt = None\<rparr>
          | Some x \<Rightarrow> x\<lparr>uc_progress := uc_progress x + 1\<rparr>) \<and> v' = v\<lparr>tb_progress := (tb_progress v)((w, ch_id c) \<mapsto> r)\<rparr>"
    then have "completed v w (ch_id c) = uc_completed r" by (simp add: completed_def split: option.splits)
    from progress_balance [OF this, of cat chs u] show "?Q r v'"
      using v e by (auto simp: sound_def levels_ok_def completed_def)
  qed
  show "js_spec (\<lambda>s. ?Q r (view s))
      (if reaches (uc_progress r) (rq_target req) \<and> \<not> uc_completed r then complete_challenge G w (ch_id c) else js_return ())
      (\<lambda>_ s. sound cat chs u n (view s)) (\<lambda>s. sound cat chs u n (view s))" for r
    by (rule js_spec_if, rule js_spec_pre [OF complete_challenge_spec [OF assms]], blast, rule js_spec_return, blast)
qed

lemma raises_progress_all:
  assumes "game_laws G view cat chs" and "no_fines cat chs"
  shows "raises view (sound cat chs u) 0 (progress_all G w kind challenges)"
proof (induction challenges)
  case (Cons c challenges)
  show ?case unfolding progress_all.simps
    by (intro ledger.raises_then_free) (simp_all add: ledger.raises_pure raises_progress_one [OF assms] ledger.raises_return Cons.IH)
next
  case Nil
  show ?case unfolding progress_all.simps by (rule ledger.raises_return) simp
qed

lemma raises_progress:
  assumes "game_laws G view cat chs" and "no_fines cat chs"
  shows "raises view (sound cat chs u) 0 (update_challenge_progress G w kind)"
proof -
  have "raises view (sound cat chs u) 0 (js_then (gd_findChallenges G P) (progress_all G w kind))" for P
    by (intro ledger.raises_then_free raises_progress_all [OF assms] ledger.raises_reads [OF game_lawsD(9) [OF assms(1)]]) simp
  then show ?thesis unfolding update_challenge_progress_def by (intro ledger.raises_swallow) (simp add: raises_def)
qed

section \<open>Runs\<close>

datatype game_call =
    Contributed string
  | CompletedGroup string
  | Invited string
  | LoggedIn string
  | CheckedAchievements string
  | Followed string string
  | Unfollowed string string

fun game_call_run :: "'s game_db \<Rightarrow> game_call \<Rightarrow> 's \<Rightarrow> 's" where
  "game_call_run G (Contributed w) s = snd (handle_contribution G w s)"
| "game_call_run G (CompletedGroup w) s = snd (handle_group_completion G w s)"
| "game_call_run G (Invited w) s = snd (handle_invite G w s)"
| "game_call_run G (LoggedIn w) s = snd (handle_login G w s)"
| "game_call_run G (CheckedAchievements w) s = snd (check_achievements G w s)"
| "game_call_run G (Followed w x) s = snd (follow_user G w x s)"
| "game_call_run G (Unfollowed w x) s = snd (unfollow_user G w x s)"

text \<open>The most a call pays by itself to the user \<open>u\<close>.\<close>

fun base_points :: "string \<Rightarrow> game_call \<Rightarrow> int" where
  "base_points u (Contributed w) = (if w = u then contribution_points + streak_points else 0)"
| "base_points u (CompletedGroup w) = (if w = u then group_points else 0)"
| "base_points u (Invited w) = (if w = u then invite_points else 0)"
| "base_points u (LoggedIn w) = (if w = u then login_points else 0)"
| "base_points u _ = 0"

lemma raises_contribution:
  assumes "game_laws G view cat chs" and "no_fines cat chs"
  shows "raises view (sound cat chs u) (base_points u (Contributed w)) (handle_contribution G w)"
proof -
  have bonus: "raises view (sound cat chs u) (if w = u then streak_points else 0)
      (if b then js_then (award_points G w streak_points reason) (\<lambda>_. js_return ()) else js_return ())" for b reason
    using raises_award [OF assms(1), of streak_points u w] 
    by (auto simp: point_defs intro!: ledger.raises_then_free ledger.raises_return)
  have recorded: "raises view (sound cat chs u) (if w = u then streak_points else 0) (record_streak G w t k b)" for t k b
    unfolding record_streak_def
    by (intro ledger.raises_then_free bonus raises_update [OF assms(1)] raises_check [OF assms]
        raises_progress [OF assms] ledger.raises_return) simp_all
  have rest: "raises view (sound cat chs u) (if w = u then streak_points else 0)
      (\<lambda>s. let now = gd_now G s;
             streak = contribution_streak (gp_lastContribution p) (gp_contributionStreak p) now
         in record_streak G w now (fst streak) (snd streak) s)" for p
    by (rule raisesI) (simp only: Let_def raisesD [OF recorded])
  have sum: "base_points u (Contributed w) =
      (if w = u then contribution_points else 0) + (if w = u then streak_points else 0)" by simp
  show ?thesis
    unfolding handle_contribution_def sum
    by (intro ledger.raises_after_free [OF raises_initialize [OF assms(1)]] ledger.raises_then
        raises_award [OF assms(1)] rest) (simp_all add: point_defs)
qed

lemma raises_call:
  assumes "game_laws G view cat chs" and "no_fines cat chs"
  shows "sound cat chs u n (view s) \<Longrightarrow> sound cat chs u (n + base_points u c) (view (game_call_run G c s))"
proof (cases c)
  case (Contributed w)
  then show "sound cat chs u n (view s) \<Longrightarrow> ?thesis" using raisesD [OF raises_contribution [OF assms]] by simp
next
  case (CompletedGroup w)
  have "raises view (sound cat chs u) (base_points u c) (handle_group_completion G w)"
    unfolding handle_group_completion_def base_points.simps CompletedGroup
    by (intro ledger.raises_then_free raises_award [OF assms(1)] raises_update [OF assms(1)] raises_activity [OF assms(1)]
        raises_check [OF assms] raises_progress [OF assms]) (simp_all add: point_defs)
  then show "sound cat chs u n (view s) \<Longrightarrow> ?thesis" using raisesD CompletedGroup by fastforce
next
  case (Invited w)
  have "raises view (sound cat chs u) (base_points u c) (handle_invite G w)"
    unfolding handle_invite_def base_points.simps Invited
    by (intro ledger.raises_then_free raises_award [OF assms(1)] raises_update [OF assms(1)]
        raises_check [OF assms] raises_progress [OF assms]) (simp_all add: point_defs)
  then show "sound cat chs u n (view s) \<Longrightarrow> ?thesis" using raisesD Invited by fastforce
next
  case (LoggedIn w)
  have pay: "raises view (sound cat chs u) (base_points u c)
      (js_then (award_points G w login_points ''daily login'') (\<lambda>_.
         js_then (gd_updateProfile G w (\<lambda>p. p\<lparr>gp_loginStreak := k, gp_lastLogin := Some t\<rparr>)) (\<lambda>_.
           update_challenge_progress G w ''LOGIN'')))" for k t
    unfolding base_points.simps LoggedIn
    by (intro ledger.raises_then_free raises_award [OF assms(1)] raises_update [OF assms(1)] raises_progress [OF assms])
       (simp_all add: point_defs)
  have "raises view (sound cat chs u) (base_points u c) (handle_login G w)"
    unfolding handle_login_def Let_def
    by (rule ledger.raises_after_free [OF raises_initialize [OF assms(1)]])
       (use raisesD [OF pay] ledger.more LoggedIn in \<open>auto simp: raises_def point_defs\<close>)
  then show "sound cat chs u n (view s) \<Longrightarrow> ?thesis" using raisesD LoggedIn by fastforce
next
  case (CheckedAchievements w)
  then show "sound cat chs u n (view s) \<Longrightarrow> ?thesis" using raisesD [OF raises_check [OF assms]] by fastforce
next
  case (Followed w x)
  have "raises view (sound cat chs u) 0 (follow_user G w x)"
    unfolding follow_user_def
    by (intro ledger.raises_then_free raises_progress [OF assms] ledger.raises_reads [OF game_lawsD(14) [OF assms(1)]]) simp
  then show "sound cat chs u n (view s) \<Longrightarrow> ?thesis" using raisesD Followed by fastforce
next
  case (Unfollowed w x)
  have "raises view (sound cat chs u) 0 (unfollow_user G w x)"
    unfolding unfollow_user_def by (rule ledger.raises_reads [OF game_lawsD(15) [OF assms(1)]]) simp
  then show "sound cat chs u n (view s) \<Longrightarrow> ?thesis" using raisesD Unfollowed by fastforce
qed

lemma sound_run:
  assumes "game_laws G view cat chs" and "no_fines cat chs" and "sound cat chs u n (view s)"
  shows "sound cat chs u (n + (\<Sum>c \<leftarrow> calls. base_points u c)) (view (fold (game_call_run G) calls s))"
  by (rule ledger.raises_fold [where view = view and run = "game_call_run G" and cost = "base_points u"])
     (rule raises_call [OF assms(1,2)], assumption, rule assms(3))

text \<open>
  C17. Whatever calls are made, each of which may fail at any of its database calls, a user gains at most
  the points their calls pay by themselves and once the points of every achievement they newly hold
  and of every challenge they newly completed.
\<close>

theorem points_accounted:
  assumes "game_laws G view cat chs" and "no_fines cat chs" and "levels_ok (view s)"
    and "v' = view (fold (game_call_run G) calls s)"
  shows "points_of v' u - points_of (view s) u \<le>
      (\<Sum>c \<leftarrow> calls. base_points u c) + (prizes cat chs v' u - prizes cat chs (view s) u)"
proof -
  have "sound cat chs u (balance cat chs u (view s)) (view s)" using assms(3) by (simp add: sound_def)
  from sound_run [OF assms(1,2) this, of calls] show ?thesis using assms(4) by (simp add: sound_def balance_def)
qed

text \<open>And no one's level is ever above the one their points make.\<close>

theorem no_level_unearned:
  assumes "game_laws G view cat chs" and "no_fines cat chs" and "levels_ok (view s)"
    and "tb_profiles (view (fold (game_call_run G) calls s)) u = Some p"
  shows "gp_level p \<le> calculate_level (gp_points p)"
proof -
  have "sound cat chs u (balance cat chs u (view s)) (view s)" using assms(3) by (simp add: sound_def)
  from sound_run [OF assms(1,2) this, of calls] show ?thesis using assms(4) by (simp add: sound_def levels_ok_def)
qed


section \<open>Streaks\<close>

text \<open>The streak after contributions at the given times, one call after another.\<close>

fun streak_run :: "int option \<Rightarrow> int \<Rightarrow> int list \<Rightarrow> int" where
  "streak_run last_time streak [] = streak"
| "streak_run last_time streak (t # visits) = streak_run (Some t) (fst (contribution_streak last_time streak t)) visits"

fun day_gaps :: "int \<Rightarrow> int list \<Rightarrow> int list" where
  "day_gaps t [] = []"
| "day_gaps t (t' # visits) = days_between t t' # day_gaps t' visits"

lemma streak_run_gaps:
  "streak_run (Some t) k visits =
     (if \<exists>d \<in> set (day_gaps t visits). d > 1 then 1 else k) +
     int (length (filter (\<lambda>d. d = 1) (takeWhile (\<lambda>d. d \<le> 1) (rev (day_gaps t visits)))))"
proof (induction visits arbitrary: t k)
  case (Cons t' visits)
  have tw: "takeWhile (\<lambda>d. d \<le> 1) (rev gs @ [d]) =
      (if \<exists>g \<in> set gs. g > 1 then takeWhile (\<lambda>d. d \<le> 1) (rev gs) else rev gs @ (if d \<le> 1 then [d] else []))"
    for gs :: "int list" and d
  proof (cases "\<exists>g \<in> set gs. g > 1")
    case True
    then obtain g where "g \<in> set (rev gs)" "\<not> g \<le> 1" by auto
    then show ?thesis using True takeWhile_append1 [of g "rev gs" "\<lambda>d. d \<le> 1" "[d]"] by simp
  next
    case False
    then show ?thesis using takeWhile_append2 [of "rev gs" "\<lambda>d. d \<le> 1" "[d]"] by (auto simp: not_less)
  qed
  have all: "takeWhile (\<lambda>d. d \<le> 1) (rev gs) = rev gs" if "\<not> (\<exists>g \<in> set gs. g > 1)" for gs :: "int list"
    using that by (auto simp: takeWhile_eq_all_conv)
  show ?case
    by (simp add: Cons.IH contribution_streak_def Let_def tw) (auto simp: all)
qed simp

text \<open>
  The streak is one more than the number of gaps of exactly one day, in whole days of 24 hours, since
  the last longer gap.
\<close>

theorem streak_counts_one_day_gaps:
  "streak_run None 0 (t # visits) =
     1 + int (length (filter (\<lambda>d. d = 1) (takeWhile (\<lambda>d. d \<le> 1) (rev (day_gaps t visits)))))"
  by (simp add: streak_run_gaps contribution_streak_def)

text \<open>The login streak after logins at the given times, those on the day of the last one not counted.\<close>

fun login_run :: "(int \<Rightarrow> int \<times> int \<times> int) \<Rightarrow> int option \<Rightarrow> int \<Rightarrow> int list \<Rightarrow> int" where
  "login_run date last_time streak [] = streak"
| "login_run date last_time streak (t # visits) =
     (if (case last_time of None \<Rightarrow> True | Some l \<Rightarrow> is_different_day date l t)
      then login_run date (Some t) (login_streak last_time streak t) visits
      else login_run date last_time streak visits)"

text \<open>
  A member who comes on every calendar day, each time less than 24 hours after the day before, never
  gets past a streak of one, neither by contributions nor by logins.
\<close>

theorem early_visits_never_add_up:
  assumes "successively (\<lambda>a b. a \<le> b \<and> b < a + 86400000 \<and> date a \<noteq> date b) (t # visits)"
  shows "streak_run None 0 (t # visits) = 1 \<and> login_run date None 0 (t # visits) = 1"
proof -
  have gap: "days_between a b = 0" if "a \<le> b" "b < a + 86400000" for a b
    using that by (simp add: days_between_def div_pos_pos_trivial)
  have "streak_run (Some t) 1 visits = 1 \<and> login_run date (Some t) 1 visits = 1"
    using assms
  proof (induction visits arbitrary: t)
    case (Cons t' visits)
    then show ?case using gap [of t t']
      by (simp add: contribution_streak_def login_streak_def is_different_day_def Let_def)
  qed simp
  then show ?thesis by (simp add: contribution_streak_def login_streak_def)
qed

theorem early_visits_never_add_up_witness:
  "streak_run None 0 [0, 86000000, 172000000] = 1"
  using early_visits_never_add_up [where date = "\<lambda>t. (2026, 1, t div 80000000)" and t = 0 and visits = "[86000000, 172000000]"]
  by simp

section \<open>A database in memory\<close>

definition memory_update :: "('v \<Rightarrow> 'k \<rightharpoonup> 'a) \<Rightarrow> (('k \<rightharpoonup> 'a) \<Rightarrow> 'v \<Rightarrow> 'v) \<Rightarrow> 'k \<Rightarrow> ('a \<Rightarrow> 'a) \<Rightarrow> ('v, game_error, 'a) js_method" where
  "memory_update table put k f v =
     (case table v k of None \<Rightarrow> (Inl (GameDbError ''no row''), v) | Some p \<Rightarrow> (Inr (f p), put ((table v)(k \<mapsto> f p)) v))"

definition memory_upsert :: "('v \<Rightarrow> 'k \<rightharpoonup> 'a) \<Rightarrow> (('k \<rightharpoonup> 'a) \<Rightarrow> 'v \<Rightarrow> 'v) \<Rightarrow> 'k \<Rightarrow> ('a \<Rightarrow> 'a) \<Rightarrow> 'a \<Rightarrow> ('v, game_error, 'a) js_method" where
  "memory_upsert table put k f d v =
     (let r = (case table v k of None \<Rightarrow> d | Some p \<Rightarrow> f p) in (Inr r, put ((table v)(k \<mapsto> r)) v))"

definition memory_game :: "achievement list \<Rightarrow> challenge list \<Rightarrow> game_tables game_db" where
  "memory_game cat chs = \<lparr>
     gd_now = (\<lambda>v. 1000), gd_date = (\<lambda>t. (2026, 1, t div 86400000)),
     gd_parse = (\<lambda>t. Inr \<lparr>rq_type = Some t, rq_count = Some 1, rq_days = None, rq_actionType = Some t, rq_target = Some 1\<rparr>),
     gd_upsertProfile = memory_upsert tb_profiles (\<lambda>m v. v\<lparr>tb_profiles := m\<rparr>),
     gd_updateProfile = memory_update tb_profiles (\<lambda>m v. v\<lparr>tb_profiles := m\<rparr>),
     gd_findProfile = (\<lambda>u v. (Inr (tb_profiles v u), v)),
     gd_countContributions = (\<lambda>u v. (Inr 1, v)),
     gd_achievements = (\<lambda>v. (Inr cat, v)),
     gd_findAchievement = (\<lambda>a v. (Inr (find (\<lambda>x. ac_id x = a) cat), v)),
     gd_unlocked = (\<lambda>u a v. (Inr ((u, a) \<in> tb_unlocked v), v)),
     gd_unlock = (\<lambda>u a v. if (u, a) \<in> tb_unlocked v then (Inl (GameDbError ''unique''), v)
                         else (Inr (), v\<lparr>tb_unlocked := insert (u, a) (tb_unlocked v)\<rparr>)),
     gd_findChallenges = (\<lambda>P v. (Inr (filter P chs), v)),
     gd_findChallenge = (\<lambda>c v. (Inr (find (\<lambda>x. ch_id x = c) chs), v)),
     gd_upsertProgress = (\<lambda>u c. memory_upsert tb_progress (\<lambda>m v. v\<lparr>tb_progress := m\<rparr>) (u, c)),
     gd_updateProgress = (\<lambda>u c. memory_update tb_progress (\<lambda>m v. v\<lparr>tb_progress := m\<rparr>) (u, c)),
     gd_createActivity = (\<lambda>a v. (Inr (), v)),
     gd_createFollow = (\<lambda>u w v. (Inr (), v)),
     gd_deleteFollows = (\<lambda>u w v. (Inr (), v))\<rparr>"

lemma memory_game_laws: "game_laws (memory_game cat chs) (\<lambda>v. v) cat chs"
  unfolding game_laws_def db_reads_def db_writes_def
  by (intro conjI) (auto simp: memory_game_def memory_update_def memory_upsert_def Let_def split: option.splits if_splits)

definition first_steps :: achievement where
  "first_steps = \<lparr>ac_id = ''a1'', ac_name = ''First steps'', ac_category = ContributionCategory, ac_points = 1000, ac_requirement = ''first''\<rparr>"

definition no_tables :: game_tables where
  "no_tables = \<lparr>tb_profiles = Map.empty, tb_unlocked = {}, tb_progress = Map.empty\<rparr>"

lemmas game_run_defs =
  handle_contribution_def initialize_user_gamification_def award_points_def level_up_def create_activity_def record_streak_def
  check_achievements_def award_achievement_def pay_achievement_def update_challenge_progress_def should_award_def
  memory_game_def memory_update_def memory_upsert_def first_steps_def no_tables_def new_profile_def contribution_streak_def
  js_then_def js_swallow_def calculate_level_def point_defs

lemma sample_contribution:
  "tb_profiles (snd (handle_contribution (memory_game [first_steps] []) ''ann'' no_tables)) ''ann'' =
     Some \<lparr>gp_points = 1050, gp_level = Silver, gp_contributionStreak = 1, gp_loginStreak = 0,
       gp_lastContribution = Some 1000, gp_lastLogin = None, gp_totalInvites = 0, gp_groupsCompleted = 0\<rparr>"
  by (simp add: game_run_defs Let_def)

theorem points_accounted_witness:
  "points_of (snd (handle_contribution (memory_game [first_steps] []) ''ann'' no_tables)) ''ann'' = 1050
   \<and> (1050 :: int) \<le> 75 + prizes [first_steps] [] (snd (handle_contribution (memory_game [first_steps] []) ''ann'' no_tables)) ''ann''"
proof -
  have "no_fines [first_steps] []" "levels_ok no_tables" by (simp_all add: no_fines_def first_steps_def levels_ok_def no_tables_def)
  from points_accounted [OF memory_game_laws this refl, of "[Contributed ''ann'']" "''ann''"]
  moreover have "points_of no_tables ''ann'' = 0" "prizes [first_steps] [] no_tables ''ann'' = 0"
    by (simp_all add: points_of_def prizes_def no_tables_def)
  moreover have "points_of (snd (handle_contribution (memory_game [first_steps] []) ''ann'' no_tables)) ''ann'' = 1050"
    using sample_contribution by (simp add: points_of_def)
  ultimately show ?thesis by (simp add: point_defs)
qed

theorem no_level_unearned_witness: "Silver \<le> calculate_level 1050"
proof -
  have "no_fines [first_steps] []" "levels_ok no_tables" by (simp_all add: no_fines_def first_steps_def levels_ok_def no_tables_def)
  from no_level_unearned [OF memory_game_laws this, of "[Contributed ''ann'']" "''ann''"]
  show ?thesis using sample_contribution by simp
qed

theorem award_points_effect_witness:
  "points_of (snd (award_points (memory_game [] []) ''ann'' 5000 ''a gift'' (no_tables\<lparr>tb_profiles := [''ann'' \<mapsto> new_profile 10]\<rparr>))) ''ann'' = 5010"
proof -
  let ?v = "no_tables\<lparr>tb_profiles := [''ann'' \<mapsto> new_profile 10]\<rparr>"
  have "\<exists>r. fst (award_points (memory_game [] []) ''ann'' 5000 ''a gift'' ?v) = Inr r"
    by (simp add: game_run_defs Let_def)
  then obtain r v' where run: "award_points (memory_game [] []) ''ann'' 5000 ''a gift'' ?v = (Inr r, v')"
    by (metis prod.collapse)
  have "tb_profiles ?v ''ann'' = Some (new_profile 10)" by simp
  note effect = award_points_effect [where view = "\<lambda>v. v", OF memory_game_laws run this]
  show ?thesis unfolding run snd_conv effect by (simp add: points_of_def new_profile_def)
qed

end
