(* ===== verification/Referrals.thy ===== *)
theory Referrals
  imports Rewards "HOL-Library.Word"
begin

text \<open>
  Referrals, \<open>backend/src/services/referralService.ts\<close>: codes, the referral of a new user and its
  completion, statistics; the code generator \<open>utils/ReferralCodeGenerator.ts\<close> and the check of
  \<open>services/FraudDetector.ts\<close> that a referral passes.

  The database, Redis, the random source, the reward distributor and the analytics tracker are a
  record of operations on an abstract state. Calls run one at a time.
\<close>

section \<open>Data\<close>

datatype referral_status = ReferralPending | ReferralActive | ReferralCompleted | ReferralFlagged

record referral =
  rf_id :: string
  rf_referrerId :: string
  rf_refereeId :: string
  rf_code :: string
  rf_status :: referral_status
  rf_createdAt :: int
  rf_completedAt :: "int option"

record referral_code =
  rc_userId :: string
  rc_code :: string

record referral_metadata =
  md_ipAddress :: string
  md_userAgent :: string
  md_deviceFingerprint :: "string option"
  md_registrationTimestamp :: int

datatype flag_details = SelfReferralOf string string | SameIp string | SameDevice string | ManyFromIp string int

record detected_flag =
  df_type :: string
  df_severity :: fraud_severity
  df_details :: flag_details

record fraud_check =
  fk_passed :: bool
  fk_flags :: "detected_flag list"
  fk_shouldBlock :: bool

record referral_flag =
  fr_referralId :: string
  fr_flagType :: string
  fr_severity :: fraud_severity
  fr_details :: flag_details
  fr_status :: flag_status

datatype referral_error =
    BadCodeLength | NoUniqueCode | CannotReferSelf | AlreadyReferred | InvalidReferralCode | CodeNotReferrers
  | ReferralDbError string

datatype referral_event = ReferralCreatedEvent string string string referral_status | ReferralCompletedEvent string string string

text \<open>The collaborators that the constructor takes optionally are options.\<close>

record 's referral_env =
  rx_now :: "'s \<Rightarrow> int"
  rx_randomBytes :: "nat \<Rightarrow> 's \<Rightarrow> 8 word list \<times> 's"
  rx_codeOfUser :: "string \<Rightarrow> ('s, referral_error, referral_code option) js_method"
  rx_findCode :: "string \<Rightarrow> ('s, referral_error, referral_code option) js_method"
  rx_createCode :: "referral_code \<Rightarrow> ('s, referral_error, unit) js_method"
  rx_findReferral :: "string \<Rightarrow> ('s, referral_error, referral option) js_method"
  rx_createReferral :: "referral \<Rightarrow> ('s, referral_error, referral) js_method"
  rx_updateReferral :: "string \<Rightarrow> (referral \<Rightarrow> referral) \<Rightarrow> ('s, referral_error, referral) js_method"
  rx_referralsOf :: "string \<Rightarrow> ('s, referral_error, referral list) js_method"
  rx_rewardCount :: "string \<Rightarrow> ('s, referral_error, nat) js_method"
  rx_createFlag :: "referral_flag \<Rightarrow> ('s, referral_error, unit) js_method"
  rx_addInvite :: "string \<Rightarrow> ('s, referral_error, unit) js_method"
  rx_distribute :: "(string \<Rightarrow> string \<Rightarrow> ('s, referral_error, unit) js_method) option"
  rx_check :: "(string \<Rightarrow> string \<Rightarrow> referral_metadata \<Rightarrow> ('s, referral_error, fraud_check) js_method) option"
  rx_saveEvent :: "(referral_event \<Rightarrow> ('s, referral_error, unit) js_method) option"

section \<open>The code generator\<close>

definition code_alphabet :: string where
  "code_alphabet = ''ABCDEFGHJKLMNPQRSTUVWXYZ23456789''"

definition code_char :: "8 word \<Rightarrow> char" where
  "code_char b = code_alphabet ! (unat b mod length code_alphabet)"

definition generate_code :: "'s referral_env \<Rightarrow> nat \<Rightarrow> ('s, referral_error, string) js_method" where
  "generate_code X len s =
     (if len < 6 \<or> 12 < len then (Inl BadCodeLength, s)
      else case rx_randomBytes X len s of (bytes, s') \<Rightarrow> (Inr (map code_char (take len bytes)), s'))"

text \<open>The loop of at most ten attempts; \<open>None\<close> when all collide.\<close>

fun try_codes :: "'s referral_env \<Rightarrow> nat \<Rightarrow> nat \<Rightarrow> ('s, referral_error, string option) js_method" where
  "try_codes X len 0 = js_return None"
| "try_codes X len (Suc attempts) =
     js_then (generate_code X len) (\<lambda>code.
       js_then (rx_findCode X code) (\<lambda>existing.
         if existing = None then js_return (Some code) else try_codes X len attempts))"

function generate_unique :: "'s referral_env \<Rightarrow> nat \<Rightarrow> ('s, referral_error, string) js_method" where
  "generate_unique X len =
     js_then (try_codes X len 10) (\<lambda>found.
       case found of
         Some code \<Rightarrow> js_return code
       | None \<Rightarrow> if len < 12 then generate_unique X (len + 2) else js_throw NoUniqueCode)"
  by pat_completeness auto

termination
  by (relation "measure (\<lambda>(X, len). 12 - len)") auto

declare generate_unique.simps [simp del]

definition is_valid_format :: "string \<Rightarrow> bool" where
  "is_valid_format code \<longleftrightarrow> \<not> (length code < 6 \<or> 12 < length code) \<and> (\<forall>c \<in> set code. c \<in> set code_alphabet)"

section \<open>The fraud check\<close>

text \<open>The counter of an address; the two placeholder checks answer \<open>false\<close>.\<close>

record 's fraud_redis =
  rr_get :: "string \<Rightarrow> ('s, referral_error, int option) js_method"
  rr_incr :: "string \<Rightarrow> ('s, referral_error, unit) js_method"
  rr_expire :: "string \<Rightarrow> int \<Rightarrow> ('s, referral_error, unit) js_method"

definition ip_key :: "string \<Rightarrow> string" where
  "ip_key ipAddress = ''fraud:ip:'' @ ipAddress"

definition get_ip_referral_count :: "'s fraud_redis \<Rightarrow> string \<Rightarrow> ('s, referral_error, int) js_method" where
  "get_ip_referral_count R ipAddress = js_then (rr_get R (ip_key ipAddress)) (\<lambda>count. js_return (get_or 0 count))"

definition increment_ip_count :: "'s fraud_redis \<Rightarrow> string \<Rightarrow> ('s, referral_error, unit) js_method" where
  "increment_ip_count R ipAddress = js_then (rr_incr R (ip_key ipAddress)) (\<lambda>_. rr_expire R (ip_key ipAddress) 86400)"

definition check_bulk_creation :: "'s fraud_redis \<Rightarrow> string \<Rightarrow> ('s, referral_error, bool) js_method" where
  "check_bulk_creation R ipAddress = js_then (get_ip_referral_count R ipAddress) (\<lambda>count. js_return (count \<ge> 3))"

definition check_self_referral :: "string \<Rightarrow> string \<Rightarrow> bool" where
  "check_self_referral referrerId refereeId \<longleftrightarrow> referrerId = refereeId"

definition check_ip_match :: "string \<Rightarrow> string \<Rightarrow> bool" where
  "check_ip_match referrerId refereeIP = False"

definition check_device_match :: "string \<Rightarrow> string \<Rightarrow> bool" where
  "check_device_match referrerId refereeFingerprint = False"

definition flag_if :: "bool \<Rightarrow> string \<Rightarrow> fraud_severity \<Rightarrow> flag_details \<Rightarrow> detected_flag list" where
  "flag_if b kind severity details = (if b then [\<lparr>df_type = kind, df_severity = severity, df_details = details\<rparr>] else [])"

definition check_referral ::
  "'s fraud_redis \<Rightarrow> string \<Rightarrow> string \<Rightarrow> referral_metadata \<Rightarrow> ('s, referral_error, fraud_check) js_method" where
  "check_referral R referrerId refereeId metadata =
     (let early =
        flag_if (check_self_referral referrerId refereeId) ''SELF_REFERRAL'' HighSeverity (SelfReferralOf referrerId refereeId) @
        flag_if (check_ip_match referrerId (md_ipAddress metadata)) ''IP_MATCH'' MediumSeverity (SameIp (md_ipAddress metadata)) @
        (case truthy (md_deviceFingerprint metadata) of
           None \<Rightarrow> []
         | Some f \<Rightarrow> flag_if (check_device_match referrerId f) ''DEVICE_MATCH'' MediumSeverity (SameDevice f))
      in js_then (check_bulk_creation R (md_ipAddress metadata)) (\<lambda>bulk.
           js_then (if bulk then js_then (get_ip_referral_count R (md_ipAddress metadata)) (\<lambda>count.
                      js_return (flag_if True ''BULK_CREATION'' HighSeverity (ManyFromIp (md_ipAddress metadata) count)))
                    else js_return []) (\<lambda>late.
             let flags = early @ late
             in js_return \<lparr>fk_passed = (flags = []), fk_flags = flags,
                  fk_shouldBlock = list_ex (\<lambda>f. df_severity f = HighSeverity) flags\<rparr>)))"

section \<open>Codes\<close>

definition generate_referral_code :: "'s referral_env \<Rightarrow> string \<Rightarrow> ('s, referral_error, string) js_method" where
  "generate_referral_code X userId =
     js_then (rx_codeOfUser X userId) (\<lambda>existing.
       case existing of
         Some row \<Rightarrow> js_return (rc_code row)
       | None \<Rightarrow>
           js_then (generate_unique X 8) (\<lambda>code.
             js_then (rx_createCode X \<lparr>rc_userId = userId, rc_code = code\<rparr>) (\<lambda>_. js_return code)))"

text \<open>\<open>row?.field || null\<close>.\<close>

definition get_referral_code :: "'s referral_env \<Rightarrow> string \<Rightarrow> ('s, referral_error, string option) js_method" where
  "get_referral_code X userId =
     js_then (rx_codeOfUser X userId) (\<lambda>row. js_return (truthy (map_option rc_code row)))"

definition validate_referral_code :: "'s referral_env \<Rightarrow> string \<Rightarrow> ('s, referral_error, bool) js_method" where
  "validate_referral_code X code =
     (if \<not> is_valid_format code then js_return False
      else js_then (rx_findCode X code) (\<lambda>row. js_return (row \<noteq> None)))"

definition get_referrer_by_code :: "'s referral_env \<Rightarrow> string \<Rightarrow> ('s, referral_error, string option) js_method" where
  "get_referrer_by_code X code = js_then (rx_findCode X code) (\<lambda>row. js_return (truthy (map_option rc_userId row)))"

section \<open>Referrals\<close>

definition track_referral_event :: "'s referral_env \<Rightarrow> referral_event \<Rightarrow> ('s, referral_error, unit) js_method" where
  "track_referral_event X event = (case rx_saveEvent X of None \<Rightarrow> js_return () | Some save \<Rightarrow> save event)"

text \<open>The check runs when the caller gave metadata and the service has a detector.\<close>

definition run_fraud_check ::
  "'s referral_env \<Rightarrow> string \<Rightarrow> string \<Rightarrow> referral_metadata option \<Rightarrow> ('s, referral_error, fraud_check option) js_method" where
  "run_fraud_check X referrerId refereeId metadata =
     (case (metadata, rx_check X) of
        (Some md, Some check) \<Rightarrow> js_then (check referrerId refereeId md) (\<lambda>result. js_return (Some result))
      | _ \<Rightarrow> js_return None)"

fun store_flags :: "'s referral_env \<Rightarrow> string \<Rightarrow> bool \<Rightarrow> detected_flag list \<Rightarrow> ('s, referral_error, unit) js_method" where
  "store_flags X referralId shouldBlock [] = js_return ()"
| "store_flags X referralId shouldBlock (flag # flags) =
     js_then (rx_createFlag X \<lparr>fr_referralId = referralId, fr_flagType = df_type flag,
                fr_severity = (if shouldBlock then HighSeverity else MediumSeverity),
                fr_details = df_details flag, fr_status = FlagPending\<rparr>) (\<lambda>_.
       store_flags X referralId shouldBlock flags)"

text \<open>From the creation of the row on, with the second run of the check.\<close>

definition record_referral_at ::
  "'s referral_env \<Rightarrow> int \<Rightarrow> string \<Rightarrow> string \<Rightarrow> string \<Rightarrow> referral_metadata option \<Rightarrow> referral_status \<Rightarrow>
   ('s, referral_error, referral) js_method" where
  "record_referral_at X now referrerId refereeId code metadata initialStatus =
     js_then (rx_createReferral X
         \<lparr>rf_id = [], rf_referrerId = referrerId, rf_refereeId = refereeId, rf_code = code, rf_status = initialStatus,
          rf_createdAt = now, rf_completedAt = None\<rparr>) (\<lambda>row.
       js_then (run_fraud_check X referrerId refereeId metadata) (\<lambda>result.
         js_then (case result of None \<Rightarrow> js_return ()
                  | Some fraudCheck \<Rightarrow> store_flags X (rf_id row) (fk_shouldBlock fraudCheck) (fk_flags fraudCheck)) (\<lambda>_.
           js_then (rx_addInvite X referrerId) (\<lambda>_.
             js_then (track_referral_event X (ReferralCreatedEvent referrerId refereeId (rf_id row) (rf_status row))) (\<lambda>_.
               js_return row)))))"

definition record_referral ::
  "'s referral_env \<Rightarrow> string \<Rightarrow> string \<Rightarrow> string \<Rightarrow> referral_metadata option \<Rightarrow> referral_status \<Rightarrow>
   ('s, referral_error, referral) js_method" where
  "record_referral X referrerId refereeId code metadata initialStatus s =
     record_referral_at X (rx_now X s) referrerId refereeId code metadata initialStatus s"

definition create_referral ::
  "'s referral_env \<Rightarrow> string \<Rightarrow> string \<Rightarrow> string \<Rightarrow> referral_metadata option \<Rightarrow> ('s, referral_error, referral) js_method" where
  "create_referral X referrerId refereeId code metadata =
     (if referrerId = refereeId then js_throw CannotReferSelf
      else js_then (rx_findReferral X refereeId) (\<lambda>existing.
        if existing \<noteq> None then js_throw AlreadyReferred
        else js_then (rx_findCode X code) (\<lambda>row.
          case row of
            None \<Rightarrow> js_throw InvalidReferralCode
          | Some referralCode \<Rightarrow>
              if rc_userId referralCode \<noteq> referrerId then js_throw CodeNotReferrers
              else js_then (run_fraud_check X referrerId refereeId metadata) (\<lambda>result.
                record_referral X referrerId refereeId code metadata
                  (case result of None \<Rightarrow> ReferralPending
                   | Some fraudCheck \<Rightarrow> if fk_shouldBlock fraudCheck then ReferralFlagged else ReferralPending)))))"

text \<open>The distributor's failure is swallowed.\<close>

definition distribute ::
  "'s referral_env \<Rightarrow> string \<Rightarrow> string \<Rightarrow> ('s, referral_error, unit) js_method" where
  "distribute X referrerId refereeId =
     (case rx_distribute X of None \<Rightarrow> js_return () | Some d \<Rightarrow> js_swallow (d referrerId refereeId))"

text \<open>\<open>completeReferral\<close> past its guards.\<close>

definition finish_referral :: "'s referral_env \<Rightarrow> int \<Rightarrow> referral \<Rightarrow> ('s, referral_error, referral option) js_method" where
  "finish_referral X now row =
     js_then (rx_updateReferral X (rf_id row) (\<lambda>r. r\<lparr>rf_status := ReferralCompleted, rf_completedAt := Some now\<rparr>)) (\<lambda>completed.
       js_then (distribute X (rf_referrerId completed) (rf_refereeId completed)) (\<lambda>_.
         js_then (track_referral_event X
             (ReferralCompletedEvent (rf_id completed) (rf_referrerId completed) (rf_refereeId completed))) (\<lambda>_.
           js_return (Some completed))))"

definition complete_referral :: "'s referral_env \<Rightarrow> string \<Rightarrow> ('s, referral_error, referral option) js_method" where
  "complete_referral X refereeId =
     js_then (rx_findReferral X refereeId) (\<lambda>found.
       case found of
         None \<Rightarrow> js_return None
       | Some row \<Rightarrow>
           if rf_status row = ReferralCompleted \<or> rf_status row = ReferralFlagged then js_return (Some row)
           else (\<lambda>s. finish_referral X (rx_now X s) row s))"

section \<open>Statistics\<close>

record referral_stats =
  rs_referralCode :: "string option"
  rs_total :: nat
  rs_active :: nat
  rs_pending :: nat
  rs_completed :: nat
  rs_flagged :: nat
  rs_conversionRate :: rat
  rs_totalRewardsEarned :: nat
  rs_referrals :: "referral list"

definition with_status :: "referral_status \<Rightarrow> referral list \<Rightarrow> nat" where
  "with_status st rows = length (filter (\<lambda>r. rf_status r = st) rows)"

definition conversion_rate :: "nat \<Rightarrow> nat \<Rightarrow> rat" where
  "conversion_rate completed all = (if all = 0 then 0 else of_nat completed / of_nat all)"

definition get_referral_stats :: "'s referral_env \<Rightarrow> string \<Rightarrow> ('s, referral_error, referral_stats) js_method" where
  "get_referral_stats X userId =
     js_then (rx_referralsOf X userId) (\<lambda>rows.
       js_then (get_referral_code X userId) (\<lambda>code.
         js_then (rx_rewardCount X userId) (\<lambda>rewards.
           js_return \<lparr>rs_referralCode = code, rs_total = length rows,
             rs_active = with_status ReferralActive rows, rs_pending = with_status ReferralPending rows,
             rs_completed = with_status ReferralCompleted rows, rs_flagged = with_status ReferralFlagged rows,
             rs_conversionRate = conversion_rate (with_status ReferralCompleted rows) (length rows),
             rs_totalRewardsEarned = rewards, rs_referrals = rows\<rparr>)))"

text \<open>The daily map of \<open>getReferralAnalytics\<close>; \<open>day\<close> is the date part of \<open>toISOString\<close>.\<close>

definition add_referral_on :: "string \<Rightarrow> (string, nat \<times> nat) jsmap \<Rightarrow> (string, nat \<times> nat) jsmap" where
  "add_referral_on d m = (case get_or (0, 0) (js_get m d) of (a, b) \<Rightarrow> js_set d (a + 1, b) m)"

definition add_completion_on :: "string \<Rightarrow> (string, nat \<times> nat) jsmap \<Rightarrow> (string, nat \<times> nat) jsmap" where
  "add_completion_on d m = (case get_or (0, 0) (js_get m d) of (a, b) \<Rightarrow> js_set d (a, b + 1) m)"

fun daily_map :: "(int \<Rightarrow> string) \<Rightarrow> referral list \<Rightarrow> (string, nat \<times> nat) jsmap \<Rightarrow> (string, nat \<times> nat) jsmap" where
  "daily_map day [] m = m"
| "daily_map day (r # rows) m =
     (let m' = add_referral_on (day (rf_createdAt r)) m
      in daily_map day rows (case rf_completedAt r of None \<Rightarrow> m' | Some t \<Rightarrow> add_completion_on (day t) m'))"

record referral_analytics =
  ra_total :: nat
  ra_completed :: nat
  ra_pending :: nat
  ra_flagged :: nat
  ra_conversionRate :: rat
  ra_statusBreakdown :: "(referral_status \<times> nat) list"
  ra_timeline :: "(string \<times> nat \<times> nat) list"

definition analytics_of :: "(int \<Rightarrow> string) \<Rightarrow> referral list \<Rightarrow> referral_analytics" where
  "analytics_of day rows =
     \<lparr>ra_total = length rows, ra_completed = with_status ReferralCompleted rows,
      ra_pending = with_status ReferralPending rows, ra_flagged = with_status ReferralFlagged rows,
      ra_conversionRate = conversion_rate (with_status ReferralCompleted rows) (length rows),
      ra_statusBreakdown = map (\<lambda>st. (st, with_status st rows)) [ReferralPending, ReferralActive, ReferralCompleted, ReferralFlagged],
      ra_timeline = daily_map day rows []\<rparr>"

definition get_referral_analytics ::
  "'s referral_env \<Rightarrow> (int \<Rightarrow> string) \<Rightarrow> string \<Rightarrow> ('s, referral_error, referral_analytics) js_method" where
  "get_referral_analytics X day userId = js_then (rx_referralsOf X userId) (\<lambda>rows. js_return (analytics_of day rows))"


section \<open>The database\<close>

text \<open>\<open>rt_calls\<close> lists the calls the reward distributor has received.\<close>

record referral_tables =
  rt_codes :: "referral_code list"
  rt_referrals :: "referral list"
  rt_calls :: "(string \<times> string) list"

definition referral_laws :: "'s referral_env \<Rightarrow> ('s \<Rightarrow> referral_tables) \<Rightarrow> bool" where
  "referral_laws X view \<longleftrightarrow>
     (\<forall>n s. view (snd (rx_randomBytes X n s)) = view s \<and> length (fst (rx_randomBytes X n s)) = n) \<and>
     (\<forall>u. db_reads view (rx_codeOfUser X u) (\<lambda>v r. r = find (\<lambda>c. rc_userId c = u) (rt_codes v))) \<and>
     (\<forall>c. db_reads view (rx_findCode X c) (\<lambda>v r. r = find (\<lambda>x. rc_code x = c) (rt_codes v))) \<and>
     (\<forall>c. db_writes view (rx_createCode X c) (\<lambda>v r v'.
        rc_userId c \<notin> rc_userId ` set (rt_codes v) \<and> rc_code c \<notin> rc_code ` set (rt_codes v) \<and>
        v' = v\<lparr>rt_codes := rt_codes v @ [c]\<rparr>)) \<and>
     (\<forall>b. db_reads view (rx_findReferral X b) (\<lambda>v r. r = find (\<lambda>x. rf_refereeId x = b) (rt_referrals v))) \<and>
     (\<forall>d. db_writes view (rx_createReferral X d) (\<lambda>v r v'. r = d\<lparr>rf_id := rf_id r\<rparr> \<and>
        rf_id r \<notin> rf_id ` set (rt_referrals v) \<and> rf_refereeId r \<notin> rf_refereeId ` set (rt_referrals v) \<and>
        v' = v\<lparr>rt_referrals := rt_referrals v @ [r]\<rparr>)) \<and>
     (\<forall>i f. db_writes view (rx_updateReferral X i f) (\<lambda>v r v'.
        (\<exists>c \<in> set (rt_referrals v). rf_id c = i \<and> r = f c) \<and>
        v' = v\<lparr>rt_referrals := map (\<lambda>c. if rf_id c = i then f c else c) (rt_referrals v)\<rparr>)) \<and>
     (\<forall>u. db_reads view (rx_referralsOf X u) (\<lambda>_ _. True)) \<and>
     (\<forall>u. db_reads view (rx_rewardCount X u) (\<lambda>_ _. True)) \<and>
     (\<forall>fl. db_reads view (rx_createFlag X fl) (\<lambda>_ _. True)) \<and>
     (\<forall>u. db_reads view (rx_addInvite X u) (\<lambda>_ _. True)) \<and>
     (\<forall>d. rx_distribute X = Some d \<longrightarrow> (\<forall>a b s. view (snd (d a b s)) = (view s)\<lparr>rt_calls := rt_calls (view s) @ [(a, b)]\<rparr>)) \<and>
     (\<forall>c. rx_check X = Some c \<longrightarrow> (\<forall>a b md. db_reads view (c a b md) (\<lambda>_ _. True))) \<and>
     (\<forall>e. rx_saveEvent X = Some e \<longrightarrow> (\<forall>ev. db_reads view (e ev) (\<lambda>_ _. True)))"

lemma referral_lawsD:
  assumes "referral_laws X view"
  shows "view (snd (rx_randomBytes X n s)) = view s" "length (fst (rx_randomBytes X n s)) = n"
    and "db_reads view (rx_codeOfUser X u) (\<lambda>v r. r = find (\<lambda>c. rc_userId c = u) (rt_codes v))"
    and "db_reads view (rx_findCode X c) (\<lambda>v r. r = find (\<lambda>x. rc_code x = c) (rt_codes v))"
    and "db_writes view (rx_createCode X row) (\<lambda>v r v'.
        rc_userId row \<notin> rc_userId ` set (rt_codes v) \<and> rc_code row \<notin> rc_code ` set (rt_codes v) \<and>
        v' = v\<lparr>rt_codes := rt_codes v @ [row]\<rparr>)"
    and "db_reads view (rx_findReferral X b) (\<lambda>v r. r = find (\<lambda>x. rf_refereeId x = b) (rt_referrals v))"
    and "db_writes view (rx_createReferral X d) (\<lambda>v r v'. r = d\<lparr>rf_id := rf_id r\<rparr> \<and>
        rf_id r \<notin> rf_id ` set (rt_referrals v) \<and> rf_refereeId r \<notin> rf_refereeId ` set (rt_referrals v) \<and>
        v' = v\<lparr>rt_referrals := rt_referrals v @ [r]\<rparr>)"
    and "db_writes view (rx_updateReferral X i f) (\<lambda>v r v'.
        (\<exists>c \<in> set (rt_referrals v). rf_id c = i \<and> r = f c) \<and>
        v' = v\<lparr>rt_referrals := map (\<lambda>c. if rf_id c = i then f c else c) (rt_referrals v)\<rparr>)"
    and "db_reads view (rx_createFlag X fl) (\<lambda>_ _. True)"
    and "db_reads view (rx_addInvite X u) (\<lambda>_ _. True)"
    and "rx_distribute X = Some deliver \<Longrightarrow> view (snd (deliver a b s)) = (view s)\<lparr>rt_calls := rt_calls (view s) @ [(a, b)]\<rparr>"
    and "rx_check X = Some check \<Longrightarrow> db_reads view (check a b md) (\<lambda>_ _. True)"
    and "rx_saveEvent X = Some save \<Longrightarrow> db_reads view (save ev) (\<lambda>_ _. True)"
  using assms unfolding referral_laws_def by simp_all

section \<open>Codes round trip\<close>

lemma code_char_valid: "code_char b \<in> set code_alphabet"
  unfolding code_char_def by (rule nth_mem) (simp add: code_alphabet_def)

lemma generate_code_spec:
  assumes "referral_laws X view"
  shows "js_spec (\<lambda>s. P (view s)) (generate_code X len) (\<lambda>code s. P (view s) \<and> is_valid_format code) (\<lambda>s. P (view s))"
proof (rule js_specI)
  fix s x s' assume P: "P (view s)" and run: "generate_code X len s = (x, s')"
  obtain bytes s1 where b: "rx_randomBytes X len s = (bytes, s1)" by (rule prod.exhaust)
  have "view s1 = view s" "length bytes = len"
    using referral_lawsD(1,2) [OF assms, of len s] b by simp_all
  then show "js_outcome (\<lambda>s. P (view s)) (\<lambda>code s. P (view s) \<and> is_valid_format code) (x, s')"
    using P run b by (auto simp: generate_code_def is_valid_format_def code_char_valid split: if_splits)
qed

lemma try_codes_spec:
  assumes "referral_laws X view"
  shows "js_spec (\<lambda>s. P (view s)) (try_codes X len n)
    (\<lambda>found s. P (view s) \<and> (\<forall>code. found = Some code \<longrightarrow> is_valid_format code)) (\<lambda>s. P (view s))"
proof (induction n)
  case (Suc n)
  have "js_spec (\<lambda>s. P (view s) \<and> is_valid_format code) (js_then (rx_findCode X code) (\<lambda>existing.
        if existing = None then js_return (Some code) else try_codes X len n))
      (\<lambda>found s. P (view s) \<and> (\<forall>code. found = Some code \<longrightarrow> is_valid_format code)) (\<lambda>s. P (view s))" for code
    by (rule db_reads_then [OF referral_lawsD(4) [OF assms], where P = "\<lambda>v. P v \<and> is_valid_format code"], rule js_spec_if)
       (auto intro: js_spec_return js_spec_pre [OF Suc])
  then show ?case unfolding try_codes.simps by (rule js_spec_then [OF generate_code_spec [OF assms]])
next
  case 0
  show ?case unfolding try_codes.simps by (rule js_spec_return) simp
qed

lemma generate_unique_spec:
  fixes X :: "'s referral_env"
  assumes "referral_laws X view"
  shows "js_spec (\<lambda>s. P (view s)) (generate_unique X len) (\<lambda>code s. P (view s) \<and> is_valid_format code) (\<lambda>s. P (view s))"
proof (induction "12 - len" arbitrary: len rule: less_induct)
  case less
  show ?case
    unfolding generate_unique.simps [of X len]
  proof (rule js_spec_then [OF try_codes_spec [OF assms]])
    fix found
    show "js_spec (\<lambda>s. P (view s) \<and> (\<forall>code. found = Some code \<longrightarrow> is_valid_format code))
        (case found of None \<Rightarrow> if len < 12 then generate_unique X (len + 2) else js_throw NoUniqueCode | Some code \<Rightarrow> js_return code)
        (\<lambda>code s. P (view s) \<and> is_valid_format code) (\<lambda>s. P (view s))"
    proof (cases found)
      case None
      show ?thesis
      proof (cases "len < 12")
        case True
        then have "js_spec (\<lambda>s. P (view s)) (generate_unique X (len + 2)) (\<lambda>code s. P (view s) \<and> is_valid_format code) (\<lambda>s. P (view s))"
          by (intro less) simp
        from js_spec_pre [OF this, of "\<lambda>s. P (view s) \<and> (\<forall>code. found = Some code \<longrightarrow> is_valid_format code)"]
        show ?thesis using None True by (simp only: option.case if_True)
      next
        case False
        then show ?thesis using None by (simp only: option.case if_False) (rule js_spec_throw, simp)
      qed
    next
      case (Some code)
      show ?thesis unfolding Some option.case by (rule js_spec_return) simp
    qed
  qed
qed

text \<open>The codes in the table: one per user, no two alike, all of the format.\<close>

definition codes_ok :: "referral_code list \<Rightarrow> bool" where
  "codes_ok rows \<longleftrightarrow> distinct (map rc_userId rows) \<and> distinct (map rc_code rows) \<and> (\<forall>c \<in> set rows. is_valid_format (rc_code c))"

lemma generate_referral_code_spec:
  assumes "referral_laws X view"
  shows "js_spec (\<lambda>s. codes_ok (rt_codes (view s)) \<and> Q (rt_referrals (view s)) (rt_calls (view s))) (generate_referral_code X u)
    (\<lambda>code s. (codes_ok (rt_codes (view s)) \<and> Q (rt_referrals (view s)) (rt_calls (view s))) \<and>
       \<lparr>rc_userId = u, rc_code = code\<rparr> \<in> set (rt_codes (view s)))
    (\<lambda>s. codes_ok (rt_codes (view s)) \<and> Q (rt_referrals (view s)) (rt_calls (view s)))"
  (is "js_spec (\<lambda>s. ?P (view s)) _ (\<lambda>code s. ?P (view s) \<and> ?in code (view s)) _")
  unfolding generate_referral_code_def
proof (rule db_reads_then [OF referral_lawsD(3) [OF assms], where P = ?P])
  fix existing
  have create: "js_spec (\<lambda>s. ?P (view s) \<and> is_valid_format code) (rx_createCode X \<lparr>rc_userId = u, rc_code = code\<rparr>)
      (\<lambda>_ s. ?P (view s) \<and> ?in code (view s)) (\<lambda>s. ?P (view s))" for code
    by (rule db_writes_spec [OF referral_lawsD(5) [OF assms], where P = "\<lambda>v. ?P v \<and> is_valid_format code"
          and Q = "\<lambda>_ v. ?P v \<and> ?in code v"]) (auto simp: codes_ok_def)
  show "js_spec (\<lambda>s. ?P (view s) \<and> existing = find (\<lambda>c. rc_userId c = u) (rt_codes (view s)))
      (case existing of None \<Rightarrow> js_then (generate_unique X 8) (\<lambda>code.
           js_then (rx_createCode X \<lparr>rc_userId = u, rc_code = code\<rparr>) (\<lambda>_. js_return code))
       | Some row \<Rightarrow> js_return (rc_code row)) (\<lambda>code s. ?P (view s) \<and> ?in code (view s)) (\<lambda>s. ?P (view s))"
  proof (cases existing)
    case None
    have "js_spec (\<lambda>s. ?P (view s)) (js_then (generate_unique X 8) (\<lambda>code.
           js_then (rx_createCode X \<lparr>rc_userId = u, rc_code = code\<rparr>) (\<lambda>_. js_return code)))
        (\<lambda>code s. ?P (view s) \<and> ?in code (view s)) (\<lambda>s. ?P (view s))"
      by (rule js_spec_then [OF generate_unique_spec [OF assms]], rule js_spec_then [OF create], rule js_spec_return)
    then show ?thesis unfolding None option.case by (rule js_spec_pre) simp
  next
    case (Some row)
    show ?thesis unfolding Some option.case
    proof (rule js_spec_return)
      fix s assume a: "?P (view s) \<and> Some row = find (\<lambda>c. rc_userId c = u) (rt_codes (view s))"
      then have "row \<in> set (rt_codes (view s))" "rc_userId row = u" by (auto dest: find_SomeD)
      then have "\<lparr>rc_userId = u, rc_code = rc_code row\<rparr> = row" by simp
      then show "?P (view s) \<and> ?in (rc_code row) (view s)" using a \<open>row \<in> set (rt_codes (view s))\<close> by simp
    qed
  qed
qed

text \<open>
  C35. A code that was generated for a user, now or earlier, is valid from then on and leads back to its user.
\<close>

theorem referral_code_roundtrip:
  assumes "referral_laws X view" and "codes_ok (rt_codes (view s))"
    and "generate_referral_code X u s = (Inr code, s')"
  shows "fst (validate_referral_code X code s') \<noteq> Inr False
    \<and> (\<forall>r. fst (get_referrer_by_code X code s') = Inr r \<longrightarrow> r = truthy (Some u))
    \<and> (\<forall>r. fst (get_referral_code X u s') = Inr r \<longrightarrow> r = Some code)"
proof -
  have post: "codes_ok (rt_codes (view s'))" "\<lparr>rc_userId = u, rc_code = code\<rparr> \<in> set (rt_codes (view s'))"
    using js_specD [OF generate_referral_code_spec [OF assms(1), where Q = "\<lambda>_ _. True"] _ assms(3)] assms(2) by simp_all
  let ?row = "\<lparr>rc_userId = u, rc_code = code\<rparr>"
  have by_code: "find (\<lambda>x. rc_code x = code) (rt_codes (view s')) = Some ?row"
    using find_key [of rc_code "rt_codes (view s')" ?row] post by (simp add: codes_ok_def)
  have by_user: "find (\<lambda>x. rc_userId x = u) (rt_codes (view s')) = Some ?row"
    using find_key [of rc_userId "rt_codes (view s')" ?row] post by (simp add: codes_ok_def)
  have format: "is_valid_format code" using post by (auto simp: codes_ok_def)
  then have "code \<noteq> []" by (auto simp: is_valid_format_def)
  obtain x s1 where f: "rx_findCode X code s' = (x, s1)" by (rule prod.exhaust)
  obtain y s2 where g: "rx_codeOfUser X u s' = (y, s2)" by (rule prod.exhaust)
  have "x = Inr r \<Longrightarrow> r = Some ?row" for r
    using referral_lawsD(4) [OF assms(1), of code, unfolded db_reads_def, rule_format, OF f] by_code by simp
  moreover have "y = Inr r \<Longrightarrow> r = Some ?row" for r
    using referral_lawsD(3) [OF assms(1), of u, unfolded db_reads_def, rule_format, OF g] by_user by simp
  ultimately show ?thesis using f g format \<open>code \<noteq> []\<close>
    by (cases x; cases y)
       (auto simp: validate_referral_code_def get_referrer_by_code_def get_referral_code_def js_then_def)
qed

section \<open>One reward per referral\<close>

definition referrals_ok :: "referral list \<Rightarrow> (string \<times> string) list \<Rightarrow> bool" where
  "referrals_ok rows calls \<longleftrightarrow> distinct (map rf_id rows) \<and> distinct (map rf_refereeId rows) \<and> distinct (map snd calls) \<and>
     (\<forall>(a, b) \<in> set calls. \<exists>r \<in> set rows. rf_referrerId r = a \<and> rf_refereeId r = b \<and> rf_status r = ReferralCompleted)"

lemma referrals_okD:
  "referrals_ok rows calls \<Longrightarrow> (a, b) \<in> set calls \<Longrightarrow>
   \<exists>r \<in> set rows. rf_referrerId r = a \<and> rf_refereeId r = b \<and> rf_status r = ReferralCompleted"
  by (auto simp: referrals_ok_def)

definition tables_sound :: "referral_tables \<Rightarrow> bool" where
  "tables_sound v \<longleftrightarrow> codes_ok (rt_codes v) \<and> referrals_ok (rt_referrals v) (rt_calls v)"

lemma run_fraud_check_keeps: "referral_laws X view \<Longrightarrow> db_keeps view P (run_fraud_check X a b md)"
  unfolding run_fraud_check_def
  by (auto split: option.split intro!: db_keeps_then db_keeps_return db_keeps_reads [OF referral_lawsD(12)])

lemma store_flags_keeps: "referral_laws X view \<Longrightarrow> db_keeps view P (store_flags X i block flags)"
proof (induction flags)
  case Nil
  show ?case unfolding store_flags.simps by (rule db_keeps_return)
next
  case (Cons flag flags)
  show ?case unfolding store_flags.simps
    by (intro db_keeps_then Cons.IH [OF Cons.prems] db_keeps_reads [OF referral_lawsD(9) [OF Cons.prems]])
qed

lemma track_keeps: "referral_laws X view \<Longrightarrow> db_keeps view P (track_referral_event X ev)"
  unfolding track_referral_event_def by (intro db_keeps_option db_keeps_return db_keeps_reads [OF referral_lawsD(13)])

text \<open>What an appended row with the given status keeps, recording the referral keeps.\<close>

definition appending_keeps :: "(referral_tables \<Rightarrow> bool) \<Rightarrow> referral_status \<Rightarrow> bool" where
  "appending_keeps P st \<longleftrightarrow> (\<forall>v r. P v \<longrightarrow> rf_id r \<notin> rf_id ` set (rt_referrals v) \<longrightarrow>
     rf_refereeId r \<notin> rf_refereeId ` set (rt_referrals v) \<longrightarrow> rf_status r = st \<longrightarrow>
     P (v\<lparr>rt_referrals := rt_referrals v @ [r]\<rparr>))"

lemma record_referral_keeps:
  assumes "referral_laws X view" and "appending_keeps P st"
  shows "db_keeps view P (record_referral X a b code md st)"
proof -
  have create: "db_keeps view P (rx_createReferral X d)" if "rf_status d = st" for d
  proof (rule db_keeps_writes [OF referral_lawsD(7) [OF assms(1)]])
    fix v r v' assume "P v" and e: "r = d\<lparr>rf_id := rf_id r\<rparr> \<and> rf_id r \<notin> rf_id ` set (rt_referrals v) \<and>
        rf_refereeId r \<notin> rf_refereeId ` set (rt_referrals v) \<and> v' = v\<lparr>rt_referrals := rt_referrals v @ [r]\<rparr>"
    moreover have "rf_status r = st" using e that by (metis referral.select_convs(5) referral.surjective referral.update_convs(1))
    ultimately show "P v'" using assms(2) unfolding appending_keeps_def by blast
  qed
  have "db_keeps view P (record_referral_at X t a b code md st)" for t
    unfolding record_referral_at_def
    by (intro keeps_rules create run_fraud_check_keeps [OF assms(1)] store_flags_keeps [OF assms(1)]
        db_keeps_reads [OF referral_lawsD(10) [OF assms(1)]] track_keeps [OF assms(1)]) simp
  then show ?thesis by (simp add: db_keeps_def record_referral_def)
qed

lemma refer_sound:
  assumes "tables_sound v" and "rf_id r \<notin> rf_id ` set (rt_referrals v)" and "rf_refereeId r \<notin> rf_refereeId ` set (rt_referrals v)"
  shows "tables_sound (v\<lparr>rt_referrals := rt_referrals v @ [r]\<rparr>)"
  using assms by (fastforce simp: tables_sound_def referrals_ok_def)

lemma create_referral_keeps:
  assumes "referral_laws X view" and "\<And>st. appending_keeps P st"
  shows "db_keeps view P (create_referral X a b code md)"
  unfolding create_referral_def
  by (intro keeps_rules db_keeps_reads [OF referral_lawsD(6) [OF assms(1)]] db_keeps_reads [OF referral_lawsD(4) [OF assms(1)]]
      run_fraud_check_keeps [OF assms(1)] record_referral_keeps [OF assms])

text \<open>Completion: only a row that is neither completed nor flagged is paid, and it is completed first.\<close>

lemma complete_sound:
  assumes "tables_sound v" and "c \<in> set (rt_referrals v)" and "rf_status c \<noteq> ReferralCompleted"
    and "r = c\<lparr>rf_status := ReferralCompleted, rf_completedAt := t\<rparr>"
    and "v' = v\<lparr>rt_referrals := map (\<lambda>x. if rf_id x = rf_id c then x\<lparr>rf_status := ReferralCompleted, rf_completedAt := t\<rparr> else x) (rt_referrals v)\<rparr>"
  shows "tables_sound v' \<and> r \<in> set (rt_referrals v') \<and> rf_refereeId r \<notin> snd ` set (rt_calls v')"
proof -
  let ?f = "\<lambda>x. if rf_id x = rf_id c then x\<lparr>rf_status := ReferralCompleted, rf_completedAt := t\<rparr> else x"
  have ok: "referrals_ok (rt_referrals v) (rt_calls v)" using assms(1) by (simp add: tables_sound_def)
  have same: "map rf_id (map ?f rows) = map rf_id rows" "map rf_refereeId (map ?f rows) = map rf_refereeId rows" for rows
    by (simp_all add: comp_def if_distrib cong: if_cong)
  have unpaid: "rf_refereeId c \<notin> snd ` set (rt_calls v)"
  proof
    assume "rf_refereeId c \<in> snd ` set (rt_calls v)"
    then obtain a where "(a, rf_refereeId c) \<in> set (rt_calls v)" by force
    then obtain d where d: "d \<in> set (rt_referrals v)" "rf_refereeId d = rf_refereeId c" "rf_status d = ReferralCompleted"
      using referrals_okD [OF ok] by blast
    have "inj_on rf_refereeId (set (rt_referrals v))" using ok by (simp add: referrals_ok_def distinct_map)
    then have "d = c" using d assms(2) by (simp add: inj_on_def)
    then show False using d assms(3) by simp
  qed
  have each: "\<exists>r \<in> set (map ?f (rt_referrals v)). rf_referrerId r = a \<and> rf_refereeId r = b \<and> rf_status r = ReferralCompleted"
    if call: "(a, b) \<in> set (rt_calls v)" for a b
  proof -
    obtain d where "d \<in> set (rt_referrals v)" "rf_referrerId d = a" "rf_refereeId d = b" "rf_status d = ReferralCompleted"
      using referrals_okD [OF ok call] by blast
    then show ?thesis by (intro bexI [of _ "?f d"]) auto
  qed
  have "\<forall>(a, b) \<in> set (rt_calls v). \<exists>r \<in> set (map ?f (rt_referrals v)).
      rf_referrerId r = a \<and> rf_refereeId r = b \<and> rf_status r = ReferralCompleted"
    using each by (intro ballI) (simp only: split_paired_all prod.case)
  then have "referrals_ok (map ?f (rt_referrals v)) (rt_calls v)"
    unfolding referrals_ok_def same using ok [unfolded referrals_ok_def] by (intro conjI) simp_all
  moreover have "r \<in> set (map ?f (rt_referrals v))" using assms(2,4) by force
  ultimately show ?thesis
    using unpaid assms(1,4,5) by (simp add: tables_sound_def)
qed

lemma paid_sound:
  assumes "tables_sound v" and "r \<in> set (rt_referrals v)" and "rf_status r = ReferralCompleted"
    and "rf_refereeId r \<notin> snd ` set (rt_calls v)"
  shows "tables_sound (v\<lparr>rt_calls := rt_calls v @ [(rf_referrerId r, rf_refereeId r)]\<rparr>)"
  using assms by (auto simp: tables_sound_def referrals_ok_def)


text \<open>The completion of one row at a time \<open>now\<close>, past the guards of \<open>completeReferral\<close>.\<close>

lemma finish_referral_spec:
  assumes "referral_laws X view"
  shows "js_spec (\<lambda>s. tables_sound (view s) \<and> c \<in> set (rt_referrals (view s)) \<and> rf_status c \<noteq> ReferralCompleted)
    (finish_referral X t c) (\<lambda>_ s. tables_sound (view s)) (\<lambda>s. tables_sound (view s))"
  unfolding finish_referral_def
proof (rule js_spec_then [OF db_writes_spec [OF referral_lawsD(8) [OF assms],
        where P = "\<lambda>v. tables_sound v \<and> c \<in> set (rt_referrals v) \<and> rf_status c \<noteq> ReferralCompleted" and E = tables_sound
          and Q = "\<lambda>r v. tables_sound v \<and> r \<in> set (rt_referrals v) \<and> rf_status r = ReferralCompleted \<and> rf_refereeId r \<notin> snd ` set (rt_calls v)"]])
  fix v r v'
  assume p: "tables_sound v \<and> c \<in> set (rt_referrals v) \<and> rf_status c \<noteq> ReferralCompleted"
    and e: "(\<exists>d \<in> set (rt_referrals v). rf_id d = rf_id c \<and> r = d\<lparr>rf_status := ReferralCompleted, rf_completedAt := Some t\<rparr>) \<and>
      v' = v\<lparr>rt_referrals := map (\<lambda>d. if rf_id d = rf_id c then d\<lparr>rf_status := ReferralCompleted, rf_completedAt := Some t\<rparr> else d) (rt_referrals v)\<rparr>"
  then obtain d where d: "d \<in> set (rt_referrals v)" "rf_id d = rf_id c" "r = d\<lparr>rf_status := ReferralCompleted, rf_completedAt := Some t\<rparr>"
    by blast
  have "inj_on rf_id (set (rt_referrals v))" using p by (simp add: tables_sound_def referrals_ok_def distinct_map)
  then have "d = c" using d p by (simp add: inj_on_def)
  then show "tables_sound v' \<and> r \<in> set (rt_referrals v') \<and> rf_status r = ReferralCompleted \<and> rf_refereeId r \<notin> snd ` set (rt_calls v')"
    using complete_sound [of v c r "Some t" v'] p e d by simp
next
  fix r
  have pay: "js_spec (\<lambda>s. tables_sound (view s) \<and> r \<in> set (rt_referrals (view s)) \<and> rf_status r = ReferralCompleted \<and>
      rf_refereeId r \<notin> snd ` set (rt_calls (view s)))
      (distribute X (rf_referrerId r) (rf_refereeId r)) (\<lambda>_ s. tables_sound (view s)) (\<lambda>s. tables_sound (view s))"
  proof (cases "rx_distribute X")
    case None
    show ?thesis unfolding distribute_def None option.case by (rule js_spec_return) simp
  next
    case (Some deliver)
    then show ?thesis unfolding distribute_def
      by (simp add: js_spec_def js_swallow_def referral_lawsD(11) [OF assms Some] paid_sound)
  qed
  show "js_spec (\<lambda>s. tables_sound (view s) \<and> r \<in> set (rt_referrals (view s)) \<and> rf_status r = ReferralCompleted \<and>
        rf_refereeId r \<notin> snd ` set (rt_calls (view s)))
      (js_then (distribute X (rf_referrerId r) (rf_refereeId r)) (\<lambda>_.
         js_then (track_referral_event X (ReferralCompletedEvent (rf_id r) (rf_referrerId r) (rf_refereeId r))) (\<lambda>_.
           js_return (Some r)))) (\<lambda>_ s. tables_sound (view s)) (\<lambda>s. tables_sound (view s))"
    by (rule js_spec_then [OF pay], rule js_spec_then [OF track_keeps [OF assms, unfolded db_keeps_spec]], rule js_spec_return)
qed simp

lemma complete_referral_keeps:
  assumes "referral_laws X view"
  shows "db_keeps view tables_sound (complete_referral X b)"
  unfolding db_keeps_spec complete_referral_def
proof (rule db_reads_then [OF referral_lawsD(6) [OF assms]])
  fix found
  have finish: "js_spec (\<lambda>s. tables_sound (view s) \<and> c \<in> set (rt_referrals (view s)) \<and> rf_status c \<noteq> ReferralCompleted)
      (\<lambda>s. finish_referral X (rx_now X s) c s) (\<lambda>_ s. tables_sound (view s)) (\<lambda>s. tables_sound (view s))" for c
    using finish_referral_spec [OF assms, of c] unfolding js_spec_def by blast
  show "js_spec (\<lambda>s. tables_sound (view s) \<and> found = find (\<lambda>x. rf_refereeId x = b) (rt_referrals (view s)))
      (case found of None \<Rightarrow> js_return None | Some row \<Rightarrow>
         if rf_status row = ReferralCompleted \<or> rf_status row = ReferralFlagged then js_return (Some row)
         else (\<lambda>s. finish_referral X (rx_now X s) row s))
      (\<lambda>_ s. tables_sound (view s)) (\<lambda>s. tables_sound (view s))"
  proof (cases found)
    case None
    show ?thesis unfolding None option.case by (rule js_spec_return) simp
  next
    case (Some row)
    show ?thesis unfolding Some option.case
    proof (rule js_spec_if)
      show "js_spec (\<lambda>s. (tables_sound (view s) \<and> Some row = find (\<lambda>x. rf_refereeId x = b) (rt_referrals (view s))) \<and>
          \<not> (rf_status row = ReferralCompleted \<or> rf_status row = ReferralFlagged))
          (\<lambda>s. finish_referral X (rx_now X s) row s) (\<lambda>_ s. tables_sound (view s)) (\<lambda>s. tables_sound (view s))"
        by (rule js_spec_pre [OF finish]) (auto dest: find_SomeD)
    qed (rule js_spec_return, simp)
  qed
qed simp


section \<open>Runs\<close>

datatype referral_call = NewCode string | Refer string string string "referral_metadata option" | Complete string

fun referral_call_run :: "'s referral_env \<Rightarrow> referral_call \<Rightarrow> 's \<Rightarrow> 's" where
  "referral_call_run X (NewCode u) s = snd (generate_referral_code X u s)"
| "referral_call_run X (Refer a b code md) s = snd (create_referral X a b code md s)"
| "referral_call_run X (Complete b) s = snd (complete_referral X b s)"

lemma referral_run_keeps:
  assumes "\<And>u. db_keeps view P (generate_referral_code X u)" and "\<And>a b code md. db_keeps view P (create_referral X a b code md)"
    and "\<And>b. db_keeps view P (complete_referral X b)" and "P (view s)"
  shows "P (view (fold (referral_call_run X) calls s))"
  using assms(4)
proof (induction calls arbitrary: s)
  case (Cons c calls)
  have "P (view (referral_call_run X c s))"
    using assms(1-3) Cons.prems by (cases c) (simp_all add: db_keeps_def)
  then show ?case using Cons.IH by simp
qed simp

lemma generate_keeps:
  assumes "referral_laws X view"
  shows "db_keeps view (\<lambda>v. codes_ok (rt_codes v) \<and> Q (rt_referrals v) (rt_calls v)) (generate_referral_code X u)"
  unfolding db_keeps_spec by (rule js_spec_post [OF generate_referral_code_spec [OF assms]]) simp_all

text \<open>
  C19. Whatever codes are made, referrals recorded and completions requested, and whichever database calls
  fail: nobody is referred twice, the distributor is asked at most once for each referred user, and
  only for a completed referral by the very referrer.
\<close>

theorem referral_rewarded_once:
  assumes "referral_laws X view" and "tables_sound (view s)" and "v' = view (fold (referral_call_run X) calls s)"
  shows "distinct (map rf_refereeId (rt_referrals v')) \<and> distinct (map snd (rt_calls v'))
    \<and> (\<forall>(a, b) \<in> set (rt_calls v'). \<exists>r \<in> set (rt_referrals v').
        rf_referrerId r = a \<and> rf_refereeId r = b \<and> rf_status r = ReferralCompleted)"
proof -
  have append: "appending_keeps tables_sound st" for st by (simp add: appending_keeps_def refer_sound)
  have codes: "db_keeps view tables_sound (generate_referral_code X u)" for u
    using generate_keeps [OF assms(1), of referrals_ok u] unfolding tables_sound_def .
  have "tables_sound v'"
    unfolding assms(3)
    by (rule referral_run_keeps [OF codes create_referral_keeps [OF assms(1) append] complete_referral_keeps [OF assms(1)] assms(2)])
  then show ?thesis by (simp add: tables_sound_def referrals_ok_def)
qed

section \<open>No referral is ever flagged\<close>

text \<open>The counters Redis answers stay below the limit of three.\<close>

definition small_counts :: "'s fraud_redis \<Rightarrow> bool" where
  "small_counts R \<longleftrightarrow> (\<forall>k s n. fst (rr_get R k s) = Inr (Some n) \<longrightarrow> n < 3)"

lemma check_never_blocks:
  assumes "a \<noteq> b" and "small_counts R"
    and "check_referral R a b md s = (Inr result, s')"
  shows "\<not> fk_shouldBlock result"
proof -
  have small: "get_or 0 count < 3" if "rr_get R k s = (Inr count, s')" for k s count s'
    using assms(2) that unfolding small_counts_def by (cases count) (simp, metis fst_conv get_or_simps(2))
  show ?thesis
    using assms(1,3)
    by (auto simp: check_referral_def Let_def js_then_def check_bulk_creation_def get_ip_referral_count_def flag_if_def
        check_self_referral_def check_ip_match_def check_device_match_def
        dest: small split: prod.splits sum.splits if_splits option.splits)
qed

definition none_flagged :: "referral_tables \<Rightarrow> bool" where
  "none_flagged v \<longleftrightarrow> (\<forall>r \<in> set (rt_referrals v). rf_status r \<noteq> ReferralFlagged)"

lemma create_none_flagged:
  assumes "referral_laws X view" and "rx_check X = Some (check_referral R)"
    and "small_counts R"
  shows "db_keeps view none_flagged (create_referral X a b code md)"
proof (cases "a = b")
  case False
  have pending: "appending_keeps none_flagged ReferralPending" by (simp add: appending_keeps_def none_flagged_def)
  have checked: "js_spec (\<lambda>s. none_flagged (view s)) (run_fraud_check X a b md)
      (\<lambda>result s. none_flagged (view s) \<and> (\<forall>k. result = Some k \<longrightarrow> \<not> fk_shouldBlock k)) (\<lambda>s. none_flagged (view s))"
  proof (rule js_specI)
    fix s x s' assume P: "none_flagged (view s)" and run: "run_fraud_check X a b md s = (x, s')"
    have "none_flagged (view s')" using db_keepsD [where view = view and P = none_flagged, OF run_fraud_check_keeps [OF assms(1)] P] run
      by (metis snd_conv)
    moreover have "\<not> fk_shouldBlock k" if "x = Inr (Some k)" for k
      using run that check_never_blocks [OF False assms(3)] assms(2)
      by (auto simp: run_fraud_check_def js_then_def split: option.splits prod.splits sum.splits)
    ultimately show "js_outcome (\<lambda>s. none_flagged (view s))
        (\<lambda>result s. none_flagged (view s) \<and> (\<forall>k. result = Some k \<longrightarrow> \<not> fk_shouldBlock k)) (x, s')"
      by (cases x) simp_all
  qed
  have body: "db_keeps view none_flagged (js_then (run_fraud_check X a b md) (\<lambda>result. record_referral X a b code md
      (case result of None \<Rightarrow> ReferralPending
       | Some fraudCheck \<Rightarrow> if fk_shouldBlock fraudCheck then ReferralFlagged else ReferralPending)))"
    unfolding db_keeps_spec
  proof (rule js_spec_then [OF checked])
    fix result :: "fraud_check option"
    let ?st = "case result of None \<Rightarrow> ReferralPending
       | Some fraudCheck \<Rightarrow> if fk_shouldBlock fraudCheck then ReferralFlagged else ReferralPending"
    show "js_spec (\<lambda>s. none_flagged (view s) \<and> (\<forall>k. result = Some k \<longrightarrow> \<not> fk_shouldBlock k))
        (record_referral X a b code md ?st) (\<lambda>_ s. none_flagged (view s)) (\<lambda>s. none_flagged (view s))"
    proof (rule js_spec_fact)
      assume "\<forall>k. result = Some k \<longrightarrow> \<not> fk_shouldBlock k"
      then have "?st = ReferralPending" by (simp split: option.split)
      then show "js_spec (\<lambda>s. none_flagged (view s)) (record_referral X a b code md ?st)
          (\<lambda>_ s. none_flagged (view s)) (\<lambda>s. none_flagged (view s))"
        using record_referral_keeps [OF assms(1) pending] by (simp add: db_keeps_spec)
    qed
  qed
  show ?thesis unfolding create_referral_def
    by (intro keeps_rules db_keeps_reads [OF referral_lawsD(6) [OF assms(1)]] db_keeps_reads [OF referral_lawsD(4) [OF assms(1)]] body)
qed (simp add: create_referral_def db_keeps_def)

lemma finish_none_flagged:
  assumes "referral_laws X view"
  shows "db_keeps view none_flagged (complete_referral X b)"
proof -
  have pay: "db_keeps view none_flagged (distribute X r1 r2)" for r1 r2
    using referral_lawsD(11) [OF assms]
    by (auto simp: distribute_def db_keeps_def js_swallow_def none_flagged_def split: option.split)
  have upd: "db_keeps view none_flagged (rx_updateReferral X i (\<lambda>r. r\<lparr>rf_status := ReferralCompleted, rf_completedAt := t\<rparr>))" for i t
    by (rule db_keeps_writes [OF referral_lawsD(8) [OF assms]]) (auto simp: none_flagged_def)
  have "db_keeps view none_flagged (finish_referral X t row)" for t row
    unfolding finish_referral_def by (intro keeps_rules upd pay track_keeps [OF assms])
  then have finish: "db_keeps view none_flagged (\<lambda>s. finish_referral X (rx_now X s) row s)" for row
    by (simp add: db_keeps_def)
  show ?thesis unfolding complete_referral_def
    by (intro keeps_rules db_keeps_reads [OF referral_lawsD(6) [OF assms]] finish)
qed

text \<open>
  With the service's own detector no referral is ever flagged as long as no counter reaches three: a
  referral to oneself is refused before the check, the address and device checks answer \<open>false\<close>, and
  nothing calls \<open>incrementIPCount\<close>.
\<close>

theorem no_referral_flagged:
  assumes "referral_laws X view" and "rx_check X = Some (check_referral R)"
    and "small_counts R"
    and "codes_ok (rt_codes (view s))" and "none_flagged (view s)"
  shows "none_flagged (view (fold (referral_call_run X) calls s))"
proof -
  let ?P = "\<lambda>v. codes_ok (rt_codes v) \<and> none_flagged v"
  have codes: "db_keeps view ?P (generate_referral_code X u)" for u
    using generate_keeps [OF assms(1), of "\<lambda>rows _. \<forall>r \<in> set rows. rf_status r \<noteq> ReferralFlagged" u] by (simp add: none_flagged_def)
  have only: "db_keeps view ?P m" if "db_keeps view none_flagged m" "db_keeps view (\<lambda>v. codes_ok (rt_codes v)) m" for m :: "('a, referral_error, 'r) js_method"
    using that by (simp add: db_keeps_def)
  have c1: "db_keeps view (\<lambda>v. codes_ok (rt_codes v)) (create_referral X a b code md)" for a b code md
    by (rule create_referral_keeps [OF assms(1)]) (simp add: appending_keeps_def)
  have "db_keeps view (\<lambda>v. codes_ok (rt_codes v)) (distribute X r1 r2)" for r1 r2
    using referral_lawsD(11) [OF assms(1)] by (auto simp: distribute_def db_keeps_def js_swallow_def split: option.split)
  moreover have "db_keeps view (\<lambda>v. codes_ok (rt_codes v)) (rx_updateReferral X i f)" for i f
    by (rule db_keeps_writes [OF referral_lawsD(8) [OF assms(1)]]) auto
  ultimately have "db_keeps view (\<lambda>v. codes_ok (rt_codes v)) (finish_referral X t row)" for t row
    unfolding finish_referral_def by (intro keeps_rules track_keeps [OF assms(1)])
  then have finish: "db_keeps view (\<lambda>v. codes_ok (rt_codes v)) (\<lambda>s. finish_referral X (rx_now X s) row s)" for row
    by (simp add: db_keeps_def)
  have c2: "db_keeps view (\<lambda>v. codes_ok (rt_codes v)) (complete_referral X b)" for b
    unfolding complete_referral_def by (intro keeps_rules db_keeps_reads [OF referral_lawsD(6) [OF assms(1)]] finish)
  have "?P (view (fold (referral_call_run X) calls s))"
    by (rule referral_run_keeps [where P = ?P, OF codes only [OF create_none_flagged [OF assms(1-3)] c1]
          only [OF finish_none_flagged [OF assms(1)] c2]]) (intro conjI assms(4,5))
  then show ?thesis by simp
qed


section \<open>The timeline\<close>

lemma get_or_set: "get_or d (js_get (js_set k v m) k') = (if k' = k then v else get_or d (js_get m k'))"
  by (simp add: update_conv')

lemma daily_map_counts:
  "get_or (0, 0) (js_get (daily_map day rows m) d) =
     (fst (get_or (0, 0) (js_get m d)) + length (filter (\<lambda>r. day (rf_createdAt r) = d) rows),
      snd (get_or (0, 0) (js_get m d)) + length (filter (\<lambda>r. \<exists>t. rf_completedAt r = Some t \<and> day t = d) rows))"
proof (induction rows arbitrary: m)
  case (Cons r rows)
  show ?case
    by (cases "rf_completedAt r")
       (auto simp: Cons.IH Let_def add_referral_on_def add_completion_on_def get_or_set split: prod.split)
qed simp

lemma daily_map_keys: "distinct (map fst m) \<Longrightarrow> distinct (map fst (daily_map day rows m))"
  by (induction rows arbitrary: m)
     (auto simp: Let_def add_referral_on_def add_completion_on_def distinct_update split: option.split prod.split)

text \<open>
  The timeline has one entry per day, and the entry of a day counts the referrals made and the
  completions on that day; a day without an entry has neither.
\<close>

theorem referral_timeline_exact:
  "distinct (map fst (ra_timeline (analytics_of day rows))) \<and>
   get_or (0, 0) (js_get (ra_timeline (analytics_of day rows)) d) =
     (length (filter (\<lambda>r. day (rf_createdAt r) = d) rows),
      length (filter (\<lambda>r. \<exists>t. rf_completedAt r = Some t \<and> day t = d) rows))"
  by (simp add: analytics_of_def daily_map_counts daily_map_keys)

section \<open>A database in memory\<close>

definition memory_referrals :: "referral_tables fraud_redis \<Rightarrow> referral_tables referral_env" where
  "memory_referrals R = \<lparr>
     rx_now = (\<lambda>v. 1000),
     rx_randomBytes = (\<lambda>n v. (replicate n (word_of_nat (length (rt_codes v))), v)),
     rx_codeOfUser = (\<lambda>u v. (Inr (find (\<lambda>c. rc_userId c = u) (rt_codes v)), v)),
     rx_findCode = (\<lambda>k v. (Inr (find (\<lambda>c. rc_code c = k) (rt_codes v)), v)),
     rx_createCode = (\<lambda>c v. if rc_userId c \<in> rc_userId ` set (rt_codes v) \<or> rc_code c \<in> rc_code ` set (rt_codes v)
        then (Inl (ReferralDbError ''unique''), v) else (Inr (), v\<lparr>rt_codes := rt_codes v @ [c]\<rparr>)),
     rx_findReferral = (\<lambda>b v. (Inr (find (\<lambda>r. rf_refereeId r = b) (rt_referrals v)), v)),
     rx_createReferral = (\<lambda>d v. if rf_refereeId d \<in> rf_refereeId ` set (rt_referrals v) then (Inl (ReferralDbError ''unique''), v)
        else let r = d\<lparr>rf_id := fresh_text (map rf_id (rt_referrals v))\<rparr> in (Inr r, v\<lparr>rt_referrals := rt_referrals v @ [r]\<rparr>)),
     rx_updateReferral = (\<lambda>i f v. case find (\<lambda>r. rf_id r = i) (rt_referrals v) of
          None \<Rightarrow> (Inl (ReferralDbError ''no row''), v)
        | Some c \<Rightarrow> (Inr (f c), v\<lparr>rt_referrals := map (\<lambda>r. if rf_id r = i then f r else r) (rt_referrals v)\<rparr>)),
     rx_referralsOf = (\<lambda>u v. (Inr (filter (\<lambda>r. rf_referrerId r = u) (rt_referrals v)), v)),
     rx_rewardCount = (\<lambda>u v. (Inr 0, v)),
     rx_createFlag = (\<lambda>fl v. (Inr (), v)),
     rx_addInvite = (\<lambda>u v. (Inr (), v)),
     rx_distribute = Some (\<lambda>a b v. (Inr (), v\<lparr>rt_calls := rt_calls v @ [(a, b)]\<rparr>)),
     rx_check = Some (check_referral R),
     rx_saveEvent = None\<rparr>"

definition empty_redis :: "'s fraud_redis" where
  "empty_redis = \<lparr>rr_get = (\<lambda>k s. (Inr None, s)), rr_incr = (\<lambda>k s. (Inr (), s)), rr_expire = (\<lambda>k t s. (Inr (), s))\<rparr>"

lemma empty_redis_check: "snd (check_referral empty_redis a b md s) = s"
  by (simp add: check_referral_def Let_def js_then_def check_bulk_creation_def get_ip_referral_count_def empty_redis_def)

lemma memory_referral_laws: "referral_laws (memory_referrals empty_redis) (\<lambda>v. v)"
proof -
  have update: "db_writes (\<lambda>v. v) (rx_updateReferral (memory_referrals empty_redis) i f) (\<lambda>v r v'.
        (\<exists>c \<in> set (rt_referrals v). rf_id c = i \<and> r = f c) \<and>
        v' = v\<lparr>rt_referrals := map (\<lambda>c. if rf_id c = i then f c else c) (rt_referrals v)\<rparr>)" for i f
    unfolding db_writes_def memory_referrals_def by (auto split: option.splits dest: find_SomeD [OF sym])
  have create: "db_writes (\<lambda>v. v) (rx_createReferral (memory_referrals empty_redis) d) (\<lambda>v r v'. r = d\<lparr>rf_id := rf_id r\<rparr> \<and>
        rf_id r \<notin> rf_id ` set (rt_referrals v) \<and> rf_refereeId r \<notin> rf_refereeId ` set (rt_referrals v) \<and>
        v' = v\<lparr>rt_referrals := rt_referrals v @ [r]\<rparr>)" for d
  proof -
    have "fresh_text (map rf_id rows) \<notin> rf_id ` set rows" for rows :: "referral list"
      using fresh_text_fresh [of "map rf_id rows"] by simp
    then show ?thesis unfolding db_writes_def memory_referrals_def by (auto simp: Let_def)
  qed
  show ?thesis
    unfolding referral_laws_def
    by (intro conjI allI impI update create)
       (auto simp: memory_referrals_def db_reads_def db_writes_def, metis empty_redis_check snd_conv)
qed

definition no_referrals :: referral_tables where
  "no_referrals = \<lparr>rt_codes = [], rt_referrals = [], rt_calls = []\<rparr>"

definition referral_demo :: "referral_call list" where
  "referral_demo = [NewCode ''ann'', Refer ''ann'' ''bob'' ''AAAAAAAA'' None, Complete ''bob'', Complete ''bob'']"

lemmas referral_run_defs =
  generate_referral_code_def generate_code_def create_referral_def record_referral_def record_referral_at_def run_fraud_check_def
  complete_referral_def finish_referral_def distribute_def track_referral_event_def memory_referrals_def no_referrals_def
  referral_demo_def js_then_def js_swallow_def code_char_def code_alphabet_def

lemma first_attempt:
  "try_codes X len 10 = js_then (generate_code X len) (\<lambda>code. js_then (rx_findCode X code) (\<lambda>existing.
     if existing = None then js_return (Some code) else try_codes X len 9))"
  using try_codes.simps(2) [of X len 9] by simp

lemma eight_times: "replicate 8 x = [x, x, x, x, x, x, x, x]"
  by (simp add: numeral_eq_Suc)

lemma referral_demo_run:
  "rt_calls (fold (referral_call_run (memory_referrals empty_redis)) referral_demo no_referrals) = [(''ann'', ''bob'')]"
  by (simp add: referral_run_defs generate_unique.simps [of _ 8] first_attempt eight_times Let_def)

theorem referral_rewarded_once_witness:
  "\<exists>r \<in> set (rt_referrals (fold (referral_call_run (memory_referrals empty_redis)) referral_demo no_referrals)).
     rf_refereeId r = ''bob'' \<and> rf_status r = ReferralCompleted"
proof -
  have "tables_sound no_referrals" by (simp add: tables_sound_def no_referrals_def codes_ok_def referrals_ok_def)
  from referral_rewarded_once [OF memory_referral_laws this refl, of referral_demo] referral_demo_run
  show ?thesis by fastforce
qed

theorem no_referral_flagged_witness:
  "none_flagged (fold (referral_call_run (memory_referrals empty_redis)) referral_demo no_referrals)"
  by (rule no_referral_flagged [OF memory_referral_laws, where R = empty_redis])
     (simp_all add: memory_referrals_def small_counts_def empty_redis_def no_referrals_def codes_ok_def none_flagged_def)

theorem referral_code_roundtrip_witness:
  "fst (validate_referral_code (memory_referrals empty_redis) ''AAAAAAAA''
      (snd (generate_referral_code (memory_referrals empty_redis) ''ann'' no_referrals))) \<noteq> Inr False"
proof -
  have run: "generate_referral_code (memory_referrals empty_redis) ''ann'' no_referrals =
      (Inr ''AAAAAAAA'', no_referrals\<lparr>rt_codes := [\<lparr>rc_userId = ''ann'', rc_code = ''AAAAAAAA''\<rparr>]\<rparr>)"
    by (simp add: referral_run_defs generate_unique.simps [of _ 8] first_attempt eight_times Let_def)
  have "codes_ok (rt_codes no_referrals)" by (simp add: no_referrals_def codes_ok_def)
  from referral_code_roundtrip [OF memory_referral_laws this run] show ?thesis unfolding run by simp
qed

end
