(* ===== verification/ABTests.thy ===== *)
theory ABTests
  imports JsPrelude "HOL-Library.Word"
begin

text \<open>
  A/B tests, \<open>backend/src/services/abTestService.ts\<close>: creation with its traffic check, the assignment of
  users by a 32-bit hash, conversions, the results with their Wilson intervals and the winner.

  The tables of tests and analytics events are a record of operations on an abstract state. Traffic is
  rational, rates and bounds are real; a bound that the code computes as \<open>NaN\<close> is \<open>None\<close>. The entries of
  a test's variants are in the order \<open>Object.entries\<close> lists them.
\<close>

section \<open>Data\<close>

record ab_variant =
  av_traffic :: rat
  av_config :: string

datatype test_status = TestActive | TestCompleted

record ab_test =
  at_id :: string
  at_name :: string
  at_description :: "string option"
  at_variants :: "(string, ab_variant) jsmap"
  at_primary :: string
  at_secondary :: "string list"
  at_endDate :: "int option"
  at_status :: test_status

record ab_config =
  ac_name :: string
  ac_description :: "string option"
  ac_variants :: "(string, ab_variant) jsmap"
  ac_primary :: string
  ac_secondary :: "string list"
  ac_duration :: "int option"

datatype ab_kind = Assigned | Conversion

record ab_event =
  ev_kind :: ab_kind
  ev_userId :: string
  ev_testName :: string
  ev_variant :: "string option"
  ev_metric :: "(string \<times> rat) option"
  ev_timestamp :: int

record ab_result =
  ar_variant :: string
  ar_conversions :: nat
  ar_visitors :: nat
  ar_conversionRate :: real
  ar_lower :: "real option"
  ar_upper :: "real option"
  ar_pValue :: "real option option"
  ar_isWinner :: "bool option"

datatype ab_error = TrafficNot100 | NoActiveTest string | NotAssigned | TestNotFound string | AbDbError string

datatype stored_results =
    Interim "ab_result list" int
  | Final "ab_result list" "string option" "(real option \<times> real option) option"

record 's ab_env =
  ax_now :: "'s \<Rightarrow> int"
  ax_createTest :: "ab_test \<Rightarrow> ('s, ab_error, ab_test) js_method"
  ax_findActive :: "string \<Rightarrow> ('s, ab_error, ab_test option) js_method"
  ax_findTest :: "string \<Rightarrow> ('s, ab_error, ab_test option) js_method"
  ax_storeResults :: "string \<Rightarrow> stored_results \<Rightarrow> ('s, ab_error, unit) js_method"
  ax_complete :: "string \<Rightarrow> int \<Rightarrow> stored_results \<Rightarrow> ('s, ab_error, unit) js_method"
  ax_lastAssignment :: "string \<Rightarrow> string \<Rightarrow> ('s, ab_error, ab_event option) js_method"
  ax_createEvent :: "ab_event \<Rightarrow> ('s, ab_error, unit) js_method"
  ax_countEvents :: "ab_kind \<Rightarrow> string \<Rightarrow> string \<Rightarrow> ('s, ab_error, nat) js_method"
  ax_testsWith :: "test_status \<Rightarrow> nat option \<Rightarrow> ('s, ab_error, ab_test list) js_method"

section \<open>Creation\<close>

definition total_traffic :: "(string, ab_variant) jsmap \<Rightarrow> rat" where
  "total_traffic variants = sum_list (map (\<lambda>(name, v). av_traffic v) variants)"

text \<open>\<open>config.duration ? ... : null\<close>: a duration of zero days is no duration.\<close>

definition end_date :: "int \<Rightarrow> int option \<Rightarrow> int option" where
  "end_date now duration =
     (case duration of None \<Rightarrow> None | Some d \<Rightarrow> if d = 0 then None else Some (now + d * 24 * 60 * 60 * 1000))"

definition create_test :: "'s ab_env \<Rightarrow> ab_config \<Rightarrow> ('s, ab_error, ab_test) js_method" where
  "create_test X config s =
     (if \<bar>total_traffic (ac_variants config) - 100\<bar> > 1 / 100 then (Inl TrafficNot100, s)
      else ax_createTest X \<lparr>at_id = [], at_name = ac_name config, at_description = ac_description config,
             at_variants = ac_variants config, at_primary = ac_primary config, at_secondary = ac_secondary config,
             at_endDate = end_date (ax_now X s) (ac_duration config), at_status = TestActive\<rparr> s)"

section \<open>Assignment\<close>

text \<open>\<open>(hash << 5) - hash + char\<close> cut to 32 bits.\<close>

definition ab_hash_step :: "32 word \<Rightarrow> char \<Rightarrow> 32 word" where
  "ab_hash_step hash c = push_bit 5 hash - hash + word_of_nat (of_char c)"

definition hash_string :: "string \<Rightarrow> int" where
  "hash_string str = \<bar>sint (foldl ab_hash_step 0 str)\<bar>"

fun pick_variant :: "int \<Rightarrow> rat \<Rightarrow> (string, ab_variant) jsmap \<Rightarrow> string option" where
  "pick_variant traffic cumulative [] = None"
| "pick_variant traffic cumulative ((variant, config) # rest) =
     (let cumulative' = cumulative + av_traffic config
      in if of_int traffic < cumulative' then Some variant else pick_variant traffic cumulative' rest)"

definition assign_variant :: "(string, ab_variant) jsmap \<Rightarrow> string \<Rightarrow> string option" where
  "assign_variant variants userId =
     (case pick_variant (hash_string userId mod 100) 0 variants of
        Some variant \<Rightarrow> Some variant
      | None \<Rightarrow> js_at (js_keys variants) 0)"

definition get_user_assignment :: "'s ab_env \<Rightarrow> string \<Rightarrow> string \<Rightarrow> ('s, ab_error, string option) js_method" where
  "get_user_assignment X userId testName =
     js_then (ax_lastAssignment X userId testName) (\<lambda>event.
       js_return (truthy (case event of None \<Rightarrow> None | Some e \<Rightarrow> ev_variant e)))"

definition track_event ::
  "'s ab_env \<Rightarrow> string \<Rightarrow> string \<Rightarrow> ab_kind \<Rightarrow> string option \<Rightarrow> (string \<times> rat) option \<Rightarrow> ('s, ab_error, unit) js_method" where
  "track_event X userId testName kind variant metric s =
     ax_createEvent X \<lparr>ev_kind = kind, ev_userId = userId, ev_testName = testName, ev_variant = variant,
       ev_metric = metric, ev_timestamp = ax_now X s\<rparr> s"

definition assign_user :: "'s ab_env \<Rightarrow> string \<Rightarrow> string \<Rightarrow> ('s, ab_error, string option) js_method" where
  "assign_user X userId testName =
     js_then (ax_findActive X testName) (\<lambda>found.
       case found of
         None \<Rightarrow> js_throw (NoActiveTest testName)
       | Some test \<Rightarrow>
           js_then (get_user_assignment X userId testName) (\<lambda>existing.
             case existing of
               Some variant \<Rightarrow> js_return (Some variant)
             | None \<Rightarrow>
                 js_then (track_event X userId testName Assigned (assign_variant (at_variants test) userId) None) (\<lambda>_.
                   js_return (assign_variant (at_variants test) userId))))"

section \<open>Results\<close>

text \<open>\<open>Math.sqrt\<close>, \<open>NaN\<close> below zero.\<close>

definition js_sqrt :: "real \<Rightarrow> real option" where
  "js_sqrt x = (if x < 0 then None else Some (sqrt x))"

definition confidence_interval :: "nat \<Rightarrow> real \<Rightarrow> real option \<times> real option" where
  "confidence_interval visitors rate =
     (if visitors = 0 then (Some 0, Some 0)
      else let z = 196 / 100; n = real visitors; p = rate;
               denominator = 1 + (z * z) / n;
               center = p + (z * z) / (2 * n);
               margin = map_option (\<lambda>r. z * r) (js_sqrt ((p * (1 - p) + (z * z) / (4 * n)) / n))
           in (map_option (\<lambda>m. max 0 ((center - m) / denominator)) margin,
               map_option (\<lambda>m. min 1 ((center + m) / denominator)) margin))"

definition ab_rate :: "nat \<Rightarrow> nat \<Rightarrow> real" where
  "ab_rate conversions visitors = (if visitors > 0 then real conversions / real visitors else 0)"

definition variant_results :: "string \<Rightarrow> nat \<Rightarrow> nat \<Rightarrow> ab_result" where
  "variant_results variant visitors conversions =
     (let interval = confidence_interval visitors (ab_rate conversions visitors)
      in \<lparr>ar_variant = variant, ar_conversions = conversions, ar_visitors = visitors,
          ar_conversionRate = ab_rate conversions visitors, ar_lower = fst interval, ar_upper = snd interval,
          ar_pValue = None, ar_isWinner = None\<rparr>)"

definition calculate_variant_results :: "'s ab_env \<Rightarrow> string \<Rightarrow> string \<Rightarrow> ('s, ab_error, ab_result) js_method" where
  "calculate_variant_results X testName variant =
     js_then (ax_countEvents X Assigned testName variant) (\<lambda>visitors.
       js_then (ax_countEvents X Conversion testName variant) (\<lambda>conversions.
         js_return (variant_results variant visitors conversions)))"

definition has_sufficient_data :: "ab_result list \<Rightarrow> bool" where
  "has_sufficient_data results \<longleftrightarrow> list_all (\<lambda>r. ar_visitors r \<ge> 100) results"

definition normal_cdf :: "real \<Rightarrow> real" where
  "normal_cdf x0 =
     (let a1 = 254829592 / 10 ^ 9; a2 = - 284496736 / 10 ^ 9; a3 = 1421413741 / 10 ^ 9;
          a4 = - 1453152027 / 10 ^ 9; a5 = 1061405429 / 10 ^ 9; p = 3275911 / 10 ^ 7;
          sign = (if x0 < 0 then - 1 else 1);
          x = \<bar>x0\<bar> / sqrt 2;
          t = 1 / (1 + p * x);
          y = 1 - ((((a5 * t + a4) * t + a3) * t + a2) * t + a1) * t * exp (- x * x)
      in 1 / 2 * (1 + sign * y))"

definition z_score_to_p_value :: "real \<Rightarrow> real" where
  "z_score_to_p_value zScore = 2 * (1 - normal_cdf \<bar>zScore\<bar>)"

text \<open>Both variants have visitors where the code calls it; \<open>None\<close> is \<open>NaN\<close>.\<close>

definition calculate_p_value :: "ab_result \<Rightarrow> ab_result \<Rightarrow> real option" where
  "calculate_p_value variant1 variant2 =
     (let p1 = ar_conversionRate variant1; p2 = ar_conversionRate variant2;
          n1 = real (ar_visitors variant1); n2 = real (ar_visitors variant2);
          pooledP = (real (ar_conversions variant1) + real (ar_conversions variant2)) / (n1 + n2)
      in case js_sqrt (pooledP * (1 - pooledP) * (1 / n1 + 1 / n2)) of
           None \<Rightarrow> None
         | Some standardError \<Rightarrow>
             if standardError = 0 then Some 1 else Some (z_score_to_p_value (\<bar>p1 - p2\<bar> / standardError)))"

text \<open>The sort is in place, and the p-value is written on the first result: both are seen by the caller.\<close>

definition determine_winner :: "ab_result list \<Rightarrow> string option \<times> ab_result list" where
  "determine_winner results =
     (if length results < 2 then (None, results)
      else case sort_key (\<lambda>r. - ar_conversionRate r) results of
        winner # runnerUp # rest \<Rightarrow>
          (let pValue = calculate_p_value winner runnerUp
           in ((case pValue of None \<Rightarrow> None | Some p \<Rightarrow> if p < 5 / 100 then Some (ar_variant winner) else None),
               winner\<lparr>ar_pValue := Some pValue\<rparr> # runnerUp # rest))
      | other \<Rightarrow> (None, other))"

definition judge_results :: "ab_result list \<Rightarrow> ab_result list" where
  "judge_results results =
     (if has_sufficient_data results
      then case determine_winner results of
             (winner, ranked) \<Rightarrow> map (\<lambda>r. r\<lparr>ar_isWinner := Some (Some (ar_variant r) = winner)\<rparr>) ranked
      else results)"

fun collect_results :: "'s ab_env \<Rightarrow> string \<Rightarrow> string list \<Rightarrow> ('s, ab_error, ab_result list) js_method" where
  "collect_results X testName [] = js_return []"
| "collect_results X testName (variant # rest) =
     js_then (calculate_variant_results X testName variant) (\<lambda>r.
       js_then (collect_results X testName rest) (\<lambda>rs. js_return (r # rs)))"

definition get_test_results :: "'s ab_env \<Rightarrow> string \<Rightarrow> ('s, ab_error, ab_result list) js_method" where
  "get_test_results X testName =
     js_then (ax_findTest X testName) (\<lambda>found.
       case found of
         None \<Rightarrow> js_throw (TestNotFound testName)
       | Some test \<Rightarrow>
           js_then (collect_results X testName (js_keys (at_variants test))) (\<lambda>results. js_return (judge_results results)))"

section \<open>Conversions and the end of a test\<close>

definition update_test_results :: "'s ab_env \<Rightarrow> string \<Rightarrow> ('s, ab_error, unit) js_method" where
  "update_test_results X testName =
     js_then (ax_findTest X testName) (\<lambda>found.
       case found of
         None \<Rightarrow> js_return ()
       | Some test \<Rightarrow> js_then (get_test_results X testName) (\<lambda>results s.
           ax_storeResults X (at_id test) (Interim results (ax_now X s)) s))"

text \<open>\<open>value || 1\<close>: a value of zero counts as one.\<close>

definition conversion_value :: "rat option \<Rightarrow> rat" where
  "conversion_value v = (case v of None \<Rightarrow> 1 | Some x \<Rightarrow> if x = 0 then 1 else x)"

definition track_conversion ::
  "'s ab_env \<Rightarrow> string \<Rightarrow> string \<Rightarrow> string \<Rightarrow> rat option \<Rightarrow> ('s, ab_error, unit) js_method" where
  "track_conversion X userId testName metric v =
     js_then (get_user_assignment X userId testName) (\<lambda>existing.
       case existing of
         None \<Rightarrow> js_throw NotAssigned
       | Some variant \<Rightarrow>
           js_then (track_event X userId testName Conversion (Some variant) (Some (metric, conversion_value v))) (\<lambda>_.
             update_test_results X testName))"

definition final_results :: "ab_result list \<Rightarrow> stored_results" where
  "final_results results =
     (let winner = find (\<lambda>r. ar_isWinner r = Some True) results
      in Final results (map_option ar_variant winner) (map_option (\<lambda>w. (ar_lower w, ar_upper w)) winner))"

definition stop_test :: "'s ab_env \<Rightarrow> string \<Rightarrow> ('s, ab_error, unit) js_method" where
  "stop_test X testName =
     js_then (ax_findTest X testName) (\<lambda>found.
       case found of
         None \<Rightarrow> js_throw (TestNotFound testName)
       | Some test \<Rightarrow> js_then (get_test_results X testName) (\<lambda>results s.
           ax_complete X (at_id test) (ax_now X s) (final_results results) s))"

definition get_active_tests :: "'s ab_env \<Rightarrow> ('s, ab_error, ab_test list) js_method" where
  "get_active_tests X = ax_testsWith X TestActive None"

definition get_test_history :: "'s ab_env \<Rightarrow> ('s, ab_error, ab_test list) js_method" where
  "get_test_history X = ax_testsWith X TestCompleted (Some 50)"


section \<open>Assignment follows the traffic\<close>

lemma total_traffic_simps [simp]:
  "total_traffic [] = 0" "total_traffic ((a, v) # rest) = av_traffic v + total_traffic rest"
  "total_traffic (xs @ ys) = total_traffic xs + total_traffic ys"
  by (simp_all add: total_traffic_def)

lemma pick_variant_split:
  assumes "c \<le> of_int h" and "of_int h < c + total_traffic variants"
  shows "\<exists>pre name v post. variants = pre @ (name, v) # post \<and> pick_variant h c variants = Some name
    \<and> c + total_traffic pre \<le> of_int h \<and> of_int h < c + total_traffic pre + av_traffic v"
  using assms
proof (induction h c variants rule: pick_variant.induct)
  case (2 h c a v rest)
  show ?case
  proof (cases "of_int h < c + av_traffic v")
    case True
    then show ?thesis
      using 2(2) by (intro exI [of _ "[]"] exI [of _ a] exI [of _ v] exI [of _ rest]) simp
  next
    case False
    then obtain pre name w post where "rest = pre @ (name, w) # post" "pick_variant h (c + av_traffic v) rest = Some name"
      "c + av_traffic v + total_traffic pre \<le> of_int h" "of_int h < c + av_traffic v + total_traffic pre + av_traffic w"
      using 2(1) [OF refl, of] 2(3) by (auto simp: algebra_simps)
    then show ?thesis using False
      by (intro exI [of _ "(a, v) # pre"] exI [of _ name] exI [of _ w] exI [of _ post]) (simp add: algebra_simps)
  qed
qed simp

text \<open>
  A test that \<open>createTest\<close> accepts assigns every user within the band of the hash that the traffic before
  and of the chosen variant spans: the fallback to the first variant is never taken.
\<close>

theorem accepted_test_never_falls_back:
  assumes "create_test X config s = (Inr test, s')"
    and "\<forall>t s r s'. ax_createTest X t s = (Inr r, s') \<longrightarrow> at_variants r = at_variants t"
  shows "\<exists>pre name v post. at_variants test = pre @ (name, v) # post \<and> assign_variant (at_variants test) u = Some name
    \<and> total_traffic pre \<le> of_int (hash_string u mod 100)
    \<and> of_int (hash_string u mod 100) < total_traffic pre + av_traffic v"
proof -
  let ?h = "hash_string u mod 100"
  have accepted: "\<not> \<bar>total_traffic (ac_variants config) - 100\<bar> > 1 / 100"
    using assms(1) unfolding create_test_def by (metis Inl_Inr_False fst_conv)
  have variants: "at_variants test = ac_variants config"
    using assms(1) unfolding create_test_def if_not_P [OF accepted] by (drule_tac assms(2) [rule_format]) simp
  have h: "0 \<le> ?h" "?h \<le> 99" by simp_all
  then have hr: "(0::rat) \<le> of_int ?h" "(of_int ?h :: rat) \<le> 99"
    by (metis of_int_0_le_iff, metis of_int_le_iff of_int_numeral)
  have "(of_int ?h :: rat) < 0 + total_traffic (ac_variants config)" using accepted hr by linarith
  with hr(1) obtain pre name v post where "ac_variants config = pre @ (name, v) # post"
    "pick_variant ?h 0 (ac_variants config) = Some name" "0 + total_traffic pre \<le> of_int ?h"
    "of_int ?h < 0 + total_traffic pre + av_traffic v"
    using pick_variant_split [of 0 ?h "ac_variants config"] by blast
  then show ?thesis unfolding variants
    by (intro exI [of _ pre] exI [of _ name] exI [of _ v] exI [of _ post]) (simp add: assign_variant_def)
qed

lemma pick_variant_in: "pick_variant h c variants = Some name \<Longrightarrow> name \<in> fst ` set variants"
  by (induction h c variants rule: pick_variant.induct) (auto simp: Let_def split: if_splits)

text \<open>The residues that go to a variant.\<close>

definition residues_of :: "(string, ab_variant) jsmap \<Rightarrow> string \<Rightarrow> int set" where
  "residues_of variants name = {h \<in> {0..<100}. pick_variant h 0 variants = Some name}"

lemma pick_share:
  assumes "js_wf variants" and "(name, v) \<in> set variants" and "\<forall>(n, w) \<in> set variants. av_traffic w = of_nat (k n)"
  shows "card {h. c \<le> h \<and> pick_variant h (of_int c) variants = Some name} = k name"
  using assms
proof (induction variants arbitrary: c)
  case (Cons x rest)
  obtain a w where x: "x = (a, w)" by (rule prod.exhaust)
  have w: "av_traffic w = of_nat (k a)" using Cons.prems(3) by (simp add: x)
  have step: "pick_variant h (of_int c) ((a, w) # rest) =
      (if h < c + int (k a) then Some a else pick_variant h (of_int (c + int (k a))) rest)" for h
  proof -
    have "(of_int h < of_int c + (of_nat (k a) :: rat)) = (h < c + int (k a))"
      by (metis of_int_add of_int_less_iff of_int_of_nat_eq)
    then show ?thesis by (simp add: w)
  qed
  have nd: "a \<notin> fst ` set rest" and wf: "js_wf rest" using Cons.prems(1) by (simp_all add: x js_wf_def)
  show ?case
  proof (cases "name = a")
    case True
    then have "{h. c \<le> h \<and> pick_variant h (of_int c) (x # rest) = Some name} = {c..<c + int (k a)}"
      unfolding x step using nd by (auto dest: pick_variant_in split: if_splits)
    then show ?thesis using True by simp
  next
    case False
    then have "{h. c \<le> h \<and> pick_variant h (of_int c) (x # rest) = Some name} =
        {h. c + int (k a) \<le> h \<and> pick_variant h (of_int (c + int (k a))) rest = Some name}"
      unfolding x step by (auto split: if_splits)
    moreover have "(name, v) \<in> set rest" using Cons.prems(2) False by (simp add: x)
    ultimately show ?thesis using Cons.IH [OF wf, of "c + int (k a)"] Cons.prems(3) by simp
  qed
qed simp

lemma pick_below_total:
  "\<forall>(n, w) \<in> set variants. 0 \<le> av_traffic w \<Longrightarrow> pick_variant h c variants = Some name \<Longrightarrow>
   of_int h < c + total_traffic variants"
proof (induction h c variants rule: pick_variant.induct)
  case (2 h c a w rest)
  have nonneg: "0 \<le> total_traffic rest"
    using 2(2) by (auto simp: total_traffic_def intro!: sum_list_nonneg)
  show ?case
  proof (cases "of_int h < c + av_traffic w")
    case True
    then show ?thesis using nonneg by simp
  next
    case False
    then show ?thesis using 2 by (simp add: algebra_simps)
  qed
qed simp

text \<open>
  With whole percentages that sum to 100, each variant gets exactly as many of the 100 residues of the
  hash as its traffic says.
\<close>

theorem traffic_shares_exact:
  assumes "js_wf variants" and "(name, v) \<in> set variants"
    and "\<forall>(n, w) \<in> set variants. av_traffic w = of_nat (k n)" and "total_traffic variants = 100"
  shows "card (residues_of variants name) = k name"
proof -
  have "h < 100" if "pick_variant h 0 variants = Some name" for h
  proof -
    have "(of_int h :: rat) < 0 + total_traffic variants"
      by (rule pick_below_total [OF _ that]) (use assms(3) in auto)
    then have "(of_int h :: rat) < of_int 100" by (simp add: assms(4))
    then show ?thesis by (simp only: of_int_less_iff)
  qed
  then have "residues_of variants name = {h. 0 \<le> h \<and> pick_variant h (of_int 0) variants = Some name}"
    by (auto simp: residues_of_def)
  then show ?thesis using pick_share [OF assms(1-3), of 0] by simp
qed


section \<open>The Wilson interval\<close>

lemma wilson_margin:
  fixes p z n :: real
  assumes "0 \<le> p" and "p \<le> 1" and "0 < n" and "0 < z"
  shows "\<exists>m. js_sqrt ((p * (1 - p) + (z * z) / (4 * n)) / n) = Some m \<and> z * z / n * \<bar>1 / 2 - p\<bar> \<le> z * m \<and> 0 \<le> m"
proof -
  let ?q = "(p * (1 - p) + (z * z) / (4 * n)) / n"
  have pq: "0 \<le> p * (1 - p)" using assms by simp
  then have q: "0 \<le> ?q" using assms by simp
  have "(z / n * \<bar>1 / 2 - p\<bar>)\<^sup>2 = z * z / (n * n) * (1 / 4 - p * (1 - p))"
    by (simp add: power2_eq_square field_simps)
  also have "\<dots> \<le> z * z / (n * n) * (1 / 4)" using pq assms by (intro mult_left_mono) simp_all
  also have "\<dots> \<le> ?q" using pq assms by (simp add: field_simps)
  finally have "z / n * \<bar>1 / 2 - p\<bar> \<le> sqrt ?q" by (rule real_le_rsqrt)
  then have "z * (z / n * \<bar>1 / 2 - p\<bar>) \<le> z * sqrt ?q" using assms(4) by (intro mult_left_mono) simp_all
  then show ?thesis using q by (simp add: js_sqrt_def)
qed

lemma within_margin: "c - q = k * t \<Longrightarrow> 0 \<le> k \<Longrightarrow> k * \<bar>t\<bar> \<le> m \<Longrightarrow> c - m \<le> q \<and> q \<le> c + m"
  for c q k t m :: real
  using abs_mult [of k t] by linarith

text \<open>
  As long as a variant has at most as many conversions as visitors, both bounds are numbers with
  \<open>0 \<le> lower \<le> rate \<le> upper \<le> 1\<close>.
\<close>

theorem interval_contains_rate:
  assumes "conversions \<le> visitors"
  shows "\<exists>l u. confidence_interval visitors (ab_rate conversions visitors) = (Some l, Some u)
    \<and> 0 \<le> l \<and> l \<le> ab_rate conversions visitors \<and> ab_rate conversions visitors \<le> u \<and> u \<le> 1"
proof (cases "visitors = 0")
  case True
  then show ?thesis by (simp add: confidence_interval_def ab_rate_def)
next
  case False
  let ?p = "ab_rate conversions visitors" and ?n = "real visitors" and ?z = "196 / 100 :: real"
  have n: "0 < ?n" using False by simp
  have p: "0 \<le> ?p" "?p \<le> 1" using assms False by (simp_all add: ab_rate_def)
  obtain m where m: "js_sqrt ((?p * (1 - ?p) + (?z * ?z) / (4 * ?n)) / ?n) = Some m"
    "?z * ?z / ?n * \<bar>1 / 2 - ?p\<bar> \<le> ?z * m" "0 \<le> m"
    using wilson_margin [OF p n, of ?z] by auto
  let ?d = "1 + (?z * ?z) / ?n" and ?c = "?p + (?z * ?z) / (2 * ?n)"
  have d: "0 < ?d" using n by (simp add: add_pos_pos)
  have "?c - ?p * ?d = ?z * ?z / ?n * (1 / 2 - ?p)" using n by (simp add: field_simps)
  then have "?c - ?z * m \<le> ?p * ?d" "?p * ?d \<le> ?c + ?z * m"
    using within_margin [OF _ _ m(2), of ?c "?p * ?d"] n by simp_all
  then have "(?c - ?z * m) / ?d \<le> ?p" "?p \<le> (?c + ?z * m) / ?d"
    using d by (simp_all only: pos_divide_le_eq pos_le_divide_eq)
  moreover have "confidence_interval visitors ?p = (Some (max 0 ((?c - ?z * m) / ?d)), Some (min 1 ((?c + ?z * m) / ?d)))"
    using False m(1) by (simp add: confidence_interval_def Let_def)
  ultimately show ?thesis using p by simp
qed

text \<open>
  Conversions are counted per event, not per user: from twice as many conversions as visitors on, both
  bounds are \<open>NaN\<close>.
\<close>

theorem overconverted_interval_nan:
  assumes "0 < visitors" and "2 * visitors \<le> conversions"
  shows "confidence_interval visitors (ab_rate conversions visitors) = (None, None)"
proof -
  let ?p = "ab_rate conversions visitors" and ?n = "real visitors" and ?z = "196 / 100 :: real"
  have n: "1 \<le> ?n" using assms(1) by simp
  have "real (2 * visitors) \<le> real conversions" using assms(2) by (simp only: of_nat_le_iff)
  then have p: "2 \<le> ?p" using assms(1) by (simp add: ab_rate_def pos_le_divide_eq)
  have "2 * 1 \<le> ?p * (?p - 1)" using p by (intro mult_mono) simp_all
  moreover have "?z * ?z / (4 * ?n) \<le> 1" using n by (simp add: pos_divide_le_eq)
  moreover have "?p * (1 - ?p) = - (?p * (?p - 1))" by (simp add: algebra_simps)
  ultimately have "?p * (1 - ?p) + ?z * ?z / (4 * ?n) < 0" by linarith
  then have "(?p * (1 - ?p) + ?z * ?z / (4 * ?n)) / ?n < 0" using n by (intro divide_neg_pos) simp_all
  then have "js_sqrt ((?p * (1 - ?p) + ?z * ?z / (4 * ?n)) / ?n) = None" by (simp only: js_sqrt_def if_True)
  then show ?thesis using assms(1) unfolding confidence_interval_def Let_def by simp
qed

section \<open>The winner\<close>

lemma two_elements: "\<not> length xs < 2 \<Longrightarrow> \<exists>a b rest. xs = a # b # rest"
  by (cases xs rule: remdups_adj.cases) auto

text \<open>
  A variant marked as winner is one of at least two, all of which have at least 100 visitors; none has a
  higher rate, and its recorded p-value is below 0.05.
\<close>

theorem winner_is_significant_best:
  assumes "distinct (map ar_variant results)" and "r \<in> set (judge_results results)" and "ar_isWinner r = Some True"
    and "\<forall>x \<in> set results. ar_isWinner x = None"
  shows "2 \<le> length results \<and> (\<forall>x \<in> set results. 100 \<le> ar_visitors x \<and> ar_conversionRate x \<le> ar_conversionRate r)
    \<and> (\<exists>p. ar_pValue r = Some (Some p) \<and> p < 5 / 100)"
proof -
  let ?k = "\<lambda>r. - ar_conversionRate r"
  have suff: "has_sufficient_data results"
    using assms(2,3,4) unfolding judge_results_def by (cases "has_sufficient_data results") auto
  obtain w ranked where d: "determine_winner results = (w, ranked)" by (rule prod.exhaust)
  obtain x where x: "x \<in> set ranked" "r = x\<lparr>ar_isWinner := Some True\<rparr>" "w = Some (ar_variant x)"
    using assms(2,3) suff d by (auto simp: judge_results_def)
  have two: "\<not> length results < 2" using d x(3) by (auto simp: determine_winner_def split: if_splits)
  then have "\<not> length (sort_key ?k results) < 2" by simp
  then obtain a b rest where s: "sort_key ?k results = a # b # rest"
    using two_elements by blast
  have dist: "distinct (map ar_variant (a # b # rest))"
    using assms(1) unfolding s [symmetric] by (simp add: distinct_map)
  have ranked: "ranked = a\<lparr>ar_pValue := Some (calculate_p_value a b)\<rparr> # b # rest"
    and w: "w = (case calculate_p_value a b of None \<Rightarrow> None | Some p \<Rightarrow> if p < 5 / 100 then Some (ar_variant a) else None)"
    using d two by (simp_all add: determine_winner_def s Let_def)
  then obtain p where p: "calculate_p_value a b = Some p" "p < 5 / 100" "ar_variant x = ar_variant a"
    using x(3) by (auto split: option.splits if_splits)
  then have "x = a\<lparr>ar_pValue := Some (Some p)\<rparr>"
    using x(1) dist by (auto simp: ranked rev_image_eqI)
  moreover have "ar_conversionRate y \<le> ar_conversionRate a" if "y \<in> set results" for y
  proof -
    have "y \<in> set (a # b # rest)" using that unfolding s [symmetric] by simp
    moreover have "sorted (map ?k (a # b # rest))" unfolding s [symmetric] by simp
    ultimately show ?thesis by auto
  qed
  ultimately show ?thesis using two suff p x(2) by (auto simp: has_sufficient_data_def list_all_iff)
qed


section \<open>Assignments stick\<close>

record ab_tables =
  bt_tests :: "ab_test list"
  bt_events :: "ab_event list"

text \<open>The database laws; the two writes of results leave the variants of every test alone.\<close>

definition event_of :: "ab_kind \<Rightarrow> string \<Rightarrow> string \<Rightarrow> ab_event \<Rightarrow> bool" where
  "event_of kind u t e \<longleftrightarrow> ev_kind e = kind \<and> ev_userId e = u \<and> ev_testName e = t"

definition same_variants :: "ab_test list \<Rightarrow> ab_test list \<Rightarrow> bool" where
  "same_variants ts ts' \<longleftrightarrow> map at_variants ts' = map at_variants ts"

definition ab_laws :: "'s ab_env \<Rightarrow> ('s \<Rightarrow> ab_tables) \<Rightarrow> bool" where
  "ab_laws X view \<longleftrightarrow>
     (\<forall>t. db_writes view (ax_createTest X t) (\<lambda>v r v'. r = t\<lparr>at_id := at_id r\<rparr> \<and> v' = v\<lparr>bt_tests := bt_tests v @ [r]\<rparr>)) \<and>
     (\<forall>n. db_reads view (ax_findActive X n) (\<lambda>v r. case r of
        None \<Rightarrow> \<forall>t \<in> set (bt_tests v). at_name t = n \<longrightarrow> at_status t \<noteq> TestActive
      | Some t \<Rightarrow> t \<in> set (bt_tests v) \<and> at_name t = n \<and> at_status t = TestActive)) \<and>
     (\<forall>n. db_reads view (ax_findTest X n) (\<lambda>v r. case r of
        None \<Rightarrow> \<forall>t \<in> set (bt_tests v). at_name t \<noteq> n
      | Some t \<Rightarrow> t \<in> set (bt_tests v) \<and> at_name t = n)) \<and>
     (\<forall>i rs. db_writes view (ax_storeResults X i rs) (\<lambda>v r v'. v' = v)) \<and>
     (\<forall>i e rs. db_writes view (ax_complete X i e rs) (\<lambda>v r v'. v' = v\<lparr>bt_tests :=
        map (\<lambda>t. if at_id t = i then t\<lparr>at_status := TestCompleted, at_endDate := Some e\<rparr> else t) (bt_tests v)\<rparr>)) \<and>
     (\<forall>u n. db_reads view (ax_lastAssignment X u n) (\<lambda>v r. case r of
        None \<Rightarrow> \<forall>e \<in> set (bt_events v). \<not> event_of Assigned u n e
      | Some e \<Rightarrow> e \<in> set (bt_events v) \<and> event_of Assigned u n e \<and>
          (\<forall>e' \<in> set (bt_events v). event_of Assigned u n e' \<longrightarrow> ev_timestamp e' \<le> ev_timestamp e))) \<and>
     (\<forall>e. db_writes view (ax_createEvent X e) (\<lambda>v r v'. v' = v\<lparr>bt_events := bt_events v @ [e]\<rparr>)) \<and>
     (\<forall>k n w. db_reads view (ax_countEvents X k n w) (\<lambda>v r.
        r = length (filter (\<lambda>e. ev_kind e = k \<and> ev_testName e = n \<and> ev_variant e = Some w) (bt_events v))))"

lemma ab_lawsD:
  assumes "ab_laws X view"
  shows "db_writes view (ax_createTest X t) (\<lambda>v r v'. r = t\<lparr>at_id := at_id r\<rparr> \<and> v' = v\<lparr>bt_tests := bt_tests v @ [r]\<rparr>)"
    and "db_reads view (ax_findActive X n) (\<lambda>v r. case r of
        None \<Rightarrow> \<forall>t \<in> set (bt_tests v). at_name t = n \<longrightarrow> at_status t \<noteq> TestActive
      | Some t \<Rightarrow> t \<in> set (bt_tests v) \<and> at_name t = n \<and> at_status t = TestActive)"
    and "db_reads view (ax_findTest X n) (\<lambda>v r. case r of
        None \<Rightarrow> \<forall>t \<in> set (bt_tests v). at_name t \<noteq> n
      | Some t \<Rightarrow> t \<in> set (bt_tests v) \<and> at_name t = n)"
    and "db_writes view (ax_storeResults X i rs) (\<lambda>v r v'. v' = v)"
    and "db_writes view (ax_complete X i tm rs) (\<lambda>v r v'. v' = v\<lparr>bt_tests :=
        map (\<lambda>t. if at_id t = i then t\<lparr>at_status := TestCompleted, at_endDate := Some tm\<rparr> else t) (bt_tests v)\<rparr>)"
    and "db_reads view (ax_lastAssignment X u n) (\<lambda>v r. case r of
        None \<Rightarrow> \<forall>e \<in> set (bt_events v). \<not> event_of Assigned u n e
      | Some e \<Rightarrow> e \<in> set (bt_events v) \<and> event_of Assigned u n e \<and>
          (\<forall>e' \<in> set (bt_events v). event_of Assigned u n e' \<longrightarrow> ev_timestamp e' \<le> ev_timestamp e))"
    and "db_writes view (ax_createEvent X e) (\<lambda>v r v'. v' = v\<lparr>bt_events := bt_events v @ [e]\<rparr>)"
    and "db_reads view (ax_countEvents X k n w) (\<lambda>v r.
        r = length (filter (\<lambda>e. ev_kind e = k \<and> ev_testName e = n \<and> ev_variant e = Some w) (bt_events v)))"
  using assms unfolding ab_laws_def by simp_all

text \<open>
  Every test has a variant and no variant's name is empty; all assignments of a user to a test agree; a
  conversion has the variant of an assignment.
\<close>

definition named_variants :: "(string, ab_variant) jsmap \<Rightarrow> bool" where
  "named_variants variants \<longleftrightarrow> variants \<noteq> [] \<and> [] \<notin> fst ` set variants"

definition agreed :: "ab_event list \<Rightarrow> string \<Rightarrow> string \<Rightarrow> string \<Rightarrow> bool" where
  "agreed events u t w \<longleftrightarrow> w \<noteq> [] \<and>
     (\<forall>e \<in> set events. ev_userId e = u \<longrightarrow> ev_testName e = t \<longrightarrow>
       ev_variant e = Some w \<and> (\<exists>a \<in> set events. event_of Assigned u t a))"

definition events_ok :: "ab_event list \<Rightarrow> bool" where
  "events_ok events \<longleftrightarrow> (\<forall>u t. \<exists>w. agreed events u t w)"

definition assignments_ok :: "ab_tables \<Rightarrow> bool" where
  "assignments_ok v \<longleftrightarrow> (\<forall>t \<in> set (bt_tests v). named_variants (at_variants t)) \<and> events_ok (bt_events v)"

lemma assign_variant_in: "assign_variant vs u = Some w \<Longrightarrow> w \<in> fst ` set vs"
  unfolding assign_variant_def js_at_def js_keys_def
  by (cases "pick_variant (hash_string u mod 100) 0 vs") (auto dest: pick_variant_in split: if_splits)

lemma assign_variant_named: "named_variants vs \<Longrightarrow> \<exists>w. assign_variant vs u = Some w \<and> w \<noteq> []"
proof -
  assume a: "named_variants vs"
  then have "assign_variant vs u \<noteq> None"
    by (simp add: assign_variant_def js_at_def js_keys_def named_variants_def split: option.split)
  then show ?thesis using a by (auto simp: named_variants_def dest: assign_variant_in)
qed

lemma events_okE:
  assumes "events_ok events"
  obtains w where "agreed events u t w"
  using assms unfolding events_ok_def by blast

lemma agreed_other: "agreed events u t w \<Longrightarrow> \<not> (ev_userId x = u \<and> ev_testName x = t) \<Longrightarrow> agreed (events @ [x]) u t w"
  by (auto simp: agreed_def)

lemma events_ok_first:
  assumes "events_ok events" and "\<forall>e \<in> set events. \<not> event_of Assigned u t e" and "w \<noteq> []"
    and "event_of Assigned u t x" and "ev_variant x = Some w"
  shows "events_ok (events @ [x])"
proof -
  have "\<exists>w. agreed (events @ [x]) u' t' w" for u' t'
  proof -
    obtain w' where w': "agreed events u' t' w'" using events_okE [OF assms(1)] .
    show ?thesis
    proof (cases "u' = u \<and> t' = t")
      case True
      then have "\<forall>e \<in> set events. \<not> (ev_userId e = u' \<and> ev_testName e = t')" using w' assms(2) unfolding agreed_def by blast
      then have "agreed (events @ [x]) u' t' w" using True assms(3-5) by (auto simp: agreed_def event_of_def)
      then show ?thesis ..
    next
      case False
      then have "\<not> (ev_userId x = u' \<and> ev_testName x = t')" using assms(4) by (auto simp: event_of_def)
      with w' show ?thesis by (blast intro: agreed_other)
    qed
  qed
  then show ?thesis by (simp add: events_ok_def)
qed

lemma events_ok_again:
  assumes "events_ok events" and "a \<in> set events" and "event_of Assigned u t a" and "ev_variant a = Some w"
    and "ev_userId x = u" and "ev_testName x = t" and "ev_variant x = Some w"
  shows "events_ok (events @ [x])"
proof -
  have "\<exists>w. agreed (events @ [x]) u' t' w" for u' t'
  proof -
    obtain w' where w': "agreed events u' t' w'" using events_okE [OF assms(1)] .
    then have "agreed (events @ [x]) u' t' w'" using assms(2-7) by (auto simp: agreed_def event_of_def)
    then show ?thesis ..
  qed
  then show ?thesis by (simp add: events_ok_def)
qed


lemma track_event_writes:
  assumes "ab_laws X view"
  shows "db_writes view (track_event X u n k w m) (\<lambda>v r v'. \<exists>tm.
    v' = v\<lparr>bt_events := bt_events v @ [\<lparr>ev_kind = k, ev_userId = u, ev_testName = n, ev_variant = w, ev_metric = m, ev_timestamp = tm\<rparr>]\<rparr>)"
  unfolding track_event_def by (rule db_writes_now) (rule ab_lawsD(7) [OF assms])

definition has_assignment :: "ab_tables \<Rightarrow> string \<Rightarrow> string \<Rightarrow> string \<Rightarrow> bool" where
  "has_assignment v u n w \<longleftrightarrow> (\<exists>a \<in> set (bt_events v). event_of Assigned u n a \<and> ev_variant a = Some w)"

lemma user_assignment_spec:
  assumes "ab_laws X view" and "\<And>v. P v \<Longrightarrow> events_ok (bt_events v)"
  shows "js_spec (\<lambda>s. P (view s)) (get_user_assignment X u n)
    (\<lambda>r s. P (view s) \<and> (case r of None \<Rightarrow> \<forall>e \<in> set (bt_events (view s)). \<not> event_of Assigned u n e
       | Some w \<Rightarrow> has_assignment (view s) u n w)) (\<lambda>s. P (view s))"
  unfolding get_user_assignment_def
proof (rule db_reads_then [OF ab_lawsD(6) [OF assms(1)]])
  fix event
  show "js_spec (\<lambda>s. P (view s) \<and> (case event of None \<Rightarrow> \<forall>e \<in> set (bt_events (view s)). \<not> event_of Assigned u n e
      | Some e \<Rightarrow> e \<in> set (bt_events (view s)) \<and> event_of Assigned u n e \<and>
          (\<forall>e' \<in> set (bt_events (view s)). event_of Assigned u n e' \<longrightarrow> ev_timestamp e' \<le> ev_timestamp e)))
    (js_return (truthy (case event of None \<Rightarrow> None | Some e \<Rightarrow> ev_variant e)))
    (\<lambda>r s. P (view s) \<and> (case r of None \<Rightarrow> \<forall>e \<in> set (bt_events (view s)). \<not> event_of Assigned u n e
       | Some w \<Rightarrow> has_assignment (view s) u n w)) (\<lambda>s. P (view s))"
  proof (cases event)
    case None
    then show ?thesis by (auto intro: js_spec_return)
  next
    case (Some e)
    show ?thesis
    proof (rule js_spec_return)
      fix s assume a: "P (view s) \<and> (case event of None \<Rightarrow> \<forall>e \<in> set (bt_events (view s)). \<not> event_of Assigned u n e
        | Some e \<Rightarrow> e \<in> set (bt_events (view s)) \<and> event_of Assigned u n e \<and>
          (\<forall>e' \<in> set (bt_events (view s)). event_of Assigned u n e' \<longrightarrow> ev_timestamp e' \<le> ev_timestamp e))"
      then have e: "e \<in> set (bt_events (view s))" "event_of Assigned u n e" by (simp_all add: Some)
      obtain w where "agreed (bt_events (view s)) u n w" using a assms(2) by (blast elim: events_okE)
      then have "w \<noteq> []" "ev_variant e = Some w" using e by (auto simp: agreed_def event_of_def)
      then show "P (view s) \<and> (case truthy (case event of None \<Rightarrow> None | Some e \<Rightarrow> ev_variant e) of
          None \<Rightarrow> \<forall>e \<in> set (bt_events (view s)). \<not> event_of Assigned u n e | Some w \<Rightarrow> has_assignment (view s) u n w)"
        using a e by (auto simp: Some has_assignment_def)
    qed
  qed
qed simp

text \<open>With a property of the events that a further event does not break.\<close>

definition kept :: "(ab_event list \<Rightarrow> bool) \<Rightarrow> ab_tables \<Rightarrow> bool" where
  "kept Q v \<longleftrightarrow> assignments_ok v \<and> Q (bt_events v)"

definition growing_fact :: "(ab_event list \<Rightarrow> bool) \<Rightarrow> bool" where
  "growing_fact Q \<longleftrightarrow> (\<forall>es e. Q es \<longrightarrow> Q (es @ [e]))"

lemma assign_user_spec:
  assumes "ab_laws X view" and "growing_fact Q"
  shows "js_spec (\<lambda>s. kept Q (view s)) (assign_user X u n)
    (\<lambda>r s. kept Q (view s) \<and> (\<exists>w. r = Some w \<and> has_assignment (view s) u n w)) (\<lambda>s. kept Q (view s))"
  unfolding assign_user_def
proof (rule db_reads_then [OF ab_lawsD(2) [OF assms(1)]])
  fix found
  let ?Q = "\<lambda>r s. kept Q (view s) \<and> (\<exists>w. r = Some w \<and> has_assignment (view s) u n w)"
  let ?E = "\<lambda>s. kept Q (view s)"
  show "js_spec (\<lambda>s. kept Q (view s) \<and> (case found of
          None \<Rightarrow> \<forall>t \<in> set (bt_tests (view s)). at_name t = n \<longrightarrow> at_status t \<noteq> TestActive
        | Some t \<Rightarrow> t \<in> set (bt_tests (view s)) \<and> at_name t = n \<and> at_status t = TestActive))
      (case found of None \<Rightarrow> js_throw (NoActiveTest n) | Some test \<Rightarrow>
        js_then (get_user_assignment X u n) (\<lambda>existing. case existing of
            Some variant \<Rightarrow> js_return (Some variant)
          | None \<Rightarrow> js_then (track_event X u n Assigned (assign_variant (at_variants test) u) None) (\<lambda>_.
              js_return (assign_variant (at_variants test) u)))) ?Q ?E"
  proof (cases found)
    case None
    show ?thesis unfolding None option.case by (rule js_spec_throw) simp
  next
    case (Some test)
    show ?thesis unfolding Some option.case
    proof (rule js_spec_pre [OF js_spec_then])
      show "js_spec (\<lambda>s. kept Q (view s) \<and> test \<in> set (bt_tests (view s))) (get_user_assignment X u n)
        (\<lambda>r s. (kept Q (view s) \<and> test \<in> set (bt_tests (view s))) \<and>
          (case r of None \<Rightarrow> \<forall>e \<in> set (bt_events (view s)). \<not> event_of Assigned u n e | Some w \<Rightarrow> has_assignment (view s) u n w)) ?E"
        by (rule js_spec_post [OF user_assignment_spec [OF assms(1), where P = "\<lambda>v. kept Q v \<and> test \<in> set (bt_tests v)"]])
           (auto simp: kept_def assignments_ok_def)
      show "js_spec (\<lambda>s. (kept Q (view s) \<and> test \<in> set (bt_tests (view s))) \<and>
          (case existing of None \<Rightarrow> \<forall>e \<in> set (bt_events (view s)). \<not> event_of Assigned u n e | Some w \<Rightarrow> has_assignment (view s) u n w))
        (case existing of Some variant \<Rightarrow> js_return (Some variant)
          | None \<Rightarrow> js_then (track_event X u n Assigned (assign_variant (at_variants test) u) None) (\<lambda>_.
              js_return (assign_variant (at_variants test) u))) ?Q ?E" for existing
      proof (cases existing)
        case None
        let ?w = "assign_variant (at_variants test) u"
        let ?P = "\<lambda>v. (kept Q v \<and> test \<in> set (bt_tests v)) \<and> (\<forall>e \<in> set (bt_events v). \<not> event_of Assigned u n e)"
        have step: "kept Q v' \<and> (\<exists>w. ?w = Some w \<and> has_assignment v' u n w)"
          if ok: "?P v" and wr: "\<exists>tm. v' = v\<lparr>bt_events := bt_events v @ [\<lparr>ev_kind = Assigned, ev_userId = u, ev_testName = n,
              ev_variant = ?w, ev_metric = None, ev_timestamp = tm\<rparr>]\<rparr>" for v v'
        proof -
          have "named_variants (at_variants test)" using ok by (simp add: kept_def assignments_ok_def)
          then obtain w where w: "?w = Some w" "w \<noteq> []" using assign_variant_named by blast
          obtain tm where v': "v' = v\<lparr>bt_events := bt_events v @ [\<lparr>ev_kind = Assigned, ev_userId = u, ev_testName = n,
              ev_variant = ?w, ev_metric = None, ev_timestamp = tm\<rparr>]\<rparr>" (is "_ = v\<lparr>bt_events := _ @ [?x]\<rparr>") using wr by blast
          have "events_ok (bt_events v @ [?x])"
            by (rule events_ok_first [of _ u n w]) (use ok w in \<open>simp_all add: kept_def assignments_ok_def event_of_def\<close>)
          then show ?thesis using ok w assms(2) by (auto simp: v' kept_def growing_fact_def assignments_ok_def event_of_def has_assignment_def)
        qed
        show ?thesis unfolding None option.case
          by (rule js_spec_then [OF db_writes_spec [OF track_event_writes [OF assms(1)], where P = ?P
                and Q = "\<lambda>_ v. kept Q v \<and> (\<exists>w. ?w = Some w \<and> has_assignment v u n w)"]])
             (use step in blast, simp, rule js_spec_return, simp)
      next
        case (Some w)
        show ?thesis unfolding Some option.case by (rule js_spec_return) simp
      qed
    qed simp
  qed
qed


lemma collect_results_keeps: "ab_laws X view \<Longrightarrow> db_keeps view P (collect_results X n ws)"
proof (induction ws)
  case Nil
  show ?case unfolding collect_results.simps by (rule db_keeps_return)
next
  case (Cons w ws)
  have "db_keeps view P (calculate_variant_results X n w)"
    unfolding calculate_variant_results_def
    by (intro db_keeps_then db_keeps_return db_keeps_reads [OF ab_lawsD(8) [OF Cons.prems]])
  then show ?case unfolding collect_results.simps by (intro db_keeps_then db_keeps_return Cons)
qed

lemma get_test_results_keeps: "ab_laws X view \<Longrightarrow> db_keeps view P (get_test_results X n)"
  unfolding get_test_results_def
  by (intro db_keeps_then db_keeps_reads [OF ab_lawsD(3)] db_keeps_option db_keeps_throw db_keeps_return collect_results_keeps)

lemma update_test_results_keeps:
  assumes "ab_laws X view"
  shows "db_keeps view P (update_test_results X n)"
proof -
  have "db_keeps view P (\<lambda>s. ax_storeResults X i (Interim results (ax_now X s)) s)" for i results
    by (rule db_keeps_now [where m = "\<lambda>t. ax_storeResults X i (Interim results t)"], rule db_keeps_writes [OF ab_lawsD(4) [OF assms(1)]]) simp
  then show ?thesis unfolding update_test_results_def
    by (intro db_keeps_then db_keeps_reads [OF ab_lawsD(3) [OF assms(1)]] db_keeps_option db_keeps_return get_test_results_keeps [OF assms(1)])
qed

lemma track_conversion_keeps:
  assumes "ab_laws X view" and "growing_fact Q"
  shows "db_keeps view (kept Q) (track_conversion X u n metric val)"
proof -
  let ?A = "\<lambda>s. kept Q (view s)"
  have body: "js_spec (\<lambda>s. ?A s \<and> (case existing of None \<Rightarrow> \<forall>e \<in> set (bt_events (view s)). \<not> event_of Assigned u n e
        | Some w \<Rightarrow> has_assignment (view s) u n w))
      (case existing of None \<Rightarrow> js_throw NotAssigned | Some variant \<Rightarrow>
           js_then (track_event X u n Conversion (Some variant) (Some (metric, conversion_value val))) (\<lambda>_. update_test_results X n))
      (\<lambda>_. ?A) ?A" for existing
  proof (cases existing)
    case None
    show ?thesis unfolding None option.case by (rule js_spec_throw) simp
  next
    case (Some w)
    let ?P = "\<lambda>v. kept Q v \<and> has_assignment v u n w"
    have step: "kept Q v'" if ok: "?P v" and wr: "\<exists>tm. v' = v\<lparr>bt_events := bt_events v @ [\<lparr>ev_kind = Conversion, ev_userId = u,
        ev_testName = n, ev_variant = Some w, ev_metric = Some (metric, conversion_value val), ev_timestamp = tm\<rparr>]\<rparr>" for v v'
    proof -
      obtain tm where v': "v' = v\<lparr>bt_events := bt_events v @ [\<lparr>ev_kind = Conversion, ev_userId = u, ev_testName = n,
          ev_variant = Some w, ev_metric = Some (metric, conversion_value val), ev_timestamp = tm\<rparr>]\<rparr>"
        (is "_ = v\<lparr>bt_events := _ @ [?x]\<rparr>") using wr by blast
      obtain a where a: "a \<in> set (bt_events v)" "event_of Assigned u n a" "ev_variant a = Some w"
        using ok by (auto simp: has_assignment_def)
      have "events_ok (bt_events v @ [?x])"
        by (rule events_ok_again [OF _ a]) (use ok in \<open>simp_all add: kept_def assignments_ok_def\<close>)
      then show ?thesis using ok assms(2) by (simp add: v' kept_def assignments_ok_def growing_fact_def)
    qed
    show ?thesis unfolding Some option.case
      by (rule js_spec_then [OF db_writes_spec [OF track_event_writes [OF assms(1)], where P = ?P and Q = "\<lambda>_. kept Q"]])
         (use step in blast, simp, rule update_test_results_keeps [OF assms(1), unfolded db_keeps_spec])
  qed
  show ?thesis unfolding track_conversion_def db_keeps_spec
    by (rule js_spec_then [OF user_assignment_spec [OF assms(1), where P = "kept Q"] body]) (simp add: kept_def assignments_ok_def)
qed

lemma create_test_keeps:
  assumes "ab_laws X view" and "[] \<notin> fst ` set (ac_variants config)"
  shows "db_keeps view (kept Q) (create_test X config)"
proof (cases "\<bar>total_traffic (ac_variants config) - 100\<bar> > 1 / 100")
  case True
  then show ?thesis by (simp add: db_keeps_def create_test_def)
next
  case False
  then have named: "named_variants (ac_variants config)" using assms(2) by (auto simp: named_variants_def)
  have "db_keeps view (kept Q) (\<lambda>s. ax_createTest X \<lparr>at_id = [], at_name = ac_name config, at_description = ac_description config,
             at_variants = ac_variants config, at_primary = ac_primary config, at_secondary = ac_secondary config,
             at_endDate = end_date (ax_now X s) (ac_duration config), at_status = TestActive\<rparr> s)"
    by (rule db_keeps_now [where m = "\<lambda>t. ax_createTest X \<lparr>at_id = [], at_name = ac_name config, at_description = ac_description config,
             at_variants = ac_variants config, at_primary = ac_primary config, at_secondary = ac_secondary config,
             at_endDate = end_date t (ac_duration config), at_status = TestActive\<rparr>"],
        rule db_keeps_writes [OF ab_lawsD(1) [OF assms(1)]])
       (use named in \<open>auto simp: kept_def assignments_ok_def dest: arg_cong [of _ _ at_variants]\<close>)
  then show ?thesis using False by (simp add: create_test_def db_keeps_def)
qed

lemma stop_test_keeps:
  assumes "ab_laws X view"
  shows "db_keeps view (kept Q) (stop_test X n)"
proof -
  have "db_keeps view (kept Q) (\<lambda>s. ax_complete X i (ax_now X s) (final_results results) s)" for i results
    by (rule db_keeps_now [where m = "\<lambda>t. ax_complete X i t (final_results results)"], rule db_keeps_writes [OF ab_lawsD(5) [OF assms(1)]])
       (auto simp: kept_def assignments_ok_def)
  then show ?thesis unfolding stop_test_def
    by (intro db_keeps_then db_keeps_reads [OF ab_lawsD(3) [OF assms(1)]] db_keeps_option db_keeps_throw get_test_results_keeps [OF assms(1)])
qed

text \<open>A run of the service, one call after the other; the names of the variants of new tests are not empty.\<close>

datatype ab_call = CreateTest ab_config | AssignUser string string | Convert string string string "rat option" | StopTest string

fun ab_run :: "'s ab_env \<Rightarrow> ab_call \<Rightarrow> 's \<Rightarrow> 's" where
  "ab_run X (CreateTest config) s = snd (create_test X config s)"
| "ab_run X (AssignUser u n) s = snd (assign_user X u n s)"
| "ab_run X (Convert u n metric val) s = snd (track_conversion X u n metric val s)"
| "ab_run X (StopTest n) s = snd (stop_test X n s)"

fun ab_call_ok :: "ab_call \<Rightarrow> bool" where
  "ab_call_ok (CreateTest config) \<longleftrightarrow> [] \<notin> fst ` set (ac_variants config)"
| "ab_call_ok _ \<longleftrightarrow> True"

lemma ab_run_keeps:
  assumes "ab_laws X view" and "growing_fact Q" and "kept Q (view s)" and "list_all ab_call_ok calls"
  shows "kept Q (view (fold (ab_run X) calls s))"
  using assms(3,4)
proof (induction calls arbitrary: s)
  case (Cons c calls)
  have "db_keeps view (kept Q) (assign_user X u n)" for u n
    unfolding db_keeps_spec by (rule js_spec_post [OF assign_user_spec [OF assms(1,2)]]) simp_all
  then have "kept Q (view (ab_run X c s))"
    using Cons.prems create_test_keeps [OF assms(1)] track_conversion_keeps [OF assms(1,2)] stop_test_keeps [OF assms(1)]
    by (cases c) (simp_all add: db_keeps_def)
  then show ?case using Cons by simp
qed simp

lemma has_assignment_grows: "growing_fact (\<lambda>es. \<exists>a \<in> set es. event_of Assigned u n a \<and> ev_variant a = Some w)"
  by (auto simp: growing_fact_def)

lemma assigned_agree:
  assumes "events_ok es" and "a \<in> set es" and "event_of Assigned u n a" and "ev_variant a = Some w"
    and "e \<in> set es" and "ev_userId e = u" and "ev_testName e = n"
  shows "ev_variant e = Some w"
proof -
  obtain w' where "agreed es u n w'" by (rule events_okE [OF assms(1)])
  then show ?thesis using assms(2-7) by (auto simp: agreed_def event_of_def)
qed

text \<open>
  C20. A user who was assigned a variant of a test keeps it: whatever calls follow, a later assignment that
  returns gives the same variant, and every event of the user in this test is counted for it.
\<close>

theorem assignment_sticks:
  assumes "ab_laws X view" and "assignments_ok (view s)" and "list_all ab_call_ok calls"
    and "assign_user X u n s = (Inr r, s1)" and "assign_user X u n (fold (ab_run X) calls s1) = (Inr r', s2)"
  shows "r' = r \<and> (\<forall>e \<in> set (bt_events (view s2)). ev_userId e = u \<longrightarrow> ev_testName e = n \<longrightarrow> ev_variant e = r)"
proof -
  have "growing_fact (\<lambda>_. True)" by (simp add: growing_fact_def)
  then obtain w where w: "r = Some w" "kept (\<lambda>es. \<exists>a \<in> set es. event_of Assigned u n a \<and> ev_variant a = Some w) (view s1)"
    using js_specD [OF assign_user_spec [OF assms(1)] _ assms(4), of "\<lambda>_. True"] assms(2)
    by (auto simp: kept_def has_assignment_def)
  from ab_run_keeps [OF assms(1) has_assignment_grows w(2) assms(3)]
  obtain w' where w': "r' = Some w'" "has_assignment (view s2) u n w'" "assignments_ok (view s2)"
    "\<exists>a \<in> set (bt_events (view s2)). event_of Assigned u n a \<and> ev_variant a = Some w"
    using js_specD [OF assign_user_spec [OF assms(1) has_assignment_grows [of u n w]] _ assms(5)] by (auto simp: kept_def)
  then have all: "ev_variant e = Some w" if "e \<in> set (bt_events (view s2))" "ev_userId e = u" "ev_testName e = n" for e
    using that assigned_agree [of "bt_events (view s2)" _ u n w e] by (auto simp: assignments_ok_def)
  then have "w' = w" using w'(2) by (auto simp: has_assignment_def event_of_def)
  then show ?thesis using all w(1) w'(1) by simp
qed


section \<open>An in-memory database\<close>

definition latest :: "ab_event list \<Rightarrow> ab_event option" where
  "latest es = (if es = [] then None else Some (last (sort_key ev_timestamp es)))"

definition mem_ab :: "ab_tables ab_env" where
  "mem_ab = \<lparr>
     ax_now = (\<lambda>s. int (length (bt_events s))),
     ax_createTest = (\<lambda>t s. let r = t\<lparr>at_id := fresh_text (map at_id (bt_tests s))\<rparr>
        in (Inr r, s\<lparr>bt_tests := bt_tests s @ [r]\<rparr>)),
     ax_findActive = (\<lambda>n s. (Inr (find (\<lambda>t. at_name t = n \<and> at_status t = TestActive) (bt_tests s)), s)),
     ax_findTest = (\<lambda>n s. (Inr (find (\<lambda>t. at_name t = n) (bt_tests s)), s)),
     ax_storeResults = (\<lambda>i rs s. (Inr (), s)),
     ax_complete = (\<lambda>i e rs s. (Inr (), s\<lparr>bt_tests :=
        map (\<lambda>t. if at_id t = i then t\<lparr>at_status := TestCompleted, at_endDate := Some e\<rparr> else t) (bt_tests s)\<rparr>)),
     ax_lastAssignment = (\<lambda>u n s. (Inr (latest (filter (event_of Assigned u n) (bt_events s))), s)),
     ax_createEvent = (\<lambda>e s. (Inr (), s\<lparr>bt_events := bt_events s @ [e]\<rparr>)),
     ax_countEvents = (\<lambda>k n w s.
        (Inr (length (filter (\<lambda>e. ev_kind e = k \<and> ev_testName e = n \<and> ev_variant e = Some w) (bt_events s))), s)),
     ax_testsWith = (\<lambda>st most s. (Inr (filter (\<lambda>t. at_status t = st) (bt_tests s)), s))\<rparr>"

lemma sorted_last_max: "sorted (map f xs) \<Longrightarrow> x \<in> set xs \<Longrightarrow> f x \<le> f (last xs)"
  by (induction xs) auto

lemma latest_spec:
  "case latest (filter P es) of None \<Rightarrow> \<forall>e \<in> set es. \<not> P e
   | Some e \<Rightarrow> e \<in> set es \<and> P e \<and> (\<forall>e' \<in> set es. P e' \<longrightarrow> ev_timestamp e' \<le> ev_timestamp e)"
proof (cases "filter P es = []")
  case True
  then show ?thesis by (simp add: latest_def filter_empty_conv)
next
  case False
  let ?s = "sort_key ev_timestamp (filter P es)"
  have "set ?s = set (filter P es)" by simp
  then have "?s \<noteq> []" using False by (metis set_empty)
  then have "last ?s \<in> set (filter P es)" using last_in_set [of ?s] by simp
  then show ?thesis using False sorted_last_max [of ev_timestamp ?s] by (simp add: latest_def)
qed

lemma latest_None: "latest (filter P es) = None \<Longrightarrow> e \<in> set es \<Longrightarrow> \<not> P e"
  using latest_spec [of es P] by simp

lemma latest_Some:
  "latest (filter P es) = Some e \<Longrightarrow> e \<in> set es"
  "latest (filter P es) = Some e \<Longrightarrow> P e"
  "latest (filter P es) = Some e \<Longrightarrow> e' \<in> set es \<Longrightarrow> P e' \<Longrightarrow> ev_timestamp e' \<le> ev_timestamp e"
  using latest_spec [of es P] by simp_all

lemma mem_ab_laws: "ab_laws mem_ab id"
  by (auto simp: ab_laws_def db_reads_def db_writes_def mem_ab_def Let_def find_None_iff find_Some_iff
      split: option.split dest: latest_None latest_Some)

definition demo_variants :: "(string, ab_variant) jsmap" where
  "demo_variants = [(''blue'', \<lparr>av_traffic = 30, av_config = ''b''\<rparr>), (''green'', \<lparr>av_traffic = 70, av_config = ''g''\<rparr>)]"

definition demo_config :: ab_config where
  "demo_config = \<lparr>ac_name = ''button'', ac_description = None, ac_variants = demo_variants, ac_primary = ''click'',
     ac_secondary = [], ac_duration = Some 7\<rparr>"

definition demo_tables :: ab_tables where
  "demo_tables = snd (create_test mem_ab demo_config \<lparr>bt_tests = [], bt_events = []\<rparr>)"

lemma demo_ok: "assignments_ok demo_tables"
  by (simp add: demo_tables_def create_test_def demo_config_def demo_variants_def mem_ab_def Let_def
      assignments_ok_def named_variants_def events_ok_def agreed_def)
     (rule exI [of _ "''x''"], simp)

lemma demo_assigned: "assign_user mem_ab ''ann'' ''button'' demo_tables = (Inr (Some ''green''), snd (assign_user mem_ab ''ann'' ''button'' demo_tables))"
  by code_simp


definition demo_calls :: "ab_call list" where
  "demo_calls = [AssignUser ''bob'' ''button'', AssignUser ''cleo'' ''button'', AssignUser ''ann'' ''other'']"

lemma demo_again: "fst (assign_user mem_ab ''ann'' ''button''
    (fold (ab_run mem_ab) demo_calls (snd (assign_user mem_ab ''ann'' ''button'' demo_tables)))) = Inr (Some ''green'')"
  unfolding demo_calls_def List.fold_simps ab_run.simps by code_simp

theorem assignment_sticks_witness:
  "\<exists>s2. assign_user mem_ab ''ann'' ''button''
      (fold (ab_run mem_ab) demo_calls (snd (assign_user mem_ab ''ann'' ''button'' demo_tables))) = (Inr (Some ''green''), s2)
    \<and> (\<forall>e \<in> set (bt_events s2). ev_userId e = ''ann'' \<longrightarrow> ev_testName e = ''button'' \<longrightarrow> ev_variant e = Some ''green'')"
proof -
  obtain s2 where "assign_user mem_ab ''ann'' ''button''
      (fold (ab_run mem_ab) demo_calls (snd (assign_user mem_ab ''ann'' ''button'' demo_tables))) = (Inr (Some ''green''), s2)"
    using demo_again by (metis prod.collapse)
  with assignment_sticks [OF mem_ab_laws _ _ demo_assigned this] demo_ok
  show ?thesis by (auto simp: demo_calls_def)
qed

theorem accepted_test_never_falls_back_witness:
  "\<exists>test pre name v post. fst (create_test mem_ab demo_config \<lparr>bt_tests = [], bt_events = []\<rparr>) = Inr test
    \<and> at_variants test = pre @ (name, v) # post \<and> assign_variant (at_variants test) ''ann'' = Some name"
proof -
  let ?s = "\<lparr>bt_tests = [], bt_events = []\<rparr> :: ab_tables"
  obtain test where t: "create_test mem_ab demo_config ?s = (Inr test, demo_tables)"
    by (simp add: create_test_def demo_tables_def demo_config_def demo_variants_def mem_ab_def Let_def)
  have "\<forall>t s r s'. ax_createTest mem_ab t s = (Inr r, s') \<longrightarrow> at_variants r = at_variants t"
    by (auto simp: mem_ab_def Let_def)
  from accepted_test_never_falls_back [OF t this, of "''ann''"] t show ?thesis by auto
qed

theorem traffic_shares_exact_witness:
  "card (residues_of demo_variants ''green'') = 70"
  using traffic_shares_exact [of demo_variants "''green''" "\<lparr>av_traffic = 70, av_config = ''g''\<rparr>"
      "\<lambda>n. if n = ''green'' then 70 else 30"]
  by (simp add: demo_variants_def js_wf_def)

theorem interval_contains_rate_witness:
  "\<exists>l u. confidence_interval 100 (ab_rate 25 100) = (Some l, Some u) \<and> 0 \<le> l \<and> l \<le> ab_rate 25 100 \<and> ab_rate 25 100 \<le> u \<and> u \<le> 1"
  using interval_contains_rate [of 25 100] by simp

theorem overconverted_interval_nan_witness: "confidence_interval 10 (ab_rate 25 10) = (None, None)"
  using overconverted_interval_nan [of 10 25] by simp

end
