(* ===== verification/BackendAuth.thy ===== *)
theory BackendAuth
  imports JsPrelude "HOL-Library.Word"
begin

unbundle bit_operations_syntax

text \<open>
  Backend authentication: the routes of \<open>backend/src/routes/auth.ts\<close>, the services they call
  (\<open>authService.ts\<close>, \<open>totpService.ts\<close>, \<open>backupCodeService.ts\<close>, \<open>smsService.ts\<close>), the schemas of
  \<open>schemas/auth.schema.ts\<close> and the guard of \<open>middleware/auth.ts\<close>.

  The state is the user table with the clock. What the host provides (random values, SHA-256, HMAC-SHA1, the
  JWT library, Twilio, which database calls fail) is a record of functions; the nth database call fails when
  \<open>ah_fails\<close> says so of n. Requests run one at a time.
\<close>

section \<open>Base 32\<close>

definition base32_alphabet :: string where
  "base32_alphabet = ''ABCDEFGHIJKLMNOPQRSTUVWXYZ234567''"

text \<open>\<open>n.toString(2).padStart(k, '0')\<close> and \<open>parseInt(bits, 2)\<close>.\<close>

fun bits_of :: "nat \<Rightarrow> nat \<Rightarrow> bool list" where
  "bits_of 0 n = []"
| "bits_of (Suc k) n = bits_of k (n div 2) @ [odd n]"

definition of_bits :: "bool list \<Rightarrow> nat" where
  "of_bits bs = foldl (\<lambda>a b. 2 * a + (if b then 1 else 0)) 0 bs"

definition pad_end :: "nat \<Rightarrow> bool list \<Rightarrow> bool list" where
  "pad_end k bs = bs @ replicate (k - length bs) False"

fun encode_chunks :: "nat \<Rightarrow> bool list \<Rightarrow> string" where
  "encode_chunks 0 bs = []"
| "encode_chunks (Suc n) bs =
     (if bs = [] then [] else (base32_alphabet ! of_bits (pad_end 5 (take 5 bs))) # encode_chunks n (drop 5 bs))"

text \<open>The loop advances by five bits, so it runs at most once per bit.\<close>

definition base32_encode :: "8 word list \<Rightarrow> string" where
  "base32_encode buffer = (let bits = concat (map (\<lambda>b. bits_of 8 (unat b)) buffer) in encode_chunks (length bits) bits)"

definition index_of :: "'a \<Rightarrow> 'a list \<Rightarrow> nat option" where
  "index_of x xs = find (\<lambda>i. xs ! i = x) [0..<length xs]"

definition upper_char :: "char \<Rightarrow> char" where
  "upper_char c = (let n = (of_char c :: nat) in if 97 \<le> n \<and> n \<le> 122 then char_of (n - 32) else c)"

definition base32_normalize :: "string \<Rightarrow> string" where
  "base32_normalize v = map upper_char (filter (\<lambda>c. \<not> js_space c) (rev (dropWhile (\<lambda>c. c = CHR ''='') (rev v))))"

fun take_bytes :: "nat \<Rightarrow> bool list \<Rightarrow> 8 word list" where
  "take_bytes 0 bs = []"
| "take_bytes (Suc n) bs =
     (if length bs < 8 then [] else word_of_nat (of_bits (take 8 bs)) # take_bytes n (drop 8 bs))"

datatype auth_error =
    InvalidBase32 | CounterOutOfRange | JwtInvalid | InvalidChallenge | NoPhoneNumber | TwilioNotConfigured
  | TwilioError string | DatabaseError | RecordNotFound

fun char_bits :: "string \<Rightarrow> auth_error + bool list" where
  "char_bits [] = Inr []"
| "char_bits (c # cs) =
     (case index_of c base32_alphabet of
        None \<Rightarrow> Inl InvalidBase32
      | Some i \<Rightarrow> (case char_bits cs of Inl e \<Rightarrow> Inl e | Inr bs \<Rightarrow> Inr (bits_of 5 i @ bs)))"

definition base32_decode :: "string \<Rightarrow> auth_error + 8 word list" where
  "base32_decode v =
     (case char_bits (base32_normalize v) of Inl e \<Rightarrow> Inl e | Inr bits \<Rightarrow> Inr (take_bytes (length bits) bits))"

section \<open>The host and the user table\<close>

record claims =
  cl_publicKey :: string
  cl_purpose :: "string option"
  cl_twoFactorVerified :: bool

record auth_host =
  ah_fails :: "nat \<Rightarrow> bool"
  ah_bytes :: "nat \<Rightarrow> nat \<Rightarrow> 8 word list"
  ah_int :: "nat \<Rightarrow> nat \<Rightarrow> nat"
  ah_sha256 :: "string \<Rightarrow> string"
  ah_hmac :: "8 word list \<Rightarrow> 8 word list \<Rightarrow> 8 word list"
  ah_sign :: "claims \<Rightarrow> string \<Rightarrow> int \<Rightarrow> string"
  ah_verify :: "string \<Rightarrow> int \<Rightarrow> claims option"
  ah_twilioConfigured :: bool
  ah_twilio :: "nat \<Rightarrow> string \<Rightarrow> string \<Rightarrow> string option"
  ah_production :: bool
  ah_jwtExpiresIn :: string
  ah_challengeExpiresIn :: string

record user_row =
  ur_enabled :: bool
  ur_method :: "string option"
  ur_secret :: "string option"
  ur_enabledAt :: "int option"
  ur_phone :: "string option"
  ur_otpHash :: "string option"
  ur_otpExpiresAt :: "int option"
  ur_backupCodes :: "string list option"

text \<open>\<open>ad_ops\<close> and \<open>ad_draws\<close> count the database calls and the random draws made so far.\<close>

record auth_db =
  ad_users :: "(string, user_row) jsmap"
  ad_now :: int
  ad_ops :: nat
  ad_draws :: nat
  ad_sent :: "(string \<times> string) list"

type_synonym 'a auth_method = "(auth_db, auth_error, 'a) js_method"

definition db_op :: "auth_host \<Rightarrow> 'a auth_method \<Rightarrow> 'a auth_method" where
  "db_op H f s = (let s' = s\<lparr>ad_ops := Suc (ad_ops s)\<rparr> in if ah_fails H (ad_ops s) then (Inl DatabaseError, s') else f s')"

definition new_user :: user_row where
  "new_user = \<lparr>ur_enabled = False, ur_method = None, ur_secret = None, ur_enabledAt = None, ur_phone = None,
     ur_otpHash = None, ur_otpExpiresAt = None, ur_backupCodes = None\<rparr>"

definition find_user :: "auth_host \<Rightarrow> string \<Rightarrow> user_row option auth_method" where
  "find_user H k = db_op H (\<lambda>s. (Inr (js_get (ad_users s) k), s))"

definition update_user :: "auth_host \<Rightarrow> string \<Rightarrow> (user_row \<Rightarrow> user_row) \<Rightarrow> unit auth_method" where
  "update_user H k f = db_op H (\<lambda>s.
     case js_get (ad_users s) k of
       None \<Rightarrow> (Inl RecordNotFound, s)
     | Some u \<Rightarrow> (Inr (), s\<lparr>ad_users := js_set k (f u) (ad_users s)\<rparr>))"

definition upsert_user :: "auth_host \<Rightarrow> string \<Rightarrow> (user_row \<Rightarrow> user_row) \<Rightarrow> user_row \<Rightarrow> user_row auth_method" where
  "upsert_user H k f fresh = db_op H (\<lambda>s.
     let u = (case js_get (ad_users s) k of None \<Rightarrow> fresh | Some old \<Rightarrow> f old)
     in (Inr u, s\<lparr>ad_users := js_set k u (ad_users s)\<rparr>))"

definition draw :: "(nat \<Rightarrow> 'a) \<Rightarrow> 'a auth_method" where
  "draw f s = (Inr (f (ad_draws s)), s\<lparr>ad_draws := Suc (ad_draws s)\<rparr>)"

text \<open>A value that depends on the clock.\<close>

definition at_now :: "(int \<Rightarrow> 'a) \<Rightarrow> 'a auth_method" where
  "at_now f s = (Inr (f (ad_now s)), s)"

section \<open>Time-based codes\<close>

definition generate_secret :: "auth_host \<Rightarrow> string auth_method" where
  "generate_secret H = draw (\<lambda>n. base32_encode (ah_bytes H n 20))"

text \<open>\<open>writeBigUInt64BE(BigInt(counter))\<close>: eight bytes, the most significant first, or a range error.\<close>

definition counter_bytes :: "int \<Rightarrow> auth_error + 8 word list" where
  "counter_bytes counter =
     (if counter < 0 \<or> 2 ^ 64 \<le> counter then Inl CounterOutOfRange
      else Inr (map (\<lambda>i. word_of_int (counter div 256 ^ i)) (rev [0..<8])))"

definition truncate_hmac :: "8 word list \<Rightarrow> 32 word" where
  "truncate_hmac hmac =
     (let offset = unat (hmac ! (length hmac - 1) AND 0x0f); byte = (\<lambda>i. ucast (hmac ! i) :: 32 word)
      in push_bit 24 (byte offset AND 0x7f) OR push_bit 16 (byte (offset + 1) AND 0xff) OR
         push_bit 8 (byte (offset + 2) AND 0xff) OR (byte (offset + 3) AND 0xff))"

definition pad_start :: "nat \<Rightarrow> string \<Rightarrow> string" where
  "pad_start k s = replicate (k - length s) CHR ''0'' @ s"

definition generate_hotp :: "auth_host \<Rightarrow> string \<Rightarrow> int \<Rightarrow> auth_error + string" where
  "generate_hotp H secret counter =
     (case base32_decode secret of
        Inl e \<Rightarrow> Inl e
      | Inr key \<Rightarrow> (case counter_bytes counter of
          Inl e \<Rightarrow> Inl e
        | Inr message \<Rightarrow> Inr (pad_start 6 (show_int (sint (truncate_hmac (ah_hmac H key message)) mod 10 ^ 6)))))"

definition time_counter :: "int \<Rightarrow> int" where
  "time_counter timestamp = timestamp div 30000"

definition totp_generate :: "auth_host \<Rightarrow> string \<Rightarrow> int \<Rightarrow> auth_error + string" where
  "totp_generate H secret timestamp = generate_hotp H secret (time_counter timestamp)"

definition six_digits :: "string \<Rightarrow> bool" where
  "six_digits s \<longleftrightarrow> length s = 6 \<and> list_all is_digit s"

fun try_offsets :: "auth_host \<Rightarrow> string \<Rightarrow> int \<Rightarrow> string \<Rightarrow> int list \<Rightarrow> auth_error + bool" where
  "try_offsets H secret counter token [] = Inr False"
| "try_offsets H secret counter token (offset # rest) =
     (case generate_hotp H secret (counter + offset) of
        Inl e \<Rightarrow> Inl e
      | Inr code \<Rightarrow> if code = token then Inr True else try_offsets H secret counter token rest)"

definition totp_verify :: "auth_host \<Rightarrow> string \<Rightarrow> string \<Rightarrow> int \<Rightarrow> auth_error + bool" where
  "totp_verify H secret token now =
     (let normalized = js_trim token
      in if \<not> six_digits normalized then Inr False
         else try_offsets H secret (time_counter now) normalized [- 1, 0, 1])"

text \<open>\<open>encodeURIComponent\<close> of 8-bit characters.\<close>

definition hex_digits :: string where
  "hex_digits = ''0123456789ABCDEF''"

definition percent :: "nat \<Rightarrow> string" where
  "percent n = [CHR ''%'', hex_digits ! (n div 16), hex_digits ! (n mod 16)]"

definition encode_uri_component :: "string \<Rightarrow> string" where
  "encode_uri_component s = concat (map (\<lambda>c. let n = (of_char c :: nat) in
     if 48 \<le> n \<and> n \<le> 57 \<or> 65 \<le> n \<and> n \<le> 90 \<or> 97 \<le> n \<and> n \<le> 122 \<or> c \<in> set ''-_.!~*()'' \<or> n = 39 then [c]
     else if n < 128 then percent n
     else percent (192 + n div 64) @ percent (128 + n mod 64)) s)"

definition build_otp_auth_url :: "string \<Rightarrow> string \<Rightarrow> string" where
  "build_otp_auth_url secret accountName =
     ''otpauth://totp/'' @ encode_uri_component (''Ajo:'' @ accountName) @ ''?secret='' @ secret @ ''&issuer='' @
     encode_uri_component ''Ajo'' @ ''&algorithm=SHA1&digits=6&period=30''"


section \<open>Backup codes\<close>

text \<open>\<open>toString('hex').toUpperCase()\<close> of the random bytes.\<close>

definition to_hex_upper :: "8 word list \<Rightarrow> string" where
  "to_hex_upper bytes = concat (map (\<lambda>b. [hex_digits ! (unat b div 16), hex_digits ! (unat b mod 16)]) bytes)"

definition backup_code :: "8 word list \<Rightarrow> string" where
  "backup_code bytes = (let hex = to_hex_upper bytes in take 5 hex @ ''-'' @ drop 5 hex)"

text \<open>\<open>code.replace('-', '')\<close> removes the first dash only.\<close>

definition hash_code :: "auth_host \<Rightarrow> string \<Rightarrow> string" where
  "hash_code H code = ah_sha256 H (map upper_char (remove1 CHR ''-'' code))"

fun draw_codes :: "auth_host \<Rightarrow> nat \<Rightarrow> string list auth_method" where
  "draw_codes H 0 = js_return []"
| "draw_codes H (Suc n) =
     js_then (draw (\<lambda>i. backup_code (ah_bytes H i 5))) (\<lambda>c. js_then (draw_codes H n) (\<lambda>cs. js_return (c # cs)))"

definition generate_backup_codes :: "auth_host \<Rightarrow> string \<Rightarrow> string list auth_method" where
  "generate_backup_codes H walletAddress =
     js_then (draw_codes H 10) (\<lambda>codes.
       js_then (update_user H walletAddress (\<lambda>u. u\<lparr>ur_backupCodes := Some (map (hash_code H) codes)\<rparr>)) (\<lambda>_.
         js_return codes))"

definition verify_backup_code :: "auth_host \<Rightarrow> string \<Rightarrow> string \<Rightarrow> bool auth_method" where
  "verify_backup_code H walletAddress code =
     js_then (find_user H walletAddress) (\<lambda>user.
       case (case user of None \<Rightarrow> None | Some u \<Rightarrow> ur_backupCodes u) of
         None \<Rightarrow> js_return False
       | Some hashes \<Rightarrow>
           if hash_code H code \<notin> set hashes then js_return False
           else js_then (update_user H walletAddress (\<lambda>u. u\<lparr>ur_backupCodes := Some (remove1 (hash_code H code) hashes)\<rparr>)) (\<lambda>_.
             js_return True))"

definition remaining_codes :: "auth_host \<Rightarrow> string \<Rightarrow> nat auth_method" where
  "remaining_codes H walletAddress =
     js_then (find_user H walletAddress) (\<lambda>user.
       js_return (case (case user of None \<Rightarrow> None | Some u \<Rightarrow> ur_backupCodes u) of None \<Rightarrow> 0 | Some hashes \<Rightarrow> length hashes))"

section \<open>Codes by SMS\<close>

definition generate_otp :: "auth_host \<Rightarrow> nat \<Rightarrow> string" where
  "generate_otp H i = pad_start 6 (show_nat (ah_int H i (10 ^ 6)))"

definition send_via_twilio :: "auth_host \<Rightarrow> string \<Rightarrow> string \<Rightarrow> unit auth_method" where
  "send_via_twilio H to body s =
     (if \<not> ah_twilioConfigured H then (Inl TwilioNotConfigured, s)
      else let s' = s\<lparr>ad_ops := Suc (ad_ops s)\<rparr>
           in case ah_twilio H (ad_ops s) to body of
                Some err \<Rightarrow> (Inl (TwilioError err), s')
              | None \<Rightarrow> (Inr (), s'\<lparr>ad_sent := ad_sent s @ [(to, body)]\<rparr>))"

definition send_otp :: "auth_host \<Rightarrow> string \<Rightarrow> string option auth_method" where
  "send_otp H walletAddress =
     js_then (find_user H walletAddress) (\<lambda>user.
       case truthy (case user of None \<Rightarrow> None | Some u \<Rightarrow> ur_phone u) of
         None \<Rightarrow> js_throw NoPhoneNumber
       | Some phone \<Rightarrow>
           js_then (draw (generate_otp H)) (\<lambda>otp.
             js_then (at_now (\<lambda>t. t + 10 * 60 * 1000)) (\<lambda>expiresAt.
               js_then (update_user H walletAddress
                   (\<lambda>u. u\<lparr>ur_otpHash := Some (ah_sha256 H otp), ur_otpExpiresAt := Some expiresAt\<rparr>)) (\<lambda>_.
                 js_then (send_via_twilio H phone
                     (''Your Ajo verification code is: '' @ otp @ ''. Valid for 10 minutes.'')) (\<lambda>_.
                   js_return (if ah_production H then None else Some otp))))))"

definition verify_otp :: "auth_host \<Rightarrow> string \<Rightarrow> string \<Rightarrow> bool auth_method" where
  "verify_otp H walletAddress otp =
     js_then (find_user H walletAddress) (\<lambda>user.
       case user of
         None \<Rightarrow> js_return False
       | Some u \<Rightarrow>
           (case (truthy (ur_otpHash u), ur_otpExpiresAt u) of
              (Some hash, Some expiresAt) \<Rightarrow>
                js_then (at_now (\<lambda>t. t > expiresAt)) (\<lambda>late.
                  if late then js_return False
                  else if ah_sha256 H otp \<noteq> hash then js_return False
                  else js_then (update_user H walletAddress (\<lambda>u. u\<lparr>ur_otpHash := None, ur_otpExpiresAt := None\<rparr>)) (\<lambda>_.
                    js_return True))
            | _ \<Rightarrow> js_return False))"

section \<open>Tokens\<close>

definition generate_token :: "auth_host \<Rightarrow> string \<Rightarrow> bool \<Rightarrow> int \<Rightarrow> string" where
  "generate_token H publicKey verified now =
     ah_sign H \<lparr>cl_publicKey = publicKey, cl_purpose = Some ''auth'', cl_twoFactorVerified = verified\<rparr> (ah_jwtExpiresIn H) now"

definition generate_challenge :: "auth_host \<Rightarrow> string \<Rightarrow> int \<Rightarrow> string" where
  "generate_challenge H publicKey now =
     ah_sign H \<lparr>cl_publicKey = publicKey, cl_purpose = Some ''two_factor'', cl_twoFactorVerified = False\<rparr>
       (ah_challengeExpiresIn H) now"

definition verify_token :: "auth_host \<Rightarrow> string \<Rightarrow> int \<Rightarrow> auth_error + claims" where
  "verify_token H token now = (case ah_verify H token now of None \<Rightarrow> Inl JwtInvalid | Some c \<Rightarrow> Inr c)"

definition verify_challenge :: "auth_host \<Rightarrow> string \<Rightarrow> string \<Rightarrow> int \<Rightarrow> auth_error + claims" where
  "verify_challenge H token publicKey now =
     (case verify_token H token now of
        Inl e \<Rightarrow> Inl e
      | Inr payload \<Rightarrow>
          if cl_purpose payload \<noteq> Some ''two_factor'' \<or> cl_publicKey payload \<noteq> publicKey then Inl InvalidChallenge
          else Inr payload)"

section \<open>Replies and the guard of the routes\<close>

datatype auth_reply =
    Issued string bool
  | ChallengeSent string string "string option"
  | Denied nat string
  | SendFailed auth_error
  | NotValid
  | TwoFactorStatus bool "string option" "int option" bool nat
  | SetupSecret string string
  | TwoFactorEnabled "string list"
  | TwoFactorDisabled
  | CodeSent "string option"
  | NewBackupCodes "string list" nat
  | CodesLeft nat
  | Recovered string

definition check_bearer :: "auth_host \<Rightarrow> string option \<Rightarrow> int \<Rightarrow> auth_reply + string" where
  "check_bearer H header now =
     (case header of
        None \<Rightarrow> Inl (Denied 401 ''No token provided'')
      | Some h \<Rightarrow>
          if \<not> js_starts ''Bearer '' h then Inl (Denied 401 ''No token provided'')
          else (case verify_token H (drop 7 h) now of
            Inl _ \<Rightarrow> Inl (Denied 401 ''Invalid or expired token'')
          | Inr payload \<Rightarrow>
              (case truthy (cl_purpose payload) of
                 None \<Rightarrow> Inr (cl_publicKey payload)
               | Some p \<Rightarrow> if p \<noteq> ''auth'' then Inl (Denied 401 ''Invalid token scope'') else Inr (cl_publicKey payload))))"

text \<open>The guard, then the schema of the body, then the handler's own check.\<close>

definition authenticated ::
  "auth_host \<Rightarrow> string option \<Rightarrow> bool \<Rightarrow> (string \<Rightarrow> auth_reply auth_method) \<Rightarrow> auth_reply auth_method" where
  "authenticated H header valid_body handler =
     js_then (at_now (check_bearer H header)) (\<lambda>who.
       case who of
         Inl denied \<Rightarrow> js_return denied
       | Inr walletAddress \<Rightarrow>
           if \<not> valid_body then js_return NotValid
           else if walletAddress = [] then js_return (Denied 401 ''Authentication required'') else handler walletAddress)"

text \<open>\<open>try { otp = await sendOtp(...) } catch { 500 }\<close>.\<close>

definition reply_with_otp :: "auth_host \<Rightarrow> string \<Rightarrow> (string option \<Rightarrow> auth_reply) \<Rightarrow> auth_reply auth_method" where
  "reply_with_otp H walletAddress reply s =
     (case send_otp H walletAddress s of
        (Inl e, s') \<Rightarrow> (Inr (SendFailed e), s')
      | (Inr devOtp, s') \<Rightarrow> (Inr (reply (truthy devOtp)), s'))"

section \<open>Schemas\<close>

definition stellar_public_key :: "string \<Rightarrow> bool" where
  "stellar_public_key s \<longleftrightarrow>
     (case s of [] \<Rightarrow> False
      | c # rest \<Rightarrow> c = CHR ''G'' \<and> length rest = 55 \<and>
          list_all (\<lambda>c. is_digit c \<or> (let n = (of_char c :: nat) in 65 \<le> n \<and> n \<le> 90)) rest)"

definition hex_char :: "char \<Rightarrow> bool" where
  "hex_char c \<longleftrightarrow> upper_char c \<in> set hex_digits"

definition backup_format :: "string \<Rightarrow> bool" where
  "backup_format s \<longleftrightarrow> length s = 11 \<and> list_all hex_char (take 5 s) \<and> s ! 5 = CHR ''-'' \<and> list_all hex_char (drop 6 s)"

text \<open>\<open>/^\+[1-9]\d{7,14}$/\<close>.\<close>

definition e164 :: "string \<Rightarrow> bool" where
  "e164 s \<longleftrightarrow>
     (case s of a # b # rest \<Rightarrow> a = CHR ''+'' \<and> is_digit b \<and> b \<noteq> CHR ''0'' \<and> 7 \<le> length rest \<and> length rest \<le> 14 \<and> list_all is_digit rest
      | _ \<Rightarrow> False)"

record token_request =
  tq_publicKey :: string
  tq_pendingToken :: "string option"
  tq_totpCode :: "string option"
  tq_smsCode :: "string option"
  tq_backupCode :: "string option"
  tq_method :: "string option"

definition if_given :: "('a \<Rightarrow> bool) \<Rightarrow> 'a option \<Rightarrow> bool" where
  "if_given P x = (case x of None \<Rightarrow> True | Some y \<Rightarrow> P y)"

definition valid_token_request :: "token_request \<Rightarrow> bool" where
  "valid_token_request q \<longleftrightarrow>
     stellar_public_key (tq_publicKey q) \<and> if_given (\<lambda>t. t \<noteq> []) (tq_pendingToken q) \<and> if_given six_digits (tq_totpCode q) \<and>
     if_given six_digits (tq_smsCode q) \<and> if_given backup_format (tq_backupCode q) \<and>
     if_given (\<lambda>m. m \<in> {''totp'', ''sms'', ''backup''}) (tq_method q)"

section \<open>Signing in\<close>

definition denied_unless :: "bool \<Rightarrow> string \<Rightarrow> auth_reply option" where
  "denied_unless b message = (if b then None else Some (Denied 401 message))"

text \<open>The chosen factor; \<open>None\<close> when it passes.\<close>

definition check_factor :: "auth_host \<Rightarrow> user_row \<Rightarrow> token_request \<Rightarrow> string \<Rightarrow> auth_reply option auth_method" where
  "check_factor H u q factor =
     (if factor = ''totp'' then
        (case (truthy (tq_totpCode q), truthy (ur_secret u)) of
           (Some code, Some secret) \<Rightarrow>
             js_then (at_now (totp_verify H secret code)) (\<lambda>r.
               js_then (js_pure r) (\<lambda>passed. js_return (denied_unless passed ''Invalid TOTP code'')))
         | _ \<Rightarrow> js_return (denied_unless False ''Invalid TOTP code''))
      else if factor = ''sms'' then
        (case truthy (tq_smsCode q) of
           None \<Rightarrow> js_return (denied_unless False ''Invalid or expired SMS code'')
         | Some code \<Rightarrow> js_then (verify_otp H (tq_publicKey q) code) (\<lambda>passed.
             js_return (denied_unless passed ''Invalid or expired SMS code'')))
      else if factor = ''backup'' then
        (case truthy (tq_backupCode q) of
           None \<Rightarrow> js_return (denied_unless False ''Invalid or already-used backup code'')
         | Some code \<Rightarrow> js_then (verify_backup_code H (tq_publicKey q) code) (\<lambda>passed.
             js_return (denied_unless passed ''Invalid or already-used backup code'')))
      else js_return (Some (Denied 400 ''Unknown two-factor method'')))"

definition second_factor :: "auth_host \<Rightarrow> user_row \<Rightarrow> token_request \<Rightarrow> auth_reply auth_method" where
  "second_factor H u q =
     (case truthy (tq_pendingToken q) of
        None \<Rightarrow> js_return (Denied 401 ''Pending two-factor challenge is required'')
      | Some pending \<Rightarrow>
          js_then (at_now (verify_challenge H pending (tq_publicKey q))) (\<lambda>challenge.
            case challenge of
              Inl _ \<Rightarrow> js_return (Denied 401 ''Invalid or expired two-factor challenge'')
            | Inr _ \<Rightarrow>
                js_then (check_factor H u q (get_or (get_or ''totp'' (ur_method u)) (tq_method q))) (\<lambda>verdict.
                  case verdict of
                    Some denial \<Rightarrow> js_return denial
                  | None \<Rightarrow> at_now (\<lambda>t. Issued (generate_token H (tq_publicKey q) True t) True))))"

definition start_challenge :: "auth_host \<Rightarrow> user_row \<Rightarrow> token_request \<Rightarrow> auth_reply auth_method" where
  "start_challenge H u q =
     js_then (at_now (generate_challenge H (tq_publicKey q))) (\<lambda>challenge.
       if ur_method u = Some ''sms'' then reply_with_otp H (tq_publicKey q) (ChallengeSent ''sms'' challenge)
       else js_return (ChallengeSent (get_or ''totp'' (ur_method u)) challenge None))"

definition post_token :: "auth_host \<Rightarrow> token_request \<Rightarrow> auth_reply auth_method" where
  "post_token H q =
     (if \<not> valid_token_request q then js_return NotValid
      else js_then (upsert_user H (tq_publicKey q) (\<lambda>u. u) new_user) (\<lambda>u.
        if \<not> ur_enabled u then at_now (\<lambda>t. Issued (generate_token H (tq_publicKey q) False t) False)
        else if truthy (tq_totpCode q) = None \<and> truthy (tq_smsCode q) = None \<and> truthy (tq_backupCode q) = None
        then start_challenge H u q
        else second_factor H u q))"

section \<open>Managing the second factor\<close>

definition two_factor_status :: "auth_host \<Rightarrow> string option \<Rightarrow> auth_reply auth_method" where
  "two_factor_status H header = authenticated H header True (\<lambda>walletAddress.
     js_then (find_user H walletAddress) (\<lambda>user.
       js_return (case user of
           None \<Rightarrow> TwoFactorStatus False None None False 0
         | Some u \<Rightarrow> TwoFactorStatus (ur_enabled u) (ur_method u) (ur_enabledAt u) (truthy (ur_phone u) \<noteq> None)
             (case ur_backupCodes u of None \<Rightarrow> 0 | Some hashes \<Rightarrow> length hashes))))"

definition setup_two_factor :: "auth_host \<Rightarrow> string option \<Rightarrow> auth_reply auth_method" where
  "setup_two_factor H header = authenticated H header True (\<lambda>walletAddress.
     js_then (find_user H walletAddress) (\<lambda>existing.
       if (case existing of None \<Rightarrow> False | Some u \<Rightarrow> ur_enabled u)
       then js_return (Denied 400 ''Two-factor authentication is already enabled'')
       else js_then (generate_secret H) (\<lambda>secret.
         js_then (upsert_user H walletAddress
             (\<lambda>u. u\<lparr>ur_secret := Some secret, ur_enabled := False, ur_enabledAt := None\<rparr>)
             (new_user\<lparr>ur_secret := Some secret\<rparr>)) (\<lambda>_.
           js_return (SetupSecret secret (build_otp_auth_url secret walletAddress))))))"

definition enable_as :: "auth_host \<Rightarrow> string \<Rightarrow> string \<Rightarrow> auth_reply auth_method" where
  "enable_as H walletAddress factor =
     js_then (generate_backup_codes H walletAddress) (\<lambda>codes.
       js_then (at_now (\<lambda>t. t)) (\<lambda>now.
         js_then (update_user H walletAddress
             (\<lambda>u. u\<lparr>ur_enabled := True, ur_enabledAt := Some now, ur_method := Some factor\<rparr>)) (\<lambda>_.
           js_return (TwoFactorEnabled codes))))"

definition user_secret :: "user_row option \<Rightarrow> string option" where
  "user_secret user = truthy (case user of None \<Rightarrow> None | Some u \<Rightarrow> ur_secret u)"

definition enable_two_factor :: "auth_host \<Rightarrow> string option \<Rightarrow> string \<Rightarrow> auth_reply auth_method" where
  "enable_two_factor H header totpCode = authenticated H header (six_digits totpCode) (\<lambda>walletAddress.
     js_then (find_user H walletAddress) (\<lambda>user.
       case user_secret user of
         None \<Rightarrow> js_return (Denied 400 ''Two-factor setup has not been initialized'')
       | Some secret \<Rightarrow>
           js_then (at_now (totp_verify H secret totpCode)) (\<lambda>r.
             js_then (js_pure r) (\<lambda>passed.
               if \<not> passed then js_return (Denied 401 ''Invalid TOTP code'') else enable_as H walletAddress ''totp''))))"

text \<open>The \<open>data\<close> of both updates that turn the second factor off.\<close>

definition without_two_factor :: "user_row \<Rightarrow> user_row" where
  "without_two_factor u = u\<lparr>ur_enabled := False, ur_secret := None, ur_enabledAt := None, ur_method := None,
     ur_phone := None, ur_otpHash := None, ur_otpExpiresAt := None, ur_backupCodes := None\<rparr>"

definition disable_two_factor :: "auth_host \<Rightarrow> string option \<Rightarrow> string \<Rightarrow> auth_reply auth_method" where
  "disable_two_factor H header totpCode = authenticated H header (six_digits totpCode) (\<lambda>walletAddress.
     js_then (find_user H walletAddress) (\<lambda>user.
       if \<not> (case user of None \<Rightarrow> False | Some u \<Rightarrow> ur_enabled u) then js_return (Denied 400 ''Two-factor authentication is not enabled'')
       else case user_secret user of
         None \<Rightarrow> js_return (Denied 400 ''Two-factor authentication is not enabled'')
       | Some secret \<Rightarrow>
           js_then (at_now (totp_verify H secret totpCode)) (\<lambda>r.
             js_then (js_pure r) (\<lambda>passed.
               if \<not> passed then js_return (Denied 401 ''Invalid TOTP code'')
               else js_then (update_user H walletAddress without_two_factor) (\<lambda>_. js_return TwoFactorDisabled)))))"

definition sms_setup :: "auth_host \<Rightarrow> string option \<Rightarrow> string \<Rightarrow> auth_reply auth_method" where
  "sms_setup H header phoneNumber = authenticated H header (e164 phoneNumber) (\<lambda>walletAddress.
     js_then (update_user H walletAddress (\<lambda>u. u\<lparr>ur_phone := Some phoneNumber\<rparr>)) (\<lambda>_.
       reply_with_otp H walletAddress CodeSent))"

definition sms_verify :: "auth_host \<Rightarrow> string option \<Rightarrow> string \<Rightarrow> auth_reply auth_method" where
  "sms_verify H header smsCode = authenticated H header (six_digits smsCode) (\<lambda>walletAddress.
     js_then (verify_otp H walletAddress smsCode) (\<lambda>passed.
       if \<not> passed then js_return (Denied 401 ''Invalid or expired SMS code'') else enable_as H walletAddress ''sms''))"

definition sms_send :: "auth_host \<Rightarrow> string option \<Rightarrow> auth_reply auth_method" where
  "sms_send H header = authenticated H header True (\<lambda>walletAddress. reply_with_otp H walletAddress CodeSent)"

definition regenerate_codes :: "auth_host \<Rightarrow> string option \<Rightarrow> auth_reply auth_method" where
  "regenerate_codes H header = authenticated H header True (\<lambda>walletAddress.
     js_then (find_user H walletAddress) (\<lambda>user.
       if \<not> (case user of None \<Rightarrow> False | Some u \<Rightarrow> ur_enabled u)
       then js_return (Denied 400 ''2FA must be enabled before generating backup codes'')
       else js_then (generate_backup_codes H walletAddress) (\<lambda>codes. js_return (NewBackupCodes codes (length codes)))))"

definition count_codes :: "auth_host \<Rightarrow> string option \<Rightarrow> auth_reply auth_method" where
  "count_codes H header = authenticated H header True (\<lambda>walletAddress.
     js_then (remaining_codes H walletAddress) (\<lambda>n. js_return (CodesLeft n)))"

definition recover :: "auth_host \<Rightarrow> string \<Rightarrow> string \<Rightarrow> auth_reply auth_method" where
  "recover H publicKey backupCode =
     (if \<not> stellar_public_key publicKey \<or> \<not> backup_format backupCode then js_return NotValid
      else js_then (verify_backup_code H publicKey backupCode) (\<lambda>passed.
        if \<not> passed then js_return (Denied 401 ''Invalid or already-used backup code'')
        else js_then (update_user H publicKey without_two_factor) (\<lambda>_.
          at_now (\<lambda>t. Recovered (generate_token H publicKey False t)))))"


section \<open>Base 32 round trip\<close>

lemma length_bits_of [simp]: "length (bits_of k n) = k"
  by (induction k arbitrary: n) auto

lemma of_bits_snoc [simp]: "of_bits (bs @ [b]) = 2 * of_bits bs + (if b then 1 else 0)"
  by (simp add: of_bits_def)

lemma of_bits_Nil [simp]: "of_bits [] = 0"
  by (simp add: of_bits_def)

lemma of_bits_of: "of_bits (bits_of k n) = n mod 2 ^ k"
proof (induction k arbitrary: n)
  case (Suc k)
  have "2 * (n div 2 mod 2 ^ k) + n mod 2 = n mod (2 * 2 ^ k)" by (metis mod_mult2_eq mult.commute)
  then show ?case using Suc by (simp add: odd_iff_mod_2_eq_one)
qed simp

lemma of_bits_less: "of_bits bs < 2 ^ length bs"
  by (induction bs rule: rev_induct) auto

lemma bits_of_of_bits: "bits_of (length bs) (of_bits bs) = bs"
  by (induction bs rule: rev_induct) auto

lemma index_of_alphabet: "i < 32 \<Longrightarrow> index_of (base32_alphabet ! i) base32_alphabet = Some i"
proof -
  have "\<forall>i \<in> set [0..<32]. index_of (base32_alphabet ! i) base32_alphabet = Some i" by code_simp
  then show "i < 32 \<Longrightarrow> ?thesis" by simp
qed

lemma alphabet_plain:
  assumes "i < 32"
  shows "\<not> js_space (base32_alphabet ! i) \<and> base32_alphabet ! i \<noteq> CHR ''='' \<and> upper_char (base32_alphabet ! i) = base32_alphabet ! i"
proof -
  have "\<forall>i \<in> set [0..<32]. \<not> js_space (base32_alphabet ! i) \<and> base32_alphabet ! i \<noteq> CHR ''='' \<and>
      upper_char (base32_alphabet ! i) = base32_alphabet ! i" by code_simp
  then show ?thesis using assms by simp
qed

lemma chunk_index: "of_bits (pad_end 5 (take 5 bs)) < 32"
  using of_bits_less [of "pad_end 5 (take 5 bs)"] by (simp add: pad_end_def min_def split: if_splits)

lemma encode_chunks_chars: "c \<in> set (encode_chunks n bs) \<Longrightarrow> \<exists>i<32. c = base32_alphabet ! i"
  by (induction n bs rule: encode_chunks.induct) (auto split: if_splits intro: chunk_index)

lemma normalize_encoded: "base32_normalize (encode_chunks n bs) = encode_chunks n bs"
proof -
  let ?e = "encode_chunks n bs"
  have plain: "\<not> js_space c \<and> c \<noteq> CHR ''='' \<and> upper_char c = c" if "c \<in> set ?e" for c
    using encode_chunks_chars [OF that] alphabet_plain by auto
  then have "dropWhile (\<lambda>c. c = CHR ''='') (rev ?e) = rev ?e"
    by (cases "?e = []") (simp_all add: dropWhile_eq_self_iff hd_rev)
  then show ?thesis using plain by (simp add: base32_normalize_def filter_True map_idI)
qed

lemma char_bits_encoded:
  "length bs \<le> n \<Longrightarrow> \<exists>rest. char_bits (encode_chunks n bs) = Inr (bs @ rest) \<and> length rest < 5"
proof (induction n bs rule: encode_chunks.induct)
  case (2 n bs)
  show ?case
  proof (cases "bs = []")
    case False
    let ?c = "pad_end 5 (take 5 bs)"
    obtain rest where r: "char_bits (encode_chunks n (drop 5 bs)) = Inr (drop 5 bs @ rest)" "length rest < 5"
    proof -
      have "length (drop 5 bs) \<le> n" using 2(2) by auto
      from 2(1) [OF False this] that show thesis by blast
    qed
    have c: "length ?c = 5" by (simp add: pad_end_def)
    then have "bits_of 5 (of_bits ?c) = ?c" using bits_of_of_bits [of ?c] by simp
    then have "char_bits (encode_chunks (Suc n) bs) = Inr (?c @ drop 5 bs @ rest)"
      using False r by (simp add: index_of_alphabet chunk_index)
    moreover have "\<exists>rest'. ?c @ drop 5 bs @ rest = bs @ rest' \<and> length rest' < 5"
    proof (cases "5 \<le> length bs")
      case True
      then have "?c = take 5 bs" by (simp add: pad_end_def)
      then show ?thesis using r by (metis append.assoc append_take_drop_id)
    next
      case short: False
      then have "drop 5 bs = []" "rest = []"
        using r 2 False by auto (cases n; simp)
      then show ?thesis using short False by (intro exI [of _ "replicate (5 - length bs) False"]) (simp add: pad_end_def)
    qed
    ultimately show ?thesis by auto
  qed simp
qed simp


lemma take_bytes_of: "length bytes \<le> n \<Longrightarrow> length rest < 8 \<Longrightarrow>
  take_bytes n (concat (map (\<lambda>b. bits_of 8 (unat b)) bytes) @ rest) = (bytes :: 8 word list)"
proof (induction bytes arbitrary: n)
  case Nil
  then show ?case by (cases n) simp_all
next
  case (Cons b bytes)
  then obtain m where n: "n = Suc m" "length bytes \<le> m" by (cases n) auto
  have "unat b < 2 ^ LENGTH(8)" by (rule unsigned_less)
  then have "of_bits (bits_of 8 (unat b)) = unat b" by (simp add: of_bits_of)
  then show ?case using Cons n by simp
qed

lemma length_concat_bits: "length (concat (map (\<lambda>b. bits_of 8 (unat (b :: 8 word))) bytes)) = 8 * length bytes"
  by (induction bytes) simp_all

text \<open>
  C39. Decoding an encoded secret gives back its bytes, for secrets of any length.
\<close>

theorem base32_roundtrip: "base32_decode (base32_encode bytes) = Inr bytes"
proof -
  let ?bits = "concat (map (\<lambda>b. bits_of 8 (unat b)) bytes)"
  obtain rest where r: "char_bits (encode_chunks (length ?bits) ?bits) = Inr (?bits @ rest)" "length rest < 5"
    using char_bits_encoded [OF order_refl] by blast
  have "length bytes \<le> length (?bits @ rest)" by (simp add: length_concat_bits del: length_concat)
  then have "take_bytes (length (?bits @ rest)) (?bits @ rest) = bytes"
    by (rule take_bytes_of) (use r in simp)
  then show ?thesis using r by (simp add: base32_decode_def base32_encode_def Let_def normalize_encoded)
qed

section \<open>Codes are six digits, and a fresh one is accepted\<close>

lemma length_show_nat: "n < 10 ^ k \<Longrightarrow> 0 < k \<Longrightarrow> length (show_nat n) \<le> k"
proof (induction n arbitrary: k rule: show_nat.induct)
  case (1 n)
  show ?case
  proof (cases "n < 10")
    case True
    then show ?thesis using 1(3) by (subst show_nat.simps) simp
  next
    case False
    then obtain j where k: "k = Suc j" "0 < j" using 1(2,3) by (cases k; cases "k - 1") auto
    then have "n div 10 < 10 ^ j" using 1(2) by auto
    then have "length (show_nat (n div 10)) \<le> j" using 1(1) [OF False] k by simp
    then show ?thesis using False k by (subst show_nat.simps) simp
  qed
qed

lemma padded_six: "n < 10 ^ 6 \<Longrightarrow> six_digits (pad_start 6 (show_nat n))"
  using length_show_nat [of n 6] show_nat_digits [of n]
  by (auto simp: six_digits_def pad_start_def list_all_iff is_digit_def)

lemma hotp_six_digits: "generate_hotp H secret counter = Inr code \<Longrightarrow> six_digits code"
  unfolding generate_hotp_def
  by (auto split: sum.splits simp: show_int_def intro!: padded_six)

lemma digit_not_space: "is_digit c \<Longrightarrow> \<not> js_space c"
  by (auto simp: is_digit_def js_space_def Let_def)

lemma trim_digits: "list_all is_digit s \<Longrightarrow> js_trim s = s"
proof -
  assume "list_all is_digit s"
  then have d: "\<not> js_space c" if "c \<in> set s" for c using that digit_not_space by (auto simp: list_all_iff)
  then have "dropWhile js_space s = s" by (cases s) (simp_all add: dropWhile_eq_self_iff)
  moreover have "dropWhile js_space (rev s) = rev s" using d by (cases "s = []") (simp_all add: dropWhile_eq_self_iff hd_rev)
  ultimately show ?thesis by (simp add: js_trim_def)
qed

lemma hotp_total:
  assumes "0 \<le> counter" and "counter < 2 ^ 64"
  shows "\<exists>code. generate_hotp H (base32_encode bytes) counter = Inr code"
  using assms by (simp add: generate_hotp_def base32_roundtrip counter_bytes_def)

text \<open>
  C32. For any secret the service made, the code of a moment is six digits and is accepted as long as the clock
  is in the same 30-second step, the one before or the one after.
\<close>

theorem fresh_code_accepted:
  assumes "30000 \<le> t" and "30000 \<le> t'" and "t < 2 ^ 64" and "t' < 2 ^ 64" and "\<bar>time_counter t - time_counter t'\<bar> \<le> 1"
  shows "\<exists>code. totp_generate H (base32_encode bytes) t = Inr code \<and> six_digits code \<and>
    totp_verify H (base32_encode bytes) code t' = Inr True"
proof -
  let ?s = "base32_encode bytes" and ?c = "time_counter t" and ?c' = "time_counter t'"
  have c: "0 \<le> ?c - 1" "?c + 1 < 2 ^ 64" "0 \<le> ?c' - 1" "?c' + 1 < 2 ^ 64"
    using assms(1-4) by (simp_all add: time_counter_def)
  obtain code where code: "generate_hotp H ?s ?c = Inr code" using hotp_total [of ?c H bytes] c by auto
  obtain a where a: "generate_hotp H ?s (?c' - 1) = Inr a" using hotp_total [of "?c' - 1" H bytes] c by auto
  obtain b where b: "generate_hotp H ?s ?c' = Inr b" using hotp_total [of ?c' H bytes] c by auto
  obtain d where d: "generate_hotp H ?s (?c' + 1) = Inr d" using hotp_total [of "?c' + 1" H bytes] c by auto
  have six: "six_digits code" using hotp_six_digits [OF code] .
  consider "?c = ?c' - 1" | "?c = ?c'" | "?c = ?c' + 1" using assms(5) by linarith
  then have "code = a \<or> code = b \<or> code = d" using a b d code by cases auto
  then have "totp_verify H ?s code t' = Inr True"
    using six a b d by (auto simp: totp_verify_def six_digits_def trim_digits Let_def)
  then show ?thesis using code six by (auto simp: totp_generate_def)
qed


section \<open>The second factor is a gate\<close>

lemma update_same: "map_of m k = Some v \<Longrightarrow> AList.update k v m = m"
  by (induction m) auto

lemma db_op_Inr: "db_op H f s = (Inr r, s') \<Longrightarrow> f (s\<lparr>ad_ops := Suc (ad_ops s)\<rparr>) = (Inr r, s')"
  by (simp add: db_op_def Let_def split: if_splits)

lemma find_user_Inr: "find_user H k s = (Inr u, s') \<Longrightarrow> u = js_get (ad_users s) k \<and> s' = s\<lparr>ad_ops := Suc (ad_ops s)\<rparr>"
  by (auto simp: find_user_def dest: db_op_Inr)

lemma upsert_user_Inr:
  assumes "upsert_user H k (\<lambda>u. u) fresh s = (Inr u, s')" and "js_get (ad_users s) k = Some u0"
  shows "u = u0 \<and> s' = s\<lparr>ad_ops := Suc (ad_ops s)\<rparr>"
  using assms by (auto simp: upsert_user_def Let_def update_same dest!: db_op_Inr)

text \<open>What the chosen factor demands of the request and the row.\<close>

definition factor_presented :: "auth_host \<Rightarrow> user_row \<Rightarrow> token_request \<Rightarrow> int \<Rightarrow> string \<Rightarrow> bool" where
  "factor_presented H u q now factor \<longleftrightarrow>
     factor = ''totp'' \<and> (\<exists>code secret. tq_totpCode q = Some code \<and> ur_secret u = Some secret \<and> totp_verify H secret code now = Inr True) \<or>
     factor = ''sms'' \<and> (\<exists>code expires. tq_smsCode q = Some code \<and> ur_otpHash u = Some (ah_sha256 H code) \<and>
       ur_otpExpiresAt u = Some expires \<and> now \<le> expires) \<or>
     factor = ''backup'' \<and> (\<exists>code hashes. tq_backupCode q = Some code \<and> ur_backupCodes u = Some hashes \<and> hash_code H code \<in> set hashes)"

lemma truthy_Some: "truthy x = Some y \<longleftrightarrow> x = Some y \<and> y \<noteq> []"
  by (cases x) auto

lemma at_now_Inr: "at_now f s = (Inr r, s') \<Longrightarrow> r = f (ad_now s) \<and> s' = s"
  by (auto simp: at_now_def)

lemma verify_otp_True:
  assumes "verify_otp H k code s = (Inr True, s')" and "js_get (ad_users s) k = Some u"
  shows "ur_otpHash u = Some (ah_sha256 H code) \<and> (\<exists>expires. ur_otpExpiresAt u = Some expires \<and> ad_now s \<le> expires)"
  using assms unfolding verify_otp_def
  by (auto elim!: js_then_InrE dest!: find_user_Inr at_now_Inr split: option.splits if_splits simp: truthy_Some)

lemma verify_backup_True:
  assumes "verify_backup_code H k code s = (Inr True, s')" and "js_get (ad_users s) k = Some u"
  shows "\<exists>hashes. ur_backupCodes u = Some hashes \<and> hash_code H code \<in> set hashes"
  using assms unfolding verify_backup_code_def
  by (auto elim!: js_then_InrE dest!: find_user_Inr split: option.splits if_splits)

lemma check_factor_passed:
  assumes "check_factor H u q factor s = (Inr None, s')" and "js_get (ad_users s) (tq_publicKey q) = Some u"
  shows "factor_presented H u q (ad_now s) factor"
  using assms unfolding check_factor_def factor_presented_def
  by (auto elim!: js_then_InrE dest!: at_now_Inr verify_otp_True verify_backup_True
      split: option.splits if_splits simp: truthy_Some denied_unless_def)


lemma start_challenge_no_token: "start_challenge H u q s \<noteq> (Inr (Issued token b), s')"
proof
  assume "start_challenge H u q s = (Inr (Issued token b), s')"
  then show False unfolding start_challenge_def
    by (elim js_then_InrE) (auto simp: reply_with_otp_def split: if_splits sum.splits prod.splits)
qed

lemma second_factor_token:
  assumes "second_factor H u q s = (Inr (Issued token b), s')" and "js_get (ad_users s) (tq_publicKey q) = Some u"
  shows "b \<and> (\<exists>pending payload. tq_pendingToken q = Some pending \<and> verify_challenge H pending (tq_publicKey q) (ad_now s) = Inr payload)
    \<and> factor_presented H u q (ad_now s) (get_or (get_or ''totp'' (ur_method u)) (tq_method q))"
proof -
  obtain pending where pending: "tq_pendingToken q = Some pending" "pending \<noteq> []"
    using assms(1) unfolding second_factor_def by (cases "tq_pendingToken q") (auto split: if_splits)
  obtain payload verdict s1 where p: "verify_challenge H pending (tq_publicKey q) (ad_now s) = Inr payload"
    and v: "check_factor H u q (get_or (get_or ''totp'' (ur_method u)) (tq_method q)) s = (Inr verdict, s1)"
    and r: "(case verdict of Some denial \<Rightarrow> js_return denial
       | None \<Rightarrow> at_now (\<lambda>t. Issued (generate_token H (tq_publicKey q) True t) True)) s1 = (Inr (Issued token b), s')"
    using assms(1) pending unfolding second_factor_def
    by (auto elim!: js_then_InrE dest!: at_now_Inr split: sum.splits)
  have "verdict \<noteq> Some (Issued token b)"
    using v unfolding check_factor_def
    by (auto elim!: js_then_InrE split: if_splits option.splits simp: denied_unless_def)
  then have "verdict = None" and "b" using r by (auto split: option.splits dest!: at_now_Inr)
  then show ?thesis using check_factor_passed [OF _ assms(2)] v p pending by auto
qed

text \<open>
  C5. For an account with the second factor on, a sign-in that yields a token carried an unexpired challenge
  for this very account and the code of the factor in force: a matching time-based code, the stored SMS code
  before it expired, or one of the stored backup codes.
\<close>

theorem second_factor_enforced:
  assumes "post_token H q s = (Inr (Issued token b), s')"
    and "js_get (ad_users s) (tq_publicKey q) = Some u" and "ur_enabled u"
  shows "b \<and> (\<exists>pending payload. tq_pendingToken q = Some pending \<and> verify_challenge H pending (tq_publicKey q) (ad_now s) = Inr payload)
    \<and> factor_presented H u q (ad_now s) (get_or (get_or ''totp'' (ur_method u)) (tq_method q))"
proof -
  let ?s = "s\<lparr>ad_ops := Suc (ad_ops s)\<rparr>"
  have "(if truthy (tq_totpCode q) = None \<and> truthy (tq_smsCode q) = None \<and> truthy (tq_backupCode q) = None
      then start_challenge H u q else second_factor H u q) ?s = (Inr (Issued token b), s')"
    using assms unfolding post_token_def by (auto elim!: js_then_InrE dest!: upsert_user_Inr split: if_splits)
  then have "second_factor H u q ?s = (Inr (Issued token b), s')"
    using start_challenge_no_token by (auto split: if_splits)
  from second_factor_token [OF this] assms(2) show ?thesis by simp
qed

text \<open>A token just signed verifies to its claims.\<close>

definition jwt_accepts :: "auth_host \<Rightarrow> bool" where
  "jwt_accepts H \<longleftrightarrow> (\<forall>c e t. ah_verify H (ah_sign H c e t) t = Some c)"

text \<open>
  C8. Without it the public key alone is enough: a request that names any account, known or not, and nothing else
  gets a token that the guard of the routes takes for that account's. No signature is asked for.
\<close>

theorem public_key_suffices:
  assumes "stellar_public_key k" and "\<forall>u. js_get (ad_users s) k = Some u \<longrightarrow> \<not> ur_enabled u"
    and "\<not> ah_fails H (ad_ops s)" and "jwt_accepts H"
  shows "\<exists>token s'. post_token H \<lparr>tq_publicKey = k, tq_pendingToken = None, tq_totpCode = None, tq_smsCode = None,
      tq_backupCode = None, tq_method = None\<rparr> s = (Inr (Issued token False), s')
    \<and> check_bearer H (Some (''Bearer '' @ token)) (ad_now s) = Inr k"
proof -
  let ?q = "\<lparr>tq_publicKey = k, tq_pendingToken = None, tq_totpCode = None, tq_smsCode = None, tq_backupCode = None, tq_method = None\<rparr>"
  let ?token = "generate_token H k False (ad_now s)"
  have valid: "valid_token_request ?q" using assms(1) by (simp add: valid_token_request_def if_given_def)
  obtain u s1 where u: "upsert_user H k (\<lambda>u. u) new_user s = (Inr u, s1)" "\<not> ur_enabled u" "ad_now s1 = ad_now s"
    using assms(2,3) by (cases "js_get (ad_users s) k") (simp_all add: upsert_user_def db_op_def Let_def new_user_def)
  have "post_token H ?q s = (Inr (Issued ?token False), s1)"
    using valid u by (simp add: post_token_def js_then_def at_now_def)
  moreover have "check_bearer H (Some (''Bearer '' @ ?token)) (ad_now s) = Inr k"
    using assms(4) by (simp add: check_bearer_def js_starts_def verify_token_def generate_token_def jwt_accepts_def)
  ultimately show ?thesis by blast
qed

section \<open>A backup code works once\<close>

text \<open>No stored code of account \<open>k\<close> has the hash \<open>h\<close>.\<close>

definition spent :: "string \<Rightarrow> string \<Rightarrow> (string, user_row) jsmap \<Rightarrow> bool" where
  "spent k h users \<longleftrightarrow>
     (\<forall>u hashes. js_get users k = Some u \<longrightarrow> ur_backupCodes u = Some hashes \<longrightarrow> h \<notin> set hashes)"

abbreviation users_keep :: "((string, user_row) jsmap \<Rightarrow> bool) \<Rightarrow> 'a auth_method \<Rightarrow> bool" where
  "users_keep P m \<equiv> db_keeps ad_users P m"

lemma db_op_keeps: "users_keep P f \<Longrightarrow> users_keep P (db_op H f)"
  by (simp add: db_keeps_def db_op_def Let_def)

lemma find_user_keeps [keeps_rules]: "users_keep P (find_user H k)"
  unfolding find_user_def by (rule db_op_keeps) (simp add: db_keeps_def)

lemma draw_keeps [keeps_rules]: "users_keep P (draw f)"
  by (simp add: db_keeps_def draw_def)

lemma at_now_keeps [keeps_rules]: "users_keep P (at_now f)"
  by (simp add: db_keeps_def at_now_def)

lemma twilio_keeps [keeps_rules]: "users_keep P (send_via_twilio H to body)"
  by (simp add: db_keeps_def send_via_twilio_def Let_def split: option.split)

lemma update_user_keeps:
  assumes "\<And>users u. P users \<Longrightarrow> js_get users k = Some u \<Longrightarrow> P (js_set k (f u) users)"
  shows "users_keep P (update_user H k f)"
  unfolding update_user_def by (rule db_op_keeps) (auto simp: db_keeps_def assms split: option.split)

lemma upsert_user_keeps:
  assumes "\<And>users u. P users \<Longrightarrow> js_get users k = Some u \<Longrightarrow> P (js_set k (f u) users)"
    and "\<And>users. P users \<Longrightarrow> js_get users k = None \<Longrightarrow> P (js_set k fresh users)"
  shows "users_keep P (upsert_user H k f fresh)"
  unfolding upsert_user_def by (rule db_op_keeps) (auto simp: db_keeps_def Let_def assms split: option.split)

text \<open>An update that leaves the stored codes, drops some, or is of another account.\<close>

definition no_new_codes :: "string \<Rightarrow> (user_row \<Rightarrow> user_row) \<Rightarrow> bool" where
  "no_new_codes h f \<longleftrightarrow> (\<forall>u hashes'. ur_backupCodes (f u) = Some hashes' \<longrightarrow> h \<in> set hashes' \<longrightarrow>
     (\<exists>hashes. ur_backupCodes u = Some hashes \<and> h \<in> set hashes))"

lemma no_new_codesD:
  "no_new_codes h f \<Longrightarrow> \<forall>hashes. ur_backupCodes u = Some hashes \<longrightarrow> h \<notin> set hashes \<Longrightarrow>
   ur_backupCodes (f u) = Some hashes' \<Longrightarrow> h \<notin> set hashes'"
  unfolding no_new_codes_def by blast

lemma spent_set:
  assumes "spent k h users" and "k' = k \<Longrightarrow> \<forall>hashes. ur_backupCodes u = Some hashes \<longrightarrow> h \<notin> set hashes"
  shows "spent k h (js_set k' u users)"
  using assms by (auto simp: spent_def js_get_set)

lemma update_spent:
  assumes "k' \<noteq> k \<or> no_new_codes h f"
  shows "users_keep (spent k h) (update_user H k' f)"
proof (rule update_user_keeps)
  fix users u assume "spent k h users" and "js_get users k' = Some u"
  then show "spent k h (js_set k' (f u) users)"
    using assms by (intro spent_set) (auto simp: spent_def dest: no_new_codesD)
qed

lemma upsert_spent:
  assumes "no_new_codes h f" and "ur_backupCodes fresh = None"
  shows "users_keep (spent k h) (upsert_user H k' f fresh)"
proof (rule upsert_user_keeps)
  fix users u assume "spent k h users" and "js_get users k' = Some u"
  then show "spent k h (js_set k' (f u) users)"
    using assms(1) by (intro spent_set) (auto simp: spent_def dest: no_new_codesD)
qed (use assms(2) in \<open>simp add: spent_set\<close>)

lemma verify_backup_spent: "users_keep (spent k h) (verify_backup_code H k' code)"
  unfolding db_keeps_def verify_backup_code_def find_user_def update_user_def db_op_def Let_def js_then_def
  by (auto split: option.splits intro!: spent_set) (auto simp: spent_def dest: in_set_remove1 notin_set_remove1)

lemma verify_otp_spent: "users_keep (spent k h) (verify_otp H k' code)"
  unfolding verify_otp_def
  by (auto intro!: keeps_rules update_spent simp: no_new_codes_def split: option.split)

lemma send_otp_spent: "users_keep (spent k h) (send_otp H k')"
  unfolding send_otp_def by (auto intro!: keeps_rules update_spent simp: no_new_codes_def split: option.split)

lemma reply_with_otp_spent: "users_keep (spent k h) (reply_with_otp H k' reply)"
  using send_otp_spent [of k h H k'] unfolding db_keeps_def reply_with_otp_def
  by (auto split: prod.splits sum.splits)

lemma draw_codes_keeps: "users_keep P (draw_codes H n)"
  by (induction n) (auto intro!: keeps_rules simp del: js_return_simps)

lemma generate_codes_spent: "k' \<noteq> k \<Longrightarrow> users_keep (spent k h) (generate_backup_codes H k')"
  unfolding generate_backup_codes_def by (intro keeps_rules draw_codes_keeps update_spent) simp

lemma enable_as_spent: "k' \<noteq> k \<Longrightarrow> users_keep (spent k h) (enable_as H k' factor)"
  unfolding enable_as_def by (intro keeps_rules generate_codes_spent update_spent) simp_all

lemma without_spent: "users_keep (spent k h) (update_user H k' without_two_factor)"
  by (rule update_spent) (simp add: no_new_codes_def without_two_factor_def)

lemma authenticated_keeps:
  assumes "\<And>w t. check_bearer H header t = Inr w \<Longrightarrow> users_keep P (handler w)"
  shows "users_keep P (authenticated H header valid_body handler)"
proof -
  have "P (ad_users s) \<Longrightarrow> P (ad_users (snd (authenticated H header valid_body handler s)))" for s
    using assms [of "ad_now s"]
    by (auto simp: authenticated_def js_then_def at_now_def db_keeps_def split: sum.split)
  then show ?thesis by (simp add: db_keeps_def)
qed


lemma db_keeps_sum: "(\<And>e. x = Inl e \<Longrightarrow> db_keeps view P (f e)) \<Longrightarrow> (\<And>r. x = Inr r \<Longrightarrow> db_keeps view P (g r)) \<Longrightarrow>
    db_keeps view P (case x of Inl e \<Rightarrow> f e | Inr r \<Rightarrow> g r)"
  by (cases x) simp_all

lemma check_factor_spent: "users_keep (spent k h) (check_factor H u q factor)"
  unfolding check_factor_def
  by (auto intro!: keeps_rules verify_otp_spent verify_backup_spent split: option.split simp del: js_return_simps js_pure_simps)

lemma post_token_spent: "users_keep (spent k h) (post_token H q)"
proof -
  have "users_keep (spent k h) (second_factor H u q)" for u
    unfolding second_factor_def by (intro keeps_rules db_keeps_sum check_factor_spent)
  moreover have "users_keep (spent k h) (start_challenge H u q)" for u
    unfolding start_challenge_def by (intro keeps_rules reply_with_otp_spent)
  moreover have "users_keep (spent k h) (upsert_user H k' (\<lambda>u. u) new_user)" for k'
    by (rule upsert_spent) (simp_all add: no_new_codes_def new_user_def)
  ultimately show ?thesis unfolding post_token_def by (intro keeps_rules)
qed

lemma setup_spent: "users_keep (spent k h) (setup_two_factor H header)"
  unfolding setup_two_factor_def generate_secret_def
  by (intro authenticated_keeps keeps_rules upsert_spent) (simp_all add: no_new_codes_def new_user_def)

lemma disable_spent: "users_keep (spent k h) (disable_two_factor H header code)"
  unfolding disable_two_factor_def by (intro authenticated_keeps keeps_rules without_spent)

lemma sms_setup_spent: "users_keep (spent k h) (sms_setup H header phone)"
  unfolding sms_setup_def
  by (intro authenticated_keeps keeps_rules update_spent reply_with_otp_spent) (simp add: no_new_codes_def)

lemma recover_spent: "users_keep (spent k h) (recover H k' code)"
  unfolding recover_def by (intro keeps_rules verify_backup_spent without_spent)

text \<open>The requests of the router, and time passing between them.\<close>

datatype auth_call =
    PostToken token_request
  | GetStatus "string option"
  | Setup "string option"
  | Enable "string option" string
  | Disable "string option" string
  | SmsSetup "string option" string
  | SmsVerify "string option" string
  | SmsSend "string option"
  | Regenerate "string option"
  | CountCodes "string option"
  | Recover string string
  | TimePasses nat

fun auth_run :: "auth_host \<Rightarrow> auth_call \<Rightarrow> auth_db \<Rightarrow> auth_db" where
  "auth_run H (PostToken q) s = snd (post_token H q s)"
| "auth_run H (GetStatus header) s = snd (two_factor_status H header s)"
| "auth_run H (Setup header) s = snd (setup_two_factor H header s)"
| "auth_run H (Enable header code) s = snd (enable_two_factor H header code s)"
| "auth_run H (Disable header code) s = snd (disable_two_factor H header code s)"
| "auth_run H (SmsSetup header phone) s = snd (sms_setup H header phone s)"
| "auth_run H (SmsVerify header code) s = snd (sms_verify H header code s)"
| "auth_run H (SmsSend header) s = snd (sms_send H header s)"
| "auth_run H (Regenerate header) s = snd (regenerate_codes H header s)"
| "auth_run H (CountCodes header) s = snd (count_codes H header s)"
| "auth_run H (Recover k code) s = snd (recover H k code s)"
| "auth_run H (TimePasses n) s = s\<lparr>ad_now := ad_now s + int n\<rparr>"

text \<open>A request that may give account \<open>k\<close> new backup codes.\<close>

fun renews_codes :: "auth_host \<Rightarrow> string \<Rightarrow> auth_call \<Rightarrow> bool" where
  "renews_codes H k (Enable header code) \<longleftrightarrow> (\<exists>t. check_bearer H header t = Inr k)"
| "renews_codes H k (SmsVerify header code) \<longleftrightarrow> (\<exists>t. check_bearer H header t = Inr k)"
| "renews_codes H k (Regenerate header) \<longleftrightarrow> (\<exists>t. check_bearer H header t = Inr k)"
| "renews_codes H k _ \<longleftrightarrow> False"

lemma enable_spent: "\<not> renews_codes H k (Enable header code) \<Longrightarrow> users_keep (spent k h) (enable_two_factor H header code)"
  unfolding enable_two_factor_def by (rule authenticated_keeps, intro keeps_rules enable_as_spent) auto

lemma sms_verify_spent: "\<not> renews_codes H k (SmsVerify header code) \<Longrightarrow> users_keep (spent k h) (sms_verify H header code)"
  unfolding sms_verify_def by (rule authenticated_keeps, intro keeps_rules enable_as_spent verify_otp_spent) auto

lemma regenerate_spent: "\<not> renews_codes H k (Regenerate header) \<Longrightarrow> users_keep (spent k h) (regenerate_codes H header)"
  unfolding regenerate_codes_def by (rule authenticated_keeps, intro keeps_rules generate_codes_spent) auto

lemma auth_run_spent:
  assumes "\<not> renews_codes H k c" and "spent k h (ad_users s)"
  shows "spent k h (ad_users (auth_run H c s))"
proof -
  have "users_keep (spent k h) (two_factor_status H header)" "users_keep (spent k h) (sms_send H header)"
    "users_keep (spent k h) (count_codes H header)" for header
    unfolding two_factor_status_def sms_send_def count_codes_def remaining_codes_def
    by (intro authenticated_keeps keeps_rules reply_with_otp_spent)+
  then show ?thesis
    using assms post_token_spent setup_spent disable_spent sms_setup_spent recover_spent enable_spent sms_verify_spent regenerate_spent
    by (cases c) (simp_all add: db_keeps_def)
qed

text \<open>
  C18. A backup code that was accepted is never accepted again for the account, whatever requests follow, until
  the account is given new codes.
\<close>

theorem backup_code_once:
  assumes "verify_backup_code H k code s = (Inr True, s1)"
    and "\<forall>u hashes. js_get (ad_users s) k = Some u \<longrightarrow> ur_backupCodes u = Some hashes \<longrightarrow> distinct hashes"
    and "list_all (\<lambda>c. \<not> renews_codes H k c) calls"
    and "hash_code H code' = hash_code H code"
  shows "fst (verify_backup_code H k code' (fold (auth_run H) calls s1)) \<noteq> Inr True"
proof
  assume again: "fst (verify_backup_code H k code' (fold (auth_run H) calls s1)) = Inr True"
  let ?h = "hash_code H code"
  have "spent k ?h (ad_users s1)"
  proof -
    obtain user s0 where "find_user H k s = (Inr user, s0)"
      and v: "(case (case user of None \<Rightarrow> None | Some u \<Rightarrow> ur_backupCodes u) of
         None \<Rightarrow> js_return False
       | Some hashes \<Rightarrow>
           if hash_code H code \<notin> set hashes then js_return False
           else js_then (update_user H k (\<lambda>u. u\<lparr>ur_backupCodes := Some (remove1 (hash_code H code) hashes)\<rparr>)) (\<lambda>_.
             js_return True)) s0 = (Inr True, s1)"
      using assms(1) unfolding verify_backup_code_def by (rule js_then_InrE)
    then have f: "user = js_get (ad_users s) k" "s0 = s\<lparr>ad_ops := Suc (ad_ops s)\<rparr>" using find_user_Inr by blast+
    obtain u hashes where u: "js_get (ad_users s) k = Some u" "ur_backupCodes u = Some hashes"
      using v f by (auto split: option.splits)
    have "update_user H k (\<lambda>u. u\<lparr>ur_backupCodes := Some (remove1 ?h hashes)\<rparr>) s0 = (Inr (), s1)"
      using v f u by (auto split: if_splits simp: js_then_def split: prod.splits sum.splits)
    from db_op_Inr [OF this [unfolded update_user_def]]
    have "ad_users s1 = js_set k (u\<lparr>ur_backupCodes := Some (remove1 ?h hashes)\<rparr>) (ad_users s)" using f u by auto
    moreover have "distinct hashes" using assms(2) u by blast
    ultimately show ?thesis by (simp add: spent_def js_get_set)
  qed
  then have "spent k ?h (ad_users (fold (auth_run H) calls s1))"
    using assms(3) by (induction calls arbitrary: s1) (simp_all add: auth_run_spent)
  moreover obtain s2 where "verify_backup_code H k code' (fold (auth_run H) calls s1) = (Inr True, s2)"
    using again by (metis prod.collapse)
  ultimately show False using assms(4) unfolding verify_backup_code_def
    by (auto elim!: js_then_InrE dest!: find_user_Inr split: option.splits if_splits simp: spent_def)
qed


text \<open>
  An account that only has SMS codes has no stored secret, and its second factor cannot be turned off: every
  such request is refused, whatever code it carries.
\<close>

theorem sms_account_cannot_disable:
  assumes "js_get (ad_users s) k = Some u" and "truthy (ur_secret u) = None" and "check_bearer H header (ad_now s) = Inr k"
  shows "fst (disable_two_factor H header code s) \<noteq> Inr TwoFactorDisabled
    \<and> ad_users (snd (disable_two_factor H header code s)) = ad_users s"
  using assms
  by (simp add: disable_two_factor_def authenticated_def js_then_def at_now_def find_user_def db_op_def Let_def user_secret_def)

section \<open>A host for examples\<close>

definition demo_sign :: "claims \<Rightarrow> string \<Rightarrow> int \<Rightarrow> string" where
  "demo_sign c expiresIn t = (if cl_twoFactorVerified c then CHR ''Y'' else CHR ''N'') #
     (case cl_purpose c of None \<Rightarrow> CHR ''0'' # cl_publicKey c
      | Some p \<Rightarrow> CHR ''1'' # replicate (length p) CHR ''x'' @ ''|'' @ p @ cl_publicKey c)"

definition demo_verify :: "string \<Rightarrow> int \<Rightarrow> claims option" where
  "demo_verify token t =
     (case token of
        v # f # rest \<Rightarrow>
          (if f = CHR ''0'' then Some \<lparr>cl_publicKey = rest, cl_purpose = None, cl_twoFactorVerified = (v = CHR ''Y'')\<rparr>
           else let n = length (takeWhile (\<lambda>c. c = CHR ''x'') rest); body = drop (Suc n) rest
                in Some \<lparr>cl_publicKey = drop n body, cl_purpose = Some (take n body), cl_twoFactorVerified = (v = CHR ''Y'')\<rparr>)
      | _ \<Rightarrow> None)"

definition demo_host :: auth_host where
  "demo_host = \<lparr>ah_fails = (\<lambda>_. False), ah_bytes = (\<lambda>i n. replicate n (word_of_nat i)), ah_int = (\<lambda>i n. i mod n),
     ah_sha256 = (\<lambda>s. s), ah_hmac = (\<lambda>key m. take 20 (m @ key @ replicate 20 0)), ah_sign = demo_sign, ah_verify = demo_verify,
     ah_twilioConfigured = True, ah_twilio = (\<lambda>_ _ _. None), ah_production = True, ah_jwtExpiresIn = ''7d'',
     ah_challengeExpiresIn = ''5m''\<rparr>"

lemma takeWhile_marks: "takeWhile (\<lambda>c. c = x) (replicate n x @ y # ys) = replicate n x" if "y \<noteq> x"
  using that by (induction n) simp_all

lemma demo_jwt: "jwt_accepts demo_host"
  by (auto simp: jwt_accepts_def demo_host_def demo_sign_def demo_verify_def takeWhile_marks Let_def split: option.split)

definition demo_key :: string where
  "demo_key = CHR ''G'' # replicate 55 CHR ''A''"

definition demo_user :: user_row where
  "demo_user = new_user\<lparr>ur_enabled := True, ur_method := Some ''sms'', ur_backupCodes := Some [''ABCDE01234'', ''FFFFF00000'']\<rparr>"

definition demo_db :: auth_db where
  "demo_db = \<lparr>ad_users = [(demo_key, demo_user)], ad_now = 60000, ad_ops = 0, ad_draws = 0, ad_sent = []\<rparr>"

definition demo_sign_in :: token_request where
  "demo_sign_in = \<lparr>tq_publicKey = demo_key, tq_pendingToken = Some (generate_challenge demo_host demo_key 60000),
     tq_totpCode = None, tq_smsCode = None, tq_backupCode = Some ''abcde-01234'', tq_method = Some ''backup''\<rparr>"

theorem public_key_suffices_witness:
  "\<exists>token s'. post_token demo_host \<lparr>tq_publicKey = demo_key, tq_pendingToken = None, tq_totpCode = None, tq_smsCode = None,
      tq_backupCode = None, tq_method = None\<rparr> (demo_db\<lparr>ad_users := []\<rparr>) = (Inr (Issued token False), s')
    \<and> check_bearer demo_host (Some (''Bearer '' @ token)) 60000 = Inr demo_key"
proof -
  have "stellar_public_key demo_key" by code_simp
  moreover have "\<not> ah_fails demo_host n" for n by (simp add: demo_host_def)
  ultimately show ?thesis
    using public_key_suffices [of demo_key "demo_db\<lparr>ad_users := []\<rparr>" demo_host] demo_jwt by (simp add: demo_db_def)
qed

lemma demo_accepted: "post_token demo_host demo_sign_in demo_db =
    (Inr (Issued (generate_token demo_host demo_key True 60000) True), snd (post_token demo_host demo_sign_in demo_db))"
  by code_simp

theorem second_factor_enforced_witness:
  "fst (post_token demo_host demo_sign_in demo_db) = Inr (Issued (generate_token demo_host demo_key True 60000) True)
    \<and> factor_presented demo_host demo_user demo_sign_in 60000 ''backup''"
proof
  show "fst (post_token demo_host demo_sign_in demo_db) = Inr (Issued (generate_token demo_host demo_key True 60000) True)"
    by (metis demo_accepted fst_conv)
  have "js_get (ad_users demo_db) (tq_publicKey demo_sign_in) = Some demo_user" "ur_enabled demo_user" "ad_now demo_db = 60000"
    "tq_method demo_sign_in = Some ''backup''"
    by (simp_all add: demo_db_def demo_sign_in_def demo_user_def)
  then show "factor_presented demo_host demo_user demo_sign_in 60000 ''backup''"
    using second_factor_enforced [OF demo_accepted] by simp
qed

lemma demo_verified: "verify_backup_code demo_host demo_key ''abcde-01234'' demo_db =
    (Inr True, snd (verify_backup_code demo_host demo_key ''abcde-01234'' demo_db))"
  by code_simp

theorem backup_code_once_witness:
  "fst (verify_backup_code demo_host demo_key ''ABCDE-01234''
     (fold (auth_run demo_host) [PostToken demo_sign_in, TimePasses 5, Recover demo_key ''fffff-00000'']
       (snd (verify_backup_code demo_host demo_key ''abcde-01234'' demo_db)))) \<noteq> Inr True"
proof (rule backup_code_once [OF demo_verified])
  show "hash_code demo_host ''ABCDE-01234'' = hash_code demo_host ''abcde-01234''" by code_simp
qed (simp_all add: demo_db_def demo_user_def)

theorem fresh_code_accepted_witness:
  "\<exists>code. totp_generate demo_host (base32_encode [1, 2, 3]) 60000 = Inr code \<and> six_digits code \<and>
    totp_verify demo_host (base32_encode [1, 2, 3]) code 95000 = Inr True"
  by (rule fresh_code_accepted) (simp_all add: time_counter_def)

theorem sms_account_cannot_disable_witness:
  "fst (disable_two_factor demo_host (Some (''Bearer '' @ generate_token demo_host demo_key True 60000)) ''123456'' demo_db)
    \<noteq> Inr TwoFactorDisabled"
proof -
  let ?h = "Some (''Bearer '' @ generate_token demo_host demo_key True 60000)"
  have "check_bearer demo_host ?h (ad_now demo_db) = Inr demo_key"
    using demo_jwt by (simp add: check_bearer_def js_starts_def verify_token_def generate_token_def jwt_accepts_def demo_db_def)
  moreover have "js_get (ad_users demo_db) demo_key = Some demo_user" by (simp add: demo_db_def)
  ultimately show ?thesis
    using sms_account_cannot_disable [of demo_db demo_key demo_user] by (simp add: demo_user_def new_user_def)
qed

end
