(* ===== verification/AuthSession.thy ===== *)
theory AuthSession
  imports JsPrelude "HOL-Library.Word"
begin

text \<open>
  Signing in from the browser: \<open>frontend/src/services/authService.ts\<close>, the wallets it asks
  (\<open>utils/freighter.ts\<close>, \<open>utils/lobstr.ts\<close>) and the store on top of it, \<open>hooks/useAuth.ts\<close>.

  The browser is a state with its two storages, clock, timers and listeners. A stored text that is the JSON of a
  stored session or of a device list is kept as that value, so parsing back what was printed is exact; any
  other text fails to parse. Times are milliseconds. The key derivation, AES-GCM and the random source are
  functions of the host.
\<close>

section \<open>Data\<close>

datatype wallet_provider = Freighter | Albedo | Xbull | Lobstr

datatype stellar_network = Testnet | Mainnet

record auth_session =
  se_address :: string
  se_provider :: wallet_provider
  se_network :: stellar_network
  se_createdAt :: int
  se_expiresAt :: int
  se_token :: string
  se_refreshToken :: string
  se_rememberMe :: bool
  se_twoFactorEnabled :: bool

record stored_session =
  ss_payload :: string
  ss_iv :: string
  ss_lastActivity :: int
  ss_deviceId :: string

record session_config =
  sc_sessionDuration :: int
  sc_rememberMeDuration :: int
  sc_idleTimeout :: int
  sc_checkInterval :: int
  sc_storagePrefix :: string

definition default_session_config :: session_config where
  "default_session_config = \<lparr>sc_sessionDuration = 30 * 60 * 1000, sc_rememberMeDuration = 7 * 24 * 60 * 60 * 1000,
     sc_idleTimeout = 15 * 60 * 1000, sc_checkInterval = 60 * 1000, sc_storagePrefix = ''ajo_auth''\<rparr>"

record token_pair =
  tp_token :: string
  tp_refreshToken :: string
  tp_expiresAt :: int

record wallet_result =
  wr_address :: string
  wr_signature :: string
  wr_network :: stellar_network

datatype storage_item = Text string | SessionJson stored_session | DevicesJson "string list"

text \<open>\<open>br_draws\<close> counts the calls of the random source; \<open>br_device\<close> are the properties \<open>getDeviceId\<close> joins.\<close>

record auth_browser =
  br_local :: "(string, storage_item) jsmap"
  br_session :: "(string, storage_item) jsmap"
  br_now :: int
  br_draws :: nat
  br_device :: "string list"
  br_heartbeat :: bool
  br_checkTimer :: bool
  br_listeners :: nat

record 'k auth_lib =
  al_config :: session_config
  al_random :: "nat \<Rightarrow> nat \<Rightarrow> 8 word list"
  al_deriveKey :: "string \<Rightarrow> string \<Rightarrow> nat \<Rightarrow> 'k"
  al_seal :: "'k \<Rightarrow> 8 word list \<Rightarrow> auth_session \<Rightarrow> 8 word list"
  al_open :: "'k \<Rightarrow> 8 word list \<Rightarrow> 8 word list \<Rightarrow> auth_session option"

section \<open>Hexadecimal text\<close>

definition hex_alphabet :: string where
  "hex_alphabet = ''0123456789abcdef''"

definition byte_hex :: "8 word \<Rightarrow> string" where
  "byte_hex b = [hex_alphabet ! (unat b div 16), hex_alphabet ! (unat b mod 16)]"

definition to_hex :: "8 word list \<Rightarrow> string" where
  "to_hex bytes = concat (map byte_hex bytes)"

definition hex_value :: "char \<Rightarrow> nat option" where
  "hex_value c = (let n = (of_char c :: nat) in
     if 48 \<le> n \<and> n \<le> 57 then Some (n - 48) else if 97 \<le> n \<and> n \<le> 102 then Some (n - 87)
     else if 65 \<le> n \<and> n \<le> 70 then Some (n - 55) else None)"

text \<open>\<open>parseInt(chunk, 16)\<close> into a byte array: the leading digits count, \<open>NaN\<close> is stored as 0. Signs and
  white space, which \<open>toString(16)\<close> never prints, are left out.\<close>

fun parse_byte :: "string \<Rightarrow> nat" where
  "parse_byte [] = 0"
| "parse_byte [c] = (case hex_value c of None \<Rightarrow> 0 | Some n \<Rightarrow> n)"
| "parse_byte (c # d # _) =
     (case hex_value c of None \<Rightarrow> 0
      | Some n \<Rightarrow> (case hex_value d of None \<Rightarrow> n | Some m \<Rightarrow> 16 * n + m))"

fun byte_chunks :: "string \<Rightarrow> 8 word list" where
  "byte_chunks [] = []"
| "byte_chunks [c] = [word_of_nat (parse_byte [c])]"
| "byte_chunks (c # d # rest) = word_of_nat (parse_byte [c, d]) # byte_chunks rest"

text \<open>\<open>text.match(/.{1,2}/g)!.map(...)\<close>: no match is a \<open>TypeError\<close>.\<close>

definition from_hex :: "string \<Rightarrow> 8 word list option" where
  "from_hex s = (if s = [] then None else Some (byte_chunks s))"

section \<open>Keys, encryption, devices\<close>

type_synonym 'a browser_step = "auth_browser \<Rightarrow> 'a \<times> auth_browser"

definition random_bytes :: "'k auth_lib \<Rightarrow> nat \<Rightarrow> 8 word list browser_step" where
  "random_bytes L n b = (al_random L n (br_draws b), b\<lparr>br_draws := Suc (br_draws b)\<rparr>)"

definition make_token :: "'k auth_lib \<Rightarrow> nat \<Rightarrow> string browser_step" where
  "make_token L n b = (case random_bytes L n b of (bytes, b') \<Rightarrow> (to_hex bytes, b'))"

definition derive_key :: "'k auth_lib \<Rightarrow> string \<Rightarrow> 'k" where
  "derive_key L passphrase = al_deriveKey L passphrase ''soroban-ajo-v1'' 100000"

definition encrypt :: "'k auth_lib \<Rightarrow> auth_session \<Rightarrow> string \<Rightarrow> (string \<times> string) browser_step" where
  "encrypt L plain passphrase b =
     (case random_bytes L 12 b of (iv, b') \<Rightarrow>
        ((to_hex (al_seal L (derive_key L passphrase) iv plain), to_hex iv), b'))"

definition decrypt :: "'k auth_lib \<Rightarrow> string \<Rightarrow> string \<Rightarrow> string \<Rightarrow> auth_session option" where
  "decrypt L payload iv passphrase =
     (case (from_hex payload, from_hex iv) of
        (Some cipher, Some ivBytes) \<Rightarrow> al_open L (derive_key L passphrase) ivBytes cipher
      | _ \<Rightarrow> None)"

fun join_with :: "string \<Rightarrow> string list \<Rightarrow> string" where
  "join_with sep [] = []"
| "join_with sep [x] = x"
| "join_with sep (x # y # xs) = x @ sep @ join_with sep (y # xs)"

definition device_hash_step :: "32 word \<Rightarrow> char \<Rightarrow> 32 word" where
  "device_hash_step hash c = push_bit 5 hash - hash + word_of_nat (of_char c)"

text \<open>\<open>toString(36)\<close>.\<close>

definition digit36 :: "nat \<Rightarrow> char" where
  "digit36 n = ''0123456789abcdefghijklmnopqrstuvwxyz'' ! n"

fun to_base36 :: "nat \<Rightarrow> string" where
  "to_base36 n = (if n < 36 then [digit36 n] else to_base36 (n div 36) @ [digit36 (n mod 36)])"

declare to_base36.simps [simp del]

definition get_device_id :: "string list \<Rightarrow> string" where
  "get_device_id parts = to_base36 (nat \<bar>sint (foldl device_hash_step 0 (join_with ''|'' parts))\<bar>)"

definition valid_address :: "string \<Rightarrow> bool" where
  "valid_address s \<longleftrightarrow>
     (case s of [] \<Rightarrow> False
      | c # rest \<Rightarrow> c = CHR ''G'' \<and> length rest = 55 \<and>
          list_all (\<lambda>c. let n = (of_char c :: nat) in 65 \<le> n \<and> n \<le> 90 \<or> 50 \<le> n \<and> n \<le> 55) rest)"

section \<open>Sessions\<close>

definition session_key :: "'k auth_lib \<Rightarrow> string \<Rightarrow> string" where
  "session_key L suffix = sc_storagePrefix (al_config L) @ ''_'' @ suffix"

definition generate_token_pair :: "'k auth_lib \<Rightarrow> bool \<Rightarrow> token_pair browser_step" where
  "generate_token_pair L rememberMe b =
     (case make_token L 64 b of (token, b1) \<Rightarrow>
        (case make_token L 64 b1 of (refresh, b2) \<Rightarrow>
           (\<lparr>tp_token = token, tp_refreshToken = refresh,
             tp_expiresAt = br_now b + (if rememberMe then sc_rememberMeDuration (al_config L) else sc_sessionDuration (al_config L))\<rparr>, b2)))"

definition create_session :: "wallet_result \<Rightarrow> token_pair \<Rightarrow> bool \<Rightarrow> wallet_provider \<Rightarrow> bool \<Rightarrow> int \<Rightarrow> auth_session" where
  "create_session wallet tokens rememberMe provider twoFactorEnabled now =
     \<lparr>se_address = wr_address wallet, se_provider = provider, se_network = wr_network wallet, se_createdAt = now,
      se_expiresAt = tp_expiresAt tokens, se_token = tp_token tokens, se_refreshToken = tp_refreshToken tokens,
      se_rememberMe = rememberMe, se_twoFactorEnabled = twoFactorEnabled\<rparr>"

definition get_text :: "(string, storage_item) jsmap \<Rightarrow> string \<Rightarrow> string option" where
  "get_text m k = (case js_get m k of Some (Text s) \<Rightarrow> Some s | _ \<Rightarrow> None)"

definition set_local :: "string \<Rightarrow> storage_item \<Rightarrow> auth_browser \<Rightarrow> auth_browser" where
  "set_local k v b = b\<lparr>br_local := js_set k v (br_local b)\<rparr>"

definition set_stored :: "bool \<Rightarrow> string \<Rightarrow> storage_item \<Rightarrow> auth_browser \<Rightarrow> auth_browser" where
  "set_stored inLocal k v b = (if inLocal then set_local k v b else b\<lparr>br_session := js_set k v (br_session b)\<rparr>)"

definition register_device :: "'k auth_lib \<Rightarrow> string \<Rightarrow> string \<Rightarrow> auth_browser \<Rightarrow> auth_browser" where
  "register_device L address deviceId b =
     (let key = session_key L (''devices_'' @ address)
      in case js_get (br_local b) key of
           None \<Rightarrow> set_local key (DevicesJson [deviceId]) b
         | Some (DevicesJson existing) \<Rightarrow>
             if deviceId \<in> set existing then b else set_local key (DevicesJson (existing @ [deviceId])) b
         | Some _ \<Rightarrow> set_local key (DevicesJson [deviceId]) b)"

definition save_session :: "'k auth_lib \<Rightarrow> auth_session \<Rightarrow> auth_browser \<Rightarrow> auth_browser" where
  "save_session L session b =
     (let hint = take 8 (se_token session)
      in case encrypt L session (se_address session @ hint) b of ((payload, iv), b1) \<Rightarrow>
           (let stored = \<lparr>ss_payload = payload, ss_iv = iv, ss_lastActivity = br_now b1, ss_deviceId = get_device_id (br_device b1)\<rparr>;
                b2 = set_stored (se_rememberMe session) (session_key L ''session'') (SessionJson stored) b1;
                b3 = set_local (session_key L ''address'') (Text (se_address session)) b2;
                b4 = set_local (session_key L ''token_hint'') (Text hint) b3;
                b5 = set_local (session_key L ''storage_type'') (Text (if se_rememberMe session then ''local'' else ''session'')) b4;
                b6 = set_local ''token'' (Text (se_token session)) b5
            in register_device L (se_address session) (get_device_id (br_device b6)) b6))"

definition session_suffixes :: "string list" where
  "session_suffixes = [''session'', ''address'', ''token_hint'', ''storage_type'']"

definition clear_stored_session :: "'k auth_lib \<Rightarrow> auth_browser \<Rightarrow> auth_browser" where
  "clear_stored_session L b =
     (let keys = map (session_key L) session_suffixes;
          b' = fold (\<lambda>k b. b\<lparr>br_local := js_del k (br_local b), br_session := js_del k (br_session b)\<rparr>) keys b
      in b'\<lparr>br_local := js_del ''token'' (br_local b')\<rparr>)"

definition stored_item :: "'k auth_lib \<Rightarrow> auth_browser \<Rightarrow> storage_item option" where
  "stored_item L b =
     js_get (if get_text (br_local b) (session_key L ''storage_type'') = Some ''local'' then br_local b else br_session b)
       (session_key L ''session'')"

definition session_live :: "'k auth_lib \<Rightarrow> stored_session \<Rightarrow> auth_session \<Rightarrow> auth_browser \<Rightarrow> bool" where
  "session_live L stored session b \<longleftrightarrow>
     \<not> se_expiresAt session < br_now b \<and> ss_deviceId stored = get_device_id (br_device b)"

text \<open>Every failure past the first two tests wipes the storage.\<close>

definition load_session :: "'k auth_lib \<Rightarrow> auth_session option browser_step" where
  "load_session L b =
     (case (truthy (get_text (br_local b) (session_key L ''address'')), truthy (get_text (br_local b) (session_key L ''token_hint''))) of
        (Some address, Some tokenHint) \<Rightarrow>
          (case stored_item L b of
             None \<Rightarrow> (None, b)
           | Some (SessionJson stored) \<Rightarrow>
               if br_now b - ss_lastActivity stored > sc_idleTimeout (al_config L) then (None, clear_stored_session L b)
               else (case decrypt L (ss_payload stored) (ss_iv stored) (address @ tokenHint) of
                       None \<Rightarrow> (None, clear_stored_session L b)
                     | Some session \<Rightarrow>
                         if session_live L stored session b then (Some session, b) else (None, clear_stored_session L b))
           | Some (Text raw) \<Rightarrow> if raw = [] then (None, b) else (None, clear_stored_session L b)
           | Some (DevicesJson _) \<Rightarrow> (None, clear_stored_session L b))
      | _ \<Rightarrow> (None, b))"

definition touch_session :: "'k auth_lib \<Rightarrow> auth_browser \<Rightarrow> auth_browser" where
  "touch_session L b =
     (case stored_item L b of
        Some (SessionJson stored) \<Rightarrow>
          set_stored (get_text (br_local b) (session_key L ''storage_type'') = Some ''local'') (session_key L ''session'')
            (SessionJson (stored\<lparr>ss_lastActivity := br_now b\<rparr>)) b
      | _ \<Rightarrow> b)"

definition refresh_session :: "'k auth_lib \<Rightarrow> auth_session \<Rightarrow> auth_session option browser_step" where
  "refresh_session L current b =
     (if se_refreshToken current = [] then (None, b)
      else case generate_token_pair L (se_rememberMe current) b of (new, b1) \<Rightarrow>
        (let refreshed = current\<lparr>se_token := tp_token new, se_refreshToken := tp_refreshToken new, se_expiresAt := tp_expiresAt new\<rparr>
         in (Some refreshed, save_session L refreshed b1)))"

definition logout_all_devices :: "'k auth_lib \<Rightarrow> string \<Rightarrow> auth_browser \<Rightarrow> auth_browser" where
  "logout_all_devices L address b =
     clear_stored_session L (b\<lparr>br_local := js_del (session_key L (''devices_'' @ address)) (br_local b)\<rparr>)"

section \<open>Monitoring\<close>

definition stop_monitoring :: "auth_browser \<Rightarrow> auth_browser" where
  "stop_monitoring b = b\<lparr>br_heartbeat := False, br_checkTimer := False\<rparr>"

text \<open>Four activity listeners are added each time.\<close>

definition start_monitoring :: "auth_browser \<Rightarrow> auth_browser" where
  "start_monitoring b = (let b' = stop_monitoring b in b'\<lparr>br_listeners := br_listeners b' + 4, br_checkTimer := True, br_heartbeat := True\<rparr>)"

text \<open>The callback of the check timer; the first component says whether \<open>onExpired\<close> is called.\<close>

definition check_tick :: "'k auth_lib \<Rightarrow> bool browser_step" where
  "check_tick L b = (case load_session L b of (None, b') \<Rightarrow> (True, stop_monitoring b') | (Some _, b') \<Rightarrow> (False, b'))"

text \<open>One activity event: every attached listener touches the session.\<close>

definition user_activity :: "'k auth_lib \<Rightarrow> auth_browser \<Rightarrow> auth_browser" where
  "user_activity L b = (if br_listeners b = 0 then b else touch_session L b)"


section \<open>Wallets\<close>

datatype auth_failure =
    WalletNotFound | InvalidAddress | MobileFlowRequired | VaultNotFound | ComingSoon wallet_provider
  | AuthApiError string | NoPendingTwoFactor | TwoFactorRequired | OtherError string

text \<open>A thrown error's message is a string; a method that may be missing is an option.\<close>

record freighter_api =
  fa_isAllowed :: "(string + bool) option"
  fa_setAllowed :: "(string + unit) option"
  fa_getPublicKey :: "string + string"
  fa_networkName :: "(string + string option) option"
  fa_signAuthEntry :: "(string \<Rightarrow> string + string) option"

record lobstr_api =
  la_getPublicKey :: "string + string"
  la_getNetwork :: "(string + string) option"

datatype api_outcome = ApiErrorThrown string | OtherThrown string | ReplyTwoFactor string | ReplyToken string bool

text \<open>\<open>wh_polls\<close>: what the polls for Freighter find, with the time since the first.\<close>

record wallet_host =
  wh_polls :: "(int \<times> freighter_api option) list"
  wh_userAgent :: string
  wh_lobstrVault :: "lobstr_api option"
  wh_lobstr :: "lobstr_api option"
  wh_backend :: "string \<Rightarrow> string option \<Rightarrow> string option \<Rightarrow> api_outcome"

fun wait_for_freighter_api :: "int \<Rightarrow> (int \<times> freighter_api option) list \<Rightarrow> freighter_api option" where
  "wait_for_freighter_api timeoutMs [] = None"
| "wait_for_freighter_api timeoutMs ((elapsed, api) # polls) =
     (if elapsed \<le> timeoutMs
      then (case api of Some a \<Rightarrow> Some a | None \<Rightarrow> wait_for_freighter_api timeoutMs polls)
      else None)"

definition ensure_freighter_allowed :: "freighter_api \<Rightarrow> string + unit" where
  "ensure_freighter_allowed api =
     (case (fa_isAllowed api, fa_setAllowed api) of
        (Some isAllowed, Some setAllowed) \<Rightarrow>
          (case isAllowed of Inl e \<Rightarrow> Inl e | Inr allowed \<Rightarrow> if allowed then Inr () else setAllowed)
      | _ \<Rightarrow> Inr ())"

definition network_from_freighter :: "string option \<Rightarrow> string" where
  "network_from_freighter net =
     (if net = Some ''PUBLIC'' then ''mainnet'' else if net = Some ''FUTURENET'' then ''futurenet'' else ''testnet'')"

definition freighter_signature :: "freighter_api \<Rightarrow> string \<Rightarrow> string" where
  "freighter_signature api challenge =
     (case fa_signAuthEntry api of
        None \<Rightarrow> challenge
      | Some sign \<Rightarrow> (case sign challenge of Inl _ \<Rightarrow> challenge | Inr signature \<Rightarrow> signature))"

definition connect_freighter :: "freighter_api \<Rightarrow> string \<Rightarrow> auth_failure + wallet_result" where
  "connect_freighter api challenge =
     (case ensure_freighter_allowed api of Inl e \<Rightarrow> Inl (OtherError e) | Inr _ \<Rightarrow>
      (case fa_getPublicKey api of Inl e \<Rightarrow> Inl (OtherError e) | Inr address \<Rightarrow>
       (if \<not> valid_address address then Inl InvalidAddress
        else case (case fa_networkName api of None \<Rightarrow> Inr None | Some r \<Rightarrow> r) of
          Inl e \<Rightarrow> Inl (OtherError e)
        | Inr net \<Rightarrow> Inr \<lparr>wr_address = address, wr_signature = freighter_signature api challenge,
            wr_network = (if network_from_freighter net = ''mainnet'' then Mainnet else Testnet)\<rparr>)))"

definition lower_ascii :: "char \<Rightarrow> char" where
  "lower_ascii c = (let n = (of_char c :: nat) in if 65 \<le> n \<and> n \<le> 90 then char_of (n + 32) else c)"

definition is_mobile_device :: "string \<Rightarrow> bool" where
  "is_mobile_device userAgent \<longleftrightarrow>
     list_ex (\<lambda>w. js_includes w (map lower_ascii userAgent))
       [''android'', ''webos'', ''iphone'', ''ipad'', ''ipod'', ''blackberry'', ''iemobile'', ''opera mini'']"

definition lobstr_network :: "lobstr_api \<Rightarrow> stellar_network" where
  "lobstr_network wallet =
     (case la_getNetwork wallet of
        Some (Inr name) \<Rightarrow> if js_includes ''test'' (map lower_ascii name) then Testnet else Mainnet
      | _ \<Rightarrow> Mainnet)"

definition connect_lobstr_vault :: "wallet_host \<Rightarrow> string + (string \<times> stellar_network)" where
  "connect_lobstr_vault W =
     (case (case wh_lobstrVault W of Some v \<Rightarrow> Some v | None \<Rightarrow> wh_lobstr W) of
        None \<Rightarrow> Inl ''LOBSTR wallet not found. Please install LOBSTR app, Lobstr Vault extension, or use Freighter wallet.''
      | Some wallet \<Rightarrow>
          (case la_getPublicKey wallet of
             Inl e \<Rightarrow> Inl (''LOBSTR wallet connection failed: '' @ e)
           | Inr address \<Rightarrow>
               if address = [] then Inl ''LOBSTR wallet connection failed: Failed to get address from LOBSTR wallet''
               else Inr (address, lobstr_network wallet)))"

definition connect_lobstr :: "wallet_host \<Rightarrow> string \<Rightarrow> auth_failure + wallet_result" where
  "connect_lobstr W challenge =
     (if is_mobile_device (wh_userAgent W) then Inl MobileFlowRequired
      else case connect_lobstr_vault W of
        Inl _ \<Rightarrow> Inl VaultNotFound
      | Inr (address, network) \<Rightarrow>
          if \<not> valid_address address then Inl InvalidAddress
          else Inr \<lparr>wr_address = address, wr_signature = challenge, wr_network = network\<rparr>)"

definition request_wallet_signature ::
  "'k auth_lib \<Rightarrow> wallet_host \<Rightarrow> wallet_provider \<Rightarrow> (auth_failure + wallet_result) browser_step" where
  "request_wallet_signature L W provider b =
     (case make_token L 16 b of (tok, b') \<Rightarrow>
        let challenge = ''soroban-ajo-auth-'' @ show_int (br_now b) @ ''-'' @ tok
        in ((case provider of
               Freighter \<Rightarrow>
                 (case wait_for_freighter_api 3000 (wh_polls W) of
                    None \<Rightarrow> Inl WalletNotFound
                  | Some api \<Rightarrow> connect_freighter api challenge)
             | Lobstr \<Rightarrow> connect_lobstr W challenge
             | other \<Rightarrow> Inl (ComingSoon other)), b'))"

text \<open>An \<open>ApiError\<close> becomes an \<open>AuthError\<close>; \<open>ReplyTwoFactor\<close> and \<open>ReplyToken\<close> are the two bodies.\<close>

definition request_backend_token :: "wallet_host \<Rightarrow> string \<Rightarrow> string option \<Rightarrow> string option \<Rightarrow> auth_failure + api_outcome" where
  "request_backend_token W publicKey pendingToken totpCode =
     (case wh_backend W publicKey pendingToken totpCode of
        ApiErrorThrown m \<Rightarrow> Inl (AuthApiError m)
      | OtherThrown m \<Rightarrow> Inl (OtherError m)
      | reply \<Rightarrow> Inr reply)"

section \<open>The store\<close>

record two_factor_challenge =
  tc_address :: string
  tc_provider :: wallet_provider
  tc_network :: stellar_network
  tc_rememberMe :: bool
  tc_pendingToken :: string

datatype shown_error = ShownAuthError auth_failure | ConnectFailed | VerifyFailed

record auth_store =
  st_isAuthenticated :: bool
  st_isLoading :: bool
  st_address :: "string option"
  st_network :: stellar_network
  st_provider :: "wallet_provider option"
  st_session :: "auth_session option"
  st_pending :: "two_factor_challenge option"
  st_error :: "shown_error option"

record auth_app =
  ap_store :: auth_store
  ap_browser :: auth_browser

type_synonym 'a app_method = "(auth_app, auth_failure, 'a) js_method"

definition shown :: "shown_error \<Rightarrow> auth_failure \<Rightarrow> shown_error" where
  "shown generic e = (case e of OtherError _ \<Rightarrow> generic | _ \<Rightarrow> ShownAuthError e)"

definition initial_store :: auth_store where
  "initial_store = \<lparr>st_isAuthenticated = False, st_isLoading = False, st_address = None, st_network = Testnet,
     st_provider = None, st_session = None, st_pending = None, st_error = None\<rparr>"

definition start_loading :: "auth_store \<Rightarrow> auth_store" where
  "start_loading st = st\<lparr>st_isLoading := True, st_error := None\<rparr>"

text \<open>The fields that every sign-out, failure and cancellation resets.\<close>

definition signed_out :: "auth_store \<Rightarrow> auth_store" where
  "signed_out st = st\<lparr>st_isAuthenticated := False, st_isLoading := False, st_address := None, st_provider := None,
     st_session := None, st_pending := None\<rparr>"

definition signed_in :: "auth_session \<Rightarrow> auth_store \<Rightarrow> auth_store" where
  "signed_in session st = st\<lparr>st_isAuthenticated := True, st_isLoading := False, st_address := Some (se_address session),
     st_network := se_network session, st_provider := Some (se_provider session), st_session := Some session,
     st_pending := None, st_error := None\<rparr>"

text \<open>Tokens, session and storage once the backend has answered with a token.\<close>

definition open_session ::
  "'k auth_lib \<Rightarrow> wallet_result \<Rightarrow> string \<Rightarrow> bool \<Rightarrow> wallet_provider \<Rightarrow> bool \<Rightarrow> auth_browser \<Rightarrow> auth_session \<times> auth_browser" where
  "open_session L wallet token rememberMe provider twoFactorEnabled b =
     (case generate_token_pair L rememberMe b of (tokens, b1) \<Rightarrow>
        let session = create_session wallet (tokens\<lparr>tp_token := token\<rparr>) rememberMe provider twoFactorEnabled (br_now b1)
        in (session, save_session L session b1))"

definition login_failed :: "auth_failure \<Rightarrow> auth_app \<Rightarrow> (auth_failure + unit) \<times> auth_app" where
  "login_failed e a = (Inl e, a\<lparr>ap_store := (signed_out (ap_store a))\<lparr>st_error := Some (shown ConnectFailed e)\<rparr>\<rparr>)"

definition login :: "'k auth_lib \<Rightarrow> wallet_host \<Rightarrow> wallet_provider \<Rightarrow> bool \<Rightarrow> unit app_method" where
  "login L W provider rememberMe a =
     (let st = start_loading (ap_store a)
      in case request_wallet_signature L W provider (ap_browser a) of
           (Inl e, b) \<Rightarrow> login_failed e \<lparr>ap_store = st, ap_browser = b\<rparr>
         | (Inr wallet, b) \<Rightarrow>
             (case request_backend_token W (wr_address wallet) None None of
                Inl e \<Rightarrow> login_failed e \<lparr>ap_store = st, ap_browser = b\<rparr>
              | Inr (ReplyToken token enabled) \<Rightarrow>
                  (case open_session L wallet token rememberMe provider enabled b of (session, b') \<Rightarrow>
                     (Inr (), \<lparr>ap_store = signed_in session st, ap_browser = b'\<rparr>))
              | Inr (ReplyTwoFactor pending) \<Rightarrow>
                  (Inr (), \<lparr>ap_store = st\<lparr>st_isAuthenticated := False, st_isLoading := False, st_address := Some (wr_address wallet),
                     st_network := wr_network wallet, st_provider := Some provider, st_session := None,
                     st_pending := Some \<lparr>tc_address = wr_address wallet, tc_provider = provider, tc_network = wr_network wallet,
                       tc_rememberMe = rememberMe, tc_pendingToken = pending\<rparr>, st_error := None\<rparr>, ap_browser = b\<rparr>)
              | Inr _ \<Rightarrow> (Inr (), \<lparr>ap_store = st, ap_browser = b\<rparr>)))"

definition verify_failed :: "auth_failure \<Rightarrow> auth_app \<Rightarrow> (auth_failure + unit) \<times> auth_app" where
  "verify_failed e a = (Inl e, a\<lparr>ap_store := (ap_store a)\<lparr>st_isLoading := False, st_error := Some (shown VerifyFailed e)\<rparr>\<rparr>)"

definition verify_two_factor :: "'k auth_lib \<Rightarrow> wallet_host \<Rightarrow> string \<Rightarrow> unit app_method" where
  "verify_two_factor L W totpCode a =
     (case st_pending (ap_store a) of
        None \<Rightarrow> (Inl NoPendingTwoFactor, a)
      | Some p \<Rightarrow>
          (let st = start_loading (ap_store a); a1 = a\<lparr>ap_store := st\<rparr>
           in case request_backend_token W (tc_address p) (Some (tc_pendingToken p)) (Some totpCode) of
                Inl e \<Rightarrow> verify_failed e a1
              | Inr (ReplyTwoFactor _) \<Rightarrow> verify_failed TwoFactorRequired a1
              | Inr (ReplyToken token enabled) \<Rightarrow>
                  (case open_session L \<lparr>wr_address = tc_address p, wr_signature = tc_pendingToken p, wr_network = tc_network p\<rparr>
                       token (tc_rememberMe p) (tc_provider p) enabled (ap_browser a1) of (session, b') \<Rightarrow>
                     (Inr (), \<lparr>ap_store = signed_in session st, ap_browser = b'\<rparr>))
              | Inr _ \<Rightarrow> (Inr (), a1)))"

definition cancel_two_factor :: "unit app_method" where
  "cancel_two_factor a = (Inr (), a\<lparr>ap_store := (signed_out (ap_store a))\<lparr>st_error := None\<rparr>\<rparr>)"

definition logout :: "'k auth_lib \<Rightarrow> unit app_method" where
  "logout L a = (Inr (), \<lparr>ap_store = (signed_out (ap_store a))\<lparr>st_error := None\<rparr>,
     ap_browser = clear_stored_session L (stop_monitoring (ap_browser a))\<rparr>)"

definition logout_everywhere :: "'k auth_lib \<Rightarrow> unit app_method" where
  "logout_everywhere L a =
     (let b = (case truthy (st_address (ap_store a)) of None \<Rightarrow> ap_browser a | Some address \<Rightarrow> logout_all_devices L address (ap_browser a))
      in (Inr (), \<lparr>ap_store = (signed_out (ap_store a))\<lparr>st_error := None\<rparr>, ap_browser = stop_monitoring b\<rparr>))"

definition refresh_store :: "'k auth_lib \<Rightarrow> bool app_method" where
  "refresh_store L a =
     (case st_session (ap_store a) of
        None \<Rightarrow> (Inr False, a)
      | Some session \<Rightarrow>
          (case refresh_session L session (ap_browser a) of
             (None, b) \<Rightarrow> (Inr False, snd (logout L (a\<lparr>ap_browser := b\<rparr>)))
           | (Some refreshed, b) \<Rightarrow>
               (Inr True, \<lparr>ap_store = (ap_store a)\<lparr>st_session := Some refreshed, st_error := None\<rparr>, ap_browser = b\<rparr>)))"

definition set_network :: "stellar_network \<Rightarrow> unit app_method" where
  "set_network network a = (Inr (), a\<lparr>ap_store := (ap_store a)\<lparr>st_network := network\<rparr>\<rparr>)"

definition set_remember_me :: "'k auth_lib \<Rightarrow> bool \<Rightarrow> unit app_method" where
  "set_remember_me L remember a =
     (case st_session (ap_store a) of
        None \<Rightarrow> (Inr (), a)
      | Some session \<Rightarrow>
          (let updated = session\<lparr>se_rememberMe := remember\<rparr>
           in (Inr (), \<lparr>ap_store = (ap_store a)\<lparr>st_session := Some updated\<rparr>, ap_browser = save_session L updated (ap_browser a)\<rparr>)))"

definition clear_error :: "unit app_method" where
  "clear_error a = (Inr (), a\<lparr>ap_store := (ap_store a)\<lparr>st_error := None\<rparr>\<rparr>)"

definition check_session :: "'k auth_lib \<Rightarrow> unit app_method" where
  "check_session L a =
     (case load_session L (ap_browser a) of
        (Some session, b) \<Rightarrow> (Inr (), \<lparr>ap_store = signed_in session (ap_store a), ap_browser = b\<rparr>)
      | (None, b) \<Rightarrow> (Inr (), \<lparr>ap_store = signed_out (ap_store a), ap_browser = b\<rparr>))"


section \<open>The stored session as an abstract state\<close>

lemma hex_value_digit: "i < 16 \<Longrightarrow> hex_value (hex_alphabet ! i) = Some i"
proof -
  have "\<forall>i \<in> set [0..<16]. hex_value (hex_alphabet ! i) = Some i" by code_simp
  then show "i < 16 \<Longrightarrow> ?thesis" by simp
qed

lemma parse_byte_hex: "word_of_nat (parse_byte (byte_hex b)) = b"
proof -
  have "unat b < 2 ^ LENGTH(8)" by (rule unsigned_less)
  then have "unat b div 16 < 16" by simp
  then have "parse_byte (byte_hex b) = 16 * (unat b div 16) + unat b mod 16"
    by (simp add: byte_hex_def hex_value_digit)
  then have "parse_byte (byte_hex b) = unat b" by (simp only: mult_div_mod_eq)
  then show ?thesis by simp
qed

lemma byte_chunks_hex: "byte_chunks (byte_hex b @ s) = b # byte_chunks s"
  using parse_byte_hex [of b] by (simp add: byte_hex_def)

lemma from_to_hex: "bytes \<noteq> [] \<Longrightarrow> from_hex (to_hex bytes) = Some bytes"
proof -
  have "byte_chunks (to_hex bytes) = bytes"
    by (induction bytes) (simp_all add: to_hex_def byte_chunks_hex)
  moreover assume "bytes \<noteq> []"
  then have "to_hex bytes \<noteq> []" by (cases bytes) (simp_all add: to_hex_def byte_hex_def)
  ultimately show ?thesis by (simp add: from_hex_def)
qed

text \<open>AES-GCM opens what it sealed, a ciphertext holds at least its tag, and the random source gives the bytes asked for.\<close>

definition auth_lib_laws :: "'k auth_lib \<Rightarrow> bool" where
  "auth_lib_laws L \<longleftrightarrow>
     (\<forall>k iv p. al_open L k iv (al_seal L k iv p) = Some p) \<and> (\<forall>k iv p. al_seal L k iv p \<noteq> []) \<and>
     (\<forall>n d. length (al_random L n d) = n)"

lemma auth_lib_lawsD:
  assumes "auth_lib_laws L"
  shows "al_open L k iv (al_seal L k iv p) = Some p" "al_seal L k iv p \<noteq> []" "length (al_random L n d) = n"
  using assms by (simp_all add: auth_lib_laws_def)

text \<open>Session, last activity and device: what the storage stands for.\<close>

type_synonym kept_session = "(auth_session \<times> int \<times> string) option"

text \<open>\<open>storage_holds L b k\<close>: the two storages of \<open>b\<close> are those of the kept session \<open>k\<close>.\<close>

fun storage_holds :: "'k auth_lib \<Rightarrow> auth_browser \<Rightarrow> kept_session \<Rightarrow> bool" where
  "storage_holds L b None \<longleftrightarrow> get_text (br_local b) (session_key L ''address'') = None"
| "storage_holds L b (Some (session, seen, device)) \<longleftrightarrow>
     get_text (br_local b) (session_key L ''address'') = Some (se_address session) \<and>
     get_text (br_local b) (session_key L ''token_hint'') = Some (take 8 (se_token session)) \<and>
     (get_text (br_local b) (session_key L ''storage_type'') = Some ''local'') = se_rememberMe session \<and>
     se_address session \<noteq> [] \<and> se_token session \<noteq> [] \<and>
     (\<exists>stored. stored_item L b = Some (SessionJson stored) \<and> ss_lastActivity stored = seen \<and> ss_deviceId stored = device \<and>
       decrypt L (ss_payload stored) (ss_iv stored) (se_address session @ take 8 (se_token session)) = Some session)"

definition kept_load :: "'k auth_lib \<Rightarrow> auth_browser \<Rightarrow> kept_session \<Rightarrow> auth_session option" where
  "kept_load L b k =
     (case k of
        None \<Rightarrow> None
      | Some (session, seen, device) \<Rightarrow>
          if br_now b - seen \<le> sc_idleTimeout (al_config L) \<and> br_now b \<le> se_expiresAt session \<and> device = get_device_id (br_device b)
          then Some session else None)"

definition kept_after_load :: "'k auth_lib \<Rightarrow> auth_browser \<Rightarrow> kept_session \<Rightarrow> kept_session" where
  "kept_after_load L b k = (if kept_load L b k = None then None else k)"

definition kept_touch :: "int \<Rightarrow> kept_session \<Rightarrow> kept_session" where
  "kept_touch now k = map_option (\<lambda>(session, seen, device). (session, now, device)) k"

lemma js_get_simps [simp]: "js_get (js_set k v m) k' = (if k' = k then Some v else js_get m k')"
  "js_get (js_del k m) k' = (if k' = k then None else js_get m k')"
  by (simp_all add: js_simps)

lemma session_key_eq [simp]: "session_key L x = session_key L y \<longleftrightarrow> x = y"
  by (simp add: session_key_def)

lemma token_key [simp]: "session_key L x \<noteq> ''token''" "''token'' \<noteq> session_key L x"
proof -
  have "CHR ''_'' \<in> set (session_key L x)" "CHR ''_'' \<notin> set ''token''" by (simp_all add: session_key_def)
  then show "session_key L x \<noteq> ''token''" "''token'' \<noteq> session_key L x" by metis+
qed

lemma clear_removes:
  "k \<in> set session_suffixes \<Longrightarrow> js_get (br_local (clear_stored_session L b)) (session_key L k) = None"
  "k \<in> set session_suffixes \<Longrightarrow> js_get (br_session (clear_stored_session L b)) (session_key L k) = None"
  "js_get (br_local (clear_stored_session L b)) ''token'' = None"
  by (auto simp: clear_stored_session_def session_suffixes_def Let_def)

lemma clear_holds: "storage_holds L (clear_stored_session L b) None"
  using clear_removes(1) [of "''address''" L b] by (simp add: get_text_def session_suffixes_def)


lemma decrypt_encrypted:
  assumes "auth_lib_laws L" and "encrypt L plain passphrase b = ((payload, iv), b')"
  shows "decrypt L payload iv passphrase = Some plain"
proof -
  have "al_random L 12 (br_draws b) \<noteq> []" using auth_lib_lawsD(3) [OF assms(1), of 12] by (metis list.size(3) zero_neq_numeral)
  then show ?thesis
    using assms(2) auth_lib_lawsD(1,2) [OF assms(1)]
    by (auto simp: encrypt_def decrypt_def random_bytes_def from_to_hex)
qed

lemma register_device_frame:
  "js_get (br_local (register_device L address device b)) k =
     (if k = session_key L (''devices_'' @ address) then js_get (br_local (register_device L address device b)) k else js_get (br_local b) k)"
  "br_session (register_device L address device b) = br_session b"
  "br_now (register_device L address device b) = br_now b" "br_device (register_device L address device b) = br_device b"
  "br_listeners (register_device L address device b) = br_listeners b"
  by (auto simp: register_device_def set_local_def Let_def split: option.split storage_item.split)

lemma save_session_clock:
  "br_now (save_session L session b) = br_now b" "br_device (save_session L session b) = br_device b"
  by (auto simp: save_session_def encrypt_def random_bytes_def Let_def register_device_frame set_stored_def set_local_def split: prod.split)

lemma save_holds:
  assumes "auth_lib_laws L" and "se_address session \<noteq> []" and "se_token session \<noteq> []"
  shows "storage_holds L (save_session L session b) (Some (session, br_now b, get_device_id (br_device b)))"
proof -
  obtain payload iv b1 where e: "encrypt L session (se_address session @ take 8 (se_token session)) b = ((payload, iv), b1)"
    by (metis prod.exhaust)
  then have b1: "br_now b1 = br_now b" "br_device b1 = br_device b" by (auto simp: encrypt_def random_bytes_def)
  have d: "session_key L x \<noteq> session_key L (''devices_'' @ a)" if "x \<in> set session_suffixes" for x a
    using that by (auto simp: session_suffixes_def)
  show ?thesis
    using decrypt_encrypted [OF assms(1) e] assms(2,3) b1 d
    by (auto simp: save_session_def e Let_def get_text_def stored_item_def register_device_frame set_stored_def set_local_def
        session_suffixes_def)
qed

lemma touch_holds: "storage_holds L b k \<Longrightarrow> storage_holds L (touch_session L b) (kept_touch (br_now b) k)"
proof (cases k)
  case None
  assume "storage_holds L b k"
  then show ?thesis using None
    by (auto simp: touch_session_def kept_touch_def get_text_def set_stored_def set_local_def split: option.splits storage_item.splits)
next
  case (Some x)
  obtain session seen device where x: "x = (session, seen, device)" by (metis prod.exhaust)
  assume "storage_holds L b k"
  then show ?thesis
    by (auto simp: Some x touch_session_def kept_touch_def get_text_def stored_item_def set_stored_def set_local_def)
qed

lemma load_holds:
  assumes "storage_holds L b k"
  shows "fst (load_session L b) = kept_load L b k \<and> storage_holds L (snd (load_session L b)) (kept_after_load L b k)"
proof (cases k)
  case None
  then show ?thesis using assms by (simp add: load_session_def kept_load_def kept_after_load_def)
next
  case (Some x)
  obtain session seen device where x: "x = (session, seen, device)" by (metis prod.exhaust)
  obtain stored where "stored_item L b = Some (SessionJson stored)" "ss_lastActivity stored = seen" "ss_deviceId stored = device"
    "decrypt L (ss_payload stored) (ss_iv stored) (se_address session @ take 8 (se_token session)) = Some session"
    using assms by (auto simp: Some x)
  moreover have "take 8 (se_token session) \<noteq> []" using assms by (simp add: Some x)
  ultimately show ?thesis
    using assms clear_holds [of L b]
    by (auto simp: Some x load_session_def kept_load_def kept_after_load_def session_live_def)
qed

section \<open>Refinement\<close>

datatype session_op = Save auth_session | Touch | Load | Clear | LogoutAll string | Wait nat

definition idle :: "nat \<Rightarrow> auth_browser \<Rightarrow> auth_browser" where
  "idle n b = b\<lparr>br_now := br_now b + int n\<rparr>"

fun session_step :: "'k auth_lib \<Rightarrow> session_op \<Rightarrow> auth_session option browser_step" where
  "session_step L (Save session) b = (None, save_session L session b)"
| "session_step L Touch b = (None, touch_session L b)"
| "session_step L Load b = load_session L b"
| "session_step L Clear b = (None, clear_stored_session L b)"
| "session_step L (LogoutAll address) b = (None, logout_all_devices L address b)"
| "session_step L (Wait n) b = (None, idle n b)"

text \<open>The specification: one session at most, its last activity and its device, and a clock.\<close>

fun kept_step :: "'k auth_lib \<Rightarrow> string \<Rightarrow> session_op \<Rightarrow> kept_session \<times> int \<Rightarrow> auth_session option \<times> kept_session \<times> int" where
  "kept_step L device (Save session) (k, t) = (None, Some (session, t, device), t)"
| "kept_step L device Touch (k, t) = (None, kept_touch t k, t)"
| "kept_step L device Load (k, t) =
     (case k of None \<Rightarrow> (None, None, t)
      | Some (session, seen, d) \<Rightarrow>
          if t - seen \<le> sc_idleTimeout (al_config L) \<and> t \<le> se_expiresAt session \<and> d = device then (Some session, k, t) else (None, None, t))"
| "kept_step L device Clear (k, t) = (None, None, t)"
| "kept_step L device (LogoutAll address) (k, t) = (None, None, t)"
| "kept_step L device (Wait n) (k, t) = (None, k, t + int n)"

fun run_outputs :: "('op \<Rightarrow> 's \<Rightarrow> 'out \<times> 's) \<Rightarrow> 'op list \<Rightarrow> 's \<Rightarrow> 'out list" where
  "run_outputs step [] s = []"
| "run_outputs step (op # ops) s = (case step op s of (out, s') \<Rightarrow> out # run_outputs step ops s')"

fun session_op_ok :: "session_op \<Rightarrow> bool" where
  "session_op_ok (Save session) \<longleftrightarrow> se_address session \<noteq> [] \<and> se_token session \<noteq> []"
| "session_op_ok _ \<longleftrightarrow> True"

definition browser_refines :: "'k auth_lib \<Rightarrow> string \<Rightarrow> auth_browser \<Rightarrow> kept_session \<times> int \<Rightarrow> bool" where
  "browser_refines L device b a \<longleftrightarrow> storage_holds L b (fst a) \<and> br_now b = snd a \<and> get_device_id (br_device b) = device"

lemma clear_clock: "br_now (clear_stored_session L b) = br_now b" "br_device (clear_stored_session L b) = br_device b"
  by (simp_all add: clear_stored_session_def session_suffixes_def Let_def)

lemma load_clock: "br_now (snd (load_session L b)) = br_now b" "br_device (snd (load_session L b)) = br_device b"
  by (auto simp: load_session_def clear_clock split: option.split storage_item.split)

lemma touch_clock: "br_now (touch_session L b) = br_now b" "br_device (touch_session L b) = br_device b"
  by (auto simp: touch_session_def set_stored_def set_local_def split: option.split storage_item.split)

lemma idle_holds: "storage_holds L (idle n b) k = storage_holds L b k"
  by (cases k) (auto simp: idle_def stored_item_def)

lemma session_step_refines:
  assumes "auth_lib_laws L" and "session_op_ok op" and "browser_refines L device b a"
  shows "fst (session_step L op b) = fst (kept_step L device op a) \<and>
    browser_refines L device (snd (session_step L op b)) (snd (kept_step L device op a))"
proof -
  obtain k t where a: "a = (k, t)" by (rule prod.exhaust)
  have b: "storage_holds L b k" "br_now b = t" "get_device_id (br_device b) = device" using assms(3) by (simp_all add: browser_refines_def a)
  show ?thesis
  proof (cases op)
    case (Save session)
    then show ?thesis
      using save_holds [OF assms(1), of session b] assms(2) b by (simp add: a browser_refines_def save_session_clock)
  next
    case Touch
    then show ?thesis using touch_holds [OF b(1)] b by (simp add: a browser_refines_def touch_clock)
  next
    case Load
    then show ?thesis using load_holds [OF b(1)] b
      by (auto simp: a browser_refines_def load_clock kept_load_def kept_after_load_def split: option.splits if_splits)
  next
    case Clear
    then show ?thesis using clear_holds [of L b] b by (simp add: a browser_refines_def clear_clock)
  next
    case (LogoutAll address)
    then show ?thesis using clear_holds b by (simp add: a browser_refines_def clear_clock logout_all_devices_def)
  next
    case (Wait n)
    then show ?thesis using b by (simp add: a browser_refines_def idle_holds) (simp add: idle_def)
  qed
qed

text \<open>
  C15. The encrypted storage behaves as one kept session with its last activity and its device: whatever is saved,
  touched, loaded, cleared and waited for, every load gives exactly what the specification gives, a session
  at most its idle timeout old, not expired and of this device, or nothing.
\<close>

theorem session_store_refines:
  assumes "auth_lib_laws L" and "browser_refines L device b a" and "list_all session_op_ok ops"
  shows "run_outputs (session_step L) ops b = run_outputs (kept_step L device) ops a"
  using assms(2,3)
proof (induction ops arbitrary: b a)
  case (Cons op ops)
  obtain out b' where b': "session_step L op b = (out, b')" by (rule prod.exhaust)
  obtain out' a' where a': "kept_step L device op a = (out', a')" by (rule prod.exhaust)
  have "out = out' \<and> browser_refines L device b' a'"
    using session_step_refines [OF assms(1) _ Cons.prems(1), of op] Cons.prems(2) by (simp add: b' a')
  then show ?case using Cons b' a' by simp
qed simp


text \<open>
  The idle timeout is only checked when the session is loaded: any activity, however late, restarts it. A
  session left alone for any time is gone at the next load, but one mouse move before that load keeps it.
\<close>

theorem idle_session_revived:
  assumes "auth_lib_laws L" and "se_address session \<noteq> []" and "se_token session \<noteq> []"
    and "sc_idleTimeout (al_config L) < int n" and "0 \<le> sc_idleTimeout (al_config L)" and "br_now b + int n \<le> se_expiresAt session"
  shows "fst (load_session L (idle n (save_session L session b))) = None
    \<and> fst (load_session L (touch_session L (idle n (save_session L session b)))) = Some session"
proof -
  let ?b = "idle n (save_session L session b)"
  have now: "br_now ?b = br_now b + int n" "br_device ?b = br_device b" by (simp_all add: idle_def save_session_clock)
  have h: "storage_holds L ?b (Some (session, br_now b, get_device_id (br_device b)))"
    unfolding idle_holds by (rule save_holds [OF assms(1-3)])
  show ?thesis
    using load_holds [OF h] load_holds [OF touch_holds [OF h]] assms(4-6)
    by (simp add: kept_load_def kept_touch_def now touch_clock)
qed

text \<open>
  Stopping the monitor removes its timers but not its listeners: after n rounds of starting and stopping, 4 n
  listeners are still attached.
\<close>

theorem listeners_pile_up:
  "br_listeners (((stop_monitoring \<circ> start_monitoring) ^^ n) b) = br_listeners b + 4 * n"
  by (induction n) (simp_all add: stop_monitoring_def start_monitoring_def Let_def)

lemma stored_token:
  "js_get (br_local (save_session L session b)) ''token'' = Some (Text (se_token session))"
  by (auto simp: save_session_def encrypt_def random_bytes_def Let_def register_device_frame set_stored_def set_local_def
      split: prod.split)

text \<open>
  A refresh never asks the backend: it replaces the token the backend issued by random digits of the browser's
  own, both in the session and under the key the API client reads.
\<close>

theorem refresh_invents_token:
  assumes "refresh_session L current b = (Some refreshed, b')"
  shows "se_token refreshed = to_hex (al_random L 64 (br_draws b))
    \<and> js_get (br_local b') ''token'' = Some (Text (to_hex (al_random L 64 (br_draws b))))
    \<and> se_address refreshed = se_address current"
  using assms by (auto simp: refresh_session_def generate_token_pair_def make_token_def random_bytes_def Let_def stored_token split: if_splits)

section \<open>Signing in\<close>

text \<open>The same wallets, except that Freighter signs as \<open>f\<close> says.\<close>

definition with_signer :: "(string \<Rightarrow> string + string) option \<Rightarrow> wallet_host \<Rightarrow> wallet_host" where
  "with_signer f W = W\<lparr>wh_polls := map (\<lambda>(t, api). (t, map_option (\<lambda>a. a\<lparr>fa_signAuthEntry := f\<rparr>) api)) (wh_polls W)\<rparr>"

definition forget_signature :: "auth_failure + wallet_result \<Rightarrow> auth_failure + wallet_result" where
  "forget_signature r = map_sum id (\<lambda>w. w\<lparr>wr_signature := []\<rparr>) r"

lemma wait_with_signer:
  "wait_for_freighter_api t (map (\<lambda>(t, api). (t, map_option (\<lambda>a. a\<lparr>fa_signAuthEntry := f\<rparr>) api)) polls) =
   map_option (\<lambda>a. a\<lparr>fa_signAuthEntry := f\<rparr>) (wait_for_freighter_api t polls)"
  by (induction t polls rule: wait_for_freighter_api.induct) (auto split: option.split)

lemma connect_with_signer:
  "forget_signature (connect_freighter (a\<lparr>fa_signAuthEntry := f\<rparr>) challenge) = forget_signature (connect_freighter a challenge)"
  by (auto simp: connect_freighter_def ensure_freighter_allowed_def forget_signature_def split: sum.split option.split)

lemma request_with_signer:
  "forget_signature (fst (request_wallet_signature L (with_signer f W) provider b)) =
     forget_signature (fst (request_wallet_signature L W provider b)) \<and>
   snd (request_wallet_signature L (with_signer f W) provider b) = snd (request_wallet_signature L W provider b)"
  by (auto simp: request_wallet_signature_def with_signer_def wait_with_signer connect_with_signer connect_lobstr_def
      connect_lobstr_vault_def Let_def split: prod.split wallet_provider.split option.split)

lemma open_session_forgets: "open_session L (w\<lparr>wr_signature := s\<rparr>) token remember provider enabled b = open_session L w token remember provider enabled b"
  by (simp add: open_session_def create_session_def)

lemma login_forgets:
  "login L W provider remember a =
     (let st = start_loading (ap_store a)
      in case (forget_signature (fst (request_wallet_signature L W provider (ap_browser a))), snd (request_wallet_signature L W provider (ap_browser a))) of
           (Inl e, b) \<Rightarrow> login_failed e \<lparr>ap_store = st, ap_browser = b\<rparr>
         | (Inr wallet, b) \<Rightarrow>
             (case request_backend_token W (wr_address wallet) None None of
                Inl e \<Rightarrow> login_failed e \<lparr>ap_store = st, ap_browser = b\<rparr>
              | Inr (ReplyToken token enabled) \<Rightarrow>
                  (case open_session L wallet token remember provider enabled b of (session, b') \<Rightarrow>
                     (Inr (), \<lparr>ap_store = signed_in session st, ap_browser = b'\<rparr>))
              | Inr (ReplyTwoFactor pending) \<Rightarrow>
                  (Inr (), \<lparr>ap_store = st\<lparr>st_isAuthenticated := False, st_isLoading := False, st_address := Some (wr_address wallet),
                     st_network := wr_network wallet, st_provider := Some provider, st_session := None,
                     st_pending := Some \<lparr>tc_address = wr_address wallet, tc_provider = provider, tc_network = wr_network wallet,
                       tc_rememberMe = remember, tc_pendingToken = pending\<rparr>, st_error := None\<rparr>, ap_browser = b\<rparr>)
              | Inr _ \<Rightarrow> (Inr (), \<lparr>ap_store = st, ap_browser = b\<rparr>)))"
  by (auto simp: login_def forget_signature_def Let_def open_session_forgets split: prod.split sum.split api_outcome.split)

text \<open>
  The wallet's signature plays no part in signing in: whatever Freighter signs, and also when it cannot or will not
  sign, the same sign-in has the same outcome, session and stored state.
\<close>

theorem login_ignores_signature: "login L (with_signer f W) provider remember a = login L W provider remember a"
proof -
  have backend: "request_backend_token (with_signer f W) = request_backend_token W"
    by (intro ext) (simp add: request_backend_token_def with_signer_def)
  show ?thesis unfolding login_forgets backend using request_with_signer [of L f W provider "ap_browser a"] by simp
qed


section \<open>What the store's fields say together\<close>

definition store_ok :: "auth_store \<Rightarrow> bool" where
  "store_ok st \<longleftrightarrow>
     (st_isAuthenticated st \<longleftrightarrow> st_session st \<noteq> None) \<and>
     (\<forall>session. st_session st = Some session \<longrightarrow>
        st_address st = Some (se_address session) \<and> st_provider st = Some (se_provider session) \<and> st_pending st = None) \<and>
     (\<forall>p. st_pending st = Some p \<longrightarrow> st_address st = Some (tc_address p) \<and> st_provider st = Some (tc_provider p)) \<and>
     (st_session st = None \<longrightarrow> st_pending st = None \<longrightarrow> st_address st = None \<and> st_provider st = None)"

lemma store_ok_simps [simp]:
  "store_ok (signed_out st)" "store_ok ((signed_out st)\<lparr>st_error := e\<rparr>)" "store_ok (signed_in session st)"
  "store_ok (start_loading st) = store_ok st" "store_ok (st\<lparr>st_error := e\<rparr>) = store_ok st"
  "store_ok (st\<lparr>st_isLoading := l\<rparr>) = store_ok st" "store_ok (st\<lparr>st_network := n\<rparr>) = store_ok st"
  by (simp_all add: store_ok_def signed_out_def signed_in_def start_loading_def)

lemma login_ok: "store_ok (ap_store a) \<Longrightarrow> store_ok (ap_store (snd (login L W provider remember a)))"
  by (auto simp: login_def Let_def login_failed_def split: prod.split sum.split api_outcome.split) (auto simp: store_ok_def start_loading_def)

lemma verify_ok: "store_ok (ap_store a) \<Longrightarrow> store_ok (ap_store (snd (verify_two_factor L W code a)))"
  by (auto simp: verify_two_factor_def Let_def verify_failed_def split: option.split prod.split sum.split api_outcome.split)

lemma refresh_ok:
  assumes "store_ok (ap_store a)"
  shows "store_ok (ap_store (snd (refresh_store L a)))"
proof -
  have "se_address refreshed = se_address session \<and> se_provider refreshed = se_provider session"
    if "refresh_session L session b = (Some refreshed, b')" for session b refreshed b'
    using that by (auto simp: refresh_session_def Let_def split: if_splits prod.splits)
  then show ?thesis using assms
    by (auto simp: refresh_store_def logout_def split: option.split prod.split) (auto simp: store_ok_def)
qed

datatype store_action =
    Login wallet_host wallet_provider bool | VerifyTwoFactor wallet_host string | CancelTwoFactor | Logout | LogoutAllDevices
  | RefreshSession | SetNetwork stellar_network | SetRememberMe bool | ClearError | CheckSession | BrowserChange "auth_browser \<Rightarrow> auth_browser"

text \<open>Anything may happen to the browser between two actions: time, activity, other tabs.\<close>

fun store_run :: "'k auth_lib \<Rightarrow> store_action \<Rightarrow> auth_app \<Rightarrow> auth_app" where
  "store_run L (Login W provider remember) a = snd (login L W provider remember a)"
| "store_run L (VerifyTwoFactor W code) a = snd (verify_two_factor L W code a)"
| "store_run L CancelTwoFactor a = snd (cancel_two_factor a)"
| "store_run L Logout a = snd (logout L a)"
| "store_run L LogoutAllDevices a = snd (logout_everywhere L a)"
| "store_run L RefreshSession a = snd (refresh_store L a)"
| "store_run L (SetNetwork n) a = snd (set_network n a)"
| "store_run L (SetRememberMe r) a = snd (set_remember_me L r a)"
| "store_run L ClearError a = snd (clear_error a)"
| "store_run L CheckSession a = snd (check_session L a)"
| "store_run L (BrowserChange f) a = a\<lparr>ap_browser := f (ap_browser a)\<rparr>"

lemma store_run_ok: "store_ok (ap_store a) \<Longrightarrow> store_ok (ap_store (store_run L action a))"
proof (cases action)
  case CheckSession
  then show ?thesis by (simp add: check_session_def split: prod.split option.split)
next
  case (SetRememberMe r)
  assume "store_ok (ap_store a)"
  then show ?thesis by (auto simp: SetRememberMe set_remember_me_def Let_def store_ok_def split: option.split)
qed (simp_all add: login_ok verify_ok refresh_ok cancel_two_factor_def logout_def logout_everywhere_def set_network_def clear_error_def Let_def)

text \<open>
  C33. The fields of the store agree after any actions from the initial store: the user is authenticated exactly when
  there is a session, address and provider are those of the session or of the pending challenge, never both, and
  absent when there is neither.
\<close>

theorem store_fields_agree:
  "store_ok (ap_store (fold (store_run L) actions \<lparr>ap_store = initial_store, ap_browser = b\<rparr>))"
proof -
  have "store_ok (ap_store a) \<Longrightarrow> store_ok (ap_store (fold (store_run L) actions a))" for a
    by (induction actions arbitrary: a) (simp_all add: store_run_ok)
  then show ?thesis by (simp add: store_ok_def initial_store_def)
qed

text \<open>
  A failed sign-in forgets the session in the store but not in the storage: the session that was kept before is
  back at the next check.
\<close>

theorem failed_login_leaves_session:
  assumes "login L W provider remember a = (Inl e, a1)" and "fst (load_session L (ap_browser a)) = Some session"
  shows "st_session (ap_store a1) = None \<and> st_session (ap_store (snd (check_session L a1))) = Some session"
proof -
  obtain r b where req: "request_wallet_signature L W provider (ap_browser a) = (r, b)" by (rule prod.exhaust)
  then have b: "b = (ap_browser a)\<lparr>br_draws := Suc (br_draws (ap_browser a))\<rparr>"
    by (auto simp: request_wallet_signature_def make_token_def random_bytes_def Let_def)
  have "fst (load_session L b) = fst (load_session L (ap_browser a))"
    by (auto simp: b load_session_def stored_item_def session_live_def split: option.split storage_item.split)
  moreover have "ap_browser a1 = b \<and> st_session (ap_store a1) = None"
    using assms(1) req by (auto simp: login_def Let_def login_failed_def signed_out_def split: sum.splits api_outcome.splits prod.splits)
  ultimately show ?thesis using assms(2)
    by (cases "load_session L b") (simp add: check_session_def signed_in_def)
qed


section \<open>A library for examples\<close>

text \<open>A cipher that prints the session as bytes: numbers in unary, texts with their length.\<close>

definition put_nat :: "nat \<Rightarrow> 8 word list" where
  "put_nat n = replicate n 1 @ [0]"

definition get_nat :: "8 word list \<Rightarrow> nat \<times> 8 word list" where
  "get_nat bs = (length (takeWhile (\<lambda>b. b = 1) bs), tl (dropWhile (\<lambda>b. b = 1) bs))"

definition put_int :: "int \<Rightarrow> 8 word list" where
  "put_int i = put_nat (if i < 0 then 1 else 0) @ put_nat (nat \<bar>i\<bar>)"

definition get_int :: "8 word list \<Rightarrow> int \<times> 8 word list" where
  "get_int bs = (case get_nat bs of (neg, bs1) \<Rightarrow> case get_nat bs1 of (n, bs2) \<Rightarrow> (if neg = 1 then - int n else int n, bs2))"

definition put_string :: "string \<Rightarrow> 8 word list" where
  "put_string s = put_nat (length s) @ map (\<lambda>c. word_of_nat (of_char c)) s"

definition get_string :: "8 word list \<Rightarrow> string \<times> 8 word list" where
  "get_string bs = (case get_nat bs of (n, bs1) \<Rightarrow> (map (\<lambda>b. char_of (unat b)) (take n bs1), drop n bs1))"

definition providers :: "wallet_provider list" where
  "providers = [Freighter, Albedo, Xbull, Lobstr]"

definition print_session :: "auth_session \<Rightarrow> 8 word list" where
  "print_session x = put_string (se_address x) @
     put_nat (case se_provider x of Freighter \<Rightarrow> 0 | Albedo \<Rightarrow> 1 | Xbull \<Rightarrow> 2 | Lobstr \<Rightarrow> 3) @
     put_nat (if se_network x = Mainnet then 1 else 0) @ put_int (se_createdAt x) @ put_int (se_expiresAt x) @
     put_string (se_token x) @ put_string (se_refreshToken x) @
     put_nat (if se_rememberMe x then 1 else 0) @ put_nat (if se_twoFactorEnabled x then 1 else 0)"

definition parse_session :: "8 word list \<Rightarrow> auth_session" where
  "parse_session b0 =
     (case get_string b0 of (address, b1) \<Rightarrow> case get_nat b1 of (provider, b2) \<Rightarrow> case get_nat b2 of (network, b3) \<Rightarrow>
      case get_int b3 of (created, b4) \<Rightarrow> case get_int b4 of (expires, b5) \<Rightarrow> case get_string b5 of (token, b6) \<Rightarrow>
      case get_string b6 of (refresh, b7) \<Rightarrow> case get_nat b7 of (remember, b8) \<Rightarrow> case get_nat b8 of (two, b9) \<Rightarrow>
        \<lparr>se_address = address, se_provider = providers ! provider, se_network = (if network = 1 then Mainnet else Testnet),
         se_createdAt = created, se_expiresAt = expires, se_token = token, se_refreshToken = refresh,
         se_rememberMe = (remember = 1), se_twoFactorEnabled = (two = 1)\<rparr>)"

lemma get_put_nat: "get_nat (put_nat n @ rest) = (n, rest)"
  by (induction n) (simp_all add: get_nat_def put_nat_def)

lemma get_put_int: "get_int (put_int i @ rest) = (i, rest)"
  by (simp add: get_int_def put_int_def get_put_nat)

lemma char_byte: "char_of (unat (word_of_nat (of_char c) :: 8 word)) = c"
proof -
  have "(of_char c :: nat) < 256" by simp
  then have "unat (word_of_nat (of_char c) :: 8 word) = of_char c" by (simp add: unat_of_nat)
  then show ?thesis by simp
qed

lemma get_put_string: "get_string (put_string s @ rest) = (s, rest)"
proof -
  have "map (\<lambda>b. char_of (unat b)) (map (\<lambda>c. word_of_nat (of_char c) :: 8 word) s) = s"
    by (induction s) (simp_all add: char_byte)
  then show ?thesis by (simp add: get_string_def put_string_def get_put_nat)
qed

lemma parse_print_session: "parse_session (print_session x) = x"
proof -
  have "providers ! (case se_provider x of Freighter \<Rightarrow> 0 | Albedo \<Rightarrow> 1 | Xbull \<Rightarrow> 2 | Lobstr \<Rightarrow> 3) = se_provider x"
    by (cases "se_provider x") (simp_all add: providers_def)
  moreover have "(if (if se_network x = Mainnet then 1 else 0) = (1::nat) then Mainnet else Testnet) = se_network x"
    by (cases "se_network x") simp_all
  moreover have "get_nat (put_nat n) = (n, [])" for n using get_put_nat [of n "[]"] by simp
  ultimately show ?thesis
    unfolding parse_session_def print_session_def by (simp add: get_put_string get_put_nat get_put_int)
qed

definition demo_lib :: "string auth_lib" where
  "demo_lib = \<lparr>al_config = default_session_config, al_random = (\<lambda>n d. replicate n (word_of_nat d)), al_deriveKey = (\<lambda>p salt n. p),
     al_seal = (\<lambda>k iv p. print_session p), al_open = (\<lambda>k iv c. Some (parse_session c))\<rparr>"

lemma demo_lib_laws: "auth_lib_laws demo_lib"
proof -
  have "print_session p \<noteq> []" for p by (simp add: print_session_def put_string_def put_nat_def)
  then show ?thesis by (simp add: auth_lib_laws_def demo_lib_def parse_print_session)
qed

definition demo_session :: auth_session where
  "demo_session = \<lparr>se_address = ''GABC'', se_provider = Freighter, se_network = Testnet, se_createdAt = 0, se_expiresAt = 604800000,
     se_token = ''jwt'', se_refreshToken = ''r'', se_rememberMe = True, se_twoFactorEnabled = False\<rparr>"

definition demo_browser :: auth_browser where
  "demo_browser = \<lparr>br_local = [], br_session = [], br_now = 0, br_draws = 0, br_device = [''ua'', ''en''], br_heartbeat = False,
     br_checkTimer = False, br_listeners = 0\<rparr>"

theorem session_store_refines_witness:
  "run_outputs (session_step demo_lib) [Load, Save demo_session, Wait 600000, Load, Wait 600000, Touch, Wait 900000, Load, Clear, Load] demo_browser
    = [None, None, None, Some demo_session, None, None, None, Some demo_session, None, None]"
proof -
  let ?d = "get_device_id (br_device demo_browser)"
  let ?ops = "[Load, Save demo_session, Wait 600000, Load, Wait 600000, Touch, Wait 900000, Load, Clear, Load]"
  have "run_outputs (session_step demo_lib) ?ops demo_browser = run_outputs (kept_step demo_lib ?d) ?ops (None, 0)"
    by (rule session_store_refines [OF demo_lib_laws])
       (simp_all add: browser_refines_def demo_browser_def get_text_def demo_session_def)
  then show ?thesis by (simp add: demo_lib_def default_session_config_def demo_session_def kept_touch_def)
qed

theorem idle_session_revived_witness:
  "fst (load_session demo_lib (touch_session demo_lib (idle 86400000 (save_session demo_lib demo_session demo_browser)))) = Some demo_session"
  using idle_session_revived [OF demo_lib_laws, of demo_session 86400000 demo_browser]
  by (simp add: demo_session_def demo_lib_def default_session_config_def demo_browser_def)

lemma demo_refreshes: "refresh_session demo_lib demo_session demo_browser =
    (Some (the (fst (refresh_session demo_lib demo_session demo_browser))), snd (refresh_session demo_lib demo_session demo_browser))"
  by (simp add: refresh_session_def demo_session_def Let_def split: prod.split)

theorem refresh_invents_token_witness:
  "se_token (the (fst (refresh_session demo_lib demo_session demo_browser))) = to_hex (replicate 64 0)"
  using refresh_invents_token [OF demo_refreshes] by (simp add: demo_lib_def demo_browser_def)

definition demo_wallets :: wallet_host where
  "demo_wallets = \<lparr>wh_polls = [], wh_userAgent = ''Mozilla'', wh_lobstrVault = None, wh_lobstr = None,
     wh_backend = (\<lambda>_ _ _. ReplyToken ''jwt'' False)\<rparr>"

theorem failed_login_leaves_session_witness:
  "\<exists>e a1. login demo_lib demo_wallets Freighter False
      \<lparr>ap_store = initial_store, ap_browser = save_session demo_lib demo_session demo_browser\<rparr> = (Inl e, a1)
    \<and> st_session (ap_store (snd (check_session demo_lib a1))) = Some demo_session"
proof -
  let ?a = "\<lparr>ap_store = initial_store, ap_browser = save_session demo_lib demo_session demo_browser\<rparr>"
  obtain a1 where l: "login demo_lib demo_wallets Freighter False ?a = (Inl WalletNotFound, a1)"
    by (simp add: login_def request_wallet_signature_def demo_wallets_def Let_def login_failed_def make_token_def random_bytes_def)
  have "storage_holds demo_lib (save_session demo_lib demo_session demo_browser)
      (Some (demo_session, br_now demo_browser, get_device_id (br_device demo_browser)))"
    by (rule save_holds [OF demo_lib_laws]) (simp_all add: demo_session_def)
  from load_holds [OF this] have "fst (load_session demo_lib (ap_browser ?a)) = Some demo_session"
    by (simp add: kept_load_def save_session_clock demo_browser_def demo_lib_def default_session_config_def demo_session_def)
  from failed_login_leaves_session [OF l this] l show ?thesis by blast
qed

end
