(* ===== verification/Notifications.thy ===== *)
theory Notifications
  imports JsPrelude
begin

text \<open>
  Notifications to users, \<open>backend/src/services/notificationService.ts\<close>: the sockets of the
  \<open>/notifications\<close> namespace, the offline queues, the mails and web pushes sent along.

  What reaches a socket, a mail box or a push endpoint is logged in the state. The user table, the random part of an id, the
  local date and the answers of the push service are functions of the host; mails and pushes are sent without
  waiting, and a failing one is only logged by the code.
\<close>

section \<open>Data\<close>

datatype notification_type =
    ContributionDue | ContributionOverdue | ContributionReceived | PayoutReceived | MemberJoinedNote | MemberLeft
  | CycleCompleted | GroupCreatedNote | Announcement

record note_metadata =
  nm_groupName :: "string option"
  nm_amount :: "string option"
  nm_txHash :: "string option"
  nm_cycleNumber :: "int option"
  nm_dueDate :: "string option"

record note_payload =
  np_type :: notification_type
  np_title :: string
  np_message :: string
  np_groupId :: "string option"
  np_actionUrl :: "string option"
  np_metadata :: "note_metadata option"

record notification = note_payload +
  nt_id :: string
  nt_timestamp :: int

datatype mail =
    PayoutMail string string string string int string
  | ReceiptMail string string string string string int
  | ReminderMail string string string string int string

record mail_user =
  mu_email :: "string option"
  mu_name :: "string option"

record push_subscription =
  ps_id :: string
  ps_endpoint :: string

record notifier =
  no_initialized :: bool
  no_userSockets :: "(string, string list) jsmap"
  no_offlineQueue :: "(string, notification list) jsmap"
  no_subscriptions :: "(string \<times> push_subscription) list"
  no_emitted :: "(string \<times> notification) list"
  no_mails :: "mail list"
  no_pushed :: "(string \<times> string) list"
  no_now :: int
  no_draws :: nat

record note_host =
  nh_user :: "string \<Rightarrow> mail_user option"
  nh_noteId :: "int \<Rightarrow> nat \<Rightarrow> string"
  nh_localeDate :: "int \<Rightarrow> string"
  nh_vapid :: bool
  nh_pushStatus :: "string \<Rightarrow> nat"

section \<open>Mails and pushes\<close>

definition email_types :: "notification_type list" where
  "email_types = [ContributionReceived, PayoutReceived, ContributionDue, ContributionOverdue]"

text \<open>\<open>message.match(/[\d,]+/)?.[0]\<close>.\<close>

definition digit_or_comma :: "char \<Rightarrow> bool" where
  "digit_or_comma c \<longleftrightarrow> is_digit c \<or> c = CHR '',''"

definition first_amount :: "string \<Rightarrow> string option" where
  "first_amount message = truthy (Some (takeWhile digit_or_comma (dropWhile (\<lambda>c. \<not> digit_or_comma c) message)))"

text \<open>\<open>notification.metadata?.field ?? d\<close>.\<close>

definition from_metadata :: "(note_metadata \<Rightarrow> 'a option) \<Rightarrow> 'a \<Rightarrow> notification \<Rightarrow> 'a" where
  "from_metadata field d n = get_or d (Option.bind (np_metadata n) field)"

definition mail_for :: "note_host \<Rightarrow> int \<Rightarrow> string \<Rightarrow> notification \<Rightarrow> mail option" where
  "mail_for X now userId n =
     (if np_type n \<notin> set email_types then None
      else case truthy (Option.bind (nh_user X userId) mu_email) of
        None \<Rightarrow> None
      | Some email \<Rightarrow>
          (let groupId = get_or [] (np_groupId n);
               groupName = from_metadata nm_groupName groupId n;
               txHash = from_metadata nm_txHash [] n;
               cycle = from_metadata nm_cycleNumber 0 n;
               today = nh_localeDate X now
           in Some (if np_type n = PayoutReceived
                    then PayoutMail email groupName (get_or ''0'' (first_amount (np_message n))) txHash cycle today
                    else if np_type n = ContributionReceived
                    then ReceiptMail email groupName (from_metadata nm_amount ''0'' n) txHash today cycle
                    else ReminderMail email groupName (from_metadata nm_amount ''0'' n) (from_metadata nm_dueDate today n) cycle groupId)))"

text \<open>Every subscription of the user is sent to; those that are gone (410) are deleted.\<close>

definition send_push :: "note_host \<Rightarrow> string \<Rightarrow> notification \<Rightarrow> notifier \<Rightarrow> notifier" where
  "send_push X userId n st =
     (if \<not> nh_vapid X then st
      else (let subs = map snd (filter (\<lambda>(u, s). u = userId) (no_subscriptions st));
                gone = map ps_id (filter (\<lambda>s. nh_pushStatus X (ps_endpoint s) = 410) subs)
            in st\<lparr>no_pushed := no_pushed st @ map (\<lambda>s. (ps_endpoint s, nt_id n)) subs,
                  no_subscriptions := filter (\<lambda>(u, s). ps_id s \<notin> set gone) (no_subscriptions st)\<rparr>))"

section \<open>Sending\<close>

definition offline_cap :: nat where
  "offline_cap = 50"

definition queue_push :: "notification \<Rightarrow> notification list \<Rightarrow> notification list" where
  "queue_push n queue = (let queue' = queue @ [n] in if length queue' > offline_cap then tl queue' else queue')"

definition enqueue_offline :: "string \<Rightarrow> notification \<Rightarrow> notifier \<Rightarrow> notifier" where
  "enqueue_offline userId n st =
     st\<lparr>no_offlineQueue := js_set userId (queue_push n (get_or [] (js_get (no_offlineQueue st) userId))) (no_offlineQueue st)\<rparr>"

definition make_notification :: "note_host \<Rightarrow> note_payload \<Rightarrow> notifier \<Rightarrow> notification" where
  "make_notification X p st =
     note_payload.extend p \<lparr>nt_id = nh_noteId X (no_now st) (no_draws st), nt_timestamp = no_now st\<rparr>"

definition deliver :: "string \<Rightarrow> notification \<Rightarrow> notifier \<Rightarrow> notifier" where
  "deliver userId n st =
     (let sockets = get_or [] (js_get (no_userSockets st) userId)
      in if no_initialized st \<and> sockets \<noteq> []
         then st\<lparr>no_emitted := no_emitted st @ map (\<lambda>socket. (socket, n)) sockets\<rparr>
         else enqueue_offline userId n st)"

definition send_to_user :: "note_host \<Rightarrow> string \<Rightarrow> note_payload \<Rightarrow> notifier \<Rightarrow> notifier" where
  "send_to_user X userId p st =
     (let n = make_notification X p st;
          st1 = deliver userId n (st\<lparr>no_draws := Suc (no_draws st)\<rparr>);
          st2 = (case mail_for X (no_now st1) userId n of None \<Rightarrow> st1 | Some m \<Rightarrow> st1\<lparr>no_mails := no_mails st1 @ [m]\<rparr>)
      in send_push X userId n st2)"

text \<open>\<open>members\<close> are the rows of the group as the database gives them.\<close>

definition send_to_group :: "note_host \<Rightarrow> string list \<Rightarrow> string \<Rightarrow> note_payload \<Rightarrow> string option \<Rightarrow> notifier \<Rightarrow> notifier" where
  "send_to_group X members groupId p excludeUserId st =
     fold (\<lambda>m st. if Some m \<noteq> excludeUserId then send_to_user X m (p\<lparr>np_groupId := Some groupId\<rparr>) st else st) members st"

definition broadcast :: "note_host \<Rightarrow> note_payload \<Rightarrow> notifier \<Rightarrow> notifier" where
  "broadcast X p st =
     (let n = make_notification X p st
      in st\<lparr>no_draws := Suc (no_draws st),
            no_emitted := no_emitted st @
              (if no_initialized st then map (\<lambda>socket. (socket, n)) (concat (map snd (no_userSockets st))) else [])\<rparr>)"

definition is_user_online :: "string \<Rightarrow> notifier \<Rightarrow> bool" where
  "is_user_online userId st \<longleftrightarrow> length (get_or [] (js_get (no_userSockets st) userId)) > 0"

section \<open>Connections\<close>

definition initialize :: "notifier \<Rightarrow> notifier" where
  "initialize st = st\<lparr>no_initialized := True\<rparr>"

text \<open>The handshake: both fields are there and the wallet has a user. The user id is taken as it is given.\<close>

definition handshake :: "(string \<Rightarrow> bool) \<Rightarrow> string option \<Rightarrow> string option \<Rightarrow> string option" where
  "handshake known walletAddress userId =
     (case (truthy walletAddress, truthy userId) of
        (Some w, Some u) \<Rightarrow> if known w then Some u else None
      | _ \<Rightarrow> None)"

definition connected :: "string \<Rightarrow> string \<Rightarrow> notifier \<Rightarrow> notifier" where
  "connected userId socket st =
     (let st1 = st\<lparr>no_userSockets := js_set userId (js_add socket (get_or [] (js_get (no_userSockets st) userId))) (no_userSockets st)\<rparr>
      in case js_get (no_offlineQueue st1) userId of
           None \<Rightarrow> st1
         | Some queued \<Rightarrow>
             if queued = [] then st1
             else st1\<lparr>no_emitted := no_emitted st1 @ map (\<lambda>n. (socket, n)) queued,
                      no_offlineQueue := js_del userId (no_offlineQueue st1)\<rparr>)"

definition connect :: "(string \<Rightarrow> bool) \<Rightarrow> string option \<Rightarrow> string option \<Rightarrow> string \<Rightarrow> notifier \<Rightarrow> notifier" where
  "connect known walletAddress userId socket st =
     (case handshake known walletAddress userId of None \<Rightarrow> st | Some u \<Rightarrow> connected u socket st)"

definition disconnect :: "string \<Rightarrow> string \<Rightarrow> notifier \<Rightarrow> notifier" where
  "disconnect userId socket st =
     (case js_get (no_userSockets st) userId of
        None \<Rightarrow> st
      | Some sockets \<Rightarrow>
          (let rest = js_remove socket sockets
           in st\<lparr>no_userSockets := (if rest = [] then js_del userId (no_userSockets st) else js_set userId rest (no_userSockets st))\<rparr>))"


section \<open>The offline queue\<close>

interpretation offline: bounded_log queue_push offline_cap
  by unfold_locales (simp add: queue_push_def Let_def)

lemma send_push_frame [simp]:
  "no_initialized (send_push X u n st) = no_initialized st" "no_userSockets (send_push X u n st) = no_userSockets st"
  "no_offlineQueue (send_push X u n st) = no_offlineQueue st" "no_emitted (send_push X u n st) = no_emitted st"
  "no_now (send_push X u n st) = no_now st" "no_draws (send_push X u n st) = no_draws st"
  by (simp_all add: send_push_def Let_def)

lemma send_to_user_frame:
  "no_initialized (send_to_user X u p st) = no_initialized st" "no_userSockets (send_to_user X u p st) = no_userSockets st"
  by (simp_all add: send_to_user_def deliver_def enqueue_offline_def Let_def split: option.split)

lemma send_to_user_core:
  "no_offlineQueue (send_to_user X u p st) = no_offlineQueue (deliver u (make_notification X p st) st)"
  "no_emitted (send_to_user X u p st) = no_emitted (deliver u (make_notification X p st) st)"
  by (auto simp: send_to_user_def deliver_def enqueue_offline_def Let_def split: option.split)

lemma truncate_made: "note_payload.truncate (make_notification X p st) = p"
  by (simp add: make_notification_def note_payload.defs)

lemma offline_sends:
  assumes "js_get (no_userSockets st) u = None"
  shows "\<exists>ns. js_get (no_offlineQueue (fold (send_to_user X u) ps st)) u =
      (if ps = [] then js_get (no_offlineQueue st) u else Some (fold queue_push ns (get_or [] (js_get (no_offlineQueue st) u))))
    \<and> map note_payload.truncate ns = ps \<and> no_emitted (fold (send_to_user X u) ps st) = no_emitted st
    \<and> js_get (no_userSockets (fold (send_to_user X u) ps st)) u = None"
  using assms
proof (induction ps arbitrary: st)
  case (Cons p ps)
  let ?st = "send_to_user X u p st" and ?n = "make_notification X p st"
  have off: "js_get (no_userSockets ?st) u = None" using Cons.prems by (simp add: send_to_user_frame)
  have step: "js_get (no_offlineQueue ?st) u = Some (queue_push ?n (get_or [] (js_get (no_offlineQueue st) u)))"
    "no_emitted ?st = no_emitted st"
    using Cons.prems by (simp_all add: send_to_user_core deliver_def enqueue_offline_def js_simps)
  obtain ns where "js_get (no_offlineQueue (fold (send_to_user X u) ps ?st)) u =
      (if ps = [] then js_get (no_offlineQueue ?st) u else Some (fold queue_push ns (get_or [] (js_get (no_offlineQueue ?st) u))))"
    "map note_payload.truncate ns = ps" "no_emitted (fold (send_to_user X u) ps ?st) = no_emitted ?st"
    "js_get (no_userSockets (fold (send_to_user X u) ps ?st)) u = None"
    using Cons.IH [OF off] by blast
  then show ?case using step by (intro exI [of _ "?n # ns"]) (auto simp: truncate_made)
qed simp

text \<open>
  C38. What is sent to a user without a socket waits: at the next connection the new socket gets the last fifty
  notifications, in the order they were sent and each once, and nothing waits any more.
\<close>

theorem offline_notifications_delivered:
  assumes "js_get (no_userSockets st) u = None" and "js_get (no_offlineQueue st) u = None"
  shows "\<exists>ns. no_emitted (connected u socket (fold (send_to_user X u) ps st)) = no_emitted st @ map (\<lambda>n. (socket, n)) ns
    \<and> map note_payload.truncate ns = drop (length ps - 50) ps
    \<and> js_get (no_offlineQueue (connected u socket (fold (send_to_user X u) ps st))) u = None"
proof -
  let ?st = "fold (send_to_user X u) ps st"
  obtain ns where "js_get (no_offlineQueue ?st) u =
      (if ps = [] then js_get (no_offlineQueue st) u else Some (fold queue_push ns (get_or [] (js_get (no_offlineQueue st) u))))"
    and made: "map note_payload.truncate ns = ps" "no_emitted ?st = no_emitted st"
    using offline_sends [OF assms(1), of X ps] by blast
  then have ns: "js_get (no_offlineQueue ?st) u = (if ps = [] then None else Some (fold queue_push ns []))"
    using assms(2) by simp
  show ?thesis
  proof (cases "ps = []")
    case True
    then show ?thesis using assms(2) by (simp add: connected_def Let_def)
  next
    case False
    let ?q = "drop (length ns - 50) ns"
    have q: "fold queue_push ns [] = ?q" using offline.pushes_suffix [of ns] by (simp add: offline_cap_def)
    have "length ns = length ps" using made(1) by (metis length_map)
    then have "map note_payload.truncate ?q = drop (length ps - 50) ps" using made(1) by (metis drop_map)
    moreover have "?q \<noteq> []" using False made(1) by (cases ns) auto
    ultimately show ?thesis using ns made False q
      by (intro exI [of _ ?q]) (simp add: connected_def Let_def js_simps)
  qed
qed

text \<open>
  The user id of a connection is not checked against the wallet: any known wallet that names another user's id
  takes the notifications waiting for that user, who will not get them any more.
\<close>

theorem any_wallet_takes_any_queue:
  assumes "known w" and "w \<noteq> []" and "victim \<noteq> []" and "js_get (no_offlineQueue st) victim = Some queued" and "queued \<noteq> []"
  shows "no_emitted (connect known (Some w) (Some victim) socket st) = no_emitted st @ map (\<lambda>n. (socket, n)) queued
    \<and> js_get (no_offlineQueue (connect known (Some w) (Some victim) socket st)) victim = None"
  using assms by (simp add: connect_def handshake_def connected_def Let_def js_simps)

section \<open>Well-formed state\<close>

definition notifier_ok :: "notifier \<Rightarrow> bool" where
  "notifier_ok st \<longleftrightarrow> js_wf (no_userSockets st) \<and> js_wf (no_offlineQueue st) \<and>
     js_all (\<lambda>sockets. sockets \<noteq> [] \<and> distinct sockets) (no_userSockets st) \<and>
     js_all (\<lambda>queue. length queue \<le> 50) (no_offlineQueue st)"

lemma queue_push_le: "length q \<le> 50 \<Longrightarrow> length (queue_push n q) \<le> 50"
  using offline.push_le_cap [of q n] by (simp add: offline_cap_def)

lemma deliver_ok: "notifier_ok st \<Longrightarrow> notifier_ok (deliver u n st)"
  by (auto simp: notifier_ok_def deliver_def enqueue_offline_def Let_def
      intro!: js_all_set queue_push_le js_all_get_or [where P = "\<lambda>q. length q \<le> 50"])

lemma send_to_user_ok: "notifier_ok st \<Longrightarrow> notifier_ok (send_to_user X u p st)"
  using deliver_ok [of st u "make_notification X p st"]
  by (simp add: notifier_ok_def send_to_user_core send_to_user_frame deliver_def enqueue_offline_def Let_def split: if_splits)

lemma send_to_group_ok: "notifier_ok st \<Longrightarrow> notifier_ok (send_to_group X members g p ex st)"
  unfolding send_to_group_def by (induction members arbitrary: st) (simp_all add: send_to_user_ok)

lemma connected_ok:
  assumes "notifier_ok st"
  shows "notifier_ok (connected u socket st)"
proof -
  have "distinct (get_or [] (js_get (no_userSockets st) u))"
    using assms by (cases "js_get (no_userSockets st) u") (auto simp: notifier_ok_def dest: js_all_get)
  then show ?thesis using assms
    by (auto simp: connected_def Let_def notifier_ok_def split: option.split intro!: js_all_set js_all_del)
qed

lemma disconnect_ok: "notifier_ok st \<Longrightarrow> notifier_ok (disconnect u socket st)"
  by (auto simp: disconnect_def Let_def notifier_ok_def split: option.split intro!: js_all_set js_all_del dest: js_all_get)

datatype notifier_call =
    SendToUser string note_payload | SendToGroup "string list" string note_payload "string option" | Broadcast note_payload
  | Initialize | Connect "string option" "string option" string | Disconnect string string | TimeGoes nat

fun notifier_run :: "note_host \<Rightarrow> notifier_call \<Rightarrow> notifier \<Rightarrow> notifier" where
  "notifier_run X (SendToUser u p) st = send_to_user X u p st"
| "notifier_run X (SendToGroup members g p ex) st = send_to_group X members g p ex st"
| "notifier_run X (Broadcast p) st = broadcast X p st"
| "notifier_run X Initialize st = initialize st"
| "notifier_run X (Connect w u socket) st = connect (\<lambda>w. nh_user X w \<noteq> None) w u socket st"
| "notifier_run X (Disconnect u socket) st = disconnect u socket st"
| "notifier_run X (TimeGoes n) st = st\<lparr>no_now := no_now st + int n\<rparr>"

definition new_notifier :: notifier where
  "new_notifier = \<lparr>no_initialized = False, no_userSockets = [], no_offlineQueue = [], no_subscriptions = [], no_emitted = [],
     no_mails = [], no_pushed = [], no_now = 0, no_draws = 0\<rparr>"

text \<open>
  Whatever is sent and whoever connects and disconnects: no user keeps an empty socket set or a socket twice, and
  no offline queue holds more than fifty notifications.
\<close>

theorem notifier_state_bounded: "notifier_ok (fold (notifier_run X) calls new_notifier)"
proof -
  have "notifier_ok st \<Longrightarrow> notifier_ok (notifier_run X c st)" for c st
    by (cases c) (simp_all add: send_to_user_ok send_to_group_ok connected_ok disconnect_ok connect_def split: option.split,
      simp_all add: notifier_ok_def broadcast_def initialize_def Let_def)
  then have "notifier_ok st \<Longrightarrow> notifier_ok (fold (notifier_run X) calls st)" for st
    by (induction calls arbitrary: st) simp_all
  then show ?thesis by (simp add: notifier_ok_def new_notifier_def)
qed

section \<open>Examples\<close>

definition demo_note_host :: note_host where
  "demo_note_host = \<lparr>nh_user = (\<lambda>w. Some \<lparr>mu_email = Some (w @ ''@mail''), mu_name = None\<rparr>), nh_noteId = (\<lambda>t n. show_nat n),
     nh_localeDate = (\<lambda>t. ''1/1/2026''), nh_vapid = False, nh_pushStatus = (\<lambda>_. 201)\<rparr>"

definition demo_payload :: "nat \<Rightarrow> note_payload" where
  "demo_payload n = \<lparr>np_type = Announcement, np_title = ''note'', np_message = show_nat n, np_groupId = None, np_actionUrl = None,
     np_metadata = None\<rparr>"

theorem offline_notifications_delivered_witness:
  "\<exists>ns. no_emitted (connected ''ann'' ''s1'' (fold (send_to_user demo_note_host ''ann'') (map demo_payload [0..<60]) new_notifier))
      = map (\<lambda>n. (''s1'', n)) ns
    \<and> map note_payload.truncate ns = map demo_payload [10..<60]"
proof -
  obtain ns where "no_emitted (connected ''ann'' ''s1'' (fold (send_to_user demo_note_host ''ann'') (map demo_payload [0..<60]) new_notifier))
      = no_emitted new_notifier @ map (\<lambda>n. (''s1'', n)) ns"
    "map note_payload.truncate ns = drop (length (map demo_payload [0..<60]) - 50) (map demo_payload [0..<60])"
    using offline_notifications_delivered [of new_notifier "''ann''" "''s1''" demo_note_host "map demo_payload [0..<60]"]
    by (auto simp: new_notifier_def)
  then show ?thesis by (intro exI [of _ ns]) (simp add: new_notifier_def drop_map)
qed

theorem any_wallet_takes_any_queue_witness:
  "no_emitted (connect (\<lambda>w. w = ''eve'') (Some ''eve'') (Some ''ann'') ''s9''
      (send_to_user demo_note_host ''ann'' (demo_payload 1) new_notifier)) \<noteq> []"
proof -
  let ?st = "send_to_user demo_note_host ''ann'' (demo_payload 1) new_notifier"
  obtain queued where q: "js_get (no_offlineQueue ?st) ''ann'' = Some queued" "queued \<noteq> []"
    by (simp add: send_to_user_core deliver_def enqueue_offline_def new_notifier_def queue_push_def Let_def offline_cap_def)
  show ?thesis
    using any_wallet_takes_any_queue [of "\<lambda>w. w = ''eve''" "''eve''" "''ann''" ?st queued "''s9''"] q by simp
qed

end
