(* ===== verification/ChainSync.thy ===== *)
theory ChainSync
  imports Notifications Webhooks
begin

text \<open>
  What the backend learns from the chain: the event stream of \<open>services/blockchainListener.ts\<close>, the parser
  \<open>utils/eventParser.ts\<close>, \<open>services/eventProcessor.ts\<close> with \<open>handlers/contractEventHandlers.ts\<close>, the tables
  behind \<open>services/databaseService.ts\<close> and \<open>services/transactionTracker.ts\<close>. The handlers call the
  notification service of \<open>Notifications\<close> and the webhook service of \<open>Webhooks\<close>.

  The tables enforce their keys: a transaction hash is unique among contributions, a member and a contribution
  need their group, a big integer column holds 64 bits. The nth database call fails when the host says so of n.
  A payload may have any shape: destructuring, \<open>BigInt\<close> and the checks of the database client decide where it is refused, and
  what was written before stays. Big integers and numbers are one kind of value, maps are opaque. A notification addressed to a
  value that is no text reaches nobody and is left out. Events are processed one at a time.
\<close>

section \<open>Events\<close>

datatype chain_event_type =
    EvGroupCreated | EvMemberJoined | EvContributionMade | EvPayoutExecuted | EvGroupCompleted | EvCycleAdvanced
  | EvGroupCancelled | EvLateContribution | EvPenaltyDistributed | EvRefundRequested | EvRefundVote | EvRefundProcessed
  | EvEmergencyRefund | EvPayoutVote | EvPayoutOrderDetermined | EvReminderTriggered | EvMilestoneAchieved
  | EvAchievementEarned | EvMultiTokenGroupCreated | EvTokenContribution | EvMultiTokenPayout | EvUnknown

definition topic_map :: "(string \<times> chain_event_type) list" where
  "topic_map = [(''created'', EvGroupCreated), (''joined'', EvMemberJoined), (''contrib'', EvContributionMade),
     (''payout'', EvPayoutExecuted), (''complete'', EvGroupCompleted), (''cycle'', EvCycleAdvanced),
     (''cancel'', EvGroupCancelled), (''late'', EvLateContribution), (''pendistr'', EvPenaltyDistributed),
     (''refreq'', EvRefundRequested), (''refvote'', EvRefundVote), (''refund'', EvRefundProcessed),
     (''emrefund'', EvEmergencyRefund), (''pvote'', EvPayoutVote), (''porder'', EvPayoutOrderDetermined),
     (''remind'', EvReminderTriggered), (''mileston'', EvMilestoneAchieved), (''achieve'', EvAchievementEarned),
     (''mtcreat'', EvMultiTokenGroupCreated), (''tkcontr'', EvTokenContribution), (''mtpay'', EvMultiTokenPayout)]"

text \<open>What \<open>scValToNative\<close> gives; None when it throws, and then the text of the value is used.\<close>

datatype native = NString string | NNumber int | NBool bool | NArray "native list" | NNull | NObject

fun join_commas :: "string list \<Rightarrow> string" where
  "join_commas [] = []"
| "join_commas [x] = x"
| "join_commas (x # y # xs) = x @ '','' @ join_commas (y # xs)"

text \<open>\<open>String(value)\<close>; inside an array \<open>null\<close> prints as nothing.\<close>

fun native_text :: "native \<Rightarrow> string" where
  "native_text (NString s) = s"
| "native_text (NNumber i) = show_int i"
| "native_text (NBool b) = (if b then ''true'' else ''false'')"
| "native_text (NArray xs) = join_commas (map (\<lambda>x. if x = NNull then [] else native_text x) xs)"
| "native_text NNull = ''null''"
| "native_text NObject = ''[object Object]''"

fun native_truthy :: "native \<Rightarrow> bool" where
  "native_truthy (NString s) \<longleftrightarrow> s \<noteq> []"
| "native_truthy (NNumber i) \<longleftrightarrow> i \<noteq> 0"
| "native_truthy (NBool b) \<longleftrightarrow> b"
| "native_truthy (NArray xs) \<longleftrightarrow> True"
| "native_truthy NNull \<longleftrightarrow> False"
| "native_truthy NObject \<longleftrightarrow> True"

text \<open>\<open>const [a, b] = value\<close> reads these, or throws for what is not iterable; a text gives its characters.\<close>

definition entries :: "native \<Rightarrow> native list option" where
  "entries n = (case n of NArray xs \<Rightarrow> Some xs | NString s \<Rightarrow> Some (map (\<lambda>c. NString [c]) s) | _ \<Rightarrow> None)"

text \<open>\<open>BigInt(text)\<close>: blanks around are dropped, no text is 0, a sign or one of three prefixes is taken, anything else throws.\<close>

definition js_blank :: "char \<Rightarrow> bool" where
  "js_blank c \<longleftrightarrow> of_char c \<in> {9, 10, 11, 12, 13, 32, 160 :: nat}"

definition js_trim :: "string \<Rightarrow> string" where
  "js_trim s = rev (dropWhile js_blank (rev (dropWhile js_blank s)))"

definition digit_of :: "char \<Rightarrow> nat option" where
  "digit_of c = (let n = of_char c :: nat in
     if 48 \<le> n \<and> n \<le> 57 then Some (n - 48) else if 97 \<le> n \<and> n \<le> 102 then Some (n - 87) else if 65 \<le> n \<and> n \<le> 70 then Some (n - 55) else None)"

fun radix_value :: "nat \<Rightarrow> string \<Rightarrow> nat \<Rightarrow> nat option" where
  "radix_value b [] acc = Some acc"
| "radix_value b (c # cs) acc = (case digit_of c of None \<Rightarrow> None | Some d \<Rightarrow> if d < b then radix_value b cs (acc * b + d) else None)"

definition digits_value :: "nat \<Rightarrow> string \<Rightarrow> int option" where
  "digits_value b s = (if s = [] then None else map_option int (radix_value b s 0))"

definition big_text :: "string \<Rightarrow> int option" where
  "big_text s = (let t = js_trim s in
     if t = [] then Some 0
     else if take 2 t \<in> {''0x'', ''0X''} then digits_value 16 (drop 2 t)
     else if take 2 t \<in> {''0o'', ''0O''} then digits_value 8 (drop 2 t)
     else if take 2 t \<in> {''0b'', ''0B''} then digits_value 2 (drop 2 t)
     else if hd t = CHR ''-'' then map_option uminus (digits_value 10 (tl t))
     else if hd t = CHR ''+'' then digits_value 10 (tl t)
     else digits_value 10 t)"

text \<open>\<open>BigInt(value)\<close>; \<open>None\<close> when it throws.\<close>

definition big_int :: "native option \<Rightarrow> int option" where
  "big_int v = (case v of
     None \<Rightarrow> None
   | Some NNull \<Rightarrow> None
   | Some (NNumber i) \<Rightarrow> Some i
   | Some (NBool b) \<Rightarrow> Some (if b then 1 else 0)
   | Some n \<Rightarrow> big_text (native_text n))"

text \<open>A value in a template, and as a field of a payload, which undefined is not.\<close>

definition shown :: "native option \<Rightarrow> string" where
  "shown v = (case v of None \<Rightarrow> ''undefined'' | Some n \<Rightarrow> native_text n)"

definition field_of :: "string \<Rightarrow> native option \<Rightarrow> (string \<times> string) list" where
  "field_of k v = (case v of None \<Rightarrow> [] | Some n \<Rightarrow> [(k, native_text n)])"

record 'v raw_event =
  re_topic :: "'v list option"
  re_value :: "'v option"
  re_ledger :: "int option"
  re_txHash :: "string option"
  re_id :: "string option"
  re_pagingToken :: "string option"

record 'v stellar_sdk =
  sdk_native :: "'v \<Rightarrow> native option"
  sdk_text :: "'v \<Rightarrow> string"

record chain_event =
  ce_type :: chain_event_type
  ce_groupId :: "string option"
  ce_ledger :: int
  ce_txHash :: string
  ce_raw :: "native option"

definition to_native :: "'v stellar_sdk \<Rightarrow> 'v \<Rightarrow> native" where
  "to_native K v = (case sdk_native K v of Some n \<Rightarrow> n | None \<Rightarrow> NString (sdk_text K v))"

definition event_type_of :: "native option \<Rightarrow> chain_event_type" where
  "event_type_of topic = (case topic of Some (NString s) \<Rightarrow> get_or EvUnknown (map_of topic_map s) | _ \<Rightarrow> EvUnknown)"

definition parse_contract_event :: "'v stellar_sdk \<Rightarrow> 'v raw_event \<Rightarrow> chain_event" where
  "parse_contract_event K raw =
     (let topics = get_or [] (re_topic raw)
      in \<lparr>ce_type = event_type_of (map_option (to_native K) (js_at topics 0)),
          ce_groupId = map_option (\<lambda>t. native_text (to_native K t)) (js_at topics 1),
          ce_ledger = get_or 0 (re_ledger raw),
          ce_txHash = (case re_txHash raw of Some h \<Rightarrow> h | None \<Rightarrow> get_or [] (re_id raw)),
          ce_raw = map_option (to_native K) (re_value raw)\<rparr>)"

section \<open>Tables\<close>

record group_row =
  gw_name :: string
  gw_contributionAmount :: int
  gw_frequency :: int
  gw_maxMembers :: int
  gw_currentRound :: int
  gw_isActive :: bool

record group_terms =
  gp_name :: string
  gp_contributionAmount :: int
  gp_frequency :: int
  gp_maxMembers :: int
  gp_currentRound :: "int option"
  gp_isActive :: "bool option"

record contribution_row =
  cw_groupId :: string
  cw_userId :: string
  cw_amount :: int
  cw_round :: int
  cw_txHash :: string

datatype chain_error = ChainDbDown | ForeignKeyMissing | DuplicateTxHash | OutOfRange | MalformedEvent | LookupError string

type_synonym event_data = "(string \<times> string) list"

record chain_state =
  cs_users :: "string list"
  cs_groups :: "(string, group_row) jsmap"
  cs_members :: "(string \<times> string) list"
  cs_contributions :: "contribution_row list"
  cs_notifier :: notifier
  cs_webhooks :: "event_data webhook_service"
  cs_now :: int
  cs_ops :: nat

record chain_host =
  ch_fails :: "nat \<Rightarrow> bool"
  ch_notes :: note_host
  ch_iso :: "int \<Rightarrow> string"
  ch_uuid :: "nat \<Rightarrow> string"

type_synonym 'a chain_method = "(chain_state, chain_error, 'a) js_method"

definition chain_op :: "chain_host \<Rightarrow> 'a chain_method \<Rightarrow> 'a chain_method" where
  "chain_op H f s = (let s' = s\<lparr>cs_ops := Suc (cs_ops s)\<rparr> in if ch_fails H (cs_ops s) then (Inl ChainDbDown, s') else f s')"

definition fits_bigint :: "int \<Rightarrow> bool" where
  "fits_bigint a \<longleftrightarrow> - (2 ^ 63) \<le> a \<and> a < 2 ^ 63"

definition fits_int :: "int \<Rightarrow> bool" where
  "fits_int a \<longleftrightarrow> - (2 ^ 31) \<le> a \<and> a < 2 ^ 31"

definition terms_fit :: "group_terms \<Rightarrow> bool" where
  "terms_fit d \<longleftrightarrow> fits_bigint (gp_contributionAmount d) \<and> fits_int (gp_maxMembers d) \<and>
     (case gp_currentRound d of None \<Rightarrow> True | Some n \<Rightarrow> fits_int n)"

definition upsert_wallet :: "chain_host \<Rightarrow> string \<Rightarrow> unit chain_method" where
  "upsert_wallet H walletAddress = chain_op H (\<lambda>s. (Inr (), s\<lparr>cs_users := js_add walletAddress (cs_users s)\<rparr>))"

definition updated_group :: "group_terms \<Rightarrow> group_row \<Rightarrow> group_row" where
  "updated_group d g = g\<lparr>gw_name := gp_name d, gw_contributionAmount := gp_contributionAmount d, gw_frequency := gp_frequency d,
     gw_maxMembers := gp_maxMembers d, gw_currentRound := get_or (gw_currentRound g) (gp_currentRound d),
     gw_isActive := get_or (gw_isActive g) (gp_isActive d)\<rparr>"

definition created_group :: "group_terms \<Rightarrow> group_row" where
  "created_group d = \<lparr>gw_name = gp_name d, gw_contributionAmount = gp_contributionAmount d, gw_frequency = gp_frequency d,
     gw_maxMembers = gp_maxMembers d, gw_currentRound = get_or 0 (gp_currentRound d), gw_isActive = get_or True (gp_isActive d)\<rparr>"

definition upsert_group :: "chain_host \<Rightarrow> string \<Rightarrow> group_terms \<Rightarrow> unit chain_method" where
  "upsert_group H groupId d = chain_op H (\<lambda>s.
     if \<not> terms_fit d then (Inl OutOfRange, s)
     else (Inr (), s\<lparr>cs_groups := js_set groupId
       (case js_get (cs_groups s) groupId of None \<Rightarrow> created_group d | Some g \<Rightarrow> updated_group d g) (cs_groups s)\<rparr>))"

definition add_group_member :: "chain_host \<Rightarrow> string \<Rightarrow> string \<Rightarrow> unit chain_method" where
  "add_group_member H groupId walletAddress =
     js_then (upsert_wallet H walletAddress) (\<lambda>_. chain_op H (\<lambda>s.
       if (groupId, walletAddress) \<in> set (cs_members s) then (Inr (), s)
       else if \<not> js_has (cs_groups s) groupId then (Inl ForeignKeyMissing, s)
       else (Inr (), s\<lparr>cs_members := cs_members s @ [(groupId, walletAddress)]\<rparr>)))"

definition contribution_by_tx :: "chain_host \<Rightarrow> string \<Rightarrow> contribution_row option chain_method" where
  "contribution_by_tx H txHash = chain_op H (\<lambda>s. (Inr (find (\<lambda>c. cw_txHash c = txHash) (cs_contributions s)), s))"

definition add_contribution :: "chain_host \<Rightarrow> contribution_row \<Rightarrow> unit chain_method" where
  "add_contribution H c =
     js_then (upsert_wallet H (cw_userId c)) (\<lambda>_. chain_op H (\<lambda>s.
       if \<not> fits_bigint (cw_amount c) then (Inl OutOfRange, s)
       else if \<not> js_has (cs_groups s) (cw_groupId c) then (Inl ForeignKeyMissing, s)
       else if cw_txHash c \<in> cw_txHash ` set (cs_contributions s) then (Inl DuplicateTxHash, s)
       else (Inr (), s\<lparr>cs_contributions := cs_contributions s @ [c]\<rparr>)))"

definition group_member_ids :: "chain_host \<Rightarrow> string \<Rightarrow> string list chain_method" where
  "group_member_ids H groupId = chain_op H (\<lambda>s. (Inr (map snd (filter (\<lambda>(g, u). g = groupId) (cs_members s))), s))"

text \<open>The other queries; rows are kept in the order of their creation, and asked for latest first.\<close>

definition get_user :: "chain_host \<Rightarrow> string \<Rightarrow> string option chain_method" where
  "get_user H walletAddress = chain_op H (\<lambda>s. (Inr (find (\<lambda>u. u = walletAddress) (cs_users s)), s))"

definition get_group_row :: "chain_host \<Rightarrow> string \<Rightarrow> (group_row \<times> string list \<times> contribution_row list) option chain_method" where
  "get_group_row H groupId = chain_op H (\<lambda>s. (Inr (map_option (\<lambda>g. (g, map snd (filter (\<lambda>(g, u). g = groupId) (cs_members s)),
     take 10 (rev (filter (\<lambda>c. cw_groupId c = groupId) (cs_contributions s))))) (js_get (cs_groups s) groupId)), s))"

definition get_all_groups :: "chain_host \<Rightarrow> (string \<times> group_row) list chain_method" where
  "get_all_groups H = chain_op H (\<lambda>s. (Inr (rev (filter (\<lambda>(i, g). gw_isActive g) (cs_groups s))), s))"

definition get_contributions :: "chain_host \<Rightarrow> string \<Rightarrow> int option \<Rightarrow> contribution_row list chain_method" where
  "get_contributions H groupId wanted = chain_op H (\<lambda>s.
     (Inr (rev (filter (\<lambda>c. cw_groupId c = groupId \<and> (case wanted of None \<Rightarrow> True | Some r \<Rightarrow> cw_round c = r)) (cs_contributions s))), s))"

section \<open>Handlers\<close>

definition trigger :: "chain_host \<Rightarrow> webhook_event_type \<Rightarrow> (string \<Rightarrow> event_data) \<Rightarrow> unit chain_method" where
  "trigger H event d s =
     (let iso = ch_iso H (cs_now s);
          payload = \<lparr>wp_id = ch_uuid H (cs_ops s), wp_event = event, wp_timestamp = iso, wp_data = d iso\<rparr>
      in (Inr (), s\<lparr>cs_webhooks := trigger_event payload (cs_webhooks s), cs_ops := Suc (cs_ops s)\<rparr>))"

definition note_for :: "notification_type \<Rightarrow> string \<Rightarrow> string \<Rightarrow> string \<Rightarrow> note_payload" where
  "note_for t title message groupId = \<lparr>np_type = t, np_title = title, np_message = message, np_groupId = Some groupId,
     np_actionUrl = None, np_metadata = None\<rparr>"

definition notify_user :: "chain_host \<Rightarrow> string \<Rightarrow> note_payload \<Rightarrow> unit chain_method" where
  "notify_user H userId p s = (Inr (), s\<lparr>cs_notifier := send_to_user (ch_notes H) userId p (cs_notifier s)\<rparr>)"

definition notify_group :: "chain_host \<Rightarrow> string \<Rightarrow> note_payload \<Rightarrow> string option \<Rightarrow> unit chain_method" where
  "notify_group H groupId p excludeUserId =
     js_then (group_member_ids H groupId) (\<lambda>members s.
       (Inr (), s\<lparr>cs_notifier := send_to_group (ch_notes H) members groupId p excludeUserId (cs_notifier s)\<rparr>))"

text \<open>\<open>if (!groupId) return; if (!raw) return\<close>.\<close>

definition with_group :: "chain_event \<Rightarrow> (string \<Rightarrow> unit chain_method) \<Rightarrow> unit chain_method" where
  "with_group event body = (case truthy (ce_groupId event) of None \<Rightarrow> js_return () | Some groupId \<Rightarrow> body groupId)"

definition raw_of :: "chain_event \<Rightarrow> native option" where
  "raw_of event = (case ce_raw event of None \<Rightarrow> None | Some n \<Rightarrow> if native_truthy n then Some n else None)"

definition group_name :: "string \<Rightarrow> string" where
  "group_name groupId = ''Group '' @ groupId"

text \<open>The client refuses, without a call, a size that is no number, and then a creator that is no text.\<close>

definition handle_group_created :: "chain_host \<Rightarrow> chain_event \<Rightarrow> unit chain_method" where
  "handle_group_created H event = with_group event (\<lambda>groupId.
     case raw_of event of
       None \<Rightarrow> js_return ()
     | Some raw \<Rightarrow>
         (case entries raw of
            None \<Rightarrow> js_throw MalformedEvent
          | Some xs \<Rightarrow>
              (case (big_int (js_at xs 1), js_at xs 2) of
                 (Some amount, Some (NNumber maxMembers)) \<Rightarrow>
                   js_then (upsert_group H groupId \<lparr>gp_name = group_name groupId, gp_contributionAmount = amount, gp_frequency = 30,
                       gp_maxMembers = maxMembers, gp_currentRound = None, gp_isActive = Some True\<rparr>) (\<lambda>_.
                     case js_at xs 0 of
                       Some (NString creator) \<Rightarrow>
                         js_then (upsert_wallet H creator) (\<lambda>_.
                           trigger H GroupCreated (\<lambda>iso. [(''groupId'', groupId), (''creator'', creator), (''contributionAmount'', shown (js_at xs 1)),
                             (''maxMembers'', show_int maxMembers), (''createdAt'', iso)]))
                     | _ \<Rightarrow> js_throw MalformedEvent)
               | _ \<Rightarrow> js_throw MalformedEvent)))"

definition handle_member_joined :: "chain_host \<Rightarrow> chain_event \<Rightarrow> unit chain_method" where
  "handle_member_joined H event = with_group event (\<lambda>groupId.
     case raw_of event of
       None \<Rightarrow> js_return ()
     | Some (NString member) \<Rightarrow>
         js_then (add_group_member H groupId member) (\<lambda>_.
           js_then (notify_group H groupId (note_for MemberJoinedNote ''New Member'' ''A new member joined the group.'' groupId) (Some member)) (\<lambda>_.
             trigger H MemberJoined (\<lambda>iso. [(''groupId'', groupId), (''memberAddress'', member), (''joinedAt'', iso)])))
     | Some _ \<Rightarrow> js_throw MalformedEvent)"

text \<open>
  The parser gives no \<open>cycle\<close> in the data: \<open>data.cycle ?? 0\<close> is 0. The amount is converted after the look-up, and the member is
  looked at by the client after that.
\<close>

definition handle_contribution_made :: "chain_host \<Rightarrow> chain_event \<Rightarrow> unit chain_method" where
  "handle_contribution_made H event = with_group event (\<lambda>groupId.
     case raw_of event of
       None \<Rightarrow> js_return ()
     | Some raw \<Rightarrow>
         (case entries raw of
            None \<Rightarrow> js_throw MalformedEvent
          | Some xs \<Rightarrow>
              js_then (contribution_by_tx H (ce_txHash event)) (\<lambda>existing.
                if existing \<noteq> None then js_return ()
                else (case (js_at xs 0, big_int (js_at xs 1)) of
                  (Some (NString member), Some amount) \<Rightarrow>
                    js_then (add_contribution H \<lparr>cw_groupId = groupId, cw_userId = member, cw_amount = amount, cw_round = 0,
                        cw_txHash = ce_txHash event\<rparr>) (\<lambda>_.
                      js_then (notify_user H member (note_for ContributionReceived ''Contribution Confirmed''
                          (''Your contribution of '' @ shown (js_at xs 1) @ '' stroops was recorded.'') groupId)) (\<lambda>_.
                        trigger H ContributionMade (\<lambda>iso. [(''groupId'', groupId), (''contributor'', member), (''amount'', shown (js_at xs 1)),
                          (''txHash'', ce_txHash event), (''cycle'', ''0''), (''contributedAt'', iso)])))
                | _ \<Rightarrow> js_throw MalformedEvent))))"

text \<open>\<open>amount.toString()\<close> throws, after the notification, for an amount that is undefined or null.\<close>

definition handle_payout_executed :: "chain_host \<Rightarrow> chain_event \<Rightarrow> unit chain_method" where
  "handle_payout_executed H event = with_group event (\<lambda>groupId.
     case raw_of event of
       None \<Rightarrow> js_return ()
     | Some raw \<Rightarrow>
         (case entries raw of
            None \<Rightarrow> js_throw MalformedEvent
          | Some xs \<Rightarrow>
              (let amount = js_at xs 1;
                   d = (\<lambda>iso. [(''groupId'', groupId)] @ field_of ''recipient'' (js_at xs 0) @ [(''amount'', shown amount), (''dispatchedAt'', iso)])
               in js_then (case js_at xs 0 of
                      Some (NString recipient) \<Rightarrow> notify_user H recipient (note_for PayoutReceived ''Payout Received''
                        (''You received a payout of '' @ shown amount @ '' stroops.'') groupId)
                    | _ \<Rightarrow> js_return ()) (\<lambda>_.
                    if amount = None \<or> amount = Some NNull then js_throw MalformedEvent
                    else js_then (trigger H PayoutExecuted d) (\<lambda>_. trigger H PayoutCompleted d)))))"

definition handle_group_completed :: "chain_host \<Rightarrow> chain_event \<Rightarrow> unit chain_method" where
  "handle_group_completed H event = with_group event (\<lambda>groupId.
     js_then (upsert_group H groupId \<lparr>gp_name = group_name groupId, gp_contributionAmount = 0, gp_frequency = 0, gp_maxMembers = 0,
         gp_currentRound = None, gp_isActive = Some False\<rparr>) (\<lambda>_.
       js_then (notify_group H groupId (note_for CycleCompleted ''Group Completed''
           ''All cycles have been completed. The group is now closed.'' groupId) None) (\<lambda>_.
         trigger H GroupCompleted (\<lambda>iso. [(''groupId'', groupId), (''completedAt'', iso)]))))"

text \<open>\<open>raw?.[0]\<close>; an undefined round leaves the column alone and is not printed.\<close>

definition first_entry :: "native option \<Rightarrow> native option" where
  "first_entry raw = (case raw of
     Some (NArray xs) \<Rightarrow> js_at xs 0
   | Some (NString s) \<Rightarrow> map_option (\<lambda>c. NString [c]) (js_at s 0)
   | _ \<Rightarrow> None)"

definition begin_cycle :: "chain_host \<Rightarrow> string \<Rightarrow> int option \<Rightarrow> unit chain_method" where
  "begin_cycle H groupId newCycle =
     js_then (upsert_group H groupId \<lparr>gp_name = group_name groupId, gp_contributionAmount = 0, gp_frequency = 0, gp_maxMembers = 0,
         gp_currentRound = newCycle, gp_isActive = None\<rparr>) (\<lambda>_.
       trigger H CycleStarted (\<lambda>iso. [(''groupId'', groupId)] @
         (case newCycle of None \<Rightarrow> [] | Some n \<Rightarrow> [(''cycleNumber'', show_int n)]) @ [(''startedAt'', iso)]))"

definition handle_cycle_advanced :: "chain_host \<Rightarrow> chain_event \<Rightarrow> unit chain_method" where
  "handle_cycle_advanced H event = with_group event (\<lambda>groupId.
     case first_entry (ce_raw event) of
       None \<Rightarrow> begin_cycle H groupId None
     | Some (NNumber n) \<Rightarrow> begin_cycle H groupId (Some n)
     | Some _ \<Rightarrow> js_throw MalformedEvent)"

definition process_event :: "chain_host \<Rightarrow> chain_event \<Rightarrow> unit chain_method" where
  "process_event H event =
     (case ce_type event of
        EvGroupCreated \<Rightarrow> handle_group_created H event
      | EvMemberJoined \<Rightarrow> handle_member_joined H event
      | EvContributionMade \<Rightarrow> handle_contribution_made H event
      | EvPayoutExecuted \<Rightarrow> handle_payout_executed H event
      | EvGroupCompleted \<Rightarrow> handle_group_completed H event
      | EvCycleAdvanced \<Rightarrow> handle_cycle_advanced H event
      | _ \<Rightarrow> js_return ())"

definition process_raw :: "chain_host \<Rightarrow> 'v stellar_sdk \<Rightarrow> 'v raw_event \<Rightarrow> unit chain_method" where
  "process_raw H K raw = process_event H (parse_contract_event K raw)"


section \<open>The event stream\<close>

text \<open>
  One event stream per \<open>listen\<close>, numbered in order; \<open>st_refused\<close> says which ones the SDK refuses to open, by throwing.
  A closed stream calls back no more. \<open>bl_timers\<close> are the reconnects under way.
\<close>

record 'v listener =
  bl_cursor :: string
  bl_delay :: int
  bl_stopped :: bool
  bl_stopStream :: "nat option"
  bl_open :: "nat list"
  bl_next :: nat
  bl_timers :: "int list"
  bl_now :: int
  bl_failed :: "'v raw_event list"
  bl_chain :: chain_state

definition reconnect_delay_ms :: int where
  "reconnect_delay_ms = 5000"

definition max_reconnect_delay_ms :: int where
  "max_reconnect_delay_ms = 60000"

definition close_stream :: "'v listener \<Rightarrow> 'v listener" where
  "close_stream l = (case bl_stopStream l of None \<Rightarrow> l | Some i \<Rightarrow> l\<lparr>bl_open := js_remove i (bl_open l)\<rparr>)"

definition schedule_reconnect :: "'v listener \<Rightarrow> 'v listener" where
  "schedule_reconnect l =
     (if bl_stopped l then l
      else (close_stream l)\<lparr>bl_stopStream := None, bl_timers := bl_timers l @ [bl_now l + bl_delay l],
             bl_delay := min (bl_delay l * 2) max_reconnect_delay_ms\<rparr>)"

definition listen :: "(nat \<Rightarrow> bool) \<Rightarrow> 'v listener \<Rightarrow> 'v listener" where
  "listen refused l =
     (let l' = l\<lparr>bl_next := Suc (bl_next l)\<rparr>
      in if refused (bl_next l) then schedule_reconnect l'
         else l'\<lparr>bl_open := bl_open l @ [bl_next l], bl_stopStream := Some (bl_next l)\<rparr>)"

definition start_listener :: "(nat \<Rightarrow> bool) \<Rightarrow> 'v listener \<Rightarrow> 'v listener" where
  "start_listener refused l = listen refused (l\<lparr>bl_stopped := False\<rparr>)"

definition stop_listener :: "'v listener \<Rightarrow> 'v listener" where
  "stop_listener l = close_stream (l\<lparr>bl_stopped := True\<rparr>)"

text \<open>\<open>onmessage\<close>: the cursor moves first; a rejected event is logged.\<close>

definition handle_event :: "chain_host \<Rightarrow> 'v stellar_sdk \<Rightarrow> 'v raw_event \<Rightarrow> 'v listener \<Rightarrow> 'v listener" where
  "handle_event H K e l =
     (let l1 = l\<lparr>bl_delay := reconnect_delay_ms, bl_cursor := get_or (bl_cursor l) (truthy (re_pagingToken e))\<rparr>
      in case process_raw H K e (bl_chain l1) of
           (Inr _, c) \<Rightarrow> l1\<lparr>bl_chain := c\<rparr>
         | (Inl _, c) \<Rightarrow> l1\<lparr>bl_chain := c, bl_failed := bl_failed l1 @ [e]\<rparr>)"

definition reconnect_timer :: "(nat \<Rightarrow> bool) \<Rightarrow> 'v listener \<Rightarrow> 'v listener" where
  "reconnect_timer refused l = (if bl_stopped l then l else listen refused l)"

definition new_listener :: "int \<Rightarrow> chain_state \<Rightarrow> 'v listener" where
  "new_listener now c = \<lparr>bl_cursor = ''now'', bl_delay = reconnect_delay_ms, bl_stopped = False, bl_stopStream = None, bl_open = [],
     bl_next = 0, bl_timers = [], bl_now = now, bl_failed = [], bl_chain = c\<rparr>"

datatype 'v listener_label = Started | Stopped | Message nat "'v raw_event" | StreamError nat | TimerFired int | Wait nat

inductive listener_step ::
  "chain_host \<Rightarrow> 'v stellar_sdk \<Rightarrow> (nat \<Rightarrow> bool) \<Rightarrow> 'v listener_label \<Rightarrow> 'v listener \<Rightarrow> 'v listener \<Rightarrow> bool"
  for H K refused where
    start: "listener_step H K refused Started l (start_listener refused l)"
  | stop: "listener_step H K refused Stopped l (stop_listener l)"
  | message: "i \<in> set (bl_open l) \<Longrightarrow> listener_step H K refused (Message i e) l (handle_event H K e l)"
  | error: "i \<in> set (bl_open l) \<Longrightarrow> listener_step H K refused (StreamError i) l (schedule_reconnect l)"
  | timer: "bl_timers l = before @ t # after \<Longrightarrow> t \<le> bl_now l \<Longrightarrow>
      listener_step H K refused (TimerFired t) l (reconnect_timer refused (l\<lparr>bl_timers := before @ after\<rparr>))"
  | wait: "listener_step H K refused (Wait n) l (l\<lparr>bl_now := bl_now l + int n\<rparr>)"

inductive_cases listener_stepE: "listener_step H K refused a l l'"

inductive listener_run ::
  "chain_host \<Rightarrow> 'v stellar_sdk \<Rightarrow> (nat \<Rightarrow> bool) \<Rightarrow> 'v listener \<Rightarrow> 'v listener_label list \<Rightarrow> 'v listener \<Rightarrow> bool"
  for H K refused l0 where
    nothing: "listener_run H K refused l0 [] l0"
  | snoc: "listener_run H K refused l0 as l \<Longrightarrow> listener_step H K refused a l l' \<Longrightarrow> listener_run H K refused l0 (as @ [a]) l'"


section \<open>Streams of events\<close>

lemma js_has_set [simp]: "js_has (js_set k v m) k' \<longleftrightarrow> k' = k \<or> js_has m k'"
  by (auto simp: js_has_iff js_set_keys)

text \<open>All events of a stream, whether they are taken or refused.\<close>

definition process_all :: "chain_host \<Rightarrow> 'v stellar_sdk \<Rightarrow> 'v raw_event list \<Rightarrow> chain_state \<Rightarrow> chain_state" where
  "process_all H K es s = fold (\<lambda>e s. snd (process_raw H K e s)) es s"

lemma process_all_simps [simp]:
  "process_all H K [] s = s" "process_all H K (e # es) s = process_all H K es (snd (process_raw H K e s))"
  by (simp_all add: process_all_def)

section \<open>Contributions, once each\<close>

text \<open>
  What an event means for the contributions: it makes a group known, it asks for a row, or neither. Contributions of a group
  that is not known, and of a transaction that has a row, are left out.
\<close>

datatype booking = Opens string | Books contribution_row | Nothing

definition booking_of :: "string \<Rightarrow> chain_event \<Rightarrow> booking" where
  "booking_of g e =
     (let xs = Option.bind (raw_of e) entries
      in case ce_type e of
           EvGroupCreated \<Rightarrow>
             (case xs of None \<Rightarrow> Nothing | Some xs \<Rightarrow> (case (big_int (js_at xs 1), js_at xs 2) of
                (Some a, Some (NNumber m)) \<Rightarrow> if fits_bigint a \<and> fits_int m then Opens g else Nothing | _ \<Rightarrow> Nothing))
         | EvContributionMade \<Rightarrow>
             (case xs of None \<Rightarrow> Nothing | Some xs \<Rightarrow> (case (js_at xs 0, big_int (js_at xs 1)) of
                (Some (NString w), Some a) \<Rightarrow> if fits_bigint a
                  then Books \<lparr>cw_groupId = g, cw_userId = w, cw_amount = a, cw_round = 0, cw_txHash = ce_txHash e\<rparr> else Nothing
              | _ \<Rightarrow> Nothing))
         | EvGroupCompleted \<Rightarrow> Opens g
         | EvCycleAdvanced \<Rightarrow>
             (case first_entry (ce_raw e) of None \<Rightarrow> Opens g | Some (NNumber n) \<Rightarrow> if fits_int n then Opens g else Nothing | _ \<Rightarrow> Nothing)
         | _ \<Rightarrow> Nothing)"

definition meaning :: "'v stellar_sdk \<Rightarrow> 'v raw_event \<Rightarrow> booking" where
  "meaning K raw = (let e = parse_contract_event K raw in case truthy (ce_groupId e) of None \<Rightarrow> Nothing | Some g \<Rightarrow> booking_of g e)"

fun book :: "booking \<Rightarrow> string set \<times> contribution_row list \<Rightarrow> string set \<times> contribution_row list" where
  "book (Opens g) (gs, cs) = (insert g gs, cs)"
| "book (Books c) (gs, cs) = (gs, if cw_groupId c \<in> gs \<and> cw_txHash c \<notin> cw_txHash ` set cs then cs @ [c] else cs)"
| "book Nothing x = x"

text \<open>What the table holds of groups and contributions.\<close>

definition books :: "chain_state \<Rightarrow> string set \<times> contribution_row list" where
  "books s = (fst ` set (cs_groups s), cs_contributions s)"

lemma books_untouched [keeps_rules]:
  "db_keeps books P (upsert_wallet H w)" "db_keeps books P (add_group_member H g w)" "db_keeps books P (trigger H ev dt)"
  "db_keeps books P (notify_user H u p)" "db_keeps books P (notify_group H g p ex)"
  by (simp_all add: books_def db_keeps_def js_then_def chain_op_def upsert_wallet_def add_group_member_def trigger_def
      notify_user_def notify_group_def group_member_ids_def Let_def split: prod.split sum.split)

lemma books_member_joined: "db_keeps books P (handle_member_joined H e)"
  unfolding handle_member_joined_def with_group_def by (auto split: native.split intro!: keeps_rules)

lemma books_payout_executed: "db_keeps books P (handle_payout_executed H e)"
proof -
  have "db_keeps books P (case y of NString w \<Rightarrow> notify_user H w p | _ \<Rightarrow> js_return ())" for y p
    by (cases y) (simp_all add: keeps_rules)
  then show ?thesis unfolding handle_payout_executed_def with_group_def Let_def by (intro keeps_rules)
qed

lemma silent_events:
  assumes "ce_type e \<notin> {EvGroupCreated, EvContributionMade, EvGroupCompleted, EvCycleAdvanced}"
  shows "books (snd (process_event H e s)) = books s"
proof -
  have "db_keeps books (\<lambda>b. b = books s) (process_event H e)"
    using assms books_member_joined books_payout_executed by (cases "ce_type e") (simp_all add: process_event_def db_keeps_return)
  then show ?thesis by (auto dest: db_keepsD)
qed

definition db_up :: "chain_host \<Rightarrow> bool" where
  "db_up H \<longleftrightarrow> (\<forall>n. \<not> ch_fails H n)"

lemma op_up: "db_up H \<Longrightarrow> chain_op H f s = f (s\<lparr>cs_ops := Suc (cs_ops s)\<rparr>)"
  by (simp add: db_up_def chain_op_def Let_def)

lemma find_tx: "find (\<lambda>c. cw_txHash c = h) cs \<noteq> None \<longleftrightarrow> h \<in> cw_txHash ` set cs"
  by (auto simp: find_None_iff)

lemmas event_ops = js_then_def op_up upsert_group_def upsert_wallet_def contribution_by_tx_def add_contribution_def notify_user_def trigger_def
  notify_group_def group_member_ids_def begin_cycle_def terms_fit_def books_def with_group_def Let_def

lemma event_books:
  assumes "db_up H"
  shows "books (snd (process_event H e s)) = book (case truthy (ce_groupId e) of None \<Rightarrow> Nothing | Some g \<Rightarrow> booking_of g e) (books s)"
proof (cases "truthy (ce_groupId e)")
  case None
  then show ?thesis
    by (simp add: process_event_def handle_group_created_def handle_member_joined_def handle_contribution_made_def handle_payout_executed_def
        handle_group_completed_def handle_cycle_advanced_def with_group_def split: chain_event_type.split)
next
  case (Some g)
  show ?thesis
  proof (cases "ce_type e \<in> {EvGroupCreated, EvContributionMade, EvGroupCompleted, EvCycleAdvanced}")
    case False
    then have "booking_of g e = Nothing" by (cases "ce_type e") (simp_all add: booking_of_def)
    then show ?thesis using silent_events [OF False, of H s] Some by simp
  next
    case True
    then consider "ce_type e = EvGroupCreated" | "ce_type e = EvContributionMade" | "ce_type e = EvGroupCompleted" | "ce_type e = EvCycleAdvanced"
      by blast
    then show ?thesis
    proof cases
      case 1
      then show ?thesis using assms Some
        by (auto simp: process_event_def handle_group_created_def booking_of_def event_ops js_set_keys split: option.split native.split)
    next
      case 2
      then show ?thesis using assms Some find_tx [of "ce_txHash e" "cs_contributions s"]
        by (auto simp: process_event_def handle_contribution_made_def booking_of_def event_ops js_has_iff split: option.split native.split)
    next
      case 3
      then show ?thesis using assms Some
        by (auto simp: process_event_def handle_group_completed_def booking_of_def event_ops js_set_keys fits_bigint_def fits_int_def)
    next
      case 4
      then show ?thesis using assms Some
        by (auto simp: process_event_def handle_cycle_advanced_def booking_of_def event_ops js_set_keys fits_bigint_def fits_int_def
            split: option.split native.split)
    qed
  qed
qed

lemma booked_fold:
  assumes "db_up H"
  shows "books (process_all H K es s) = fold book (map (meaning K) es) (books s)"
  by (induction es arbitrary: s) (simp_all add: process_raw_def event_books [OF assms] meaning_def Let_def)

text \<open>
  C4. While the database answers, the tables know after any stream of events exactly the groups and hold exactly the
  contributions of the reference booking of the stream: in the order of the events, the first contribution of each transaction that comes
  after its group is known, and nothing else, whatever is repeated, of any shape, or interleaved.
\<close>

theorem contributions_booked_once:
  assumes "db_up H"
  shows "(fst ` set (cs_groups (process_all H K es s)), cs_contributions (process_all H K es s))
    = fold book (map (meaning K) es) (fst ` set (cs_groups s), cs_contributions s)"
  using booked_fold [OF assms, of K es s] by (simp add: books_def)

text \<open>
  C24. A contribution event that is delivered again books, notifies and triggers nothing, even when database calls fail.
\<close>

theorem replayed_contribution_ignored:
  assumes "ce_type e = EvContributionMade" and "ce_txHash e \<in> cw_txHash ` set (cs_contributions s)"
  shows "snd (process_event H e s) = s\<lparr>cs_ops := cs_ops (snd (process_event H e s))\<rparr>"
  using assms find_tx [of "ce_txHash e" "cs_contributions s"]
  by (auto simp: process_event_def handle_contribution_made_def with_group_def contribution_by_tx_def js_then_def chain_op_def Let_def
      split: option.split)


section \<open>What a cycle does to a group\<close>

lemma advance_row:
  assumes "ce_type e = EvCycleAdvanced" and "ce_groupId e = Some g" and "g \<noteq> []" and "first_entry (ce_raw e) = Some (NNumber n)" and "fits_int n"
    and "\<not> ch_fails H (cs_ops s)" and "js_get (cs_groups s) g = Some row"
  shows "js_get (cs_groups (snd (process_event H e s))) g =
    Some (row\<lparr>gw_name := group_name g, gw_contributionAmount := 0, gw_frequency := 0, gw_maxMembers := 0, gw_currentRound := n\<rparr>)"
  using assms
  by (simp add: process_event_def handle_cycle_advanced_def begin_cycle_def with_group_def upsert_group_def chain_op_def js_then_def
      trigger_def updated_group_def terms_fit_def fits_bigint_def fits_int_def Let_def js_simps)

text \<open>
  Every cycle that begins wipes the terms of its group: the round is taken over, and the name, the contribution
  amount, the frequency and the size of the group that \<open>GroupCreated\<close> had stored are overwritten, with a generic name
  and zeros.
\<close>

theorem cycle_event_erases_terms:
  assumes "db_up H" and "js_get (cs_groups s) g = None" and "g \<noteq> []" and "fits_bigint amount" and "fits_int members" and "fits_int n"
    and "ce_type created = EvGroupCreated" and "ce_groupId created = Some g"
    and "ce_raw created = Some (NArray [NString creator, NNumber amount, NNumber members])"
    and "ce_type cycle = EvCycleAdvanced" and "ce_groupId cycle = Some g" and "ce_raw cycle = Some (NArray [NNumber n, started])"
  shows "js_get (cs_groups (snd (process_event H created s))) g = Some \<lparr>gw_name = group_name g, gw_contributionAmount = amount,
      gw_frequency = 30, gw_maxMembers = members, gw_currentRound = 0, gw_isActive = True\<rparr>
    \<and> js_get (cs_groups (snd (process_event H cycle (snd (process_event H created s))))) g = Some \<lparr>gw_name = group_name g,
      gw_contributionAmount = 0, gw_frequency = 0, gw_maxMembers = 0, gw_currentRound = n, gw_isActive = True\<rparr>"
proof (rule conjI)
  show row: "js_get (cs_groups (snd (process_event H created s))) g = Some \<lparr>gw_name = group_name g, gw_contributionAmount = amount,
      gw_frequency = 30, gw_maxMembers = members, gw_currentRound = 0, gw_isActive = True\<rparr>"
    using assms
    by (simp add: process_event_def handle_group_created_def with_group_def raw_of_def upsert_group_def upsert_wallet_def js_then_def
        trigger_def op_up created_group_def terms_fit_def entries_def big_int_def js_at_def Let_def js_simps)
  show "js_get (cs_groups (snd (process_event H cycle (snd (process_event H created s))))) g = Some \<lparr>gw_name = group_name g,
      gw_contributionAmount = 0, gw_frequency = 0, gw_maxMembers = 0, gw_currentRound = n, gw_isActive = True\<rparr>"
    using advance_row [OF assms(10,11,3) _ assms(6) _ row, of H] assms(1,12)
    by (simp add: first_entry_def js_at_def db_up_def)
qed

text \<open>No contribution carries its round: the table only ever gets round 0.\<close>

lemma booked_round_zero: "meaning K raw = Books c \<Longrightarrow> cw_round c = 0"
  by (auto simp: meaning_def booking_of_def Let_def split: option.splits native.splits chain_event_type.splits if_splits)

lemma rounds_zero: "list_all (\<lambda>c. cw_round c = 0) (snd b) \<Longrightarrow> list_all (\<lambda>c. cw_round c = 0) (snd (fold book (map (meaning K) es) b))"
proof (induction es arbitrary: b)
  case (Cons e es)
  have "list_all (\<lambda>c. cw_round c = 0) (snd (book (meaning K e) b))"
    using Cons.prems by (cases b; cases "meaning K e") (simp_all add: booked_round_zero)
  then show ?case using Cons.IH by simp
qed simp

text \<open>
  The contract puts the cycle of a contribution into the third topic, which the parser drops: asked for the
  contributions of a cycle other than 0, the database answers with none, whatever events it has booked.
\<close>

theorem contributions_lose_their_round:
  assumes "db_up H" and "cs_contributions s = []" and "r \<noteq> 0"
  shows "fst (get_contributions H g (Some r) (process_all H K es s)) = Inr []"
proof -
  have "list_all (\<lambda>c. cw_round c = 0) (snd (books (process_all H K es s)))"
    unfolding booked_fold [OF assms(1)] by (rule rounds_zero) (simp add: books_def assms(2))
  then show ?thesis
    using assms(3) by (simp add: books_def get_contributions_def list_all_iff op_up [OF assms(1)])
qed

section \<open>The stream stays up\<close>

definition backoff_ok :: "'v listener \<Rightarrow> bool" where
  "backoff_ok l \<longleftrightarrow> reconnect_delay_ms \<le> bl_delay l \<and> bl_delay l \<le> max_reconnect_delay_ms \<and>
     list_all (\<lambda>t. t \<le> bl_now l + max_reconnect_delay_ms) (bl_timers l)"

lemmas listener_defs = schedule_reconnect_def close_stream_def listen_def start_listener_def stop_listener_def handle_event_def
  reconnect_timer_def Let_def

lemma handle_event_frame [simp]:
  "bl_stopped (handle_event H K e l) = bl_stopped l" "bl_stopStream (handle_event H K e l) = bl_stopStream l"
  "bl_open (handle_event H K e l) = bl_open l" "bl_timers (handle_event H K e l) = bl_timers l"
  "bl_now (handle_event H K e l) = bl_now l" "bl_delay (handle_event H K e l) = reconnect_delay_ms"
  "bl_next (handle_event H K e l) = bl_next l"
  by (simp_all add: handle_event_def Let_def split: prod.split sum.split)

lemma close_stream_frame [simp]:
  "bl_stopped (close_stream l) = bl_stopped l" "bl_timers (close_stream l) = bl_timers l" "bl_now (close_stream l) = bl_now l"
  "bl_delay (close_stream l) = bl_delay l" "bl_next (close_stream l) = bl_next l" "bl_stopStream (close_stream l) = bl_stopStream l"
  by (simp_all add: close_stream_def split: option.split)

lemma backoff_schedule: "backoff_ok l \<Longrightarrow> backoff_ok (schedule_reconnect l)"
  by (auto simp: backoff_ok_def schedule_reconnect_def reconnect_delay_ms_def max_reconnect_delay_ms_def)

lemma backoff_listen: "backoff_ok l \<Longrightarrow> backoff_ok (listen refused l)"
  using backoff_schedule [of "l\<lparr>bl_next := Suc (bl_next l)\<rparr>"] by (auto simp: backoff_ok_def listen_def Let_def)

lemma backoff_step: "listener_step H K refused a l l' \<Longrightarrow> backoff_ok l \<Longrightarrow> backoff_ok l'"
proof (induction rule: listener_step.induct)
  case (start l)
  then show ?case unfolding start_listener_def by (intro backoff_listen) (simp add: backoff_ok_def)
next
  case (timer l before t after)
  then have "backoff_ok (l\<lparr>bl_timers := before @ after\<rparr>)" by (auto simp: backoff_ok_def)
  then show ?case unfolding reconnect_timer_def using backoff_listen by fastforce
next
  case (wait l n)
  then show ?case by (fastforce simp: backoff_ok_def list_all_iff)
qed (auto simp: backoff_schedule, auto simp: backoff_ok_def stop_listener_def reconnect_delay_ms_def max_reconnect_delay_ms_def)

definition listening :: "'v listener \<Rightarrow> bool" where
  "listening l \<longleftrightarrow> bl_stopped l \<or> bl_open l \<noteq> [] \<or> bl_timers l \<noteq> []"

lemma listening_listen: "listening (listen refused l)"
  by (auto simp: listening_def listen_def schedule_reconnect_def Let_def)

lemma listening_step: "listener_step H K refused a l l' \<Longrightarrow> listening l \<Longrightarrow> listening l'"
  by (induction rule: listener_step.induct)
    (auto simp: start_listener_def listening_listen reconnect_timer_def,
     auto simp: listening_def stop_listener_def schedule_reconnect_def)

text \<open>
  C10. From the moment it is started the listener, unless it is stopped, has an open stream or a reconnect under way, at
  most a minute ahead; the delay stays between five seconds and a minute.
\<close>

theorem listener_never_deaf:
  assumes "listener_run H K refused (new_listener now c) as l"
  shows "reconnect_delay_ms \<le> bl_delay l \<and> bl_delay l \<le> max_reconnect_delay_ms \<and>
    (Started \<in> set as \<longrightarrow> \<not> bl_stopped l \<longrightarrow>
      bl_open l \<noteq> [] \<or> (\<exists>t \<in> set (bl_timers l). t \<le> bl_now l + max_reconnect_delay_ms))"
proof -
  have "backoff_ok l \<and> (Started \<in> set as \<longrightarrow> listening l)"
    using assms
  proof (induction rule: listener_run.induct)
    case nothing
    then show ?case by (simp add: backoff_ok_def new_listener_def reconnect_delay_ms_def max_reconnect_delay_ms_def)
  next
    case (snoc as l a l')
    have "a = Started \<Longrightarrow> listening l'"
      using snoc.hyps(2) by (auto elim!: listener_stepE simp: start_listener_def listening_listen)
    then show ?case using snoc backoff_step listening_step by auto
  qed
  then show ?thesis
    by (auto simp: backoff_ok_def listening_def list_all_iff neq_Nil_conv)
qed


definition one_stream :: "'v listener \<Rightarrow> bool" where
  "one_stream l \<longleftrightarrow> length (bl_open l) + length (bl_timers l) \<le> 1 \<and> (\<forall>i \<in> set (bl_open l). bl_stopStream l = Some i)"

lemma one_stream_schedule: "one_stream l \<Longrightarrow> bl_open l \<noteq> [] \<or> bl_timers l = [] \<Longrightarrow> one_stream (schedule_reconnect l)"
  by (cases "bl_open l") (auto simp: one_stream_def schedule_reconnect_def close_stream_def js_remove_def split: option.split)

lemma one_stream_listen: "bl_open l = [] \<Longrightarrow> bl_timers l = [] \<Longrightarrow> one_stream (listen refused l)"
  by (auto simp: one_stream_def listen_def schedule_reconnect_def close_stream_def js_remove_def Let_def split: option.split)

lemma one_stream_step:
  "listener_step H K refused a l l' \<Longrightarrow> one_stream l \<Longrightarrow> a \<noteq> Started \<or> bl_open l = [] \<and> bl_timers l = [] \<Longrightarrow> one_stream l'"
proof (induction rule: listener_step.induct)
  case (start l)
  then show ?case by (simp add: start_listener_def one_stream_listen)
next
  case (stop l)
  then show ?case by (cases "bl_open l") (auto simp: one_stream_def stop_listener_def close_stream_def js_remove_def split: option.split)
next
  case (message i l e)
  then show ?case by (simp add: one_stream_def)
next
  case (error i l)
  then show ?case by (intro one_stream_schedule) auto
next
  case (timer l before t after)
  then have idle: "bl_open l = []" "before @ after = []" by (auto simp: one_stream_def)
  then have "one_stream (listen refused (l\<lparr>bl_timers := before @ after\<rparr>))" by (intro one_stream_listen) simp_all
  then show ?case using idle by (cases "bl_stopped l") (simp_all add: reconnect_timer_def one_stream_def)
next
  case (wait l n)
  then show ?case by (simp add: one_stream_def)
qed

text \<open>
  A listener that is started once listens to at most one stream at any time, whatever breaks and reconnects, so the
  events of one stream reach the tables once.
\<close>

theorem listener_one_stream:
  assumes "listener_run H K refused (new_listener now c) (Started # as) l" and "Started \<notin> set as"
  shows "length (bl_open l) + length (bl_timers l) \<le> 1"
proof -
  have "as' = [] \<and> l = new_listener now c \<or> as' \<noteq> [] \<and> (Started \<in> set (tl as') \<or> hd as' \<noteq> Started \<or> one_stream l)"
    if "listener_run H K refused (new_listener now c) as' l" for as' l
    using that
  proof (induction rule: listener_run.induct)
    case (snoc as' l a l')
    show ?case
    proof (cases "as' = []")
      case True
      then have "a = Started \<Longrightarrow> one_stream l'"
        using snoc by (intro one_stream_step [OF snoc.hyps(2)]) (auto simp: new_listener_def one_stream_def)
      then show ?thesis using True by auto
    next
      case False
      then show ?thesis using snoc one_stream_step [OF snoc.hyps(2)] by auto
    qed
  qed simp
  from this [OF assms(1)] show ?thesis using assms(2) by (auto simp: one_stream_def)
qed

text \<open>
  Stopping leaves the reconnect timer running: a listener that is stopped and started again while a reconnect is
  under way ends up on two streams, and the next stop closes only one of them: the other goes on delivering.
\<close>

theorem restart_leaks_stream:
  fixes K :: "'v stellar_sdk"
  shows "\<exists>l. listener_run H K (\<lambda>_. False) (new_listener now c)
      [Started, StreamError 0, Stopped, Started, Wait 5000, TimerFired (now + 5000), Stopped] l \<and> bl_stopped l \<and> bl_open l = [1]"
proof -
  let ?r = "\<lambda>_. False"
  let ?l1 = "start_listener ?r (new_listener now c) :: 'v listener"
  let ?l4 = "start_listener ?r (stop_listener (schedule_reconnect ?l1))"
  let ?l5 = "?l4\<lparr>bl_now := bl_now ?l4 + int 5000\<rparr>"
  let ?l7 = "stop_listener (reconnect_timer ?r (?l5\<lparr>bl_timers := [] @ []\<rparr>))"
  have l1: "listener_run H K ?r (new_listener now c) ([] @ [Started]) ?l1"
    by (rule listener_run.snoc [OF listener_run.nothing listener_step.start])
  have l2: "listener_run H K ?r (new_listener now c) (([] @ [Started]) @ [StreamError 0]) (schedule_reconnect ?l1)"
    by (rule listener_run.snoc [OF l1], rule listener_step.error) (simp add: start_listener_def listen_def new_listener_def Let_def)
  have l5: "listener_run H K ?r (new_listener now c)
      ((((([] @ [Started]) @ [StreamError 0]) @ [Stopped]) @ [Started]) @ [Wait 5000]) ?l5"
    by (rule listener_run.snoc [OF listener_run.snoc [OF listener_run.snoc [OF l2 listener_step.stop] listener_step.start] listener_step.wait])
  have t: "bl_timers ?l5 = [] @ (now + 5000) # []" "now + 5000 \<le> bl_now ?l5"
    by (simp_all add: listener_defs new_listener_def reconnect_delay_ms_def js_remove_def)
  have "listener_run H K ?r (new_listener now c)
      ((((((([] @ [Started]) @ [StreamError 0]) @ [Stopped]) @ [Started]) @ [Wait 5000]) @ [TimerFired (now + 5000)]) @ [Stopped]) ?l7"
    by (rule listener_run.snoc [OF listener_run.snoc [OF l5 listener_step.timer [OF t]] listener_step.stop])
  moreover have "bl_stopped ?l7 \<and> bl_open ?l7 = [1]"
    by (simp add: listener_defs new_listener_def reconnect_delay_ms_def js_remove_def)
  ultimately show ?thesis by (intro exI [of _ ?l7]) simp
qed

fun cursor_after :: "'v listener_label list \<Rightarrow> string \<Rightarrow> string" where
  "cursor_after [] cur = cur"
| "cursor_after (Message i e # as) cur = cursor_after as (get_or cur (truthy (re_pagingToken e)))"
| "cursor_after (_ # as) cur = cursor_after as cur"

lemma cursor_after_append: "cursor_after (as @ bs) cur = cursor_after bs (cursor_after as cur)"
  by (induction as cur rule: cursor_after.induct) simp_all

lemma cursor_frame [simp]:
  "bl_cursor (close_stream l) = bl_cursor l" "bl_cursor (schedule_reconnect l) = bl_cursor l" "bl_cursor (listen refused l) = bl_cursor l"
  by (simp_all add: close_stream_def schedule_reconnect_def listen_def Let_def split: option.split)

lemma cursor_follows_messages:
  "listener_run H K refused l0 as l \<Longrightarrow> bl_cursor l = cursor_after as (bl_cursor l0)"
proof (induction rule: listener_run.induct)
  case (snoc as l a l')
  show ?case using snoc.hyps(2) snoc.IH
    by (cases rule: listener_step.cases)
      (simp_all add: cursor_after_append start_listener_def stop_listener_def reconnect_timer_def handle_event_def Let_def split: prod.split sum.split)
qed simp

definition no_message :: "'v listener_label list \<Rightarrow> bool" where
  "no_message as \<longleftrightarrow> list_all (\<lambda>a. case a of Message i e \<Rightarrow> False | _ \<Rightarrow> True) as"

lemma cursor_after_quiet: "no_message as \<Longrightarrow> cursor_after as cur = cur"
  unfolding no_message_def by (induction as cur rule: cursor_after.induct) simp_all

lemma chain_frame [simp]:
  "bl_chain (close_stream l) = bl_chain l" "bl_chain (schedule_reconnect l) = bl_chain l" "bl_chain (listen refused l) = bl_chain l"
  "bl_failed (close_stream l) = bl_failed l" "bl_failed (schedule_reconnect l) = bl_failed l" "bl_failed (listen refused l) = bl_failed l"
  by (simp_all add: close_stream_def schedule_reconnect_def listen_def Let_def split: option.split)

lemma quiet_run:
  "listener_run H K refused l0 as l \<Longrightarrow> no_message as \<Longrightarrow> bl_chain l = bl_chain l0 \<and> bl_failed l = bl_failed l0"
proof (induction rule: listener_run.induct)
  case (snoc as l a l')
  show ?case using snoc.hyps(2) snoc.IH snoc.prems
    by (cases rule: listener_step.cases)
      (simp_all add: no_message_def start_listener_def stop_listener_def reconnect_timer_def)
qed simp

text \<open>
  The cursor moves before the event is processed: after an event whose database call failed, every reconnect resumes
  behind it. It is never asked for again, and the tables stay without it.
\<close>

theorem failed_event_skipped:
  assumes "truthy (re_pagingToken e) = Some token" and "process_raw H K e (bl_chain l) = (Inl err, c')"
    and "listener_run H K refused (handle_event H K e l) as l'" and "no_message as"
  shows "bl_cursor l' = token \<and> bl_chain l' = c' \<and> bl_failed l' = bl_failed l @ [e]"
  using assms cursor_follows_messages [OF assms(3)] quiet_run [OF assms(3,4)] cursor_after_quiet [OF assms(4)]
  by (simp add: handle_event_def Let_def)


section \<open>Examples\<close>

definition demo_sdk :: "native stellar_sdk" where
  "demo_sdk = \<lparr>sdk_native = Some, sdk_text = (\<lambda>_. [])\<rparr>"

definition demo_chain_host :: "(nat \<Rightarrow> bool) \<Rightarrow> chain_host" where
  "demo_chain_host down = \<lparr>ch_fails = down, ch_notes = demo_note_host, ch_iso = show_int, ch_uuid = show_nat\<rparr>"

definition demo_chain :: chain_state where
  "demo_chain = \<lparr>cs_users = [], cs_groups = [(''1'', \<lparr>gw_name = ''Friends'', gw_contributionAmount = 100, gw_frequency = 7,
     gw_maxMembers = 5, gw_currentRound = 0, gw_isActive = True\<rparr>)], cs_members = [], cs_contributions = [],
     cs_notifier = new_notifier, cs_webhooks = new_webhook_service, cs_now = 0, cs_ops = 0\<rparr>"

definition demo_contribution :: "string \<Rightarrow> string \<Rightarrow> native raw_event" where
  "demo_contribution tx token = \<lparr>re_topic = Some [NString ''contrib'', NNumber 1, NNumber 3],
     re_value = Some (NArray [NString ''ann'', NNumber 100]), re_ledger = Some 9, re_txHash = Some tx, re_id = None,
     re_pagingToken = Some token\<rparr>"

lemma show_int_1 [simp]: "show_int 1 = ''1''"
  by code_simp

lemma demo_booked:
  "meaning demo_sdk (demo_contribution tx token) =
    Books \<lparr>cw_groupId = ''1'', cw_userId = ''ann'', cw_amount = 100, cw_round = 0, cw_txHash = tx\<rparr>"
  by (simp add: meaning_def booking_of_def demo_sdk_def demo_contribution_def parse_contract_event_def event_type_of_def topic_map_def
      to_native_def js_at_def raw_of_def entries_def big_int_def fits_bigint_def truthy_def Let_def)

text \<open>The contribution of another group is left out.\<close>

definition stray_contribution :: "native raw_event" where
  "stray_contribution = (demo_contribution ''v'' [])\<lparr>re_topic := Some [NString ''contrib'', NNumber 0]\<rparr>"

lemma show_int_0 [simp]: "show_int 0 = ''0''"
  by code_simp

lemma stray_booked: "\<exists>c. meaning demo_sdk stray_contribution = Books c \<and> cw_groupId c = ''0''"
  by (simp add: stray_contribution_def meaning_def booking_of_def demo_sdk_def demo_contribution_def parse_contract_event_def event_type_of_def
      topic_map_def to_native_def js_at_def raw_of_def entries_def big_int_def fits_bigint_def truthy_def Let_def)

theorem contributions_booked_once_witness:
  "map cw_txHash (cs_contributions (process_all (demo_chain_host (\<lambda>_. False)) demo_sdk
     [demo_contribution ''t'' ''1'', stray_contribution, demo_contribution ''u'' ''2'', demo_contribution ''t'' ''1''] demo_chain)) = [''t'', ''u'']"
proof -
  obtain c where c: "meaning demo_sdk stray_contribution = Books c" "cw_groupId c = ''0''" using stray_booked by blast
  have "db_up (demo_chain_host (\<lambda>_. False))" by (simp add: db_up_def demo_chain_host_def)
  from contributions_booked_once [OF this, of demo_sdk
      "[demo_contribution ''t'' ''1'', stray_contribution, demo_contribution ''u'' ''2'', demo_contribution ''t'' ''1'']" demo_chain]
  show ?thesis by (simp add: demo_booked c) (simp add: demo_chain_def)
qed

theorem contributions_lose_their_round_witness:
  "fst (get_contributions (demo_chain_host (\<lambda>_. False)) ''1'' (Some 3)
     (process_all (demo_chain_host (\<lambda>_. False)) demo_sdk [demo_contribution ''t'' ''1''] demo_chain)) = Inr []"
  by (rule contributions_lose_their_round) (simp_all add: demo_chain_host_def db_up_def demo_chain_def)

definition demo_event :: "chain_event_type \<Rightarrow> native \<Rightarrow> chain_event" where
  "demo_event t raw = \<lparr>ce_type = t, ce_groupId = Some ''2'', ce_ledger = 9, ce_txHash = ''t'', ce_raw = Some raw\<rparr>"

theorem replayed_contribution_ignored_witness:
  "let s = demo_chain\<lparr>cs_contributions := [\<lparr>cw_groupId = ''1'', cw_userId = ''ann'', cw_amount = 100, cw_round = 0, cw_txHash = ''t''\<rparr>]\<rparr>
   in cs_webhooks (snd (process_event (demo_chain_host odd) (demo_event EvContributionMade (NArray [NString ''ann'', NNumber 100])) s))
      = cs_webhooks s"
proof -
  let ?s = "demo_chain\<lparr>cs_contributions := [\<lparr>cw_groupId = ''1'', cw_userId = ''ann'', cw_amount = 100, cw_round = 0, cw_txHash = ''t''\<rparr>]\<rparr>"
  let ?e = "demo_event EvContributionMade (NArray [NString ''ann'', NNumber 100])"
  have "snd (process_event (demo_chain_host odd) ?e ?s) = ?s\<lparr>cs_ops := cs_ops (snd (process_event (demo_chain_host odd) ?e ?s))\<rparr>"
    by (rule replayed_contribution_ignored) (simp_all add: demo_event_def)
  then have "cs_webhooks (snd (process_event (demo_chain_host odd) ?e ?s)) = cs_webhooks (?s\<lparr>cs_ops := cs_ops (snd (process_event (demo_chain_host odd) ?e ?s))\<rparr>)"
    by (rule arg_cong)
  then show ?thesis by simp
qed

theorem cycle_event_erases_terms_witness:
  "\<exists>row. js_get (cs_groups (snd (process_event (demo_chain_host (\<lambda>_. False)) (demo_event EvCycleAdvanced (NArray [NNumber 2, NNumber 0]))
      (snd (process_event (demo_chain_host (\<lambda>_. False)) (demo_event EvGroupCreated (NArray [NString ''ann'', NNumber 100, NNumber 5])) demo_chain))))) ''2''
      = Some row \<and> gw_contributionAmount row = 0 \<and> gw_currentRound row = 2"
  using cycle_event_erases_terms [of "demo_chain_host (\<lambda>_. False)" demo_chain "''2''" 100 5 2
      "demo_event EvGroupCreated (NArray [NString ''ann'', NNumber 100, NNumber 5])" "''ann''"
      "demo_event EvCycleAdvanced (NArray [NNumber 2, NNumber 0])" "NNumber 0"]
  by (simp add: demo_chain_host_def db_up_def demo_chain_def demo_event_def fits_bigint_def fits_int_def)

lemma demo_run:
  "listener_run H K refused (new_listener now c) ([] @ [Started]) (start_listener refused (new_listener now c))"
  by (rule listener_run.snoc [OF listener_run.nothing listener_step.start])

theorem listener_never_deaf_witness:
  "bl_timers (start_listener (\<lambda>_. True) (new_listener 0 demo_chain :: native listener)) \<noteq> []"
  using listener_never_deaf [OF demo_run [of "demo_chain_host odd" demo_sdk "\<lambda>_. True" 0 demo_chain]]
  by (simp add: listener_defs new_listener_def)

theorem listener_one_stream_witness:
  "length (bl_open (start_listener (\<lambda>_. False) (new_listener 0 demo_chain :: native listener))) \<le> 1"
  using listener_one_stream [of "demo_chain_host odd" demo_sdk "\<lambda>_. False" 0 demo_chain "[]"
      "start_listener (\<lambda>_. False) (new_listener 0 demo_chain)"]
    demo_run [of "demo_chain_host odd" demo_sdk "\<lambda>_. False" 0 demo_chain]
  by simp

theorem failed_event_skipped_witness:
  "bl_cursor (schedule_reconnect (handle_event (demo_chain_host (\<lambda>_. True)) demo_sdk (demo_contribution ''t'' ''77'')
      ((new_listener 0 demo_chain)\<lparr>bl_open := [0]\<rparr>))) = ''77''"
proof -
  let ?H = "demo_chain_host (\<lambda>_. True)" and ?e = "demo_contribution ''t'' ''77''"
  let ?l = "(new_listener 0 demo_chain :: native listener)\<lparr>bl_open := [0]\<rparr>"
  have "listener_step ?H demo_sdk (\<lambda>_. False) (StreamError 0) (handle_event ?H demo_sdk ?e ?l) (schedule_reconnect (handle_event ?H demo_sdk ?e ?l))"
    by (rule listener_step.error) simp
  then have run: "listener_run ?H demo_sdk (\<lambda>_. False) (handle_event ?H demo_sdk ?e ?l) ([] @ [StreamError 0])
      (schedule_reconnect (handle_event ?H demo_sdk ?e ?l))"
    by (rule listener_run.snoc [OF listener_run.nothing])
  obtain c' where c': "process_raw ?H demo_sdk ?e demo_chain = (Inl ChainDbDown, c')"
    by (simp add: process_raw_def process_event_def handle_contribution_made_def with_group_def parse_contract_event_def
        demo_contribution_def demo_sdk_def to_native_def event_type_of_def topic_map_def js_at_def truthy_def raw_of_def
        contribution_by_tx_def js_then_def chain_op_def demo_chain_host_def entries_def Let_def)
  show ?thesis
    using failed_event_skipped [of ?e "''77''" ?H demo_sdk ?l ChainDbDown c' "\<lambda>_. False" "[] @ [StreamError 0]"
        "schedule_reconnect (handle_event ?H demo_sdk ?e ?l)"] run c'
    by (simp add: demo_contribution_def truthy_def no_message_def new_listener_def)
qed

end
