(* ===== verification/TxTracker.thy ===== *)
theory TxTracker
  imports JsPrelude
begin

text \<open>
  Tracking of submitted transactions, \<open>backend/src/services/transactionTracker.ts\<close>: a row per transaction hash, polled
  every three seconds until Horizon knows the transaction, at most twenty times.

  The schema of the repository has no such table, so that as shipped every call on it throws: that is the host whose
  table calls all fail. Queries of Horizon and calls on the table are numbered in the order they are made; the nth
  takes the time the host gives it and, when it is a query, is answered as the host says of n, when it is a table call
  fails if the host says so of n. Timers fire on time; one transaction is polled at a time.
\<close>

section \<open>Rows\<close>

datatype track_status = TxPending | TxConfirmed | TxFailed

record tracked_transaction =
  tk_txHash :: string
  tk_status :: track_status
  tk_groupId :: "string option"
  tk_walletAddress :: "string option"
  tk_type :: string
  tk_amount :: "string option"
  tk_ledger :: "int option"
  tk_errorMessage :: "string option"
  tk_submittedAt :: int
  tk_confirmedAt :: "int option"

record track_request =
  tq_txHash :: string
  tq_groupId :: "string option"
  tq_walletAddress :: "string option"
  tq_type :: string
  tq_amount :: "string option"

text \<open>What the query gives: the transaction, an error with a status other than 404, or a 404.\<close>

datatype horizon_reply = OnChain bool int int | NotOnChain | HorizonError string

record tracker_host =
  th_reply :: "string \<Rightarrow> nat \<Rightarrow> horizon_reply"
  th_fails :: "nat \<Rightarrow> bool"
  th_latency :: "nat \<Rightarrow> nat"

record tracker =
  tr_rows :: "(string, tracked_transaction) jsmap"
  tr_now :: int
  tr_calls :: nat

type_synonym 'a tracker_method = "(tracker, string, 'a) js_method"

text \<open>An outward call: the next number is taken and the time of the call passes.\<close>

definition outward :: "tracker_host \<Rightarrow> tracker \<Rightarrow> tracker" where
  "outward H s = s\<lparr>tr_calls := Suc (tr_calls s), tr_now := tr_now s + int (th_latency H (tr_calls s))\<rparr>"

lemma outward_simps [simp]:
  "tr_rows (outward H s) = tr_rows s" "tr_calls (outward H s) = Suc (tr_calls s)"
  "tr_now (outward H s) = tr_now s + int (th_latency H (tr_calls s))"
  by (simp_all add: outward_def)

definition table_call :: "tracker_host \<Rightarrow> 'a tracker_method \<Rightarrow> 'a tracker_method" where
  "table_call H f s =
     (let s' = outward H s in if th_fails H (tr_calls s) then (Inl ''database unavailable'', s') else f s')"

definition update_row :: "tracker_host \<Rightarrow> string \<Rightarrow> (tracked_transaction \<Rightarrow> tracked_transaction) \<Rightarrow> unit tracker_method" where
  "update_row H txHash f = table_call H (\<lambda>s. case js_get (tr_rows s) txHash of
     None \<Rightarrow> (Inl ''record not found'', s)
   | Some row \<Rightarrow> (Inr (), s\<lparr>tr_rows := js_set txHash (f row) (tr_rows s)\<rparr>))"

definition poll_interval_ms :: int where
  "poll_interval_ms = 3000"

definition max_polls :: nat where
  "max_polls = 20"

section \<open>Polling\<close>

definition mark_failed :: "tracker_host \<Rightarrow> string \<Rightarrow> string \<Rightarrow> unit tracker_method" where
  "mark_failed H txHash message = update_row H txHash (\<lambda>r. r\<lparr>tk_status := TxFailed, tk_errorMessage := Some message\<rparr>)"

definition mark_settled :: "tracker_host \<Rightarrow> string \<Rightarrow> bool \<Rightarrow> int \<Rightarrow> int \<Rightarrow> unit tracker_method" where
  "mark_settled H txHash successful ledger created_at = update_row H txHash (\<lambda>r. r\<lparr>
     tk_status := (if successful then TxConfirmed else TxFailed), tk_ledger := Some ledger, tk_confirmedAt := Some created_at\<rparr>)"

text \<open>The update of a settled transaction stands inside the \<open>try\<close>: when it throws, the \<open>catch\<close> marks the row as failed.\<close>

function poll_transaction :: "tracker_host \<Rightarrow> string \<Rightarrow> nat \<Rightarrow> unit tracker_method" where
  "poll_transaction H txHash attempt s =
     (if attempt \<ge> max_polls then mark_failed H txHash ''Confirmation timeout'' s
      else (let s1 = s\<lparr>tr_now := tr_now s + poll_interval_ms\<rparr>; s2 = outward H s1
            in case th_reply H txHash (tr_calls s1) of
                 NotOnChain \<Rightarrow> poll_transaction H txHash (Suc attempt) s2
               | HorizonError message \<Rightarrow> mark_failed H txHash message s2
               | OnChain successful ledger created_at \<Rightarrow>
                   (case mark_settled H txHash successful ledger created_at s2 of
                      (Inr _, s3) \<Rightarrow> (Inr (), s3)
                    | (Inl err, s3) \<Rightarrow> mark_failed H txHash err s3)))"
  by pat_completeness auto

termination poll_transaction
  by (relation "measure (\<lambda>(H, txHash, attempt, s). max_polls - attempt)") auto

declare poll_transaction.simps [simp del]

definition new_row :: "track_request \<Rightarrow> int \<Rightarrow> tracked_transaction" where
  "new_row tx now = \<lparr>tk_txHash = tq_txHash tx, tk_status = TxPending, tk_groupId = tq_groupId tx, tk_walletAddress = tq_walletAddress tx,
     tk_type = tq_type tx, tk_amount = tq_amount tx, tk_ledger = None, tk_errorMessage = None, tk_submittedAt = now,
     tk_confirmedAt = None\<rparr>"

text \<open>The call returns when the row is there; the polling goes on, and what it throws is logged.\<close>

definition track :: "tracker_host \<Rightarrow> track_request \<Rightarrow> unit tracker_method" where
  "track H tx = js_then (table_call H (\<lambda>s. (Inr (), if js_has (tr_rows s) (tq_txHash tx) then s
       else s\<lparr>tr_rows := js_set (tq_txHash tx) (new_row tx (tr_now s)) (tr_rows s)\<rparr>)))
     (\<lambda>_. js_swallow (poll_transaction H (tq_txHash tx) 0))"

definition retry_tracking :: "tracker_host \<Rightarrow> string \<Rightarrow> unit tracker_method" where
  "retry_tracking H txHash = js_then
     (update_row H txHash (\<lambda>r. r\<lparr>tk_status := TxPending, tk_errorMessage := None, tk_confirmedAt := None\<rparr>))
     (\<lambda>_. js_swallow (poll_transaction H txHash 0))"

definition get_transaction :: "tracker_host \<Rightarrow> string \<Rightarrow> tracked_transaction option tracker_method" where
  "get_transaction H txHash = table_call H (\<lambda>s. (Inr (js_get (tr_rows s) txHash), s))"

definition get_by_wallet :: "tracker_host \<Rightarrow> string \<Rightarrow> nat \<Rightarrow> tracked_transaction list tracker_method" where
  "get_by_wallet H walletAddress limit = table_call H (\<lambda>s.
     (Inr (take limit (rev (sort_key tk_submittedAt (filter (\<lambda>r. tk_walletAddress r = Some walletAddress) (map snd (tr_rows s)))))), s))"

section \<open>The verdict\<close>

text \<open>What the polling should find: the first answer that is not a 404 among the next \<open>n\<close> calls.\<close>

definition first_reply :: "tracker_host \<Rightarrow> string \<Rightarrow> nat \<Rightarrow> nat \<Rightarrow> horizon_reply option" where
  "first_reply H txHash n k = find (\<lambda>r. r \<noteq> NotOnChain) (map (th_reply H txHash) [k..<k + n])"

definition settle :: "horizon_reply option \<Rightarrow> tracked_transaction \<Rightarrow> tracked_transaction" where
  "settle r row = (case r of
     Some (OnChain successful ledger created_at) \<Rightarrow>
       row\<lparr>tk_status := (if successful then TxConfirmed else TxFailed), tk_ledger := Some ledger, tk_confirmedAt := Some created_at\<rparr>
   | Some (HorizonError message) \<Rightarrow> row\<lparr>tk_status := TxFailed, tk_errorMessage := Some message\<rparr>
   | _ \<Rightarrow> row\<lparr>tk_status := TxFailed, tk_errorMessage := Some ''Confirmation timeout''\<rparr>)"

lemma first_reply_Suc:
  "first_reply H txHash (Suc n) k = (case th_reply H txHash k of NotOnChain \<Rightarrow> first_reply H txHash n (Suc k) | r \<Rightarrow> Some r)"
proof -
  have "[k..<k + Suc n] = k # [Suc k..<Suc k + n]" by (simp add: upt_rec)
  then show ?thesis by (simp add: first_reply_def split: horizon_reply.split)
qed

definition table_up :: "tracker_host \<Rightarrow> bool" where
  "table_up H \<longleftrightarrow> (\<forall>n. \<not> th_fails H n)"

lemma update_up:
  "table_up H \<Longrightarrow> js_get (tr_rows s) h = Some row \<Longrightarrow>
     update_row H h f s = (Inr (), (outward H s)\<lparr>tr_rows := js_set h (f row) (tr_rows s)\<rparr>)"
  by (simp add: table_up_def update_row_def table_call_def Let_def)

text \<open>The time that the calls numbered from \<open>k\<close> to below \<open>m\<close> take.\<close>

definition latencies :: "tracker_host \<Rightarrow> nat \<Rightarrow> nat \<Rightarrow> int" where
  "latencies H k m = (\<Sum>i\<leftarrow>[k..<m]. int (th_latency H i))"

lemma latencies_step:
  "latencies H k k = 0"
  "k < m \<Longrightarrow> latencies H k m = int (th_latency H k) + latencies H (Suc k) m"
  by (simp_all add: latencies_def upt_rec)

text \<open>The update takes one call, whatever comes of it.\<close>

lemma update_cost:
  "update_row H h f s = (r, s') \<Longrightarrow> tr_calls s' = Suc (tr_calls s) \<and> tr_now s' = tr_now s + int (th_latency H (tr_calls s))"
  by (auto simp: update_row_def table_call_def Let_def split: if_splits option.splits)

lemma update_down:
  "th_fails H (tr_calls s) \<Longrightarrow> update_row H h f s = (Inl ''database unavailable'', outward H s)"
  by (simp add: update_row_def table_call_def Let_def)

lemmas poll_defs = mark_failed_def mark_settled_def Let_def

lemma poll_out:
  "attempt \<ge> max_polls \<Longrightarrow> poll_transaction H h attempt s = mark_failed H h ''Confirmation timeout'' s"
  by (simp add: poll_transaction.simps)

text \<open>The state in which the answer of the next query is at hand.\<close>

definition asked :: "tracker_host \<Rightarrow> tracker \<Rightarrow> tracker" where
  "asked H s = outward H (s\<lparr>tr_now := tr_now s + poll_interval_ms\<rparr>)"

lemma asked_simps [simp]:
  "tr_rows (asked H s) = tr_rows s" "tr_calls (asked H s) = Suc (tr_calls s)"
  "tr_now (asked H s) = tr_now s + poll_interval_ms + int (th_latency H (tr_calls s))"
  by (simp_all add: asked_def)

lemma poll_step:
  "attempt < max_polls \<Longrightarrow> poll_transaction H h attempt s =
     (case th_reply H h (tr_calls s) of
        NotOnChain \<Rightarrow> poll_transaction H h (Suc attempt) (asked H s)
      | HorizonError m \<Rightarrow> mark_failed H h m (asked H s)
      | OnChain ok ledger created_at \<Rightarrow>
          (case mark_settled H h ok ledger created_at (asked H s) of
             (Inr _, s3) \<Rightarrow> (Inr (), s3) | (Inl err, s3) \<Rightarrow> mark_failed H h err s3))"
  unfolding asked_def by (subst poll_transaction.simps) (simp add: Let_def)

text \<open>One poll: it is the last one, with one or two updates, or the next one follows on a 404.\<close>

lemma poll_step_cost:
  assumes "attempt < max_polls" and "poll_transaction H h attempt s = (r, s')"
  shows "th_reply H h (tr_calls s) = NotOnChain \<and> poll_transaction H h (Suc attempt) (asked H s) = (r, s')
    \<or> tr_calls s' \<in> {tr_calls s + 2, tr_calls s + 3}
      \<and> tr_now s' = tr_now s + poll_interval_ms + latencies H (tr_calls s) (tr_calls s')"
proof (cases "th_reply H h (tr_calls s)")
  case (OnChain ok ledger created_at)
  obtain r2 s2 where u: "mark_settled H h ok ledger created_at (asked H s) = (r2, s2)" by fastforce
  note c = update_cost [OF u [unfolded mark_settled_def]]
  show ?thesis
  proof (cases r2)
    case (Inl e)
    then have "mark_failed H h e s2 = (r, s')" using assms OnChain u by (simp add: poll_step)
    from update_cost [OF this [unfolded mark_failed_def]] c show ?thesis by (simp add: latencies_step)
  next
    case (Inr x)
    then show ?thesis using assms OnChain u c by (auto simp: poll_step latencies_step)
  qed
next
  case (HorizonError m)
  then have "mark_failed H h m (asked H s) = (r, s')" using assms by (simp add: poll_step)
  from update_cost [OF this [unfolded mark_failed_def]] show ?thesis by (simp add: latencies_step)
qed (use assms in \<open>simp add: poll_step\<close>)

text \<open>Whatever Horizon and the table answer, at most twenty queries are made and at most two updates after them.\<close>

lemma poll_cost:
  assumes "poll_transaction H h attempt s = (r, s')"
  shows "\<exists>q \<le> max_polls - attempt. tr_calls s' \<in> {tr_calls s + q + 1, tr_calls s + q + 2}
    \<and> tr_now s' = tr_now s + poll_interval_ms * int q + latencies H (tr_calls s) (tr_calls s')"
  using assms
proof (induction "max_polls - attempt" arbitrary: attempt s)
  case 0
  then have "mark_failed H h ''Confirmation timeout'' s = (r, s')" by (simp add: poll_out)
  from update_cost [OF this [unfolded mark_failed_def]] show ?case by (simp add: latencies_step)
next
  case (Suc n)
  then have a: "attempt < max_polls" "n = max_polls - Suc attempt" by auto
  from poll_step_cost [OF a(1) Suc.prems] show ?case
  proof (elim disjE conjE)
    assume "poll_transaction H h (Suc attempt) (asked H s) = (r, s')"
    from Suc.hyps(1) [OF a(2) this] obtain q where q: "q \<le> max_polls - Suc attempt"
      "tr_calls s' \<in> {tr_calls s + Suc q + 1, tr_calls s + Suc q + 2}"
      "tr_now s' = tr_now (asked H s) + poll_interval_ms * int q + latencies H (Suc (tr_calls s)) (tr_calls s')"
      by auto
    moreover have "tr_calls s < tr_calls s'" using q(2) by auto
    ultimately show ?thesis using a by (intro exI [of _ "Suc q"]) (auto simp: latencies_step algebra_simps)
  next
    assume "tr_calls s' \<in> {tr_calls s + 2, tr_calls s + 3}"
      "tr_now s' = tr_now s + poll_interval_ms + latencies H (tr_calls s) (tr_calls s')"
    then show ?thesis using a by (intro exI [of _ 1]) auto
  qed
qed

lemma poll_settles:
  assumes "table_up H"
  shows "js_get (tr_rows s) h = Some row \<Longrightarrow> \<exists>s'. poll_transaction H h attempt s = (Inr (), s')
    \<and> js_get (tr_rows s') h = Some (settle (first_reply H h (max_polls - attempt) (tr_calls s)) row)"
proof (induction "max_polls - attempt" arbitrary: attempt s)
  case 0
  then show ?case
    by (simp add: poll_out mark_failed_def update_up [OF assms] first_reply_def settle_def js_simps)
next
  case (Suc n)
  then have a: "attempt < max_polls" "max_polls - attempt = Suc n" "n = max_polls - Suc attempt" by auto
  have r: "js_get (tr_rows (asked H s)) h = Some row" using Suc.prems by simp
  show ?case
    using Suc.hyps(1) [OF a(3) r] a update_up [OF assms r]
    by (cases "th_reply H h (tr_calls s)") (auto simp: poll_step poll_defs first_reply_Suc settle_def js_simps)
qed

lemma poll_throws:
  assumes "\<And>n. th_fails H n"
  shows "\<exists>e s'. poll_transaction H h attempt s = (Inl e, s') \<and> tr_rows s' = tr_rows s"
proof (induction "max_polls - attempt" arbitrary: attempt s)
  case 0
  then show ?case by (simp add: poll_out mark_failed_def update_down [OF assms])
next
  case (Suc n)
  then have a: "attempt < max_polls" "n = max_polls - Suc attempt" by auto
  show ?case
    using Suc.hyps(1) [OF a(2), of "asked H s"] a
    by (cases "th_reply H h (tr_calls s)") (auto simp: poll_step poll_defs update_down [OF assms])
qed

text \<open>
  C23. Polling ends, whatever Horizon and the table answer: after at most twenty queries, three seconds before each, and
  one or two updates, in the time of these waits and of the calls made. When the table answers and has the row, that is
  then settled as the first of the answers that is not a 404 says, or failed without one: never left pending. When every
  table call fails, as on the schema as it is, the polling throws and changes no row.
\<close>

theorem polling_settles:
  "\<exists>r s' q. poll_transaction H h 0 s = (r, s') \<and> q \<le> 20
     \<and> tr_calls s' \<in> {tr_calls s + q + 1, tr_calls s + q + 2}
     \<and> tr_now s' = tr_now s + 3000 * int q + (\<Sum>i\<leftarrow>[tr_calls s..<tr_calls s']. int (th_latency H i))
     \<and> (\<forall>row. table_up H \<and> js_get (tr_rows s) h = Some row \<longrightarrow>
          r = Inr () \<and> js_get (tr_rows s') h = Some (settle (first_reply H h 20 (tr_calls s)) row))
     \<and> ((\<forall>n. th_fails H n) \<longrightarrow> (\<exists>e. r = Inl e) \<and> tr_rows s' = tr_rows s)"
proof -
  obtain r s' where x: "poll_transaction H h 0 s = (r, s')" by fastforce
  from poll_cost [OF x] obtain q where "q \<le> 20" "tr_calls s' \<in> {tr_calls s + q + 1, tr_calls s + q + 2}"
    "tr_now s' = tr_now s + 3000 * int q + (\<Sum>i\<leftarrow>[tr_calls s..<tr_calls s']. int (th_latency H i))"
    by (auto simp: max_polls_def poll_interval_ms_def latencies_def)
  moreover have "r = Inr () \<and> js_get (tr_rows s') h = Some (settle (first_reply H h 20 (tr_calls s)) row)"
    if "table_up H" "js_get (tr_rows s) h = Some row" for row
    using poll_settles [OF that, of 0] x by (simp add: max_polls_def)
  moreover have "(\<exists>e. r = Inl e) \<and> tr_rows s' = tr_rows s" if "\<forall>n. th_fails H n"
    using poll_throws [of H h 0 s] that x by auto
  ultimately show ?thesis using x by (intro exI [of _ r] exI [of _ s'] exI [of _ q]) simp
qed

text \<open>
  A transaction that Horizon reports as successful is recorded as failed when the update that should confirm it does
  not go through: its error is taken for a failure of the transaction.
\<close>

theorem confirmed_recorded_as_failed:
  assumes "js_get (tr_rows s) h = Some row" and "th_reply H h (tr_calls s) = OnChain True ledger created_at"
    and "th_fails H (Suc (tr_calls s))" and "\<not> th_fails H (Suc (Suc (tr_calls s)))"
  shows "js_get (tr_rows (snd (poll_transaction H h 0 s))) h =
    Some (row\<lparr>tk_status := TxFailed, tk_errorMessage := Some ''database unavailable''\<rparr>)"
  using assms
  by (simp add: poll_step max_polls_def mark_settled_def mark_failed_def update_row_def table_call_def js_simps Let_def)

text \<open>
  Tracking a confirmed transaction again leaves its row alone but polls it anew: one answer of Horizon other than a
  404 turns the confirmed transaction into a failed one.
\<close>

theorem tracking_again_unconfirms:
  assumes "table_up H" and "js_get (tr_rows s) (tq_txHash tx) = Some row" and "tk_status row = TxConfirmed"
    and "th_reply H (tq_txHash tx) (Suc (tr_calls s)) = HorizonError m"
  shows "fst (track H tx s) = Inr () \<and>
    js_get (tr_rows (snd (track H tx s))) (tq_txHash tx) = Some (row\<lparr>tk_status := TxFailed, tk_errorMessage := Some m\<rparr>)"
  using assms
  by (simp add: track_def js_then_def js_swallow_def table_call_def table_up_def poll_step max_polls_def
      mark_failed_def update_row_def js_has_def js_simps Let_def)

section \<open>Examples\<close>

definition demo_tracker_host :: "(nat \<Rightarrow> bool) \<Rightarrow> (nat \<Rightarrow> horizon_reply) \<Rightarrow> tracker_host" where
  "demo_tracker_host down reply = \<lparr>th_reply = (\<lambda>h n. reply n), th_fails = down, th_latency = (\<lambda>_. 50)\<rparr>"

definition demo_request :: track_request where
  "demo_request = \<lparr>tq_txHash = ''h'', tq_groupId = None, tq_walletAddress = None, tq_type = ''contribute'', tq_amount = None\<rparr>"

definition demo_tracker :: tracker where
  "demo_tracker = \<lparr>tr_rows = [(''h'', (new_row demo_request 0)\<lparr>tk_status := TxConfirmed\<rparr>)], tr_now = 0, tr_calls = 0\<rparr>"

definition second_answer :: "nat \<Rightarrow> horizon_reply" where
  "second_answer n = (if n = 0 then NotOnChain else OnChain True 7 5000)"

theorem polling_settles_witness:
  "(\<exists>s'. poll_transaction (demo_tracker_host (\<lambda>_. False) second_answer) ''h'' 0 demo_tracker = (Inr (), s')
    \<and> js_get (tr_rows s') ''h'' = Some ((new_row demo_request 0)\<lparr>tk_status := TxConfirmed, tk_ledger := Some 7, tk_confirmedAt := Some 5000\<rparr>))
   \<and> (\<exists>e s'. poll_transaction (demo_tracker_host (\<lambda>_. True) second_answer) ''h'' 0 demo_tracker = (Inl e, s')
    \<and> tr_rows s' = tr_rows demo_tracker)"
proof -
  let ?row = "(new_row demo_request 0)\<lparr>tk_status := TxConfirmed\<rparr>"
  have "table_up (demo_tracker_host (\<lambda>_. False) second_answer) \<and> js_get (tr_rows demo_tracker) ''h'' = Some ?row"
    by (simp add: demo_tracker_host_def demo_tracker_def table_up_def)
  moreover have "settle (first_reply (demo_tracker_host (\<lambda>_. False) second_answer) ''h'' 20 (tr_calls demo_tracker)) ?row
      = (new_row demo_request 0)\<lparr>tk_status := TxConfirmed, tk_ledger := Some 7, tk_confirmedAt := Some 5000\<rparr>"
    by (simp add: demo_tracker_host_def demo_tracker_def first_reply_def second_answer_def upt_rec settle_def new_row_def)
  moreover have "\<forall>n. th_fails (demo_tracker_host (\<lambda>_. True) second_answer) n" by (simp add: demo_tracker_host_def)
  ultimately show ?thesis
    using polling_settles [of "demo_tracker_host (\<lambda>_. False) second_answer" "''h''" demo_tracker]
      polling_settles [of "demo_tracker_host (\<lambda>_. True) second_answer" "''h''" demo_tracker] by metis
qed

theorem confirmed_recorded_as_failed_witness:
  "\<exists>row. js_get (tr_rows (snd (poll_transaction (demo_tracker_host (\<lambda>n. n = 1) (\<lambda>_. OnChain True 7 3000)) ''h'' 0 demo_tracker))) ''h'' = Some row
    \<and> tk_status row = TxFailed"
  using confirmed_recorded_as_failed [of demo_tracker "''h''" "(new_row demo_request 0)\<lparr>tk_status := TxConfirmed\<rparr>"
      "demo_tracker_host (\<lambda>n. n = 1) (\<lambda>_. OnChain True 7 3000)" 7 3000]
  by (simp add: demo_tracker_host_def demo_tracker_def)

theorem tracking_again_unconfirms_witness:
  "\<exists>row. js_get (tr_rows (snd (track (demo_tracker_host (\<lambda>_. False) (\<lambda>_. HorizonError ''503'')) demo_request demo_tracker))) ''h'' = Some row
    \<and> tk_status row = TxFailed"
  using tracking_again_unconfirms [of "demo_tracker_host (\<lambda>_. False) (\<lambda>_. HorizonError ''503'')" demo_tracker demo_request
      "(new_row demo_request 0)\<lparr>tk_status := TxConfirmed\<rparr>" "''503''"]
  by (simp add: demo_tracker_host_def demo_tracker_def demo_request_def table_up_def new_row_def)

end
