(* ===== verification/Anomalies.thy ===== *)
theory Anomalies
  imports JsPrelude Complex_Main
begin

text \<open>
  Detection of anomalies in the platform's metrics, \<open>backend/src/services/anomalyDetectionService.ts\<close>: events are
  counted per interval, the latest interval is compared with the mean of the ones before, a line is laid through all of
  them, and grave alerts are stored among the analytics events.

  Floating point is taken as real arithmetic with infinity and \<open>NaN\<close> for what a division by zero gives; \<open>toFixed\<close> is a
  parameter. The nth database call fails when the host says so of n. The numeric fields of an analytics event hold
  numbers.
\<close>

section \<open>Data\<close>

datatype sensitivity = SensLow | SensMedium | SensHigh

datatype anomaly_severity = SevLow | SevMedium | SevHigh | SevCritical

record anomaly_config =
  ag_metric :: string
  ag_threshold :: real
  ag_windowSize :: int
  ag_minDataPoints :: nat
  ag_sensitivity :: sensitivity

datatype js_real = Fin real | PosInf | NegInf | NotANumber

definition js_div :: "real \<Rightarrow> real \<Rightarrow> js_real" where
  "js_div a b = (if b \<noteq> 0 then Fin (a / b) else if a = 0 then NotANumber else if a > 0 then PosInf else NegInf)"

fun js_above :: "js_real \<Rightarrow> real \<Rightarrow> bool" where
  "js_above (Fin x) t \<longleftrightarrow> x > t"
| "js_above PosInf t \<longleftrightarrow> True"
| "js_above NegInf t \<longleftrightarrow> False"
| "js_above NotANumber t \<longleftrightarrow> False"

fun js_div_by :: "js_real \<Rightarrow> real \<Rightarrow> js_real" where
  "js_div_by (Fin x) m = js_div x m"
| "js_div_by r m = r"

record anomaly_alert =
  al_id :: string
  al_metric :: string
  al_value :: real
  al_expectedValue :: real
  al_deviation :: js_real
  al_severity :: anomaly_severity
  al_timestamp :: int
  al_description :: string
  al_recommendations :: "string list"

type_synonym metric_point = "int \<times> real"

record analytics_event =
  ae_type :: string
  ae_timestamp :: int
  ae_name :: "string option"
  ae_value :: "real option"
  ae_responseTime :: "real option"
  ae_alert :: "anomaly_alert option"

record anomaly_state =
  an_configs :: "(string, anomaly_config) jsmap"
  an_users :: "int list"
  an_groups :: "int list"
  an_contributions :: "(int \<times> int) list"
  an_events :: "analytics_event list"
  an_now :: int
  an_calls :: nat

record anomaly_host =
  ah_fails :: "nat \<Rightarrow> bool"
  ah_fixed :: "real \<Rightarrow> string"

datatype anomaly_error = QueryFailed | MixedBigInt | UndefinedPoint

type_synonym 'a anomaly_method = "(anomaly_state, anomaly_error, 'a) js_method"

definition anomaly_query :: "anomaly_host \<Rightarrow> (anomaly_state \<Rightarrow> 'a) \<Rightarrow> 'a anomaly_method" where
  "anomaly_query H f s = (if ah_fails H (an_calls s) then Inl QueryFailed else Inr (f s), s\<lparr>an_calls := Suc (an_calls s)\<rparr>)"

section \<open>Metrics over time\<close>

definition minute_ms :: int where
  "minute_ms = 60 * 1000"

definition add_to_interval :: "int \<Rightarrow> metric_point \<Rightarrow> (int, real) jsmap \<Rightarrow> (int, real) jsmap" where
  "add_to_interval intervalMinutes item grouped =
     (let intervalStart = fst item div (intervalMinutes * minute_ms) * (intervalMinutes * minute_ms)
      in js_set intervalStart (get_or 0 (js_get grouped intervalStart) + snd item) grouped)"

definition group_data_by_interval :: "metric_point list \<Rightarrow> int \<Rightarrow> metric_point list" where
  "group_data_by_interval data intervalMinutes = sort_key fst (fold (add_to_interval intervalMinutes) data [])"

definition ones :: "int list \<Rightarrow> metric_point list" where
  "ones stamps = map (\<lambda>t. (t, 1)) (sort stamps)"

definition user_registration_data :: "anomaly_host \<Rightarrow> int \<Rightarrow> metric_point list anomaly_method" where
  "user_registration_data H startTime =
     anomaly_query H (\<lambda>s. group_data_by_interval (ones (filter (\<lambda>t. startTime \<le> t) (an_users s))) 5)"

definition group_creation_data :: "anomaly_host \<Rightarrow> int \<Rightarrow> metric_point list anomaly_method" where
  "group_creation_data H startTime =
     anomaly_query H (\<lambda>s. group_data_by_interval (ones (filter (\<lambda>t. startTime \<le> t) (an_groups s))) 5)"

text \<open>The amounts are big integers: adding one to the number 0 throws; a zero amount counts as the number 0.\<close>

definition contribution_data :: "anomaly_host \<Rightarrow> int \<Rightarrow> metric_point list anomaly_method" where
  "contribution_data H startTime =
     js_then (anomaly_query H (\<lambda>s. sort_key fst (filter (\<lambda>(t, a). startTime \<le> t) (an_contributions s)))) (\<lambda>rows.
       if list_all (\<lambda>(t, a). a = 0) rows then js_return (group_data_by_interval (map (\<lambda>(t, a). (t, 0)) rows) 2)
       else js_throw MixedBigInt)"

definition events_since :: "int \<Rightarrow> (analytics_event \<Rightarrow> bool) \<Rightarrow> anomaly_state \<Rightarrow> analytics_event list" where
  "events_since startTime sel s = sort_key ae_timestamp (filter (\<lambda>e. sel e \<and> startTime \<le> ae_timestamp e) (an_events s))"

text \<open>The intervals of the errors and those of all events are paired by position.\<close>

fun rate_of :: "metric_point list \<Rightarrow> metric_point list \<Rightarrow> metric_point list" where
  "rate_of [] totals = []"
| "rate_of ((t, v) # errors) [] = (t, 0) # rate_of errors []"
| "rate_of ((t, v) # errors) ((t', n) # totals) = (t, v / n) # rate_of errors totals"

definition error_rate_data :: "anomaly_host \<Rightarrow> int \<Rightarrow> metric_point list anomaly_method" where
  "error_rate_data H startTime =
     js_then (anomaly_query H (events_since startTime (\<lambda>e. ae_type e = ''error''))) (\<lambda>errors.
       js_then (anomaly_query H (events_since startTime (\<lambda>e. True))) (\<lambda>totalEvents.
         js_return (rate_of (group_data_by_interval (map (\<lambda>e. (ae_timestamp e, 1)) errors) 5)
           (group_data_by_interval (map (\<lambda>e. (ae_timestamp e, 1)) totalEvents) 5))))"

definition response_time_data :: "anomaly_host \<Rightarrow> int \<Rightarrow> metric_point list anomaly_method" where
  "response_time_data H startTime = anomaly_query H (\<lambda>s.
     group_data_by_interval (map (\<lambda>e. (ae_timestamp e, get_or 0 (ae_responseTime e))) (events_since startTime (\<lambda>e. True) s)) 2)"

definition custom_metric_data :: "anomaly_host \<Rightarrow> string \<Rightarrow> int \<Rightarrow> metric_point list anomaly_method" where
  "custom_metric_data H metric startTime = anomaly_query H (\<lambda>s.
     group_data_by_interval (map (\<lambda>e. (ae_timestamp e, get_or 0 (ae_value e)))
       (events_since startTime (\<lambda>e. ae_type e = ''metric'' \<and> ae_name e = Some metric) s)) 5)"

definition get_metric_data :: "anomaly_host \<Rightarrow> string \<Rightarrow> int \<Rightarrow> metric_point list anomaly_method" where
  "get_metric_data H metric windowSizeMinutes s =
     (let startTime = an_now s - windowSizeMinutes * minute_ms
      in (if metric = ''user_registrations'' then user_registration_data H startTime
          else if metric = ''group_creations'' then group_creation_data H startTime
          else if metric = ''contributions'' then contribution_data H startTime
          else if metric = ''error_rate'' then error_rate_data H startTime
          else if metric = ''response_time'' then response_time_data H startTime
          else custom_metric_data H metric startTime) s)"

section \<open>Statistics\<close>

record statistics =
  st_mean :: real
  st_standardDeviation :: real
  st_median :: real

text \<open>None stands for the statistics of no data, which are not numbers.\<close>

definition calculate_statistics :: "metric_point list \<Rightarrow> statistics option" where
  "calculate_statistics data =
     (let values = map snd data; n = real (length values); mean = sum_list values / n
      in if values = [] then None
         else Some \<lparr>st_mean = mean, st_standardDeviation = sqrt (sum_list (map (\<lambda>v. (v - mean)\<^sup>2) values) / n),
                    st_median = sort values ! (length values div 2)\<rparr>)"

fun threshold_multiplier :: "sensitivity \<Rightarrow> real" where
  "threshold_multiplier SensLow = 8 / 10"
| "threshold_multiplier SensMedium = 1"
| "threshold_multiplier SensHigh = 12 / 10"

fun trend_threshold :: "sensitivity \<Rightarrow> real" where
  "trend_threshold SensLow = 5 / 10"
| "trend_threshold SensMedium = 3 / 10"
| "trend_threshold SensHigh = 1 / 10"

definition calculate_severity :: "js_real \<Rightarrow> sensitivity \<Rightarrow> anomaly_severity" where
  "calculate_severity deviation sens =
     (let adjusted = js_div_by deviation (threshold_multiplier sens)
      in if js_above adjusted 4 then SevCritical else if js_above adjusted 3 then SevHigh
         else if js_above adjusted 2 then SevMedium else SevLow)"

definition calculate_trend_severity :: "real \<Rightarrow> sensitivity \<Rightarrow> anomaly_severity" where
  "calculate_trend_severity slope sens =
     (let ratio = \<bar>slope\<bar> / trend_threshold sens
      in if ratio > 3 then SevCritical else if ratio > 2 then SevHigh else if ratio > 15 / 10 then SevMedium else SevLow)"

definition calculate_slope :: "metric_point list \<Rightarrow> real" where
  "calculate_slope data =
     (let n = real (length data); y = map snd data; x = map real [0..<length data];
          sumX = sum_list x; sumY = sum_list y; sumXY = sum_list (map2 (\<lambda>a b. a * b) x y); sumXX = sum_list (map (\<lambda>a. a * a) x)
      in (n * sumXY - sumX * sumY) / (n * sumXX - sumX * sumX))"


section \<open>Alerts\<close>

definition recommendations :: "string \<Rightarrow> bool \<Rightarrow> anomaly_severity \<Rightarrow> string list" where
  "recommendations metric increase sev =
     (if metric = ''user_registrations'' then
        (if \<not> increase
         then [''Check marketing campaigns and acquisition channels'', ''Review onboarding flow for potential issues'',
               ''Monitor competitor activity'']
         else [''Ensure server capacity can handle increased load'', ''Review fraud detection systems''])
      else if metric = ''group_creations'' then
        (if \<not> increase
         then [''Review group creation UI/UX'', ''Check if group creation limits are too restrictive'',
               ''Analyze successful vs failed group creation attempts'']
         else [])
      else if metric = ''contributions'' then
        (if \<not> increase
         then [''Check payment processing systems'', ''Review contribution reminders and notifications'',
               ''Analyze user engagement metrics'']
         else [])
      else if metric = ''error_rate'' then
        [''Immediate investigation required'', ''Check recent deployments'', ''Review system logs for patterns'',
         ''Consider rollback if necessary'']
      else if metric = ''response_time'' then
        [''Check database performance'', ''Review server resource utilization'', ''Analyze slow queries and API endpoints'']
      else [])
     @ (if sev = SevCritical then [''Escalate to on-call engineering team'', ''Consider implementing emergency procedures''] else [])"

definition trend_recommendations :: "string \<Rightarrow> bool \<Rightarrow> string list" where
  "trend_recommendations metric increasing =
     (if \<not> increasing
      then [''Investigate root cause of declining '' @ metric, ''Analyze if this is part of a larger pattern'',
            ''Consider proactive interventions'']
      else [''Monitor '' @ metric @ '' growth for sustainability'', ''Plan for capacity scaling'',
            ''Review success factors for replication''])"

definition create_alert :: "anomaly_host \<Rightarrow> int \<Rightarrow> string \<Rightarrow> metric_point \<Rightarrow> statistics \<Rightarrow> js_real \<Rightarrow> anomaly_config \<Rightarrow> anomaly_alert" where
  "create_alert H now metric latest stats deviation config =
     (let sev = calculate_severity deviation (ag_sensitivity config); increase = snd latest > st_mean stats
      in \<lparr>al_id = metric @ ''-'' @ show_int now, al_metric = metric, al_value = snd latest, al_expectedValue = st_mean stats,
          al_deviation = deviation, al_severity = sev, al_timestamp = fst latest,
          al_description = ''Unusual '' @ (if increase then ''increase'' else ''decrease'') @ '' in '' @ metric @ '': '' @
            ah_fixed H (snd latest) @ '' (expected: '' @ ah_fixed H (st_mean stats) @ '')'',
          al_recommendations = recommendations metric increase sev\<rparr>)"

definition detect_trend_anomaly :: "int \<Rightarrow> string \<Rightarrow> metric_point list \<Rightarrow> anomaly_config \<Rightarrow> anomaly_alert option" where
  "detect_trend_anomaly now metric data config =
     (if length data < 10 then None
      else let slope = calculate_slope data
           in if \<bar>slope\<bar> > trend_threshold (ag_sensitivity config)
              then Some \<lparr>al_id = metric @ ''-trend-'' @ show_int now, al_metric = metric @ ''_trend'', al_value = slope,
                al_expectedValue = 0, al_deviation = Fin \<bar>slope\<bar>,
                al_severity = calculate_trend_severity \<bar>slope\<bar> (ag_sensitivity config), al_timestamp = fst (last data),
                al_description = ''Significant '' @ (if slope > 0 then ''increasing'' else ''decreasing'') @ '' trend detected in '' @ metric,
                al_recommendations = trend_recommendations metric (slope > 0)\<rparr>
              else None)"

definition deviation_of :: "real \<Rightarrow> statistics option \<Rightarrow> js_real" where
  "deviation_of x stats = (case stats of None \<Rightarrow> NotANumber | Some st \<Rightarrow> js_div \<bar>x - st_mean st\<bar> (st_standardDeviation st))"

definition point_alerts :: "anomaly_host \<Rightarrow> int \<Rightarrow> string \<Rightarrow> metric_point list \<Rightarrow> anomaly_config \<Rightarrow> anomaly_alert list" where
  "point_alerts H now metric data config =
     (case calculate_statistics (butlast data) of
        None \<Rightarrow> []
      | Some stats \<Rightarrow>
          (let deviation = deviation_of (snd (last data)) (Some stats)
           in if js_above deviation (ag_threshold config) then [create_alert H now metric (last data) stats deviation config] else []))"

definition analyze_metric :: "anomaly_host \<Rightarrow> string \<Rightarrow> anomaly_config \<Rightarrow> anomaly_alert list anomaly_method" where
  "analyze_metric H metric config =
     js_then (get_metric_data H metric (ag_windowSize config)) (\<lambda>data s.
       if length data < ag_minDataPoints config then (Inr [], s)
       else if data = [] then (Inl UndefinedPoint, s)
       else (Inr (point_alerts H (an_now s) metric data config @
               (case detect_trend_anomaly (an_now s) metric data config of None \<Rightarrow> [] | Some a \<Rightarrow> [a])), s))"

section \<open>The service\<close>

definition default_configs :: "(string, anomaly_config) jsmap" where
  "default_configs = map (\<lambda>(m, t, w, k, sens). (m, \<lparr>ag_metric = m, ag_threshold = t, ag_windowSize = w, ag_minDataPoints = k,
       ag_sensitivity = sens\<rparr>))
     [(''user_registrations'', 25 / 10, 60, 10, SensMedium), (''group_creations'', 3, 60, 8, SensMedium),
      (''contributions'', 2, 30, 20, SensHigh), (''error_rate'', 2, 15, 12, SensHigh), (''response_time'', 25 / 10, 30, 15, SensMedium)]"

definition add_metric_config :: "anomaly_config \<Rightarrow> anomaly_state \<Rightarrow> anomaly_state" where
  "add_metric_config config s = s\<lparr>an_configs := js_set (ag_metric config) config (an_configs s)\<rparr>"

text \<open>A metric whose analysis throws is logged and skipped.\<close>

fun analyze_all :: "anomaly_host \<Rightarrow> (string \<times> anomaly_config) list \<Rightarrow> anomaly_state \<Rightarrow> anomaly_alert list \<times> anomaly_state" where
  "analyze_all H [] s = ([], s)"
| "analyze_all H ((metric, config) # rest) s =
     (case analyze_metric H metric config s of
        (r, s1) \<Rightarrow> (case analyze_all H rest s1 of
          (alerts, s2) \<Rightarrow> ((case r of Inl e \<Rightarrow> [] | Inr found \<Rightarrow> found) @ alerts, s2)))"

definition grave :: "anomaly_alert \<Rightarrow> bool" where
  "grave a \<longleftrightarrow> al_severity a = SevHigh \<or> al_severity a = SevCritical"

definition anomaly_event :: "anomaly_alert \<Rightarrow> analytics_event" where
  "anomaly_event a = \<lparr>ae_type = ''anomaly_detected'', ae_timestamp = al_timestamp a, ae_name = None, ae_value = Some (al_value a),
     ae_responseTime = None, ae_alert = Some a\<rparr>"

definition store_anomaly :: "anomaly_host \<Rightarrow> anomaly_alert \<Rightarrow> unit anomaly_method" where
  "store_anomaly H a s =
     (let s' = s\<lparr>an_calls := Suc (an_calls s)\<rparr>
      in if ah_fails H (an_calls s) then (Inl QueryFailed, s') else (Inr (), s'\<lparr>an_events := an_events s @ [anomaly_event a]\<rparr>))"

fun store_all :: "anomaly_host \<Rightarrow> anomaly_alert list \<Rightarrow> unit anomaly_method" where
  "store_all H [] = js_return ()"
| "store_all H (a # as) = js_then (if grave a then store_anomaly H a else js_return ()) (\<lambda>_. store_all H as)"

definition detect_anomalies :: "anomaly_host \<Rightarrow> anomaly_alert list anomaly_method" where
  "detect_anomalies H s =
     (case analyze_all H (an_configs s) s of
        (alerts, s1) \<Rightarrow> js_then (store_all H alerts) (\<lambda>_. js_return alerts) s1)"

definition get_recent_anomalies :: "anomaly_host \<Rightarrow> int \<Rightarrow> anomaly_alert option list anomaly_method" where
  "get_recent_anomalies H hours s =
     (let startTime = an_now s - hours * 60 * minute_ms
      in anomaly_query H (\<lambda>s. map ae_alert (rev (events_since startTime (\<lambda>e. ae_type e = ''anomaly_detected'') s))) s)"

record anomaly_summary =
  as_totalAnomalies :: nat
  as_criticalAnomalies :: nat
  as_byMetric :: "(string, nat) jsmap"
  as_bySeverity :: "(anomaly_severity, nat) jsmap"

definition bump :: "'k \<Rightarrow> ('k, nat) jsmap \<Rightarrow> ('k, nat) jsmap" where
  "bump k m = js_set k (get_or 0 (js_get m k) + 1) m"

definition summarize :: "anomaly_alert list \<Rightarrow> anomaly_summary" where
  "summarize alerts =
     (let byMetric = fold (\<lambda>a. bump (al_metric a)) alerts []; bySeverity = fold (\<lambda>a. bump (al_severity a)) alerts []
      in \<lparr>as_totalAnomalies = length alerts, as_criticalAnomalies = get_or 0 (js_get bySeverity SevCritical),
          as_byMetric = byMetric, as_bySeverity = bySeverity\<rparr>)"

definition get_anomaly_summary :: "anomaly_host \<Rightarrow> anomaly_summary anomaly_method" where
  "get_anomaly_summary H = js_then (get_recent_anomalies H 24) (\<lambda>found. js_return (summarize (map the found)))"


section \<open>Intervals\<close>

definition interval_of :: "int \<Rightarrow> int \<Rightarrow> int" where
  "interval_of i t = t div (i * minute_ms) * (i * minute_ms)"

definition sum_at :: "int \<Rightarrow> metric_point list \<Rightarrow> int \<Rightarrow> real" where
  "sum_at i data k = sum_list (map snd (filter (\<lambda>p. interval_of i (fst p) = k) data))"

lemma add_to_interval: "add_to_interval i p m = js_set (interval_of i (fst p)) (get_or 0 (js_get m (interval_of i (fst p))) + snd p) m"
  by (simp add: add_to_interval_def interval_of_def Let_def)

lemma fold_intervals:
  "js_get (fold (add_to_interval i) data m) k =
     (if k \<in> (\<lambda>p. interval_of i (fst p)) ` set data \<or> js_get m k \<noteq> None
      then Some (get_or 0 (js_get m k) + sum_at i data k) else None)"
proof (induction data arbitrary: m)
  case Nil
  then show ?case by (cases "js_get m k") (simp_all add: sum_at_def)
next
  case (Cons p data)
  show ?case using Cons.IH [of "add_to_interval i p m"]
    by (auto simp: add_to_interval [of i p m] js_simps sum_at_def)
qed

lemma wf_intervals: "js_wf m \<Longrightarrow> js_wf (fold (add_to_interval i) data m)"
  by (induction data arbitrary: m) (simp_all add: add_to_interval)

lemma keys_intervals: "fst ` set (fold (add_to_interval i) data []) = (\<lambda>p. interval_of i (fst p)) ` set data"
proof -
  have "k \<in> fst ` set (fold (add_to_interval i) data []) \<longleftrightarrow> js_get (fold (add_to_interval i) data []) k \<noteq> None" for k
    by (simp flip: js_has_iff add: js_has_def)
  then show ?thesis unfolding set_eq_iff fold_intervals by simp
qed

text \<open>
  The events of a metric end up in intervals: the starts are strictly increasing, they are those of the events'
  times, and each interval has the sum over exactly its events.
\<close>

theorem intervals_exact:
  "sorted_wrt (<) (map fst (group_data_by_interval data i))
    \<and> fst ` set (group_data_by_interval data i) = (\<lambda>p. interval_of i (fst p)) ` set data
    \<and> list_all (\<lambda>(k, v). v = sum_at i data k) (group_data_by_interval data i)"
proof -
  let ?m = "fold (add_to_interval i) data []"
  have wf: "js_wf ?m" by (simp add: wf_intervals)
  then have "distinct (map fst (sort_key fst ?m))" by (simp add: js_wf_def distinct_map)
  then have "sorted_wrt (<) (map fst (sort_key fst ?m))" using strict_sorted_iff sorted_sort_key by blast
  moreover have "v = sum_at i data k" if "(k, v) \<in> set ?m" for k v
    using js_in_get [OF wf that] by (auto simp: fold_intervals split: if_splits)
  ultimately show ?thesis
    by (auto simp: group_data_by_interval_def keys_intervals list_all_iff)
qed

lemma interval_range:
  assumes "i > 0" and "a \<le> t" and "t \<le> b"
  shows "interval_of i t \<in> (\<lambda>q. q * (i * minute_ms)) ` {a div (i * minute_ms)..b div (i * minute_ms)}"
proof -
  have "0 < i * minute_ms" using assms(1) by (simp add: minute_ms_def)
  then show ?thesis using assms(2,3) by (auto simp: interval_of_def zdiv_mono1)
qed

lemma few_intervals:
  assumes "i > 0" and "0 \<le> q" and "\<forall>p \<in> set data. now - q * (i * minute_ms) \<le> fst p \<and> fst p \<le> now"
  shows "int (length (group_data_by_interval data i)) \<le> q + 1"
proof -
  let ?I = "i * minute_ms" and ?m = "fold (add_to_interval i) data []"
  have pos: "0 < ?I" using assms(1) by (simp add: minute_ms_def)
  have "distinct (map fst ?m)" using wf_intervals [of "[]" i data] by (simp add: js_wf_def)
  then have "length (group_data_by_interval data i) = card (fst ` set ?m)"
    by (metis distinct_card group_data_by_interval_def length_map length_sort set_map)
  also have "\<dots> \<le> card ((\<lambda>q. q * ?I) ` {(now - q * ?I) div ?I..now div ?I})"
    unfolding keys_intervals using assms interval_range by (intro card_mono) auto
  also have "\<dots> \<le> card {(now - q * ?I) div ?I..now div ?I}" by (rule card_image_le) simp
  also have "(now - q * ?I) div ?I = now div ?I - q"
    using div_mult_self1 [of ?I now "- q"] less_imp_not_eq2 [OF pos] by (simp only: mult_minus_left add_uminus_conv_diff) simp
  finally show ?thesis using assms(2) by simp
qed

section \<open>Blind metrics\<close>

lemma length_rate_of [simp]: "length (rate_of es ts) = length es"
  by (induction es ts rule: rate_of.induct) simp_all

definition past :: "anomaly_state \<Rightarrow> bool" where
  "past s \<longleftrightarrow> (\<forall>p \<in> set (an_contributions s). fst p \<le> an_now s) \<and> (\<forall>e \<in> set (an_events s). ae_timestamp e \<le> an_now s)"

lemma query_frame: "anomaly_query H f s = (r, s') \<Longrightarrow> s' = s\<lparr>an_calls := an_calls s'\<rparr> \<and> (\<forall>x. r = Inr x \<longrightarrow> x = f s)"
  by (auto simp: anomaly_query_def split: if_splits)

lemma contributions_too_few:
  assumes "past s" and "fst (get_metric_data H ''contributions'' 30 s) = Inr data"
  shows "length data < 20"
proof -
  let ?rows = "sort_key fst (filter (\<lambda>(t, a). an_now s - 30 * minute_ms \<le> t) (an_contributions s))"
  have "data = group_data_by_interval (map (\<lambda>(t, a). (t, 0)) ?rows) 2"
    using assms(2)
    by (auto simp: get_metric_data_def contribution_data_def anomaly_query_def js_then_def Let_def split: if_splits)
  moreover have "int (length (group_data_by_interval (map (\<lambda>(t, a). (t, 0)) ?rows) 2)) \<le> 15 + 1"
    using assms(1) by (intro few_intervals [of 2 15 _ "an_now s"]) (auto simp: past_def minute_ms_def)
  ultimately show ?thesis by simp
qed

text \<open>And with any contribution of a non-zero amount in the window the sum itself throws.\<close>

lemma contribution_amounts_throw:
  assumes "\<not> ah_fails H (an_calls s)" and "(t, a) \<in> set (an_contributions s)" and "startTime \<le> t" and "a \<noteq> 0"
  shows "fst (contribution_data H startTime s) = Inl MixedBigInt"
  using assms by (auto simp: contribution_data_def anomaly_query_def js_then_def list_all_iff)

lemma error_rate_too_few:
  assumes "past s" and "fst (get_metric_data H ''error_rate'' 15 s) = Inr data"
  shows "length data < 12"
proof -
  let ?errors = "events_since (an_now s - 15 * minute_ms) (\<lambda>e. ae_type e = ''error'') s"
  have "length data = length (group_data_by_interval (map (\<lambda>e. (ae_timestamp e, 1)) ?errors) 5)"
    using assms(2)
    by (auto simp: get_metric_data_def error_rate_data_def anomaly_query_def js_then_def Let_def split: if_splits)
  moreover have "int (length (group_data_by_interval (map (\<lambda>e. (ae_timestamp e, 1)) ?errors) 5)) \<le> 3 + 1"
    using assms(1) by (intro few_intervals [of 5 3 _ "an_now s"]) (auto simp: past_def events_since_def minute_ms_def)
  ultimately show ?thesis by simp
qed


definition calls_only :: "'a anomaly_method \<Rightarrow> bool" where
  "calls_only m \<longleftrightarrow> (\<forall>s. \<exists>n. snd (m s) = s\<lparr>an_calls := n\<rparr>)"

lemma same_calls: "\<exists>n. s = s\<lparr>an_calls := n\<rparr>" for s :: anomaly_state
  by (rule exI [of _ "an_calls s"]) simp

lemma calls_only_query: "calls_only (anomaly_query H f)"
  by (auto simp: calls_only_def anomaly_query_def)

lemma calls_only_return: "calls_only (js_return x)" "calls_only (js_throw e)"
  by (simp_all add: calls_only_def same_calls)

lemma calls_only_then:
  assumes "calls_only m" and "\<And>x. calls_only (f x)"
  shows "calls_only (js_then m f)"
  unfolding calls_only_def
proof
  fix s
  obtain r s' where m: "m s = (r, s')" by force
  obtain n where n: "s' = s\<lparr>an_calls := n\<rparr>" using assms(1) m by (auto simp: calls_only_def) (metis snd_conv)
  show "\<exists>n. snd (js_then m f s) = s\<lparr>an_calls := n\<rparr>"
  proof (cases r)
    case (Inr x)
    obtain k where "snd (f x s') = s'\<lparr>an_calls := k\<rparr>" using assms(2) by (auto simp: calls_only_def)
    then show ?thesis using m n Inr by (auto simp: js_then_def)
  qed (use m n in \<open>auto simp: js_then_def\<close>)
qed

lemmas calls_only_rules = calls_only_query calls_only_return calls_only_then

lemma metric_data_frame: "\<exists>n. snd (get_metric_data H m w s) = s\<lparr>an_calls := n\<rparr>"
proof -
  have "calls_only (user_registration_data H t)" "calls_only (group_creation_data H t)" "calls_only (contribution_data H t)"
    "calls_only (error_rate_data H t)" "calls_only (response_time_data H t)" "calls_only (custom_metric_data H m t)" for t
    by (auto simp: user_registration_data_def group_creation_data_def contribution_data_def error_rate_data_def
        response_time_data_def custom_metric_data_def intro!: calls_only_rules)
  then show ?thesis by (simp add: get_metric_data_def calls_only_def Let_def)
qed

lemma analyze_frame: "\<exists>n. snd (analyze_metric H m c s) = s\<lparr>an_calls := n\<rparr>"
proof -
  obtain r s' where get: "get_metric_data H m (ag_windowSize c) s = (r, s')" by force
  then obtain n where "s' = s\<lparr>an_calls := n\<rparr>" using metric_data_frame [of H m "ag_windowSize c" s] by auto
  then show ?thesis using get by (cases r) (auto simp: analyze_metric_def js_then_def)
qed

lemma analyze_result:
  assumes "fst (analyze_metric H m c s) = Inr found"
  obtains data where "fst (get_metric_data H m (ag_windowSize c) s) = Inr data"
    and "length data < ag_minDataPoints c \<and> found = [] \<or> ag_minDataPoints c \<le> length data \<and> data \<noteq> [] \<and>
      found = point_alerts H (an_now s) m data c @ (case detect_trend_anomaly (an_now s) m data c of None \<Rightarrow> [] | Some a \<Rightarrow> [a])"
proof -
  obtain r s' where get: "get_metric_data H m (ag_windowSize c) s = (r, s')" by force
  then obtain n where "an_now s' = an_now s" using metric_data_frame [of H m "ag_windowSize c" s] by auto
  then show thesis using that get assms by (cases r) (auto simp: analyze_metric_def js_then_def split: if_splits)
qed

lemma alert_names:
  assumes "fst (analyze_metric H m c s) = Inr found" and "a \<in> set found"
  shows "al_metric a = m \<or> al_metric a = m @ ''_trend''"
  using analyze_result [OF assms(1)] assms(2)
  by (cases rule: analyze_result [OF assms(1)])
    (auto simp: point_alerts_def create_alert_def detect_trend_anomaly_def Let_def split: option.splits if_splits)

lemma analyze_all_frame: "\<exists>n. snd (analyze_all H cs s) = s\<lparr>an_calls := n\<rparr>"
proof (induction H cs s rule: analyze_all.induct)
  case (2 H metric config rest s)
  obtain n where "snd (analyze_metric H metric config s) = s\<lparr>an_calls := n\<rparr>" using analyze_frame by blast
  then show ?case using 2 by (auto split: prod.split)
qed (simp add: same_calls)

lemma analyze_all_alerts:
  "a \<in> set (fst (analyze_all H cs s)) \<Longrightarrow>
    \<exists>m c n found. (m, c) \<in> set cs \<and> fst (analyze_metric H m c (s\<lparr>an_calls := n\<rparr>)) = Inr found \<and> a \<in> set found"
proof (induction H cs s rule: analyze_all.induct)
  case (2 H metric config rest s)
  obtain r s1 where step: "analyze_metric H metric config s = (r, s1)" by force
  obtain n where s1: "s1 = s\<lparr>an_calls := n\<rparr>" using analyze_frame [of H metric config s] step by auto
  show ?case
  proof (cases "a \<in> set (fst (analyze_all H rest s1))")
    case True
    obtain m c k found where "(m, c) \<in> set rest" "fst (analyze_metric H m c (s1\<lparr>an_calls := k\<rparr>)) = Inr found" "a \<in> set found"
      using "2.IH" [OF step [symmetric] True] by blast
    then show ?thesis using s1 by (intro exI [of _ m] exI [of _ c] exI [of _ k] exI [of _ found]) simp
  next
    case False
    then obtain found where "r = Inr found" "a \<in> set found"
      using "2.prems" step by (auto split: prod.splits sum.splits)
    then show ?thesis using step
      by (intro exI [of _ metric] exI [of _ config] exI [of _ "an_calls s"] exI [of _ found]) simp
  qed
qed simp

text \<open>
  With the shipped configuration two of the five metrics are never analysed: their windows hold at most 16 and 4
  intervals and they ask for 20 and 12, so that no alert about contributions or the error rate is ever raised.
\<close>

theorem two_metrics_never_analysed:
  assumes "past s" and "an_configs s = default_configs" and "fst (detect_anomalies H s) = Inr alerts" and "a \<in> set alerts"
  shows "al_metric a \<notin> {''contributions'', ''contributions_trend'', ''error_rate'', ''error_rate_trend''}"
proof -
  have "a \<in> set (fst (analyze_all H default_configs s))"
    using assms(2-4) by (auto simp: detect_anomalies_def js_then_def split: prod.splits sum.splits)
  then obtain m c n found where mc: "(m, c) \<in> set default_configs"
    and found: "fst (analyze_metric H m c (s\<lparr>an_calls := n\<rparr>)) = Inr found" "a \<in> set found"
    using analyze_all_alerts by blast
  have past: "past (s\<lparr>an_calls := n\<rparr>)" using assms(1) by (simp add: past_def)
  obtain data where "fst (get_metric_data H m (ag_windowSize c) (s\<lparr>an_calls := n\<rparr>)) = Inr data" "ag_minDataPoints c \<le> length data"
    using analyze_result [OF found(1)] found(2) by (metis empty_iff list.set(1))
  moreover have "m = ''contributions'' \<Longrightarrow> ag_windowSize c = 30 \<and> ag_minDataPoints c = 20"
    "m = ''error_rate'' \<Longrightarrow> ag_windowSize c = 15 \<and> ag_minDataPoints c = 12"
    and names: "m \<in> {''user_registrations'', ''group_creations'', ''contributions'', ''error_rate'', ''response_time''}"
    using mc by (auto simp: default_configs_def)
  ultimately have "m \<noteq> ''contributions''" "m \<noteq> ''error_rate''"
    using contributions_too_few [OF past, of H data] error_rate_too_few [OF past, of H data] by auto
  then have "m \<in> {''user_registrations'', ''group_creations'', ''response_time''}" using names by simp
  then show ?thesis using alert_names [OF found] by auto
qed

section \<open>The two tests\<close>

text \<open>How far the latest interval must be from the mean of the earlier ones, where they are all alike: at all.\<close>

definition far_off :: "real \<Rightarrow> metric_point list \<Rightarrow> bool" where
  "far_off threshold data =
    (let vs = map snd (butlast data); mean = sum_list vs / real (length vs)
     in \<bar>snd (last data) - mean\<bar> > threshold * sqrt (sum_list (map (\<lambda>v. (v - mean)\<^sup>2) vs) / real (length vs)))"

lemma deviation_test:
  assumes "length data \<ge> 2"
  shows "point_alerts H now m data c \<noteq> [] \<longleftrightarrow> far_off (ag_threshold c) data"
proof -
  define vs where "vs = map snd (butlast data)"
  define mean where "mean = sum_list vs / real (length vs)"
  define sd where "sd = sqrt (sum_list (map (\<lambda>v. (v - mean)\<^sup>2) vs) / real (length vs))"
  have "vs \<noteq> []" using assms by (cases data rule: rev_cases) (auto simp: vs_def)
  then have "point_alerts H now m data c \<noteq> [] \<longleftrightarrow> js_above (js_div \<bar>snd (last data) - mean\<bar> sd) (ag_threshold c)"
    unfolding point_alerts_def calculate_statistics_def Let_def vs_def [symmetric]
    by (simp add: deviation_of_def flip: mean_def sd_def)
  moreover have "0 \<le> sum_list (map (\<lambda>v. (v - mean)\<^sup>2) vs)" by (rule sum_list_nonneg) auto
  then have "sd \<ge> 0" by (simp add: sd_def)
  then have "js_above (js_div \<bar>snd (last data) - mean\<bar> sd) (ag_threshold c) \<longleftrightarrow> \<bar>snd (last data) - mean\<bar> > ag_threshold c * sd"
    by (cases "sd = 0") (auto simp: js_div_def pos_less_divide_eq)
  ultimately show ?thesis by (simp add: Let_def sd_def mean_def vs_def far_off_def)
qed

lemma point_alerts_short: "length data < 2 \<Longrightarrow> point_alerts H now m data c = []"
  by (cases data; cases "tl data") (simp_all add: point_alerts_def calculate_statistics_def)

lemma point_alerts_shape:
  "a \<in> set (point_alerts H now m data c) \<Longrightarrow>
     al_metric a = m \<and> al_value a = snd (last data) \<and> al_timestamp a = fst (last data)
     \<and> al_expectedValue a = sum_list (map snd (butlast data)) / real (length data - 1)"
  by (auto simp: point_alerts_def calculate_statistics_def create_alert_def Let_def split: if_splits option.splits)

lemma trend_alert_metric: "detect_trend_anomaly now m data c = Some a \<Longrightarrow> al_metric a = m @ ''_trend''"
  by (auto simp: detect_trend_anomaly_def Let_def split: if_splits)

lemma point_alerts_exact:
  "(\<exists>a \<in> set (point_alerts H now m data c). al_metric a = m) \<longleftrightarrow> 2 \<le> length data \<and> far_off (ag_threshold c) data"
proof (cases "2 \<le> length data")
  case True
  have "\<forall>a \<in> set (point_alerts H now m data c). al_metric a = m" using point_alerts_shape by blast
  then have "(\<exists>a \<in> set (point_alerts H now m data c). al_metric a = m) \<longleftrightarrow> point_alerts H now m data c \<noteq> []"
    by (cases "point_alerts H now m data c") simp_all
  then show ?thesis using deviation_test [OF True, of H now m c] True by simp
qed (simp add: point_alerts_short)

text \<open>
  C30. What the analysis of a metric reports, for whatever its data: an alert under the metric's own name is among the
  alerts exactly when there are enough intervals, one before the latest at least, and the latest is further from the
  mean of the earlier ones than the threshold times their standard deviation (where they are all alike, when it differs
  at all); it gives the latest value and that mean. With too few intervals nothing is reported, a failed query is
  passed on, and with no data and no minimum the analysis throws.
\<close>

theorem deviation_rule_exact:
  "case get_metric_data H m (ag_windowSize c) s of
     (Inl e, s') \<Rightarrow> analyze_metric H m c s = (Inl e, s')
   | (Inr data, s') \<Rightarrow>
       if data = [] \<and> ag_minDataPoints c = 0 then analyze_metric H m c s = (Inl UndefinedPoint, s')
       else \<exists>found. analyze_metric H m c s = (Inr found, s')
         \<and> (length data < ag_minDataPoints c \<longrightarrow> found = [])
         \<and> ((\<exists>a \<in> set found. al_metric a = m) \<longleftrightarrow>
              ag_minDataPoints c \<le> length data \<and> 2 \<le> length data \<and> far_off (ag_threshold c) data)
         \<and> (\<forall>a \<in> set found. al_metric a = m \<longrightarrow> al_value a = snd (last data) \<and> al_timestamp a = fst (last data)
              \<and> al_expectedValue a = sum_list (map snd (butlast data)) / real (length data - 1))"
proof -
  obtain r s' where get: "get_metric_data H m (ag_windowSize c) s = (r, s')" by force
  show ?thesis
  proof (cases r)
    case (Inl e)
    then show ?thesis using get by (simp add: analyze_metric_def js_then_def)
  next
    case (Inr data)
    let ?trend = "case detect_trend_anomaly (an_now s') m data c of None \<Rightarrow> [] | Some a \<Rightarrow> [a]"
    have run: "analyze_metric H m c s = (if length data < ag_minDataPoints c then (Inr [], s')
        else if data = [] then (Inl UndefinedPoint, s') else (Inr (point_alerts H (an_now s') m data c @ ?trend), s'))"
      using Inr get by (simp add: analyze_metric_def js_then_def)
    have "\<forall>a \<in> set ?trend. al_metric a \<noteq> m" using trend_alert_metric by (auto split: option.splits)
    then show ?thesis
      using get Inr run point_alerts_exact [of H "an_now s'" m data c] point_alerts_shape [of _ H "an_now s'" m data c]
      by auto
  qed
qed


text \<open>Sums over the positions of a list.\<close>

lemma sum_positions: "sum_list (map real [0..<n]) = real n * (real n - 1) / 2"
  by (induction n) (simp_all add: field_simps)

lemma sum_square_positions: "sum_list (map (\<lambda>a. a * a) (map real [0..<n])) = real n * (real n - 1) * (2 * real n - 1) / 6"
  by (induction n) (simp_all add: field_simps)

lemma slope_denominator:
  assumes "n \<ge> 2"
  shows "real n * (real n * (real n - 1) * (2 * real n - 1) / 6) - (real n * (real n - 1) / 2)\<^sup>2 > 0"
proof -
  have eq: "real n * (real n * (real n - 1) * (2 * real n - 1) / 6) - (real n * (real n - 1) / 2)\<^sup>2 =
      real n * real n * (real n - 1) * (real n + 1) / 12"
    by (simp add: power2_eq_square field_simps)
  have "real n > 1" using assms by simp
  then show ?thesis unfolding eq by simp
qed

text \<open>
  The regression is exact on a line: data that grows by the same step from interval to interval has that step as its
  slope, and is reported as a trend just when the step is larger than the limit of the sensitivity.
\<close>

theorem trend_of_line:
  assumes "map snd data = map (\<lambda>i. a + b * real i) [0..<n]" and "n \<ge> 10"
  shows "calculate_slope data = b
    \<and> (detect_trend_anomaly now m data c \<noteq> None \<longleftrightarrow> \<bar>b\<bar> > trend_threshold (ag_sensitivity c))"
proof -
  have n: "length data = n" using arg_cong [OF assms(1), of length] by simp
  let ?x = "map real [0..<n]"
  let ?S = "real n * (real n - 1) / 2" and ?Q = "real n * (real n - 1) * (2 * real n - 1) / 6"
  have y: "map snd data = map (\<lambda>t. a + b * t) ?x" using assms(1) by (simp add: comp_def)
  have lin: "sum_list (map (\<lambda>t. a + b * t) xs) = real (length xs) * a + b * sum_list xs" for xs :: "real list"
    by (induction xs) (simp_all add: algebra_simps)
  have mult: "sum_list (map2 (\<lambda>u v. u * v) xs (map (\<lambda>t. a + b * t) xs)) = a * sum_list xs + b * sum_list (map (\<lambda>t. t * t) xs)"
    for xs :: "real list"
    by (induction xs) (simp_all add: algebra_simps)
  have "calculate_slope data = (real n * (a * ?S + b * ?Q) - ?S * (real n * a + b * ?S)) / (real n * ?Q - ?S * ?S)"
    unfolding calculate_slope_def Let_def n y
    unfolding mult lin sum_positions sum_square_positions by simp
  also have "\<dots> = b * (real n * ?Q - ?S\<^sup>2) / (real n * ?Q - ?S\<^sup>2)"
    by (simp add: power2_eq_square algebra_simps)
  also have "\<dots> = b" using slope_denominator [of n] assms(2) by simp
  finally have slope: "calculate_slope data = b" .
  then show ?thesis using assms(2) n by (simp add: detect_trend_anomaly_def Let_def)
qed

section \<open>Records of alerts\<close>

lemma store_all_up:
  "\<forall>n. \<not> ah_fails H n \<Longrightarrow> \<exists>s'. store_all H as s = (Inr (), s') \<and> an_events s' = an_events s @ map anomaly_event (filter grave as)
     \<and> an_now s' = an_now s"
proof (induction as arbitrary: s)
  case (Cons a as)
  show ?case using Cons.IH [of "s\<lparr>an_calls := Suc (an_calls s), an_events := an_events s @ [anomaly_event a]\<rparr>"] Cons.IH [of s] Cons.prems
    by (auto simp: js_then_def store_anomaly_def Let_def)
qed simp

lemma analysis_keeps_events: "an_events (snd (analyze_all H cs s)) = an_events s" "an_now (snd (analyze_all H cs s)) = an_now s"
  using analyze_all_frame [of H cs s] by auto

lemma grave_alerts_stored_up:
  assumes "\<forall>n. \<not> ah_fails H n"
  shows "\<exists>alerts. fst (detect_anomalies H s) = Inr alerts
    \<and> an_events (snd (detect_anomalies H s)) = an_events s @ map anomaly_event (filter grave alerts)"
proof -
  obtain alerts s1 where a: "analyze_all H (an_configs s) s = (alerts, s1)" by force
  obtain s2 where "store_all H alerts s1 = (Inr (), s2)" "an_events s2 = an_events s1 @ map anomaly_event (filter grave alerts)"
    using store_all_up [OF assms] by blast
  moreover have "an_events s1 = an_events s" using analysis_keeps_events [of H "an_configs s" s] a by simp
  ultimately show ?thesis using a by (simp add: detect_anomalies_def js_then_def)
qed

text \<open>
  While the database answers, a detection stores exactly the alerts of high and critical severity, in order, and
  returns all of them.
\<close>

theorem grave_alerts_stored:
  assumes "\<forall>n. \<not> ah_fails H n"
  shows "\<exists>alerts. fst (detect_anomalies H s) = Inr alerts
    \<and> an_events (snd (detect_anomalies H s)) = an_events s @ map anomaly_event (filter grave alerts)"
  using assms by (rule grave_alerts_stored_up)

lemma bump_get: "js_get (fold (\<lambda>a. bump (f a)) xs m) k =
    (if js_get m k \<noteq> None \<or> k \<in> f ` set xs then Some (get_or 0 (js_get m k) + count_list (map f xs) k) else None)"
proof (induction xs arbitrary: m)
  case Nil
  then show ?case by (cases "js_get m k") auto
next
  case (Cons x xs)
  show ?case using Cons.IH [of "bump (f x) m"] by (auto simp: bump_def js_simps)
qed

lemma bump_count: "get_or 0 (js_get (fold (\<lambda>a. bump (f a)) xs []) k) = length (filter (\<lambda>a. f a = k) xs)"
proof -
  have "count_list (map f xs) k = length (filter (\<lambda>a. f a = k) xs)" by (induction xs) auto
  moreover have "k \<notin> f ` set xs \<Longrightarrow> filter (\<lambda>a. f a = k) xs = []" by (auto simp: filter_empty_conv)
  ultimately show ?thesis by (simp add: bump_get)
qed

text \<open>
  The summary counts every recorded anomaly once by metric and once by severity.
\<close>

theorem summary_counts:
  "get_or 0 (js_get (as_byMetric (summarize alerts)) m) = length (filter (\<lambda>a. al_metric a = m) alerts)
    \<and> get_or 0 (js_get (as_bySeverity (summarize alerts)) v) = length (filter (\<lambda>a. al_severity a = v) alerts)
    \<and> as_criticalAnomalies (summarize alerts) = length (filter (\<lambda>a. al_severity a = SevCritical) alerts)
    \<and> as_totalAnomalies (summarize alerts) = length alerts"
  by (simp add: summarize_def bump_count Let_def)

text \<open>
  A detection that the database interrupts reports nothing: one failing insert makes the whole call throw, the alerts
  found are lost, and those stored before it stay.
\<close>

lemma failed_insert_loses_alerts:
  assumes "analyze_all H (an_configs s) s = (a # as, s1)" and "grave a" and "ah_fails H (an_calls s1)"
  shows "detect_anomalies H s = (Inl QueryFailed, s1\<lparr>an_calls := Suc (an_calls s1)\<rparr>)"
  using assms by (simp add: detect_anomalies_def js_then_def store_anomaly_def Let_def)

section \<open>Examples\<close>

definition quiet_host :: anomaly_host where
  "quiet_host = \<lparr>ah_fails = (\<lambda>_. False), ah_fixed = (\<lambda>_. [])\<rparr>"

definition demo_anomalies :: "(string, anomaly_config) jsmap \<Rightarrow> anomaly_state" where
  "demo_anomalies configs = \<lparr>an_configs = configs, an_users = [], an_groups = [], an_contributions = [], an_events = [],
     an_now = 3600000, an_calls = 0\<rparr>"

definition demo_rule :: anomaly_config where
  "demo_rule = \<lparr>ag_metric = ''load'', ag_threshold = 2, ag_windowSize = 60, ag_minDataPoints = 2, ag_sensitivity = SensMedium\<rparr>"

text \<open>A state in which registrations jump in the last interval.\<close>

definition jump :: anomaly_state where
  "jump = (demo_anomalies default_configs)\<lparr>an_users := concat (map (\<lambda>i. replicate (if i = 10 then 9 else 1) (300000 * int i)) [0..<11])\<rparr>"

theorem two_metrics_never_analysed_witness:
  "\<exists>alerts. fst (detect_anomalies quiet_host jump) = Inr alerts \<and> (\<forall>a \<in> set alerts. al_metric a \<noteq> ''error_rate'')"
proof -
  obtain alerts where "fst (detect_anomalies quiet_host jump) = Inr alerts"
    using grave_alerts_stored_up [of quiet_host jump] by (auto simp: quiet_host_def)
  then show ?thesis
    using two_metrics_never_analysed [of jump quiet_host alerts]
    by (auto simp: jump_def demo_anomalies_def past_def)
qed

text \<open>Three intervals of a metric of its own, the last of them out of line.\<close>

definition load_jump :: anomaly_state where
  "load_jump = (demo_anomalies [])\<lparr>an_events := map (\<lambda>(i, v). \<lparr>ae_type = ''metric'', ae_timestamp = 300000 * i, ae_name = Some ''load'',
     ae_value = Some v, ae_responseTime = None, ae_alert = None\<rparr>) [(0, 4), (1, 4), (2, 5)]\<rparr>"

lemma load_data: "get_metric_data quiet_host ''load'' 60 load_jump = (Inr [(0, 4), (300000, 4), (600000, 5)], load_jump\<lparr>an_calls := 1\<rparr>)"
  by (simp add: get_metric_data_def custom_metric_data_def anomaly_query_def quiet_host_def load_jump_def demo_anomalies_def
      events_since_def group_data_by_interval_def add_to_interval_def minute_ms_def)

theorem deviation_rule_exact_witness:
  "\<exists>found. fst (analyze_metric quiet_host ''load'' demo_rule load_jump) = Inr found
    \<and> (\<exists>a \<in> set found. al_metric a = ''load'' \<and> al_value a = 5 \<and> al_expectedValue a = 4)"
proof -
  have "far_off 2 [(0, 4), (300000, 4), (600000, 5)]" by (simp add: far_off_def)
  then show ?thesis
    using deviation_rule_exact [of quiet_host "''load''" demo_rule load_jump]
    by (simp add: demo_rule_def load_data) (elim exE conjE bexE, intro exI conjI bexI, auto)
qed

theorem trend_of_line_witness:
  "detect_trend_anomaly 0 ''load'' (map (\<lambda>i. (int i, 1 + real i / 2)) [0..<12]) demo_rule \<noteq> None"
  using trend_of_line [of "map (\<lambda>i. (int i, 1 + real i / 2)) [0..<12]" 1 "1 / 2" 12 0 "''load''" demo_rule]
  by (simp add: demo_rule_def comp_def)

theorem grave_alerts_stored_witness:
  "\<exists>alerts. an_events (snd (detect_anomalies quiet_host jump)) = map anomaly_event (filter grave alerts)"
  using grave_alerts_stored [of quiet_host jump] by (auto simp: quiet_host_def jump_def demo_anomalies_def)

end
