(* ===== verification/ChainServices.thy ===== *)
theory ChainServices
  imports Tables "HOL-Library.Word" "HOL-Library.Signed_Division"
begin

text \<open>
  The backend's access to the savings contract: \<open>services/sorobanService.ts\<close>, \<open>loanService.ts\<close>,
  \<open>emergencyService.ts\<close>, \<open>insuranceService.ts\<close> and \<open>riskAssessment.ts\<close>, with the exported interface of
  \<open>contracts/ajo/src/contract.rs\<close> for the methods they name.

  Contract values keep their width. The SDK is a record: how strings parse as integers, numbers and addresses, and whether
  reading the wrong arm of a contract value throws or gives \<open>undefined\<close>. The RPC node answers by the number of the call and
  the time; a call takes no time, a pause takes its time.
\<close>

section \<open>Contract values\<close>

datatype scval =
    ScVoid | ScBool bool | ScString string | ScSymbol string | ScU32 int | ScI32 int | ScU64 "64 word" | ScI128 "128 word"
  | ScAddress string | ScVec "scval list option" | ScMap "(scval \<times> scval) list option" | ScOther string

datatype service_error = ServiceError string string | RawError string

record chain_sdk =
  ck_strict :: bool
  ck_bigint :: "string \<Rightarrow> int option"
  ck_address :: "string \<Rightarrow> bool"
  ck_number :: "string \<Rightarrow> rat option"
  ck_xdr :: "scval \<Rightarrow> string"

type_synonym 'a outcome_of = "service_error + 'a"

definition and_then :: "'a outcome_of \<Rightarrow> ('a \<Rightarrow> 'b outcome_of) \<Rightarrow> 'b outcome_of" where
  "and_then x f = (case x of Inl e \<Rightarrow> Inl e | Inr a \<Rightarrow> f a)"

text \<open>Reading an arm: \<open>undefined\<close> is None.\<close>

definition arm :: "chain_sdk \<Rightarrow> string \<Rightarrow> 'a option \<Rightarrow> 'a option outcome_of" where
  "arm K name v = (case v of Some x \<Rightarrow> Inr (Some x) | None \<Rightarrow> if ck_strict K then Inl (RawError (name @ '' not set'')) else Inr None)"

fun as_str :: "scval \<Rightarrow> string option" where
  "as_str (ScString s) = Some s" | "as_str _ = None"

fun as_sym :: "scval \<Rightarrow> string option" where
  "as_sym (ScSymbol s) = Some s" | "as_sym _ = None"

fun as_u64 :: "scval \<Rightarrow> 64 word option" where
  "as_u64 (ScU64 w) = Some w" | "as_u64 _ = None"

fun as_u32 :: "scval \<Rightarrow> int option" where
  "as_u32 (ScU32 n) = Some n" | "as_u32 _ = None"

fun as_i128 :: "scval \<Rightarrow> 128 word option" where
  "as_i128 (ScI128 w) = Some w" | "as_i128 _ = None"

fun as_vec :: "scval \<Rightarrow> scval list option option" where
  "as_vec (ScVec xs) = Some xs" | "as_vec _ = None"

fun as_map :: "scval \<Rightarrow> (scval \<times> scval) list option option" where
  "as_map (ScMap es) = Some es" | "as_map _ = None"

text \<open>\<open>lo()\<close> is the low half of the 128 bits, without a sign.\<close>

definition low_half :: "128 word \<Rightarrow> 64 word" where
  "low_half w = ucast w"

definition show_word :: "64 word \<Rightarrow> string" where
  "show_word w = show_int (uint w)"

fun sc_val_to_string :: "chain_sdk \<Rightarrow> scval \<Rightarrow> string" where
  "sc_val_to_string K (ScString s) = s"
| "sc_val_to_string K (ScSymbol s) = s"
| "sc_val_to_string K (ScBool b) = (if b then ''true'' else ''false'')"
| "sc_val_to_string K (ScU32 n) = show_int n"
| "sc_val_to_string K (ScU64 w) = show_word w"
| "sc_val_to_string K (ScI128 w) = show_word (low_half w)"
| "sc_val_to_string K (ScAddress a) = a"
| "sc_val_to_string K v = ck_xdr K v"

text \<open>\<open>key().str()?.toString() ?? key().sym()?.toString() ?? ''\<close>.\<close>

definition text_of_key :: "chain_sdk \<Rightarrow> scval \<Rightarrow> string outcome_of" where
  "text_of_key K key = and_then (arm K ''str'' (as_str key)) (\<lambda>s.
     case s of Some t \<Rightarrow> Inr t | None \<Rightarrow> and_then (arm K ''sym'' (as_sym key)) (\<lambda>t. Inr (get_or [] t)))"

fun decode_entries :: "chain_sdk \<Rightarrow> (scval \<times> scval) list \<Rightarrow> (string, string) jsmap \<Rightarrow> (string, string) jsmap outcome_of" where
  "decode_entries K [] acc = Inr acc"
| "decode_entries K ((k, v) # es) acc = and_then (text_of_key K k) (\<lambda>key. decode_entries K es (js_set key (sc_val_to_string K v) acc))"

definition entries_of :: "chain_sdk \<Rightarrow> scval \<Rightarrow> (scval \<times> scval) list outcome_of" where
  "entries_of K v = and_then (arm K ''map'' (as_map v)) (\<lambda>m. Inr (case m of Some (Some es) \<Rightarrow> es | _ \<Rightarrow> []))"

definition items_of :: "chain_sdk \<Rightarrow> scval \<Rightarrow> scval list outcome_of" where
  "items_of K v = and_then (arm K ''vec'' (as_vec v)) (\<lambda>m. Inr (case m of Some (Some xs) \<Rightarrow> xs | _ \<Rightarrow> []))"

definition decode_sc_map :: "chain_sdk \<Rightarrow> scval \<Rightarrow> (string, string) jsmap outcome_of" where
  "decode_sc_map K v = and_then (entries_of K v) (\<lambda>es. decode_entries K es [])"

fun map_throwing :: "('a \<Rightarrow> 'b outcome_of) \<Rightarrow> 'a list \<Rightarrow> 'b list outcome_of" where
  "map_throwing f [] = Inr []"
| "map_throwing f (x # xs) = and_then (f x) (\<lambda>y. and_then (map_throwing f xs) (\<lambda>ys. Inr (y # ys)))"

section \<open>Domain objects\<close>

record soroban_group =
  bg_id :: string
  bg_name :: string
  bg_description :: string
  bg_contributionAmount :: string
  bg_frequency :: string
  bg_maxMembers :: "rat option"
  bg_currentMembers :: "rat option"
  bg_admin :: string
  bg_createdAt :: "rat option"
  bg_isActive :: bool

record soroban_member =
  bm_publicKey :: string
  bm_joinedAt :: "rat option"
  bm_totalContributed :: string
  bm_hasReceivedPayout :: bool

record soroban_transaction =
  bt_id :: string
  bt_groupId :: string
  bt_publicKey :: string
  bt_amount :: string
  bt_type :: string
  bt_timestamp :: "rat option"
  bt_ledger :: "rat option"

text \<open>\<open>raw.field ?? d\<close>, and \<open>Number(raw.field ?? 0)\<close>.\<close>

definition field :: "(string, string) jsmap \<Rightarrow> string \<Rightarrow> string \<Rightarrow> string" where
  "field raw k d = get_or d (js_get raw k)"

definition number_field :: "chain_sdk \<Rightarrow> (string, string) jsmap \<Rightarrow> string \<Rightarrow> rat option" where
  "number_field K raw k = (case js_get raw k of None \<Rightarrow> Some 0 | Some s \<Rightarrow> ck_number K s)"

definition map_to_group :: "chain_sdk \<Rightarrow> (string, string) jsmap \<Rightarrow> string \<Rightarrow> soroban_group" where
  "map_to_group K raw i = \<lparr>bg_id = i, bg_name = field raw ''name'' [], bg_description = field raw ''description'' [],
     bg_contributionAmount = field raw ''contribution_amount'' ''0'', bg_frequency = field raw ''frequency'' [],
     bg_maxMembers = number_field K raw ''max_members'', bg_currentMembers = number_field K raw ''current_members'',
     bg_admin = field raw ''admin'' [], bg_createdAt = number_field K raw ''created_at'',
     bg_isActive = (js_get raw ''is_active'' = Some ''true'')\<rparr>"

definition map_to_member :: "chain_sdk \<Rightarrow> (string, string) jsmap \<Rightarrow> soroban_member" where
  "map_to_member K raw = \<lparr>bm_publicKey = field raw ''public_key'' [], bm_joinedAt = number_field K raw ''joined_at'',
     bm_totalContributed = field raw ''total_contributed'' ''0'',
     bm_hasReceivedPayout = (js_get raw ''has_received_payout'' = Some ''true'')\<rparr>"

definition map_to_transaction :: "chain_sdk \<Rightarrow> (string, string) jsmap \<Rightarrow> soroban_transaction" where
  "map_to_transaction K raw = \<lparr>bt_id = field raw ''id'' [], bt_groupId = field raw ''group_id'' [],
     bt_publicKey = field raw ''public_key'' [], bt_amount = field raw ''amount'' ''0'', bt_type = field raw ''type'' ''contribution'',
     bt_timestamp = number_field K raw ''timestamp'', bt_ledger = number_field K raw ''ledger''\<rparr>"

record pagination_info =
  pg_page :: int
  pg_limit :: int
  pg_total :: int
  pg_totalPages :: int
  pg_hasNextPage :: bool
  pg_hasPrevPage :: bool

text \<open>Pages and limits are positive.\<close>

definition paginate_items :: "'a list \<Rightarrow> int \<Rightarrow> int \<Rightarrow> 'a list \<times> pagination_info" where
  "paginate_items items pageNo limit =
     (let n = int (length items); totalPages = ceil_div n limit; offset = (pageNo - 1) * limit
      in (js_slice offset (offset + limit) items,
          \<lparr>pg_page = pageNo, pg_limit = limit, pg_total = n, pg_totalPages = totalPages, pg_hasNextPage = (pageNo < totalPages),
           pg_hasPrevPage = (pageNo > 1)\<rparr>))"


section \<open>The RPC node\<close>

datatype simulation_reply = SimThrows | SimError string | SimOk "scval option"

datatype send_reply = SendThrows | SendError "string option" | SendAccepted string

datatype status_reply = StatusThrows | TxNotFound | TxSucceeded "scval option" | TxFailedOnChain

record rpc_host =
  rh_account :: "nat \<Rightarrow> bool"
  rh_simulate :: "nat \<Rightarrow> string \<Rightarrow> scval list \<Rightarrow> simulation_reply"
  rh_assemble :: "string \<Rightarrow> string \<Rightarrow> scval list \<Rightarrow> string"
  rh_validXdr :: "string \<Rightarrow> bool"
  rh_send :: "nat \<Rightarrow> string \<Rightarrow> send_reply"
  rh_status :: "int \<Rightarrow> string \<Rightarrow> status_reply"

record rpc_state =
  rp_now :: int
  rp_calls :: nat
  rp_sent :: "string list"

type_synonym 'a rpc_method = "(rpc_state, service_error, 'a) js_method"

text \<open>A number that is no unsigned 32-bit integer cannot be encoded.\<close>

definition encodable :: "scval list \<Rightarrow> bool" where
  "encodable args = list_all (\<lambda>v. case v of ScU32 n \<Rightarrow> 0 \<le> n \<and> n < 2 ^ 32 | _ \<Rightarrow> True) args"

definition simulate_call :: "rpc_host \<Rightarrow> string \<Rightarrow> service_error \<Rightarrow> scval list \<Rightarrow> scval option rpc_method" where
  "simulate_call R fname failed args s =
     (let s1 = s\<lparr>rp_calls := Suc (rp_calls s)\<rparr>; s2 = s1\<lparr>rp_calls := Suc (rp_calls s1)\<rparr>
      in if \<not> rh_account R (rp_calls s) then (Inl failed, s1)
         else if \<not> encodable args then (Inl failed, s1)
         else case rh_simulate R (rp_calls s1) fname args of
           SimThrows \<Rightarrow> (Inl failed, s2)
         | SimError e \<Rightarrow> (Inl (ServiceError (''Simulation failed for '' @ fname @ '': '' @ e) ''SIMULATION_ERROR''), s2)
         | SimOk v \<Rightarrow> (Inr v, s2))"

definition simulate_view :: "rpc_host \<Rightarrow> string \<Rightarrow> scval list \<Rightarrow> scval option rpc_method" where
  "simulate_view R fname args = simulate_call R fname (ServiceError (''Failed to simulate '' @ fname) ''SIMULATION_ERROR'') args"

definition build_unsigned_transaction :: "rpc_host \<Rightarrow> string \<Rightarrow> string \<Rightarrow> scval list \<Rightarrow> string rpc_method" where
  "build_unsigned_transaction R source fname args =
     js_then (simulate_call R fname (ServiceError (''Failed to build transaction for '' @ fname) ''BUILD_ERROR'') args)
       (\<lambda>_. js_return (rh_assemble R source fname args))"

definition poll_timeout_ms :: int where
  "poll_timeout_ms = 30000"

definition poll_pause_ms :: int where
  "poll_pause_ms = 2000"

function poll_until :: "rpc_host \<Rightarrow> string \<Rightarrow> int \<Rightarrow> (scval option option) rpc_method" where
  "poll_until R hash deadline s =
     (if rp_now s < deadline then
        (let s1 = s\<lparr>rp_calls := Suc (rp_calls s)\<rparr>
         in case rh_status R (rp_now s) hash of
              StatusThrows \<Rightarrow> (Inl (RawError ''status''), s1)
            | TxNotFound \<Rightarrow> poll_until R hash deadline (s1\<lparr>rp_now := rp_now s1 + poll_pause_ms\<rparr>)
            | TxSucceeded v \<Rightarrow> (Inr (Some v), s1)
            | TxFailedOnChain \<Rightarrow> (Inr None, s1))
      else (Inl (ServiceError (''Transaction '' @ hash @ '' did not confirm within 30000ms'') ''TX_TIMEOUT''), s))"
  by pat_completeness auto

termination poll_until
  by (relation "measure (\<lambda>(R, hash, deadline, s). nat (deadline - rp_now s))") (auto simp: poll_pause_ms_def)

declare poll_until.simps [simp del]

definition poll_for_confirmation :: "rpc_host \<Rightarrow> string \<Rightarrow> (scval option option) rpc_method" where
  "poll_for_confirmation R hash s = poll_until R hash (rp_now s + poll_timeout_ms) s"

text \<open>Any error other than the service's own becomes a submission error.\<close>

definition submission_error :: service_error where
  "submission_error = ServiceError ''Failed to submit signed transaction'' ''SUBMISSION_ERROR''"

fun wrap_error :: "service_error \<Rightarrow> service_error" where
  "wrap_error (ServiceError m c) = ServiceError m c"
| "wrap_error (RawError m) = submission_error"

definition submit_signed_xdr :: "rpc_host \<Rightarrow> string \<Rightarrow> (string \<times> scval option) rpc_method" where
  "submit_signed_xdr R xdr s =
     (if \<not> rh_validXdr R xdr then (Inl submission_error, s)
      else let s1 = s\<lparr>rp_calls := Suc (rp_calls s), rp_sent := rp_sent s @ [xdr]\<rparr>
           in case rh_send R (rp_calls s) xdr of
                SendThrows \<Rightarrow> (Inl submission_error, s1)
              | SendError e \<Rightarrow> (Inl (ServiceError (''Submission rejected: '' @ get_or ''unknown'' e) ''SUBMISSION_ERROR''), s1)
              | SendAccepted hash \<Rightarrow>
                  (case poll_for_confirmation R hash s1 of
                     (Inl e, s2) \<Rightarrow> (Inl (wrap_error e), s2)
                   | (Inr None, s2) \<Rightarrow> (Inl (ServiceError (''Transaction '' @ hash @ '' failed on-chain'') ''TX_FAILED''), s2)
                   | (Inr (Some v), s2) \<Rightarrow> (Inr (hash, v), s2)))"

section \<open>Arguments\<close>

definition arg_bigint :: "chain_sdk \<Rightarrow> string \<Rightarrow> int outcome_of" where
  "arg_bigint K t = (case ck_bigint K t of None \<Rightarrow> Inl (RawError ''SyntaxError'') | Some i \<Rightarrow> Inr i)"

definition u64_of :: "int \<Rightarrow> scval outcome_of" where
  "u64_of i = (if 0 \<le> i \<and> i < 2 ^ 64 then Inr (ScU64 (word_of_int i)) else Inl (RawError ''RangeError''))"

definition i128_of :: "int \<Rightarrow> scval outcome_of" where
  "i128_of i = (if - (2 ^ 127) \<le> i \<and> i < 2 ^ 127 then Inr (ScI128 (word_of_int i)) else Inl (RawError ''RangeError''))"

definition arg_u64 :: "chain_sdk \<Rightarrow> string \<Rightarrow> scval outcome_of" where
  "arg_u64 K t = and_then (arg_bigint K t) u64_of"

definition arg_i128 :: "chain_sdk \<Rightarrow> string \<Rightarrow> scval outcome_of" where
  "arg_i128 K t = and_then (arg_bigint K t) i128_of"

definition arg_address :: "chain_sdk \<Rightarrow> string \<Rightarrow> scval outcome_of" where
  "arg_address K a = (if ck_address K a then Inr (ScAddress a) else Inl (RawError ''Unsupported address type''))"

definition js_args :: "scval outcome_of list \<Rightarrow> scval list outcome_of" where
  "js_args xs = map_throwing (\<lambda>x. x) xs"

section \<open>Reading\<close>

definition read_contract :: "rpc_host \<Rightarrow> string \<Rightarrow> scval outcome_of list \<Rightarrow> scval option rpc_method" where
  "read_contract R fname args = js_then (js_pure (js_args args)) (simulate_view R fname)"

fun present :: "scval option \<Rightarrow> scval option" where
  "present None = None" | "present (Some ScVoid) = None" | "present (Some v) = Some v"

fun indexed :: "nat \<Rightarrow> 'a list \<Rightarrow> (nat \<times> 'a) list" where
  "indexed i [] = []" | "indexed i (x # xs) = (i, x) # indexed (Suc i) xs"

definition group_from_item :: "chain_sdk \<Rightarrow> nat \<times> scval \<Rightarrow> soroban_group outcome_of" where
  "group_from_item K p = and_then (decode_sc_map K (snd p)) (\<lambda>raw.
     Inr (map_to_group K raw (get_or (show_nat (fst p)) (truthy (js_get raw ''id'')))))"

definition fetch_all_groups :: "rpc_host \<Rightarrow> chain_sdk \<Rightarrow> int \<Rightarrow> int \<Rightarrow> (soroban_group list \<times> pagination_info) rpc_method" where
  "fetch_all_groups R K pageNo limit =
     js_then (read_contract R ''get_all_groups'' []) (\<lambda>r.
       case present r of
         None \<Rightarrow> js_return (paginate_items [] pageNo limit)
       | Some v \<Rightarrow> js_pure (and_then (items_of K v) (\<lambda>xs.
           and_then (map_throwing (group_from_item K) (indexed 0 xs)) (\<lambda>gs. Inr (paginate_items gs pageNo limit)))))"

definition fetch_group :: "rpc_host \<Rightarrow> chain_sdk \<Rightarrow> string \<Rightarrow> soroban_group option rpc_method" where
  "fetch_group R K groupId =
     js_then (read_contract R ''get_group'' [Inr (ScString groupId)]) (\<lambda>r.
       case present r of
         None \<Rightarrow> js_return None
       | Some v \<Rightarrow> js_pure (and_then (decode_sc_map K v) (\<lambda>raw. Inr (Some (map_to_group K raw groupId)))))"

definition fetch_members :: "rpc_host \<Rightarrow> chain_sdk \<Rightarrow> string \<Rightarrow> soroban_member list rpc_method" where
  "fetch_members R K groupId =
     js_then (read_contract R ''get_group_members'' [Inr (ScString groupId)]) (\<lambda>r.
       case present r of
         None \<Rightarrow> js_return []
       | Some v \<Rightarrow> js_pure (and_then (items_of K v) (map_throwing (\<lambda>x. and_then (decode_sc_map K x) (\<lambda>raw. Inr (map_to_member K raw))))))"

definition fetch_transactions ::
  "rpc_host \<Rightarrow> chain_sdk \<Rightarrow> string \<Rightarrow> int \<Rightarrow> int \<Rightarrow> (soroban_transaction list \<times> pagination_info) rpc_method" where
  "fetch_transactions R K groupId pageNo limit =
     js_then (read_contract R ''get_group_transactions'' [Inr (ScString groupId)]) (\<lambda>r.
       case present r of
         None \<Rightarrow> js_return (paginate_items [] pageNo limit)
       | Some v \<Rightarrow> js_pure (and_then (items_of K v) (\<lambda>xs.
           and_then (map_throwing (\<lambda>x. and_then (decode_sc_map K x) (\<lambda>raw. Inr (map_to_transaction K raw))) xs)
             (\<lambda>ts. Inr (paginate_items ts pageNo limit)))))"


section \<open>Writing\<close>

text \<open>
  Every write has two phases: without a signed transaction it builds one to sign, with one it submits it. What a submission
  gives is \<open>Submitted\<close> with the hash and the value of the transaction.
\<close>

datatype write_answer = Submitted string "scval option" | Unsigned string

definition two_phase :: "rpc_host \<Rightarrow> string option \<Rightarrow> string \<Rightarrow> string \<Rightarrow> scval outcome_of list \<Rightarrow> write_answer rpc_method" where
  "two_phase R signedXdr source fname args =
     (case truthy signedXdr of
        Some xdr \<Rightarrow> js_then (submit_signed_xdr R xdr) (\<lambda>(hash, v). js_return (Submitted hash v))
      | None \<Rightarrow> js_then (js_pure (js_args args)) (\<lambda>vs.
          js_then (build_unsigned_transaction R source fname vs) (\<lambda>xdr. js_return (Unsigned xdr))))"

record write_reply =
  wr_success :: bool
  wr_txHash :: "string option"
  wr_unsignedXdr :: "string option"

fun reply_of :: "write_answer \<Rightarrow> write_reply" where
  "reply_of (Submitted hash v) = \<lparr>wr_success = True, wr_txHash = Some hash, wr_unsignedXdr = None\<rparr>"
| "reply_of (Unsigned xdr) = \<lparr>wr_success = False, wr_txHash = None, wr_unsignedXdr = Some xdr\<rparr>"

record group_reply =
  gr_groupId :: "string option"
  gr_txHash :: "string option"
  gr_unsignedXdr :: "string option"

text \<open>\<open>result.returnValue?.str()?.toString() ?? result.returnValue?.sym()?.toString() ?? hash\<close>.\<close>

definition created_id :: "chain_sdk \<Rightarrow> string \<Rightarrow> scval option \<Rightarrow> string outcome_of" where
  "created_id K hash v = (case v of
     None \<Rightarrow> Inr hash
   | Some r \<Rightarrow> and_then (arm K ''str'' (as_str r)) (\<lambda>s.
       case s of Some t \<Rightarrow> Inr t | None \<Rightarrow> and_then (arm K ''sym'' (as_sym r)) (\<lambda>t. Inr (get_or hash t))))"

record new_group_data =
  nd_name :: string
  nd_description :: string
  nd_contributionAmount :: string
  nd_frequency :: string
  nd_maxMembers :: int
  nd_adminPublicKey :: string

definition create_group_args :: "chain_sdk \<Rightarrow> new_group_data \<Rightarrow> scval outcome_of list" where
  "create_group_args K d = [Inr (ScString (nd_name d)), Inr (ScString (nd_description d)), arg_i128 K (nd_contributionAmount d),
     Inr (ScString (nd_frequency d)), Inr (ScU32 (nd_maxMembers d)), arg_address K (nd_adminPublicKey d)]"

definition soroban_create_group :: "rpc_host \<Rightarrow> chain_sdk \<Rightarrow> new_group_data \<Rightarrow> string option \<Rightarrow> group_reply rpc_method" where
  "soroban_create_group R K d signedXdr =
     js_then (two_phase R signedXdr (nd_adminPublicKey d) ''create_group'' (create_group_args K d)) (\<lambda>answer.
       case answer of
         Submitted hash v \<Rightarrow> js_pure (and_then (created_id K hash v) (\<lambda>i.
           Inr \<lparr>gr_groupId = Some i, gr_txHash = Some hash, gr_unsignedXdr = None\<rparr>))
       | Unsigned xdr \<Rightarrow> js_return \<lparr>gr_groupId = None, gr_txHash = None, gr_unsignedXdr = Some xdr\<rparr>)"

definition join_group_args :: "chain_sdk \<Rightarrow> string \<Rightarrow> string \<Rightarrow> scval outcome_of list" where
  "join_group_args K groupId publicKey = [Inr (ScString groupId), arg_address K publicKey]"

definition soroban_join_group :: "rpc_host \<Rightarrow> chain_sdk \<Rightarrow> string \<Rightarrow> string \<Rightarrow> string option \<Rightarrow> write_reply rpc_method" where
  "soroban_join_group R K groupId publicKey signedXdr =
     js_then (two_phase R signedXdr publicKey ''join_group'' (join_group_args K groupId publicKey)) (\<lambda>a. js_return (reply_of a))"

definition contribute_args :: "chain_sdk \<Rightarrow> string \<Rightarrow> string \<Rightarrow> string \<Rightarrow> scval outcome_of list" where
  "contribute_args K groupId publicKey amount = [Inr (ScString groupId), arg_address K publicKey, arg_i128 K amount]"

definition soroban_contribute :: "rpc_host \<Rightarrow> chain_sdk \<Rightarrow> string \<Rightarrow> string \<Rightarrow> string \<Rightarrow> string option \<Rightarrow> write_reply rpc_method" where
  "soroban_contribute R K groupId publicKey amount signedXdr =
     js_then (two_phase R signedXdr publicKey ''contribute'' (contribute_args K groupId publicKey amount)) (\<lambda>a. js_return (reply_of a))"

section \<open>Loans and emergencies\<close>

definition request_loan_args :: "chain_sdk \<Rightarrow> string \<Rightarrow> string \<Rightarrow> string \<Rightarrow> int \<Rightarrow> int \<Rightarrow> scval outcome_of list" where
  "request_loan_args K caller groupId amount interestRateBps repaymentPeriod =
     [arg_u64 K groupId, arg_address K caller, arg_i128 K amount, Inr (ScU32 interestRateBps), u64_of repaymentPeriod]"

definition request_loan :: "rpc_host \<Rightarrow> chain_sdk \<Rightarrow> string \<Rightarrow> string \<Rightarrow> string \<Rightarrow> int \<Rightarrow> int \<Rightarrow> string option \<Rightarrow> write_answer rpc_method" where
  "request_loan R K caller groupId amount interestRateBps repaymentPeriod signedXdr =
     two_phase R signedXdr caller ''request_loan'' (request_loan_args K caller groupId amount interestRateBps repaymentPeriod)"

definition vote_args :: "chain_sdk \<Rightarrow> string \<Rightarrow> string \<Rightarrow> bool \<Rightarrow> scval outcome_of list" where
  "vote_args K voter i inFavor = [arg_u64 K i, arg_address K voter, Inr (ScBool inFavor)]"

definition vote_on_loan :: "rpc_host \<Rightarrow> chain_sdk \<Rightarrow> string \<Rightarrow> string \<Rightarrow> bool \<Rightarrow> string option \<Rightarrow> write_answer rpc_method" where
  "vote_on_loan R K voter loanId inFavor signedXdr = two_phase R signedXdr voter ''vote_on_loan'' (vote_args K voter loanId inFavor)"

definition disburse_loan :: "rpc_host \<Rightarrow> chain_sdk \<Rightarrow> string \<Rightarrow> string \<Rightarrow> string option \<Rightarrow> write_answer rpc_method" where
  "disburse_loan R K caller loanId signedXdr = two_phase R signedXdr caller ''disburse_loan'' [arg_u64 K loanId]"

definition repay_args :: "chain_sdk \<Rightarrow> string \<Rightarrow> string \<Rightarrow> string \<Rightarrow> scval outcome_of list" where
  "repay_args K payer i amount = [arg_u64 K i, arg_address K payer, arg_i128 K amount]"

definition repay_loan :: "rpc_host \<Rightarrow> chain_sdk \<Rightarrow> string \<Rightarrow> string \<Rightarrow> string \<Rightarrow> string option \<Rightarrow> write_answer rpc_method" where
  "repay_loan R K borrower loanId amount signedXdr = two_phase R signedXdr borrower ''repay_loan'' (repay_args K borrower loanId amount)"

definition request_emergency ::
  "rpc_host \<Rightarrow> chain_sdk \<Rightarrow> string \<Rightarrow> string \<Rightarrow> string \<Rightarrow> string \<Rightarrow> int \<Rightarrow> string option \<Rightarrow> write_answer rpc_method" where
  "request_emergency R K caller groupId amount reason repayPeriod signedXdr =
     two_phase R signedXdr caller ''request_emergency''
       [arg_u64 K groupId, arg_address K caller, arg_i128 K amount, Inr (ScString reason), u64_of repayPeriod]"

definition vote_on_emergency :: "rpc_host \<Rightarrow> chain_sdk \<Rightarrow> string \<Rightarrow> string \<Rightarrow> bool \<Rightarrow> string option \<Rightarrow> write_answer rpc_method" where
  "vote_on_emergency R K voter reqId inFavor signedXdr = two_phase R signedXdr voter ''vote_on_emergency'' (vote_args K voter reqId inFavor)"

definition disburse_emergency :: "rpc_host \<Rightarrow> chain_sdk \<Rightarrow> string \<Rightarrow> string \<Rightarrow> int \<Rightarrow> string option \<Rightarrow> write_answer rpc_method" where
  "disburse_emergency R K caller reqId repayPeriod signedXdr =
     two_phase R signedXdr caller ''disburse_emergency'' [arg_u64 K reqId, u64_of repayPeriod]"

definition repay_emergency :: "rpc_host \<Rightarrow> chain_sdk \<Rightarrow> string \<Rightarrow> string \<Rightarrow> string \<Rightarrow> string option \<Rightarrow> write_answer rpc_method" where
  "repay_emergency R K requester reqId amount signedXdr =
     two_phase R signedXdr requester ''repay_emergency'' (repay_args K requester reqId amount)"

text \<open>\<open>key().sym()?.toString() ?? ''\<close>; the value is tried as one number after the other, and for emergencies as a string.\<close>

fun first_text :: "(unit \<Rightarrow> string option outcome_of) list \<Rightarrow> string outcome_of" where
  "first_text [] = Inr []"
| "first_text (f # fs) = and_then (f ()) (\<lambda>r. case r of Some t \<Rightarrow> Inr t | None \<Rightarrow> first_text fs)"

definition as_number_text :: "chain_sdk \<Rightarrow> scval \<Rightarrow> (unit \<Rightarrow> string option outcome_of) list" where
  "as_number_text K v =
     [(\<lambda>_. arm K ''u64'' (map_option show_word (as_u64 v))),
      (\<lambda>_. arm K ''i128'' (map_option (\<lambda>w. show_word (low_half w)) (as_i128 v))),
      (\<lambda>_. arm K ''u32'' (map_option show_int (as_u32 v)))]"

fun decode_fields :: "chain_sdk \<Rightarrow> (scval \<Rightarrow> (unit \<Rightarrow> string option outcome_of) list) \<Rightarrow> (scval \<times> scval) list \<Rightarrow>
    (string, string) jsmap \<Rightarrow> (string, string) jsmap outcome_of" where
  "decode_fields K arms [] acc = Inr acc"
| "decode_fields K arms ((k, v) # es) acc =
     and_then (arm K ''sym'' (as_sym k)) (\<lambda>key. and_then (first_text (arms v)) (\<lambda>t. decode_fields K arms es (js_set (get_or [] key) t acc)))"


definition decode_contract_map ::
  "chain_sdk \<Rightarrow> (scval \<Rightarrow> (unit \<Rightarrow> string option outcome_of) list) \<Rightarrow> scval \<Rightarrow> (string, string) jsmap outcome_of" where
  "decode_contract_map K arms v = and_then (entries_of K v) (\<lambda>es. decode_fields K arms es [])"

record loan_request =
  lr_id :: string
  lr_groupId :: string
  lr_borrower :: string
  lr_amount :: string
  lr_interestRateBps :: "rat option"
  lr_repaymentPeriod :: "rat option"
  lr_status :: string
  lr_votesFor :: "rat option"
  lr_votesAgainst :: "rat option"
  lr_votingDeadline :: "rat option"
  lr_createdAt :: "rat option"
  lr_disbursedAt :: "rat option"
  lr_amountRepaid :: string
  lr_dueAt :: "rat option"

definition loan_of :: "chain_sdk \<Rightarrow> (string, string) jsmap \<Rightarrow> loan_request" where
  "loan_of K m = \<lparr>lr_id = field m ''id'' [], lr_groupId = field m ''group_id'' [], lr_borrower = field m ''borrower'' [],
     lr_amount = field m ''amount'' ''0'', lr_interestRateBps = number_field K m ''interest_rate_bps'',
     lr_repaymentPeriod = number_field K m ''repayment_period'', lr_status = field m ''status'' ''PENDING'',
     lr_votesFor = number_field K m ''votes_for'', lr_votesAgainst = number_field K m ''votes_against'',
     lr_votingDeadline = number_field K m ''voting_deadline'', lr_createdAt = number_field K m ''created_at'',
     lr_disbursedAt = number_field K m ''disbursed_at'', lr_amountRepaid = field m ''amount_repaid'' ''0'',
     lr_dueAt = number_field K m ''due_at''\<rparr>"

definition decode_loan :: "chain_sdk \<Rightarrow> scval \<Rightarrow> loan_request outcome_of" where
  "decode_loan K v = and_then (decode_contract_map K (as_number_text K) v) (\<lambda>m. Inr (loan_of K m))"

record emergency_request =
  er_id :: string
  er_groupId :: string
  er_requester :: string
  er_amount :: string
  er_reason :: string
  er_status :: string
  er_votesFor :: "rat option"
  er_votesAgainst :: "rat option"
  er_votingDeadline :: "rat option"
  er_createdAt :: "rat option"
  er_disbursedAt :: "rat option"
  er_amountRepaid :: string
  er_repayBy :: "rat option"

definition emergency_of :: "chain_sdk \<Rightarrow> (string, string) jsmap \<Rightarrow> emergency_request" where
  "emergency_of K m = \<lparr>er_id = field m ''id'' [], er_groupId = field m ''group_id'' [], er_requester = field m ''requester'' [],
     er_amount = field m ''amount'' ''0'', er_reason = field m ''reason'' [], er_status = field m ''status'' ''PENDING'',
     er_votesFor = number_field K m ''votes_for'', er_votesAgainst = number_field K m ''votes_against'',
     er_votingDeadline = number_field K m ''voting_deadline'', er_createdAt = number_field K m ''created_at'',
     er_disbursedAt = number_field K m ''disbursed_at'', er_amountRepaid = field m ''amount_repaid'' ''0'',
     er_repayBy = number_field K m ''repay_by''\<rparr>"

definition decode_request :: "chain_sdk \<Rightarrow> scval \<Rightarrow> emergency_request outcome_of" where
  "decode_request K v = and_then
     (decode_contract_map K (\<lambda>v. as_number_text K v @ [(\<lambda>_. arm K ''str'' (as_str v))]) v) (\<lambda>m. Inr (emergency_of K m))"

definition get_loan :: "rpc_host \<Rightarrow> chain_sdk \<Rightarrow> string \<Rightarrow> loan_request option rpc_method" where
  "get_loan R K loanId = js_then (read_contract R ''get_loan'' [arg_u64 K loanId]) (\<lambda>r.
     case r of None \<Rightarrow> js_return None | Some v \<Rightarrow> js_pure (and_then (decode_loan K v) (\<lambda>l. Inr (Some l))))"

definition get_emergency_request :: "rpc_host \<Rightarrow> chain_sdk \<Rightarrow> string \<Rightarrow> emergency_request option rpc_method" where
  "get_emergency_request R K reqId = js_then (read_contract R ''get_emergency_request'' [arg_u64 K reqId]) (\<lambda>r.
     case r of None \<Rightarrow> js_return None | Some v \<Rightarrow> js_pure (and_then (decode_request K v) (\<lambda>l. Inr (Some l))))"

text \<open>The ids of a group's loans or emergencies; an element that is not a 64-bit integer throws either way.\<close>

definition u64_text :: "chain_sdk \<Rightarrow> scval \<Rightarrow> string outcome_of" where
  "u64_text K v = and_then (arm K ''u64'' (as_u64 v)) (\<lambda>r.
     case r of None \<Rightarrow> Inl (RawError ''Cannot read properties of undefined'') | Some w \<Rightarrow> Inr (show_word w))"

definition read_ids :: "rpc_host \<Rightarrow> chain_sdk \<Rightarrow> string \<Rightarrow> string \<Rightarrow> string list rpc_method" where
  "read_ids R K fname groupId = js_then (read_contract R fname [arg_u64 K groupId]) (\<lambda>r.
     case r of None \<Rightarrow> js_return [] | Some v \<Rightarrow> js_pure (and_then (items_of K v) (map_throwing (u64_text K))))"

definition get_group_loans :: "rpc_host \<Rightarrow> chain_sdk \<Rightarrow> string \<Rightarrow> string list rpc_method" where
  "get_group_loans R K = read_ids R K ''get_group_loans''"

definition get_group_emergencies :: "rpc_host \<Rightarrow> chain_sdk \<Rightarrow> string \<Rightarrow> string list rpc_method" where
  "get_group_emergencies R K = read_ids R K ''get_group_emergencies''"

section \<open>Insurance\<close>

record insurance_pool =
  ip_balance :: string
  ip_totalPayouts :: string
  ip_pendingClaimsCount :: "rat option"

definition or_zero :: "string option \<Rightarrow> string" where
  "or_zero x = get_or ''0'' (truthy x)"

definition insurance_pool_state :: "rpc_host \<Rightarrow> chain_sdk \<Rightarrow> string \<Rightarrow> insurance_pool rpc_method" where
  "insurance_pool_state R K tokenAddress = js_then (read_contract R ''get_insurance_pool'' [arg_address K tokenAddress]) (\<lambda>r.
     case r of
       None \<Rightarrow> js_return \<lparr>ip_balance = ''0'', ip_totalPayouts = ''0'', ip_pendingClaimsCount = Some 0\<rparr>
     | Some v \<Rightarrow> js_pure (and_then (decode_sc_map K v) (\<lambda>m.
         Inr \<lparr>ip_balance = or_zero (js_get m ''balance''), ip_totalPayouts = or_zero (js_get m ''total_payouts''),
              ip_pendingClaimsCount = (case truthy (js_get m ''pending_claims_count'') of None \<Rightarrow> Some 0 | Some t \<Rightarrow> ck_number K t)\<rparr>)))"

definition file_claim_args :: "chain_sdk \<Rightarrow> string \<Rightarrow> string \<Rightarrow> int \<Rightarrow> string \<Rightarrow> string \<Rightarrow> scval outcome_of list" where
  "file_claim_args K claimant groupId cycle defaulter amount =
     [arg_address K claimant, arg_u64 K groupId, Inr (ScU32 cycle), arg_address K defaulter, arg_i128 K amount]"

definition file_claim ::
  "rpc_host \<Rightarrow> chain_sdk \<Rightarrow> string \<Rightarrow> string \<Rightarrow> int \<Rightarrow> string \<Rightarrow> string \<Rightarrow> string option \<Rightarrow> write_answer rpc_method" where
  "file_claim R K claimant groupId cycle defaulter amount signedXdr =
     two_phase R signedXdr claimant ''file_insurance_claim'' (file_claim_args K claimant groupId cycle defaulter amount)"

definition process_claim_args :: "chain_sdk \<Rightarrow> string \<Rightarrow> string \<Rightarrow> bool \<Rightarrow> scval outcome_of list" where
  "process_claim_args K admin claimId approved = [arg_address K admin, arg_u64 K claimId, Inr (ScBool approved)]"

definition process_claim :: "rpc_host \<Rightarrow> chain_sdk \<Rightarrow> string \<Rightarrow> string \<Rightarrow> bool \<Rightarrow> string option \<Rightarrow> write_answer rpc_method" where
  "process_claim R K admin claimId approved signedXdr =
     two_phase R signedXdr admin ''process_insurance_claim'' (process_claim_args K admin claimId approved)"

section \<open>Risk\<close>

datatype risk_rating = RiskLow | RiskMedium | RiskHigh | RiskCritical

record risk_profile =
  rk_score :: int
  rk_rating :: risk_rating
  rk_factors :: "string list"

definition rating_from_score :: "int \<Rightarrow> risk_rating" where
  "rating_from_score score =
     (if score \<ge> 85 then RiskLow else if score \<ge> 60 then RiskMedium else if score \<ge> 30 then RiskHigh else RiskCritical)"

definition factors_from_score :: "int \<Rightarrow> string list" where
  "factors_from_score score =
     (let factors = (if score \<ge> 90 then [''Excellent payment history''] else []) @
            (if score < 60 then [''Frequent late contributions''] else []) @
            (if score < 40 then [''Prior defaults recorded''] else [])
      in if factors = [] then [''Baseline group performance''] else factors)"

fun sc_val_to_number :: "scval \<Rightarrow> int" where
  "sc_val_to_number (ScU32 n) = n"
| "sc_val_to_number (ScI32 n) = n"
| "sc_val_to_number (ScU64 w) = uint w"
| "sc_val_to_number _ = 0"

definition profile_of :: "int \<Rightarrow> scval option \<Rightarrow> risk_profile" where
  "profile_of d r = (let score = (case r of None \<Rightarrow> d | Some v \<Rightarrow> sc_val_to_number v)
     in \<lparr>rk_score = score, rk_rating = rating_from_score score, rk_factors = factors_from_score score\<rparr>)"

definition get_member_risk_profile :: "rpc_host \<Rightarrow> chain_sdk \<Rightarrow> string \<Rightarrow> risk_profile rpc_method" where
  "get_member_risk_profile R K publicKey =
     js_then (read_contract R ''get_member_risk_score'' [arg_address K publicKey]) (\<lambda>r. js_return (profile_of 100 r))"

definition get_group_risk_profile :: "rpc_host \<Rightarrow> chain_sdk \<Rightarrow> string \<Rightarrow> risk_profile rpc_method" where
  "get_group_risk_profile R K groupId =
     js_then (read_contract R ''get_group_risk_rating'' [arg_u64 K groupId]) (\<lambda>r. js_return (profile_of 75 r))"

definition premium_bps :: "int \<Rightarrow> int" where
  "premium_bps riskScore = (if riskScore < 50 then 200 else if riskScore < 75 then 150 else if riskScore \<ge> 95 then 50 else 100)"

definition calculate_dynamic_premium :: "chain_sdk \<Rightarrow> string \<Rightarrow> int \<Rightarrow> string outcome_of" where
  "calculate_dynamic_premium K baseAmount riskScore =
     and_then (arg_bigint K baseAmount) (\<lambda>amount. Inr (show_int ((amount * premium_bps riskScore) sdiv 10000)))"


section \<open>Submission\<close>

definition first_status :: "rpc_host \<Rightarrow> string \<Rightarrow> nat \<Rightarrow> int \<Rightarrow> status_reply option" where
  "first_status R hash n now = find (\<lambda>r. r \<noteq> TxNotFound) (map (\<lambda>i. rh_status R (now + 2000 * int i) hash) [0..<n])"

definition verdict :: "string \<Rightarrow> status_reply option \<Rightarrow> scval option option outcome_of" where
  "verdict hash r = (case r of
     Some (TxSucceeded v) \<Rightarrow> Inr (Some v)
   | Some TxFailedOnChain \<Rightarrow> Inr None
   | Some StatusThrows \<Rightarrow> Inl (RawError ''status'')
   | _ \<Rightarrow> Inl (ServiceError (''Transaction '' @ hash @ '' did not confirm within 30000ms'') ''TX_TIMEOUT''))"

lemma first_status_Suc:
  "first_status R hash (Suc n) now = (case rh_status R now hash of TxNotFound \<Rightarrow> first_status R hash n (now + 2000) | r \<Rightarrow> Some r)"
proof -
  have "map (\<lambda>i. rh_status R (now + 2000 * int i) hash) [0..<Suc n] =
      rh_status R now hash # map (\<lambda>i. rh_status R (now + 2000 + 2000 * int i) hash) [0..<n]"
    unfolding upt_conv_Cons [OF zero_less_Suc] list.map map_Suc_upt [symmetric] by (simp add: algebra_simps)
  then show ?thesis by (simp add: first_status_def split: status_reply.split)
qed

lemma poll_until_exact:
  "fst (poll_until R hash (rp_now s + 2000 * int n) s) = verdict hash (first_status R hash n (rp_now s))
    \<and> rp_now (snd (poll_until R hash (rp_now s + 2000 * int n) s)) \<le> rp_now s + 2000 * int n
    \<and> rp_calls (snd (poll_until R hash (rp_now s + 2000 * int n) s)) \<le> rp_calls s + n
    \<and> rp_sent (snd (poll_until R hash (rp_now s + 2000 * int n) s)) = rp_sent s"
proof (induction n arbitrary: s)
  case 0
  then show ?case by (simp add: poll_until.simps [of R hash _ s] first_status_def verdict_def)
next
  case (Suc n)
  let ?s = "s\<lparr>rp_calls := Suc (rp_calls s), rp_now := rp_now s + poll_pause_ms\<rparr>"
  have e: "rp_now s + 2000 * int (Suc n) = rp_now ?s + 2000 * int n" by (simp add: poll_pause_ms_def)
  show ?case
    using Suc.IH [of ?s] unfolding e poll_until.simps [of R hash _ s] first_status_Suc
    by (cases "rh_status R (rp_now s) hash") (simp_all add: verdict_def poll_pause_ms_def Let_def)
qed

lemma confirmation_exact_up:
  "fst (poll_for_confirmation R hash s) = verdict hash (first_status R hash 15 (rp_now s))
    \<and> rp_now (snd (poll_for_confirmation R hash s)) \<le> rp_now s + 30000
    \<and> rp_calls (snd (poll_for_confirmation R hash s)) \<le> rp_calls s + 15
    \<and> rp_sent (snd (poll_for_confirmation R hash s)) = rp_sent s"
  using poll_until_exact [of R hash s 15] by (simp add: poll_for_confirmation_def poll_timeout_ms_def)

text \<open>
  Waiting for a transaction asks at most fifteen times, two seconds apart, is over within half a minute, and gives the
  first answer other than ``not found''; without one it is a timeout.
\<close>

theorem confirmation_exact:
  "fst (poll_for_confirmation R hash s) = verdict hash (first_status R hash 15 (rp_now s))
    \<and> rp_now (snd (poll_for_confirmation R hash s)) \<le> rp_now s + 30000
    \<and> rp_calls (snd (poll_for_confirmation R hash s)) \<le> rp_calls s + 15
    \<and> rp_sent (snd (poll_for_confirmation R hash s)) = rp_sent s"
  by (rule confirmation_exact_up)

lemma simulate_sends_nothing [simp]: "rp_sent (snd (simulate_call R fname e args s)) = rp_sent s"
  by (simp add: simulate_call_def Let_def split: simulation_reply.split)

lemma build_sends_nothing: "rp_sent (snd (build_unsigned_transaction R source fname vs s)) = rp_sent s"
proof -
  let ?e = "ServiceError (''Failed to build transaction for '' @ fname) ''BUILD_ERROR''"
  obtain r s1 where "simulate_call R fname ?e vs s = (r, s1)" by force
  then show ?thesis using simulate_sends_nothing [of R fname ?e vs s]
    by (cases r) (simp_all add: build_unsigned_transaction_def js_then_def)
qed

lemma verdict_success:
  assumes "verdict hash (first_status R hash n now) = Inr (Some v)"
  shows "\<exists>t. now \<le> t \<and> t < now + 2000 * int n \<and> rh_status R t hash = TxSucceeded v"
proof -
  have "Some (TxSucceeded v) = first_status R hash n now"
    using assms by (simp add: verdict_def split: option.splits status_reply.splits)
  then have "TxSucceeded v \<in> set (map (\<lambda>i. rh_status R (now + 2000 * int i) hash) [0..<n])"
    unfolding first_status_def by (rule find_SomeD [THEN conjunct1])
  then obtain i where "i < n" "rh_status R (now + 2000 * int i) hash = TxSucceeded v" by auto
  then show ?thesis by (intro exI [of _ "now + 2000 * int i"]) simp
qed

lemma submitted_confirmed:
  assumes "submit_signed_xdr R xdr s = (Inr (hash, v), s')"
  shows "rp_sent s' = rp_sent s @ [xdr] \<and> (\<exists>n. rh_send R n xdr = SendAccepted hash)
    \<and> (\<exists>t. rp_now s \<le> t \<and> t < rp_now s + 30000 \<and> rh_status R t hash = TxSucceeded v)"
proof -
  let ?s1 = "s\<lparr>rp_calls := Suc (rp_calls s), rp_sent := rp_sent s @ [xdr]\<rparr>"
  obtain r s2 where poll: "poll_for_confirmation R hash ?s1 = (r, s2)" by force
  have sent: "rh_send R (rp_calls s) xdr = SendAccepted hash" and r: "r = Inr (Some v)" "s' = s2"
    using assms poll
    by (auto simp: submit_signed_xdr_def Let_def split: if_splits send_reply.splits prod.splits sum.splits option.splits)
  have "verdict hash (first_status R hash 15 (rp_now s)) = Inr (Some v)" "rp_sent s2 = rp_sent s @ [xdr]"
    using confirmation_exact_up [of R hash ?s1] poll r by simp_all
  then show ?thesis using verdict_success [of hash R 15 "rp_now s" v] sent r by auto
qed

text \<open>
  C7. Every write of the backend, to groups, loans, emergencies and insurance: nothing is sent unless the request carries a
  signed transaction; one that reports a submission has sent exactly that transaction, and the network has reported it as
  successful within half a minute.
\<close>

theorem two_phase_safe:
  assumes "two_phase R signedXdr source fname args s = (Inr answer, s')"
  shows "case answer of
      Unsigned xdr \<Rightarrow> truthy signedXdr = None \<and> rp_sent s' = rp_sent s
    | Submitted hash v \<Rightarrow> \<exists>xdr. truthy signedXdr = Some xdr \<and> rp_sent s' = rp_sent s @ [xdr] \<and> (\<exists>n. rh_send R n xdr = SendAccepted hash)
        \<and> (\<exists>t. rp_now s \<le> t \<and> t < rp_now s + 30000 \<and> rh_status R t hash = TxSucceeded v)"
proof (cases "truthy signedXdr")
  case (Some xdr)
  obtain r s1 where sub: "submit_signed_xdr R xdr s = (r, s1)" by force
  then obtain hash v where r: "r = Inr (hash, v)" "s1 = s'" "answer = Submitted hash v"
    using assms Some by (cases r) (auto simp: two_phase_def js_then_def)
  show ?thesis using submitted_confirmed [OF sub [unfolded r(1,2)]] Some r(3) by auto
next
  case None
  then obtain vs where "js_args args = Inr vs" "js_then (build_unsigned_transaction R source fname vs) (\<lambda>xdr. js_return (Unsigned xdr)) s = (Inr answer, s')"
    using assms by (cases "js_args args") (auto simp: two_phase_def js_then_def)
  moreover obtain r s1 where b: "build_unsigned_transaction R source fname vs s = (r, s1)" by force
  moreover have "rp_sent (snd (build_unsigned_transaction R source fname vs s)) = rp_sent s" by (rule build_sends_nothing)
  ultimately show ?thesis using None by (cases r) (auto simp: js_then_def)
qed


section \<open>What is read back\<close>

lemma uint_low_half: "uint (low_half (word_of_int a)) = a mod 2 ^ 64"
proof -
  have "uint (low_half (word_of_int a)) = take_bit 64 (take_bit 128 a)"
    by (simp add: low_half_def unsigned_ucast_eq uint_word_of_int_eq)
  then show ?thesis by (simp add: take_bit_eq_mod mod_mod_cancel)
qed

text \<open>
  C22. Amounts are sent as 128-bit integers and read back by their low half: what comes back is the amount modulo 2^64,
  which is the amount itself just between 0 and 2^64. Debts come back as huge credits.
\<close>

theorem amount_reads_low_half:
  assumes "ck_bigint K t = Some a" and "arg_i128 K t = Inr v"
  shows "sc_val_to_string K v = show_int (a mod 2 ^ 64) \<and> (a mod 2 ^ 64 = a \<longleftrightarrow> 0 \<le> a \<and> a < 2 ^ 64)"
proof -
  have "v = ScI128 (word_of_int a)"
    using assms by (auto simp: arg_i128_def arg_bigint_def and_then_def i128_of_def split: if_splits)
  moreover have "a mod 2 ^ 64 = a \<longleftrightarrow> 0 \<le> a \<and> a < 2 ^ 64"
    by (metis mod_pos_pos_trivial pos_mod_bound pos_mod_sign zero_less_numeral zero_less_power)
  ultimately show ?thesis by (simp add: show_word_def uint_low_half)
qed

text \<open>Decoding of a map whose keys are strings.\<close>

lemma decode_string_keys:
  assumes "\<forall>e \<in> set es. \<exists>k. fst e = ScString k"
  shows "\<exists>m. decode_entries K es acc = Inr m"
  using assms
proof (induction es arbitrary: acc)
  case (Cons e es)
  obtain k v where e: "e = (ScString k, v)" using Cons.prems by (metis list.set_intros(1) prod.collapse)
  have "\<exists>m. decode_entries K es (js_set k (sc_val_to_string K v) acc) = Inr m" using Cons.prems by (intro Cons.IH) simp
  then show ?case by (simp add: e text_of_key_def arm_def and_then_def)
qed simp

lemma decode_entries_symbol:
  "ck_strict K \<Longrightarrow> (ScSymbol k, v) \<in> set es \<Longrightarrow> \<exists>e. decode_entries K es acc = Inl e"
proof (induction es arbitrary: acc)
  case (Cons p es)
  obtain k' v' where p: "p = (k', v')" by force
  show ?case
  proof (cases "text_of_key K k'")
    case (Inr key)
    then have "(ScSymbol k, v) \<in> set es"
      using Cons.prems p by (auto simp: text_of_key_def arm_def and_then_def)
    then show ?thesis using Cons.IH [OF Cons.prems(1)] Inr by (simp add: p and_then_def)
  qed (simp add: p and_then_def)
qed simp

text \<open>
  A contract struct is a map under symbols. Where reading a wrong arm throws, as it does in the SDK, no such map is
  ever decoded: a group that the contract knows makes \<open>getGroup\<close> throw.
\<close>

theorem symbol_keys_unreadable:
  assumes "ck_strict K" and "rh_account R (rp_calls s)"
    and "rh_simulate R (Suc (rp_calls s)) ''get_group'' [ScString g] = SimOk (Some (ScMap (Some es)))"
    and "(ScSymbol k, v) \<in> set es"
  shows "\<exists>e. fst (fetch_group R K g s) = Inl e"
proof -
  obtain e where "decode_entries K es [] = Inl e" using decode_entries_symbol [OF assms(1,4)] by blast
  then show ?thesis using assms(2,3)
    by (simp add: fetch_group_def read_contract_def js_args_def and_then_def simulate_view_def simulate_call_def encodable_def
        js_then_def decode_sc_map_def entries_of_def arm_def Let_def)
qed

text \<open>
  A new group is created and yet reported as an error: the contract answers with a 64-bit id, the service reads the
  answer as a string, and where that throws the confirmed creation is lost to the client.
\<close>

theorem created_group_reported_as_error:
  assumes "ck_strict K" and "xdr \<noteq> []" and "submit_signed_xdr R xdr s = (Inr (hash, Some (ScU64 i)), s')"
  shows "fst (soroban_create_group R K d (Some xdr) s) = Inl (RawError ''str not set'')
    \<and> rp_sent (snd (soroban_create_group R K d (Some xdr) s)) = rp_sent s @ [xdr]"
  using assms submitted_confirmed [OF assms(3)]
  by (simp add: soroban_create_group_def two_phase_def js_then_def created_id_def arm_def and_then_def)

lemma first_text_i128: "ck_strict K \<Longrightarrow> first_text (as_number_text K (ScI128 w) @ fs) = Inl (RawError ''u64 not set'')"
  by (simp add: as_number_text_def arm_def and_then_def)

lemma decode_fields_i128:
  assumes "ck_strict K" and "\<And>w. first_text (arms (ScI128 w)) = Inl (RawError ''u64 not set'')" and "(k, ScI128 w) \<in> set es"
  shows "\<exists>e. decode_fields K arms es acc = Inl e"
  using assms(3)
proof (induction es arbitrary: acc)
  case (Cons p es)
  obtain k' v' where p: "p = (k', v')" by force
  show ?case
  proof (cases "arm K ''sym'' (as_sym k')")
    case (Inr key)
    show ?thesis
    proof (cases "first_text (arms v')")
      case (Inr t)
      then have "(k, ScI128 w) \<in> set es" using Cons.prems p assms(2) by auto
      then show ?thesis using Cons.IH \<open>arm K ''sym'' (as_sym k') = Inr key\<close> Inr by (simp add: p and_then_def)
    qed (use Inr in \<open>simp add: p and_then_def\<close>)
  qed (simp add: p and_then_def)
qed simp

text \<open>
  No loan and no emergency request is ever decoded under the SDK's rule: the first amount, a 128-bit integer, is asked
  for its 64-bit arm and throws.
\<close>

theorem loans_never_decoded:
  assumes "ck_strict K" and "(k, ScI128 w) \<in> set es"
  shows "(\<exists>e. decode_loan K (ScMap (Some es)) = Inl e) \<and> (\<exists>e. decode_request K (ScMap (Some es)) = Inl e)"
proof -
  have "\<exists>e. decode_fields K (as_number_text K) es [] = Inl e"
    using first_text_i128 [OF assms(1), of _ "[]"] by (intro decode_fields_i128 [OF assms(1) _ assms(2)]) simp
  moreover have "\<exists>e. decode_fields K (\<lambda>v. as_number_text K v @ [\<lambda>_. arm K ''str'' (as_str v)]) es [] = Inl e"
    using first_text_i128 [OF assms(1)] by (intro decode_fields_i128 [OF assms(1) _ assms(2)]) simp
  moreover have "decode_contract_map K arms (ScMap (Some es)) = decode_fields K arms es []" for arms
    by (simp add: decode_contract_map_def entries_of_def arm_def and_then_def)
  ultimately show ?thesis by (auto simp: decode_loan_def decode_request_def and_then_def [of "Inl _"])
qed

section \<open>The contract's interface\<close>

datatype sc_type = TBool | TString | TU32 | TU64 | TI128 | TAddress

fun type_of_sc :: "scval \<Rightarrow> sc_type option" where
  "type_of_sc (ScBool b) = Some TBool"
| "type_of_sc (ScString s) = Some TString"
| "type_of_sc (ScU32 n) = Some TU32"
| "type_of_sc (ScU64 w) = Some TU64"
| "type_of_sc (ScI128 w) = Some TI128"
| "type_of_sc (ScAddress a) = Some TAddress"
| "type_of_sc _ = None"

text \<open>The exported functions of the contract that share a name with a method the backend calls.\<close>

definition contract_interface :: "(string \<times> sc_type list) list" where
  "contract_interface =
     [(''create_group'', [TAddress, TAddress, TI128, TU64, TU32, TU64, TU32, TU32]), (''get_group'', [TU64]),
      (''join_group'', [TAddress, TU64]), (''contribute'', [TAddress, TU64]),
      (''file_insurance_claim'', [TAddress, TU64, TU32, TAddress, TI128]), (''process_insurance_claim'', [TAddress, TU64, TBool]),
      (''get_insurance_pool'', [TAddress]), (''get_member_risk_score'', [TAddress]), (''get_group_risk_rating'', [TU64])]"

definition fits_contract :: "string \<Rightarrow> scval list \<Rightarrow> bool" where
  "fits_contract fname args = (case map_of contract_interface fname of None \<Rightarrow> False | Some ts \<Rightarrow> map type_of_sc args = map Some ts)"

text \<open>What the network does with a call that does not fit: the simulation fails.\<close>

definition typed_network :: "rpc_host \<Rightarrow> bool" where
  "typed_network R \<longleftrightarrow> (\<forall>n fname args v. rh_simulate R n fname args = SimOk v \<longrightarrow> fits_contract fname args)"

lemma simulation_fits: "typed_network R \<Longrightarrow> fst (simulate_call R fname e args s) = Inr v \<Longrightarrow> fits_contract fname args"
  by (auto simp: simulate_call_def typed_network_def Let_def split: if_splits simulation_reply.splits)

lemma two_phase_fits:
  assumes "typed_network R" and "fst (two_phase R None source fname args s) = Inr a"
  shows "\<exists>vs. js_args args = Inr vs \<and> fits_contract fname vs"
proof -
  let ?e = "ServiceError (''Failed to build transaction for '' @ fname) ''BUILD_ERROR''"
  obtain vs where vs: "js_args args = Inr vs"
    using assms(2) by (cases "js_args args") (auto simp: two_phase_def js_then_def)
  obtain r s1 where sim: "simulate_call R fname ?e vs s = (r, s1)" by force
  then obtain v where "r = Inr v"
    using assms(2) vs by (cases r) (auto simp: two_phase_def js_then_def build_unsigned_transaction_def)
  then show ?thesis using simulation_fits [OF assms(1), of fname ?e vs s v] sim vs by auto
qed

lemma read_fits:
  assumes "typed_network R" and "fst (read_contract R fname args s) = Inr v"
  shows "\<exists>vs. js_args args = Inr vs \<and> fits_contract fname vs"
proof -
  obtain vs where vs: "js_args args = Inr vs"
    using assms(2) by (cases "js_args args") (auto simp: read_contract_def js_then_def)
  then show ?thesis
    using assms(2) simulation_fits [OF assms(1)] by (auto simp: read_contract_def js_then_def simulate_view_def)
qed


lemma js_args_types: "js_args xs = Inr vs \<Longrightarrow> length vs = length xs \<and> (\<forall>i < length xs. xs ! i = Inr (vs ! i))"
  unfolding js_args_def
proof (induction xs arbitrary: vs)
  case (Cons x xs)
  obtain y ys where "x = Inr y" "map_throwing (\<lambda>x. x) xs = Inr ys" "vs = y # ys"
    using Cons.prems by (auto simp: and_then_def split: sum.splits)
  then show ?case using Cons.IH by (auto simp: nth_Cons split: nat.split)
qed simp

lemma wrong_shape:
  assumes "map_of contract_interface fname = Some ts" and "js_args args = Inr vs" and "fits_contract fname vs" and "i < length args"
  shows "length ts = length args \<and> (\<exists>v. args ! i = Inr v \<and> type_of_sc v = Some (ts ! i))"
proof -
  have fit: "map type_of_sc vs = map Some ts" using assms(1,3) by (simp add: fits_contract_def)
  have vs: "length vs = length args" "args ! i = Inr (vs ! i)" using js_args_types [OF assms(2)] assms(4) by auto
  have len: "length vs = length ts" using arg_cong [OF fit, of length] by simp
  have "type_of_sc (vs ! i) = Some (ts ! i)" using arg_cong [OF fit, of "\<lambda>l. l ! i"] vs len assms(4) by simp
  then show ?thesis using vs len by simp
qed

lemma two_phase_misfit:
  assumes "typed_network R" and "\<And>vs. js_args args = Inr vs \<Longrightarrow> \<not> fits_contract fname vs"
  shows "\<exists>e. fst (two_phase R None source fname args s) = Inl e"
  using two_phase_fits [OF assms(1), of source fname args s] assms(2)
  by (cases "fst (two_phase R None source fname args s)") auto

lemma write_misfit:
  assumes "typed_network R" and "\<And>vs. js_args args = Inr vs \<Longrightarrow> \<not> fits_contract fname vs"
  shows "\<exists>e. fst (js_then (two_phase R None source fname args) f s) = Inl e"
proof -
  obtain r s1 where run: "two_phase R None source fname args s = (r, s1)" by force
  have "\<exists>e. fst (two_phase R None source fname args s) = Inl e" by (rule two_phase_misfit [OF assms])
  then show ?thesis using run by (auto simp: js_then_def)
qed

lemma read_misfit:
  assumes "typed_network R" and "\<And>vs. js_args args = Inr vs \<Longrightarrow> \<not> fits_contract fname vs"
  shows "\<exists>e. fst (js_then (read_contract R fname args) f s) = Inl e"
proof -
  obtain r s1 where "read_contract R fname args s = (r, s1)" by force
  then show ?thesis using read_fits [OF assms(1), of fname args s] assms(2) by (cases r) (auto simp: js_then_def)
qed

text \<open>
  C14. On a network that refuses calls which do not fit the contract, what the backend does for groups, loans and
  emergencies never gets past the simulation: the methods are missing, take other arguments, or take them in another
  order. No transaction to create or join a group or to contribute is ever built, and no group is ever read.
\<close>

theorem group_calls_never_fit:
  assumes "typed_network R"
  shows "(\<exists>e. fst (soroban_create_group R K d None s) = Inl e) \<and> (\<exists>e. fst (soroban_join_group R K g p None s) = Inl e)
    \<and> (\<exists>e. fst (soroban_contribute R K g p a None s) = Inl e) \<and> (\<exists>e. fst (fetch_group R K g s) = Inl e)
    \<and> (\<exists>e. fst (fetch_all_groups R K n l s) = Inl e) \<and> (\<exists>e. fst (fetch_members R K g s) = Inl e)
    \<and> (\<exists>e. fst (request_loan R K p g a b t None s) = Inl e) \<and> (\<exists>e. fst (get_loan R K g s) = Inl e)
    \<and> (\<exists>e. fst (request_emergency R K p g a w t None s) = Inl e) \<and> (\<exists>e. fst (get_emergency_request R K g s) = Inl e)"
proof -
  have create: "\<not> fits_contract ''create_group'' vs" if "js_args (create_group_args K d) = Inr vs" for vs
    using wrong_shape [OF _ that, of "''create_group''" _ 0] by (auto simp: contract_interface_def create_group_args_def)
  have joining: "\<not> fits_contract ''join_group'' vs" if "js_args (join_group_args K g p) = Inr vs" for vs
    using wrong_shape [OF _ that, of "''join_group''" _ 0] by (auto simp: contract_interface_def join_group_args_def)
  have paying: "\<not> fits_contract ''contribute'' vs" if "js_args (contribute_args K g p a) = Inr vs" for vs
    using wrong_shape [OF _ that, of "''contribute''" _ 0] by (auto simp: contract_interface_def contribute_args_def)
  have getting: "\<not> fits_contract ''get_group'' vs" if "js_args [Inr (ScString g)] = Inr vs" for vs
    using wrong_shape [OF _ that, of "''get_group''" _ 0] by (auto simp: contract_interface_def)
  have missing: "\<not> fits_contract ''get_all_groups'' vs" "\<not> fits_contract ''get_group_members'' vs"
    "\<not> fits_contract ''request_loan'' vs" "\<not> fits_contract ''get_loan'' vs"
    "\<not> fits_contract ''request_emergency'' vs" "\<not> fits_contract ''get_emergency_request'' vs" for vs
    by (simp_all add: fits_contract_def contract_interface_def)
  have "\<exists>e. fst (soroban_create_group R K d None s) = Inl e" "\<exists>e. fst (soroban_join_group R K g p None s) = Inl e"
    "\<exists>e. fst (soroban_contribute R K g p a None s) = Inl e"
    unfolding soroban_create_group_def soroban_join_group_def soroban_contribute_def
    by (rule write_misfit [OF assms], rule create joining paying, assumption)+
  moreover have "\<exists>e. fst (fetch_group R K g s) = Inl e"
    unfolding fetch_group_def by (rule read_misfit [OF assms getting])
  moreover have "\<exists>e. fst (fetch_all_groups R K n l s) = Inl e" "\<exists>e. fst (fetch_members R K g s) = Inl e"
    "\<exists>e. fst (get_loan R K g s) = Inl e" "\<exists>e. fst (get_emergency_request R K g s) = Inl e"
    unfolding fetch_all_groups_def fetch_members_def get_loan_def get_emergency_request_def
    by (rule read_misfit [OF assms], rule missing)+
  moreover have "\<exists>e. fst (request_loan R K p g a b t None s) = Inl e" "\<exists>e. fst (request_emergency R K p g a w t None s) = Inl e"
    unfolding request_loan_def request_emergency_def by (rule two_phase_misfit [OF assms], rule missing)+
  ultimately show ?thesis by blast
qed


text \<open>
  Claims of the insurance do fit: whenever the addresses, the ids and the amount are well-formed, the arguments are
  those the contract declares, in its order, and only then are there arguments at all.
\<close>

theorem insurance_calls_fit:
  "(\<forall>vs. js_args (file_claim_args K claimant g cycle defaulter amount) = Inr vs \<longrightarrow> fits_contract ''file_insurance_claim'' vs)
    \<and> (\<forall>vs. js_args (process_claim_args K admin i approved) = Inr vs \<longrightarrow> fits_contract ''process_insurance_claim'' vs)
    \<and> (\<forall>vs. js_args [arg_address K token] = Inr vs \<longrightarrow> fits_contract ''get_insurance_pool'' vs)
    \<and> (\<forall>vs. js_args [arg_u64 K g] = Inr vs \<longrightarrow> fits_contract ''get_group_risk_rating'' vs)"
  by (auto simp: js_args_def file_claim_args_def process_claim_args_def arg_u64_def u64_of_def arg_i128_def i128_of_def arg_bigint_def
      arg_address_def and_then_def fits_contract_def contract_interface_def split: if_splits option.splits)

section \<open>Risk and premiums\<close>

instantiation risk_rating :: linorder
begin

definition risk_rank :: "risk_rating \<Rightarrow> nat" where
  "risk_rank r = (case r of RiskLow \<Rightarrow> 0 | RiskMedium \<Rightarrow> 1 | RiskHigh \<Rightarrow> 2 | RiskCritical \<Rightarrow> 3)"

definition less_eq_risk_rating :: "risk_rating \<Rightarrow> risk_rating \<Rightarrow> bool" where
  "r \<le> q \<longleftrightarrow> risk_rank r \<le> risk_rank q"

definition less_risk_rating :: "risk_rating \<Rightarrow> risk_rating \<Rightarrow> bool" where
  "r < q \<longleftrightarrow> risk_rank r < risk_rank q"

instance
  by standard (auto simp: less_eq_risk_rating_def less_risk_rating_def risk_rank_def split: risk_rating.splits)

end

lemma premium_bps_range: "50 \<le> premium_bps sc" "premium_bps sc \<le> 200"
  by (auto simp: premium_bps_def)

lemma premium_bps_antimono: "a \<le> b \<Longrightarrow> premium_bps b \<le> premium_bps a"
  by (auto simp: premium_bps_def)

text \<open>
  A better score never means a worse rating or a higher premium, and a premium on a non-negative amount lies between
  0.5 and 2 percent of it, rounded down.
\<close>

theorem better_score_never_dearer:
  assumes "good \<le> better"
  shows "rating_from_score better \<le> rating_from_score good
    \<and> (ck_bigint K t = Some a \<longrightarrow> 0 \<le> a \<longrightarrow>
        (\<exists>p q. calculate_dynamic_premium K t good = Inr (show_int p) \<and> calculate_dynamic_premium K t better = Inr (show_int q)
          \<and> 0 \<le> q \<and> q \<le> p \<and> p \<le> a * 200 div 10000 \<and> a * 50 div 10000 \<le> q))"
proof -
  have "rating_from_score better \<le> rating_from_score good"
    using assms by (auto simp: rating_from_score_def less_eq_risk_rating_def risk_rank_def)
  moreover have "\<exists>p q. calculate_dynamic_premium K t good = Inr (show_int p) \<and> calculate_dynamic_premium K t better = Inr (show_int q)
      \<and> 0 \<le> q \<and> q \<le> p \<and> p \<le> a * 200 div 10000 \<and> a * 50 div 10000 \<le> q" if ok: "ck_bigint K t = Some a" and a: "0 \<le> a"
  proof -
    let ?p = "\<lambda>sc. a * premium_bps sc div 10000"
    have div: "(a * premium_bps sc) sdiv 10000 = ?p sc" for sc
      using a premium_bps_range(1) [of sc] by (simp add: signed_divide_int_def sgn_mult sgn_if)
    have chain: "a * 50 \<le> a * premium_bps better" "a * premium_bps better \<le> a * premium_bps good" "a * premium_bps good \<le> a * 200"
      using a by (intro mult_left_mono premium_bps_range premium_bps_antimono [OF assms]; simp)+
    then have "a * 50 div 10000 \<le> ?p better" "?p better \<le> ?p good" "?p good \<le> a * 200 div 10000"
      by (intro zdiv_mono1; simp)+
    moreover have "0 \<le> a * 50 div 10000" using a by (simp add: pos_imp_zdiv_nonneg_iff)
    then have "0 \<le> ?p better" using calculation(1) by (rule order_trans)
    ultimately have "0 \<le> ?p better" "a * 50 div 10000 \<le> ?p better" "?p better \<le> ?p good" "?p good \<le> a * 200 div 10000"
      by blast+
    then show ?thesis
      by (intro exI [of _ "?p good"] exI [of _ "?p better"]) (simp add: calculate_dynamic_premium_def arg_bigint_def ok and_then_def div)
  qed
  ultimately show ?thesis by blast
qed

section \<open>Pages\<close>

text \<open>
  The service's own pagination is the one of \<open>utils/pagination.ts\<close>: the same rows and the same figures on every page.
\<close>

theorem service_pages_agree:
  assumes "1 \<le> p" and "1 \<le> l"
  shows "fst (paginate_items items p l) = fst (apply_offset_pagination items \<lparr>op_page = p, op_limit = l\<rparr>)
    \<and> (let a = snd (paginate_items items p l); b = snd (apply_offset_pagination items \<lparr>op_page = p, op_limit = l\<rparr>)
       in pg_page a = om_page b \<and> pg_limit a = om_limit b \<and> pg_total a = om_total b \<and> pg_totalPages a = om_totalPages b
         \<and> pg_hasNextPage a = om_hasNextPage b \<and> pg_hasPrevPage a = om_hasPrevPage b)"
proof -
  have "0 \<le> (p - 1) * l" using assms by simp
  then have "Tables.slice ((p - 1) * l) ((p - 1) * l + l) items = js_slice ((p - 1) * l) ((p - 1) * l + l) items"
    using assms by (simp add: slice_page js_slice_def nat_add_distrib)
  then show ?thesis
    by (simp add: paginate_items_def apply_offset_pagination_def build_offset_meta_def Let_def)
qed

section \<open>Examples\<close>

definition demo_chain_sdk :: chain_sdk where
  "demo_chain_sdk = \<lparr>ck_strict = True, ck_bigint = (\<lambda>t. if t = ''-1'' then Some (-1) else Some 1000000), ck_address = (\<lambda>_. True),
     ck_number = (\<lambda>_. Some 0), ck_xdr = (\<lambda>_. [])\<rparr>"

definition demo_rpc_host :: "scval option \<Rightarrow> rpc_host" where
  "demo_rpc_host v = \<lparr>rh_account = (\<lambda>_. True), rh_simulate = (\<lambda>n m args. if fits_contract m args then SimOk v else SimError ''trapped''),
     rh_assemble = (\<lambda>_ m _. m), rh_validXdr = (\<lambda>_. True), rh_send = (\<lambda>_ x. SendAccepted x),
     rh_status = (\<lambda>t h. if t < 3000 then TxNotFound else TxSucceeded v)\<rparr>"

definition demo_rpc_state :: rpc_state where
  "demo_rpc_state = \<lparr>rp_now = 0, rp_calls = 0, rp_sent = []\<rparr>"

lemma demo_submit:
  "submit_signed_xdr (demo_rpc_host v) ''x'' demo_rpc_state = (Inr (''x'', v), \<lparr>rp_now = 4000, rp_calls = 4, rp_sent = [''x'']\<rparr>)"
  by (simp add: submit_signed_xdr_def demo_rpc_host_def demo_rpc_state_def poll_for_confirmation_def poll_timeout_ms_def
      poll_pause_ms_def poll_until.simps)

theorem two_phase_safe_witness:
  "\<exists>t. t < 30000 \<and> rh_status (demo_rpc_host None) t ''x'' = TxSucceeded None"
proof -
  have "two_phase (demo_rpc_host None) (Some ''x'') ''a'' ''m'' [] demo_rpc_state
      = (Inr (Submitted ''x'' None), \<lparr>rp_now = 4000, rp_calls = 4, rp_sent = [''x'']\<rparr>)"
    by (simp add: two_phase_def js_then_def demo_submit)
  from two_phase_safe [OF this] show ?thesis by (auto simp: demo_rpc_state_def)
qed

theorem amount_reads_low_half_witness:
  "\<exists>v. arg_i128 demo_chain_sdk ''-1'' = Inr v \<and> sc_val_to_string demo_chain_sdk v = show_int 18446744073709551615"
proof -
  obtain v where v: "arg_i128 demo_chain_sdk ''-1'' = Inr v"
    by (simp add: arg_i128_def arg_bigint_def demo_chain_sdk_def and_then_def i128_of_def)
  then show ?thesis using amount_reads_low_half [of demo_chain_sdk "''-1''" "-1" v] by (simp add: demo_chain_sdk_def)
qed

theorem symbol_keys_unreadable_witness:
  "\<exists>e. fst (fetch_group ((demo_rpc_host None)\<lparr>rh_simulate := \<lambda>n m args. SimOk (Some (ScMap (Some [(ScSymbol ''id'', ScU64 1)])))\<rparr>)
     demo_chain_sdk ''1'' demo_rpc_state) = Inl e"
  by (rule symbol_keys_unreadable [where es = "[(ScSymbol ''id'', ScU64 1)]"])
    (simp_all add: demo_chain_sdk_def demo_rpc_host_def)

theorem created_group_reported_as_error_witness:
  "fst (soroban_create_group (demo_rpc_host (Some (ScU64 7))) demo_chain_sdk
     \<lparr>nd_name = [], nd_description = [], nd_contributionAmount = [], nd_frequency = [], nd_maxMembers = 3, nd_adminPublicKey = []\<rparr>
     (Some ''x'') demo_rpc_state) = Inl (RawError ''str not set'')"
  using created_group_reported_as_error [of demo_chain_sdk "''x''" "demo_rpc_host (Some (ScU64 7))" demo_rpc_state "''x''" 7]
  by (simp add: demo_submit demo_chain_sdk_def)

theorem loans_never_decoded_witness:
  "\<exists>e. decode_loan demo_chain_sdk (ScMap (Some [(ScSymbol ''amount'', ScI128 5)])) = Inl e"
  using loans_never_decoded [of demo_chain_sdk "ScSymbol ''amount''" 5 "[(ScSymbol ''amount'', ScI128 5)]"]
  by (simp add: demo_chain_sdk_def)

theorem group_calls_never_fit_witness:
  "\<exists>e. fst (soroban_contribute (demo_rpc_host None) demo_chain_sdk ''1'' ''G'' ''100'' None demo_rpc_state) = Inl e"
  using group_calls_never_fit [of "demo_rpc_host None" demo_chain_sdk undefined demo_rpc_state "''1''" "''G''" "''100''"]
  by (simp add: typed_network_def demo_rpc_host_def)

theorem insurance_calls_fit_witness:
  "\<exists>xdr s'. file_claim (demo_rpc_host None) demo_chain_sdk ''A'' ''1'' 2 ''B'' ''5'' None demo_rpc_state = (Inr (Unsigned xdr), s')"
proof -
  obtain vs where vs: "js_args (file_claim_args demo_chain_sdk ''A'' ''1'' 2 ''B'' ''5'') = Inr vs" "encodable vs"
    by (simp add: js_args_def file_claim_args_def arg_u64_def u64_of_def arg_i128_def i128_of_def arg_bigint_def arg_address_def
        and_then_def demo_chain_sdk_def encodable_def)
  then have "fits_contract ''file_insurance_claim'' vs"
    using insurance_calls_fit [of demo_chain_sdk "''A''" "''1''" 2 "''B''" "''5''"] by blast
  then show ?thesis using vs
    by (simp add: file_claim_def two_phase_def js_then_def build_unsigned_transaction_def simulate_call_def demo_rpc_host_def Let_def)
qed

theorem better_score_never_dearer_witness:
  "\<exists>q. calculate_dynamic_premium demo_chain_sdk ''100'' 96 = Inr (show_int q) \<and> 5000 \<le> q"
  using better_score_never_dearer [of 40 96 demo_chain_sdk "''100''" 1000000] by (auto simp: demo_chain_sdk_def)

theorem service_pages_agree_witness:
  "fst (paginate_items [10, 20, 30 :: nat] 2 2) = fst (apply_offset_pagination [10, 20, 30] \<lparr>op_page = 2, op_limit = 2\<rparr>)"
  using service_pages_agree [of 2 2 "[10, 20, 30 :: nat]"] by simp

end
