(* ===== verification/Insights.thy ===== *)
theory Insights
  imports JsPrelude
begin

text \<open>
  Business figures of the platform, \<open>backend/src/services/biService.ts\<close>: metrics over a span of dates, predictions, the
  funnel, and the stored metrics of users and groups.

  The tables are a record; sums and quotients are exact. A query that fails makes its call throw before the one write at
  its end, so queries are functions of the tables; \<open>trackEvent\<close> swallows its failure. \<open>bi_monthBack\<close> is the calendar's
  thirty days ago.
\<close>

section \<open>Tables\<close>

record bi_user =
  bu_wallet :: string
  bu_createdAt :: int
  bu_updatedAt :: int

record bi_group =
  bp_id :: string
  bp_maxMembers :: nat
  bp_currentRound :: nat
  bp_isActive :: bool
  bp_createdAt :: int

record bi_contribution =
  bc_groupId :: string
  bc_userId :: string
  bc_amount :: int
  bc_round :: nat
  bc_createdAt :: int

record bi_event =
  be_type :: string
  be_userId :: "string option"
  be_groupId :: "string option"
  be_amount :: "rat option"
  be_timestamp :: int

record user_metrics =
  um_totalContributed :: int
  um_groupsJoined :: nat
  um_lastActiveAt :: int
  um_retentionRate :: rat
  um_churnScore :: rat
  um_ltv :: int
  um_predictedChurn :: bool

record group_metrics =
  gm_totalContributions :: int
  gm_memberCount :: nat
  gm_completedRounds :: nat
  gm_successRate :: rat
  gm_defaultRate :: rat
  gm_avgContributionTime :: rat
  gm_riskScore :: rat
  gm_predictedSuccess :: bool

record bi_cohort =
  bk_cohortDate :: int
  bk_cohortSize :: nat
  bk_retentionRate :: rat

record bi_db =
  bi_users :: "bi_user list"
  bi_groups :: "bi_group list"
  bi_members :: "(string \<times> string) list"
  bi_contributions :: "bi_contribution list"
  bi_events :: "bi_event list"
  bi_userMetrics :: "(string, user_metrics) jsmap"
  bi_groupMetrics :: "(string, group_metrics) jsmap"
  bi_cohorts :: "bi_cohort list"
  bi_now :: int
  bi_monthBack :: int

type_synonym date_range = "(int \<times> int) option"

definition in_dates :: "date_range \<Rightarrow> int \<Rightarrow> bool" where
  "in_dates dates t \<longleftrightarrow> (case dates of None \<Rightarrow> True | Some (a, b) \<Rightarrow> a \<le> t \<and> t \<le> b)"

definition day_ms :: int where
  "day_ms = 1000 * 60 * 60 * 24"

section \<open>Events\<close>

definition record_event :: "bool \<Rightarrow> bi_event \<Rightarrow> bi_db \<Rightarrow> bi_db" where
  "record_event fails e db = (if fails then db else db\<lparr>bi_events := bi_events db @ [e\<lparr>be_timestamp := bi_now db\<rparr>]\<rparr>)"

section \<open>Users\<close>

definition users_in :: "date_range \<Rightarrow> bi_db \<Rightarrow> bi_user list" where
  "users_in dates db = filter (\<lambda>u. in_dates dates (bu_createdAt u)) (bi_users db)"

definition active_users_count :: "date_range \<Rightarrow> bi_db \<Rightarrow> nat" where
  "active_users_count dates db = length (filter (\<lambda>u. bi_monthBack db \<le> bu_updatedAt u) (users_in dates db))"

definition new_users_count :: "date_range \<Rightarrow> bi_db \<Rightarrow> nat" where
  "new_users_count dates db = length (users_in dates db)"

definition active_groups_count :: "date_range \<Rightarrow> bi_db \<Rightarrow> nat" where
  "active_groups_count dates db = length (filter (\<lambda>g. in_dates dates (bp_createdAt g) \<and> bp_isActive g) (bi_groups db))"

definition bi_retention_rate :: "date_range \<Rightarrow> bi_db \<Rightarrow> rat" where
  "bi_retention_rate dates db =
     (let totalUsers = length (users_in dates db)
      in if totalUsers = 0 then 0 else of_nat (active_users_count dates db) / of_nat totalUsers)"

definition churned :: "date_range \<Rightarrow> bi_db \<Rightarrow> string \<times> user_metrics \<Rightarrow> bool" where
  "churned dates db m \<longleftrightarrow> um_predictedChurn (snd m) \<and> fst m \<in> set (map bu_wallet (users_in dates db))"

definition bi_churn_rate :: "date_range \<Rightarrow> bi_db \<Rightarrow> rat" where
  "bi_churn_rate dates db =
     (let totalUsers = length (users_in dates db)
      in if totalUsers = 0 then 0 else of_nat (length (filter (churned dates db) (bi_userMetrics db))) / of_nat totalUsers)"

text \<open>An average over no rows is \<open>null\<close>, taken as 0.\<close>

definition average :: "rat list \<Rightarrow> rat" where
  "average xs = (if xs = [] then 0 else sum_list xs / of_nat (length xs))"

definition average_ltv :: "bi_db \<Rightarrow> rat" where
  "average_ltv db = average (map (\<lambda>m. of_int (um_ltv (snd m))) (bi_userMetrics db))"

section \<open>Money and groups\<close>

record financial_metrics =
  fm_totalVolume :: int
  fm_totalContributions :: int
  fm_totalPayouts :: rat
  fm_avgContributionAmount :: rat

definition sum_of_user :: "bi_contribution list \<Rightarrow> string \<Rightarrow> int" where
  "sum_of_user rows u = sum_list (map bc_amount (filter (\<lambda>c. bc_userId c = u) rows))"

definition financial_metrics_of :: "date_range \<Rightarrow> bi_db \<Rightarrow> financial_metrics" where
  "financial_metrics_of dates db =
     (let rows = filter (\<lambda>c. in_dates dates (bc_createdAt c)) (bi_contributions db); users = remdups (map bc_userId rows);
          totalContributions = sum_list (map (sum_of_user rows) users);
          payouts = filter (\<lambda>e. be_type e = ''payout_executed'' \<and> in_dates dates (be_timestamp e)) (bi_events db)
      in \<lparr>fm_totalVolume = totalContributions, fm_totalContributions = totalContributions,
          fm_totalPayouts = sum_list (map (\<lambda>e. get_or 0 (be_amount e)) payouts),
          fm_avgContributionAmount = (if length users > 0 then of_int totalContributions / of_nat (length users) else 0)\<rparr>)"

record group_summary =
  gs_totalGroups :: nat
  gs_activeGroups :: nat
  gs_avgGroupSize :: rat
  gs_successRate :: rat
  gs_defaultRate :: rat

definition member_count :: "bi_db \<Rightarrow> string \<Rightarrow> nat" where
  "member_count db g = length (filter (\<lambda>(h, u). h = g) (bi_members db))"

definition group_metrics_of :: "date_range \<Rightarrow> bi_db \<Rightarrow> group_summary" where
  "group_metrics_of dates db =
     (let groups = filter (\<lambda>g. in_dates dates (bp_createdAt g)) (bi_groups db);
          metrics = map snd (filter (\<lambda>m. fst m \<in> set (map bp_id groups)) (bi_groupMetrics db))
      in \<lparr>gs_totalGroups = length groups, gs_activeGroups = length (filter bp_isActive groups),
          gs_avgGroupSize = (if length groups > 0
            then of_nat (sum_list (map (\<lambda>g. member_count db (bp_id g)) groups)) / of_nat (length groups) else 0),
          gs_successRate = average (map gm_successRate metrics), gs_defaultRate = average (map gm_defaultRate metrics)\<rparr>)"

definition cohort_data :: "nat \<Rightarrow> bi_db \<Rightarrow> (int \<times> nat \<times> rat list) list" where
  "cohort_data limit db =
     map (\<lambda>c. (bk_cohortDate c, bk_cohortSize c, [bk_retentionRate c])) (take limit (rev (sort_key bk_cohortDate (bi_cohorts db))))"

record advanced_metrics =
  am_totalUsers :: nat
  am_activeUsers :: nat
  am_newUsers :: nat
  am_retentionRate :: rat
  am_churnRate :: rat
  am_avgLTV :: rat
  am_groupMetrics :: group_summary
  am_financialMetrics :: financial_metrics
  am_cohortMetrics :: "(int \<times> nat \<times> rat list) list"

definition calculate_advanced_metrics :: "date_range \<Rightarrow> bi_db \<Rightarrow> advanced_metrics" where
  "calculate_advanced_metrics dates db =
     \<lparr>am_totalUsers = length (bi_users db), am_activeUsers = active_users_count dates db, am_newUsers = new_users_count dates db,
      am_retentionRate = bi_retention_rate dates db, am_churnRate = bi_churn_rate dates db, am_avgLTV = average_ltv db,
      am_groupMetrics = group_metrics_of dates db, am_financialMetrics = financial_metrics_of dates db,
      am_cohortMetrics = cohort_data 12 db\<rparr>"

section \<open>Predictions\<close>

definition risk_factors :: "rat \<Rightarrow> string list" where
  "risk_factors score =
     (if score > 8 / 10 then [''high_risk''] else []) @ (if score > 6 / 10 then [''medium_risk''] else []) @
     (if score > 4 / 10 then [''low_activity''] else []) @ (if score > 2 / 10 then [''new_user''] else [])"

definition predict_user_churn :: "bi_db \<Rightarrow> (string \<times> rat \<times> string list) list" where
  "predict_user_churn db = map (\<lambda>(u, m). (u, um_churnScore m, risk_factors (um_churnScore m))) (take 100 (bi_userMetrics db))"

definition predict_group_success :: "bi_db \<Rightarrow> (string \<times> rat \<times> string list) list" where
  "predict_group_success db = map (\<lambda>(g, m). (g, gm_successRate m, risk_factors (gm_riskScore m))) (take 100 (bi_groupMetrics db))"

record optimal_amount =
  oa_minAmount :: int
  oa_maxAmount :: int
  oa_recommendedAmount :: rat
  oa_confidence :: rat

definition optimal_contribution_amount :: "bi_db \<Rightarrow> optimal_amount" where
  "optimal_contribution_amount db =
     (let amounts = map bc_amount (bi_contributions db)
      in \<lparr>oa_minAmount = (if amounts = [] then 0 else Min (set amounts)), oa_maxAmount = (if amounts = [] then 0 else Max (set amounts)),
          oa_recommendedAmount = average (map of_int amounts), oa_confidence = 85 / 100\<rparr>)"


definition generate_predictive_metrics ::
  "bi_db \<Rightarrow> (string \<times> rat \<times> string list) list \<times> (string \<times> rat \<times> string list) list \<times> optimal_amount" where
  "generate_predictive_metrics db = (predict_user_churn db, predict_group_success db, optimal_contribution_amount db)"

section \<open>The funnel\<close>

definition stage_events :: "string \<Rightarrow> bi_db \<Rightarrow> bi_event list" where
  "stage_events stage db = filter (\<lambda>e. be_type e = stage) (bi_events db)"

definition stage_users :: "string \<Rightarrow> bi_db \<Rightarrow> string option list" where
  "stage_users stage db = remdups (map be_userId (stage_events stage db))"

definition calculate_conversion_rate :: "string \<Rightarrow> bi_db \<Rightarrow> rat" where
  "calculate_conversion_rate stage db =
     (let uniqueUsers = length (stage_users stage db)
      in if uniqueUsers > 0 then of_nat uniqueUsers / of_nat (length (stage_events stage db)) else 0)"

definition note_visit :: "string \<times> int \<Rightarrow> (string, int \<times> int) jsmap \<Rightarrow> (string, int \<times> int) jsmap" where
  "note_visit e m = (case e of (u, t) \<Rightarrow> js_set u (case js_get m u of None \<Rightarrow> (t, t) | Some (first, latest) \<Rightarrow> (first, t)) m)"

definition calculate_avg_time_in_stage :: "string \<Rightarrow> bi_db \<Rightarrow> rat" where
  "calculate_avg_time_in_stage stage db =
     (let events = map (\<lambda>e. (the (be_userId e), be_timestamp e))
            (filter (\<lambda>e. be_userId e \<noteq> None) (sort_key be_timestamp (stage_events stage db)))
      in if length events < 2 then 0
         else average (map (\<lambda>(u, first, latest). of_int (latest - first) / (1000 * 60))
           (filter (\<lambda>(u, first, latest). latest - first > 0) (fold note_visit (filter (\<lambda>(u, t). u \<noteq> []) events) []))))"

definition is_word_char :: "char \<Rightarrow> bool" where
  "is_word_char c = (let n = (of_char c :: nat) in (48 \<le> n \<and> n \<le> 57) \<or> (65 \<le> n \<and> n \<le> 90) \<or> (97 \<le> n \<and> n \<le> 122) \<or> n = 95)"

definition upper_case :: "char \<Rightarrow> char" where
  "upper_case c = (let n = (of_char c :: nat) in if 97 \<le> n \<and> n \<le> 122 then char_of (n - 32) else c)"

fun capitalize :: "bool \<Rightarrow> string \<Rightarrow> string" where
  "capitalize inside [] = []"
| "capitalize inside (c # s) = (if is_word_char c \<and> \<not> inside then upper_case c else c) # capitalize (is_word_char c) s"

fun replace_first :: "char \<Rightarrow> char \<Rightarrow> string \<Rightarrow> string" where
  "replace_first a b [] = []"
| "replace_first a b (c # s) = (if c = a then b # s else c # replace_first a b s)"

record funnel_stage =
  fs_stage :: string
  fs_totalUsers :: nat
  fs_conversionRate :: rat
  fs_dropoffRate :: rat
  fs_avgTimeInStage :: rat

definition funnel_stage_metrics :: "bi_db \<Rightarrow> string \<Rightarrow> funnel_stage" where
  "funnel_stage_metrics db stage =
     \<lparr>fs_stage = capitalize False (replace_first (CHR ''_'') (CHR '' '') stage), fs_totalUsers = length (stage_users stage db),
      fs_conversionRate = calculate_conversion_rate stage db, fs_dropoffRate = 1 - calculate_conversion_rate stage db,
      fs_avgTimeInStage = calculate_avg_time_in_stage stage db\<rparr>"

definition funnel_stages :: "string list" where
  "funnel_stages = [''visit'', ''signup'', ''group_join'', ''first_contribution'', ''repeat_contribution'']"

definition analyze_funnel :: "bi_db \<Rightarrow> funnel_stage list" where
  "analyze_funnel db = map (funnel_stage_metrics db) funnel_stages"

section \<open>Stored metrics\<close>

definition contributions_of_user :: "bi_db \<Rightarrow> string \<Rightarrow> bi_contribution list" where
  "contributions_of_user db u = filter (\<lambda>c. bc_userId c = u) (bi_contributions db)"

definition find_bi_user :: "bi_db \<Rightarrow> string \<Rightarrow> bi_user option" where
  "find_bi_user db u = find (\<lambda>r. bu_wallet r = u) (bi_users db)"

definition user_retention_rate :: "bi_db \<Rightarrow> string \<Rightarrow> rat" where
  "user_retention_rate db userId =
     (case find_bi_user db userId of
        None \<Rightarrow> 0
      | Some user \<Rightarrow>
          (let daysSinceJoin = (bi_now db - bu_createdAt user) div day_ms;
               recent = length (filter (\<lambda>c. bi_now db - bc_createdAt c < 30 * day_ms) (contributions_of_user db userId))
           in if daysSinceJoin > 30 then of_nat recent / 30 else 1))"

definition user_churn_score :: "bi_db \<Rightarrow> string \<Rightarrow> rat" where
  "user_churn_score db userId = max 0 (1 - user_retention_rate db userId)"

definition user_ltv :: "bi_db \<Rightarrow> string \<Rightarrow> int" where
  "user_ltv db userId = (case find_bi_user db userId of None \<Rightarrow> 0 | Some _ \<Rightarrow> sum_list (map bc_amount (contributions_of_user db userId)))"

definition update_user_metrics :: "string \<Rightarrow> bi_db \<Rightarrow> bi_db" where
  "update_user_metrics userId db =
     (case find_bi_user db userId of
        None \<Rightarrow> db
      | Some user \<Rightarrow>
          (let own = contributions_of_user db userId; churnScore = user_churn_score db userId
           in db\<lparr>bi_userMetrics := js_set userId
                \<lparr>um_totalContributed = sum_list (map bc_amount own),
                 um_groupsJoined = length (filter (\<lambda>(g, u). u = userId) (bi_members db)),
                 um_lastActiveAt = (if own = [] then bu_updatedAt user else Max (set (map bc_createdAt own))),
                 um_retentionRate = user_retention_rate db userId, um_churnScore = churnScore, um_ltv = user_ltv db userId,
                 um_predictedChurn = (churnScore > 7 / 10)\<rparr> (bi_userMetrics db)\<rparr>))"

definition find_bi_group :: "bi_db \<Rightarrow> string \<Rightarrow> bi_group option" where
  "find_bi_group db g = find (\<lambda>r. bp_id r = g) (bi_groups db)"

definition contributions_of_group :: "bi_db \<Rightarrow> string \<Rightarrow> bi_contribution list" where
  "contributions_of_group db g = filter (\<lambda>c. bc_groupId c = g) (bi_contributions db)"

definition group_success_rate :: "bi_db \<Rightarrow> string \<Rightarrow> rat" where
  "group_success_rate db groupId =
     (case find_bi_group db groupId of
        None \<Rightarrow> 0
      | Some g \<Rightarrow>
          (let expected = bp_maxMembers g * bp_currentRound g
           in if expected > 0 then of_nat (length (contributions_of_group db groupId)) / of_nat expected else 0))"

definition group_default_rate :: "bi_db \<Rightarrow> string \<Rightarrow> rat" where
  "group_default_rate db groupId =
     (case find_bi_group db groupId of
        None \<Rightarrow> 0
      | Some g \<Rightarrow>
          if member_count db groupId = 0 \<or> bp_currentRound g = 0 then 0
          else (let expected = member_count db groupId * bp_currentRound g;
                    missed = expected - length (contributions_of_group db groupId)
                in of_nat missed / of_nat expected))"

definition avg_contribution_time :: "bi_db \<Rightarrow> string \<Rightarrow> rat" where
  "avg_contribution_time db groupId =
     (let stamps = sort (map bc_createdAt (contributions_of_group db groupId))
      in if length stamps < 2 then 0
         else of_int (sum_list (map2 (\<lambda>a b. b - a) (butlast stamps) (tl stamps))) / of_nat (length stamps - 1) / of_int day_ms)"

definition group_risk_score :: "bi_db \<Rightarrow> string \<Rightarrow> rat" where
  "group_risk_score db groupId = max 0 (1 - group_success_rate db groupId)"

datatype bi_error = InvalidNumber

text \<open>\<open>Math.max()\<close> of no rounds is minus infinity, which the integer column refuses.\<close>

definition update_group_metrics :: "string \<Rightarrow> bi_db \<Rightarrow> bi_error + bi_db" where
  "update_group_metrics groupId db =
     (case find_bi_group db groupId of
        None \<Rightarrow> Inr db
      | Some g \<Rightarrow>
          (let own = contributions_of_group db groupId; successRate = group_success_rate db groupId; riskScore = group_risk_score db groupId
           in if own = [] then Inl InvalidNumber
              else Inr (db\<lparr>bi_groupMetrics := js_set groupId
                \<lparr>gm_totalContributions = sum_list (map bc_amount own), gm_memberCount = member_count db groupId,
                 gm_completedRounds = Max (set (map bc_round own)), gm_successRate = successRate,
                 gm_defaultRate = group_default_rate db groupId, gm_avgContributionTime = avg_contribution_time db groupId,
                 gm_riskScore = riskScore, gm_predictedSuccess = (successRate > 8 / 10 \<and> riskScore < 3 / 10)\<rparr>
                (bi_groupMetrics db)\<rparr>)))"

section \<open>What the figures say\<close>

text \<open>
  Members who pay on time are predicted to leave: whoever joined more than thirty days ago and paid fewer than nine
  times in the last thirty days is stored with a predicted churn, so a member of a monthly or weekly group always is.
\<close>

theorem punctual_members_predicted_to_churn:
  assumes "find_bi_user db u = Some user" and "(bi_now db - bu_createdAt user) div day_ms > 30"
    and "length (filter (\<lambda>c. bi_now db - bc_createdAt c < 30 * day_ms) (contributions_of_user db u)) < 9"
  shows "\<exists>m. js_get (bi_userMetrics (update_user_metrics u db)) u = Some m \<and> um_predictedChurn m"
proof -
  let ?n = "length (filter (\<lambda>c. bi_now db - bc_createdAt c < 30 * day_ms) (contributions_of_user db u))"
  have "(of_nat ?n :: rat) < 9" using assms(3) of_nat_less_iff [of ?n 9, where ?'a = rat] by simp
  then have "7 / 10 < user_churn_score db u"
    using assms(1,2) by (simp add: user_churn_score_def user_retention_rate_def Let_def less_max_iff_disj)
  then show ?thesis using assms(1) by (simp add: update_user_metrics_def Let_def js_simps)
qed

text \<open>
  The metrics of a group that has no contribution yet cannot be stored at all; those of any other group are, and
  are what the tables give.
\<close>

theorem group_metrics_need_contributions:
  assumes "find_bi_group db g = Some row"
  shows "(update_group_metrics g db = Inl InvalidNumber \<longleftrightarrow> contributions_of_group db g = [])
    \<and> (\<forall>db'. update_group_metrics g db = Inr db' \<longrightarrow> (\<exists>m. js_get (bi_groupMetrics db') g = Some m
        \<and> gm_totalContributions m = sum_list (map bc_amount (contributions_of_group db g))
        \<and> gm_riskScore m = max 0 (1 - gm_successRate m) \<and> bi_contributions db' = bi_contributions db))"
  using assms by (auto simp: update_group_metrics_def group_risk_score_def Let_def js_simps)

lemma shares:
  fixes p m x :: rat
  assumes "0 < m" and "m \<le> x" and "0 \<le> p"
  shows "p / x + (m - p) / m \<le> 1 \<and> (m = x \<longrightarrow> p / x + (m - p) / m = 1)"
proof -
  have "(m - p) / m = 1 - p / m" using assms(1) by (simp add: diff_divide_distrib)
  moreover have "p / x \<le> p / m" using assms by (intro divide_left_mono) auto
  ultimately show ?thesis by auto
qed

text \<open>
  Success and default of a group are complementary while it is full and nobody has paid too often; with a free seat
  the two figures fall short of one.
\<close>

theorem success_and_default:
  assumes "find_bi_group db g = Some row" and "bp_currentRound row > 0" and "0 < member_count db g" and "member_count db g \<le> bp_maxMembers row"
    and "length (contributions_of_group db g) \<le> member_count db g * bp_currentRound row"
  shows "group_success_rate db g + group_default_rate db g \<le> 1
    \<and> (member_count db g = bp_maxMembers row \<longrightarrow> group_success_rate db g + group_default_rate db g = 1)"
proof -
  let ?paid = "of_nat (length (contributions_of_group db g)) :: rat"
  let ?m = "of_nat (member_count db g * bp_currentRound row) :: rat" and ?x = "of_nat (bp_maxMembers row * bp_currentRound row) :: rat"
  have pos: "0 < ?m" using assms(2,3) by simp
  have le: "?m \<le> ?x" unfolding of_nat_le_iff using assms(4) by simp
  have s: "group_success_rate db g = ?paid / ?x" using assms by (simp add: group_success_rate_def Let_def)
  have d: "group_default_rate db g = (?m - ?paid) / ?m"
    using assms by (simp add: group_default_rate_def Let_def of_nat_diff)
  have nonneg: "0 \<le> ?paid" by simp
  have eq: "member_count db g = bp_maxMembers row \<Longrightarrow> ?m = ?x" by simp
  show ?thesis unfolding s d using shares [OF pos le nonneg] eq by blast
qed


lemma filter_length_rat: "(of_nat (length (filter P xs)) :: rat) \<le> of_nat (length xs)"
  by (simp add: length_filter_le)

text \<open>
  The rates stay rates: the retention rate lies between 0 and 1, and so does the churn rate over every span of dates as
  long as the metrics are those of distinct users.
\<close>

theorem rates_are_rates:
  assumes "js_wf (bi_userMetrics db)"
  shows "0 \<le> bi_retention_rate dates db \<and> bi_retention_rate dates db \<le> 1 \<and> 0 \<le> bi_churn_rate dates db \<and> bi_churn_rate dates db \<le> 1"
proof -
  let ?us = "users_in dates db" and ?ms = "filter (churned dates db) (bi_userMetrics db)"
  have frac: "0 \<le> (of_nat a / of_nat b :: rat) \<and> (of_nat a / of_nat b :: rat) \<le> 1" if "a \<le> b" "b \<noteq> 0" for a b :: nat
    using that by (simp add: divide_le_eq)
  have "distinct (map fst ?ms)" using assms by (simp add: js_wf_def distinct_map_filter)
  then have "length ?ms = card (fst ` set ?ms)" by (metis distinct_card length_map set_map)
  also have "\<dots> \<le> card (set (map bu_wallet ?us))" by (intro card_mono) (auto simp: churned_def)
  also have "\<dots> \<le> length ?us" by (metis card_length length_map)
  finally have "length ?ms \<le> length ?us" .
  then show ?thesis
    using frac [of "length ?ms" "length ?us"] frac [of "active_users_count dates db" "length ?us"]
    by (auto simp: bi_retention_rate_def bi_churn_rate_def Let_def active_users_count_def)
qed

lemma remdups_map_append_in: "x \<in> set xs \<Longrightarrow> length (remdups (xs @ [x])) = length (remdups xs)"
  by (simp add: length_remdups_card_conv insert_absorb)

text \<open>
  What the funnel calls conversion is the share of first events: every further event of somebody already at a stage
  lowers the conversion of that stage, and nobody leaves it.
\<close>

theorem repeat_events_lower_conversion:
  assumes "be_userId e \<in> be_userId ` set (stage_events (be_type e) db)"
  shows "calculate_conversion_rate (be_type e) (record_event False e db) < calculate_conversion_rate (be_type e) db
    \<and> length (stage_users (be_type e) (record_event False e db)) = length (stage_users (be_type e) db)"
proof -
  let ?db = "record_event False e db" and ?st = "be_type e"
  have events: "stage_events ?st ?db = stage_events ?st db @ [e\<lparr>be_timestamp := bi_now db\<rparr>]"
    by (simp add: stage_events_def record_event_def)
  have "be_userId e \<in> set (map be_userId (stage_events ?st db))" using assms by simp
  then have users: "length (stage_users ?st ?db) = length (stage_users ?st db)"
    unfolding stage_users_def events using remdups_map_append_in [of "be_userId e" "map be_userId (stage_events ?st db)"] by simp
  have "stage_events ?st db \<noteq> []" using assms by auto
  then have pos: "0 < length (stage_users ?st db)" "0 < length (stage_events ?st db)"
    by (auto simp: stage_users_def)
  have "(of_nat a / of_nat (Suc b) :: rat) < of_nat a / of_nat b" if "0 < a" "0 < b" for a b :: nat
    using that by (intro divide_strict_left_mono) auto
  then show ?thesis
    using pos users events by (simp add: calculate_conversion_rate_def Let_def)
qed

lemma sum_by_user:
  "set (map bc_userId rows) \<subseteq> set us \<Longrightarrow> distinct us \<Longrightarrow> sum_list (map (sum_of_user rows) us) = sum_list (map bc_amount rows)"
proof (induction rows)
  case (Cons c rows)
  have "sum_of_user (c # rows) = (\<lambda>u. (if bc_userId c = u then bc_amount c else 0) + sum_of_user rows u)"
    by (rule ext) (simp add: sum_of_user_def)
  moreover have "(\<Sum>u\<leftarrow>us. if bc_userId c = u then bc_amount c else 0) = bc_amount c"
    using Cons.prems by (simp add: sum_list_distinct_conv_sum_set)
  ultimately have "sum_list (map (sum_of_user (c # rows)) us) = bc_amount c + sum_list (map (sum_of_user rows) us)"
    by (simp only: sum_list_addf)
  then show ?case using Cons by simp
qed (simp add: sum_of_user_def [abs_def])

text \<open>
  Summing by member and then over the members loses nothing: the total is the sum over the contributions of the span
  of dates, and the so-called average contribution times the number of members who paid is that total.
\<close>

theorem totals_by_user:
  "fm_totalContributions (financial_metrics_of dates db)
      = sum_list (map bc_amount (filter (\<lambda>c. in_dates dates (bc_createdAt c)) (bi_contributions db)))
    \<and> fm_avgContributionAmount (financial_metrics_of dates db)
        * of_nat (card (bc_userId ` set (filter (\<lambda>c. in_dates dates (bc_createdAt c)) (bi_contributions db))))
      = of_int (fm_totalContributions (financial_metrics_of dates db))"
proof -
  let ?rows = "filter (\<lambda>c. in_dates dates (bc_createdAt c)) (bi_contributions db)"
  let ?us = "remdups (map bc_userId ?rows)"
  have total: "sum_list (map (sum_of_user ?rows) ?us) = sum_list (map bc_amount ?rows)" by (intro sum_by_user) auto
  have len: "length ?us = card (bc_userId ` set ?rows)" by (simp add: length_remdups_card_conv)
  have "?rows = []" if "length ?us = 0" using that by simp
  then have "(if length ?us > 0 then of_int (sum_list (map bc_amount ?rows)) / of_nat (length ?us) else 0) * of_nat (length ?us)
      = (of_int (sum_list (map bc_amount ?rows)) :: rat)"
    by (cases "length ?us = 0") auto
  then show ?thesis unfolding financial_metrics_of_def Let_def total len by simp
qed

section \<open>Examples\<close>

definition demo_bi :: bi_db where
  "demo_bi = \<lparr>bi_users = [\<lparr>bu_wallet = ''ann'', bu_createdAt = 0, bu_updatedAt = 0\<rparr>],
     bi_groups = [\<lparr>bp_id = ''g'', bp_maxMembers = 2, bp_currentRound = 1, bp_isActive = True, bp_createdAt = 0\<rparr>],
     bi_members = [(''g'', ''ann''), (''g'', ''bob'')],
     bi_contributions = [\<lparr>bc_groupId = ''g'', bc_userId = ''ann'', bc_amount = 100, bc_round = 1, bc_createdAt = 3400000000\<rparr>],
     bi_events = [\<lparr>be_type = ''visit'', be_userId = Some ''ann'', be_groupId = None, be_amount = None, be_timestamp = 0\<rparr>],
     bi_userMetrics = [], bi_groupMetrics = [], bi_cohorts = [], bi_now = 3456000000, bi_monthBack = 864000000\<rparr>"

theorem punctual_members_predicted_to_churn_witness:
  "\<exists>m. js_get (bi_userMetrics (update_user_metrics ''ann'' demo_bi)) ''ann'' = Some m \<and> um_predictedChurn m"
  by (rule punctual_members_predicted_to_churn [of _ _ "\<lparr>bu_wallet = ''ann'', bu_createdAt = 0, bu_updatedAt = 0\<rparr>"])
    (simp_all add: demo_bi_def find_bi_user_def contributions_of_user_def day_ms_def)

theorem group_metrics_need_contributions_witness:
  "update_group_metrics ''g'' (demo_bi\<lparr>bi_contributions := []\<rparr>) = Inl InvalidNumber"
  using group_metrics_need_contributions [of "demo_bi\<lparr>bi_contributions := []\<rparr>" "''g''"]
  by (simp add: demo_bi_def find_bi_group_def contributions_of_group_def)

theorem success_and_default_witness: "group_success_rate demo_bi ''g'' + group_default_rate demo_bi ''g'' = 1"
  using success_and_default [of demo_bi "''g''"]
  by (simp add: demo_bi_def find_bi_group_def contributions_of_group_def member_count_def)

theorem rates_are_rates_witness: "bi_retention_rate None demo_bi \<le> 1"
  using rates_are_rates [of demo_bi None] by (simp add: demo_bi_def)

theorem repeat_events_lower_conversion_witness:
  "calculate_conversion_rate ''visit'' (record_event False
     \<lparr>be_type = ''visit'', be_userId = Some ''ann'', be_groupId = None, be_amount = None, be_timestamp = 0\<rparr> demo_bi) < 1"
proof -
  let ?e = "\<lparr>be_type = ''visit'', be_userId = Some ''ann'', be_groupId = None, be_amount = None, be_timestamp = 0\<rparr>"
  have "calculate_conversion_rate (be_type ?e) (record_event False ?e demo_bi) < calculate_conversion_rate (be_type ?e) demo_bi"
    by (rule repeat_events_lower_conversion [THEN conjunct1]) (simp add: demo_bi_def stage_events_def)
  moreover have "calculate_conversion_rate ''visit'' demo_bi = 1"
    by (simp add: demo_bi_def stage_events_def calculate_conversion_rate_def stage_users_def)
  ultimately show ?thesis by simp
qed

end
