(* ===== verification/Chat.thy ===== *)
theory Chat
  imports JsPrelude
begin

text \<open>
  The chat of a savings group: the sockets and rooms of \<open>backend/src/services/chatService.ts\<close> and the HTTP side,
  \<open>controllers/chatController.ts\<close> behind \<open>routes/chat.ts\<close> with the parameter schema of \<open>validators/chat.ts\<close>.

  The state holds the tables with their keys, the connected sockets with the Socket.IO rooms each has joined (its own id is
  one of them), the service's two maps, and what was emitted to which socket. The nth database call fails when the host
  says so of n. A handler runs to its end before the next event; JSON metadata is kept as its text. A request comes with the
  wallet that the guard of \<open>BackendAuth\<close> let in.
\<close>

section \<open>Data\<close>

record chat_message =
  cm_id :: string
  cm_roomId :: string
  cm_userId :: string
  cm_content :: string
  cm_type :: string
  cm_metadata :: "string option"
  cm_isEdited :: bool
  cm_deletedAt :: "int option"
  cm_createdAt :: int
  cm_updatedAt :: int

record chat_room =
  cr_id :: string
  cr_groupId :: string
  cr_name :: string
  cr_description :: "string option"

record chat_participant =
  cp_roomId :: string
  cp_userId :: string
  cp_lastReadAt :: "int option"
  cp_lastSeenAt :: "int option"
  cp_notificationsEnabled :: bool
  cp_isMuted :: bool

datatype chat_event =
    NewMessage chat_message string
  | ParticipantJoined string string
  | ParticipantLeft string string
  | MessageEdited chat_message
  | MessageDeleted string string
  | UserTyping string string
  | UserStoppedTyping string string
  | SocketError string

text \<open>\<open>ch_users\<close> are wallet addresses, the key of the user table; \<open>ch_sockets\<close> maps a socket to its \<open>socket.data\<close>.\<close>

record chat_state =
  ch_users :: "string list"
  ch_groups :: "string list"
  ch_members :: "(string \<times> string) list"
  ch_rooms :: "chat_room list"
  ch_participants :: "chat_participant list"
  ch_messages :: "chat_message list"
  ch_sockets :: "(string, string \<times> string) jsmap"
  ch_joined :: "(string \<times> string) list"
  ch_userSockets :: "(string, string list) jsmap"
  ch_roomParticipants :: "(string, string list) jsmap"
  ch_emitted :: "(string \<times> chat_event) list"
  ch_now :: int
  ch_calls :: nat

record chat_host =
  ho_cuid :: "nat \<Rightarrow> string"
  ho_fails :: "nat \<Rightarrow> bool"

datatype chat_error = DatabaseError string | NotParticipant | TypeError string

type_synonym 'a chat_method = "(chat_state, chat_error, 'a) js_method"

section \<open>Tables\<close>

definition chat_call :: "chat_host \<Rightarrow> 'a chat_method \<Rightarrow> 'a chat_method" where
  "chat_call H f s =
     (let s' = s\<lparr>ch_calls := Suc (ch_calls s)\<rparr> in if ho_fails H (ch_calls s) then (Inl (DatabaseError ''unavailable''), s') else f s')"

definition reads :: "chat_host \<Rightarrow> (chat_state \<Rightarrow> 'a) \<Rightarrow> 'a chat_method" where
  "reads H q = chat_call H (\<lambda>s. (Inr (q s), s))"

definition is_participant :: "string \<Rightarrow> string \<Rightarrow> chat_participant \<Rightarrow> bool" where
  "is_participant roomId userId p \<longleftrightarrow> cp_roomId p = roomId \<and> cp_userId p = userId"

definition find_participant :: "string \<Rightarrow> string \<Rightarrow> chat_state \<Rightarrow> chat_participant option" where
  "find_participant roomId userId s = find (is_participant roomId userId) (ch_participants s)"

definition find_message :: "string \<Rightarrow> chat_state \<Rightarrow> chat_message option" where
  "find_message messageId s = find (\<lambda>m. cm_id m = messageId) (ch_messages s)"

definition update_participant ::
  "chat_host \<Rightarrow> string \<Rightarrow> string \<Rightarrow> (int \<Rightarrow> chat_participant \<Rightarrow> chat_participant) \<Rightarrow> chat_participant chat_method" where
  "update_participant H roomId userId f = chat_call H (\<lambda>s.
     case find_participant roomId userId s of
       None \<Rightarrow> (Inl (DatabaseError ''record not found''), s)
     | Some p \<Rightarrow> (Inr (f (ch_now s) p),
         s\<lparr>ch_participants := map (\<lambda>q. if is_participant roomId userId q then f (ch_now s) q else q) (ch_participants s)\<rparr>))"

definition update_message :: "chat_host \<Rightarrow> string \<Rightarrow> (int \<Rightarrow> chat_message \<Rightarrow> chat_message) \<Rightarrow> chat_message chat_method" where
  "update_message H messageId f = chat_call H (\<lambda>s.
     case find_message messageId s of
       None \<Rightarrow> (Inl (DatabaseError ''record not found''), s)
     | Some m \<Rightarrow> (Inr (f (ch_now s) m),
         s\<lparr>ch_messages := map (\<lambda>m. if cm_id m = messageId then f (ch_now s) m else m) (ch_messages s)\<rparr>))"

text \<open>A message needs its room and its author; its id is a primary key.\<close>

definition create_message ::
  "chat_host \<Rightarrow> string \<Rightarrow> string \<Rightarrow> string \<Rightarrow> string \<Rightarrow> string option \<Rightarrow> chat_message chat_method" where
  "create_message H roomId userId content type metadata = chat_call H (\<lambda>s.
     let m = \<lparr>cm_id = ho_cuid H (ch_calls s), cm_roomId = roomId, cm_userId = userId, cm_content = content, cm_type = type,
              cm_metadata = metadata, cm_isEdited = False, cm_deletedAt = None, cm_createdAt = ch_now s, cm_updatedAt = ch_now s\<rparr>
     in if roomId \<notin> cr_id ` set (ch_rooms s) \<or> userId \<notin> set (ch_users s) \<or> cm_id m \<in> cm_id ` set (ch_messages s)
        then (Inl (DatabaseError ''constraint''), s)
        else (Inr m, s\<lparr>ch_messages := ch_messages s @ [m]\<rparr>))"

section \<open>Sockets\<close>

definition in_room :: "string \<Rightarrow> chat_state \<Rightarrow> string list" where
  "in_room roomId s = map fst (filter (\<lambda>(sid, r). r = roomId) (ch_joined s))"

text \<open>\<open>io.to(room).emit\<close>, \<open>socket.to(room).emit\<close> (all but the socket itself) and \<open>socket.emit\<close>.\<close>

definition emit_room :: "string \<Rightarrow> chat_event \<Rightarrow> unit chat_method" where
  "emit_room roomId e s = (Inr (), s\<lparr>ch_emitted := ch_emitted s @ map (\<lambda>sid. (sid, e)) (in_room roomId s)\<rparr>)"

definition emit_others :: "string \<Rightarrow> string \<Rightarrow> chat_event \<Rightarrow> chat_state \<Rightarrow> chat_state" where
  "emit_others socket roomId e s =
     s\<lparr>ch_emitted := ch_emitted s @ map (\<lambda>sid. (sid, e)) (filter (\<lambda>sid. sid \<noteq> socket) (in_room roomId s))\<rparr>"

definition emit_self :: "string \<Rightarrow> chat_event \<Rightarrow> chat_state \<Rightarrow> chat_state" where
  "emit_self socket e s = s\<lparr>ch_emitted := ch_emitted s @ [(socket, e)]\<rparr>"

definition enter_room :: "string \<Rightarrow> string \<Rightarrow> string \<Rightarrow> unit chat_method" where
  "enter_room socket roomId userId s =
     (Inr (), s\<lparr>ch_joined := js_add (socket, roomId) (ch_joined s),
        ch_roomParticipants := js_set roomId (js_add userId (get_or [] (js_get (ch_roomParticipants s) roomId))) (ch_roomParticipants s)\<rparr>)"

definition seen_now :: "chat_host \<Rightarrow> string \<Rightarrow> string \<Rightarrow> unit chat_method" where
  "seen_now H roomId userId =
     js_then (update_participant H roomId userId (\<lambda>now p. p\<lparr>cp_lastSeenAt := Some now\<rparr>)) (\<lambda>_. js_return ())"

text \<open>The check of the handshake; \<open>None\<close> and the empty string are refused alike.\<close>

definition socket_auth :: "chat_host \<Rightarrow> string option \<Rightarrow> string option \<Rightarrow> (string \<times> string) chat_method" where
  "socket_auth H walletAddress userId =
     (case (truthy walletAddress, truthy userId) of
        (Some w, Some u) \<Rightarrow> js_then (reads H (\<lambda>s. w \<in> set (ch_users s)))
          (\<lambda>found. if found then js_return (u, w) else js_throw (DatabaseError ''User not found''))
      | _ \<Rightarrow> js_throw (DatabaseError ''Authentication required''))"

primrec join_each :: "chat_host \<Rightarrow> string \<Rightarrow> string \<Rightarrow> string list \<Rightarrow> unit chat_method" where
  "join_each H socket userId [] = js_return ()"
| "join_each H socket userId (r # rs) =
     js_then (enter_room socket r userId) (\<lambda>_. js_then (seen_now H r userId) (\<lambda>_. join_each H socket userId rs))"

definition join_user_rooms :: "chat_host \<Rightarrow> string \<Rightarrow> string \<Rightarrow> unit chat_method" where
  "join_user_rooms H socket userId = js_swallow
     (js_then (reads H (\<lambda>s. map cp_roomId (filter (\<lambda>p. cp_userId p = userId) (ch_participants s)))) (join_each H socket userId))"

definition handle_connection :: "chat_host \<Rightarrow> string \<Rightarrow> string \<Rightarrow> string \<Rightarrow> unit chat_method" where
  "handle_connection H socket userId walletAddress s =
     join_user_rooms H socket userId
       (s\<lparr>ch_sockets := js_set socket (userId, walletAddress) (ch_sockets s), ch_joined := js_add (socket, socket) (ch_joined s),
          ch_userSockets := js_set userId (js_add socket (get_or [] (js_get (ch_userSockets s) userId))) (ch_userSockets s)\<rparr>)"

definition require_participant :: "chat_host \<Rightarrow> string \<Rightarrow> string \<Rightarrow> chat_participant chat_method" where
  "require_participant H roomId userId =
     js_then (reads H (find_participant roomId userId)) (\<lambda>p. case p of None \<Rightarrow> js_throw NotParticipant | Some q \<Rightarrow> js_return q)"

definition join_room :: "chat_host \<Rightarrow> string \<Rightarrow> string \<Rightarrow> string \<Rightarrow> unit chat_method" where
  "join_room H socket roomId userId =
     js_then (require_participant H roomId userId) (\<lambda>_.
       js_then (enter_room socket roomId userId) (\<lambda>_. seen_now H roomId userId))"

definition leave_room :: "string \<Rightarrow> string \<Rightarrow> chat_state \<Rightarrow> chat_state" where
  "leave_room socket roomId s = s\<lparr>ch_joined := js_remove (socket, roomId) (ch_joined s)\<rparr>"

text \<open>The author is selected with the message: his key is his wallet address.\<close>

definition handle_message :: "chat_host \<Rightarrow> string \<Rightarrow> string \<Rightarrow> string \<Rightarrow> string option \<Rightarrow> string option \<Rightarrow> unit chat_method" where
  "handle_message H userId roomId content type metadata =
     js_then (require_participant H roomId userId) (\<lambda>_.
       js_then (create_message H roomId userId content (get_or ''TEXT'' type) metadata) (\<lambda>m.
         emit_room roomId (NewMessage m (cm_userId m))))"

definition handle_disconnect :: "string \<Rightarrow> string \<Rightarrow> chat_state \<Rightarrow> chat_state" where
  "handle_disconnect socket userId s =
     s\<lparr>ch_sockets := js_del socket (ch_sockets s), ch_joined := filter (\<lambda>(sid, r). sid \<noteq> socket) (ch_joined s),
       ch_userSockets := (case js_get (ch_userSockets s) userId of
          None \<Rightarrow> ch_userSockets s
        | Some sids \<Rightarrow> (let rest = js_remove socket sids in
            if rest = [] then js_del userId (ch_userSockets s) else js_set userId rest (ch_userSockets s)))\<rparr>"

section \<open>The service's public methods\<close>

text \<open>A group has at most one room.\<close>

definition create_chat_room :: "chat_host \<Rightarrow> string \<Rightarrow> string \<Rightarrow> string option \<Rightarrow> chat_room chat_method" where
  "create_chat_room H groupId name description = chat_call H (\<lambda>s.
     let r = \<lparr>cr_id = ho_cuid H (ch_calls s), cr_groupId = groupId, cr_name = name, cr_description = description\<rparr>
     in if groupId \<notin> set (ch_groups s) \<or> groupId \<in> cr_groupId ` set (ch_rooms s) \<or> cr_id r \<in> cr_id ` set (ch_rooms s)
        then (Inl (DatabaseError ''constraint''), s)
        else (Inr r, s\<lparr>ch_rooms := ch_rooms s @ [r]\<rparr>))"

definition add_participant :: "chat_host \<Rightarrow> string \<Rightarrow> string \<Rightarrow> chat_participant chat_method" where
  "add_participant H roomId userId =
     js_then (chat_call H (\<lambda>s. case find_participant roomId userId s of
         Some p \<Rightarrow> (Inr p, s)
       | None \<Rightarrow>
           (let p = \<lparr>cp_roomId = roomId, cp_userId = userId, cp_lastReadAt = None, cp_lastSeenAt = None,
                     cp_notificationsEnabled = True, cp_isMuted = False\<rparr>
            in if roomId \<notin> cr_id ` set (ch_rooms s) \<or> userId \<notin> set (ch_users s)
               then (Inl (DatabaseError ''constraint''), s)
               else (Inr p, s\<lparr>ch_participants := ch_participants s @ [p]\<rparr>))))
       (\<lambda>p. js_then (emit_room roomId (ParticipantJoined userId roomId)) (\<lambda>_. js_return p))"

definition remove_participant :: "chat_host \<Rightarrow> string \<Rightarrow> string \<Rightarrow> unit chat_method" where
  "remove_participant H roomId userId =
     js_then (chat_call H (\<lambda>s. case find_participant roomId userId s of
         None \<Rightarrow> (Inl (DatabaseError ''record not found''), s)
       | Some p \<Rightarrow> (Inr (), s\<lparr>ch_participants := filter (\<lambda>q. \<not> is_participant roomId userId q) (ch_participants s)\<rparr>)))
       (\<lambda>_. emit_room roomId (ParticipantLeft userId roomId))"

definition get_messages :: "chat_host \<Rightarrow> string \<Rightarrow> nat \<Rightarrow> int option \<Rightarrow> chat_message list chat_method" where
  "get_messages H roomId limit before = reads H (\<lambda>s. rev (take limit (rev (sort_key cm_createdAt (filter
     (\<lambda>m. cm_roomId m = roomId \<and> cm_deletedAt m = None \<and> (case before of None \<Rightarrow> True | Some t \<Rightarrow> cm_createdAt m < t))
     (ch_messages s))))))"

definition edit_message :: "chat_host \<Rightarrow> string \<Rightarrow> string \<Rightarrow> string \<Rightarrow> chat_message chat_method" where
  "edit_message H messageId userId content =
     js_then (update_message H messageId (\<lambda>now m. m\<lparr>cm_content := content, cm_isEdited := True, cm_updatedAt := now\<rparr>)) (\<lambda>m.
       js_then (emit_room (cm_roomId m) (MessageEdited m)) (\<lambda>_. js_return m))"

definition delete_message :: "chat_host \<Rightarrow> string \<Rightarrow> string \<Rightarrow> chat_message chat_method" where
  "delete_message H messageId userId =
     js_then (update_message H messageId (\<lambda>now m. m\<lparr>cm_deletedAt := Some now, cm_content := ''[Deleted]'', cm_updatedAt := now\<rparr>)) (\<lambda>m.
       js_then (emit_room (cm_roomId m) (MessageDeleted (cm_id m) (cm_roomId m))) (\<lambda>_. js_return m))"

definition mark_as_read :: "chat_host \<Rightarrow> string \<Rightarrow> string \<Rightarrow> unit chat_method" where
  "mark_as_read H roomId userId =
     js_then (update_participant H roomId userId (\<lambda>now p. p\<lparr>cp_lastReadAt := Some now\<rparr>)) (\<lambda>_. js_return ())"

section \<open>The controller\<close>

datatype chat_body =
    RoomBody chat_room
  | MessagesBody "chat_message list" int int
  | MessageBody chat_message
  | ParticipantsBody "chat_participant list"
  | ParticipantBody chat_participant
  | DoneBody string
  | ErrorBody string

type_synonym chat_response = "nat \<times> chat_body"

text \<open>The \<open>catch\<close> around every handler.\<close>

definition or_500 :: "string \<Rightarrow> chat_response chat_method \<Rightarrow> chat_state \<Rightarrow> chat_response \<times> chat_state" where
  "or_500 message m s = (case m s of (Inr r, s') \<Rightarrow> (r, s') | (Inl e, s') \<Rightarrow> ((500, ErrorBody message), s'))"

text \<open>A parameter that is \<open>undefined\<close> makes the database client throw.\<close>

definition param :: "(string, string) jsmap \<Rightarrow> string \<Rightarrow> string chat_method" where
  "param params name =
     (case js_get params name of None \<Rightarrow> js_throw (DatabaseError ''missing argument'') | Some v \<Rightarrow> js_return v)"

definition get_or_create_room ::
  "chat_host \<Rightarrow> string option \<Rightarrow> (string, string) jsmap \<Rightarrow> chat_state \<Rightarrow> chat_response \<times> chat_state" where
  "get_or_create_room H user params = or_500 ''Failed to initialize chat room''
     (case truthy user of
        None \<Rightarrow> js_return (401, ErrorBody ''Unauthorized'')
      | Some wallet \<Rightarrow> js_then (param params ''groupId'') (\<lambda>groupId.
          js_then (reads H (\<lambda>s. (groupId, wallet) \<in> set (ch_members s))) (\<lambda>isMember.
            if \<not> isMember then js_return (403, ErrorBody ''You must be a group member to access the chat'')
            else js_then (reads H (\<lambda>s. find (\<lambda>r. cr_groupId r = groupId) (ch_rooms s))) (\<lambda>found.
              js_then (case found of
                  Some r \<Rightarrow> js_return r
                | None \<Rightarrow> create_chat_room H groupId (groupId @ '' Chat'') (Some (''Chat room for group '' @ groupId))) (\<lambda>room.
                js_then (add_participant H (cr_id room) wallet) (\<lambda>_. js_return (200, RoomBody room)))))))"

definition get_messages_handler ::
  "chat_host \<Rightarrow> string option \<Rightarrow> (string, string) jsmap \<Rightarrow> int \<Rightarrow> int \<Rightarrow> int option \<Rightarrow> chat_state \<Rightarrow> chat_response \<times> chat_state" where
  "get_messages_handler H user params page limit before = or_500 ''Failed to retrieve messages''
     (case truthy user of
        None \<Rightarrow> js_return (401, ErrorBody ''Unauthorized'')
      | Some wallet \<Rightarrow> js_then (param params ''roomId'') (\<lambda>roomId.
          js_then (reads H (find_participant roomId wallet)) (\<lambda>p.
            if p = None then js_return (403, ErrorBody ''You are not a participant in this chat'')
            else js_then (get_messages H roomId (nat limit) before) (\<lambda>messages.
              js_return (200, MessagesBody messages page limit)))))"

definition send_message ::
  "chat_host \<Rightarrow> string \<Rightarrow> (string, string) jsmap \<Rightarrow> string \<Rightarrow> string \<Rightarrow> string option \<Rightarrow> chat_state \<Rightarrow> chat_response \<times> chat_state" where
  "send_message H wallet params content type metadata = or_500 ''Failed to send message''
     (js_then (param params ''roomId'') (\<lambda>roomId.
        js_then (reads H (find_participant roomId wallet)) (\<lambda>found.
          case found of
            None \<Rightarrow> js_return (403, ErrorBody ''You are not a participant in this chat'')
          | Some p \<Rightarrow>
              if cp_isMuted p then js_return (403, ErrorBody ''You have muted this chat'')
              else js_then (create_message H roomId wallet content type metadata) (\<lambda>m.
                js_then (emit_room roomId (NewMessage m (cm_userId m))) (\<lambda>_. js_return (201, MessageBody m))))))"

definition edit_message_handler ::
  "chat_host \<Rightarrow> string \<Rightarrow> (string, string) jsmap \<Rightarrow> string \<Rightarrow> chat_state \<Rightarrow> chat_response \<times> chat_state" where
  "edit_message_handler H wallet params content = or_500 ''Failed to edit message''
     (js_then (param params ''messageId'') (\<lambda>messageId.
        js_then (reads H (find_message messageId)) (\<lambda>found.
          case found of
            None \<Rightarrow> js_return (404, ErrorBody ''Message not found'')
          | Some m \<Rightarrow>
              if cm_userId m \<noteq> wallet then js_return (403, ErrorBody ''You can only edit your own messages'')
              else if cm_deletedAt m \<noteq> None then js_return (403, ErrorBody ''Cannot edit deleted messages'')
              else js_then (edit_message H messageId wallet content) (\<lambda>updated. js_return (200, MessageBody updated)))))"

text \<open>
  The room is selected with its group but not with the group's members: \<open>chatRoom.group.members.some\<close> is a call on
  \<open>undefined\<close>. Without a room the chain is \<open>undefined\<close>, and the answer 403.
\<close>

definition delete_message_handler ::
  "chat_host \<Rightarrow> string \<Rightarrow> (string, string) jsmap \<Rightarrow> chat_state \<Rightarrow> chat_response \<times> chat_state" where
  "delete_message_handler H wallet params = or_500 ''Failed to delete message''
     (js_then (param params ''messageId'') (\<lambda>messageId.
        js_then (reads H (find_message messageId)) (\<lambda>found.
          case found of
            None \<Rightarrow> js_return (404, ErrorBody ''Message not found'')
          | Some m \<Rightarrow>
              if cm_userId m \<noteq> wallet
              then js_then (reads H (\<lambda>s. find (\<lambda>r. cr_id r = cm_roomId m) (ch_rooms s))) (\<lambda>room.
                case room of
                  Some r \<Rightarrow> js_throw (TypeError ''Cannot read properties of undefined'')
                | None \<Rightarrow> js_return (403, ErrorBody ''You can only delete your own messages''))
              else js_then (delete_message H messageId wallet) (\<lambda>_. js_return (200, DoneBody ''Message deleted successfully'')))))"

definition get_participants :: "chat_host \<Rightarrow> (string, string) jsmap \<Rightarrow> chat_state \<Rightarrow> chat_response \<times> chat_state" where
  "get_participants H params = or_500 ''Failed to retrieve participants''
     (js_then (param params ''roomId'') (\<lambda>roomId.
        js_then (reads H (\<lambda>s. filter (\<lambda>p. cp_roomId p = roomId) (ch_participants s))) (\<lambda>ps. js_return (200, ParticipantsBody ps))))"

definition mark_as_read_handler ::
  "chat_host \<Rightarrow> string \<Rightarrow> (string, string) jsmap \<Rightarrow> chat_state \<Rightarrow> chat_response \<times> chat_state" where
  "mark_as_read_handler H wallet params = or_500 ''Failed to mark messages as read''
     (js_then (param params ''roomId'') (\<lambda>roomId.
        js_then (mark_as_read H roomId wallet) (\<lambda>_. js_return (200, DoneBody ''Messages marked as read''))))"

definition toggle_mute ::
  "chat_host \<Rightarrow> string \<Rightarrow> (string, string) jsmap \<Rightarrow> bool \<Rightarrow> chat_state \<Rightarrow> chat_response \<times> chat_state" where
  "toggle_mute H wallet params isMuted = or_500 ''Failed to update mute status''
     (js_then (param params ''roomId'') (\<lambda>roomId.
        js_then (update_participant H roomId wallet (\<lambda>now p. p\<lparr>cp_isMuted := isMuted\<rparr>)) (\<lambda>p. js_return (200, ParticipantBody p))))"

definition toggle_notifications ::
  "chat_host \<Rightarrow> string \<Rightarrow> (string, string) jsmap \<Rightarrow> bool \<Rightarrow> chat_state \<Rightarrow> chat_response \<times> chat_state" where
  "toggle_notifications H wallet params notificationsEnabled = or_500 ''Failed to update notification status''
     (js_then (param params ''roomId'') (\<lambda>roomId.
        js_then (update_participant H roomId wallet (\<lambda>now p. p\<lparr>cp_notificationsEnabled := notificationsEnabled\<rparr>))
          (\<lambda>p. js_return (200, ParticipantBody p))))"

section \<open>The routes\<close>

datatype chat_request =
    RoomRequest string
  | MessagesRequest string int int
  | SendRequest string string string "string option"
  | EditRequest string string
  | DeleteRequest string
  | ParticipantsRequest string
  | ReadRequest string
  | MuteRequest string bool
  | NotificationsRequest string bool

text \<open>The schema of the room's and of the message's id asks for a parameter called \<open>id\<close> and drops all others.\<close>

definition id_param_schema :: "(string, string) jsmap \<Rightarrow> (string, string) jsmap option" where
  "id_param_schema params = map_option (\<lambda>v. [(''id'', v)]) (truthy (js_get params ''id''))"

definition message_types :: "string list" where
  "message_types = [''TEXT'', ''IMAGE'', ''FILE'', ''SYSTEM'']"

definition content_schema :: "string \<Rightarrow> bool" where
  "content_schema content \<longleftrightarrow> 1 \<le> length content \<and> length content \<le> 5000"

definition pagination_schema :: "int \<Rightarrow> int \<Rightarrow> bool" where
  "pagination_schema page limit \<longleftrightarrow> 1 \<le> page \<and> 1 \<le> limit \<and> limit \<le> 100"

definition validated ::
  "bool \<Rightarrow> (string, string) jsmap \<Rightarrow> ((string, string) jsmap \<Rightarrow> chat_state \<Rightarrow> chat_response \<times> chat_state) \<Rightarrow> chat_state \<Rightarrow> chat_response \<times> chat_state" where
  "validated others params handler s =
     (case id_param_schema params of
        Some params' \<Rightarrow> if others then handler params' s else ((400, ErrorBody ''Validation failed''), s)
      | None \<Rightarrow> ((400, ErrorBody ''Validation failed''), s))"

text \<open>The query schema drops \<open>before\<close>.\<close>

fun chat_router :: "chat_host \<Rightarrow> string \<Rightarrow> chat_request \<Rightarrow> chat_state \<Rightarrow> chat_response \<times> chat_state" where
  "chat_router H wallet (RoomRequest groupId) = get_or_create_room H (Some wallet) [(''groupId'', groupId)]"
| "chat_router H wallet (MessagesRequest roomId page limit) =
     validated (pagination_schema page limit) [(''roomId'', roomId)] (\<lambda>ps. get_messages_handler H (Some wallet) ps page limit None)"
| "chat_router H wallet (SendRequest roomId content type metadata) =
     validated (content_schema content \<and> type \<in> set message_types) [(''roomId'', roomId)]
       (\<lambda>ps. send_message H wallet ps content type metadata)"
| "chat_router H wallet (EditRequest messageId content) =
     validated (content_schema content) [(''messageId'', messageId)] (\<lambda>ps. edit_message_handler H wallet ps content)"
| "chat_router H wallet (DeleteRequest messageId) = delete_message_handler H wallet [(''messageId'', messageId)]"
| "chat_router H wallet (ParticipantsRequest roomId) = get_participants H [(''roomId'', roomId)]"
| "chat_router H wallet (ReadRequest roomId) = mark_as_read_handler H wallet [(''roomId'', roomId)]"
| "chat_router H wallet (MuteRequest roomId isMuted) = toggle_mute H wallet [(''roomId'', roomId)] isMuted"
| "chat_router H wallet (NotificationsRequest roomId enabled) = toggle_notifications H wallet [(''roomId'', roomId)] enabled"

section \<open>Runs\<close>

datatype chat_op =
    Connect string "string option" "string option"
  | JoinRoom string string
  | LeaveRoom string string
  | SendMessage string string string "string option" "string option"
  | TypingStart string string
  | TypingStop string string
  | Disconnect string
  | Request string chat_request
  | RemoveParticipant string string
  | Wait nat

definition guarded :: "string \<Rightarrow> string \<Rightarrow> unit chat_method \<Rightarrow> chat_state \<Rightarrow> chat_state" where
  "guarded socket message m s = (case m s of (Inr _, s') \<Rightarrow> s' | (Inl e, s') \<Rightarrow> emit_self socket (SocketError message) s')"

text \<open>\<open>socket.data\<close> of a connected socket; events of others do not occur.\<close>

definition for_socket :: "string \<Rightarrow> (string \<Rightarrow> chat_state \<Rightarrow> chat_state) \<Rightarrow> chat_state \<Rightarrow> chat_state" where
  "for_socket socket handler s = (case js_get (ch_sockets s) socket of None \<Rightarrow> s | Some (userId, w) \<Rightarrow> handler userId s)"

fun chat_step :: "chat_host \<Rightarrow> chat_op \<Rightarrow> chat_state \<Rightarrow> chat_state" where
  "chat_step H (Connect socket walletAddress userId) s =
     (if js_has (ch_sockets s) socket then s
      else case socket_auth H walletAddress userId s of
        (Inl e, s') \<Rightarrow> s'
      | (Inr (u, w), s') \<Rightarrow> snd (handle_connection H socket u w s'))"
| "chat_step H (JoinRoom socket roomId) s =
     for_socket socket (\<lambda>u. guarded socket ''Failed to join room'' (join_room H socket roomId u)) s"
| "chat_step H (LeaveRoom socket roomId) s = for_socket socket (\<lambda>u. leave_room socket roomId) s"
| "chat_step H (SendMessage socket roomId content type metadata) s =
     for_socket socket (\<lambda>u. guarded socket ''Failed to send message'' (handle_message H u roomId content type metadata)) s"
| "chat_step H (TypingStart socket roomId) s = for_socket socket (\<lambda>u. emit_others socket roomId (UserTyping u roomId)) s"
| "chat_step H (TypingStop socket roomId) s = for_socket socket (\<lambda>u. emit_others socket roomId (UserStoppedTyping u roomId)) s"
| "chat_step H (Disconnect socket) s = for_socket socket (\<lambda>u. handle_disconnect socket u) s"
| "chat_step H (Request wallet req) s = snd (chat_router H wallet req s)"
| "chat_step H (RemoveParticipant roomId userId) s = snd (remove_participant H roomId userId s)"
| "chat_step H (Wait d) s = s\<lparr>ch_now := ch_now s + int d\<rparr>"

definition chat_run :: "chat_host \<Rightarrow> chat_op list \<Rightarrow> chat_state \<Rightarrow> chat_state" where
  "chat_run H ops s = fold (chat_step H) ops s"

section \<open>Who listens\<close>

definition member :: "chat_state \<Rightarrow> string \<Rightarrow> string \<Rightarrow> bool" where
  "member s roomId userId \<longleftrightarrow> (\<exists>p \<in> set (ch_participants s). is_participant roomId userId p)"

lemma find_participant_member: "find_participant roomId userId s \<noteq> None \<longleftrightarrow> member s roomId userId"
  by (auto simp: find_participant_def member_def find_None_iff)

lemma member_map:
  "(\<And>p. cp_roomId (f p) = cp_roomId p \<and> cp_userId (f p) = cp_userId p) \<Longrightarrow>
     member (s\<lparr>ch_participants := map (\<lambda>q. if b q then f q else q) (ch_participants s)\<rparr>) r u = member s r u"
  by (auto simp: member_def is_participant_def)

definition listening :: "chat_state \<Rightarrow> string \<times> string \<Rightarrow> bool" where
  "listening s p \<longleftrightarrow> (\<exists>u w. js_get (ch_sockets s) (fst p) = Some (u, w) \<and> (snd p = fst p \<or> member s (snd p) u))"

definition tracked :: "chat_state \<Rightarrow> bool" where
  "tracked s \<longleftrightarrow>
     (\<forall>u sid. sid \<in> set (get_or [] (js_get (ch_userSockets s) u)) \<longleftrightarrow> (\<exists>w. js_get (ch_sockets s) sid = Some (u, w)))
     \<and> (\<forall>u. js_get (ch_userSockets s) u \<noteq> Some [])"

definition chat_ok :: "chat_state \<Rightarrow> bool" where
  "chat_ok s \<longleftrightarrow> distinct (map cm_id (ch_messages s)) \<and> distinct (map cr_groupId (ch_rooms s))
     \<and> (\<forall>p \<in> set (ch_joined s). listening s p) \<and> tracked s"

text \<open>The invariant with sockets known to be connected and pairs known to be participants.\<close>

definition known :: "(string \<times> string) set \<Rightarrow> (string \<times> string) set \<Rightarrow> chat_state \<Rightarrow> bool" where
  "known X K s \<longleftrightarrow> chat_ok s \<and> (\<forall>(sid, u) \<in> X. \<exists>w. js_get (ch_sockets s) sid = Some (u, w)) \<and> (\<forall>(r, u) \<in> K. member s r u)"

abbreviation keeps_known :: "(string \<times> string) set \<Rightarrow> (string \<times> string) set \<Rightarrow> 'a chat_method \<Rightarrow> bool" where
  "keeps_known X K \<equiv> db_keeps (\<lambda>s. s) (known X K)"

lemmas known_defs = known_def chat_ok_def listening_def tracked_def member_def

lemma keeps_call [keeps_rules]: "keeps_known X K f \<Longrightarrow> keeps_known X K (chat_call H f)"
  unfolding db_keeps_def
proof (intro allI impI)
  fix s assume keep: "\<forall>s. known X K s \<longrightarrow> known X K (snd (f s))" and "known X K s"
  then have "known X K (s\<lparr>ch_calls := Suc (ch_calls s)\<rparr>)" by (simp add: known_defs)
  with keep show "known X K (snd (chat_call H f s))" by (simp add: chat_call_def Let_def)
qed

lemma keeps_reads [keeps_rules]: "keeps_known X K (reads H q)"
  unfolding reads_def by (rule keeps_call) (simp add: db_keeps_def)

lemma known_participants:
  assumes "known X K s" and "\<And>p. cp_roomId (f p) = cp_roomId p \<and> cp_userId (f p) = cp_userId p"
  shows "known X K (s\<lparr>ch_participants := map (\<lambda>q. if b q then f q else q) (ch_participants s)\<rparr>)"
  using assms(1) unfolding known_def chat_ok_def listening_def tracked_def member_map [OF assms(2)] by simp

lemma keeps_update_participant [keeps_rules]:
  "(\<And>now p. cp_roomId (f now p) = cp_roomId p \<and> cp_userId (f now p) = cp_userId p) \<Longrightarrow> keeps_known X K (update_participant H r u f)"
  unfolding update_participant_def by (rule keeps_call) (auto simp: db_keeps_def known_participants split: option.split)

lemma keeps_update_message [keeps_rules]:
  assumes "\<And>now m. cm_id (f now m) = cm_id m"
  shows "keeps_known X K (update_message H i f)"
proof -
  have ids: "map (cm_id \<circ> (\<lambda>m. if cm_id m = i then f now m else m)) ms = map cm_id ms" for now ms
    by (simp add: assms)
  show ?thesis unfolding update_message_def
    by (rule keeps_call) (auto simp: db_keeps_def known_defs ids split: option.split)
qed

lemma keeps_create_message [keeps_rules]: "keeps_known X K (create_message H r u c t md)"
  unfolding create_message_def by (rule keeps_call) (auto simp: db_keeps_def known_defs Let_def)

lemma keeps_create_chat_room [keeps_rules]: "keeps_known X K (create_chat_room H g n d)"
  unfolding create_chat_room_def by (rule keeps_call) (auto simp: db_keeps_def known_defs Let_def)

lemma known_emitted: "known X K (s\<lparr>ch_emitted := es\<rparr>) = known X K s"
  by (simp add: known_defs)

lemma keeps_emit_room [keeps_rules]: "keeps_known X K (emit_room r e)"
  by (simp add: db_keeps_def emit_room_def known_emitted)

lemma known_emit_others: "known X K s \<Longrightarrow> known X K (emit_others sid r e s)"
  by (simp add: emit_others_def known_emitted)

lemma known_emit_self: "known X K s \<Longrightarrow> known X K (emit_self sid e s)"
  by (simp add: emit_self_def known_emitted)

lemma member_append: "member (s\<lparr>ch_participants := ch_participants s @ ps\<rparr>) r u \<longleftrightarrow> member s r u \<or> (\<exists>p \<in> set ps. is_participant r u p)"
  by (auto simp: member_def)

lemma keeps_add_participant [keeps_rules]: "keeps_known X K (add_participant H r u)"
proof -
  have more: "known X K s \<Longrightarrow> known X K (s\<lparr>ch_participants := ch_participants s @ [p]\<rparr>)" for s p
    unfolding known_def chat_ok_def listening_def tracked_def member_append by (auto; blast)
  show ?thesis unfolding add_participant_def
    by (intro keeps_rules) (auto simp: db_keeps_def more Let_def split: option.split)
qed

lemma keeps_enter_room [keeps_rules]: "(sid, u) \<in> X \<Longrightarrow> (r, u) \<in> K \<Longrightarrow> keeps_known X K (enter_room sid r u)"
  by (fastforce simp: db_keeps_def enter_room_def known_defs)

lemma keeps_seen_now [keeps_rules]: "keeps_known X K (seen_now H r u)"
  unfolding seen_now_def by (intro keeps_rules) simp

lemma known_mono: "known X K s \<Longrightarrow> X' \<subseteq> X \<Longrightarrow> K' \<subseteq> K \<Longrightarrow> known X' K' s"
  unfolding known_def by blast

lemma keeps_join_each: "(sid, u) \<in> X \<Longrightarrow> (\<lambda>r. (r, u)) ` set rs \<subseteq> K \<Longrightarrow> keeps_known X K (join_each H sid u rs)"
proof (induction rs)
  case Nil
  then show ?case by (simp add: db_keeps_def)
next
  case (Cons r rs)
  then show ?case by (simp, intro keeps_rules) simp_all
qed

text \<open>A method that finds a membership in the tables may rely on it from then on.\<close>

lemma keeps_after_reads:
  assumes "\<And>s. known X K s \<Longrightarrow> \<forall>(r, u) \<in> L (q s). member s r u"
    and "\<And>x. keeps_known X (K \<union> L x) (f x)"
  shows "keeps_known X K (js_then (reads H q) f)"
  unfolding db_keeps_def
proof (intro allI impI)
  fix s assume k: "known X K s"
  let ?s = "s\<lparr>ch_calls := Suc (ch_calls s)\<rparr>"
  have k': "known X K ?s" using k by (simp add: known_defs)
  then have "known X (K \<union> L (q ?s)) ?s" using assms(1) [OF k'] unfolding known_def by blast
  from db_keepsD [OF assms(2) this] have "known X K (snd (f (q ?s) ?s))" using known_mono by blast
  then show "known X K (snd (js_then (reads H q) f s))"
    using k' by (simp add: js_then_def reads_def chat_call_def Let_def)
qed

lemma keeps_require_participant:
  assumes "\<And>p. keeps_known X (insert (r, u) K) (f p)"
  shows "keeps_known X K (js_then (require_participant H r u) f)"
proof -
  let ?found = "\<lambda>x. case x of None \<Rightarrow> js_throw NotParticipant | Some p \<Rightarrow> f p"
  have "js_then (require_participant H r u) f = js_then (reads H (find_participant r u)) ?found"
    by (rule ext) (auto simp: require_participant_def js_then_def js_throw_def js_return_def split: prod.splits sum.splits option.splits)
  moreover have "keeps_known X K (js_then (reads H (find_participant r u)) ?found)"
  proof (rule keeps_after_reads [where L = "\<lambda>x. if x = None then {} else {(r, u)}"])
    show "\<forall>(r', u') \<in> (if find_participant r u s = None then {} else {(r, u)}). member s r' u'" for s
      using find_participant_member [of r u s] by auto
    show "keeps_known X (K \<union> (if x = None then {} else {(r, u)})) (?found x)" for x
      using assms by (cases x) (simp_all add: db_keeps_throw)
  qed
  ultimately show ?thesis by simp
qed

lemma keeps_join_user_rooms: "(sid, u) \<in> X \<Longrightarrow> keeps_known X K (join_user_rooms H sid u)"
  unfolding join_user_rooms_def
proof (intro db_keeps_swallow, rule keeps_after_reads [where L = "\<lambda>rs. (\<lambda>r. (r, u)) ` set rs"])
  show "\<forall>(r, u') \<in> (\<lambda>r. (r, u)) ` set (map cp_roomId (filter (\<lambda>p. cp_userId p = u) (ch_participants s))). member s r u'" for s
    by (auto simp: member_def is_participant_def)
qed (simp add: keeps_join_each)

lemma known_connected:
  assumes "known {} K s" and "\<not> js_has (ch_sockets s) sid"
  shows "known {(sid, u)} K (s\<lparr>ch_sockets := js_set sid (u, w) (ch_sockets s), ch_joined := js_add (sid, sid) (ch_joined s),
           ch_userSockets := js_set u (js_add sid (get_or [] (js_get (ch_userSockets s) u))) (ch_userSockets s)\<rparr>)"
proof -
  have new: "js_get (ch_sockets s) sid = None" using assms(2) by (auto simp: js_has_iff dest: js_get_keyD split: option.splits)
      (metis js_get_keyD js_has_iff not_None_eq)
  have "listening s p \<Longrightarrow> listening (s\<lparr>ch_sockets := js_set sid (u, w) (ch_sockets s), ch_joined := j, ch_userSockets := us\<rparr>) p" for p j us
    using new by (auto simp: listening_def member_def js_simps)
  then show ?thesis using assms(1) new
    by (auto simp: known_def chat_ok_def tracked_def js_simps member_def) (auto simp: listening_def js_simps)
qed

lemma keeps_join_room: "(sid, u) \<in> X \<Longrightarrow> keeps_known X K (join_room H sid r u)"
  unfolding join_room_def by (rule keeps_require_participant, intro keeps_rules) simp_all

lemma keeps_handle_message: "keeps_known X K (handle_message H u r c t md)"
  unfolding handle_message_def by (rule keeps_require_participant, intro keeps_rules)

lemma known_leave: "known X K s \<Longrightarrow> known X K (leave_room sid r s)"
  by (simp add: leave_room_def known_defs)

lemma known_disconnect:
  assumes "known {} {} s" and "js_get (ch_sockets s) sid = Some (u, w)"
  shows "known {} {} (handle_disconnect sid u s)"
proof -
  have mem: "sid \<in> set (get_or [] (js_get (ch_userSockets s) u))" using assms by (auto simp: known_def chat_ok_def tracked_def)
  then obtain sids where sids: "js_get (ch_userSockets s) u = Some sids" "sid \<in> set sids"
    by (cases "js_get (ch_userSockets s) u") simp_all
  have t: "tracked s" using assms(1) by (simp add: known_def chat_ok_def)
  have us: "js_get (ch_userSockets (handle_disconnect sid u s)) v =
      (if v = u then (if js_remove sid sids = [] then None else Some (js_remove sid sids)) else js_get (ch_userSockets s) v)" for v
    using sids(1) by (simp add: handle_disconnect_def js_simps Let_def)
  have so: "js_get (ch_sockets (handle_disconnect sid u s)) x = (if x = sid then None else js_get (ch_sockets s) x)" for x
    by (simp add: handle_disconnect_def js_simps)
  have here: "x \<in> set sids \<longleftrightarrow> (\<exists>w. js_get (ch_sockets s) x = Some (u, w))" for x
    using t sids(1) unfolding tracked_def by (metis get_or_simps(2))
  have "x \<in> set (get_or [] (js_get (ch_userSockets (handle_disconnect sid u s)) v)) \<longleftrightarrow>
      (\<exists>w. js_get (ch_sockets (handle_disconnect sid u s)) x = Some (v, w))" for x v
  proof (cases "v = u")
    case True
    have e: "set (get_or [] (if js_remove sid sids = [] then None else Some (js_remove sid sids))) = set sids - {sid}"
      using set_js_remove [of sid sids] by (cases "js_remove sid sids = []") auto
    show ?thesis unfolding us so using True here [of x] by (simp only: e simp_thms if_True) auto
  next
    case False
    then show ?thesis unfolding us so using t assms(2) by (simp add: tracked_def)
  qed
  moreover have "js_get (ch_userSockets (handle_disconnect sid u s)) v \<noteq> Some []" for v
    unfolding us using t by (auto simp: tracked_def)
  ultimately have "tracked (handle_disconnect sid u s)" by (simp add: tracked_def)
  moreover have "\<forall>p \<in> set (ch_joined (handle_disconnect sid u s)). listening (handle_disconnect sid u s) p"
    using assms(1) by (fastforce simp: known_defs handle_disconnect_def js_simps)
  ultimately show ?thesis using assms(1) by (simp add: known_def chat_ok_def handle_disconnect_def)
qed

lemma keeps_param [keeps_rules]: "keeps_known X K (param ps n)"
  by (auto simp: db_keeps_def param_def split: option.split)

lemma known_or_500: "keeps_known X K m \<Longrightarrow> known X K s \<Longrightarrow> known X K (snd (or_500 t m s))"
  unfolding db_keeps_def or_500_def by (auto split: prod.split sum.split)

lemma known_guarded: "keeps_known X K m \<Longrightarrow> known X K s \<Longrightarrow> known X K (guarded sid t m s)"
  unfolding db_keeps_def guarded_def by (auto split: prod.split sum.split intro!: known_emit_self)

lemma known_router: "known X K s \<Longrightarrow> known X K (snd (chat_router H w req s))"
proof (cases req)
  case (MessagesRequest r p l)
  then show "known X K s \<Longrightarrow> ?thesis" by (simp add: validated_def id_param_schema_def)
next
  case (SendRequest r c t md)
  then show "known X K s \<Longrightarrow> ?thesis" by (simp add: validated_def id_param_schema_def)
next
  case (EditRequest i c)
  then show "known X K s \<Longrightarrow> ?thesis" by (simp add: validated_def id_param_schema_def)
qed (auto simp: get_or_create_room_def delete_message_handler_def delete_message_def get_participants_def mark_as_read_handler_def
    mark_as_read_def toggle_mute_def toggle_notifications_def intro!: known_or_500 keeps_rules)

text \<open>Every operation but the removal of a participant keeps the invariant.\<close>

fun removal :: "chat_op \<Rightarrow> bool" where
  "removal (RemoveParticipant r u) = True"
| "removal _ = False"

lemma chat_ok_known: "chat_ok s = known {} {} s"
  by (simp add: known_def)

lemma keeps_socket_auth: "keeps_known X K (socket_auth H w u)"
  unfolding socket_auth_def by (auto intro!: keeps_rules split: option.split)

lemma chat_step_ok: "chat_ok s \<Longrightarrow> \<not> removal op \<Longrightarrow> chat_ok (chat_step H op s)"
  unfolding chat_ok_known
proof (cases op)
  case (Connect sid w u)
  assume k: "known {} {} s"
  obtain x s' where a: "socket_auth H w u s = (x, s')" by (cases "socket_auth H w u s")
  have k': "known {} {} s'" using db_keepsD [OF keeps_socket_auth k, of H w u] a by simp
  have "ch_sockets s' = ch_sockets s"
    using a by (auto simp: socket_auth_def js_then_def reads_def chat_call_def Let_def split: option.splits if_splits)
  then have "\<not> js_has (ch_sockets s) sid \<Longrightarrow> known {(sid, v)} {} (s'\<lparr>ch_sockets := js_set sid (v, w') (ch_sockets s'),
      ch_joined := js_add (sid, sid) (ch_joined s'),
      ch_userSockets := js_set v (js_add sid (get_or [] (js_get (ch_userSockets s') v))) (ch_userSockets s')\<rparr>)" for v w'
    using known_connected [OF k'] by simp
  from db_keepsD [OF keeps_join_user_rooms this]
  have "\<not> js_has (ch_sockets s) sid \<Longrightarrow> known {(sid, v)} {} (snd (handle_connection H sid v w' s'))" for v w'
    by (simp add: handle_connection_def)
  then show "known {} {} (chat_step H op s)" using Connect k k' a known_mono by (auto split: sum.split) blast
next
  case (JoinRoom sid r)
  assume k: "known {} {} s"
  have "js_get (ch_sockets s) sid = Some (u, w) \<Longrightarrow> known {(sid, u)} {} s" for u w using k by (auto simp: known_def)
  then have "js_get (ch_sockets s) sid = Some (u, w) \<Longrightarrow> known {(sid, u)} {} (guarded sid t (join_room H sid r u) s)" for u w t
    using known_guarded [OF keeps_join_room, of sid u "{(sid, u)}"] by simp
  then show "known {} {} (chat_step H op s)" using JoinRoom k known_mono by (auto simp: for_socket_def split: option.split) blast
qed (auto simp: for_socket_def known_leave known_emit_others known_router known_disconnect
    intro: known_guarded keeps_handle_message split: option.split, simp add: known_defs)

lemma chat_run_ok: "chat_ok s \<Longrightarrow> \<not> list_ex removal ops \<Longrightarrow> chat_ok (chat_run H ops s)"
  unfolding chat_run_def by (induction ops arbitrary: s) (simp_all add: chat_step_ok)

section \<open>What the messages become\<close>

fun announces :: "chat_event \<Rightarrow> bool" where
  "announces (NewMessage m a) = True"
| "announces _ = False"

definition silent :: "(string \<times> chat_event) list \<Rightarrow> (string \<times> chat_event) list \<Rightarrow> bool" where
  "silent es0 es \<longleftrightarrow> (\<exists>new. es = es0 @ new \<and> (\<forall>p \<in> set new. \<not> announces (snd p)))"

text \<open>No message is announced, and with \<open>b\<close> none is touched.\<close>

definition calm :: "bool \<Rightarrow> chat_message list \<Rightarrow> (string \<times> chat_event) list \<Rightarrow> chat_state \<Rightarrow> bool" where
  "calm b ms es s \<longleftrightarrow> (b \<longrightarrow> ch_messages s = ms) \<and> silent es (ch_emitted s)"

abbreviation keeps_calm :: "bool \<Rightarrow> chat_message list \<Rightarrow> (string \<times> chat_event) list \<Rightarrow> 'a chat_method \<Rightarrow> bool" where
  "keeps_calm b ms es \<equiv> db_keeps (\<lambda>s. s) (calm b ms es)"

lemma silent_refl [simp]: "silent es es"
  by (simp add: silent_def)

lemma silent_append: "silent es0 es \<Longrightarrow> (\<forall>p \<in> set new. \<not> announces (snd p)) \<Longrightarrow> silent es0 (es @ new)"
  unfolding silent_def by (metis Un_iff append.assoc set_append)

lemma calm_refl: "calm b (ch_messages s) (ch_emitted s) s"
  by (simp add: calm_def)

lemma calm_drop: "calm b ms (ch_emitted s) s' \<Longrightarrow> (sid, NewMessage m a) \<notin> set (drop (length (ch_emitted s)) (ch_emitted s'))"
  by (force simp: calm_def silent_def)

lemma calm_call [keeps_rules]: "keeps_calm b ms es f \<Longrightarrow> keeps_calm b ms es (chat_call H f)"
  by (simp add: db_keeps_def chat_call_def Let_def calm_def)

lemma calm_reads [keeps_rules]: "keeps_calm b ms es (reads H q)"
  by (simp add: db_keeps_def reads_def chat_call_def Let_def calm_def)

lemma calm_update_participant [keeps_rules]: "keeps_calm b ms es (update_participant H r u f)"
  unfolding update_participant_def by (rule calm_call) (simp add: db_keeps_def calm_def split: option.split)

lemma calm_update_message [keeps_rules]: "keeps_calm False ms es (update_message H i f)"
  unfolding update_message_def by (rule calm_call) (simp add: db_keeps_def calm_def split: option.split)

lemma calm_create_chat_room [keeps_rules]: "keeps_calm b ms es (create_chat_room H g n d)"
  unfolding create_chat_room_def by (rule calm_call) (simp add: db_keeps_def calm_def Let_def)

lemma calm_emit_room [keeps_rules]: "\<not> announces e \<Longrightarrow> keeps_calm b ms es (emit_room r e)"
  by (auto simp: db_keeps_def calm_def emit_room_def intro!: silent_append)

lemma calm_emit_others: "\<not> announces e \<Longrightarrow> calm b ms es s \<Longrightarrow> calm b ms es (emit_others sid r e s)"
  by (auto simp: calm_def emit_others_def intro!: silent_append)

lemma calm_guarded: "keeps_calm b ms es m \<Longrightarrow> calm b ms es s \<Longrightarrow> calm b ms es (guarded sid t m s)"
proof -
  assume k: "keeps_calm b ms es m" and c: "calm b ms es s"
  have "calm b ms es (snd (m s))" using db_keepsD [OF k c] .
  moreover have "calm b ms es s' \<Longrightarrow> calm b ms es (emit_self sid (SocketError t) s')" for s'
    by (simp add: calm_def emit_self_def silent_append)
  ultimately show ?thesis by (cases "m s"; cases "fst (m s)") (simp_all add: guarded_def)
qed

lemma calm_or_500: "keeps_calm b ms es m \<Longrightarrow> calm b ms es s \<Longrightarrow> calm b ms es (snd (or_500 t m s))"
  unfolding db_keeps_def or_500_def by (auto split: prod.split sum.split)

lemma calm_param [keeps_rules]: "keeps_calm b ms es (param ps n)"
  by (auto simp: db_keeps_def param_def split: option.split)

lemma calm_add_participant [keeps_rules]: "keeps_calm b ms es (add_participant H r u)"
  unfolding add_participant_def by (intro keeps_rules) (simp_all add: db_keeps_def calm_def Let_def split: option.split)

lemma calm_enter_room [keeps_rules]: "keeps_calm b ms es (enter_room sid r u)"
  by (simp add: db_keeps_def calm_def enter_room_def)

lemma calm_seen_now [keeps_rules]: "keeps_calm b ms es (seen_now H r u)"
  unfolding seen_now_def by (intro keeps_rules)

lemma calm_join_each [keeps_rules]: "keeps_calm b ms es (join_each H sid u rs)"
proof (induction rs)
  case Nil
  then show ?case by (simp add: db_keeps_def)
next
  case (Cons r rs)
  then show ?case by (simp, intro keeps_rules)
qed

lemma calm_join_user_rooms: "keeps_calm b ms es (join_user_rooms H sid u)"
  unfolding join_user_rooms_def by (intro keeps_rules)

lemma calm_join_room: "keeps_calm b ms es (join_room H sid r u)"
  unfolding join_room_def require_participant_def by (intro keeps_rules)

lemma calm_remove_participant: "keeps_calm b ms es (remove_participant H r u)"
  unfolding remove_participant_def by (intro keeps_rules) (simp_all add: db_keeps_def calm_def split: option.split)

lemma calm_socket_auth: "keeps_calm b ms es (socket_auth H w u)"
  unfolding socket_auth_def by (auto intro!: keeps_rules split: option.split)

lemma calm_router: "(\<And>i. req = DeleteRequest i \<Longrightarrow> \<not> b) \<Longrightarrow> calm b ms es s \<Longrightarrow> calm b ms es (snd (chat_router H w req s))"
proof (cases req)
  case (MessagesRequest r p l)
  then show "calm b ms es s \<Longrightarrow> ?thesis" by (simp add: validated_def id_param_schema_def)
next
  case (SendRequest r c t md)
  then show "calm b ms es s \<Longrightarrow> ?thesis" by (simp add: validated_def id_param_schema_def)
next
  case (EditRequest i c)
  then show "calm b ms es s \<Longrightarrow> ?thesis" by (simp add: validated_def id_param_schema_def)
next
  case (DeleteRequest i)
  assume "\<And>i. req = DeleteRequest i \<Longrightarrow> \<not> b"
  then have "b = False" using DeleteRequest by simp
  then show "calm b ms es s \<Longrightarrow> ?thesis" using DeleteRequest
    by (auto simp: delete_message_handler_def delete_message_def intro!: calm_or_500 keeps_rules)
qed (auto simp: get_or_create_room_def get_participants_def mark_as_read_handler_def
    mark_as_read_def toggle_mute_def toggle_notifications_def intro!: calm_or_500 keeps_rules)

lemma calm_handle_connection:
  assumes "calm b ms es s"
  shows "calm b ms es (snd (handle_connection H sid u w s))"
  unfolding handle_connection_def
  by (rule db_keepsD [OF calm_join_user_rooms]) (use assms in \<open>simp add: calm_def\<close>)

text \<open>All but sending and deleting leave the messages alone; all but sending announce none.\<close>

lemma calm_step:
  assumes "\<And>sid r c t md. op \<noteq> SendMessage sid r c t md" and "\<And>w i. op = Request w (DeleteRequest i) \<Longrightarrow> \<not> b"
    and "calm b ms es s"
  shows "calm b ms es (chat_step H op s)"
proof (cases op)
  case (Connect sid w u)
  obtain x s' where a: "socket_auth H w u s = (x, s')" by (cases "socket_auth H w u s")
  have "calm b ms es s'" using db_keepsD [OF calm_socket_auth assms(3), of H w u] a by simp
  then show ?thesis using Connect assms(3) a calm_handle_connection by (auto split: sum.split)
next
  case (Request w req)
  then show ?thesis using assms(2,3) calm_router [of req b ms es s H w] by simp
qed (use assms(1,3) in \<open>auto simp: for_socket_def calm_emit_others leave_room_def handle_disconnect_def
    calm_guarded calm_join_room db_keepsD [OF calm_remove_participant] split: option.split\<close>, (simp add: calm_def)+)

lemma handle_message_effect:
  assumes "handle_message H u r c t md s = (x, s')"
  shows "(\<exists>e. x = Inl e) \<and> ch_messages s' = ch_messages s \<and> ch_emitted s' = ch_emitted s \<or>
    (\<exists>m. ch_messages s' = ch_messages s @ [m] \<and> ch_emitted s' = ch_emitted s @ map (\<lambda>sid. (sid, NewMessage m u)) (in_room r s)
      \<and> cm_userId m = u \<and> cm_roomId m = r \<and> cm_id m \<notin> cm_id ` set (ch_messages s) \<and> member s r u)"
proof -
  have mem: "find_participant r u (s\<lparr>ch_calls := n\<rparr>) = Some p \<Longrightarrow> member s r u" for n p
    using find_participant_member [of r u "s\<lparr>ch_calls := n\<rparr>"] by (simp add: member_def)
  show ?thesis using assms
    by (auto simp: handle_message_def require_participant_def js_then_def reads_def chat_call_def create_message_def emit_room_def Let_def in_room_def
        split: if_splits option.splits dest!: mem)
qed

definition deleted_at :: "int \<Rightarrow> chat_message \<Rightarrow> chat_message" where
  "deleted_at now m = m\<lparr>cm_deletedAt := Some now, cm_content := ''[Deleted]'', cm_updatedAt := now\<rparr>"

lemma delete_effect:
  "ch_messages (snd (delete_message_handler H w [(''messageId'', i)] s)) = ch_messages s \<or>
   (\<exists>m. find_message i s = Some m \<and> cm_userId m = w \<and>
     ch_messages (snd (delete_message_handler H w [(''messageId'', i)] s)) =
       map (\<lambda>m. if cm_id m = i then deleted_at (ch_now s) m else m) (ch_messages s))"
  by (auto simp: delete_message_handler_def or_500_def param_def delete_message_def update_message_def js_then_def reads_def chat_call_def
      emit_room_def find_message_def Let_def deleted_at_def split: if_splits option.splits)

text \<open>The three things a call can do to the messages.\<close>

lemma messages_cases:
  obtains (same) "ch_messages (chat_step H op s) = ch_messages s"
  | (sent) sid r c t md u w m where "op = SendMessage sid r c t md" "js_get (ch_sockets s) sid = Some (u, w)" "member s r u"
      "cm_userId m = u" "cm_roomId m = r" "cm_id m \<notin> cm_id ` set (ch_messages s)" "ch_messages (chat_step H op s) = ch_messages s @ [m]"
  | (gone) w i m where "op = Request w (DeleteRequest i)" "find_message i s = Some m" "cm_userId m = w"
      "ch_messages (chat_step H op s) = map (\<lambda>m. if cm_id m = i then deleted_at (ch_now s) m else m) (ch_messages s)"
proof (cases "\<exists>sid r c t md. op = SendMessage sid r c t md")
  case True
  then obtain sid r c t md where op: "op = SendMessage sid r c t md" by blast
  show ?thesis
  proof (cases "js_get (ch_sockets s) sid")
    case None
    then show ?thesis using op same by (simp add: for_socket_def)
  next
    case (Some uw)
    obtain u w where uw: "uw = (u, w)" by (cases uw)
    obtain x s' where h: "handle_message H u r c t md s = (x, s')" by (cases "handle_message H u r c t md s")
    have st: "ch_messages (chat_step H op s) = ch_messages s'"
      using op Some uw h by (auto simp: for_socket_def guarded_def emit_self_def split: sum.split)
    from handle_message_effect [OF h] show ?thesis
    proof (elim disjE exE conjE)
      assume "ch_messages s' = ch_messages s"
      then show ?thesis using same st by simp
    next
      fix m assume "ch_messages s' = ch_messages s @ [m]" "cm_userId m = u" "cm_roomId m = r"
        "cm_id m \<notin> cm_id ` set (ch_messages s)" "member s r u"
      then show ?thesis using sent [OF op] Some uw st by simp
    qed
  qed
next
  case False
  show ?thesis
  proof (cases "\<exists>w i. op = Request w (DeleteRequest i)")
    case True
    then obtain w i where op: "op = Request w (DeleteRequest i)" by blast
    show ?thesis using delete_effect [of H w i s] same gone [OF op] op by auto
  next
    case no: False
    have "calm True (ch_messages s) (ch_emitted s) (chat_step H op s)"
      by (rule calm_step) (use False no in \<open>simp_all add: calm_refl\<close>)
    then show ?thesis by (intro same) (simp add: calm_def)
  qed
qed

lemma deleted_at_id [simp]: "cm_id (deleted_at now m) = cm_id m"
  by (simp add: deleted_at_def)

lemma ids_step: "distinct (map cm_id (ch_messages s)) \<Longrightarrow> distinct (map cm_id (ch_messages (chat_step H op s)))"
proof (cases rule: messages_cases [of H op s])
  case (gone w i m)
  have "map (cm_id \<circ> (\<lambda>m. if cm_id m = i then deleted_at (ch_now s) m else m)) (ch_messages s) = map cm_id (ch_messages s)" by simp
  then show "distinct (map cm_id (ch_messages s)) \<Longrightarrow> ?thesis" by (simp only: gone(4) map_map)
qed auto

text \<open>What may have become of a message: nothing, or its author had it deleted.\<close>

definition descends :: "chat_op list \<Rightarrow> chat_message \<Rightarrow> chat_message \<Rightarrow> bool" where
  "descends ops m m' \<longleftrightarrow> m' = m \<or>
     (\<exists>now. m' = deleted_at now m \<and> Request (cm_userId m) (DeleteRequest (cm_id m)) \<in> set ops)"

lemma message_step:
  assumes "distinct (map cm_id (ch_messages s))" and "m \<in> set (ch_messages s)"
  shows "\<exists>m' \<in> set (ch_messages (chat_step H op s)). descends [op] m m'"
proof (cases rule: messages_cases [of H op s])
  case (gone w i m0)
  have m0: "m0 \<in> set (ch_messages s)" "cm_id m0 = i" using find_SomeD [OF gone(2) [symmetric, unfolded find_message_def]] by auto
  show ?thesis
  proof (cases "cm_id m = i")
    case True
    then have "m = m0" using m0 assms by (auto simp: distinct_map dest: inj_onD)
    show ?thesis
      by (rule bexI [of _ "deleted_at (ch_now s) m"]) (use gone True assms(2) \<open>m = m0\<close> in \<open>auto simp: descends_def\<close>)
  next
    case False
    show ?thesis by (rule bexI [of _ m]) (use gone(4) False assms(2) in \<open>auto simp: descends_def\<close>)
  qed
qed (use assms in \<open>auto simp: descends_def\<close>)

lemma descends_trans: "descends ops m m' \<Longrightarrow> descends ops' m' m'' \<Longrightarrow> descends (ops @ ops') m m''"
  by (auto simp: descends_def deleted_at_def)

section \<open>What holds of the chat\<close>

text \<open>
  C25. Over any run of socket events, requests and removals, database failures included, a message keeps its id, room,
  author and content, unless its author asked for its deletion; then only its content, its deletion time and its update
  time differ. Nobody else can touch it, and nothing removes it.
\<close>

theorem chat_messages_kept:
  assumes "distinct (map cm_id (ch_messages s))" and "m \<in> set (ch_messages s)"
  shows "\<exists>m' \<in> set (ch_messages (chat_run H ops s)). descends ops m m'"
  using assms unfolding chat_run_def
proof (induction ops arbitrary: s m)
  case Nil
  then show ?case by (auto simp: descends_def)
next
  case (Cons op ops)
  obtain m1 where m1: "m1 \<in> set (ch_messages (chat_step H op s))" "descends [op] m m1" using message_step [OF Cons.prems] by blast
  then obtain m2 where "m2 \<in> set (ch_messages (fold (chat_step H) ops (chat_step H op s)))" "descends ops m1 m2"
    using Cons.IH ids_step [OF Cons.prems(1)] by blast
  then show ?case using descends_trans [OF m1(2)] by force
qed

text \<open>
  C26. A new message is announced only to sockets whose user is a participant of its room at that moment, and was sent by a
  socket whose user is one; this holds in every state that calls other than the removal of participants can reach.
\<close>

theorem chat_confined:
  assumes "chat_ok s0" and "\<not> list_ex removal ops" and "s = chat_run H ops s0"
    and "(sid, NewMessage m a) \<in> set (drop (length (ch_emitted s)) (ch_emitted (chat_step H op s)))"
  shows "(\<exists>u w. js_get (ch_sockets s) sid = Some (u, w) \<and> (sid = cm_roomId m \<or> member s (cm_roomId m) u))
    \<and> member s (cm_roomId m) (cm_userId m)
    \<and> (\<exists>sid' c t md w. op = SendMessage sid' (cm_roomId m) c t md \<and> js_get (ch_sockets s) sid' = Some (cm_userId m, w))"
proof -
  have ok: "chat_ok s" using chat_run_ok assms(1-3) by blast
  obtain sid' r c t md where op: "op = SendMessage sid' r c t md"
    using assms(4) calm_drop [OF calm_step [OF _ _ calm_refl, where b = False]] by blast
  obtain u w where uw: "js_get (ch_sockets s) sid' = Some (u, w)"
    using assms(4) op by (cases "js_get (ch_sockets s) sid'") (auto simp: for_socket_def)
  obtain x s' where h: "handle_message H u r c t md s = (x, s')" by (cases "handle_message H u r c t md s")
  have em: "ch_emitted (chat_step H op s) = ch_emitted s' @ (if isl x then [(sid', SocketError ''Failed to send message'')] else [])"
    using op uw h by (cases x) (simp_all add: for_socket_def guarded_def emit_self_def)
  from handle_message_effect [OF h] show ?thesis
  proof (elim disjE exE conjE)
    fix e assume "x = Inl e" "ch_emitted s' = ch_emitted s"
    then show ?thesis using assms(4) em by simp
  next
    fix m' assume e: "ch_emitted s' = ch_emitted s @ map (\<lambda>sid. (sid, NewMessage m' u)) (in_room r s)"
      and m': "cm_userId m' = u" "cm_roomId m' = r" "member s r u"
    have "m = m'" "(sid, r) \<in> set (ch_joined s)"
      using assms(4) unfolding em e by (auto simp: in_room_def split: if_splits)
    moreover have "listening s (sid, r)" using ok \<open>(sid, r) \<in> set (ch_joined s)\<close> by (simp add: chat_ok_def)
    ultimately show ?thesis using op uw m' by (auto simp: listening_def)
  qed
qed

text \<open>
  A participant who is removed keeps listening: his socket stays in the room, and gets the messages sent after the
  removal.
\<close>

theorem removed_still_listens:
  assumes "(sid, r) \<in> set (ch_joined s)" and "js_get (ch_sockets s) sid' = Some (u', w)"
    and "fst (handle_message H u' r c t md (snd (remove_participant H r u s))) = Inr ()"
  shows "\<exists>m. cm_roomId m = r \<and>
    (sid, NewMessage m u') \<in> set (ch_emitted (snd (handle_message H u' r c t md (snd (remove_participant H r u s)))))"
proof -
  let ?s = "snd (remove_participant H r u s)"
  have j: "(sid, r) \<in> set (ch_joined ?s)"
    using assms(1) by (auto simp: remove_participant_def js_then_def chat_call_def emit_room_def Let_def split: option.split)
  obtain x s' where h: "handle_message H u' r c t md ?s = (x, s')" by (cases "handle_message H u' r c t md ?s")
  from handle_message_effect [OF h] show ?thesis
  proof (elim disjE exE conjE)
    fix e assume "x = Inl e"
    then show ?thesis using assms(3) h by simp
  next
    fix m assume "ch_emitted s' = ch_emitted ?s @ map (\<lambda>sid. (sid, NewMessage m u')) (in_room r ?s)" "cm_roomId m = r"
    then show ?thesis using h j by (intro exI [of _ m]) (auto simp: in_room_def intro!: image_eqI [of _ _ "(sid, r)"])
  qed
qed

text \<open>Joining the user's rooms changes neither the tables nor the sockets.\<close>

definition same_tables :: "chat_state \<Rightarrow> chat_state \<Rightarrow> bool" where
  "same_tables s0 s \<longleftrightarrow> ch_rooms s = ch_rooms s0 \<and> ch_users s = ch_users s0 \<and> ch_messages s = ch_messages s0
     \<and> ch_sockets s = ch_sockets s0 \<and> (\<forall>r u. member s r u = member s0 r u)"

lemma same_call: "db_keeps (\<lambda>s. s) (same_tables s0) f \<Longrightarrow> db_keeps (\<lambda>s. s) (same_tables s0) (chat_call H f)"
  by (simp add: db_keeps_def chat_call_def Let_def same_tables_def member_def)

lemma same_reads: "db_keeps (\<lambda>s. s) (same_tables s0) (reads H q)"
  unfolding reads_def by (rule same_call) (simp add: db_keeps_def)

lemma same_seen_now: "db_keeps (\<lambda>s. s) (same_tables s0) (seen_now H r u)"
proof -
  have "same_tables s0 s \<Longrightarrow> same_tables s0 (s\<lparr>ch_participants := map (\<lambda>q. if is_participant r u q then q\<lparr>cp_lastSeenAt := t\<rparr> else q) (ch_participants s)\<rparr>)" for s t
    using member_map [where f = "\<lambda>q. q\<lparr>cp_lastSeenAt := t\<rparr>" and b = "is_participant r u" and s = s] by (simp add: same_tables_def)
  then show ?thesis unfolding seen_now_def update_participant_def
    by (intro db_keeps_then same_call) (auto simp: db_keeps_def split: option.split)
qed

lemma same_enter_room: "db_keeps (\<lambda>s. s) (same_tables s0) (enter_room sid r u)"
  by (simp add: db_keeps_def enter_room_def same_tables_def member_def)

lemma same_join_each: "db_keeps (\<lambda>s. s) (same_tables s0) (join_each H sid u rs)"
proof (induction rs)
  case Nil
  then show ?case by (simp add: db_keeps_def)
next
  case (Cons r rs)
  then show ?case by (simp add: db_keeps_then same_enter_room same_seen_now)
qed

lemma same_join_user_rooms: "db_keeps (\<lambda>s. s) (same_tables s0) (join_user_rooms H sid u)"
  unfolding join_user_rooms_def by (intro db_keeps_swallow db_keeps_then same_reads same_join_each)

text \<open>With the database up, a participant's message is stored.\<close>

lemma handle_message_stores:
  assumes "\<And>n. \<not> ho_fails H n" and "member s r u" and "r \<in> cr_id ` set (ch_rooms s)" and "u \<in> set (ch_users s)"
    and "\<And>n. ho_cuid H n \<notin> cm_id ` set (ch_messages s)"
  shows "\<exists>m s'. handle_message H u r c t md s = (Inr (), s') \<and> ch_messages s' = ch_messages s @ [m]
    \<and> cm_userId m = u \<and> cm_content m = c \<and> cm_roomId m = r"
proof -
  obtain p where "find_participant r u (s\<lparr>ch_calls := Suc (ch_calls s)\<rparr>) = Some p"
    using find_participant_member [of r u "s\<lparr>ch_calls := Suc (ch_calls s)\<rparr>"] assms(2) by (auto simp: member_def)
  then show ?thesis using assms(1,3-5)
    by (simp add: handle_message_def require_participant_def js_then_def reads_def chat_call_def create_message_def emit_room_def Let_def)
qed

text \<open>
  The handshake never compares the user id with the wallet: whoever names a wallet that has an account can claim to be
  any participant, and what he sends is stored and announced as that participant's message.
\<close>

theorem chat_impersonation:
  assumes "\<And>n. \<not> ho_fails H n" and "js_get (ch_sockets s) sid = None" and "sid \<noteq> r"
    and "wallet \<in> set (ch_users s)" and "wallet \<noteq> []" and "victim \<in> set (ch_users s)" and "victim \<noteq> []"
    and "member s r victim" and "r \<in> cr_id ` set (ch_rooms s)" and "\<And>n. ho_cuid H n \<notin> cm_id ` set (ch_messages s)"
  shows "\<exists>m. ch_messages (chat_run H [Connect sid (Some wallet) (Some victim), SendMessage sid r content None None] s) = ch_messages s @ [m]
    \<and> cm_userId m = victim \<and> cm_content m = content \<and> cm_roomId m = r"
proof -
  let ?a = "s\<lparr>ch_calls := Suc (ch_calls s)\<rparr>"
  let ?c = "?a\<lparr>ch_sockets := js_set sid (victim, wallet) (ch_sockets ?a), ch_joined := js_add (sid, sid) (ch_joined ?a),
      ch_userSockets := js_set victim (js_add sid (get_or [] (js_get (ch_userSockets ?a) victim))) (ch_userSockets ?a)\<rparr>"
  let ?s1 = "snd (join_user_rooms H sid victim ?c)"
  have auth: "socket_auth H (Some wallet) (Some victim) s = (Inr (victim, wallet), ?a)"
    using assms(1,4,5,7) by (simp add: socket_auth_def js_then_def reads_def chat_call_def Let_def truthy_def)
  have "\<not> js_has (ch_sockets s) sid" using assms(2) by (simp add: js_has_def)
  then have s1: "chat_step H (Connect sid (Some wallet) (Some victim)) s = ?s1" using auth by (simp add: handle_connection_def)
  have "same_tables ?c ?c" by (simp add: same_tables_def)
  then have same: "same_tables ?c ?s1" by (rule db_keepsD [OF same_join_user_rooms])
  then have at: "js_get (ch_sockets ?s1) sid = Some (victim, wallet)" by (simp add: same_tables_def js_simps)
  have "member ?s1 r victim" "r \<in> cr_id ` set (ch_rooms ?s1)" "victim \<in> set (ch_users ?s1)" and ms: "ch_messages ?s1 = ch_messages s"
    using same assms(6,8,9) by (simp_all add: same_tables_def member_def)
  then obtain m s' where "handle_message H victim r content None None ?s1 = (Inr (), s')" "ch_messages s' = ch_messages s @ [m]"
    "cm_userId m = victim" "cm_content m = content" "cm_roomId m = r"
    using handle_message_stores [OF assms(1), of ?s1 r victim content None None] assms(10) by auto
  then show ?thesis using s1 at by (intro exI [of _ m]) (simp add: chat_run_def for_socket_def guarded_def del: chat_step.simps(1))
qed

text \<open>
  Reading a room's messages, sending one and editing one over HTTP never pass validation: the schema asks for a
  parameter \<open>id\<close> that these routes do not have.
\<close>

theorem chat_routes_dead:
  assumes "req = MessagesRequest roomId page limit \<or> req = SendRequest roomId content type metadata \<or> req = EditRequest messageId content"
  shows "chat_router H wallet req s = ((400, ErrorBody ''Validation failed''), s)"
  using assms by (auto simp: validated_def id_param_schema_def)

text \<open>
  Deleting another's message is never answered with the refusal the code has for it: in a room that exists the check for an
  admin throws, and the answer is an internal error. The message stays.
\<close>

theorem foreign_delete_errs:
  assumes "find_message i s = Some m" and "cm_userId m \<noteq> w" and "cm_roomId m \<in> cr_id ` set (ch_rooms s)"
    and "\<And>n. \<not> ho_fails H n"
  shows "fst (chat_router H w (DeleteRequest i) s) = (500, ErrorBody ''Failed to delete message'')
    \<and> ch_messages (snd (chat_router H w (DeleteRequest i) s)) = ch_messages s"
proof -
  obtain r where "find (\<lambda>r. cr_id r = cm_roomId m) (ch_rooms s) = Some r"
    using assms(3) by (cases "find (\<lambda>r. cr_id r = cm_roomId m) (ch_rooms s)") (auto simp: find_None_iff)
  then show ?thesis using assms(1,2,4)
    by (simp add: delete_message_handler_def or_500_def param_def js_then_def reads_def chat_call_def find_message_def Let_def)
qed

text \<open>
  The service's map of a user's sockets holds exactly the connected sockets that claim to be that user, after any run
  without removals.
\<close>

theorem user_sockets_tracked:
  assumes "chat_ok s" and "\<not> list_ex removal ops"
  shows "sid \<in> set (get_or [] (js_get (ch_userSockets (chat_run H ops s)) u))
    \<longleftrightarrow> (\<exists>w. js_get (ch_sockets (chat_run H ops s)) sid = Some (u, w))"
  using chat_run_ok [OF assms, of H] by (simp add: chat_ok_def tracked_def)

text \<open>Every group has at most one chat room, and a deleted message stays out of the history for good.\<close>

theorem one_room_per_group:
  assumes "chat_ok s" and "\<not> list_ex removal ops"
  shows "distinct (map cr_groupId (ch_rooms (chat_run H ops s)))"
  using chat_run_ok [OF assms, of H] by (simp add: chat_ok_def)

lemma descends_deleted: "descends ops m m' \<Longrightarrow> cm_deletedAt m \<noteq> None \<Longrightarrow> cm_deletedAt m' \<noteq> None"
  by (auto simp: descends_def deleted_at_def)

theorem deleted_never_shown:
  assumes "distinct (map cm_id (ch_messages s))" and "m \<in> set (ch_messages s)" and "cm_deletedAt m \<noteq> None"
    and "fst (get_messages H roomId limit before (chat_run H ops s)) = Inr shown"
  shows "cm_id m \<notin> cm_id ` set shown"
proof
  assume "cm_id m \<in> cm_id ` set shown"
  then obtain m1 where m1: "m1 \<in> set shown" "cm_id m1 = cm_id m" by force
  let ?s = "chat_run H ops s"
  have in1: "m1 \<in> set (ch_messages ?s)" "cm_deletedAt m1 = None"
    using assms(4) m1(1)
    by (auto simp: get_messages_def reads_def chat_call_def Let_def split: if_splits dest!: in_set_takeD)
  obtain m2 where m2: "m2 \<in> set (ch_messages ?s)" "descends ops m m2" using chat_messages_kept [OF assms(1,2)] by blast
  have "distinct (map cm_id (ch_messages ?s))"
    using assms(1) unfolding chat_run_def by (induction ops arbitrary: s) (simp_all add: ids_step)
  moreover have "cm_id m2 = cm_id m" using m2(2) by (auto simp: descends_def)
  ultimately have "m1 = m2" using in1(1) m2(1) m1(2) by (metis distinct_map inj_onD)
  then show False using descends_deleted [OF m2(2) assms(3)] in1(2) by simp
qed

section \<open>Examples\<close>

definition demo_chat_host :: chat_host where
  "demo_chat_host = \<lparr>ho_cuid = (\<lambda>n. replicate n CHR ''c''), ho_fails = (\<lambda>_. False)\<rparr>"

definition demo_message :: chat_message where
  "demo_message = \<lparr>cm_id = ''m'', cm_roomId = ''R'', cm_userId = ''GA'', cm_content = ''hello'', cm_type = ''TEXT'', cm_metadata = None,
     cm_isEdited = False, cm_deletedAt = None, cm_createdAt = 0, cm_updatedAt = 0\<rparr>"

definition demo_participant :: "string \<Rightarrow> chat_participant" where
  "demo_participant u = \<lparr>cp_roomId = ''R'', cp_userId = u, cp_lastReadAt = None, cp_lastSeenAt = None, cp_notificationsEnabled = True,
     cp_isMuted = False\<rparr>"

definition demo_chat :: chat_state where
  "demo_chat = \<lparr>ch_users = [''GA'', ''GB'', ''GC''], ch_groups = [''g''], ch_members = [(''g'', ''GA''), (''g'', ''GB'')],
     ch_rooms = [\<lparr>cr_id = ''R'', cr_groupId = ''g'', cr_name = ''chat'', cr_description = None\<rparr>],
     ch_participants = [demo_participant ''GA'', demo_participant ''GB''], ch_messages = [demo_message],
     ch_sockets = [(''s1'', (''GA'', ''GA'')), (''s2'', (''GB'', ''GB''))],
     ch_joined = [(''s1'', ''s1''), (''s1'', ''R''), (''s2'', ''s2''), (''s2'', ''R'')],
     ch_userSockets = [(''GA'', [''s1'']), (''GB'', [''s2''])], ch_roomParticipants = [(''R'', [''GA'', ''GB''])],
     ch_emitted = [], ch_now = 5, ch_calls = 0\<rparr>"

lemma demo_chat_ok: "chat_ok demo_chat"
  by (auto simp: chat_ok_def demo_chat_def demo_message_def demo_participant_def listening_def member_def is_participant_def tracked_def)

theorem chat_messages_kept_witness:
  "\<exists>m' \<in> set (ch_messages (chat_run demo_chat_host [Request ''GB'' (DeleteRequest ''m''), Request ''GA'' (DeleteRequest ''m'')] demo_chat)).
     descends [Request ''GB'' (DeleteRequest ''m''), Request ''GA'' (DeleteRequest ''m'')] demo_message m'"
  by (rule chat_messages_kept) (simp_all add: demo_chat_def)

theorem chat_confined_witness:
  "\<exists>m. (''s2'', NewMessage m ''GA'') \<in> set (ch_emitted (chat_step demo_chat_host (SendMessage ''s1'' ''R'' ''hi'' None None) demo_chat))
    \<and> member demo_chat (cm_roomId m) (cm_userId m)"
proof -
  let ?m = "demo_message\<lparr>cm_id := ''cc'', cm_content := ''hi'', cm_createdAt := 5, cm_updatedAt := 5\<rparr>"
  have e: "(''s2'', NewMessage ?m ''GA'') \<in> set (drop (length (ch_emitted demo_chat))
      (ch_emitted (chat_step demo_chat_host (SendMessage ''s1'' ''R'' ''hi'' None None) demo_chat)))"
    by (simp add: demo_chat_def demo_chat_host_def demo_message_def demo_participant_def for_socket_def guarded_def handle_message_def
        require_participant_def js_then_def reads_def chat_call_def find_participant_def is_participant_def create_message_def emit_room_def
        in_room_def Let_def)
  from chat_confined [OF demo_chat_ok, of "[]" demo_chat demo_chat_host, OF _ _ e] e show ?thesis
    by (intro exI [of _ ?m]) (auto simp: chat_run_def dest: in_set_dropD)
qed

theorem removed_still_listens_witness:
  "\<exists>m. (''s2'', NewMessage m ''GA'') \<in>
     set (ch_emitted (snd (handle_message demo_chat_host ''GA'' ''R'' ''hi'' None None (snd (remove_participant demo_chat_host ''R'' ''GB'' demo_chat)))))"
proof -
  have "fst (handle_message demo_chat_host ''GA'' ''R'' ''hi'' None None (snd (remove_participant demo_chat_host ''R'' ''GB'' demo_chat))) = Inr ()"
    by (simp add: demo_chat_def demo_chat_host_def demo_message_def demo_participant_def handle_message_def remove_participant_def
        require_participant_def js_then_def reads_def chat_call_def find_participant_def is_participant_def create_message_def emit_room_def
        in_room_def Let_def)
  from removed_still_listens [OF _ _ this, of "''s2''" "''s1''"] show ?thesis by (auto simp: demo_chat_def)
qed

theorem chat_impersonation_witness:
  "\<exists>m. ch_messages (chat_run demo_chat_host [Connect ''s3'' (Some ''GC'') (Some ''GA''), SendMessage ''s3'' ''R'' ''send me money'' None None] demo_chat)
      = ch_messages demo_chat @ [m] \<and> cm_userId m = ''GA'' \<and> cm_content m = ''send me money''"
proof -
  have "replicate n CHR ''c'' \<noteq> ''m''" for n by (cases n) simp_all
  then show ?thesis
    using chat_impersonation [of demo_chat_host demo_chat "''s3''" "''R''" "''GC''" "''GA''" "''send me money''"]
    by (fastforce simp: demo_chat_host_def demo_chat_def demo_message_def demo_participant_def member_def is_participant_def)
qed

theorem chat_routes_dead_witness:
  "chat_router demo_chat_host ''GA'' (SendRequest ''R'' ''hi'' ''TEXT'' None) demo_chat = ((400, ErrorBody ''Validation failed''), demo_chat)"
  by (rule chat_routes_dead) blast

theorem foreign_delete_errs_witness:
  "fst (chat_router demo_chat_host ''GB'' (DeleteRequest ''m'') demo_chat) = (500, ErrorBody ''Failed to delete message'')"
  using foreign_delete_errs [of "''m''" demo_chat demo_message "''GB''" demo_chat_host]
  by (simp add: demo_chat_def demo_chat_host_def demo_message_def find_message_def)

theorem user_sockets_tracked_witness:
  "''s1'' \<in> set (get_or [] (js_get (ch_userSockets (chat_run demo_chat_host [Disconnect ''s1''] demo_chat)) ''GA''))
    \<longleftrightarrow> (\<exists>w. js_get (ch_sockets (chat_run demo_chat_host [Disconnect ''s1''] demo_chat)) ''s1'' = Some (''GA'', w))"
  by (rule user_sockets_tracked [OF demo_chat_ok]) simp

theorem one_room_per_group_witness:
  "distinct (map cr_groupId (ch_rooms (chat_run demo_chat_host [Request ''GA'' (RoomRequest ''g'')] demo_chat)))"
  by (rule one_room_per_group [OF demo_chat_ok]) simp

theorem deleted_never_shown_witness:
  "''m'' \<notin> cm_id ` set []"
  using deleted_never_shown [of "demo_chat\<lparr>ch_messages := [demo_message\<lparr>cm_deletedAt := Some 3\<rparr>]\<rparr>" "demo_message\<lparr>cm_deletedAt := Some 3\<rparr>"
      demo_chat_host "''R''" 10 None "[]" "[]"]
  by (simp add: demo_message_def chat_run_def get_messages_def reads_def chat_call_def demo_chat_host_def)

end
