(* ===== verification/Dex.thy ===== *)
theory Dex
  imports JsPrelude
begin

text \<open>
  Trading on the Stellar exchange: \<open>backend/src/services/stellarDEXService.ts\<close> with its routes, \<open>routes/dex.ts\<close>: prices,
  quotes and execution of path payments, liquidity pools.

  Amounts are the strings Horizon uses; \<open>parseFloat\<close> and \<open>toFixed\<close> are functions of the host, \<open>NaN\<close> is \<open>None\<close> and
  numbers are exact. Horizon answers by the number of the call. The state counts the calls and holds the transactions that
  were handed to Horizon.
\<close>

section \<open>Assets\<close>

record asset =
  as_code :: string
  as_issuer :: "string option"

datatype stellar_asset = Native | Issued string string

record path_record =
  pt_destination_amount :: string
  pt_path :: "stellar_asset list"

record swap_tx =
  sx_source :: string
  sx_sequence :: int
  sx_sendAsset :: stellar_asset
  sx_sendAmount :: string
  sx_destination :: string
  sx_destAsset :: stellar_asset
  sx_destMin :: string
  sx_path :: "stellar_asset list"
  sx_timeout :: nat
  sx_signer :: string

datatype pool_operation =
    PoolDeposit string string string "int option" "int option"
  | PoolWithdraw string string string string

record pool_record =
  pl_id :: string
  pl_reserves :: "(string \<times> string) list"
  pl_total_shares :: "string option"
  pl_fee_bp :: "int option"

record dex_host =
  dh_validAsset :: "string \<Rightarrow> string \<Rightarrow> bool"
  dh_parseFloat :: "string \<Rightarrow> rat option"
  dh_toFixed :: "nat \<Rightarrow> rat \<Rightarrow> string"
  dh_orderbook :: "nat \<Rightarrow> stellar_asset \<Rightarrow> stellar_asset \<Rightarrow> string + string list \<times> string list"
  dh_paths :: "nat \<Rightarrow> stellar_asset \<Rightarrow> string \<Rightarrow> stellar_asset \<Rightarrow> string + path_record list"
  dh_account :: "nat \<Rightarrow> string \<Rightarrow> string + int"
  dh_build :: "swap_tx \<Rightarrow> string option"
  dh_submit :: "nat \<Rightarrow> swap_tx \<Rightarrow> string + string"
  dh_pools :: "nat \<Rightarrow> stellar_asset option \<Rightarrow> int \<Rightarrow> string + pool_record list"
  dh_pool :: "nat \<Rightarrow> string \<Rightarrow> string + pool_record"
  dh_keypair :: "string \<Rightarrow> string option"
  dh_xdr :: "string \<Rightarrow> int \<Rightarrow> pool_operation \<Rightarrow> string"

record dex =
  dx_calls :: nat
  dx_submitted :: "swap_tx list"

type_synonym 'a dex_method = "(dex, string, 'a) js_method"

definition horizon :: "(nat \<Rightarrow> string + 'a) \<Rightarrow> 'a dex_method" where
  "horizon answer s = (answer (dx_calls s), s\<lparr>dx_calls := Suc (dx_calls s)\<rparr>)"

text \<open>Without an issuer the code is not looked at.\<close>

definition to_stellar_asset :: "dex_host \<Rightarrow> asset \<Rightarrow> string + stellar_asset" where
  "to_stellar_asset H a =
     (case truthy (as_issuer a) of
        None \<Rightarrow> Inr Native
      | Some issuer \<Rightarrow> if dh_validAsset H (as_code a) issuer then Inr (Issued (as_code a) issuer) else Inl ''Asset is invalid'')"

fun from_stellar_asset :: "stellar_asset \<Rightarrow> asset" where
  "from_stellar_asset Native = \<lparr>as_code = ''XLM'', as_issuer = None\<rparr>"
| "from_stellar_asset (Issued code issuer) = \<lparr>as_code = code, as_issuer = Some issuer\<rparr>"

section \<open>Prices\<close>

record price_feed =
  pf_baseAsset :: asset
  pf_quoteAsset :: asset
  pf_price :: string
  pf_bid :: string
  pf_ask :: string
  pf_spread :: string

text \<open>\<open>x > 0\<close>, false for \<open>NaN\<close>.\<close>

definition positive :: "rat option \<Rightarrow> bool" where
  "positive x \<longleftrightarrow> (case x of None \<Rightarrow> False | Some r \<Rightarrow> 0 < r)"

definition both_sides :: "rat option \<Rightarrow> rat option \<Rightarrow> (rat \<times> rat) option" where
  "both_sides bid ask = (if positive bid \<and> positive ask then Some (the bid, the ask) else None)"

text \<open>\<open>bestAsk || bestBid\<close>: the text \<open>0\<close> is truthy.\<close>

definition mid_price :: "dex_host \<Rightarrow> string \<Rightarrow> string \<Rightarrow> string" where
  "mid_price H bestBid bestAsk =
     (case both_sides (dh_parseFloat H bestBid) (dh_parseFloat H bestAsk) of
        Some (b, a) \<Rightarrow> dh_toFixed H 7 ((b + a) / 2)
      | None \<Rightarrow> if bestAsk \<noteq> [] then bestAsk else bestBid)"

definition spread :: "dex_host \<Rightarrow> string \<Rightarrow> string \<Rightarrow> string" where
  "spread H bestBid bestAsk =
     (case both_sides (dh_parseFloat H bestBid) (dh_parseFloat H bestAsk) of
        Some (b, a) \<Rightarrow> dh_toFixed H 4 ((a - b) / a * 100)
      | None \<Rightarrow> ''0'')"

definition get_price :: "dex_host \<Rightarrow> asset \<Rightarrow> asset \<Rightarrow> price_feed dex_method" where
  "get_price H base quote =
     js_then (js_pure (to_stellar_asset H base)) (\<lambda>b.
       js_then (js_pure (to_stellar_asset H quote)) (\<lambda>q.
         js_then (horizon (\<lambda>n. dh_orderbook H n b q)) (\<lambda>(bids, asks).
           let bestBid = get_or ''0'' (js_at bids 0); bestAsk = get_or ''0'' (js_at asks 0)
           in js_return \<lparr>pf_baseAsset = base, pf_quoteAsset = quote, pf_price = mid_price H bestBid bestAsk, pf_bid = bestBid,
                pf_ask = bestAsk, pf_spread = spread H bestBid bestAsk\<rparr>)))"

text \<open>All prices are asked for; the first failure is the answer.\<close>

primrec get_prices :: "dex_host \<Rightarrow> (asset \<times> asset) list \<Rightarrow> price_feed list dex_method" where
  "get_prices H [] s = (Inr [], s)"
| "get_prices H (p # ps) s =
     (let (x, s1) = get_price H (fst p) (snd p) s; (xs, s2) = get_prices H ps s1
      in ((case x of Inl e \<Rightarrow> Inl e | Inr feed \<Rightarrow> map_sum id ((#) feed) xs), s2))"

section \<open>Quotes\<close>

record swap_quote =
  sq_sourceAsset :: asset
  sq_destAsset :: asset
  sq_sourceAmount :: string
  sq_destAmount :: string
  sq_path :: "asset list"
  sq_priceImpact :: "rat option"
  sq_fee :: string

definition at_least :: "rat option \<Rightarrow> rat option \<Rightarrow> bool" where
  "at_least x y \<longleftrightarrow> (case (x, y) of (Some a, Some b) \<Rightarrow> b \<le> a | _ \<Rightarrow> False)"

fun best_path :: "dex_host \<Rightarrow> path_record \<Rightarrow> path_record list \<Rightarrow> path_record" where
  "best_path H a [] = a"
| "best_path H a (b # bs) =
     best_path H (if at_least (dh_parseFloat H (pt_destination_amount a)) (dh_parseFloat H (pt_destination_amount b)) then a else b) bs"

definition price_impact :: "dex_host \<Rightarrow> string \<Rightarrow> string \<Rightarrow> string \<Rightarrow> rat option" where
  "price_impact H sourceAmount price destination_amount =
     (case (dh_parseFloat H sourceAmount, dh_parseFloat H price, dh_parseFloat H destination_amount) of
        (Some x, Some p, d) \<Rightarrow>
          if 0 < x * p then map_option (\<lambda>actual. \<bar>(x * p - actual) / (x * p)\<bar> * 100) d else Some 0
      | _ \<Rightarrow> Some 0)"

text \<open>\<open>parseFloat(priceImpact.toFixed(4))\<close>; the text of \<open>NaN\<close> parses to \<open>NaN\<close>.\<close>

definition rounded_impact :: "dex_host \<Rightarrow> rat option \<Rightarrow> rat option" where
  "rounded_impact H x = Option.bind x (\<lambda>r. dh_parseFloat H (dh_toFixed H 4 r))"

definition get_swap_quote :: "dex_host \<Rightarrow> asset \<Rightarrow> asset \<Rightarrow> string \<Rightarrow> swap_quote dex_method" where
  "get_swap_quote H sourceAsset destAsset sourceAmount =
     js_then (js_pure (to_stellar_asset H sourceAsset)) (\<lambda>src.
       js_then (js_pure (to_stellar_asset H destAsset)) (\<lambda>dst.
         js_then (horizon (\<lambda>n. dh_paths H n src sourceAmount dst)) (\<lambda>records.
           case records of
             [] \<Rightarrow> js_throw (''No swap path found from '' @ as_code sourceAsset @ '' to '' @ as_code destAsset)
           | r # rs \<Rightarrow>
               (let best = best_path H r rs
                in (\<lambda>s. let (x, s') = get_price H sourceAsset destAsset s;
                            impact = (case x of Inl e \<Rightarrow> Some 0
                                      | Inr feed \<Rightarrow> price_impact H sourceAmount (pf_price feed) (pt_destination_amount best))
                        in (Inr \<lparr>sq_sourceAsset = sourceAsset, sq_destAsset = destAsset, sq_sourceAmount = sourceAmount,
                              sq_destAmount = pt_destination_amount best, sq_path = map from_stellar_asset (pt_path best),
                              sq_priceImpact = rounded_impact H impact, sq_fee = ''0.00001''\<rparr>, s'))))))"

section \<open>Execution\<close>

datatype swap_status = SwapSuccess | SwapFailed

record swap_result =
  sr_txHash :: string
  sr_sourceAmount :: string
  sr_destAmount :: string
  sr_status :: swap_status

text \<open>The transaction is handed to Horizon, which accepts it with its hash or fails.\<close>

definition submit_swap :: "dex_host \<Rightarrow> swap_tx \<Rightarrow> string dex_method" where
  "submit_swap H tx s = horizon (\<lambda>n. dh_submit H n tx) (s\<lparr>dx_submitted := dx_submitted s @ [tx]\<rparr>)"

definition settle_swap :: "dex_host \<Rightarrow> swap_tx \<Rightarrow> string \<Rightarrow> string \<Rightarrow> swap_result dex_method" where
  "settle_swap H tx sourceAmount estimate s =
     (case submit_swap H tx s of
        (Inr hash, s') \<Rightarrow> (Inr \<lparr>sr_txHash = hash, sr_sourceAmount = sourceAmount, sr_destAmount = estimate, sr_status = SwapSuccess\<rparr>, s')
      | (Inl e, s') \<Rightarrow> (Inr \<lparr>sr_txHash = [], sr_sourceAmount = sourceAmount, sr_destAmount = ''0'', sr_status = SwapFailed\<rparr>, s'))"

text \<open>The hops of a path become assets again, which throws at one that is not valid.\<close>

definition path_hops :: "dex_host \<Rightarrow> stellar_asset list \<Rightarrow> string + stellar_asset list" where
  "path_hops H hops =
     (if list_all (\<lambda>a. case a of Native \<Rightarrow> True | Issued code issuer \<Rightarrow> dh_validAsset H code issuer) hops then Inr hops
      else Inl ''Asset is invalid'')"

text \<open>Building checks the amounts and the receiver: \<open>dh_build\<close> gives the error it throws, if it does.\<close>

definition build_swap :: "dex_host \<Rightarrow> swap_tx \<Rightarrow> string + swap_tx" where
  "build_swap H tx = (case dh_build H tx of None \<Rightarrow> Inr tx | Some e \<Rightarrow> Inl e)"

definition execute_swap :: "dex_host \<Rightarrow> string \<Rightarrow> asset \<Rightarrow> asset \<Rightarrow> string \<Rightarrow> string \<Rightarrow> string \<Rightarrow> swap_result dex_method" where
  "execute_swap H publicKey sourceAsset destAsset sourceAmount minDestAmount destAccount =
     js_then (js_pure (to_stellar_asset H sourceAsset)) (\<lambda>src.
       js_then (js_pure (to_stellar_asset H destAsset)) (\<lambda>dst.
         js_then (horizon (\<lambda>n. dh_paths H n src sourceAmount dst)) (\<lambda>records.
           case records of
             [] \<Rightarrow> js_throw ''No swap path available''
           | best # rest \<Rightarrow>
               js_then (js_pure (path_hops H (pt_path best))) (\<lambda>intermediatePath.
                 js_then (horizon (\<lambda>n. dh_account H n publicKey)) (\<lambda>sequence.
                   js_then (js_pure (build_swap H
                     \<lparr>sx_source = publicKey, sx_sequence = sequence + 1, sx_sendAsset = src, sx_sendAmount = sourceAmount,
                      sx_destination = destAccount, sx_destAsset = dst, sx_destMin = minDestAmount, sx_path = intermediatePath,
                      sx_timeout = 30, sx_signer = publicKey\<rparr>)) (\<lambda>tx.
                     settle_swap H tx sourceAmount (pt_destination_amount best)))))))"

section \<open>Liquidity pools\<close>

record pool_asset =
  pa_code :: "string option"
  pa_issuer :: "string option"

record liquidity_pool =
  lp_id :: string
  lp_assetA :: pool_asset
  lp_assetB :: pool_asset
  lp_reserveA :: string
  lp_reserveB :: string
  lp_totalShares :: string
  lp_fee :: int

definition xlm :: pool_asset where
  "xlm = \<lparr>pa_code = Some ''XLM'', pa_issuer = None\<rparr>"

definition split_asset :: "string \<Rightarrow> pool_asset" where
  "split_asset raw = (let parts = js_split CHR '':'' raw in \<lparr>pa_code = js_at parts 0, pa_issuer = js_at parts 1\<rparr>)"

text \<open>The list leaves the asset of a missing reserve \<open>undefined\<close>, a single pool takes it for XLM.\<close>

definition listed_asset :: "(string \<times> string) option \<Rightarrow> pool_asset" where
  "listed_asset reserve =
     (case reserve of
        None \<Rightarrow> \<lparr>pa_code = None, pa_issuer = None\<rparr>
      | Some (a, amount) \<Rightarrow> if a = ''native'' then xlm else split_asset a)"

definition parse_asset :: "(string \<times> string) option \<Rightarrow> pool_asset" where
  "parse_asset reserve =
     (case Option.bind (map_option fst reserve) (\<lambda>a. truthy (Some a)) of
        None \<Rightarrow> xlm
      | Some a \<Rightarrow> if a = ''native'' then xlm else split_asset a)"

definition dex_pool_view :: "((string \<times> string) option \<Rightarrow> pool_asset) \<Rightarrow> pool_record \<Rightarrow> liquidity_pool" where
  "dex_pool_view reader p =
     (let reserveA = js_at (pl_reserves p) 0; reserveB = js_at (pl_reserves p) 1
      in \<lparr>lp_id = pl_id p, lp_assetA = reader reserveA, lp_assetB = reader reserveB,
          lp_reserveA = get_or ''0'' (map_option snd reserveA), lp_reserveB = get_or ''0'' (map_option snd reserveB),
          lp_totalShares = get_or ''0'' (pl_total_shares p), lp_fee = get_or 30 (pl_fee_bp p)\<rparr>)"

definition get_liquidity_pools :: "dex_host \<Rightarrow> asset option \<Rightarrow> int \<Rightarrow> liquidity_pool list dex_method" where
  "get_liquidity_pools H assetFilter limit =
     js_then (case assetFilter of None \<Rightarrow> js_return None | Some a \<Rightarrow> js_pure (map_sum id Some (to_stellar_asset H a))) (\<lambda>flt.
       js_then (horizon (\<lambda>n. dh_pools H n flt limit)) (\<lambda>records. js_return (map (dex_pool_view listed_asset) records)))"

definition get_liquidity_pool :: "dex_host \<Rightarrow> string \<Rightarrow> liquidity_pool dex_method" where
  "get_liquidity_pool H poolId = js_then (horizon (\<lambda>n. dh_pool H n poolId)) (\<lambda>p. js_return (dex_pool_view parse_asset p))"

text \<open>\<open>Math.round(parseFloat(price) * 10_000_000)\<close>.\<close>

definition price_numerator :: "dex_host \<Rightarrow> string \<Rightarrow> int option" where
  "price_numerator H price = map_option (\<lambda>x. \<lfloor>x * 10000000 + 1 / 2\<rfloor>) (dh_parseFloat H price)"

definition build_xdr :: "dex_host \<Rightarrow> string \<Rightarrow> pool_operation \<Rightarrow> string dex_method" where
  "build_xdr H accountId operation =
     js_then (horizon (\<lambda>n. dh_account H n accountId)) (\<lambda>sequence. js_return (dh_xdr H accountId (sequence + 1) operation))"

definition build_liquidity_deposit_xdr ::
  "dex_host \<Rightarrow> string \<Rightarrow> string \<Rightarrow> string \<Rightarrow> string \<Rightarrow> string \<Rightarrow> string \<Rightarrow> string dex_method" where
  "build_liquidity_deposit_xdr H accountId poolId maxAmountA maxAmountB minPrice maxPrice =
     build_xdr H accountId (PoolDeposit poolId maxAmountA maxAmountB (price_numerator H minPrice) (price_numerator H maxPrice))"

definition build_liquidity_withdraw_xdr :: "dex_host \<Rightarrow> string \<Rightarrow> string \<Rightarrow> string \<Rightarrow> string \<Rightarrow> string \<Rightarrow> string dex_method" where
  "build_liquidity_withdraw_xdr H accountId poolId amount minAmountA minAmountB =
     build_xdr H accountId (PoolWithdraw poolId amount minAmountA minAmountB)"

section \<open>Routes\<close>

datatype dex_body =
    FeedBody price_feed
  | FeedsBody "price_feed list"
  | QuoteBody swap_quote
  | SwapBody swap_result
  | PoolsBody "liquidity_pool list"
  | PoolBody liquidity_pool
  | XdrBody string
  | ErrorText string

type_synonym dex_reply = "nat \<times> dex_body"

definition answer :: "nat \<Rightarrow> ('a \<Rightarrow> dex_body) \<Rightarrow> 'a dex_method \<Rightarrow> dex \<Rightarrow> dex_reply \<times> dex" where
  "answer failure body m s = (case m s of (Inr r, s') \<Rightarrow> ((200, body r), s') | (Inl e, s') \<Rightarrow> ((failure, ErrorText e), s'))"

definition refuse :: "string \<Rightarrow> dex \<Rightarrow> dex_reply \<times> dex" where
  "refuse message s = ((400, ErrorText message), s)"

text \<open>\<open>!a || !b || ...\<close> on strings.\<close>

definition all_given :: "string option list \<Rightarrow> bool" where
  "all_given xs \<longleftrightarrow> list_all (\<lambda>x. truthy x \<noteq> None) xs"

definition asset_from :: "string option \<Rightarrow> string option \<Rightarrow> asset" where
  "asset_from code issuer = \<lparr>as_code = get_or [] code, as_issuer = truthy issuer\<rparr>"

definition price_route ::
  "dex_host \<Rightarrow> string option \<Rightarrow> string option \<Rightarrow> string option \<Rightarrow> string option \<Rightarrow> dex \<Rightarrow> dex_reply \<times> dex" where
  "price_route H baseCode baseIssuer quoteCode quoteIssuer =
     (if \<not> all_given [baseCode, quoteCode] then refuse ''baseCode and quoteCode required''
      else answer 500 FeedBody (get_price H (asset_from baseCode baseIssuer) (asset_from quoteCode quoteIssuer)))"

definition prices_route :: "dex_host \<Rightarrow> (asset \<times> asset) list option \<Rightarrow> dex \<Rightarrow> dex_reply \<times> dex" where
  "prices_route H pairs =
     (case pairs of
        Some (p # ps) \<Rightarrow> answer 500 FeedsBody (get_prices H (p # ps))
      | _ \<Rightarrow> refuse ''pairs array required'')"

definition quote_route :: "dex_host \<Rightarrow> asset option \<Rightarrow> asset option \<Rightarrow> string option \<Rightarrow> dex \<Rightarrow> dex_reply \<times> dex" where
  "quote_route H sourceAsset destAsset sourceAmount =
     (case (sourceAsset, destAsset, truthy sourceAmount) of
        (Some src, Some dst, Some amount) \<Rightarrow> answer 500 QuoteBody (get_swap_quote H src dst amount)
      | _ \<Rightarrow> refuse ''sourceAsset, destAsset, sourceAmount required'')"

record swap_request =
  rq_secretKey :: "string option"
  rq_sourceAsset :: "asset option"
  rq_destAsset :: "asset option"
  rq_sourceAmount :: "string option"
  rq_minDestAmount :: "string option"
  rq_destAccount :: "string option"

definition execute_route :: "dex_host \<Rightarrow> swap_request \<Rightarrow> dex \<Rightarrow> dex_reply \<times> dex" where
  "execute_route H r =
     (case (truthy (rq_secretKey r), rq_sourceAsset r, rq_destAsset r, truthy (rq_sourceAmount r), truthy (rq_minDestAmount r)) of
        (Some secretKey, Some src, Some dst, Some amount, Some minAmount) \<Rightarrow>
          (case dh_keypair H secretKey of
             None \<Rightarrow> refuse ''Invalid secret key''
           | Some publicKey \<Rightarrow> answer 400 SwapBody
               (execute_swap H publicKey src dst amount minAmount (get_or publicKey (rq_destAccount r))))
      | _ \<Rightarrow> refuse ''secretKey, sourceAsset, destAsset, sourceAmount, minDestAmount required'')"

text \<open>\<open>Number(limit) || 20\<close> is computed by the caller.\<close>

definition pools_route :: "dex_host \<Rightarrow> string option \<Rightarrow> string option \<Rightarrow> int \<Rightarrow> dex \<Rightarrow> dex_reply \<times> dex" where
  "pools_route H assetCode assetIssuer limit =
     answer 500 PoolsBody (get_liquidity_pools H (map_option (\<lambda>c. asset_from (Some c) assetIssuer) (truthy assetCode)) limit)"

definition pool_route :: "dex_host \<Rightarrow> string \<Rightarrow> dex \<Rightarrow> dex_reply \<times> dex" where
  "pool_route H poolId = answer 500 PoolBody (get_liquidity_pool H poolId)"

fun deposit_route :: "dex_host \<Rightarrow> string option list \<Rightarrow> dex \<Rightarrow> dex_reply \<times> dex" where
  "deposit_route H [accountId, poolId, maxAmountA, maxAmountB, minPrice, maxPrice] =
     (if all_given [accountId, poolId, maxAmountA, maxAmountB, minPrice, maxPrice]
      then answer 500 XdrBody
        (build_liquidity_deposit_xdr H (the accountId) (the poolId) (the maxAmountA) (the maxAmountB) (the minPrice) (the maxPrice))
      else refuse ''accountId, poolId, maxAmountA, maxAmountB, minPrice, maxPrice required'')"
| "deposit_route H _ = refuse ''accountId, poolId, maxAmountA, maxAmountB, minPrice, maxPrice required''"

fun withdraw_route :: "dex_host \<Rightarrow> string option list \<Rightarrow> dex \<Rightarrow> dex_reply \<times> dex" where
  "withdraw_route H [accountId, poolId, amount, minAmountA, minAmountB] =
     (if all_given [accountId, poolId, amount, minAmountA, minAmountB]
      then answer 500 XdrBody
        (build_liquidity_withdraw_xdr H (the accountId) (the poolId) (the amount) (the minAmountA) (the minAmountB))
      else refuse ''accountId, poolId, amount, minAmountA, minAmountB required'')"
| "withdraw_route H _ = refuse ''accountId, poolId, amount, minAmountA, minAmountB required''"

section \<open>Lemmas\<close>

lemma best_path_in: "best_path H a bs \<in> insert a (set bs)"
proof (induction bs arbitrary: a)
  case (Cons b bs)
  show ?case
    using Cons [of "if at_least (dh_parseFloat H (pt_destination_amount a)) (dh_parseFloat H (pt_destination_amount b)) then a else b"]
    by (simp only: best_path.simps set_simps) (metis insert_iff)
qed simp

lemma best_path_max:
  assumes "\<forall>r \<in> insert a (set bs). dh_parseFloat H (pt_destination_amount r) \<noteq> None"
  shows "\<forall>r \<in> insert a (set bs). at_least (dh_parseFloat H (pt_destination_amount (best_path H a bs))) (dh_parseFloat H (pt_destination_amount r))"
  using assms
proof (induction bs arbitrary: a)
  case Nil
  then show ?case by (auto simp: at_least_def)
next
  case (Cons b bs)
  let ?v = "\<lambda>r. dh_parseFloat H (pt_destination_amount r)"
  let ?c = "if at_least (?v a) (?v b) then a else b"
  have all: "\<forall>r \<in> insert ?c (set bs). at_least (?v (best_path H ?c bs)) (?v r)" using Cons by simp
  have "at_least (?v ?c) (?v a)" "at_least (?v ?c) (?v b)" using Cons.prems by (auto simp: at_least_def)
  moreover have "at_least (?v x) (?v y) \<Longrightarrow> at_least (?v y) (?v z) \<Longrightarrow> at_least (?v x) (?v z)" for x y z
    by (auto simp: at_least_def split: option.splits)
  ultimately show ?case using all by (simp only: best_path.simps set_simps) blast
qed

lemma get_price_submits: "dx_submitted (snd (get_price H b q s)) = dx_submitted s"
  unfolding get_price_def
  by (intro js_then_frame) (simp_all add: horizon_def Let_def split_beta)

section \<open>What holds of trading\<close>

text \<open>
  A quote names one of Horizon's paths with its amount, and when the amounts are numbers no other path pays more.
  Nothing is submitted.
\<close>

theorem quote_best_path:
  assumes "get_swap_quote H src dst amount s = (Inr q, s')"
  shows "dx_submitted s' = dx_submitted s \<and> (\<exists>a b records r. to_stellar_asset H src = Inr a \<and> to_stellar_asset H dst = Inr b
    \<and> dh_paths H (dx_calls s) a amount b = Inr records \<and> r \<in> set records
    \<and> sq_destAmount q = pt_destination_amount r \<and> sq_path q = map from_stellar_asset (pt_path r)
    \<and> ((\<forall>r' \<in> set records. dh_parseFloat H (pt_destination_amount r') \<noteq> None) \<longrightarrow>
         (\<forall>r' \<in> set records. at_least (dh_parseFloat H (sq_destAmount q)) (dh_parseFloat H (pt_destination_amount r')))))"
proof -
  obtain a b records where ab: "to_stellar_asset H src = Inr a" "to_stellar_asset H dst = Inr b"
      "dh_paths H (dx_calls s) a amount b = Inr records"
    using assms by (auto simp: get_swap_quote_def js_then_def horizon_def split: sum.splits prod.splits)
  then obtain r rs where rec: "records = r # rs"
    using assms by (cases records) (auto simp: get_swap_quote_def js_then_def horizon_def)
  let ?best = "best_path H r rs"
  have q: "sq_destAmount q = pt_destination_amount ?best" "sq_path q = map from_stellar_asset (pt_path ?best)"
      "s' = snd (get_price H src dst (s\<lparr>dx_calls := Suc (dx_calls s)\<rparr>))"
    using assms ab rec by (auto simp: get_swap_quote_def js_then_def horizon_def Let_def split: prod.splits)
  show ?thesis
    using ab rec q best_path_in [of H r rs] best_path_max [of r rs H] get_price_submits
    by (intro conjI exI [of _ a] exI [of _ b] exI [of _ records] exI [of _ ?best]) simp_all
qed

lemma swap_outcome:
  assumes "execute_swap H key src dst amount minAmount account s = (x, s')"
  shows "(\<exists>e. x = Inl e) \<and> dx_submitted s' = dx_submitted s \<or> (\<exists>tx n r. dx_submitted s' = dx_submitted s @ [tx] \<and> sx_signer tx = key \<and> sx_sendAmount tx = amount \<and> sx_destMin tx = minAmount
        \<and> sx_destination tx = account \<and> to_stellar_asset H src = Inr (sx_sendAsset tx) \<and> to_stellar_asset H dst = Inr (sx_destAsset tx)
        \<and> x = Inr r \<and> (\<exists>p ps. dh_paths H (dx_calls s) (sx_sendAsset tx) amount (sx_destAsset tx) = Inr (p # ps) \<and> sx_path tx = pt_path p
            \<and> (if sr_status r = SwapSuccess then dh_submit H n tx = Inr (sr_txHash r) \<and> sr_destAmount r = pt_destination_amount p
               else \<exists>e. dh_submit H n tx = Inl e)))"
  using assms
  by (auto simp: execute_swap_def js_then_def horizon_def settle_swap_def submit_swap_def path_hops_def build_swap_def
      split: sum.splits list.splits if_splits option.splits)

text \<open>
  C29. Executing a swap hands Horizon at most one transaction: the assets, amount, minimum and receiver asked for, signed by
  the given key, along the first path Horizon listed. Success is reported exactly when Horizon accepted that transaction, with
  its hash; the amount reported is the path's estimate.
\<close>

theorem swap_submits_once:
  assumes "execute_swap H key src dst amount minAmount account s = (x, s')"
  shows "(\<exists>e. x = Inl e) \<and> dx_submitted s' = dx_submitted s \<or> (\<exists>tx n r. dx_submitted s' = dx_submitted s @ [tx] \<and> sx_signer tx = key \<and> sx_sendAmount tx = amount \<and> sx_destMin tx = minAmount
        \<and> sx_destination tx = account \<and> to_stellar_asset H src = Inr (sx_sendAsset tx) \<and> to_stellar_asset H dst = Inr (sx_destAsset tx)
        \<and> x = Inr r \<and> (\<exists>p ps. dh_paths H (dx_calls s) (sx_sendAsset tx) amount (sx_destAsset tx) = Inr (p # ps) \<and> sx_path tx = pt_path p
            \<and> (if sr_status r = SwapSuccess then dh_submit H n tx = Inr (sr_txHash r) \<and> sr_destAmount r = pt_destination_amount p
               else \<exists>e. dh_submit H n tx = Inl e)))"
  using swap_outcome [OF assms] .

text \<open>
  The swap runs on the first path, whatever the quote chose: with a worse path listed first, the executed path and the
  reported amount are not the ones quoted a moment before.
\<close>

theorem executed_is_not_quoted:
  assumes "to_stellar_asset H src = Inr a" and "to_stellar_asset H dst = Inr b"
    and "\<And>n. dh_paths H n a amount b = Inr [worse, better]"
    and "dh_parseFloat H (pt_destination_amount worse) = Some v" and "dh_parseFloat H (pt_destination_amount better) = Some w" and "v < w"
    and "\<And>n. dh_account H n key = Inr sequence" and "\<And>n tx. dh_submit H n tx = Inr hash"
    and "path_hops H (pt_path worse) = Inr hops" and "\<And>tx. dh_build H tx = None"
  shows "(\<exists>q. fst (get_swap_quote H src dst amount s) = Inr q \<and> sq_destAmount q = pt_destination_amount better)
    \<and> (\<exists>r. fst (execute_swap H key src dst amount minAmount account s') = Inr r \<and> sr_status r = SwapSuccess
        \<and> sr_destAmount r = pt_destination_amount worse)"
  using assms
  by (auto simp: get_swap_quote_def execute_swap_def js_then_def horizon_def settle_swap_def submit_swap_def at_least_def Let_def build_swap_def
      split: prod.splits)

text \<open>A swap that Horizon rejects is answered with status 200, like one that went through.\<close>

theorem rejected_swap_answered_ok:
  assumes "dh_keypair H secret = Some key" and "secret \<noteq> []" and "amount \<noteq> []" and "minAmount \<noteq> []"
    and "to_stellar_asset H src = Inr a" and "to_stellar_asset H dst = Inr b" and "\<And>n. dh_paths H n a amount b = Inr (p # ps)"
    and "\<And>n. dh_account H n key = Inr sequence" and "\<And>n tx. dh_submit H n tx = Inl e"
    and "path_hops H (pt_path p) = Inr hops" and "\<And>tx. dh_build H tx = None"
  shows "fst (execute_route H \<lparr>rq_secretKey = Some secret, rq_sourceAsset = Some src, rq_destAsset = Some dst,
       rq_sourceAmount = Some amount, rq_minDestAmount = Some minAmount, rq_destAccount = None\<rparr> s)
    = (200, SwapBody \<lparr>sr_txHash = [], sr_sourceAmount = amount, sr_destAmount = ''0'', sr_status = SwapFailed\<rparr>)"
  using assms
  by (simp add: execute_route_def answer_def execute_swap_def js_then_def horizon_def settle_swap_def submit_swap_def truthy_def build_swap_def)

text \<open>
  An asset without issuer is taken for XLM, whatever its code: a request to sell a token that forgets the issuer sells XLM.
\<close>

theorem codeless_swap_sells_xlm:
  assumes "truthy (as_issuer src) = None" and "execute_swap H key src dst amount minAmount account s = (Inr r, s')"
  shows "\<exists>tx. dx_submitted s' = dx_submitted s @ [tx] \<and> sx_sendAsset tx = Native"
proof -
  have "to_stellar_asset H src = Inr Native" using assms(1) by (simp add: to_stellar_asset_def)
  then show ?thesis using swap_outcome [OF assms(2)] by auto
qed

text \<open>
  With sell offers missing the price of the best bid is never used: the default \<open>'0'\<close> for the ask is a truthy text, so that the
  price is 0.
\<close>

theorem price_zero_without_asks:
  assumes "to_stellar_asset H base = Inr b" and "to_stellar_asset H quote = Inr q" and "dh_parseFloat H ''0'' = Some 0"
    and "dh_orderbook H (dx_calls s) b q = Inr (bids, [])"
  shows "\<exists>feed. fst (get_price H base quote s) = Inr feed \<and> pf_price feed = ''0'' \<and> pf_bid feed = get_or ''0'' (js_at bids 0)"
  using assms
  by (simp add: get_price_def js_then_def horizon_def Let_def mid_price_def both_sides_def positive_def js_at_def)

text \<open>With bid and ask in order, the price printed lies between them, and the spread printed between 0 and 100 percent.\<close>

theorem price_between_offers:
  assumes "dh_parseFloat H bestBid = Some b" and "dh_parseFloat H bestAsk = Some a" and "0 < b" and "b \<le> a"
  shows "(\<exists>x. mid_price H bestBid bestAsk = dh_toFixed H 7 x \<and> b \<le> x \<and> x \<le> a)
    \<and> (\<exists>y. spread H bestBid bestAsk = dh_toFixed H 4 y \<and> 0 \<le> y \<and> y < 100)"
proof -
  have a: "0 < a" using assms(3,4) by simp
  have "0 \<le> (a - b) / a * 100" "(a - b) / a * 100 < 100" using assms(3,4) a by (simp_all add: field_simps)
  moreover have "mid_price H bestBid bestAsk = dh_toFixed H 7 ((b + a) / 2)"
    "spread H bestBid bestAsk = dh_toFixed H 4 ((a - b) / a * 100)"
    using assms a by (simp_all add: mid_price_def spread_def both_sides_def positive_def)
  moreover have "b \<le> (b + a) / 2" "(b + a) / 2 \<le> a" using assms(4) by simp_all
  ultimately show ?thesis by blast
qed

text \<open>An asset read from Horizon is the asset it came from.\<close>

theorem asset_roundtrip:
  assumes "\<And>code issuer. x = Issued code issuer \<Longrightarrow> issuer \<noteq> [] \<and> dh_validAsset H code issuer"
  shows "to_stellar_asset H (from_stellar_asset x) = Inr x"
  using assms by (cases x) (simp_all add: to_stellar_asset_def truthy_def)

section \<open>Examples\<close>

definition demo_parse :: "string \<Rightarrow> rat option" where
  "demo_parse t = (if list_all is_digit t \<and> t \<noteq> [] then Some (of_nat (foldl (\<lambda>n c. 10 * n + (of_char c - 48)) 0 t)) else None)"

definition demo_path :: "string \<Rightarrow> stellar_asset list \<Rightarrow> path_record" where
  "demo_path amount p = \<lparr>pt_destination_amount = amount, pt_path = p\<rparr>"

definition usdc :: asset where
  "usdc = \<lparr>as_code = ''USDC'', as_issuer = Some ''GI''\<rparr>"

definition codeless :: asset where
  "codeless = \<lparr>as_code = ''USDC'', as_issuer = None\<rparr>"

definition demo_dex_host :: "bool \<Rightarrow> dex_host" where
  "demo_dex_host accepts = \<lparr>dh_validAsset = (\<lambda>c i. True), dh_parseFloat = demo_parse, dh_toFixed = (\<lambda>k r. ''0''),
     dh_orderbook = (\<lambda>n b q. Inr ([''2''], [])), dh_paths = (\<lambda>n a x b. Inr [demo_path ''4'' [Native], demo_path ''5'' []]),
     dh_account = (\<lambda>n k. Inr 1), dh_build = (\<lambda>tx. None), dh_submit = (\<lambda>n tx. if accepts then Inr ''h'' else Inl ''tx_failed''),
     dh_pools = (\<lambda>n a l. Inr []), dh_pool = (\<lambda>n i. Inl ''404''), dh_keypair = (\<lambda>k. Some ''GK''), dh_xdr = (\<lambda>a q operation. [])\<rparr>"

definition demo_dex :: dex where
  "demo_dex = \<lparr>dx_calls = 0, dx_submitted = []\<rparr>"

lemmas dex_demo_simps = demo_dex_host_def demo_dex_def demo_path_def usdc_def codeless_def demo_parse_def is_digit_def to_stellar_asset_def
  truthy_def path_hops_def build_swap_def

theorem quote_best_path_witness:
  "\<exists>q s'. get_swap_quote (demo_dex_host True) codeless usdc ''3'' demo_dex = (Inr q, s') \<and> dx_submitted s' = []"
proof -
  obtain q s' where r: "get_swap_quote (demo_dex_host True) codeless usdc ''3'' demo_dex = (Inr q, s')"
    by (simp add: get_swap_quote_def js_then_def horizon_def dex_demo_simps at_least_def get_price_def Let_def)
  from quote_best_path [OF r] r show ?thesis by (auto simp: demo_dex_def)
qed

theorem swap_submits_once_witness:
  "\<exists>r s' tx. execute_swap (demo_dex_host True) ''GK'' codeless usdc ''3'' ''4'' ''GD'' demo_dex = (Inr r, s')
    \<and> dx_submitted s' = [tx] \<and> sx_destMin tx = ''4''"
proof -
  obtain r s' where run: "execute_swap (demo_dex_host True) ''GK'' codeless usdc ''3'' ''4'' ''GD'' demo_dex = (Inr r, s')"
    by (simp add: execute_swap_def js_then_def horizon_def dex_demo_simps settle_swap_def submit_swap_def)
  from swap_submits_once [OF run] run show ?thesis by (auto simp: demo_dex_def)
qed

theorem executed_is_not_quoted_witness:
  "\<exists>r. fst (execute_swap (demo_dex_host True) ''GK'' codeless usdc ''3'' ''4'' ''GD'' demo_dex) = Inr r \<and> sr_destAmount r = ''4''"
  using executed_is_not_quoted [of "demo_dex_host True" codeless Native usdc "Issued ''USDC'' ''GI''" "''3''" "demo_path ''4'' [Native]"
      "demo_path ''5'' []" 4 5 "''GK''" 1 "''h''" "[Native]" demo_dex "''4''" "''GD''" demo_dex]
  by (auto simp: dex_demo_simps)

theorem rejected_swap_answered_ok_witness:
  "fst (fst (execute_route (demo_dex_host False) \<lparr>rq_secretKey = Some ''S'', rq_sourceAsset = Some codeless, rq_destAsset = Some usdc,
     rq_sourceAmount = Some ''3'', rq_minDestAmount = Some ''4'', rq_destAccount = None\<rparr> demo_dex)) = 200"
  using rejected_swap_answered_ok [of "demo_dex_host False" "''S''" "''GK''" "''3''" "''4''" codeless Native usdc "Issued ''USDC'' ''GI''"
      "demo_path ''4'' [Native]" "[demo_path ''5'' []]" 1 "''tx_failed''" "[Native]" demo_dex]
  by (simp add: dex_demo_simps)

theorem codeless_swap_sells_xlm_witness:
  "\<exists>tx s'. snd (execute_swap (demo_dex_host True) ''GK'' codeless usdc ''3'' ''4'' ''GD'' demo_dex) = s' \<and> dx_submitted s' = [tx]
    \<and> sx_sendAsset tx = Native"
proof -
  obtain r s' where run: "execute_swap (demo_dex_host True) ''GK'' codeless usdc ''3'' ''4'' ''GD'' demo_dex = (Inr r, s')"
    by (simp add: execute_swap_def js_then_def horizon_def dex_demo_simps settle_swap_def submit_swap_def)
  have "truthy (as_issuer codeless) = None" by (simp add: codeless_def truthy_def)
  from codeless_swap_sells_xlm [OF this run] run show ?thesis by (auto simp: demo_dex_def)
qed

theorem price_zero_without_asks_witness:
  "\<exists>feed. fst (get_price (demo_dex_host True) codeless usdc demo_dex) = Inr feed \<and> pf_price feed = ''0'' \<and> pf_bid feed = ''2''"
  using price_zero_without_asks [of "demo_dex_host True" codeless Native usdc "Issued ''USDC'' ''GI''" demo_dex "[''2'']"]
  by (auto simp: dex_demo_simps js_at_def)

theorem price_between_offers_witness:
  "\<exists>y. spread (demo_dex_host True) ''2'' ''4'' = dh_toFixed (demo_dex_host True) 4 y \<and> 0 \<le> y \<and> y < 100"
  using price_between_offers [of "demo_dex_host True" "''2''" 2 "''4''" 4] by (simp add: dex_demo_simps)

theorem asset_roundtrip_witness:
  "to_stellar_asset (demo_dex_host True) (from_stellar_asset (Issued ''USDC'' ''GI'')) = Inr (Issued ''USDC'' ''GI'')"
  by (rule asset_roundtrip) (simp add: demo_dex_host_def)

end
