(* ===== verification/FraudScores.thy ===== *)
theory FraudScores
  imports JsPrelude Complex_Main "HOL-Library.Multiset" "HOL-Library.List_Lexorder" "HOL-Library.Char_ord"
begin

text \<open>
  Scoring of transactions for fraud, \<open>backend/src/services/mlFraudDetectionService.ts\<close>, with the routes of
  \<open>routes/fraud.ts\<close>: the three rules of a transaction, the deviation of a user's latest contribution, alerts and their
  review.

  Floating point is taken as real arithmetic. The tables are a record; the database schema of the repository has neither
  a table of fraud events nor one of alerts, so both are optional: \<open>fr_events\<close> and \<open>fr_alerts\<close> are \<open>None\<close> as shipped.
  The nth database call fails when the host says so of n.
\<close>

section \<open>Data\<close>

datatype score_level = Low | Medium | High | Critical

datatype alert_status = AlertOpen | AlertReviewing | AlertResolved | AlertDismissed

record fraud_tx =
  ft_userId :: string
  ft_amount :: int
  ft_groupId :: string
  ft_timestamp :: int
  ft_ipAddress :: "string option"

record anomaly_result =
  ar_isAnomaly :: bool
  ar_score :: real
  ar_reasons :: "string list"
  ar_severity :: score_level

record alert_details =
  ad_reasons :: "string list"
  ad_amount :: string
  ad_groupId :: string
  ad_ipAddress :: "string option"

record fraud_alert =
  fa_id :: string
  fa_userId :: string
  fa_alertType :: string
  fa_severity :: score_level
  fa_score :: real
  fa_details :: alert_details
  fa_status :: alert_status
  fa_createdAt :: int
  fa_reviewedAt :: "int option"
  fa_reviewedBy :: "string option"
  fa_resolution :: "string option"

record contribution_row =
  cn_userId :: string
  cn_amount :: int
  cn_createdAt :: int

record fraud_db =
  fr_contributions :: "contribution_row list"
  fr_joined :: "(string \<times> int) list"
  fr_events :: "(string \<times> int) list option"
  fr_alerts :: "fraud_alert list option"
  fr_now :: int
  fr_calls :: nat

record fraud_host =
  fh_fails :: "nat \<Rightarrow> bool"
  fh_cuid :: "nat \<Rightarrow> string"
  fh_toFixed2 :: "real \<Rightarrow> string"
  fh_bigint :: "string \<Rightarrow> int option"

datatype fraud_error = DbDown | NoModel | RecordMissing | NotAnInteger | NegativeSkip

type_synonym 'a fraud_method = "(fraud_db, fraud_error, 'a) js_method"

definition fraud_call :: "fraud_host \<Rightarrow> 'a fraud_method \<Rightarrow> 'a fraud_method" where
  "fraud_call H f s = (let s' = s\<lparr>fr_calls := Suc (fr_calls s)\<rparr> in if fh_fails H (fr_calls s) then (Inl DbDown, s') else f s')"

definition fraud_query :: "fraud_host \<Rightarrow> (fraud_db \<Rightarrow> 'a) \<Rightarrow> 'a fraud_method" where
  "fraud_query H q = fraud_call H (\<lambda>s. (Inr (q s), s))"

text \<open>A method of a model the client does not have: reading it off \<open>undefined\<close> throws before any call.\<close>

definition alert_table :: "fraud_host \<Rightarrow> (fraud_alert list \<Rightarrow> 'a fraud_method) \<Rightarrow> 'a fraud_method" where
  "alert_table H f s = (case fr_alerts s of None \<Rightarrow> (Inl NoModel, s) | Some as \<Rightarrow> fraud_call H (f as) s)"

section \<open>Statistics\<close>

definition mean :: "real list \<Rightarrow> real" where
  "mean values = (if values = [] then 0 else sum_list values / real (length values))"

definition std_dev :: "real list \<Rightarrow> real \<Rightarrow> real" where
  "std_dev values avg =
     (if length values < 2 then 0 else sqrt (sum_list (map (\<lambda>v. (v - avg)\<^sup>2) values) / real (length values)))"

definition z_score :: "real \<Rightarrow> real \<Rightarrow> real \<Rightarrow> real" where
  "z_score v avg std = (if std = 0 then 0 else \<bar>(v - avg) / std\<bar>)"

definition score_to_severity :: "real \<Rightarrow> score_level" where
  "score_to_severity score = (if 80 \<le> score then Critical else if 60 \<le> score then High else if 30 \<le> score then Medium else Low)"

section \<open>Patterns of a transaction\<close>

definition hour_ms :: int where
  "hour_ms = 3600000"

definition recent_count :: "string \<Rightarrow> int \<Rightarrow> (string \<times> int) list \<Rightarrow> nat" where
  "recent_count userId from rows = length (filter (\<lambda>(u, t). u = userId \<and> from \<le> t) rows)"

text \<open>\<open>prismaAny.fraudEvent?.count?.(...) ?? await prisma.contribution.count(...)\<close>: contributions count only without the model.\<close>

definition recent_transactions :: "fraud_host \<Rightarrow> string \<Rightarrow> int \<Rightarrow> nat fraud_method" where
  "recent_transactions H userId from = fraud_query H (\<lambda>s.
     case fr_events s of
       Some es \<Rightarrow> recent_count userId from es
     | None \<Rightarrow> recent_count userId from (map (\<lambda>c. (cn_userId c, cn_createdAt c)) (fr_contributions s)))"

definition latest_amounts :: "string \<Rightarrow> fraud_db \<Rightarrow> real list" where
  "latest_amounts userId s =
     map (\<lambda>c. real_of_int (cn_amount c)) (take 50 (rev (sort_key cn_createdAt (filter (\<lambda>c. cn_userId c = userId) (fr_contributions s)))))"

definition amount_z :: "real list \<Rightarrow> int \<Rightarrow> real" where
  "amount_z history amount =
     (if length history < 5 then 0
      else (let avg = mean history in z_score (real_of_int amount) avg (std_dev history avg)))"

text \<open>The rules, given the three figures.\<close>

definition judge :: "fraud_host \<Rightarrow> nat \<Rightarrow> real \<Rightarrow> nat \<Rightarrow> anomaly_result" where
  "judge H txCount z groups =
     (let rapid = 10 < txCount; large = 3 < z; joins = 5 < groups;
          reasons = (if rapid then [''High transaction frequency: '' @ show_nat txCount @ '' in 1h''] else [])
            @ (if large then [''Amount z-score '' @ fh_toFixed2 H z @ '' - far above historical average''] else [])
            @ (if joins then [''Joined '' @ show_nat groups @ '' groups in 1h''] else []);
          score = (if rapid then 30 else 0) + (if large then min 40 (z * 10) else 0) + (if joins then 20 else 0)
      in \<lparr>ar_isAnomaly = (30 \<le> score), ar_score = score, ar_reasons = reasons, ar_severity = score_to_severity score\<rparr>)"

definition detect_patterns :: "fraud_host \<Rightarrow> fraud_tx \<Rightarrow> anomaly_result fraud_method" where
  "detect_patterns H tx =
     (let windowStart = ft_timestamp tx - hour_ms
      in js_then (recent_transactions H (ft_userId tx) windowStart) (\<lambda>txCount.
           js_then (fraud_query H (latest_amounts (ft_userId tx))) (\<lambda>history.
             js_then (fraud_query H (\<lambda>s. recent_count (ft_userId tx) windowStart (fr_joined s))) (\<lambda>groups.
               js_return (judge H txCount (amount_z history (ft_amount tx)) groups)))))"

section \<open>Anomalies over all users\<close>

record contribution_anomaly =
  ca_userId :: string
  ca_score :: real
  ca_severity :: score_level
  ca_reason :: string

primrec by_user :: "contribution_row list \<Rightarrow> (string, real list) jsmap \<Rightarrow> (string, real list) jsmap" where
  "by_user [] m = m"
| "by_user (c # cs) m =
     by_user cs (js_set (cn_userId c) (get_or [] (js_get m (cn_userId c)) @ [real_of_int (cn_amount c)]) m)"

definition latest_z :: "real list \<Rightarrow> real" where
  "latest_z amounts = (let baseline = butlast amounts; avg = mean baseline in z_score (last amounts) avg (std_dev baseline avg))"

definition user_anomaly :: "fraud_host \<Rightarrow> string \<times> real list \<Rightarrow> contribution_anomaly option" where
  "user_anomaly H p =
     (let z = latest_z (snd p); score = min 100 (z * 15)
      in if length (snd p) < 3 \<or> z \<le> 5 / 2 then None
         else Some \<lparr>ca_userId = fst p, ca_score = score, ca_severity = score_to_severity score,
                ca_reason = ''Latest contribution z-score '' @ fh_toFixed2 H z @ '' vs. baseline''\<rparr>)"

definition detect_contribution_anomalies :: "fraud_host \<Rightarrow> int \<Rightarrow> contribution_anomaly list fraud_method" where
  "detect_contribution_anomalies H lookbackDays s =
     js_then (fraud_query H (\<lambda>s'. sort_key cn_createdAt
         (filter (\<lambda>c. fr_now s - lookbackDays * 24 * 60 * 60 * 1000 \<le> cn_createdAt c) (fr_contributions s'))))
       (\<lambda>rows. js_return (sort_key (\<lambda>a. - ca_score a) (List.map_filter (user_anomaly H) (by_user rows [])))) s"

section \<open>Alerts\<close>

definition update_alert :: "fraud_host \<Rightarrow> string \<Rightarrow> (int \<Rightarrow> fraud_alert \<Rightarrow> fraud_alert) \<Rightarrow> fraud_alert fraud_method" where
  "update_alert H alertId f = alert_table H (\<lambda>as s.
     case find (\<lambda>a. fa_id a = alertId) as of
       None \<Rightarrow> (Inl RecordMissing, s)
     | Some a \<Rightarrow> (Inr (f (fr_now s) a), s\<lparr>fr_alerts := Some (map (\<lambda>a. if fa_id a = alertId then f (fr_now s) a else a) as)\<rparr>))"

definition escalate_alert :: "fraud_host \<Rightarrow> string \<Rightarrow> unit fraud_method" where
  "escalate_alert H alertId = js_then (update_alert H alertId (\<lambda>now a. a\<lparr>fa_status := AlertReviewing\<rparr>)) (\<lambda>_. js_return ())"

text \<open>The alert returned is the one that was created, before an escalation.\<close>

definition create_fraud_alert ::
  "fraud_host \<Rightarrow> string \<Rightarrow> string \<Rightarrow> score_level \<Rightarrow> real \<Rightarrow> alert_details \<Rightarrow> fraud_alert fraud_method" where
  "create_fraud_alert H userId alertType severity score details =
     js_then (alert_table H (\<lambda>as s.
         let a = \<lparr>fa_id = fh_cuid H (fr_calls s), fa_userId = userId, fa_alertType = alertType, fa_severity = severity, fa_score = score,
                  fa_details = details, fa_status = AlertOpen, fa_createdAt = fr_now s, fa_reviewedAt = None, fa_reviewedBy = None,
                  fa_resolution = None\<rparr>
         in (Inr a, s\<lparr>fr_alerts := Some (as @ [a])\<rparr>)))
       (\<lambda>a. if severity = Critical then js_then (escalate_alert H (fa_id a)) (\<lambda>_. js_return a) else js_return a)"

definition wanted :: "alert_status option \<Rightarrow> score_level option \<Rightarrow> string option \<Rightarrow> fraud_alert \<Rightarrow> bool" where
  "wanted status severity userId a \<longleftrightarrow>
     (case status of None \<Rightarrow> True | Some x \<Rightarrow> fa_status a = x) \<and> (case severity of None \<Rightarrow> True | Some x \<Rightarrow> fa_severity a = x)
     \<and> (case truthy userId of None \<Rightarrow> True | Some x \<Rightarrow> fa_userId a = x)"

text \<open>The database client refuses a negative \<open>skip\<close>; the limit is a natural number.\<close>

definition list_alerts ::
  "fraud_host \<Rightarrow> alert_status option \<Rightarrow> score_level option \<Rightarrow> string option \<Rightarrow> int \<Rightarrow> nat \<Rightarrow> (fraud_alert list \<times> nat) fraud_method" where
  "list_alerts H status severity userId page limit =
     js_then (alert_table H (\<lambda>as s.
         if (page - 1) * int limit < 0 then (Inl NegativeSkip, s)
         else (Inr (take limit (drop (nat ((page - 1) * int limit))
                 (rev (sort_key fa_createdAt (filter (wanted status severity userId) as))))), s)))
       (\<lambda>raw. js_then (alert_table H (\<lambda>as s. (Inr (length (filter (wanted status severity userId) as)), s)))
         (\<lambda>n. js_return (raw, n)))"

definition review_alert :: "fraud_host \<Rightarrow> string \<Rightarrow> string \<Rightarrow> alert_status \<Rightarrow> string \<Rightarrow> fraud_alert fraud_method" where
  "review_alert H alertId reviewerId status resolution = update_alert H alertId (\<lambda>now a.
     a\<lparr>fa_status := status, fa_reviewedAt := Some now, fa_reviewedBy := Some reviewerId, fa_resolution := Some resolution\<rparr>)"

fun severity_text :: "score_level \<Rightarrow> string" where
  "severity_text Low = ''LOW''"
| "severity_text Medium = ''MEDIUM''"
| "severity_text High = ''HIGH''"
| "severity_text Critical = ''CRITICAL''"

text \<open>The column holds the text: its place in descending order is the number of texts that come after it in the alphabet.\<close>

definition text_place :: "score_level \<Rightarrow> nat" where
  "text_place v = length (filter (\<lambda>w. severity_text v < severity_text w) [Low, Medium, High, Critical])"

definition pending :: "fraud_alert \<Rightarrow> bool" where
  "pending a \<longleftrightarrow> fa_status a = AlertOpen \<or> fa_status a = AlertReviewing"

definition get_pending_reviews :: "fraud_host \<Rightarrow> nat \<Rightarrow> fraud_alert list fraud_method" where
  "get_pending_reviews H limit = alert_table H (\<lambda>as s.
     (Inr (take limit (sort_key (\<lambda>a. text_place (fa_severity a)) (sort_key fa_createdAt (filter pending as)))), s))"

definition analyze_transaction :: "fraud_host \<Rightarrow> fraud_tx \<Rightarrow> anomaly_result fraud_method" where
  "analyze_transaction H tx =
     js_then (detect_patterns H tx) (\<lambda>result.
       if ar_isAnomaly result
       then js_then (create_fraud_alert H (ft_userId tx) ''TRANSACTION_ANOMALY'' (ar_severity result) (ar_score result)
              \<lparr>ad_reasons = ar_reasons result, ad_amount = show_int (ft_amount tx), ad_groupId = ft_groupId tx, ad_ipAddress = ft_ipAddress tx\<rparr>)
            (\<lambda>_. js_return result)
       else js_return result)"

section \<open>Routes\<close>

datatype fraud_body =
    ResultBody anomaly_result
  | AnomaliesBody "contribution_anomaly list"
  | AlertsBody "fraud_alert list" nat
  | AlertBody fraud_alert
  | FraudError string

definition fraud_answer :: "('a \<Rightarrow> fraud_body) \<Rightarrow> 'a fraud_method \<Rightarrow> fraud_db \<Rightarrow> (nat \<times> fraud_body) \<times> fraud_db" where
  "fraud_answer body m s = (case m s of (Inr r, s') \<Rightarrow> ((200, body r), s') | (Inl e, s') \<Rightarrow> ((500, FraudError ''failed''), s'))"

definition analyze_route ::
  "fraud_host \<Rightarrow> string option \<Rightarrow> string option \<Rightarrow> string option \<Rightarrow> string option \<Rightarrow> fraud_db \<Rightarrow> (nat \<times> fraud_body) \<times> fraud_db" where
  "analyze_route H userId amount groupId ipAddress s =
     (case (truthy userId, truthy amount, truthy groupId) of
        (Some u, Some a, Some g) \<Rightarrow>
          (case fh_bigint H a of
             None \<Rightarrow> ((500, FraudError ''failed''), s)
           | Some n \<Rightarrow> fraud_answer ResultBody (analyze_transaction H
               \<lparr>ft_userId = u, ft_amount = n, ft_groupId = g, ft_timestamp = fr_now s, ft_ipAddress = ipAddress\<rparr>) s)
      | _ \<Rightarrow> ((400, FraudError ''userId, amount, groupId required''), s))"

text \<open>\<open>Number(days) || 30\<close>: zero days are thirty.\<close>

definition anomalies_route :: "fraud_host \<Rightarrow> int option \<Rightarrow> fraud_db \<Rightarrow> (nat \<times> fraud_body) \<times> fraud_db" where
  "anomalies_route H days = fraud_answer AnomaliesBody (detect_contribution_anomalies H (case days of Some d \<Rightarrow> if d = 0 then 30 else d | None \<Rightarrow> 30))"

definition alerts_route ::
  "fraud_host \<Rightarrow> alert_status option \<Rightarrow> score_level option \<Rightarrow> string option \<Rightarrow> int option \<Rightarrow> nat option \<Rightarrow> fraud_db \<Rightarrow> (nat \<times> fraud_body) \<times> fraud_db" where
  "alerts_route H status severity userId page limit =
     fraud_answer (\<lambda>(as, n). AlertsBody as n) (list_alerts H status severity userId (get_or 1 page) (get_or 20 limit))"

definition pending_route :: "fraud_host \<Rightarrow> nat option \<Rightarrow> fraud_db \<Rightarrow> (nat \<times> fraud_body) \<times> fraud_db" where
  "pending_route H limit =
     fraud_answer (\<lambda>as. AlertsBody as (length as)) (get_pending_reviews H (case limit of Some n \<Rightarrow> if n = 0 then 50 else n | None \<Rightarrow> 50))"

definition review_route ::
  "fraud_host \<Rightarrow> string \<Rightarrow> string option \<Rightarrow> alert_status option \<Rightarrow> string option \<Rightarrow> fraud_db \<Rightarrow> (nat \<times> fraud_body) \<times> fraud_db" where
  "review_route H alertId adminId status resolution =
     (if status \<noteq> Some AlertResolved \<and> status \<noteq> Some AlertDismissed then (\<lambda>s. ((400, FraudError ''status must be RESOLVED or DISMISSED''), s))
      else (case truthy resolution of
        None \<Rightarrow> (\<lambda>s. ((400, FraudError ''resolution required''), s))
      | Some text \<Rightarrow> fraud_answer AlertBody (review_alert H alertId (get_or ''admin'' (truthy adminId)) (the status) text)))"

definition my_flags_route :: "fraud_host \<Rightarrow> string option \<Rightarrow> fraud_db \<Rightarrow> (nat \<times> fraud_body) \<times> fraud_db" where
  "my_flags_route H wallet =
     (case truthy wallet of
        None \<Rightarrow> (\<lambda>s. ((401, FraudError ''Unauthorized''), s))
      | Some userId \<Rightarrow> fraud_answer (\<lambda>(as, n). AlertsBody as n) (list_alerts H None None (Some userId) 1 10))"

section \<open>What the rules say\<close>

lemma detect_patterns_returns:
  assumes "fst (detect_patterns H tx s) = Inr r"
  shows "r = judge H
    (case fr_events s of Some es \<Rightarrow> recent_count (ft_userId tx) (ft_timestamp tx - hour_ms) es
       | None \<Rightarrow> recent_count (ft_userId tx) (ft_timestamp tx - hour_ms) (map (\<lambda>c. (cn_userId c, cn_createdAt c)) (fr_contributions s)))
    (amount_z (latest_amounts (ft_userId tx) s) (ft_amount tx))
    (recent_count (ft_userId tx) (ft_timestamp tx - hour_ms) (fr_joined s))"
  using assms
  by (auto simp: detect_patterns_def Let_def js_then_def recent_transactions_def fraud_query_def fraud_call_def latest_amounts_def
      cong: option.case_cong split: if_splits)

text \<open>
  The severity of a transaction follows from its three signals: it is an anomaly exactly when it is one of more than ten in
  the hour or more than three deviations off; critical exactly with all three; joining groups alone is never one. The score
  is at most 90.
\<close>

theorem severity_exact:
  assumes "fst (detect_patterns H tx s) = Inr r" and "fr_events s = None"
  defines "rapid \<equiv> 10 < recent_count (ft_userId tx) (ft_timestamp tx - hour_ms) (map (\<lambda>c. (cn_userId c, cn_createdAt c)) (fr_contributions s))"
    and "z \<equiv> amount_z (latest_amounts (ft_userId tx) s) (ft_amount tx)"
    and "joins \<equiv> 5 < recent_count (ft_userId tx) (ft_timestamp tx - hour_ms) (fr_joined s)"
  shows "(ar_isAnomaly r \<longleftrightarrow> rapid \<or> 3 < z)
    \<and> (ar_severity r = Critical \<longleftrightarrow> rapid \<and> 3 < z \<and> joins)
    \<and> (ar_severity r = High \<longleftrightarrow> (rapid \<and> 3 < z \<and> \<not> joins) \<or> (\<not> rapid \<and> 4 \<le> z \<and> joins))
    \<and> (ar_severity r = Low \<longleftrightarrow> \<not> ar_isAnomaly r)
    \<and> 0 \<le> ar_score r \<and> ar_score r \<le> 90"
proof -
  have r: "r = judge H (recent_count (ft_userId tx) (ft_timestamp tx - hour_ms) (map (\<lambda>c. (cn_userId c, cn_createdAt c)) (fr_contributions s))) z
      (recent_count (ft_userId tx) (ft_timestamp tx - hour_ms) (fr_joined s))"
    using detect_patterns_returns [OF assms(1)] assms(2) by (simp add: z_def)
  show ?thesis unfolding r judge_def Let_def
    by (cases rapid; cases "3 < z"; cases joins) (auto simp: score_to_severity_def rapid_def joins_def min_def)
qed

lemma mean_replicate: "0 < n \<Longrightarrow> mean (replicate n x) = x"
  by (simp add: mean_def sum_list_replicate)

lemma std_dev_replicate: "std_dev (replicate n x) x = 0"
  by (simp add: std_dev_def sum_list_replicate)

text \<open>
  After a history of equal amounts no amount is ever too large: with a deviation of zero the score is zero by
  definition, so a transaction is flagged for its frequency only, whatever its amount.
\<close>

theorem constant_history_blind:
  assumes "latest_amounts (ft_userId tx) s = replicate n c" and "fr_events s = None"
    and "fst (detect_patterns H tx s) = Inr r"
  shows "ar_isAnomaly r \<longleftrightarrow>
    10 < recent_count (ft_userId tx) (ft_timestamp tx - hour_ms) (map (\<lambda>c. (cn_userId c, cn_createdAt c)) (fr_contributions s))"
proof -
  have "amount_z (latest_amounts (ft_userId tx) s) (ft_amount tx) = 0"
    using assms(1) by (auto simp: amount_z_def Let_def mean_replicate std_dev_replicate z_score_def)
  then show ?thesis using detect_patterns_returns [OF assms(3)] assms(2) by (simp add: judge_def Let_def)
qed

section \<open>What happens to alerts\<close>

text \<open>
  As shipped there is no table of alerts: the analysis of a transaction throws exactly when it finds an anomaly, and the
  route answers 500 in place of the finding.
\<close>

theorem anomaly_lost:
  assumes "fr_alerts s = None" and "\<And>n. \<not> fh_fails H n" and "fst (detect_patterns H tx s) = Inr r"
  shows "fst (analyze_transaction H tx s) = (if ar_isAnomaly r then Inl NoModel else Inr r)"
proof -
  obtain s' where d: "detect_patterns H tx s = (Inr r, s')" using assms(3) by (cases "detect_patterns H tx s") simp
  have "fr_alerts s' = fr_alerts s"
    using d by (auto simp: detect_patterns_def Let_def js_then_def recent_transactions_def fraud_query_def fraud_call_def split: if_splits)
  then show ?thesis using assms(1) d by (simp add: analyze_transaction_def js_then_def create_fraud_alert_def alert_table_def)
qed

text \<open>
  With the table, and the database up, an analysis adds exactly one alert for an anomaly and none otherwise; a critical
  one stands under review at once, though the alert returned by its creation still says open.
\<close>

theorem anomaly_recorded:
  assumes "fr_alerts s = Some as" and "\<And>n. \<not> fh_fails H n" and "fst (detect_patterns H tx s) = Inr r"
    and "\<And>n. fh_cuid H n \<notin> fa_id ` set as"
  shows "fst (analyze_transaction H tx s) = Inr r \<and>
    (if ar_isAnomaly r
     then \<exists>a. fr_alerts (snd (analyze_transaction H tx s)) = Some (as @ [a]) \<and> fa_userId a = ft_userId tx
        \<and> fa_severity a = ar_severity r \<and> fa_score a = ar_score r
        \<and> fa_status a = (if ar_severity r = Critical then AlertReviewing else AlertOpen)
     else fr_alerts (snd (analyze_transaction H tx s)) = Some as)"
proof -
  obtain s' where d: "detect_patterns H tx s = (Inr r, s')" using assms(3) by (cases "detect_patterns H tx s") simp
  have t: "fr_alerts s' = Some as"
    using d assms(1) by (auto simp: detect_patterns_def Let_def js_then_def recent_transactions_def fraud_query_def fraud_call_def split: if_splits)
  have others: "map (\<lambda>a. if fa_id a = fh_cuid H n then f a else a) as = as" for n and f :: "fraud_alert \<Rightarrow> fraud_alert"
    by (rule map_idI) (metis assms(4) image_eqI)
  have none: "find (\<lambda>a. fa_id a = fh_cuid H n) as = None" for n unfolding find_None_iff by (metis assms(4) image_eqI)
  have find_new: "fa_id a = fh_cuid H n \<Longrightarrow> find (\<lambda>a. fa_id a = fh_cuid H n) (as @ [a]) = Some a" for a n
    using none [of n] by (induction as) (auto split: if_splits)
  show ?thesis using d t assms(2)
    by (auto simp: analyze_transaction_def js_then_def create_fraud_alert_def alert_table_def fraud_call_def escalate_alert_def update_alert_def
        Let_def find_new others)
qed

text \<open>
  The list of pending reviews orders severities as texts, descending: medium, low, high, critical. With as many other
  alerts pending as the list is long, no critical alert is on it.
\<close>

theorem pending_hides_critical:
  assumes "fr_alerts s = Some as" and "limit \<le> length (filter (\<lambda>a. pending a \<and> fa_severity a \<noteq> Critical) as)"
    and "fst (get_pending_reviews H limit s) = Inr shown" and "a \<in> set shown"
  shows "fa_severity a \<noteq> Critical"
proof
  assume crit: "fa_severity a = Critical"
  define xs where "xs = sort_key (\<lambda>a. text_place (fa_severity a)) (sort_key fa_createdAt (filter pending as))"
  have shown: "shown = take limit xs"
    using assms(1,3) by (auto simp: get_pending_reviews_def alert_table_def fraud_call_def Let_def xs_def split: if_splits)
  then obtain i where i: "i < limit" "i < length xs" "xs ! i = a" using assms(4) by (auto simp: in_set_conv_nth)
  have place: "text_place v = (case v of Medium \<Rightarrow> 0 | Low \<Rightarrow> 1 | High \<Rightarrow> 2 | Critical \<Rightarrow> 3)" for v
    by (cases v) (simp_all add: text_place_def)
  have "sorted (map (\<lambda>a. text_place (fa_severity a)) xs)" by (simp add: xs_def)
  then have later: "fa_severity (xs ! j) = Critical" if "i \<le> j" "j < length xs" for j
    using sorted_nth_mono [of "map (\<lambda>a. text_place (fa_severity a)) xs" i j] i crit that
    by (simp add: place split: score_level.splits)
  have "filter (\<lambda>a. fa_severity a \<noteq> Critical) (drop i xs) = []"
    using later by (auto simp: filter_empty_conv in_set_conv_nth)
  moreover have "filter (\<lambda>a. fa_severity a \<noteq> Critical) xs =
      filter (\<lambda>a. fa_severity a \<noteq> Critical) (take i xs) @ filter (\<lambda>a. fa_severity a \<noteq> Critical) (drop i xs)"
    by (simp flip: filter_append)
  ultimately have "length (filter (\<lambda>a. fa_severity a \<noteq> Critical) xs) \<le> length (take i xs)"
    using length_filter_le [of _ "take i xs"] by simp
  then have "length (filter (\<lambda>a. fa_severity a \<noteq> Critical) xs) \<le> i" using i by simp
  moreover have "length (filter (\<lambda>a. fa_severity a \<noteq> Critical) xs) = length (filter (\<lambda>a. pending a \<and> fa_severity a \<noteq> Critical) as)"
  proof -
    have "mset (filter (\<lambda>a. fa_severity a \<noteq> Critical) xs) = mset (filter (\<lambda>a. fa_severity a \<noteq> Critical) (filter pending as))"
      by (simp add: xs_def filter_filter_mset)
    from mset_eq_length [OF this] show ?thesis by simp
  qed
  ultimately show False using i assms(2) by simp
qed

section \<open>Anomalies over all users\<close>




section \<open>Examples\<close>

definition demo_fraud_host :: fraud_host where
  "demo_fraud_host = \<lparr>fh_fails = (\<lambda>_. False), fh_cuid = (\<lambda>n. replicate n CHR ''c''), fh_toFixed2 = (\<lambda>_. ''4.00''), fh_bigint = (\<lambda>_. None)\<rparr>"

definition demo_row :: "int \<Rightarrow> int \<Rightarrow> contribution_row" where
  "demo_row amount t = \<lparr>cn_userId = ''u'', cn_amount = amount, cn_createdAt = t\<rparr>"

definition demo_fraud_db :: "fraud_alert list option \<Rightarrow> fraud_db" where
  "demo_fraud_db as = \<lparr>fr_contributions = map (demo_row 100) [1..11], fr_joined = [], fr_events = None, fr_alerts = as, fr_now = 20, fr_calls = 0\<rparr>"

definition demo_tx :: "int \<Rightarrow> fraud_tx" where
  "demo_tx amount = \<lparr>ft_userId = ''u'', ft_amount = amount, ft_groupId = ''g'', ft_timestamp = 20, ft_ipAddress = None\<rparr>"

definition demo_alert :: "string \<Rightarrow> score_level \<Rightarrow> fraud_alert" where
  "demo_alert i v = \<lparr>fa_id = i, fa_userId = ''u'', fa_alertType = ''TRANSACTION_ANOMALY'', fa_severity = v, fa_score = 90,
     fa_details = \<lparr>ad_reasons = [], ad_amount = ''1'', ad_groupId = ''g'', ad_ipAddress = None\<rparr>, fa_status = AlertOpen, fa_createdAt = 1,
     fa_reviewedAt = None, fa_reviewedBy = None, fa_resolution = None\<rparr>"

lemma demo_amounts: "latest_amounts ''u'' (demo_fraud_db as) = replicate 11 100"
  by (simp add: latest_amounts_def demo_fraud_db_def demo_row_def upto_rec1 numeral_eq_Suc)

lemma demo_recent:
  "recent_count ''u'' (20 - hour_ms) (map (\<lambda>c. (cn_userId c, cn_createdAt c)) (fr_contributions (demo_fraud_db as))) = 11"
  by (simp add: recent_count_def demo_fraud_db_def demo_row_def hour_ms_def upto_rec1)

lemma demo_detect: "\<exists>r. fst (detect_patterns demo_fraud_host (demo_tx a) (demo_fraud_db as)) = Inr r"
  by (simp add: detect_patterns_def Let_def js_then_def recent_transactions_def fraud_query_def fraud_call_def demo_fraud_host_def)

lemma demo_db_fields [simp]: "fr_events (demo_fraud_db as) = None" "fr_alerts (demo_fraud_db as) = as" "ft_userId (demo_tx a) = ''u''"
    "ft_timestamp (demo_tx a) = 20" "fr_joined (demo_fraud_db as) = []" "\<not> fh_fails demo_fraud_host n"
  by (simp_all add: demo_fraud_db_def demo_tx_def demo_fraud_host_def)

theorem severity_exact_witness:
  "\<exists>r. fst (detect_patterns demo_fraud_host (demo_tx 100) (demo_fraud_db None)) = Inr r \<and> ar_isAnomaly r \<and> ar_score r \<le> 90"
proof -
  obtain r where r: "fst (detect_patterns demo_fraud_host (demo_tx 100) (demo_fraud_db None)) = Inr r" using demo_detect by blast
  from severity_exact [OF r] r show ?thesis by (simp add: demo_recent)
qed

theorem constant_history_blind_witness:
  "\<exists>r. fst (detect_patterns demo_fraud_host (demo_tx 1000000000) (demo_fraud_db None)) = Inr r
    \<and> (ar_isAnomaly r \<longleftrightarrow> 10 < recent_count ''u'' (20 - hour_ms)
        (map (\<lambda>c. (cn_userId c, cn_createdAt c)) (fr_contributions (demo_fraud_db None))))"
proof -
  obtain r where r: "fst (detect_patterns demo_fraud_host (demo_tx 1000000000) (demo_fraud_db None)) = Inr r" using demo_detect by blast
  from constant_history_blind [OF _ _ r, of 11 100] r show ?thesis by (simp add: demo_amounts)
qed

theorem anomaly_lost_witness:
  "\<exists>r. fst (detect_patterns demo_fraud_host (demo_tx 100) (demo_fraud_db None)) = Inr r
    \<and> fst (analyze_transaction demo_fraud_host (demo_tx 100) (demo_fraud_db None)) = (if ar_isAnomaly r then Inl NoModel else Inr r)"
proof -
  obtain r where r: "fst (detect_patterns demo_fraud_host (demo_tx 100) (demo_fraud_db None)) = Inr r" using demo_detect by blast
  from anomaly_lost [OF _ _ r] r show ?thesis by simp
qed

theorem anomaly_recorded_witness:
  "\<exists>r. fst (analyze_transaction demo_fraud_host (demo_tx 100) (demo_fraud_db (Some []))) = Inr r"
proof -
  obtain r where r: "fst (detect_patterns demo_fraud_host (demo_tx 100) (demo_fraud_db (Some []))) = Inr r" using demo_detect by blast
  from anomaly_recorded [OF _ _ r, of "[]"] show ?thesis by simp
qed

theorem pending_hides_critical_witness:
  "\<exists>shown. fst (get_pending_reviews demo_fraud_host 1 (demo_fraud_db (Some [demo_alert ''a'' Critical, demo_alert ''b'' Medium]))) = Inr shown
    \<and> (\<forall>a \<in> set shown. fa_severity a \<noteq> Critical)"
proof -
  let ?as = "[demo_alert ''a'' Critical, demo_alert ''b'' Medium]"
  obtain shown where s: "fst (get_pending_reviews demo_fraud_host 1 (demo_fraud_db (Some ?as))) = Inr shown"
    by (simp add: get_pending_reviews_def alert_table_def fraud_call_def Let_def)
  have "1 \<le> length (filter (\<lambda>a. pending a \<and> fa_severity a \<noteq> Critical) ?as)" by (simp add: pending_def demo_alert_def)
  from pending_hides_critical [OF _ this s] s show ?thesis by simp
qed


end
