(* ===== verification/MobileWallet.thy ===== *)
theory MobileWallet
  imports JsPrelude
begin

text \<open>
  Wallets on a phone: deep links and their callbacks, \<open>frontend/src/utils/deepLink.ts\<close>, the service on top of them,
  \<open>utils/mobileWallet.ts\<close>, and the detection of injected wallets, \<open>utils/walletDetection.ts\<close>.

  A link is printed from its base and its parameters by \<open>mb_url\<close> and read by \<open>mb_parse\<close>, with the parameters of query and
  fragment apart. The user agent is given in lower case. What is stored under the key of the pending requests is absent, a
  text that does not parse, or a map; request ids are not names of \<open>Object.prototype\<close>. Timers are exact: the kth check of a
  poll comes k seconds after the first, and \<open>mb_arrivals\<close> are the callback addresses handled before it.
\<close>

section \<open>Data\<close>

datatype mobile_wallet = FreighterMobile | LobstrMobile

datatype wallet_browser = FreighterBrowser | LobstrBrowser

record deep_link_params =
  dl_publicKey :: "string option"
  dl_signedXdr :: "string option"
  dl_error :: "string option"
  dl_callbackUrl :: "string option"
  dl_requestId :: "string option"

datatype request_type = ConnectRequest | SignRequest

record mobile_request =
  mr_requestId :: string
  mr_type :: request_type
  mr_callbackUrl :: string
  mr_params :: "(string, string) jsmap"

record mobile_session =
  se_publicKey :: string
  se_walletType :: mobile_wallet
  se_connectedAt :: int
  se_network :: string

datatype pending_text = Absent | Corrupt | Stored "(string, mobile_request) jsmap"

record freighter_api =
  fw_isAllowed :: "(string + bool) option"
  fw_setAllowed :: "(string + unit) option"
  fw_getPublicKey :: "string + string option"

record mobile_browser =
  mb_window :: bool
  mb_ua :: string
  mb_touch :: bool
  mb_innerWidth :: int
  mb_freighterApi :: "freighter_api option"
  mb_lobstrVault :: "(string + string option) option"
  mb_lobstr :: "(string + string option) option"
  mb_origin :: string
  mb_url :: "string \<Rightarrow> (string \<times> string) list \<Rightarrow> string"
  mb_encode :: "string \<Rightarrow> string"
  mb_parse :: "string \<Rightarrow> ((string \<times> string) list \<times> (string \<times> string) list) option"
  mb_requestId :: "int \<Rightarrow> nat \<Rightarrow> string"
  mb_arrivals :: "nat \<Rightarrow> string list"

datatype mobile_event = Connected string mobile_wallet | Disconnected | CallbackEvent deep_link_params

record mobile_state =
  mo_pending :: pending_text
  mo_callbacks :: "(string, deep_link_params) jsmap"
  mo_session :: "mobile_session option"
  mo_current :: "string option"
  mo_polling :: bool
  mo_listeners :: "(string, nat list) jsmap"
  mo_called :: "(nat \<times> mobile_event) list"
  mo_opened :: "string list"
  mo_now :: int
  mo_draws :: nat

datatype wallet_error = WalletError string string

section \<open>Links\<close>

text \<open>\<open>searchParams.set\<close> in the order of the code; an empty XDR or network is not set.\<close>

definition link_params :: "string \<Rightarrow> string \<Rightarrow> string option \<Rightarrow> string option \<Rightarrow> (string \<times> string) list" where
  "link_params callbackUrl requestId xdr network =
     [(''callback'', callbackUrl), (''request_id'', requestId)]
     @ (case truthy xdr of None \<Rightarrow> [] | Some x \<Rightarrow> [(''xdr'', x)])
     @ (case truthy network of None \<Rightarrow> [] | Some n \<Rightarrow> [(''network'', n)])"

definition build_freighter_deep_link :: "mobile_browser \<Rightarrow> string \<Rightarrow> string \<Rightarrow> string option \<Rightarrow> string option \<Rightarrow> string" where
  "build_freighter_deep_link B requestId callbackUrl xdr network =
     mb_url B ''freighter://xdr'' (link_params callbackUrl requestId xdr network)"

definition build_lobstr_deep_link :: "mobile_browser \<Rightarrow> string \<Rightarrow> string \<Rightarrow> string option \<Rightarrow> string option \<Rightarrow> string" where
  "build_lobstr_deep_link B requestId callbackUrl xdr network =
     mb_url B ''lobstr://xdr'' (link_params callbackUrl requestId xdr network)"

definition build_deep_link :: "mobile_browser \<Rightarrow> mobile_wallet \<Rightarrow> string \<Rightarrow> string \<Rightarrow> string option \<Rightarrow> string option \<Rightarrow> string" where
  "build_deep_link B wallet =
     (case wallet of FreighterMobile \<Rightarrow> build_freighter_deep_link B | LobstrMobile \<Rightarrow> build_lobstr_deep_link B)"

definition generate_callback_url :: "mobile_browser \<Rightarrow> string \<Rightarrow> string" where
  "generate_callback_url B requestId =
     (if \<not> mb_window B then [] else mb_origin B @ ''/api/mobile-wallet/callback?request_id='' @ mb_encode B requestId)"

text \<open>\<open>params.get(a) ?? params.get(b) ?? undefined\<close>: the first value of a name.\<close>

definition either_param :: "(string \<times> string) list \<Rightarrow> string \<Rightarrow> string \<Rightarrow> string option" where
  "either_param ps a b = (case map_of ps a of Some v \<Rightarrow> Some v | None \<Rightarrow> map_of ps b)"

definition or_else :: "string option \<Rightarrow> string option \<Rightarrow> string option" where
  "or_else x y = (case x of Some v \<Rightarrow> Some v | None \<Rightarrow> y)"

definition no_params :: deep_link_params where
  "no_params = \<lparr>dl_publicKey = None, dl_signedXdr = None, dl_error = None, dl_callbackUrl = None, dl_requestId = None\<rparr>"

definition parse_deep_link_callback :: "mobile_browser \<Rightarrow> string \<Rightarrow> deep_link_params" where
  "parse_deep_link_callback B url =
     (case mb_parse B url of
        None \<Rightarrow> no_params
      | Some (q, h) \<Rightarrow>
          \<lparr>dl_publicKey = or_else (either_param q ''public_key'' ''publicKey'') (either_param h ''public_key'' ''publicKey''),
           dl_signedXdr = or_else (either_param q ''signed_xdr'' ''signedXdr'') (either_param h ''signed_xdr'' ''signedXdr''),
           dl_error = or_else (map_of q ''error'') (map_of h ''error''),
           dl_callbackUrl = either_param q ''callback'' ''callbackUrl'',
           dl_requestId = either_param q ''request_id'' ''requestId''\<rparr>)"

section \<open>Pending requests\<close>

definition get_pending_requests :: "mobile_state \<Rightarrow> (string, mobile_request) jsmap" where
  "get_pending_requests s = (case mo_pending s of Stored m \<Rightarrow> m | _ \<Rightarrow> [])"

definition store_pending_request :: "mobile_browser \<Rightarrow> mobile_request \<Rightarrow> mobile_state \<Rightarrow> mobile_state" where
  "store_pending_request B r s =
     (if \<not> mb_window B then s else s\<lparr>mo_pending := Stored (js_set (mr_requestId r) r (get_pending_requests s))\<rparr>)"

definition consume_pending_request :: "mobile_browser \<Rightarrow> string \<Rightarrow> mobile_state \<Rightarrow> mobile_request option \<times> mobile_state" where
  "consume_pending_request B requestId s =
     (if \<not> mb_window B then (None, s)
      else case js_get (get_pending_requests s) requestId of
        None \<Rightarrow> (None, s)
      | Some r \<Rightarrow> (Some r, s\<lparr>mo_pending := Stored (js_del requestId (get_pending_requests s))\<rparr>))"

definition save_mobile_session :: "mobile_browser \<Rightarrow> mobile_session \<Rightarrow> mobile_state \<Rightarrow> mobile_state" where
  "save_mobile_session B se s = (if mb_window B then s\<lparr>mo_session := Some se\<rparr> else s)"

definition get_mobile_session :: "mobile_browser \<Rightarrow> mobile_state \<Rightarrow> mobile_session option" where
  "get_mobile_session B s = (if mb_window B then mo_session s else None)"

definition clear_mobile_session :: "mobile_browser \<Rightarrow> mobile_state \<Rightarrow> mobile_state" where
  "clear_mobile_session B s = (if mb_window B then s\<lparr>mo_session := None\<rparr> else s)"

section \<open>The device\<close>

definition ua_any :: "mobile_browser \<Rightarrow> string list \<Rightarrow> bool" where
  "ua_any B words \<longleftrightarrow> list_ex (\<lambda>w. js_includes w (mb_ua B)) words"

definition mobile_device :: "mobile_browser \<Rightarrow> bool" where
  "mobile_device B \<longleftrightarrow> mb_window B \<and>
     (ua_any B [''android'', ''iphone'', ''ipad'', ''ipod'', ''mobile'', ''tablet''] \<or> (mb_touch B \<and> mb_innerWidth B < 768))"

definition detect_mobile_wallet_browser :: "mobile_browser \<Rightarrow> wallet_browser option" where
  "detect_mobile_wallet_browser B =
     (if \<not> mb_window B then None
      else if ua_any B [''freighter''] \<or> mb_freighterApi B \<noteq> None then Some FreighterBrowser
      else if ua_any B [''lobstr''] \<or> mb_lobstrVault B \<noteq> None \<or> mb_lobstr B \<noteq> None then Some LobstrBrowser
      else None)"

datatype platform = Ios | Android

fun install_url :: "wallet_browser \<Rightarrow> platform option \<Rightarrow> string" where
  "install_url FreighterBrowser (Some Ios) = ''https://apps.apple.com/app/freighter-stellar-wallet/id1578328613''"
| "install_url FreighterBrowser (Some Android) = ''https://play.google.com/store/apps/details?id=org.stellar.freighter''"
| "install_url FreighterBrowser None = ''https://freighter.app''"
| "install_url LobstrBrowser (Some Ios) = ''https://apps.apple.com/app/lobstr-stellar-wallet/id1444286136''"
| "install_url LobstrBrowser (Some Android) = ''https://play.google.com/store/apps/details?id=com.lobstr.client''"
| "install_url LobstrBrowser None = ''https://lobstr.co''"

definition get_wallet_install_url :: "mobile_browser \<Rightarrow> wallet_browser \<Rightarrow> platform option \<Rightarrow> string" where
  "get_wallet_install_url B wallet p =
     install_url wallet (case p of
        Some x \<Rightarrow> Some x
      | None \<Rightarrow> if \<not> mb_window B then None
                else if ua_any B [''iphone'', ''ipad'', ''ipod''] then Some Ios
                else if ua_any B [''android''] then Some Android else None)"

section \<open>Events\<close>

fun event_name :: "mobile_event \<Rightarrow> string" where
  "event_name (Connected k w) = ''connected''"
| "event_name Disconnected = ''disconnected''"
| "event_name (CallbackEvent p) = ''callback''"

definition mobile_on :: "string \<Rightarrow> nat \<Rightarrow> mobile_state \<Rightarrow> mobile_state" where
  "mobile_on event cb s = s\<lparr>mo_listeners := js_set event (js_add cb (get_or [] (js_get (mo_listeners s) event))) (mo_listeners s)\<rparr>"

definition mobile_off :: "string \<Rightarrow> nat \<Rightarrow> mobile_state \<Rightarrow> mobile_state" where
  "mobile_off event cb s =
     (case js_get (mo_listeners s) event of
        None \<Rightarrow> s
      | Some cbs \<Rightarrow> s\<lparr>mo_listeners := js_set event (js_remove cb cbs) (mo_listeners s)\<rparr>)"

definition mobile_emit :: "mobile_event \<Rightarrow> mobile_state \<Rightarrow> mobile_state" where
  "mobile_emit e s = s\<lparr>mo_called := mo_called s @ map (\<lambda>cb. (cb, e)) (get_or [] (js_get (mo_listeners s) (event_name e)))\<rparr>"

section \<open>Callbacks\<close>

text \<open>Spreading the callback's five properties: an \<open>undefined\<close> one hides the stored one, and is dropped by \<open>JSON.stringify\<close>.\<close>

definition put_param :: "string \<Rightarrow> string option \<Rightarrow> (string, string) jsmap \<Rightarrow> (string, string) jsmap" where
  "put_param name v m = (case v of Some x \<Rightarrow> js_set name x m | None \<Rightarrow> js_del name m)"

definition merge_params :: "deep_link_params \<Rightarrow> (string, string) jsmap \<Rightarrow> (string, string) jsmap" where
  "merge_params p m =
     put_param ''requestId'' (dl_requestId p) (put_param ''callbackUrl'' (dl_callbackUrl p) (put_param ''error'' (dl_error p)
       (put_param ''signedXdr'' (dl_signedXdr p) (put_param ''publicKey'' (dl_publicKey p) m))))"

text \<open>Here the stored text is parsed outside a \<open>try\<close>.\<close>

definition store_callback_data :: "mobile_browser \<Rightarrow> string \<Rightarrow> deep_link_params \<Rightarrow> (mobile_state, string, unit) js_method" where
  "store_callback_data B requestId p s =
     (if \<not> mb_window B then (Inr (), s)
      else (let s1 = s\<lparr>mo_callbacks := js_set (''mobile_callback_'' @ requestId) p (mo_callbacks s)\<rparr>
            in case mo_pending s1 of
                 Corrupt \<Rightarrow> (Inl ''SyntaxError'', s1)
               | Absent \<Rightarrow> (Inr (), s1)
               | Stored m \<Rightarrow> (case js_get m requestId of
                     None \<Rightarrow> (Inr (), s1)
                   | Some r \<Rightarrow> (Inr (), s1\<lparr>mo_pending := Stored (js_set requestId (r\<lparr>mr_params := merge_params p (mr_params r)\<rparr>) m)\<rparr>))))"

definition handle_callback :: "mobile_browser \<Rightarrow> string \<Rightarrow> (mobile_state, string, deep_link_params) js_method" where
  "handle_callback B url =
     (let p = parse_deep_link_callback B url
      in js_then (case truthy (dl_requestId p) of None \<Rightarrow> js_return () | Some i \<Rightarrow> store_callback_data B i p)
           (\<lambda>_ s. (Inr p, mobile_emit (CallbackEvent p) s)))"

primrec handle_callbacks :: "mobile_browser \<Rightarrow> string list \<Rightarrow> mobile_state \<Rightarrow> mobile_state" where
  "handle_callbacks B [] s = s"
| "handle_callbacks B (url # urls) s = handle_callbacks B urls (snd (handle_callback B url s))"

section \<open>Waiting\<close>

definition poll_ms :: int where
  "poll_ms = 1000"

definition callback_timeout_ms :: int where
  "callback_timeout_ms = 300000"

text \<open>
  The kth check: beyond the timeout it gives up; a request that is there is consumed; otherwise the callbacks that come in
  until the next check are handled.
\<close>

function await_request :: "mobile_browser \<Rightarrow> string \<Rightarrow> nat \<Rightarrow> mobile_state \<Rightarrow> mobile_request option \<times> mobile_state" where
  "await_request B requestId k s =
     (if callback_timeout_ms < poll_ms * int k then (None, s\<lparr>mo_polling := False\<rparr>)
      else case consume_pending_request B requestId s of
        (Some r, s') \<Rightarrow> (Some r, s'\<lparr>mo_polling := False\<rparr>)
      | (None, s') \<Rightarrow> await_request B requestId (Suc k) (handle_callbacks B (mb_arrivals B k) (s'\<lparr>mo_now := mo_now s' + poll_ms\<rparr>)))"
  by pat_completeness auto

termination await_request
  by (relation "measure (\<lambda>(B, i, k, s). nat (callback_timeout_ms + 1 - poll_ms * int k))") (auto simp: callback_timeout_ms_def poll_ms_def)

declare await_request.simps [simp del]

type_synonym connection_result = "wallet_error + string"

definition process_connection_callback ::
  "mobile_browser \<Rightarrow> mobile_request \<Rightarrow> mobile_wallet \<Rightarrow> string \<Rightarrow> mobile_state \<Rightarrow> connection_result \<times> mobile_state" where
  "process_connection_callback B r wallet network s =
     (case or_else (truthy (js_get (mr_params r) ''publicKey'')) (truthy (js_get (mr_params r) ''public_key'')) of
        None \<Rightarrow> (Inl (WalletError ''MOBILE_CONNECTION_FAILED'' ''No public key received from mobile wallet''), s)
      | Some key \<Rightarrow> (Inr key, mobile_emit (Connected key wallet)
          (save_mobile_session B \<lparr>se_publicKey = key, se_walletType = wallet, se_connectedAt = mo_now s, se_network = network\<rparr> s)))"

definition wait_for_callback ::
  "mobile_browser \<Rightarrow> string \<Rightarrow> mobile_wallet \<Rightarrow> string \<Rightarrow> mobile_state \<Rightarrow> connection_result \<times> mobile_state" where
  "wait_for_callback B requestId wallet network s =
     (case await_request B requestId 0 (s\<lparr>mo_polling := True\<rparr>) of
        (None, s') \<Rightarrow> (Inl (WalletError ''MOBILE_CALLBACK_TIMEOUT'' ''Mobile wallet connection timed out. Please try again.''), s')
      | (Some r, s') \<Rightarrow> process_connection_callback B r wallet network s')"

definition wait_for_signed_transaction :: "mobile_browser \<Rightarrow> string \<Rightarrow> (mobile_state, string, string) js_method" where
  "wait_for_signed_transaction B requestId s =
     (case await_request B requestId 0 (s\<lparr>mo_polling := True\<rparr>) of
        (None, s') \<Rightarrow> (Inl ''Mobile wallet signing timed out'', s')
      | (Some r, s') \<Rightarrow>
          (case or_else (truthy (js_get (mr_params r) ''signedXdr'')) (truthy (js_get (mr_params r) ''signed_xdr'')) of
             None \<Rightarrow> (Inl ''No signed transaction received from mobile wallet'', s')
           | Some xdr \<Rightarrow> (Inr xdr, s')))"

section \<open>Connecting and signing\<close>

text \<open>The key the injected wallet gives; \<open>await\<close>s of its calls may throw.\<close>

definition in_app_public_key :: "mobile_browser \<Rightarrow> wallet_browser \<Rightarrow> string + string option" where
  "in_app_public_key B w =
     (case w of
        FreighterBrowser \<Rightarrow>
          (case mb_freighterApi B of
             None \<Rightarrow> Inr None
           | Some api \<Rightarrow>
               (case fw_isAllowed api of
                  Some (Inl e) \<Rightarrow> Inl e
                | Some (Inr False) \<Rightarrow> (case fw_setAllowed api of Some (Inl e) \<Rightarrow> Inl e | _ \<Rightarrow> fw_getPublicKey api)
                | _ \<Rightarrow> fw_getPublicKey api))
      | LobstrBrowser \<Rightarrow>
          (case mb_lobstrVault B of Some answer \<Rightarrow> answer
           | None \<Rightarrow> (case mb_lobstr B of Some answer \<Rightarrow> answer | None \<Rightarrow> Inr None)))"

definition handle_in_app_browser_connection ::
  "mobile_browser \<Rightarrow> wallet_browser \<Rightarrow> string \<Rightarrow> mobile_state \<Rightarrow> connection_result \<times> mobile_state" where
  "handle_in_app_browser_connection B w network s =
     (let wallet = (case w of FreighterBrowser \<Rightarrow> FreighterMobile | LobstrBrowser \<Rightarrow> LobstrMobile)
      in case in_app_public_key B w of
           Inl e \<Rightarrow> (Inl (WalletError ''MOBILE_CONNECTION_FAILED'' (if e \<noteq> [] then e else ''Failed to connect via mobile wallet browser'')), s)
         | Inr k \<Rightarrow>
             (case truthy k of
                None \<Rightarrow> (Inl (WalletError ''MOBILE_CONNECTION_FAILED'' ''Could not get public key from wallet browser''), s)
              | Some key \<Rightarrow> (Inr key, mobile_emit (Connected key wallet)
                  (save_mobile_session B \<lparr>se_publicKey = key, se_walletType = wallet, se_connectedAt = mo_now s, se_network = network\<rparr> s))))"

definition open_deep_link :: "mobile_browser \<Rightarrow> string \<Rightarrow> mobile_state \<Rightarrow> mobile_state" where
  "open_deep_link B url s = (if mb_window B then s\<lparr>mo_opened := mo_opened s @ [url]\<rparr> else s)"

definition new_request :: "mobile_browser \<Rightarrow> mobile_state \<Rightarrow> string \<times> mobile_state" where
  "new_request B s =
     (let i = mb_requestId B (mo_now s) (mo_draws s) in (i, s\<lparr>mo_draws := Suc (mo_draws s), mo_current := Some i\<rparr>))"

definition mobile_connect :: "mobile_browser \<Rightarrow> mobile_wallet \<Rightarrow> string option \<Rightarrow> mobile_state \<Rightarrow> connection_result \<times> mobile_state" where
  "mobile_connect B wallet network_option s =
     (let (i, s1) = new_request B s;
          network = get_or ''testnet'' network_option;
          callbackUrl = generate_callback_url B i;
          s2 = store_pending_request B \<lparr>mr_requestId = i, mr_type = ConnectRequest, mr_callbackUrl = callbackUrl,
                 mr_params = [(''network'', network)]\<rparr> s1;
          link = build_deep_link B wallet i callbackUrl None (Some network)
      in case detect_mobile_wallet_browser B of
           Some w \<Rightarrow> handle_in_app_browser_connection B w network s2
         | None \<Rightarrow> wait_for_callback B i wallet network (open_deep_link B link s2))"

definition mobile_sign :: "mobile_browser \<Rightarrow> mobile_wallet \<Rightarrow> string \<Rightarrow> string option \<Rightarrow> string \<Rightarrow> (mobile_state, string, string) js_method" where
  "mobile_sign B wallet xdr network_option publicKey s =
     (let (i, s1) = new_request B s;
          network = get_or ''testnet'' network_option;
          callbackUrl = generate_callback_url B i;
          s2 = store_pending_request B \<lparr>mr_requestId = i, mr_type = SignRequest, mr_callbackUrl = callbackUrl,
                 mr_params = [(''xdr'', xdr), (''network'', network), (''publicKey'', publicKey)]\<rparr> s1;
          link = build_deep_link B wallet i callbackUrl (Some xdr) (Some network)
      in wait_for_signed_transaction B i (open_deep_link B link s2))"

section \<open>Session and availability\<close>

definition is_connected :: "mobile_browser \<Rightarrow> mobile_state \<Rightarrow> bool" where
  "is_connected B s \<longleftrightarrow> get_mobile_session B s \<noteq> None"

definition mobile_disconnect :: "mobile_browser \<Rightarrow> mobile_state \<Rightarrow> mobile_state" where
  "mobile_disconnect B s = mobile_emit Disconnected ((clear_mobile_session B s)\<lparr>mo_current := None\<rparr>)"

definition get_public_key :: "mobile_browser \<Rightarrow> mobile_state \<Rightarrow> string option" where
  "get_public_key B s = map_option se_publicKey (get_mobile_session B s)"

definition get_wallet_type :: "mobile_browser \<Rightarrow> mobile_state \<Rightarrow> mobile_wallet option" where
  "get_wallet_type B s = map_option se_walletType (get_mobile_session B s)"

definition is_freighter_mobile_available :: "mobile_browser \<Rightarrow> bool" where
  "is_freighter_mobile_available B \<longleftrightarrow> mb_window B \<and> mobile_device B \<and>
     (ua_any B [''freighter''] \<or> ua_any B [''android'', ''iphone'', ''ipad''])"

definition is_lobstr_mobile_available :: "mobile_browser \<Rightarrow> bool" where
  "is_lobstr_mobile_available B \<longleftrightarrow> mb_window B \<and> mobile_device B \<and>
     (ua_any B [''lobstr''] \<or> ua_any B [''android'', ''iphone'', ''ipad''])"

definition get_available_wallets :: "mobile_browser \<Rightarrow> (mobile_wallet \<times> string \<times> bool \<times> string) list" where
  "get_available_wallets B =
     [(FreighterMobile, ''Freighter Mobile'', is_freighter_mobile_available B, ''freighter://''),
      (LobstrMobile, ''LOBSTR Mobile'', is_lobstr_mobile_available B, ''lobstr://'')]"

definition supports_mobile_wallet :: "mobile_browser \<Rightarrow> bool" where
  "supports_mobile_wallet B \<longleftrightarrow> mb_window B \<and> mobile_device B \<and>
     (detect_mobile_wallet_browser B \<noteq> None \<or> ua_any B [''android''] \<or> ua_any B [''iphone'', ''ipad'', ''ipod''])"

section \<open>Injected wallets\<close>

text \<open>Which of the known properties \<open>window\<close> has, at a time.\<close>

record detection =
  dt_freighter :: bool
  dt_lobstr :: bool
  dt_albedo :: bool

definition detect_wallets :: "bool \<Rightarrow> (string \<Rightarrow> bool) \<Rightarrow> detection" where
  "detect_wallets inBrowser has =
     (if \<not> inBrowser then \<lparr>dt_freighter = False, dt_lobstr = False, dt_albedo = False\<rparr>
      else \<lparr>dt_freighter = has ''freighterApi'' \<or> has ''freighter'',
            dt_lobstr = has ''lobstrVault'' \<or> has ''lobstr'' \<or> has ''lobstrExtension'', dt_albedo = has ''albedo''\<rparr>)"

text \<open>
  The kth firing of the interval, k from 1 on: the wallet is looked for first, then the time. The interval is at least a
  millisecond, as browsers make it.
\<close>

function wait_for_wallet :: "bool \<Rightarrow> (int \<Rightarrow> string \<Rightarrow> bool) \<Rightarrow> (detection \<Rightarrow> bool) \<Rightarrow> int \<Rightarrow> int \<Rightarrow> nat \<Rightarrow> bool \<times> nat" where
  "wait_for_wallet inBrowser injected wallet timeoutMs intervalMs k =
     (let t = max 1 intervalMs * int k
      in if wallet (detect_wallets inBrowser (injected t)) then (True, k)
         else if timeoutMs < t then (False, k)
         else wait_for_wallet inBrowser injected wallet timeoutMs intervalMs (Suc k))"
  by pat_completeness auto

termination wait_for_wallet
proof (relation "measure (\<lambda>(b, j, w, timeoutMs, i, k). nat (timeoutMs + 1 - int k))")
  fix inBrowser injected wallet timeoutMs intervalMs k t
  assume t: "t = max 1 intervalMs * int k" and "\<not> timeoutMs < t"
  have "int k \<le> t" unfolding t by (cases "k = 0") (simp_all add: mult_le_cancel_right1)
  then show "((inBrowser, injected, wallet, timeoutMs, intervalMs, Suc k), inBrowser, injected, wallet, timeoutMs, intervalMs, k)
      \<in> measure (\<lambda>(b, j, w, timeoutMs, i, k). nat (timeoutMs + 1 - int k))"
    using \<open>\<not> timeoutMs < t\<close> by simp
qed simp

declare wait_for_wallet.simps [simp del]

section \<open>What holds\<close>

lemma pending_after_store:
  "mb_window B \<Longrightarrow> get_pending_requests (store_pending_request B r s) = js_set (mr_requestId r) r (get_pending_requests s)"
  by (simp add: store_pending_request_def get_pending_requests_def)

lemma consume_stored:
  "mb_window B \<Longrightarrow> js_get (get_pending_requests s) i = Some r \<Longrightarrow>
     consume_pending_request B i s = (Some r, s\<lparr>mo_pending := Stored (js_del i (get_pending_requests s))\<rparr>)"
  by (simp add: consume_pending_request_def)

lemma await_stored:
  "mb_window B \<Longrightarrow> js_get (get_pending_requests s) i = Some r \<Longrightarrow>
     await_request B i 0 s = (Some r, s\<lparr>mo_pending := Stored (js_del i (get_pending_requests s)), mo_polling := False\<rparr>)"
  by (subst await_request.simps) (simp add: consume_stored callback_timeout_ms_def poll_ms_def)

lemma get_pending_simps [simp]:
  "get_pending_requests (s\<lparr>mo_opened := o'\<rparr>) = get_pending_requests s"
  "get_pending_requests (s\<lparr>mo_polling := p\<rparr>) = get_pending_requests s"
  "get_pending_requests (s\<lparr>mo_pending := Stored m\<rparr>) = m"
  by (simp_all add: get_pending_requests_def)

text \<open>
  In a browser outside a wallet's own, connecting never succeeds, whatever the wallet answers and however soon: the first
  check, at once, consumes the request that was stored a line before and finds no key in it. No session is saved, and the
  answer of the wallet no longer finds its request.
\<close>

theorem mobile_connect_always_fails:
  assumes "mb_window B" and "detect_mobile_wallet_browser B = None"
  shows "fst (mobile_connect B wallet network s) = Inl (WalletError ''MOBILE_CONNECTION_FAILED'' ''No public key received from mobile wallet'')
    \<and> mo_session (snd (mobile_connect B wallet network s)) = mo_session s
    \<and> js_get (get_pending_requests (snd (mobile_connect B wallet network s))) (mb_requestId B (mo_now s) (mo_draws s)) = None"
  using assms
  by (simp add: mobile_connect_def new_request_def Let_def open_deep_link_def wait_for_callback_def await_stored pending_after_store
      process_connection_callback_def or_else_def truthy_def js_simps store_pending_request_def)

text \<open>Signing fails in the same way: its request holds no signed transaction when it is consumed.\<close>

theorem mobile_sign_always_fails:
  assumes "mb_window B"
  shows "fst (mobile_sign B wallet xdr network publicKey s) = Inl ''No signed transaction received from mobile wallet''"
  using assms
  by (simp add: mobile_sign_def new_request_def Let_def open_deep_link_def wait_for_signed_transaction_def await_stored pending_after_store
      or_else_def truthy_def js_simps)

text \<open>A pending request is handed out once, as it was stored, and no other is touched.\<close>

theorem pending_consumed_once:
  assumes "mb_window B"
  shows "\<exists>s1 s2. consume_pending_request B (mr_requestId r) (store_pending_request B r s) = (Some r, s1)
    \<and> consume_pending_request B (mr_requestId r) s1 = (None, s2)
    \<and> (\<forall>i. i \<noteq> mr_requestId r \<longrightarrow> js_get (get_pending_requests s2) i = js_get (get_pending_requests s) i)"
  using assms by (simp add: consume_pending_request_def pending_after_store js_simps)

text \<open>The link handed to a wallet names its request and where to answer: reading it back gives both.\<close>

theorem deep_link_roundtrip:
  assumes "\<And>base ps. mb_parse B (mb_url B base ps) = Some (ps, [])"
  shows "dl_requestId (parse_deep_link_callback B (build_deep_link B wallet i callbackUrl xdr network)) = Some i
    \<and> dl_callbackUrl (parse_deep_link_callback B (build_deep_link B wallet i callbackUrl xdr network)) = Some callbackUrl"
  using assms
  by (cases wallet) (simp_all add: build_deep_link_def build_freighter_deep_link_def build_lobstr_deep_link_def parse_deep_link_callback_def
      link_params_def either_param_def)

text \<open>Inside a wallet's browser, the key its interface gives becomes the session.\<close>

theorem in_app_connects:
  assumes "mb_window B" and "detect_mobile_wallet_browser B = Some w" and "in_app_public_key B w = Inr (Some key)" and "key \<noteq> []"
  shows "fst (mobile_connect B wallet network s) = Inr key
    \<and> get_public_key B (snd (mobile_connect B wallet network s)) = Some key
    \<and> \<not> is_connected B (mobile_disconnect B (snd (mobile_connect B wallet network s)))"
  using assms
  by (simp add: mobile_connect_def new_request_def Let_def handle_in_app_browser_connection_def get_public_key_def get_mobile_session_def
      mobile_emit_def save_mobile_session_def truthy_def is_connected_def mobile_disconnect_def clear_mobile_session_def)

text \<open>A stored text that does not parse makes every callback throw, before its listeners hear of it.\<close>

theorem corrupt_store_blocks_callbacks:
  assumes "mb_window B" and "mo_pending s = Corrupt" and "dl_requestId (parse_deep_link_callback B url) = Some i" and "i \<noteq> []"
  shows "fst (handle_callback B url s) = Inl ''SyntaxError'' \<and> mo_called (snd (handle_callback B url s)) = mo_called s"
  using assms by (simp add: handle_callback_def Let_def truthy_def js_then_def store_callback_data_def)

lemma handle_callback_now: "mo_now (snd (handle_callback B url s)) = mo_now s"
  by (auto simp: handle_callback_def Let_def js_then_def store_callback_data_def mobile_emit_def split: option.split pending_text.split)

lemma handle_callbacks_now: "mo_now (handle_callbacks B urls s) = mo_now s"
  by (induction urls arbitrary: s) (simp_all add: handle_callback_now)

lemma consume_now: "mo_now (snd (consume_pending_request B i s)) = mo_now s"
  by (simp add: consume_pending_request_def split: option.split)

text \<open>Waiting for a request ends within five minutes and a second, whatever arrives meanwhile.\<close>

lemma await_time:
  "mo_now (snd (await_request B i k s)) \<le> mo_now s + (if callback_timeout_ms < poll_ms * int k then 0 else callback_timeout_ms + poll_ms - poll_ms * int k)"
proof (induction B i k s rule: await_request.induct)
  case (1 B i k s)
  show ?case
  proof (cases "callback_timeout_ms < poll_ms * int k")
    case True
    then show ?thesis by (subst await_request.simps) simp
  next
    case False
    obtain x s' where c: "consume_pending_request B i s = (x, s')" by (cases "consume_pending_request B i s")
    have n: "mo_now s' = mo_now s" using consume_now [of B i s] c by simp
    show ?thesis
    proof (cases x)
      case None
      let ?s = "handle_callbacks B (mb_arrivals B k) (s'\<lparr>mo_now := mo_now s' + poll_ms\<rparr>)"
      have "await_request B i k s = await_request B i (Suc k) ?s" using False c None by (subst await_request.simps) simp
      moreover have "mo_now (snd (await_request B i (Suc k) ?s)) \<le>
          mo_now ?s + (if callback_timeout_ms < poll_ms * int (Suc k) then 0 else callback_timeout_ms + poll_ms - poll_ms * int (Suc k))"
        using "1.IH" [OF False c [symmetric] None] .
      ultimately show ?thesis using False n by (auto simp: handle_callbacks_now poll_ms_def split: if_splits)
    next
      case (Some r)
      have "await_request B i k s = (Some r, s'\<lparr>mo_polling := False\<rparr>)" using False c Some by (subst await_request.simps) simp
      then show ?thesis using False n by (simp add: poll_ms_def)
    qed
  qed
qed

theorem await_bounded: "mo_now (snd (await_request B i 0 s)) \<le> mo_now s + 301000"
  using await_time [of B i 0 s] by (simp add: callback_timeout_ms_def poll_ms_def)

text \<open>
  Waiting for an injected wallet ends, and says yes exactly when the wallet is there at the last firing; it was not there
  at any before, and a negative answer comes at the first firing after the timeout.
\<close>

theorem wait_for_wallet_exact:
  assumes "wait_for_wallet inBrowser injected wallet timeoutMs intervalMs k = (found, last_firing)"
  shows "k \<le> last_firing
    \<and> (found \<longleftrightarrow> wallet (detect_wallets inBrowser (injected (max 1 intervalMs * int last_firing))))
    \<and> (\<forall>j. k \<le> j \<and> j < last_firing \<longrightarrow> \<not> wallet (detect_wallets inBrowser (injected (max 1 intervalMs * int j)))
        \<and> max 1 intervalMs * int j \<le> timeoutMs)
    \<and> (\<not> found \<longrightarrow> timeoutMs < max 1 intervalMs * int last_firing)"
  using assms
proof (induction inBrowser injected wallet timeoutMs intervalMs k rule: wait_for_wallet.induct)
  case (1 inBrowser injected wallet timeoutMs intervalMs k)
  let ?t = "max 1 intervalMs * int k"
  show ?case
  proof (cases "wallet (detect_wallets inBrowser (injected ?t)) \<or> timeoutMs < ?t")
    case True
    then show ?thesis using "1.prems" by (subst (asm) wait_for_wallet.simps) (auto simp: Let_def split: if_splits)
  next
    case False
    then have "wait_for_wallet inBrowser injected wallet timeoutMs intervalMs (Suc k) = (found, last_firing)"
      using "1.prems" by (subst (asm) wait_for_wallet.simps) (simp add: Let_def)
    from "1.IH" [OF refl _ _ this] False
    have ih: "Suc k \<le> last_firing"
        "found \<longleftrightarrow> wallet (detect_wallets inBrowser (injected (max 1 intervalMs * int last_firing)))"
        "\<And>j. Suc k \<le> j \<Longrightarrow> j < last_firing \<Longrightarrow> \<not> wallet (detect_wallets inBrowser (injected (max 1 intervalMs * int j)))
           \<and> max 1 intervalMs * int j \<le> timeoutMs"
        "\<not> found \<Longrightarrow> timeoutMs < max 1 intervalMs * int last_firing"
      by simp_all
    have "\<not> wallet (detect_wallets inBrowser (injected (max 1 intervalMs * int j))) \<and> max 1 intervalMs * int j \<le> timeoutMs"
      if "k \<le> j" "j < last_firing" for j
      using False ih(3) [of j] that by (cases "j = k") (simp_all add: not_less)
    then show ?thesis using ih(1,2,4) by simp
  qed
qed

section \<open>Examples\<close>

text \<open>Links as their parts, written one after the other with a separator that no part holds.\<close>

definition demo_mobile :: "string \<Rightarrow> freighter_api option \<Rightarrow> mobile_browser" where
  "demo_mobile ua api = \<lparr>mb_window = True, mb_ua = ua, mb_touch = True, mb_innerWidth = 400, mb_freighterApi = api, mb_lobstrVault = None,
     mb_lobstr = None, mb_origin = ''https://ajo.app'', mb_url = (\<lambda>base ps. base), mb_encode = id, mb_parse = (\<lambda>url. None),
     mb_requestId = (\<lambda>now n. ''req_'' @ show_nat n), mb_arrivals = (\<lambda>_. [''https://ajo.app/callback''])\<rparr>"

definition demo_mobile_state :: mobile_state where
  "demo_mobile_state = \<lparr>mo_pending = Absent, mo_callbacks = [], mo_session = None, mo_current = None, mo_polling = False, mo_listeners = [],
     mo_called = [], mo_opened = [], mo_now = 0, mo_draws = 0\<rparr>"

theorem mobile_connect_always_fails_witness:
  "fst (mobile_connect (demo_mobile ''android'' None) LobstrMobile None demo_mobile_state) =
     Inl (WalletError ''MOBILE_CONNECTION_FAILED'' ''No public key received from mobile wallet'')"
  using mobile_connect_always_fails [of "demo_mobile ''android'' None" LobstrMobile None demo_mobile_state]
  by (simp add: demo_mobile_def detect_mobile_wallet_browser_def ua_any_def js_starts_def)

theorem mobile_sign_always_fails_witness:
  "fst (mobile_sign (demo_mobile ''android'' None) FreighterMobile ''AAAA'' None ''GK'' demo_mobile_state) =
     Inl ''No signed transaction received from mobile wallet''"
  using mobile_sign_always_fails [of "demo_mobile ''android'' None"] by (simp add: demo_mobile_def)

theorem pending_consumed_once_witness:
  "\<exists>r s1 s2. consume_pending_request (demo_mobile ''android'' None) ''r'' (store_pending_request (demo_mobile ''android'' None) r demo_mobile_state)
      = (Some r, s1) \<and> consume_pending_request (demo_mobile ''android'' None) ''r'' s1 = (None, s2)"
  using pending_consumed_once [of "demo_mobile ''android'' None"
      "\<lparr>mr_requestId = ''r'', mr_type = ConnectRequest, mr_callbackUrl = [], mr_params = []\<rparr>" demo_mobile_state]
  by (force simp: demo_mobile_def)

text \<open>A printer that writes lengths before texts, and its reader.\<close>

definition print_text :: "string \<Rightarrow> string" where
  "print_text t = replicate (length t) CHR ''1'' @ ''0'' @ t"

definition read_text :: "string \<Rightarrow> string \<times> string" where
  "read_text s = (let n = length (takeWhile (\<lambda>c. c = CHR ''1'') s) in (take n (drop (Suc n) s), drop n (drop (Suc n) s)))"

primrec print_pairs :: "(string \<times> string) list \<Rightarrow> string" where
  "print_pairs [] = []"
| "print_pairs (p # ps) = print_text (fst p) @ print_text (snd p) @ print_pairs ps"

fun read_pairs :: "nat \<Rightarrow> string \<Rightarrow> (string \<times> string) list" where
  "read_pairs 0 s = []"
| "read_pairs (Suc n) s = (let (a, s1) = read_text s; (b, s2) = read_text s1 in (a, b) # read_pairs n s2)"

lemma read_print_text: "read_text (print_text t @ rest) = (t, rest)"
proof -
  have "takeWhile (\<lambda>c. c = CHR ''1'') (replicate n CHR ''1'' @ ''0'' @ r) = replicate n CHR ''1''" for n r
    by (induction n) simp_all
  then show ?thesis by (simp add: read_text_def print_text_def)
qed

lemma read_print_text_end: "read_text (print_text t) = (t, [])"
  using read_print_text [of t "[]"] by simp

lemma read_print_pairs: "read_pairs (length ps) (print_pairs ps) = ps"
proof (induction ps)
  case (Cons p ps)
  then show ?case by (simp add: read_print_text Let_def split_beta)
qed simp

definition link_browser :: mobile_browser where
  "link_browser = (demo_mobile ''android'' None)\<lparr>mb_url := (\<lambda>base ps. print_text (replicate (length ps) CHR ''x'') @ print_pairs ps),
     mb_parse := (\<lambda>url. let (n, rest) = read_text url in Some (read_pairs (length n) rest, []))\<rparr>"

theorem deep_link_roundtrip_witness:
  "dl_requestId (parse_deep_link_callback link_browser (build_deep_link link_browser LobstrMobile ''r7'' ''https://ajo.app/cb'' None (Some ''testnet'')))
     = Some ''r7''"
  using deep_link_roundtrip [of link_browser LobstrMobile "''r7''" "''https://ajo.app/cb''" None "Some ''testnet''"]
  by (simp add: link_browser_def read_print_text read_print_pairs)

definition demo_api :: freighter_api where
  "demo_api = \<lparr>fw_isAllowed = Some (Inr False), fw_setAllowed = Some (Inr ()), fw_getPublicKey = Inr (Some ''GK'')\<rparr>"

theorem in_app_connects_witness:
  "fst (mobile_connect (demo_mobile ''freighter'' (Some demo_api)) FreighterMobile None demo_mobile_state) = Inr ''GK''"
  using in_app_connects [of "demo_mobile ''freighter'' (Some demo_api)" FreighterBrowser "''GK''" FreighterMobile None demo_mobile_state]
  by (simp add: demo_mobile_def demo_api_def detect_mobile_wallet_browser_def in_app_public_key_def)

theorem corrupt_store_blocks_callbacks_witness:
  "fst (handle_callback link_browser (mb_url link_browser [] [(''request_id'', ''r'')]) (demo_mobile_state\<lparr>mo_pending := Corrupt\<rparr>)) = Inl ''SyntaxError''"
  using corrupt_store_blocks_callbacks [of link_browser "demo_mobile_state\<lparr>mo_pending := Corrupt\<rparr>"
      "mb_url link_browser [] [(''request_id'', ''r'')]" "''r''"]
  by (simp add: link_browser_def parse_deep_link_callback_def read_print_text read_print_text_end either_param_def demo_mobile_def
      or_else_def Let_def)

theorem wait_for_wallet_exact_witness:
  "\<exists>n. wait_for_wallet True (\<lambda>t. \<lambda>name. name = ''albedo'' \<and> 250 \<le> t) dt_albedo 3000 100 1 = (True, n) \<and> 1 \<le> n"
proof -
  let ?r = "wait_for_wallet True (\<lambda>t. \<lambda>name. name = ''albedo'' \<and> 250 \<le> t) dt_albedo 3000 100 1"
  obtain found n where r: "?r = (found, n)" by (cases ?r)
  from wait_for_wallet_exact [OF r]
  have w: "1 \<le> n" "found \<longleftrightarrow> 250 \<le> 100 * int n" "\<not> found \<Longrightarrow> 3000 < 100 * int n" by (simp_all add: detect_wallets_def)
  then have found by linarith
  then show ?thesis using r w(1) by simp
qed

end
