(* ===== verification/Reminders.thy ===== *)
theory Reminders
  imports Notifications
begin

text \<open>
  Reminders of contributions and payouts, \<open>backend/src/services/reminderService.ts\<close>, with the preferences routes of
  \<open>routes/notifications.ts\<close> and the job that runs them, \<open>jobs/reminderJob.ts\<close>. Pushes go through the notification
  service of \<open>Notifications\<close>.

  A user has a database id and a wallet address; members and contributions of the schema refer to wallets. The columns of a
  group that the schema lacks (deadline, next payout, payout index) are optional, and so is the table of preferences, which is
  \<open>None\<close> when the client has no such model. Mails and text messages are logged; whether they go out is up to the host. The nth
  database call fails when the host says so of n. Dashes in texts are ASCII; the jobs of \<open>reportService\<close> are left out.
\<close>

section \<open>Data\<close>

datatype channel = EmailChannel | PushChannel | SmsChannel

datatype reminder_event = ContributionDueEvent | PayoutUpcoming | OverdueEvent

record reminder_prefs =
  rp_userId :: string
  rp_channels :: "channel list"
  rp_contributionHours :: rat
  rp_payoutHours :: rat
  rp_enabled :: bool
  rp_phoneNumber :: "string option"
  rp_email :: "string option"

text \<open>A patch of preferences and a row of the table: a field may be absent or null.\<close>

record prefs_fields =
  pp_channels :: "channel list option"
  pp_contributionHours :: "rat option"
  pp_payoutHours :: "rat option"
  pp_enabled :: "bool option"
  pp_phoneNumber :: "string option"
  pp_email :: "string option"

record reminder_user =
  ru_id :: string
  ru_walletAddress :: string
  ru_email :: "string option"

record reminder_group =
  gr_id :: string
  gr_name :: string
  gr_contributionAmount :: int
  gr_currentRound :: int
  gr_isActive :: bool
  gr_cycleDeadline :: "int option"
  gr_nextPayoutAt :: "int option"
  gr_payoutIndex :: "nat option"
  gr_members :: "reminder_user option list"

text \<open>The two calls of the mail service: address, group name, amount, due date, cycle and group id; or address, subject and text.\<close>

datatype reminder_mail = ReminderMail string string string string int string | PlainMail string string string

record reminder_state =
  rs_groups :: "reminder_group list"
  rs_contributions :: "(string \<times> string \<times> int) list"
  rs_prefsTable :: "(string, prefs_fields) jsmap option"
  rs_memory :: "(string, reminder_prefs) jsmap"
  rs_notifier :: notifier
  rs_mails :: "reminder_mail list"
  rs_texts :: "(string \<times> string) list"
  rs_now :: int
  rs_calls :: nat

text \<open>A mail may throw; a text message does not, it answers whether it went out.\<close>

record reminder_host =
  rh_note :: note_host
  rh_fails :: "nat \<Rightarrow> bool"
  rh_mail :: "nat \<Rightarrow> string + bool"
  rh_sms :: "nat \<Rightarrow> bool"
  rh_twilio :: bool
  rh_number :: "rat \<Rightarrow> string"
  rh_date :: "int \<Rightarrow> string"

record reminder_result =
  rr_sent :: nat
  rr_failed :: nat
  rr_skipped :: nat

type_synonym 'a reminder_method = "(reminder_state, string, 'a) js_method"

definition reminder_query :: "reminder_host \<Rightarrow> (reminder_state \<Rightarrow> 'a) \<Rightarrow> 'a reminder_method" where
  "reminder_query H q s =
     (let s' = s\<lparr>rs_calls := Suc (rs_calls s)\<rparr> in if rh_fails H (rs_calls s) then (Inl ''database unavailable'', s') else (Inr (q s'), s'))"

section \<open>Preferences\<close>

definition default_prefs :: "string \<Rightarrow> reminder_prefs" where
  "default_prefs userId = \<lparr>rp_userId = userId, rp_channels = [PushChannel], rp_contributionHours = 24, rp_payoutHours = 2, rp_enabled = True,
     rp_phoneNumber = None, rp_email = None\<rparr>"

definition prefs_of_row :: "string \<Rightarrow> prefs_fields \<Rightarrow> reminder_prefs" where
  "prefs_of_row userId row = \<lparr>rp_userId = userId, rp_channels = get_or [PushChannel] (pp_channels row),
     rp_contributionHours = get_or 24 (pp_contributionHours row), rp_payoutHours = get_or 2 (pp_payoutHours row),
     rp_enabled = get_or True (pp_enabled row), rp_phoneNumber = pp_phoneNumber row, rp_email = pp_email row\<rparr>"

text \<open>Without the model, and when the query fails, the defaults are used.\<close>

definition get_prefs :: "reminder_host \<Rightarrow> string \<Rightarrow> reminder_state \<Rightarrow> reminder_prefs \<times> reminder_state" where
  "get_prefs H userId s =
     (case js_get (rs_memory s) userId of
        Some p \<Rightarrow> (p, s)
      | None \<Rightarrow>
          (case rs_prefsTable s of
             None \<Rightarrow> (default_prefs userId, s)
           | Some table \<Rightarrow>
               (case reminder_query H (\<lambda>s. js_get table userId) s of
                  (Inr (Some row), s') \<Rightarrow> (prefs_of_row userId row, s')
                | (_, s') \<Rightarrow> (default_prefs userId, s'))))"

definition patched :: "prefs_fields \<Rightarrow> prefs_fields \<Rightarrow> prefs_fields" where
  "patched new old = \<lparr>pp_channels = (case pp_channels new of Some x \<Rightarrow> Some x | None \<Rightarrow> pp_channels old),
     pp_contributionHours = (case pp_contributionHours new of Some x \<Rightarrow> Some x | None \<Rightarrow> pp_contributionHours old),
     pp_payoutHours = (case pp_payoutHours new of Some x \<Rightarrow> Some x | None \<Rightarrow> pp_payoutHours old),
     pp_enabled = (case pp_enabled new of Some x \<Rightarrow> Some x | None \<Rightarrow> pp_enabled old),
     pp_phoneNumber = (case pp_phoneNumber new of Some x \<Rightarrow> Some x | None \<Rightarrow> pp_phoneNumber old),
     pp_email = (case pp_email new of Some x \<Rightarrow> Some x | None \<Rightarrow> pp_email old)\<rparr>"

text \<open>In memory, \<open>{...defaultPrefs(userId), ...prefs, userId}\<close>: over the defaults, not over what was saved before.\<close>

definition upsert_reminder_preferences ::
  "reminder_host \<Rightarrow> string \<Rightarrow> prefs_fields \<Rightarrow> reminder_state \<Rightarrow> reminder_prefs \<times> reminder_state" where
  "upsert_reminder_preferences H userId prefs s =
     get_prefs H userId
       (case rs_prefsTable s of
          None \<Rightarrow> s\<lparr>rs_memory := js_set userId (prefs_of_row userId prefs) (rs_memory s)\<rparr>
        | Some table \<Rightarrow>
            (let s' = s\<lparr>rs_calls := Suc (rs_calls s)\<rparr>
             in if rh_fails H (rs_calls s) then s'\<lparr>rs_memory := js_set userId (prefs_of_row userId prefs) (rs_memory s)\<rparr>
                else s'\<lparr>rs_prefsTable := Some (js_set userId (case js_get table userId of Some row \<Rightarrow> patched prefs row | None \<Rightarrow> prefs) table)\<rparr>))"

text \<open>The schema of the route; e-mail syntax is checked by the caller.\<close>

definition prefs_schema :: "prefs_fields \<Rightarrow> bool" where
  "prefs_schema p \<longleftrightarrow>
     (case pp_contributionHours p of None \<Rightarrow> True | Some h \<Rightarrow> of_int \<lfloor>h\<rfloor> = h \<and> 1 \<le> h \<and> h \<le> 168)
     \<and> (case pp_payoutHours p of None \<Rightarrow> True | Some h \<Rightarrow> of_int \<lfloor>h\<rfloor> = h \<and> 1 \<le> h \<and> h \<le> 48)"

definition put_preferences ::
  "reminder_host \<Rightarrow> string \<Rightarrow> prefs_fields \<Rightarrow> reminder_state \<Rightarrow> (nat \<times> reminder_prefs option) \<times> reminder_state" where
  "put_preferences H walletAddress p s =
     (if prefs_schema p then (let (prefs, s') = upsert_reminder_preferences H walletAddress p s in ((200, Some prefs), s'))
      else ((400, None), s))"

definition get_preferences :: "reminder_host \<Rightarrow> string \<Rightarrow> reminder_state \<Rightarrow> (nat \<times> reminder_prefs option) \<times> reminder_state" where
  "get_preferences H walletAddress s = (let (prefs, s') = get_prefs H walletAddress s in ((200, Some prefs), s'))"

section \<open>Dispatch\<close>

record reminder_payload =
  py_title :: string
  py_message :: string
  py_groupId :: string
  py_groupName :: string
  py_amount :: string
  py_dueDate :: "string option"
  py_cycleNumber :: "int option"

definition push_payload :: "reminder_payload \<Rightarrow> note_payload" where
  "push_payload p = \<lparr>np_type = ContributionDue, np_title = py_title p, np_message = py_message p, np_groupId = Some (py_groupId p),
     np_actionUrl = None, np_metadata = None\<rparr>"

definition send_mail :: "reminder_host \<Rightarrow> reminder_mail \<Rightarrow> bool reminder_method" where
  "send_mail H m s =
     (let s' = s\<lparr>rs_calls := Suc (rs_calls s)\<rparr>
      in case rh_mail H (rs_calls s) of
           Inl e \<Rightarrow> (Inl e, s')
         | Inr ok \<Rightarrow> (Inr ok, if ok then s'\<lparr>rs_mails := rs_mails s @ [m]\<rparr> else s'))"

definition send_sms :: "reminder_host \<Rightarrow> string \<Rightarrow> string \<Rightarrow> bool reminder_method" where
  "send_sms H to_number text s =
     (if \<not> rh_twilio H then (Inr False, s)
      else (let s' = s\<lparr>rs_calls := Suc (rs_calls s)\<rparr>
            in if rh_sms H (rs_calls s) then (Inr True, s'\<lparr>rs_texts := rs_texts s @ [(to_number, text)]\<rparr>) else (Inr False, s')))"

text \<open>\<open>payload.groupId\<close> is a group's id, taken to be non-empty.\<close>

definition reminder_mail_for :: "reminder_event \<Rightarrow> string \<Rightarrow> reminder_payload \<Rightarrow> reminder_mail" where
  "reminder_mail_for event to_address p =
     (if event = ContributionDueEvent \<or> event = OverdueEvent
      then ReminderMail to_address (py_groupName p) (py_amount p) (get_or ''-'' (py_dueDate p)) (get_or 0 (py_cycleNumber p)) (py_groupId p)
      else PlainMail to_address (py_title p) (''<p>'' @ py_message p @ ''</p>''))"

definition count_outcome :: "(string + bool) \<times> reminder_state \<Rightarrow> nat \<times> nat \<Rightarrow> (nat \<times> nat) \<times> reminder_state" where
  "count_outcome x c = ((case fst x of Inr True \<Rightarrow> (Suc (fst c), snd c) | _ \<Rightarrow> (fst c, Suc (snd c))), snd x)"

fun dispatch_channel ::
  "reminder_host \<Rightarrow> reminder_prefs \<Rightarrow> reminder_event \<Rightarrow> reminder_payload \<Rightarrow> channel \<Rightarrow> nat \<times> nat \<Rightarrow> reminder_state \<Rightarrow> (nat \<times> nat) \<times> reminder_state" where
  "dispatch_channel H prefs event p PushChannel c s =
     ((Suc (fst c), snd c), s\<lparr>rs_notifier := send_to_user (rh_note H) (rp_userId prefs) (push_payload p) (rs_notifier s)\<rparr>)"
| "dispatch_channel H prefs event p EmailChannel c s =
     (case truthy (rp_email prefs) of
        None \<Rightarrow> (c, s)
      | Some address \<Rightarrow> count_outcome (send_mail H (reminder_mail_for event address p) s) c)"
| "dispatch_channel H prefs event p SmsChannel c s =
     (case truthy (rp_phoneNumber prefs) of
        None \<Rightarrow> (c, s)
      | Some phone \<Rightarrow> count_outcome (send_sms H phone (py_title p @ '': '' @ py_message p) s) c)"

primrec dispatch_all ::
  "reminder_host \<Rightarrow> reminder_prefs \<Rightarrow> reminder_event \<Rightarrow> reminder_payload \<Rightarrow> channel list \<Rightarrow> nat \<times> nat \<Rightarrow> reminder_state \<Rightarrow> (nat \<times> nat) \<times> reminder_state" where
  "dispatch_all H prefs event p [] c s = (c, s)"
| "dispatch_all H prefs event p (ch # chs) c s =
     (let (c', s') = dispatch_channel H prefs event p ch c s in dispatch_all H prefs event p chs c' s')"

definition dispatch_reminder ::
  "reminder_host \<Rightarrow> reminder_prefs \<Rightarrow> reminder_event \<Rightarrow> reminder_payload \<Rightarrow> reminder_state \<Rightarrow> (nat \<times> nat) \<times> reminder_state" where
  "dispatch_reminder H prefs event p = dispatch_all H prefs event p (rp_channels prefs) (0, 0)"

section \<open>The jobs\<close>

text \<open>A loop that carries its result and may throw.\<close>

primrec each :: "('a \<Rightarrow> 'r \<Rightarrow> ('s, 'e, 'r) js_method) \<Rightarrow> 'a list \<Rightarrow> 'r \<Rightarrow> ('s, 'e, 'r) js_method" where
  "each f [] r = js_return r"
| "each f (x # xs) r = js_then (f x r) (each f xs)"

definition skip_one :: "reminder_result \<Rightarrow> reminder_result" where
  "skip_one r = r\<lparr>rr_skipped := Suc (rr_skipped r)\<rparr>"

definition add_counts :: "nat \<times> nat \<Rightarrow> reminder_result \<Rightarrow> reminder_result" where
  "add_counts c r = r\<lparr>rr_sent := rr_sent r + fst c, rr_failed := rr_failed r + snd c\<rparr>"

definition hours_until :: "int \<Rightarrow> int \<Rightarrow> rat" where
  "hours_until deadline now = of_int (deadline - now) / 3600000"

definition has_contributed :: "reminder_group \<Rightarrow> reminder_user \<Rightarrow> reminder_state \<Rightarrow> bool" where
  "has_contributed g u s \<longleftrightarrow> (gr_id g, ru_id u, gr_currentRound g) \<in> set (rs_contributions s)"

definition xlm_amount :: "reminder_host \<Rightarrow> rat \<Rightarrow> string" where
  "xlm_amount H stroops = rh_number H (stroops / 10000000) @ '' XLM''"

definition notify_member ::
  "reminder_host \<Rightarrow> reminder_prefs \<Rightarrow> reminder_user \<Rightarrow> reminder_event \<Rightarrow> reminder_payload \<Rightarrow> reminder_result \<Rightarrow> reminder_result reminder_method" where
  "notify_member H prefs u event p r s =
     (let (c, s') = dispatch_reminder H (prefs\<lparr>rp_email := (case rp_email prefs of Some e \<Rightarrow> Some e | None \<Rightarrow> ru_email u)\<rparr>) event p s
      in (Inr (add_counts c r), s'))"

definition due_payload :: "reminder_host \<Rightarrow> reminder_group \<Rightarrow> int \<Rightarrow> reminder_payload" where
  "due_payload H g deadline =
     (let amount = xlm_amount H (of_int (gr_contributionAmount g)); dueDate = rh_date H deadline
      in \<lparr>py_title = ''Contribution Due - '' @ gr_name g, py_message = ''Your contribution of '' @ amount @ '' is due by '' @ dueDate @ ''.'',
          py_groupId = gr_id g, py_groupName = gr_name g, py_amount = amount, py_dueDate = Some dueDate,
          py_cycleNumber = Some (gr_currentRound g)\<rparr>)"

definition remind_contribution ::
  "reminder_host \<Rightarrow> int \<Rightarrow> reminder_group \<Rightarrow> int \<Rightarrow> reminder_user option \<Rightarrow> reminder_result \<Rightarrow> reminder_result reminder_method" where
  "remind_contribution H now g deadline member r s =
     (case member of
        None \<Rightarrow> (Inr r, s)
      | Some u \<Rightarrow>
          (let (prefs, s1) = get_prefs H (ru_id u) s; hours = hours_until deadline now
           in if \<not> rp_enabled prefs \<or> hours < 0 \<or> rp_contributionHours prefs < hours then (Inr (skip_one r), s1)
              else js_then (reminder_query H (has_contributed g u)) (\<lambda>paid.
                if paid then js_return (skip_one r) else notify_member H prefs u ContributionDueEvent (due_payload H g deadline) r) s1))"

definition deadline_of :: "reminder_group \<Rightarrow> int option" where
  "deadline_of g = (case gr_cycleDeadline g of Some d \<Rightarrow> Some d | None \<Rightarrow> gr_nextPayoutAt g)"

definition no_result :: reminder_result where
  "no_result = \<lparr>rr_sent = 0, rr_failed = 0, rr_skipped = 0\<rparr>"

definition remind_group :: "reminder_host \<Rightarrow> int \<Rightarrow> reminder_group \<Rightarrow> reminder_result \<Rightarrow> reminder_result reminder_method" where
  "remind_group H now g r =
     (case deadline_of g of None \<Rightarrow> js_return r | Some d \<Rightarrow> each (remind_contribution H now g d) (gr_members g) r)"

definition send_contribution_reminders :: "reminder_host \<Rightarrow> reminder_result reminder_method" where
  "send_contribution_reminders H s =
     js_then (reminder_query H (\<lambda>s. filter gr_isActive (rs_groups s))) (\<lambda>groups. each (remind_group H (rs_now s)) groups no_result) s"

definition payout_note :: "reminder_host \<Rightarrow> reminder_group \<Rightarrow> reminder_payload" where
  "payout_note H g =
     (let amount = xlm_amount H (of_int (gr_contributionAmount g) * of_nat (length (gr_members g)))
      in \<lparr>py_title = ''Payout Incoming - '' @ gr_name g, py_message = ''You will receive '' @ amount @ '' from '' @ gr_name g @ '' soon.'',
          py_groupId = gr_id g, py_groupName = gr_name g, py_amount = amount, py_dueDate = None, py_cycleNumber = None\<rparr>)"

definition remind_payout :: "reminder_host \<Rightarrow> int \<Rightarrow> reminder_group \<Rightarrow> reminder_result \<Rightarrow> reminder_result reminder_method" where
  "remind_payout H now g r s =
     (case (gr_nextPayoutAt g, Option.bind (js_at (gr_members g) (get_or 0 (gr_payoutIndex g))) id) of
        (Some payoutAt, Some u) \<Rightarrow>
          (let (prefs, s1) = get_prefs H (ru_id u) s; hours = hours_until payoutAt now
           in if \<not> rp_enabled prefs \<or> hours < 0 \<or> rp_payoutHours prefs < hours then (Inr (skip_one r), s1)
              else notify_member H prefs u PayoutUpcoming (payout_note H g) r s1)
      | _ \<Rightarrow> (Inr r, s))"

definition send_payout_reminders :: "reminder_host \<Rightarrow> reminder_result reminder_method" where
  "send_payout_reminders H s =
     js_then (reminder_query H (\<lambda>s. filter gr_isActive (rs_groups s))) (\<lambda>groups. each (remind_payout H (rs_now s)) groups no_result) s"

definition overdue_payload :: "reminder_host \<Rightarrow> reminder_group \<Rightarrow> reminder_payload" where
  "overdue_payload H g =
     (let amount = xlm_amount H (of_int (gr_contributionAmount g))
      in \<lparr>py_title = ''Overdue Contribution - '' @ gr_name g,
          py_message = ''Your contribution of '' @ amount @ '' to '' @ gr_name g @ '' is overdue. Contribute now to avoid penalties.'',
          py_groupId = gr_id g, py_groupName = gr_name g, py_amount = amount, py_dueDate = None, py_cycleNumber = Some (gr_currentRound g)\<rparr>)"

definition remind_overdue :: "reminder_host \<Rightarrow> reminder_group \<Rightarrow> reminder_user option \<Rightarrow> reminder_result \<Rightarrow> reminder_result reminder_method" where
  "remind_overdue H g member r =
     (case member of
        None \<Rightarrow> js_return r
      | Some u \<Rightarrow> js_then (reminder_query H (has_contributed g u)) (\<lambda>paid s.
          if paid then (Inr (skip_one r), s)
          else (let (prefs, s1) = get_prefs H (ru_id u) s
                in if \<not> rp_enabled prefs then (Inr (skip_one r), s1) else notify_member H prefs u OverdueEvent (overdue_payload H g) r s1)))"

definition remind_overdue_group :: "reminder_host \<Rightarrow> int \<Rightarrow> reminder_group \<Rightarrow> reminder_result \<Rightarrow> reminder_result reminder_method" where
  "remind_overdue_group H now g r =
     (case deadline_of g of None \<Rightarrow> js_return r
      | Some d \<Rightarrow> if now < d then js_return r else each (remind_overdue H g) (gr_members g) r)"

definition send_overdue_reminders :: "reminder_host \<Rightarrow> reminder_result reminder_method" where
  "send_overdue_reminders H s =
     js_then (reminder_query H (\<lambda>s. filter gr_isActive (rs_groups s))) (\<lambda>groups. each (remind_overdue_group H (rs_now s)) groups no_result) s"

datatype reminder_job = DailyContribution | PayoutUpcomingJob | OverdueJob

definition process_reminder_job :: "reminder_host \<Rightarrow> reminder_job \<Rightarrow> unit reminder_method" where
  "process_reminder_job H job =
     js_then (case job of DailyContribution \<Rightarrow> send_contribution_reminders H | PayoutUpcomingJob \<Rightarrow> send_payout_reminders H
       | OverdueJob \<Rightarrow> send_overdue_reminders H) (\<lambda>_. js_return ())"

section \<open>What the jobs do not look at\<close>

text \<open>A method that runs on a changed state as on the given one, for states with \<open>K\<close>.\<close>

definition mirrors :: "('s \<Rightarrow> 's) \<Rightarrow> ('s \<Rightarrow> bool) \<Rightarrow> ('s \<Rightarrow> 'x \<times> 's) \<Rightarrow> bool" where
  "mirrors T K m \<longleftrightarrow> (\<forall>s. K s \<longrightarrow> K (snd (m s)) \<and> m (T s) = (fst (m s), T (snd (m s))))"

lemma mirrorsD: "mirrors T K m \<Longrightarrow> K s \<Longrightarrow> m (T s) = (fst (m s), T (snd (m s)))"
  by (simp add: mirrors_def)

lemma mirrors_then:
  assumes "mirrors T K m" and "\<And>r. mirrors T K (f r)"
  shows "mirrors T K (js_then m f)"
  unfolding mirrors_def
proof (intro allI impI)
  fix s assume k: "K s"
  obtain x s1 where m: "m s = (x, s1)" by (cases "m s")
  have "K s1" "m (T s) = (x, T s1)" using assms(1) k m unfolding mirrors_def by (metis fst_conv snd_conv)+
  then show "K (snd (js_then m f s)) \<and> js_then m f (T s) = (fst (js_then m f s), T (snd (js_then m f s)))"
    using m assms(2) unfolding mirrors_def by (cases x) (simp_all add: js_then_def)
qed

lemma mirrors_return: "mirrors T K (js_return r)"
  by (simp add: mirrors_def)

lemma mirrors_each: "(\<And>x r. x \<in> set xs \<Longrightarrow> mirrors T K (f x r)) \<Longrightarrow> mirrors T K (each f xs r)"
  by (induction xs arbitrary: r) (simp_all add: mirrors_return mirrors_then)

text \<open>A change of the state that the jobs cannot see when they run for the users of \<open>U\<close>.\<close>

locale unseen =
  fixes T :: "reminder_state \<Rightarrow> reminder_state" and K :: "reminder_state \<Rightarrow> bool" and U :: "reminder_user set"
  assumes fields: "rs_calls (T s) = rs_calls s" "rs_notifier (T s) = rs_notifier s" "rs_mails (T s) = rs_mails s" "rs_texts (T s) = rs_texts s"
      "rs_now (T s) = rs_now s" "rs_groups (T s) = rs_groups s" "rs_prefsTable (T s) = rs_prefsTable s"
    and updates: "T (s\<lparr>rs_calls := n\<rparr>) = (T s)\<lparr>rs_calls := n\<rparr>" "T (s\<lparr>rs_notifier := nt\<rparr>) = (T s)\<lparr>rs_notifier := nt\<rparr>"
      "T (s\<lparr>rs_mails := ms\<rparr>) = (T s)\<lparr>rs_mails := ms\<rparr>" "T (s\<lparr>rs_texts := ts\<rparr>) = (T s)\<lparr>rs_texts := ts\<rparr>"
    and keeps: "K s \<Longrightarrow> K (s\<lparr>rs_calls := n\<rparr>)" "K s \<Longrightarrow> K (s\<lparr>rs_notifier := nt\<rparr>)" "K s \<Longrightarrow> K (s\<lparr>rs_mails := ms\<rparr>)"
      "K s \<Longrightarrow> K (s\<lparr>rs_texts := ts\<rparr>)"
    and same_prefs: "K s \<Longrightarrow> u \<in> U \<Longrightarrow> js_get (rs_memory (T s)) (ru_id u) = js_get (rs_memory s) (ru_id u)"
    and same_paid: "K s \<Longrightarrow> u \<in> U \<Longrightarrow> has_contributed g u (T s) = has_contributed g u s"
begin

lemma mirrors_query: "(\<And>s. K s \<Longrightarrow> q (T s) = q s) \<Longrightarrow> mirrors T K (reminder_query H q)"
  by (simp add: mirrors_def reminder_query_def Let_def fields updates keeps flip: updates)

lemma mirrors_prefs: "u \<in> U \<Longrightarrow> mirrors T K (get_prefs H (ru_id u))"
  by (auto simp: mirrors_def get_prefs_def reminder_query_def Let_def fields keeps same_prefs simp flip: updates split: option.split)

lemma mirrors_channel: "mirrors T K (dispatch_channel H prefs event p ch c)"
  by (cases ch) (auto simp: mirrors_def count_outcome_def send_mail_def send_sms_def Let_def fields keeps
      simp flip: updates split: option.split sum.split)

lemma mirrors_dispatch: "mirrors T K (dispatch_all H prefs event p chs c)"
proof (induction chs arbitrary: c)
  case Nil
  then show ?case by (simp add: mirrors_def)
next
  case (Cons ch chs)
  show ?case unfolding mirrors_def
  proof (intro allI impI)
    fix s assume k: "K s"
    obtain c1 s1 where d: "dispatch_channel H prefs event p ch c s = (c1, s1)" by (cases "dispatch_channel H prefs event p ch c s")
    have "K s1" "dispatch_channel H prefs event p ch c (T s) = (c1, T s1)"
      using mirrors_channel [of H prefs event p ch c] k d unfolding mirrors_def by (metis fst_conv snd_conv)+
    then show "K (snd (dispatch_all H prefs event p (ch # chs) c s)) \<and> dispatch_all H prefs event p (ch # chs) c (T s) =
        (fst (dispatch_all H prefs event p (ch # chs) c s), T (snd (dispatch_all H prefs event p (ch # chs) c s)))"
      using d Cons [of c1] by (simp add: mirrors_def)
  qed
qed

lemma mirrors_notify: "mirrors T K (notify_member H prefs u event p r)"
  using mirrors_dispatch unfolding mirrors_def notify_member_def dispatch_reminder_def by (simp add: split_beta Let_def)

lemma mirrors_bind_prefs:
  assumes "u \<in> U" and "\<And>prefs. mirrors T K (f prefs)"
  shows "mirrors T K (\<lambda>s. let (prefs, s1) = get_prefs H (ru_id u) s in f prefs s1)"
  using mirrors_prefs [OF assms(1), of H] assms(2) unfolding mirrors_def by (simp add: split_beta Let_def)

lemma mirrors_contribution:
  assumes "\<And>u. m = Some u \<Longrightarrow> u \<in> U"
  shows "mirrors T K (remind_contribution H now g d m r)"
proof (cases m)
  case None
  then show ?thesis by (simp add: remind_contribution_def mirrors_def)
next
  case (Some u)
  have u: "u \<in> U" using assms Some .
  have paid: "mirrors T K (reminder_query H (has_contributed g u))" by (rule mirrors_query) (simp add: same_paid u)
  have "mirrors T K (js_then (reminder_query H (has_contributed g u)) (\<lambda>paid.
      if paid then js_return (skip_one r) else notify_member H prefs u ContributionDueEvent (due_payload H g d) r))" for prefs
    by (rule mirrors_then [OF paid]) (simp add: mirrors_return mirrors_notify)
  define f where "f prefs = (\<lambda>s. if \<not> rp_enabled prefs \<or> hours_until d now < 0 \<or> rp_contributionHours prefs < hours_until d now
      then (Inr (skip_one r) :: string + reminder_result, s)
      else js_then (reminder_query H (has_contributed g u)) (\<lambda>paid.
        if paid then js_return (skip_one r) else notify_member H prefs u ContributionDueEvent (due_payload H g d) r) s)" for prefs
  have "mirrors T K (f prefs)" for prefs
    using \<open>\<And>prefs. mirrors T K (js_then (reminder_query H (has_contributed g u)) (\<lambda>paid.
      if paid then js_return (skip_one r) else notify_member H prefs u ContributionDueEvent (due_payload H g d) r))\<close> [of prefs]
    by (simp add: mirrors_def f_def)
  from mirrors_bind_prefs [OF u this, of H]
  have "mirrors T K (\<lambda>s. let (prefs, s1) = get_prefs H (ru_id u) s in f prefs s1)" .
  moreover have "remind_contribution H now g d m r = (\<lambda>s. let (prefs, s1) = get_prefs H (ru_id u) s in f prefs s1)"
    by (rule ext) (simp add: remind_contribution_def Some f_def Let_def)
  ultimately show ?thesis by simp
qed

lemma contributions_unaffected:
  assumes "K s" and "\<And>g u. g \<in> set (rs_groups s) \<Longrightarrow> Some u \<in> set (gr_members g) \<Longrightarrow> u \<in> U"
  shows "send_contribution_reminders H (T s) = (fst (send_contribution_reminders H s), T (snd (send_contribution_reminders H s)))"
proof -
  let ?body = "remind_group H (rs_now s)"
  let ?gs = "filter gr_isActive (rs_groups s)"
  let ?s = "s\<lparr>rs_calls := Suc (rs_calls s)\<rparr>"
  have "mirrors T K (each ?body ?gs no_result)"
  proof (rule mirrors_each)
    fix g r assume "g \<in> set ?gs"
    then have "g \<in> set (rs_groups s)" by simp
    from assms(2) [OF this] have "Some u \<in> set (gr_members g) \<Longrightarrow> u \<in> U" for u .
    then have "mirrors T K (each (remind_contribution H (rs_now s) g d) (gr_members g) r)" for d
      by (intro mirrors_each mirrors_contribution) simp
    then show "mirrors T K (?body g r)" by (cases "deadline_of g") (simp_all add: remind_group_def mirrors_return)
  qed
  from mirrorsD [OF this keeps(1) [OF assms(1)]]
  show ?thesis
    by (simp add: send_contribution_reminders_def js_then_def reminder_query_def Let_def fields updates flip: updates)
qed

end

definition forget_contributions :: "reminder_state \<Rightarrow> reminder_state" where
  "forget_contributions s = s\<lparr>rs_contributions := []\<rparr>"

definition not_payers :: "(string \<times> string \<times> int) list \<Rightarrow> reminder_user set" where
  "not_payers cs = {u. ru_id u \<notin> (\<lambda>(g, u, r). u) ` set cs}"

interpretation paid: unseen forget_contributions "\<lambda>s. rs_contributions s = cs" "not_payers cs" for cs
  by unfold_locales (force simp: forget_contributions_def has_contributed_def not_payers_def)+

definition remember_prefs :: "string \<Rightarrow> reminder_prefs \<Rightarrow> reminder_state \<Rightarrow> reminder_state" where
  "remember_prefs w p s = s\<lparr>rs_memory := js_set w p (rs_memory s)\<rparr>"

interpretation wished: unseen "remember_prefs w p" "\<lambda>s. True" "{u. ru_id u \<noteq> w}" for w p
  by unfold_locales (auto simp: remember_prefs_def has_contributed_def js_simps)

text \<open>
  A member who has paid is reminded like one who has not: contributions are looked up under the user's database id, but they
  are stored under the wallet address. Whenever no contribution carries a member's database id, the job does exactly what it
  would do with no contributions at all.
\<close>

theorem payers_reminded_too:
  assumes "\<And>g u. g \<in> set (rs_groups s) \<Longrightarrow> Some u \<in> set (gr_members g) \<Longrightarrow> ru_id u \<notin> (\<lambda>(g, u, r). u) ` set (rs_contributions s)"
  shows "fst (send_contribution_reminders H s) = fst (send_contribution_reminders H (forget_contributions s))
    \<and> rs_notifier (snd (send_contribution_reminders H s)) = rs_notifier (snd (send_contribution_reminders H (forget_contributions s)))
    \<and> rs_mails (snd (send_contribution_reminders H s)) = rs_mails (snd (send_contribution_reminders H (forget_contributions s)))"
proof -
  have "u \<in> not_payers (rs_contributions s)" if "g \<in> set (rs_groups s)" "Some u \<in> set (gr_members g)" for g u
    using assms [OF that] by (simp add: not_payers_def)
  from paid.contributions_unaffected [OF refl this] show ?thesis by (simp add: forget_contributions_def)
qed

text \<open>
  Preferences saved over the route are keyed by the wallet address and looked up by the jobs under the database id: with
  the table missing, as shipped, the job of contributions runs the same whatever the members have wished, a disabling included.
\<close>

theorem preferences_have_no_effect:
  assumes "rs_prefsTable s = None" and "\<And>g u. g \<in> set (rs_groups s) \<Longrightarrow> Some u \<in> set (gr_members g) \<Longrightarrow> ru_id u \<noteq> w"
    and "put_preferences H w p s = ((200, Some prefs), s')"
  shows "fst (send_contribution_reminders H s') = fst (send_contribution_reminders H s)
    \<and> rs_notifier (snd (send_contribution_reminders H s')) = rs_notifier (snd (send_contribution_reminders H s))
    \<and> rs_mails (snd (send_contribution_reminders H s')) = rs_mails (snd (send_contribution_reminders H s))"
proof -
  have "s' = remember_prefs w (prefs_of_row w p) s"
    using assms(1,3) by (auto simp: put_preferences_def upsert_reminder_preferences_def get_prefs_def remember_prefs_def js_simps split: if_splits)
  moreover have "u \<in> {u. ru_id u \<noteq> w}" if "g \<in> set (rs_groups s)" "Some u \<in> set (gr_members g)" for g u using assms(2) [OF that] by simp
  ultimately show ?thesis
    using wished.contributions_unaffected [where s = s and w = w and p = "prefs_of_row w p" and H = H] by (simp add: remember_prefs_def)
qed

text \<open>In memory, a change of some preferences sets the others back to the defaults.\<close>

theorem earlier_preferences_lost:
  assumes "rs_prefsTable s = None"
  shows "fst (upsert_reminder_preferences H w p2 (snd (upsert_reminder_preferences H w p1 s))) = prefs_of_row w p2"
  using assms by (simp add: upsert_reminder_preferences_def get_prefs_def js_simps)

section \<open>Whom the job reminds\<close>

definition remind_one :: "reminder_host \<Rightarrow> reminder_group \<times> int \<times> reminder_user \<Rightarrow> notifier \<Rightarrow> notifier" where
  "remind_one H t = send_to_user (rh_note H) (ru_id (snd (snd t))) (push_payload (due_payload H (fst t) (fst (snd t))))"

text \<open>No table, nothing saved, no database failure: everybody has the default preferences.\<close>

definition plain :: "reminder_host \<Rightarrow> reminder_state \<Rightarrow> bool" where
  "plain H s \<longleftrightarrow> rs_prefsTable s = None \<and> rs_memory s = [] \<and> (\<forall>n. \<not> rh_fails H n)"

text \<open>The outcome of a loop that reminds the given members and leaves the rest of the state.\<close>

definition reminds :: "reminder_host \<Rightarrow> (reminder_group \<times> int \<times> reminder_user) list \<Rightarrow> reminder_result \<Rightarrow> reminder_state \<Rightarrow>
    (string + reminder_result) \<times> reminder_state \<Rightarrow> bool" where
  "reminds H ts r s x \<longleftrightarrow>
     (\<exists>k n. x = (Inr (r\<lparr>rr_sent := rr_sent r + length ts, rr_skipped := k\<rparr>), s\<lparr>rs_notifier := fold (remind_one H) ts (rs_notifier s), rs_calls := n\<rparr>))"

lemma reminds_nothing: "reminds H [] r s (js_return r s)"
proof -
  have "r = r\<lparr>rr_sent := rr_sent r, rr_skipped := rr_skipped r\<rparr>" "s = s\<lparr>rs_notifier := rs_notifier s, rs_calls := rs_calls s\<rparr>" by simp_all
  then show ?thesis unfolding reminds_def js_return_def by (metis add.right_neutral fold_simps(1) list.size(3))
qed

lemma reminds_then:
  assumes "reminds H ts r s (m s)"
    and "\<And>k n. reminds H us (r\<lparr>rr_sent := rr_sent r + length ts, rr_skipped := k\<rparr>)
      (s\<lparr>rs_notifier := fold (remind_one H) ts (rs_notifier s), rs_calls := n\<rparr>)
      (f (r\<lparr>rr_sent := rr_sent r + length ts, rr_skipped := k\<rparr>) (s\<lparr>rs_notifier := fold (remind_one H) ts (rs_notifier s), rs_calls := n\<rparr>))"
  shows "reminds H (ts @ us) r s (js_then m f s)"
proof -
  obtain k n where "m s = (Inr (r\<lparr>rr_sent := rr_sent r + length ts, rr_skipped := k\<rparr>),
      s\<lparr>rs_notifier := fold (remind_one H) ts (rs_notifier s), rs_calls := n\<rparr>)"
    using assms(1) unfolding reminds_def by blast
  then show ?thesis using assms(2) [of k n] by (auto simp: reminds_def js_then_def add.assoc)
qed

lemma plain_updates [simp]: "plain H (s\<lparr>rs_notifier := nt\<rparr>) = plain H s" "plain H (s\<lparr>rs_calls := n\<rparr>) = plain H s"
  by (simp_all add: plain_def)

lemma reminds_each:
  assumes "\<And>x r s. x \<in> set xs \<Longrightarrow> plain H s \<Longrightarrow> rs_contributions s = cs \<Longrightarrow> reminds H (t x) r s (f x r s)"
    and "plain H s" and "rs_contributions s = cs"
  shows "reminds H (concat (map t xs)) r s (each f xs r s)"
  using assms
proof (induction xs arbitrary: r s)
  case Nil
  then show ?case using reminds_nothing [of H r s] by (simp add: js_return_def)
next
  case (Cons x xs)
  have "reminds H (t x) r s (f x r s)" using Cons.prems by simp
  then show ?case by (simp, rule reminds_then) (rule Cons.IH, use Cons.prems in simp_all)
qed

text \<open>Who is to be reminded: the members, in their order, of a group due within a day, unless paid under their id.\<close>

definition due_member :: "int \<Rightarrow> (string \<times> string \<times> int) list \<Rightarrow> reminder_group \<Rightarrow> int \<Rightarrow> reminder_user option \<Rightarrow> (reminder_group \<times> int \<times> reminder_user) list" where
  "due_member now cs g d m =
     (case m of None \<Rightarrow> []
      | Some u \<Rightarrow> if hours_until d now < 0 \<or> 24 < hours_until d now \<or> (gr_id g, ru_id u, gr_currentRound g) \<in> set cs then [] else [(g, d, u)])"

lemma default_prefs_used: "plain H s \<Longrightarrow> get_prefs H u s = (default_prefs u, s)"
  by (simp add: plain_def get_prefs_def)

lemma query_answers: "plain H s \<Longrightarrow> reminder_query H q s = (Inr (q (s\<lparr>rs_calls := Suc (rs_calls s)\<rparr>)), s\<lparr>rs_calls := Suc (rs_calls s)\<rparr>)"
  by (simp add: plain_def reminder_query_def Let_def)

lemma default_prefs_fields: "rp_enabled (default_prefs u)" "rp_contributionHours (default_prefs u) = 24" "rp_email (default_prefs u) = None"
  by (simp_all add: default_prefs_def)

lemma push_only: "dispatch_reminder H (default_prefs u\<lparr>rp_email := e\<rparr>) event p s
    = ((1, 0), s\<lparr>rs_notifier := send_to_user (rh_note H) u (push_payload p) (rs_notifier s)\<rparr>)"
  by (simp add: dispatch_reminder_def default_prefs_def)

lemma reminds_skip: "reminds H [] r s (Inr (skip_one r), s\<lparr>rs_calls := n\<rparr>)"
proof -
  have "skip_one r = r\<lparr>rr_sent := rr_sent r, rr_skipped := Suc (rr_skipped r)\<rparr>"
    "s\<lparr>rs_calls := n\<rparr> = s\<lparr>rs_notifier := rs_notifier s, rs_calls := n\<rparr>" by (simp_all add: skip_one_def)
  then show ?thesis unfolding reminds_def by auto
qed

lemma reminds_member:
  assumes "plain H s" and "rs_contributions s = cs"
  shows "reminds H (due_member now cs g d m) r s (remind_contribution H now g d m r s)"
proof (cases m)
  case None
  then show ?thesis using reminds_nothing [of H r s] by (simp add: due_member_def remind_contribution_def js_return_def)
next
  case (Some u)
  consider (away) "hours_until d now < 0 \<or> 24 < hours_until d now"
    | (paid) "\<not> (hours_until d now < 0 \<or> 24 < hours_until d now)" "(gr_id g, ru_id u, gr_currentRound g) \<in> set cs"
    | (due) "\<not> (hours_until d now < 0 \<or> 24 < hours_until d now)" "(gr_id g, ru_id u, gr_currentRound g) \<notin> set cs" by blast
  then show ?thesis
  proof cases
    case away
    then have "due_member now cs g d m = []" "remind_contribution H now g d m r s = (Inr (skip_one r), s)"
      using Some assms by (auto simp: due_member_def remind_contribution_def default_prefs_used default_prefs_fields)
    then show ?thesis using reminds_skip [of H r s "rs_calls s"] by simp
  next
    case paid
    then have "due_member now cs g d m = []" "remind_contribution H now g d m r s = (Inr (skip_one r), s\<lparr>rs_calls := Suc (rs_calls s)\<rparr>)"
      using Some assms by (auto simp: due_member_def remind_contribution_def default_prefs_used default_prefs_fields query_answers js_then_def
          js_return_def has_contributed_def)
    then show ?thesis using reminds_skip by simp
  next
    case due
    then have "due_member now cs g d m = [(g, d, u)]" "remind_contribution H now g d m r s = (Inr (r\<lparr>rr_sent := rr_sent r + 1, rr_failed := rr_failed r + 0\<rparr>),
        s\<lparr>rs_calls := Suc (rs_calls s), rs_notifier := remind_one H (g, d, u) (rs_notifier s)\<rparr>)"
      using Some assms by (simp_all add: due_member_def remind_contribution_def default_prefs_used default_prefs_fields query_answers js_then_def
          has_contributed_def notify_member_def push_only add_counts_def remind_one_def)
    moreover have "r\<lparr>rr_sent := rr_sent r + 1, rr_failed := rr_failed r + 0\<rparr> = r\<lparr>rr_sent := rr_sent r + 1, rr_skipped := rr_skipped r\<rparr>" by simp
    moreover have "s\<lparr>rs_calls := n, rs_notifier := x\<rparr> = s\<lparr>rs_notifier := x, rs_calls := n\<rparr>" for n x by simp
    ultimately show ?thesis unfolding reminds_def by (metis One_nat_def fold_simps(1,2) list.size(3,4) plus_nat.add_0)
  qed
qed

definition due_group :: "int \<Rightarrow> (string \<times> string \<times> int) list \<Rightarrow> reminder_group \<Rightarrow> (reminder_group \<times> int \<times> reminder_user) list" where
  "due_group now cs g = (case deadline_of g of None \<Rightarrow> [] | Some d \<Rightarrow> concat (map (due_member now cs g d) (gr_members g)))"

definition due_now :: "reminder_state \<Rightarrow> (reminder_group \<times> int \<times> reminder_user) list" where
  "due_now s = concat (map (due_group (rs_now s) (rs_contributions s)) (filter gr_isActive (rs_groups s)))"

lemma reminds_group:
  assumes "plain H s" and "rs_contributions s = cs"
  shows "reminds H (due_group now cs g) r s (remind_group H now g r s)"
proof (cases "deadline_of g")
  case None
  then show ?thesis using reminds_nothing [of H r s] by (simp add: due_group_def remind_group_def js_return_def)
next
  case (Some d)
  then show ?thesis using reminds_each [where t = "due_member now cs g d" and H = H and cs = cs, OF reminds_member assms]
    by (simp add: due_group_def remind_group_def)
qed

text \<open>
  C36. The job of contributions, while nothing fails and nobody's preferences are found: it notifies exactly the members, in the
  order of groups and members, of the active groups whose deadline (or next payout) is at most a day ahead and not past, unless
  a contribution of the current round carries their database id, and counts as many sent and none failed.
\<close>

theorem contribution_reminders_exact:
  assumes "plain H s"
  shows "\<exists>k. fst (send_contribution_reminders H s) = Inr \<lparr>rr_sent = length (due_now s), rr_failed = 0, rr_skipped = k\<rparr>
    \<and> rs_notifier (snd (send_contribution_reminders H s)) = fold (remind_one H) (due_now s) (rs_notifier s)"
proof -
  let ?s = "s\<lparr>rs_calls := Suc (rs_calls s)\<rparr>"
  have "reminds H (due_now s) no_result ?s (each (remind_group H (rs_now s)) (filter gr_isActive (rs_groups s)) no_result ?s)"
    unfolding due_now_def by (rule reminds_each [OF reminds_group]) (use assms in simp_all)
  moreover have "send_contribution_reminders H s = each (remind_group H (rs_now s)) (filter gr_isActive (rs_groups s)) no_result ?s"
    using assms by (simp add: send_contribution_reminders_def js_then_def query_answers)
  ultimately show ?thesis by (auto simp: reminds_def no_result_def)
qed

text \<open>
  As shipped, the schema gives a group neither a deadline nor a next payout, and the job of contributions then notifies
  nobody, whatever the groups and their members.
\<close>

theorem no_columns_no_reminders:
  assumes "\<And>g. g \<in> set (rs_groups s) \<Longrightarrow> gr_cycleDeadline g = None \<and> gr_nextPayoutAt g = None"
  shows "rs_notifier (snd (send_contribution_reminders H s)) = rs_notifier s
    \<and> fst (send_contribution_reminders H s) \<in> {Inl ''database unavailable'', Inr no_result}"
proof -
  have "each (remind_group H now) gs r t = (Inr r, t)" if "set gs \<subseteq> set (rs_groups s)" for now gs r t
    using that assms by (induction gs) (simp_all add: remind_group_def deadline_of_def js_then_def js_return_def)
  then show ?thesis by (auto simp: send_contribution_reminders_def js_then_def reminder_query_def Let_def)
qed

section \<open>Examples\<close>

definition demo_reminder_host :: reminder_host where
  "demo_reminder_host = \<lparr>rh_note = demo_note_host, rh_fails = (\<lambda>n. False), rh_mail = (\<lambda>n. Inr True), rh_sms = (\<lambda>n. True), rh_twilio = False,
     rh_number = (\<lambda>x. ''5''), rh_date = (\<lambda>d. ''2/1/2026'')\<rparr>"

definition demo_member :: reminder_user where
  "demo_member = \<lparr>ru_id = ''u1'', ru_walletAddress = ''GA'', ru_email = None\<rparr>"

definition demo_due_group :: "int option \<Rightarrow> reminder_group" where
  "demo_due_group d = \<lparr>gr_id = ''g1'', gr_name = ''Ajo'', gr_contributionAmount = 50000000, gr_currentRound = 1, gr_isActive = True, gr_cycleDeadline = d,
     gr_nextPayoutAt = None, gr_payoutIndex = None, gr_members = [Some demo_member]\<rparr>"

definition demo_reminder_state :: "int option \<Rightarrow> reminder_state" where
  "demo_reminder_state d = \<lparr>rs_groups = [demo_due_group d], rs_contributions = [(''g1'', ''GA'', 1)], rs_prefsTable = None, rs_memory = [],
     rs_notifier = new_notifier, rs_mails = [], rs_texts = [], rs_now = 0, rs_calls = 0\<rparr>"

definition no_pushes :: prefs_fields where
  "no_pushes = \<lparr>pp_channels = None, pp_contributionHours = None, pp_payoutHours = None, pp_enabled = Some False, pp_phoneNumber = None, pp_email = None\<rparr>"

lemma demo_members: "g \<in> set (rs_groups (demo_reminder_state d)) \<Longrightarrow> Some u \<in> set (gr_members g) \<Longrightarrow> u = demo_member"
  by (simp add: demo_reminder_state_def demo_due_group_def)

lemma demo_plain: "plain demo_reminder_host (demo_reminder_state d)"
  by (simp add: plain_def demo_reminder_host_def demo_reminder_state_def)

theorem contribution_reminders_exact_witness:
  "due_now (demo_reminder_state (Some 3600000)) = [(demo_due_group (Some 3600000), 3600000, demo_member)]
   \<and> (\<exists>k. fst (send_contribution_reminders demo_reminder_host (demo_reminder_state (Some 3600000))) = Inr \<lparr>rr_sent = 1, rr_failed = 0, rr_skipped = k\<rparr>)"
proof -
  have d: "due_now (demo_reminder_state (Some 3600000)) = [(demo_due_group (Some 3600000), 3600000, demo_member)]"
    by (simp add: due_now_def demo_reminder_state_def due_group_def demo_due_group_def deadline_of_def due_member_def hours_until_def demo_member_def)
  show ?thesis using contribution_reminders_exact [OF demo_plain [of "Some 3600000"]] unfolding d by auto
qed

theorem no_columns_no_reminders_witness:
  "rs_notifier (snd (send_contribution_reminders demo_reminder_host (demo_reminder_state None))) = new_notifier"
proof -
  have "gr_cycleDeadline g = None \<and> gr_nextPayoutAt g = None" if "g \<in> set (rs_groups (demo_reminder_state None))" for g
    using that by (simp add: demo_reminder_state_def demo_due_group_def)
  from no_columns_no_reminders [where H = demo_reminder_host and s = "demo_reminder_state None", OF this]
  have "rs_notifier (snd (send_contribution_reminders demo_reminder_host (demo_reminder_state None))) = rs_notifier (demo_reminder_state None)"
    by (rule conjunct1)
  then show ?thesis by (simp add: demo_reminder_state_def)
qed

theorem payers_reminded_too_witness:
  "(''g1'', ru_walletAddress demo_member, 1) \<in> set (rs_contributions (demo_reminder_state (Some 3600000)))
   \<and> fst (send_contribution_reminders demo_reminder_host (demo_reminder_state (Some 3600000)))
     = fst (send_contribution_reminders demo_reminder_host (forget_contributions (demo_reminder_state (Some 3600000))))"
proof -
  have "ru_id u \<notin> (\<lambda>(g, u, r). u) ` set (rs_contributions (demo_reminder_state (Some 3600000)))"
    if "g \<in> set (rs_groups (demo_reminder_state (Some 3600000)))" "Some u \<in> set (gr_members g)" for g u
    using demo_members [OF that] by (simp add: demo_member_def demo_reminder_state_def)
  from payers_reminded_too [where H = demo_reminder_host and s = "demo_reminder_state (Some 3600000)", OF this] show ?thesis by (simp add: demo_member_def demo_reminder_state_def)
qed

theorem preferences_have_no_effect_witness:
  "\<exists>prefs s'. put_preferences demo_reminder_host ''GA'' no_pushes (demo_reminder_state (Some 3600000)) = ((200, Some prefs), s') \<and> \<not> rp_enabled prefs
   \<and> fst (send_contribution_reminders demo_reminder_host s') = fst (send_contribution_reminders demo_reminder_host (demo_reminder_state (Some 3600000)))"
proof -
  let ?s = "demo_reminder_state (Some 3600000)"
  obtain prefs s' where p: "put_preferences demo_reminder_host ''GA'' no_pushes ?s = ((200, Some prefs), s')" "\<not> rp_enabled prefs"
    by (simp add: put_preferences_def prefs_schema_def no_pushes_def upsert_reminder_preferences_def get_prefs_def demo_reminder_state_def js_simps
        prefs_of_row_def get_or_simps)
  have "ru_id u \<noteq> ''GA''" if "g \<in> set (rs_groups ?s)" "Some u \<in> set (gr_members g)" for g u
    using demo_members [OF that] by (simp add: demo_member_def)
  moreover have "rs_prefsTable ?s = None" by (simp add: demo_reminder_state_def)
  ultimately show ?thesis using preferences_have_no_effect [OF _ _ p(1)] p by blast
qed

theorem earlier_preferences_lost_witness:
  "\<exists>p. pp_enabled p = Some True \<and> rp_enabled (fst (upsert_reminder_preferences demo_reminder_host ''GA'' (p\<lparr>pp_enabled := None\<rparr>)
     (snd (upsert_reminder_preferences demo_reminder_host ''GA'' no_pushes (demo_reminder_state None)))))"
proof -
  have "rs_prefsTable (demo_reminder_state None) = None" by (simp add: demo_reminder_state_def)
  from earlier_preferences_lost [OF this, of demo_reminder_host "''GA''" "no_pushes\<lparr>pp_enabled := None\<rparr>" no_pushes]
  have "rp_enabled (fst (upsert_reminder_preferences demo_reminder_host ''GA'' ((no_pushes\<lparr>pp_enabled := Some True\<rparr>)\<lparr>pp_enabled := None\<rparr>)
     (snd (upsert_reminder_preferences demo_reminder_host ''GA'' no_pushes (demo_reminder_state None)))))"
    by (simp add: prefs_of_row_def get_or_simps)
  then show ?thesis by (intro exI [of _ "no_pushes\<lparr>pp_enabled := Some True\<rparr>"]) simp
qed

end
