(* ===== verification/ApiErrors.thy ===== *)
theory ApiErrors
  imports JsPrelude
begin

text \<open>
  Errors of the backend's API and its versions: the error classes of \<open>backend/src/errors\<close>, the middleware
  \<open>middleware/errorHandler.ts\<close> that answers requests that threw, \<open>utils/errorMapper.ts\<close>, \<open>utils/versionedErrorHandler.ts\<close>,
  \<open>utils/apiVersioning.ts\<close> with \<open>middleware/apiVersion.ts\<close> and \<open>routes/versions.ts\<close>.

  A value is thrown by a route: an instance of one of the classes, an error of the validation library, an error of the
  language, another error with the fields its class gave it, or something that is no error. Values in \<open>details\<close> are JSON trees; an error
  object inside one stands for itself by its message. Fields that are undefined are \<open>JUndef\<close>, which the serialiser drops. Responses
  are the status and the tree handed to \<open>res.json\<close>. The text of a number, dates, request ids and the time are given.
\<close>

section \<open>Values\<close>

datatype json = JUndef | JBool bool | JNum rat | JText string | JList "json list" | JObj "(string \<times> json) list" | JError string

definition json_truthy :: "json option \<Rightarrow> bool" where
  "json_truthy d = (case d of None \<Rightarrow> False | Some v \<Rightarrow>
     (case v of JUndef \<Rightarrow> False | JBool b \<Rightarrow> b | JNum x \<Rightarrow> x \<noteq> 0 | JText t \<Rightarrow> t \<noteq> [] | _ \<Rightarrow> True))"

text \<open>The fields that \<open>...d\<close> spreads, for an object or nothing.\<close>

definition spread_fields :: "json option \<Rightarrow> (string, json) jsmap" where
  "spread_fields d = (case d of Some (JObj kvs) \<Rightarrow> kvs | _ \<Rightarrow> [])"

definition text_or_undef :: "string option \<Rightarrow> json" where
  "text_or_undef x = (case x of None \<Rightarrow> JUndef | Some t \<Rightarrow> JText t)"

definition num_or_undef :: "rat option \<Rightarrow> json" where
  "num_or_undef x = (case x of None \<Rightarrow> JUndef | Some n \<Rightarrow> JNum n)"

text \<open>\<open>...(d && { details: d })\<close>.\<close>

definition if_truthy :: "string \<Rightarrow> json option \<Rightarrow> (string \<times> json) list" where
  "if_truthy k d = (if json_truthy d then [(k, the d)] else [])"

primrec js_join :: "string \<Rightarrow> string list \<Rightarrow> string" where
  "js_join sep [] = []"
| "js_join sep (x # xs) = x @ (if xs = [] then [] else sep @ js_join sep xs)"

section \<open>Error classes\<close>

datatype app_class = AppClass | ValidationClass | NotFoundClass | UnauthorizedClass | ForbiddenClass | ConflictClass | RateLimitClass | ContractClass
  | TransactionClass | BalanceClass | NetworkClass | TimeoutClass | InternalClass | AuthenticationClass | BlockchainClass

record app_error =
  ae_class :: app_class
  ae_message :: string
  ae_code :: string
  ae_statusCode :: nat
  ae_details :: "json option"
  ae_operational :: bool
  ae_stack :: string

text \<open>The stack is that of the place of the throw; it is given here by the message it begins with.\<close>

definition app_error :: "app_class \<Rightarrow> string \<Rightarrow> string \<Rightarrow> nat \<Rightarrow> json option \<Rightarrow> bool \<Rightarrow> app_error" where
  "app_error c m code status details operational = \<lparr>ae_class = c, ae_message = m, ae_code = code, ae_statusCode = status, ae_details = details,
     ae_operational = operational, ae_stack = ''Error: '' @ m\<rparr>"

definition to_json :: "app_error \<Rightarrow> json" where
  "to_json e = JObj ([(''success'', JBool False), (''error'', JText (ae_message e)), (''code'', JText (ae_code e))] @ if_truthy ''details'' (ae_details e))"

definition validation_error :: "string \<Rightarrow> json option \<Rightarrow> app_error" where
  "validation_error m details = app_error ValidationClass m ''VALIDATION_ERROR'' 400 details True"

definition not_found_error :: "string \<Rightarrow> string option \<Rightarrow> app_error" where
  "not_found_error resource identifier = app_error NotFoundClass
     (case truthy identifier of Some i \<Rightarrow> resource @ '' with identifier '' @ CHR 0x27 # i @ CHR 0x27 # '' not found'' | None \<Rightarrow> resource @ '' not found'')
     ''NOT_FOUND'' 404 None True"

definition unauthorized_error :: "string option \<Rightarrow> app_error" where
  "unauthorized_error m = app_error UnauthorizedClass (get_or ''Unauthorized access'' m) ''UNAUTHORIZED'' 401 None True"

definition forbidden_error :: "string option \<Rightarrow> app_error" where
  "forbidden_error m = app_error ForbiddenClass (get_or ''Access forbidden'' m) ''FORBIDDEN'' 403 None True"

definition conflict_error :: "string \<Rightarrow> json option \<Rightarrow> app_error" where
  "conflict_error m details = app_error ConflictClass m ''CONFLICT'' 409 details True"

definition rate_limit_error :: "string option \<Rightarrow> rat option \<Rightarrow> app_error" where
  "rate_limit_error m retryAfter = app_error RateLimitClass (get_or ''Too many requests'' m) ''RATE_LIMIT_EXCEEDED'' 429
     (Some (JObj [(''retryAfter'', num_or_undef retryAfter)])) True"

definition contract_error :: "string \<Rightarrow> json \<Rightarrow> app_error" where
  "contract_error m contractError = app_error ContractClass m ''CONTRACT_ERROR'' 500 (Some (JObj [(''contractError'', contractError)])) True"

definition transaction_error :: "string \<Rightarrow> string option \<Rightarrow> json option \<Rightarrow> app_error" where
  "transaction_error m txHash details = app_error TransactionClass m ''TRANSACTION_ERROR'' 500
     (Some (JObj (AList.updates (map fst (spread_fields details)) (map snd (spread_fields details)) [(''txHash'', text_or_undef txHash)]))) True"

definition insufficient_balance_error :: "(rat \<Rightarrow> string) \<Rightarrow> rat \<Rightarrow> rat \<Rightarrow> app_error" where
  "insufficient_balance_error num required available = app_error BalanceClass
     (''Insufficient balance. Required: '' @ num required @ '', Available: '' @ num available) ''INSUFFICIENT_BALANCE'' 400
     (Some (JObj [(''required'', JNum required), (''available'', JNum available)])) True"

definition network_error :: "string \<Rightarrow> json option \<Rightarrow> app_error" where
  "network_error m details = app_error NetworkClass m ''NETWORK_ERROR'' 503 details True"

definition timeout_error :: "(rat \<Rightarrow> string) \<Rightarrow> string \<Rightarrow> rat \<Rightarrow> app_error" where
  "timeout_error num operation ms = app_error TimeoutClass
     (''Operation '' @ CHR 0x27 # operation @ CHR 0x27 # '' timed out after '' @ num ms @ ''ms'') ''TIMEOUT_ERROR'' 504
     (Some (JObj [(''operation'', JText operation), (''timeout'', JNum ms)])) True"

definition internal_server_error :: "string option \<Rightarrow> json option \<Rightarrow> app_error" where
  "internal_server_error m details = app_error InternalClass (get_or ''Internal server error'' m) ''INTERNAL_SERVER_ERROR'' 500 details False"

subsection \<open>Validation and authentication\<close>

record zod_issue =
  zi_path :: "string list"
  zi_message :: string
  zi_code :: string

definition from_zod_errors :: "zod_issue list \<Rightarrow> app_error" where
  "from_zod_errors errors = validation_error ''Validation failed'' (Some (JObj [(''errors'', JList (map (\<lambda>e. JObj
     [(''path'', JText (js_join ''.'' (zi_path e))), (''message'', JText (zi_message e)), (''code'', JText (zi_code e))]) errors))]))"

definition missing_field :: "string \<Rightarrow> app_error" where
  "missing_field fieldName = validation_error (''Missing required field: '' @ fieldName) (Some (JObj [(''field'', JText fieldName)]))"

definition invalid_format :: "string \<Rightarrow> string \<Rightarrow> app_error" where
  "invalid_format fieldName format = validation_error (''Invalid format for field '' @ CHR 0x27 # fieldName @ CHR 0x27 # ''. Expected: '' @ format)
     (Some (JObj [(''field'', JText fieldName), (''expectedFormat'', JText format)]))"

text \<open>Without a bound on either side the text names the missing upper bound.\<close>

definition out_of_range :: "(rat \<Rightarrow> string) \<Rightarrow> string \<Rightarrow> rat option \<Rightarrow> rat option \<Rightarrow> app_error" where
  "out_of_range num fieldName lo hi =
     (let shown = (\<lambda>x. case x of None \<Rightarrow> ''undefined'' | Some n \<Rightarrow> num n);
          range_text = (if lo \<noteq> None \<and> hi \<noteq> None then shown lo @ ''-'' @ shown hi else if lo \<noteq> None then ''>= '' @ shown lo else ''<= '' @ shown hi)
      in validation_error (''Field '' @ CHR 0x27 # fieldName @ CHR 0x27 # '' is out of range. Expected: '' @ range_text)
           (Some (JObj [(''field'', JText fieldName), (''min'', num_or_undef lo), (''max'', num_or_undef hi)])))"

definition authentication_error :: "string option \<Rightarrow> json option \<Rightarrow> app_error" where
  "authentication_error m details = app_error AuthenticationClass (get_or ''Authentication failed'' m) ''AUTHENTICATION_ERROR'' 401 details True"

definition auth_reason :: "string \<Rightarrow> string \<Rightarrow> app_error" where
  "auth_reason m reason = authentication_error (Some m) (Some (JObj [(''reason'', JText reason)]))"

definition invalid_credentials :: app_error where
  "invalid_credentials = authentication_error (Some ''Invalid credentials provided'') None"

definition token_expired :: app_error where
  "token_expired = auth_reason ''Authentication token has expired'' ''TOKEN_EXPIRED''"

definition token_invalid :: app_error where
  "token_invalid = auth_reason ''Invalid or malformed authentication token'' ''TOKEN_INVALID''"

definition missing_token :: app_error where
  "missing_token = auth_reason ''Authentication token is missing'' ''TOKEN_MISSING''"

definition session_expired :: app_error where
  "session_expired = auth_reason ''Session has expired'' ''SESSION_EXPIRED''"

definition mfa_required :: app_error where
  "mfa_required = auth_reason ''Multi-factor authentication is required'' ''MFA_REQUIRED''"

definition invalid_mfa_code :: app_error where
  "invalid_mfa_code = auth_reason ''Invalid multi-factor authentication code'' ''INVALID_MFA_CODE''"

subsection \<open>Blockchain\<close>

definition blockchain_error :: "string \<Rightarrow> json \<Rightarrow> nat \<Rightarrow> json option \<Rightarrow> app_error" where
  "blockchain_error m contractError status details = app_error BlockchainClass m ''BLOCKCHAIN_ERROR'' status
     (Some (JObj (js_set ''contractError'' contractError (spread_fields details)))) True"

text \<open>\<open>{ operation, ...details }\<close>: later fields win.\<close>

definition fields_then :: "(string \<times> json) list \<Rightarrow> json option \<Rightarrow> json option" where
  "fields_then kvs details = Some (JObj (AList.updates (map fst (spread_fields details)) (map snd (spread_fields details)) kvs))"

definition contract_execution_failed :: "string \<Rightarrow> json \<Rightarrow> json option \<Rightarrow> app_error" where
  "contract_execution_failed operation err details =
     blockchain_error (''Contract execution failed for operation: '' @ operation) err 500 (fields_then [(''operation'', JText operation)] details)"

definition transaction_failed :: "string \<Rightarrow> string \<Rightarrow> json option \<Rightarrow> app_error" where
  "transaction_failed txHash reason details =
     blockchain_error (''Transaction failed: '' @ reason) JUndef 500 (fields_then [(''txHash'', JText txHash), (''reason'', JText reason)] details)"

definition insufficient_balance :: "(rat \<Rightarrow> string) \<Rightarrow> rat \<Rightarrow> rat \<Rightarrow> string option \<Rightarrow> app_error" where
  "insufficient_balance num required available token =
     blockchain_error (''Insufficient balance. Required: '' @ num required @ '', Available: '' @ num available
       @ (case truthy token of Some t \<Rightarrow> '' ('' @ t @ '')'' | None \<Rightarrow> [])) JUndef 400
       (Some (JObj [(''required'', JNum required), (''available'', JNum available), (''token'', text_or_undef token)]))"

definition invalid_contract_state :: "string \<Rightarrow> string \<Rightarrow> app_error" where
  "invalid_contract_state expectedState currentState =
     blockchain_error (''Invalid contract state. Expected: '' @ expectedState @ '', Current: '' @ currentState) JUndef 400
       (Some (JObj [(''expectedState'', JText expectedState), (''currentState'', JText currentState)]))"

definition chain_network_error :: "string \<Rightarrow> json option \<Rightarrow> app_error" where
  "chain_network_error m details = blockchain_error (''Network error: '' @ m) JUndef 503 details"

definition rpc_error :: "string \<Rightarrow> json \<Rightarrow> app_error" where
  "rpc_error name err = blockchain_error (''RPC call failed for met'' @ ''hod: '' @ name) err 503 (Some (JObj [(''met'' @ ''hod'', JText name)]))"

definition chain_timeout :: "(rat \<Rightarrow> string) \<Rightarrow> string \<Rightarrow> rat \<Rightarrow> app_error" where
  "chain_timeout num operation ms =
     blockchain_error (''Blockchain operation timed out: '' @ operation @ '' ('' @ num ms @ ''ms)'') JUndef 504
       (Some (JObj [(''operation'', JText operation), (''timeout'', JNum ms)]))"

definition invalid_parameters :: "string \<Rightarrow> string list \<Rightarrow> app_error" where
  "invalid_parameters operation ps =
     blockchain_error (''Invalid parameters for operation: '' @ operation) JUndef 400
       (Some (JObj [(''operation'', JText operation), (''invalidParams'', JList (map JText ps))]))"

subsection \<open>Errors of the domain\<close>

text \<open>Errors of the language and classes that extend \<open>Error\<close> itself, with the fields they add.\<close>

record error_object =
  je_name :: string
  je_message :: string
  je_stack :: string
  je_code :: "string option"
  je_statusCode :: "nat option"
  je_status :: "nat option"
  je_details :: "json option"

definition plain_error :: "string \<Rightarrow> string \<Rightarrow> error_object" where
  "plain_error name m = \<lparr>je_name = name, je_message = m, je_stack = name @ '': '' @ m, je_code = None, je_statusCode = None, je_status = None,
     je_details = None\<rparr>"

definition domain_error :: "string \<Rightarrow> string \<Rightarrow> string \<Rightarrow> nat \<Rightarrow> error_object" where
  "domain_error name m code status = (plain_error name m)\<lparr>je_code := Some code, je_statusCode := Some status\<rparr>"

definition multi_sig_error :: "string \<Rightarrow> string \<Rightarrow> nat \<Rightarrow> error_object" where
  "multi_sig_error = domain_error ''MultiSigError''"

definition gamification_error :: "string \<Rightarrow> string \<Rightarrow> nat \<Rightarrow> error_object" where
  "gamification_error = domain_error ''GamificationError''"

datatype multi_sig_failure = ConfigNotFound string | ProposalNotFound string | ProposalExpired string | ProposalAlreadyExecuted string
  | InsufficientSignatures nat nat | DuplicateSignature string | UnauthorizedSigner string | InvalidThreshold nat nat | InvalidSignature "string option"

fun multi_sig_failure_error :: "multi_sig_failure \<Rightarrow> error_object" where
  "multi_sig_failure_error (ConfigNotFound g) = multi_sig_error (''Multi-sig configuration not found for group: '' @ g) ''MULTISIG_NOT_FOUND'' 404"
| "multi_sig_failure_error (ProposalNotFound p) = multi_sig_error (''Proposal not found: '' @ p) ''PROPOSAL_NOT_FOUND'' 404"
| "multi_sig_failure_error (ProposalExpired p) = multi_sig_error (''Proposal has expired: '' @ p) ''PROPOSAL_EXPIRED'' 410"
| "multi_sig_failure_error (ProposalAlreadyExecuted p) = multi_sig_error (''Proposal already executed: '' @ p) ''PROPOSAL_ALREADY_EXECUTED'' 409"
| "multi_sig_failure_error (InsufficientSignatures n k) =
     multi_sig_error (''Insufficient signatures: '' @ show_nat n @ ''/'' @ show_nat k) ''INSUFFICIENT_SIGNATURES'' 400"
| "multi_sig_failure_error (DuplicateSignature s) = multi_sig_error (''Signer has already signed: '' @ s) ''DUPLICATE_SIGNATURE'' 409"
| "multi_sig_failure_error (UnauthorizedSigner w) = multi_sig_error (''Unauthorized signer: '' @ w) ''UNAUTHORIZED_SIGNER'' 403"
| "multi_sig_failure_error (InvalidThreshold t n) =
     multi_sig_error (''Invalid threshold: '' @ show_nat t @ '' (must be <= '' @ show_nat n @ '')'') ''INVALID_THRESHOLD'' 400"
| "multi_sig_failure_error (InvalidSignature m) = multi_sig_error (get_or ''Invalid signature'' m) ''INVALID_SIGNATURE'' 400"

datatype gamification_failure = DuplicateReward "string option" | InvalidStreak "string option" | AchievementNotFound string
  | ChallengeNotFound string | ChallengeExpired string | InsufficientPoints nat nat | RateLimitExceeded string int

fun gamification_failure_error :: "gamification_failure \<Rightarrow> error_object" where
  "gamification_failure_error (DuplicateReward m) = gamification_error (get_or ''Reward already claimed'' m) ''DUPLICATE_REWARD'' 409"
| "gamification_failure_error (InvalidStreak m) = gamification_error (get_or ''Invalid streak operation'' m) ''INVALID_STREAK'' 400"
| "gamification_failure_error (AchievementNotFound a) = gamification_error (''Achievement not found: '' @ a) ''ACHIEVEMENT_NOT_FOUND'' 404"
| "gamification_failure_error (ChallengeNotFound c) = gamification_error (''Challenge not found: '' @ c) ''CHALLENGE_NOT_FOUND'' 404"
| "gamification_failure_error (ChallengeExpired c) = gamification_error (''Challenge expired: '' @ c) ''CHALLENGE_EXPIRED'' 410"
| "gamification_failure_error (InsufficientPoints n k) =
     gamification_error (''Insufficient points: required '' @ show_nat n @ '', available '' @ show_nat k) ''INSUFFICIENT_POINTS'' 400"
| "gamification_failure_error (RateLimitExceeded action retryAfter) =
     gamification_error (''Rate limit exceeded for '' @ action @ ''. Retry after '' @ show_int retryAfter @ '' seconds'') ''RATE_LIMIT_EXCEEDED'' 429"

section \<open>What a route throws\<close>

text \<open>A value that is no error has perhaps a \<open>message\<close>, a \<open>code\<close> or \<open>type\<close>, and a text, \<open>None\<close> for null and undefined.\<close>

record other_value =
  ov_message :: "string option"
  ov_code :: "string option"
  ov_text :: "string option"
  ov_json :: json

datatype thrown = App app_error | Zod "zod_issue list" error_object | SyntaxErr error_object | TypeErr error_object | RangeErr error_object | OtherErr error_object
  | NoError other_value

definition from_unknown :: "thrown \<Rightarrow> app_error" where
  "from_unknown t =
     (let internal = (\<lambda>e. internal_server_error (Some (je_message e))
         (Some (JObj [(''originalError'', JText (je_name e)), (''stack'', JText (je_stack e))])))
      in case t of
           App e \<Rightarrow> e
         | Zod issues e \<Rightarrow> internal e | SyntaxErr e \<Rightarrow> internal e | TypeErr e \<Rightarrow> internal e | RangeErr e \<Rightarrow> internal e | OtherErr e \<Rightarrow> internal e
         | NoError v \<Rightarrow> internal_server_error (Some ''An unknown error occurred'') (Some (JObj [(''error'', ov_json v)])))"

definition factory_is_operational :: "thrown \<Rightarrow> bool" where
  "factory_is_operational t = (case t of App e \<Rightarrow> ae_operational e | _ \<Rightarrow> False)"

section \<open>The error middleware\<close>

definition handled_error :: "thrown \<Rightarrow> app_error" where
  "handled_error t =
     (case t of
        Zod issues e \<Rightarrow> app_error AppClass ''Validation failed'' ''VALIDATION_ERROR'' 400
          (Some (JList (map (\<lambda>i. JObj [(''path'', JText (js_join ''.'' (zi_path i))), (''message'', JText (zi_message i))]) issues))) True
      | App e \<Rightarrow> e
      | _ \<Rightarrow> from_unknown t)"

definition error_handler :: "bool \<Rightarrow> thrown \<Rightarrow> nat \<times> json" where
  "error_handler development t =
     (let e = handled_error t
      in (ae_statusCode e, JObj ([(''success'', JBool False), (''error'', JText (ae_message e)), (''code'', JText (ae_code e))]
           @ if_truthy ''details'' (ae_details e) @ (if development then [(''stack'', JText (ae_stack e))] else []))))"

definition not_found_handler :: "string \<Rightarrow> nat \<times> json" where
  "not_found_handler path = (404, JObj [(''success'', JBool False), (''error'', JText ''Route not found''), (''code'', JText ''NOT_FOUND''),
     (''path'', JText path)])"

text \<open>A route wrapped by \<open>asyncHandler\<close> either answers or is answered by the middleware; the state after a throw is kept.\<close>

definition async_handler :: "bool \<Rightarrow> ('s, thrown, nat \<times> json) js_method \<Rightarrow> 's \<Rightarrow> (nat \<times> json) \<times> 's" where
  "async_handler development f s = (case f s of (Inr r, s') \<Rightarrow> (r, s') | (Inl t, s') \<Rightarrow> (error_handler development t, s'))"

section \<open>The mapper\<close>

definition with_original :: "string \<Rightarrow> error_object \<Rightarrow> app_error" where
  "with_original m e = validation_error m (Some (JObj [(''originalMessage'', JText (je_message e))]))"

definition map_error :: "thrown \<Rightarrow> app_error" where
  "map_error t =
     (case t of
        App e \<Rightarrow> e
      | Zod issues e \<Rightarrow> from_zod_errors issues
      | SyntaxErr e \<Rightarrow> with_original ''Invalid JSON format'' e
      | TypeErr e \<Rightarrow> with_original ''Type validation failed'' e
      | RangeErr e \<Rightarrow> with_original ''Value out of range'' e
      | _ \<Rightarrow> from_unknown t)"

text \<open>\<open>error?.message || error?.toString() || default\<close>.\<close>

definition thrown_text :: "string \<Rightarrow> thrown \<Rightarrow> string" where
  "thrown_text d t =
     (let error_text = (\<lambda>name m. if m \<noteq> [] then m else if name \<noteq> [] then name else d)
      in case t of
           App e \<Rightarrow> error_text ''Error'' (ae_message e)
         | Zod issues e \<Rightarrow> error_text (je_name e) (je_message e)
         | SyntaxErr e \<Rightarrow> error_text (je_name e) (je_message e)
         | TypeErr e \<Rightarrow> error_text (je_name e) (je_message e)
         | RangeErr e \<Rightarrow> error_text (je_name e) (je_message e)
         | OtherErr e \<Rightarrow> error_text (je_name e) (je_message e)
         | NoError v \<Rightarrow> (case truthy (ov_message v) of Some m \<Rightarrow> m | None \<Rightarrow> get_or d (truthy (ov_text v))))"

text \<open>\<open>error?.code || error?.type\<close>; no error of the repository has a \<open>type\<close>.\<close>

definition thrown_code :: "thrown \<Rightarrow> json" where
  "thrown_code t =
     (case t of App e \<Rightarrow> JText (ae_code e) | Zod issues e \<Rightarrow> text_or_undef (je_code e) | SyntaxErr e \<Rightarrow> text_or_undef (je_code e)
      | TypeErr e \<Rightarrow> text_or_undef (je_code e) | RangeErr e \<Rightarrow> text_or_undef (je_code e) | OtherErr e \<Rightarrow> text_or_undef (je_code e)
      | NoError v \<Rightarrow> text_or_undef (ov_code v))"

definition thrown_json :: "thrown \<Rightarrow> json" where
  "thrown_json t = (case t of NoError v \<Rightarrow> ov_json v | _ \<Rightarrow> JError (thrown_text [] t))"

definition is_class :: "app_class \<Rightarrow> thrown \<Rightarrow> app_error option" where
  "is_class c t = (case t of App e \<Rightarrow> if ae_class e = c then Some e else None | _ \<Rightarrow> None)"

definition map_contract_error :: "(rat \<Rightarrow> string) \<Rightarrow> thrown \<Rightarrow> string option \<Rightarrow> app_error" where
  "map_contract_error num t operation =
     (case is_class BlockchainClass t of
        Some e \<Rightarrow> e
      | None \<Rightarrow>
          (let m = thrown_text ''Unknown contract error'' t
           in if js_includes ''insufficient'' m \<or> js_includes ''balance'' m then insufficient_balance num 0 0 None
              else if js_includes ''timeout'' m then chain_timeout num (get_or ''contract_call'' (truthy operation)) 30000
              else if js_includes ''network'' m \<or> js_includes ''connection'' m then chain_network_error m None
              else contract_execution_failed (get_or ''unknown'' (truthy operation)) (thrown_json t) (Some (JObj [(''errorCode'', thrown_code t)]))))"

definition map_auth_error :: "thrown \<Rightarrow> app_error" where
  "map_auth_error t =
     (case is_class AuthenticationClass t of
        Some e \<Rightarrow> e
      | None \<Rightarrow>
          (let m = thrown_text ''Authentication failed'' t
           in if js_includes ''expired'' m then token_expired
              else if js_includes ''invalid'' m \<or> js_includes ''malformed'' m then token_invalid
              else if js_includes ''missing'' m then missing_token
              else if js_includes ''mfa'' m \<or> js_includes ''2fa'' m then mfa_required
              else authentication_error (Some m) None))"

definition get_status_code :: "thrown \<Rightarrow> nat" where
  "get_status_code t = (case t of App e \<Rightarrow> ae_statusCode e | Zod issues e \<Rightarrow> 400 | SyntaxErr e \<Rightarrow> 400 | TypeErr e \<Rightarrow> 400 | _ \<Rightarrow> 500)"

definition get_error_code :: "thrown \<Rightarrow> string" where
  "get_error_code t = (case t of App e \<Rightarrow> ae_code e | Zod issues e \<Rightarrow> ''VALIDATION_ERROR'' | SyntaxErr e \<Rightarrow> ''INVALID_JSON'' | TypeErr e \<Rightarrow> ''TYPE_ERROR''
     | _ \<Rightarrow> ''INTERNAL_SERVER_ERROR'')"

definition is_operational :: "thrown \<Rightarrow> bool" where
  "is_operational t = (case t of App e \<Rightarrow> ae_operational e | Zod issues e \<Rightarrow> True | SyntaxErr e \<Rightarrow> True | TypeErr e \<Rightarrow> True | _ \<Rightarrow> False)"

definition format_error_response :: "thrown \<Rightarrow> string option \<Rightarrow> json" where
  "format_error_response t requestId =
     (let e = map_error t
      in JObj ([(''success'', JBool False), (''error'', JText (ae_message e)), (''code'', JText (ae_code e)),
           (''statusCode'', JNum (of_nat (ae_statusCode e)))] @ if_truthy ''details'' (ae_details e)
           @ (case truthy requestId of Some i \<Rightarrow> [(''requestId'', JText i)] | None \<Rightarrow> [])))"

section \<open>Versions\<close>

datatype version_state = Active | Deprecated | Sunset

record version_metadata =
  vm_version :: string
  vm_releaseDate :: int
  vm_status :: version_state
  vm_sunsetDate :: "int option"
  vm_successor :: "string option"
  vm_changesSummary :: string
  vm_breakingChanges :: "string list option"
  vm_migrationGuide :: "string option"

text \<open>The shipped table; dates are milliseconds.\<close>

definition version_table :: "(string, version_metadata) jsmap" where
  "version_table =
     [(''v1'', \<lparr>vm_version = ''v1'', vm_releaseDate = 1704067200000, vm_status = Active, vm_sunsetDate = None, vm_successor = None,
        vm_changesSummary = ''Initial API version with core features'', vm_breakingChanges = Some [], vm_migrationGuide = None\<rparr>),
      (''v2'', \<lparr>vm_version = ''v2'', vm_releaseDate = 1775001600000, vm_status = Active, vm_sunsetDate = None, vm_successor = None,
        vm_changesSummary = ''Enhanced versioning, improved response formats, additional features'',
        vm_breakingChanges = Some [''Response pagination format changed from page-based to cursor-based'',
          ''Error response structure improved with additional context'', ''Some deprecated endpoints removed''],
        vm_migrationGuide = Some ''See docs/API_VERSIONING_GUIDE.md for detailed migration instructions''\<rparr>)]"

definition current_version :: string where
  "current_version = ''v2''"

text \<open>The operations below take the table.\<close>

type_synonym versions = "(string, version_metadata) jsmap"

definition supported_versions :: "versions \<Rightarrow> string list" where
  "supported_versions T = map fst T"

definition is_version_supported :: "versions \<Rightarrow> string \<Rightarrow> bool" where
  "is_version_supported T v \<longleftrightarrow> v \<in> set (supported_versions T)"

text \<open>\<open>None\<close> is undefined, of which reading a field throws; the code asks for versions of the table only.\<close>

definition get_version_metadata :: "versions \<Rightarrow> string \<Rightarrow> version_metadata option" where
  "get_version_metadata T v = js_get T v"

definition is_version_deprecated :: "versions \<Rightarrow> string \<Rightarrow> bool option" where
  "is_version_deprecated T v = map_option (\<lambda>m. vm_status m = Deprecated \<or> vm_status m = Sunset) (get_version_metadata T v)"

definition sunset_date_of :: "version_metadata \<Rightarrow> int \<Rightarrow> int" where
  "sunset_date_of m now = get_or (now + 90 * 24 * 60 * 60 * 1000) (vm_sunsetDate m)"

record date_texts =
  dt_utc :: "int \<Rightarrow> string"
  dt_iso :: "int \<Rightarrow> string"

definition deprecation_headers :: "date_texts \<Rightarrow> versions \<Rightarrow> string \<Rightarrow> int \<Rightarrow> (string \<times> string) list" where
  "deprecation_headers D T v now =
     (case get_version_metadata T v of
        None \<Rightarrow> []
      | Some m \<Rightarrow>
          if is_version_deprecated T v \<noteq> Some True then []
          else (let sunset = sunset_date_of m now
                in [(''Deprecation'', ''true''), (''Sunset'', dt_utc D sunset), (''X-API-Deprecation-Date'', dt_iso D now),
                    (''X-API-Sunset-Date'', dt_iso D sunset),
                    (''Link'', ''</api/'' @ get_or current_version (truthy (vm_successor m)) @ ''>; rel=\"successor-version\"'')]
                   @ (case truthy (vm_migrationGuide m) of Some g \<Rightarrow> [(''X-API-Migration-Guide'', g)] | None \<Rightarrow> [])
                   @ (case vm_breakingChanges m of Some (b # bs) \<Rightarrow> [(''X-API-Breaking-Changes'', ''true'')] | _ \<Rightarrow> [])))"

text \<open>The leftmost match of \<open>/\/v(\d+)(\/|$)/\<close>.\<close>

definition version_here :: "string \<Rightarrow> string option" where
  "version_here s =
     (if js_starts ''/v'' s
      then (let ds = takeWhile is_digit (drop 2 s); rest = dropWhile is_digit (drop 2 s)
            in if ds \<noteq> [] \<and> (rest = [] \<or> hd rest = CHR ''/'') then Some ds else None)
      else None)"

fun version_match :: "string \<Rightarrow> string option" where
  "version_match [] = None"
| "version_match (c # s) = (case version_here (c # s) of Some ds \<Rightarrow> Some ds | None \<Rightarrow> version_match s)"

definition extract_version_from_path :: "versions \<Rightarrow> string \<Rightarrow> string option" where
  "extract_version_from_path T path =
     (case version_match path of
        None \<Rightarrow> None
      | Some ds \<Rightarrow> (let v = CHR ''v'' # ds in if is_version_supported T v then Some v else None))"

definition are_versions_compatible :: "string \<Rightarrow> string \<Rightarrow> bool" where
  "are_versions_compatible client endpoint \<longleftrightarrow> client = endpoint \<or> find is_digit client = find is_digit endpoint"

definition all_versions_metadata :: "versions \<Rightarrow> version_metadata list" where
  "all_versions_metadata T = List.map_filter (get_version_metadata T) (supported_versions T)"

definition version_content :: "versions \<Rightarrow> string \<Rightarrow> bool \<Rightarrow> json option" where
  "version_content T v breaking = map_option (\<lambda>m. if breaking then JList (map JText (get_or [] (vm_breakingChanges m))) else JText (vm_changesSummary m))
     (get_version_metadata T v)"

definition state_text :: "version_state \<Rightarrow> string" where
  "state_text s = (case s of Active \<Rightarrow> ''active'' | Deprecated \<Rightarrow> ''deprecated'' | Sunset \<Rightarrow> ''sunset'')"

definition version_info :: "date_texts \<Rightarrow> versions \<Rightarrow> json" where
  "version_info D T = JObj [(''currentVersion'', JText current_version), (''supportedVersions'', JList (map JText (supported_versions T))),
     (''versionsMetadata'', JList (map (\<lambda>(v, m). JObj [(''version'', JText v), (''status'', JText (state_text (vm_status m))),
        (''releaseDate'', JText (dt_iso D (vm_releaseDate m))), (''sunsetDate'', text_or_undef (map_option (dt_iso D) (vm_sunsetDate m))),
        (''successor'', text_or_undef (vm_successor m)), (''changesSummary'', JText (vm_changesSummary m))]) T))]"

subsection \<open>The version middleware\<close>

text \<open>What a request gets: the response of a refusal, or the version attached, with the headers, and the next handler.\<close>

datatype version_outcome = Refused nat json | Passed string "(string \<times> string) list"

definition unsupported_body :: "versions \<Rightarrow> string \<Rightarrow> json" where
  "unsupported_body T v = JObj [(''success'', JBool False), (''error'', JText (''Unsupported API version: '' @ v)), (''code'', JText ''UNSUPPORTED_API_VERSION''),
     (''supportedVersions'', JList (map JText (supported_versions T))), (''currentVersion'', JText current_version),
     (''details'', JObj [(''message'', JText (''The requested API version is not supported. Please upgrade to '' @ current_version @ ''.'')),
        (''availableVersions'', JList (map JText (supported_versions T)))])]"

definition api_version_middleware :: "date_texts \<Rightarrow> versions \<Rightarrow> string \<Rightarrow> int \<Rightarrow> version_outcome" where
  "api_version_middleware D T path now =
     (let requested = get_or current_version (extract_version_from_path T path)
      in if \<not> is_version_supported T requested then Refused 400 (unsupported_body T requested)
         else Passed requested ([(''X-API-Version'', requested), (''X-API-Current-Version'', current_version)]
           @ (if is_version_deprecated T requested = Some True then deprecation_headers D T requested now else [])))"

definition get_request_api_version :: "string option \<Rightarrow> string" where
  "get_request_api_version v = get_or current_version (truthy v)"

subsection \<open>The versions routes\<close>

text \<open>A table entry as JSON; its dates are printed as ISO texts.\<close>

definition metadata_json :: "date_texts \<Rightarrow> version_metadata \<Rightarrow> json" where
  "metadata_json D m = JObj [(''version'', JText (vm_version m)), (''releaseDate'', JText (dt_iso D (vm_releaseDate m))),
     (''status'', JText (state_text (vm_status m))), (''sunsetDate'', text_or_undef (map_option (dt_iso D) (vm_sunsetDate m))),
     (''successor'', text_or_undef (vm_successor m)), (''changesSummary'', JText (vm_changesSummary m)),
     (''breakingChanges'', (case vm_breakingChanges m of Some bs \<Rightarrow> JList (map JText bs) | None \<Rightarrow> JUndef)),
     (''migrationGuide'', text_or_undef (vm_migrationGuide m))]"

definition version_key :: "string \<Rightarrow> string" where
  "version_key v = (if js_starts ''v'' v then v else CHR ''v'' # v)"

definition ok_data :: "json \<Rightarrow> nat \<times> json" where
  "ok_data d = (200, JObj [(''success'', JBool True), (''data'', d)])"

definition versions_not_found :: "versions \<Rightarrow> string \<Rightarrow> nat \<times> json" where
  "versions_not_found T m = (404, JObj [(''success'', JBool False), (''error'', JText m), (''supportedVersions'', JList (map JText (supported_versions T)))])"

definition get_versions :: "date_texts \<Rightarrow> versions \<Rightarrow> nat \<times> json" where
  "get_versions D T = ok_data (version_info D T)"

definition metadata_or_undef :: "date_texts \<Rightarrow> versions \<Rightarrow> string \<Rightarrow> json" where
  "metadata_or_undef D T v = (case get_version_metadata T v of Some m \<Rightarrow> metadata_json D m | None \<Rightarrow> JUndef)"

definition get_current :: "date_texts \<Rightarrow> versions \<Rightarrow> nat \<times> json" where
  "get_current D T = ok_data (JObj [(''currentVersion'', JText current_version), (''metadata'', metadata_or_undef D T current_version)])"

definition get_version :: "date_texts \<Rightarrow> versions \<Rightarrow> string \<Rightarrow> nat \<times> json" where
  "get_version D T version =
     (let key = version_key version
      in if key \<notin> set (supported_versions T) then versions_not_found T (''Version '' @ key @ '' not found'')
         else ok_data (JObj [(''version'', JText key), (''metadata'', metadata_or_undef D T key)]))"

definition migration_guide :: "date_texts \<Rightarrow> versions \<Rightarrow> string \<Rightarrow> string \<Rightarrow> nat \<times> json" where
  "migration_guide D T from_version to_version =
     (let f = version_key from_version; t = version_key to_version
      in case (get_version_metadata T f, get_version_metadata T t) of
           (Some fm, Some tm) \<Rightarrow> ok_data (JObj [(''from'', JText f), (''to'', JText t), (''fromMetadata'', metadata_json D fm),
              (''toMetadata'', metadata_json D tm), (''breakingChanges'', JList (map JText (get_or [] (vm_breakingChanges tm)))),
              (''migrationGuide'', text_or_undef (vm_migrationGuide tm))])
         | _ \<Rightarrow> versions_not_found T ''One or both versions not found'')"

section \<open>Errors by version\<close>

record v2_error =
  v2_error :: string
  v2_code :: string
  v2_status :: nat
  v2_requestId :: string
  v2_timestamp :: string
  v2_details :: "json option"

datatype versioned_error = V1Error string nat | V2Error v2_error

text \<open>The fields \<open>message\<close>, \<open>status\<close>, \<open>code\<close> and \<open>details\<close> of an error; an \<open>AppError\<close> has a \<open>statusCode\<close> and no \<open>status\<close>.\<close>

definition standard_message :: "thrown \<Rightarrow> string" where
  "standard_message t = (case t of App e \<Rightarrow> ae_message e | Zod issues e \<Rightarrow> je_message e | SyntaxErr e \<Rightarrow> je_message e | TypeErr e \<Rightarrow> je_message e
     | RangeErr e \<Rightarrow> je_message e | OtherErr e \<Rightarrow> je_message e | NoError v \<Rightarrow> get_or [] (ov_message v))"

definition standard_status :: "thrown \<Rightarrow> nat option" where
  "standard_status t = (case t of App e \<Rightarrow> None | Zod issues e \<Rightarrow> je_status e | SyntaxErr e \<Rightarrow> je_status e | TypeErr e \<Rightarrow> je_status e
     | RangeErr e \<Rightarrow> je_status e | OtherErr e \<Rightarrow> je_status e | NoError v \<Rightarrow> None)"

definition standard_code :: "thrown \<Rightarrow> string option" where
  "standard_code t = (case t of App e \<Rightarrow> Some (ae_code e) | Zod issues e \<Rightarrow> je_code e | SyntaxErr e \<Rightarrow> je_code e | TypeErr e \<Rightarrow> je_code e
     | RangeErr e \<Rightarrow> je_code e | OtherErr e \<Rightarrow> je_code e | NoError v \<Rightarrow> ov_code v)"

definition standard_details :: "thrown \<Rightarrow> json option" where
  "standard_details t = (case t of App e \<Rightarrow> ae_details e | Zod issues e \<Rightarrow> je_details e | SyntaxErr e \<Rightarrow> je_details e | TypeErr e \<Rightarrow> je_details e
     | RangeErr e \<Rightarrow> je_details e | OtherErr e \<Rightarrow> je_details e | NoError v \<Rightarrow> None)"

definition status_or_500 :: "thrown \<Rightarrow> nat" where
  "status_or_500 t = (case standard_status t of Some n \<Rightarrow> if n = 0 then 500 else n | None \<Rightarrow> 500)"

text \<open>\<open>fresh\<close> is the id \<open>generateRequestId\<close> would make, \<open>now\<close> the time as an ISO text.\<close>

definition format_error_for_version :: "string \<Rightarrow> string \<Rightarrow> thrown \<Rightarrow> string \<Rightarrow> string option \<Rightarrow> versioned_error" where
  "format_error_for_version fresh now t version requestId =
     (let m = get_or ''An error occurred'' (truthy (Some (standard_message t)))
      in if version = ''v1'' then V1Error m (status_or_500 t)
         else V2Error \<lparr>v2_error = m, v2_code = get_or ''INTERNAL_ERROR'' (truthy (standard_code t)), v2_status = status_or_500 t,
           v2_requestId = get_or fresh (truthy requestId), v2_timestamp = now,
           v2_details = (if json_truthy (standard_details t) then standard_details t else None)\<rparr>)"

definition send_versioned_error :: "string \<Rightarrow> string \<Rightarrow> string option \<Rightarrow> thrown \<Rightarrow> string option \<Rightarrow> nat \<times> versioned_error" where
  "send_versioned_error fresh now apiVersion t requestId =
     (status_or_500 t, format_error_for_version fresh now t (get_request_api_version apiVersion) requestId)"

definition versioned_error_handler :: "string \<Rightarrow> string \<Rightarrow> string option \<Rightarrow> string option \<Rightarrow> thrown \<Rightarrow> nat \<times> versioned_error" where
  "versioned_error_handler fresh now apiVersion req_id t =
     (status_or_500 t, format_error_for_version fresh now t (get_request_api_version apiVersion) (Some (get_or fresh (truthy req_id))))"

definition create_standard_error :: "string \<Rightarrow> string \<Rightarrow> nat \<Rightarrow> json option \<Rightarrow> error_object" where
  "create_standard_error m code status details = (plain_error ''Error'' m)\<lparr>je_code := Some code, je_status := Some status, je_details := details\<rparr>"

definition ensure_error_compatibility :: "versioned_error \<Rightarrow> string \<Rightarrow> versioned_error" where
  "ensure_error_compatibility e version =
     (if version = ''v1''
      then (let (m, st) = (case e of V1Error m st \<Rightarrow> (m, st) | V2Error r \<Rightarrow> (v2_error r, v2_status r))
            in V1Error (get_or ''An error occurred'' (truthy (Some m))) (if st = 0 then 500 else st))
      else e)"

definition enrich_error :: "versioned_error \<Rightarrow> string \<Rightarrow> versioned_error" where
  "enrich_error e version =
     (case e of
        V2Error r \<Rightarrow> if version = ''v2''
          then V2Error (r\<lparr>v2_details := Some (JObj (js_set ''migrateToVersion'' (JText current_version)
            (js_set ''apiVersion'' (JText version) (spread_fields (v2_details r)))))\<rparr>)
          else e
      | V1Error m st \<Rightarrow> e)"

definition std_validation_error :: "string \<Rightarrow> string option \<Rightarrow> json option \<Rightarrow> error_object" where
  "std_validation_error m field v = create_standard_error m ''VALIDATION_ERROR'' 400
     (Some (JObj ((case truthy field of Some f \<Rightarrow> [(''field'', JText f)] | None \<Rightarrow> []) @ (case v of Some x \<Rightarrow> [(''value'', x)] | None \<Rightarrow> []))))"

definition std_authentication_error :: "string option \<Rightarrow> error_object" where
  "std_authentication_error m = create_standard_error (get_or ''Authentication required'' m) ''AUTHENTICATION_ERROR'' 401 None"

definition std_authorization_error :: "string option \<Rightarrow> error_object" where
  "std_authorization_error m = create_standard_error (get_or ''Not authorized to access this resource'' m) ''AUTHORIZATION_ERROR'' 403 None"

definition std_not_found_error :: "string \<Rightarrow> string option \<Rightarrow> error_object" where
  "std_not_found_error resource i =
     (case truthy i of
        Some x \<Rightarrow> create_standard_error (resource @ '' with id '' @ x @ '' not found'') ''NOT_FOUND'' 404
          (Some (JObj [(''resource'', JText resource), (''id'', JText x)]))
      | None \<Rightarrow> create_standard_error (resource @ '' not found'') ''NOT_FOUND'' 404 (Some (JObj [(''resource'', JText resource)])))"

definition std_conflict_error :: "string \<Rightarrow> json option \<Rightarrow> error_object" where
  "std_conflict_error m details = create_standard_error m ''CONFLICT'' 409 details"

definition std_rate_limit_error :: "rat option \<Rightarrow> error_object" where
  "std_rate_limit_error retryAfter = create_standard_error ''Too many requests. Please try again later.'' ''RATE_LIMIT_EXCEEDED'' 429
     (Some (JObj (case retryAfter of Some x \<Rightarrow> if x = 0 then [] else [(''retryAfter'', JNum x)] | None \<Rightarrow> [])))"

definition std_internal_error :: "string option \<Rightarrow> error_object" where
  "std_internal_error m = create_standard_error (get_or ''Internal server error'' m) ''INTERNAL_ERROR'' 500 None"

definition std_bad_gateway_error :: "string option \<Rightarrow> error_object" where
  "std_bad_gateway_error m = create_standard_error (get_or ''Bad gateway'' m) ''BAD_GATEWAY'' 502 None"

definition std_unavailable_error :: "string option \<Rightarrow> error_object" where
  "std_unavailable_error m = create_standard_error (get_or ''Service unavailable'' m) ''SERVICE_UNAVAILABLE'' 503 None"

section \<open>What holds of the answers\<close>

subsection \<open>The middleware and the mapper\<close>

lemma error_handler_status: "fst (error_handler dev t) = ae_statusCode (handled_error t)"
  by (simp add: error_handler_def Let_def)

text \<open>Errors of the domain: what their classes say of the answer, and what the middleware answers.\<close>

definition failure_ok :: "error_object \<Rightarrow> bool" where
  "failure_ok e \<longleftrightarrow> (\<exists>n. je_statusCode e = Some n \<and> 400 \<le> n \<and> n < 500) \<and> je_code e \<noteq> None"

lemma domain_failures_ok: "failure_ok (multi_sig_failure_error f)" "failure_ok (gamification_failure_error g)"
  by (cases f; simp add: failure_ok_def multi_sig_error_def domain_error_def) (cases g; simp add: failure_ok_def gamification_error_def domain_error_def)

text \<open>
  Every failure of the multi-signature and gamification classes carries a status between 400 and 499 and a code, and the
  middleware, which knows only \<open>AppError\<close>, answers each with 500 and the code of an internal error.
\<close>

theorem domain_status_lost:
  assumes "t = OtherErr (multi_sig_failure_error f) \<or> t = OtherErr (gamification_failure_error g)"
  shows "\<exists>e. t = OtherErr e \<and> failure_ok e \<and> fst (error_handler dev t) = 500 \<and> ae_code (handled_error t) = ''INTERNAL_SERVER_ERROR''"
  using assms domain_failures_ok by (auto simp: error_handler_status handled_error_def from_unknown_def internal_server_error_def app_error_def)

text \<open>
  The middleware adds the stack of an error only in development; but the stack of any error that is not of its classes is
  put among the details, and the details are answered everywhere.
\<close>

theorem unknown_stack_answered:
  assumes "t \<in> {SyntaxErr e, TypeErr e, RangeErr e, OtherErr e}"
  shows "\<exists>fs ds. snd (error_handler False t) = JObj fs \<and> js_get fs ''details'' = Some (JObj ds) \<and> js_get ds ''stack'' = Some (JText (je_stack e))"
  using assms by (auto simp: error_handler_def handled_error_def from_unknown_def internal_server_error_def app_error_def Let_def if_truthy_def
      json_truthy_def)

text \<open>An error of the classes is answered with its own status, message and code, and without a stack outside development.\<close>

theorem app_error_answered:
  "error_handler dev (App e) = (ae_statusCode e,
     (case to_json e of JObj fs \<Rightarrow> JObj (fs @ (if dev then [(''stack'', JText (ae_stack e))] else []))))"
  by (simp add: error_handler_def handled_error_def Let_def to_json_def)

text \<open>Mapping an error that is already mapped leaves it.\<close>

theorem map_error_idempotent: "map_error (App (map_error t)) = map_error t"
  by (simp add: map_error_def)

text \<open>
  The mapper answers two questions twice, and its answers agree on the status except for range errors (400 when mapped, 500
  when asked), and on being operational likewise.
\<close>

theorem mapper_status_agrees:
  "ae_statusCode (map_error t) = get_status_code t \<longleftrightarrow> (\<nexists>e. t = RangeErr e)"
  by (cases t) (auto simp: map_error_def get_status_code_def with_original_def validation_error_def app_error_def from_zod_errors_def
      from_unknown_def internal_server_error_def)

theorem mapper_operational_agrees:
  "ae_operational (map_error t) = is_operational t \<longleftrightarrow> (\<nexists>e. t = RangeErr e)"
  by (cases t) (auto simp: map_error_def is_operational_def with_original_def validation_error_def app_error_def from_zod_errors_def
      from_unknown_def internal_server_error_def)

text \<open>
  The middleware and the mapper agree on the status of exactly the errors that are not syntax, type or range errors; those a
  request gets as 500, the mapper as 400.
\<close>

theorem middleware_is_not_the_mapper:
  "fst (error_handler dev t) = ae_statusCode (map_error t) \<longleftrightarrow> (\<nexists>e. t = SyntaxErr e \<or> t = TypeErr e \<or> t = RangeErr e)"
  by (cases t) (auto simp: error_handler_status handled_error_def map_error_def with_original_def validation_error_def app_error_def from_zod_errors_def
      from_unknown_def internal_server_error_def)

text \<open>
  A contract error that is not yet one becomes one: 400 when the text speaks of a balance, with both amounts zero, 504 when it
  speaks of a timeout, 503 of the network, 500 otherwise, in this order.
\<close>

theorem contract_error_exact:
  assumes "is_class BlockchainClass t = None"
  defines "m \<equiv> thrown_text ''Unknown contract error'' t"
  shows "ae_class (map_contract_error num t operation) = BlockchainClass
    \<and> ae_statusCode (map_contract_error num t operation) =
        (if js_includes ''insufficient'' m \<or> js_includes ''balance'' m then 400 else if js_includes ''timeout'' m then 504
         else if js_includes ''network'' m \<or> js_includes ''connection'' m then 503 else 500)"
  using assms by (simp add: map_contract_error_def Let_def insufficient_balance_def chain_timeout_def chain_network_error_def contract_execution_failed_def
      blockchain_error_def app_error_def)

text \<open>Every authentication failure becomes a 401.\<close>

theorem auth_error_401:
  assumes "is_class AuthenticationClass t = None"
  shows "ae_statusCode (map_auth_error t) = 401 \<and> ae_class (map_auth_error t) = AuthenticationClass"
  using assms by (simp add: map_auth_error_def Let_def token_expired_def token_invalid_def missing_token_def mfa_required_def auth_reason_def
      authentication_error_def app_error_def)

subsection \<open>Versions\<close>

lemma version_match_starts: "version_here s = Some ds \<Longrightarrow> s \<noteq> [] \<Longrightarrow> version_match s = Some ds"
  by (cases s) simp_all

lemma digits_then_rest:
  assumes "list_all is_digit ds" and "rest = [] \<or> hd rest = CHR ''/''"
  shows "takeWhile is_digit (ds @ rest) = ds \<and> dropWhile is_digit (ds @ rest) = rest"
proof -
  have "rest = [] \<or> \<not> is_digit (hd rest)" using assms(2) by (auto simp: is_digit_def)
  then have "takeWhile is_digit rest = []" "dropWhile is_digit rest = rest" by (cases rest; auto)+
  moreover have "\<forall>x \<in> set ds. is_digit x" using assms(1) by (simp add: list_all_iff)
  ultimately show ?thesis by (simp add: takeWhile_append2 dropWhile_append2)
qed

lemma version_here_iff:
  "version_here s = Some ds \<longleftrightarrow> (\<exists>rest. s = ''/v'' @ ds @ rest \<and> ds \<noteq> [] \<and> list_all is_digit ds \<and> (rest = [] \<or> hd rest = CHR ''/''))"
proof
  assume v: "version_here s = Some ds"
  then have p: "js_starts ''/v'' s" by (auto simp: version_here_def split: if_splits)
  then have "s = ''/v'' @ drop 2 s" using append_take_drop_id [of 2 s] by (simp add: js_starts_def numeral_2_eq_2)
  then obtain u where u: "s = ''/v'' @ u" by blast
  then show "\<exists>rest. s = ''/v'' @ ds @ rest \<and> ds \<noteq> [] \<and> list_all is_digit ds \<and> (rest = [] \<or> hd rest = CHR ''/'')"
    using v p by (intro exI [of _ "dropWhile is_digit u"]) (auto simp: version_here_def Let_def list_all_iff dest: set_takeWhileD split: if_splits)
next
  assume "\<exists>rest. s = ''/v'' @ ds @ rest \<and> ds \<noteq> [] \<and> list_all is_digit ds \<and> (rest = [] \<or> hd rest = CHR ''/'')"
  then obtain rest where r: "s = ''/v'' @ ds @ rest" "ds \<noteq> []" "list_all is_digit ds" "rest = [] \<or> hd rest = CHR ''/''" by blast
  from digits_then_rest [OF r(3,4)] show "version_here s = Some ds" using r by (auto simp: version_here_def js_starts_def Let_def)
qed

text \<open>The version of a path is the one of its first segment that is a \<open>v\<close> and digits, when it is supported.\<close>

theorem version_of_path:
  "version_match path = Some ds \<longleftrightarrow> (\<exists>pre. \<exists>s. path = pre @ s \<and> version_here s = Some ds \<and> (\<forall>a b. pre = a @ b \<longrightarrow> b \<noteq> [] \<longrightarrow> version_here (b @ s) = None))"
proof (induction path)
  case Nil
  show ?case by (simp add: version_here_iff)
next
  case (Cons c path)
  show ?case
  proof (cases "version_here (c # path)")
    case (Some e)
    have "pre = []" if "c # path = pre @ s" "\<forall>a b. pre = a @ b \<longrightarrow> b \<noteq> [] \<longrightarrow> version_here (b @ s) = None" for pre s
      using that(2) [rule_format, of "[]" pre] that(1) Some by auto
    show ?thesis
    proof
      assume "version_match (c # path) = Some ds"
      then show "\<exists>pre s. c # path = pre @ s \<and> version_here s = Some ds \<and> (\<forall>a b. pre = a @ b \<longrightarrow> b \<noteq> [] \<longrightarrow> version_here (b @ s) = None)"
        using Some by (intro exI [of _ "[]"] exI [of _ "c # path"]) simp
    next
      assume "\<exists>pre s. c # path = pre @ s \<and> version_here s = Some ds \<and> (\<forall>a b. pre = a @ b \<longrightarrow> b \<noteq> [] \<longrightarrow> version_here (b @ s) = None)"
      then obtain pre s where p: "c # path = pre @ s" "version_here s = Some ds" "\<forall>a b. pre = a @ b \<longrightarrow> b \<noteq> [] \<longrightarrow> version_here (b @ s) = None"
        by blast
      from this(1,3) have "pre = []" by (rule \<open>\<And>pre s. c # path = pre @ s \<Longrightarrow> \<forall>a b. pre = a @ b \<longrightarrow> b \<noteq> [] \<longrightarrow> version_here (b @ s) = None \<Longrightarrow> pre = []\<close>)
      then have "version_here (c # path) = Some ds" using p(1,2) by simp
      then show "version_match (c # path) = Some ds" by simp
    qed
  next
    case None
    then have "(\<exists>pre s. c # path = pre @ s \<and> version_here s = Some ds \<and> (\<forall>a b. pre = a @ b \<longrightarrow> b \<noteq> [] \<longrightarrow> version_here (b @ s) = None))
      \<longleftrightarrow> (\<exists>pre s. path = pre @ s \<and> version_here s = Some ds \<and> (\<forall>a b. pre = a @ b \<longrightarrow> b \<noteq> [] \<longrightarrow> version_here (b @ s) = None))"
      (is "?l \<longleftrightarrow> ?r")
    proof (intro iffI)
      assume ?l
      then obtain pre s where p: "c # path = pre @ s" "version_here s = Some ds" "\<And>a b. pre = a @ b \<Longrightarrow> b \<noteq> [] \<Longrightarrow> version_here (b @ s) = None" by blast
      then obtain pre' where "pre = c # pre'" "path = pre' @ s" using None by (cases pre) auto
      moreover have "version_here (b @ s) = None" if "pre' = a @ b" "b \<noteq> []" for a b
        using p(3) [of "c # a" b] that \<open>pre = c # pre'\<close> by simp
      ultimately show ?r using p(2) by blast
    next
      assume ?r
      then obtain pre s where p: "path = pre @ s" "version_here s = Some ds" "\<And>a b. pre = a @ b \<Longrightarrow> b \<noteq> [] \<Longrightarrow> version_here (b @ s) = None" by blast
      have "version_here (b @ s) = None" if "c # pre = a @ b" "b \<noteq> []" for a b
        using that p None by (cases a) auto
      then show ?l using p by (intro exI [of _ "c # pre"] exI [of _ s]) auto
    qed
    then show ?thesis using None Cons by simp
  qed
qed

lemma supported_shipped: "is_version_supported version_table v \<longleftrightarrow> v = ''v1'' \<or> v = ''v2''"
  by (auto simp: is_version_supported_def supported_versions_def version_table_def)

text \<open>
  The middleware never refuses a request: a version that is not supported is not extracted, and the request is passed on as
  one of the current version. What is passed on is the path's version if that is supported, and the current one otherwise.
\<close>

theorem unsupported_version_passes:
  assumes "is_version_supported T current_version"
  shows "\<exists>hs. api_version_middleware D T path now = Passed (get_or current_version (extract_version_from_path T path)) hs"
  using assms by (auto simp: api_version_middleware_def Let_def extract_version_from_path_def split: option.split)

text \<open>The path \<open>/vN\<close> of a supported version, alone or followed by more segments, gives that version back.\<close>

theorem version_path_roundtrip:
  assumes "is_version_supported T (CHR ''v'' # ds)" and "ds \<noteq> []" and "list_all is_digit ds" and "rest = [] \<or> hd rest = CHR ''/''"
  shows "extract_version_from_path T (CHR ''/'' # CHR ''v'' # ds @ rest) = Some (CHR ''v'' # ds)"
proof -
  have "version_here (''/v'' @ ds @ rest) = Some ds" using assms(2-4) unfolding version_here_iff by blast
  then have "version_match (''/v'' @ ds @ rest) = Some ds" by (rule version_match_starts) simp
  then show ?thesis using assms(1) by (simp add: extract_version_from_path_def)
qed

text \<open>
  As shipped no version is deprecated, so no request gets a deprecation header. With a table that deprecates a version, every
  request for it gets them, with the sunset date of the table or one that is always ninety days ahead.
\<close>

theorem deprecation_header_exact:
  "(''Deprecation'', ''true'') \<in> set (deprecation_headers D T v now) \<longleftrightarrow> is_version_deprecated T v = Some True"
  by (auto simp: deprecation_headers_def is_version_deprecated_def Let_def split: option.splits list.splits)

theorem shipped_never_deprecated: "deprecation_headers D version_table v now = []"
  by (auto simp: deprecation_headers_def is_version_deprecated_def get_version_metadata_def version_table_def)

theorem sunset_recedes:
  assumes "get_version_metadata T v = Some m" and "vm_sunsetDate m = None" and "is_version_deprecated T v = Some True"
  shows "(''X-API-Sunset-Date'', dt_iso D (now + 7776000000)) \<in> set (deprecation_headers D T v now)"
  using assms by (simp add: deprecation_headers_def Let_def sunset_date_of_def)

text \<open>Compatible versions that are supported are equal; in general the first digits decide, so version 1 and 10 are compatible.\<close>

theorem compatible_shipped:
  assumes "is_version_supported version_table a" and "is_version_supported version_table b"
  shows "are_versions_compatible a b \<longleftrightarrow> a = b"
  using assms by (auto simp: supported_shipped are_versions_compatible_def is_digit_def)

theorem one_digit_decides:
  assumes "is_digit d"
  shows "are_versions_compatible (CHR ''v'' # d # ds) (CHR ''v'' # d # es)"
  using assms by (simp add: are_versions_compatible_def is_digit_def)

subsection \<open>Errors by version\<close>

text \<open>Formatting an error for the second version and reducing the result to the first gives what formatting for the first gives.\<close>

theorem v2_reduces_to_v1:
  "ensure_error_compatibility (format_error_for_version fresh now t v requestId) ''v1'' = format_error_for_version fresh now t ''v1'' requestId'"
  by (auto simp: ensure_error_compatibility_def format_error_for_version_def Let_def status_or_500_def truthy_def split: option.split)

text \<open>Reducing is idempotent, and reduced errors have a text and a status.\<close>

theorem reduced_is_reduced:
  "ensure_error_compatibility (ensure_error_compatibility e ''v1'') ''v1'' = ensure_error_compatibility e ''v1''"
  by (cases e) (auto simp: ensure_error_compatibility_def Let_def truthy_def)

text \<open>
  An error of the \<open>AppError\<close> classes is sent with status 500 by the versioned handler, whatever its own status: the handler
  reads \<open>status\<close>, the classes have \<open>statusCode\<close>. An error made by \<open>createStandardError\<close> is sent with its status and code.
\<close>

theorem versioned_app_error_500:
  "fst (send_versioned_error fresh now v (App e) r) = 500 \<and> fst (versioned_error_handler fresh now v i (App e)) = 500"
  by (simp add: send_versioned_error_def versioned_error_handler_def status_or_500_def standard_status_def)

theorem standard_error_sent:
  assumes "status \<noteq> 0" and "code \<noteq> []" and "m \<noteq> []" and "v \<noteq> Some ''v1''"
  shows "\<exists>r. send_versioned_error fresh now v (OtherErr (create_standard_error m code status details)) (Some i) = (status, V2Error r)
    \<and> v2_error r = m \<and> v2_code r = code \<and> v2_status r = status"
proof -
  have "get_request_api_version v \<noteq> ''v1''" using assms(4) by (auto simp: get_request_api_version_def truthy_def current_version_def split: option.split)
  then show ?thesis using assms(1-3)
    by (simp add: send_versioned_error_def format_error_for_version_def status_or_500_def standard_status_def standard_message_def standard_code_def
        create_standard_error_def plain_error_def Let_def truthy_def)
qed

section \<open>Examples\<close>

theorem domain_status_lost_witness:
  "\<exists>e. OtherErr (gamification_failure_error (RateLimitExceeded ''follow'' 60)) = OtherErr e \<and> je_statusCode e = Some 429
   \<and> fst (error_handler False (OtherErr (gamification_failure_error (RateLimitExceeded ''follow'' 60)))) = 500"
proof -
  have "je_statusCode (gamification_failure_error (RateLimitExceeded ''follow'' 60)) = Some 429" by (simp add: gamification_error_def domain_error_def)
  then show ?thesis using domain_status_lost [where t = "OtherErr (gamification_failure_error (RateLimitExceeded ''follow'' 60))"
      and g = "RateLimitExceeded ''follow'' 60" and dev = False] by auto
qed

theorem unknown_stack_answered_witness:
  "\<exists>fs ds. snd (error_handler False (TypeErr (plain_error ''TypeError'' ''x is undefined''))) = JObj fs \<and> js_get fs ''details'' = Some (JObj ds)
    \<and> js_get ds ''stack'' = Some (JText ''TypeError: x is undefined'')"
  using unknown_stack_answered [of "TypeErr (plain_error ''TypeError'' ''x is undefined'')" "plain_error ''TypeError'' ''x is undefined''"]
  by (simp add: plain_error_def)

theorem contract_error_exact_witness:
  "ae_statusCode (map_contract_error (\<lambda>x. ''0'') (OtherErr (plain_error ''Error'' ''rpc timeout'')) None) = 504"
proof -
  have t: "thrown_text ''Unknown contract error'' (OtherErr (plain_error ''Error'' ''rpc timeout'')) = ''rpc timeout''"
    by (simp add: thrown_text_def plain_error_def)
  have "is_class BlockchainClass (OtherErr (plain_error ''Error'' ''rpc timeout'')) = None" by (simp add: is_class_def)
  from contract_error_exact [OF this, where num = "\<lambda>x. ''0''" and operation = None] show ?thesis unfolding t by (simp add: js_starts_def)
qed

theorem unsupported_version_passes_witness:
  "\<exists>hs. api_version_middleware \<lparr>dt_utc = (\<lambda>d. []), dt_iso = (\<lambda>d. [])\<rparr> version_table ''/v9/groups'' 0 = Passed ''v2'' hs"
proof -
  have "is_version_supported version_table current_version" by (simp add: supported_shipped current_version_def)
  moreover have "extract_version_from_path version_table ''/v9/groups'' = None"
    by (simp add: extract_version_from_path_def version_here_def js_starts_def is_digit_def supported_shipped Let_def)
  ultimately show ?thesis using unsupported_version_passes [of version_table "\<lparr>dt_utc = (\<lambda>d. []), dt_iso = (\<lambda>d. [])\<rparr>" "''/v9/groups''" 0]
    by (simp add: current_version_def)
qed

theorem version_path_roundtrip_witness: "extract_version_from_path version_table ''/v1/groups'' = Some ''v1''"
  using version_path_roundtrip [of version_table "''1''" "''/groups''"] by (simp add: supported_shipped is_digit_def)

theorem standard_error_sent_witness:
  "\<exists>r. send_versioned_error [] [] None (OtherErr (create_standard_error ''gone'' ''NOT_FOUND'' 404 None)) (Some ''r'') = (404, V2Error r)"
  using standard_error_sent [of 404 "''NOT_FOUND''" "''gone''" None "[]" "[]" None "''r''"] by auto

theorem one_digit_decides_witness: "are_versions_compatible ''v1'' ''v10''"
  using one_digit_decides [of "CHR ''1''" "[]" "''0''"] by (simp add: is_digit_def)

end
