(* ===== verification/Spec2Isabelle.thy ===== *)
theory Spec2Isabelle
  imports ResponseCache Gateway SorobanClient Protection Alerting MultiSig Saga Voting Shards Webhooks Tables Offline Rewards ContractReads Schedule Payouts Gamification Referrals ABTests BackendAuth AuthSession Notifications ChainSync TxTracker Anomalies ChainServices Insights Chat Dex FraudScores MobileWallet Reminders ApiErrors
begin

text \<open>
  Soroban Ajo is a savings platform: members of a group pay a contribution each cycle and one of them receives the
  payout. The money is held by a Soroban contract; a Node backend (\<open>src/backend/src\<close>), a web client
  (\<open>src/frontend/src\<close>) and a phone app (\<open>src/mobile/src\<close>) are written around it in TypeScript. This development
  models that TypeScript code: one theory per component, each with the component's state, one definition per function or
  method, and the lemmas that make it correct. This theory imports them all.

  \<^bold>\<open>How the code is read.\<close> Objects are records, and their private maps are fields. A method is a function of the state
  that returns its result, or the error it throws, together with the state after it, so that changes made before a
  throw are kept (\<open>JsPrelude\<close>: \<open>js_method\<close>, \<open>js_then\<close>, \<open>js_catch\<close>). A \<open>Map\<close> is an association list in insertion
  order, a \<open>Set\<close> a distinct list. \<open>undefined\<close> and \<open>null\<close> are \<open>None\<close>. The clock is an argument or a field of the state.
  Integers that the code keeps at a width (hashes, contract values) are words, other integers unbounded, quotients exact
  rationals or reals. What is not in the repository -- the database client, Redis, Horizon and the RPC node, wallets,
  cryptography, mail, random sources -- is a record of functions or of operations on an abstract state, with the
  documented laws a property needs as a named predicate; each such property has a witness with a concrete instance.

  \<^bold>\<open>The client.\<close>
  \<^item> \<open>ResponseCache\<close>: \<open>frontend/src/services/cache.ts\<close>. Entries, tags, stale-while-revalidate, eviction, metrics, rate
    limit; the size and tag invariants over any run, what each kind of invalidation removes, freshness of reads.
  \<^item> \<open>SorobanClient\<close>, \<open>ContractReads\<close>: \<open>frontend/src/services/soroban.ts\<close>. The breaker, the retry wrapper, classification
    of errors, cached reads through the cache of \<open>ResponseCache\<close>, the writes with their pipeline (build, simulate, sign,
    submit, poll), decoding of contract values, penalties. Bounded attempts, a hash only for a confirmed transaction.
  \<^item> \<open>AuthSession\<close>: \<open>services/authService.ts\<close>, \<open>utils/freighter.ts\<close>, \<open>utils/lobstr.ts\<close>, \<open>hooks/useAuth.ts\<close>. Encrypted
    storage of one session refines an abstract kept session; agreement of the store's fields.
  \<^item> \<open>Offline\<close>: the phone's and the browser's queue and merge of offline rows; the merge keeps of each id
    the last of the latest rows.
  \<^item> \<open>Tables\<close>: pagination of the backend (\<open>utils/pagination.ts\<close>) and the table hooks of the browser.

  \<^bold>\<open>The backend's edge.\<close>
  \<^item> \<open>Resilience\<close>: the contract of a circuit breaker as a locale, interpreted on the gateway's and the client's breaker.
  \<^item> \<open>Gateway\<close>: \<open>backend/src/gateway\<close>. Rate limiter with its timers as a step relation, authentication, breakers.
  \<^item> \<open>Protection\<close>: the attack detector and the throttle. Exact load bounds over windows.
  \<^item> \<open>BackendAuth\<close>: \<open>routes/auth.ts\<close> with the code of time-based, SMS and backup factors. Which requests lead to a token.
  \<^item> \<open>Alerting\<close>: alerts with cooldown, active alerts and history as references into a heap, health monitor.
  \<^item> \<open>Notifications\<close>, \<open>Webhooks\<close>: delivery to sockets and offline queues; the webhook queue as a step relation.
  \<^item> \<open>Shards\<close>: the 32-bit hash and the ranges of the shard router.

  \<^bold>\<open>The backend's core.\<close>
  \<^item> \<open>ChainSync\<close>, \<open>TxTracker\<close>: event stream, parser, processor, handlers and tables; the handlers call \<open>Notifications\<close> and
    \<open>Webhooks\<close>. Payloads of any shape are taken or refused as the code does. Contributions equal the fold of a
    reference booking; a repeated one does nothing; polling ends within its bounds.
  \<^item> \<open>ChainServices\<close>: the backend's own access to the contract, with the exported signatures of the Rust contract.
  \<^item> \<open>MultiSig\<close>, \<open>Saga\<close>, \<open>Voting\<close>: proposals with a threshold, sagas with compensation, disputes and refunds by vote
    (two interpretations of one locale \<open>majority_vote\<close>).
  \<^item> \<open>Schedule\<close>, \<open>Payouts\<close>: due dates, windows and their enforcement; the scan for due payouts and its jobs.
  \<^item> \<open>Rewards\<close>, \<open>Referrals\<close>, \<open>Gamification\<close>: rewards with the fraud flags, referral codes and their completion (which
    asks the fraud check of \<open>Rewards\<close>' component), points, levels, achievements, challenges.
  \<^item> \<open>ABTests\<close>, \<open>Anomalies\<close>, \<open>Insights\<close>: assignment and evaluation of A/B tests, anomaly rules, business figures.
  \<^item> \<open>Chat\<close>: rooms, messages with their edit window and deletion, reactions, read marks, search, and the routes before
    them; what is kept of each message over any run, who can read and write what.
  \<^item> \<open>Dex\<close>: quotes over order books and path payments and the swap that submits one transaction; the quote is the best
    path, and what is executed may differ from it.
  \<^item> \<open>FraudScores\<close>: the scores of contributions, withdrawals and patterns with their alerts; exact severities, and which
    histories the scores cannot see.
  \<^item> \<open>Reminders\<close>: preferences, channels and the reminder jobs over the notification service; whom a job reminds.
  \<^item> \<open>ApiErrors\<close>: the error classes and their mapping to statuses and bodies, error handlers, versions of the API: which
    status every thrown value ends in, and how the two versions of an error body correspond.

  \<^bold>\<open>The phone's browser.\<close>
  \<^item> \<open>MobileWallet\<close>: \<open>frontend/src/utils/mobileWallet.ts\<close>, \<open>deepLink.ts\<close>, \<open>walletDetection.ts\<close>. Deep links and their round
    trip, requests stored until the wallet calls back, detection with its timeout.

  \<^bold>\<open>Interfaces.\<close> \<open>keyed_store\<close>, \<open>keyed_store_del\<close> and \<open>bounded_log\<close> (\<open>JsPrelude\<close>) are interpreted on the \<open>Map\<close> operations,
  on the alert history and log and on the offline notifications; \<open>circuit_breaker\<close> (\<open>Resilience\<close>) on two breakers;
  \<open>offline_queue\<close> (\<open>Offline\<close>) on the phone's and the browser's queue; \<open>majority_vote\<close> (\<open>Voting\<close>) on disputes and refunds;
  \<open>growing\<close> (\<open>Gamification\<close>) on the points ledger; \<open>unseen\<close> (\<open>Reminders\<close>), the changes a job cannot see, on the
  contributions and on the preferences that are stored under another key.

  \<^bold>\<open>Loops.\<close> Loops over data are recursive functions. Polling loops carry their own bound: \<open>poll_until\<close>
  (\<open>ChainServices\<close>) ends because each pause brings the deadline nearer, the tracker's loop after twenty answers, the
  retry wrapper after \<open>maxRetries + 1\<close> attempts, code generation after its attempts per length. The search for the next due
  date may run forever for a calendar step that does not advance: it is \<open>partial_function (option)\<close>, not returning is the
  error \<open>NeverReturns\<close>, and for a valid frequency and an advancing calendar it is shown to return the first due date after
  now. \<open>follow_cursors\<close>, the client that reads all pages, has fuel, one unit per request; more fuel than there are rows is
  shown to be enough. Runs of a component are lists of its operations or inductive step relations, of any length.

  \<^bold>\<open>Interleaving.\<close> Timers and queues that interleave with calls are steps of a relation (\<open>Gateway\<close>, \<open>Webhooks\<close>,
  \<open>ChainSync\<close>'s listener) or events of a run (\<open>Protection\<close>). Elsewhere one asynchronous call runs to its end before the
  next; races between two calls at an \<open>await\<close> are not modelled.

  \<^bold>\<open>Time.\<close> In \<open>TxTracker\<close> each query and table call takes the time the host gives it. In \<open>SorobanClient\<close> the
  outside world carries the clock and any call may move it. In the polls of \<open>ChainServices\<close> only the pauses advance the
  clock, the calls between them take no time.

  \<^bold>\<open>Columns and tables that the schema lacks.\<close> Some of the code asks the database for what
  \<open>backend/prisma/schema.prisma\<close> does not have: the balance of a group and the transactions (\<open>Saga\<close>), the tracked
  transactions (\<open>TxTracker\<close>), fraud events and alerts (\<open>FraudScores\<close>), the deadlines of a group (\<open>Reminders\<close>). There the model
  has both readings, the database the code is written for and the one it has, where such calls throw or read
  \<open>undefined\<close>; the theorems say which they are about, and the manifest records each case as a finding.

  \<^bold>\<open>Not modelled.\<close> The Rust contracts (another language); React and React Native rendering, routing and styling; Express
  controllers that only validate and pass on; the database schema, migrations and seeds (the database is a parameter);
  thin wrappers of third-party services (mail, SMS, push, file storage, search index); the generated live-update
  prototype; translations, documents and infrastructure. Inside modelled components: console and logger output, Prometheus
  gauges, and the operations each theory's opening text names as left out.
\<close>

end
